(* ===== verification/Scope_Prelude.thy ===== *)
theory Scope_Prelude
  imports Main "HOL-Library.Char_ord" "HOL-Library.List_Lexorder" "HOL-Library.Sublist"
begin

text \<open>
  Shared vocabulary of the development.

  \<^item> Rust's \<^verbatim>\<open>Result<T, E>\<close> is the sum \<open>'e + 'a\<close> with \<open>Inl\<close> for \<^verbatim>\<open>Err\<close>.
  \<^item> A Rust \<^verbatim>\<open>str\<close> is the list of its UTF-8 bytes, so \<open>string\<close> (a list of 8-bit \<open>char\<close>)
    carries it exactly; \<^verbatim>\<open>len()\<close> is \<open>length\<close> and \<^verbatim>\<open>Ord\<close> on \<^verbatim>\<open>str\<close>, which compares bytes,
    is the lexicographic order of \<open>List_Lexorder\<close> over \<open>Char_ord\<close>.
  \<^item> \<^verbatim>\<open>BTreeMap\<close> is an association list whose keys are strictly ascending (the order its
    iterators yield), with the interface stated as the locale \<open>ordered_map\<close>.
  \<^item> \<^verbatim>\<open>BTreeSet\<close> is the strictly ascending list of its elements.
  \<^item> \<^verbatim>\<open>binary_search_by\<close> is the bisection of the standard library.
\<close>

named_theorems str_simps \<open>string operations of the standard library\<close>
named_theorems bt_simps \<open>facts about ordered association lists\<close>
named_theorems wf_intros \<open>well-formedness is kept by the operations\<close>

section \<open>Results\<close>

type_synonym ('e, 'a) result = "'e + 'a"

abbreviation Err :: "'e \<Rightarrow> ('e, 'a) result" where "Err \<equiv> Inl"
abbreviation Ok :: "'a \<Rightarrow> ('e, 'a) result" where "Ok \<equiv> Inr"

definition and_then :: "('e, 'a) result \<Rightarrow> ('a \<Rightarrow> ('e, 'b) result) \<Rightarrow> ('e, 'b) result" where
  "and_then r f = (case r of Inl e \<Rightarrow> Inl e | Inr a \<Rightarrow> f a)"

definition map_err :: "('e \<Rightarrow> 'f) \<Rightarrow> ('e, 'a) result \<Rightarrow> ('f, 'a) result" where
  "map_err f r = (case r of Inl e \<Rightarrow> Inl (f e) | Inr a \<Rightarrow> Inr a)"

definition is_ok :: "('e, 'a) result \<Rightarrow> bool" where
  "is_ok r = (case r of Inl _ \<Rightarrow> False | Inr _ \<Rightarrow> True)"

lemma and_then_simps [simp]:
  "and_then (Inl e) f = Inl e" "and_then (Inr a) f = f a"
  by (simp_all add: and_then_def)

lemma map_err_simps [simp]:
  "map_err g (Inl e) = Inl (g e)" "map_err g (Inr a) = Inr a"
  by (simp_all add: map_err_def)

lemma is_ok_simps [simp]: "\<not> is_ok (Inl e)" "is_ok (Inr a)"
  by (simp_all add: is_ok_def)

lemma and_then_Ok_iff: "and_then r f = Inr b \<longleftrightarrow> (\<exists>a. r = Inr a \<and> f a = Inr b)"
  by (cases r) auto

lemma map_err_Ok_iff [simp]: "map_err g r = Inr b \<longleftrightarrow> r = Inr b"
  by (cases r) auto

lemma is_ok_iff: "is_ok r \<longleftrightarrow> (\<exists>a. r = Inr a)"
  by (cases r) auto

text \<open>\<^verbatim>\<open>for x in xs { check(x)?; }\<close>: the first error in list order.\<close>

fun check_all :: "('a \<Rightarrow> ('e, unit) result) \<Rightarrow> 'a list \<Rightarrow> ('e, unit) result" where
  "check_all f [] = Ok ()"
| "check_all f (x # xs) = and_then (f x) (\<lambda>_. check_all f xs)"

lemma check_all_Ok_iff: "check_all f xs = Inr () \<longleftrightarrow> (\<forall>x \<in> set xs. f x = Inr ())"
  by (induction xs) (auto simp: and_then_Ok_iff)

lemma find_SomeD: "find P xs = Some x \<Longrightarrow> x \<in> set xs \<and> P x"
  by (auto simp: find_Some_iff)

lemma find_ex_iff: "(\<exists>x. find P xs = Some x) \<longleftrightarrow> (\<exists>x \<in> set xs. P x)"
  by (induction xs) auto

section \<open>Domain errors\<close>

text \<open>\<^verbatim>\<open>crates/scope-domain/src/error.rs\<close>: every domain failure is a kind and a message.\<close>

datatype domain_error_kind =
  InvalidInput | Conflict | Forbidden | AuthenticationFailed | RateLimited | NotFound
| InvariantViolation

datatype domain_error = DomainError (err_kind: domain_error_kind) (err_message: string)

definition invalid_input :: "string \<Rightarrow> domain_error" where
  "invalid_input m = DomainError InvalidInput m"

definition conflict :: "string \<Rightarrow> domain_error" where
  "conflict m = DomainError Conflict m"

definition forbidden :: "string \<Rightarrow> domain_error" where
  "forbidden m = DomainError Forbidden m"

definition authentication_failed :: "string \<Rightarrow> domain_error" where
  "authentication_failed m = DomainError AuthenticationFailed m"

definition rate_limited :: "string \<Rightarrow> domain_error" where
  "rate_limited m = DomainError RateLimited m"

definition not_found :: "string \<Rightarrow> domain_error" where
  "not_found m = DomainError NotFound m"

definition invariant_violation :: "string \<Rightarrow> domain_error" where
  "invariant_violation m = DomainError InvariantViolation m"

section \<open>Strings\<close>

text \<open>\<^verbatim>\<open>str::split(char)\<close>: never empty, keeps empty segments.\<close>

fun split_on :: "'a \<Rightarrow> 'a list \<Rightarrow> 'a list list" where
  "split_on c [] = [[]]"
| "split_on c (x # xs) =
     (if x = c then [] # split_on c xs
      else (case split_on c xs of [] \<Rightarrow> [[x]] | y # ys \<Rightarrow> (x # y) # ys))"

text \<open>\<^verbatim>\<open>[&str]::join(sep)\<close>.\<close>

fun join :: "'a list \<Rightarrow> 'a list list \<Rightarrow> 'a list" where
  "join s [] = []"
| "join s [x] = x"
| "join s (x # y # ys) = x @ s @ join s (y # ys)"

definition starts_with :: "'a list \<Rightarrow> 'a list \<Rightarrow> bool" where
  "starts_with p s = prefix p s"

definition ends_with :: "'a list \<Rightarrow> 'a list \<Rightarrow> bool" where
  "ends_with p s = suffix p s"

definition strip_prefix :: "'a list \<Rightarrow> 'a list \<Rightarrow> 'a list option" where
  "strip_prefix p s = (if prefix p s then Some (drop (length p) s) else None)"

definition strip_suffix :: "'a list \<Rightarrow> 'a list \<Rightarrow> 'a list option" where
  "strip_suffix p s = (if suffix p s then Some (take (length s - length p) s) else None)"

text \<open>Byte indices of a character, ascending (\<^verbatim>\<open>match_indices\<close>).\<close>

definition match_indices :: "'a \<Rightarrow> 'a list \<Rightarrow> nat list" where
  "match_indices c s = filter (\<lambda>i. s ! i = c) [0..<length s]"

definition rmatch_indices :: "'a \<Rightarrow> 'a list \<Rightarrow> nat list" where
  "rmatch_indices c s = rev (match_indices c s)"

definition is_ascii_lowercase :: "char \<Rightarrow> bool" where
  "is_ascii_lowercase c \<longleftrightarrow> CHR ''a'' \<le> c \<and> c \<le> CHR ''z''"

definition is_ascii_uppercase :: "char \<Rightarrow> bool" where
  "is_ascii_uppercase c \<longleftrightarrow> CHR ''A'' \<le> c \<and> c \<le> CHR ''Z''"

definition is_ascii_digit :: "char \<Rightarrow> bool" where
  "is_ascii_digit c \<longleftrightarrow> CHR ''0'' \<le> c \<and> c \<le> CHR ''9''"

definition to_ascii_lowercase :: "char \<Rightarrow> char" where
  "to_ascii_lowercase c =
     (if is_ascii_uppercase c then char_of (of_char c + 32 :: nat) else c)"

definition eq_ignore_ascii_case :: "string \<Rightarrow> string \<Rightarrow> bool" where
  "eq_ignore_ascii_case a b \<longleftrightarrow> map to_ascii_lowercase a = map to_ascii_lowercase b"

text \<open>Decimal rendering of an unsigned integer (\<^verbatim>\<open>format!("{}", n)\<close>).\<close>

fun show_nat :: "nat \<Rightarrow> string" where
  "show_nat n = (if n < 10 then [char_of (48 + n)] else show_nat (n div 10) @ [char_of (48 + n mod 10)])"

declare show_nat.simps [simp del]

text \<open>
  \<^verbatim>\<open>str::trim\<close> drops leading and trailing characters with the Unicode property
  \<^verbatim>\<open>White_Space\<close>. UTF-8 is self-synchronising, so on the bytes of a valid string this is
  dropping the encodings of those 25 characters.
\<close>

definition whitespace_encodings :: "string list" where
  "whitespace_encodings =
     map (\<lambda>b. [char_of (b::nat)]) [9, 10, 11, 12, 13, 32] @
     map (map (\<lambda>b. char_of (b::nat)))
       ([[194, 133], [194, 160], [225, 154, 128]] @
        map (\<lambda>b. [226, 128, b]) [128, 129, 130, 131, 132, 133, 134, 135, 136, 137, 138, 168, 169, 175] @
        [[226, 129, 159], [227, 128, 128]])"

function strip_leading :: "'a list list \<Rightarrow> 'a list \<Rightarrow> 'a list" where
  "strip_leading ws s =
     (case find (\<lambda>w. w \<noteq> [] \<and> prefix w s) ws of
        None \<Rightarrow> s
      | Some w \<Rightarrow> strip_leading ws (drop (length w) s))"
  by pat_completeness auto
termination
  by (relation "measure (\<lambda>(ws, s). length s)") (auto simp: find_Some_iff prefix_def)

declare strip_leading.simps [simp del]

definition trim_start :: "string \<Rightarrow> string" where
  "trim_start s = strip_leading whitespace_encodings s"

definition trim_end :: "string \<Rightarrow> string" where
  "trim_end s = rev (strip_leading (map rev whitespace_encodings) (rev s))"

definition trim :: "string \<Rightarrow> string" where
  "trim s = trim_end (trim_start s)"

lemma strip_leading_Nil [simp]: "strip_leading ws [] = []"
proof -
  have "find (\<lambda>w. w \<noteq> [] \<and> prefix w ([] :: 'a list)) ws = None"
    by (induction ws) auto
  then show ?thesis by (subst strip_leading.simps) simp
qed

lemma trim_Nil [simp]: "trim [] = []"
  by (simp add: trim_def trim_start_def trim_end_def)

lemma strip_leading_id: "(\<And>w. w \<in> set ws \<Longrightarrow> w \<noteq> [] \<Longrightarrow> \<not> prefix w s) \<Longrightarrow> strip_leading ws s = s"
proof -
  assume "\<And>w. w \<in> set ws \<Longrightarrow> w \<noteq> [] \<Longrightarrow> \<not> prefix w s"
  then have "find (\<lambda>w. w \<noteq> [] \<and> prefix w s) ws = None" by (auto simp: find_None_iff)
  then show ?thesis by (subst strip_leading.simps) simp
qed

definition visible_ascii :: "char \<Rightarrow> bool" where
  "visible_ascii c \<longleftrightarrow> 33 \<le> (of_char c :: nat) \<and> (of_char c :: nat) < 128"

lemma whitespace_not_visible:
  "\<forall>w \<in> set whitespace_encodings. w \<noteq> [] \<and> \<not> visible_ascii (hd w) \<and> \<not> visible_ascii (last w)"
  by code_simp

lemma trim_visible: "visible_ascii (hd s) \<Longrightarrow> visible_ascii (last s) \<Longrightarrow> trim s = s"
proof -
  assume v: "visible_ascii (hd s)" "visible_ascii (last s)"
  have hd_eq: "hd w = hd t" if "prefix w t" "w \<noteq> []" for w t :: string
    using that by (auto simp: prefix_def)
  have "trim_start s = s"
    unfolding trim_start_def using whitespace_not_visible hd_eq v(1) by (intro strip_leading_id) metis
  moreover have "strip_leading (map rev whitespace_encodings) (rev s) = rev s"
  proof (rule strip_leading_id)
    fix w assume "w \<in> set (map rev whitespace_encodings)" "w \<noteq> []"
    then have "\<not> visible_ascii (hd w)" using whitespace_not_visible by (auto simp: hd_rev)
    then show "\<not> prefix w (rev s)"
      using hd_eq [of w "rev s"] v(2) \<open>w \<noteq> []\<close> by (auto simp: hd_rev)
  qed
  ultimately show ?thesis by (simp add: trim_def trim_end_def)
qed

text \<open>
  Characters of a UTF-8 string: every byte but a continuation byte starts one. \<^verbatim>\<open>chars().count()\<close> counts them and
  \<^verbatim>\<open>chars().take(n).collect()\<close> keeps the first ones.
\<close>

definition is_continuation_byte :: "char \<Rightarrow> bool" where
  "is_continuation_byte c \<longleftrightarrow> 128 \<le> (of_char c :: nat) \<and> (of_char c :: nat) < 192"

definition char_count :: "string \<Rightarrow> nat" where
  "char_count s = length (filter (\<lambda>c. \<not> is_continuation_byte c) s)"

fun take_chars :: "nat \<Rightarrow> string \<Rightarrow> string" where
  "take_chars n [] = []"
| "take_chars n (c # s) =
     (if is_continuation_byte c then c # take_chars n s
      else case n of 0 \<Rightarrow> [] | Suc m \<Rightarrow> c # take_chars m s)"

lemma char_count_take_chars: "char_count (take_chars n s) \<le> n"
  by (induction n s rule: take_chars.induct) (auto simp: char_count_def split: nat.splits)

lemma take_chars_prefix: "prefix (take_chars n s) s"
  by (induction n s rule: take_chars.induct) (auto split: nat.splits)

text \<open>\<^verbatim>\<open>str::contains(&str)\<close> and \<^verbatim>\<open>str::split_once(char)\<close>.\<close>

fun contains_str :: "'a list \<Rightarrow> 'a list \<Rightarrow> bool" where
  "contains_str p [] = (p = [])"
| "contains_str p (x # xs) = (prefix p (x # xs) \<or> contains_str p xs)"

fun split_once :: "'a \<Rightarrow> 'a list \<Rightarrow> ('a list \<times> 'a list) option" where
  "split_once c [] = None"
| "split_once c (x # xs) =
     (if x = c then Some ([], xs) else map_option (\<lambda>(a, b). (x # a, b)) (split_once c xs))"

lemma split_once_SomeD: "split_once c s = Some (a, b) \<Longrightarrow> s = a @ c # b \<and> c \<notin> set a"
  by (induction s arbitrary: a b) (auto split: if_splits)

definition is_ascii_hexdigit :: "char \<Rightarrow> bool" where
  "is_ascii_hexdigit c \<longleftrightarrow> is_ascii_digit c
     \<or> (CHR ''a'' \<le> c \<and> c \<le> CHR ''f'') \<or> (CHR ''A'' \<le> c \<and> c \<le> CHR ''F'')"

lemma match_indices_append:
  "match_indices c (xs @ ys) = match_indices c xs @ map ((+) (length xs)) (match_indices c ys)"
proof -
  have "[length xs..<length xs + length ys] = map ((+) (length xs)) [0..<length ys]"
    by (rule nth_equalityI) auto
  then have "filter (\<lambda>i. (xs @ ys) ! i = c) [length xs..<length xs + length ys]
      = map ((+) (length xs)) (filter (\<lambda>i. ys ! i = c) [0..<length ys])"
    by (simp add: filter_map comp_def)
  moreover have "filter (\<lambda>i. (xs @ ys) ! i = c) [0..<length xs] = filter (\<lambda>i. xs ! i = c) [0..<length xs]"
    by (rule filter_cong) (auto simp: nth_append)
  ultimately show ?thesis
    by (simp add: match_indices_def upt_add_eq_append [of 0 "length xs", simplified])
qed

lemma match_indices_none: "c \<notin> set xs \<Longrightarrow> match_indices c xs = []"
  by (auto simp: match_indices_def filter_empty_conv)

lemma match_indices_Cons_sep: "c \<notin> set xs \<Longrightarrow> match_indices c (c # xs) = [0]"
  using match_indices_append [of c "[c]" xs] by (simp add: match_indices_none) (simp add: match_indices_def)

lemma in_match_indices: "i \<in> set (match_indices c xs) \<longleftrightarrow> i < length xs \<and> xs ! i = c"
  by (auto simp: match_indices_def)

lemma split_on_not_Nil [simp]: "split_on c xs \<noteq> []"
  by (induction xs) (auto split: list.splits)

lemma split_on_no_sep: "c \<notin> set xs \<Longrightarrow> split_on c xs = [xs]"
  by (induction xs) auto

lemma split_on_append:
  "c \<notin> set xs \<Longrightarrow> split_on c (xs @ c # ys) = xs # split_on c ys"
  by (induction xs) (auto split: list.splits)

lemma split_on_segments: "y \<in> set (split_on c xs) \<Longrightarrow> c \<notin> set y"
proof (induction xs arbitrary: y)
  case (Cons x xs)
  then show ?case
    by (cases "split_on c xs") (auto split: if_splits)
qed simp

lemma split_on_join:
  "xs \<noteq> [] \<Longrightarrow> \<forall>x \<in> set xs. c \<notin> set x \<Longrightarrow> split_on c (join [c] xs) = xs"
proof (induction "[c]" xs rule: join.induct)
  case (2 x)
  then show ?case by (simp add: split_on_no_sep)
next
  case (3 x y ys)
  then show ?case by (simp add: split_on_append)
qed simp

lemma join_split_on: "join [c] (split_on c xs) = xs"
proof (induction xs)
  case (Cons x xs)
  obtain y ys where y: "split_on c xs = y # ys"
    by (cases "split_on c xs") auto
  with Cons show ?case by (cases ys) auto
qed simp

lemma set_join_subset: "set (join s xs) \<subseteq> set s \<union> \<Union> (set ` set xs)"
  by (induction s xs rule: join.induct) auto

lemma join_append:
  "xs \<noteq> [] \<Longrightarrow> ys \<noteq> [] \<Longrightarrow> join s (xs @ ys) = join s xs @ s @ join s ys"
proof (induction s xs rule: join.induct)
  case (2 s x)
  then show ?case by (cases ys) auto
qed auto

lemma join_snoc: "xs \<noteq> [] \<Longrightarrow> join s (xs @ [x]) = join s xs @ s @ x"
  using join_append [of xs "[x]" s] by simp

lemmas string_ops = starts_with_def ends_with_def strip_prefix_def strip_suffix_def

section \<open>Ordered maps\<close>

type_synonym ('k, 'v) btree_map = "('k \<times> 'v) list"
type_synonym 'a btree_set = "'a list"

fun bt_insert :: "'k::linorder \<Rightarrow> 'v \<Rightarrow> ('k, 'v) btree_map \<Rightarrow> ('k, 'v) btree_map" where
  "bt_insert k v [] = [(k, v)]"
| "bt_insert k v ((k', v') # m) =
     (if k < k' then (k, v) # (k', v') # m
      else if k = k' then (k, v) # m
      else (k', v') # bt_insert k v m)"

definition bt_remove :: "'k \<Rightarrow> ('k, 'v) btree_map \<Rightarrow> ('k, 'v) btree_map" where
  "bt_remove k m = filter (\<lambda>(k', _). k' \<noteq> k) m"

definition bt_get :: "('k, 'v) btree_map \<Rightarrow> 'k \<Rightarrow> 'v option" where
  "bt_get m k = map_of m k"

definition bt_ok :: "('k::linorder, 'v) btree_map \<Rightarrow> bool" where
  "bt_ok m \<longleftrightarrow> sorted_wrt (<) (map fst m)"

text \<open>\<^verbatim>\<open>collect::<BTreeMap<_, _>>()\<close>: insert in iteration order, so the last binding wins.\<close>

definition bt_collect :: "('k::linorder \<times> 'v) list \<Rightarrow> ('k, 'v) btree_map" where
  "bt_collect xs = fold (\<lambda>(k, v) m. bt_insert k v m) xs []"

definition bt_set :: "'a::linorder list \<Rightarrow> 'a btree_set" where
  "bt_set xs = sorted_list_of_set (set xs)"

locale ordered_map =
  fixes empty :: 'm
    and insert :: "'k::linorder \<Rightarrow> 'v \<Rightarrow> 'm \<Rightarrow> 'm"
    and remove :: "'k \<Rightarrow> 'm \<Rightarrow> 'm"
    and get :: "'m \<Rightarrow> 'k \<Rightarrow> 'v option"
    and entries :: "'m \<Rightarrow> ('k \<times> 'v) list"
    and invar :: "'m \<Rightarrow> bool"
  assumes invar_empty: "invar empty"
    and invar_insert: "invar m \<Longrightarrow> invar (insert k v m)"
    and invar_remove: "invar m \<Longrightarrow> invar (remove k m)"
    and get_empty: "get empty k = None"
    and get_insert: "invar m \<Longrightarrow> get (insert k v m) = (get m)(k \<mapsto> v)"
    and get_remove: "invar m \<Longrightarrow> get (remove k m) = (get m)(k := None)"
    and entries_get: "invar m \<Longrightarrow> map_of (entries m) = get m"
    and entries_sorted: "invar m \<Longrightarrow> sorted_wrt (<) (map fst (entries m))"
begin

lemma invar_fold_insert:
  "invar m \<Longrightarrow> invar (fold (\<lambda>(k, v) m. insert k v m) xs m)"
  by (induction xs arbitrary: m) (auto intro: invar_insert)

lemma get_fold_insert:
  "invar m \<Longrightarrow> get (fold (\<lambda>(k, v) m. insert k v m) xs m) = get m ++ map_of (rev xs)"
proof (induction xs arbitrary: m)
  case (Cons x xs)
  obtain k v where x: "x = (k, v)" by (cases x)
  have "get (fold (\<lambda>(k, v) m. insert k v m) xs (insert k v m)) = get (insert k v m) ++ map_of (rev xs)"
    using Cons by (simp add: invar_insert)
  also have "\<dots> = get m ++ map_of (rev (x # xs))"
    using Cons.prems x by (auto simp: get_insert map_add_def fun_eq_iff split: option.splits)
  finally show ?case using x by simp
qed simp

text \<open>Two maps with the same bindings iterate alike: the representation is canonical.\<close>

lemma entries_canonical:
  assumes "invar a" and "invar b" and "get a = get b"
  shows "entries a = entries b"
proof -
  have d: "distinct (map fst (entries a))" "distinct (map fst (entries b))"
    using assms entries_sorted strict_sorted_iff by blast+
  have m: "map_of (entries a) = map_of (entries b)"
    using assms by (simp add: entries_get)
  then have "set (entries a) = set (entries b)"
    using d by (metis map_of_inject_set)
  moreover have "sorted (map fst (entries a))" "sorted (map fst (entries b))"
    using assms entries_sorted strict_sorted_iff by blast+
  ultimately show ?thesis
    using d by (metis distinct_map inj_on_Un map_sorted_distinct_set_unique sup.idem)
qed

end

lemma bt_insert_keys [simp]: "fst ` set (bt_insert k v m) = insert k (fst ` set m)"
proof (induction m)
  case (Cons x m)
  then show ?case by (cases x) (simp add: insert_commute)
qed simp

lemma bt_ok_Nil [simp]: "bt_ok []"
  by (simp add: bt_ok_def)

lemma bt_ok_Cons [simp]: "bt_ok ((k, v) # m) \<longleftrightarrow> (\<forall>k' \<in> fst ` set m. k < k') \<and> bt_ok m"
  by (auto simp: bt_ok_def)

lemma bt_ok_insert [wf_intros]: "bt_ok m \<Longrightarrow> bt_ok (bt_insert k v m)"
proof (induction m)
  case (Cons x m)
  then show ?case by (cases x) (auto dest: order.strict_trans)
qed simp

lemma bt_ok_filter [wf_intros]: "bt_ok m \<Longrightarrow> bt_ok (filter P m)"
  by (induction m) auto

lemma bt_ok_remove [wf_intros]: "bt_ok m \<Longrightarrow> bt_ok (bt_remove k m)"
  by (simp add: bt_remove_def bt_ok_filter)

lemma bt_get_insert: "bt_ok m \<Longrightarrow> bt_get (bt_insert k v m) = (bt_get m)(k \<mapsto> v)"
  by (induction m) (auto simp: bt_get_def fun_eq_iff)

lemma bt_get_remove: "bt_get (bt_remove k m) = (bt_get m)(k := None)"
  by (induction m) (auto simp: bt_get_def bt_remove_def fun_eq_iff)

lemma bt_ok_distinct: "bt_ok m \<Longrightarrow> distinct (map fst m)"
  unfolding bt_ok_def using strict_sorted_iff by blast

lemma bt_get_Some_iff: "bt_ok m \<Longrightarrow> bt_get m k = Some v \<longleftrightarrow> (k, v) \<in> set m"
  by (simp add: bt_get_def bt_ok_distinct)

interpretation bt: ordered_map "[]" bt_insert bt_remove bt_get id bt_ok
  by unfold_locales
    (auto simp: bt_get_remove bt_get_insert fun_eq_iff bt_ok_insert bt_ok_remove,
     simp_all add: bt_get_def bt_ok_def)

lemma bt_ok_collect [wf_intros]: "bt_ok (bt_collect xs)"
  unfolding bt_collect_def by (rule bt.invar_fold_insert) simp

lemma bt_get_collect: "bt_get (bt_collect xs) = map_of (rev xs)"
  unfolding bt_collect_def by (subst bt.get_fold_insert) (simp_all add: bt_get_def fun_eq_iff map_add_def split: option.splits)

lemma bt_eqI: "bt_ok a \<Longrightarrow> bt_ok b \<Longrightarrow> bt_get a = bt_get b \<Longrightarrow> a = b"
  using bt.entries_canonical by simp

lemma bt_collect_id: "bt_ok m \<Longrightarrow> bt_collect m = m"
proof (rule bt_eqI)
  assume m: "bt_ok m"
  have "map_of (rev m) = map_of m"
    using bt_ok_distinct [OF m] by (metis distinct_rev map_of_inject_set rev_map set_rev)
  then show "bt_get (bt_collect m) = bt_get m" by (simp add: bt_get_collect bt_get_def fun_eq_iff)
qed (simp_all add: bt_ok_collect)

lemma set_bt_collect: "set (bt_collect xs) \<subseteq> set xs"
proof
  fix x assume "x \<in> set (bt_collect xs)"
  then have "bt_get (bt_collect xs) (fst x) = Some (snd x)"
    using bt_get_Some_iff [OF bt_ok_collect [of xs], of "fst x" "snd x"] by simp
  then have "(fst x, snd x) \<in> set (rev xs)"
    unfolding bt_get_collect by (rule map_of_SomeD)
  then show "x \<in> set xs" by simp
qed

lemma keys_bt_collect: "fst ` set (bt_collect xs) = fst ` set xs"
proof -
  have "fst ` set (fold (\<lambda>(k, v) m. bt_insert k v m) xs m) = fst ` set m \<union> fst ` set xs" for m
  proof (induction xs arbitrary: m)
    case (Cons x xs)
    then show ?case by (cases x) simp
  qed simp
  then show ?thesis by (simp add: bt_collect_def)
qed

lemmas bt_get_simps [bt_simps] = bt_get_insert bt_get_remove bt_get_collect

section \<open>Binary search\<close>

text \<open>
  \<^verbatim>\<open>[T]::binary_search_by\<close>: the branch-light bisection of the standard library, with
  \<open>cmp i\<close> the comparison of the element at index \<open>i\<close> with the key searched for.
\<close>

datatype ordering = Less | Equal | Greater

definition cmp :: "'a::linorder \<Rightarrow> 'a \<Rightarrow> ordering" where
  "cmp a b = (if a < b then Less else if a = b then Equal else Greater)"

function bisect :: "(nat \<Rightarrow> ordering) \<Rightarrow> nat \<Rightarrow> nat \<Rightarrow> nat" where
  "bisect f base sz =
     (if sz > 1 then
        let half = sz div 2; mid = base + half in
        bisect f (if f mid = Greater then base else mid) (sz - half)
      else base)"
  by pat_completeness auto
termination
  by (relation "measure (\<lambda>(f, base, sz). sz)") auto

declare bisect.simps [simp del]

definition binary_search_by :: "('a \<Rightarrow> ordering) \<Rightarrow> 'a list \<Rightarrow> nat option" where
  "binary_search_by f xs =
     (if xs = [] then None
      else let i = bisect (\<lambda>j. f (xs ! j)) 0 (length xs) in
           if f (xs ! i) = Equal then Some i else None)"

lemma bisect_range: "sz > 0 \<Longrightarrow> base \<le> bisect f base sz \<and> bisect f base sz < base + sz"
proof (induction f base sz rule: bisect.induct)
  case (1 f base sz)
  show ?case
  proof (cases "sz > 1")
    case True
    then have "sz - sz div 2 > 0" by simp
    with 1(1) [OF True refl refl] True show ?thesis
      by (subst (1 2) bisect.simps) (auto simp: Let_def split: if_splits)
  next
    case False
    with 1(2) show ?thesis by (simp add: bisect.simps)
  qed
qed

text \<open>
  With the slice sorted by key, bisection stays below the match: everything from \<open>base\<close> on
  that the search drops compares greater than the key.
\<close>

lemma bisect_finds:
  assumes "\<And>i. i \<le> k \<Longrightarrow> f i \<noteq> Greater" and "\<And>i. k < i \<Longrightarrow> i < base + sz \<Longrightarrow> f i = Greater"
    and "base \<le> k" and "k < base + sz"
  shows "bisect f base sz = k"
  using assms
proof (induction f base sz rule: bisect.induct)
  case (1 f base sz)
  show ?case
  proof (cases "sz > 1")
    case True
    define half where "half = sz div 2"
    define b where "b = (if f (base + half) = Greater then base else base + half)"
    have h: "half > 0" "half < sz" "sz \<le> 2 * half + 1" using True by (auto simp: half_def)
    have "b \<le> k \<and> k < b + (sz - half)"
    proof (cases "f (base + half) = Greater")
      case True
      then have "k < base + half" using 1(2) [of "base + half"] by (meson not_le)
      with True 1(4) h show ?thesis by (simp add: b_def half_def)
    next
      case False
      have "base + half \<le> k"
      proof (rule ccontr)
        assume "\<not> base + half \<le> k"
        then show False using 1(3) [of "base + half"] False h by simp
      qed
      with False 1(5) h show ?thesis by (simp add: b_def)
    qed
    moreover have "b + (sz - half) \<le> base + sz" using h by (simp add: b_def)
    ultimately have "bisect f b (sz - half) = k"
      using 1(1) [OF True refl refl, folded half_def, folded b_def] 1(2) 1(3) by simp
    then show ?thesis unfolding b_def half_def using True by (subst bisect.simps) (simp add: Let_def)
  next
    case False
    with 1 show ?thesis by (simp add: bisect.simps)
  qed
qed

theorem binary_search_correct:
  assumes "sorted_wrt (<) (map key xs)"
  shows "map_option (\<lambda>i. xs ! i) (binary_search_by (\<lambda>x. cmp (key x) q) xs) = find (\<lambda>x. key x = q) xs"
proof (cases "q \<in> key ` set xs")
  case False
  then have "find (\<lambda>x. key x = q) xs = None" by (auto simp: find_None_iff)
  moreover have "binary_search_by (\<lambda>x. cmp (key x) q) xs = None"
  proof (cases xs)
    case (Cons y ys)
    have "bisect (\<lambda>j. cmp (key (xs ! j)) q) 0 (length xs) < length xs"
      using bisect_range [of "length xs" 0] Cons by simp
    then have "key (xs ! bisect (\<lambda>j. cmp (key (xs ! j)) q) 0 (length xs)) \<noteq> q"
      using False by (metis imageI nth_mem)
    then show ?thesis by (simp add: binary_search_by_def Let_def) (simp add: cmp_def)
  qed (simp add: binary_search_by_def)
  ultimately show ?thesis by simp
next
  case True
  then obtain k where k: "k < length xs" "key (xs ! k) = q"
    by (auto simp: in_set_conv_nth)
  have lt: "i < j \<Longrightarrow> j < length xs \<Longrightarrow> key (xs ! i) < key (xs ! j)" for i j
    using assms by (simp add: sorted_wrt_iff_nth_less)
  have "bisect (\<lambda>j. cmp (key (xs ! j)) q) 0 (length xs) = k"
  proof (rule bisect_finds)
    fix i assume "i \<le> k"
    then show "cmp (key (xs ! i)) q \<noteq> Greater"
      using lt [of i k] k by (cases "i = k") (auto simp: cmp_def)
  next
    fix i assume "k < i" "i < 0 + length xs"
    then show "cmp (key (xs ! i)) q = Greater"
      using lt [of k i] k by (auto simp: cmp_def)
  qed (use k in auto)
  moreover have "xs \<noteq> []" using k by auto
  ultimately have s: "binary_search_by (\<lambda>x. cmp (key x) q) xs = Some k"
    using k by (simp add: binary_search_by_def cmp_def)
  have "find (\<lambda>x. key x = q) xs = Some (xs ! k)"
    unfolding find_Some_iff using k lt
    by (intro exI [of _ k]) (auto, metis order_less_irrefl)
  with s show ?thesis by simp
qed

lemma binary_search_in_range: "binary_search_by f xs = Some i \<Longrightarrow> i < length xs"
  using bisect_range [of "length xs" 0 "\<lambda>j. f (xs ! j)"]
  by (auto simp: binary_search_by_def Let_def split: if_splits)

section \<open>Greatest elements\<close>

text \<open>\<^verbatim>\<open>Iterator::max_by_key\<close>: the last of the elements with the greatest key.\<close>

definition max_by_key :: "('a \<Rightarrow> 'k::linorder) \<Rightarrow> 'a list \<Rightarrow> 'a option" where
  "max_by_key key xs =
     fold (\<lambda>x best. case best of None \<Rightarrow> Some x | Some b \<Rightarrow> if key b \<le> key x then Some x else Some b) xs None"

lemma max_by_key_append: "max_by_key key (xs @ [x]) =
   (case max_by_key key xs of None \<Rightarrow> Some x | Some b \<Rightarrow> if key b \<le> key x then Some x else Some b)"
  by (simp add: max_by_key_def)

lemma max_by_key_Some:
  "max_by_key key xs = Some b \<Longrightarrow> b \<in> set xs \<and> (\<forall>x \<in> set xs. key x \<le> key b)"
proof (induction xs arbitrary: b rule: rev_induct)
  case (snoc x xs)
  show ?case
  proof (cases "max_by_key key xs")
    case None
    then have "xs = []" by (cases xs rule: rev_cases) (auto simp: max_by_key_append split: option.split_asm if_split_asm)
    then show ?thesis using snoc.prems by (simp add: max_by_key_def)
  next
    case (Some c)
    with snoc.IH have c: "c \<in> set xs" "\<forall>y \<in> set xs. key y \<le> key c" by auto
    show ?thesis using snoc.prems Some c by (fastforce simp: max_by_key_append split: if_split_asm)
  qed
qed (simp add: max_by_key_def)

end
