(* ===== verification/Scope_Paths.thy ===== *)
theory Scope_Paths
  imports Scope_Prelude
begin

text \<open>
  Repository paths and the control area.

  \<^item> \<^verbatim>\<open>policy.rs\<close>: \<open>scope_path\<close>, \<open>ScopePath_parse\<close>, \<open>self_and_ancestors\<close>.
  \<^item> \<^verbatim>\<open>repo_control.rs\<close>, \<^verbatim>\<open>repo_control/image.rs\<close>, \<^verbatim>\<open>runs/workflow/identity.rs\<close>: which paths
    belong to \<^verbatim>\<open>/.scope\<close>, which of them are private, and which may not be touched by a
    request through a narrower view.

  A canonical path is \<open>path_of ss\<close> for good segments \<open>ss\<close>; parsing yields exactly those, and the
  string search for ancestors is shown to enumerate the prefixes of \<open>ss\<close>.
\<close>

section \<open>ScopePath\<close>

datatype ScopePathError = RelativePath | InvalidSegment

datatype scope_path = ScopePath (as_str: string)

instantiation scope_path :: linorder
begin
definition less_eq_scope_path :: "scope_path \<Rightarrow> scope_path \<Rightarrow> bool" where
  "less_eq_scope_path a b \<longleftrightarrow> as_str a \<le> as_str b"
definition less_scope_path :: "scope_path \<Rightarrow> scope_path \<Rightarrow> bool" where
  "less_scope_path a b \<longleftrightarrow> as_str a < as_str b"
instance
  by standard (auto simp: less_eq_scope_path_def less_scope_path_def scope_path.expand)
end

fun parse_parts :: "string list \<Rightarrow> (ScopePathError, string list) result" where
  "parse_parts [] = Ok []"
| "parse_parts (part # parts) =
     (if part = [] then parse_parts parts
      else if part = ''.'' \<or> part = ''..'' then Err InvalidSegment
      else and_then (parse_parts parts) (\<lambda>ps. Ok (part # ps)))"

definition ScopePath_parse :: "string \<Rightarrow> (ScopePathError, scope_path) result" where
  "ScopePath_parse raw =
     (if \<not> starts_with ''/'' raw then Err RelativePath
      else and_then (parse_parts (split_on (CHR ''/'') raw)) (\<lambda>parts.
        if parts = [] then Ok (ScopePath ''/'')
        else Ok (ScopePath (''/'' @ join ''/'' parts))))"

definition ScopePath_root :: scope_path where
  "ScopePath_root = ScopePath ''/''"

text \<open>The prefix of a path before the separator at byte \<open>i\<close> (the root for the first one).\<close>

definition prefix_at :: "string \<Rightarrow> nat \<Rightarrow> string" where
  "prefix_at path separator = (if separator = 0 then ''/'' else take separator path)"

definition self_and_ancestors :: "scope_path \<Rightarrow> string list" where
  "self_and_ancestors p =
     (let path = as_str p in
      path # filter (\<lambda>parent. parent \<noteq> path)
        (map (prefix_at path) (rmatch_indices (CHR ''/'') path)))"

subsection \<open>Canonical paths\<close>

definition good_segment :: "string \<Rightarrow> bool" where
  "good_segment s \<longleftrightarrow> s \<noteq> [] \<and> CHR ''/'' \<notin> set s \<and> s \<noteq> ''.'' \<and> s \<noteq> ''..''"

definition slashed :: "string list \<Rightarrow> string" where
  "slashed ss = concat (map ((#) (CHR ''/'')) ss)"

definition path_of :: "string list \<Rightarrow> string" where
  "path_of ss = (if ss = [] then ''/'' else slashed ss)"

definition segments :: "scope_path \<Rightarrow> string list" where
  "segments p = filter (\<lambda>s. s \<noteq> []) (split_on (CHR ''/'') (as_str p))"

definition canonical :: "scope_path \<Rightarrow> bool" where
  "canonical p \<longleftrightarrow> ScopePath_parse (as_str p) = Ok p"

lemma slashed_simps [simp]:
  "slashed [] = []" "slashed (s # ss) = CHR ''/'' # s @ slashed ss"
  "slashed (ss @ ts) = slashed ss @ slashed ts"
  by (simp_all add: slashed_def)

lemma slashed_eq_Nil [simp]: "slashed ss = [] \<longleftrightarrow> ss = []"
  by (cases ss) auto

lemma slashed_join: "ss \<noteq> [] \<Longrightarrow> slashed ss = ''/'' @ join ''/'' ss"
proof (induction ss)
  case (Cons s ss)
  then show ?case by (cases ss) auto
qed simp

lemma split_slashed:
  "\<forall>s \<in> set ss. CHR ''/'' \<notin> set s \<Longrightarrow> split_on (CHR ''/'') (slashed ss) = [] # ss"
proof (induction ss)
  case (Cons s ss)
  show ?case
  proof (cases ss)
    case Nil
    with Cons show ?thesis by (simp add: split_on_no_sep)
  next
    case (Cons t ts)
    with Cons.prems Cons.IH show ?thesis by (simp add: split_on_append)
  qed
qed simp

lemma parse_parts_Ok:
  "parse_parts ps = Inr qs \<Longrightarrow> \<forall>p \<in> set ps. CHR ''/'' \<notin> set p \<Longrightarrow>
   qs = filter (\<lambda>s. s \<noteq> []) ps \<and> (\<forall>s \<in> set qs. good_segment s)"
proof (induction ps arbitrary: qs)
  case (Cons p ps)
  show ?case
  proof (cases "p = []")
    case True
    with Cons show ?thesis by simp
  next
    case False
    with Cons.prems obtain rs where rs: "parse_parts ps = Inr rs" "qs = p # rs"
      and p: "p \<noteq> ''.''" "p \<noteq> ''..''"
      by (simp add: and_then_Ok_iff split: if_split_asm) blast
    then have "good_segment p" using Cons.prems False by (simp add: good_segment_def)
    with rs Cons.IH [of rs] Cons.prems False show ?thesis by simp
  qed
qed simp

lemma parse_parts_good: "\<forall>s \<in> set ss. good_segment s \<Longrightarrow> parse_parts ss = Inr ss"
  by (induction ss) (auto simp: good_segment_def)

lemma ScopePath_parse_cases:
  assumes "ScopePath_parse raw = Inr p"
  obtains ss where "\<forall>s \<in> set ss. good_segment s" and "p = ScopePath (path_of ss)"
proof -
  have "\<forall>x \<in> set (split_on (CHR ''/'') raw). CHR ''/'' \<notin> set x"
    using split_on_segments by fast
  moreover obtain ps where ps: "parse_parts (split_on (CHR ''/'') raw) = Inr ps"
    "p = (if ps = [] then ScopePath ''/'' else ScopePath (''/'' @ join ''/'' ps))"
    using assms by (simp add: ScopePath_parse_def and_then_Ok_iff split: if_split_asm) force
  ultimately have "\<forall>s \<in> set ps. good_segment s" using parse_parts_Ok by blast
  then show thesis
    using that [of ps] ps(2) by (simp add: path_of_def slashed_join split: if_split_asm)
qed

lemma ScopePath_parse_path_of:
  assumes "\<forall>s \<in> set ss. good_segment s"
  shows "ScopePath_parse (path_of ss) = Inr (ScopePath (path_of ss))"
proof (cases "ss = []")
  case True
  then show ?thesis by (simp add: path_of_def ScopePath_parse_def string_ops)
next
  case False
  have "split_on (CHR ''/'') (slashed ss) = [] # ss"
    using assms by (intro split_slashed) (auto simp: good_segment_def)
  moreover have "starts_with ''/'' (slashed ss)"
    using False by (cases ss) (auto simp: string_ops)
  ultimately show ?thesis
    using False assms by (simp add: path_of_def ScopePath_parse_def parse_parts_good slashed_join)
qed

lemma canonical_iff: "canonical p \<longleftrightarrow> (\<exists>ss. (\<forall>s \<in> set ss. good_segment s) \<and> p = ScopePath (path_of ss))"
  unfolding canonical_def
  by (metis ScopePath_parse_cases ScopePath_parse_path_of scope_path.sel)

lemma ScopePath_parse_canonical: "ScopePath_parse raw = Inr p \<Longrightarrow> canonical p"
  by (metis ScopePath_parse_cases canonical_iff)

lemma canonical_root [simp]: "canonical ScopePath_root"
  unfolding canonical_iff ScopePath_root_def by (rule exI [of _ "[]"]) (simp add: path_of_def)

lemma segments_path_of:
  assumes "\<forall>s \<in> set ss. good_segment s"
  shows "segments (ScopePath (path_of ss)) = ss"
proof -
  have "\<forall>s \<in> set ss. CHR ''/'' \<notin> set s" "filter (\<lambda>s. s \<noteq> []) ss = ss"
    using assms by (auto simp: good_segment_def filter_id_conv)
  then show ?thesis
    by (simp add: segments_def path_of_def split_slashed)
qed

lemma path_of_segments:
  assumes "canonical p"
  shows "path_of (segments p) = as_str p" and "\<forall>s \<in> set (segments p). good_segment s"
  using assms segments_path_of unfolding canonical_iff by auto

lemma path_of_inject:
  "\<forall>s \<in> set ss. good_segment s \<Longrightarrow> \<forall>s \<in> set ts. good_segment s \<Longrightarrow>
   path_of ss = path_of ts \<longleftrightarrow> ss = ts"
  by (metis segments_path_of)

lemma slashed_eq_root: "\<forall>s \<in> set ss. good_segment s \<Longrightarrow> slashed ss \<noteq> ''/''"
  by (cases ss) (auto simp: good_segment_def)

subsection \<open>Ancestors\<close>

lemma rmatch_slashed:
  "\<forall>s \<in> set ss. good_segment s \<Longrightarrow>
   map (prefix_at (slashed ss @ rest)) (rmatch_indices (CHR ''/'') (slashed ss))
   = map (\<lambda>k. path_of (take k ss)) (rev [0..<length ss])"
proof (induction ss arbitrary: rest rule: rev_induct)
  case Nil
  then show ?case by (simp add: rmatch_indices_def match_indices_def)
next
  case (snoc s ss)
  have s: "CHR ''/'' \<notin> set s" using snoc.prems by (simp add: good_segment_def)
  have "rmatch_indices (CHR ''/'') (slashed (ss @ [s])) =
      length (slashed ss) # rmatch_indices (CHR ''/'') (slashed ss)"
    using s by (simp add: rmatch_indices_def match_indices_append match_indices_Cons_sep)
  moreover have "prefix_at (slashed (ss @ [s]) @ rest) (length (slashed ss)) = path_of ss"
    by (simp add: prefix_at_def path_of_def)
  moreover have "map (prefix_at (slashed ss @ ''/'' @ s @ rest)) (rmatch_indices (CHR ''/'') (slashed ss))
      = map (\<lambda>k. path_of (take k ss)) (rev [0..<length ss])"
    using snoc by simp
  moreover have "map (\<lambda>k. path_of (take k (ss @ [s]))) (rev [0..<length ss])
      = map (\<lambda>k. path_of (take k ss)) (rev [0..<length ss])"
    by (rule map_cong) auto
  ultimately show ?case by simp
qed

text \<open>Every proper ancestor path of \<open>ss\<close>, deepest first.\<close>

definition proper_ancestors :: "string list \<Rightarrow> string list" where
  "proper_ancestors ss = map (\<lambda>k. path_of (take k ss)) (rev [0..<length ss])"

lemma proper_ancestors_neq:
  assumes "\<forall>s \<in> set ss. good_segment s" and "a \<in> set (proper_ancestors ss)"
  shows "a \<noteq> path_of ss"
proof -
  obtain k where k: "k < length ss" "a = path_of (take k ss)"
    using assms(2) by (auto simp: proper_ancestors_def)
  have "\<forall>s \<in> set (take k ss). good_segment s" using assms(1) by (meson in_set_takeD)
  then have "a = path_of ss \<longleftrightarrow> take k ss = ss" using path_of_inject [of "take k ss" ss] assms(1) k(2) by simp
  moreover have "take k ss \<noteq> ss" using k(1) by auto
  ultimately show ?thesis by blast
qed

lemma separator_prefixes:
  assumes "\<forall>s \<in> set ss. good_segment s" and "ss \<noteq> []"
  shows "map (prefix_at (path_of ss)) (rmatch_indices (CHR ''/'') (path_of ss)) = proper_ancestors ss"
  using rmatch_slashed [OF assms(1), of "[]"] assms(2) by (simp add: path_of_def proper_ancestors_def)

lemma self_and_ancestors_path_of:
  assumes "\<forall>s \<in> set ss. good_segment s"
  shows "self_and_ancestors (ScopePath (path_of ss)) = path_of ss # proper_ancestors ss"
proof (cases "ss = []")
  case True
  then show ?thesis
    by (simp add: self_and_ancestors_def path_of_def rmatch_indices_def match_indices_Cons_sep
        prefix_at_def proper_ancestors_def)
next
  case False
  have "filter (\<lambda>parent. parent \<noteq> path_of ss) (proper_ancestors ss) = proper_ancestors ss"
    using proper_ancestors_neq [OF assms] by (auto simp: filter_id_conv)
  then show ?thesis
    using separator_prefixes [OF assms False] by (simp add: self_and_ancestors_def Let_def)
qed

lemma self_and_ancestors_canonical:
  assumes "canonical p"
  shows "self_and_ancestors p
    = map (\<lambda>k. path_of (take k (segments p))) (rev [0..<Suc (length (segments p))])"
proof -
  have p: "p = ScopePath (path_of (segments p))"
    using path_of_segments [OF assms] by (metis scope_path.collapse)
  show ?thesis
    by (subst p) (use self_and_ancestors_path_of path_of_segments(2) [OF assms] in
      \<open>simp add: proper_ancestors_def\<close>)
qed

section \<open>The control area\<close>

definition REPO_CONTROL_ROOT :: string where "REPO_CONTROL_ROOT = ''/.scope''"
definition REPO_CONTROL_PREFIX :: string where "REPO_CONTROL_PREFIX = ''/.scope/''"
definition LEGACY_REPO_RULES_PATH :: string where "LEGACY_REPO_RULES_PATH = ''/.scope/RULES.md''"

lemmas control_consts = REPO_CONTROL_ROOT_def REPO_CONTROL_PREFIX_def LEGACY_REPO_RULES_PATH_def

definition is_repo_control_path :: "scope_path \<Rightarrow> bool" where
  "is_repo_control_path path \<longleftrightarrow>
     as_str path = REPO_CONTROL_ROOT \<or> starts_with REPO_CONTROL_PREFIX (as_str path)"

definition is_repo_rules_path :: "scope_path \<Rightarrow> bool" where
  "is_repo_rules_path path \<longleftrightarrow> as_str path = LEGACY_REPO_RULES_PATH"

definition is_case_folded_repo_control_path :: "scope_path \<Rightarrow> bool" where
  "is_case_folded_repo_control_path path \<longleftrightarrow>
     eq_ignore_ascii_case
       (hd (split_on (CHR ''/'') (dropWhile (\<lambda>c. c = CHR ''/'') (as_str path)))) ''.scope''"

definition is_agent_context_path :: "scope_path \<Rightarrow> bool" where
  "is_agent_context_path path \<longleftrightarrow>
     (let relative = dropWhile (\<lambda>c. c = CHR ''/'') (as_str path);
          root = hd (split_on (CHR ''/'') relative)
      in (\<exists>directory \<in> set [''.codex'', ''.claude'', ''.agents'']. eq_ignore_ascii_case root directory)
       \<or> eq_ignore_ascii_case relative ''.mcp.json''
       \<or> (let name = last (split_on (CHR ''/'') relative) in
           \<exists>protected \<in> set [''AGENTS.md'', ''AGENTS.override.md'', ''CLAUDE.md'', ''CLAUDE.local.md''].
             eq_ignore_ascii_case name protected))"

definition is_request_protected_path :: "scope_path \<Rightarrow> bool" where
  "is_request_protected_path path \<longleftrightarrow>
     is_case_folded_repo_control_path path \<or> is_agent_context_path path"

definition is_private_control_path :: "scope_path \<Rightarrow> bool" where
  "is_private_control_path path \<longleftrightarrow> is_repo_control_path path \<and> \<not> is_repo_rules_path path"

definition is_repo_control_pattern :: "string \<Rightarrow> bool" where
  "is_repo_control_pattern pattern =
     (let base = case_option pattern id (strip_suffix ''/**'' pattern)
      in base = ''/.scope'' \<or> starts_with ''/.scope/'' base)"

subsection \<open>Workflow and image paths\<close>

definition is_kebab_name :: "string \<Rightarrow> nat \<Rightarrow> bool" where
  "is_kebab_name name max_bytes \<longleftrightarrow>
     name \<noteq> [] \<and> length name \<le> max_bytes
     \<and> \<not> starts_with ''-'' name \<and> \<not> ends_with ''-'' name \<and> \<not> contains_str ''--'' name
     \<and> (\<forall>byte \<in> set name. is_ascii_lowercase byte \<or> is_ascii_digit byte \<or> byte = CHR ''-'')"

definition MAX_WORKFLOW_PATH_NAME_BYTES :: nat where "MAX_WORKFLOW_PATH_NAME_BYTES = 64"
definition WORKFLOW_PATH_PREFIX :: string where "WORKFLOW_PATH_PREFIX = ''/.scope/runs/''"
definition REPO_IMAGE_CONTEXT_PREFIX :: string where
  "REPO_IMAGE_CONTEXT_PREFIX = ''/.scope/images/''"
definition MAX_REPO_IMAGE_NAME_BYTES :: nat where "MAX_REPO_IMAGE_NAME_BYTES = 64"

datatype workflow_path = WorkflowPath string
datatype image_context_path = ImageContextPath string
datatype path_error = InvalidPath

definition workflow_stem :: "string \<Rightarrow> string option" where
  "workflow_stem file_name =
     (case strip_suffix ''.yaml'' file_name of
        Some stem \<Rightarrow> Some stem
      | None \<Rightarrow> strip_suffix ''.yml'' file_name)"

definition WorkflowPath_parse :: "string \<Rightarrow> (path_error, workflow_path) result" where
  "WorkflowPath_parse path =
     (case strip_prefix WORKFLOW_PATH_PREFIX path of
        None \<Rightarrow> Err InvalidPath
      | Some file_name \<Rightarrow>
          if CHR ''/'' \<in> set file_name then Err InvalidPath
          else (case workflow_stem file_name of
                  None \<Rightarrow> Err InvalidPath
                | Some stem \<Rightarrow>
                    if \<not> is_kebab_name stem MAX_WORKFLOW_PATH_NAME_BYTES then Err InvalidPath
                    else Ok (WorkflowPath path)))"

fun WorkflowPath_name :: "workflow_path \<Rightarrow> string option" where
  "WorkflowPath_name (WorkflowPath path) =
     (case strip_prefix WORKFLOW_PATH_PREFIX path of
        None \<Rightarrow> None
      | Some file_name \<Rightarrow> workflow_stem file_name)"

definition ImageContextPath_parse :: "string \<Rightarrow> (path_error, image_context_path) result" where
  "ImageContextPath_parse path =
     (case strip_prefix REPO_IMAGE_CONTEXT_PREFIX path of
        None \<Rightarrow> Err InvalidPath
      | Some relative \<Rightarrow>
         (case split_once (CHR ''/'') relative of
            None \<Rightarrow> Err InvalidPath
          | Some (image_name, context_path) \<Rightarrow>
              if \<not> is_kebab_name image_name MAX_REPO_IMAGE_NAME_BYTES
                 \<or> context_path = []
                 \<or> (\<exists>component \<in> set (split_on (CHR ''/'') context_path).
                      component = [] \<or> component = ''.'' \<or> component = ''..'')
              then Err InvalidPath
              else Ok (ImageContextPath path)))"

fun ImageContextPath_relative_parts :: "image_context_path \<Rightarrow> (string \<times> string) option" where
  "ImageContextPath_relative_parts (ImageContextPath path) =
     (case strip_prefix REPO_IMAGE_CONTEXT_PREFIX path of
        None \<Rightarrow> None
      | Some relative \<Rightarrow> split_once (CHR ''/'') relative)"

datatype repo_control_path =
  Rules | Workflow workflow_path | ImageContext image_context_path | Forbidden_path

definition classify_repo_control_path :: "scope_path \<Rightarrow> repo_control_path option" where
  "classify_repo_control_path path =
     (if \<not> is_repo_control_path path then None
      else if is_repo_rules_path path then Some Rules
      else (case WorkflowPath_parse (as_str path) of
              Inr workflow \<Rightarrow> Some (Workflow workflow)
            | Inl _ \<Rightarrow>
                (case ImageContextPath_parse (as_str path) of
                   Inr image_context \<Rightarrow> Some (ImageContext image_context)
                 | Inl _ \<Rightarrow> Some Forbidden_path)))"

definition repo_relative_scope_path :: "string \<Rightarrow> (ScopePathError, scope_path) result" where
  "repo_relative_scope_path path =
     ScopePath_parse (if starts_with ''/'' path then path else ''/'' @ path)"

lemmas control_defs = is_repo_control_path_def is_repo_rules_path_def is_private_control_path_def
  control_consts

subsection \<open>Facts\<close>

lemma split_on_hd_prefix: "hd (split_on c (p @ c # s)) = hd (split_on c p)"
  by (induction p) (auto split: list.splits)

lemma is_repo_control_canonical:
  assumes "canonical p"
  shows "is_repo_control_path p \<longleftrightarrow> segments p \<noteq> [] \<and> hd (segments p) = ''.scope''"
proof -
  obtain ss where ss: "\<forall>s \<in> set ss. good_segment s" "p = ScopePath (path_of ss)"
    using assms canonical_iff by blast
  show ?thesis
  proof (cases ss)
    case Nil
    with ss show ?thesis using segments_path_of [of "[]"]
      by (simp add: control_defs path_of_def string_ops)
  next
    case (Cons s ts)
    then have s: "CHR ''/'' \<notin> set s" "s \<noteq> []" using ss(1) by (auto simp: good_segment_def)
    have sl: "as_str p = CHR ''/'' # s @ slashed ts"
      using ss(2) Cons by (simp add: path_of_def)
    have "s = ''.scope''" if pre: "prefix ''/.scope/'' (as_str p)"
    proof -
      obtain r where "s @ slashed ts = ''.scope'' @ CHR ''/'' # r"
        using pre sl by (auto simp: prefix_def)
      then have "hd (split_on (CHR ''/'') (s @ slashed ts)) = hd (split_on (CHR ''/'') ''.scope'')"
        using split_on_hd_prefix by metis
      moreover have "hd (split_on (CHR ''/'') (s @ slashed ts)) = s"
        using s by (cases ts) (simp_all add: split_on_no_sep split_on_append)
      ultimately show ?thesis by simp
    qed
    moreover have "s = ''.scope'' \<and> ts = []" if "as_str p = ''/.scope''"
    proof -
      have "split_on (CHR ''/'') (slashed ss) = split_on (CHR ''/'') ''/.scope''"
        using that ss(2) Cons by (simp add: path_of_def)
      then show ?thesis using split_slashed [of ss] ss(1) Cons by (auto simp: good_segment_def)
    qed
    moreover have "as_str p = ''/.scope'' \<or> prefix ''/.scope/'' (as_str p)" if "s = ''.scope''"
      using sl that by (cases ts) (auto simp: prefix_def)
    ultimately have "as_str p = ''/.scope'' \<or> prefix ''/.scope/'' (as_str p) \<longleftrightarrow> s = ''.scope''"
      by blast
    moreover have "segments p = s # ts" using ss segments_path_of [OF ss(1)] Cons by simp
    ultimately show ?thesis
      by (simp only: is_repo_control_path_def control_consts string_ops list.sel list.distinct simp_thms)
  qed
qed

end
