(* ===== verification/Scope_Views.thy ===== *)
theory Scope_Views
  imports Scope_Paths "HOL-Library.Multiset"
begin

text \<open>
  \<^verbatim>\<open>views.rs\<close>: named audiences of a repository. A view includes other views; the full view
  \<^verbatim>\<open>private\<close> includes all of them; \<^verbatim>\<open>public\<close>, where it exists, is what anyone reads.

  \<open>Views_new\<close> is the validating constructor, \<open>views_ok\<close> what it guarantees. The worklist
  \<open>Views_labels\<close> is shown to compute the reflexive-transitive closure of the include relation, from
  which the order laws of \<open>Views_may_read\<close> and the visibility laws of \<open>Views_shows\<close> follow. They are
  stated as the interfaces \<open>reader_order\<close> and \<open>visibility\<close> and interpreted for validated views.

  \<^verbatim>\<open>str::to_lowercase\<close> depends on the Unicode tables, so it is the parameter \<open>lower\<close>.
\<close>

section \<open>View identifiers\<close>

datatype view_id = ViewId (view_str: string)

instantiation view_id :: linorder
begin
definition less_eq_view_id :: "view_id \<Rightarrow> view_id \<Rightarrow> bool" where
  "less_eq_view_id a b \<longleftrightarrow> view_str a \<le> view_str b"
definition less_view_id :: "view_id \<Rightarrow> view_id \<Rightarrow> bool" where
  "less_view_id a b \<longleftrightarrow> view_str a < view_str b"
instance
  by standard (auto simp: less_eq_view_id_def less_view_id_def view_id.expand)
end

definition ViewId_public :: view_id where "ViewId_public = ViewId ''public''"
definition ViewId_private :: view_id where "ViewId_private = ViewId ''private''"

lemmas view_id_defs = ViewId_public_def ViewId_private_def

lemma public_neq_private [simp]: "ViewId_public \<noteq> ViewId_private" "ViewId_private \<noteq> ViewId_public"
  by (simp_all add: view_id_defs)

definition view_id_tail_byte :: "char \<Rightarrow> bool" where
  "view_id_tail_byte b \<longleftrightarrow>
     is_ascii_lowercase b \<or> is_ascii_digit b \<or> b = CHR ''_'' \<or> b = CHR ''-''"

definition ViewId_parse :: "string \<Rightarrow> (domain_error, view_id) result" where
  "ViewId_parse bytes =
     (if bytes = [] \<or> length bytes > 32 \<or> \<not> is_ascii_lowercase (hd bytes)
         \<or> \<not> (\<forall>b \<in> set (tl bytes). view_id_tail_byte b)
      then Err (invalid_input ''view id must match [a-z][a-z0-9_-]{0,31}'')
      else Ok (ViewId bytes))"

definition ViewId_is_public :: "view_id \<Rightarrow> bool" where
  "ViewId_is_public i \<longleftrightarrow> i = ViewId_public"

definition ViewId_is_private :: "view_id \<Rightarrow> bool" where
  "ViewId_is_private i \<longleftrightarrow> i = ViewId_private"

section \<open>View definitions\<close>

datatype view_includes = IncludesAll | IncludesSome "view_id btree_set"
datatype view_readers = Anyone | Assigned

record view_definition =
  vd_id :: view_id
  vd_name :: string
  vd_includes :: view_includes
  vd_readers :: view_readers

datatype views = Views (view_defs: "view_definition list")

definition MAX_VIEWS :: nat where "MAX_VIEWS = 16"

definition Views_builtin :: views where
  "Views_builtin = Views
     [\<lparr>vd_id = ViewId_public, vd_name = ''Public'', vd_includes = IncludesSome [], vd_readers = Anyone\<rparr>,
      \<lparr>vd_id = ViewId_private, vd_name = ''Private'', vd_includes = IncludesAll, vd_readers = Assigned\<rparr>]"

text \<open>The loop that collects folded names, failing on an empty or repeated one.\<close>

fun check_names ::
  "(string \<Rightarrow> string) \<Rightarrow> string list \<Rightarrow> view_definition list \<Rightarrow> (domain_error, unit) result" where
  "check_names lower names [] = Ok ()"
| "check_names lower names (d # ds) =
     (let name = lower (trim (vd_name d)) in
      if name = [] then
        Err (invalid_input (''view '' @ view_str (vd_id d) @ '' needs a name''))
      else if name \<in> set names then
        Err (invalid_input (''view name '' @ trim (vd_name d) @ '' is used more than once''))
      else check_names lower (name # names) ds)"

definition check_includes ::
  "view_id list \<Rightarrow> view_definition \<Rightarrow> (domain_error, unit) result" where
  "check_includes ids d =
     (case vd_includes d of
        IncludesAll \<Rightarrow> Ok ()
      | IncludesSome included \<Rightarrow>
          (case find (\<lambda>i. i \<notin> set ids) included of
             Some missing \<Rightarrow>
               Err (invalid_input (''view '' @ view_str (vd_id d) @ '' includes unknown view ''
                 @ view_str missing))
           | None \<Rightarrow>
               if \<exists>i \<in> set included. ViewId_is_private i then
                 Err (invalid_input (''view '' @ view_str (vd_id d) @ '' cannot include the full view''))
               else Ok ()))"

definition order_views :: "view_definition list \<Rightarrow> view_definition list" where
  "order_views definitions =
     (let is_builtin = (\<lambda>d. ViewId_is_public (vd_id d) \<or> ViewId_is_private (vd_id d))
      in sort_key (\<lambda>d. ViewId_is_private (vd_id d)) (filter is_builtin definitions)
         @ filter (\<lambda>d. \<not> is_builtin d) definitions)"

definition Views_new ::
  "(string \<Rightarrow> string) \<Rightarrow> view_definition list \<Rightarrow> (domain_error, views) result" where
  "Views_new lower definitions =
     (let ids = map vd_id definitions;
          full = filter (\<lambda>d. vd_includes d = IncludesAll) definitions
      in
      if definitions = [] \<or> length definitions > MAX_VIEWS then
        Err (invalid_input (''a repository has between 1 and '' @ show_nat MAX_VIEWS @ '' views''))
      else if \<not> distinct ids then Err (invalid_input ''view ids must be unique'')
      else if \<exists>i \<in> set ids. view_str i = ''permissioned'' then
        Err (invalid_input (''view id '' @ ''permissioned'' @ '' is reserved''))
      else and_then (check_names lower [] definitions) (\<lambda>_.
        if length full \<noteq> 1 \<or> \<not> ViewId_is_private (vd_id (hd full)) then
          Err (invalid_input ''exactly one view must include all labels and its id must be private'')
        else if length (filter (\<lambda>d. vd_readers d = Anyone) definitions) > 1 then
          Err (invalid_input ''at most one view may have anyone readers'')
        else (case find (\<lambda>d. ViewId_is_public (vd_id d) \<noteq> (vd_readers d = Anyone)) definitions of
          Some d \<Rightarrow>
            Err (invalid_input (''view '' @ view_str (vd_id d)
              @ '' cannot change the readers of the built-in public view''))
        | None \<Rightarrow>
            and_then (check_all (check_includes ids) definitions) (\<lambda>_.
              Ok (Views (order_views definitions))))))"

definition Views_get :: "views \<Rightarrow> view_id \<Rightarrow> view_definition option" where
  "Views_get v i = find (\<lambda>d. vd_id d = i) (view_defs v)"

text \<open>
  \<^verbatim>\<open>full\<close> ends in \<^verbatim>\<open>expect\<close>: it panics when no view includes all. That branch is the unspecified
  value \<open>undefined\<close>; \<open>full_found\<close> shows that it is not taken for validated views.
\<close>

definition Views_full :: "views \<Rightarrow> view_id" where
  "Views_full v =
     (case find (\<lambda>d. vd_includes d = IncludesAll) (view_defs v) of
        Some d \<Rightarrow> vd_id d
      | None \<Rightarrow> undefined)"

definition Views_anyone :: "views \<Rightarrow> view_id option" where
  "Views_anyone v = map_option vd_id (find (\<lambda>d. vd_readers d = Anyone) (view_defs v))"

text \<open>What a popped view pushes onto the worklist.\<close>

definition included_by :: "views \<Rightarrow> view_id \<Rightarrow> view_id list" where
  "included_by v i =
     (case Views_get v i of
        None \<Rightarrow> []
      | Some d \<Rightarrow>
          (case vd_includes d of
             IncludesAll \<Rightarrow> map vd_id (view_defs v)
           | IncludesSome included \<Rightarrow> included))"

definition mentioned :: "views \<Rightarrow> view_id set" where
  "mentioned v = (\<Union>d \<in> set (view_defs v). set (included_by v (vd_id d)))"

lemma finite_mentioned [simp]: "finite (mentioned v)"
  by (simp add: mentioned_def)

lemma included_by_mentioned: "set (included_by v i) \<subseteq> mentioned v"
proof (cases "Views_get v i")
  case (Some d)
  then have "d \<in> set (view_defs v)" "vd_id d = i"
    by (auto simp: Views_get_def find_Some_iff)
  then show ?thesis by (auto simp: mentioned_def)
qed (simp add: included_by_def)

function labels_loop :: "views \<Rightarrow> view_id set \<Rightarrow> view_id list \<Rightarrow> view_id set" where
  "labels_loop v labels pending =
     (if pending = [] then labels
      else let i = last pending; rest = butlast pending in
        if i \<in> labels then labels_loop v labels rest
        else labels_loop v (insert i labels) (rest @ included_by v i))"
  by pat_completeness auto

lemma labels_loop_skip:
  assumes "pending \<noteq> []"
  shows "card ((mentioned v \<union> set (butlast pending)) - labels)
    \<le> card ((mentioned v \<union> set pending) - labels)"
  by (rule card_mono) (auto dest: in_set_butlastD)

lemma labels_loop_grow:
  assumes "pending \<noteq> []" and "last pending \<notin> labels"
  shows "card ((mentioned v \<union> set (butlast pending @ included_by v (last pending)))
      - insert (last pending) labels)
    < card ((mentioned v \<union> set pending) - labels)"
  using assms included_by_mentioned [of v "last pending"]
  by (intro psubset_card_mono) (auto dest: in_set_butlastD)

termination labels_loop
  by (relation "measures [\<lambda>(v, labels, pending). card ((mentioned v \<union> set pending) - labels),
                          \<lambda>(v, labels, pending). length pending]")
    (use labels_loop_skip labels_loop_grow in \<open>auto simp: le_less simp del: set_append\<close>)

declare labels_loop.simps [simp del]

definition Views_labels :: "views \<Rightarrow> view_id \<Rightarrow> view_id set" where
  "Views_labels v view = labels_loop v {} [view]"

definition Views_shows :: "views \<Rightarrow> view_id \<Rightarrow> scope_path \<Rightarrow> view_id \<Rightarrow> bool" where
  "Views_shows v view path label \<longleftrightarrow>
     view = Views_full v \<or> (label \<in> Views_labels v view \<and> \<not> is_private_control_path path)"

definition Views_may_read :: "views \<Rightarrow> view_id \<Rightarrow> view_id \<Rightarrow> bool" where
  "Views_may_read v reader target \<longleftrightarrow> target \<in> Views_labels v reader"

definition Views_readable_by :: "views \<Rightarrow> view_id option \<Rightarrow> view_id list" where
  "Views_readable_by v reader =
     (case reader of
        None \<Rightarrow> (case Views_anyone v of None \<Rightarrow> [] | Some i \<Rightarrow> [i])
      | Some r \<Rightarrow> filter (\<lambda>i. i \<in> Views_labels v r) (map vd_id (view_defs v)))"

definition Views_display_name :: "views \<Rightarrow> view_id \<Rightarrow> string" where
  "Views_display_name v i = (case Views_get v i of None \<Rightarrow> view_str i | Some d \<Rightarrow> vd_name d)"

record views_transition =
  vt_before :: views
  vt_after :: views

section \<open>The worklist computes the closure of the include relation\<close>

definition include_rel :: "views \<Rightarrow> (view_id \<times> view_id) set" where
  "include_rel v = {(a, b). b \<in> set (included_by v a)}"

lemma labels_loop_grows: "labels \<union> set pending \<subseteq> labels_loop v labels pending"
proof (induction v labels pending rule: labels_loop.induct)
  case (1 v labels pending)
  show ?case
  proof (cases "pending = []")
    case False
    have p: "set pending = insert (last pending) (set (butlast pending))"
      using False by (metis append_butlast_last_id list.simps(15) rotate1.simps(2) set_rotate1)
    show ?thesis
      using 1(1) [OF False refl refl] 1(2) [OF False refl refl] False
      by (subst labels_loop.simps) (auto simp: Let_def p)
  qed (simp add: labels_loop.simps)
qed

lemma labels_loop_closed:
  assumes "\<And>a b. a \<in> labels \<Longrightarrow> b \<in> set (included_by v a) \<Longrightarrow> b \<in> labels \<union> set pending"
    and "a \<in> labels_loop v labels pending" and "b \<in> set (included_by v a)"
  shows "b \<in> labels_loop v labels pending"
  using assms
proof (induction v labels pending arbitrary: a b rule: labels_loop.induct)
  case (1 v labels pending)
  show ?case
  proof (cases "pending = []")
    case True
    with 1(3-5) show ?thesis by (auto simp: labels_loop.simps)
  next
    case False
    define i where "i = last pending"
    define rest where "rest = butlast pending"
    have p: "set pending = insert i (set rest)"
      using False by (metis append_butlast_last_id i_def rest_def list.simps(15) rotate1.simps(2) set_rotate1)
    show ?thesis
    proof (cases "i \<in> labels")
      case True
      then have s: "labels_loop v labels pending = labels_loop v labels rest"
        using False by (subst labels_loop.simps) (simp add: i_def rest_def Let_def)
      have "b \<in> labels \<union> set rest" if "a \<in> labels" "b \<in> set (included_by v a)" for a b
        using 1(3) [OF that] True p by auto
      with 1(1) [OF False i_def rest_def True] 1(4,5) s show ?thesis by blast
    next
      case new: False
      then have s: "labels_loop v labels pending = labels_loop v (insert i labels) (rest @ included_by v i)"
        using False by (subst labels_loop.simps) (simp add: i_def rest_def Let_def)
      have "b \<in> insert i labels \<union> set (rest @ included_by v i)"
        if "a \<in> insert i labels" "b \<in> set (included_by v a)" for a b
        using that 1(3) p by auto
      with 1(2) [OF False i_def rest_def new] 1(4,5) s show ?thesis by metis
    qed
  qed
qed

lemma labels_loop_sound:
  "labels_loop v labels pending \<subseteq> labels \<union> (include_rel v)\<^sup>* `` set pending"
proof (induction v labels pending rule: labels_loop.induct)
  case (1 v labels pending)
  show ?case
  proof (cases "pending = []")
    case False
    have last: "last pending \<in> set pending" using False by simp
    have sub: "set (butlast pending) \<subseteq> set pending" by (auto dest: in_set_butlastD)
    have "(include_rel v)\<^sup>* `` set (included_by v (last pending)) \<subseteq> (include_rel v)\<^sup>* `` set pending"
      using last by (auto simp: include_rel_def intro: converse_rtrancl_into_rtrancl)
    moreover have "(include_rel v)\<^sup>* `` set (butlast pending) \<subseteq> (include_rel v)\<^sup>* `` set pending"
      using sub by blast
    moreover have "last pending \<in> (include_rel v)\<^sup>* `` set pending" using last by blast
    ultimately show ?thesis
      using 1(1) [OF False refl refl] 1(2) [OF False refl refl] False
      by (subst labels_loop.simps) (simp add: Let_def Image_Un, blast)
  qed (simp add: labels_loop.simps)
qed

lemma labels_closure: "Views_labels v view = (include_rel v)\<^sup>* `` {view}"
proof
  show "Views_labels v view \<subseteq> (include_rel v)\<^sup>* `` {view}"
    using labels_loop_sound [of v "{}" "[view]"] by (simp add: Views_labels_def)
  have start: "view \<in> Views_labels v view"
    using labels_loop_grows [of "{}" "[view]" v] by (simp add: Views_labels_def)
  have "b \<in> Views_labels v view" if "a \<in> Views_labels v view" "(a, b) \<in> include_rel v" for a b
    using labels_loop_closed [of "{}" v "[view]" a b] that
    by (simp add: Views_labels_def include_rel_def)
  note step = this
  have "x \<in> Views_labels v view" if "(view, x) \<in> (include_rel v)\<^sup>*" for x
    using that by (induction rule: rtrancl_induct) (use start step in auto)
  then show "(include_rel v)\<^sup>* `` {view} \<subseteq> Views_labels v view" by auto
qed

lemma may_read_iff: "Views_may_read v a b \<longleftrightarrow> (a, b) \<in> (include_rel v)\<^sup>*"
  by (simp add: Views_may_read_def labels_closure)

section \<open>Validated views\<close>

definition views_ok :: "views \<Rightarrow> bool" where
  "views_ok v \<longleftrightarrow>
     distinct (map vd_id (view_defs v))
     \<and> length (view_defs v) \<le> MAX_VIEWS
     \<and> (\<exists>d \<in> set (view_defs v). vd_includes d = IncludesAll)
     \<and> (\<forall>d \<in> set (view_defs v). vd_includes d = IncludesAll \<longrightarrow> vd_id d = ViewId_private)
     \<and> (\<forall>d \<in> set (view_defs v). vd_readers d = Anyone \<longleftrightarrow> vd_id d = ViewId_public)
     \<and> (\<forall>d \<in> set (view_defs v). \<forall>ids. vd_includes d = IncludesSome ids \<longrightarrow>
          set ids \<subseteq> vd_id ` set (view_defs v) - {ViewId_private})"

lemma set_order_views [simp]: "set (order_views ds) = set ds"
  by (auto simp: order_views_def Let_def)

lemma mset_order_views: "mset (order_views ds) = mset ds"
  by (simp add: order_views_def Let_def)

lemma Views_new_OkD:
  assumes "Views_new lower ds = Inr v"
  shows "v = Views (order_views ds)" and "ds \<noteq> []" and "length ds \<le> MAX_VIEWS"
    and "distinct (map vd_id ds)"
    and "length (filter (\<lambda>d. vd_includes d = IncludesAll) ds) = 1"
    and "\<forall>d \<in> set ds. vd_includes d = IncludesAll \<longrightarrow> vd_id d = ViewId_private"
    and "\<forall>d \<in> set ds. vd_readers d = Anyone \<longleftrightarrow> vd_id d = ViewId_public"
    and "check_names lower [] ds = Inr ()"
    and "\<forall>d \<in> set ds. check_includes (map vd_id ds) d = Inr ()"
    and "\<forall>d \<in> set ds. view_str (vd_id d) \<noteq> ''permissioned''"
proof -
  let ?full = "filter (\<lambda>d. vd_includes d = IncludesAll) ds"
  have f: "find (\<lambda>d. ViewId_is_public (vd_id d) \<noteq> (vd_readers d = Anyone)) ds = None"
    and full: "length ?full = 1" "ViewId_is_private (vd_id (hd ?full))"
    and rest: "v = Views (order_views ds)" "ds \<noteq> []" "length ds \<le> MAX_VIEWS"
    "distinct (map vd_id ds)" "check_names lower [] ds = Inr ()"
    "\<forall>d \<in> set ds. check_includes (map vd_id ds) d = Inr ()"
    "\<forall>d \<in> set ds. view_str (vd_id d) \<noteq> ''permissioned''"
    using assms
    by (simp_all add: Views_new_def Let_def and_then_Ok_iff check_all_Ok_iff
        split: if_split_asm option.split_asm)
  show "\<forall>d \<in> set ds. vd_readers d = Anyone \<longleftrightarrow> vd_id d = ViewId_public"
    using f by (auto simp: find_None_iff ViewId_is_public_def)
  obtain d0 where "?full = [d0]" using full(1) by (metis One_nat_def Suc_length_conv length_0_conv)
  then have "\<forall>d \<in> set ds. vd_includes d = IncludesAll \<longrightarrow> d = d0"
    by (metis (mono_tags, lifting) empty_iff filter_set insert_iff list.set(1) list.set(2) mem_Collect_eq set_filter)
  then show "\<forall>d \<in> set ds. vd_includes d = IncludesAll \<longrightarrow> vd_id d = ViewId_private"
    using full(2) \<open>?full = [d0]\<close> by (auto simp: ViewId_is_private_def)
qed (use assms in \<open>simp_all add: Views_new_def Let_def and_then_Ok_iff check_all_Ok_iff
        split: if_split_asm option.split_asm\<close>)

lemma check_includes_Ok:
  "check_includes ids d = Inr () \<Longrightarrow> vd_includes d = IncludesSome xs \<Longrightarrow>
   set xs \<subseteq> set ids - {ViewId_private}"
  by (auto simp: check_includes_def find_None_iff ViewId_is_private_def split: option.splits if_splits)

lemma Views_new_ok: 
  assumes "Views_new lower ds = Inr v"
  shows "views_ok v"
proof -
  note D = Views_new_OkD [OF assms]
  have "mset (map vd_id (order_views ds)) = mset (map vd_id ds)"
    by (simp add: mset_order_views)
  then have "distinct (map vd_id (order_views ds))" "length (order_views ds) = length ds"
    using D(4) mset_eq_imp_distinct_iff [of "map vd_id (order_views ds)" "map vd_id ds"]
      mset_eq_length [OF mset_order_views [of ds]] by blast+
  moreover have "\<exists>d \<in> set ds. vd_includes d = IncludesAll"
  proof -
    have "filter (\<lambda>d. vd_includes d = IncludesAll) ds \<noteq> []" using D(5) by auto
    then show ?thesis by (auto simp: filter_empty_conv)
  qed
  moreover have "\<forall>d \<in> set ds. \<forall>ids. vd_includes d = IncludesSome ids \<longrightarrow>
      set ids \<subseteq> vd_id ` set ds - {ViewId_private}"
    using D(9) check_includes_Ok by fastforce
  ultimately show ?thesis
    using D(1,3,6,7) by (simp add: views_ok_def)
qed

lemma views_ok_builtin [simp]: "views_ok Views_builtin"
  by (simp add: views_ok_def Views_builtin_def MAX_VIEWS_def)

lemma views_ok_get:
  "views_ok v \<Longrightarrow> d \<in> set (view_defs v) \<Longrightarrow> Views_get v (vd_id d) = Some d"
proof -
  assume v: "views_ok v" and d: "d \<in> set (view_defs v)"
  then obtain e where e: "find (\<lambda>e. vd_id e = vd_id d) (view_defs v) = Some e"
    by (cases "find (\<lambda>e. vd_id e = vd_id d) (view_defs v)") (auto simp: find_None_iff)
  then have "e \<in> set (view_defs v)" "vd_id e = vd_id d" by (auto simp: find_Some_iff)
  then have "e = d" using v d by (metis distinct_map inj_onD views_ok_def)
  with e show "Views_get v (vd_id d) = Some d" by (simp add: Views_get_def)
qed

lemma full_found:
  assumes "views_ok v"
  shows "\<exists>d. find (\<lambda>d. vd_includes d = IncludesAll) (view_defs v) = Some d" 
    and "Views_full v = ViewId_private"
    and "\<exists>d. Views_get v ViewId_private = Some d \<and> vd_includes d = IncludesAll"
proof -
  obtain e where e: "e \<in> set (view_defs v)" "vd_includes e = IncludesAll"
    using assms by (auto simp: views_ok_def)
  obtain d where d: "find (\<lambda>d. vd_includes d = IncludesAll) (view_defs v) = Some d"
    using e by (cases "find (\<lambda>d. vd_includes d = IncludesAll) (view_defs v)") (auto simp: find_None_iff)
  then show "\<exists>d. find (\<lambda>d. vd_includes d = IncludesAll) (view_defs v) = Some d" by blast
  have dv: "d \<in> set (view_defs v)" "vd_includes d = IncludesAll"
    using d by (auto simp: find_Some_iff)
  then have p: "vd_id d = ViewId_private" using assms by (auto simp: views_ok_def)
  with d show "Views_full v = ViewId_private" by (simp add: Views_full_def)
  show "\<exists>d. Views_get v ViewId_private = Some d \<and> vd_includes d = IncludesAll"
    using views_ok_get [OF assms dv(1)] dv(2) p by auto
qed

lemma included_by_private:
  assumes "views_ok v"
  shows "ViewId_private \<in> set (included_by v a) \<longleftrightarrow> a = ViewId_private"
proof
  assume priv: "ViewId_private \<in> set (included_by v a)"
  then obtain d where d: "Views_get v a = Some d"
    by (cases "Views_get v a") (auto simp: included_by_def)
  then have dv: "d \<in> set (view_defs v)" "vd_id d = a" by (auto simp: Views_get_def find_Some_iff)
  show "a = ViewId_private"
  proof (cases "vd_includes d")
    case IncludesAll
    with dv assms show ?thesis by (auto simp: views_ok_def)
  next
    case (IncludesSome ids)
    with dv(1) assms have "ViewId_private \<notin> set ids" unfolding views_ok_def by blast
    with priv d IncludesSome show ?thesis by (simp add: included_by_def)
  qed
next
  assume "a = ViewId_private"
  moreover obtain d where d: "Views_get v ViewId_private = Some d" "vd_includes d = IncludesAll"
    using full_found(3) [OF assms] by blast
  moreover have "ViewId_private \<in> vd_id ` set (view_defs v)"
    using find_SomeD [OF d(1) [unfolded Views_get_def]] by force
  ultimately show "ViewId_private \<in> set (included_by v a)"
    by (simp add: included_by_def)
qed

lemma may_read_full_only:
  assumes "views_ok v"
  shows "Views_may_read v a (Views_full v) \<longleftrightarrow> a = Views_full v"
proof -
  have "a = ViewId_private" if "(a, ViewId_private) \<in> (include_rel v)\<^sup>*"
    using that by (induction rule: converse_rtrancl_induct)
      (auto simp: include_rel_def included_by_private [OF assms])
  then show ?thesis
    using full_found(2) [OF assms] by (auto simp: may_read_iff)
qed

lemma full_reads_all:
  assumes "views_ok v" and "Views_get v b = Some d"
  shows "Views_may_read v (Views_full v) b"
proof -
  have "b \<in> vd_id ` set (view_defs v)" using assms(2) by (auto simp: Views_get_def find_Some_iff)
  then have "(ViewId_private, b) \<in> include_rel v"
    using full_found(3) [OF assms(1)] by (auto simp: include_rel_def included_by_def)
  then show ?thesis using full_found(2) [OF assms(1)] by (auto simp: may_read_iff)
qed

section \<open>The interfaces the rest of the program relies on\<close>

locale reader_order =
  fixes may_read :: "'view \<Rightarrow> 'view \<Rightarrow> bool"
  assumes refl: "may_read a a"
    and trans: "may_read a b \<Longrightarrow> may_read b c \<Longrightarrow> may_read a c"
begin

definition reads :: "'view \<Rightarrow> 'view set" where
  "reads a = {b. may_read a b}"

lemma reads_mono: "may_read a b \<longleftrightarrow> reads b \<subseteq> reads a"
  using refl trans unfolding reads_def by blast

end

locale visibility =
  fixes ok :: "'v \<Rightarrow> bool"
    and may_read :: "'v \<Rightarrow> 'view \<Rightarrow> 'view \<Rightarrow> bool"
    and shows_label :: "'v \<Rightarrow> 'view \<Rightarrow> 'path \<Rightarrow> 'view \<Rightarrow> bool"
    and full :: "'v \<Rightarrow> 'view"
    and hidden :: "'path \<Rightarrow> bool"
  assumes order: "ok v \<Longrightarrow> reader_order (may_read v)"
    and full_sees: "ok v \<Longrightarrow> shows_label v (full v) p l"
    and narrow_sees: "ok v \<Longrightarrow> a \<noteq> full v \<Longrightarrow> shows_label v a p l \<longleftrightarrow> may_read v a l \<and> \<not> hidden p"
    and full_reader: "ok v \<Longrightarrow> may_read v a (full v) \<Longrightarrow> a = full v"
begin

lemma hidden_needs_full: "ok v \<Longrightarrow> hidden p \<Longrightarrow> shows_label v a p l \<longleftrightarrow> a = full v"
  using full_sees narrow_sees by metis

lemma shows_mono: "ok v \<Longrightarrow> may_read v a b \<Longrightarrow> shows_label v b p l \<Longrightarrow> shows_label v a p l"
  using full_sees narrow_sees full_reader reader_order.trans [OF order] by metis

lemma own_label_shown: "ok v \<Longrightarrow> \<not> hidden p \<Longrightarrow> shows_label v a p a"
  using full_sees narrow_sees reader_order.refl [OF order] by metis

lemma full_label_needs_full: "ok v \<Longrightarrow> shows_label v a p (full v) \<longleftrightarrow> a = full v"
  using full_sees narrow_sees full_reader by metis

end

interpretation mr: reader_order "Views_may_read v" for v
  by unfold_locales (auto simp: may_read_iff)

interpretation vis: visibility views_ok Views_may_read Views_shows Views_full is_private_control_path
proof unfold_locales
  fix v a p l assume v: "views_ok v"
  show "Views_may_read v a (Views_full v) \<Longrightarrow> a = Views_full v"
    using may_read_full_only [OF v] by blast
  show "Views_shows v (Views_full v) p l"
    by (simp add: Views_shows_def)
  show "a \<noteq> Views_full v \<Longrightarrow> Views_shows v a p l \<longleftrightarrow> Views_may_read v a l \<and> \<not> is_private_control_path p"
    by (simp add: Views_shows_def Views_may_read_def)
qed

end
