(* ===== verification/Repo_Config.thy ===== *)
theory Repo_Config
  imports Scope_Views
begin

text \<open>
  \<^verbatim>\<open>repo_config.rs\<close>: the repository's configuration file. Rules map path patterns to views; the
  label of a path is the view of the last matching rule of greatest weight. JSON decoding and the
  SHA-256 fingerprints are outside the model: \<open>RepoConfig_validate\<close> starts from the decoded value.
\<close>

datatype history_rewrite_action = RedactPublicHistory

record history_rewrite_request =
  hr_path :: string
  hr_action :: history_rewrite_action

record repo_config_file_rule =
  rcr_path :: string
  rcr_view :: view_id

record repo_config_files =
  rcf_default :: view_id
  rcf_rules :: "repo_config_file_rule list"

record repo_config =
  rc_kind :: string
  rc_version :: nat
  rc_views :: views
  rc_files :: repo_config_files
  rc_rewrites :: "history_rewrite_request list"

datatype repo_config_error =
  InvalidKind
| InvalidVersion
| ConfigRelativePath
| ConfigInvalidSegment
| ReservedControlPath string
| UnknownView view_id
| InvalidViews domain_error

definition REPO_CONFIG_KIND :: string where "REPO_CONFIG_KIND = ''scope.repo-config''"
definition REPO_CONFIG_VERSION :: nat where "REPO_CONFIG_VERSION = 3"

definition RepoConfig_with_default_view :: "view_id \<Rightarrow> repo_config" where
  "RepoConfig_with_default_view default_view =
     \<lparr>rc_kind = REPO_CONFIG_KIND, rc_version = REPO_CONFIG_VERSION, rc_views = Views_builtin,
      rc_files = \<lparr>rcf_default = default_view, rcf_rules = []\<rparr>, rc_rewrites = []\<rparr>"

section \<open>Patterns\<close>

definition pattern_base_path :: "string \<Rightarrow> string" where
  "pattern_base_path pattern = case_option pattern id (strip_suffix ''/**'' pattern)"

definition pattern_matches_path :: "string \<Rightarrow> string \<Rightarrow> bool" where
  "pattern_matches_path pattern path =
     (case strip_suffix ''/**'' pattern of
        Some base \<Rightarrow>
          path = base
          \<or> (case strip_prefix base path of Some tail \<Rightarrow> starts_with ''/'' tail | None \<Rightarrow> False)
      | None \<Rightarrow> path = pattern)"

definition pattern_weight :: "string \<Rightarrow> nat" where
  "pattern_weight pattern = length (pattern_base_path pattern)"

definition HistoryRewriteRequest_matches_path :: "history_rewrite_request \<Rightarrow> scope_path \<Rightarrow> bool" where
  "HistoryRewriteRequest_matches_path r path = pattern_matches_path (hr_path r) (as_str path)"

definition validate_config_path :: "string \<Rightarrow> (repo_config_error, scope_path) result" where
  "validate_config_path path =
     and_then
       (map_err (\<lambda>error. case error of RelativePath \<Rightarrow> ConfigRelativePath
                                     | InvalidSegment \<Rightarrow> ConfigInvalidSegment)
         (ScopePath_parse path))
       (\<lambda>parsed. if as_str parsed \<noteq> path \<or> trim path \<noteq> path then Err ConfigInvalidSegment
                 else Ok parsed)"

definition validate_config_pattern :: "string \<Rightarrow> (repo_config_error, unit) result" where
  "validate_config_pattern pattern =
     (case strip_suffix ''/**'' pattern of
        Some base \<Rightarrow> and_then (validate_config_path base) (\<lambda>_. Ok ())
      | None \<Rightarrow> and_then (validate_config_path pattern) (\<lambda>_. Ok ()))"

section \<open>Validation\<close>

definition validate_rule :: "repo_config \<Rightarrow> repo_config_file_rule \<Rightarrow> (repo_config_error, unit) result" where
  "validate_rule c rule =
     (if Views_get (rc_views c) (rcr_view rule) = None then Err (UnknownView (rcr_view rule))
      else and_then (validate_config_pattern (rcr_path rule)) (\<lambda>_.
        if is_repo_control_pattern (rcr_path rule) then Err (ReservedControlPath (rcr_path rule))
        else Ok ()))"

definition validate_rewrite :: "history_rewrite_request \<Rightarrow> (repo_config_error, unit) result" where
  "validate_rewrite rewrite =
     and_then (validate_config_pattern (hr_path rewrite)) (\<lambda>_.
       if is_repo_control_pattern (hr_path rewrite) then Err (ReservedControlPath (hr_path rewrite))
       else Ok ())"

definition RepoConfig_validate ::
  "(string \<Rightarrow> string) \<Rightarrow> repo_config \<Rightarrow> (repo_config_error, unit) result" where
  "RepoConfig_validate lower c =
     (if rc_kind c \<noteq> REPO_CONFIG_KIND then Err InvalidKind
      else if rc_version c \<noteq> REPO_CONFIG_VERSION then Err InvalidVersion
      else and_then (map_err InvalidViews (Views_new lower (view_defs (rc_views c)))) (\<lambda>_.
        if Views_get (rc_views c) (rcf_default (rc_files c)) = None
        then Err (UnknownView (rcf_default (rc_files c)))
        else and_then (check_all (validate_rule c) (rcf_rules (rc_files c))) (\<lambda>_.
          check_all validate_rewrite (rc_rewrites c))))"

section \<open>Labels\<close>

text \<open>The loop of \<^verbatim>\<open>label_for_path_skipping_rule\<close> over the enumerated rules.\<close>

definition consider_rule ::
  "string \<Rightarrow> nat option \<Rightarrow> nat \<times> repo_config_file_rule \<Rightarrow> nat \<times> view_id \<Rightarrow> nat \<times> view_id" where
  "consider_rule path skipped_rule = (\<lambda>(index, rule) selected.
     if skipped_rule = Some index then selected
     else if pattern_matches_path (rcr_path rule) path \<and> pattern_weight (rcr_path rule) \<ge> fst selected
     then (pattern_weight (rcr_path rule), rcr_view rule)
     else selected)"

definition label_for_path_skipping_rule :: "repo_config \<Rightarrow> scope_path \<Rightarrow> nat option \<Rightarrow> view_id" where
  "label_for_path_skipping_rule c path skipped_rule =
     (if is_repo_rules_path path then ViewId_public
      else if is_private_control_path path then Views_full (rc_views c)
      else snd (fold (consider_rule (as_str path) skipped_rule) (enumerate 0 (rcf_rules (rc_files c)))
                  (0, rcf_default (rc_files c))))"

definition label_for_path :: "repo_config \<Rightarrow> scope_path \<Rightarrow> view_id" where
  "label_for_path c path = label_for_path_skipping_rule c path None"

definition history_rewrites_added_since ::
  "repo_config \<Rightarrow> repo_config option \<Rightarrow> history_rewrite_request list" where
  "history_rewrites_added_since c previous =
     filter (\<lambda>rewrite. case previous of None \<Rightarrow> True | Some p \<Rightarrow> rewrite \<notin> set (rc_rewrites p))
       (rc_rewrites c)"

subsection \<open>Which rule wins\<close>

text \<open>\<open>wins path sk rs i\<close>: rule \<open>i\<close> is the last matching rule of greatest weight.\<close>

definition considered :: "string \<Rightarrow> nat option \<Rightarrow> repo_config_file_rule list \<Rightarrow> nat \<Rightarrow> bool" where
  "considered path sk rs i \<longleftrightarrow> i < length rs \<and> sk \<noteq> Some i \<and> pattern_matches_path (rcr_path (rs ! i)) path"

definition wins :: "string \<Rightarrow> nat option \<Rightarrow> repo_config_file_rule list \<Rightarrow> nat \<Rightarrow> bool" where
  "wins path sk rs i \<longleftrightarrow> considered path sk rs i
     \<and> (\<forall>j. considered path sk rs j \<longrightarrow>
          pattern_weight (rcr_path (rs ! j)) \<le> pattern_weight (rcr_path (rs ! i))
          \<and> (i < j \<longrightarrow> pattern_weight (rcr_path (rs ! j)) < pattern_weight (rcr_path (rs ! i))))"

lemma considered_snoc:
  "considered path sk (rs @ [r]) i \<longleftrightarrow> considered path sk rs i
     \<or> (i = length rs \<and> sk \<noteq> Some i \<and> pattern_matches_path (rcr_path r) path)"
  by (auto simp: considered_def nth_append less_Suc_eq)

lemma considered_less: "considered path sk rs i \<Longrightarrow> i < length rs"
  by (simp add: considered_def)

text \<open>The state of the fold: nothing considered yet, or the winner's weight and view.\<close>

lemma fold_consider:
  fixes path :: string and sk :: "nat option" and d :: view_id
  defines "res \<equiv> \<lambda>rs. fold (consider_rule path sk) (enumerate 0 rs) (0, d)"
  shows "(\<forall>i. \<not> considered path sk rs i) \<and> res rs = (0, d)
    \<or> (\<exists>i. wins path sk rs i \<and> res rs = (pattern_weight (rcr_path (rs ! i)), rcr_view (rs ! i)))"
proof (induction rs rule: rev_induct)
  case Nil
  then show ?case by (simp add: res_def considered_def)
next
  case (snoc r rs)
  let ?w = "\<lambda>x. pattern_weight (rcr_path x)"
  have step: "res (rs @ [r]) = consider_rule path sk (length rs, r) (res rs)"
    by (simp add: res_def enumerate_append_eq)
  have old: "(rs @ [r]) ! i = rs ! i" if "considered path sk rs i" for i
    using that by (simp add: considered_def nth_append)
  consider (skip) "sk = Some (length rs) \<or> \<not> pattern_matches_path (rcr_path r) path"
    | (low) "sk \<noteq> Some (length rs)" "pattern_matches_path (rcr_path r) path" "\<not> ?w r \<ge> fst (res rs)"
    | (take) "sk \<noteq> Some (length rs)" "pattern_matches_path (rcr_path r) path" "?w r \<ge> fst (res rs)"
    by blast
  then show ?case
  proof cases
    case skip
    then have "considered path sk (rs @ [r]) = considered path sk rs"
      by (auto simp: considered_snoc fun_eq_iff)
    moreover from skip have "res (rs @ [r]) = res rs"
      by (auto simp: step consider_rule_def)
    ultimately show ?thesis using snoc.IH old by (auto simp: wins_def)
  next
    case low
    then obtain i where i: "wins path sk rs i" "res rs = (?w (rs ! i), rcr_view (rs ! i))"
      using snoc.IH by force
    then have c: "considered path sk rs i" by (simp add: wins_def)
    have "wins path sk (rs @ [r]) i"
      using i low c old considered_less by (auto simp: wins_def considered_snoc)
    moreover have "res (rs @ [r]) = res rs" using low by (auto simp: step consider_rule_def)
    ultimately show ?thesis using i(2) old [OF c] by auto
  next
    case take
    have "considered path sk rs j \<Longrightarrow> ?w (rs ! j) \<le> ?w r" for j
      using snoc.IH take(3) by (auto simp: wins_def)
    then have "wins path sk (rs @ [r]) (length rs)"
      using take old considered_less by (fastforce simp: wins_def considered_snoc)
    moreover have "res (rs @ [r]) = (?w r, rcr_view r)" using take by (auto simp: step consider_rule_def)
    ultimately show ?thesis by (intro disjI2 exI [of _ "length rs"]) simp
  qed
qed

lemma wins_unique: "wins path sk rs i \<Longrightarrow> wins path sk rs j \<Longrightarrow> i = j"
  by (metis linorder_neqE_nat not_less wins_def)

lemma label_for_path_wins:
  assumes "\<not> is_repo_control_path path" and "wins (as_str path) None (rcf_rules (rc_files c)) i"
  shows "label_for_path c path = rcr_view (rcf_rules (rc_files c) ! i)"
proof -
  have "\<not> is_repo_rules_path path" "\<not> is_private_control_path path"
    using assms by (auto simp: control_defs string_ops)
  moreover have "considered (as_str path) None (rcf_rules (rc_files c)) i"
    using assms(2) by (simp add: wins_def)
  then obtain j where "wins (as_str path) None (rcf_rules (rc_files c)) j"
    "snd (fold (consider_rule (as_str path) None) (enumerate 0 (rcf_rules (rc_files c)))
       (0, rcf_default (rc_files c))) = rcr_view (rcf_rules (rc_files c) ! j)"
    using fold_consider [of "as_str path" None "rcf_rules (rc_files c)" "rcf_default (rc_files c)"]
    by (metis snd_conv)
  moreover from this(1) have "j = i" using assms(2) wins_unique by blast
  ultimately show ?thesis
    by (simp add: label_for_path_def label_for_path_skipping_rule_def)
qed

lemma label_for_path_default:
  assumes "\<not> is_repo_control_path path"
    and "\<forall>r \<in> set (rcf_rules (rc_files c)). \<not> pattern_matches_path (rcr_path r) (as_str path)"
  shows "label_for_path c path = rcf_default (rc_files c)"
proof -
  have "\<not> is_repo_rules_path path" "\<not> is_private_control_path path"
    using assms by (auto simp: control_defs string_ops)
  moreover have "\<not> considered (as_str path) None (rcf_rules (rc_files c)) i" for i
    using assms(2) by (auto simp: considered_def)
  ultimately show ?thesis
    using fold_consider [of "as_str path" None "rcf_rules (rc_files c)" "rcf_default (rc_files c)"]
    by (auto simp: label_for_path_def label_for_path_skipping_rule_def wins_def)
qed

lemma wins_exists:
  assumes "r \<in> set rs" and "pattern_matches_path (rcr_path r) path"
  shows "\<exists>i. wins path None rs i"
proof -
  obtain i where "i < length rs" "rs ! i = r" using assms(1) by (auto simp: in_set_conv_nth)
  then have "considered path None rs i" using assms(2) by (simp add: considered_def)
  then show ?thesis using fold_consider [of path None rs undefined] by blast
qed

lemma label_for_path_control:
  "is_repo_rules_path path \<Longrightarrow> label_for_path c path = ViewId_public"
  "is_private_control_path path \<Longrightarrow> label_for_path c path = Views_full (rc_views c)"
  by (auto simp: label_for_path_def label_for_path_skipping_rule_def is_private_control_path_def)

end
