(* ===== verification/Scope_Policy.thy ===== *)
theory Scope_Policy
  imports Repo_Config
begin

text \<open>
  \<^verbatim>\<open>policy.rs\<close>: the label of every path in a repository. Rules are kept sorted by path; the rule
  that governs a path is the one at its nearest ancestor, found by binary search for each ancestor
  in turn. \<open>Policy_add_rules\<close> refuses a public rule below a private one.

  \<open>policy_ok\<close> is the representation invariant (paths strictly ascending), \<open>no_islands\<close> the safety
  condition that \<open>Policy_add_rules\<close> enforces. \<^verbatim>\<open>requests/view_paths.rs\<close> supplies \<open>path_history\<close> and the
  path guard of requests through a narrower view.
\<close>

record label_rule =
  lr_path :: scope_path
  lr_view :: view_id

definition LabelRule_public :: "scope_path \<Rightarrow> label_rule" where
  "LabelRule_public path = \<lparr>lr_path = path, lr_view = ViewId_public\<rparr>"

definition LabelRule_private :: "scope_path \<Rightarrow> label_rule" where
  "LabelRule_private path = \<lparr>lr_path = path, lr_view = ViewId_private\<rparr>"

record policy =
  pol_default :: view_id
  pol_rules :: "label_rule list"

datatype policy_error = PublicIsland (island_child: scope_path) (island_parent: scope_path)

definition rule_pair :: "label_rule \<Rightarrow> scope_path \<times> view_id" where
  "rule_pair r = (lr_path r, lr_view r)"

definition pair_rule :: "scope_path \<times> view_id \<Rightarrow> label_rule" where
  "pair_rule pv = \<lparr>lr_path = fst pv, lr_view = snd pv\<rparr>"

definition rules_by_path :: "label_rule list \<Rightarrow> label_rule list" where
  "rules_by_path rules = map pair_rule (bt_collect (map rule_pair rules))"

definition Policy_new :: "view_id \<Rightarrow> policy" where
  "Policy_new default_view = \<lparr>pol_default = default_view, pol_rules = []\<rparr>"

text \<open>The first separator of \<open>path\<close> whose prefix carries a private rule.\<close>

definition private_ancestor :: "(scope_path, view_id) btree_map \<Rightarrow> scope_path \<Rightarrow> string option" where
  "private_ancestor rules path =
     find (\<lambda>ancestor. ancestor \<noteq> as_str path
             \<and> (case bt_get rules (ScopePath ancestor) of
                  Some v \<Rightarrow> ViewId_is_private v | None \<Rightarrow> False))
       (map (prefix_at (as_str path)) (match_indices (CHR ''/'') (as_str path)))"

definition check_island ::
  "(scope_path, view_id) btree_map \<Rightarrow> scope_path \<times> view_id \<Rightarrow> (policy_error, unit) result" where
  "check_island rules = (\<lambda>(path, view).
     if \<not> ViewId_is_public view then Ok ()
     else (case private_ancestor rules path of
             Some ancestor \<Rightarrow> Err (PublicIsland path (ScopePath ancestor))
           | None \<Rightarrow> Ok ()))"

definition Policy_add_rules :: "policy \<Rightarrow> label_rule list \<Rightarrow> (policy_error, policy) result" where
  "Policy_add_rules pol additions =
     (if additions = [] then Ok pol
      else let rules = bt_collect (map rule_pair (pol_rules pol @ additions)) in
        and_then (check_all (check_island rules) rules) (\<lambda>_.
          Ok (pol\<lparr>pol_rules := map pair_rule rules\<rparr>)))"

definition Policy_add_rule :: "policy \<Rightarrow> label_rule \<Rightarrow> (policy_error, policy) result" where
  "Policy_add_rule pol rule = Policy_add_rules pol [rule]"

definition rule_at :: "policy \<Rightarrow> string \<Rightarrow> label_rule option" where
  "rule_at pol path =
     map_option (\<lambda>index. pol_rules pol ! index)
       (binary_search_by (\<lambda>rule. cmp (as_str (lr_path rule)) path) (pol_rules pol))"

definition effective_rule :: "policy \<Rightarrow> scope_path \<Rightarrow> label_rule option" where
  "effective_rule pol path =
     (case find (\<lambda>ancestor. rule_at pol ancestor \<noteq> None) (self_and_ancestors path) of
        None \<Rightarrow> None
      | Some ancestor \<Rightarrow> rule_at pol ancestor)"

definition Policy_label :: "policy \<Rightarrow> scope_path \<Rightarrow> views \<Rightarrow> view_id" where
  "Policy_label pol path views =
     (if is_repo_rules_path path then ViewId_public
      else if is_private_control_path path then Views_full views
      else (case effective_rule pol path of Some rule \<Rightarrow> lr_view rule | None \<Rightarrow> pol_default pol))"

definition Policy_remove_rule :: "policy \<Rightarrow> scope_path \<Rightarrow> policy" where
  "Policy_remove_rule pol path = pol\<lparr>pol_rules := filter (\<lambda>rule. lr_path rule \<noteq> path) (pol_rules pol)\<rparr>"

definition Policy_can_read :: "policy \<Rightarrow> scope_path \<Rightarrow> view_id \<Rightarrow> views \<Rightarrow> bool" where
  "Policy_can_read pol path reader views = Views_shows views reader path (Policy_label pol path views)"

definition Policy_split_rules :: "policy \<Rightarrow> (scope_path \<Rightarrow> bool) \<Rightarrow> policy \<times> label_rule list" where
  "Policy_split_rules pol at =
     (pol\<lparr>pol_rules := filter (\<lambda>rule. \<not> at (lr_path rule)) (pol_rules pol)\<rparr>,
      filter (\<lambda>rule. at (lr_path rule)) (pol_rules pol))"

definition Policy_join_rules :: "policy \<Rightarrow> label_rule list \<Rightarrow> policy" where
  "Policy_join_rules pol rules = pol\<lparr>pol_rules := rules_by_path (pol_rules pol @ rules)\<rparr>"

section \<open>Path history of requests\<close>

record path_history =
  ph_live_paths :: "scope_path set"
  ph_file_change_labels :: "(scope_path \<times> view_id) list"
  ph_visibility_changes :: "(scope_path \<times> view_id \<times> view_id) list"

text \<open>Every label the accepted history gave \<open>path\<close>, ascending.\<close>

definition historical_labels :: "path_history \<Rightarrow> scope_path \<Rightarrow> view_id btree_set" where
  "historical_labels h path =
     bt_set (map snd (filter (\<lambda>(p, _). p = path) (ph_file_change_labels h))
       @ concat (map (\<lambda>(_, old_label, new_label). [old_label, new_label])
           (filter (\<lambda>(p, _, _). p = path) (ph_visibility_changes h))))"

definition Policy_for_request_paths ::
  "policy \<Rightarrow> repo_config \<Rightarrow> path_history \<Rightarrow> view_id \<Rightarrow> scope_path list \<Rightarrow> policy" where
  "Policy_for_request_paths pol config history reader paths =
     (let views = rc_views config;
          rule = (\<lambda>path. \<lparr>lr_path = path, lr_view =
            (if path \<in> ph_live_paths history \<or> rule_at pol (as_str path) \<noteq> None
             then Policy_label pol path views
             else (let labels = historical_labels history path in
               if labels \<noteq> [] then
                 (case find (\<lambda>label. \<not> Views_shows views reader path label) labels of
                    Some label \<Rightarrow> label
                  | None \<Rightarrow> hd labels)
               else label_for_path config path))\<rparr>)
      in \<lparr>pol_default = Views_full views, pol_rules = rules_by_path (map rule paths)\<rparr>)"

datatype request_view_path_error = ProtectedPath | HiddenPath

record request_view_paths =
  rvp_repo_config :: repo_config
  rvp_views :: views
  rvp_view :: view_id
  rvp_labels :: "view_id set"
  rvp_visible_paths :: "string set"
  rvp_live_paths :: "scope_path set"
  rvp_hidden_history_paths :: "scope_path set"

definition RequestViewPaths_new ::
  "repo_config \<Rightarrow> views \<Rightarrow> view_id \<Rightarrow> string set \<Rightarrow> path_history \<Rightarrow> request_view_paths" where
  "RequestViewPaths_new config views view visible history =
     (let labels = Views_labels views view in
      \<lparr>rvp_repo_config = config, rvp_views = views, rvp_view = view, rvp_labels = labels,
       rvp_visible_paths = visible, rvp_live_paths = ph_live_paths history,
       rvp_hidden_history_paths =
         set (map fst (filter (\<lambda>(_, label). label \<notin> labels) (ph_file_change_labels history))
            @ map fst (filter (\<lambda>(_, old_label, new_label). old_label \<notin> labels \<or> new_label \<notin> labels)
                (ph_visibility_changes history)))\<rparr>)"

definition ensure_editable :: "request_view_paths \<Rightarrow> scope_path \<Rightarrow> (request_view_path_error, unit) result" where
  "ensure_editable r path =
     (if is_request_protected_path path then Err ProtectedPath
      else if as_str path \<in> rvp_visible_paths r then Ok ()
      else if path \<in> rvp_live_paths r \<or> path \<in> rvp_hidden_history_paths r then Err HiddenPath
      else if label_for_path (rvp_repo_config r) path \<in> rvp_labels r then Ok ()
      else Err HiddenPath)"

definition rejection :: "request_view_paths \<Rightarrow> scope_path \<Rightarrow> request_view_path_error \<Rightarrow> string" where
  "rejection r path error =
     (let view = Views_display_name (rvp_views r) (rvp_view r) in
      case error of
        ProtectedPath \<Rightarrow> view @ '' requests cannot change maintainer-controlled paths: '' @ as_str path
      | HiddenPath \<Rightarrow> as_str path @ '' is not shown by the '' @ view @ '' view'')"

section \<open>Representation\<close>

definition policy_ok :: "policy \<Rightarrow> bool" where
  "policy_ok pol \<longleftrightarrow> bt_ok (map rule_pair (pol_rules pol))"

definition rule_map :: "policy \<Rightarrow> scope_path \<rightharpoonup> view_id" where
  "rule_map pol = bt_get (map rule_pair (pol_rules pol))"

lemma rule_pair_pair_rule [simp]: "rule_pair (pair_rule x) = x" "pair_rule (rule_pair r) = r"
  by (simp_all add: rule_pair_def pair_rule_def)

lemma map_rule_pair_pair_rule [simp]:
  "map rule_pair (map pair_rule xs) = xs" "map pair_rule (map rule_pair rs) = rs"
  by (simp_all add: comp_def)

lemma fst_rule_pair [simp]: "fst (rule_pair r) = lr_path r" "snd (rule_pair r) = lr_view r"
  by (simp_all add: rule_pair_def)

lemma as_str_eq_iff: "as_str p = s \<longleftrightarrow> p = ScopePath s"
  by (cases p) auto

lemma rule_at_lookup:
  assumes "policy_ok pol"
  shows "rule_at pol path = map_option (\<lambda>v. \<lparr>lr_path = ScopePath path, lr_view = v\<rparr>) (rule_map pol (ScopePath path))"
proof -
  let ?key = "\<lambda>r. as_str (lr_path r)"
  have "sorted_wrt (<) (map ?key (pol_rules pol))"
    using assms by (simp add: policy_ok_def bt_ok_def sorted_wrt_map less_scope_path_def)
  then have "rule_at pol path = find (\<lambda>r. ?key r = path) (pol_rules pol)"
    unfolding rule_at_def by (rule binary_search_correct)
  moreover have "find (\<lambda>r. ?key r = path) rs
      = map_option (\<lambda>v. \<lparr>lr_path = ScopePath path, lr_view = v\<rparr>) (map_of (map rule_pair rs) (ScopePath path))" for rs
    by (induction rs) (auto simp: rule_pair_def as_str_eq_iff)
  ultimately show ?thesis by (simp add: rule_map_def bt_get_def)
qed

lemma policy_ok_new [wf_intros]: "policy_ok (Policy_new d)"
  by (simp add: policy_ok_def Policy_new_def)

lemma policy_ok_rules_by_path: "bt_ok (map rule_pair (rules_by_path rs))"
  by (simp add: rules_by_path_def bt_ok_collect comp_def)

lemma Policy_add_rules_OkD:
  assumes "Policy_add_rules pol additions = Inr pol'" and "policy_ok pol"
  shows "policy_ok pol'" and "pol_default pol' = pol_default pol"
    and "rule_map pol' = rule_map pol ++ map_of (rev (map rule_pair additions))"
proof -
  let ?rules = "bt_collect (map rule_pair (pol_rules pol @ additions))"
  have d: "map_of (rev (map rule_pair (pol_rules pol))) = rule_map pol"
    using bt_collect_id [of "map rule_pair (pol_rules pol)"] assms(2) bt_get_collect
    by (metis policy_ok_def rule_map_def)
  have "policy_ok pol' \<and> pol_default pol' = pol_default pol
      \<and> rule_map pol' = rule_map pol ++ map_of (rev (map rule_pair additions))"
  proof (cases "additions = []")
    case False
    then have p: "pol' = pol\<lparr>pol_rules := map pair_rule ?rules\<rparr>"
      using assms(1) by (simp add: Policy_add_rules_def Let_def and_then_Ok_iff)
    have "rule_map pol' = bt_get ?rules" by (simp add: p rule_map_def comp_def)
    also have "\<dots> = rule_map pol ++ map_of (rev (map rule_pair additions))"
      by (simp add: bt_get_collect d [unfolded rev_map] rev_map)
    finally show ?thesis by (simp add: p policy_ok_def bt_ok_collect comp_def)
  qed (use assms in \<open>simp add: Policy_add_rules_def\<close>)
  then show "policy_ok pol'" "pol_default pol' = pol_default pol"
    "rule_map pol' = rule_map pol ++ map_of (rev (map rule_pair additions))" by auto
qed

lemma policy_ok_remove [wf_intros]: "policy_ok pol \<Longrightarrow> policy_ok (Policy_remove_rule pol path)"
  using bt_ok_filter [of "map rule_pair (pol_rules pol)" "\<lambda>x. fst x \<noteq> path"]
  by (simp add: policy_ok_def Policy_remove_rule_def filter_map comp_def)

lemma policy_ok_split [wf_intros]: "policy_ok pol \<Longrightarrow> policy_ok (fst (Policy_split_rules pol at))"
  using bt_ok_filter [of "map rule_pair (pol_rules pol)" "\<lambda>x. \<not> at (fst x)"]
  by (simp add: policy_ok_def Policy_split_rules_def filter_map comp_def)

lemma policy_ok_join [wf_intros]: "policy_ok (Policy_join_rules pol rules)"
  by (simp add: policy_ok_def Policy_join_rules_def policy_ok_rules_by_path)

lemma policy_ok_for_request_paths [wf_intros]: "policy_ok (Policy_for_request_paths pol c h r ps)"
  by (simp add: policy_ok_def Policy_for_request_paths_def Let_def policy_ok_rules_by_path)

lemma split_join:
  assumes "policy_ok pol" and "Policy_split_rules pol at = (kept, split)"
  shows "Policy_join_rules kept split = pol"
proof -
  let ?R = "map rule_pair (pol_rules pol)" and ?at = "\<lambda>x. at (fst x)"
  have k: "pol_rules kept = filter (\<lambda>r. \<not> at (lr_path r)) (pol_rules pol)"
    "split = filter (\<lambda>r. at (lr_path r)) (pol_rules pol)" "pol_default kept = pol_default pol"
    "policy.more kept = policy.more pol"
    using assms(2) by (auto simp: Policy_split_rules_def)
  have R: "bt_ok ?R" using assms(1) by (simp add: policy_ok_def)
  let ?F = "filter (\<lambda>x. \<not> ?at x) ?R @ filter ?at ?R"
  have "mset ?F = mset ?R"
    by (simp only: mset_append mset_filter) (metis add.commute multiset_partition)
  then have "mset (map fst ?F) = mset (map fst ?R)" and s: "set ?F = set ?R"
    by (simp_all only: mset_map mset_eq_setD)
  then have "distinct (map fst (rev ?F))"
    using bt_ok_distinct [OF R] mset_eq_imp_distinct_iff by (metis distinct_rev rev_map)
  then have "map_of (rev ?F) = map_of ?R"
    using bt_ok_distinct [OF R] s map_of_inject_set by (metis set_rev)
  then have "bt_get (bt_collect ?F) = bt_get ?R"
    by (simp only: bt_get_collect) (simp add: fun_eq_iff bt_get_def)
  then have "bt_collect ?F = ?R"
    using R by (intro bt_eqI) (simp_all add: bt_ok_collect)
  then have "rules_by_path (pol_rules kept @ split) = pol_rules pol"
    by (simp add: rules_by_path_def k filter_map comp_def)
  then show ?thesis
    using k by (simp add: Policy_join_rules_def)
qed

section \<open>The governing rule is the nearest one\<close>

lemma effective_rule_nearest:
  assumes "canonical path" and "policy_ok pol"
  shows "effective_rule pol path = Some r \<longleftrightarrow>
    (\<exists>k \<le> length (segments path).
       rule_at pol (path_of (take k (segments path))) = Some r
       \<and> (\<forall>j. k < j \<and> j \<le> length (segments path) \<longrightarrow>
            rule_at pol (path_of (take j (segments path))) = None))"
    (is "?L \<longleftrightarrow> ?R")
proof -
  define n where "n = length (segments path)"
  define a where "a = (\<lambda>k. path_of (take k (segments path)))"
  define hit where "hit = (\<lambda>s. rule_at pol s \<noteq> None)"
  have anc: "self_and_ancestors path = map a (rev [0..<Suc n])"
    using self_and_ancestors_canonical [OF assms(1)] by (simp add: a_def n_def)
  have f: "find hit (map a (rev [0..<Suc m])) = Some s \<longleftrightarrow>
      (\<exists>k \<le> m. s = a k \<and> hit (a k) \<and> (\<forall>j. k < j \<and> j \<le> m \<longrightarrow> \<not> hit (a j)))" for m s
  proof (induction m)
    case (Suc m)
    show ?case
    proof (cases "hit (a (Suc m))")
      case True
      then show ?thesis by (auto simp: le_Suc_eq)
    next
      case False
      with Suc show ?thesis by (auto simp: le_Suc_eq)
    qed
  qed auto
  have "?L \<longleftrightarrow> (\<exists>s. find hit (map a (rev [0..<Suc n])) = Some s \<and> rule_at pol s = Some r)"
    by (auto simp: effective_rule_def anc hit_def split: option.splits)
  also have "\<dots> \<longleftrightarrow> ?R"
    unfolding f by (auto simp: hit_def a_def n_def)
  finally show ?thesis .
qed

text \<open>
  A private rule anywhere on the way down to a path is not overridden by a public one: this is
  what refusing \<open>PublicIsland\<close> buys.
\<close>

definition no_islands :: "policy \<Rightarrow> bool" where
  "no_islands pol \<longleftrightarrow>
     (\<forall>(path, view) \<in> set (map rule_pair (pol_rules pol)).
        ViewId_is_public view \<longrightarrow> private_ancestor (map rule_pair (pol_rules pol)) path = None)"

lemma Policy_add_rules_no_islands:
  assumes "Policy_add_rules pol additions = Inr pol'" and "no_islands pol"
  shows "no_islands pol'"
proof (cases "additions = []")
  case False
  let ?rules = "bt_collect (map rule_pair (pol_rules pol @ additions))"
  have p: "pol' = pol\<lparr>pol_rules := map pair_rule ?rules\<rparr>"
    and c: "check_all (check_island ?rules) ?rules = Inr ()"
    using assms(1) False by (simp_all add: Policy_add_rules_def Let_def and_then_Ok_iff)
  have "\<forall>x \<in> set ?rules. check_island ?rules x = Inr ()"
    using c by (simp add: check_all_Ok_iff)
  then show ?thesis
    unfolding no_islands_def p
    by (fastforce simp: check_island_def comp_def split: if_splits option.splits)
qed (use assms in \<open>simp add: Policy_add_rules_def\<close>)

lemma private_ancestor_None:
  assumes "private_ancestor rules (ScopePath (path_of ss)) = None"
    and "\<forall>s \<in> set ss. good_segment s" and "j < length ss"
  shows "bt_get rules (ScopePath (path_of (take j ss))) \<noteq> Some ViewId_private"
proof -
  have ne: "ss \<noteq> []" using assms(3) by auto
  have mem: "path_of (take j ss) \<in> set (proper_ancestors ss)"
    using assms(3) by (auto simp: proper_ancestors_def)
  have "set (map (prefix_at (path_of ss)) (match_indices (CHR ''/'') (path_of ss))) = set (proper_ancestors ss)"
    using separator_prefixes [OF assms(2) ne] by (metis rmatch_indices_def rev_map set_rev)
  then show ?thesis
    using assms(1) mem proper_ancestors_neq [OF assms(2) mem]
    by (auto simp: private_ancestor_def find_None_iff ViewId_is_private_def)
qed

lemma private_rule_shields:
  assumes "policy_ok pol" and "no_islands pol" and "canonical path" and "\<not> is_repo_rules_path path"
    and "views_ok views"
    and "ancestor \<in> set (self_and_ancestors path)"
    and "rule_at pol ancestor = Some r" and "lr_view r = ViewId_private"
  shows "Policy_label pol path views \<noteq> ViewId_public"
proof -
  let ?ss = "segments path"
  have good: "\<forall>s \<in> set (take k ?ss). good_segment s" for k
    using path_of_segments(2) [OF assms(3)] by (meson in_set_takeD)
  obtain j where j: "j \<le> length ?ss" "ancestor = path_of (take j ?ss)"
    using assms(6) by (auto simp: self_and_ancestors_canonical [OF assms(3)] less_Suc_eq_le simp del: upt_Suc)
  have "effective_rule pol path \<noteq> None"
    using assms(6,7) by (auto simp: effective_rule_def find_None_iff split: option.splits dest: find_SomeD)
  then obtain e where e: "effective_rule pol path = Some e" by blast
  then obtain k where k: "k \<le> length ?ss" "rule_at pol (path_of (take k ?ss)) = Some e"
    "\<forall>j. k < j \<and> j \<le> length ?ss \<longrightarrow> rule_at pol (path_of (take j ?ss)) = None"
    using effective_rule_nearest [OF assms(3,1)] by blast
  have jk: "j \<le> k" using k(3) j assms(7) by (metis not_le option.distinct(1))
  have "lr_view e \<noteq> ViewId_public"
  proof
    assume pub: "lr_view e = ViewId_public"
    have m: "rule_map pol (ScopePath (path_of (take k ?ss))) = Some ViewId_public"
      using k(2) pub rule_at_lookup [OF assms(1)] by auto
    have mj: "rule_map pol (ScopePath (path_of (take j ?ss))) = Some ViewId_private"
      using assms(7,8) j(2) rule_at_lookup [OF assms(1)] by auto
    with m jk have "j < k" by (metis le_neq_implies_less option.inject public_neq_private(1))
    have "(ScopePath (path_of (take k ?ss)), ViewId_public) \<in> set (map rule_pair (pol_rules pol))"
      using m assms(1) bt_get_Some_iff by (metis policy_ok_def rule_map_def)
    then have "private_ancestor (map rule_pair (pol_rules pol)) (ScopePath (path_of (take k ?ss))) = None"
      using assms(2) by (auto simp: no_islands_def ViewId_is_public_def)
    from private_ancestor_None [OF this good, of j] mj \<open>j < k\<close> k(1)
    show False by (simp add: rule_map_def min_absorb1 min_absorb2)
  qed
  then show ?thesis
    using e assms(4) full_found(2) [OF assms(5)] by (simp add: Policy_label_def)
qed

end
