(* ===== verification/Scope_Projection.thy ===== *)
theory Scope_Projection
  imports Scope_Policy
begin

text \<open>
  \<^verbatim>\<open>projection.rs\<close>, \<^verbatim>\<open>projection/labelled_tree.rs\<close>, \<^verbatim>\<open>projection/native_labels.rs\<close>,
  \<^verbatim>\<open>visibility_changes.rs\<close>, \<^verbatim>\<open>content.rs\<close>: what a view sees of a repository.

  The accepted history is a list of logical commits and a list of visibility change sets, each
  anchored after a commit; \<open>fold_steps\<close> interleaves them. \<open>project_graph\<close> folds the steps into the
  commits a view sees (\<open>ViewFold_commit\<close>, \<open>ViewFold_set\<close>), while \<open>LabelledTree_fold\<close> folds them into the
  labelled tree.

  A \<^verbatim>\<open>HashMap\<close> that is only looked up is a map; \<^verbatim>\<open>usize\<close> counters are \<open>nat\<close> (they count list
  elements held in memory).
\<close>

section \<open>Content\<close>

datatype content_ref = BlobSha256 string | GitBundleSha256 string | GitBlob string

definition ContentRef_sha256 :: "content_ref \<Rightarrow> string option" where
  "ContentRef_sha256 r = (case r of BlobSha256 s \<Rightarrow> Some s | GitBundleSha256 s \<Rightarrow> Some s | GitBlob _ \<Rightarrow> None)"

record source_blob =
  sb_content_ref :: content_ref
  sb_sha256 :: string
  sb_git_oid :: string
  sb_git_file_mode :: string
  sb_size_bytes :: nat

definition is_regular_git_file_mode :: "string \<Rightarrow> bool" where
  "is_regular_git_file_mode mode \<longleftrightarrow> mode = ''100644'' \<or> mode = ''100755''"

definition is_supported_git_file_mode :: "string \<Rightarrow> bool" where
  "is_supported_git_file_mode mode \<longleftrightarrow> is_regular_git_file_mode mode \<or> mode = ''120000''"

section \<open>Logical history\<close>

record native_request_commit =
  nrc_oid :: string
  nrc_parent_oids :: "string list"
  nrc_tree_oid :: string
  nrc_changed_paths :: "scope_path list"

record request_merge_origin_facts =
  rm_request_id :: string
  rm_view :: view_id
  rm_base_oid :: string
  rm_parent_oids :: "string list"
  rm_request_head_oid :: string
  rm_preserve_commits :: bool
  rm_commits :: "native_request_commit list"

datatype logical_commit_origin =
  CanonicalPush string
| PrivateRequestMerge string string
| RequestMerge request_merge_origin_facts

record file_change =
  fc_path :: scope_path
  fc_old_content :: "source_blob option"
  fc_new_content :: "source_blob option"
  fc_label :: view_id

record logical_commit =
  lc_occurred_at_unix :: "int option"
  lc_id :: string
  lc_origin :: logical_commit_origin
  lc_author_id :: string
  lc_message :: string
  lc_changes :: "file_change list"

record source_graph =
  sg_repo_id :: string
  sg_commits :: "logical_commit list"

record visibility_change =
  vc_path :: scope_path
  vc_old_label :: view_id
  vc_new_label :: view_id
  vc_current_content :: "source_blob option"

record visibility_change_set =
  vs_occurred_at_unix :: "int option"
  vs_id :: string
  vs_anchor_commit_id :: "string option"
  vs_source_update_id :: "string option"
  vs_author_id :: string
  vs_changes :: "visibility_change list"
  vs_views :: "views_transition option"

definition VisibilityChangeSet_new ::
  "string \<Rightarrow> string option \<Rightarrow> string option \<Rightarrow> string \<Rightarrow> visibility_change list
   \<Rightarrow> views_transition option \<Rightarrow> (string, visibility_change_set) result" where
  "VisibilityChangeSet_new set_id anchor source_update author changes views =
     (if set_id = [] \<or> author = [] then
        Err ''visibility change set id and author must not be empty''
      else if changes = [] \<and> views = None then
        Err ''visibility change set must change a label or the views''
      else if (case views of Some t \<Rightarrow> vt_before t = vt_after t | None \<Rightarrow> False) then
        Err ''visibility change set cannot contain a no-op views transition''
      else if \<exists>change \<in> set changes. vc_old_label change = vc_new_label change then
        Err ''visibility change set cannot contain no-op changes''
      else if \<not> distinct (map vc_path changes) then
        Err ''visibility change set cannot contain duplicate paths''
      else Ok \<lparr>vs_occurred_at_unix = None, vs_id = set_id, vs_anchor_commit_id = anchor,
               vs_source_update_id = source_update, vs_author_id = author, vs_changes = changes,
               vs_views = views\<rparr>)"

definition visibility_change_set_id :: "nat \<Rightarrow> string" where
  "visibility_change_set_id next_change_version = ''vchg_'' @ show_nat next_change_version"

section \<open>Labelled tree\<close>

type_synonym labelled_tree = "(scope_path, source_blob \<times> view_id) btree_map"
type_synonym file_tree = "(scope_path, source_blob) btree_map"

fun LabelledTree_apply_change :: "file_change \<Rightarrow> labelled_tree \<Rightarrow> labelled_tree" where
  "LabelledTree_apply_change c t =
     (case fc_new_content c of
        Some blob \<Rightarrow> bt_insert (fc_path c) (blob, fc_label c) t
      | None \<Rightarrow> bt_remove (fc_path c) t)"

definition LabelledTree_apply_commit :: "logical_commit \<Rightarrow> labelled_tree \<Rightarrow> labelled_tree" where
  "LabelledTree_apply_commit commit t = fold LabelledTree_apply_change (lc_changes commit) t"

fun LabelledTree_relabel_change :: "visibility_change \<Rightarrow> labelled_tree \<Rightarrow> labelled_tree" where
  "LabelledTree_relabel_change c t =
     map (\<lambda>(path, blob, label). (path, blob, if path = vc_path c then vc_new_label c else label)) t"

definition LabelledTree_relabel :: "visibility_change_set \<Rightarrow> labelled_tree \<Rightarrow> labelled_tree" where
  "LabelledTree_relabel s t = fold LabelledTree_relabel_change (vs_changes s) t"

definition LabelledTree_view_files :: "labelled_tree \<Rightarrow> views \<Rightarrow> view_id \<Rightarrow> file_tree" where
  "LabelledTree_view_files t views view =
     map (\<lambda>(path, blob, label). (path, blob))
       (filter (\<lambda>(path, blob, label). Views_shows views view path label) t)"

datatype fold_step = StepCommit logical_commit | StepSet visibility_change_set

text \<open>Sets whose anchor is a commit of the graph, by anchor; the others come first.\<close>

definition anchored_in :: "source_graph \<Rightarrow> visibility_change_set \<Rightarrow> string option" where
  "anchored_in graph s =
     (case vs_anchor_commit_id s of
        None \<Rightarrow> None
      | Some anchor \<Rightarrow> if anchor \<in> set (map lc_id (sg_commits graph)) then Some anchor else None)"

text \<open>
  The commit loop removes the entry of an id once it is emitted, so a repeated id emits its sets
  only after its first commit.
\<close>

fun emit_commits ::
  "(string \<Rightarrow> visibility_change_set list) \<Rightarrow> logical_commit list \<Rightarrow> fold_step list" where
  "emit_commits sets_after [] = []"
| "emit_commits sets_after (c # cs) =
     StepCommit c # map StepSet (sets_after (lc_id c)) @ emit_commits (sets_after(lc_id c := [])) cs"

definition fold_steps :: "source_graph \<Rightarrow> visibility_change_set list \<Rightarrow> fold_step list" where
  "fold_steps graph sets =
     map StepSet (filter (\<lambda>s. anchored_in graph s = None) sets)
     @ emit_commits (\<lambda>i. filter (\<lambda>s. anchored_in graph s = Some i) sets) (sg_commits graph)"

definition LabelledTree_fold ::
  "source_graph \<Rightarrow> visibility_change_set list \<Rightarrow> labelled_tree \<Rightarrow> labelled_tree" where
  "LabelledTree_fold graph sets t =
     fold (\<lambda>step t. case step of
             StepCommit c \<Rightarrow> LabelledTree_apply_commit c t
           | StepSet s \<Rightarrow> LabelledTree_relabel s t) (fold_steps graph sets) t"

record native_commit_labels =
  ncl_recorded :: "(scope_path, view_id) btree_map"
  ncl_policy :: policy
  ncl_views :: views

definition NativeCommitLabels_new ::
  "(scope_path \<times> view_id) list \<Rightarrow> policy \<Rightarrow> views \<Rightarrow> native_commit_labels" where
  "NativeCommitLabels_new recorded pol views =
     \<lparr>ncl_recorded = bt_collect recorded, ncl_policy = pol, ncl_views = views\<rparr>"

definition NativeCommitLabels_label :: "native_commit_labels \<Rightarrow> scope_path \<Rightarrow> view_id" where
  "NativeCommitLabels_label n path =
     (case bt_get (ncl_recorded n) path of
        Some label \<Rightarrow> label
      | None \<Rightarrow> Policy_label (ncl_policy n) path (ncl_views n))"

section \<open>Projection\<close>

record projected_change =
  pc_path :: scope_path
  pc_new_content :: "source_blob option"
  pc_label :: view_id

datatype projection_materialization =
  Generate
| PreserveGitCommit string "string list" string

record projected_commit =
  pj_projected_id :: string
  pj_logical_commit_id :: string
  pj_visibility_change_set_id :: "string option"
  pj_parent_projected_id :: "string option"
  pj_author :: "string option"
  pj_message :: string
  pj_changes :: "projected_change list"
  pj_materialization :: projection_materialization

record projection =
  pr_repo_id :: string
  pr_view_key :: view_id
  pr_commits :: "projected_commit list"

record projection_cursor =
  cur_commit_count :: nat
  cur_last_projected_id :: "string option"
  cur_views :: views

definition projected_id :: "view_id \<Rightarrow> string \<Rightarrow> nat \<Rightarrow> string" where
  "projected_id view source_id sequence =
     ''pv_'' @ view_str view @ ''_'' @ source_id @ ''_'' @ show_nat sequence"

definition ProjectionCursor_start :: "views \<Rightarrow> projection_cursor" where
  "ProjectionCursor_start views =
     \<lparr>cur_commit_count = 0, cur_last_projected_id = None, cur_views = views\<rparr>"

definition ProjectionCursor_next_id :: "projection_cursor \<Rightarrow> view_id \<Rightarrow> string \<Rightarrow> nat \<Rightarrow> string" where
  "ProjectionCursor_next_id cursor view source_id appended =
     projected_id view source_id (cur_commit_count cursor + appended + 1)"

definition last_views_after :: "fold_step list \<Rightarrow> views option" where
  "last_views_after steps =
     (case List.map_filter (\<lambda>step. case step of StepSet s \<Rightarrow> vs_views s | StepCommit _ \<Rightarrow> None) (rev steps) of
        [] \<Rightarrow> None
      | t # _ \<Rightarrow> Some (vt_after t))"

definition ProjectionCursor_advanced ::
  "projection_cursor \<Rightarrow> projection \<Rightarrow> source_graph \<Rightarrow> visibility_change_set list \<Rightarrow> projection_cursor" where
  "ProjectionCursor_advanced cursor proj graph sets =
     \<lparr>cur_commit_count = cur_commit_count cursor + length (pr_commits proj),
      cur_last_projected_id =
        (if pr_commits proj = [] then cur_last_projected_id cursor
         else Some (pj_projected_id (last (pr_commits proj)))),
      cur_views = (case last_views_after (fold_steps graph sets) of
                     None \<Rightarrow> cur_views cursor | Some v \<Rightarrow> v)\<rparr>"

definition initial_views :: "visibility_change_set list \<Rightarrow> views \<Rightarrow> views" where
  "initial_views sets current =
     (case List.map_filter vs_views sets of [] \<Rightarrow> current | t # _ \<Rightarrow> vt_before t)"

definition projection_delta_appends ::
  "string option \<Rightarrow> logical_commit list \<Rightarrow> visibility_change_set list \<Rightarrow> bool" where
  "projection_delta_appends last_folded_commit_id commits sets =
     (let appended = (\<lambda>i. \<exists>commit \<in> set commits. lc_id commit = i) in
      (\<forall>s \<in> set sets. vs_anchor_commit_id s = last_folded_commit_id
         \<or> (case vs_anchor_commit_id s of Some a \<Rightarrow> appended a | None \<Rightarrow> False))
      \<and> (\<forall>s \<in> set sets. case vs_source_update_id s of None \<Rightarrow> True | Some i \<Rightarrow> appended i))"

subsection \<open>Applying a projection to a tree\<close>

fun apply_projected_change :: "projected_change \<Rightarrow> file_tree \<Rightarrow> file_tree" where
  "apply_projected_change c t =
     (case pc_new_content c of
        Some blob \<Rightarrow> bt_insert (pc_path c) blob t
      | None \<Rightarrow> bt_remove (pc_path c) t)"

definition Projection_apply_to :: "projection \<Rightarrow> file_tree \<Rightarrow> file_tree" where
  "Projection_apply_to proj t =
     fold apply_projected_change (concat (map pj_changes (pr_commits proj))) t"

definition Projection_visible_paths :: "projection \<Rightarrow> string list" where
  "Projection_visible_paths proj = map (\<lambda>(path, _). as_str path) (Projection_apply_to proj [])"

definition preserves_git_commits :: "projection \<Rightarrow> bool" where
  "preserves_git_commits proj \<longleftrightarrow>
     (\<exists>commit \<in> set (pr_commits proj). case pj_materialization commit of
        PreserveGitCommit _ _ _ \<Rightarrow> True | Generate \<Rightarrow> False)"

subsection \<open>Folding a narrower view\<close>

record view_fold =
  vf_views :: views
  vf_tree :: "labelled_tree option"
  vf_commits :: "projected_commit list"
  vf_last_visible :: "string option"

definition projected_of :: "file_change \<Rightarrow> projected_change" where
  "projected_of change =
     \<lparr>pc_path = fc_path change, pc_new_content = fc_new_content change, pc_label = fc_label change\<rparr>"

definition visible_changes :: "views \<Rightarrow> view_id \<Rightarrow> logical_commit \<Rightarrow> projected_change list" where
  "visible_changes views view logical =
     map projected_of
       (filter (\<lambda>change. Views_shows views view (fc_path change) (fc_label change)) (lc_changes logical))"

text \<open>The native commits of a merged request that can be preserved for this view, if any.\<close>

definition preserved_native ::
  "view_id \<Rightarrow> nat \<Rightarrow> logical_commit \<Rightarrow> native_request_commit list option" where
  "preserved_native view visible_content_count logical =
     (case lc_origin logical of
        RequestMerge m \<Rightarrow>
          if rm_preserve_commits m \<and> rm_commits m \<noteq> []
             \<and> visible_content_count = length (lc_changes logical) \<and> rm_view m = view
          then Some (rm_commits m) else None
      | _ \<Rightarrow> None)"

definition native_projected_commit ::
  "logical_commit \<Rightarrow> projected_change list \<Rightarrow> nat \<Rightarrow> nat \<times> native_request_commit \<Rightarrow> projected_commit" where
  "native_projected_commit logical changes native_len = (\<lambda>(index, native).
     let is_head = (index + 1 = native_len) in
     \<lparr>pj_projected_id = nrc_oid native,
      pj_logical_commit_id = lc_id logical,
      pj_visibility_change_set_id = None,
      pj_parent_projected_id = (case nrc_parent_oids native of [] \<Rightarrow> None | p # _ \<Rightarrow> Some p),
      pj_author = None,
      pj_message = (if is_head then lc_message logical else ''Preserved request commit''),
      pj_changes = (if is_head then changes else []),
      pj_materialization =
        PreserveGitCommit (nrc_oid native) (nrc_parent_oids native) (nrc_tree_oid native)\<rparr>)"

definition ViewFold_project_content ::
  "projection_cursor \<Rightarrow> view_id \<Rightarrow> logical_commit \<Rightarrow> view_fold \<Rightarrow> view_fold" where
  "ViewFold_project_content cursor view logical vf =
     (let visible = visible_changes (vf_views vf) view logical;
          visible_content_count = length visible
      in case preserved_native view visible_content_count logical of
        Some native \<Rightarrow>
          vf\<lparr>vf_commits := vf_commits vf
               @ map (native_projected_commit logical visible (length native)) (enumerate 0 native),
             vf_last_visible := Some (nrc_oid (last native))\<rparr>
      | None \<Rightarrow>
          if visible = [] then vf
          else let partial = visible_content_count < length (lc_changes logical);
                   pid = ProjectionCursor_next_id cursor view (lc_id logical) (length (vf_commits vf))
            in vf\<lparr>vf_commits := vf_commits vf @
                    [\<lparr>pj_projected_id = pid,
                      pj_logical_commit_id = lc_id logical,
                      pj_visibility_change_set_id = None,
                      pj_parent_projected_id = vf_last_visible vf,
                      pj_author = (if partial then None else Some (lc_author_id logical)),
                      pj_message = (if partial then ''Projected public update'' else lc_message logical),
                      pj_changes = visible,
                      pj_materialization = Generate\<rparr>],
                  vf_last_visible := Some pid\<rparr>)"

definition ViewFold_commit ::
  "projection_cursor \<Rightarrow> view_id \<Rightarrow> logical_commit \<Rightarrow> view_fold \<Rightarrow> view_fold" where
  "ViewFold_commit cursor view logical vf =
     (let vf = ViewFold_project_content cursor view logical vf
      in vf\<lparr>vf_tree := map_option (LabelledTree_apply_commit logical) (vf_tree vf)\<rparr>)"

text \<open>Whether the update the set came with already shows this path.\<close>

definition shown_by_update ::
  "views \<Rightarrow> view_id \<Rightarrow> logical_commit option \<Rightarrow> scope_path \<Rightarrow> bool" where
  "shown_by_update old_views view source_update path =
     (case source_update of
        None \<Rightarrow> False
      | Some commit \<Rightarrow>
          \<exists>c \<in> set (lc_changes commit). fc_path c = path \<and> Views_shows old_views view (fc_path c) (fc_label c))"

definition relabel_changes ::
  "views \<Rightarrow> views \<Rightarrow> view_id \<Rightarrow> logical_commit option \<Rightarrow> visibility_change \<Rightarrow> projected_change list" where
  "relabel_changes old_views after view source_update change =
     (let old_visible = Views_shows old_views view (vc_path change) (vc_old_label change);
          new_visible = Views_shows after view (vc_path change) (vc_new_label change)
      in if \<not> old_visible \<and> new_visible \<and> \<not> shown_by_update old_views view source_update (vc_path change) then
           (case vc_current_content change of
              Some content \<Rightarrow>
                [\<lparr>pc_path = vc_path change, pc_new_content = Some content, pc_label = vc_new_label change\<rparr>]
            | None \<Rightarrow> [])
         else if old_visible \<and> \<not> new_visible then
           [\<lparr>pc_path = vc_path change, pc_new_content = None, pc_label = vc_old_label change\<rparr>]
         else [])"

definition transition_changes ::
  "views \<Rightarrow> views \<Rightarrow> view_id \<Rightarrow> scope_path \<times> source_blob \<times> view_id \<Rightarrow> projected_change list" where
  "transition_changes old_views after view = (\<lambda>(path, blob, label).
     if \<not> Views_shows old_views view path label \<and> Views_shows after view path label then
       [\<lparr>pc_path = path, pc_new_content = Some blob, pc_label = label\<rparr>]
     else if Views_shows old_views view path label \<and> \<not> Views_shows after view path label then
       [\<lparr>pc_path = path, pc_new_content = None, pc_label = label\<rparr>]
     else [])"

definition set_changes ::
  "(string \<rightharpoonup> logical_commit) \<Rightarrow> view_id \<Rightarrow> views \<Rightarrow> labelled_tree option
   \<Rightarrow> visibility_change_set \<Rightarrow> projected_change list" where
  "set_changes commits_by_id view views tree s =
     (let source_update = Option.bind (vs_source_update_id s) commits_by_id;
          old_views = (case vs_views s of Some t \<Rightarrow> vt_before t | None \<Rightarrow> views);
          after = (case vs_views s of Some t \<Rightarrow> vt_after t | None \<Rightarrow> views)
      in concat (map (relabel_changes old_views after view source_update)
           (filter (\<lambda>change. \<not> is_repo_control_path (vc_path change)) (vs_changes s)))
         @ (if vs_views s = None then []
            else case tree of
              None \<Rightarrow> []
            | Some t \<Rightarrow>
                concat (map (transition_changes old_views after view)
                  (filter (\<lambda>(path, _). path \<notin> set (map vc_path (vs_changes s))) t))))"

text \<open>The commit that carries the changes of a set to the view.\<close>

definition set_commit ::
  "projection_cursor \<Rightarrow> view_id \<Rightarrow> logical_commit option \<Rightarrow> visibility_change_set
   \<Rightarrow> projected_change list \<Rightarrow> view_fold \<Rightarrow> projected_commit" where
  "set_commit cursor view source_update s changes vf =
     \<lparr>pj_projected_id = ProjectionCursor_next_id cursor view (vs_id s) (length (vf_commits vf)),
      pj_logical_commit_id =
        (case source_update of Some commit \<Rightarrow> lc_id commit | None \<Rightarrow> vs_id s),
      pj_visibility_change_set_id = Some (vs_id s),
      pj_parent_projected_id = vf_last_visible vf,
      pj_author = None,
      pj_message =
        (if vs_views s \<noteq> None then ''Projection view boundary''
         else if source_update \<noteq> None then ''Projected public update''
         else if \<forall>c \<in> set changes. pc_new_content c \<noteq> None then ''Projection baseline''
         else ''Projection visibility boundary''),
      pj_changes = changes,
      pj_materialization = Generate\<rparr>"

definition ViewFold_set ::
  "projection_cursor \<Rightarrow> view_id \<Rightarrow> (string \<rightharpoonup> logical_commit) \<Rightarrow> visibility_change_set
   \<Rightarrow> view_fold \<Rightarrow> view_fold" where
  "ViewFold_set cursor view commits_by_id s vf =
     (let source_update = Option.bind (vs_source_update_id s) commits_by_id;
          changes = set_changes commits_by_id view (vf_views vf) (vf_tree vf) s;
          commit = set_commit cursor view source_update s changes vf;
          vf' = (if changes = [] then vf
                 else vf\<lparr>vf_commits := vf_commits vf @ [commit],
                         vf_last_visible := Some (pj_projected_id commit)\<rparr>)
      in vf'\<lparr>vf_tree := map_option (LabelledTree_relabel s) (vf_tree vf'),
             vf_views := (case vs_views s of Some t \<Rightarrow> vt_after t | None \<Rightarrow> vf_views vf')\<rparr>)"

definition ViewFold_step ::
  "projection_cursor \<Rightarrow> view_id \<Rightarrow> (string \<rightharpoonup> logical_commit) \<Rightarrow> fold_step \<Rightarrow> view_fold \<Rightarrow> view_fold" where
  "ViewFold_step cursor view commits_by_id step vf =
     (case step of
        StepCommit logical \<Rightarrow> ViewFold_commit cursor view logical vf
      | StepSet s \<Rightarrow> ViewFold_set cursor view commits_by_id s vf)"

subsection \<open>The full view\<close>

definition full_step ::
  "projection_cursor \<Rightarrow> view_id \<Rightarrow> logical_commit
   \<Rightarrow> projected_commit list \<times> string option \<Rightarrow> projected_commit list \<times> string option" where
  "full_step cursor view logical = (\<lambda>(commits, last_visible).
     let changes = map projected_of (lc_changes logical) in
     if changes = [] then (commits, last_visible)
     else let pid = ProjectionCursor_next_id cursor view (lc_id logical) (length commits) in
       (commits @
          [\<lparr>pj_projected_id = pid, pj_logical_commit_id = lc_id logical,
            pj_visibility_change_set_id = None, pj_parent_projected_id = last_visible,
            pj_author = Some (lc_author_id logical), pj_message = lc_message logical,
            pj_changes = changes, pj_materialization = Generate\<rparr>],
        Some pid))"

definition project_full_graph :: "projection_cursor \<Rightarrow> source_graph \<Rightarrow> view_id \<Rightarrow> projection" where
  "project_full_graph cursor graph view =
     \<lparr>pr_repo_id = sg_repo_id graph, pr_view_key = view,
      pr_commits = fst (fold (full_step cursor view) (sg_commits graph) ([], cur_last_projected_id cursor))\<rparr>"

definition commits_by_id :: "source_graph \<Rightarrow> string \<rightharpoonup> logical_commit" where
  "commits_by_id graph = map_of (rev (map (\<lambda>commit. (lc_id commit, commit)) (sg_commits graph)))"

definition project_graph_after ::
  "projection_cursor \<Rightarrow> labelled_tree \<Rightarrow> source_graph \<Rightarrow> visibility_change_set list \<Rightarrow> view_id \<Rightarrow> projection" where
  "project_graph_after cursor tree graph sets view =
     (if view = Views_full (cur_views cursor) then project_full_graph cursor graph view
      else let start = \<lparr>vf_views = cur_views cursor,
                        vf_tree = (if \<exists>s \<in> set sets. vs_views s \<noteq> None then Some tree else None),
                        vf_commits = [],
                        vf_last_visible = cur_last_projected_id cursor\<rparr>
        in \<lparr>pr_repo_id = sg_repo_id graph, pr_view_key = view,
            pr_commits = vf_commits
              (fold (ViewFold_step cursor view (commits_by_id graph)) (fold_steps graph sets) start)\<rparr>)"

definition project_graph ::
  "source_graph \<Rightarrow> visibility_change_set list \<Rightarrow> views \<Rightarrow> view_id \<Rightarrow> projection" where
  "project_graph graph sets views view =
     project_graph_after (ProjectionCursor_start (initial_views sets views)) [] graph sets view"

end
