(* ===== verification/Projection_Facts.thy ===== *)
theory Projection_Facts
  imports Scope_Projection
begin

text \<open>
  What a projection contains, apart from commit metadata.

  \<open>emitted\<close> is the list of file changes a narrower view receives while the steps are folded, with
  the labelled tree always carried along. \<open>fold_emitted\<close> relates it to the fold of the code, which
  carries the tree only when some set changes the views, and which spreads a preserved merge over
  several native commits. From there: no content reaches a view that may not read its label.
\<close>

section \<open>The changes a view receives\<close>

definition step_views :: "fold_step \<Rightarrow> views \<Rightarrow> views" where
  "step_views step v =
     (case step of
        StepCommit _ \<Rightarrow> v
      | StepSet s \<Rightarrow> (case vs_views s of Some t \<Rightarrow> vt_after t | None \<Rightarrow> v))"

definition step_tree :: "fold_step \<Rightarrow> labelled_tree \<Rightarrow> labelled_tree" where
  "step_tree step t =
     (case step of StepCommit c \<Rightarrow> LabelledTree_apply_commit c t | StepSet s \<Rightarrow> LabelledTree_relabel s t)"

definition step_changes ::
  "(string \<rightharpoonup> logical_commit) \<Rightarrow> view_id \<Rightarrow> views \<Rightarrow> labelled_tree \<Rightarrow> fold_step \<Rightarrow> projected_change list" where
  "step_changes by_id view v t step =
     (case step of
        StepCommit c \<Rightarrow> visible_changes v view c
      | StepSet s \<Rightarrow> set_changes by_id view v (Some t) s)"

fun emitted ::
  "(string \<rightharpoonup> logical_commit) \<Rightarrow> view_id \<Rightarrow> views \<Rightarrow> labelled_tree \<Rightarrow> fold_step list \<Rightarrow> projected_change list" where
  "emitted by_id view v t [] = []"
| "emitted by_id view v t (step # steps) =
     step_changes by_id view v t step @ emitted by_id view (step_views step v) (step_tree step t) steps"

abbreviation all_changes :: "projected_commit list \<Rightarrow> projected_change list" where
  "all_changes cs \<equiv> concat (map pj_changes cs)"

lemma LabelledTree_fold_steps:
  "LabelledTree_fold graph sets t = fold step_tree (fold_steps graph sets) t"
  unfolding LabelledTree_fold_def step_tree_def [abs_def] ..

lemma emitted_append:
  "emitted by_id view v t (xs @ ys)
   = emitted by_id view v t xs @ emitted by_id view (fold step_views xs v) (fold step_tree xs t) ys"
  by (induction xs arbitrary: v t) auto

lemma native_changes:
  assumes "native \<noteq> []"
  shows "all_changes (map (native_projected_commit logical changes (length native)) (enumerate 0 native)) = changes"
proof -
  obtain xs x where n: "native = xs @ [x]" using assms by (metis append_butlast_last_id)
  have "pj_changes (native_projected_commit logical changes (length native) y) = []"
    if "y \<in> set (enumerate 0 xs)" for y
  proof (cases y)
    case (Pair i c)
    with that n show ?thesis by (simp add: native_projected_commit_def in_set_enumerate_eq Let_def)
  qed
  then have "concat (map (pj_changes \<circ> native_projected_commit logical changes (length native)) (enumerate 0 xs)) = []"
    by simp
  then show ?thesis
    using n by (simp add: enumerate_append_eq) (simp add: native_projected_commit_def)
qed

lemma project_content_changes:
  "all_changes (vf_commits (ViewFold_project_content cursor view logical vf))
   = all_changes (vf_commits vf) @ visible_changes (vf_views vf) view logical"
proof (cases "preserved_native view (length (visible_changes (vf_views vf) view logical)) logical")
  case (Some native)
  then have "native \<noteq> []"
    by (auto simp: preserved_native_def split: logical_commit_origin.splits if_splits)
  with Some show ?thesis
    by (simp add: ViewFold_project_content_def Let_def native_changes del: map_map)
qed (simp add: ViewFold_project_content_def Let_def)

lemma project_content_frame [simp]:
  "vf_views (ViewFold_project_content cursor view logical vf) = vf_views vf"
  "vf_tree (ViewFold_project_content cursor view logical vf) = vf_tree vf"
  by (simp_all add: ViewFold_project_content_def Let_def split: option.splits)

lemma step_tree_simps [simp]:
  "step_tree (StepCommit c) = LabelledTree_apply_commit c"
  "step_tree (StepSet s) = LabelledTree_relabel s"
  by (simp_all add: step_tree_def fun_eq_iff)

lemma set_commit_changes [simp]: "pj_changes (set_commit cursor view u s changes vf) = changes"
  by (simp add: set_commit_def)

lemma ViewFold_step_frame:
  "vf_views (ViewFold_step cursor view by_id step vf) = step_views step (vf_views vf)"
  "vf_tree (ViewFold_step cursor view by_id step vf) = map_option (step_tree step) (vf_tree vf)"
  by (cases step; simp add: ViewFold_step_def ViewFold_commit_def ViewFold_set_def Let_def
      step_views_def split: option.split)+

text \<open>Without a views transition a set does not look at the tree.\<close>

definition tracks :: "view_fold \<Rightarrow> labelled_tree \<Rightarrow> fold_step list \<Rightarrow> bool" where
  "tracks vf t steps \<longleftrightarrow> vf_tree vf = Some t
     \<or> vf_tree vf = None \<and> (\<forall>s. StepSet s \<in> set steps \<longrightarrow> vs_views s = None)"

lemma ViewFold_step_changes:
  assumes "tracks vf t (step # steps)"
  shows "all_changes (vf_commits (ViewFold_step cursor view by_id step vf))
    = all_changes (vf_commits vf) @ step_changes by_id view (vf_views vf) t step"
proof (cases step)
  case (StepCommit c)
  then show ?thesis
    by (simp add: ViewFold_step_def ViewFold_commit_def Let_def step_changes_def project_content_changes)
next
  case (StepSet s)
  have "vf_tree vf = Some t \<or> vs_views s = None"
  proof (cases "vf_tree vf = Some t")
    case False
    then have "StepSet s \<in> set (step # steps) \<longrightarrow> vs_views s = None"
      using assms [unfolded tracks_def] by simp
    with StepSet show ?thesis by simp
  qed simp
  then have "set_changes by_id view (vf_views vf) (vf_tree vf) s = set_changes by_id view (vf_views vf) (Some t) s"
    by (elim disjE) (simp_all add: set_changes_def)
  with StepSet show ?thesis
    by (simp add: ViewFold_step_def step_changes_def ViewFold_set_def Let_def)
qed

lemma fold_emitted:
  assumes "tracks vf t steps"
  shows "all_changes (vf_commits (fold (ViewFold_step cursor view by_id) steps vf))
    = all_changes (vf_commits vf) @ emitted by_id view (vf_views vf) t steps"
  using assms
proof (induction steps arbitrary: vf t)
  case (Cons step steps)
  let ?vf = "ViewFold_step cursor view by_id step vf"
  have "tracks ?vf (step_tree step t) steps"
    using Cons.prems by (auto simp: tracks_def ViewFold_step_frame)
  from Cons.IH [OF this] show ?case
    by (simp add: ViewFold_step_changes [OF Cons.prems] ViewFold_step_frame)
qed simp

lemma StepSet_fold_steps: "StepSet s \<in> set (fold_steps graph sets) \<Longrightarrow> s \<in> set sets"
proof -
  have "StepSet s \<in> set (emit_commits f cs) \<Longrightarrow> \<exists>i. s \<in> set (f i)" for f cs
    by (induction f cs rule: emit_commits.induct) (auto split: if_splits)
  then show "StepSet s \<in> set (fold_steps graph sets) \<Longrightarrow> s \<in> set sets"
    by (fastforce simp: fold_steps_def)
qed

lemma StepCommit_fold_steps: "StepCommit c \<in> set (fold_steps graph sets) \<longleftrightarrow> c \<in> set (sg_commits graph)"
proof -
  have "StepCommit c \<in> set (emit_commits f cs) \<longleftrightarrow> c \<in> set cs" for f cs
    by (induction cs arbitrary: f) (auto simp del: fun_upd_apply)
  then show ?thesis by (auto simp: fold_steps_def)
qed

lemma project_graph_changes:
  assumes "view \<noteq> Views_full (initial_views sets views)"
  shows "all_changes (pr_commits (project_graph graph sets views view))
    = emitted (commits_by_id graph) view (initial_views sets views) [] (fold_steps graph sets)"
proof -
  let ?start = "\<lparr>vf_views = initial_views sets views,
     vf_tree = (if \<exists>s \<in> set sets. vs_views s \<noteq> None then Some [] else None),
     vf_commits = [], vf_last_visible = None\<rparr>"
  have "tracks ?start [] (fold_steps graph sets)"
    by (auto simp: tracks_def dest: StepSet_fold_steps)
  from fold_emitted [OF this] show ?thesis
    using assms by (simp add: project_graph_def project_graph_after_def ProjectionCursor_start_def Let_def)
qed

section \<open>Nothing hidden is shown\<close>

text \<open>The views in force at some point of the fold.\<close>

definition views_in_force :: "visibility_change_set list \<Rightarrow> views \<Rightarrow> views set" where
  "views_in_force sets current = insert (initial_views sets current) (vt_after ` set (List.map_filter vs_views sets))"

lemma step_changes_shown:
  assumes "c \<in> set (step_changes by_id view v t step)" and "pc_new_content c \<noteq> None"
  shows "Views_shows (step_views step v) view (pc_path c) (pc_label c)"
  using assms
  by (cases step)
    (auto simp: step_changes_def step_views_def visible_changes_def projected_of_def set_changes_def
      Let_def relabel_changes_def transition_changes_def split: option.splits if_splits)

lemma emitted_shown:
  assumes "c \<in> set (emitted by_id view v t steps)" and "pc_new_content c \<noteq> None"
  shows "\<exists>v' \<in> insert v {vt_after tr |s tr. StepSet s \<in> set steps \<and> vs_views s = Some tr}.
    Views_shows v' view (pc_path c) (pc_label c)"
  using assms
proof (induction steps arbitrary: v t)
  case (Cons step steps)
  let ?after = "\<lambda>steps. {vt_after tr |s tr. StepSet s \<in> set steps \<and> vs_views s = Some tr}"
  have sub: "?after steps \<subseteq> ?after (step # steps)" by auto
  have v: "step_views step v \<in> insert v (?after (step # steps))"
    by (auto simp: step_views_def split: fold_step.splits option.splits)
  show ?case
  proof (cases "c \<in> set (step_changes by_id view v t step)")
    case True
    from step_changes_shown [OF this Cons.prems(2)] v show ?thesis by blast
  next
    case False
    then obtain v' where "v' \<in> insert (step_views step v) (?after steps)"
      "Views_shows v' view (pc_path c) (pc_label c)"
      using Cons.IH [of "step_views step v" "step_tree step t"] Cons.prems by auto
    with sub v show ?thesis by blast
  qed
qed simp

lemma project_graph_shown:
  assumes "view \<noteq> Views_full (initial_views sets views)"
    and "commit \<in> set (pr_commits (project_graph graph sets views view))"
    and "c \<in> set (pj_changes commit)" and "pc_new_content c \<noteq> None"
  shows "\<exists>v \<in> views_in_force sets views. Views_shows v view (pc_path c) (pc_label c)"
proof -
  have "c \<in> set (all_changes (pr_commits (project_graph graph sets views view)))"
    using assms(2,3) by auto
  then have "c \<in> set (emitted (commits_by_id graph) view (initial_views sets views) [] (fold_steps graph sets))"
    using project_graph_changes [OF assms(1)] by simp
  from emitted_shown [OF this assms(4)] obtain v where
    v: "v \<in> insert (initial_views sets views)
         {vt_after tr |s tr. StepSet s \<in> set (fold_steps graph sets) \<and> vs_views s = Some tr}"
    and sh: "Views_shows v view (pc_path c) (pc_label c)" by blast
  have "v \<in> views_in_force sets views"
    using v StepSet_fold_steps by (force simp: views_in_force_def List.map_filter_def)
  with sh show ?thesis by blast
qed

end
