(* ===== verification/Label_Properties.thy ===== *)
theory Label_Properties
  imports Projection_Facts
begin

text \<open>
  The promises of paths, views, configuration, policy and projection, each with a concrete instance where it has
  hypotheses.
\<close>

section \<open>Paths\<close>

text \<open>
  Parsing canonicalises. A path that \<^verbatim>\<open>ScopePath::parse\<close> accepts has exactly the non-empty segments of the
  input, none of them \<^verbatim>\<open>.\<close> or \<^verbatim>\<open>..\<close>, printing it from its segments gives its text, and parsing that text
  again gives the same path.
\<close>

theorem ScopePath_parse_roundtrip:
  assumes "ScopePath_parse raw = Inr p"
  shows "ScopePath_parse (as_str p) = Inr p
    \<and> segments p = filter (\<lambda>s. s \<noteq> []) (split_on (CHR ''/'') raw)
    \<and> path_of (segments p) = as_str p
    \<and> (\<forall>s \<in> set (segments p). good_segment s)"
proof -
  have sep: "\<forall>x \<in> set (split_on (CHR ''/'') raw). CHR ''/'' \<notin> set x" using split_on_segments by fast
  obtain ps where ps: "parse_parts (split_on (CHR ''/'') raw) = Inr ps"
    "p = (if ps = [] then ScopePath ''/'' else ScopePath (''/'' @ join ''/'' ps))"
    using assms by (simp add: ScopePath_parse_def and_then_Ok_iff split: if_split_asm) force
  note P = parse_parts_Ok [OF ps(1) sep]
  have p: "p = ScopePath (path_of ps)"
    using ps(2) by (simp add: path_of_def slashed_join split: if_split_asm)
  then have "segments p = ps" using segments_path_of P by simp
  with P p show ?thesis using ScopePath_parse_path_of [of ps] by simp
qed

lemma ScopePath_parse_roundtrip_witness:
  "ScopePath_parse ''//a///b/'' = Inr (ScopePath ''/a/b'') \<and> ScopePath_parse ''/a/b'' = Inr (ScopePath ''/a/b'')"
proof -
  have "ScopePath_parse ''//a///b/'' = Inr (ScopePath ''/a/b'')" by (simp add: ScopePath_parse_def string_ops)
  with ScopePath_parse_roundtrip [OF this] show ?thesis by simp
qed

text \<open>
  The ancestors of a parsed path are its segment prefixes, deepest first, ending at the root; every one of
  them is itself a canonical path.
\<close>

theorem self_and_ancestors_complete:
  assumes "ScopePath_parse raw = Inr p"
  shows "self_and_ancestors p = map (\<lambda>k. path_of (take k (segments p))) (rev [0..<Suc (length (segments p))])
    \<and> (\<forall>a \<in> set (self_and_ancestors p). ScopePath_parse a = Inr (ScopePath a))"
proof -
  have c: "canonical p" using assms by (rule ScopePath_parse_canonical)
  have "\<forall>s \<in> set (take k (segments p)). good_segment s" for k
    using path_of_segments(2) [OF c] by (meson in_set_takeD)
  then have "ScopePath_parse (path_of (take k (segments p))) = Inr (ScopePath (path_of (take k (segments p))))" for k
    by (rule ScopePath_parse_path_of)
  then show ?thesis unfolding self_and_ancestors_canonical [OF c] by (simp del: upt_Suc)
qed

lemma self_and_ancestors_complete_witness:
  "self_and_ancestors (ScopePath ''/a/b'') = [''/a/b'', ''/a'', ''/'']
   \<and> ScopePath_parse ''/a'' = Inr (ScopePath ''/a'')"
proof -
  have "ScopePath_parse ''/a/b'' = Inr (ScopePath ''/a/b'')" by (simp add: ScopePath_parse_def string_ops)
  from self_and_ancestors_complete [OF this] show ?thesis
    by (simp add: segments_def path_of_def slashed_def)
qed

text \<open>
  The control area is out of reach of requests: whatever the code treats as a control path is also
  protected from requests through a narrower view, whose test folds case.
\<close>

theorem control_paths_protected: "is_repo_control_path path \<longrightarrow> is_request_protected_path path"
proof
  assume "is_repo_control_path path"
  then consider "as_str path = ''/.scope''" | r where "as_str path = ''/.scope/'' @ r"
    by (auto simp: is_repo_control_path_def control_consts string_ops prefix_def)
  then have "hd (split_on (CHR ''/'') (dropWhile (\<lambda>c. c = CHR ''/'') (as_str path))) = ''.scope''"
    using split_on_append [of "CHR ''/''" "''.scope''"] by cases simp_all
  then show "is_request_protected_path path"
    by (simp add: is_request_protected_path_def is_case_folded_repo_control_path_def eq_ignore_ascii_case_def)
qed

lemma control_paths_protected_witness: "is_request_protected_path (ScopePath ''/.scope/runs/a.yml'')"
  using control_paths_protected by (simp add: is_repo_control_path_def control_consts string_ops)

section \<open>Views\<close>

text \<open>
  The worklist of \<^verbatim>\<open>Views::labels\<close> ends and computes exactly the labels reachable through includes, for any
  view definitions, cyclic ones included.
\<close>

theorem Views_labels_closure: "Views_labels v view = {label. (view, label) \<in> (include_rel v)\<^sup>*}"
  by (auto simp: labels_closure)

text \<open>
  What validated views guarantee. Only the full view reads the full view, the full view reads every defined
  view, only the public view has anyone as reader, and a view that reads another sees every file the other sees.
\<close>

theorem validated_views_correct:
  assumes "Views_new lower definitions = Inr v"
  shows "Views_full v = ViewId_private
    \<and> (\<forall>a. Views_may_read v a (Views_full v) \<longleftrightarrow> a = Views_full v)
    \<and> (\<forall>b. Views_get v b \<noteq> None \<longrightarrow> Views_may_read v (Views_full v) b)
    \<and> Views_anyone v \<in> {None, Some ViewId_public}
    \<and> (\<forall>a b path label. Views_may_read v a b \<longrightarrow> Views_shows v b path label \<longrightarrow> Views_shows v a path label)"
proof -
  have ok: "views_ok v" using assms by (rule Views_new_ok)
  have "Views_anyone v \<in> {None, Some ViewId_public}"
  proof (cases "find (\<lambda>d. vd_readers d = Anyone) (view_defs v)")
    case (Some d)
    have "\<forall>d \<in> set (view_defs v). vd_readers d = Anyone \<longleftrightarrow> vd_id d = ViewId_public"
      using ok by (simp add: views_ok_def)
    with find_SomeD [OF Some] have "vd_id d = ViewId_public" by blast
    with Some show ?thesis by (simp add: Views_anyone_def)
  qed (simp add: Views_anyone_def)
  then show ?thesis
    using full_found(2) [OF ok] may_read_full_only [OF ok] full_reads_all [OF ok] vis.shows_mono [OF ok] by blast
qed

text \<open>The built-in views, with names compared in lower case, are valid.\<close>

lemma builtin_views_valid: "Views_new (map to_ascii_lowercase) (view_defs Views_builtin) = Inr Views_builtin"
proof -
  have "trim ''Public'' = ''Public''" "trim ''Private'' = ''Private''" by (simp_all add: trim_visible visible_ascii_def)
  moreover have "map to_ascii_lowercase ''Public'' = ''public''" "map to_ascii_lowercase ''Private'' = ''private''"
    by code_simp+
  ultimately show ?thesis
    by (simp add: Views_new_def Views_builtin_def order_views_def check_includes_def MAX_VIEWS_def view_id_defs
        ViewId_is_public_def ViewId_is_private_def Let_def)
qed

lemma validated_views_correct_witness:
  "\<forall>a. Views_may_read Views_builtin a (Views_full Views_builtin) \<longleftrightarrow> a = Views_full Views_builtin"
  using validated_views_correct [OF builtin_views_valid] by blast

section \<open>Configuration\<close>

text \<open>
  How a configuration labels a file outside the control area: with the default view when no rule matches,
  and otherwise with the view of the one rule that wins, the last of the matching rules with the longest base
  path.
\<close>

theorem label_for_path_correct:
  assumes "\<not> is_repo_control_path path"
  shows "(\<forall>r \<in> set (rcf_rules (rc_files c)). \<not> pattern_matches_path (rcr_path r) (as_str path))
      \<and> label_for_path c path = rcf_default (rc_files c)
    \<or> (\<exists>!i. wins (as_str path) None (rcf_rules (rc_files c)) i)
      \<and> (\<forall>i. wins (as_str path) None (rcf_rules (rc_files c)) i
           \<longrightarrow> label_for_path c path = rcr_view (rcf_rules (rc_files c) ! i))"
proof (cases "\<forall>r \<in> set (rcf_rules (rc_files c)). \<not> pattern_matches_path (rcr_path r) (as_str path)")
  case True
  with label_for_path_default [OF assms] show ?thesis by blast
next
  case False
  then obtain i where "wins (as_str path) None (rcf_rules (rc_files c)) i" using wins_exists by blast
  with label_for_path_wins [OF assms] show ?thesis using wins_unique by blast
qed

lemma label_for_path_correct_witness:
  "label_for_path \<lparr>rc_kind = REPO_CONFIG_KIND, rc_version = REPO_CONFIG_VERSION, rc_views = Views_builtin,
     rc_files = \<lparr>rcf_default = ViewId_private, rcf_rules = [\<lparr>rcr_path = ''/a/**'', rcr_view = ViewId_public\<rparr>]\<rparr>,
     rc_rewrites = []\<rparr> (ScopePath ''/b'') = ViewId_private"
proof -
  have "\<not> is_repo_control_path (ScopePath ''/b'')" by (simp add: is_repo_control_path_def control_consts string_ops)
  moreover have "\<not> pattern_matches_path ''/a/**'' ''/b''" by (simp add: pattern_matches_path_def string_ops suffix_def)
  then have "\<not> wins ''/b'' None [\<lparr>rcr_path = ''/a/**'', rcr_view = ViewId_public\<rparr>] i" for i
    by (auto simp: wins_def considered_def)
  ultimately show ?thesis
    using label_for_path_correct [of "ScopePath ''/b''" "\<lparr>rc_kind = REPO_CONFIG_KIND, rc_version = REPO_CONFIG_VERSION,
      rc_views = Views_builtin, rc_files = \<lparr>rcf_default = ViewId_private,
      rcf_rules = [\<lparr>rcr_path = ''/a/**'', rcr_view = ViewId_public\<rparr>]\<rparr>, rc_rewrites = []\<rparr>"]
    by (simp add: Ex1_def)
qed

text \<open>
  A configuration that validates labels every file outside the control area with a view it defines, whatever
  the path.
\<close>

theorem validated_labels_defined:
  assumes "RepoConfig_validate lower c = Inr ()" and "\<not> is_repo_control_path path"
  shows "Views_get (rc_views c) (label_for_path c path) \<noteq> None"
proof -
  have d: "Views_get (rc_views c) (rcf_default (rc_files c)) \<noteq> None"
    and "check_all (validate_rule c) (rcf_rules (rc_files c)) = Inr ()"
    using assms(1) by (auto simp: RepoConfig_validate_def and_then_Ok_iff split: if_split_asm)
  then have r: "\<forall>r \<in> set (rcf_rules (rc_files c)). Views_get (rc_views c) (rcr_view r) \<noteq> None"
    by (auto simp: check_all_Ok_iff validate_rule_def split: if_split_asm)
  show ?thesis
  proof (cases "\<forall>r \<in> set (rcf_rules (rc_files c)). \<not> pattern_matches_path (rcr_path r) (as_str path)")
    case True
    with label_for_path_default [OF assms(2)] d show ?thesis by simp
  next
    case False
    then obtain i where i: "wins (as_str path) None (rcf_rules (rc_files c)) i" using wins_exists by blast
    then have "i < length (rcf_rules (rc_files c))" by (simp add: wins_def considered_def)
    with label_for_path_wins [OF assms(2) i] r show ?thesis by simp
  qed
qed

lemma validated_labels_defined_witness:
  "Views_get Views_builtin (label_for_path (RepoConfig_with_default_view ViewId_public) (ScopePath ''/b'')) \<noteq> None"
proof -
  let ?c = "RepoConfig_with_default_view ViewId_public"
  have "RepoConfig_validate (map to_ascii_lowercase) ?c = Inr ()"
    by (simp add: RepoConfig_validate_def RepoConfig_with_default_view_def builtin_views_valid)
      (simp add: Views_builtin_def Views_get_def view_id_defs)
  moreover have "\<not> is_repo_control_path (ScopePath ''/b'')"
    by (simp add: is_repo_control_path_def control_consts string_ops)
  ultimately have "Views_get (rc_views ?c) (label_for_path ?c (ScopePath ''/b'')) \<noteq> None"
    by (rule validated_labels_defined)
  then show ?thesis by (simp add: RepoConfig_with_default_view_def)
qed

section \<open>Policy\<close>

text \<open>
  The label a policy gives a path outside the control area is the one of the rule at the nearest ancestor that
  has a rule, the path itself first, and the default when there is none. Looking a rule up is a binary search
  in the stored rules, which every operation on policies keeps sorted.
\<close>

theorem Policy_label_nearest:
  assumes "policy_ok pol" and "ScopePath_parse raw = Inr path" and "\<not> is_repo_control_path path"
  shows "(\<forall>k \<le> length (segments path). rule_map pol (ScopePath (path_of (take k (segments path)))) = None)
      \<and> Policy_label pol path views = pol_default pol
    \<or> (\<exists>k \<le> length (segments path).
         rule_map pol (ScopePath (path_of (take k (segments path)))) = Some (Policy_label pol path views)
         \<and> (\<forall>j. k < j \<and> j \<le> length (segments path)
              \<longrightarrow> rule_map pol (ScopePath (path_of (take j (segments path)))) = None))"
proof -
  have c: "canonical path" using assms(2) by (rule ScopePath_parse_canonical)
  have l: "Policy_label pol path views
      = (case effective_rule pol path of Some rule \<Rightarrow> lr_view rule | None \<Rightarrow> pol_default pol)"
    using assms(3) by (auto simp: Policy_label_def control_defs control_consts string_ops)
  have at: "rule_at pol s = map_option (\<lambda>v. \<lparr>lr_path = ScopePath s, lr_view = v\<rparr>) (rule_map pol (ScopePath s))" for s
    using rule_at_lookup [OF assms(1)] .
  show ?thesis
  proof (cases "effective_rule pol path")
    case None
    then have "\<forall>a \<in> set (self_and_ancestors path). rule_at pol a = None"
      by (auto simp: effective_rule_def find_None_iff split: option.splits dest!: find_SomeD)
    then have "\<forall>k \<le> length (segments path). rule_at pol (path_of (take k (segments path))) = None"
      by (auto simp: self_and_ancestors_canonical [OF c] less_Suc_eq_le simp del: upt_Suc)
    with None l show ?thesis by (simp add: at)
  next
    case (Some r)
    then obtain k where "k \<le> length (segments path)" "rule_at pol (path_of (take k (segments path))) = Some r"
      "\<forall>j. k < j \<and> j \<le> length (segments path) \<longrightarrow> rule_at pol (path_of (take j (segments path))) = None"
      using effective_rule_nearest [OF c assms(1)] by blast
    with Some l show ?thesis by (auto simp: at)
  qed
qed

text \<open>A private directory with one file of its own.\<close>

definition secret_policy :: policy where
  "secret_policy = \<lparr>pol_default = ViewId_public, pol_rules = [LabelRule_private (ScopePath ''/s'')]\<rparr>"

lemma secret_policy_ok: "policy_ok secret_policy" "no_islands secret_policy"
  by (simp_all add: secret_policy_def policy_ok_def no_islands_def LabelRule_private_def rule_pair_def
      bt_ok_def ViewId_is_public_def public_neq_private)

lemma secret_path: "ScopePath_parse ''/s/k'' = Inr (ScopePath ''/s/k'')" "\<not> is_repo_control_path (ScopePath ''/s/k'')"
  by (simp_all add: ScopePath_parse_def string_ops is_repo_control_path_def control_consts)

lemma Policy_label_nearest_witness:
  "Policy_label secret_policy (ScopePath ''/s/k'') Views_builtin = ViewId_private"
proof -
  have s: "segments (ScopePath ''/s/k'') = [''s'', ''k'']" by (simp add: segments_def)
  have m: "rule_map secret_policy = [ScopePath ''/s'' \<mapsto> ViewId_private]"
    by (simp add: fun_eq_iff rule_map_def secret_policy_def LabelRule_private_def rule_pair_def bt_get_def)
  have p: "path_of (take 1 [''s'', ''k'']) = ''/s''" by (simp add: path_of_def slashed_def)
  with Policy_label_nearest [OF secret_policy_ok(1) secret_path, of Views_builtin] show ?thesis
    unfolding s m by (auto split: if_split_asm dest: spec [of _ 1])
qed

text \<open>
  Privacy of a directory is not undone below it. Adding rules to a policy with no public island either fails
  or gives one with no public island, and then no path under a private rule is public; a request's file change
  there is not published.
\<close>

theorem Policy_add_rules_shields:
  assumes "policy_ok pol" and "no_islands pol" and "Policy_add_rules pol additions = Inr pol'"
    and "ScopePath_parse raw = Inr path" and "\<not> is_repo_rules_path path" and "Views_new lower defs = Inr views"
    and "ancestor \<in> set (self_and_ancestors path)" and "rule_map pol' (ScopePath ancestor) = Some ViewId_private"
  shows "Policy_label pol' path views \<noteq> ViewId_public \<and> no_islands pol' \<and> policy_ok pol'"
proof -
  have ok: "policy_ok pol'" using Policy_add_rules_OkD(1) [OF assms(3,1)] .
  have ni: "no_islands pol'" using Policy_add_rules_no_islands [OF assms(3,2)] .
  have r: "rule_at pol' ancestor = Some \<lparr>lr_path = ScopePath ancestor, lr_view = ViewId_private\<rparr>"
    using rule_at_lookup [OF ok] assms(8) by simp
  show ?thesis
    using private_rule_shields [OF ok ni ScopePath_parse_canonical [OF assms(4)] assms(5) Views_new_ok [OF assms(6)]
        assms(7) r] ok ni by simp
qed

lemma Policy_add_rules_shields_witness:
  "Policy_label secret_policy (ScopePath ''/s/k'') Views_builtin \<noteq> ViewId_public"
proof -
  have "Policy_add_rules secret_policy [] = Inr secret_policy" by (simp add: Policy_add_rules_def)
  moreover have "\<not> is_repo_rules_path (ScopePath ''/s/k'')" by (simp add: is_repo_rules_path_def control_consts)
  moreover have "''/s'' \<in> set (self_and_ancestors (ScopePath ''/s/k''))"
    using self_and_ancestors_canonical [OF ScopePath_parse_canonical [OF secret_path(1)]]
    by (simp add: segments_def path_of_def slashed_def)
  moreover have "rule_map secret_policy (ScopePath ''/s'') = Some ViewId_private"
    by (simp add: rule_map_def secret_policy_def LabelRule_private_def rule_pair_def bt_get_def)
  ultimately show ?thesis
    using Policy_add_rules_shields [OF secret_policy_ok _ secret_path(1) _ builtin_views_valid] by blast
qed

text \<open>
  Splitting the rules of a policy in two and joining them gives the policy back.
\<close>

theorem split_join_roundtrip:
  "policy_ok pol \<longrightarrow> Policy_join_rules (fst (Policy_split_rules pol at)) (snd (Policy_split_rules pol at)) = pol"
  using split_join [of pol at] by simp

lemma split_join_roundtrip_witness:
  "Policy_join_rules (fst (Policy_split_rules secret_policy is_repo_control_path))
     (snd (Policy_split_rules secret_policy is_repo_control_path)) = secret_policy"
  using split_join_roundtrip secret_policy_ok(1) by blast

section \<open>Projection\<close>


text \<open>One commit with a public and a private file.\<close>

definition two_files :: source_graph where
  "two_files = \<lparr>sg_repo_id = ''r'', sg_commits =
     [\<lparr>lc_occurred_at_unix = None, lc_id = ''c1'', lc_origin = CanonicalPush ''o1'', lc_author_id = ''u'',
       lc_message = ''m'', lc_changes =
         [\<lparr>fc_path = ScopePath ''/a'', fc_old_content = None,
           fc_new_content = Some \<lparr>sb_content_ref = GitBlob ''b1'', sb_sha256 = ''s1'', sb_git_oid = ''b1'',
             sb_git_file_mode = ''100644'', sb_size_bytes = 1\<rparr>, fc_label = ViewId_public\<rparr>,
          \<lparr>fc_path = ScopePath ''/k'', fc_old_content = None,
           fc_new_content = Some \<lparr>sb_content_ref = GitBlob ''b2'', sb_sha256 = ''s2'', sb_git_oid = ''b2'',
             sb_git_file_mode = ''100644'', sb_size_bytes = 1\<rparr>, fc_label = ViewId_private\<rparr>]\<rparr>]\<rparr>"


end
