(* ===== verification/Scope_Ints.thy ===== *)
theory Scope_Ints
  imports Scope_Prelude "HOL-Library.Word"
begin

text \<open>
  Rust's \<^verbatim>\<open>u64\<close> as \<open>64 word\<close>, with the checked and saturating operations the domain rules use. \<open>+\<close> on words
  wraps, as in a release build; every use of a bare \<open>+\<close> in the sources is kept as \<open>+\<close> on words.
\<close>

named_theorems int_simps \<open>reading checked and saturating machine arithmetic through unat\<close>

type_synonym u64 = "64 word"
type_synonym u32 = "32 word"

definition checked_add :: "'a::len word \<Rightarrow> 'a word \<Rightarrow> 'a word option" where
  "checked_add a b = (if unat a + unat b < 2 ^ LENGTH('a) then Some (a + b) else None)"

definition checked_sub :: "'a::len word \<Rightarrow> 'a word \<Rightarrow> 'a word option" where
  "checked_sub a b = (if b \<le> a then Some (a - b) else None)"

definition saturating_add :: "'a::len word \<Rightarrow> 'a word \<Rightarrow> 'a word" where
  "saturating_add a b = (case checked_add a b of Some c \<Rightarrow> c | None \<Rightarrow> - 1)"

definition saturating_sub :: "'a::len word \<Rightarrow> 'a word \<Rightarrow> 'a word" where
  "saturating_sub a b = (if b \<le> a then a - b else 0)"

definition is_power_of_two :: "u64 \<Rightarrow> bool" where
  "is_power_of_two w \<longleftrightarrow> (\<exists>k \<in> set [0..<64]. w = 2 ^ k)"

lemma unat_less_pow: "unat (c :: 'a::len word) < 2 ^ LENGTH('a)"
  by (rule unsigned_less)

lemma checked_add_Some_iff [int_simps]:
  "checked_add a b = Some (c :: 'a::len word) \<longleftrightarrow> unat c = unat a + unat b"
proof -
  have "unat (a + b) = unat a + unat b" if "unat a + unat b < 2 ^ LENGTH('a)"
    using that by (simp add: unat_word_ariths)
  moreover have "unat a + unat b < 2 ^ LENGTH('a)" "c = a + b" if "unat c = unat a + unat b"
    using that unat_less_pow [of c] by (auto simp: word_unat_eq_iff unat_word_ariths)
  ultimately show ?thesis by (auto simp: checked_add_def)
qed

lemma checked_add_None_iff [int_simps]:
  "checked_add a (b :: 'a::len word) = None \<longleftrightarrow> 2 ^ LENGTH('a) \<le> unat a + unat b"
  by (auto simp: checked_add_def)

text \<open>Counters that are advanced by a checked addition of one.\<close>

lemma checked_succ_cases:
  fixes a :: "'a::len word"
  obtains (overflow) "checked_add a 1 = None" "\<And>w :: 'a word. unat w \<noteq> unat a + 1"
  | (succ) v where "checked_add a 1 = Some v" "unat v = unat a + 1" "\<And>w. unat w = unat a + 1 \<longleftrightarrow> w = v"
    "a < v"
proof (cases "checked_add a 1")
  case None
  then have "2 ^ LENGTH('a) \<le> unat a + 1" by (simp add: checked_add_None_iff)
  then have "unat w \<noteq> unat a + 1" for w :: "'a word" using unat_less_pow [of w] by linarith
  with None that(1) show ?thesis by blast
next
  case (Some v)
  then have v: "unat v = unat a + 1" by (simp add: checked_add_Some_iff)
  then have "unat w = unat a + 1 \<longleftrightarrow> w = v" for w by (simp flip: v add: word_unat_eq_iff)
  moreover have "a < v" using v by (simp add: word_less_nat_alt)
  ultimately show ?thesis using that(2) Some v by blast
qed

lemma checked_succ_available:
  assumes "a \<noteq> - 1"
  obtains v where "checked_add a 1 = Some v" "unat v = unat (a :: 'a::len word) + 1"
proof (cases a rule: checked_succ_cases)
  case overflow
  have "unat (- 1 :: 'a word) = 2 ^ LENGTH('a) - 1"
    by (simp add: unsigned_minus_1_eq_mask mask_eq_exp_minus_1)
  moreover have "2 ^ LENGTH('a) \<le> unat a + 1" using overflow(1) by (simp add: checked_add_None_iff)
  ultimately have "unat a = unat (- 1 :: 'a word)" using unat_less_pow [of a] by linarith
  with assms show ?thesis by (simp add: word_unat_eq_iff)
qed (use that in blast)

lemma checked_sub_Some_iff [int_simps]:
  "checked_sub a b = Some (c :: 'a::len word) \<longleftrightarrow> unat a = unat b + unat c"
proof -
  have "unat (a - b) = unat a - unat b" if "b \<le> a"
    using that by (simp add: unat_sub)
  moreover have "c = a - b" "b \<le> a" if "unat a = unat b + unat c"
  proof -
    show "b \<le> a" using that by (simp add: word_le_nat_alt)
    then show "c = a - b" using that by (simp add: word_unat_eq_iff unat_sub)
  qed
  ultimately show ?thesis by (auto simp: checked_sub_def word_le_nat_alt)
qed

lemma unat_saturating_add [int_simps]:
  "unat (saturating_add a (b :: 'a::len word)) = min (unat a + unat b) (2 ^ LENGTH('a) - 1)"
proof (cases "checked_add a b")
  case None
  have "unat (- 1 :: 'a word) = 2 ^ LENGTH('a) - 1"
    by (simp add: unsigned_minus_1_eq_mask mask_eq_exp_minus_1)
  moreover have "2 ^ LENGTH('a) \<le> unat a + unat b" using None by (simp add: checked_add_None_iff)
  ultimately show ?thesis using None by (simp add: saturating_add_def)
next
  case (Some c)
  have c: "unat c = unat a + unat b" using Some by (simp add: checked_add_Some_iff)
  have "unat c \<le> 2 ^ LENGTH('a) - 1" using unat_less_pow [of c] by linarith
  with c Some show ?thesis by (simp add: saturating_add_def)
qed

lemma unat_saturating_sub [int_simps]:
  "unat (saturating_sub a (b :: 'a::len word)) = unat a - unat b"
  by (simp add: saturating_sub_def unat_sub word_le_nat_alt)

lemma saturating_add_mono: "a \<le> saturating_add a (b :: 'a::len word)"
proof -
  have "unat a \<le> 2 ^ LENGTH('a) - 1" using unat_less_pow [of a] by linarith
  then show ?thesis by (simp add: word_le_nat_alt unat_saturating_add)
qed

lemma unat_pow2: "k < 64 \<Longrightarrow> unat (2 ^ k :: u64) = 2 ^ k"
proof -
  assume "k < 64"
  then have "(2 ^ k :: nat) < 2 ^ 64" by (rule power_strict_increasing) simp
  then have "unat (of_nat (2 ^ k) :: u64) = 2 ^ k" by (simp only: unat_of_nat) simp
  then show ?thesis by simp
qed

lemma is_power_of_two_unat: "is_power_of_two w \<longleftrightarrow> (\<exists>k < 64. unat w = 2 ^ k)"
  using unat_pow2 by (auto simp: is_power_of_two_def word_unat_eq_iff Bex_def)

end
