(* ===== verification/Scope_Git.thy ===== *)
theory Scope_Git
  imports Scope_Ints Scope_Views
begin

text \<open>
  \<^verbatim>\<open>repository/git.rs\<close> and \<^verbatim>\<open>repository/git_compaction.rs\<close>: the Git head of main, the pool packs that
  hold its objects, how one push extends them, and how two neighbouring packs are merged.

  \<open>main_chain\<close> says what \<open>validate_main_chain\<close> accepts: packs that cover the pushes from 1 on without gap,
  each built on the head of the one before, each covering a power of two of pushes. A compaction keeps
  the chain, its first prerequisites and its head, and a push extends it.

  The SHA-256 frontier of a head is data here; \<^verbatim>\<open>GitHead::new\<close>, which hashes it, is not modelled.
\<close>

section \<open>Heads and packs\<close>

record git_head =
  gh_head_oid :: string
  gh_push_sequence :: u64
  gh_change_version :: u64
  gh_frontier :: string

record git_segment_ref =
  gs_segment_id :: string
  gs_sha256 :: string
  gs_plaintext_bytes :: u64
  gs_encoding_version :: u32

datatype request_pack_scope = ScopeFull | ScopeView view_id

definition RequestPackScope_for_view :: "view_id \<Rightarrow> views \<Rightarrow> request_pack_scope" where
  "RequestPackScope_for_view view views = (if view = Views_full views then ScopeFull else ScopeView view)"

definition RequestPackScope_view :: "request_pack_scope \<Rightarrow> view_id option" where
  "RequestPackScope_view s = (case s of ScopeFull \<Rightarrow> None | ScopeView view \<Rightarrow> Some view)"

datatype git_pool_pack_owner = OwnerRequest string request_pack_scope | OwnerMain u64 u64

datatype git_pool_pack_storage = Inline "8 word list" | Segment git_segment_ref

record git_pool_pack =
  gp_id :: string
  gp_owner :: git_pool_pack_owner
  gp_head_oid :: string
  gp_prerequisites :: "string list"
  gp_storage :: git_pool_pack_storage

definition stored_bytes :: "git_pool_pack_storage \<Rightarrow> u64" where
  "stored_bytes s = (case s of Inline sealed \<Rightarrow> word_of_nat (length sealed) | Segment seg \<Rightarrow> gs_plaintext_bytes seg)"

definition storage_segment :: "git_pool_pack_storage \<Rightarrow> git_segment_ref option" where
  "storage_segment s = (case s of Inline _ \<Rightarrow> None | Segment seg \<Rightarrow> Some seg)"

definition main_sequences :: "git_pool_pack_owner \<Rightarrow> (u64 \<times> u64) option" where
  "main_sequences owner = (case owner of OwnerMain first_seq last_seq \<Rightarrow> Some (first_seq, last_seq) | OwnerRequest _ _ \<Rightarrow> None)"

section \<open>One push\<close>

datatype main_pack_advance_error =
  SequenceOverflow | NotNextSequence | WrongOwner | WrongHead | WrongPrerequisites

definition validate_main_pack_advance ::
  "git_head option \<Rightarrow> git_head \<Rightarrow> git_pool_pack \<Rightarrow> (main_pack_advance_error, unit) result" where
  "validate_main_pack_advance previous new pack =
     (case (case previous of None \<Rightarrow> Some 1 | Some head \<Rightarrow> checked_add (gh_push_sequence head) 1) of
        None \<Rightarrow> Err SequenceOverflow
      | Some sequence \<Rightarrow>
          if gh_push_sequence new \<noteq> sequence then Err NotNextSequence
          else if gp_owner pack \<noteq> OwnerMain sequence sequence then Err WrongOwner
          else if gp_head_oid pack \<noteq> gh_head_oid new then Err WrongHead
          else if gp_prerequisites pack \<noteq> (case previous of None \<Rightarrow> [] | Some head \<Rightarrow> [gh_head_oid head])
          then Err WrongPrerequisites
          else Ok ())"

section \<open>Compaction\<close>

datatype git_compaction_error =
  NotMainPack string
| InvalidRange u64 u64
| NonGeometricCoverage u64 u64 u64
| InvalidStart u64
| NonContiguous u64 u64
| DisconnectedHistory string "string list"
| ReplacementBoundaryMismatch
| SelectedSizesDiffer

definition main_range :: "git_pool_pack \<Rightarrow> (git_compaction_error, u64 \<times> u64) result" where
  "main_range pack =
     (case main_sequences (gp_owner pack) of Some r \<Rightarrow> Ok r | None \<Rightarrow> Err (NotMainPack (gp_id pack)))"

definition MainRange_count :: "u64 \<times> u64 \<Rightarrow> (git_compaction_error, u64) result" where
  "MainRange_count = (\<lambda>(first_seq, last_seq).
     case Option.bind (checked_sub last_seq first_seq) (\<lambda>distance. checked_add distance 1) of
       Some n \<Rightarrow> Ok n
     | None \<Rightarrow> Err (InvalidRange first_seq last_seq))"

definition validate_link ::
  "git_pool_pack \<Rightarrow> u64 \<times> u64 \<Rightarrow> git_pool_pack \<Rightarrow> u64 \<times> u64 \<Rightarrow> (git_compaction_error, unit) result" where
  "validate_link previous previous_range new new_range =
     (if checked_add (snd previous_range) 1 \<noteq> Some (fst new_range) then
        Err (NonContiguous (snd previous_range) (fst new_range))
      else if gp_prerequisites new \<noteq> [gp_head_oid previous] then
        Err (DisconnectedHistory (gp_head_oid previous) (gp_prerequisites new))
      else Ok ())"

text \<open>The loop of \<^verbatim>\<open>validate_main_chain\<close>: the previous pack with its range, the index, the packs left.\<close>

fun chain_entries ::
  "(git_pool_pack \<times> u64 \<times> u64) option \<Rightarrow> nat \<Rightarrow> git_pool_pack list
   \<Rightarrow> (git_compaction_error, (nat \<times> u64) list) result" where
  "chain_entries previous index [] = Ok []"
| "chain_entries previous index (pack # packs) =
     and_then (main_range pack) (\<lambda>range.
     and_then (MainRange_count range) (\<lambda>count.
       if \<not> is_power_of_two count then Err (NonGeometricCoverage (fst range) (snd range) count)
       else and_then
         (case previous of
            Some (previous_pack, previous_range) \<Rightarrow> validate_link previous_pack previous_range pack range
          | None \<Rightarrow> if fst range \<noteq> 1 \<or> gp_prerequisites pack \<noteq> [] then Err (InvalidStart (fst range)) else Ok ())
         (\<lambda>_. and_then (chain_entries (Some (pack, range)) (index + 1) packs)
                (\<lambda>entries. Ok ((index, count) # entries)))))"

definition validate_main_chain :: "git_pool_pack list \<Rightarrow> (git_compaction_error, (nat \<times> u64) list) result" where
  "validate_main_chain packs = chain_entries None 0 packs"

definition compactable_pair :: "git_pool_pack list \<Rightarrow> u64 \<Rightarrow> (nat \<times> u64) list \<Rightarrow> nat \<Rightarrow> bool" where
  "compactable_pair packs max_source_bytes spans i \<longleftrightarrow>
     snd (spans ! i) = snd (spans ! (i + 1))
     \<and> (case checked_add (stored_bytes (gp_storage (packs ! fst (spans ! i))))
                         (stored_bytes (gp_storage (packs ! fst (spans ! (i + 1))))) of
          Some sum_bytes \<Rightarrow> sum_bytes \<le> max_source_bytes
        | None \<Rightarrow> False)"

datatype git_compaction_plan = GitCompactionPlan (plan_first: git_pool_pack) (plan_last: git_pool_pack)

definition GitCompactionPlan_select ::
  "git_pool_pack list \<Rightarrow> u64 \<Rightarrow> (git_compaction_error, git_compaction_plan option) result" where
  "GitCompactionPlan_select packs max_source_bytes =
     and_then (validate_main_chain packs) (\<lambda>spans.
       Ok (map_option (\<lambda>pair_start. GitCompactionPlan (packs ! pair_start) (packs ! (pair_start + 1)))
             (find (compactable_pair packs max_source_bytes spans) [0..<length spans - 1])))"

definition validate_replacement ::
  "git_compaction_plan \<Rightarrow> git_pool_pack \<Rightarrow> (git_compaction_error, unit) result" where
  "validate_replacement plan replacement =
     and_then (main_range (plan_first plan)) (\<lambda>r0.
     and_then (main_range (plan_last plan)) (\<lambda>r1.
     and_then (validate_link (plan_first plan) r0 (plan_last plan) r1) (\<lambda>_.
     and_then (MainRange_count r0) (\<lambda>n0.
     and_then (MainRange_count r1) (\<lambda>n1.
       if n0 \<noteq> n1 then Err SelectedSizesDiffer
       else and_then (main_range replacement) (\<lambda>covered.
         if fst covered \<noteq> fst r0 \<or> snd covered \<noteq> snd r1
            \<or> gp_prerequisites replacement \<noteq> gp_prerequisites (plan_first plan)
            \<or> gp_head_oid replacement \<noteq> gp_head_oid (plan_last plan)
            \<or> map_option gs_segment_id (storage_segment (gp_storage replacement)) \<noteq> Some (gp_id replacement)
         then Err ReplacementBoundaryMismatch
         else Ok ()))))))"

definition GitCompactionPlan_replacement ::
  "git_compaction_plan \<Rightarrow> git_segment_ref \<Rightarrow> (git_compaction_error, git_pool_pack) result" where
  "GitCompactionPlan_replacement plan segment =
     and_then (main_range (plan_first plan)) (\<lambda>r0.
     and_then (main_range (plan_last plan)) (\<lambda>r1.
       let replacement = \<lparr>gp_id = gs_segment_id segment, gp_owner = OwnerMain (fst r0) (snd r1),
             gp_head_oid = gp_head_oid (plan_last plan),
             gp_prerequisites = gp_prerequisites (plan_first plan),
             gp_storage = Segment segment\<rparr>
       in and_then (validate_replacement plan replacement) (\<lambda>_. Ok replacement)))"

section \<open>What the chain means\<close>

text \<open>A pack of \<open>main\<close> that covers a power of two of pushes; the packs of a chain follow one another.\<close>

definition pack_ok :: "git_pool_pack \<Rightarrow> bool" where
  "pack_ok p \<longleftrightarrow> (\<exists>a b k. gp_owner p = OwnerMain a b \<and> k < 64 \<and> unat b + 1 = unat a + 2 ^ k)"

definition follows :: "git_pool_pack \<Rightarrow> git_pool_pack \<Rightarrow> bool" where
  "follows p q \<longleftrightarrow> (\<exists>a b c d. gp_owner p = OwnerMain a b \<and> gp_owner q = OwnerMain c d
     \<and> unat c = unat b + 1 \<and> gp_prerequisites q = [gp_head_oid p])"

definition starts_chain :: "git_pool_pack \<Rightarrow> bool" where
  "starts_chain p \<longleftrightarrow> (\<exists>b. gp_owner p = OwnerMain 1 b) \<and> gp_prerequisites p = []"

definition main_chain :: "git_pool_pack list \<Rightarrow> bool" where
  "main_chain ps \<longleftrightarrow> (ps \<noteq> [] \<longrightarrow> starts_chain (hd ps)) \<and> successively follows ps \<and> (\<forall>p \<in> set ps. pack_ok p)"

lemma main_range_Ok_iff: "main_range p = Inr r \<longleftrightarrow> gp_owner p = OwnerMain (fst r) (snd r)"
  by (cases r) (auto simp: main_range_def main_sequences_def split: git_pool_pack_owner.splits)

lemma MainRange_count_Ok_iff:
  "MainRange_count r = Inr n \<longleftrightarrow> 0 < unat n \<and> unat (snd r) + 1 = unat (fst r) + unat n"
proof (cases r)
  case (Pair a b)
  have "MainRange_count (a, b) = Inr n
      \<longleftrightarrow> (\<exists>d :: u64. checked_sub b a = Some d \<and> checked_add d 1 = Some n)"
    by (auto simp: MainRange_count_def split: option.splits Option.bind_splits)
  also have "\<dots> \<longleftrightarrow> (\<exists>d :: u64. unat b = unat a + unat d \<and> unat n = unat d + 1)"
    by (simp add: int_simps)
  also have "\<dots> \<longleftrightarrow> 0 < unat n \<and> unat b + 1 = unat a + unat n"
  proof
    assume *: "0 < unat n \<and> unat b + 1 = unat a + unat n"
    then have "unat (n - 1) = unat n - 1"
      by (subst unat_sub) (auto simp: word_le_nat_alt)
    with * show "\<exists>d :: u64. unat b = unat a + unat d \<and> unat n = unat d + 1"
      by (intro exI [of _ "n - 1"]) auto
  qed auto
  finally show ?thesis using Pair by simp
qed

lemma validate_link_Ok_iff:
  "validate_link p r q s = Inr u \<longleftrightarrow> unat (fst s) = unat (snd r) + 1 \<and> gp_prerequisites q = [gp_head_oid p]"
  by (auto simp: validate_link_def int_simps)

text \<open>One round of the loop accepts a pack.\<close>

definition range_of :: "git_pool_pack \<Rightarrow> u64 \<times> u64" where
  "range_of p = (case gp_owner p of OwnerMain a b \<Rightarrow> (a, b) | OwnerRequest _ _ \<Rightarrow> (0, 0))"

definition count_of :: "git_pool_pack \<Rightarrow> nat" where
  "count_of p = unat (snd (range_of p)) + 1 - unat (fst (range_of p))"

lemma pack_ok_count: "pack_ok p \<Longrightarrow> 0 < count_of p"
  by (auto simp: pack_ok_def count_of_def range_of_def)

lemma accepts_pack:
  "(\<exists>r n. main_range p = Inr r \<and> MainRange_count r = Inr n \<and> is_power_of_two n) \<longleftrightarrow> pack_ok p"
proof
  assume "pack_ok p"
  then obtain a b k where p: "gp_owner p = OwnerMain a b" "k < 64" "unat b + 1 = unat a + 2 ^ k"
    by (auto simp: pack_ok_def)
  then have n: "unat (2 ^ k :: u64) = 2 ^ k" by (simp add: unat_pow2)
  show "\<exists>r n. main_range p = Inr r \<and> MainRange_count r = Inr n \<and> is_power_of_two n"
    using p n by (intro exI [of _ "(a, b)"] exI [of _ "2 ^ k"])
      (auto simp: main_range_Ok_iff MainRange_count_Ok_iff is_power_of_two_unat)
qed (auto simp: main_range_Ok_iff MainRange_count_Ok_iff is_power_of_two_unat pack_ok_def)

lemma follows_iff:
  "pack_ok p \<Longrightarrow> pack_ok q \<Longrightarrow>
   follows p q \<longleftrightarrow> validate_link p (range_of p) q (range_of q) = Inr ()"
  by (auto simp: follows_def pack_ok_def range_of_def validate_link_Ok_iff)

lemma chain_entries_Cons:
  "chain_entries prev i (p # ps) = Inr es \<longleftrightarrow>
     pack_ok p
     \<and> (case prev of Some (q, r) \<Rightarrow> validate_link q r p (range_of p) = Inr () | None \<Rightarrow> starts_chain p)
     \<and> (\<exists>es'. chain_entries (Some (p, range_of p)) (i + 1) ps = Inr es'
          \<and> es = (i, of_nat (count_of p)) # es')"
  (is "?lhs \<longleftrightarrow> ?rhs")
proof
  assume ?lhs
  then obtain r n where rn: "main_range p = Inr r" "MainRange_count r = Inr n" "is_power_of_two n"
    by (auto simp: and_then_Ok_iff split: if_splits)
  then have "pack_ok p" using accepts_pack by blast
  moreover have "r = range_of p" using rn(1) by (simp add: main_range_Ok_iff range_of_def)
  moreover have "n = of_nat (count_of p)"
    using rn(2) \<open>r = range_of p\<close> by (simp add: MainRange_count_Ok_iff count_of_def)
  ultimately show ?rhs
    using \<open>?lhs\<close> rn by (auto simp: and_then_Ok_iff main_range_Ok_iff starts_chain_def split: option.splits if_splits)
next
  assume ?rhs
  then obtain r n where rn: "main_range p = Inr r" "MainRange_count r = Inr n" "is_power_of_two n"
    using accepts_pack by blast
  moreover have "r = range_of p" using rn(1) by (simp add: main_range_Ok_iff range_of_def)
  moreover have "n = of_nat (count_of p)"
    using rn(2) \<open>r = range_of p\<close> by (simp add: MainRange_count_Ok_iff count_of_def)
  moreover have "starts_chain p \<longleftrightarrow> fst (range_of p) = 1 \<and> gp_prerequisites p = []"
    using rn(1) by (auto simp: main_range_Ok_iff starts_chain_def range_of_def)
  ultimately show ?lhs
    using \<open>?rhs\<close> by (auto simp: and_then_Ok_iff split: option.splits)
qed

lemma chain_entries_Ok_iff:
  assumes "pack_ok p"
  shows "chain_entries (Some (p, range_of p)) i ps = Inr es \<longleftrightarrow>
     successively follows (p # ps) \<and> (\<forall>q \<in> set ps. pack_ok q)
     \<and> es = map (\<lambda>(j, q). (j, of_nat (count_of q))) (enumerate i ps)"
  using assms
proof (induction ps arbitrary: p i es)
  case (Cons q ps)
  then show ?case
    by (auto simp: chain_entries_Cons follows_iff simp del: chain_entries.simps)
qed auto

lemma validate_main_chain_Ok_iff:
  "validate_main_chain ps = Inr es \<longleftrightarrow>
     main_chain ps \<and> es = map (\<lambda>(j, q). (j, of_nat (count_of q))) (enumerate 0 ps)"
proof (cases ps)
  case (Cons p ps')
  then show ?thesis
    by (auto simp: validate_main_chain_def main_chain_def chain_entries_Cons chain_entries_Ok_iff
        simp del: chain_entries.simps)
qed (auto simp: validate_main_chain_def main_chain_def)

subsection \<open>Compaction keeps the chain\<close>

lemma main_chain_first_positive:
  assumes "main_chain ps" and "p \<in> set ps" and "gp_owner p = OwnerMain a b"
  shows "0 < unat a"
proof -
  obtain xs ys where ps: "ps = xs @ p # ys" using split_list [OF assms(2)] by blast
  show ?thesis
  proof (cases xs rule: rev_cases)
    case Nil
    with assms ps show ?thesis by (auto simp: main_chain_def starts_chain_def)
  next
    case (snoc zs z)
    then have "follows z p"
      using assms(1) ps by (simp add: main_chain_def successively_append_iff)
    then show ?thesis using assms(3) by (auto simp: follows_def)
  qed
qed

text \<open>Two neighbouring packs of equal count merge into one of twice the count.\<close>

lemma merged_pack_ok:
  assumes "pack_ok p" and "pack_ok q" and "follows p q" and "count_of p = count_of q"
    and "gp_owner p = OwnerMain a b" and "gp_owner q = OwnerMain c d" and "0 < unat a"
    and "gp_owner r = OwnerMain a d"
  shows "pack_ok r"
proof -
  obtain k where k: "k < 64" "unat b + 1 = unat a + 2 ^ k"
    using assms(1,5) by (auto simp: pack_ok_def)
  have "unat c = unat b + 1" using assms(3,5,6) by (auto simp: follows_def)
  moreover have "unat d + 1 = unat c + 2 ^ k"
    using assms(2,4,5,6) k(2) by (auto simp: pack_ok_def count_of_def range_of_def)
  ultimately have d: "unat d + 1 = unat a + 2 ^ (k + 1)" using k(2) by simp
  then have "(2 :: nat) ^ (k + 1) < 2 ^ 64"
    using unat_less_pow [of d] assms(7) by simp
  then have "k + 1 < 64" by (rule power_less_imp_less_exp [rotated]) simp
  with d assms(8) show ?thesis unfolding pack_ok_def by blast
qed

lemma main_chain_replace:
  assumes "main_chain (xs @ [p, q] @ ys)" and "count_of p = count_of q"
    and "gp_owner p = OwnerMain a b" and "gp_owner q = OwnerMain c d" and "gp_owner r = OwnerMain a d"
    and "gp_prerequisites r = gp_prerequisites p" and "gp_head_oid r = gp_head_oid q"
  shows "main_chain (xs @ [r] @ ys)"
proof -
  have "0 < unat a" using main_chain_first_positive [OF assms(1) _ assms(3)] by simp
  then have r: "pack_ok r"
    using merged_pack_ok [of p q a b c d r] assms
    by (auto simp: main_chain_def successively_append_iff)
  have "starts_chain r" if "starts_chain p"
    using that assms(3,5,6) by (auto simp: starts_chain_def)
  then have "xs @ [r] @ ys \<noteq> [] \<longrightarrow> starts_chain (hd (xs @ [r] @ ys))"
    using assms(1) by (cases xs) (auto simp: main_chain_def)
  moreover have "follows x r" if "follows x p" for x
    using that assms(3,5,6) by (auto simp: follows_def)
  moreover have "follows r y" if "follows q y" for y
    using that assms(4,5,7) by (auto simp: follows_def)
  ultimately show ?thesis
    using assms(1) r by (auto simp: main_chain_def successively_append_iff successively_Cons)
qed

text \<open>What a selected plan is, and that its replacement is always accepted.\<close>

lemma GitCompactionPlan_selectD:
  assumes "GitCompactionPlan_select packs m = Inr (Some plan)"
  shows "\<exists>xs ys. packs = xs @ [plan_first plan, plan_last plan] @ ys
    \<and> main_chain packs \<and> count_of (plan_first plan) = count_of (plan_last plan)"
proof -
  from assms obtain spans i where
    ch: "main_chain packs" and sp: "spans = map (\<lambda>(j, q). (j, of_nat (count_of q))) (enumerate 0 packs)"
    and i: "find (compactable_pair packs m spans) [0..<length spans - 1] = Some i"
    and plan: "plan = GitCompactionPlan (packs ! i) (packs ! (i + 1))"
    by (auto simp: GitCompactionPlan_select_def and_then_Ok_iff validate_main_chain_Ok_iff)
  have il: "i + 1 < length packs" and pair: "compactable_pair packs m spans i"
    using find_SomeD [OF i] sp by auto
  have "snd (spans ! j) = of_nat (count_of (packs ! j))" if "j < length packs" for j
    using that sp by (simp add: nth_enumerate_eq)
  then have w: "(of_nat (count_of (packs ! i)) :: u64) = of_nat (count_of (packs ! (i + 1)))"
    using pair il by (simp add: compactable_pair_def)
  have "count_of p < 2 ^ LENGTH(64)" if p: "pack_ok p" for p
  proof -
    obtain a b k where "gp_owner p = OwnerMain a b" "k < 64" "unat b + 1 = unat a + 2 ^ k"
      using p by (auto simp: pack_ok_def)
    moreover from this(2) have "(2 :: nat) ^ k < 2 ^ 64" by (rule power_strict_increasing) simp
    ultimately show ?thesis by (simp add: count_of_def range_of_def)
  qed
  then have "count_of (packs ! i) = count_of (packs ! (i + 1))"
    using w ch il by (metis (no_types, lifting) main_chain_def nth_mem of_nat_inverse Suc_eq_plus1 Suc_lessD)
  moreover have "packs = take i packs @ [packs ! i, packs ! (i + 1)] @ drop (i + 2) packs"
    using il by (metis Cons_nth_drop_Suc Suc_eq_plus1 Suc_lessD add_2_eq_Suc' append_Cons append_Nil append_take_drop_id)
  ultimately show ?thesis using ch plan by auto
qed

lemma replacement_accepted:
  assumes "follows p q" and "pack_ok p" and "pack_ok q" and "count_of p = count_of q"
    and "gp_owner p = OwnerMain a b" and "gp_owner q = OwnerMain c d"
  shows "GitCompactionPlan_replacement (GitCompactionPlan p q) seg =
    Inr \<lparr>gp_id = gs_segment_id seg, gp_owner = OwnerMain a d, gp_head_oid = gp_head_oid q,
         gp_prerequisites = gp_prerequisites p, gp_storage = Segment seg\<rparr>"
proof -
  have r: "main_range p = Inr (a, b)" "main_range q = Inr (c, d)"
    using assms(5,6) by (simp_all add: main_range_Ok_iff)
  obtain n m where nm: "MainRange_count (a, b) = Inr n" "MainRange_count (c, d) = Inr m"
    using accepts_pack [of p] accepts_pack [of q] r assms(2,3) by auto
  moreover have "n = m"
    using nm assms(4-6) by (simp add: MainRange_count_Ok_iff count_of_def range_of_def word_unat_eq_iff)
  moreover have "validate_link p (a, b) q (c, d) = Inr ()"
    using follows_iff [OF assms(2,3)] assms(1,5,6) by (simp add: range_of_def)
  ultimately show ?thesis
    using r by (simp add: GitCompactionPlan_replacement_def validate_replacement_def Let_def
        main_range_def main_sequences_def storage_segment_def)
qed

subsection \<open>Properties\<close>

text \<open>
  Compaction is safe and never gets stuck. A plan chosen by \<^verbatim>\<open>GitCompactionPlan::select\<close> names two
  neighbouring packs; \<^verbatim>\<open>replacement\<close> accepts any segment for it; the packs with the two replaced by the
  new one still form a valid main chain with the same entry count less one, and the new pack spans
  exactly the same pushes, prerequisites and head.
\<close>

theorem compaction_keeps_main_chain:
  assumes "GitCompactionPlan_select packs max_source_bytes = Inr (Some plan)"
  shows "\<exists>xs ys r. packs = xs @ [plan_first plan, plan_last plan] @ ys
    \<and> GitCompactionPlan_replacement plan seg = Inr r
    \<and> is_ok (validate_main_chain (xs @ [r] @ ys))
    \<and> count_of r = count_of (plan_first plan) + count_of (plan_last plan)
    \<and> gp_prerequisites r = gp_prerequisites (plan_first plan)
    \<and> gp_head_oid r = gp_head_oid (plan_last plan)"
proof -
  obtain xs ys where packs: "packs = xs @ [plan_first plan, plan_last plan] @ ys"
    and ch: "main_chain packs" and n: "count_of (plan_first plan) = count_of (plan_last plan)"
    using GitCompactionPlan_selectD [OF assms] by blast
  have ok: "pack_ok (plan_first plan)" "pack_ok (plan_last plan)" "follows (plan_first plan) (plan_last plan)"
    using ch packs by (auto simp: main_chain_def successively_append_iff)
  then obtain a b c d where o: "gp_owner (plan_first plan) = OwnerMain a b" "gp_owner (plan_last plan) = OwnerMain c d"
    by (auto simp: pack_ok_def)
  let ?r = "\<lparr>gp_id = gs_segment_id seg, gp_owner = OwnerMain a d, gp_head_oid = gp_head_oid (plan_last plan),
     gp_prerequisites = gp_prerequisites (plan_first plan), gp_storage = Segment seg\<rparr>"
  have acc: "GitCompactionPlan_replacement plan seg = Inr ?r"
    using replacement_accepted [OF ok(3,1,2) n o] by (cases plan) simp
  have "main_chain (xs @ [?r] @ ys)"
    using main_chain_replace [OF ch [unfolded packs] n o] by simp
  then have chain: "is_ok (validate_main_chain (xs @ [?r] @ ys))"
    unfolding is_ok_iff validate_main_chain_Ok_iff by blast
  have "count_of ?r = count_of (plan_first plan) + count_of (plan_last plan)"
    using ok o by (auto simp: follows_def pack_ok_def count_of_def range_of_def)
  with packs acc chain show ?thesis
    by (intro exI [of _ xs] exI [of _ ys] exI [of _ ?r]) simp
qed

definition example_pack :: "u64 \<Rightarrow> string list \<Rightarrow> string \<Rightarrow> git_pool_pack" where
  "example_pack i prerequisites head =
     \<lparr>gp_id = head, gp_owner = OwnerMain i i, gp_head_oid = head, gp_prerequisites = prerequisites,
      gp_storage = Segment \<lparr>gs_segment_id = head, gs_sha256 = [], gs_plaintext_bytes = 1, gs_encoding_version = 2\<rparr>\<rparr>"

lemma example_pack_simps [simp]:
  "pack_ok (example_pack i pre h)" "count_of (example_pack i pre h) = 1"
  "follows (example_pack i pre h) (example_pack j pre' h') \<longleftrightarrow> unat j = unat i + 1 \<and> pre' = [h]"
  "starts_chain (example_pack i pre h) \<longleftrightarrow> i = 1 \<and> pre = []"
  "stored_bytes (gp_storage (example_pack i pre h)) = 1"
  by (auto simp: pack_ok_def follows_def count_of_def range_of_def starts_chain_def stored_bytes_def
      example_pack_def intro: exI [of _ 0])

lemma compaction_keeps_main_chain_witness:
  fixes packs seg plan
  defines "packs \<equiv> [example_pack 1 [] ''a'', example_pack 2 [''a''] ''b'', example_pack 3 [''b''] ''c'']"
    and "seg \<equiv> \<lparr>gs_segment_id = ''s'', gs_sha256 = [], gs_plaintext_bytes = 2, gs_encoding_version = 2\<rparr>"
    and "plan \<equiv> GitCompactionPlan (example_pack 1 [] ''a'') (example_pack 2 [''a''] ''b'')"
  shows "GitCompactionPlan_select packs 10 = Inr (Some plan)
    \<and> (\<exists>xs ys r. packs = xs @ [plan_first plan, plan_last plan] @ ys
      \<and> GitCompactionPlan_replacement plan seg = Inr r \<and> is_ok (validate_main_chain (xs @ [r] @ ys)))"
proof -
  have "GitCompactionPlan_select packs 10 = Inr (Some plan)"
  proof -
    have "validate_main_chain packs = Inr [(0, 1), (1, 1), (2, 1)]"
      unfolding validate_main_chain_Ok_iff packs_def by (simp add: main_chain_def)
    then show ?thesis
      by (simp add: GitCompactionPlan_select_def packs_def plan_def compactable_pair_def checked_add_def)
  qed
  with compaction_keeps_main_chain [OF this, of seg] show ?thesis by blast
qed

text \<open>
  Every push that \<^verbatim>\<open>validate_main_pack_advance\<close> accepts extends the main chain: if the stored packs
  form a valid chain that ends at the current head, then with the pushed pack appended they form a
  valid chain that ends at the new head.
\<close>

definition chain_ends_at :: "git_pool_pack list \<Rightarrow> git_head option \<Rightarrow> bool" where
  "chain_ends_at packs head =
     (case head of
        None \<Rightarrow> packs = []
      | Some h \<Rightarrow> packs \<noteq> [] \<and> gp_head_oid (last packs) = gh_head_oid h
          \<and> snd (range_of (last packs)) = gh_push_sequence h)"

theorem push_extends_main_chain:
  assumes "is_ok (validate_main_chain packs)" and "chain_ends_at packs previous"
    and "validate_main_pack_advance previous new pack = Inr ()"
  shows "is_ok (validate_main_chain (packs @ [pack])) \<and> chain_ends_at (packs @ [pack]) (Some new)"
proof -
  obtain sequence where sq:
      "(case previous of None \<Rightarrow> Some 1 | Some head \<Rightarrow> checked_add (gh_push_sequence head) 1) = Some sequence"
    and new: "gh_push_sequence new = sequence" "gp_owner pack = OwnerMain sequence sequence"
      "gp_head_oid pack = gh_head_oid new"
    and pre: "gp_prerequisites pack = (case previous of None \<Rightarrow> [] | Some head \<Rightarrow> [gh_head_oid head])"
    using assms(3) by (auto simp: validate_main_pack_advance_def split: option.splits if_splits)
  have ch: "main_chain packs" using assms(1) by (auto simp: is_ok_iff validate_main_chain_Ok_iff)
  have ok: "pack_ok pack" unfolding pack_ok_def using new(2) by (intro exI [of _ sequence] exI [of _ 0]) simp
  have "main_chain (packs @ [pack])"
  proof (cases previous)
    case None
    with assms(2) sq new pre ok show ?thesis
      by (simp add: chain_ends_at_def main_chain_def starts_chain_def)
  next
    case (Some h)
    then have e: "packs \<noteq> []" "gp_head_oid (last packs) = gh_head_oid h"
        "snd (range_of (last packs)) = gh_push_sequence h"
      using assms(2) by (auto simp: chain_ends_at_def)
    have "pack_ok (last packs)" using ch e(1) by (simp add: main_chain_def)
    then have "follows (last packs) pack"
      using e(2,3) Some sq pre new(2) by (auto simp: follows_def pack_ok_def range_of_def int_simps)
    with ch e(1) ok show ?thesis
      by (simp add: main_chain_def successively_append_iff)
  qed
  then show ?thesis
    using new by (auto simp: is_ok_iff validate_main_chain_Ok_iff chain_ends_at_def range_of_def)
qed

lemma push_extends_main_chain_witness:
  "is_ok (validate_main_chain ([example_pack 1 [] ''a''] @ [example_pack 2 [''a''] ''b'']))"
proof -
  let ?old = "\<lparr>gh_head_oid = ''a'', gh_push_sequence = 1, gh_change_version = 1, gh_frontier = []\<rparr>"
    and ?new = "\<lparr>gh_head_oid = ''b'', gh_push_sequence = 2, gh_change_version = 2, gh_frontier = []\<rparr>"
  have "is_ok (validate_main_chain [example_pack 1 [] ''a''])"
    by (simp add: is_ok_iff validate_main_chain_Ok_iff main_chain_def)
  moreover have "chain_ends_at [example_pack 1 [] ''a''] (Some ?old)"
    by (simp add: chain_ends_at_def example_pack_def range_of_def)
  moreover have "validate_main_pack_advance (Some ?old) ?new (example_pack 2 [''a''] ''b'') = Inr ()"
    by (simp add: validate_main_pack_advance_def checked_add_def example_pack_def)
  ultimately show ?thesis using push_extends_main_chain by blast
qed

end
