(* ===== verification/Scope_Repository.thy ===== *)
theory Scope_Repository
  imports Scope_Git Scope_Projection "HOL-Library.Product_Lexorder"
begin

text \<open>
  \<^verbatim>\<open>repository/mod.rs\<close>, \<^verbatim>\<open>repository/credentials.rs\<close>, \<^verbatim>\<open>repository/collaboration.rs\<close>,
  \<^verbatim>\<open>repository/access.rs\<close>: the repository record, its members and invites, and what an actor may do.
\<close>

section \<open>Accounts and credentials\<close>

record user_account =
  ua_id :: string
  ua_handle :: string
  ua_email :: string
  ua_email_verified :: bool

datatype first_push_token_status = TokenActive | TokenExpired | TokenUsed

record first_push_token =
  fpt_token_hash :: string
  fpt_secret :: "string option"
  fpt_owner_user_id :: string
  fpt_created_at_unix :: u64
  fpt_expires_at_unix :: u64
  fpt_used_at_unix :: "u64 option"

definition FirstPushToken_status_at :: "first_push_token \<Rightarrow> u64 \<Rightarrow> first_push_token_status" where
  "FirstPushToken_status_at token now_unix =
     (if fpt_used_at_unix token \<noteq> None then TokenUsed
      else if now_unix \<ge> fpt_expires_at_unix token then TokenExpired
      else TokenActive)"

record git_push_token =
  gpt_token_hash :: string
  gpt_owner_user_id :: string
  gpt_created_at_unix :: u64

section \<open>Members and invites\<close>

record repository_member_permissions =
  mp_can_push :: bool
  mp_can_change_file_visibility :: bool
  mp_view :: view_id

definition RepositoryMemberPermissions_validate ::
  "repository_member_permissions \<Rightarrow> views \<Rightarrow> (domain_error, unit) result" where
  "RepositoryMemberPermissions_validate p views =
     (if Views_get views (mp_view p) = None then
        Err (invalid_input (''unknown view '' @ view_str (mp_view p)))
      else if mp_can_change_file_visibility p \<and> mp_view p \<noteq> Views_full views then
        Err (invalid_input (''members who change file visibility are assigned the ''
               @ Views_display_name views (Views_full views) @ '' view''))
      else Ok ())"

definition RepositoryMemberPermissions_default :: repository_member_permissions where
  "RepositoryMemberPermissions_default =
     \<lparr>mp_can_push = False, mp_can_change_file_visibility = False, mp_view = ViewId_private\<rparr>"

record repository_member =
  mem_repo_id :: string
  mem_user_id :: string
  mem_permissions :: repository_member_permissions
  mem_created_at_unix :: u64
  mem_updated_at_unix :: u64

datatype repository_invite_state = InvitePending | InviteAccepted | InviteRevoked | InviteExpired

record repository_invite =
  ri_id :: string
  ri_repo_id :: string
  ri_invited_email :: string
  ri_invited_email_normalized :: string
  ri_permissions :: repository_member_permissions
  ri_invited_by_user_id :: string
  ri_link_hashes :: "string list"
  ri_created_at_unix :: u64
  ri_updated_at_unix :: u64
  ri_expires_at_unix :: u64
  ri_accepted_by_user_id :: "string option"
  ri_accepted_at_unix :: "u64 option"
  ri_revoked_at_unix :: "u64 option"

definition RepositoryInvite_state :: "repository_invite \<Rightarrow> u64 \<Rightarrow> repository_invite_state" where
  "RepositoryInvite_state i now_unix =
     (if ri_revoked_at_unix i \<noteq> None then InviteRevoked
      else if ri_accepted_at_unix i \<noteq> None then InviteAccepted
      else if now_unix \<ge> ri_expires_at_unix i then InviteExpired
      else InvitePending)"

definition RepositoryInvite_ended_at_unix :: "repository_invite \<Rightarrow> u64" where
  "RepositoryInvite_ended_at_unix i =
     (case ri_revoked_at_unix i of
        Some t \<Rightarrow> t
      | None \<Rightarrow> (case ri_accepted_at_unix i of Some t \<Rightarrow> t | None \<Rightarrow> ri_expires_at_unix i))"

definition normalize_repository_invite_email :: "string \<Rightarrow> string" where
  "normalize_repository_invite_email email = map to_ascii_lowercase (trim email)"

record repository_collaboration =
  co_members :: "repository_member list"
  co_invitations :: "repository_invite list"

definition RepositoryCollaboration_member_for_user ::
  "repository_collaboration \<Rightarrow> string \<Rightarrow> repository_member option" where
  "RepositoryCollaboration_member_for_user c user_id = find (\<lambda>member. mem_user_id member = user_id) (co_members c)"

section \<open>The repository\<close>

datatype repo_lifecycle_state = AwaitingFirstPush | RepoReady

record repo_record =
  rr_id :: string
  rr_incarnation_id :: string
  rr_owner_handle :: string
  rr_name :: string
  rr_owner_user_id :: string
  rr_description :: "string option"
  rr_website_url :: "string option"
  rr_lifecycle_state :: repo_lifecycle_state
  rr_change_version :: u64
  rr_content_version :: u64

record repository =
  rp_record :: repo_record
  rp_config :: repo_config
  rp_first_push_token :: "first_push_token option"
  rp_git_push_token :: "git_push_token option"
  rp_policy :: policy
  rp_graph :: source_graph
  rp_sets :: "visibility_change_set list"
  rp_live_files :: file_tree
  rp_git_head :: "git_head option"
  rp_collaboration :: repository_collaboration

datatype catalog_error =
  InvalidRepositoryName string | InvalidRepositoryIdentity string | UnknownDefaultView view_id

datatype repository_incarnation =
  RepositoryIncarnation (inc_repository_id: string) (inc_incarnation_id: string)

definition RepositoryIncarnation_new ::
  "string \<Rightarrow> string \<Rightarrow> (catalog_error, repository_incarnation) result" where
  "RepositoryIncarnation_new repository_id incarnation_id =
     (if trim repository_id = [] then Err (InvalidRepositoryIdentity ''repository id is required'')
      else if trim incarnation_id = [] then
        Err (InvalidRepositoryIdentity ''repository incarnation id is required'')
      else Ok (RepositoryIncarnation repository_id incarnation_id))"

definition repo_id :: "string \<Rightarrow> string \<Rightarrow> string" where
  "repo_id owner name = map to_ascii_lowercase (trim owner) @ ''/'' @ map to_ascii_lowercase (trim name)"

definition is_ascii_alphanumeric :: "char \<Rightarrow> bool" where
  "is_ascii_alphanumeric c \<longleftrightarrow> is_ascii_lowercase c \<or> is_ascii_uppercase c \<or> is_ascii_digit c"

definition validate_repo_name :: "string \<Rightarrow> (catalog_error, string) result" where
  "validate_repo_name raw =
     (let name = map to_ascii_lowercase (trim raw) in
      if name = [] then Err (InvalidRepositoryName ''repository name is required'')
      else if name = ''.'' \<or> name = ''..'' then
        Err (InvalidRepositoryName ''repository name cannot be . or ..'')
      else if length name > 80 then
        Err (InvalidRepositoryName ''repository name must be 80 characters or fewer'')
      else if \<not> list_all (\<lambda>c. is_ascii_alphanumeric c \<or> c = CHR ''.'' \<or> c = CHR ''-'' \<or> c = CHR ''_'') name then
        Err (InvalidRepositoryName
          ''repository name can only use letters, numbers, dots, dashes, or underscores'')
      else Ok name)"

definition Repository_new ::
  "user_account \<Rightarrow> string \<Rightarrow> view_id \<Rightarrow> string \<Rightarrow> (catalog_error, repository) result" where
  "Repository_new owner raw_name default_visibility incarnation_id =
     and_then (validate_repo_name raw_name) (\<lambda>name.
       let i = repo_id (ua_handle owner) name in
       and_then (RepositoryIncarnation_new i incarnation_id) (\<lambda>incarnation.
         if Views_get Views_builtin default_visibility = None then Err (UnknownDefaultView default_visibility)
         else Ok \<lparr>rp_record = \<lparr>rr_id = i, rr_incarnation_id = inc_incarnation_id incarnation,
                    rr_owner_handle = ua_handle owner, rr_name = name, rr_owner_user_id = ua_id owner,
                    rr_description = None, rr_website_url = None, rr_lifecycle_state = AwaitingFirstPush,
                    rr_change_version = 1, rr_content_version = 1\<rparr>,
                  rp_config = RepoConfig_with_default_view default_visibility,
                  rp_first_push_token = None, rp_git_push_token = None,
                  rp_policy = Policy_new default_visibility,
                  rp_graph = \<lparr>sg_repo_id = i, sg_commits = []\<rparr>,
                  rp_sets = [], rp_live_files = [], rp_git_head = None,
                  rp_collaboration = \<lparr>co_members = [], co_invitations = []\<rparr>\<rparr>))"

definition RepoRecord_bump_change_version :: "repo_record \<Rightarrow> repo_record" where
  "RepoRecord_bump_change_version r = r\<lparr>rr_change_version := saturating_add (rr_change_version r) 1\<rparr>"

definition bump_change_version :: "repository \<Rightarrow> repository" where
  "bump_change_version repo = repo\<lparr>rp_record := RepoRecord_bump_change_version (rp_record repo)\<rparr>"

definition bump_content_version :: "repository \<Rightarrow> repository" where
  "bump_content_version repo =
     (let repo = bump_change_version repo; r = rp_record repo
      in repo\<lparr>rp_record := r\<lparr>rr_content_version := saturating_add (rr_content_version r) 1\<rparr>\<rparr>)"

definition content_matches :: "repository \<Rightarrow> repository \<Rightarrow> bool" where
  "content_matches a b \<longleftrightarrow>
     rp_graph a = rp_graph b \<and> rp_sets a = rp_sets b
     \<and> rp_live_files a = rp_live_files b \<and> rp_policy a = rp_policy b
     \<and> rp_config a = rp_config b \<and> rp_git_head a = rp_git_head b"

abbreviation option_list :: "'a option \<Rightarrow> 'a list" where
  "option_list o' \<equiv> case_option [] (\<lambda>x. [x]) o'"

definition source_blobs :: "repository \<Rightarrow> source_blob list" where
  "source_blobs repo =
     concat (map (\<lambda>change. option_list (fc_old_content change) @ option_list (fc_new_content change))
       (concat (map lc_changes (sg_commits (rp_graph repo)))))
     @ concat (map (\<lambda>change. option_list (vc_current_content change))
         (concat (map vs_changes (rp_sets repo))))"

definition Repository_initial_views :: "repository \<Rightarrow> views" where
  "Repository_initial_views repo = initial_views (rp_sets repo) (rc_views (rp_config repo))"

definition Repository_is_owner_user :: "repository \<Rightarrow> string \<Rightarrow> bool" where
  "Repository_is_owner_user repo user_id \<longleftrightarrow> rr_owner_user_id (rp_record repo) = user_id"

definition is_waiting_for_first_push :: "repository \<Rightarrow> bool" where
  "is_waiting_for_first_push repo \<longleftrightarrow> rr_lifecycle_state (rp_record repo) = AwaitingFirstPush"

section \<open>Access\<close>

datatype repository_actor = ActorPublic | ActorMember | ActorOwner

record repository_access =
  ra_actor :: repository_actor
  ra_view :: view_id
  ra_can_push :: bool
  ra_can_change_file_visibility :: bool
  ra_can_manage_members :: bool
  ra_can_delete_repo :: bool

datatype push_mode = PushDenied | FirstPush | PushReady | ThroughView view_id

definition can_read_repository :: "repo_lifecycle_state \<Rightarrow> repository_access \<Rightarrow> bool \<Rightarrow> bool" where
  "can_read_repository lifecycle_state access public_files_visible =
     (case ra_actor access of
        ActorOwner \<Rightarrow> True
      | ActorMember \<Rightarrow> lifecycle_state = RepoReady
      | ActorPublic \<Rightarrow> lifecycle_state = RepoReady \<and> public_files_visible)"

definition is_maintainer :: "repository_access \<Rightarrow> bool" where
  "is_maintainer access \<longleftrightarrow> ra_actor access = ActorOwner \<or> ra_actor access = ActorMember"

definition main_push_mode :: "repository_access \<Rightarrow> repo_lifecycle_state \<Rightarrow> views \<Rightarrow> push_mode" where
  "main_push_mode access lifecycle_state views =
     (if lifecycle_state = AwaitingFirstPush \<and> ra_actor access = ActorOwner then FirstPush
      else if lifecycle_state \<noteq> RepoReady \<or> \<not> ra_can_push access \<or> \<not> is_maintainer access then PushDenied
      else if ra_view access = Views_full views then PushReady
      else if Views_get views (ra_view access) \<noteq> None then ThroughView (ra_view access)
      else PushDenied)"

definition visible_version :: "repository_access \<Rightarrow> u64 \<Rightarrow> u64" where
  "visible_version access version = (if ra_actor access = ActorPublic then 0 else version)"

definition reader_view :: "repository_access \<Rightarrow> views \<Rightarrow> view_id option" where
  "reader_view access views =
     (case ra_actor access of
        ActorPublic \<Rightarrow> Views_anyone views
      | ActorMember \<Rightarrow> Some (ra_view access)
      | ActorOwner \<Rightarrow> Some (ra_view access))"

definition can_read_view :: "repository_access \<Rightarrow> views \<Rightarrow> view_id \<Rightarrow> bool" where
  "can_read_view access views view \<longleftrightarrow>
     Views_get views view \<noteq> None
     \<and> (case reader_view access views of Some reader \<Rightarrow> Views_may_read views reader view | None \<Rightarrow> False)"

definition reads_full_view :: "repository_access \<Rightarrow> views \<Rightarrow> bool" where
  "reads_full_view access views \<longleftrightarrow> can_read_view access views (Views_full views)"

definition ensure_run_reader :: "repository_access \<Rightarrow> views \<Rightarrow> (domain_error, unit) result" where
  "ensure_run_reader access views =
     (if reads_full_view access views then Ok ()
      else Err (forbidden ''repository runs need the repository's full view''))"

definition RepositoryAccess_full_view_reader :: "views \<Rightarrow> repository_access" where
  "RepositoryAccess_full_view_reader views =
     \<lparr>ra_actor = ActorMember, ra_view = Views_full views, ra_can_push = False,
      ra_can_change_file_visibility = False, ra_can_manage_members = False, ra_can_delete_repo = False\<rparr>"

definition RepositoryAccess_public :: repository_access where
  "RepositoryAccess_public =
     \<lparr>ra_actor = ActorPublic, ra_view = ViewId_public, ra_can_push = False,
      ra_can_change_file_visibility = False, ra_can_manage_members = False, ra_can_delete_repo = False\<rparr>"

record repository_access_context =
  rac_record :: repo_record
  rac_access :: repository_access
  rac_views :: views

definition ensure_member :: "repository_access_context \<Rightarrow> (domain_error, unit) result" where
  "ensure_member ctx =
     (if is_maintainer (rac_access ctx) then Ok () else Err (forbidden ''repo membership required''))"

definition ensure_owner :: "repository_access_context \<Rightarrow> (domain_error, unit) result" where
  "ensure_owner ctx =
     (if ra_actor (rac_access ctx) = ActorOwner then Ok () else Err (forbidden ''owner role required''))"

definition repository_access_for_user_id ::
  "string \<Rightarrow> repo_lifecycle_state \<Rightarrow> repository_member_permissions option \<Rightarrow> string \<Rightarrow> repository_access" where
  "repository_access_for_user_id owner_user_id lifecycle_state member_permissions user_id =
     (let ready = (lifecycle_state = RepoReady) in
      if owner_user_id = user_id then
        \<lparr>ra_actor = ActorOwner, ra_view = Views_full Views_builtin, ra_can_push = ready,
         ra_can_change_file_visibility = True, ra_can_manage_members = ready, ra_can_delete_repo = True\<rparr>
      else case member_permissions of
        None \<Rightarrow> RepositoryAccess_public
      | Some p \<Rightarrow>
          \<lparr>ra_actor = ActorMember, ra_view = mp_view p, ra_can_push = (ready \<and> mp_can_push p),
           ra_can_change_file_visibility = (ready \<and> mp_can_change_file_visibility p),
           ra_can_manage_members = False, ra_can_delete_repo = False\<rparr>)"

record repository_push_policy =
  rpp_access :: repository_access
  rpp_mode :: push_mode

definition repository_push_policy_for_user_id ::
  "string \<Rightarrow> repo_lifecycle_state \<Rightarrow> repository_member_permissions option \<Rightarrow> string \<Rightarrow> views
   \<Rightarrow> repository_push_policy" where
  "repository_push_policy_for_user_id owner_user_id lifecycle_state member_permissions user_id views =
     (let access = repository_access_for_user_id owner_user_id lifecycle_state member_permissions user_id
      in \<lparr>rpp_access = access, rpp_mode = main_push_mode access lifecycle_state views\<rparr>)"

definition Repository_access_for_user_id :: "repository \<Rightarrow> string \<Rightarrow> repository_access" where
  "Repository_access_for_user_id repo user_id =
     repository_access_for_user_id (rr_owner_user_id (rp_record repo))
       (rr_lifecycle_state (rp_record repo))
       (map_option mem_permissions (RepositoryCollaboration_member_for_user (rp_collaboration repo) user_id))
       user_id"

definition Repository_push_policy_for_user_id :: "repository \<Rightarrow> string \<Rightarrow> repository_push_policy" where
  "Repository_push_policy_for_user_id repo user_id =
     repository_push_policy_for_user_id (rr_owner_user_id (rp_record repo))
       (rr_lifecycle_state (rp_record repo))
       (map_option mem_permissions (RepositoryCollaboration_member_for_user (rp_collaboration repo) user_id))
       user_id (rc_views (rp_config repo))"

definition Repository_can_read_view :: "repository \<Rightarrow> repository_access \<Rightarrow> view_id \<Rightarrow> bool" where
  "Repository_can_read_view repo access view = can_read_view access (rc_views (rp_config repo)) view"

section \<open>Who reads and who pushes\<close>

lemma Views_anyone_public:
  assumes "views_ok v" and "Views_anyone v = Some i"
  shows "i = ViewId_public"
proof -
  obtain d where d: "find (\<lambda>d. vd_readers d = Anyone) (view_defs v) = Some d" "i = vd_id d"
    using assms(2) by (auto simp: Views_anyone_def)
  have "\<forall>d \<in> set (view_defs v). vd_readers d = Anyone \<longleftrightarrow> vd_id d = ViewId_public"
    using assms(1) by (simp add: views_ok_def)
  with find_SomeD [OF d(1)] d(2) show ?thesis by blast
qed

lemma reads_full_iff:
  assumes "views_ok v"
  shows "reads_full_view access v \<longleftrightarrow> is_maintainer access \<and> ra_view access = Views_full v"
proof -
  obtain d where "Views_get v (Views_full v) = Some d"
    using full_found(2,3) [OF assms] by auto
  then have "reads_full_view access v \<longleftrightarrow> reader_view access v = Some (Views_full v)"
    using may_read_full_only [OF assms] by (auto simp: reads_full_view_def can_read_view_def split: option.splits)
  moreover have "Views_anyone v \<noteq> Some (Views_full v)"
    using Views_anyone_public [OF assms] full_found(2) [OF assms] by auto
  ultimately show ?thesis
    by (auto simp: reader_view_def is_maintainer_def split: repository_actor.splits)
qed

text \<open>
  What the push policy of a user means, for validated views. Only the owner makes the first push;
  a direct push to main is open to exactly the maintainers with push permission who read the full view of a
  ready repository; a push through a view is open to maintainers of that defined, narrower view, who can read
  it and cannot read the full view.
\<close>

theorem push_policy_correct:
  assumes "views_ok views"
    and "pol = repository_push_policy_for_user_id owner_user_id lifecycle member_permissions user_id views"
  shows "(rpp_mode pol = FirstPush \<longleftrightarrow> lifecycle = AwaitingFirstPush \<and> owner_user_id = user_id)
    \<and> (rpp_mode pol = PushReady \<longleftrightarrow>
         lifecycle = RepoReady \<and> ra_can_push (rpp_access pol) \<and> reads_full_view (rpp_access pol) views)
    \<and> (\<forall>view. rpp_mode pol = ThroughView view \<longrightarrow>
         lifecycle = RepoReady \<and> ra_can_push (rpp_access pol) \<and> view \<noteq> Views_full views
         \<and> can_read_view (rpp_access pol) views view \<and> \<not> reads_full_view (rpp_access pol) views)"
proof -
  have r: "reads_full_view a views \<longleftrightarrow> is_maintainer a \<and> ra_view a = Views_full views" for a
    by (rule reads_full_iff [OF assms(1)])
  have refl: "Views_may_read views x x" for x by (rule mr.refl)
  have acc: "ra_actor (rpp_access pol) = ActorOwner \<longleftrightarrow> owner_user_id = user_id"
    by (auto simp: assms(2) repository_push_policy_for_user_id_def repository_access_for_user_id_def
        RepositoryAccess_public_def Let_def split: option.splits)
  have mode: "rpp_mode pol = main_push_mode (rpp_access pol) lifecycle views"
    by (simp add: assms(2) repository_push_policy_for_user_id_def Let_def)
  have public: "ra_actor (rpp_access pol) = ActorPublic \<Longrightarrow> \<not> ra_can_push (rpp_access pol)"
    by (auto simp: assms(2) repository_push_policy_for_user_id_def repository_access_for_user_id_def
        RepositoryAccess_public_def Let_def split: option.splits if_splits)
  show ?thesis
    unfolding mode r
    using acc refl
    by (cases lifecycle; cases "ra_actor (rpp_access pol)")
      (auto simp: main_push_mode_def can_read_view_def reader_view_def is_maintainer_def)
qed

lemma push_policy_correct_witness:
  "rpp_mode (repository_push_policy_for_user_id ''owner'' RepoReady
     (Some \<lparr>mp_can_push = True, mp_can_change_file_visibility = False, mp_view = ViewId_public\<rparr>)
     ''member'' Views_builtin) = ThroughView ViewId_public
   \<and> \<not> reads_full_view (rpp_access (repository_push_policy_for_user_id ''owner'' RepoReady
     (Some \<lparr>mp_can_push = True, mp_can_change_file_visibility = False, mp_view = ViewId_public\<rparr>)
     ''member'' Views_builtin)) Views_builtin"
  (is "rpp_mode ?p = _ \<and> _")
proof -
  have "rpp_mode ?p = ThroughView ViewId_public"
    by (simp add: repository_push_policy_for_user_id_def repository_access_for_user_id_def main_push_mode_def
        is_maintainer_def Views_get_def Views_full_def Views_builtin_def)
  with push_policy_correct [OF views_ok_builtin, of ?p] show ?thesis by blast
qed

text \<open>
  No reader sees above their view. An actor who does not read the full view can read no view that shows
  a private control path or a file labelled with the full view, whatever the includes are.
\<close>

theorem narrow_reader_sees_no_private_file:
  assumes "views_ok views" and "\<not> reads_full_view access views" and "can_read_view access views view"
    and "Views_shows views view path label"
  shows "label \<noteq> Views_full views \<and> \<not> is_private_control_path path"
proof -
  obtain reader where r: "reader_view access views = Some reader" "Views_may_read views reader view"
    using assms(3) by (auto simp: can_read_view_def split: option.splits)
  have "view \<noteq> Views_full views"
    using assms(2,3) unfolding reads_full_view_def by auto
  then show ?thesis
    using vis.full_label_needs_full [OF assms(1)] vis.hidden_needs_full [OF assms(1)] assms(4) by blast
qed

lemma narrow_reader_sees_no_private_file_witness:
  "ViewId_public \<noteq> Views_full Views_builtin \<and> \<not> is_private_control_path (ScopePath ''/README.md'')"
proof -
  have s: "Views_shows Views_builtin ViewId_public (ScopePath ''/README.md'') ViewId_public"
    by (rule vis.own_label_shown) (simp_all add: control_defs control_consts string_ops)
  have m: "Views_may_read Views_builtin ViewId_public ViewId_public" by (rule mr.refl)
  have "\<not> reads_full_view RepositoryAccess_public Views_builtin"
    by (simp add: reads_full_iff RepositoryAccess_public_def is_maintainer_def)
  moreover have "can_read_view RepositoryAccess_public Views_builtin ViewId_public"
    using m by (simp add: can_read_view_def reader_view_def RepositoryAccess_public_def Views_get_def
        Views_anyone_def Views_builtin_def)
  ultimately show ?thesis
    using narrow_reader_sees_no_private_file [OF views_ok_builtin _ _ s] by blast
qed

end
