(* ===== verification/Reviewed_Updates.thy ===== *)
theory Reviewed_Updates
  imports Scope_Repository Projection_Facts
begin

text \<open>
  \<^verbatim>\<open>reviewed_updates/\<close> and \<^verbatim>\<open>repository/updates.rs\<close>: how a reviewed push, a request merge or a configuration
  change becomes part of the repository.

  An operation returns the updated repository on success. The code mutates \<^verbatim>\<open>&mut Repository\<close> in place and its
  callers drop the repository when it fails, so the state left behind by a failure is not modelled.
\<close>

section \<open>Inputs\<close>

record reviewed_content_change =
  rcc_path :: scope_path
  rcc_content :: "source_blob option"

record reviewed_update_input =
  ru_occurred_at_unix :: "int option"
  ru_branch :: string
  ru_author_id :: string
  ru_message :: string
  ru_git_head :: git_head
  ru_main_pack :: git_pool_pack
  ru_changes :: "reviewed_content_change list"
  ru_previous_config :: "repo_config option"
  ru_config :: repo_config
  ru_open_requests_by_view :: "(view_id, nat) btree_map"

datatype reviewed_update_error =
  BadRequest string | UpdateConflict string | InvalidPolicy policy_error | DomainFailure domain_error

record reviewed_update_authorization =
  rau_access :: repository_access
  rau_push_mode :: push_mode
  rau_current_config :: repo_config
  rau_proposed_config :: repo_config

definition authorize_reviewed_update :: "reviewed_update_authorization \<Rightarrow> (domain_error, unit) result" where
  "authorize_reviewed_update a =
     (case rau_push_mode a of
        PushDenied \<Rightarrow>
          Err (forbidden (if ra_actor (rau_access a) = ActorPublic then ''repo membership required''
                          else ''push permission required''))
      | ThroughView view \<Rightarrow>
          Err (forbidden (''pushes to main through the '' @ view_str view @ '' view land as requests''))
      | _ \<Rightarrow>
          if \<not> ra_can_change_file_visibility (rau_access a) \<and> rau_current_config a \<noteq> rau_proposed_config a
          then Err (forbidden ''file visibility permission required'')
          else Ok ())"

datatype request_merge_origin =
  MergeCanonical string string
| MergeView string view_id string "string list" string "native_request_commit list"

definition into_logical_origin :: "request_merge_origin \<Rightarrow> logical_commit_origin" where
  "into_logical_origin origin =
     (case origin of
        MergeCanonical request_id request_head_oid \<Rightarrow> PrivateRequestMerge request_id request_head_oid
      | MergeView request_id view base_oid parent_oids request_head_oid commits \<Rightarrow>
          RequestMerge \<lparr>rm_request_id = request_id, rm_view = view, rm_base_oid = base_oid,
            rm_parent_oids = parent_oids, rm_request_head_oid = request_head_oid,
            rm_preserve_commits = True, rm_commits = commits\<rparr>)"

definition main_pack_conflict :: "main_pack_advance_error \<Rightarrow> reviewed_update_error" where
  "main_pack_conflict error = UpdateConflict
     (case error of
        SequenceOverflow \<Rightarrow> ''Git push sequence overflow''
      | NotNextSequence \<Rightarrow> ''Git push does not advance the current main head''
      | WrongPrerequisites \<Rightarrow> ''Git push does not advance the current main head''
      | WrongOwner \<Rightarrow> ''Git push main pack does not match the logical head''
      | WrongHead \<Rightarrow> ''Git push main pack does not match the logical head'')"

section \<open>Policies and views of the next configuration\<close>

definition policy_from_config_for_tree ::
  "repo_config \<Rightarrow> scope_path list \<Rightarrow> (reviewed_update_error, policy) result" where
  "policy_from_config_for_tree config paths =
     map_err InvalidPolicy
       (Policy_add_rules (Policy_new (rcf_default (rc_files config)))
         (map (\<lambda>path. \<lparr>lr_path = path, lr_view = label_for_path config path\<rparr>) paths))"

definition visibility_shape :: "views \<Rightarrow> (view_id, view_includes \<times> view_readers) btree_map" where
  "visibility_shape views =
     bt_collect (map (\<lambda>d. (vd_id d, vd_includes d, vd_readers d)) (view_defs views))"

definition view_removal_refusal ::
  "repository \<Rightarrow> repo_config \<Rightarrow> views \<Rightarrow> view_id \<Rightarrow> (view_id, nat) btree_map \<Rightarrow> string option" where
  "view_removal_refusal repo new old_views removed open_requests =
     (if removed = Views_full old_views then Some ''it is the full view''
      else if \<exists>member \<in> set (co_members (rp_collaboration repo)). mp_view (mem_permissions member) = removed
      then Some ''members are still assigned to it''
      else if (case bt_get open_requests removed of Some n \<Rightarrow> n > 0 | None \<Rightarrow> False)
      then Some ''requests are still open in it''
      else if \<exists>path \<in> fst ` set (rp_live_files repo). Policy_label (rp_policy repo) path old_views = removed
      then Some ''files are still labelled with it''
      else if \<exists>rule \<in> set (rcf_rules (rc_files new)). rcr_view rule = removed
      then Some ''a file rule still names it''
      else if rcf_default (rc_files new) = removed then Some ''it is still the default label for new files''
      else None)"

definition ensure_view_removable ::
  "repository \<Rightarrow> repo_config \<Rightarrow> views \<Rightarrow> view_id \<Rightarrow> (view_id, nat) btree_map \<Rightarrow> (domain_error, unit) result" where
  "ensure_view_removable repo new old_views removed open_requests =
     (case view_removal_refusal repo new old_views removed open_requests of
        Some reason \<Rightarrow>
          Err (conflict (''view '' @ Views_display_name old_views removed @ '' cannot be removed because '' @ reason))
      | None \<Rightarrow> Ok ())"

definition views_transition_of ::
  "repository \<Rightarrow> repo_config \<Rightarrow> (view_id, nat) btree_map \<Rightarrow> (domain_error, views_transition option) result" where
  "views_transition_of repo new open_requests =
     (let old_views = rc_views (rp_config repo); after = rc_views new in
      if visibility_shape old_views = visibility_shape after then Ok None
      else and_then
        (check_all (\<lambda>removed. ensure_view_removable repo new old_views removed open_requests)
          (filter (\<lambda>i. Views_get after i = None) (map vd_id (view_defs old_views))))
        (\<lambda>_. Ok (Some \<lparr>vt_before = old_views, vt_after = after\<rparr>)))"

section \<open>History rewrites\<close>

definition should_redact :: "history_rewrite_request list \<Rightarrow> scope_path \<Rightarrow> bool" where
  "should_redact rewrites path \<longleftrightarrow>
     (\<exists>rewrite \<in> set rewrites. hr_action rewrite = RedactPublicHistory
        \<and> HistoryRewriteRequest_matches_path rewrite path)"

definition native_paths :: "logical_commit_origin \<Rightarrow> scope_path list" where
  "native_paths origin =
     (case origin of RequestMerge m \<Rightarrow> concat (map nrc_changed_paths (rm_commits m)) | _ \<Rightarrow> [])"

definition commit_matches_rewrite :: "history_rewrite_request list \<Rightarrow> logical_commit \<Rightarrow> bool" where
  "commit_matches_rewrite rewrites commit \<longleftrightarrow>
     (\<exists>path \<in> set (native_paths (lc_origin commit)). should_redact rewrites path)
     \<or> (\<exists>change \<in> set (lc_changes commit). fc_label change = ViewId_public \<and> should_redact rewrites (fc_path change))"

text \<open>
  The index from which native commits are no longer preserved: the least over the matching commits and the
  positions after the anchors of the matching sets. \<^verbatim>\<open>commit_indexes\<close> keeps the last index of a repeated id.
\<close>

definition commit_index :: "logical_commit list \<Rightarrow> string \<Rightarrow> nat option" where
  "commit_index commits i = map_of (rev (map (\<lambda>(index, commit). (lc_id commit, index)) (enumerate 0 commits))) i"

definition min_index :: "nat \<Rightarrow> nat option \<Rightarrow> nat option" where
  "min_index index current = Some (case current of None \<Rightarrow> index | Some c \<Rightarrow> min c index)"

definition invalidate_preservation_from ::
  "history_rewrite_request list \<Rightarrow> logical_commit list \<Rightarrow> visibility_change_set list \<Rightarrow> nat option" where
  "invalidate_preservation_from rewrites commits sets =
     (let from_commits = fold (\<lambda>(index, commit) current.
            if commit_matches_rewrite rewrites commit then min_index index current else current)
            (enumerate 0 commits) None
      in fold (\<lambda>s current.
           if \<exists>change \<in> set (vs_changes s). should_redact rewrites (vc_path change)
           then min_index (case Option.bind (vs_anchor_commit_id s) (commit_index commits) of
                             None \<Rightarrow> 0 | Some i \<Rightarrow> i + 1) current
           else current) sets from_commits)"

definition redact_change :: "history_rewrite_request list \<Rightarrow> file_change \<Rightarrow> file_change" where
  "redact_change rewrites change =
     (if fc_label change = ViewId_public \<and> should_redact rewrites (fc_path change)
      then change\<lparr>fc_label := ViewId_private\<rparr> else change)"

definition redact_commit ::
  "history_rewrite_request list \<Rightarrow> nat option \<Rightarrow> nat \<times> logical_commit \<Rightarrow> logical_commit" where
  "redact_commit rewrites invalid_from = (\<lambda>(index, commit).
     commit\<lparr>lc_origin :=
        (case lc_origin commit of
           RequestMerge m \<Rightarrow>
             RequestMerge (if (case invalid_from of Some first_bad \<Rightarrow> index \<ge> first_bad | None \<Rightarrow> False)
                           then m\<lparr>rm_preserve_commits := False\<rparr> else m)
         | origin \<Rightarrow> origin),
       lc_changes := map (redact_change rewrites) (lc_changes commit)\<rparr>)"

definition redacted_by_commit :: "history_rewrite_request list \<Rightarrow> logical_commit \<Rightarrow> scope_path list" where
  "redacted_by_commit rewrites commit =
     filter (should_redact rewrites) (native_paths (lc_origin commit))
     @ map fc_path (filter (\<lambda>change. fc_label change = ViewId_public \<and> should_redact rewrites (fc_path change))
         (lc_changes commit))"

definition redacted_by_set :: "history_rewrite_request list \<Rightarrow> visibility_change_set \<Rightarrow> scope_path list" where
  "redacted_by_set rewrites s = filter (should_redact rewrites) (map vc_path (vs_changes s))"

definition redact_set :: "history_rewrite_request list \<Rightarrow> visibility_change_set \<Rightarrow> visibility_change_set" where
  "redact_set rewrites s = s\<lparr>vs_changes := filter (\<lambda>change. \<not> should_redact rewrites (vc_path change)) (vs_changes s)\<rparr>"

record history_rewrite_result =
  hw_visibility_changes :: "visibility_change list"
  hw_redacted_paths :: "scope_path btree_set"

definition apply_history_rewrites ::
  "repository \<Rightarrow> repo_config \<Rightarrow> history_rewrite_request list \<Rightarrow> file_tree \<Rightarrow> scope_path set
   \<Rightarrow> repository \<times> history_rewrite_result" where
  "apply_history_rewrites repo config rewrites live_tree changed_paths =
     (if rewrites = [] then (repo, \<lparr>hw_visibility_changes = [], hw_redacted_paths = []\<rparr>)
      else let
        commits = sg_commits (rp_graph repo);
        invalid_from = invalidate_preservation_from rewrites commits (rp_sets repo);
        redacted = bt_set (concat (map (redacted_by_commit rewrites) commits)
                     @ concat (map (redacted_by_set rewrites) (rp_sets repo)));
        repo' = repo\<lparr>rp_graph := (rp_graph repo)\<lparr>sg_commits := map (redact_commit rewrites invalid_from) (enumerate 0 commits)\<rparr>,
                     rp_sets := filter (\<lambda>s. vs_changes s \<noteq> [] \<or> vs_views s \<noteq> None)
                       (map (redact_set rewrites) (rp_sets repo))\<rparr>;
        baseline = List.map_filter (\<lambda>path.
          if path \<in> changed_paths \<or> label_for_path config path \<noteq> ViewId_public then None
          else map_option (\<lambda>content. \<lparr>vc_path = path, vc_old_label = ViewId_private,
                 vc_new_label = ViewId_public, vc_current_content = Some content\<rparr>) (bt_get live_tree path)) redacted
      in (repo', \<lparr>hw_visibility_changes = baseline, hw_redacted_paths = redacted\<rparr>))"

section \<open>File changes\<close>

definition source_content_matches :: "source_blob option \<Rightarrow> source_blob option \<Rightarrow> bool" where
  "source_content_matches left right =
     (case (left, right) of
        (Some l, Some r) \<Rightarrow> sb_sha256 l = sb_sha256 r \<and> sb_git_oid l = sb_git_oid r
          \<and> sb_git_file_mode l = sb_git_file_mode r \<and> sb_size_bytes l = sb_size_bytes r
      | (None, None) \<Rightarrow> True
      | _ \<Rightarrow> False)"

datatype written_file_visibility = FromConfig | ExistingFromPolicy

definition written_label ::
  "policy \<Rightarrow> repo_config \<Rightarrow> written_file_visibility \<Rightarrow> source_blob option \<Rightarrow> reviewed_content_change \<Rightarrow> view_id" where
  "written_label pol config mode old change =
     (case (rcc_content change, mode, old) of
        (None, _, _) \<Rightarrow> Policy_label pol (rcc_path change) (rc_views config)
      | (Some _, ExistingFromPolicy, Some _) \<Rightarrow> Policy_label pol (rcc_path change) (rc_views config)
      | (Some _, _, _) \<Rightarrow> label_for_path config (rcc_path change))"

definition build_file_changes ::
  "file_tree \<Rightarrow> policy \<Rightarrow> repo_config \<Rightarrow> reviewed_content_change list \<Rightarrow> written_file_visibility
   \<Rightarrow> file_change list" where
  "build_file_changes live_tree pol config changes mode =
     map (\<lambda>change. \<lparr>fc_path = rcc_path change,
             fc_old_content = bt_get live_tree (rcc_path change),
             fc_new_content = rcc_content change,
             fc_label = written_label pol config mode (bt_get live_tree (rcc_path change)) change\<rparr>)
       (filter (\<lambda>change. \<not> source_content_matches (bt_get live_tree (rcc_path change)) (rcc_content change)) changes)"

definition apply_file_change :: "file_change \<Rightarrow> file_tree \<Rightarrow> file_tree" where
  "apply_file_change change tree =
     (case fc_new_content change of
        Some content \<Rightarrow> bt_insert (fc_path change) content tree
      | None \<Rightarrow> bt_remove (fc_path change) tree)"

section \<open>Merged requests\<close>

text \<open>The ancestor-first walk over the native commits of a merge.\<close>

definition check_parent ::
  "string set \<Rightarrow> string set \<Rightarrow> string \<Rightarrow> string set \<Rightarrow> string \<Rightarrow> (reviewed_update_error, unit) result" where
  "check_parent range_oids view_parent_oids view_name seen parent_oid =
     (if parent_oid \<in> range_oids then
        (if parent_oid \<in> seen then Ok ()
         else Err (UpdateConflict ''request merge native commits are not ordered ancestor-first''))
      else if parent_oid \<notin> view_parent_oids then
        Err (DomainFailure (conflict (''request merge contains a parent outside '' @ view_name @ '' history'')))
      else Ok ())"

fun check_ancestry ::
  "string set \<Rightarrow> string set \<Rightarrow> string \<Rightarrow> string set \<Rightarrow> native_request_commit list
   \<Rightarrow> (reviewed_update_error, unit) result" where
  "check_ancestry range_oids view_parent_oids view_name seen [] = Ok ()"
| "check_ancestry range_oids view_parent_oids view_name seen (commit # commits) =
     and_then (check_all (check_parent range_oids view_parent_oids view_name seen) (nrc_parent_oids commit)) (\<lambda>_.
       check_ancestry range_oids view_parent_oids view_name (insert (nrc_oid commit) seen) commits)"

definition malformed_native_facts :: "request_merge_origin_facts \<Rightarrow> bool" where
  "malformed_native_facts m \<longleftrightarrow>
     \<not> distinct (map nrc_oid (rm_commits m))
     \<or> rm_parent_oids m = [] \<or> \<not> distinct (rm_parent_oids m) \<or> [] \<in> set (rm_parent_oids m)
     \<or> (\<exists>commit \<in> set (rm_commits m). nrc_oid commit = [] \<or> nrc_tree_oid commit = []
          \<or> nrc_parent_oids commit = [] \<or> [] \<in> set (nrc_parent_oids commit))"

definition validate_commit_origin ::
  "logical_commit_origin \<Rightarrow> file_change list \<Rightarrow> repo_config \<Rightarrow> (reviewed_update_error, unit) result" where
  "validate_commit_origin origin changes config =
     (case origin of
        RequestMerge m \<Rightarrow>
          (let views = rc_views config;
               view = rm_view m;
               editable = (\<lambda>path label. label \<in> Views_labels views view \<and> \<not> is_request_protected_path path);
               touched = concat (map nrc_changed_paths (rm_commits m));
               base_is_parent = (\<exists>commit \<in> set (rm_commits m). rm_base_oid m \<in> set (nrc_parent_oids commit))
           in
           if Views_get views view = None \<or> view = Views_full views then
             Err (UpdateConflict ''request merge preserves commits only for a view narrower than the full view'')
           else if \<exists>change \<in> set changes. \<not> editable (fc_path change) (fc_label change) then
             Err (UpdateConflict ''request merge contains changes outside its view'')
           else if rm_commits m = [] then
             Err (UpdateConflict ''request merge has no native commits'')
           else if nrc_oid (last (rm_commits m)) \<noteq> rm_request_head_oid m then
             Err (UpdateConflict ''request merge native commits do not end at request head'')
           else if malformed_native_facts m then
             Err (UpdateConflict ''request merge contains malformed native commit facts'')
           else if (\<exists>path \<in> set touched. \<not> editable path (label_for_path config path))
                   \<or> (\<exists>change \<in> set changes. fc_path change \<notin> set touched) then
             Err (UpdateConflict ''request merge native paths do not cover the logical changes'')
           else and_then
             (check_ancestry (set (map nrc_oid (rm_commits m))) (set (rm_parent_oids m))
               (Views_display_name views view) {} (rm_commits m))
             (\<lambda>_. if \<not> base_is_parent \<or> rm_base_oid m \<notin> set (rm_parent_oids m) then
                    Err (UpdateConflict
                      ''request merge does not include its view's current base as a parent'')
                  else Ok ()))
      | _ \<Rightarrow> Ok ())"

section \<open>Content pushes\<close>

record content_push_state =
  cps_change_version :: u64
  cps_content_version :: u64
  cps_policy :: policy
  cps_repo_config :: repo_config
  cps_live_files :: file_tree
  cps_git_head :: "git_head option"

record accepted_content_push =
  acp_change_version :: u64
  acp_content_version :: u64
  acp_policy :: policy
  acp_git_head :: git_head
  acp_main_pack :: git_pool_pack
  acp_logical_commit :: logical_commit

text \<open>The policy after a content push: rules of deleted files go, new files get the rule of the configuration.\<close>

definition content_policy ::
  "policy \<Rightarrow> repo_config \<Rightarrow> file_change list \<Rightarrow> (reviewed_update_error, policy) result" where
  "content_policy pol config file_changes =
     (let removed = fold (\<lambda>change p.
            if fc_old_content change \<noteq> None \<and> fc_new_content change = None
            then Policy_remove_rule p (fc_path change) else p) file_changes pol
      in map_err InvalidPolicy (Policy_add_rules removed
           (map (\<lambda>change. \<lparr>lr_path = fc_path change, lr_view = label_for_path config (fc_path change)\<rparr>)
             (filter (\<lambda>change. fc_old_content change = None \<and> fc_new_content change \<noteq> None) file_changes))))"

definition accept_content_update ::
  "content_push_state \<Rightarrow> reviewed_update_input \<Rightarrow> bool \<Rightarrow> logical_commit_origin
   \<Rightarrow> (reviewed_update_error, accepted_content_push) result" where
  "accept_content_update state update allow_unchanged_tree origin =
     and_then (map_err main_pack_conflict
       (validate_main_pack_advance (cps_git_head state) (ru_git_head update) (ru_main_pack update))) (\<lambda>_.
     if ru_changes update = [] \<and> \<not> allow_unchanged_tree then
       Err (BadRequest ''update must include file changes'')
     else if ru_config update \<noteq> cps_repo_config state then
       Err (UpdateConflict ''repo config changed since review; rerun scope push --main'')
     else let file_changes = build_file_changes (cps_live_files state) (cps_policy state) (ru_config update)
                (ru_changes update) ExistingFromPolicy
       in if file_changes = [] \<and> \<not> allow_unchanged_tree then
            Err (BadRequest ''update did not change the live tree'')
          else and_then (validate_commit_origin origin file_changes (ru_config update)) (\<lambda>_.
          and_then (content_policy (cps_policy state) (ru_config update) file_changes) (\<lambda>pol.
            let change_version = saturating_add (cps_change_version state) 1;
                content_version = saturating_add (cps_content_version state) 1;
                logical_id = (if allow_unchanged_tree then ''rv_merge'' else ''rv_push'') @ ''_''
                  @ gh_head_oid (ru_git_head update)
            in Ok \<lparr>acp_change_version = change_version, acp_content_version = content_version,
                   acp_policy = pol,
                   acp_git_head = (ru_git_head update)\<lparr>gh_change_version := change_version\<rparr>,
                   acp_main_pack = ru_main_pack update,
                   acp_logical_commit =
                     \<lparr>lc_occurred_at_unix = ru_occurred_at_unix update, lc_id = logical_id, lc_origin = origin,
                      lc_author_id = ru_author_id update, lc_message = ru_message update,
                      lc_changes = file_changes\<rparr>\<rparr>)))"

definition accept_content_push ::
  "content_push_state \<Rightarrow> reviewed_update_input \<Rightarrow> (reviewed_update_error, accepted_content_push) result" where
  "accept_content_push state update =
     accept_content_update state update False (CanonicalPush (gh_head_oid (ru_git_head update)))"

definition accept_request_merge ::
  "content_push_state \<Rightarrow> reviewed_update_input \<Rightarrow> request_merge_origin
   \<Rightarrow> (reviewed_update_error, accepted_content_push) result" where
  "accept_request_merge state update origin =
     accept_content_update state update True (into_logical_origin origin)"

definition push_state :: "repository \<Rightarrow> content_push_state" where
  "push_state repo =
     \<lparr>cps_change_version = rr_change_version (rp_record repo),
      cps_content_version = rr_content_version (rp_record repo),
      cps_policy = rp_policy repo, cps_repo_config = rp_config repo,
      cps_live_files = rp_live_files repo, cps_git_head = rp_git_head repo\<rparr>"

definition apply_accepted_content_push :: "repository \<Rightarrow> accepted_content_push \<Rightarrow> repository \<times> git_pool_pack" where
  "apply_accepted_content_push repo accepted =
     (repo\<lparr>rp_live_files := fold apply_file_change (lc_changes (acp_logical_commit accepted)) (rp_live_files repo),
           rp_record := (rp_record repo)\<lparr>rr_change_version := acp_change_version accepted,
             rr_content_version := acp_content_version accepted, rr_lifecycle_state := RepoReady\<rparr>,
           rp_policy := acp_policy accepted,
           rp_graph := (rp_graph repo)\<lparr>sg_commits := sg_commits (rp_graph repo) @ [acp_logical_commit accepted]\<rparr>,
           rp_git_head := Some (acp_git_head accepted),
           rp_first_push_token := None\<rparr>,
      acp_main_pack accepted)"

definition apply_content_only_update ::
  "repository \<Rightarrow> reviewed_update_input \<Rightarrow> (reviewed_update_error, repository \<times> git_pool_pack) result" where
  "apply_content_only_update repo update =
     and_then (accept_content_push (push_state repo) update) (\<lambda>accepted.
       Ok (apply_accepted_content_push repo accepted))"

definition apply_request_merge_to_repo ::
  "repository \<Rightarrow> reviewed_update_input \<Rightarrow> request_merge_origin
   \<Rightarrow> (reviewed_update_error, repository \<times> git_pool_pack) result" where
  "apply_request_merge_to_repo repo update origin =
     and_then (accept_request_merge (push_state repo) update origin) (\<lambda>accepted.
       Ok (apply_accepted_content_push repo accepted))"

section \<open>Pushes that change the configuration\<close>

text \<open>The label changes of the files of a tree between the current policy and the next configuration.\<close>

definition label_changes ::
  "repository \<Rightarrow> repo_config \<Rightarrow> (scope_path \<Rightarrow> view_id \<Rightarrow> view_id \<Rightarrow> bool) \<Rightarrow> file_tree \<Rightarrow> visibility_change list" where
  "label_changes repo config skipped tree =
     List.map_filter (\<lambda>(path, content).
       let old_label = Policy_label (rp_policy repo) path (rc_views (rp_config repo));
           new_label = label_for_path config path
       in if old_label = new_label \<or> skipped path old_label new_label then None
          else Some \<lparr>vc_path = path, vc_old_label = old_label, vc_new_label = new_label,
                     vc_current_content = Some content\<rparr>) tree"

definition push_change_set ::
  "string \<Rightarrow> string option \<Rightarrow> string option \<Rightarrow> string \<Rightarrow> int option \<Rightarrow> visibility_change list
   \<Rightarrow> views_transition option \<Rightarrow> repository \<Rightarrow> (reviewed_update_error, repository) result" where
  "push_change_set set_id anchor source_update author occurred_at changes views repo =
     (if changes = [] \<and> views = None then Ok repo
      else and_then (map_err UpdateConflict
          (VisibilityChangeSet_new set_id anchor source_update author changes views)) (\<lambda>s.
        Ok (repo\<lparr>rp_sets := rp_sets repo @ [s\<lparr>vs_occurred_at_unix := occurred_at\<rparr>]\<rparr>)))"

definition last_commit_id :: "source_graph \<Rightarrow> string option" where
  "last_commit_id graph = (if sg_commits graph = [] then None else Some (lc_id (last (sg_commits graph))))"

definition redact_deletion :: "scope_path list \<Rightarrow> file_change \<Rightarrow> file_change" where
  "redact_deletion redacted change =
     (if fc_new_content change = None \<and> fc_path change \<in> set redacted
      then change\<lparr>fc_label := ViewId_private\<rparr> else change)"

text \<open>The push once its file changes are known and the views transition is allowed.\<close>

definition apply_config_push ::
  "repository \<Rightarrow> reviewed_update_input \<Rightarrow> views_transition option \<Rightarrow> file_change list
   \<Rightarrow> (reviewed_update_error, repository \<times> git_pool_pack) result" where
  "apply_config_push repo update views file_changes0 =
     (let old_tree = rp_live_files repo;
          new_tree = fold apply_file_change file_changes0 old_tree;
          config = ru_config update;
          logical_id = ''rv_push_'' @ gh_head_oid (ru_git_head update);
          (repo1, rewrite) = apply_history_rewrites repo config
            (history_rewrites_added_since config (ru_previous_config update)) old_tree (fc_path ` set file_changes0);
          file_changes = map (redact_deletion (hw_redacted_paths rewrite)) file_changes0;
          baseline = hw_visibility_changes rewrite;
          skipped = (\<lambda>path old_label new_label.
            path \<in> vc_path ` set baseline
            \<or> (path \<in> set (hw_redacted_paths rewrite) \<and> old_label = ViewId_public \<and> new_label = ViewId_private)
            \<or> (old_label = ViewId_public \<and> new_label = ViewId_private \<and> bt_get old_tree path = None));
          changes = baseline @ label_changes repo1 config skipped new_tree
      in and_then (policy_from_config_for_tree config (map fst new_tree)) (\<lambda>next_policy.
         and_then (push_change_set
           (visibility_change_set_id (unat (saturating_add (rr_change_version (rp_record repo)) 1)))
           (last_commit_id (rp_graph repo)) (Some logical_id) (ru_author_id update)
           (ru_occurred_at_unix update) changes views repo1) (\<lambda>repo2.
           let commit = \<lparr>lc_occurred_at_unix = ru_occurred_at_unix update, lc_id = logical_id,
                 lc_origin = CanonicalPush (gh_head_oid (ru_git_head update)),
                 lc_author_id = ru_author_id update, lc_message = ru_message update, lc_changes = file_changes\<rparr>;
               repo3 = repo2\<lparr>rp_graph := (rp_graph repo2)\<lparr>sg_commits := sg_commits (rp_graph repo2) @ [commit]\<rparr>,
                 rp_live_files := new_tree, rp_policy := next_policy, rp_config := config,
                 rp_git_head := Some (ru_git_head update), rp_first_push_token := None,
                 rp_record := (rp_record repo2)\<lparr>rr_lifecycle_state := RepoReady\<rparr>\<rparr>
           in Ok (bump_content_version repo3, ru_main_pack update))))"

definition apply_reviewed_update_to_repo ::
  "repository \<Rightarrow> reviewed_update_input \<Rightarrow> (reviewed_update_error, repository \<times> git_pool_pack) result" where
  "apply_reviewed_update_to_repo repo update =
     and_then (map_err main_pack_conflict
       (validate_main_pack_advance (rp_git_head repo) (ru_git_head update) (ru_main_pack update))) (\<lambda>_.
     if ru_changes update = [] then Err (BadRequest ''update must include file changes'')
     else if ru_config update = rp_config repo \<and> ru_previous_config update = Some (rp_config repo) then
       apply_content_only_update repo update
     else and_then (map_err DomainFailure
         (views_transition_of repo (ru_config update) (ru_open_requests_by_view update))) (\<lambda>views.
       let file_changes = build_file_changes (rp_live_files repo) (rp_policy repo) (ru_config update)
             (ru_changes update) FromConfig
       in if file_changes = [] then Err (BadRequest ''update did not change the live tree'')
          else apply_config_push repo update views file_changes))"

section \<open>Configuration changes\<close>

record reviewed_config_update_input =
  rcu_occurred_at_unix :: int
  rcu_author_id :: string
  rcu_config :: repo_config
  rcu_open_requests_by_view :: "(view_id, nat) btree_map"

definition apply_reviewed_config_to_repo ::
  "repository \<Rightarrow> reviewed_config_update_input \<Rightarrow> (reviewed_update_error, repository \<times> bool) result" where
  "apply_reviewed_config_to_repo repo update =
     (if rp_config repo = rcu_config update then Ok (repo, False)
      else and_then (map_err DomainFailure
          (views_transition_of repo (rcu_config update) (rcu_open_requests_by_view update))) (\<lambda>views.
        let live_tree = rp_live_files repo;
            config = rcu_config update;
            (repo1, rewrite) = apply_history_rewrites repo config
              (history_rewrites_added_since config (Some (rp_config repo))) live_tree {};
            baseline = hw_visibility_changes rewrite;
            skipped = (\<lambda>path old_label new_label.
              path \<in> vc_path ` set baseline
              \<or> (path \<in> set (hw_redacted_paths rewrite) \<and> old_label = ViewId_public \<and> new_label = ViewId_private));
            changes = baseline @ label_changes repo1 config skipped live_tree
        in and_then (policy_from_config_for_tree config (map fst live_tree)) (\<lambda>next_policy.
           and_then (push_change_set
             (visibility_change_set_id (unat (saturating_add (rr_change_version (rp_record repo)) 1)))
             (last_commit_id (rp_graph repo)) None (rcu_author_id update)
             (Some (rcu_occurred_at_unix update)) changes views
             (repo1\<lparr>rp_policy := next_policy, rp_config := config\<rparr>)) (\<lambda>repo2.
             Ok (bump_content_version repo2, True)))))"

end
