(* ===== verification/View_Trees.thy ===== *)
theory View_Trees
  imports Reviewed_Updates
begin

text \<open>
  The tree of a view. Starting from a new repository, every accepted push, merge and configuration change keeps
  what a view sees in step with the live files: folding the projection of a view gives exactly the live files
  whose label the view shows (\<open>projection_is_live_tree\<close>).

  The proof keeps \<open>in_step\<close>: the fold of the history reaches views that show what the configured views show, the
  labelled tree of the live files, and for each narrower view the files it shows of that tree.
\<close>

section \<open>Writing a list of changes into an ordered map\<close>

definition bt_write :: "'k::linorder \<times> 'v option \<Rightarrow> ('k, 'v) btree_map \<Rightarrow> ('k, 'v) btree_map" where
  "bt_write w m = (case snd w of Some v \<Rightarrow> bt_insert (fst w) v m | None \<Rightarrow> bt_remove (fst w) m)"

lemma bt_ok_write [wf_intros]: "bt_ok m \<Longrightarrow> bt_ok (bt_write w m)"
  by (simp add: bt_write_def wf_intros split: option.split)

lemma bt_ok_writes [wf_intros]: "bt_ok m \<Longrightarrow> bt_ok (fold bt_write ws m)"
  by (induction ws arbitrary: m) (simp_all add: wf_intros)

lemma bt_get_write: "bt_ok m \<Longrightarrow> bt_get (bt_write w m) = (bt_get m)(fst w := snd w)"
  by (simp add: bt_write_def bt_simps split: option.split)

lemma bt_get_writes:
  assumes "bt_ok m" and "distinct (map fst ws)"
  shows "bt_get (fold bt_write ws m) k = (case map_of ws k of None \<Rightarrow> bt_get m k | Some v \<Rightarrow> v)"
  using assms
proof (induction ws arbitrary: m)
  case (Cons w ws)
  have "map_of ws (fst w) = None" using Cons.prems(2) by (simp add: map_of_eq_None_iff)
  then show ?case
    using Cons by (cases w) (auto simp: bt_ok_write bt_get_write split: option.split)
qed simp

text \<open>Lists of changes read as maps from paths.\<close>

definition at_path :: "('c \<Rightarrow> scope_path) \<Rightarrow> 'c list \<Rightarrow> scope_path \<Rightarrow> 'c option" where
  "at_path path cs p = map_of (map (\<lambda>c. (path c, c)) cs) p"

lemma map_of_at_path: "map_of (map (\<lambda>c. (path c, f c)) cs) p = map_option f (at_path path cs p)"
  by (induction cs) (auto simp: at_path_def)

lemma at_path_SomeD: "at_path path cs p = Some c \<Longrightarrow> c \<in> set cs \<and> path c = p"
  by (auto simp: at_path_def dest: map_of_SomeD)

lemma at_path_None_iff: "at_path path cs p = None \<longleftrightarrow> p \<notin> path ` set cs"
  by (simp add: at_path_def map_of_eq_None_iff image_image)

lemma at_path_member: "distinct (map path cs) \<Longrightarrow> c \<in> set cs \<Longrightarrow> at_path path cs (path c) = Some c"
  by (auto simp: at_path_def comp_def intro!: map_of_is_SomeI)

lemma at_path_filter:
  "distinct (map path cs) \<Longrightarrow>
   at_path path (filter P cs) p = (case at_path path cs p of Some c \<Rightarrow> if P c then Some c else None | None \<Rightarrow> None)"
  by (induction cs) (auto simp: at_path_def map_of_eq_None_iff rev_image_eqI split: option.split dest: map_of_SomeD)

lemma at_path_append: "at_path path (xs @ ys) p = (case at_path path xs p of Some c \<Rightarrow> Some c | None \<Rightarrow> at_path path ys p)"
  by (auto simp: at_path_def map_add_def split: option.splits)

lemma get_written_by:
  assumes step: "\<And>c m. step c m = bt_write (path c, f c) m" and "bt_ok t" and "distinct (map path cs)"
  shows "bt_get (fold step cs t) p = (case at_path path cs p of None \<Rightarrow> bt_get t p | Some c \<Rightarrow> f c)"
    and "bt_ok (fold step cs t)"
proof -
  have "step = bt_write \<circ> (\<lambda>c. (path c, f c))" by (simp add: fun_eq_iff step)
  then have fold: "fold step cs t = fold bt_write (map (\<lambda>c. (path c, f c)) cs) t"
    by (simp add: fold_map)
  have "distinct (map fst (map (\<lambda>c. (path c, f c)) cs))" using assms(3) by (simp add: comp_def)
  from bt_get_writes [OF assms(2) this] show "bt_get (fold step cs t) p
    = (case at_path path cs p of None \<Rightarrow> bt_get t p | Some c \<Rightarrow> f c)"
    unfolding fold by (simp add: map_of_at_path split: option.split)
  show "bt_ok (fold step cs t)" unfolding fold using assms(2) by (rule bt_ok_writes)
qed

lemma changes_as_writes:
  "apply_file_change c m = bt_write (fc_path c, fc_new_content c) m"
  "LabelledTree_apply_change c t = bt_write (fc_path c, map_option (\<lambda>b. (b, fc_label c)) (fc_new_content c)) t"
  "apply_projected_change d m = bt_write (pc_path d, pc_new_content d) m"
  by (simp_all add: apply_file_change_def bt_write_def split: option.split)

declare apply_projected_change.simps [simp del] LabelledTree_apply_change.simps [simp del]

lemmas get_apply_file_changes = get_written_by [OF changes_as_writes(1)]
  and get_projected_changes = get_written_by [OF changes_as_writes(3)]

lemma get_apply_commit:
  assumes "bt_ok t" and "distinct (map fc_path (lc_changes c))"
  shows "bt_get (LabelledTree_apply_commit c t) p
    = (case at_path fc_path (lc_changes c) p of
         None \<Rightarrow> bt_get t p | Some f \<Rightarrow> map_option (\<lambda>b. (b, fc_label f)) (fc_new_content f))"
    and "bt_ok (LabelledTree_apply_commit c t)"
  unfolding LabelledTree_apply_commit_def
  using get_written_by [OF changes_as_writes(2) assms] by blast+

lemma relabel_list:
  "LabelledTree_relabel s t = map (\<lambda>(p, b, l). (p, b, fold (\<lambda>c l. if p = vc_path c then vc_new_label c else l) (vs_changes s) l)) t"
proof -
  have "fold LabelledTree_relabel_change cs t
      = map (\<lambda>(p, b, l). (p, b, fold (\<lambda>c l. if p = vc_path c then vc_new_label c else l) cs l)) t" for cs
    by (induction cs arbitrary: t) (auto simp: case_prod_beta)
  then show ?thesis by (simp add: LabelledTree_relabel_def)
qed

lemma get_relabel:
  assumes "distinct (map vc_path (vs_changes s))"
  shows "bt_get (LabelledTree_relabel s t) p
    = map_option (\<lambda>(b, l). (b, case at_path vc_path (vs_changes s) p of None \<Rightarrow> l | Some c \<Rightarrow> vc_new_label c)) (bt_get t p)"
    and "bt_ok (LabelledTree_relabel s t) \<longleftrightarrow> bt_ok t"
proof -
  have "fold (\<lambda>c l. if p = vc_path c then vc_new_label c else l) cs l
      = (case at_path vc_path cs p of None \<Rightarrow> l | Some c \<Rightarrow> vc_new_label c)" if "distinct (map vc_path cs)" for cs l
    using that
  proof (induction cs arbitrary: l)
    case (Cons c cs)
    then have "p = vc_path c \<Longrightarrow> at_path vc_path cs p = None" by (simp add: at_path_None_iff)
    with Cons show ?case by (auto simp: at_path_def)
  qed (simp add: at_path_def)
  note labels = this [OF assms]
  have "map_of (map (\<lambda>(p, b, l). (p, b, f p l)) t) p = map_option (\<lambda>(b, l). (b, f p l)) (map_of t p)"
    for f :: "scope_path \<Rightarrow> view_id \<Rightarrow> view_id"
    by (induction t) auto
  from this [of "\<lambda>p l. fold (\<lambda>c l. if p = vc_path c then vc_new_label c else l) (vs_changes s) l"] labels
  show "bt_get (LabelledTree_relabel s t) p
    = map_option (\<lambda>(b, l). (b, case at_path vc_path (vs_changes s) p of None \<Rightarrow> l | Some c \<Rightarrow> vc_new_label c)) (bt_get t p)"
    by (simp add: relabel_list bt_get_def)
  show "bt_ok (LabelledTree_relabel s t) \<longleftrightarrow> bt_ok t"
    by (simp add: relabel_list bt_ok_def comp_def case_prod_beta)
qed

section \<open>Views of the same shape show the same\<close>

lemma map_of_rev_distinct: "distinct (map fst xs) \<Longrightarrow> map_of (rev xs) = map_of xs"
proof (induction xs)
  case (Cons x xs)
  then have "map_of xs (fst x) = None" by (simp add: map_of_eq_None_iff)
  with Cons show ?case by (cases x) (auto simp: fun_eq_iff map_add_def split: option.split)
qed simp

lemma shape_get:
  assumes "views_ok v"
  shows "bt_get (visibility_shape v) i = map_option (\<lambda>d. (vd_includes d, vd_readers d)) (Views_get v i)"
proof -
  let ?xs = "map (\<lambda>d. (vd_id d, vd_includes d, vd_readers d)) (view_defs v)"
  have "distinct (map fst ?xs)" using assms by (simp add: views_ok_def comp_def)
  then have "map_of (rev ?xs) = map_of ?xs" by (rule map_of_rev_distinct)
  moreover have "map_of (map (\<lambda>d. (vd_id d, vd_includes d, vd_readers d)) ds) i
      = map_option (\<lambda>d. (vd_includes d, vd_readers d)) (find (\<lambda>d. vd_id d = i) ds)" for ds
    by (induction ds) auto
  ultimately show ?thesis
    by (simp add: visibility_shape_def bt_get_collect Views_get_def)
qed

lemma Views_ids: "views_ok v \<Longrightarrow> i \<in> vd_id ` set (view_defs v) \<longleftrightarrow> Views_get v i \<noteq> None"
  by (auto simp: Views_get_def find_None_iff)

lemma same_shape_shows:
  assumes "views_ok v" and "views_ok w" and "visibility_shape v = visibility_shape w"
  shows "Views_shows v = Views_shows w"
proof -
  have g: "map_option vd_includes (Views_get v i) = map_option vd_includes (Views_get w i)" for i
  proof -
    have "map_option (\<lambda>d. (vd_includes d, vd_readers d)) (Views_get v i)
        = map_option (\<lambda>d. (vd_includes d, vd_readers d)) (Views_get w i)"
      using shape_get [OF assms(1), of i] shape_get [OF assms(2), of i] assms(3) by simp
    then show ?thesis by (cases "Views_get v i"; cases "Views_get w i") auto
  qed
  then have none: "Views_get v i = None \<longleftrightarrow> Views_get w i = None" for i
    by (metis option.map_disc_iff)
  have ids: "set (map vd_id (view_defs v)) = set (map vd_id (view_defs w))"
    using Views_ids [OF assms(1)] Views_ids [OF assms(2)] none by (simp add: set_eq_iff)
  have "set (included_by v i) = set (included_by w i)" for i
  proof (cases "Views_get v i")
    case None
    then show ?thesis using none [of i] by (simp add: included_by_def)
  next
    case (Some d)
    then obtain e where "Views_get w i = Some e" "vd_includes e = vd_includes d"
      using g [of i] by (cases "Views_get w i") auto
    with Some ids show ?thesis by (cases "vd_includes d") (simp_all add: included_by_def)
  qed
  then have "include_rel v = include_rel w" by (simp add: include_rel_def)
  then show ?thesis
    using full_found(2) [OF assms(1)] full_found(2) [OF assms(2)]
    by (simp add: fun_eq_iff Views_shows_def labels_closure)
qed

section \<open>Where a new step lands in the history\<close>

abbreviation commit_ids :: "source_graph \<Rightarrow> string list" where
  "commit_ids g \<equiv> map lc_id (sg_commits g)"

text \<open>Commit ids are unique, sets are anchored to commits of the graph, and so are their source updates.\<close>

definition anchored :: "source_graph \<Rightarrow> visibility_change_set list \<Rightarrow> bool" where
  "anchored g sets \<longleftrightarrow> distinct (commit_ids g)
     \<and> (\<forall>s \<in> set sets. (case vs_anchor_commit_id s of None \<Rightarrow> True | Some i \<Rightarrow> i \<in> set (commit_ids g)))
     \<and> (\<forall>s \<in> set sets. (case vs_source_update_id s of None \<Rightarrow> True | Some i \<Rightarrow> i \<in> set (commit_ids g)))"

lemma emit_commits_distinct:
  "distinct (map lc_id cs) \<Longrightarrow>
   emit_commits f cs = concat (map (\<lambda>c. StepCommit c # map StepSet (f (lc_id c))) cs)"
proof (induction cs arbitrary: f)
  case (Cons c cs)
  have "lc_id d \<noteq> lc_id c" if "d \<in> set cs" for d
    using Cons.prems imageI [OF that, of lc_id] by auto
  then have "concat (map (\<lambda>d. StepCommit d # map StepSet ((f(lc_id c := [])) (lc_id d))) cs)
      = concat (map (\<lambda>d. StepCommit d # map StepSet (f (lc_id d))) cs)"
    by (intro arg_cong [where f = concat] map_cong) simp_all
  moreover have "emit_commits (f(lc_id c := [])) cs
      = concat (map (\<lambda>d. StepCommit d # map StepSet ((f(lc_id c := [])) (lc_id d))) cs)"
    using Cons by simp
  ultimately show ?case by (simp del: fun_upd_apply)
qed simp

abbreviation add_commit :: "logical_commit \<Rightarrow> source_graph \<Rightarrow> source_graph" where
  "add_commit c g \<equiv> g\<lparr>sg_commits := sg_commits g @ [c]\<rparr>"

lemma fold_steps_add_commit:
  assumes "distinct (commit_ids g)" and "lc_id c \<notin> set (commit_ids g)"
    and "\<And>s. s \<in> set sets \<Longrightarrow> vs_anchor_commit_id s \<noteq> Some (lc_id c)"
  shows "fold_steps (add_commit c g) sets = fold_steps g sets @ [StepCommit c]"
proof -
  have a: "anchored_in (add_commit c g) s = anchored_in g s" if "s \<in> set sets" for s
    using assms(3) [OF that] by (auto simp: anchored_in_def split: option.splits)
  have "anchored_in g s \<noteq> Some (lc_id c)" for s
    using assms(2) by (simp add: anchored_in_def split: option.splits) metis
  with a have last: "filter (\<lambda>s. anchored_in (add_commit c g) s = Some (lc_id c)) sets = []"
    by (auto simp: filter_empty_conv)
  have f: "filter (\<lambda>s. anchored_in (add_commit c g) s = x) sets = filter (\<lambda>s. anchored_in g s = x) sets" for x
    using a by (auto intro: filter_cong)
  have "distinct (map lc_id (sg_commits g @ [c]))" using assms(1,2) by simp
  then show ?thesis
    using assms(1) last f by (simp add: fold_steps_def emit_commits_distinct)
qed

lemma fold_steps_add_set:
  assumes "distinct (commit_ids g)" and "vs_anchor_commit_id s = last_commit_id g"
  shows "fold_steps g (sets @ [s]) = fold_steps g sets @ [StepSet s]"
proof (cases "sg_commits g" rule: rev_cases)
  case Nil
  then show ?thesis
    using assms(2) by (simp add: fold_steps_def anchored_in_def last_commit_id_def)
next
  case (snoc cs c)
  have a: "anchored_in g s = Some (lc_id c)"
    using assms(2) snoc by (simp add: anchored_in_def last_commit_id_def)
  have "lc_id c \<noteq> lc_id d" if "d \<in> set cs" for d
    using assms(1) snoc imageI [OF that, of lc_id] by auto
  then have "concat (map (\<lambda>d. StepCommit d # map StepSet (filter (\<lambda>s. anchored_in g s = Some (lc_id d)) (sets @ [s]))) cs)
      = concat (map (\<lambda>d. StepCommit d # map StepSet (filter (\<lambda>s. anchored_in g s = Some (lc_id d)) sets)) cs)"
    using a by (intro arg_cong [where f = concat] map_cong) auto
  with a show ?thesis
    using assms(1) snoc by (simp add: fold_steps_def emit_commits_distinct)
qed

lemma commits_by_id_lookup:
  assumes "distinct (commit_ids g)"
  shows "commits_by_id g i = find (\<lambda>c. lc_id c = i) (sg_commits g)"
proof -
  have "map_of (rev (map (\<lambda>c. (lc_id c, c)) (sg_commits g))) = map_of (map (\<lambda>c. (lc_id c, c)) (sg_commits g))"
    using assms by (intro map_of_rev_distinct) (simp add: comp_def)
  moreover have "map_of (map (\<lambda>c. (lc_id c, c)) cs) i = find (\<lambda>c. lc_id c = i) cs" for cs
    by (induction cs) auto
  ultimately show ?thesis by (simp add: commits_by_id_def)
qed

lemma commits_by_id_add:
  assumes "distinct (commit_ids g)" and "lc_id c \<notin> set (commit_ids g)"
  shows "commits_by_id (add_commit c g) = (commits_by_id g)(lc_id c \<mapsto> c)"
proof -
  have "find (\<lambda>d. lc_id d = i) (cs @ [c]) = (case find (\<lambda>d. lc_id d = i) cs of
      Some d \<Rightarrow> Some d | None \<Rightarrow> if lc_id c = i then Some c else None)" for i cs
    by (induction cs) auto
  moreover have "find (\<lambda>d. lc_id d = lc_id c) (sg_commits g) = None"
    using assms(2) by (simp add: find_None_iff image_iff) metis
  ultimately show ?thesis
    using assms by (auto simp: fun_eq_iff commits_by_id_lookup split: option.split)
qed

section \<open>What one step adds to a view, path by path\<close>

lemma at_path_map:
  assumes "\<And>c. c \<in> set cs \<Longrightarrow> path' (f c) = path c"
  shows "at_path path' (map f cs) p = map_option f (at_path path cs p)"
  using assms by (induction cs) (auto simp: at_path_def)

lemma visible_at_path:
  assumes "distinct (map fc_path (lc_changes c))"
  shows "at_path pc_path (visible_changes v view c) p
    = (case at_path fc_path (lc_changes c) p of
         Some fc \<Rightarrow> if Views_shows v view p (fc_label fc) then Some (projected_of fc) else None
       | None \<Rightarrow> None)"
    and "distinct (map pc_path (visible_changes v view c))"
proof -
  have "at_path pc_path (visible_changes v view c) p = map_option projected_of
      (at_path fc_path (filter (\<lambda>change. Views_shows v view (fc_path change) (fc_label change)) (lc_changes c)) p)"
    unfolding visible_changes_def by (rule at_path_map) (simp add: projected_of_def)
  then show "at_path pc_path (visible_changes v view c) p
    = (case at_path fc_path (lc_changes c) p of
         Some fc \<Rightarrow> if Views_shows v view p (fc_label fc) then Some (projected_of fc) else None
       | None \<Rightarrow> None)"
    using assms by (auto simp: at_path_filter dest: at_path_SomeD split: option.split)
  have "map pc_path (visible_changes v view c)
      = map fc_path (filter (\<lambda>change. Views_shows v view (fc_path change) (fc_label change)) (lc_changes c))"
    by (simp add: visible_changes_def projected_of_def comp_def)
  then show "distinct (map pc_path (visible_changes v view c))"
    using assms by (simp add: distinct_map_filter)
qed

text \<open>A list in which every element contributes at most one change, at its own path.\<close>

lemma at_path_concat:
  assumes "\<And>c d. c \<in> set cs \<Longrightarrow> d \<in> set (f c) \<Longrightarrow> path' d = path c" and "distinct (map path cs)"
    and "\<And>c. c \<in> set cs \<Longrightarrow> length (f c) \<le> 1"
  shows "at_path path' (concat (map f cs)) p
      = (case at_path path cs p of None \<Rightarrow> None | Some c \<Rightarrow> (case f c of [] \<Rightarrow> None | d # _ \<Rightarrow> Some d))"
    and "distinct (map path' (concat (map f cs)))"
  using assms
proof (induction cs)
  case (Cons c cs)
  {
    case 1
    have IH: "at_path path' (concat (map f cs)) p
      = (case at_path path cs p of None \<Rightarrow> None | Some c \<Rightarrow> (case f c of [] \<Rightarrow> None | d # _ \<Rightarrow> Some d))"
      using Cons.IH(1) 1 by simp
    have p: "path c = p \<Longrightarrow> at_path path cs p = None"
      using 1(2) by (auto simp: at_path_None_iff)
    consider "f c = []" | d where "f c = [d]" "path' d = path c"
      using 1(1) [of c] 1(3) [of c] by (cases "f c") auto
    then show ?case
    proof cases
      case 1
      then show ?thesis using IH p by (auto simp: at_path_def)
    next
      case 2
      then show ?thesis using IH by (simp add: at_path_def)
    qed
  next
    case 2
    have IH: "distinct (map path' (concat (map f cs)))" using Cons.IH(2) 2 by simp
    have new: "path c \<notin> path' ` set (concat (map f cs))"
    proof
      assume "path c \<in> path' ` set (concat (map f cs))"
      then obtain c' d where c': "c' \<in> set cs" "d \<in> set (f c')" "path c = path' d" by auto
      then have "path c = path c'" using 2(1) [of c' d] by simp
      moreover have "path c \<notin> path ` set cs" using 2(2) by simp
      ultimately show False using c'(1) by blast
    qed
    consider "f c = []" | d where "f c = [d]" "path' d = path c"
      using 2(1) [of c] 2(3) [of c] by (cases "f c") auto
    then show ?case
    proof cases
      case 1
      then show ?thesis using IH by simp
    next
      case 2
      then show ?thesis using IH new by simp
    qed
  }
qed (simp_all add: at_path_def)

lemma relabel_paths:
  "d \<in> set (relabel_changes old_views after view u c) \<Longrightarrow> pc_path d = vc_path c"
  "length (relabel_changes old_views after view u c) \<le> 1"
  by (auto simp: relabel_changes_def Let_def split: if_splits option.splits)

lemma transition_paths:
  "d \<in> set (transition_changes old_views after view e) \<Longrightarrow> pc_path d = fst e"
  "length (transition_changes old_views after view e) \<le> 1"
  by (auto simp: transition_changes_def split: if_splits prod.splits)

definition set_before :: "views \<Rightarrow> visibility_change_set \<Rightarrow> views" where
  "set_before v s = (case vs_views s of Some t \<Rightarrow> vt_before t | None \<Rightarrow> v)"

abbreviation first_of :: "'a list \<Rightarrow> 'a option" where
  "first_of xs \<equiv> (case xs of [] \<Rightarrow> None | x # _ \<Rightarrow> Some x)"

definition set_source :: "(string \<rightharpoonup> logical_commit) \<Rightarrow> visibility_change_set \<Rightarrow> logical_commit option" where
  "set_source by_id s = Option.bind (vs_source_update_id s) by_id"

lemma set_changes_at_path:
  assumes "distinct (map vc_path (vs_changes s))" and "bt_ok t"
    and "\<And>c. c \<in> set (vs_changes s) \<Longrightarrow> \<not> is_repo_control_path (vc_path c)"
  shows "at_path pc_path (set_changes by_id view v (Some t) s) p
    = (case at_path vc_path (vs_changes s) p of
         Some c \<Rightarrow> first_of (relabel_changes (set_before v s) (step_views (StepSet s) v) view (set_source by_id s) c)
       | None \<Rightarrow>
           if vs_views s = None then None
           else (case bt_get t p of
                   None \<Rightarrow> None
                 | Some e \<Rightarrow> first_of (transition_changes (set_before v s) (step_views (StepSet s) v) view (p, e))))"
      (is ?at)
    and "distinct (map pc_path (set_changes by_id view v (Some t) s))" (is ?distinct)
proof -
  let ?old_views = "set_before v s" and ?after = "step_views (StepSet s) v" and ?u = "set_source by_id s"
  let ?rel = "concat (map (relabel_changes ?old_views ?after view ?u) (vs_changes s))"
  let ?rest = "filter (\<lambda>(path, _). path \<notin> set (map vc_path (vs_changes s))) t"
  let ?tr = "if vs_views s = None then [] else concat (map (transition_changes ?old_views ?after view) ?rest)"
  have cs: "set_changes by_id view v (Some t) s = ?rel @ ?tr"
    using assms(3) by (simp add: set_changes_def Let_def set_before_def step_views_def set_source_def
        filter_True split: option.split)
  have r: "at_path pc_path ?rel p = (case at_path vc_path (vs_changes s) p of
        None \<Rightarrow> None | Some c \<Rightarrow> first_of (relabel_changes ?old_views ?after view ?u c))"
    "distinct (map pc_path ?rel)"
    using at_path_concat [of "vs_changes s" "relabel_changes ?old_views ?after view ?u" pc_path vc_path]
      relabel_paths assms(1) by blast+
  have d: "distinct (map fst t)" using assms(2) by (rule bt_ok_distinct)
  then have dr: "distinct (map fst ?rest)" by (rule distinct_map_filter)
  have tr: "at_path pc_path (concat (map (transition_changes ?old_views ?after view) ?rest)) p
      = (case at_path fst ?rest p of
           None \<Rightarrow> None | Some e \<Rightarrow> first_of (transition_changes ?old_views ?after view e))"
    "distinct (map pc_path (concat (map (transition_changes ?old_views ?after view) ?rest)))"
    using at_path_concat [of ?rest "transition_changes ?old_views ?after view" pc_path fst]
      transition_paths dr by blast+
  have t_at: "at_path fst t p = map_option (Pair p) (bt_get t p)"
  proof -
    have "map_of (map (\<lambda>e. (fst e, e)) t) p = map_option (Pair p) (map_of t p)" by (induction t) auto
    then show ?thesis by (simp add: at_path_def bt_get_def)
  qed
  have rest_at: "at_path fst ?rest p = (if at_path vc_path (vs_changes s) p = None then map_option (Pair p) (bt_get t p) else None)"
    using at_path_filter [OF d, of "\<lambda>(path, _). path \<notin> set (map vc_path (vs_changes s))" p] t_at
    by (auto simp: at_path_None_iff split: option.splits)
  show ?at
    unfolding cs at_path_append r(1) using tr(1) rest_at
    by (auto simp: at_path_def split: option.splits list.splits)
  have "path \<notin> vc_path ` set (vs_changes s)" if "path \<in> pc_path ` set ?tr" for path
    using that by (auto dest!: transition_paths(1) split: if_splits)
  moreover have "pc_path ` set ?rel \<subseteq> vc_path ` set (vs_changes s)"
    by (auto dest!: relabel_paths(1))
  ultimately have "pc_path ` set ?rel \<inter> pc_path ` set ?tr = {}" by blast
  moreover have "distinct (map pc_path ?tr)" using tr(2) by simp
  ultimately show ?distinct
    unfolding cs map_append distinct_append set_map using r(2) by blast
qed

section \<open>A set and the commit it came with\<close>

definition labelled :: "(scope_path \<Rightarrow> view_id) \<Rightarrow> file_tree \<Rightarrow> labelled_tree" where
  "labelled lab t = map (\<lambda>(p, b). (p, b, lab p)) t"

lemma labelled_get [simp]: "bt_get (labelled lab t) p = map_option (\<lambda>b. (b, lab p)) (bt_get t p)"
  unfolding labelled_def bt_get_def by (induction t) auto

lemma labelled_ok [simp]: "bt_ok (labelled lab t) \<longleftrightarrow> bt_ok t"
  by (simp add: labelled_def bt_ok_def comp_def case_prod_beta)

lemma view_files_get:
  assumes "bt_ok t"
  shows "bt_get (LabelledTree_view_files t v view) p
    = (case bt_get t p of Some (b, l) \<Rightarrow> if Views_shows v view p l then Some b else None | None \<Rightarrow> None)"
    and "bt_ok (LabelledTree_view_files t v view)"
proof -
  have "map_of (map (\<lambda>(path, blob, label). (path, blob)) (filter (\<lambda>(path, blob, label). Views_shows v view path label) t)) p
      = (case map_of t p of Some (b, l) \<Rightarrow> if Views_shows v view p l then Some b else None | None \<Rightarrow> None)"
    using bt_ok_distinct [OF assms]
    by (induction t) (auto split: option.split simp: rev_image_eqI dest: map_of_SomeD)
  then show "bt_get (LabelledTree_view_files t v view) p
    = (case bt_get t p of Some (b, l) \<Rightarrow> if Views_shows v view p l then Some b else None | None \<Rightarrow> None)"
    by (simp add: LabelledTree_view_files_def bt_get_def)
  have "map fst (LabelledTree_view_files t v view) = map fst (filter (\<lambda>(path, blob, label). Views_shows v view path label) t)"
    by (simp add: LabelledTree_view_files_def comp_def case_prod_beta)
  with bt_ok_filter [OF assms, of "\<lambda>(path, blob, label). Views_shows v view path label"]
  show "bt_ok (LabelledTree_view_files t v view)" by (simp add: bt_ok_def)
qed

text \<open>
  What an update promises about its set and its commit: \<open>lab\<close> and \<open>live\<close> are the labels and files before,
  \<open>lab'\<close> and \<open>live'\<close> those after.
\<close>

definition sound_update ::
  "(scope_path \<Rightarrow> view_id) \<Rightarrow> file_tree \<Rightarrow> (scope_path \<Rightarrow> view_id) \<Rightarrow> file_tree
   \<Rightarrow> visibility_change_set \<Rightarrow> logical_commit \<Rightarrow> bool" where
  "sound_update lab live lab' live' s c \<longleftrightarrow>
     bt_ok live \<and> live' = fold apply_file_change (lc_changes c) live
     \<and> distinct (map fc_path (lc_changes c)) \<and> distinct (map vc_path (vs_changes s))
     \<and> (\<forall>f \<in> set (lc_changes c). fc_label f =
          (if fc_new_content f = None then lab (fc_path f) else lab' (fc_path f))
          \<and> (fc_new_content f = None \<longrightarrow> bt_get live (fc_path f) \<noteq> None))
     \<and> (\<forall>d \<in> set (vs_changes s). \<not> is_repo_control_path (vc_path d)
          \<and> vc_new_label d = lab' (vc_path d)
          \<and> vc_current_content d = bt_get live' (vc_path d) \<and> bt_get live' (vc_path d) \<noteq> None
          \<and> (bt_get live (vc_path d) \<noteq> None \<longrightarrow> vc_old_label d = lab (vc_path d)))
     \<and> (\<forall>p. bt_get live p \<noteq> None \<and> bt_get live' p \<noteq> None \<and> p \<notin> vc_path ` set (vs_changes s) \<longrightarrow> lab' p = lab p)"

lemma sound_updateD:
  assumes "sound_update lab live lab' live' s c"
  shows "bt_ok live" "bt_ok live'" "distinct (map fc_path (lc_changes c))" "distinct (map vc_path (vs_changes s))"
    and "bt_get live' p = (case at_path fc_path (lc_changes c) p of None \<Rightarrow> bt_get live p | Some f \<Rightarrow> fc_new_content f)"
    and "at_path fc_path (lc_changes c) p = Some f \<Longrightarrow>
      fc_label f = (if fc_new_content f = None then lab p else lab' p) \<and> (fc_new_content f = None \<longrightarrow> bt_get live p \<noteq> None)"
    and "at_path vc_path (vs_changes s) p = Some d \<Longrightarrow> \<not> is_repo_control_path p \<and> vc_path d = p \<and> vc_new_label d = lab' p
      \<and> vc_current_content d = bt_get live' p \<and> bt_get live' p \<noteq> None
      \<and> (bt_get live p \<noteq> None \<longrightarrow> vc_old_label d = lab p)"
    and "at_path vc_path (vs_changes s) p = None \<Longrightarrow> bt_get live p \<noteq> None \<Longrightarrow> bt_get live' p \<noteq> None \<Longrightarrow> lab' p = lab p"
    and "d \<in> set (vs_changes s) \<Longrightarrow> \<not> is_repo_control_path (vc_path d)"
proof -
  note a = assms [unfolded sound_update_def]
  show ok: "bt_ok live" "distinct (map fc_path (lc_changes c))" "distinct (map vc_path (vs_changes s))" using a by blast+
  have live': "live' = fold apply_file_change (lc_changes c) live" using a by blast
  show "bt_ok live'" unfolding live' using ok(1,2) by (rule get_apply_file_changes(2))
  show "bt_get live' p = (case at_path fc_path (lc_changes c) p of None \<Rightarrow> bt_get live p | Some f \<Rightarrow> fc_new_content f)"
    unfolding live' using ok(1,2) by (rule get_apply_file_changes(1))
  show "fc_label f = (if fc_new_content f = None then lab p else lab' p) \<and> (fc_new_content f = None \<longrightarrow> bt_get live p \<noteq> None)"
    if "at_path fc_path (lc_changes c) p = Some f"
    using at_path_SomeD [OF that] a by blast
  show "\<not> is_repo_control_path p \<and> vc_path d = p \<and> vc_new_label d = lab' p
      \<and> vc_current_content d = bt_get live' p \<and> bt_get live' p \<noteq> None
      \<and> (bt_get live p \<noteq> None \<longrightarrow> vc_old_label d = lab p)" if "at_path vc_path (vs_changes s) p = Some d"
    using at_path_SomeD [OF that] a by blast
  show "lab' p = lab p" if "at_path vc_path (vs_changes s) p = None" "bt_get live p \<noteq> None" "bt_get live' p \<noteq> None"
    using that a unfolding at_path_None_iff by blast
  show "\<not> is_repo_control_path (vc_path d)" if "d \<in> set (vs_changes s)" using that a by blast
qed

lemma update_tree:
  assumes "sound_update lab live lab' live' s c"
  shows "LabelledTree_apply_commit c (LabelledTree_relabel s (labelled lab live)) = labelled lab' live'"
proof (rule bt_eqI)
  note D = sound_updateD [OF assms]
  have ok: "bt_ok (LabelledTree_relabel s (labelled lab live))" using D(1) get_relabel(2) [OF D(4)] by simp
  show "bt_ok (LabelledTree_apply_commit c (LabelledTree_relabel s (labelled lab live)))"
    using ok D(3) by (rule get_apply_commit(2))
  show "bt_ok (labelled lab' live')" using D(2) by simp
  show "bt_get (LabelledTree_apply_commit c (LabelledTree_relabel s (labelled lab live))) = bt_get (labelled lab' live')"
  proof
    fix p
    show "bt_get (LabelledTree_apply_commit c (LabelledTree_relabel s (labelled lab live))) p = bt_get (labelled lab' live') p"
      unfolding get_apply_commit(1) [OF ok D(3)] get_relabel(1) [OF D(4)] labelled_get D(5) [of p]
      using D(6) [of p] D(7) [of p] D(8) [of p] D(5) [of p]
      by (cases "at_path fc_path (lc_changes c) p"; cases "at_path vc_path (vs_changes s) p"; cases "bt_get live p") auto
  qed
qed

text \<open>The content a view ends up with at one path after the set and the commit.\<close>

lemma relabel_first:
  assumes "vc_path d = p"
  shows "map_option pc_new_content (first_of (relabel_changes old_views after view u d))
    = (if \<not> Views_shows old_views view p (vc_old_label d) \<and> Views_shows after view p (vc_new_label d)
         \<and> \<not> shown_by_update old_views view u p
       then map_option Some (vc_current_content d)
       else if Views_shows old_views view p (vc_old_label d) \<and> \<not> Views_shows after view p (vc_new_label d)
       then Some None else None)"
  using assms by (auto simp: relabel_changes_def Let_def split: option.split)

lemma transition_first:
  "map_option pc_new_content (first_of (transition_changes old_views after view (p, b, l)))
    = (if \<not> Views_shows old_views view p l \<and> Views_shows after view p l then Some (Some b)
       else if Views_shows old_views view p l \<and> \<not> Views_shows after view p l then Some None else None)"
  by (simp add: transition_changes_def)

lemma update_view:
  fixes v s by_id view
  defines "old_views \<equiv> set_before v s" and "after \<equiv> step_views (StepSet s) v"
  assumes "sound_update lab live lab' live' s c" and "Views_shows old_views = Views_shows v"
    and "set_source by_id s \<in> {None, Some c}"
  shows "fold apply_projected_change
      (set_changes by_id view v (Some (labelled lab live)) s @ visible_changes after view c)
      (LabelledTree_view_files (labelled lab live) v view)
    = LabelledTree_view_files (labelled lab' live') after view"
    (is "fold _ (?set @ ?vis) ?F = ?R")
proof (rule bt_eqI)
  note D = sound_updateD [OF assms(3)]
  have T: "bt_ok (labelled lab live)" "bt_ok (labelled lab' live')" using D(1,2) by simp_all
  note F = view_files_get [OF T(1), of v view]
  note at = set_changes_at_path [OF D(4) T(1) D(9), of by_id view v, folded old_views_def after_def]
  note S = get_projected_changes [OF F(2) at(2)]
  note V = visible_at_path [OF D(3), of after view]
  note G = get_projected_changes [OF S(2) V(2)]
  show "bt_ok (fold apply_projected_change (?set @ ?vis) ?F)" using G(2) by simp
  show "bt_ok ?R" by (rule view_files_get(2) [OF T(2)])
  show "bt_get (fold apply_projected_change (?set @ ?vis) ?F) = bt_get ?R"
  proof
    fix p
    define sh where "sh = Views_shows after view p"
    define so where "so = Views_shows v view p"
    have bv: "Views_shows old_views view p = so" by (simp add: so_def assms(4))
    have same: "sh = so" if "vs_views s = None"
      using that by (simp add: sh_def so_def after_def step_views_def)
    define E where "E = map_option pc_new_content (at_path pc_path ?set p)"
    have lhs: "bt_get (fold apply_projected_change (?set @ ?vis) ?F) p
      = (case at_path fc_path (lc_changes c) p of
           Some f \<Rightarrow> if sh (fc_label f) then fc_new_content f
             else (case E of None \<Rightarrow> bt_get ?F p | Some y \<Rightarrow> y)
         | None \<Rightarrow> (case E of None \<Rightarrow> bt_get ?F p | Some y \<Rightarrow> y))"
      by (simp add: G(1) S(1) V(1) sh_def E_def projected_of_def split: option.split)
    have Fp: "bt_get ?F p = (case bt_get live p of Some b \<Rightarrow> if so (lab p) then Some b else None | None \<Rightarrow> None)"
      by (simp add: F(1) so_def split: option.split)
    have Rp: "bt_get ?R p = (case bt_get live' p of Some b \<Rightarrow> if sh (lab' p) then Some b else None | None \<Rightarrow> None)"
      by (simp add: view_files_get(1) [OF T(2)] sh_def split: option.split)
    have set_p: "E =
       (case at_path vc_path (vs_changes s) p of
          Some d \<Rightarrow>
            if \<not> so (vc_old_label d) \<and> sh (vc_new_label d) \<and> \<not> shown_by_update old_views view (set_source by_id s) p
            then map_option Some (vc_current_content d)
            else if so (vc_old_label d) \<and> \<not> sh (vc_new_label d) then Some None else None
        | None \<Rightarrow>
            if vs_views s = None then None
            else (case bt_get live p of
                    None \<Rightarrow> None
                  | Some b \<Rightarrow> if \<not> so (lab p) \<and> sh (lab p) then Some (Some b)
                      else if so (lab p) \<and> \<not> sh (lab p) then Some None else None))"
      using D(7) [of p] bv
      by (auto simp: E_def at(1) relabel_first transition_first sh_def split: option.splits)
    have upd: "at_path fc_path (lc_changes c) p \<noteq> None" if "shown_by_update old_views view (set_source by_id s) p"
      using that assms(5) by (auto simp: shown_by_update_def at_path_None_iff split: option.splits)
    show "bt_get (fold apply_projected_change (?set @ ?vis) ?F) p = bt_get ?R p"
    proof (cases "at_path vc_path (vs_changes s) p")
      case None
      then show ?thesis
        unfolding lhs Rp set_p Fp D(5) [of p]
        using D(6) [of p] D(8) [of p] D(5) [of p] same
        by (cases "at_path fc_path (lc_changes c) p"; cases "bt_get live p"; cases "vs_views s = None") auto
    next
      case (Some d)
      note d = D(7) [OF Some]
      then obtain b where b: "bt_get live' p = Some b" "vc_current_content d = Some b" by auto
      show ?thesis
      proof (cases "at_path fc_path (lc_changes c) p")
        case None
        then have "bt_get live p = Some b" using b(1) D(5) [of p] by simp
        then show ?thesis
          unfolding lhs Rp set_p Fp
          using None Some d b upd by auto
      next
        case (Some f)
        then have "fc_new_content f = Some b" using b(1) D(5) [of p] by simp
        moreover from this have "fc_label f = lab' p" using D(6) [OF Some] by simp
        ultimately show ?thesis
          unfolding lhs Rp set_p Fp
          using Some \<open>at_path vc_path (vs_changes s) p = Some d\<close> d b
          by (cases "bt_get live p") auto
      qed
    qed
  qed
qed

section \<open>What only depends on what the views show\<close>

lemma step_changes_cong:
  assumes "Views_shows v = Views_shows w"
    and "\<And>s. step = StepSet s \<Longrightarrow> set_source by_id s = set_source by_id' s"
  shows "step_changes by_id view v t step = step_changes by_id' view w t step"
proof (cases step)
  case (StepCommit c)
  then show ?thesis using assms(1) by (simp add: step_changes_def visible_changes_def)
next
  case (StepSet s)
  have r: "relabel_changes v v view = relabel_changes w w view"
    unfolding relabel_changes_def [abs_def] shown_by_update_def [abs_def] assms(1) ..
  show ?thesis
    using assms(2) [OF StepSet] r StepSet
    by (cases "vs_views s") (simp_all add: step_changes_def set_changes_def set_source_def Let_def)
qed

lemma step_views_cong:
  "Views_shows v = Views_shows w \<Longrightarrow> Views_shows (step_views step v) = Views_shows (step_views step w)"
  by (simp add: step_views_def split: fold_step.split option.split)

lemma fold_step_views_cong:
  "Views_shows v = Views_shows w \<Longrightarrow> Views_shows (fold step_views steps v) = Views_shows (fold step_views steps w)"
proof (induction steps arbitrary: v w)
  case (Cons step steps)
  have "Views_shows (step_views step v) = Views_shows (step_views step w)"
    using Cons.prems by (rule step_views_cong)
  from Cons.IH [OF this] show ?case by simp
qed simp

lemma emitted_cong:
  assumes "Views_shows v = Views_shows w"
    and "\<And>s. StepSet s \<in> set steps \<Longrightarrow> set_source by_id s = set_source by_id' s"
  shows "emitted by_id view v t steps = emitted by_id' view w t steps"
  using assms
proof (induction steps arbitrary: v w t)
  case (Cons step steps)
  have "Views_shows (step_views step v) = Views_shows (step_views step w)"
    using Cons.prems(1) by (rule step_views_cong)
  moreover have "step_changes by_id view v t step = step_changes by_id' view w t step"
    using Cons.prems by (intro step_changes_cong) auto
  ultimately show ?case using Cons.IH Cons.prems(2) by simp
qed simp

section \<open>The invariant\<close>

definition in_step_with ::
  "(string \<rightharpoonup> logical_commit) \<Rightarrow> views \<Rightarrow> fold_step list \<Rightarrow> views \<Rightarrow> labelled_tree \<Rightarrow> bool" where
  "in_step_with by_id v0 steps views tree \<longleftrightarrow>
     Views_shows (fold step_views steps v0) = Views_shows views
     \<and> fold step_tree steps [] = tree
     \<and> (\<forall>view. fold apply_projected_change (emitted by_id view v0 [] steps) [] = LabelledTree_view_files tree views view)"

lemma in_step_update:
  assumes "in_step_with by_id v0 steps views (labelled lab live)"
    and "sound_update lab live lab' live' s c" and "set_source by_id s \<in> {None, Some c}"
    and "Views_shows (set_before views s) = Views_shows views"
    and "Views_shows (step_views (StepSet s) views) = Views_shows views'"
  shows "in_step_with by_id v0 (steps @ [StepSet s, StepCommit c]) views' (labelled lab' live')"
proof -
  let ?v = "fold step_views steps v0"
  have sv: "Views_shows ?v = Views_shows views" and tr: "fold step_tree steps [] = labelled lab live"
    and em: "\<And>view. fold apply_projected_change (emitted by_id view v0 [] steps) []
        = LabelledTree_view_files (labelled lab live) views view"
    using assms(1) by (auto simp: in_step_with_def)
  have vf: "LabelledTree_view_files t v view = LabelledTree_view_files t w view"
    if "Views_shows v = Views_shows w" for t v w view
    using that by (simp add: LabelledTree_view_files_def)
  have b: "Views_shows (set_before ?v s) = Views_shows ?v"
    using assms(4) sv by (simp add: set_before_def split: option.splits)
  have a: "Views_shows (step_views (StepSet s) ?v) = Views_shows views'"
    using step_views_cong [OF sv, of "StepSet s"] assms(5) by simp
  have c: "step_views (StepCommit c) w = w" for w by (simp add: step_views_def)
  have e: "emitted by_id view v0 [] (steps @ [StepSet s, StepCommit c])
      = emitted by_id view v0 [] steps @ set_changes by_id view ?v (Some (labelled lab live)) s
        @ visible_changes (step_views (StepSet s) ?v) view c" for view
    by (simp add: emitted_append tr step_changes_def)
  show ?thesis
    unfolding in_step_with_def
  proof (intro conjI allI)
    show "Views_shows (fold step_views (steps @ [StepSet s, StepCommit c]) v0) = Views_shows views'"
      using a c by simp
    show "fold step_tree (steps @ [StepSet s, StepCommit c]) [] = labelled lab' live'"
      using update_tree [OF assms(2)] tr by simp
    fix view
    have "fold apply_projected_change (emitted by_id view v0 [] (steps @ [StepSet s, StepCommit c])) []
        = fold apply_projected_change (set_changes by_id view ?v (Some (labelled lab live)) s
            @ visible_changes (step_views (StepSet s) ?v) view c)
            (LabelledTree_view_files (labelled lab live) ?v view)"
      by (simp add: e em vf [OF sv])
    also have "\<dots> = LabelledTree_view_files (labelled lab' live') (step_views (StepSet s) ?v) view"
      using assms(2) b assms(3) by (rule update_view)
    finally show "fold apply_projected_change (emitted by_id view v0 [] (steps @ [StepSet s, StepCommit c])) []
        = LabelledTree_view_files (labelled lab' live') views' view"
      by (simp add: vf [OF a])
  qed
qed

text \<open>Steps that change nothing can be left out.\<close>

definition no_set :: visibility_change_set where
  "no_set = \<lparr>vs_occurred_at_unix = None, vs_id = [], vs_anchor_commit_id = None, vs_source_update_id = None,
     vs_author_id = [], vs_changes = [], vs_views = None\<rparr>"

definition no_commit :: logical_commit where
  "no_commit = \<lparr>lc_occurred_at_unix = None, lc_id = [], lc_origin = CanonicalPush [], lc_author_id = [],
     lc_message = [], lc_changes = []\<rparr>"

lemma in_step_without_set:
  assumes "in_step_with by_id v0 (steps @ StepSet s # rest) views tree"
    and "vs_changes s = []" and "vs_views s = None"
  shows "in_step_with by_id v0 (steps @ rest) views tree"
proof -
  have "step_views (StepSet s) w = w" "step_tree (StepSet s) t = t" "step_changes by_id view w t (StepSet s) = []" for w t view
    using assms(2,3) by (simp_all add: step_views_def step_changes_def set_changes_def LabelledTree_relabel_def)
  with assms(1) show ?thesis by (simp add: in_step_with_def emitted_append)
qed

lemma in_step_without_commit:
  assumes "in_step_with by_id v0 (steps @ [StepCommit no_commit]) views tree"
  shows "in_step_with by_id v0 steps views tree"
proof -
  have "step_views (StepCommit no_commit) w = w" "step_tree (StepCommit no_commit) t = t"
    "step_changes by_id view w t (StepCommit no_commit) = []" for w t view
    by (simp_all add: step_views_def step_changes_def visible_changes_def no_commit_def LabelledTree_apply_commit_def)
  with assms show ?thesis by (simp add: in_step_with_def emitted_append)
qed

end
