(* ===== verification/Live_Views.thy ===== *)
theory Live_Views
  imports View_Trees
begin

text \<open>
  Every view of a repository, in step with its live files: \<open>reachable\<close> are the repositories built by reviewed
  pushes, request merges and configuration changes that add no history rewrite, whose diffs name each path once
  and whose commits have fresh ids; \<open>repo_in_step\<close> is their invariant.
\<close>

section \<open>Labels of live files\<close>

definition policy_matches :: "policy \<Rightarrow> repo_config \<Rightarrow> file_tree \<Rightarrow> bool" where
  "policy_matches pol config live \<longleftrightarrow>
     policy_ok pol \<and> (\<forall>p. bt_get live p \<noteq> None \<longrightarrow> rule_map pol p = Some (label_for_path config p))"

lemma Policy_label_at_rule:
  assumes "policy_ok pol" and "rule_map pol p = Some l"
  shows "Policy_label pol p v = (if is_repo_rules_path p then ViewId_public
     else if is_private_control_path p then Views_full v else l)"
proof -
  have "rule_at pol (as_str p) = Some \<lparr>lr_path = p, lr_view = l\<rparr>"
    using assms by (cases p) (simp add: rule_at_lookup)
  then show ?thesis
    by (simp add: Policy_label_def effective_rule_def self_and_ancestors_def Let_def)
qed

lemma live_label:
  assumes "policy_matches pol config live" and "bt_get live p \<noteq> None"
    and "views_ok (rc_views config)" and "views_ok v"
  shows "Policy_label pol p v = label_for_path config p"
proof -
  have r: "policy_ok pol" "rule_map pol p = Some (label_for_path config p)"
    using assms(1,2) by (auto simp: policy_matches_def)
  show ?thesis
    using Policy_label_at_rule [OF r, of v] full_found(2) [OF assms(3)] full_found(2) [OF assms(4)]
    by (auto simp: label_for_path_control)
qed

lemma control_label:
  assumes "is_repo_control_path p" and "views_ok (rc_views config)" and "views_ok v"
  shows "Policy_label pol p v = label_for_path config p"
proof -
  have "is_repo_rules_path p \<or> is_private_control_path p"
    using assms(1) by (simp add: is_private_control_path_def)
  then show ?thesis
    using full_found(2) [OF assms(2)] full_found(2) [OF assms(3)]
    by (auto simp: Policy_label_def label_for_path_control)
qed

subsection \<open>The next policy\<close>

lemma map_of_rules:
  "map_of (rev (map rule_pair (map (\<lambda>p. \<lparr>lr_path = p, lr_view = f p\<rparr>) ps))) p = (if p \<in> set ps then Some (f p) else None)"
proof -
  have "map_of (map (\<lambda>p. (p, f p)) qs) p = (if p \<in> set qs then Some (f p) else None)" for qs
    by (induction qs) auto
  from this [of "rev ps"] show ?thesis by (simp add: rule_pair_def rev_map comp_def)
qed

lemma policy_from_config_matches:
  assumes "policy_from_config_for_tree config (map fst live) = Inr pol" and "bt_ok live"
  shows "policy_matches pol config live"
proof -
  have add: "Policy_add_rules (Policy_new (rcf_default (rc_files config)))
      (map (\<lambda>path. \<lparr>lr_path = path, lr_view = label_for_path config path\<rparr>) (map fst live)) = Inr pol"
    using assms(1) by (simp add: policy_from_config_for_tree_def comp_def)
  note A = Policy_add_rules_OkD [OF add policy_ok_new]
  have "p \<in> set (map fst live)" if "bt_get live p \<noteq> None" for p
    using that by (auto simp: bt_get_def map_of_eq_None_iff)
  with A(1,3) show ?thesis
    unfolding policy_matches_def map_of_rules by (auto simp: map_add_def)
qed

lemma rule_map_remove: "rule_map (Policy_remove_rule pol p) = (rule_map pol)(p := None)"
proof -
  have "map rule_pair (filter (\<lambda>rule. lr_path rule \<noteq> p) rs) = bt_remove p (map rule_pair rs)" for rs
    by (induction rs) (auto simp: bt_remove_def rule_pair_def)
  then show ?thesis by (simp add: rule_map_def Policy_remove_rule_def bt_get_remove)
qed

lemma content_policy_matches:
  assumes "content_policy pol config fs = Inr pol'" and "policy_matches pol config live"
    and "distinct (map fc_path fs)" and "bt_ok live"
    and "\<And>f. f \<in> set fs \<Longrightarrow> fc_old_content f = bt_get live (fc_path f)"
  shows "policy_matches pol' config (fold apply_file_change fs live)"
proof -
  define gone where "gone = (\<lambda>f :: file_change. fc_old_content f \<noteq> None \<and> fc_new_content f = None)"
  define fresh where "fresh = (\<lambda>f :: file_change. fc_old_content f = None \<and> fc_new_content f \<noteq> None)"
  let ?rm = "\<lambda>pol fs. fold (\<lambda>f p. if gone f then Policy_remove_rule p (fc_path f) else p) fs pol"
  have rm: "policy_ok (?rm pol fs) \<and> rule_map (?rm pol fs) p
      = (if p \<in> fc_path ` set (filter gone fs) then None else rule_map pol p)" if "policy_ok pol" for pol fs p
    using that by (induction fs arbitrary: pol) (auto simp: rule_map_remove policy_ok_remove)
  have ok: "policy_ok pol" using assms(2) by (simp add: policy_matches_def)
  have add: "Policy_add_rules (?rm pol fs)
      (map (\<lambda>path. \<lparr>lr_path = path, lr_view = label_for_path config path\<rparr>) (map fc_path (filter fresh fs))) = Inr pol'"
    using assms(1) by (simp add: content_policy_def Let_def comp_def gone_def fresh_def)
  note A = Policy_add_rules_OkD [OF add conjunct1 [OF rm [OF ok]]]
  have "rule_map pol' p = Some (label_for_path config p)" if "bt_get (fold apply_file_change fs live) p \<noteq> None" for p
  proof (cases "at_path fc_path fs p")
    case None
    then have l: "bt_get live p \<noteq> None"
      using \<open>bt_get (fold apply_file_change fs live) p \<noteq> None\<close>
      by (simp add: get_apply_file_changes(1) [OF assms(4,3)])
    have g: "p \<notin> fc_path ` set (filter gone fs)" using None by (auto simp: at_path_None_iff)
    from l have "rule_map pol p = Some (label_for_path config p)" using assms(2) by (simp add: policy_matches_def)
    with g rm [OF ok] show ?thesis unfolding A(3) map_of_rules by (simp add: map_add_def)
  next
    case (Some f)
    then have f: "f \<in> set fs" "fc_path f = p" "fc_new_content f \<noteq> None"
      using \<open>bt_get (fold apply_file_change fs live) p \<noteq> None\<close> at_path_SomeD [OF Some]
      by (auto simp: get_apply_file_changes(1) [OF assms(4,3)])
    show ?thesis
    proof (cases "fresh f")
      case True
      then have "p \<in> set (map fc_path (filter fresh fs))" using f by auto
      then show ?thesis unfolding A(3) map_of_rules by (simp add: map_add_def)
    next
      case False
      then have "bt_get live p \<noteq> None" using f assms(5) [OF f(1)] by (auto simp: fresh_def)
      then have "rule_map pol p = Some (label_for_path config p)" using assms(2) by (simp add: policy_matches_def)
      moreover have "p \<notin> fc_path ` set (filter gone fs)"
      proof
        assume "p \<in> fc_path ` set (filter gone fs)"
        then obtain g where "g \<in> set fs" "fc_path g = p" "gone g" by auto
        then have "g = f" using at_path_member [OF assms(3), of g] Some by simp
        with \<open>gone g\<close> f(3) show False by (simp add: gone_def)
      qed
      ultimately show ?thesis using rm [OF ok] unfolding A(3) map_of_rules by (simp add: map_add_def)
    qed
  qed
  with A(1) show ?thesis by (simp add: policy_matches_def)
qed

section \<open>The changes of an update are sound\<close>

lemma build_file_changes_mem:
  assumes "f \<in> set (build_file_changes live pol config changes mode)"
  shows "fc_old_content f = bt_get live (fc_path f)"
    and "fc_new_content f = None \<Longrightarrow> bt_get live (fc_path f) \<noteq> None"
    and "fc_new_content f = None \<Longrightarrow> fc_label f = Policy_label pol (fc_path f) (rc_views config)"
    and "fc_new_content f \<noteq> None \<Longrightarrow> fc_label f = (if mode = ExistingFromPolicy \<and> bt_get live (fc_path f) \<noteq> None
      then Policy_label pol (fc_path f) (rc_views config) else label_for_path config (fc_path f))"
proof -
  obtain ch where ch: "\<not> source_content_matches (bt_get live (rcc_path ch)) (rcc_content ch)"
    and f: "f = \<lparr>fc_path = rcc_path ch, fc_old_content = bt_get live (rcc_path ch), fc_new_content = rcc_content ch,
      fc_label = written_label pol config mode (bt_get live (rcc_path ch)) ch\<rparr>"
    using assms unfolding build_file_changes_def by auto
  show "fc_old_content f = bt_get live (fc_path f)" using f by simp
  show "fc_new_content f = None \<Longrightarrow> bt_get live (fc_path f) \<noteq> None"
    using f ch by (auto simp: source_content_matches_def split: option.splits)
  show "fc_new_content f = None \<Longrightarrow> fc_label f = Policy_label pol (fc_path f) (rc_views config)"
    using f by (simp add: written_label_def)
  show "fc_new_content f \<noteq> None \<Longrightarrow> fc_label f = (if mode = ExistingFromPolicy \<and> bt_get live (fc_path f) \<noteq> None
      then Policy_label pol (fc_path f) (rc_views config) else label_for_path config (fc_path f))"
    using f by (cases mode) (auto simp: written_label_def split: option.splits)
qed

lemma build_file_changes_distinct:
  "distinct (map rcc_path changes) \<Longrightarrow> distinct (map fc_path (build_file_changes live pol config changes mode))"
  by (simp add: build_file_changes_def comp_def distinct_map_filter)

lemma content_push_sound:
  assumes "policy_matches pol config live" and "views_ok (rc_views config)" and "bt_ok live"
    and "distinct (map rcc_path changes)"
    and "lc_changes c = build_file_changes live pol config changes ExistingFromPolicy"
  shows "sound_update (label_for_path config) live (label_for_path config)
    (fold apply_file_change (lc_changes c) live) no_set c"
proof -
  have "fc_label f = label_for_path config (fc_path f)" "fc_new_content f = None \<longrightarrow> bt_get live (fc_path f) \<noteq> None"
    if "f \<in> set (lc_changes c)" for f
  proof -
    note M = build_file_changes_mem [OF that [unfolded assms(5)]]
    show "fc_new_content f = None \<longrightarrow> bt_get live (fc_path f) \<noteq> None" using M(2) by blast
    show "fc_label f = label_for_path config (fc_path f)"
    proof (cases "bt_get live (fc_path f) = None")
      case True
      then show ?thesis using M(2,4) by auto
    next
      case False
      from live_label [OF assms(1) this assms(2,2)] M(3,4) show ?thesis by (metis)
    qed
  qed
  then show ?thesis
    using assms(3) build_file_changes_distinct [OF assms(4)] assms(5)
    by (simp add: sound_update_def no_set_def)
qed

lemma label_changes_mem:
  assumes "d \<in> set (label_changes repo config skipped tree)" and "bt_ok tree"
  shows "vc_old_label d = Policy_label (rp_policy repo) (vc_path d) (rc_views (rp_config repo))"
    and "vc_new_label d = label_for_path config (vc_path d)" and "vc_old_label d \<noteq> vc_new_label d"
    and "vc_current_content d = bt_get tree (vc_path d)" and "bt_get tree (vc_path d) \<noteq> None"
proof -
  obtain p b where pb: "(p, b) \<in> set tree"
    and d: "d = \<lparr>vc_path = p, vc_old_label = Policy_label (rp_policy repo) p (rc_views (rp_config repo)),
       vc_new_label = label_for_path config p, vc_current_content = Some b\<rparr>"
    and ne: "Policy_label (rp_policy repo) p (rc_views (rp_config repo)) \<noteq> label_for_path config p"
    using assms(1) by (auto simp: label_changes_def List.map_filter_def Let_def split: if_splits)
  have "bt_get tree p = Some b" using pb bt_get_Some_iff [OF assms(2)] by blast
  with d ne show "vc_old_label d = Policy_label (rp_policy repo) (vc_path d) (rc_views (rp_config repo))"
    "vc_new_label d = label_for_path config (vc_path d)" "vc_old_label d \<noteq> vc_new_label d"
    "vc_current_content d = bt_get tree (vc_path d)" "bt_get tree (vc_path d) \<noteq> None" by simp_all
qed

lemma disjoint_from_singleton: "A \<subseteq> {x} \<Longrightarrow> x \<notin> B \<Longrightarrow> C \<subseteq> B \<Longrightarrow> A \<inter> C = {}"
  by blast

lemma label_changes_distinct:
  assumes "bt_ok tree"
  shows "distinct (map vc_path (label_changes repo config skipped tree))"
proof -
  have sub: "vc_path ` set (label_changes repo config skipped t) \<subseteq> fst ` set t" for t
    by (force simp: label_changes_def List.map_filter_def Let_def split: if_splits)
  have "distinct (map fst tree)" using assms by (rule bt_ok_distinct)
  then show ?thesis
  proof (induction tree)
    case (Cons e tree)
    have "label_changes repo config skipped (e # tree) = label_changes repo config skipped [e] @ label_changes repo config skipped tree"
      by (simp add: label_changes_def List.map_filter_def)
    moreover have "distinct (map vc_path (label_changes repo config skipped [e]))"
      by (simp add: label_changes_def List.map_filter_def Let_def split: prod.split)
    moreover have "vc_path ` set (label_changes repo config skipped [e]) \<inter> vc_path ` set (label_changes repo config skipped tree) = {}"
    proof -
      have "vc_path ` set (label_changes repo config skipped [e]) \<subseteq> {fst e}" using sub [of "[e]"] by simp
      moreover have "fst e \<notin> fst ` set tree" using Cons.prems by simp
      ultimately show ?thesis using sub [of tree] by (rule disjoint_from_singleton)
    qed
    moreover have "distinct (map vc_path (label_changes repo config skipped tree))" using Cons by simp
    ultimately show ?case by simp
  qed (simp add: label_changes_def)
qed

lemma label_changes_complete:
  assumes "bt_ok tree" and "bt_get tree p \<noteq> None" and "p \<notin> vc_path ` set (label_changes repo config skipped tree)"
  shows "Policy_label (rp_policy repo) p (rc_views (rp_config repo)) = label_for_path config p
    \<or> skipped p (Policy_label (rp_policy repo) p (rc_views (rp_config repo))) (label_for_path config p)"
proof (rule ccontr)
  assume n: "\<not> ?thesis"
  obtain b where "(p, b) \<in> set tree" using assms(1,2) bt_get_Some_iff [OF assms(1)] by blast
  with n have "\<lparr>vc_path = p, vc_old_label = Policy_label (rp_policy repo) p (rc_views (rp_config repo)),
       vc_new_label = label_for_path config p, vc_current_content = Some b\<rparr> \<in> set (label_changes repo config skipped tree)"
    by (force simp: label_changes_def List.map_filter_def Let_def)
  with assms(3) show False by force
qed

text \<open>
  An update that relabels: the set lists the files of the next tree whose label changes, apart from paths that
  were not live before.
\<close>

lemma relabel_sound:
  assumes "policy_matches (rp_policy repo) (rp_config repo) (rp_live_files repo)" and "bt_ok (rp_live_files repo)"
    and "views_ok (rc_views (rp_config repo))" and "views_ok (rc_views config)"
    and "distinct (map fc_path (lc_changes c))"
    and live': "live' = fold apply_file_change (lc_changes c) (rp_live_files repo)"
    and changes: "vs_changes s = label_changes repo config skipped live'"
    and skip: "\<And>p old new. skipped p old new \<Longrightarrow> bt_get (rp_live_files repo) p = None"
    and commit: "\<And>f. f \<in> set (lc_changes c) \<Longrightarrow>
      (fc_new_content f = None \<longrightarrow> bt_get (rp_live_files repo) (fc_path f) \<noteq> None
         \<and> fc_label f = Policy_label (rp_policy repo) (fc_path f) (rc_views config))
      \<and> (fc_new_content f \<noteq> None \<longrightarrow> fc_label f = label_for_path config (fc_path f))"
  shows "sound_update (label_for_path (rp_config repo)) (rp_live_files repo) (label_for_path config) live' s c"
proof -
  let ?live = "rp_live_files repo"
  have ok': "bt_ok live'" unfolding live' using assms(2,5) by (rule get_apply_file_changes(2))
  have old: "Policy_label (rp_policy repo) p v = label_for_path (rp_config repo) p"
    if "bt_get ?live p \<noteq> None" "views_ok v" for p v
    using live_label [OF assms(1) that(1) assms(3) that(2)] .
  have 1: "\<forall>f \<in> set (lc_changes c). fc_label f =
      (if fc_new_content f = None then label_for_path (rp_config repo) (fc_path f) else label_for_path config (fc_path f))
      \<and> (fc_new_content f = None \<longrightarrow> bt_get ?live (fc_path f) \<noteq> None)"
    using commit old [OF _ assms(4)] by auto
  have 2: "\<not> is_repo_control_path (vc_path d) \<and> vc_new_label d = label_for_path config (vc_path d)
      \<and> vc_current_content d = bt_get live' (vc_path d) \<and> bt_get live' (vc_path d) \<noteq> None
      \<and> (bt_get ?live (vc_path d) \<noteq> None \<longrightarrow> vc_old_label d = label_for_path (rp_config repo) (vc_path d))"
    if "d \<in> set (vs_changes s)" for d
  proof -
    note M = label_changes_mem [OF that [unfolded changes] ok']
    have "\<not> is_repo_control_path (vc_path d)"
      using M(1-3) control_label [OF _ assms(4,3)] by metis
    with M old [OF _ assms(3)] show ?thesis by simp
  qed
  have 3: "label_for_path config p = label_for_path (rp_config repo) p"
    if "bt_get ?live p \<noteq> None" "bt_get live' p \<noteq> None" "p \<notin> vc_path ` set (vs_changes s)" for p
    using label_changes_complete [OF ok' that(2), of repo config skipped] that changes skip old [OF that(1) assms(3)] by auto
  show ?thesis
    unfolding sound_update_def changes [symmetric]
    using assms(2,5) live' label_changes_distinct [OF ok', of repo config skipped] changes 1 2 3 by simp
qed

section \<open>The invariant of a repository\<close>

text \<open>An update adds at most one set, anchored to the last commit, and then at most one commit.\<close>

definition grown_sets :: "bool \<Rightarrow> visibility_change_set \<Rightarrow> visibility_change_set list \<Rightarrow> visibility_change_set list" where
  "grown_sets pushed s sets = (if pushed then sets @ [s] else sets)"

definition grown_graph :: "bool \<Rightarrow> logical_commit \<Rightarrow> source_graph \<Rightarrow> source_graph" where
  "grown_graph pushed c g = (if pushed then add_commit c g else g)"

text \<open>
  Histories as updates grow them, with the facts about each set and its commit that readers of the history rely on: a
  file written by the commit has the label the set gives it.
\<close>

inductive grown_history :: "view_id \<Rightarrow> source_graph \<Rightarrow> visibility_change_set list \<Rightarrow> bool" for full where
  start: "sg_commits g = [] \<Longrightarrow> grown_history full g []"
| grow: "grown_history full g sets
    \<Longrightarrow> (ps \<longrightarrow> vs_anchor_commit_id s = last_commit_id g)
    \<Longrightarrow> (pc \<longrightarrow> lc_id c \<notin> set (commit_ids g))
    \<Longrightarrow> (vs_source_update_id s \<noteq> None \<longrightarrow> vs_source_update_id s = Some (lc_id c) \<and> pc)
    \<Longrightarrow> distinct (map vc_path (vs_changes s))
    \<Longrightarrow> (\<forall>d \<in> set (vs_changes s). \<forall>f \<in> set (lc_changes c). fc_path f = vc_path d \<longrightarrow> fc_label f = vc_new_label d)
    \<Longrightarrow> (\<forall>t. vs_views s = Some t \<longrightarrow> Views_full (vt_before t) = full \<and> Views_full (vt_after t) = full)
    \<Longrightarrow> grown_history full (grown_graph pc c g) (grown_sets ps s sets)"

lemma sound_update_labels:
  assumes "sound_update lab live lab' live' s c" and "d \<in> set (vs_changes s)" and "f \<in> set (lc_changes c)"
    and "fc_path f = vc_path d"
  shows "fc_label f = vc_new_label d"
proof -
  note D = sound_updateD [OF assms(1)]
  have f: "at_path fc_path (lc_changes c) (vc_path d) = Some f"
    using at_path_member [OF D(3) assms(3)] assms(4) by simp
  have d: "at_path vc_path (vs_changes s) (vc_path d) = Some d" using D(4) assms(2) by (rule at_path_member)
  from D(7) [OF d] D(5) [of "vc_path d"] f have "fc_new_content f \<noteq> None" by simp
  with D(6) [OF f] D(7) [OF d] show ?thesis by simp
qed

definition repo_in_step :: "repository \<Rightarrow> bool" where
  "repo_in_step repo \<longleftrightarrow>
     views_ok (rc_views (rp_config repo)) \<and> views_ok (Repository_initial_views repo)
     \<and> bt_ok (rp_live_files repo) \<and> policy_matches (rp_policy repo) (rp_config repo) (rp_live_files repo)
     \<and> anchored (rp_graph repo) (rp_sets repo)
     \<and> in_step_with (commits_by_id (rp_graph repo)) (Repository_initial_views repo)
         (fold_steps (rp_graph repo) (rp_sets repo)) (rc_views (rp_config repo))
         (labelled (label_for_path (rp_config repo)) (rp_live_files repo))
     \<and> fold apply_file_change (concat (map lc_changes (sg_commits (rp_graph repo)))) [] = rp_live_files repo
     \<and> grown_history ViewId_private (rp_graph repo) (rp_sets repo)"

lemma repo_in_stepD:
  assumes "repo_in_step repo"
  shows "views_ok (rc_views (rp_config repo))" and "bt_ok (rp_live_files repo)"
    and "policy_matches (rp_policy repo) (rp_config repo) (rp_live_files repo)"
  using assms by (simp_all add: repo_in_step_def)

lemma repo_in_step_new:
  assumes "Repository_new owner name d inc = Inr repo"
  shows "repo_in_step repo"
proof -
  have r: "rp_config repo = RepoConfig_with_default_view d" "rp_policy repo = Policy_new d" "rp_sets repo = []"
    "rp_live_files repo = []" "sg_commits (rp_graph repo) = []"
    using assms by (auto simp: Repository_new_def and_then_Ok_iff Let_def split: if_splits)
  then show ?thesis
    by (simp add: repo_in_step_def Repository_initial_views_def initial_views_def RepoConfig_with_default_view_def
        policy_matches_def policy_ok_new anchored_def in_step_with_def fold_steps_def labelled_def
        LabelledTree_view_files_def List.map_filter_def bt_get_def grown_history.start)
qed

lemma in_step_with_cong:
  assumes "in_step_with by_id v0 steps views tree" and "Views_shows v0' = Views_shows v0"
    and "\<And>s. StepSet s \<in> set steps \<Longrightarrow> set_source by_id s = set_source by_id' s"
  shows "in_step_with by_id' v0' steps views tree"
proof -
  have "emitted by_id' view v0' [] steps = emitted by_id view v0 [] steps" for view
    using emitted_cong [OF assms(2) [symmetric] assms(3), of steps] by simp
  with fold_step_views_cong [OF assms(2), of steps] assms(1) show ?thesis
    by (simp add: in_step_with_def)
qed

lemma last_commit_id_mem: "last_commit_id g = Some i \<Longrightarrow> i \<in> set (commit_ids g)"
  by (cases "sg_commits g" rule: rev_cases) (auto simp: last_commit_id_def)

lemma fold_steps_grown:
  assumes "anchored g sets" and "ps \<longrightarrow> vs_anchor_commit_id s = last_commit_id g"
    and "pc \<longrightarrow> lc_id c \<notin> set (commit_ids g)"
  shows "fold_steps (grown_graph pc c g) (grown_sets ps s sets)
    = fold_steps g sets @ (if ps then [StepSet s] else []) @ (if pc then [StepCommit c] else [])"
proof -
  have d: "distinct (commit_ids g)" using assms(1) by (simp add: anchored_def)
  have s: "fold_steps g (grown_sets ps s sets) = fold_steps g sets @ (if ps then [StepSet s] else [])"
    using assms(2) fold_steps_add_set [OF d] by (simp add: grown_sets_def)
  show ?thesis
  proof (cases pc)
    case True
    then have f: "lc_id c \<notin> set (commit_ids g)" using assms(3) by simp
    have "last_commit_id g \<noteq> Some (lc_id c)"
      using f last_commit_id_mem by blast
    then have "vs_anchor_commit_id s' \<noteq> Some (lc_id c)" if "s' \<in> set (grown_sets ps s sets)" for s'
      using that assms(1,2) f by (auto simp: anchored_def grown_sets_def split: if_splits option.splits)
    from fold_steps_add_commit [OF d f this] s True show ?thesis by (simp add: grown_graph_def)
  qed (simp add: grown_graph_def s)
qed

lemma initial_views_grown:
  assumes "views_ok (initial_views sets v)" and "views_ok w"
    and "vs_views s = None \<and> Views_shows w = Views_shows v \<or> vs_views s = Some \<lparr>vt_before = v, vt_after = w\<rparr> \<and> ps"
  shows "Views_shows (initial_views (grown_sets ps s sets) w) = Views_shows (initial_views sets v)"
    and "views_ok (initial_views (grown_sets ps s sets) w)"
proof -
  have "List.map_filter vs_views (sets @ [s]) = List.map_filter vs_views sets @ option_list (vs_views s)"
    by (simp add: List.map_filter_def split: option.split)
  then have "initial_views (grown_sets ps s sets) w \<in>
      {initial_views sets v} \<union> (if Views_shows w = Views_shows v \<and> initial_views sets v = v then {w} else {})"
    using assms(3) by (cases "List.map_filter vs_views sets")
      (auto simp: initial_views_def grown_sets_def split: option.split)
  then show "Views_shows (initial_views (grown_sets ps s sets) w) = Views_shows (initial_views sets v)"
    "views_ok (initial_views (grown_sets ps s sets) w)"
    using assms(1,2) by (auto split: if_splits)
qed

lemma anchored_grown:
  assumes "anchored g sets" and "ps \<longrightarrow> vs_anchor_commit_id s = last_commit_id g"
    and "pc \<longrightarrow> lc_id c \<notin> set (commit_ids g)"
    and "vs_source_update_id s \<noteq> None \<longrightarrow> vs_source_update_id s = Some (lc_id c) \<and> pc"
  shows "anchored (grown_graph pc c g) (grown_sets ps s sets)"
proof -
  show ?thesis
    using assms last_commit_id_mem [of g]
    by (auto simp: anchored_def grown_graph_def grown_sets_def split: if_splits option.splits)
qed

lemma source_grown:
  assumes "anchored g sets" and "pc \<longrightarrow> lc_id c \<notin> set (commit_ids g)" and "StepSet s \<in> set (fold_steps g sets)"
  shows "set_source (commits_by_id g) s = set_source (commits_by_id (grown_graph pc c g)) s"
proof -
  have d: "distinct (commit_ids g)" using assms(1) by (simp add: anchored_def)
  have "vs_source_update_id s \<noteq> Some (lc_id c)" if pc
    using StepSet_fold_steps [OF assms(3)] assms(1,2) that by (auto simp: anchored_def split: option.splits)
  then show ?thesis
    using commits_by_id_add [OF d] assms(2)
    by (cases "vs_source_update_id s") (auto simp: set_source_def grown_graph_def)
qed

lemma in_step_drop:
  assumes "in_step_with by_id v0 (steps @ [StepSet s, StepCommit c]) views tree"
    and "\<not> ps \<longrightarrow> vs_changes s = [] \<and> vs_views s = None" and "\<not> pc \<longrightarrow> c = no_commit"
  shows "in_step_with by_id v0 (steps @ (if ps then [StepSet s] else []) @ (if pc then [StepCommit c] else [])) views tree"
proof -
  have "in_step_with by_id v0 (steps @ (if ps then [StepSet s] else []) @ [StepCommit c]) views tree"
  proof (cases ps)
    case False
    with assms(1,2) in_step_without_set [of by_id v0 steps s "[StepCommit c]"] show ?thesis by simp
  qed (use assms(1) in simp)
  then show ?thesis
    using assms(3) in_step_without_commit [of by_id v0 "steps @ (if ps then [StepSet s] else [])"] by (cases pc) simp_all
qed

text \<open>Every way an update grows the history keeps the invariant.\<close>

lemma repo_in_step_grow:
  fixes repo repo' :: repository
  assumes inv: "repo_in_step repo"
    and sound: "sound_update (label_for_path (rp_config repo)) (rp_live_files repo)
      (label_for_path (rp_config repo')) (rp_live_files repo') s c"
    and graph: "rp_graph repo' = grown_graph pc c (rp_graph repo)" and sets: "rp_sets repo' = grown_sets ps s (rp_sets repo)"
    and anchor: "ps \<longrightarrow> vs_anchor_commit_id s = last_commit_id (rp_graph repo)"
    and fresh: "pc \<longrightarrow> lc_id c \<notin> set (commit_ids (rp_graph repo))" and nopc: "\<not> pc \<longrightarrow> c = no_commit"
    and nops: "\<not> ps \<longrightarrow> vs_changes s = [] \<and> vs_views s = None"
    and source: "vs_source_update_id s \<noteq> None \<longrightarrow> vs_source_update_id s = Some (lc_id c) \<and> pc"
    and views: "vs_views s = None \<and> Views_shows (rc_views (rp_config repo')) = Views_shows (rc_views (rp_config repo))
      \<or> vs_views s = Some \<lparr>vt_before = rc_views (rp_config repo), vt_after = rc_views (rp_config repo')\<rparr> \<and> ps"
    and ok': "views_ok (rc_views (rp_config repo'))"
    and pol': "policy_matches (rp_policy repo') (rp_config repo') (rp_live_files repo')"
  shows "repo_in_step repo'"
proof -
  let ?g = "rp_graph repo" and ?g' = "rp_graph repo'" and ?v = "rc_views (rp_config repo)" and ?v' = "rc_views (rp_config repo')"
  let ?init = "Repository_initial_views repo" and ?init' = "Repository_initial_views repo'"
  have I: "views_ok ?init" "anchored ?g (rp_sets repo)"
    "in_step_with (commits_by_id ?g) ?init (fold_steps ?g (rp_sets repo)) ?v
       (labelled (label_for_path (rp_config repo)) (rp_live_files repo))"
    "fold apply_file_change (concat (map lc_changes (sg_commits ?g))) [] = rp_live_files repo"
    using inv by (auto simp: repo_in_step_def)
  have v0': "Views_shows ?init' = Views_shows ?init" "views_ok ?init'"
    using initial_views_grown [OF I(1) [unfolded Repository_initial_views_def] ok' views]
    by (simp_all add: Repository_initial_views_def sets)
  have d: "distinct (commit_ids ?g)" using I(2) by (simp add: anchored_def)
  have old: "in_step_with (commits_by_id ?g') ?init' (fold_steps ?g (rp_sets repo)) ?v
       (labelled (label_for_path (rp_config repo)) (rp_live_files repo))"
    unfolding graph using source_grown [OF I(2) fresh] by (rule in_step_with_cong [OF I(3) v0'(1)])
  have "set_source (commits_by_id ?g') s \<in> {None, Some c}"
  proof (cases "vs_source_update_id s")
    case (Some i)
    then have "i = lc_id c" pc using source by auto
    then show ?thesis using Some commits_by_id_add [OF d] fresh by (simp add: set_source_def graph grown_graph_def)
  qed (simp add: set_source_def)
  moreover have "Views_shows (set_before ?v s) = Views_shows ?v" "Views_shows (step_views (StepSet s) ?v) = Views_shows ?v'"
    using views by (auto simp: set_before_def step_views_def)
  ultimately have "in_step_with (commits_by_id ?g') ?init' (fold_steps ?g (rp_sets repo) @ [StepSet s, StepCommit c]) ?v'
      (labelled (label_for_path (rp_config repo')) (rp_live_files repo'))"
    by (rule in_step_update [OF old sound])
  then have "in_step_with (commits_by_id ?g') ?init' (fold_steps ?g' (rp_sets repo')) ?v'
      (labelled (label_for_path (rp_config repo')) (rp_live_files repo'))"
    unfolding graph sets fold_steps_grown [OF I(2) anchor fresh]
    using nops nopc by (rule in_step_drop)
  moreover have "anchored ?g' (rp_sets repo')"
    unfolding graph sets using I(2) anchor fresh source by (rule anchored_grown)
  moreover have "bt_ok (rp_live_files repo')" by (rule sound_updateD(2) [OF sound])
  moreover have "rp_live_files repo' = fold apply_file_change (lc_changes c) (rp_live_files repo)"
    using sound by (simp add: sound_update_def)
  then have "fold apply_file_change (concat (map lc_changes (sg_commits ?g'))) [] = rp_live_files repo'"
    using I(4) nopc by (cases pc) (simp_all add: graph grown_graph_def no_commit_def)
  moreover have "grown_history ViewId_private ?g' (rp_sets repo')"
    unfolding graph sets
  proof (rule grown_history.grow [OF _ anchor fresh source])
    show "grown_history ViewId_private ?g (rp_sets repo)" using inv by (simp add: repo_in_step_def)
    show "distinct (map vc_path (vs_changes s))" by (rule sound_updateD(4) [OF sound])
    show "\<forall>d \<in> set (vs_changes s). \<forall>f \<in> set (lc_changes c). fc_path f = vc_path d \<longrightarrow> fc_label f = vc_new_label d"
      using sound_update_labels [OF sound] by blast
    show "\<forall>t. vs_views s = Some t \<longrightarrow> Views_full (vt_before t) = ViewId_private \<and> Views_full (vt_after t) = ViewId_private"
      using views full_found(2) [OF ok'] full_found(2) [OF repo_in_stepD(1) [OF inv]] by auto
  qed
  ultimately show ?thesis
    using ok' v0'(2) pol' by (simp add: repo_in_step_def)
qed

section \<open>The operations keep the invariant\<close>

lemma bump_content_version_frame [simp]:
  "rp_config (bump_content_version r) = rp_config r" "rp_policy (bump_content_version r) = rp_policy r"
  "rp_graph (bump_content_version r) = rp_graph r" "rp_sets (bump_content_version r) = rp_sets r"
  "rp_live_files (bump_content_version r) = rp_live_files r"
  by (simp_all add: bump_content_version_def bump_change_version_def Let_def)

lemma accept_content_updateD:
  assumes "accept_content_update state update allow origin = Inr accepted"
  shows "ru_config update = cps_repo_config state"
    and "lc_changes (acp_logical_commit accepted) = build_file_changes (cps_live_files state) (cps_policy state)
      (ru_config update) (ru_changes update) ExistingFromPolicy"
    and "content_policy (cps_policy state) (ru_config update) (lc_changes (acp_logical_commit accepted)) = Inr (acp_policy accepted)"
  using assms by (auto simp: accept_content_update_def and_then_Ok_iff Let_def split: if_splits)

lemma content_push_in_step:
  assumes "accept_content_update (push_state repo) update allow origin = Inr accepted" and "repo_in_step repo"
    and "distinct (map rcc_path (ru_changes update))"
    and "lc_id (acp_logical_commit accepted) \<notin> set (commit_ids (rp_graph repo))"
  shows "repo_in_step (fst (apply_accepted_content_push repo accepted))"
proof -
  let ?c = "acp_logical_commit accepted" and ?repo = "fst (apply_accepted_content_push repo accepted)"
  note I = repo_in_stepD [OF assms(2)]
  note A = accept_content_updateD [OF assms(1)]
  have cfg: "ru_config update = rp_config repo" using A(1) by (simp add: push_state_def)
  have fs: "lc_changes ?c = build_file_changes (rp_live_files repo) (rp_policy repo) (rp_config repo)
      (ru_changes update) ExistingFromPolicy"
    using A(2) cfg by (simp add: push_state_def)
  have R: "rp_config ?repo = rp_config repo" "rp_sets ?repo = rp_sets repo" "rp_policy ?repo = acp_policy accepted"
    "rp_graph ?repo = add_commit ?c (rp_graph repo)"
    "rp_live_files ?repo = fold apply_file_change (lc_changes ?c) (rp_live_files repo)"
    by (simp_all add: apply_accepted_content_push_def)
  have sound: "sound_update (label_for_path (rp_config repo)) (rp_live_files repo)
      (label_for_path (rp_config ?repo)) (rp_live_files ?repo) no_set ?c"
    unfolding R(1,5) using I(3,1,2) assms(3) fs by (rule content_push_sound)
  have pol: "policy_matches (rp_policy ?repo) (rp_config ?repo) (rp_live_files ?repo)"
    unfolding R(1,3,5)
  proof (rule content_policy_matches [OF _ I(3) _ I(2)])
    show "content_policy (rp_policy repo) (rp_config repo) (lc_changes ?c) = Inr (acp_policy accepted)"
      using A(3) cfg by (simp add: push_state_def)
    show "distinct (map fc_path (lc_changes ?c))" unfolding fs using assms(3) by (rule build_file_changes_distinct)
    show "fc_old_content f = bt_get (rp_live_files repo) (fc_path f)" if "f \<in> set (lc_changes ?c)" for f
      using that unfolding fs by (rule build_file_changes_mem(1))
  qed
  show ?thesis
    by (rule repo_in_step_grow [OF assms(2) sound, where pc = True and ps = False])
      (use assms(4) in \<open>simp_all add: R(1,2,4) grown_graph_def grown_sets_def no_set_def I(1) pol [unfolded R(1)]\<close>)
qed

text \<open>Without new rewrites, a configuration change touches nothing else of the history.\<close>

lemma no_rewrites: "apply_history_rewrites repo config [] tree paths = (repo, \<lparr>hw_visibility_changes = [], hw_redacted_paths = []\<rparr>)"
  by (simp add: apply_history_rewrites_def)

lemma push_change_set_OkD:
  assumes "push_change_set i anchor source author at changes views repo = Inr repo'"
  obtains ps s where "repo' = repo\<lparr>rp_sets := grown_sets ps s (rp_sets repo)\<rparr>" "vs_changes s = changes" "vs_views s = views"
    "vs_anchor_commit_id s = anchor" "vs_source_update_id s = source" "\<not> ps \<longrightarrow> changes = [] \<and> views = None"
proof (cases "changes = [] \<and> views = None")
  case True
  then have "repo' = repo" using assms by (simp add: push_change_set_def)
  with True show thesis
    by (intro that [of False "\<lparr>vs_occurred_at_unix = None, vs_id = [], vs_anchor_commit_id = anchor,
        vs_source_update_id = source, vs_author_id = [], vs_changes = [], vs_views = None\<rparr>"])
      (simp_all add: grown_sets_def)
next
  case False
  then obtain s where s: "VisibilityChangeSet_new i anchor source author changes views = Inr s"
    "repo' = repo\<lparr>rp_sets := rp_sets repo @ [s\<lparr>vs_occurred_at_unix := at\<rparr>]\<rparr>"
    using assms by (auto simp: push_change_set_def and_then_Ok_iff)
  from s(1) have "vs_changes s = changes" "vs_views s = views" "vs_anchor_commit_id s = anchor"
    "vs_source_update_id s = source"
    by (auto simp: VisibilityChangeSet_new_def split: if_splits)
  with s(2) False show thesis
    by (intro that [of True "s\<lparr>vs_occurred_at_unix := at\<rparr>"]) (simp_all add: grown_sets_def)
qed

lemma views_transition_OkD:
  assumes "views_transition_of repo config reqs = Inr views"
    and "views_ok (rc_views (rp_config repo))" and "views_ok (rc_views config)"
  shows "views = None \<and> Views_shows (rc_views config) = Views_shows (rc_views (rp_config repo))
    \<or> views = Some \<lparr>vt_before = rc_views (rp_config repo), vt_after = rc_views config\<rparr>"
proof (cases "visibility_shape (rc_views (rp_config repo)) = visibility_shape (rc_views config)")
  case True
  with assms(1) same_shape_shows [OF assms(2,3) True] show ?thesis by (simp add: views_transition_of_def Let_def)
qed (use assms(1) in \<open>auto simp: views_transition_of_def Let_def and_then_Ok_iff\<close>)

lemma config_update_in_step:
  assumes "apply_reviewed_config_to_repo repo update = Inr (repo', changed)" and "repo_in_step repo"
    and "views_ok (rc_views (rcu_config update))"
    and "history_rewrites_added_since (rcu_config update) (Some (rp_config repo)) = []"
  shows "repo_in_step repo'"
proof (cases "rp_config repo = rcu_config update")
  case True
  with assms(1,2) show ?thesis by (simp add: apply_reviewed_config_to_repo_def)
next
  case False
  let ?config = "rcu_config update" and ?live = "rp_live_files repo"
  note I = repo_in_stepD [OF assms(2)]
  obtain views pol repo2 where
    v: "views_transition_of repo ?config (rcu_open_requests_by_view update) = Inr views"
    and pol: "policy_from_config_for_tree ?config (map fst ?live) = Inr pol"
    and set: "push_change_set (visibility_change_set_id (unat (saturating_add (rr_change_version (rp_record repo)) 1)))
       (last_commit_id (rp_graph repo)) None (rcu_author_id update) (Some (rcu_occurred_at_unix update))
       (label_changes repo ?config (\<lambda>path old new. False) ?live) views
       (repo\<lparr>rp_policy := pol, rp_config := ?config\<rparr>) = Inr repo2"
    and repo': "repo' = bump_content_version repo2"
    using assms(1) False by (auto simp: apply_reviewed_config_to_repo_def Let_def assms(4) no_rewrites and_then_Ok_iff)
  from push_change_set_OkD [OF set] obtain ps s where
    repo2: "repo2 = (repo\<lparr>rp_policy := pol, rp_config := ?config\<rparr>)\<lparr>rp_sets := grown_sets ps s (rp_sets repo)\<rparr>"
    and s: "vs_changes s = label_changes repo ?config (\<lambda>path old new. False) ?live" "vs_views s = views"
      "vs_anchor_commit_id s = last_commit_id (rp_graph repo)" "vs_source_update_id s = None"
      "\<not> ps \<longrightarrow> label_changes repo ?config (\<lambda>path old new. False) ?live = [] \<and> views = None"
    by auto
  have sound: "sound_update (label_for_path (rp_config repo)) ?live (label_for_path ?config) ?live s no_commit"
    by (rule relabel_sound [OF I(3,2,1) assms(3) _ _ s(1)]) (simp_all add: no_commit_def)
  show ?thesis
    by (rule repo_in_step_grow [OF assms(2), where pc = False and ps = ps and s = s and c = no_commit])
      (use sound s views_transition_OkD [OF v I(1) assms(3)] policy_from_config_matches [OF pol I(2)] assms(3) in
        \<open>auto simp: repo' repo2 grown_graph_def\<close>)
qed

lemma config_push_in_step:
  assumes "apply_config_push repo update views fs = Inr (repo', pack)" and "repo_in_step repo"
    and "views_transition_of repo (ru_config update) reqs = Inr views"
    and "fs = build_file_changes (rp_live_files repo) (rp_policy repo) (ru_config update) (ru_changes update) FromConfig"
    and "views_ok (rc_views (ru_config update))"
    and "history_rewrites_added_since (ru_config update) (ru_previous_config update) = []"
    and "distinct (map rcc_path (ru_changes update))"
    and "''rv_push_'' @ gh_head_oid (ru_git_head update) \<notin> set (commit_ids (rp_graph repo))"
  shows "repo_in_step repo'"
proof -
  let ?config = "ru_config update" and ?live = "rp_live_files repo" and ?live' = "fold apply_file_change fs (rp_live_files repo)"
  let ?skip = "\<lambda>path old new. old = ViewId_public \<and> new = ViewId_private \<and> bt_get ?live path = None"
  let ?id = "''rv_push_'' @ gh_head_oid (ru_git_head update)"
  define c where "c = \<lparr>lc_occurred_at_unix = ru_occurred_at_unix update, lc_id = ?id,
     lc_origin = CanonicalPush (gh_head_oid (ru_git_head update)), lc_author_id = ru_author_id update,
     lc_message = ru_message update, lc_changes = fs\<rparr>"
  note I = repo_in_stepD [OF assms(2)]
  have id: "map (redact_deletion []) fs = fs" by (simp add: redact_deletion_def [abs_def])
  obtain pol repo2 where pol: "policy_from_config_for_tree ?config (map fst ?live') = Inr pol"
    and set: "push_change_set (visibility_change_set_id (unat (saturating_add (rr_change_version (rp_record repo)) 1)))
       (last_commit_id (rp_graph repo)) (Some ?id) (ru_author_id update) (ru_occurred_at_unix update)
       (label_changes repo ?config ?skip ?live') views repo = Inr repo2"
    and repo': "repo' = bump_content_version (repo2\<lparr>rp_graph := add_commit c (rp_graph repo2), rp_live_files := ?live',
       rp_policy := pol, rp_config := ?config, rp_git_head := Some (ru_git_head update), rp_first_push_token := None,
       rp_record := (rp_record repo2)\<lparr>rr_lifecycle_state := RepoReady\<rparr>\<rparr>)"
    using assms(1) by (auto simp: apply_config_push_def Let_def assms(6) no_rewrites id and_then_Ok_iff c_def)
  from push_change_set_OkD [OF set] obtain ps s where
    repo2: "repo2 = repo\<lparr>rp_sets := grown_sets ps s (rp_sets repo)\<rparr>"
    and s: "vs_changes s = label_changes repo ?config ?skip ?live'" "vs_views s = views"
      "vs_anchor_commit_id s = last_commit_id (rp_graph repo)" "vs_source_update_id s = Some ?id"
      "\<not> ps \<longrightarrow> label_changes repo ?config ?skip ?live' = [] \<and> views = None"
    by auto
  have c: "lc_changes c = fs" "lc_id c = ?id" by (simp_all add: c_def)
  have d: "distinct (map fc_path (lc_changes c))"
    unfolding c assms(4) using assms(7) by (rule build_file_changes_distinct)
  have sound: "sound_update (label_for_path (rp_config repo)) ?live (label_for_path ?config) ?live' s c"
  proof (rule relabel_sound [OF I(3,2,1) assms(5) d _ s(1)])
    fix f assume "f \<in> set (lc_changes c)"
    then have f: "f \<in> set (build_file_changes ?live (rp_policy repo) ?config (ru_changes update) FromConfig)"
      using c assms(4) by simp
    show "(fc_new_content f = None \<longrightarrow> bt_get ?live (fc_path f) \<noteq> None
         \<and> fc_label f = Policy_label (rp_policy repo) (fc_path f) (rc_views ?config))
      \<and> (fc_new_content f \<noteq> None \<longrightarrow> fc_label f = label_for_path ?config (fc_path f))"
      using build_file_changes_mem(2-4) [OF f] by simp
  qed (simp_all add: c)
  show ?thesis
    by (rule repo_in_step_grow [OF assms(2), where pc = True and ps = ps and s = s and c = c])
      (use sound s c assms(8,5) views_transition_OkD [OF assms(3) I(1) assms(5)]
        policy_from_config_matches [OF pol sound_updateD(2) [OF sound]] in
        \<open>auto simp: repo' repo2 grown_graph_def\<close>)
qed

section \<open>Reachable repositories\<close>

inductive reachable :: "repository \<Rightarrow> bool" where
  created: "Repository_new owner name d inc = Inr repo \<Longrightarrow> reachable repo"
| pushed: "reachable repo \<Longrightarrow> apply_reviewed_update_to_repo repo update = Inr (repo', pack)
    \<Longrightarrow> views_ok (rc_views (ru_config update))
    \<Longrightarrow> history_rewrites_added_since (ru_config update) (ru_previous_config update) = []
    \<Longrightarrow> distinct (map rcc_path (ru_changes update))
    \<Longrightarrow> ''rv_push_'' @ gh_head_oid (ru_git_head update) \<notin> set (commit_ids (rp_graph repo))
    \<Longrightarrow> reachable repo'"
| merged: "reachable repo \<Longrightarrow> apply_request_merge_to_repo repo update origin = Inr (repo', pack)
    \<Longrightarrow> distinct (map rcc_path (ru_changes update))
    \<Longrightarrow> ''rv_merge_'' @ gh_head_oid (ru_git_head update) \<notin> set (commit_ids (rp_graph repo))
    \<Longrightarrow> reachable repo'"
| configured: "reachable repo \<Longrightarrow> apply_reviewed_config_to_repo repo config_update = Inr (repo', changed)
    \<Longrightarrow> views_ok (rc_views (rcu_config config_update))
    \<Longrightarrow> history_rewrites_added_since (rcu_config config_update) (Some (rp_config repo)) = []
    \<Longrightarrow> reachable repo'"
| unrelated: "reachable repo \<Longrightarrow> content_matches repo repo' \<Longrightarrow> reachable repo'"

lemma accepted_commit_id:
  "accept_content_update state update allow origin = Inr accepted \<Longrightarrow>
   lc_id (acp_logical_commit accepted) = (if allow then ''rv_merge_'' else ''rv_push_'') @ gh_head_oid (ru_git_head update)"
  by (auto simp: accept_content_update_def and_then_Ok_iff Let_def split: if_splits)

lemma reachable_in_step: "reachable repo \<Longrightarrow> repo_in_step repo"
proof (induction rule: reachable.induct)
  case (created owner name d inc repo)
  then show ?case by (rule repo_in_step_new)
next
  case (pushed repo update repo' pack)
  show ?case
  proof (cases "ru_config update = rp_config repo \<and> ru_previous_config update = Some (rp_config repo)")
    case True
    then obtain accepted where a: "accept_content_push (push_state repo) update = Inr accepted"
      "repo' = fst (apply_accepted_content_push repo accepted)"
      using pushed.hyps(2) by (auto simp: apply_reviewed_update_to_repo_def apply_content_only_update_def
          and_then_Ok_iff split: if_splits)
    show ?thesis
      unfolding a(2) using a(1) pushed.IH pushed.hyps(5,6) accepted_commit_id [OF a(1) [unfolded accept_content_push_def]]
      by (intro content_push_in_step) (simp_all add: accept_content_push_def)
  next
    case False
    then show ?thesis
      using pushed.hyps(2) config_push_in_step [OF _ pushed.IH _ _ pushed.hyps(3-6)]
      by (auto simp: apply_reviewed_update_to_repo_def and_then_Ok_iff Let_def split: if_splits)
  qed
next
  case (merged repo update origin repo' pack)
  then obtain accepted where a: "accept_request_merge (push_state repo) update origin = Inr accepted"
    "repo' = fst (apply_accepted_content_push repo accepted)"
    by (auto simp: apply_request_merge_to_repo_def and_then_Ok_iff)
  show ?case
    unfolding a(2) using a(1) merged.IH merged.hyps(3,4) accepted_commit_id [OF a(1) [unfolded accept_request_merge_def]]
    by (intro content_push_in_step) (simp_all add: accept_request_merge_def)
next
  case (configured repo config_update repo' changed)
  then show ?case using config_update_in_step by blast
next
  case (unrelated repo repo')
  then show ?case by (simp add: repo_in_step_def content_matches_def Repository_initial_views_def)
qed

section \<open>The full view\<close>

lemma full_step_changes:
  "all_changes (fst (fold (full_step cursor view) cs acc))
   = all_changes (fst acc) @ map projected_of (concat (map lc_changes cs))"
proof (induction cs arbitrary: acc)
  case (Cons c cs)
  have "all_changes (fst (full_step cursor view c acc)) = all_changes (fst acc) @ map projected_of (lc_changes c)"
    by (cases acc) (simp add: full_step_def Let_def)
  with Cons [of "full_step cursor view c acc"] show ?case by simp
qed simp

lemma full_projection_changes:
  assumes "view = Views_full (initial_views sets views)"
  shows "all_changes (pr_commits (project_graph graph sets views view))
    = map projected_of (concat (map lc_changes (sg_commits graph)))"
  using assms full_step_changes [of _ view "sg_commits graph" "([], None)"]
  by (simp add: project_graph_def project_graph_after_def ProjectionCursor_start_def project_full_graph_def)

lemma apply_projected_of: "fold apply_projected_change (map projected_of fs) t = fold apply_file_change fs t"
  by (induction fs arbitrary: t) (simp_all add: projected_of_def changes_as_writes)

lemma live_tree_of_projection:
  assumes "reachable repo"
  shows "Projection_apply_to (project_graph (rp_graph repo) (rp_sets repo) (rc_views (rp_config repo)) view) []
    = filter (\<lambda>(path, blob). Policy_can_read (rp_policy repo) path view (rc_views (rp_config repo))) (rp_live_files repo)"
proof -
  let ?v = "rc_views (rp_config repo)" and ?init = "Repository_initial_views repo"
  let ?tree = "labelled (label_for_path (rp_config repo)) (rp_live_files repo)"
  have inv: "repo_in_step repo" using assms by (rule reachable_in_step)
  note I = repo_in_stepD [OF inv]
  have J: "views_ok ?init" "in_step_with (commits_by_id (rp_graph repo)) ?init (fold_steps (rp_graph repo) (rp_sets repo)) ?v ?tree"
    "fold apply_file_change (concat (map lc_changes (sg_commits (rp_graph repo)))) [] = rp_live_files repo"
    using inv by (auto simp: repo_in_step_def)
  have "Policy_label (rp_policy repo) p ?v = label_for_path (rp_config repo) p" if "(p, b) \<in> set (rp_live_files repo)" for p b
    using that bt_get_Some_iff [OF I(2)] by (intro live_label [OF I(3) _ I(1,1)]) auto
  then have files: "LabelledTree_view_files ?tree ?v view
      = filter (\<lambda>(path, blob). Policy_can_read (rp_policy repo) path view ?v) (rp_live_files repo)"
    by (auto simp: LabelledTree_view_files_def labelled_def filter_map comp_def case_prod_beta Policy_can_read_def
        map_idI intro!: filter_cong)
  show ?thesis
  proof (cases "view = Views_full ?init")
    case True
    then have "Views_shows ?v view p l" for p l
      using full_found(2) [OF J(1)] full_found(2) [OF I(1)] by (simp add: Views_shows_def)
    then have "filter (\<lambda>(path, blob). Policy_can_read (rp_policy repo) path view ?v) (rp_live_files repo) = rp_live_files repo"
      by (simp add: Policy_can_read_def case_prod_beta)
    with True J(3) show ?thesis
      unfolding Projection_apply_to_def Repository_initial_views_def
      by (simp add: full_projection_changes apply_projected_of)
  next
    case False
    then have "Projection_apply_to (project_graph (rp_graph repo) (rp_sets repo) ?v view) []
        = fold apply_projected_change (emitted (commits_by_id (rp_graph repo)) view ?init []
            (fold_steps (rp_graph repo) (rp_sets repo))) []"
      unfolding Projection_apply_to_def Repository_initial_views_def by (simp add: project_graph_changes)
    also have "\<dots> = LabelledTree_view_files ?tree ?v view" using J(2) by (simp add: in_step_with_def)
    finally show ?thesis using files by simp
  qed
qed

section \<open>Properties\<close>


text \<open>A first push of one public file and one control file.\<close>

definition demo_owner :: user_account where
  "demo_owner = \<lparr>ua_id = ''o'', ua_handle = ''own'', ua_email = ''o@x'', ua_email_verified = True\<rparr>"

definition demo_blob :: "string \<Rightarrow> source_blob" where
  "demo_blob x = \<lparr>sb_content_ref = GitBlob x, sb_sha256 = x, sb_git_oid = x, sb_git_file_mode = ''100644'', sb_size_bytes = 1\<rparr>"

definition demo_repo :: repository where
  "demo_repo = \<lparr>rp_record = \<lparr>rr_id = ''own/r'', rr_incarnation_id = ''i'', rr_owner_handle = ''own'', rr_name = ''r'',
      rr_owner_user_id = ''o'', rr_description = None, rr_website_url = None,
      rr_lifecycle_state = AwaitingFirstPush, rr_change_version = 1, rr_content_version = 1\<rparr>,
    rp_config = RepoConfig_with_default_view ViewId_public, rp_first_push_token = None, rp_git_push_token = None,
    rp_policy = Policy_new ViewId_public, rp_graph = \<lparr>sg_repo_id = ''own/r'', sg_commits = []\<rparr>,
    rp_sets = [], rp_live_files = [], rp_git_head = None,
    rp_collaboration = \<lparr>co_members = [], co_invitations = []\<rparr>\<rparr>"

lemma demo_new: "Repository_new demo_owner ''r'' ViewId_public ''i'' = Inr demo_repo"
proof -
  have t: "trim ''r'' = ''r''" "trim ''own'' = ''own''" "trim ''i'' = ''i''" "trim ''own/r'' = ''own/r''"
    by (simp_all add: trim_visible visible_ascii_def)
  have l: "map to_ascii_lowercase ''r'' = ''r''" "map to_ascii_lowercase ''own'' = ''own''" by code_simp+
  have a: "is_ascii_alphanumeric CHR ''r''" by code_simp
  show ?thesis
    using t l a by (simp add: Repository_new_def validate_repo_name_def repo_id_def RepositoryIncarnation_new_def
        demo_owner_def demo_repo_def Views_get_def Views_builtin_def Let_def)
qed

definition demo_push :: reviewed_update_input where
  "demo_push = \<lparr>ru_occurred_at_unix = None, ru_branch = ''main'', ru_author_id = ''o'', ru_message = ''m'',
   ru_git_head = \<lparr>gh_head_oid = ''h'', gh_push_sequence = 1, gh_change_version = 1, gh_frontier = []\<rparr>,
   ru_main_pack = \<lparr>gp_id = ''p'', gp_owner = OwnerMain 1 1, gp_head_oid = ''h'', gp_prerequisites = [], gp_storage = Inline []\<rparr>,
   ru_changes = [\<lparr>rcc_path = ScopePath ''/r'', rcc_content = Some (demo_blob ''1'')\<rparr>,
                 \<lparr>rcc_path = ScopePath ''/.scope/x'', rcc_content = Some (demo_blob ''2'')\<rparr>],
   ru_previous_config = Some (rp_config demo_repo), ru_config = rp_config demo_repo, ru_open_requests_by_view = []\<rparr>"

lemma demo_labels:
  "label_for_path (rp_config demo_repo) (ScopePath ''/r'') = ViewId_public"
  "label_for_path (rp_config demo_repo) (ScopePath ''/.scope/x'') = ViewId_private"
  "bt_insert (ScopePath ''/r'') x [] = [(ScopePath ''/r'', x)]"
  "bt_insert (ScopePath ''/.scope/x'') y [(ScopePath ''/r'', x)] = [(ScopePath ''/.scope/x'', y), (ScopePath ''/r'', x)]"
  for x y :: 'a
  by (simp_all add: demo_repo_def RepoConfig_with_default_view_def label_for_path_def label_for_path_skipping_rule_def
      control_defs control_consts string_ops Views_full_def Views_builtin_def less_scope_path_def)

lemma demo_policy:
  "content_policy (rp_policy demo_repo) (rp_config demo_repo)
     (build_file_changes [] (rp_policy demo_repo) (rp_config demo_repo) (ru_changes demo_push) ExistingFromPolicy)
   = Inr \<lparr>pol_default = ViewId_public, pol_rules = [\<lparr>lr_path = ScopePath ''/.scope/x'', lr_view = ViewId_private\<rparr>,
      \<lparr>lr_path = ScopePath ''/r'', lr_view = ViewId_public\<rparr>]\<rparr>"
proof -
  have "match_indices (CHR ''/'') ''/r'' = [0]" by code_simp
  moreover have "ScopePath ''/.scope/x'' < ScopePath ''/r''" by (simp add: less_scope_path_def)
  ultimately show ?thesis
    by (simp add: content_policy_def build_file_changes_def demo_push_def source_content_matches_def bt_get_def demo_labels
      written_label_def Policy_add_rules_def Let_def demo_repo_def [THEN arg_cong, of rp_policy] Policy_new_def
      check_island_def private_ancestor_def bt_collect_def rule_pair_def pair_rule_def prefix_at_def
      ViewId_is_public_def ViewId_is_private_def)
qed

lemma demo_pushed: "\<exists>repo pack. apply_reviewed_update_to_repo demo_repo demo_push = Inr (repo, pack)
  \<and> map fst (rp_live_files repo) = [ScopePath ''/.scope/x'', ScopePath ''/r''] \<and> rp_config repo = rp_config demo_repo
  \<and> rp_sets repo = []"
proof -
  let ?fs = "build_file_changes [] (rp_policy demo_repo) (rp_config demo_repo) (ru_changes demo_push) ExistingFromPolicy"
  have fs: "fold apply_file_change ?fs [] = [(ScopePath ''/.scope/x'', demo_blob ''2''), (ScopePath ''/r'', demo_blob ''1'')]"
    by (simp add: build_file_changes_def demo_push_def source_content_matches_def bt_get_def apply_file_change_def demo_labels
        less_scope_path_def)
  have "validate_main_pack_advance None (ru_git_head demo_push) (ru_main_pack demo_push) = Inr ()"
    by (simp add: validate_main_pack_advance_def demo_push_def)
  moreover have "rp_live_files demo_repo = []" "rp_sets demo_repo = []" "rp_git_head demo_repo = None" "ru_config demo_push = rp_config demo_repo"
    "ru_previous_config demo_push = Some (rp_config demo_repo)" "ru_changes demo_push \<noteq> []"
    by (simp_all add: demo_push_def demo_repo_def RepoConfig_with_default_view_def)
  moreover from fs have "?fs \<noteq> []" by auto
  ultimately show ?thesis
    using demo_policy fs
    by (simp add: apply_reviewed_update_to_repo_def apply_content_only_update_def accept_content_push_def
        accept_content_update_def push_state_def apply_accepted_content_push_def validate_commit_origin_def Let_def)
qed

lemma demo_reachable:
  "\<exists>repo. reachable repo \<and> rp_sets repo = [] \<and> map fst (rp_live_files repo) = [ScopePath ''/.scope/x'', ScopePath ''/r'']
     \<and> map fst (filter (\<lambda>(path, blob). Policy_can_read (rp_policy repo) path ViewId_public (rc_views (rp_config repo)))
         (rp_live_files repo)) = [ScopePath ''/r'']"
proof -
  obtain repo pack where r: "apply_reviewed_update_to_repo demo_repo demo_push = Inr (repo, pack)"
    and live: "map fst (rp_live_files repo) = [ScopePath ''/.scope/x'', ScopePath ''/r'']"
    and cfg: "rp_config repo = rp_config demo_repo" and sets: "rp_sets repo = []"
    using demo_pushed by (elim exE conjE) (rule that)
  have v: "rc_views (rp_config demo_repo) = Views_builtin" "rc_rewrites (rp_config demo_repo) = []"
    by (simp_all add: demo_repo_def RepoConfig_with_default_view_def)
  have reach: "reachable repo"
    by (rule reachable.pushed [OF reachable.created [OF demo_new] r])
      (simp_all add: demo_push_def history_rewrites_added_since_def v, simp add: demo_repo_def)
  note I = repo_in_stepD [OF reachable_in_step [OF reach]]
  have "bt_get (rp_live_files repo) (ScopePath ''/r'') \<noteq> None"
    using live by (auto simp: bt_get_def map_of_eq_None_iff simp flip: set_map)
  then have "Policy_label (rp_policy repo) (ScopePath ''/r'') Views_builtin = ViewId_public"
    using live_label [OF I(3) _ I(1) views_ok_builtin] demo_labels(1) cfg by simp
  moreover have "Views_shows Views_builtin ViewId_public (ScopePath ''/r'') ViewId_public"
    by (rule vis.own_label_shown) (simp_all add: control_defs control_consts string_ops)
  moreover have "\<not> Views_shows Views_builtin ViewId_public (ScopePath ''/.scope/x'') l" for l
    using vis.hidden_needs_full [OF views_ok_builtin, of "ScopePath ''/.scope/x''"] full_found(2) [OF views_ok_builtin]
    by (simp add: control_defs control_consts string_ops)
  ultimately have "map fst (filter (\<lambda>(path, blob). Policy_can_read (rp_policy repo) path ViewId_public (rc_views (rp_config repo)))
      (rp_live_files repo)) = [ScopePath ''/r'']"
    using live unfolding cfg v by (auto simp: Policy_can_read_def map_eq_Cons_conv)
  with reach live sets show ?thesis by (intro exI [of _ repo] conjI)
qed


end
