(* ===== verification/Repo_Collaboration.thy ===== *)
theory Repo_Collaboration
  imports Scope_Repository
begin

text \<open>
  \<^verbatim>\<open>repo_collaboration.rs\<close>: inviting members, accepting and revoking invites, changing and removing members.
  Every operation returns the new state with its result; it leaves the state alone when it fails, as the
  code checks everything before it writes.

  \<open>collab_step\<close> is one operation at a given time; \<open>collab_reachable\<close> the states it leads to from a repository
  without members, with time that does not run backwards.
\<close>

record collaboration_state =
  cs_record :: repo_record
  cs_views :: views
  cs_collaboration :: repository_collaboration

abbreviation cs_members :: "collaboration_state \<Rightarrow> repository_member list" where
  "cs_members s \<equiv> co_members (cs_collaboration s)"

abbreviation cs_invitations :: "collaboration_state \<Rightarrow> repository_invite list" where
  "cs_invitations s \<equiv> co_invitations (cs_collaboration s)"

abbreviation with_members :: "repository_member list \<Rightarrow> collaboration_state \<Rightarrow> collaboration_state" where
  "with_members ms s \<equiv> s\<lparr>cs_collaboration := (cs_collaboration s)\<lparr>co_members := ms\<rparr>\<rparr>"

abbreviation with_invitations :: "repository_invite list \<Rightarrow> collaboration_state \<Rightarrow> collaboration_state" where
  "with_invitations is s \<equiv> s\<lparr>cs_collaboration := (cs_collaboration s)\<lparr>co_invitations := is\<rparr>\<rparr>"

definition cs_bump :: "collaboration_state \<Rightarrow> collaboration_state" where
  "cs_bump s = s\<lparr>cs_record := RepoRecord_bump_change_version (cs_record s)\<rparr>"

definition cs_is_owner_user :: "collaboration_state \<Rightarrow> string \<Rightarrow> bool" where
  "cs_is_owner_user s user_id \<longleftrightarrow> rr_owner_user_id (cs_record s) = user_id"

definition cs_member_for_user :: "collaboration_state \<Rightarrow> string \<Rightarrow> repository_member option" where
  "cs_member_for_user s user_id = RepositoryCollaboration_member_for_user (cs_collaboration s) user_id"

definition cs_access_for_user_id :: "collaboration_state \<Rightarrow> string \<Rightarrow> repository_access" where
  "cs_access_for_user_id s user_id =
     repository_access_for_user_id (rr_owner_user_id (cs_record s)) (rr_lifecycle_state (cs_record s))
       (map_option mem_permissions (cs_member_for_user s user_id)) user_id"

section \<open>Operations\<close>

definition REPOSITORY_INVITE_TTL_SECS :: u64 where
  "REPOSITORY_INVITE_TTL_SECS = 7 * 24 * 60 * 60"

definition REPOSITORY_INVITE_RETENTION_SECS :: u64 where
  "REPOSITORY_INVITE_RETENTION_SECS = 30 * 24 * 60 * 60"

datatype repository_invite_viewer = ViewerReady | SignedOut | WrongAccount | EmailUnverified

datatype invite_landing =
  LandingOpen repository_invite_viewer
| LandingMember
| LandingExpired
| LandingRevoked
| LandingAccessRemoved
| LandingUsed

datatype accept_repository_invite_outcome =
  Accepted repository_member | AlreadyAccepted repository_member

definition ensure_can_manage_members :: "collaboration_state \<Rightarrow> string \<Rightarrow> (domain_error, unit) result" where
  "ensure_can_manage_members s user_id =
     (if ra_can_manage_members (cs_access_for_user_id s user_id) then Ok ()
      else if cs_is_owner_user s user_id then
        Err (conflict ''repository must be ready before inviting members'')
      else Err (forbidden ''owner role required''))"

definition validate_invite_email :: "string \<Rightarrow> (domain_error, string) result" where
  "validate_invite_email email =
     (let normalized = normalize_repository_invite_email email in
      if normalized = [] \<or> CHR ''@'' \<notin> set normalized then
        Err (invalid_input ''valid invited email is required'')
      else Ok normalized)"

definition sort_members :: "repository_member list \<Rightarrow> repository_member list" where
  "sort_members = sort_key (\<lambda>m. (mem_user_id m, mem_created_at_unix m))"

definition sort_invitations :: "repository_invite list \<Rightarrow> repository_invite list" where
  "sort_invitations = sort_key (\<lambda>i. (ri_invited_email_normalized i, ri_id i))"

record create_repository_invite_command =
  cmd_id :: string
  cmd_owner :: user_account
  cmd_invited_email :: string
  cmd_invitee :: "user_account option"
  cmd_permissions :: repository_member_permissions
  cmd_now_unix :: u64

definition create_repository_invite ::
  "collaboration_state \<Rightarrow> create_repository_invite_command
   \<Rightarrow> (domain_error, collaboration_state \<times> repository_invite) result" where
  "create_repository_invite s command =
     and_then (ensure_can_manage_members s (ua_id (cmd_owner command))) (\<lambda>_.
     and_then (validate_invite_email (cmd_invited_email command)) (\<lambda>normalized.
       if normalize_repository_invite_email (ua_email (cmd_owner command)) = normalized then
         Err (conflict ''repository owner cannot be invited'')
       else if (case cmd_invitee command of
                  Some invitee \<Rightarrow> cs_is_owner_user s (ua_id invitee) \<or> cs_member_for_user s (ua_id invitee) \<noteq> None
                | None \<Rightarrow> False) then
         Err (conflict ''user is already a repository member'')
       else if \<exists>invite \<in> set (cs_invitations s). ri_invited_email_normalized invite = normalized
              \<and> RepositoryInvite_state invite (cmd_now_unix command) = InvitePending then
         Err (conflict ''this email already has a pending invite; resend it, copy a link, or revoke it'')
       else and_then (RepositoryMemberPermissions_validate (cmd_permissions command) (cs_views s)) (\<lambda>_.
         let invite = \<lparr>ri_id = cmd_id command, ri_repo_id = rr_id (cs_record s),
               ri_invited_email = trim (cmd_invited_email command),
               ri_invited_email_normalized = normalized,
               ri_permissions = cmd_permissions command,
               ri_invited_by_user_id = ua_id (cmd_owner command),
               ri_link_hashes = [],
               ri_created_at_unix = cmd_now_unix command, ri_updated_at_unix = cmd_now_unix command,
               ri_expires_at_unix = cmd_now_unix command + REPOSITORY_INVITE_TTL_SECS,
               ri_accepted_by_user_id = None, ri_accepted_at_unix = None, ri_revoked_at_unix = None\<rparr>
         in Ok (cs_bump (with_invitations (sort_invitations (cs_invitations s @ [invite])) s), invite))))"

text \<open>\<^verbatim>\<open>pending_invite_mut\<close>: the position of the invite, so that the caller can write to it.\<close>

definition find_index :: "('a \<Rightarrow> bool) \<Rightarrow> 'a list \<Rightarrow> nat option" where
  "find_index P xs = find (\<lambda>i. P (xs ! i)) [0..<length xs]"

definition pending_invite_mut ::
  "collaboration_state \<Rightarrow> string \<Rightarrow> u64 \<Rightarrow> (domain_error, nat) result" where
  "pending_invite_mut s invite_id now_unix =
     (case find_index (\<lambda>invite. ri_id invite = invite_id) (cs_invitations s) of
        None \<Rightarrow> Err (not_found ''repository invite not found'')
      | Some index \<Rightarrow>
          if RepositoryInvite_state (cs_invitations s ! index) now_unix \<noteq> InvitePending then
            Err (conflict ''repository invite is no longer pending'')
          else Ok index)"

definition issue_repository_invite_link ::
  "collaboration_state \<Rightarrow> string \<Rightarrow> string \<Rightarrow> string \<Rightarrow> u64
   \<Rightarrow> (domain_error, collaboration_state \<times> repository_invite) result" where
  "issue_repository_invite_link s owner_user_id invite_id link_hash now_unix =
     and_then (ensure_can_manage_members s owner_user_id) (\<lambda>_.
     and_then (pending_invite_mut s invite_id now_unix) (\<lambda>index.
       let old = cs_invitations s ! index;
           invite = old\<lparr>ri_link_hashes := ri_link_hashes old @ [link_hash], ri_updated_at_unix := now_unix\<rparr>
       in Ok (cs_bump (with_invitations ((cs_invitations s)[index := invite]) s), invite)))"

definition repository_invite_landing ::
  "collaboration_state \<Rightarrow> repository_invite \<Rightarrow> user_account option \<Rightarrow> u64 \<Rightarrow> invite_landing" where
  "repository_invite_landing s invite viewer now_unix =
     (let viewer_has_access =
        (case viewer of
           Some v \<Rightarrow> cs_is_owner_user s (ua_id v) \<or> cs_member_for_user s (ua_id v) \<noteq> None
         | None \<Rightarrow> False)
      in case RepositoryInvite_state invite now_unix of
        InviteRevoked \<Rightarrow> LandingRevoked
      | InviteExpired \<Rightarrow> LandingExpired
      | InviteAccepted \<Rightarrow>
          if viewer_has_access then LandingMember
          else if (case viewer of Some v \<Rightarrow> ri_accepted_by_user_id invite = Some (ua_id v) | None \<Rightarrow> False)
          then LandingAccessRemoved
          else LandingUsed
      | InvitePending \<Rightarrow>
          if viewer_has_access then LandingMember
          else LandingOpen (case viewer of
              None \<Rightarrow> SignedOut
            | Some v \<Rightarrow>
                if normalize_repository_invite_email (ua_email v) \<noteq> ri_invited_email_normalized invite
                then WrongAccount
                else if \<not> ua_email_verified v then EmailUnverified
                else ViewerReady))"

definition accept_open_invite ::
  "collaboration_state \<Rightarrow> nat \<Rightarrow> user_account \<Rightarrow> u64
   \<Rightarrow> (domain_error, collaboration_state \<times> accept_repository_invite_outcome) result" where
  "accept_open_invite s index user now_unix =
     (let old = cs_invitations s ! index in
      if \<not> is_ok (RepositoryMemberPermissions_validate (ri_permissions old) (cs_views s)) then
        Err (conflict ''the invited view no longer exists; ask the owner for a new invite'')
      else let
        invite = old\<lparr>ri_accepted_by_user_id := Some (ua_id user), ri_accepted_at_unix := Some now_unix,
                     ri_updated_at_unix := now_unix\<rparr>;
        member = \<lparr>mem_repo_id = rr_id (cs_record s), mem_user_id = ua_id user,
                  mem_permissions = ri_permissions invite,
                  mem_created_at_unix = now_unix, mem_updated_at_unix = now_unix\<rparr>;
        s1 = with_invitations ((cs_invitations s)[index := invite]) s
      in Ok (cs_bump (with_members (sort_members (cs_members s1 @ [member])) s1), Accepted member))"

definition accept_repository_invite ::
  "collaboration_state \<Rightarrow> user_account \<Rightarrow> string \<Rightarrow> u64
   \<Rightarrow> (domain_error, collaboration_state \<times> accept_repository_invite_outcome) result" where
  "accept_repository_invite s user link_hash now_unix =
     (case find_index (\<lambda>invite. link_hash \<in> set (ri_link_hashes invite)) (cs_invitations s) of
        None \<Rightarrow> Err (not_found ''repository invite not found'')
      | Some index \<Rightarrow>
          (case repository_invite_landing s (cs_invitations s ! index) (Some user) now_unix of
             LandingOpen viewer \<Rightarrow>
               if viewer = ViewerReady then accept_open_invite s index user now_unix
               else Err (forbidden ''sign in with the verified invited email to accept this invite'')
           | LandingMember \<Rightarrow>
               (let accepted_here = (ri_accepted_by_user_id (cs_invitations s ! index) = Some (ua_id user))
                in case cs_member_for_user s (ua_id user) of
                     Some member \<Rightarrow>
                       if accepted_here then Ok (s, AlreadyAccepted member)
                       else Err (conflict ''user is already a repository member'')
                   | None \<Rightarrow> Err (conflict ''user is already a repository member''))
           | LandingExpired \<Rightarrow> Err (conflict ''repository invite expired'')
           | LandingRevoked \<Rightarrow> Err (conflict ''repository invite was revoked'')
           | LandingUsed \<Rightarrow> Err (conflict ''repository invite was already used'')
           | LandingAccessRemoved \<Rightarrow>
               Err (forbidden ''repository access was removed; ask the owner for a new invite'')))"

definition revoke_repository_invite ::
  "collaboration_state \<Rightarrow> string \<Rightarrow> string \<Rightarrow> u64
   \<Rightarrow> (domain_error, collaboration_state \<times> repository_invite) result" where
  "revoke_repository_invite s owner_user_id invite_id now_unix =
     and_then (ensure_can_manage_members s owner_user_id) (\<lambda>_.
     and_then (pending_invite_mut s invite_id now_unix) (\<lambda>index.
       let invite = (cs_invitations s ! index)\<lparr>ri_revoked_at_unix := Some now_unix, ri_updated_at_unix := now_unix\<rparr>
       in Ok (cs_bump (with_invitations ((cs_invitations s)[index := invite]) s), invite)))"

definition invite_prunable :: "u64 \<Rightarrow> repository_invite \<Rightarrow> bool" where
  "invite_prunable now_unix invite \<longleftrightarrow>
     saturating_add (RepositoryInvite_ended_at_unix invite) REPOSITORY_INVITE_RETENTION_SECS \<le> now_unix"

definition prune_ended_repository_invites ::
  "collaboration_state \<Rightarrow> u64 \<Rightarrow> collaboration_state \<times> repository_invite list" where
  "prune_ended_repository_invites s now_unix =
     (let pruned = filter (invite_prunable now_unix) (cs_invitations s);
          kept = filter (\<lambda>invite. \<not> invite_prunable now_unix invite) (cs_invitations s);
          s' = with_invitations kept s
      in (if pruned \<noteq> [] then cs_bump s' else s', pruned))"

definition update_repository_member_permissions ::
  "collaboration_state \<Rightarrow> string \<Rightarrow> string \<Rightarrow> repository_member_permissions \<Rightarrow> u64
   \<Rightarrow> (domain_error, collaboration_state \<times> repository_member) result" where
  "update_repository_member_permissions s owner_user_id member_user_id permissions now_unix =
     and_then (ensure_can_manage_members s owner_user_id) (\<lambda>_.
     and_then (RepositoryMemberPermissions_validate permissions (cs_views s)) (\<lambda>_.
       case find_index (\<lambda>member. mem_user_id member = member_user_id) (cs_members s) of
         None \<Rightarrow> Err (not_found ''repository member not found'')
       | Some index \<Rightarrow>
           let member = (cs_members s ! index)\<lparr>mem_permissions := permissions, mem_updated_at_unix := now_unix\<rparr>
           in Ok (cs_bump (with_members ((cs_members s)[index := member]) s), member)))"

definition remove_repository_member ::
  "collaboration_state \<Rightarrow> string \<Rightarrow> string
   \<Rightarrow> (domain_error, collaboration_state \<times> repository_member) result" where
  "remove_repository_member s owner_user_id member_user_id =
     and_then (ensure_can_manage_members s owner_user_id) (\<lambda>_.
       case find_index (\<lambda>member. mem_user_id member = member_user_id) (cs_members s) of
         None \<Rightarrow> Err (not_found ''repository member not found'')
       | Some index \<Rightarrow>
           Ok (cs_bump (with_members (take index (cs_members s) @ drop (index + 1) (cs_members s)) s),
               cs_members s ! index))"

section \<open>Runs of operations\<close>

inductive collab_step :: "u64 \<Rightarrow> collaboration_state \<Rightarrow> collaboration_state \<Rightarrow> bool" where
  create: "create_repository_invite s command = Inr (s', i) \<Longrightarrow> cmd_now_unix command = now \<Longrightarrow> collab_step now s s'"
| issue: "issue_repository_invite_link s u i h now = Inr (s', iv) \<Longrightarrow> collab_step now s s'"
| accept: "accept_repository_invite s u h now = Inr (s', out) \<Longrightarrow> collab_step now s s'"
| revoke: "revoke_repository_invite s u i now = Inr (s', iv) \<Longrightarrow> collab_step now s s'"
| prune: "prune_ended_repository_invites s now = (s', pruned) \<Longrightarrow> collab_step now s s'"
| update: "update_repository_member_permissions s u m p now = Inr (s', mem) \<Longrightarrow> collab_step now s s'"
| remove: "remove_repository_member s u m = Inr (s', mem) \<Longrightarrow> collab_step now s s'"

inductive collab_reachable :: "u64 \<Rightarrow> collaboration_state \<Rightarrow> bool" where
  start: "cs_members s = [] \<Longrightarrow> cs_invitations s = [] \<Longrightarrow> collab_reachable now s"
| step: "collab_reachable t s \<Longrightarrow> t \<le> now \<Longrightarrow> collab_step now s s' \<Longrightarrow> collab_reachable now s'"

inductive_cases collab_stepE: "collab_step now s s'"

definition members_ok :: "string \<Rightarrow> views \<Rightarrow> repository_member list \<Rightarrow> bool" where
  "members_ok owner views ms \<longleftrightarrow>
     distinct (map mem_user_id ms) \<and> owner \<notin> mem_user_id ` set ms
     \<and> (\<forall>m \<in> set ms. RepositoryMemberPermissions_validate (mem_permissions m) views = Inr ())"

definition pending_for :: "u64 \<Rightarrow> string \<Rightarrow> repository_invite \<Rightarrow> bool" where
  "pending_for now email i \<longleftrightarrow>
     ri_invited_email_normalized i = email \<and> RepositoryInvite_state i now = InvitePending"

definition invites_ok :: "u64 \<Rightarrow> repository_invite list \<Rightarrow> bool" where
  "invites_ok now is \<longleftrightarrow> (\<forall>email. length (filter (pending_for now email) is) \<le> 1)"

definition collab_ok :: "u64 \<Rightarrow> collaboration_state \<Rightarrow> bool" where
  "collab_ok now s \<longleftrightarrow>
     members_ok (rr_owner_user_id (cs_record s)) (cs_views s) (cs_members s) \<and> invites_ok now (cs_invitations s)"

lemmas members_lemmas = members_ok_def sort_members_def

lemma cs_bump_simps [simp]:
  "cs_views (cs_bump s) = cs_views s" "cs_collaboration (cs_bump s) = cs_collaboration s"
  "rr_owner_user_id (cs_record (cs_bump s)) = rr_owner_user_id (cs_record s)"
  by (simp_all add: cs_bump_def RepoRecord_bump_change_version_def)

lemma find_index_SomeD: "find_index P xs = Some i \<Longrightarrow> i < length xs \<and> P (xs ! i)"
  by (auto simp: find_index_def find_Some_iff)

lemma cs_member_None_iff: "cs_member_for_user s u = None \<longleftrightarrow> u \<notin> mem_user_id ` set (cs_members s)"
  by (auto simp: cs_member_for_user_def RepositoryCollaboration_member_for_user_def find_None_iff)

lemma filter_length_update:
  assumes "P y \<longrightarrow> P (xs ! i)" and "i < length xs"
  shows "length (filter P (xs[i := y])) \<le> length (filter P xs)"
proof -
  have xs: "xs = take i xs @ xs ! i # drop (Suc i) xs" and u: "xs[i := y] = take i xs @ y # drop (Suc i) xs"
    using assms(2) by (simp_all add: id_take_nth_drop [symmetric] upd_conv_take_nth_drop)
  have "length (filter P (take i xs @ y # drop (Suc i) xs))
      \<le> length (filter P (take i xs @ xs ! i # drop (Suc i) xs))"
    using assms(1) by auto
  then show ?thesis using xs u by simp
qed

lemma invites_ok_update:
  assumes "invites_ok now is" and "k < length is"
    and "\<And>email. pending_for now email i \<Longrightarrow> pending_for now email (is ! k)"
  shows "invites_ok now (is[k := i])"
  unfolding invites_ok_def
proof
  fix email
  have "length (filter (pending_for now email) (is[k := i])) \<le> length (filter (pending_for now email) is)"
    using assms(2,3) by (intro filter_length_update) blast+
  also have "\<dots> \<le> 1" using assms(1) by (simp add: invites_ok_def)
  finally show "length (filter (pending_for now email) (is[k := i])) \<le> 1" .
qed

lemma invites_ok_later: "invites_ok t is \<Longrightarrow> t \<le> now \<Longrightarrow> invites_ok now is"
proof -
  assume ok: "invites_ok t is" and le: "t \<le> now"
  have imp: "pending_for now email i \<Longrightarrow> pending_for t email i" for email i
    using le by (auto simp: pending_for_def RepositoryInvite_state_def split: if_splits)
  have "length (filter (pending_for now email) is) \<le> length (filter (pending_for t email) is)" for email
    using imp by (induction "is") auto
  then show ?thesis using ok unfolding invites_ok_def by (meson order_trans)
qed

lemma invites_ok_sort: "invites_ok now (sort_invitations is) \<longleftrightarrow> invites_ok now is"
proof -
  have "length (filter P (sort_invitations is)) = length (filter P is)" for P
    by (metis mset_filter mset_sort size_mset sort_invitations_def)
  then show ?thesis by (simp add: invites_ok_def)
qed

lemma members_ok_sort: "members_ok o' v (sort_members ms) \<longleftrightarrow> members_ok o' v ms"
proof -
  have "mset (map mem_user_id (sort_members ms)) = mset (map mem_user_id ms)"
    by (simp add: sort_members_def)
  then show ?thesis
    by (metis (no_types, lifting) members_ok_def mset_eq_imp_distinct_iff set_sort sort_members_def)
qed

subsection \<open>Each operation keeps the invariant\<close>

lemma create_keeps:
  assumes "create_repository_invite s command = Inr (s', i)" and "collab_ok now s" and "cmd_now_unix command = now"
  shows "collab_ok now s'"
proof -
  obtain normalized where
    free: "\<forall>invite \<in> set (cs_invitations s). \<not> pending_for now normalized invite"
    and i: "ri_invited_email_normalized i = normalized"
    and s': "s' = cs_bump (with_invitations (sort_invitations (cs_invitations s @ [i])) s)"
    using assms(1,3)
    by (auto simp: create_repository_invite_def and_then_Ok_iff Let_def pending_for_def split: if_splits)
  have "length (filter (pending_for now email) (cs_invitations s @ [i])) \<le> 1" for email
  proof (cases "pending_for now email i")
    case True
    then have "email = normalized" using i by (simp add: pending_for_def)
    then have "filter (pending_for now email) (cs_invitations s) = []" using free by (simp add: filter_empty_conv)
    then show ?thesis by simp
  next
    case False
    then show ?thesis using assms(2) by (simp add: collab_ok_def invites_ok_def)
  qed
  then have "invites_ok now (sort_invitations (cs_invitations s @ [i]))"
    unfolding invites_ok_sort by (simp add: invites_ok_def)
  with assms(2) s' show ?thesis by (simp add: collab_ok_def)
qed

lemma pending_invite_mut_OkD:
  "pending_invite_mut s i now = Inr k \<Longrightarrow>
   k < length (cs_invitations s) \<and> RepositoryInvite_state (cs_invitations s ! k) now = InvitePending"
  by (auto simp: pending_invite_mut_def dest: find_index_SomeD split: option.splits if_splits)

lemma issue_keeps:
  assumes "issue_repository_invite_link s u i h now = Inr (s', iv)" and "collab_ok now s"
  shows "collab_ok now s'"
proof -
  obtain k where k: "pending_invite_mut s i now = Inr k"
    and s': "s' = cs_bump (with_invitations ((cs_invitations s)[k := (cs_invitations s ! k)
        \<lparr>ri_link_hashes := ri_link_hashes (cs_invitations s ! k) @ [h], ri_updated_at_unix := now\<rparr>]) s)"
    using assms(1) by (auto simp: issue_repository_invite_link_def and_then_Ok_iff Let_def)
  from pending_invite_mut_OkD [OF k] show ?thesis
    using assms(2) s'
    by (auto simp: collab_ok_def pending_for_def RepositoryInvite_state_def intro!: invites_ok_update)
qed

lemma revoke_keeps:
  assumes "revoke_repository_invite s u i now = Inr (s', iv)" and "collab_ok now s"
  shows "collab_ok now s'"
proof -
  obtain k where k: "pending_invite_mut s i now = Inr k"
    and s': "s' = cs_bump (with_invitations ((cs_invitations s)[k := (cs_invitations s ! k)
        \<lparr>ri_revoked_at_unix := Some now, ri_updated_at_unix := now\<rparr>]) s)"
    using assms(1) by (auto simp: revoke_repository_invite_def and_then_Ok_iff Let_def)
  from pending_invite_mut_OkD [OF k] show ?thesis
    using assms(2) s'
    by (auto simp: collab_ok_def pending_for_def RepositoryInvite_state_def intro!: invites_ok_update)
qed

text \<open>An invite is opened only by its verified addressee, while pending, and only for a newcomer.\<close>

lemma landing_openD:
  assumes "repository_invite_landing s i (Some u) now = LandingOpen ViewerReady"
  shows "RepositoryInvite_state i now = InvitePending" and "\<not> cs_is_owner_user s (ua_id u)"
    and "cs_member_for_user s (ua_id u) = None" and "ua_email_verified u"
    and "normalize_repository_invite_email (ua_email u) = ri_invited_email_normalized i"
  using assms
  by (auto simp: repository_invite_landing_def Let_def split: repository_invite_state.splits if_splits)

lemma accept_cases:
  assumes "accept_repository_invite s u h now = Inr (s', out)"
  obtains (already) m where "s' = s" "out = AlreadyAccepted m" "cs_member_for_user s (ua_id u) = Some m"
  | (accepted) k m where "k < length (cs_invitations s)"
      "find_index (\<lambda>invite. h \<in> set (ri_link_hashes invite)) (cs_invitations s) = Some k"
      "repository_invite_landing s (cs_invitations s ! k) (Some u) now = LandingOpen ViewerReady"
      "is_ok (RepositoryMemberPermissions_validate (ri_permissions (cs_invitations s ! k)) (cs_views s))"
      "m = \<lparr>mem_repo_id = rr_id (cs_record s), mem_user_id = ua_id u,
            mem_permissions = ri_permissions (cs_invitations s ! k),
            mem_created_at_unix = now, mem_updated_at_unix = now\<rparr>"
      "out = Accepted m"
      "cs_members s' = sort_members (cs_members s @ [m])"
      "cs_invitations s' = (cs_invitations s)[k := (cs_invitations s ! k)
         \<lparr>ri_accepted_by_user_id := Some (ua_id u), ri_accepted_at_unix := Some now, ri_updated_at_unix := now\<rparr>]"
      "cs_views s' = cs_views s" "rr_owner_user_id (cs_record s') = rr_owner_user_id (cs_record s)"
proof -
  obtain k where k: "find_index (\<lambda>invite. h \<in> set (ri_link_hashes invite)) (cs_invitations s) = Some k"
    using assms by (auto simp: accept_repository_invite_def split: option.splits)
  have rest: "(case repository_invite_landing s (cs_invitations s ! k) (Some u) now of
      LandingOpen viewer \<Rightarrow> viewer = ViewerReady \<and> accept_open_invite s k u now = Inr (s', out)
    | LandingMember \<Rightarrow> s' = s \<and> (\<exists>m. out = AlreadyAccepted m \<and> cs_member_for_user s (ua_id u) = Some m)
    | _ \<Rightarrow> False)"
    using assms k by (auto simp: accept_repository_invite_def Let_def
        split: invite_landing.splits if_splits option.splits)
  show thesis
  proof (cases "repository_invite_landing s (cs_invitations s ! k) (Some u) now")
    case (LandingOpen viewer)
    then show thesis
      using rest k find_index_SomeD [OF k] accepted [of k]
      by (auto simp: accept_open_invite_def Let_def split: if_splits)
  next
    case LandingMember
    then show thesis using rest already by auto
  qed (use rest in auto)
qed

lemma accepted_not_pending:
  "RepositoryInvite_state (i\<lparr>ri_accepted_by_user_id := a, ri_accepted_at_unix := Some t, ri_updated_at_unix := t\<rparr>) now
   \<noteq> InvitePending"
  by (simp add: RepositoryInvite_state_def)

lemma accept_keeps:
  assumes "accept_repository_invite s u h now = Inr (s', out)" and "collab_ok now s"
  shows "collab_ok now s'"
  using assms(1)
proof (cases rule: accept_cases)
  case (accepted k m)
  have "members_ok (rr_owner_user_id (cs_record s)) (cs_views s) (cs_members s @ [m])"
    using landing_openD(2,3) [OF accepted(3)] accepted(4,5) assms(2)
    by (auto simp: collab_ok_def members_ok_def cs_member_None_iff cs_is_owner_user_def is_ok_iff)
  moreover have "invites_ok now (cs_invitations s')"
    unfolding accepted(8) using assms(2) accepted(1)
    by (intro invites_ok_update) (simp_all add: collab_ok_def pending_for_def accepted_not_pending)
  ultimately show ?thesis
    using accepted(7,9,10) by (simp add: collab_ok_def members_ok_sort)
qed (use assms(2) in simp)

lemma prune_keeps:
  assumes "prune_ended_repository_invites s now = (s', pruned)" and "collab_ok now s"
  shows "collab_ok now s'"
proof -
  have "length (filter P (filter Q is)) \<le> length (filter P is)" for P Q :: "repository_invite \<Rightarrow> bool" and "is"
    by (induction "is") auto
  then have "invites_ok now (filter Q is)" if "invites_ok now is" for Q "is"
    using that unfolding invites_ok_def by (meson order_trans)
  with assms show ?thesis
    by (auto simp: prune_ended_repository_invites_def collab_ok_def Let_def split: if_splits)
qed

lemma update_keeps:
  assumes "update_repository_member_permissions s u m p now = Inr (s', mem)" and "collab_ok now s"
  shows "collab_ok now s'"
proof -
  obtain k where k: "k < length (cs_members s)"
    and p: "RepositoryMemberPermissions_validate p (cs_views s) = Inr ()"
    and s': "s' = cs_bump (with_members ((cs_members s)[k := (cs_members s ! k)
        \<lparr>mem_permissions := p, mem_updated_at_unix := now\<rparr>]) s)"
    using assms(1) find_index_SomeD
    by (fastforce simp: update_repository_member_permissions_def and_then_Ok_iff Let_def split: option.splits)
  have ids: "map mem_user_id (cs_members s') = map mem_user_id (cs_members s)"
    using k by (simp add: s' map_update list_update_same_conv)
  have "set (cs_members s') \<subseteq> insert (cs_members s' ! k) (set (cs_members s))"
    using k by (auto simp: s' dest: set_update_subset_insert [THEN subsetD])
  then show ?thesis
    using assms(2) p ids k unfolding collab_ok_def members_ok_def
    by (auto simp: s' simp del: set_map simp flip: set_map)
qed

lemma remove_keeps:
  assumes "remove_repository_member s u m = Inr (s', mem)" and "collab_ok now s"
  shows "collab_ok now s'"
proof -
  obtain k where s': "s' = cs_bump (with_members (take k (cs_members s) @ drop (k + 1) (cs_members s)) s)"
    using assms(1) by (auto simp: remove_repository_member_def and_then_Ok_iff split: option.splits)
  let ?ms = "take k (cs_members s) @ drop (k + 1) (cs_members s)"
  have "set ?ms \<subseteq> set (cs_members s)" by (auto dest: in_set_takeD in_set_dropD)
  moreover have "distinct (map mem_user_id ?ms)" if "distinct (map mem_user_id (cs_members s))"
  proof -
    have "set (take k (map mem_user_id (cs_members s))) \<inter> set (drop (k + 1) (map mem_user_id (cs_members s))) = {}"
      using that by (simp add: set_take_disj_set_drop_if_distinct)
    with that show ?thesis by (simp flip: take_map drop_map)
  qed
  ultimately show ?thesis
    using assms(2) by (auto simp: s' collab_ok_def members_ok_def)
qed

lemmas collab_keeps = create_keeps issue_keeps accept_keeps revoke_keeps prune_keeps update_keeps remove_keeps

lemma collab_step_keeps: "collab_step now s s' \<Longrightarrow> collab_ok now s \<Longrightarrow> collab_ok now s'"
  by (erule collab_stepE) (blast intro: collab_keeps)+

lemma collab_reachable_ok: "collab_reachable now s \<Longrightarrow> collab_ok now s"
proof (induction rule: collab_reachable.induct)
  case (start s now)
  then show ?case by (simp add: collab_ok_def members_ok_def invites_ok_def)
next
  case (step t s now s')
  have "collab_ok now s" using step.IH step.hyps(2) by (auto simp: collab_ok_def intro: invites_ok_later)
  with step.hyps(3) show ?case by (rule collab_step_keeps)
qed

lemma find_index_update:
  assumes "P y \<longleftrightarrow> P (xs ! k)"
  shows "find_index P (xs[k := y]) = find_index P xs"
proof -
  have "P (xs[k := y] ! i) = P (xs ! i)" for i
    using assms by (cases "k < length xs") (auto simp: nth_list_update list_update_beyond)
  then show ?thesis by (simp add: find_index_def)
qed

lemma find_unique:
  assumes "m \<in> set xs" and "P m" and "\<And>m'. m' \<in> set xs \<Longrightarrow> P m' \<Longrightarrow> m' = m"
  shows "find P xs = Some m"
proof -
  obtain m' where "find P xs = Some m'"
    using assms(1,2) find_ex_iff [of P xs] by blast
  with assms(3) find_SomeD [OF this] show ?thesis by simp
qed

subsection \<open>Properties\<close>

text \<open>
  Whatever sequence of collaboration operations ran, with time that does not go backwards: no user is a
  member twice, the owner is never also a member, every member holds permissions that the repository's
  views allow, and no email address has two pending invites.
\<close>

theorem collaboration_invariant:
  assumes "collab_reachable now s"
  shows "distinct (map mem_user_id (cs_members s))
    \<and> rr_owner_user_id (cs_record s) \<notin> mem_user_id ` set (cs_members s)
    \<and> (\<forall>m \<in> set (cs_members s). is_ok (RepositoryMemberPermissions_validate (mem_permissions m) (cs_views s)))
    \<and> (\<forall>email. length (filter (pending_for now email) (cs_invitations s)) \<le> 1)"
  using collab_reachable_ok [OF assms] by (simp add: collab_ok_def members_ok_def invites_ok_def)

definition example_owner :: user_account where
  "example_owner = \<lparr>ua_id = ''o'', ua_handle = ''owner'', ua_email = ''o@x'', ua_email_verified = True\<rparr>"

definition example_guest :: user_account where
  "example_guest = \<lparr>ua_id = ''g'', ua_handle = ''guest'', ua_email = ''G@x'', ua_email_verified = True\<rparr>"

definition example_collab :: collaboration_state where
  "example_collab =
     \<lparr>cs_record = \<lparr>rr_id = ''owner/r'', rr_incarnation_id = ''i'', rr_owner_handle = ''owner'', rr_name = ''r'',
        rr_owner_user_id = ''o'', rr_description = None, rr_website_url = None,
        rr_lifecycle_state = RepoReady, rr_change_version = 1, rr_content_version = 1\<rparr>,
      cs_views = Views_builtin, cs_collaboration = \<lparr>co_members = [], co_invitations = []\<rparr>\<rparr>"

definition example_invite :: repository_invite where
  "example_invite =
     \<lparr>ri_id = ''inv'', ri_repo_id = ''owner/r'', ri_invited_email = ''g@x'', ri_invited_email_normalized = ''g@x'',
      ri_permissions = RepositoryMemberPermissions_default, ri_invited_by_user_id = ''o'', ri_link_hashes = [''h''],
      ri_created_at_unix = 5, ri_updated_at_unix = 6, ri_expires_at_unix = 604805,
      ri_accepted_by_user_id = None, ri_accepted_at_unix = None, ri_revoked_at_unix = None\<rparr>"

lemma default_permissions_valid:
  "RepositoryMemberPermissions_validate RepositoryMemberPermissions_default Views_builtin = Inr ()"
  by (simp add: RepositoryMemberPermissions_validate_def RepositoryMemberPermissions_default_def
      Views_get_def Views_builtin_def)

lemma example_email:
  "validate_invite_email ''g@x'' = Inr ''g@x''" "normalize_repository_invite_email ''G@x'' = ''g@x''"
  "normalize_repository_invite_email ''o@x'' = ''o@x''" "trim ''g@x'' = ''g@x''"
proof -
  have "map to_ascii_lowercase ''G@x'' = ''g@x''" "map to_ascii_lowercase ''g@x'' = ''g@x''"
    "map to_ascii_lowercase ''o@x'' = ''o@x''" by code_simp+
  moreover have "trim ''g@x'' = ''g@x''" "trim ''G@x'' = ''G@x''" "trim ''o@x'' = ''o@x''"
    by (simp_all add: trim_visible visible_ascii_def)
  ultimately show "validate_invite_email ''g@x'' = Inr ''g@x''"
    "normalize_repository_invite_email ''G@x'' = ''g@x''"
    "normalize_repository_invite_email ''o@x'' = ''o@x''" "trim ''g@x'' = ''g@x''"
    by (simp_all add: validate_invite_email_def normalize_repository_invite_email_def)
qed

lemma example_created:
  "create_repository_invite example_collab
     \<lparr>cmd_id = ''inv'', cmd_owner = example_owner, cmd_invited_email = ''g@x'', cmd_invitee = Some example_guest,
      cmd_permissions = RepositoryMemberPermissions_default, cmd_now_unix = 5\<rparr>
   = Inr (cs_bump (with_invitations [example_invite\<lparr>ri_link_hashes := [], ri_updated_at_unix := 5\<rparr>] example_collab),
          example_invite\<lparr>ri_link_hashes := [], ri_updated_at_unix := 5\<rparr>)"
  by (simp add: create_repository_invite_def ensure_can_manage_members_def cs_access_for_user_id_def
      repository_access_for_user_id_def cs_is_owner_user_def cs_member_for_user_def default_permissions_valid
      RepositoryCollaboration_member_for_user_def example_collab_def example_owner_def example_guest_def
      example_invite_def example_email REPOSITORY_INVITE_TTL_SECS_def sort_invitations_def Let_def)

lemma collaboration_invariant_witness:
  "\<exists>s. collab_reachable 5 s \<and> cs_invitations s \<noteq> []
     \<and> length (filter (pending_for 5 ''g@x'') (cs_invitations s)) \<le> 1"
proof -
  let ?s = "cs_bump (with_invitations [example_invite\<lparr>ri_link_hashes := [], ri_updated_at_unix := 5\<rparr>] example_collab)"
  have "collab_reachable 5 example_collab"
    by (rule collab_reachable.start) (simp_all add: example_collab_def)
  then have r: "collab_reachable 5 ?s"
    by (rule collab_reachable.step [OF _ order_refl collab_step.create [OF example_created]]) simp
  have "length (filter (pending_for 5 ''g@x'') (cs_invitations ?s)) \<le> 1"
    using collaboration_invariant [OF r] by blast
  with r show ?thesis by (intro exI [of _ ?s]) simp
qed

text \<open>
  Accepting an invite. When \<^verbatim>\<open>accept_repository_invite\<close> reports a new member, the link belongs to an invite that
  was pending and addressed to the user's verified email, the user was neither owner nor member before, the
  member holds exactly the invited permissions, and accepting again, at any later time, changes nothing and
  returns the same member.
\<close>

theorem accept_invite_correct:
  assumes "accept_repository_invite s u h now = Inr (s', Accepted m)"
  shows "(\<exists>i \<in> set (cs_invitations s). h \<in> set (ri_link_hashes i)
      \<and> RepositoryInvite_state i now = InvitePending \<and> ua_email_verified u
      \<and> normalize_repository_invite_email (ua_email u) = ri_invited_email_normalized i
      \<and> mem_permissions m = ri_permissions i)
    \<and> mem_user_id m = ua_id u \<and> cs_member_for_user s (ua_id u) = None \<and> \<not> cs_is_owner_user s (ua_id u)
    \<and> cs_member_for_user s' (ua_id u) = Some m
    \<and> (\<forall>later. accept_repository_invite s' u h later = Inr (s', AlreadyAccepted m))"
  using assms
proof (cases rule: accept_cases)
  case (accepted k m')
  then have m: "m' = m" by simp
  note l = landing_openD [OF accepted(3)]
  have new: "cs_member_for_user s' (ua_id u) = Some m"
    using l(3) accepted(5,7) m
    by (auto simp: cs_member_for_user_def RepositoryCollaboration_member_for_user_def sort_members_def
        find_None_iff intro!: find_unique)
  let ?i = "(cs_invitations s ! k)\<lparr>ri_accepted_by_user_id := Some (ua_id u), ri_accepted_at_unix := Some now,
     ri_updated_at_unix := now\<rparr>"
  have ki: "find_index (\<lambda>i. h \<in> set (ri_link_hashes i)) (cs_invitations s') = Some k" "cs_invitations s' ! k = ?i"
    using accepted(1,2,8) by (simp_all add: find_index_update)
  have "ri_revoked_at_unix (cs_invitations s ! k) = None"
    using l(1) by (auto simp: RepositoryInvite_state_def split: if_splits)
  then have "RepositoryInvite_state ?i later = InviteAccepted" for later
    by (simp add: RepositoryInvite_state_def)
  then have "accept_repository_invite s' u h later = Inr (s', AlreadyAccepted m)" for later
    using ki new by (simp add: accept_repository_invite_def repository_invite_landing_def)
  moreover have "cs_invitations s ! k \<in> set (cs_invitations s)" "h \<in> set (ri_link_hashes (cs_invitations s ! k))"
    using find_index_SomeD [OF accepted(2)] by simp_all
  ultimately show ?thesis
    using l accepted(5) m new by auto
qed simp

lemma accept_invite_correct_witness:
  "\<exists>s' m. accept_repository_invite (with_invitations [example_invite] example_collab) example_guest ''h'' 7
       = Inr (s', Accepted m)
     \<and> accept_repository_invite s' example_guest ''h'' 8 = Inr (s', AlreadyAccepted m)"
proof -
  have "\<exists>s' m. accept_repository_invite (with_invitations [example_invite] example_collab) example_guest ''h'' 7
       = Inr (s', Accepted m)"
    by (simp add: accept_repository_invite_def accept_open_invite_def repository_invite_landing_def
        RepositoryInvite_state_def find_index_def cs_is_owner_user_def cs_member_for_user_def
        RepositoryCollaboration_member_for_user_def example_collab_def example_guest_def example_invite_def
        example_email default_permissions_valid Let_def)
  with accept_invite_correct show ?thesis by blast
qed

end
