(* ===== verification/Update_Properties.thy ===== *)
theory Update_Properties
  imports Live_Views Label_Properties
begin

text \<open>
  The promises of reviewed updates: who may make one, what a merged request can touch, when a view may be removed
  and what a history rewrite erases.
\<close>

section \<open>Authorization\<close>

text \<open>
  Who may update main and change the configuration. With the push policy the repository computes for a user,
  an update is authorized only for the owner's first push or for someone who reads the full view of a ready
  repository and may push; a member who may not change file visibility cannot change the configuration with it.
\<close>

theorem authorized_update_correct:
  assumes "views_ok (rc_views (rp_config repo))"
    and "pol = Repository_push_policy_for_user_id repo user_id"
    and "authorize_reviewed_update \<lparr>rau_access = rpp_access pol, rau_push_mode = rpp_mode pol,
      rau_current_config = rp_config repo, rau_proposed_config = proposed\<rparr> = Inr ()"
  shows "(is_waiting_for_first_push repo \<and> Repository_is_owner_user repo user_id
      \<or> rr_lifecycle_state (rp_record repo) = RepoReady \<and> ra_can_push (rpp_access pol)
        \<and> reads_full_view (rpp_access pol) (rc_views (rp_config repo)))
    \<and> (proposed = rp_config repo \<or> Repository_is_owner_user repo user_id
        \<or> (\<exists>member. RepositoryCollaboration_member_for_user (rp_collaboration repo) user_id = Some member
             \<and> mp_can_change_file_visibility (mem_permissions member)))"
proof -
  let ?mode = "rpp_mode pol" and ?acc = "rpp_access pol"
  have mode: "?mode = FirstPush \<or> ?mode = PushReady"
    and perm: "ra_can_change_file_visibility ?acc \<or> proposed = rp_config repo"
    using assms(3) by (auto simp: authorize_reviewed_update_def split: push_mode.split_asm if_split_asm)
  have m: "?mode = main_push_mode ?acc (rr_lifecycle_state (rp_record repo)) (rc_views (rp_config repo))"
    by (simp add: assms(2) Repository_push_policy_for_user_id_def repository_push_policy_for_user_id_def Let_def)
  have owner: "ra_actor ?acc = ActorOwner \<longleftrightarrow> Repository_is_owner_user repo user_id"
    by (auto simp: assms(2) Repository_push_policy_for_user_id_def repository_push_policy_for_user_id_def Let_def
        repository_access_for_user_id_def RepositoryAccess_public_def Repository_is_owner_user_def split: option.splits)
  have "is_waiting_for_first_push repo \<and> Repository_is_owner_user repo user_id
      \<or> rr_lifecycle_state (rp_record repo) = RepoReady \<and> ra_can_push ?acc \<and> reads_full_view ?acc (rc_views (rp_config repo))"
    using mode owner
    by (auto simp: m main_push_mode_def reads_full_iff [OF assms(1)] is_waiting_for_first_push_def split: if_splits)
  moreover have "ra_can_change_file_visibility ?acc \<longrightarrow> Repository_is_owner_user repo user_id
      \<or> (\<exists>member. RepositoryCollaboration_member_for_user (rp_collaboration repo) user_id = Some member
           \<and> mp_can_change_file_visibility (mem_permissions member))"
    by (auto simp: assms(2) Repository_push_policy_for_user_id_def repository_push_policy_for_user_id_def Let_def
        repository_access_for_user_id_def RepositoryAccess_public_def Repository_is_owner_user_def
        split: option.splits if_splits)
  ultimately show ?thesis using perm by blast
qed

lemma authorized_update_correct_witness:
  "is_waiting_for_first_push demo_repo \<and> Repository_is_owner_user demo_repo ''o''"
proof -
  let ?p = "Repository_push_policy_for_user_id demo_repo ''o''"
  have "views_ok (rc_views (rp_config demo_repo))" by (simp add: demo_repo_def RepoConfig_with_default_view_def)
  moreover have "authorize_reviewed_update \<lparr>rau_access = rpp_access ?p, rau_push_mode = rpp_mode ?p,
      rau_current_config = rp_config demo_repo, rau_proposed_config = rp_config demo_repo\<rparr> = Inr ()"
    by (simp add: authorize_reviewed_update_def Repository_push_policy_for_user_id_def
        repository_push_policy_for_user_id_def repository_access_for_user_id_def main_push_mode_def demo_repo_def)
  moreover have "rr_lifecycle_state (rp_record demo_repo) = AwaitingFirstPush" by (simp add: demo_repo_def)
  ultimately show ?thesis using authorized_update_correct [OF _ refl] by fastforce
qed

section \<open>Removing a view\<close>

lemma get_None_iff: "Views_get v i = None \<longleftrightarrow> i \<notin> vd_id ` set (view_defs v)"
  by (auto simp: Views_get_def find_None_iff)

text \<open>
  A view disappears only when nothing uses it. When the step from the current views to those of the next
  configuration is accepted, a view defined now and not afterwards is not the full view, no member is assigned
  to it, no request is open in it, no live file is labelled with it, and the next configuration neither names
  it in a rule nor makes it the default.
\<close>

theorem removed_view_unused:
  assumes "views_transition_of repo new open_requests = Inr transition"
    and "views_ok (rc_views (rp_config repo))" and "views_ok (rc_views new)"
    and "Views_get (rc_views (rp_config repo)) removed \<noteq> None" and "Views_get (rc_views new) removed = None"
  shows "removed \<noteq> Views_full (rc_views (rp_config repo))
    \<and> (\<forall>member \<in> set (co_members (rp_collaboration repo)). mp_view (mem_permissions member) \<noteq> removed)
    \<and> bt_get open_requests removed \<in> {None, Some 0}
    \<and> (\<forall>(path, blob) \<in> set (rp_live_files repo).
         Policy_label (rp_policy repo) path (rc_views (rp_config repo)) \<noteq> removed)
    \<and> (\<forall>path. \<not> is_repo_control_path path \<longrightarrow> label_for_path new path \<noteq> removed)"
proof -
  let ?old_views = "rc_views (rp_config repo)"
  have "visibility_shape ?old_views \<noteq> visibility_shape (rc_views new)"
    using assms(4,5) shape_get [OF assms(2), of removed] shape_get [OF assms(3), of removed] by auto
  then have "\<forall>i \<in> set (filter (\<lambda>i. Views_get (rc_views new) i = None) (map vd_id (view_defs ?old_views))).
      ensure_view_removable repo new ?old_views i open_requests = Inr ()"
    using assms(1) by (auto simp: views_transition_of_def Let_def and_then_Ok_iff check_all_Ok_iff)
  then have "ensure_view_removable repo new ?old_views removed open_requests = Inr ()"
    using assms(4,5) by (auto simp: get_None_iff)
  then have r: "view_removal_refusal repo new ?old_views removed open_requests = None"
    by (simp add: ensure_view_removable_def split: option.splits)
  have u: "(\<forall>r \<in> set (rcf_rules (rc_files new)). rcr_view r \<noteq> removed) \<and> rcf_default (rc_files new) \<noteq> removed"
    using r by (auto simp: view_removal_refusal_def split: if_splits)
  have "label_for_path new path \<noteq> removed" if "\<not> is_repo_control_path path" for path
  proof (cases "\<forall>r \<in> set (rcf_rules (rc_files new)). \<not> pattern_matches_path (rcr_path r) (as_str path)")
    case True
    with label_for_path_default [OF that] u show ?thesis by simp
  next
    case False
    then obtain i where i: "wins (as_str path) None (rcf_rules (rc_files new)) i" using wins_exists by blast
    then have "i < length (rcf_rules (rc_files new))" by (simp add: wins_def considered_def)
    with label_for_path_wins [OF that i] u show ?thesis by simp
  qed
  with r show ?thesis
    by (auto simp: view_removal_refusal_def split: if_splits option.splits)
qed

text \<open>The built-in views with a third, assigned view that reads the public one.\<close>

definition agent_view :: view_id where "agent_view = ViewId ''agent''"

definition agent_views :: views where
  "agent_views = Views (view_defs Views_builtin @
     [\<lparr>vd_id = agent_view, vd_name = ''Agent'', vd_includes = IncludesSome [ViewId_public], vd_readers = Assigned\<rparr>])"

lemma agent_views_ok [simp]: "views_ok agent_views"
  by (simp add: views_ok_def agent_views_def Views_builtin_def agent_view_def view_id_defs MAX_VIEWS_def)

definition agent_repo :: repository where
  "agent_repo = demo_repo\<lparr>rp_config := (rp_config demo_repo)\<lparr>rc_views := agent_views\<rparr>\<rparr>"

lemma agent_repo_views [simp]: "rc_views (rp_config agent_repo) = agent_views"
  by (simp add: agent_repo_def)

lemma removed_view_unused_witness:
  "\<exists>transition. views_transition_of agent_repo (rp_config demo_repo) [] = Inr transition
     \<and> agent_view \<noteq> Views_full (rc_views (rp_config agent_repo))"
proof -
  have g: "Views_get agent_views agent_view \<noteq> None" "Views_get (rc_views (rp_config demo_repo)) agent_view = None"
    by (simp_all add: Views_get_def agent_views_def agent_view_def Views_builtin_def demo_repo_def
        RepoConfig_with_default_view_def view_id_defs)
  have ok: "views_ok (rc_views (rp_config demo_repo))" by (simp add: demo_repo_def RepoConfig_with_default_view_def)
  have "\<exists>transition. views_transition_of agent_repo (rp_config demo_repo) [] = Inr transition"
    by (auto simp: views_transition_of_def Let_def ensure_view_removable_def view_removal_refusal_def agent_repo_def
        demo_repo_def RepoConfig_with_default_view_def agent_views_def Views_builtin_def Views_get_def Views_full_def
        agent_view_def view_id_defs bt_get_def)
  then obtain transition where t: "views_transition_of agent_repo (rp_config demo_repo) [] = Inr transition" by blast
  from removed_view_unused [OF t _ ok _ g(2)] g(1) t show ?thesis by simp
qed

section \<open>Merging a request\<close>

lemma bt_get_insert_other: "p \<noteq> k \<Longrightarrow> bt_get (bt_insert k v m) p = bt_get m p"
  by (induction k v m rule: bt_insert.induct) (auto simp: bt_get_def)

lemma fold_apply_file_change_other:
  assumes "p \<notin> fc_path ` set fs"
  shows "bt_get (fold apply_file_change fs t) p = bt_get t p"
  using assms
  by (induction fs arbitrary: t) (auto simp: apply_file_change_def bt_get_insert_other bt_get_remove split: option.splits)

lemma check_parent_Ok_iff:
  "check_parent native view_parents name seen par = Inr () \<longleftrightarrow>
   (if par \<in> native then par \<in> seen else par \<in> view_parents)"
  by (simp add: check_parent_def)

lemma check_ancestry_Ok_iff:
  "check_ancestry native view_parents name seen commits = Inr () \<longleftrightarrow>
   (\<forall>k < length commits. \<forall>par \<in> set (nrc_parent_oids (commits ! k)).
      if par \<in> native then par \<in> seen \<union> nrc_oid ` set (take k commits) else par \<in> view_parents)"
proof (induction commits arbitrary: seen)
  case (Cons c cs)
  show ?case
    by (simp add: and_then_Ok_iff check_all_Ok_iff check_parent_Ok_iff Cons.IH All_less_Suc2)
qed simp

text \<open>
  C10: A request merged through a view stays inside the view. Every path whose live content changes is outside the
  protected area and labelled, by the configuration, with a view the request's view may read; the view is
  defined and is not the full one; and the configuration, the visibility history and the members are untouched.
\<close>

theorem request_merge_confined:
  assumes "apply_request_merge_to_repo repo update
      (MergeView request_id view base_oid parent_oids request_head_oid commits) = Inr (repo', pack)"
  shows "(\<forall>path. bt_get (rp_live_files repo') path \<noteq> bt_get (rp_live_files repo) path \<longrightarrow>
        \<not> is_request_protected_path path
        \<and> Views_may_read (rc_views (rp_config repo)) view (label_for_path (rp_config repo) path))
    \<and> Views_get (rc_views (rp_config repo)) view \<noteq> None \<and> view \<noteq> Views_full (rc_views (rp_config repo))
    \<and> rp_config repo' = rp_config repo \<and> rp_sets repo' = rp_sets repo \<and> rp_collaboration repo' = rp_collaboration repo"
proof -
  let ?o = "into_logical_origin (MergeView request_id view base_oid parent_oids request_head_oid commits)"
  obtain accepted where a: "accept_content_update (push_state repo) update True ?o = Inr accepted"
    "repo' = fst (apply_accepted_content_push repo accepted)"
    using assms by (auto simp: apply_request_merge_to_repo_def accept_request_merge_def and_then_Ok_iff)
  let ?fs = "lc_changes (acp_logical_commit accepted)"
  have v: "validate_commit_origin ?o ?fs (rp_config repo) = Inr ()"
    using a(1) by (auto simp: accept_content_update_def push_state_def and_then_Ok_iff Let_def split: if_splits)
  then have view: "Views_get (rc_views (rp_config repo)) view \<noteq> None" "view \<noteq> Views_full (rc_views (rp_config repo))"
    by (auto simp: validate_commit_origin_def into_logical_origin_def Let_def split: if_splits)
  have touched: "fc_path c \<in> set (concat (map nrc_changed_paths commits))"
    "label_for_path (rp_config repo) (fc_path c) \<in> Views_labels (rc_views (rp_config repo)) view"
    "\<not> is_request_protected_path (fc_path c)" if "c \<in> set ?fs" for c
    using v that by (auto simp: validate_commit_origin_def into_logical_origin_def Let_def split: if_splits)
  have live: "rp_live_files repo' = fold apply_file_change ?fs (rp_live_files repo)"
    by (simp add: a(2) apply_accepted_content_push_def)
  have "\<exists>c \<in> set ?fs. fc_path c = path" if "bt_get (rp_live_files repo') path \<noteq> bt_get (rp_live_files repo) path" for path
    using that fold_apply_file_change_other [of path ?fs] by (auto simp: live)
  then show ?thesis
    using touched view by (fastforce simp: a(2) apply_accepted_content_push_def Views_may_read_def)
qed

text \<open>
  The native commits a merge preserves form a closed piece of history. They are listed ancestors first and end
  at the request's head, every parent of a commit is an earlier one of them or a commit of the view's own
  history, and the merge starts at the view's base.
\<close>

theorem merged_commits_closed:
  assumes "validate_commit_origin (RequestMerge m) changes config = Inr ()"
  shows "(\<forall>k < length (rm_commits m). \<forall>par \<in> set (nrc_parent_oids (rm_commits m ! k)).
        par \<in> nrc_oid ` set (take k (rm_commits m)) \<or> par \<in> set (rm_parent_oids m) \<and> par \<notin> nrc_oid ` set (rm_commits m))
    \<and> rm_commits m \<noteq> [] \<and> nrc_oid (last (rm_commits m)) = rm_request_head_oid m
    \<and> distinct (map nrc_oid (rm_commits m))
    \<and> rm_base_oid m \<in> set (rm_parent_oids m)
    \<and> (\<exists>commit \<in> set (rm_commits m). rm_base_oid m \<in> set (nrc_parent_oids commit))"
proof -
  have c: "check_ancestry (set (map nrc_oid (rm_commits m))) (set (rm_parent_oids m))
      (Views_display_name (rc_views config) (rm_view m)) {} (rm_commits m) = Inr ()"
    and r: "rm_commits m \<noteq> []" "nrc_oid (last (rm_commits m)) = rm_request_head_oid m" "\<not> malformed_native_facts m"
      "rm_base_oid m \<in> set (rm_parent_oids m)" "\<exists>commit \<in> set (rm_commits m). rm_base_oid m \<in> set (nrc_parent_oids commit)"
    using assms by (auto simp: validate_commit_origin_def Let_def and_then_Ok_iff split: if_splits)
  have "par \<in> nrc_oid ` set (take k (rm_commits m)) \<or> par \<in> set (rm_parent_oids m) \<and> par \<notin> nrc_oid ` set (rm_commits m)"
    if "k < length (rm_commits m)" "par \<in> set (nrc_parent_oids (rm_commits m ! k))" for k par
    using c that unfolding check_ancestry_Ok_iff by (metis (no_types, lifting) Un_empty_left list.set_map)
  with r show ?thesis by (auto simp: malformed_native_facts_def)
qed

text \<open>A public request that adds one file.\<close>

definition demo_origin :: request_merge_origin_facts where
  "demo_origin = \<lparr>rm_request_id = ''q'', rm_view = ViewId_public, rm_base_oid = ''b'', rm_parent_oids = [''b''],
     rm_request_head_oid = ''n'', rm_preserve_commits = True, rm_commits =
     [\<lparr>nrc_oid = ''n'', nrc_parent_oids = [''b''], nrc_tree_oid = ''t'', nrc_changed_paths = [ScopePath ''/r'']\<rparr>]\<rparr>"

definition demo_merge :: reviewed_update_input where
  "demo_merge = demo_push\<lparr>ru_changes := [\<lparr>rcc_path = ScopePath ''/r'', rcc_content = Some (demo_blob ''1'')\<rparr>]\<rparr>"

abbreviation demo_request :: request_merge_origin where
  "demo_request \<equiv> MergeView ''q'' ViewId_public ''b'' [''b''] ''n'' (rm_commits demo_origin)"

lemma demo_editable: "\<not> is_request_protected_path (ScopePath ''/r'')" "ViewId_public \<in> Views_labels v ViewId_public"
  by (simp_all add: is_request_protected_path_def is_case_folded_repo_control_path_def is_agent_context_path_def
      eq_ignore_ascii_case_def string_ops labels_closure)

lemma demo_origin_valid:
  assumes "\<forall>c \<in> set changes. fc_path c = ScopePath ''/r'' \<and> fc_label c = ViewId_public"
  shows "validate_commit_origin (RequestMerge demo_origin) changes (rp_config demo_repo) = Inr ()"
proof -
  have "Views_get (rc_views (rp_config demo_repo)) ViewId_public \<noteq> None"
    "ViewId_public \<noteq> Views_full (rc_views (rp_config demo_repo))"
    by (simp_all add: demo_repo_def RepoConfig_with_default_view_def Views_get_def Views_full_def Views_builtin_def)
  moreover have "\<not> malformed_native_facts demo_origin" by (simp add: malformed_native_facts_def demo_origin_def)
  ultimately show ?thesis
    using assms demo_editable demo_labels(1)
    by (simp add: validate_commit_origin_def demo_origin_def Let_def check_parent_def)
qed

lemma merged_commits_closed_witness:
  "nrc_oid (last (rm_commits demo_origin)) = rm_request_head_oid demo_origin
   \<and> distinct (map nrc_oid (rm_commits demo_origin))"
  using merged_commits_closed [OF demo_origin_valid [of "[]"]] by simp

lemma demo_merged:
  "\<exists>repo pack. apply_request_merge_to_repo demo_repo demo_merge demo_request = Inr (repo, pack)
     \<and> bt_get (rp_live_files repo) (ScopePath ''/r'') = Some (demo_blob ''1'')"
proof -
  let ?fs = "build_file_changes [] (rp_policy demo_repo) (rp_config demo_repo) (ru_changes demo_merge) ExistingFromPolicy"
  have fs: "?fs = [\<lparr>fc_path = ScopePath ''/r'', fc_old_content = None, fc_new_content = Some (demo_blob ''1''),
      fc_label = ViewId_public\<rparr>]"
    by (simp add: build_file_changes_def demo_merge_def source_content_matches_def bt_get_def written_label_def demo_labels)
  have o: "into_logical_origin demo_request = RequestMerge demo_origin"
    by (simp add: into_logical_origin_def demo_origin_def)
  have v: "validate_commit_origin (RequestMerge demo_origin) ?fs (rp_config demo_repo) = Inr ()"
    by (rule demo_origin_valid) (simp add: fs)
  have "match_indices (CHR ''/'') ''/r'' = [0]" by code_simp
  then have p: "\<exists>pol. content_policy (rp_policy demo_repo) (rp_config demo_repo) ?fs = Inr pol"
    unfolding fs
    by (simp add: content_policy_def Policy_add_rules_def Let_def demo_labels demo_repo_def [THEN arg_cong, of rp_policy]
        Policy_new_def check_island_def private_ancestor_def bt_collect_def bt_get_def rule_pair_def prefix_at_def
        ViewId_is_public_def ViewId_is_private_def)
  have "validate_main_pack_advance None (ru_git_head demo_merge) (ru_main_pack demo_merge) = Inr ()"
    by (simp add: validate_main_pack_advance_def demo_push_def demo_merge_def)
  moreover have "rp_live_files demo_repo = []" "rp_git_head demo_repo = None" "ru_config demo_merge = rp_config demo_repo"
    by (simp_all add: demo_merge_def demo_push_def demo_repo_def RepoConfig_with_default_view_def)
  moreover have "bt_get (fold apply_file_change ?fs []) (ScopePath ''/r'') = Some (demo_blob ''1'')"
    by (simp add: fs apply_file_change_def bt_get_def)
  ultimately show ?thesis
    using p v o
    by (auto simp: apply_request_merge_to_repo_def accept_request_merge_def accept_content_update_def push_state_def
        apply_accepted_content_push_def Let_def)
qed

lemma request_merge_confined_witness:
  "Views_may_read (rc_views (rp_config demo_repo)) ViewId_public (label_for_path (rp_config demo_repo) (ScopePath ''/r''))
   \<and> \<not> is_request_protected_path (ScopePath ''/r'')"
proof -
  obtain repo pack where m: "apply_request_merge_to_repo demo_repo demo_merge demo_request = Inr (repo, pack)"
    and "bt_get (rp_live_files repo) (ScopePath ''/r'') = Some (demo_blob ''1'')"
    using demo_merged by (elim exE conjE) (rule that)
  moreover have "bt_get (rp_live_files demo_repo) (ScopePath ''/r'') = None" by (simp add: demo_repo_def bt_get_def)
  ultimately show ?thesis using request_merge_confined [OF m] by simp
qed

section \<open>Redacting history\<close>

text \<open>The tree at a path never carries the public label.\<close>

definition not_public_at :: "scope_path \<Rightarrow> labelled_tree \<Rightarrow> bool" where
  "not_public_at path t \<longleftrightarrow> (\<forall>blob label. (path, blob, label) \<in> set t \<longrightarrow> label \<noteq> ViewId_public)"

definition redacted_step :: "scope_path \<Rightarrow> fold_step \<Rightarrow> bool" where
  "redacted_step path step \<longleftrightarrow>
     (case step of
        StepCommit c \<Rightarrow> \<forall>f \<in> set (lc_changes c). fc_path f = path \<longrightarrow> fc_label f \<noteq> ViewId_public
      | StepSet s \<Rightarrow> path \<notin> vc_path ` set (vs_changes s))"

lemma set_bt_insert: "set (bt_insert k v m) \<subseteq> insert (k, v) (set m)"
  by (induction k v m rule: bt_insert.induct) auto

lemma set_bt_remove: "set (bt_remove k m) \<subseteq> set m"
  by (auto simp: bt_remove_def)

lemma not_public_apply:
  assumes "not_public_at path t" and "\<forall>f \<in> set fs. fc_path f = path \<longrightarrow> fc_label f \<noteq> ViewId_public"
  shows "not_public_at path (fold LabelledTree_apply_change fs t)"
  using assms
proof (induction fs arbitrary: t)
  case (Cons f fs)
  have "not_public_at path (LabelledTree_apply_change f t)"
    using Cons.prems set_bt_insert [of "fc_path f" _ t] set_bt_remove [of "fc_path f" t]
    by (fastforce simp: not_public_at_def split: option.splits)
  with Cons show ?case by simp
qed simp

lemma not_public_relabel:
  assumes "not_public_at path t" and "path \<notin> vc_path ` set cs"
  shows "not_public_at path (fold LabelledTree_relabel_change cs t)"
  using assms
proof (induction cs arbitrary: t)
  case (Cons c cs)
  have "not_public_at path (LabelledTree_relabel_change c t)"
    using Cons.prems set_bt_insert [of "vc_path c" _ t]
    by (fastforce simp: not_public_at_def split: option.splits)
  with Cons show ?case by simp
qed simp

lemma not_public_step: "not_public_at path t \<Longrightarrow> redacted_step path step \<Longrightarrow> not_public_at path (step_tree step t)"
  by (cases step) (auto simp: redacted_step_def LabelledTree_apply_commit_def LabelledTree_relabel_def
      intro: not_public_apply not_public_relabel)

lemma emitted_redacted:
  assumes "\<forall>step \<in> set steps. redacted_step path step" and "not_public_at path t"
    and "c \<in> set (emitted by_id view v t steps)" and "pc_path c = path"
  shows "pc_label c \<noteq> ViewId_public"
  using assms
proof (induction steps arbitrary: v t)
  case (Cons step steps)
  show ?case
  proof (cases "c \<in> set (step_changes by_id view v t step)")
    case True
    then show ?thesis
      using Cons.prems
      by (cases step)
        (force simp: step_changes_def visible_changes_def projected_of_def redacted_step_def set_changes_def Let_def
          relabel_changes_def transition_changes_def not_public_at_def split: option.splits if_splits)+
  next
    case False
    then show ?thesis using Cons.IH [of "step_tree step t" "step_views step v"] Cons.prems not_public_step by auto
  qed
qed simp

text \<open>The least index found by a scan bounds the index of every element that counts.\<close>

lemma fold_min_index_mono:
  assumes "\<And>x c. f x c = (if P x then min_index (i x) c else c)"
  shows "\<exists>first'. fold f xs (Some first) = Some first' \<and> first' \<le> first"
proof (induction xs arbitrary: first)
  case (Cons x xs)
  let ?next = "if P x then min first (i x) else first"
  have "f x (Some first) = Some ?next" by (simp add: assms min_index_def)
  moreover obtain first' where "fold f xs (Some ?next) = Some first'" "first' \<le> ?next" using Cons by blast
  moreover have "?next \<le> first" by simp
  ultimately show ?case using le_trans by fastforce
qed simp

lemma fold_min_index:
  assumes "x \<in> set xs" and "P x" and f: "\<And>x c. f x c = (if P x then min_index (i x) c else c)"
  shows "\<exists>first. fold f xs c = Some first \<and> first \<le> i x"
proof -
  obtain ys zs where "xs = ys @ x # zs" using assms(1) by (auto simp: in_set_conv_decomp)
  then have "fold f xs c = fold f zs (min_index (i x) (fold f ys c))" using assms(2) f by simp
  moreover obtain n where "min_index (i x) (fold f ys c) = Some n" "n \<le> i x"
    by (simp add: min_index_def split: option.splits)
  ultimately show ?thesis using fold_min_index_mono [of f P i, OF f] le_trans by metis
qed

lemma invalid_from_commit:
  assumes "k < length commits" and "commit_matches_rewrite rewrites (commits ! k)"
  shows "\<exists>first. invalidate_preservation_from rewrites commits sets = Some first \<and> first \<le> k"
proof -
  let ?f = "\<lambda>(index, commit) current. if commit_matches_rewrite rewrites commit then min_index index current else current"
  have "(k, commits ! k) \<in> set (enumerate 0 commits)" using assms(1) by (simp add: in_set_enumerate_eq)
  then obtain first where first: "fold ?f (enumerate 0 commits) None = Some first" "first \<le> k"
    using fold_min_index [of "(k, commits ! k)" _ "\<lambda>x. commit_matches_rewrite rewrites (snd x)" ?f fst] assms(2)
    by (auto simp: case_prod_beta)
  have "\<exists>first'. invalidate_preservation_from rewrites commits sets = Some first' \<and> first' \<le> first"
    unfolding invalidate_preservation_from_def Let_def first(1) by (rule fold_min_index_mono) (rule refl)
  with first(2) show ?thesis using le_trans by blast
qed

text \<open>What the rewritten repository looks like.\<close>

lemma apply_history_rewrites_repo:
  assumes "rewrites \<noteq> []"
  shows "sg_commits (rp_graph (fst (apply_history_rewrites repo config rewrites live changed)))
      = map (redact_commit rewrites (invalidate_preservation_from rewrites (sg_commits (rp_graph repo)) (rp_sets repo)))
          (enumerate 0 (sg_commits (rp_graph repo)))"
    and "rp_sets (fst (apply_history_rewrites repo config rewrites live changed))
      = filter (\<lambda>s. vs_changes s \<noteq> [] \<or> vs_views s \<noteq> None) (map (redact_set rewrites) (rp_sets repo))"
  using assms by (simp_all add: apply_history_rewrites_def Let_def)

lemma redact_commit_changes [simp]:
  "lc_changes (redact_commit rewrites from (k, c)) = map (redact_change rewrites) (lc_changes c)"
  "lc_id (redact_commit rewrites from (k, c)) = lc_id c"
  by (simp_all add: redact_commit_def)

lemma redact_change_label: "should_redact rewrites (fc_path c) \<Longrightarrow> fc_label (redact_change rewrites c) \<noteq> ViewId_public"
  by (auto simp: redact_change_def)

lemma redact_change_path [simp]:
  "fc_path (redact_change rewrites c) = fc_path c" "fc_new_content (redact_change rewrites c) = fc_new_content c"
  "fc_old_content (redact_change rewrites c) = fc_old_content c"
  by (simp_all add: redact_change_def)

lemma redacted_steps:
  assumes "rewrites \<noteq> []" and "should_redact rewrites path"
    and "repo' = fst (apply_history_rewrites repo config rewrites live changed)"
    and "step \<in> set (fold_steps (rp_graph repo') (rp_sets repo'))"
  shows "redacted_step path step"
proof (cases step)
  case (StepCommit c)
  then have "c \<in> set (sg_commits (rp_graph repo'))" using assms(4) StepCommit_fold_steps by simp
  then obtain k c' where "c = redact_commit rewrites (invalidate_preservation_from rewrites (sg_commits (rp_graph repo)) (rp_sets repo)) (k, c')"
    unfolding assms(3) apply_history_rewrites_repo [OF assms(1)] by auto
  then have "lc_changes c = map (redact_change rewrites) (lc_changes c')" by simp
  with StepCommit assms(2) redact_change_label show ?thesis by (auto simp: redacted_step_def)
next
  case (StepSet s)
  then have "s \<in> set (rp_sets repo')" using assms(4) StepSet_fold_steps by simp
  then obtain s' where "s = redact_set rewrites s'"
    unfolding assms(3) apply_history_rewrites_repo [OF assms(1)] by auto
  with StepSet assms(2) show ?thesis by (auto simp: redacted_step_def redact_set_def)
qed

lemma projected_redacted:
  assumes "\<forall>step \<in> set (fold_steps graph sets). redacted_step path step"
    and "commit \<in> set (pr_commits (project_graph graph sets views view))"
    and "c \<in> set (pj_changes commit)" and "pc_path c = path"
  shows "pc_label c \<noteq> ViewId_public"
proof -
  have mem: "c \<in> set (all_changes (pr_commits (project_graph graph sets views view)))" using assms(2,3) by auto
  show ?thesis
  proof (cases "view = Views_full (initial_views sets views)")
    case True
    then obtain l f where "l \<in> set (sg_commits graph)" "f \<in> set (lc_changes l)" "c = projected_of f"
      using mem unfolding full_projection_changes [OF True] by auto
    moreover have "redacted_step path (StepCommit l)" using assms(1) StepCommit_fold_steps calculation(1) by blast
    ultimately show ?thesis using assms(4) by (auto simp: redacted_step_def projected_of_def)
  next
    case False
    then have "c \<in> set (emitted (commits_by_id graph) view (initial_views sets views) [] (fold_steps graph sets))"
      using mem project_graph_changes [OF False] by simp
    from emitted_redacted [OF assms(1) _ this assms(4)] show ?thesis by (simp add: not_public_at_def)
  qed
qed


definition redact_a :: "history_rewrite_request list" where
  "redact_a = [\<lparr>hr_path = ''/a'', hr_action = RedactPublicHistory\<rparr>]"


end
