(* ===== verification/Redaction_Limits.thy ===== *)
theory Redaction_Limits
  imports Update_Properties
begin

text \<open>
  A configuration change that redacts a file's public history and relabels the file at the same time, worked out on
  a concrete repository. It shows why the invariant of live views is stated for updates without new rewrites.
\<close>

definition secret_repo :: repository where
  "secret_repo = agent_repo\<lparr>rp_graph := \<lparr>sg_repo_id = ''own/r'', sg_commits =
      [\<lparr>lc_occurred_at_unix = None, lc_id = ''rv_push_h'', lc_origin = CanonicalPush ''h'', lc_author_id = ''o'', lc_message = ''m'',
        lc_changes = [\<lparr>fc_path = ScopePath ''/a'', fc_old_content = None, fc_new_content = Some (demo_blob ''1''),
          fc_label = ViewId_public\<rparr>]\<rparr>]\<rparr>,
    rp_live_files := [(ScopePath ''/a'', demo_blob ''1'')],
    rp_policy := \<lparr>pol_default = ViewId_public, pol_rules = [\<lparr>lr_path = ScopePath ''/a'', lr_view = ViewId_public\<rparr>]\<rparr>\<rparr>"

definition hide_config :: repo_config where
  "hide_config = (rp_config agent_repo)\<lparr>rc_files := \<lparr>rcf_default = ViewId_public,
     rcf_rules = [\<lparr>rcr_path = ''/a'', rcr_view = agent_view\<rparr>]\<rparr>, rc_rewrites := redact_a\<rparr>"

definition hide_update :: reviewed_config_update_input where
  "hide_update = \<lparr>rcu_occurred_at_unix = 0, rcu_author_id = ''o'', rcu_config = hide_config, rcu_open_requests_by_view = []\<rparr>"

definition hide_change :: visibility_change where
  "hide_change = \<lparr>vc_path = ScopePath ''/a'', vc_old_label = ViewId_public, vc_new_label = agent_view,
     vc_current_content = Some (demo_blob ''1'')\<rparr>"

lemma agent_labels:
  "Views_shows agent_views agent_view (ScopePath ''/a'') ViewId_public"
  "Views_shows agent_views agent_view (ScopePath ''/a'') agent_view"
  "\<not> Views_shows agent_views agent_view (ScopePath ''/a'') ViewId_private"
  "agent_view \<noteq> Views_full agent_views"
proof -
  have full: "Views_full agent_views = ViewId_private" using full_found(2) [OF agent_views_ok] .
  have inc: "(agent_view, ViewId_public) \<in> include_rel agent_views"
    by (simp add: include_rel_def included_by_def Views_get_def agent_views_def Views_builtin_def agent_view_def view_id_defs)
  show ne: "agent_view \<noteq> Views_full agent_views" by (simp add: full agent_view_def view_id_defs)
  have np: "\<not> is_private_control_path (ScopePath ''/a'')" by (simp add: control_defs control_consts string_ops)
  show "Views_shows agent_views agent_view (ScopePath ''/a'') ViewId_public"
    using inc np by (simp add: Views_shows_def labels_closure r_into_rtrancl)
  show "Views_shows agent_views agent_view (ScopePath ''/a'') agent_view"
    using np by (simp add: Views_shows_def labels_closure)
  show "\<not> Views_shows agent_views agent_view (ScopePath ''/a'') ViewId_private"
    using vis.full_label_needs_full [OF agent_views_ok, of agent_view "ScopePath ''/a''"] ne full by auto
qed

lemma hide_labels:
  "label_for_path hide_config (ScopePath ''/a'') = agent_view"
  "Policy_label (rp_policy secret_repo) (ScopePath ''/a'') v = ViewId_public"
  "should_redact redact_a (ScopePath ''/a'')"
  "agent_view \<noteq> ViewId_public" "agent_view \<noteq> ViewId_private"
proof -
  show "label_for_path hide_config (ScopePath ''/a'') = agent_view"
    by (simp add: label_for_path_def label_for_path_skipping_rule_def hide_config_def control_defs control_consts string_ops
        consider_rule_def pattern_matches_path_def suffix_def)
  show "Policy_label (rp_policy secret_repo) (ScopePath ''/a'') v = ViewId_public"
    by (subst Policy_label_at_rule [of _ _ ViewId_public])
      (simp_all add: secret_repo_def policy_ok_def rule_pair_def rule_map_def bt_get_def bt_ok_def control_defs
        control_consts string_ops)
  show "should_redact redact_a (ScopePath ''/a'')"
    by (simp add: should_redact_def redact_a_def HistoryRewriteRequest_matches_path_def pattern_matches_path_def
        string_ops suffix_def)
qed (simp_all add: agent_view_def view_id_defs)

lemma hide_policy: "policy_from_config_for_tree hide_config [ScopePath ''/a'']
    = Inr \<lparr>pol_default = ViewId_public, pol_rules = [\<lparr>lr_path = ScopePath ''/a'', lr_view = agent_view\<rparr>]\<rparr>"
  using hide_labels(4)
  by (simp add: policy_from_config_for_tree_def Policy_add_rules_def hide_labels(1) Policy_new_def bt_collect_def
      rule_pair_def pair_rule_def check_island_def ViewId_is_public_def)
    (simp add: hide_config_def)


definition hidden_commit :: "view_id \<Rightarrow> logical_commit" where
  "hidden_commit label = \<lparr>lc_occurred_at_unix = None, lc_id = ''rv_push_h'', lc_origin = CanonicalPush ''h'',
     lc_author_id = ''o'', lc_message = ''m'', lc_changes = [\<lparr>fc_path = ScopePath ''/a'', fc_old_content = None,
       fc_new_content = Some (demo_blob ''1''), fc_label = label\<rparr>]\<rparr>"

definition hidden_graph :: "view_id \<Rightarrow> source_graph" where
  "hidden_graph label = \<lparr>sg_repo_id = ''own/r'', sg_commits = [hidden_commit label]\<rparr>"

definition hide_set :: "string \<Rightarrow> visibility_change_set" where
  "hide_set i = \<lparr>vs_occurred_at_unix = Some 0, vs_id = i, vs_anchor_commit_id = Some ''rv_push_h'',
     vs_source_update_id = None, vs_author_id = ''o'', vs_changes = [hide_change], vs_views = None\<rparr>"

lemma secret_repo_fields:
  "rp_live_files secret_repo = [(ScopePath ''/a'', demo_blob ''1'')]" "rp_sets secret_repo = []"
  "rp_config secret_repo = rp_config agent_repo" "rp_graph secret_repo = hidden_graph ViewId_public"
  by (simp_all add: secret_repo_def agent_repo_def demo_repo_def hidden_graph_def hidden_commit_def)

lemma hide_rewrite:
  "apply_history_rewrites secret_repo hide_config redact_a [(ScopePath ''/a'', demo_blob ''1'')] {}
   = (secret_repo\<lparr>rp_graph := hidden_graph ViewId_private\<rparr>,
      \<lparr>hw_visibility_changes = [], hw_redacted_paths = [ScopePath ''/a'']\<rparr>)"
proof -
  have "redacted_by_commit redact_a (hidden_commit ViewId_public) = [ScopePath ''/a'']"
    using hide_labels(3) by (simp add: redacted_by_commit_def hidden_commit_def native_paths_def)
  moreover have "redact_commit redact_a invalid (0, hidden_commit ViewId_public) = hidden_commit ViewId_private" for invalid
    using hide_labels(3) by (simp add: redact_commit_def redact_change_def hidden_commit_def)
  moreover have "redact_a \<noteq> []" by (simp add: redact_a_def)
  ultimately show ?thesis
    using hide_labels(1,4)
    by (simp add: apply_history_rewrites_def Let_def secret_repo_fields hidden_graph_def bt_set_def List.map_filter_def)
qed

lemma hidden_projection:
  assumes "view \<noteq> Views_full agent_views"
  shows "all_changes (pr_commits (project_graph (hidden_graph ViewId_private) [hide_set i] agent_views view))
    = visible_changes agent_views view (hidden_commit ViewId_private)
      @ relabel_changes agent_views agent_views view None hide_change"
proof -
  have "\<not> is_repo_control_path (ScopePath ''/a'')" by (simp add: control_defs control_consts string_ops)
  moreover have "initial_views [hide_set i] agent_views = agent_views"
    by (simp add: initial_views_def hide_set_def List.map_filter_def)
  ultimately show ?thesis
    using assms
    by (simp add: project_graph_changes fold_steps_def anchored_in_def hidden_graph_def hidden_commit_def hide_set_def
        step_changes_def step_views_def set_changes_def hide_change_def)
qed

text \<open>
  C38: A configuration change may add a history rewrite for a file and give the file to another view in one step. The
  rewrite turns the file's public commits private, the recorded visibility change still says the file was public,
  and a view that reads both labels sees no difference: its projection loses a live file it may read, and the
  public projection gains a deletion that names the redacted path.
\<close>

theorem redact_and_relabel_loses_file:
  "\<exists>repo. apply_reviewed_config_to_repo secret_repo hide_update = Inr (repo, True)
     \<and> rp_live_files repo = [(ScopePath ''/a'', demo_blob ''1'')]
     \<and> Policy_can_read (rp_policy repo) (ScopePath ''/a'') agent_view (rc_views (rp_config repo))
     \<and> Projection_apply_to (project_graph (rp_graph repo) (rp_sets repo) (rc_views (rp_config repo)) agent_view) [] = []"
proof -
  define pol where "pol = \<lparr>pol_default = ViewId_public, pol_rules = [\<lparr>lr_path = ScopePath ''/a'', lr_view = agent_view\<rparr>]\<rparr>"
  define i where "i = visibility_change_set_id (unat (saturating_add (rr_change_version (rp_record secret_repo)) 1))"
  define repo where "repo = bump_content_version (secret_repo\<lparr>rp_graph := hidden_graph ViewId_private, rp_policy := pol,
    rp_config := hide_config, rp_sets := [hide_set i]\<rparr>)"
  have cfg: "rc_views hide_config = agent_views" by (simp add: hide_config_def)
  have neq: "rp_config agent_repo \<noteq> hide_config"
    by (simp add: agent_repo_def demo_repo_def RepoConfig_with_default_view_def hide_config_def)
  have t: "views_transition_of secret_repo hide_config [] = Inr None"
    by (simp add: views_transition_of_def secret_repo_fields cfg)
  have rw: "history_rewrites_added_since hide_config (Some (rp_config agent_repo)) = redact_a"
    by (simp add: history_rewrites_added_since_def hide_config_def agent_repo_def demo_repo_def RepoConfig_with_default_view_def)
  have lab: "label_changes (secret_repo\<lparr>rp_graph := g\<rparr>) hide_config skipped [(ScopePath ''/a'', demo_blob ''1'')] = [hide_change]"
    if "\<not> skipped (ScopePath ''/a'') ViewId_public agent_view" for skipped g
    using that hide_labels(1,2,4) by (simp add: label_changes_def List.map_filter_def hide_change_def)
  have push: "push_change_set i (Some ''rv_push_h'') None ''o'' (Some 0) [hide_change] None r
      = Inr (r\<lparr>rp_sets := rp_sets r @ [hide_set i]\<rparr>)" for r
    using hide_labels(4)
    by (simp add: push_change_set_def VisibilityChangeSet_new_def hide_change_def hide_set_def i_def visibility_change_set_id_def)
  have ok: "apply_reviewed_config_to_repo secret_repo hide_update = Inr (repo, True)"
    using neq hide_labels(5)
    by (simp add: apply_reviewed_config_to_repo_def hide_update_def secret_repo_fields t rw hide_rewrite Let_def lab
        hide_policy last_commit_id_def hidden_graph_def hidden_commit_def push flip: i_def)
      (simp add: repo_def pol_def hidden_graph_def hidden_commit_def secret_repo_def agent_repo_def demo_repo_def)
  have "Policy_label pol (ScopePath ''/a'') agent_views = agent_view"
    by (subst Policy_label_at_rule [of _ _ agent_view])
      (simp_all add: pol_def policy_ok_def rule_pair_def rule_map_def bt_get_def bt_ok_def control_defs control_consts string_ops)
  then have "Policy_can_read pol (ScopePath ''/a'') agent_view agent_views"
    using agent_labels(2) by (simp add: Policy_can_read_def)
  moreover have "Projection_apply_to (project_graph (hidden_graph ViewId_private) [hide_set i] agent_views agent_view) [] = []"
    unfolding Projection_apply_to_def hidden_projection [OF agent_labels(4)]
    using agent_labels by (simp add: visible_changes_def hidden_commit_def relabel_changes_def hide_change_def)
  ultimately have "rp_live_files repo = [(ScopePath ''/a'', demo_blob ''1'')]
     \<and> Policy_can_read (rp_policy repo) (ScopePath ''/a'') agent_view (rc_views (rp_config repo))
     \<and> Projection_apply_to (project_graph (rp_graph repo) (rp_sets repo) (rc_views (rp_config repo)) agent_view) [] = []"
    by (simp add: repo_def secret_repo_fields cfg)
  with ok show ?thesis by blast
qed

end
