(* ===== verification/Incremental_Projection.thy ===== *)
theory Incremental_Projection
  imports View_Trees
begin

text \<open>
  Projections are extended, not rebuilt: the read models keep a cursor and fold only the history appended since.
  This theory shows that folding in two parts gives the commits of one fold, ids, parents and contents included.
\<close>

section \<open>The steps of an extended history\<close>

definition append_history :: "source_graph \<Rightarrow> source_graph \<Rightarrow> source_graph" where
  "append_history g d = g\<lparr>sg_commits := sg_commits g @ sg_commits d\<rparr>"

lemma commit_ids_append [simp]: "commit_ids (append_history g d) = commit_ids g @ commit_ids d"
  by (simp add: append_history_def)

lemma anchored_in_iff: "anchored_in g s = Some i \<longleftrightarrow> vs_anchor_commit_id s = Some i \<and> i \<in> set (commit_ids g)"
  by (auto simp: anchored_in_def split: option.splits)

lemma anchored_in_None: "anchored_in g s = None \<longleftrightarrow> (\<forall>i. vs_anchor_commit_id s = Some i \<longrightarrow> i \<notin> set (commit_ids g))"
  by (auto simp: anchored_in_def split: option.splits)

lemma fold_steps_distinct:
  "distinct (commit_ids g) \<Longrightarrow> fold_steps g sets = map StepSet (filter (\<lambda>s. anchored_in g s = None) sets)
     @ concat (map (\<lambda>c. StepCommit c # map StepSet (filter (\<lambda>s. vs_anchor_commit_id s = Some (lc_id c)) sets)) (sg_commits g))"
proof -
  assume d: "distinct (commit_ids g)"
  have "filter (\<lambda>s. anchored_in g s = Some (lc_id c)) sets = filter (\<lambda>s. vs_anchor_commit_id s = Some (lc_id c)) sets"
    if "c \<in> set (sg_commits g)" for c
    using that by (auto simp: anchored_in_iff intro!: filter_cong)
  then show ?thesis
    using d by (simp add: fold_steps_def emit_commits_distinct cong: map_cong)
qed

text \<open>What the code checks before it resumes, spelled out.\<close>

lemma delta_appendsD:
  assumes "projection_delta_appends folded commits sets" and "s \<in> set sets"
  shows "vs_anchor_commit_id s = folded \<or> (\<exists>c \<in> set commits. vs_anchor_commit_id s = Some (lc_id c))"
    and "vs_source_update_id s = Some i \<Longrightarrow> \<exists>c \<in> set commits. lc_id c = i"
proof -
  have "vs_anchor_commit_id s = folded
      \<or> (case vs_anchor_commit_id s of Some a \<Rightarrow> \<exists>c \<in> set commits. lc_id c = a | None \<Rightarrow> False)"
    using assms by (simp add: projection_delta_appends_def Let_def)
  then show "vs_anchor_commit_id s = folded \<or> (\<exists>c \<in> set commits. vs_anchor_commit_id s = Some (lc_id c))"
    by (auto split: option.splits)
  show "vs_source_update_id s = Some i \<Longrightarrow> \<exists>c \<in> set commits. lc_id c = i"
    using assms by (fastforce simp: projection_delta_appends_def Let_def)
qed

lemma fold_steps_append:
  assumes "distinct (commit_ids g @ commit_ids d)"
    and "\<forall>s \<in> set s1. \<forall>i. vs_anchor_commit_id s = Some i \<longrightarrow> i \<notin> set (commit_ids d)"
    and "projection_delta_appends (last_commit_id g) (sg_commits d) s2"
  shows "fold_steps (append_history g d) (s1 @ s2) = fold_steps g s1 @ fold_steps d s2"
proof -
  let ?at = "\<lambda>sets i. filter (\<lambda>s. vs_anchor_commit_id s = Some i) sets"
  let ?emit = "\<lambda>sets c. StepCommit c # map StepSet (?at sets (lc_id c))"
  have dist: "distinct (commit_ids g)" "distinct (commit_ids d)" using assms(1) by simp_all
  have a2: "vs_anchor_commit_id s = last_commit_id g \<or> (\<exists>c \<in> set (sg_commits d). vs_anchor_commit_id s = Some (lc_id c))"
    if "s \<in> set s2" for s using delta_appendsD(1) [OF assms(3) that] .
  have d1: "?at (s1 @ s2) (lc_id c) = ?at s2 (lc_id c)" if "c \<in> set (sg_commits d)" for c
    using assms(2) that by (auto simp: filter_empty_conv)
  have n1: "filter (\<lambda>s. anchored_in (append_history g d) s = None) s1 = filter (\<lambda>s. anchored_in g s = None) s1"
    using assms(2) by (intro filter_cong) (auto simp: anchored_in_None)
  show ?thesis
  proof (cases "sg_commits g" rule: rev_cases)
    case Nil
    then have "filter (\<lambda>s. anchored_in (append_history g d) s = None) s2 = filter (\<lambda>s. anchored_in d s = None) s2"
      by (intro filter_cong) (auto simp: anchored_in_None)
    with Nil n1 d1 show ?thesis
      using assms(1) by (simp add: fold_steps_distinct append_history_def cong: map_cong)
  next
    case (snoc cs c)
    have l: "last_commit_id g = Some (lc_id c)" by (simp add: last_commit_id_def snoc)
    have n2: "filter (\<lambda>s. anchored_in (append_history g d) s = None) s2 = []"
      using a2 snoc l by (fastforce simp: filter_empty_conv anchored_in_None)
    have n3: "filter (\<lambda>s. anchored_in d s = None) s2 = ?at s2 (lc_id c)"
      using a2 assms(1) snoc l by (intro filter_cong) (fastforce simp: anchored_in_None)+
    have early: "?at s2 (lc_id b) = []" if "b \<in> set cs" for b
      using a2 l assms(1) snoc that by (fastforce simp: filter_empty_conv)
    show ?thesis
      using assms(1) n1 n2 n3 d1 early snoc
      by (simp add: fold_steps_distinct append_history_def cong: map_cong)
  qed
qed

lemma commits_by_id_append:
  assumes "distinct (commit_ids g @ commit_ids d)"
  shows "i \<notin> set (commit_ids d) \<Longrightarrow> commits_by_id (append_history g d) i = commits_by_id g i"
    and "i \<in> set (commit_ids d) \<Longrightarrow> commits_by_id (append_history g d) i = commits_by_id d i"
proof -
  have e: "commits_by_id (append_history g d) i
      = (case commits_by_id d i of None \<Rightarrow> commits_by_id g i | Some c \<Rightarrow> Some c)"
    unfolding commits_by_id_def append_history_def by (simp add: map_add_def)
  have n: "commits_by_id d i = None \<longleftrightarrow> i \<notin> set (commit_ids d)"
    by (auto simp: commits_by_id_def map_of_eq_None_iff image_iff)
  show "i \<notin> set (commit_ids d) \<Longrightarrow> commits_by_id (append_history g d) i = commits_by_id g i"
    using e n by simp
  show "i \<in> set (commit_ids d) \<Longrightarrow> commits_by_id (append_history g d) i = commits_by_id d i"
    using e n by (cases "commits_by_id d i") simp_all
qed

section \<open>Two folds side by side\<close>

text \<open>
  One fold has already produced \<open>pre\<close>, the other starts with a cursor that counts it. They agree on views, parent
  and all later commits, whatever they know of the tree.
\<close>

definition side_by_side :: "projected_commit list \<Rightarrow> view_fold \<Rightarrow> view_fold \<Rightarrow> bool" where
  "side_by_side pre vf vf' \<longleftrightarrow> vf_views vf = vf_views vf' \<and> vf_last_visible vf = vf_last_visible vf'
     \<and> vf_commits vf = pre @ vf_commits vf'"

definition counts :: "projected_commit list \<Rightarrow> projection_cursor \<Rightarrow> projection_cursor \<Rightarrow> bool" where
  "counts pre cur cur' \<longleftrightarrow> cur_commit_count cur' = cur_commit_count cur + length pre"

lemma counts_next_id:
  "counts pre cur cur' \<Longrightarrow> ProjectionCursor_next_id cur view i (length pre + n) = ProjectionCursor_next_id cur' view i n"
  by (simp add: counts_def ProjectionCursor_next_id_def add.assoc)

lemma side_by_side_content:
  assumes "side_by_side pre vf vf'" and "counts pre cur cur'"
  shows "side_by_side pre (ViewFold_project_content cur view c vf) (ViewFold_project_content cur' view c vf')"
  using assms
  by (simp add: side_by_side_def ViewFold_project_content_def Let_def counts_next_id split: option.splits)

lemma side_by_side_tree: "side_by_side pre (vf\<lparr>vf_tree := t\<rparr>) (vf'\<lparr>vf_tree := t'\<rparr>) = side_by_side pre vf vf'"
  by (simp add: side_by_side_def)

lemma set_changes_cong:
  assumes "tracks vf t (StepSet s # steps)" and "tracks vf' t (StepSet s # steps)"
    and "Option.bind (vs_source_update_id s) by_id = Option.bind (vs_source_update_id s) by_id'"
  shows "set_changes by_id view v (vf_tree vf) s = set_changes by_id' view v (vf_tree vf') s"
proof (cases "vs_views s")
  case None
  with assms(3) show ?thesis by (simp add: set_changes_def)
next
  case (Some tr)
  then have "vf_tree vf = Some t" "vf_tree vf' = Some t" using assms(1,2) by (auto simp: tracks_def)
  with assms(3) show ?thesis by (simp add: set_changes_def)
qed

lemma side_by_side_step:
  assumes "side_by_side pre vf vf'" and "counts pre cur cur'"
    and "tracks vf t (step # steps)" and "tracks vf' t (step # steps)"
    and "\<And>s. step = StepSet s \<Longrightarrow> Option.bind (vs_source_update_id s) by_id = Option.bind (vs_source_update_id s) by_id'"
  shows "side_by_side pre (ViewFold_step cur view by_id step vf) (ViewFold_step cur' view by_id' step vf')"
proof (cases step)
  case (StepCommit c)
  then show ?thesis
    using side_by_side_content [OF assms(1,2)] by (simp add: ViewFold_step_def ViewFold_commit_def Let_def side_by_side_tree)
next
  case (StepSet s)
  have e: "set_changes by_id view v (vf_tree vf) s = set_changes by_id' view v (vf_tree vf') s" for v
    using set_changes_cong [OF assms(3,4) [unfolded StepSet] assms(5) [OF StepSet]] .
  have "set_commit cur view u s cs vf = set_commit cur' view u s cs vf'" for u cs
    using assms(1,2) by (simp add: set_commit_def side_by_side_def counts_next_id)
  then show ?thesis
    using assms(1) StepSet assms(5) [OF StepSet]
    by (simp add: ViewFold_step_def ViewFold_set_def Let_def e side_by_side_def split: option.splits)
qed

lemma side_by_side_fold:
  assumes "side_by_side pre vf vf'" and "counts pre cur cur'" and "tracks vf t steps" and "tracks vf' t steps"
    and "\<And>s. StepSet s \<in> set steps \<Longrightarrow> Option.bind (vs_source_update_id s) by_id = Option.bind (vs_source_update_id s) by_id'"
  shows "side_by_side pre (fold (ViewFold_step cur view by_id) steps vf) (fold (ViewFold_step cur' view by_id') steps vf')"
  using assms
proof (induction steps arbitrary: vf vf' t)
  case (Cons step steps)
  have tr: "tracks (ViewFold_step c view b step x) (step_tree step t) steps" if "tracks x t (step # steps)" for c b x
    using that by (auto simp: tracks_def ViewFold_step_frame)
  show ?case
    using side_by_side_step [OF Cons.prems(1-4)] Cons.prems(5)
    by (auto intro!: Cons.IH [OF _ Cons.prems(2) tr [OF Cons.prems(3)] tr [OF Cons.prems(4)]])
qed simp

section \<open>What a fold leaves for the next cursor\<close>

definition last_id :: "string option \<Rightarrow> projected_commit list \<Rightarrow> string option" where
  "last_id before_id cs = (if cs = [] then before_id else Some (pj_projected_id (last cs)))"

lemma last_id_step:
  assumes "vf_last_visible vf = last_id l (vf_commits vf)"
  shows "vf_last_visible (ViewFold_step cur view by_id step vf) = last_id l (vf_commits (ViewFold_step cur view by_id step vf))"
proof (cases step)
  case (StepCommit c)
  have "vf_last_visible (ViewFold_project_content cur view c vf) = last_id l (vf_commits (ViewFold_project_content cur view c vf))"
  proof (cases "preserved_native view (length (visible_changes (vf_views vf) view c)) c")
    case (Some native)
    then have "native \<noteq> []" by (auto simp: preserved_native_def split: logical_commit_origin.splits if_splits)
    then obtain xs x where "native = xs @ [x]" by (metis append_butlast_last_id)
    with Some show ?thesis
      by (simp add: ViewFold_project_content_def Let_def last_id_def enumerate_append_eq native_projected_commit_def)
  qed (use assms in \<open>simp add: ViewFold_project_content_def Let_def last_id_def\<close>)
  with StepCommit show ?thesis by (simp add: ViewFold_step_def ViewFold_commit_def Let_def)
next
  case (StepSet s)
  with assms show ?thesis by (simp add: ViewFold_step_def ViewFold_set_def Let_def last_id_def)
qed

lemma last_id_fold:
  "vf_last_visible vf = last_id l (vf_commits vf) \<Longrightarrow>
   vf_last_visible (fold (ViewFold_step cur view by_id) steps vf)
   = last_id l (vf_commits (fold (ViewFold_step cur view by_id) steps vf))"
  by (induction steps arbitrary: vf) (simp_all add: last_id_step)

lemma fold_step_views: "fold step_views steps v = (case last_views_after steps of None \<Rightarrow> v | Some w \<Rightarrow> w)"
proof (induction steps rule: rev_induct)
  case (snoc step steps)
  then show ?case
    by (cases step) (auto simp: last_views_after_def step_views_def List.map_filter_def split: option.splits list.splits)
qed (simp add: last_views_after_def List.map_filter_def)

lemma fold_frame:
  "vf_views (fold (ViewFold_step cur view by_id) steps vf) = fold step_views steps (vf_views vf)"
  "vf_tree (fold (ViewFold_step cur view by_id) steps vf) = map_option (fold step_tree steps) (vf_tree vf)"
  by (induction steps arbitrary: vf) (simp_all add: ViewFold_step_frame option.map_comp comp_def option.map_id)

section \<open>The full view\<close>

lemma full_step_side_by_side:
  assumes "counts pre cur cur'"
  shows "fold (full_step cur view) cs (pre @ X, l)
    = (pre @ fst (fold (full_step cur' view) cs (X, l)), snd (fold (full_step cur' view) cs (X, l)))"
proof (induction cs arbitrary: X l)
  case (Cons c cs)
  have "full_step cur view c (pre @ X, l) = (pre @ fst (full_step cur' view c (X, l)), snd (full_step cur' view c (X, l)))"
    using assms by (simp add: full_step_def Let_def counts_next_id)
  with Cons [of "fst (full_step cur' view c (X, l))" "snd (full_step cur' view c (X, l))"] show ?case by simp
qed simp

lemma full_step_last_id:
  assumes "l' = last_id l X"
  shows "snd (fold (full_step cur view) cs (X, l')) = last_id l (fst (fold (full_step cur view) cs (X, l')))"
  using assms
proof (induction cs arbitrary: X l')
  case (Cons c cs)
  have "snd (full_step cur view c (X, l')) = last_id l (fst (full_step cur view c (X, l')))"
    using Cons.prems by (simp add: full_step_def Let_def last_id_def)
  from Cons.IH [OF this] show ?case by simp
qed simp

lemma advanced_cursor:
  "cur_last_projected_id (ProjectionCursor_advanced cur p g s1) = last_id (cur_last_projected_id cur) (pr_commits p)"
  "counts (pr_commits p) cur (ProjectionCursor_advanced cur p g s1)"
  "cur_views (ProjectionCursor_advanced cur p g s1) = fold step_views (fold_steps g s1) (cur_views cur)"
  by (simp_all add: ProjectionCursor_advanced_def last_id_def counts_def fold_step_views split: option.splits)

lemma project_full_append:
  assumes "p = project_full_graph cur g view"
  shows "pr_commits (project_full_graph cur (append_history g d) view)
    = pr_commits p @ pr_commits (project_full_graph (ProjectionCursor_advanced cur p g s1) d view)"
proof -
  let ?mid = "fold (full_step cur view) (sg_commits g) ([], cur_last_projected_id cur)"
  have p: "pr_commits p = fst ?mid" by (simp add: assms project_full_graph_def)
  have l: "snd ?mid = cur_last_projected_id (ProjectionCursor_advanced cur p g s1)"
    using full_step_last_id [of "cur_last_projected_id cur" "cur_last_projected_id cur" "[]" cur view "sg_commits g"]
    unfolding advanced_cursor p by (simp add: last_id_def)
  have "?mid = (pr_commits p @ [], cur_last_projected_id (ProjectionCursor_advanced cur p g s1))"
    using p l by (simp add: prod_eq_iff)
  then show ?thesis
    using full_step_side_by_side [OF advanced_cursor(2) [of p cur g s1], of view "sg_commits d" "[]"]
    by (simp add: project_full_graph_def append_history_def)
qed

section \<open>Extending a narrower view\<close>

lemma step_views_full:
  assumes "\<forall>s \<in> set s1. \<forall>tr. vs_views s = Some tr \<longrightarrow> Views_full (vt_after tr) = full" and "Views_full v = full"
  shows "Views_full (fold step_views (fold_steps g s1) v) = full"
proof -
  have "Views_full (fold step_views steps v) = full" if "\<forall>s. StepSet s \<in> set steps \<longrightarrow> s \<in> set s1" for steps
    using that assms(2)
    by (induction steps arbitrary: v) (auto simp: step_views_def assms(1) split: fold_step.splits option.splits)
  then show ?thesis using StepSet_fold_steps by blast
qed

definition view_start :: "projection_cursor \<Rightarrow> labelled_tree \<Rightarrow> visibility_change_set list \<Rightarrow> view_fold" where
  "view_start cur t sets = \<lparr>vf_views = cur_views cur,
     vf_tree = (if \<exists>s \<in> set sets. vs_views s \<noteq> None then Some t else None), vf_commits = [],
     vf_last_visible = cur_last_projected_id cur\<rparr>"

lemma project_graph_after_narrow:
  "view \<noteq> Views_full (cur_views cur) \<Longrightarrow> pr_commits (project_graph_after cur t g sets view)
   = vf_commits (fold (ViewFold_step cur view (commits_by_id g)) (fold_steps g sets) (view_start cur t sets))"
  by (simp add: project_graph_after_def view_start_def Let_def)

lemma tracks_start: "set sets \<subseteq> set all \<Longrightarrow> tracks (view_start cur t all) t (fold_steps g sets)"
  using StepSet_fold_steps by (fastforce simp: tracks_def view_start_def)

lemma project_narrow_append:
  assumes dist: "distinct (commit_ids g @ commit_ids d)"
    and old: "\<forall>s \<in> set s1. \<forall>i \<in> set (commit_ids d). vs_anchor_commit_id s \<noteq> Some i \<and> vs_source_update_id s \<noteq> Some i"
    and new: "projection_delta_appends (last_commit_id g) (sg_commits d) s2"
    and view: "view \<noteq> Views_full (cur_views cur)"
    and p: "p = project_graph_after cur t g s1 view"
    and after: "view \<noteq> Views_full (cur_views (ProjectionCursor_advanced cur p g s1))"
  shows "pr_commits (project_graph_after cur t (append_history g d) (s1 @ s2) view)
    = pr_commits p
      @ pr_commits (project_graph_after (ProjectionCursor_advanced cur p g s1) (LabelledTree_fold g s1 t) d s2 view)"
proof -
  let ?cur = "ProjectionCursor_advanced cur p g s1" and ?gd = "append_history g d"
  let ?t = "LabelledTree_fold g s1 t"
  let ?fold1 = "\<lambda>b vf. fold (ViewFold_step cur view (commits_by_id b)) (fold_steps g s1) vf"
  let ?one = "?fold1 ?gd (view_start cur t (s1 @ s2))" and ?part = "?fold1 g (view_start cur t s1)"
  have steps: "fold_steps ?gd (s1 @ s2) = fold_steps g s1 @ fold_steps d s2"
    using fold_steps_append [OF dist _ new] old by auto
  have src1: "Option.bind (vs_source_update_id s) (commits_by_id ?gd) = Option.bind (vs_source_update_id s) (commits_by_id g)"
    if "StepSet s \<in> set (fold_steps g s1)" for s
  proof (cases "vs_source_update_id s")
    case (Some i)
    then have "i \<notin> set (commit_ids d)" using StepSet_fold_steps [OF that] old by auto
    with Some commits_by_id_append(1) [OF dist] show ?thesis by simp
  qed simp
  have src2: "Option.bind (vs_source_update_id s) (commits_by_id ?gd) = Option.bind (vs_source_update_id s) (commits_by_id d)"
    if "StepSet s \<in> set (fold_steps d s2)" for s
    using delta_appendsD(2) [OF new StepSet_fold_steps [OF that]] commits_by_id_append(2) [OF dist]
    by (cases "vs_source_update_id s") auto
  have one: "side_by_side [] ?one ?part"
    by (rule side_by_side_fold [OF _ _ tracks_start tracks_start src1])
      (simp_all add: side_by_side_def counts_def view_start_def)
  have pc: "pr_commits p = vf_commits ?part" using project_graph_after_narrow [OF view] p by simp
  have mid: "side_by_side (pr_commits p) ?one (view_start ?cur ?t s2)"
    using one last_id_fold [of "view_start cur t s1" "cur_last_projected_id cur"] pc
    by (simp add: side_by_side_def advanced_cursor fold_frame last_id_def view_start_def)
  have tr: "tracks ?one ?t (fold_steps d s2)"
    using StepSet_fold_steps [of _ d s2]
    by (fastforce simp: tracks_def fold_frame view_start_def LabelledTree_fold_steps)
  have "side_by_side (pr_commits p)
      (fold (ViewFold_step cur view (commits_by_id ?gd)) (fold_steps d s2) ?one)
      (fold (ViewFold_step ?cur view (commits_by_id d)) (fold_steps d s2) (view_start ?cur ?t s2))"
    by (rule side_by_side_fold [OF mid advanced_cursor(2) tr tracks_start src2]) simp_all
  then show ?thesis
    using project_graph_after_narrow [OF view] project_graph_after_narrow [OF after] steps
    by (simp add: side_by_side_def)
qed

lemma projection_append:
  assumes "distinct (map lc_id (sg_commits g) @ map lc_id (sg_commits d))"
    and "\<forall>s \<in> set s1. \<forall>c \<in> set (sg_commits d).
      vs_anchor_commit_id s \<noteq> Some (lc_id c) \<and> vs_source_update_id s \<noteq> Some (lc_id c)"
    and "projection_delta_appends (last_commit_id g) (sg_commits d) s2"
    and "\<forall>s \<in> set s1. \<forall>tr. vs_views s = Some tr \<longrightarrow> Views_full (vt_after tr) = Views_full (cur_views cur)"
    and "p = project_graph_after cur t g s1 view"
  shows "pr_commits (project_graph_after cur t (g\<lparr>sg_commits := sg_commits g @ sg_commits d\<rparr>) (s1 @ s2) view)
    = pr_commits p
      @ pr_commits (project_graph_after (ProjectionCursor_advanced cur p g s1) (LabelledTree_fold g s1 t) d s2 view)"
proof -
  let ?cur = "ProjectionCursor_advanced cur p g s1"
  have full: "Views_full (cur_views ?cur) = Views_full (cur_views cur)"
    unfolding advanced_cursor using step_views_full [OF assms(4) refl] .
  show ?thesis
    unfolding append_history_def [symmetric]
  proof (cases "view = Views_full (cur_views cur)")
    case True
    then show "pr_commits (project_graph_after cur t (append_history g d) (s1 @ s2) view)
      = pr_commits p @ pr_commits (project_graph_after ?cur (LabelledTree_fold g s1 t) d s2 view)"
      using full project_full_append [of p cur g view d s1] assms(5) by (simp add: project_graph_after_def)
  next
    case False
    show "pr_commits (project_graph_after cur t (append_history g d) (s1 @ s2) view)
      = pr_commits p @ pr_commits (project_graph_after ?cur (LabelledTree_fold g s1 t) d s2 view)"
      by (rule project_narrow_append) (use assms False full in auto)
  qed
qed

text \<open>
  C3: Extending a projection is the same as recomputing it. When the history grew by commits and visibility changes
  that pass the check \<^verbatim>\<open>projection_delta_appends\<close>, projecting the whole history gives the commits of the stored
  projection followed by those projected from the advanced cursor and the stored labelled tree: the same ids,
  parents, messages and changes, for every view.
\<close>

theorem incremental_projection_correct:
  assumes "distinct (map lc_id (sg_commits g) @ map lc_id (sg_commits d))"
    and "\<forall>s \<in> set s1. \<forall>c \<in> set (sg_commits d).
      vs_anchor_commit_id s \<noteq> Some (lc_id c) \<and> vs_source_update_id s \<noteq> Some (lc_id c)"
    and "projection_delta_appends (last_commit_id g) (sg_commits d) s2"
    and "\<forall>s \<in> set s1. \<forall>tr. vs_views s = Some tr \<longrightarrow> Views_full (vt_after tr) = Views_full (cur_views cur)"
    and "p = project_graph_after cur t g s1 view"
  shows "pr_commits (project_graph_after cur t (g\<lparr>sg_commits := sg_commits g @ sg_commits d\<rparr>) (s1 @ s2) view)
    = pr_commits p
      @ pr_commits (project_graph_after (ProjectionCursor_advanced cur p g s1) (LabelledTree_fold g s1 t) d s2 view)"
  using assms by (rule projection_append)

text \<open>A second commit and a relabelling after the first.\<close>

definition first_part :: source_graph where
  "first_part = \<lparr>sg_repo_id = ''r'', sg_commits =
     [\<lparr>lc_occurred_at_unix = None, lc_id = ''c1'', lc_origin = CanonicalPush ''o1'', lc_author_id = ''u'',
       lc_message = ''m'', lc_changes = []\<rparr>]\<rparr>"

definition second_part :: source_graph where
  "second_part = \<lparr>sg_repo_id = ''r'', sg_commits =
     [\<lparr>lc_occurred_at_unix = None, lc_id = ''c2'', lc_origin = CanonicalPush ''o2'', lc_author_id = ''u'',
       lc_message = ''m'', lc_changes = []\<rparr>]\<rparr>"

definition relabel_after :: visibility_change_set where
  "relabel_after = \<lparr>vs_occurred_at_unix = None, vs_id = ''v1'', vs_anchor_commit_id = Some ''c1'', vs_source_update_id = Some ''c2'',
     vs_author_id = ''u'', vs_changes = [\<lparr>vc_path = ScopePath ''/a'', vc_old_label = ViewId_public,
       vc_new_label = ViewId_private, vc_current_content = None\<rparr>], vs_views = None\<rparr>"

lemma incremental_projection_correct_witness:
  "pr_commits (project_graph_after (ProjectionCursor_start Views_builtin) []
      (first_part\<lparr>sg_commits := sg_commits first_part @ sg_commits second_part\<rparr>) ([] @ [relabel_after]) ViewId_public)
   = pr_commits (project_graph_after (ProjectionCursor_start Views_builtin) [] first_part [] ViewId_public)
     @ pr_commits (project_graph_after (ProjectionCursor_advanced (ProjectionCursor_start Views_builtin)
         (project_graph_after (ProjectionCursor_start Views_builtin) [] first_part [] ViewId_public) first_part [])
         (LabelledTree_fold first_part [] []) second_part [relabel_after] ViewId_public)"
  by (rule incremental_projection_correct)
    (simp_all add: first_part_def second_part_def relabel_after_def projection_delta_appends_def last_commit_id_def)

end
