(* ===== verification/Request_Model.thy ===== *)
theory Request_Model
  imports Scope_Views Scope_Ints
begin

text \<open>
  Requests: \<^verbatim>\<open>requests/model.rs\<close>, \<^verbatim>\<open>base.rs\<close>, \<^verbatim>\<open>limits.rs\<close>, \<^verbatim>\<open>revisions.rs\<close>, \<^verbatim>\<open>lifecycle.rs\<close>, \<^verbatim>\<open>submission.rs\<close>,
  \<^verbatim>\<open>identity.rs\<close>, \<^verbatim>\<open>stack.rs\<close> and the shared helpers of \<^verbatim>\<open>requests.rs\<close>.

  Operations take the request by value and return the next request with the event or revision they record. The
  SHA-256 of the \<^verbatim>\<open>sha2\<close> crate is the parameter \<open>sha256_hex\<close> of the operations that record it. Times and versions
  are 64-bit words, stack depths 32-bit words.
\<close>

section \<open>Data\<close>

datatype request_actor_role = RolePublic | RoleMember | RoleOwner
datatype request_state = Draft | Open | Closed | Merged

datatype request_base =
  BaseMain string
| BaseRequest string string string

definition parent_request_id :: "request_base \<Rightarrow> string option" where
  "parent_request_id base = (case base of BaseMain _ \<Rightarrow> None | BaseRequest request_id _ _ \<Rightarrow> Some request_id)"

definition review_base_oid :: "request_base \<Rightarrow> string" where
  "review_base_oid base = (case base of BaseMain oid \<Rightarrow> oid | BaseRequest _ _ head_oid \<Rightarrow> head_oid)"

definition base_is_main :: "request_base \<Rightarrow> bool" where
  "base_is_main base = (case base of BaseMain _ \<Rightarrow> True | BaseRequest _ _ _ \<Rightarrow> False)"

datatype request_stack_status =
  StackMain | WaitingForParent | ParentExtended | ParentRewritten | ParentClosed | AncestorBlocked
| IntegrationConflict | NeedsMainUpdate

datatype request_auto_merge_stop_reason =
  StopRequestChanged | StopRequestClosed | StopAccessRevoked | StopChecksFailed | StopChecksConfigurationError
| StopMergeConflict | StopRequestBranchMissing | StopParentRewritten | StopParentClosed | StopAncestorBlocked
| StopNeedsMainUpdate

definition auto_merge_stop_reason :: "request_stack_status \<Rightarrow> request_auto_merge_stop_reason option" where
  "auto_merge_stop_reason status =
     (case status of
        StackMain \<Rightarrow> None | WaitingForParent \<Rightarrow> None | ParentExtended \<Rightarrow> None
      | ParentRewritten \<Rightarrow> Some StopParentRewritten
      | ParentClosed \<Rightarrow> Some StopParentClosed
      | AncestorBlocked \<Rightarrow> Some StopAncestorBlocked
      | IntegrationConflict \<Rightarrow> Some StopMergeConflict
      | NeedsMainUpdate \<Rightarrow> Some StopNeedsMainUpdate)"

definition requires_restack :: "request_stack_status \<Rightarrow> bool" where
  "requires_restack status \<longleftrightarrow> auto_merge_stop_reason status \<noteq> None"

definition blocking_reason :: "request_stack_status \<Rightarrow> string option" where
  "blocking_reason status =
     (case status of
        StackMain \<Rightarrow> None
      | WaitingForParent \<Rightarrow> Some ''parent request must land first''
      | ParentExtended \<Rightarrow> Some ''parent request must land first''
      | ParentRewritten \<Rightarrow> Some ''parent no longer contains the pinned revision''
      | ParentClosed \<Rightarrow> Some ''parent request is closed''
      | AncestorBlocked \<Rightarrow> Some ''an ancestor request is blocked''
      | IntegrationConflict \<Rightarrow> Some ''request integration conflicts with main''
      | NeedsMainUpdate \<Rightarrow> Some ''request must contain the latest view main'')"

record request =
  rq_id :: string
  rq_repo_id :: string
  rq_name :: string
  rq_author_user_id :: "string option"
  rq_author_role :: request_actor_role
  rq_view :: view_id
  rq_base :: request_base
  rq_base_version :: u64
  rq_stack_status :: request_stack_status
  rq_stack_depth :: u32
  rq_main_ancestor_oid :: string
  rq_head_oid :: string
  rq_pushed_at_unix :: "u64 option"
  rq_title :: string
  rq_description_markdown :: string
  rq_activity_version :: u64
  rq_submitted_at_unix :: "u64 option"
  rq_closed_at_unix :: "u64 option"
  rq_closed_by_user_id :: "string option"
  rq_merged_at_unix :: "u64 option"
  rq_merged_by_user_id :: "string option"
  rq_merged_head_oid :: "string option"
  rq_merged_main_oid :: "string option"
  rq_created_at_unix :: u64
  rq_updated_at_unix :: u64

definition from_timestamps :: "u64 option \<Rightarrow> u64 option \<Rightarrow> u64 option \<Rightarrow> request_state" where
  "from_timestamps merged_at closed_at submitted_at =
     (if merged_at \<noteq> None then Merged
      else if closed_at \<noteq> None then Closed
      else if submitted_at \<noteq> None then Open
      else Draft)"

definition advertised_in_git :: "request_state \<Rightarrow> bool" where
  "advertised_in_git s \<longleftrightarrow> s = Draft \<or> s = Open"

definition request_state_of :: "request \<Rightarrow> request_state" where
  "request_state_of r = from_timestamps (rq_merged_at_unix r) (rq_closed_at_unix r) (rq_submitted_at_unix r)"

definition is_author :: "request \<Rightarrow> string \<Rightarrow> bool" where
  "is_author r user_id \<longleftrightarrow> rq_author_user_id r = Some user_id"

definition is_submitted :: "request \<Rightarrow> bool" where
  "is_submitted r \<longleftrightarrow> rq_submitted_at_unix r \<noteq> None"

definition is_terminal :: "request \<Rightarrow> bool" where
  "is_terminal r \<longleftrightarrow> rq_closed_at_unix r \<noteq> None \<or> rq_merged_at_unix r \<noteq> None"

definition object_author_id :: "request \<Rightarrow> string" where
  "object_author_id r = (case rq_author_user_id r of Some u \<Rightarrow> u | None \<Rightarrow> rq_id r)"

record identity_audit_fact =
  iaf_title_sha256 :: string
  iaf_title_byte_count :: u64
  iaf_description_sha256 :: string
  iaf_description_byte_count :: u64

datatype request_event_payload =
  EvStarted identity_audit_fact
| EvSubmitted string
| EvRevisionPushed string string "string option"
| EvBaseRetargeted request_base string string
| EvMerged string string
| EvClosed string
| EvIdentityEdited identity_audit_fact identity_audit_fact
| EvDiscussionResolved string
| EvDiscussionReopened string
| EvAutoMergeEnabled string string string
| EvAutoMergeCancelled string string string
| EvAutoMergeStopped string string string request_auto_merge_stop_reason
| EvAutoMergeFulfilled string string string string

datatype request_event_kind =
  KStarted | KSubmitted | KRevisionPushed | KBaseRetargeted | KMerged | KClosed | KIdentityEdited
| KDiscussionResolved | KDiscussionReopened | KAutoMergeEnabled | KAutoMergeCancelled | KAutoMergeStopped
| KAutoMergeFulfilled

record request_event =
  ev_id :: string
  ev_request_id :: string
  ev_actor_user_id :: "string option"
  ev_kind :: request_event_kind
  ev_position :: u64
  ev_payload :: request_event_payload
  ev_created_at_unix :: u64

record request_revision =
  rv_id :: string
  rv_request_id :: string
  rv_position :: u64
  rv_actor_user_id :: "string option"
  rv_old_head_oid :: string
  rv_new_head_oid :: string
  rv_base :: request_base
  rv_base_version :: u64
  rv_main_ancestor_oid :: string
  rv_rewrote_history :: bool
  rv_created_at_unix :: u64

section \<open>Shared checks\<close>

definition REQUEST_STACK_MAX_ANCESTORS :: u32 where "REQUEST_STACK_MAX_ANCESTORS = 32"
definition REQUEST_STACK_MAX_DEPTH :: u32 where "REQUEST_STACK_MAX_DEPTH = REQUEST_STACK_MAX_ANCESTORS + 1"
definition REQUEST_TITLE_MAX_BYTES :: nat where "REQUEST_TITLE_MAX_BYTES = 256"
definition REQUEST_DESCRIPTION_MAX_BYTES :: nat where "REQUEST_DESCRIPTION_MAX_BYTES = 256 * 1024"
definition PUBLIC_WORKING_REQUEST_LIMIT :: nat where "PUBLIC_WORKING_REQUEST_LIMIT = 3"
definition MAIN_PUSH_REQUEST_NAME_PREFIX :: string where "MAIN_PUSH_REQUEST_NAME_PREFIX = ''main-push-''"

definition validate_required :: "string \<Rightarrow> string \<Rightarrow> (domain_error, unit) result" where
  "validate_required label val =
     (if trim val = [] then Err (invalid_input (label @ '' is required'')) else Ok ())"

definition validate_body_size :: "string \<Rightarrow> string \<Rightarrow> nat \<Rightarrow> (domain_error, unit) result" where
  "validate_body_size label val max_bytes =
     (if length val > max_bytes
      then Err (invalid_input (label @ '' exceeds '' @ show_nat max_bytes @ '' bytes'')) else Ok ())"

definition next_request_activity_position :: "request \<Rightarrow> (domain_error, u64) result" where
  "next_request_activity_position r =
     (case checked_add (rq_activity_version r) 1 of
        Some v \<Rightarrow> Ok v | None \<Rightarrow> Err (conflict ''request activity version overflow''))"

definition advance_request_activity :: "request \<Rightarrow> (domain_error, request \<times> u64) result" where
  "advance_request_activity r =
     and_then (next_request_activity_position r) (\<lambda>v. Ok (r\<lparr>rq_activity_version := v\<rparr>, v))"

definition ensure_request_matches :: "request \<Rightarrow> string \<Rightarrow> (domain_error, unit) result" where
  "ensure_request_matches r request_id =
     (if rq_id r = request_id then Ok () else Err (not_found ''request not found''))"

definition ensure_event_id_available :: "bool \<Rightarrow> (domain_error, unit) result" where
  "ensure_event_id_available event_id_exists =
     (if event_id_exists then Err (conflict ''request event already exists'') else Ok ())"

text \<open>The checks of a request's recorded facts, in the order of the code.\<close>

definition validate_base_facts :: "request \<Rightarrow> (domain_error, unit) result" where
  "validate_base_facts r =
     (case rq_base r of
        BaseMain _ \<Rightarrow>
          if rq_stack_depth r \<noteq> 1 \<or> rq_stack_status r \<notin> {StackMain, IntegrationConflict, NeedsMainUpdate}
          then Err (conflict ''main requests require layer depth one'') else Ok ()
      | BaseRequest request_id revision_id head_oid \<Rightarrow>
          if request_id = [] \<or> revision_id = [] \<or> head_oid = [] \<or> request_id = rq_id r
             \<or> rq_stack_depth r < 2 \<or> rq_stack_depth r > REQUEST_STACK_MAX_DEPTH
             \<or> rq_stack_status r = StackMain
          then Err (conflict ''invalid request parent pin'') else Ok ())"

definition within_lifetime :: "request \<Rightarrow> string \<times> u64 option \<Rightarrow> (domain_error, unit) result" where
  "within_lifetime r = (\<lambda>(label, time).
     (case time of
        Some t \<Rightarrow>
          if t < rq_created_at_unix r \<or> t > rq_updated_at_unix r
          then Err (conflict (''request '' @ label @ '' must be within its lifetime'')) else Ok ()
      | None \<Rightarrow> Ok ()))"

definition after_submission :: "u64 \<Rightarrow> string \<times> u64 option \<Rightarrow> (domain_error, unit) result" where
  "after_submission submitted_at = (\<lambda>(label, time).
     (case time of
        Some t \<Rightarrow>
          if t < submitted_at
          then Err (conflict (''request '' @ label @ '' cannot precede submission'')) else Ok ()
      | None \<Rightarrow> Ok ()))"

definition validate_request_facts :: "request \<Rightarrow> (domain_error, unit) result" where
  "validate_request_facts r =
     and_then (validate_base_facts r) (\<lambda>_.
     if rq_base_version r = 0 \<or> review_base_oid (rq_base r) = [] then
       Err (conflict ''request requires a versioned review base'')
     else if rq_updated_at_unix r < rq_created_at_unix r then
       Err (conflict ''request update time cannot precede creation time'')
     else and_then (check_all (within_lifetime r)
         [(''submission time'', rq_submitted_at_unix r), (''close time'', rq_closed_at_unix r),
          (''merge time'', rq_merged_at_unix r)]) (\<lambda>_.
     if rq_closed_by_user_id r \<noteq> None \<and> rq_closed_at_unix r = None then
       Err (conflict ''an open request cannot have a closer'')
     else if rq_merged_by_user_id r \<noteq> None \<and> rq_merged_at_unix r = None then
       Err (conflict ''an unmerged request cannot have a merger'')
     else let merge_count = length (filter id
         [rq_merged_at_unix r \<noteq> None, rq_merged_head_oid r \<noteq> None, rq_merged_main_oid r \<noteq> None]) in
     if merge_count \<noteq> 0 \<and> merge_count \<noteq> 3 then
       Err (conflict ''merge time, head, and main oid must be set together'')
     else if rq_closed_at_unix r \<noteq> None \<and> rq_merged_at_unix r \<noteq> None then
       Err (conflict ''request cannot be both closed and merged'')
     else if is_terminal r \<and> \<not> is_submitted r then
       Err (conflict ''terminal requests must have been submitted'')
     else (case rq_submitted_at_unix r of
         Some submitted_at \<Rightarrow>
           check_all (after_submission submitted_at)
             [(''close'', rq_closed_at_unix r), (''merge'', rq_merged_at_unix r)]
       | None \<Rightarrow> Ok ())))"

end
