(* ===== verification/Request_Lifecycle.thy ===== *)
theory Request_Lifecycle
  imports Request_Model
begin

text \<open>
  The operations on one request: starting it, uploading and revising its branch, editing its identity, submitting,
  closing and merging it, and following its parent in a stack.
\<close>

section \<open>Starting a request\<close>

record start_request_facts =
  srf_request_id_exists :: bool
  srf_request_name_exists :: bool
  srf_public_working_request_count :: nat
  srf_stack_depth :: u32

record start_request_input =
  sri_id :: string
  sri_repo_id :: string
  sri_name :: string
  sri_author_user_id :: string
  sri_title :: "string option"
  sri_author_role :: request_actor_role
  sri_author_view :: view_id
  sri_view :: view_id
  sri_base :: request_base
  sri_main_ancestor_oid :: string
  sri_event_id :: string
  sri_now_unix :: u64

definition request_identity_audit_fact ::
  "(string \<Rightarrow> string) \<Rightarrow> string \<Rightarrow> string \<Rightarrow> (domain_error, identity_audit_fact) result" where
  "request_identity_audit_fact sha256_hex title description_markdown =
     (let as_u64 = (\<lambda>n. if n < 2 ^ 64 then Ok (of_nat n :: u64)
                        else Err (invariant_violation ''out of range integral type conversion attempted'')) in
      and_then (as_u64 (length title)) (\<lambda>title_bytes.
      and_then (as_u64 (length description_markdown)) (\<lambda>description_bytes.
        Ok \<lparr>iaf_title_sha256 = sha256_hex title, iaf_title_byte_count = title_bytes,
            iaf_description_sha256 = sha256_hex description_markdown,
            iaf_description_byte_count = description_bytes\<rparr>)))"

definition request_name_byte :: "nat \<times> char \<Rightarrow> bool" where
  "request_name_byte = (\<lambda>(index, byte).
     is_ascii_lowercase byte \<or> is_ascii_digit byte \<or> (index > 0 \<and> byte = CHR ''-''))"

definition validate_request_name :: "string \<Rightarrow> (domain_error, unit) result" where
  "validate_request_name name =
     and_then (validate_required ''request name'' name) (\<lambda>_.
     if length name > 48 \<or> \<not> list_all request_name_byte (enumerate 0 name) then
       Err (invalid_input ''request name must match [a-z0-9][a-z0-9-]{0,47}'')
     else if name \<in> {''main'', ''head'', ''scope''} then Err (invalid_input ''request name is reserved'')
     else Ok ())"

definition validate_chosen_request_name :: "string \<Rightarrow> (domain_error, unit) result" where
  "validate_chosen_request_name name =
     and_then (validate_request_name name) (\<lambda>_.
     if starts_with MAIN_PUSH_REQUEST_NAME_PREFIX name then Err (invalid_input ''request name is reserved'')
     else Ok ())"

definition validate_start_request_view ::
  "request_actor_role \<Rightarrow> view_id \<Rightarrow> view_id \<Rightarrow> views \<Rightarrow> (domain_error, unit) result" where
  "validate_start_request_view author_role author_view view views =
     (if Views_get views view = None then
        Err (invalid_input (''this repository has no '' @ view_str view @ '' view''))
      else if author_role = RolePublic then
        (case Views_anyone views of
           Some anyone \<Rightarrow>
             if anyone = view then Ok ()
             else Err (invalid_input (''public contributors can only create requests in the ''
                    @ Views_display_name views anyone @ '' view''))
         | None \<Rightarrow> Err (invalid_input ''this repository has no view public contributors can read''))
      else if \<not> Views_may_read views author_view view then
        Err (invalid_input (''requests in the '' @ Views_display_name views view
               @ '' view need an author who can read it''))
      else Ok ())"

definition validate_start_request_input :: "start_request_input \<Rightarrow> views \<Rightarrow> (domain_error, unit) result" where
  "validate_start_request_input input views =
     and_then (validate_required ''request id'' (sri_id input)) (\<lambda>_.
     and_then (validate_required ''repo id'' (sri_repo_id input)) (\<lambda>_.
     and_then (validate_required ''author user id'' (sri_author_user_id input)) (\<lambda>_.
     and_then (validate_request_name (sri_name input)) (\<lambda>_.
     and_then (case sri_title input of
         Some title \<Rightarrow> and_then (validate_required ''title'' title) (\<lambda>_.
           validate_body_size ''request title'' title REQUEST_TITLE_MAX_BYTES)
       | None \<Rightarrow> Ok ()) (\<lambda>_.
     and_then (validate_required ''base main oid'' (sri_main_ancestor_oid input)) (\<lambda>_.
     and_then (validate_required ''event id'' (sri_event_id input)) (\<lambda>_.
       validate_start_request_view (sri_author_role input) (sri_author_view input) (sri_view input) views)))))))"

definition started_request :: "start_request_facts \<Rightarrow> start_request_input \<Rightarrow> request" where
  "started_request facts input =
     \<lparr>rq_id = sri_id input, rq_repo_id = sri_repo_id input, rq_name = sri_name input,
      rq_author_user_id = Some (sri_author_user_id input), rq_author_role = sri_author_role input,
      rq_view = sri_view input, rq_base = sri_base input, rq_base_version = 1,
      rq_stack_status = (if base_is_main (sri_base input) then StackMain else WaitingForParent),
      rq_stack_depth = srf_stack_depth facts, rq_main_ancestor_oid = sri_main_ancestor_oid input,
      rq_head_oid = review_base_oid (sri_base input), rq_pushed_at_unix = None,
      rq_title = (case sri_title input of Some t \<Rightarrow> t | None \<Rightarrow> sri_name input), rq_description_markdown = [],
      rq_activity_version = 1, rq_submitted_at_unix = None, rq_closed_at_unix = None,
      rq_closed_by_user_id = None, rq_merged_at_unix = None, rq_merged_by_user_id = None,
      rq_merged_head_oid = None, rq_merged_main_oid = None, rq_created_at_unix = sri_now_unix input,
      rq_updated_at_unix = sri_now_unix input\<rparr>"

definition open_request ::
  "(string \<Rightarrow> string) \<Rightarrow> start_request_facts \<Rightarrow> start_request_input \<Rightarrow> views
   \<Rightarrow> (domain_error, request \<times> request_event) result" where
  "open_request sha256_hex facts input views =
     and_then (validate_start_request_input input views) (\<lambda>_.
     if srf_request_id_exists facts then Err (conflict ''request already exists'')
     else if srf_request_name_exists facts then Err (conflict ''request name already exists'')
     else if sri_author_role input = RolePublic
             \<and> srf_public_working_request_count facts \<ge> PUBLIC_WORKING_REQUEST_LIMIT then
       Err (conflict (''public contributors cannot have more than '' @ show_nat PUBLIC_WORKING_REQUEST_LIMIT
              @ '' Working requests per repository''))
     else let r = started_request facts input in
       and_then (validate_request_facts r) (\<lambda>_.
       and_then (request_identity_audit_fact sha256_hex (rq_title r) (rq_description_markdown r)) (\<lambda>identity.
         Ok (r, \<lparr>ev_id = sri_event_id input, ev_request_id = rq_id r, ev_actor_user_id = rq_author_user_id r,
                 ev_kind = KStarted, ev_position = 1, ev_payload = EvStarted identity,
                 ev_created_at_unix = sri_now_unix input\<rparr>))))"

definition start_request ::
  "(string \<Rightarrow> string) \<Rightarrow> start_request_facts \<Rightarrow> start_request_input \<Rightarrow> views
   \<Rightarrow> (domain_error, request \<times> request_event) result" where
  "start_request sha256_hex facts input views =
     and_then (validate_chosen_request_name (sri_name input)) (\<lambda>_. open_request sha256_hex facts input views)"

section \<open>The branch\<close>

definition validate_expected_head :: "request \<Rightarrow> string option \<Rightarrow> (domain_error, unit) result" where
  "validate_expected_head r expected =
     (case expected of
        Some oid \<Rightarrow>
          if rq_head_oid r \<noteq> oid then Err (conflict ''request branch changed since push started; fetch and retry'')
          else Ok ()
      | None \<Rightarrow>
          if rq_pushed_at_unix r \<noteq> None
          then Err (conflict ''request branch changed since push started; fetch and retry'') else Ok ())"

record record_working_request_upload_input =
  wui_request_id :: string
  wui_actor_user_id :: string
  wui_actor_can_edit :: bool
  wui_expected_old_head_oid :: "string option"
  wui_new_head_oid :: string
  wui_now_unix :: u64

definition record_working_request_upload ::
  "request \<Rightarrow> record_working_request_upload_input \<Rightarrow> (domain_error, request) result" where
  "record_working_request_upload r input =
     and_then (validate_required ''request id'' (wui_request_id input)) (\<lambda>_.
     and_then (validate_required ''actor user id'' (wui_actor_user_id input)) (\<lambda>_.
     and_then (validate_required ''head oid'' (wui_new_head_oid input)) (\<lambda>_.
     and_then (ensure_request_matches r (wui_request_id input)) (\<lambda>_.
     if \<not> wui_actor_can_edit input then Err (forbidden ''request branch edit access required'')
     else if is_terminal r then Err (conflict ''request is closed'')
     else and_then (validate_expected_head r (wui_expected_old_head_oid input)) (\<lambda>_.
     if \<not> base_is_main (rq_base r) then
       Err (conflict ''parent-based uploads require stack publication evidence'')
     else let r' = r\<lparr>rq_pushed_at_unix := Some (wui_now_unix input), rq_head_oid := wui_new_head_oid input,
                     rq_updated_at_unix := wui_now_unix input\<rparr> in
       and_then (validate_request_facts r') (\<lambda>_. Ok r'))))))"

record request_revision_git_facts =
  rgf_contains_old_head :: bool
  rgf_contained_main_oid :: "string option"
  rgf_contained_main_descends_from_base :: bool

record record_request_revision_input =
  rri_new_base :: "request_base option"
  rri_new_base_stack_depth :: "u32 option"
  rri_request_id :: string
  rri_actor_user_id :: string
  rri_actor_can_edit :: bool
  rri_expected_old_head_oid :: "string option"
  rri_new_head_oid :: string
  rri_git_facts :: request_revision_git_facts
  rri_event_id :: string
  rri_body :: "string option"
  rri_now_unix :: u64

definition request_main_ancestor_after_revision :: "request \<Rightarrow> request_revision_git_facts \<Rightarrow> string" where
  "request_main_ancestor_after_revision r facts =
     (case rgf_contained_main_oid facts of
        Some main_oid \<Rightarrow> if rgf_contained_main_descends_from_base facts then main_oid else rq_main_ancestor_oid r
      | None \<Rightarrow> rq_main_ancestor_oid r)"

definition validate_request_base_selection ::
  "request_base \<Rightarrow> u32 option \<Rightarrow> request_revision_git_facts \<Rightarrow> (domain_error, u32) result" where
  "validate_request_base_selection base stack_depth facts =
     (case base of
        BaseRequest _ _ _ \<Rightarrow>
          (case stack_depth of
             Some depth \<Rightarrow>
               if 2 \<le> depth \<and> depth \<le> REQUEST_STACK_MAX_DEPTH then
                 (if \<not> rgf_contains_old_head facts
                     \<and> \<not> (rgf_contained_main_oid facts \<noteq> None \<and> rgf_contained_main_descends_from_base facts)
                  then Err (conflict ''base selection must preserve accepted main ancestry'') else Ok depth)
               else Err (conflict ''parent selection requires a validated stack depth'')
           | None \<Rightarrow> Err (conflict ''parent selection requires a validated stack depth''))
      | BaseMain oid \<Rightarrow>
          if stack_depth \<noteq> None then Err (conflict ''main selection derives its stack depth'')
          else if oid = [] \<or> rgf_contained_main_oid facts \<noteq> Some oid
                  \<or> \<not> rgf_contained_main_descends_from_base facts
          then Err (conflict ''main selection requires a containing main ancestor'')
          else Ok 1)"

text \<open>The base and depth a revision leads to, chosen explicitly or carried along with main.\<close>

definition revision_base ::
  "request \<Rightarrow> record_request_revision_input \<Rightarrow> string \<Rightarrow> (domain_error, request_base \<times> u32) result" where
  "revision_base r input main_ancestor_oid =
     (case rri_new_base input of
        Some base \<Rightarrow>
          and_then (validate_request_base_selection base (rri_new_base_stack_depth input) (rri_git_facts input))
            (\<lambda>depth. Ok (base, depth))
      | None \<Rightarrow>
          if rri_new_base_stack_depth input \<noteq> None then
            Err (conflict ''stack depth requires an explicit parent selection'')
          else Ok (case rq_base r of BaseMain _ \<Rightarrow> BaseMain main_ancestor_oid | base \<Rightarrow> base, rq_stack_depth r))"

definition rebase_request :: "request \<Rightarrow> request_base \<Rightarrow> (domain_error, request) result" where
  "rebase_request r base =
     (if base \<noteq> rq_base r then
        (case checked_add (rq_base_version r) 1 of
           Some v \<Rightarrow> Ok (r\<lparr>rq_base_version := v, rq_base := base\<rparr>)
         | None \<Rightarrow> Err (conflict ''request base version overflow''))
      else Ok r)"

definition revision ::
  "request \<Rightarrow> request_event \<Rightarrow> string \<Rightarrow> string \<Rightarrow> bool \<Rightarrow> request_revision" where
  "revision r event old_head_oid new_head_oid rewrote_history =
     \<lparr>rv_id = ev_id event, rv_request_id = rq_id r, rv_position = ev_position event,
      rv_actor_user_id = ev_actor_user_id event, rv_old_head_oid = old_head_oid, rv_new_head_oid = new_head_oid,
      rv_base = rq_base r, rv_base_version = rq_base_version r, rv_main_ancestor_oid = rq_main_ancestor_oid r,
      rv_rewrote_history = rewrote_history, rv_created_at_unix = ev_created_at_unix event\<rparr>"

definition apply_revision ::
  "request \<Rightarrow> record_request_revision_input \<Rightarrow> string \<Rightarrow> request_base \<Rightarrow> u32 \<Rightarrow> request \<Rightarrow> request" where
  "apply_revision r input main_ancestor_oid base stack_depth rebased =
     (let restacked = (rri_new_base input \<noteq> None \<or> base \<noteq> rq_base r
            \<or> (rq_stack_status r \<in> {IntegrationConflict, NeedsMainUpdate}
                \<and> rq_head_oid r \<noteq> rri_new_head_oid input))
      in rebased\<lparr>rq_stack_status := (if restacked
             then (if base_is_main (rq_base rebased) then StackMain else WaitingForParent)
             else rq_stack_status rebased),
           rq_stack_depth := stack_depth, rq_main_ancestor_oid := main_ancestor_oid,
           rq_head_oid := rri_new_head_oid input, rq_pushed_at_unix := Some (rri_now_unix input),
           rq_updated_at_unix := rri_now_unix input\<rparr>)"

definition record_request_revision ::
  "request \<Rightarrow> bool \<Rightarrow> record_request_revision_input
   \<Rightarrow> (domain_error, request \<times> request_event \<times> request_revision) result" where
  "record_request_revision r event_id_exists input =
     and_then (validate_required ''request id'' (rri_request_id input)) (\<lambda>_.
     and_then (validate_required ''actor user id'' (rri_actor_user_id input)) (\<lambda>_.
     and_then (validate_required ''head oid'' (rri_new_head_oid input)) (\<lambda>_.
     and_then (validate_required ''event id'' (rri_event_id input)) (\<lambda>_.
     and_then (ensure_event_id_available event_id_exists) (\<lambda>_.
     and_then (ensure_request_matches r (rri_request_id input)) (\<lambda>_.
     if \<not> rri_actor_can_edit input then Err (forbidden ''request branch edit access required'')
     else if is_terminal r then Err (conflict ''closed requests cannot receive new revisions'')
     else and_then (validate_expected_head r (rri_expected_old_head_oid input)) (\<lambda>_.
     if rri_new_base input = Some (rq_base r) \<and> rri_new_head_oid input = rq_head_oid r then
       Err (conflict ''revision context requires a changed review base'')
     else let old_head_oid = rq_head_oid r;
              main_ancestor_oid = request_main_ancestor_after_revision r (rri_git_facts input)
       in and_then (revision_base r input main_ancestor_oid) (\<lambda>(base, stack_depth).
          and_then (rebase_request r base) (\<lambda>rebased.
            let r1 = apply_revision r input main_ancestor_oid base stack_depth rebased
            in and_then (advance_request_activity r1) (\<lambda>(r2, position).
               and_then (validate_request_facts r2) (\<lambda>_.
                 let event = \<lparr>ev_id = rri_event_id input, ev_request_id = rq_id r2,
                       ev_actor_user_id = Some (rri_actor_user_id input), ev_kind = KRevisionPushed,
                       ev_position = position,
                       ev_payload = EvRevisionPushed old_head_oid (rri_new_head_oid input) (rri_body input),
                       ev_created_at_unix = rri_now_unix input\<rparr>
                 in Ok (r2, event, revision r2 event old_head_oid (rri_new_head_oid input)
                          (\<not> rgf_contains_old_head (rri_git_facts input))))))))))))))"

section \<open>Closing\<close>

record close_request_input =
  cri_request_id :: string
  cri_actor_user_id :: string
  cri_actor_is_maintainer :: bool
  cri_event_id :: string
  cri_now_unix :: u64

datatype close_request_mutation =
  DeletedDraft request "request_event list" "request_revision list"
| ClosedRequest request request_event

definition ensure_request_close_allowed :: "request \<Rightarrow> string \<Rightarrow> bool \<Rightarrow> (domain_error, unit) result" where
  "ensure_request_close_allowed r actor_user_id actor_is_maintainer =
     (let actor_is_author = is_author r actor_user_id in
      case request_state_of r of
        Draft \<Rightarrow>
          if \<not> actor_is_author then Err (forbidden ''only the request author can delete a draft'') else Ok ()
      | state \<Rightarrow>
          if \<not> actor_is_author \<and> \<not> actor_is_maintainer then
            Err (forbidden ''request author or repo maintainer required'')
          else (case state of
              Closed \<Rightarrow> Err (conflict ''request is already closed'')
            | Merged \<Rightarrow> Err (conflict ''request is already merged'')
            | _ \<Rightarrow> Ok ()))"

definition close_request ::
  "request \<Rightarrow> request_event list \<Rightarrow> request_revision list \<Rightarrow> close_request_input
   \<Rightarrow> (domain_error, close_request_mutation) result" where
  "close_request r events revisions input =
     and_then (validate_required ''request id'' (cri_request_id input)) (\<lambda>_.
     and_then (validate_required ''actor user id'' (cri_actor_user_id input)) (\<lambda>_.
     and_then (validate_required ''event id'' (cri_event_id input)) (\<lambda>_.
     and_then (ensure_request_matches r (cri_request_id input)) (\<lambda>_.
     and_then (ensure_request_close_allowed r (cri_actor_user_id input) (cri_actor_is_maintainer input)) (\<lambda>_.
     if \<not> is_submitted r then
       Ok (DeletedDraft r (sort_key ev_id (filter (\<lambda>event. ev_request_id event = rq_id r) events))
            (sort_key rv_id (filter (\<lambda>rev. rv_request_id rev = rq_id r) revisions)))
     else and_then (ensure_event_id_available (\<exists>event \<in> set events. ev_id event = cri_event_id input)) (\<lambda>_.
     let r1 = r\<lparr>rq_closed_at_unix := Some (cri_now_unix input),
                rq_closed_by_user_id := Some (cri_actor_user_id input),
                rq_updated_at_unix := cri_now_unix input\<rparr>
     in and_then (advance_request_activity r1) (\<lambda>(r2, position).
        and_then (validate_request_facts r2) (\<lambda>_.
          Ok (ClosedRequest r2 \<lparr>ev_id = cri_event_id input, ev_request_id = rq_id r2,
                ev_actor_user_id = Some (cri_actor_user_id input), ev_kind = KClosed, ev_position = position,
                ev_payload = EvClosed (rq_head_oid r2), ev_created_at_unix = cri_now_unix input\<rparr>)))))))))"

section \<open>Submitting and merging\<close>

record submit_request_input =
  sbi_request_id :: string
  sbi_actor_user_id :: string
  sbi_actor_is_author :: bool
  sbi_actor_can_submit :: bool
  sbi_event_id :: string
  sbi_now_unix :: u64

datatype merge_request_landing = NativeMerge | ContainingMain bool

record merge_request_input =
  mri_request_id :: string
  mri_actor_user_id :: string
  mri_actor_is_maintainer :: bool
  mri_landing :: merge_request_landing
  mri_merged_head_oid :: string
  mri_merged_main_oid :: string
  mri_merged_event_id :: string
  mri_now_unix :: u64

definition validate_command :: "request \<Rightarrow> string \<Rightarrow> string \<Rightarrow> (domain_error, unit) result" where
  "validate_command r request_id actor =
     and_then (validate_required ''request id'' request_id) (\<lambda>_.
     and_then (validate_required ''actor user id'' actor) (\<lambda>_.
     if rq_id r = request_id then Ok () else Err (not_found ''request not found'')))"

definition append_event ::
  "request \<Rightarrow> string \<Rightarrow> string \<Rightarrow> request_event_kind \<Rightarrow> request_event_payload \<Rightarrow> u64
   \<Rightarrow> (domain_error, request \<times> request_event) result" where
  "append_event r event_id actor kind payload now =
     (case checked_add (rq_activity_version r) 1 of
        Some v \<Rightarrow>
          Ok (r\<lparr>rq_activity_version := v\<rparr>,
              \<lparr>ev_id = event_id, ev_request_id = rq_id r, ev_actor_user_id = Some actor, ev_kind = kind,
               ev_position = v, ev_payload = payload, ev_created_at_unix = now\<rparr>)
      | None \<Rightarrow> Err (conflict ''request activity version overflow''))"

definition submit_request :: "request \<Rightarrow> submit_request_input \<Rightarrow> (domain_error, request \<times> request_event list) result" where
  "submit_request r input =
     and_then (validate_command r (sbi_request_id input) (sbi_actor_user_id input)) (\<lambda>_.
     and_then (validate_required ''request event id'' (sbi_event_id input)) (\<lambda>_.
     if \<not> sbi_actor_is_author input \<or> \<not> is_author r (sbi_actor_user_id input) then
       Err (forbidden ''only the request author can submit it'')
     else if request_state_of r \<noteq> Draft then Err (conflict ''request has already been submitted'')
     else if \<not> sbi_actor_can_submit input then Err (forbidden ''request submission access required'')
     else if rq_pushed_at_unix r = None then Err (conflict ''request branch must be pushed before submission'')
     else and_then (append_event (r\<lparr>rq_submitted_at_unix := Some (sbi_now_unix input),
              rq_updated_at_unix := sbi_now_unix input\<rparr>) (sbi_event_id input) (sbi_actor_user_id input)
              KSubmitted (EvSubmitted (rq_head_oid r)) (sbi_now_unix input)) (\<lambda>(next, event).
       and_then (validate_request_facts next) (\<lambda>_. Ok (next, [event])))))"

datatype request_mergeability_status =
  MReady | MRepositoryNotReady | MDraft | MClosed | MMerged | MNotMaintainer | MMissingRequestBranch
| MChecksNotEvaluated | MChecksAwaitingApproval | MChecksPending | MChecksFailed | MChecksConfigurationError
| MReviewsPending | MReviewFindingsOpen | MWaitingForParent | MParentRewritten | MParentClosed | MAncestorBlocked
| MIntegrationConflict | MNeedsMainUpdate

record request_mergeability_rec =
  mg_status :: request_mergeability_status
  mg_reason :: "string option"

definition request_stack_mergeability :: "request_stack_status \<Rightarrow> request_mergeability_rec option" where
  "request_stack_mergeability status =
     (let with_reason = (\<lambda>mergeability. Some \<lparr>mg_status = mergeability, mg_reason = blocking_reason status\<rparr>) in
      case status of
        StackMain \<Rightarrow> None
      | WaitingForParent \<Rightarrow> with_reason MWaitingForParent
      | ParentExtended \<Rightarrow> with_reason MWaitingForParent
      | ParentRewritten \<Rightarrow> with_reason MParentRewritten
      | ParentClosed \<Rightarrow> with_reason MParentClosed
      | AncestorBlocked \<Rightarrow> with_reason MAncestorBlocked
      | NeedsMainUpdate \<Rightarrow> with_reason MNeedsMainUpdate
      | IntegrationConflict \<Rightarrow> with_reason MIntegrationConflict)"

definition validate_containing_main_head :: "bool \<Rightarrow> (domain_error, unit) result" where
  "validate_containing_main_head contains_request_head =
     (if \<not> contains_request_head then Err (conflict ''containing main must contain the request head'') else Ok ())"

text \<open>
  \<^verbatim>\<open>decision.reason.unwrap()\<close> panics without a reason; every blocking status has one, so \<open>the\<close> is defined here.
\<close>

definition stack_blocks :: "request \<Rightarrow> (domain_error, unit) result" where
  "stack_blocks r =
     (case request_stack_mergeability (rq_stack_status r) of
        Some decision \<Rightarrow> Err (conflict (the (mg_reason decision)))
      | None \<Rightarrow> Ok ())"

definition validate_request_merge_execution ::
  "request \<Rightarrow> merge_request_landing \<Rightarrow> (domain_error, unit) result" where
  "validate_request_merge_execution r landing =
     (case landing of
        ContainingMain contains_request_head \<Rightarrow>
          and_then (validate_containing_main_head contains_request_head) (\<lambda>_.
          if \<not> base_is_main (rq_base r) then Err (conflict ''parent request must land first'')
          else if rq_stack_status r = IntegrationConflict then Ok ()
          else stack_blocks r)
      | NativeMerge \<Rightarrow> stack_blocks r)"

definition merge_request :: "request \<Rightarrow> merge_request_input \<Rightarrow> (domain_error, request \<times> request_event list) result" where
  "merge_request r input =
     and_then (validate_command r (mri_request_id input) (mri_actor_user_id input)) (\<lambda>_.
     and_then (validate_required ''merged event id'' (mri_merged_event_id input)) (\<lambda>_.
     and_then (validate_required ''merged head oid'' (mri_merged_head_oid input)) (\<lambda>_.
     and_then (validate_required ''merged main oid'' (mri_merged_main_oid input)) (\<lambda>_.
     if \<not> mri_actor_is_maintainer input then Err (forbidden ''repo maintainer required'')
     else if request_state_of r \<noteq> Open then Err (conflict ''only open requests can be merged'')
     else and_then (validate_request_merge_execution r (mri_landing input)) (\<lambda>_.
     if mri_merged_head_oid input \<noteq> rq_head_oid r then
       Err (conflict ''request branch changed before merge completed'')
     else and_then (append_event (r\<lparr>rq_stack_status := StackMain,
              rq_merged_at_unix := Some (mri_now_unix input),
              rq_merged_by_user_id := Some (mri_actor_user_id input),
              rq_merged_head_oid := Some (mri_merged_head_oid input),
              rq_merged_main_oid := Some (mri_merged_main_oid input),
              rq_updated_at_unix := mri_now_unix input\<rparr>) (mri_merged_event_id input) (mri_actor_user_id input)
              KMerged (EvMerged (mri_merged_head_oid input) (mri_merged_main_oid input)) (mri_now_unix input))
       (\<lambda>(next, event). and_then (validate_request_facts next) (\<lambda>_. Ok (next, [event]))))))))"

definition lands_with_main :: "request \<Rightarrow> bool" where
  "lands_with_main r \<longleftrightarrow> request_state_of r = Open \<and> rq_head_oid r \<noteq> review_base_oid (rq_base r)"

section \<open>Identity\<close>

record edit_request_identity_input =
  eii_request_id :: string
  eii_actor_user_id :: string
  eii_actor_can_edit_identity :: bool
  eii_event_id :: string
  eii_title :: "string option"
  eii_description_markdown :: "string option"
  eii_expected_description_markdown :: "string option"
  eii_now_unix :: u64

definition edit_request_identity ::
  "(string \<Rightarrow> string) \<Rightarrow> request \<Rightarrow> bool \<Rightarrow> edit_request_identity_input
   \<Rightarrow> (domain_error, request \<times> request_event) result" where
  "edit_request_identity sha256_hex r event_id_exists input =
     and_then (validate_required ''request id'' (eii_request_id input)) (\<lambda>_.
     and_then (validate_required ''actor user id'' (eii_actor_user_id input)) (\<lambda>_.
     and_then (validate_required ''event id'' (eii_event_id input)) (\<lambda>_.
     and_then (ensure_event_id_available event_id_exists) (\<lambda>_.
     if \<not> eii_actor_can_edit_identity input then Err (forbidden ''request edit access required'')
     else if eii_title input = None \<and> eii_description_markdown input = None then
       Err (invalid_input ''request edit requires a title or description'')
     else and_then (case eii_title input of
         Some title \<Rightarrow> and_then (validate_required ''request title'' title) (\<lambda>_.
           validate_body_size ''request title'' title REQUEST_TITLE_MAX_BYTES)
       | None \<Rightarrow> Ok ()) (\<lambda>_.
     and_then (case eii_description_markdown input of
         Some description \<Rightarrow> validate_body_size ''request description'' description REQUEST_DESCRIPTION_MAX_BYTES
       | None \<Rightarrow> Ok ()) (\<lambda>_.
     and_then (ensure_request_matches r (eii_request_id input)) (\<lambda>_.
     if is_terminal r then Err (conflict ''request is closed'')
     else if eii_description_markdown input \<noteq> None
             \<and> (case eii_expected_description_markdown input of
                  Some expected \<Rightarrow> expected \<noteq> rq_description_markdown r | None \<Rightarrow> False) then
       Err (conflict ''request description changed since it was loaded'')
     else let title = (case eii_title input of Some t \<Rightarrow> t | None \<Rightarrow> rq_title r);
              description = (case eii_description_markdown input of Some d \<Rightarrow> d | None \<Rightarrow> rq_description_markdown r)
       in if rq_title r = title \<and> rq_description_markdown r = description then
            Err (conflict ''request title and description are unchanged'')
          else and_then (request_identity_audit_fact sha256_hex (rq_title r) (rq_description_markdown r)) (\<lambda>old_identity.
            and_then (request_identity_audit_fact sha256_hex title description) (\<lambda>new_identity.
            and_then (advance_request_activity (r\<lparr>rq_title := title, rq_description_markdown := description,
                rq_updated_at_unix := eii_now_unix input\<rparr>)) (\<lambda>(r', position).
              Ok (r', \<lparr>ev_id = eii_event_id input, ev_request_id = rq_id r',
                   ev_actor_user_id = Some (eii_actor_user_id input), ev_kind = KIdentityEdited,
                   ev_position = position, ev_payload = EvIdentityEdited old_identity new_identity,
                   ev_created_at_unix = eii_now_unix input\<rparr>)))))))))))"

end
