(* ===== verification/Request_Stack.thy ===== *)
theory Request_Stack
  imports Request_Lifecycle
begin

text \<open>
  Stacked requests, \<^verbatim>\<open>requests/stack.rs\<close>: a request may be based on another request's saved revision instead of on
  main. The base of a stack is validated against the chain of its ancestors, its status follows its parent, and it
  moves to main when the parent has landed.
\<close>

section \<open>Choosing a parent\<close>

text \<open>The loop over the ancestors: same repository and view, no repetition, each one based on the next, the last on main.\<close>

fun check_ancestors ::
  "string \<Rightarrow> view_id \<Rightarrow> string set \<Rightarrow> request list \<Rightarrow> (domain_error, unit) result" where
  "check_ancestors repo_id view seen [] = Ok ()"
| "check_ancestors repo_id view seen (ancestor # rest) =
     (if rq_repo_id ancestor \<noteq> repo_id \<or> rq_view ancestor \<noteq> view \<or> rq_id ancestor \<in> seen then
        Err (conflict ''request stack must be acyclic within the same repository and view'')
      else (case (rq_base ancestor, rest) of
          (BaseRequest request_id _ _, next # _) \<Rightarrow>
            if request_id = rq_id next then check_ancestors repo_id view (insert (rq_id ancestor) seen) rest
            else Err (conflict ''request stack ancestry is incomplete'')
        | (BaseMain _, []) \<Rightarrow> check_ancestors repo_id view (insert (rq_id ancestor) seen) rest
        | _ \<Rightarrow> Err (conflict ''request stack ancestry is incomplete'')))"

definition validate_request_stack_base ::
  "string \<Rightarrow> string \<Rightarrow> view_id \<Rightarrow> request_base \<Rightarrow> request list \<Rightarrow> request_revision option
   \<Rightarrow> (domain_error, u32) result" where
  "validate_request_stack_base child_id repo_id view base ancestors parent_current_revision =
     (case base of
        BaseMain _ \<Rightarrow> if ancestors \<noteq> [] then Err (conflict ''main base cannot have ancestors'') else Ok 1
      | BaseRequest request_id revision_id head_oid \<Rightarrow>
          if ancestors = [] \<or> length ancestors > unat REQUEST_STACK_MAX_ANCESTORS then
            Err (conflict ''request stack requires a complete ancestry of at most 32 parents'')
          else (case parent_current_revision of
              None \<Rightarrow> Err (conflict ''parent requires a saved current revision'')
            | Some saved \<Rightarrow>
                let parent = hd ancestors in
                if request_state_of parent \<noteq> Open \<or> rq_pushed_at_unix parent = None \<or> rq_id parent \<noteq> request_id
                   \<or> rv_id saved \<noteq> revision_id \<or> rv_request_id saved \<noteq> rq_id parent
                   \<or> rv_new_head_oid saved \<noteq> head_oid \<or> rq_head_oid parent \<noteq> head_oid then
                  Err (conflict ''parent pin must name an open parent's current saved revision'')
                else and_then (check_ancestors repo_id view {child_id} ancestors) (\<lambda>_.
                  Ok (of_nat (length ancestors) + 1))))"

section \<open>Following the parent\<close>

record request_parent_git_facts =
  pgf_parent_contains_pin :: bool
  pgf_ancestor_blocked :: bool
  pgf_integration_conflict :: bool

definition classify_request_stack ::
  "request_base \<Rightarrow> request option \<Rightarrow> request_parent_git_facts \<Rightarrow> (domain_error, request_stack_status) result" where
  "classify_request_stack base parent facts =
     (case base of
        BaseMain _ \<Rightarrow> Ok StackMain
      | BaseRequest request_id _ head_oid \<Rightarrow>
          (case parent of
             Some p \<Rightarrow>
               if rq_id p \<noteq> request_id then Err (conflict ''request parent is unavailable'')
               else if request_state_of p = Closed then Ok ParentClosed
               else if \<not> pgf_parent_contains_pin facts then Ok ParentRewritten
               else if pgf_ancestor_blocked facts then Ok AncestorBlocked
               else if pgf_integration_conflict facts then Ok IntegrationConflict
               else Ok (if rq_head_oid p = head_oid then WaitingForParent else ParentExtended)
           | None \<Rightarrow> Err (conflict ''request parent is unavailable'')))"

record request_stack_refresh_effects =
  sre_stop_auto_merge :: "request_auto_merge_stop_reason option"
  sre_reactivate_attention :: bool

definition mark_request_integration_conflict ::
  "request \<Rightarrow> string \<Rightarrow> u64 \<Rightarrow> u64 \<Rightarrow> (domain_error, request \<times> request_stack_refresh_effects) result" where
  "mark_request_integration_conflict r expected_head_oid expected_base_version now_unix =
     (if is_terminal r \<or> rq_head_oid r \<noteq> expected_head_oid \<or> rq_base_version r \<noteq> expected_base_version then
        Err (conflict ''request integration context changed'')
      else let changed = (rq_stack_status r \<noteq> IntegrationConflict);
               r1 = r\<lparr>rq_stack_status := IntegrationConflict, rq_updated_at_unix := max (rq_updated_at_unix r) now_unix\<rparr>
        in and_then (if changed then and_then (advance_request_activity r1) (\<lambda>(r2, _). Ok r2) else Ok r1) (\<lambda>r2.
           and_then (validate_request_facts r2) (\<lambda>_.
             Ok (r2, \<lparr>sre_stop_auto_merge = Some StopMergeConflict, sre_reactivate_attention = changed\<rparr>))))"

definition apply_stack_status ::
  "request \<Rightarrow> request_stack_status \<Rightarrow> u32 \<Rightarrow> bool \<Rightarrow> u64 \<Rightarrow> (domain_error, request) result" where
  "apply_stack_status r status depth reactivate_attention now_unix =
     (let r1 = r\<lparr>rq_stack_status := status, rq_stack_depth := depth,
                 rq_updated_at_unix := max (rq_updated_at_unix r) now_unix\<rparr>
      in and_then (if reactivate_attention
                   then and_then (advance_request_activity r1) (\<lambda>(r2, _). Ok r2) else Ok r1) (\<lambda>r2.
         and_then (validate_request_facts r2) (\<lambda>_. Ok r2)))"

definition refresh_request_stack ::
  "request \<Rightarrow> request option \<Rightarrow> request_parent_git_facts \<Rightarrow> u64
   \<Rightarrow> (domain_error, request \<times> request_stack_refresh_effects) result" where
  "refresh_request_stack r parent facts now_unix =
     (if base_is_main (rq_base r) then Ok (r, \<lparr>sre_stop_auto_merge = None, sre_reactivate_attention = False\<rparr>)
      else (case parent of
          None \<Rightarrow> Err (conflict ''request parent is unavailable'')
        | Some p \<Rightarrow>
            if rq_repo_id p \<noteq> rq_repo_id r \<or> rq_view p \<noteq> rq_view r then
              Err (conflict ''request parent must share the repository and view'')
            else and_then (classify_request_stack (rq_base r) (Some p) facts) (\<lambda>status.
              case checked_add (rq_stack_depth p) 1 of
                None \<Rightarrow> Err (conflict ''request stack exceeds 32 ancestors'')
              | Some depth \<Rightarrow>
                  if \<not> depth \<le> REQUEST_STACK_MAX_DEPTH then Err (conflict ''request stack exceeds 32 ancestors'')
                  else let depth_changed = (rq_stack_depth r \<noteq> depth);
                           status_changed = (rq_stack_status r \<noteq> status);
                           reactivate_attention = (status_changed \<and> requires_restack status)
                    in and_then
                      (if depth_changed \<or> status_changed
                       then apply_stack_status r status depth reactivate_attention now_unix
                       else Ok r) (\<lambda>r'.
                      Ok (r', \<lparr>sre_stop_auto_merge = auto_merge_stop_reason status,
                               sre_reactivate_attention = reactivate_attention\<rparr>)))))"

section \<open>Landing of the parent\<close>

record retarget_request_after_parent_merge_input =
  rti_parent_head_oid :: string
  rti_event_id :: string
  rti_now_unix :: u64
  rti_parent_contains_pin :: bool
  rti_contained_main_oid :: "string option"
  rti_accepted_view_main_oid :: "string option"
  rti_contained_main_descends_from_ancestor :: bool

record request_retarget_effects =
  rte_rebind_check_context :: bool
  rte_preserve_auto_merge_intent :: bool

definition retarget_needs_main_update ::
  "request \<Rightarrow> retarget_request_after_parent_merge_input \<Rightarrow> (domain_error, bool) result" where
  "retarget_needs_main_update child input =
     (if ViewId_is_private (rq_view child) then Ok False
      else (case rti_accepted_view_main_oid input of
          None \<Rightarrow> Err (conflict ''restricted child retarget requires accepted view main'')
        | Some accepted \<Rightarrow>
            and_then (validate_required ''accepted view main oid'' accepted) (\<lambda>_.
              Ok (rti_contained_main_oid input \<noteq> Some accepted
                  \<or> \<not> rti_contained_main_descends_from_ancestor input))))"

definition retargeted_request ::
  "request \<Rightarrow> retarget_request_after_parent_merge_input \<Rightarrow> string \<Rightarrow> u64 \<Rightarrow> bool \<Rightarrow> request" where
  "retargeted_request child input head_oid version needs_main_update =
     child\<lparr>rq_base := BaseMain head_oid, rq_base_version := version,
       rq_stack_status := (if needs_main_update then NeedsMainUpdate
         else if rq_stack_status child \<noteq> IntegrationConflict then StackMain
         else rq_stack_status child),
       rq_stack_depth := 1,
       rq_main_ancestor_oid := (case rti_contained_main_oid input of
           Some oid \<Rightarrow> if rti_contained_main_descends_from_ancestor input then oid
                       else rq_main_ancestor_oid child
         | None \<Rightarrow> rq_main_ancestor_oid child),
       rq_updated_at_unix := rti_now_unix input\<rparr>"

definition retarget_request_after_parent_merge ::
  "request \<Rightarrow> request \<Rightarrow> retarget_request_after_parent_merge_input
   \<Rightarrow> (domain_error, request \<times> request_event \<times> request_retarget_effects) result" where
  "retarget_request_after_parent_merge child parent input =
     (case rq_base child of
        BaseMain _ \<Rightarrow> Err (conflict ''request has no parent pin'')
      | BaseRequest request_id _ head_oid \<Rightarrow>
          if is_terminal child \<or> rq_id parent \<noteq> request_id \<or> rq_repo_id parent \<noteq> rq_repo_id child
             \<or> rq_view parent \<noteq> rq_view child \<or> request_state_of parent \<noteq> Merged
             \<or> rq_merged_head_oid parent \<noteq> Some (rti_parent_head_oid input) \<or> \<not> rti_parent_contains_pin input then
            Err (conflict ''only a containing parent merge can retarget an active child'')
          else and_then (validate_required ''retarget event id'' (rti_event_id input)) (\<lambda>_.
            and_then (retarget_needs_main_update child input) (\<lambda>needs_main_update.
            case (rq_merged_head_oid parent, rq_merged_main_oid parent) of
              (None, _) \<Rightarrow> Err (conflict ''parent merge head is missing'')
            | (Some _, None) \<Rightarrow> Err (conflict ''parent merge main is missing'')
            | (Some landed_head_oid, Some main_oid) \<Rightarrow>
                (case checked_add (rq_base_version child) 1 of
                   None \<Rightarrow> Err (conflict ''request base version overflow'')
                 | Some version \<Rightarrow>
                     let old_base = rq_base child;
                         r1 = retargeted_request child input head_oid version needs_main_update
                     in and_then (advance_request_activity r1) (\<lambda>(r2, position).
                        and_then (validate_request_facts r2) (\<lambda>_.
                          Ok (r2, \<lparr>ev_id = rti_event_id input, ev_request_id = rq_id r2,
                                ev_actor_user_id = rq_merged_by_user_id parent, ev_kind = KBaseRetargeted,
                                ev_position = position, ev_payload = EvBaseRetargeted old_base landed_head_oid main_oid,
                                ev_created_at_unix = rti_now_unix input\<rparr>,
                              \<lparr>rte_rebind_check_context = True,
                               rte_preserve_auto_merge_intent = (\<not> needs_main_update)\<rparr>)))))))"

end
