(* ===== verification/Request_Access.thy ===== *)
theory Request_Access
  imports Request_Stack Scope_Repository
begin

text \<open>
  Who sees a request and what each viewer may do with it (\<^verbatim>\<open>requests/access.rs\<close>), who is invited to it
  (\<^verbatim>\<open>requests/invitees.rs\<close>) and whether it may land now (\<^verbatim>\<open>requests/merge_gate.rs\<close>).

  The listing predicate is what the stores evaluate over many requests; the policy is what a single request is
  shown with. Both are modelled as the code has them, the predicate with its own datatype and evaluator.
\<close>

section \<open>Viewers and permissions\<close>

record request_viewer =
  vw_access :: repository_access
  vw_user_id :: "string option"
  vw_is_invitee :: bool

definition RequestViewer_new :: "repository_access \<Rightarrow> string option \<Rightarrow> bool \<Rightarrow> request_viewer" where
  "RequestViewer_new access user_id is_invitee =
     \<lparr>vw_access = access, vw_user_id = user_id, vw_is_invitee = (user_id \<noteq> None \<and> is_invitee)\<rparr>"

record request_permissions =
  rp_can_open_discussion :: bool
  rp_can_reply_to_discussion :: bool
  rp_can_wait_after_reply :: bool
  rp_can_transition_discussion :: bool
  rp_can_edit_identity :: bool
  rp_can_pull_branch :: bool
  rp_can_push_branch :: bool
  rp_can_submit :: bool
  rp_can_manage_invitees :: bool
  rp_can_leave_request :: bool
  rp_can_close :: bool
  rp_can_merge :: bool

record request_policy_decision =
  pd_listable :: bool
  pd_exact_visible :: bool
  pd_discussion_visible :: bool
  pd_activity_stream_visible :: bool
  pd_branch_mutable :: bool
  pd_counts_as_open :: bool
  pd_permissions :: request_permissions

datatype request_list_predicate =
  LpAll "request_list_predicate list"
| LpAny "request_list_predicate list"
| LpView view_id
| LpSubmitted
| LpAuthor string
| LpInvitee string

definition request_list_predicate_for ::
  "repository_access \<Rightarrow> string option \<Rightarrow> views \<Rightarrow> request_list_predicate" where
  "request_list_predicate_for access viewer_user_id views =
     (let anyone = Views_anyone views;
          in_anyone = (case anyone of
              Some anyone_view \<Rightarrow>
                [LpAll [LpView anyone_view,
                   LpAny (LpSubmitted # (case viewer_user_id of
                       Some user_id \<Rightarrow> [LpAuthor user_id, LpInvitee user_id] | None \<Rightarrow> []))]]
            | None \<Rightarrow> []);
          as_maintainer = (if is_maintainer access
            then map LpView (filter (\<lambda>view. Some view \<noteq> anyone) (Views_readable_by views (Some (ra_view access))))
            else [])
      in LpAny (in_anyone @ as_maintainer))"

fun predicate_matches :: "request_list_predicate \<Rightarrow> request \<Rightarrow> bool \<Rightarrow> bool" where
  "predicate_matches (LpAll predicates) r viewer_is_invitee =
     (\<forall>p \<in> set predicates. predicate_matches p r viewer_is_invitee)"
| "predicate_matches (LpAny predicates) r viewer_is_invitee =
     (\<exists>p \<in> set predicates. predicate_matches p r viewer_is_invitee)"
| "predicate_matches (LpView view) r viewer_is_invitee = (rq_view r = view)"
| "predicate_matches LpSubmitted r viewer_is_invitee = is_submitted r"
| "predicate_matches (LpAuthor user_id) r viewer_is_invitee = is_author r user_id"
| "predicate_matches (LpInvitee _) r viewer_is_invitee = viewer_is_invitee"

definition request_role_of_access :: "repository_access \<Rightarrow> request_actor_role" where
  "request_role_of_access access =
     (case ra_actor access of ActorOwner \<Rightarrow> RoleOwner | ActorMember \<Rightarrow> RoleMember | ActorPublic \<Rightarrow> RolePublic)"

definition request_visible_to_every_maintainer :: "view_id \<Rightarrow> bool \<Rightarrow> views \<Rightarrow> bool" where
  "request_visible_to_every_maintainer view submitted views \<longleftrightarrow>
     Views_get views view \<noteq> None \<and> (submitted \<or> Views_anyone views \<noteq> Some view)"

definition request_merger :: "request_viewer \<Rightarrow> string option \<Rightarrow> view_id \<Rightarrow> views \<Rightarrow> bool" where
  "request_merger viewer author_user_id request_view views \<longleftrightarrow>
     (let author = (vw_user_id viewer \<noteq> None \<and> vw_user_id viewer = author_user_id);
          access = vw_access viewer
      in is_maintainer access
         \<and> (Views_may_read views (ra_view access) (Views_full views)
            \<or> (author \<and> ra_can_push access \<and> ra_view access = request_view)))"

definition request_policy :: "request \<Rightarrow> request_viewer \<Rightarrow> views \<Rightarrow> request_policy_decision" where
  "request_policy r viewer views =
     (let access = vw_access viewer;
          maintainer = is_maintainer access;
          authenticated = (vw_user_id viewer \<noteq> None);
          author = (case vw_user_id viewer of Some user_id \<Rightarrow> is_author r user_id | None \<Rightarrow> False);
          invitee = vw_is_invitee viewer;
          anyone_view = (Views_anyone views = Some (rq_view r));
          full_view = (rq_view r = Views_full views);
          reads_request_view = (Views_get views (rq_view r) \<noteq> None
            \<and> Views_may_read views (ra_view access) (rq_view r));
          merges_into_canonical_main = request_merger viewer (rq_author_user_id r) (rq_view r) views;
          submitted = is_submitted r;
          terminal = is_terminal r;
          is_open = (request_state_of r = Open);
          exact_visible = (if anyone_view then submitted \<or> author \<or> invitee else maintainer \<and> reads_request_view);
          listable = predicate_matches (request_list_predicate_for access (vw_user_id viewer) views) r
            (vw_is_invitee viewer);
          branch_actor = (author \<or> (anyone_view \<and> invitee) \<or> (maintainer \<and> reads_request_view));
          branch_mutable = (exact_visible \<and> branch_actor \<and> \<not> terminal);
          discussion_visible = exact_visible;
          activity_stream_visible = (discussion_visible \<and> listable);
          can_discuss = (discussion_visible \<and> authenticated \<and> (\<not> full_view \<or> (maintainer \<and> \<not> terminal)))
      in \<lparr>pd_listable = listable, pd_exact_visible = exact_visible, pd_discussion_visible = discussion_visible,
          pd_activity_stream_visible = activity_stream_visible, pd_branch_mutable = branch_mutable,
          pd_counts_as_open = (is_open \<and> exact_visible),
          pd_permissions =
            \<lparr>rp_can_open_discussion = can_discuss,
             rp_can_reply_to_discussion = can_discuss,
             rp_can_wait_after_reply = (can_discuss \<and> maintainer \<and> is_open),
             rp_can_transition_discussion = (discussion_visible \<and> authenticated \<and> (\<not> full_view \<or> \<not> terminal)),
             rp_can_edit_identity = (exact_visible \<and> \<not> terminal \<and> (author \<or> maintainer)),
             rp_can_pull_branch = (exact_visible \<and> advertised_in_git (request_state_of r)),
             rp_can_push_branch = branch_mutable,
             rp_can_submit = (exact_visible \<and> \<not> submitted \<and> author),
             rp_can_manage_invitees = (exact_visible \<and> anyone_view \<and> \<not> terminal \<and> (author \<or> maintainer)),
             rp_can_leave_request = (exact_visible \<and> anyone_view \<and> invitee \<and> \<not> terminal),
             rp_can_close = (exact_visible \<and> (case vw_user_id viewer of
                 Some user_id \<Rightarrow> is_ok (ensure_request_close_allowed r user_id maintainer) | None \<Rightarrow> False)),
             rp_can_merge = (exact_visible \<and> merges_into_canonical_main \<and> is_open)\<rparr>\<rparr>)"

section \<open>Merge gate\<close>

datatype request_checks_outcome =
  ChecksClear | ChecksNotEvaluated | ChecksAwaitingApproval | ChecksPending | ChecksFailed | ChecksConfigurationError

datatype request_reviews_outcome = ReviewsClear | ReviewsPending | ReviewsFindingsOpen

record request_merge_subject =
  ms_author_user_id :: "string option"
  ms_view :: view_id
  ms_state :: request_state
  ms_has_pushed_head :: bool
  ms_stack_status :: request_stack_status

definition merge_subject_of :: "request \<Rightarrow> request_merge_subject" where
  "merge_subject_of r =
     \<lparr>ms_author_user_id = rq_author_user_id r, ms_view = rq_view r, ms_state = request_state_of r,
      ms_has_pushed_head = (rq_pushed_at_unix r \<noteq> None), ms_stack_status = rq_stack_status r\<rparr>"

text \<open>The decision once the stack allows the merge: checks before reviews, open findings before unfinished checks.\<close>

definition checks_and_reviews ::
  "request_checks_outcome \<Rightarrow> request_reviews_outcome \<Rightarrow> request_mergeability_rec" where
  "checks_and_reviews checks reviews =
     (if checks = ChecksFailed then
        \<lparr>mg_status = MChecksFailed, mg_reason = Some ''a required result did not succeed''\<rparr>
      else if checks = ChecksConfigurationError then
        \<lparr>mg_status = MChecksConfigurationError, mg_reason = Some ''the request head's CI cannot run as configured''\<rparr>
      else if reviews = ReviewsFindingsOpen then
        \<lparr>mg_status = MReviewFindingsOpen, mg_reason = Some ''a review bot's discussion is unresolved''\<rparr>
      else if checks = ChecksNotEvaluated then
        \<lparr>mg_status = MChecksNotEvaluated, mg_reason = Some ''CI has not been evaluated for this commit yet''\<rparr>
      else if checks = ChecksAwaitingApproval then
        \<lparr>mg_status = MChecksAwaitingApproval, mg_reason = Some ''CI is waiting for a maintainer to start it''\<rparr>
      else if checks = ChecksPending then
        \<lparr>mg_status = MChecksPending, mg_reason = Some ''CI has not finished''\<rparr>
      else if reviews = ReviewsPending then
        \<lparr>mg_status = MReviewsPending,
         mg_reason = Some ''a required review bot has not finished the latest commit''\<rparr>
      else \<lparr>mg_status = MReady, mg_reason = None\<rparr>)"

definition evaluate_request_readiness ::
  "repo_lifecycle_state \<Rightarrow> request_merge_subject \<Rightarrow> request_checks_outcome \<Rightarrow> request_reviews_outcome
   \<Rightarrow> request_mergeability_rec" where
  "evaluate_request_readiness repository_lifecycle subject checks reviews =
     (if repository_lifecycle \<noteq> RepoReady then
        \<lparr>mg_status = MRepositoryNotReady, mg_reason = Some ''repo must be ready before merge''\<rparr>
      else (case ms_state subject of
          Closed \<Rightarrow> \<lparr>mg_status = MClosed, mg_reason = Some ''request is closed''\<rparr>
        | Merged \<Rightarrow> \<lparr>mg_status = MMerged, mg_reason = Some ''request is merged''\<rparr>
        | Draft \<Rightarrow> \<lparr>mg_status = MDraft, mg_reason = Some ''request is not submitted''\<rparr>
        | Open \<Rightarrow>
            if \<not> ms_has_pushed_head subject then
              \<lparr>mg_status = MMissingRequestBranch, mg_reason = Some ''request branch has not been pushed''\<rparr>
            else if requires_restack (ms_stack_status subject) then
              the (request_stack_mergeability (ms_stack_status subject))
            else if ms_stack_status subject \<noteq> StackMain
                    \<and> checks \<noteq> ChecksFailed \<and> checks \<noteq> ChecksConfigurationError
                    \<and> reviews \<noteq> ReviewsFindingsOpen then
              the (request_stack_mergeability (ms_stack_status subject))
            else checks_and_reviews checks reviews))"

definition evaluate_request_merge ::
  "repo_lifecycle_state \<Rightarrow> request_merge_subject \<Rightarrow> request_viewer \<Rightarrow> views \<Rightarrow> request_checks_outcome
   \<Rightarrow> request_reviews_outcome \<Rightarrow> request_mergeability_rec" where
  "evaluate_request_merge repository_lifecycle subject viewer views checks reviews =
     (let readiness = evaluate_request_readiness repository_lifecycle subject checks reviews in
      if ms_state subject \<noteq> Open \<or> mg_status readiness = MRepositoryNotReady then readiness
      else if \<not> is_maintainer (vw_access viewer) then
        \<lparr>mg_status = MNotMaintainer, mg_reason = Some ''repo maintainer required''\<rparr>
      else if \<not> request_merger viewer (ms_author_user_id subject) (ms_view subject) views then
        \<lparr>mg_status = MNotMaintainer, mg_reason = Some ''merging needs a maintainer who reads the full view''\<rparr>
      else readiness)"

definition request_list_mergeability ::
  "request_merge_subject \<Rightarrow> request_viewer \<Rightarrow> views \<Rightarrow> request_checks_outcome \<Rightarrow> request_reviews_outcome
   \<Rightarrow> repo_lifecycle_state \<Rightarrow> request_mergeability_rec" where
  "request_list_mergeability subject viewer views checks reviews repository_lifecycle =
     evaluate_request_merge repository_lifecycle subject viewer views checks reviews"

definition request_mergeability ::
  "request \<Rightarrow> request_viewer \<Rightarrow> views \<Rightarrow> request_checks_outcome \<Rightarrow> request_reviews_outcome
   \<Rightarrow> repo_lifecycle_state \<Rightarrow> request_mergeability_rec" where
  "request_mergeability r viewer views checks reviews repository_lifecycle =
     request_list_mergeability (merge_subject_of r) viewer views checks reviews repository_lifecycle"

datatype merge_gate_authority = AuthorityRequestMerge | AuthorityMainPush

datatype merge_gate_input =
  GateRequestMerge repo_lifecycle_state request_merge_subject request_viewer views request_checks_outcome
    request_reviews_outcome
| GateMainPush repo_lifecycle_state repository_access views

datatype merge_gate_decision =
  DecidedRequestMerge request_mergeability_rec | DecidedMainPush | MainPushDenied

definition gate_authority :: "merge_gate_decision \<Rightarrow> merge_gate_authority option" where
  "gate_authority decision =
     (case decision of
        DecidedRequestMerge d \<Rightarrow> if mg_status d = MReady then Some AuthorityRequestMerge else None
      | DecidedMainPush \<Rightarrow> Some AuthorityMainPush
      | MainPushDenied \<Rightarrow> None)"

definition gate_reason :: "merge_gate_decision \<Rightarrow> string option" where
  "gate_reason decision =
     (case decision of
        DecidedRequestMerge d \<Rightarrow> mg_reason d
      | DecidedMainPush \<Rightarrow> None
      | MainPushDenied \<Rightarrow> Some ''full-view main push access required'')"

definition gate_request_mergeability :: "merge_gate_decision \<Rightarrow> request_mergeability_rec option" where
  "gate_request_mergeability decision = (case decision of DecidedRequestMerge d \<Rightarrow> Some d | _ \<Rightarrow> None)"

definition evaluate_merge_gate :: "merge_gate_input \<Rightarrow> merge_gate_decision" where
  "evaluate_merge_gate input =
     (case input of
        GateRequestMerge repository_lifecycle subject viewer views checks reviews \<Rightarrow>
          DecidedRequestMerge (evaluate_request_merge repository_lifecycle subject viewer views checks reviews)
      | GateMainPush repository_lifecycle access views \<Rightarrow>
          (case main_push_mode access repository_lifecycle views of
             FirstPush \<Rightarrow> DecidedMainPush
           | PushReady \<Rightarrow> DecidedMainPush
           | _ \<Rightarrow> MainPushDenied))"

datatype request_main_push_completion = CompletionComplete | DeferUntilParentLands

definition request_main_push_completion_for ::
  "request \<Rightarrow> bool \<Rightarrow> (domain_error, request_main_push_completion) result" where
  "request_main_push_completion_for r contains_request_head =
     and_then (validate_containing_main_head contains_request_head) (\<lambda>_.
     if \<not> base_is_main (rq_base r) then Ok DeferUntilParentLands
     else and_then (validate_request_merge_execution r (ContainingMain contains_request_head))
       (\<lambda>_. Ok CompletionComplete))"

section \<open>Invitees\<close>

record request_invitee =
  ri_request_id :: string
  ri_user_id :: string
  ri_invited_by_user_id :: "string option"
  ri_created_at_unix :: u64

definition REQUEST_ACTIVE_INVITEE_LIMIT :: nat where "REQUEST_ACTIVE_INVITEE_LIMIT = 30"

record add_request_invitee_input =
  aii_actor_user_id :: string
  aii_target_user_id :: string
  aii_actor_can_manage_invitees :: bool
  aii_target_is_maintainer :: bool
  aii_now_unix :: u64

record remove_request_invitee_input =
  rii_actor_user_id :: string
  rii_target_user_id :: string
  rii_actor_can_manage_invitees :: bool

record leave_request_input =
  lri_actor_user_id :: string
  lri_actor_can_leave_request :: bool

definition validate_invitee_request :: "request \<Rightarrow> views \<Rightarrow> (domain_error, unit) result" where
  "validate_invitee_request r views =
     (case Views_anyone views of
        Some anyone \<Rightarrow>
          if anyone = rq_view r then (if is_terminal r then Err (conflict ''request is closed'') else Ok ())
          else Err (conflict (''only requests in the '' @ Views_display_name views anyone
                 @ '' view support invitees''))
      | None \<Rightarrow> Err (conflict ''only requests in a view anyone can read support invitees''))"

definition add_request_invitee ::
  "request \<Rightarrow> bool \<Rightarrow> nat \<Rightarrow> add_request_invitee_input \<Rightarrow> views \<Rightarrow> (domain_error, request_invitee) result" where
  "add_request_invitee r target_is_invitee active_invitee_count input views =
     and_then (validate_invitee_request r views) (\<lambda>_.
     and_then (validate_required ''actor user id'' (aii_actor_user_id input)) (\<lambda>_.
     and_then (validate_required ''invitee user id'' (aii_target_user_id input)) (\<lambda>_.
     if \<not> aii_actor_can_manage_invitees input then Err (forbidden ''request invite management access required'')
     else if is_author r (aii_target_user_id input) then Err (conflict ''request author cannot be an invitee'')
     else if aii_target_is_maintainer input then
       Err (conflict ''repo maintainers do not need request invitations'')
     else if target_is_invitee then Err (conflict ''user is already invited to this request'')
     else if active_invitee_count \<ge> REQUEST_ACTIVE_INVITEE_LIMIT then
       Err (conflict (''request cannot have more than '' @ show_nat REQUEST_ACTIVE_INVITEE_LIMIT
              @ '' active invitees''))
     else Ok \<lparr>ri_request_id = rq_id r, ri_user_id = aii_target_user_id input,
              ri_invited_by_user_id = Some (aii_actor_user_id input), ri_created_at_unix = aii_now_unix input\<rparr>)))"

definition filter_invitee ::
  "request \<Rightarrow> request_invitee option \<Rightarrow> string \<Rightarrow> (domain_error, request_invitee) result" where
  "filter_invitee r invitee user_id =
     (case invitee of
        Some i \<Rightarrow> if ri_request_id i = rq_id r \<and> ri_user_id i = user_id then Ok i
                  else Err (not_found ''request invitee not found'')
      | None \<Rightarrow> Err (not_found ''request invitee not found''))"

definition remove_request_invitee ::
  "request \<Rightarrow> request_invitee option \<Rightarrow> remove_request_invitee_input \<Rightarrow> views
   \<Rightarrow> (domain_error, request_invitee) result" where
  "remove_request_invitee r invitee input views =
     and_then (validate_invitee_request r views) (\<lambda>_.
     and_then (validate_required ''actor user id'' (rii_actor_user_id input)) (\<lambda>_.
     and_then (validate_required ''invitee user id'' (rii_target_user_id input)) (\<lambda>_.
     if \<not> rii_actor_can_manage_invitees input then Err (forbidden ''request invite management access required'')
     else filter_invitee r invitee (rii_target_user_id input))))"

definition leave_request ::
  "request \<Rightarrow> request_invitee option \<Rightarrow> leave_request_input \<Rightarrow> views \<Rightarrow> (domain_error, request_invitee) result" where
  "leave_request r invitee input views =
     and_then (validate_invitee_request r views) (\<lambda>_.
     and_then (validate_required ''actor user id'' (lri_actor_user_id input)) (\<lambda>_.
     if \<not> lri_actor_can_leave_request input then Err (forbidden ''request leave access required'')
     else filter_invitee r invitee (lri_actor_user_id input)))"

end
