(* ===== verification/Lifecycles.thy ===== *)
theory Lifecycles
  imports Main
begin

text \<open>
  The contract the stateful entities of the domain share: requests, run jobs, attempts and automatic merges are
  records that a fixed set of operations changes, each with a status that only moves along the edges of a small
  graph and an invariant every operation keeps. A component proves both for a single operation; what they give
  for every sequence of operations is proved here once.
\<close>

locale lifecycle =
  fixes step :: "'s \<Rightarrow> 's \<Rightarrow> bool"
    and ok :: "'s \<Rightarrow> bool"
    and status :: "'s \<Rightarrow> 'st"
    and edge :: "'st \<Rightarrow> 'st \<Rightarrow> bool"
  assumes ok_step: "ok s \<Longrightarrow> step s s' \<Longrightarrow> ok s'"
    and step_edge: "ok s \<Longrightarrow> step s s' \<Longrightarrow> status s' = status s \<or> edge (status s) (status s')"
begin

lemma ok_reachable: "step\<^sup>*\<^sup>* s s' \<Longrightarrow> ok s \<Longrightarrow> ok s'"
  by (induction rule: rtranclp_induct) (auto intro: ok_step)

lemma status_path: "step\<^sup>*\<^sup>* s s' \<Longrightarrow> ok s \<Longrightarrow> edge\<^sup>*\<^sup>* (status s) (status s')"
proof (induction rule: rtranclp_induct)
  case (step y z)
  then have "ok y" by (blast intro: ok_reachable)
  with step show ?case by (metis step_edge rtranclp.rtrancl_into_rtrancl)
qed simp

lemma final_absorbing:
  assumes "step\<^sup>*\<^sup>* s s'" and "ok s" and final: "\<And>t. \<not> edge (status s) t"
  shows "status s' = status s"
  using status_path [OF assms(1,2)] final by (auto elim: converse_rtranclpE)

lemma never_enters:
  assumes "step\<^sup>*\<^sup>* s s'" and "ok s" and "closed (status s)"
    and "\<And>t t'. closed t \<Longrightarrow> edge t t' \<Longrightarrow> closed t'"
  shows "closed (status s')"
  using status_path [OF assms(1,2)] assms(3,4) by (induction rule: rtranclp_induct) auto

end

text \<open>
  A lifecycle in which every operation that changes the status uses up some of a budget: then a sequence of
  operations changes the status at most as often as the budget allows.
\<close>

fun changes :: "('s \<Rightarrow> 'st) \<Rightarrow> 's list \<Rightarrow> nat" where
  "changes status (s # s' # ss) = (if status s = status s' then 0 else 1) + changes status (s' # ss)"
| "changes status _ = 0"

fun trace :: "('s \<Rightarrow> 's \<Rightarrow> bool) \<Rightarrow> 's list \<Rightarrow> bool" where
  "trace step (s # s' # ss) \<longleftrightarrow> step s s' \<and> trace step (s' # ss)"
| "trace step _ \<longleftrightarrow> True"

lemma trace_reaches: "trace step ss \<Longrightarrow> i \<le> j \<Longrightarrow> j < length ss \<Longrightarrow> step\<^sup>*\<^sup>* (ss ! i) (ss ! j)"
proof (induction step ss arbitrary: i j rule: trace.induct)
  case (1 step s s' ss)
  show ?case
  proof (cases i)
    case 0
    show ?thesis
    proof (cases j)
      case (Suc j')
      then have "step\<^sup>*\<^sup>* s' ((s' # ss) ! j')" using 1(1) [of 0 j'] 1(2,4) by simp
      then show ?thesis using 1(2) 0 Suc by (auto intro: converse_rtranclp_into_rtranclp)
    qed (simp add: 0)
  next
    case (Suc i')
    then obtain j' where "j = Suc j'" using 1(3) by (cases j) auto
    then show ?thesis using 1(1) [of i' j'] 1(2-4) Suc by simp
  qed
qed auto

locale budgeted_lifecycle = lifecycle +
  fixes budget :: "'s \<Rightarrow> nat"
  assumes budget_step:
    "ok s \<Longrightarrow> step s s' \<Longrightarrow> budget s' \<le> budget s \<and> (status s' \<noteq> status s \<longrightarrow> budget s' < budget s)"
begin

lemma changes_bounded: "trace step (s # ss) \<Longrightarrow> ok s \<Longrightarrow> changes status (s # ss) \<le> budget s"
proof (induction ss arbitrary: s)
  case (Cons s' ss)
  then have "ok s'" "changes status (s' # ss) \<le> budget s'" by (auto intro: ok_step)
  moreover have "step s s'" using Cons.prems by simp
  ultimately show ?case using budget_step [OF Cons.prems(2)] by fastforce
qed simp

end

end
