(* ===== verification/Request_Machine.thy ===== *)
theory Request_Machine
  imports Request_Access Lifecycles
begin

text \<open>
  The operations on a request as one step relation, and what every step keeps: the identity of the request, the
  order of its timeline, the consistency of its recorded facts and the states it may move between.

  The clock of the operations is an argument. \<open>edit_request_identity\<close> is the one operation that does not
  validate the facts it leaves behind, so its step asks that the clock has not moved behind the last update.
\<close>

named_theorems request_ops \<open>the definitions of the operations on a request\<close>

inductive request_step :: "(string \<Rightarrow> string) \<Rightarrow> request \<Rightarrow> request_event list \<Rightarrow> request \<Rightarrow> bool"
  for sha256_hex where
  upload: "record_working_request_upload r input = Ok r' \<Longrightarrow> request_step sha256_hex r [] r'"
| revise: "record_request_revision r event_id_exists input = Ok (r', event, rv)
    \<Longrightarrow> request_step sha256_hex r [event] r'"
| edit: "edit_request_identity sha256_hex r event_id_exists input = Ok (r', event)
    \<Longrightarrow> rq_updated_at_unix r \<le> eii_now_unix input \<Longrightarrow> request_step sha256_hex r [event] r'"
| close: "close_request r events revisions input = Ok (ClosedRequest r' event) \<Longrightarrow> request_step sha256_hex r [event] r'"
| submit: "submit_request r input = Ok (r', events) \<Longrightarrow> request_step sha256_hex r events r'"
| merge: "merge_request r input = Ok (r', events) \<Longrightarrow> request_step sha256_hex r events r'"
| integration_conflict: "mark_request_integration_conflict r expected_head expected_version now = Ok (r', effects)
    \<Longrightarrow> request_step sha256_hex r [] r'"
| refresh: "refresh_request_stack r parent facts now = Ok (r', effects) \<Longrightarrow> request_step sha256_hex r [] r'"
| retarget: "retarget_request_after_parent_merge r parent input = Ok (r', event, retarget_effects)
    \<Longrightarrow> request_step sha256_hex r [event] r'"

text \<open>A request with the events recorded for it since it was started.\<close>

inductive request_history :: "(string \<Rightarrow> string) \<Rightarrow> request \<Rightarrow> request_event list \<Rightarrow> bool" for sha256_hex where
  started: "open_request sha256_hex facts input views = Ok (r, event) \<Longrightarrow> request_history sha256_hex r [event]"
| stepped: "request_history sha256_hex r events \<Longrightarrow> request_step sha256_hex r new_events r'
    \<Longrightarrow> request_history sha256_hex r' (events @ new_events)"

section \<open>What one operation keeps\<close>

definition same_request :: "request \<Rightarrow> request \<Rightarrow> bool" where
  "same_request r r' \<longleftrightarrow>
     rq_id r' = rq_id r \<and> rq_repo_id r' = rq_repo_id r \<and> rq_name r' = rq_name r
     \<and> rq_author_user_id r' = rq_author_user_id r \<and> rq_author_role r' = rq_author_role r
     \<and> rq_view r' = rq_view r \<and> rq_created_at_unix r' = rq_created_at_unix r"

text \<open>The events of a step continue the numbering of the request's activity.\<close>

definition auto_merge_kind :: "request_event_kind \<Rightarrow> bool" where
  "auto_merge_kind kind \<longleftrightarrow>
     kind \<in> {KAutoMergeEnabled, KAutoMergeCancelled, KAutoMergeStopped, KAutoMergeFulfilled}"

definition continues_activity :: "request \<Rightarrow> request_event list \<Rightarrow> request \<Rightarrow> bool" where
  "continues_activity r events r' \<longleftrightarrow>
     rq_activity_version r \<le> rq_activity_version r'
     \<and> (\<forall>event \<in> set events. rq_activity_version r < ev_position event
          \<and> ev_position event = rq_activity_version r' \<and> ev_request_id event = rq_id r
          \<and> ev_kind event \<noteq> KStarted \<and> \<not> auto_merge_kind (ev_kind event))
     \<and> length events \<le> 1"

fun request_edge :: "request_state \<Rightarrow> request_state \<Rightarrow> bool" where
  "request_edge Draft s \<longleftrightarrow> s = Open"
| "request_edge Open s \<longleftrightarrow> s = Closed \<or> s = Merged"
| "request_edge Closed _ \<longleftrightarrow> False"
| "request_edge Merged _ \<longleftrightarrow> False"

definition keeps_landed_facts :: "request \<Rightarrow> request \<Rightarrow> bool" where
  "keeps_landed_facts r r' \<longleftrightarrow>
     rq_head_oid r' = rq_head_oid r \<and> rq_base r' = rq_base r \<and> rq_title r' = rq_title r
     \<and> rq_description_markdown r' = rq_description_markdown r
     \<and> rq_submitted_at_unix r' = rq_submitted_at_unix r \<and> rq_closed_at_unix r' = rq_closed_at_unix r
     \<and> rq_closed_by_user_id r' = rq_closed_by_user_id r \<and> rq_merged_at_unix r' = rq_merged_at_unix r
     \<and> rq_merged_by_user_id r' = rq_merged_by_user_id r \<and> rq_merged_head_oid r' = rq_merged_head_oid r
     \<and> rq_merged_main_oid r' = rq_merged_main_oid r"

lemmas step_facts_defs = same_request_def continues_activity_def keeps_landed_facts_def auto_merge_kind_def

lemma advance_request_activity_Ok:
  "advance_request_activity r = Ok (r', position) \<longleftrightarrow>
     unat position = unat (rq_activity_version r) + 1 \<and> r' = r\<lparr>rq_activity_version := position\<rparr>"
  by (cases "rq_activity_version r" rule: checked_succ_cases)
    (auto simp: advance_request_activity_def next_request_activity_position_def)

lemma append_event_Ok:
  "append_event r event_id actor kind payload now = Ok (r', event) \<longleftrightarrow>
     unat (ev_position event) = unat (rq_activity_version r) + 1
     \<and> r' = r\<lparr>rq_activity_version := ev_position event\<rparr>
     \<and> ev_id event = event_id \<and> ev_request_id event = rq_id r \<and> ev_actor_user_id event = Some actor
     \<and> ev_kind event = kind \<and> ev_payload event = payload \<and> ev_created_at_unix event = now"
  by (cases "rq_activity_version r" rule: checked_succ_cases; cases event) (auto simp: append_event_def)

lemma advanced_activity:
  assumes "unat (position :: u64) = Suc (unat v)" shows "v < position" "v \<le> position"
  using assms by (simp_all add: word_less_nat_alt word_le_nat_alt)

lemmas activity_simps = advance_request_activity_Ok append_event_Ok

text \<open>One operation at a time: what it leaves of the request.\<close>

definition step_ok :: "request \<Rightarrow> request_event list \<Rightarrow> request \<Rightarrow> bool" where
  "step_ok r events r' \<longleftrightarrow>
     same_request r r' \<and> continues_activity r events r'
     \<and> (request_state_of r' = request_state_of r \<or> request_edge (request_state_of r) (request_state_of r'))
     \<and> (is_terminal r \<longrightarrow> events = [] \<and> keeps_landed_facts r r')
     \<and> (\<forall>event \<in> set events. ev_kind event \<in> {KClosed, KMerged} \<longrightarrow> is_terminal r')"

lemmas state_defs = request_state_of_def from_timestamps_def is_terminal_def is_submitted_def

lemma upload_ok:
  assumes "record_working_request_upload r input = Ok r'"
  shows "step_ok r [] r' \<and> validate_request_facts r' = Ok ()"
proof -
  have "r' = r\<lparr>rq_pushed_at_unix := Some (wui_now_unix input), rq_head_oid := wui_new_head_oid input,
      rq_updated_at_unix := wui_now_unix input\<rparr>" "\<not> is_terminal r" "validate_request_facts r' = Ok ()"
    using assms by (auto simp: record_working_request_upload_def and_then_Ok_iff Let_def split: if_splits)
  then show ?thesis by (simp add: step_ok_def step_facts_defs state_defs)
qed

lemma rebase_request_Ok:
  assumes "rebase_request r base = Ok rebased"
  obtains v b where "rebased = r\<lparr>rq_base_version := v, rq_base := b\<rparr>"
proof (cases "base = rq_base r")
  case True
  then have "rebased = r\<lparr>rq_base_version := rq_base_version r, rq_base := rq_base r\<rparr>"
    using assms by (simp add: rebase_request_def)
  with that show ?thesis by blast
next
  case False
  with assms that show ?thesis by (auto simp: rebase_request_def split: option.splits)
qed

lemma revise_ok:
  assumes "record_request_revision r event_id_exists input = Ok (r', event, rv)"
  shows "step_ok r [event] r' \<and> validate_request_facts r' = Ok ()"
proof -
  define main where "main = request_main_ancestor_after_revision r (rri_git_facts input)"
  obtain base stack_depth where base: "revision_base r input main = Ok (base, stack_depth)"
    using assms by (auto simp: record_request_revision_def Let_def main_def and_then_Ok_iff split: if_split_asm)
  obtain rebased where rebased: "rebase_request r base = Ok rebased"
    using assms base by (auto simp: record_request_revision_def Let_def main_def and_then_Ok_iff split: if_split_asm)
  define r1 where "r1 = apply_revision r input main base stack_depth rebased"
  have upd: "unat (ev_position event) = unat (rq_activity_version r1) + 1"
      "ev_request_id event = rq_id r'" "ev_kind event = KRevisionPushed"
      "r' = r1\<lparr>rq_activity_version := ev_position event\<rparr>"
    and act: "\<not> is_terminal r" and valid: "validate_request_facts r' = Ok ()"
    using assms base rebased
    by (auto simp: record_request_revision_def Let_def main_def r1_def and_then_Ok_iff activity_simps split: if_split_asm)
  obtain v b where "rebased = r\<lparr>rq_base_version := v, rq_base := b\<rparr>" using rebase_request_Ok [OF rebased] .
  with upd act valid show ?thesis
    by (simp add: step_ok_def step_facts_defs state_defs advanced_activity r1_def apply_revision_def Let_def)
qed

lemma edit_ok:
  assumes "edit_request_identity sha256_hex r event_id_exists input = Ok (r', event)"
  shows "step_ok r [event] r' \<and> (\<exists>title description v. r' = r\<lparr>rq_title := title, rq_description_markdown := description,
      rq_updated_at_unix := eii_now_unix input, rq_activity_version := v\<rparr>) \<and> \<not> is_terminal r"
proof -
  define title where "title = (case eii_title input of Some t \<Rightarrow> t | None \<Rightarrow> rq_title r)"
  define description where
    "description = (case eii_description_markdown input of Some d \<Rightarrow> d | None \<Rightarrow> rq_description_markdown r)"
  have "unat (ev_position event) = unat (rq_activity_version r) + 1"
    "ev_request_id event = rq_id r'" "ev_kind event = KIdentityEdited"
    "r' = r\<lparr>rq_title := title, rq_description_markdown := description,
      rq_updated_at_unix := eii_now_unix input, rq_activity_version := ev_position event\<rparr>" "\<not> is_terminal r"
    using assms unfolding edit_request_identity_def Let_def title_def [symmetric] description_def [symmetric]
    by (auto simp: and_then_Ok_iff activity_simps split: if_split_asm)
  then show ?thesis
    by (simp add: step_ok_def step_facts_defs state_defs advanced_activity) blast
qed

lemma close_ok:
  assumes "close_request r events revisions input = Ok (ClosedRequest r' event)"
  shows "step_ok r [event] r' \<and> validate_request_facts r' = Ok ()"
proof -
  have facts: "unat (ev_position event) = unat (rq_activity_version r) + 1"
    "ev_request_id event = rq_id r'" "ev_kind event = KClosed"
    "r' = r\<lparr>rq_closed_at_unix := Some (cri_now_unix input), rq_closed_by_user_id := Some (cri_actor_user_id input),
      rq_updated_at_unix := cri_now_unix input, rq_activity_version := ev_position event\<rparr>"
    "is_submitted r" "validate_request_facts r' = Ok ()"
    "ensure_request_close_allowed r (cri_actor_user_id input) (cri_actor_is_maintainer input) = Ok ()"
    using assms unfolding close_request_def Let_def
    by (auto simp add: and_then_Ok_iff activity_simps prod.case_eq_if split: if_split_asm)
  have "request_state_of r = Open"
    using facts(5,7) by (auto simp: ensure_request_close_allowed_def state_defs Let_def split: if_splits)
  with facts show ?thesis
    by (auto simp: step_ok_def step_facts_defs state_defs advanced_activity split: if_splits)
qed

lemma submit_ok:
  assumes "submit_request r input = Ok (r', events)"
  shows "step_ok r events r' \<and> validate_request_facts r' = Ok ()"
proof -
  obtain event where facts: "events = [event]" "unat (ev_position event) = unat (rq_activity_version r) + 1"
    "ev_request_id event = rq_id r" "ev_kind event = KSubmitted"
    "r' = r\<lparr>rq_submitted_at_unix := Some (sbi_now_unix input), rq_updated_at_unix := sbi_now_unix input,
      rq_activity_version := ev_position event\<rparr>"
    "request_state_of r = Draft" "validate_request_facts r' = Ok ()"
    using assms unfolding submit_request_def Let_def
    by (auto simp add: and_then_Ok_iff activity_simps split: if_split_asm)
  then show ?thesis
    by (auto simp: step_ok_def step_facts_defs state_defs advanced_activity split: if_splits)
qed

lemma merge_ok:
  assumes "merge_request r input = Ok (r', events)"
  shows "step_ok r events r' \<and> validate_request_facts r' = Ok ()"
proof -
  obtain event where facts: "events = [event]" "unat (ev_position event) = unat (rq_activity_version r) + 1"
    "ev_request_id event = rq_id r" "ev_kind event = KMerged"
    "r' = r\<lparr>rq_stack_status := StackMain, rq_merged_at_unix := Some (mri_now_unix input),
       rq_merged_by_user_id := Some (mri_actor_user_id input), rq_merged_head_oid := Some (mri_merged_head_oid input),
       rq_merged_main_oid := Some (mri_merged_main_oid input), rq_updated_at_unix := mri_now_unix input,
       rq_activity_version := ev_position event\<rparr>"
    "request_state_of r = Open" "validate_request_facts r' = Ok ()"
    using assms unfolding merge_request_def Let_def
    by (auto simp add: and_then_Ok_iff activity_simps split: if_split_asm)
  then show ?thesis
    by (auto simp: step_ok_def step_facts_defs state_defs advanced_activity split: if_splits)
qed

lemma integration_conflict_ok:
  assumes "mark_request_integration_conflict r expected_head expected_version now = Ok (r', effects)"
  shows "step_ok r [] r' \<and> validate_request_facts r' = Ok ()"
proof -
  define r1 where
    "r1 = r\<lparr>rq_stack_status := IntegrationConflict, rq_updated_at_unix := max (rq_updated_at_unix r) now\<rparr>"
  have valid: "validate_request_facts r' = Ok ()"
    using assms unfolding mark_request_integration_conflict_def Let_def r1_def [symmetric]
    by (auto simp: and_then_Ok_iff split: if_split_asm)
  obtain v where "rq_activity_version r1 \<le> v" "r' = r1\<lparr>rq_activity_version := v\<rparr>"
  proof (cases "rq_stack_status r = IntegrationConflict")
    case True
    then have "r' = r1\<lparr>rq_activity_version := rq_activity_version r1\<rparr>"
      using assms unfolding mark_request_integration_conflict_def Let_def r1_def [symmetric]
      by (auto simp: and_then_Ok_iff split: if_split_asm)
    then show ?thesis using that by blast
  next
    case False
    then obtain v where "unat v = Suc (unat (rq_activity_version r1))" "r' = r1\<lparr>rq_activity_version := v\<rparr>"
      using assms unfolding mark_request_integration_conflict_def Let_def r1_def [symmetric]
      by (auto simp: and_then_Ok_iff advance_request_activity_Ok split: if_split_asm)
    then show ?thesis using that advanced_activity by blast
  qed
  then show ?thesis using valid by (simp add: r1_def step_ok_def step_facts_defs state_defs)
qed

lemma apply_stack_status_ok:
  assumes "apply_stack_status r status depth reactivate_attention now = Ok r'"
  shows "step_ok r [] r' \<and> validate_request_facts r' = Ok ()"
proof -
  define r1 where "r1 = r\<lparr>rq_stack_status := status, rq_stack_depth := depth,
    rq_updated_at_unix := max (rq_updated_at_unix r) now\<rparr>"
  have valid: "validate_request_facts r' = Ok ()"
    using assms unfolding apply_stack_status_def Let_def by (auto simp: and_then_Ok_iff)
  obtain v where "rq_activity_version r1 \<le> v" "r' = r1\<lparr>rq_activity_version := v\<rparr>"
  proof (cases reactivate_attention)
    case False
    then have "r' = r1\<lparr>rq_activity_version := rq_activity_version r1\<rparr>"
      using assms unfolding apply_stack_status_def Let_def r1_def [symmetric] by (auto simp: and_then_Ok_iff)
    then show ?thesis using that by blast
  next
    case True
    then obtain v where "unat v = Suc (unat (rq_activity_version r1))" "r' = r1\<lparr>rq_activity_version := v\<rparr>"
      using assms unfolding apply_stack_status_def Let_def r1_def [symmetric]
      by (auto simp: and_then_Ok_iff advance_request_activity_Ok)
    then show ?thesis using that advanced_activity by blast
  qed
  then show ?thesis using valid by (simp add: r1_def step_ok_def step_facts_defs state_defs)
qed

lemma step_ok_refl: "step_ok r [] r"
  by (simp add: step_ok_def step_facts_defs)

lemma refresh_ok:
  assumes "refresh_request_stack r parent facts now = Ok (r', effects)"
  shows "step_ok r [] r' \<and> (r' = r \<or> validate_request_facts r' = Ok ())"
proof -
  have "r' = r \<or> (\<exists>status depth reactivate. apply_stack_status r status depth reactivate now = Ok r')"
    using assms by (auto simp: refresh_request_stack_def Let_def and_then_Ok_iff split: if_split_asm option.splits)
  then show ?thesis using apply_stack_status_ok step_ok_refl by blast
qed

lemma retarget_ok:
  assumes "retarget_request_after_parent_merge r parent input = Ok (r', event, effects)"
  shows "step_ok r [event] r' \<and> validate_request_facts r' = Ok ()"
proof -
  obtain request_id revision_id head_oid where base: "rq_base r = BaseRequest request_id revision_id head_oid"
    using assms by (cases "rq_base r") (auto simp: retarget_request_after_parent_merge_def)
  obtain needs version where needs: "retarget_needs_main_update r input = Ok needs"
    "checked_add (rq_base_version r) 1 = Some version"
    using assms base by (auto simp: retarget_request_after_parent_merge_def and_then_Ok_iff
        split: if_split_asm option.split_asm)
  define r1 where "r1 = retargeted_request r input head_oid version needs"
  have "\<not> is_terminal r" "unat (ev_position event) = unat (rq_activity_version r1) + 1"
    "ev_request_id event = rq_id r'" "ev_kind event = KBaseRetargeted" "validate_request_facts r' = Ok ()"
    "r' = r1\<lparr>rq_activity_version := ev_position event\<rparr>"
    using assms base needs unfolding retarget_request_after_parent_merge_def Let_def
    by (auto simp: and_then_Ok_iff advance_request_activity_Ok r1_def split: if_split_asm option.split_asm)
  then show ?thesis
    by (simp add: r1_def retargeted_request_def step_ok_def step_facts_defs state_defs advanced_activity)
qed

section \<open>Every step\<close>

lemma request_step_ok: "request_step sha256_hex r events r' \<Longrightarrow> step_ok r events r'"
  by (induction rule: request_step.induct)
    (auto dest: upload_ok revise_ok edit_ok close_ok submit_ok merge_ok integration_conflict_ok refresh_ok retarget_ok)

text \<open>The recorded facts, read from the validator.\<close>

lemma within_lifetime_Ok:
  "within_lifetime r (label, time) = Ok () \<longleftrightarrow>
     (case time of None \<Rightarrow> True | Some t \<Rightarrow> rq_created_at_unix r \<le> t \<and> t \<le> rq_updated_at_unix r)"
  by (auto simp: within_lifetime_def not_less split: option.splits)

lemma after_submission_Ok:
  "after_submission submitted (label, time) = Ok () \<longleftrightarrow> (case time of None \<Rightarrow> True | Some t \<Rightarrow> submitted \<le> t)"
  by (auto simp: after_submission_def not_less split: option.splits)

lemma merge_facts_count:
  "(length (filter id [a, b, c]) \<noteq> 0 \<and> length (filter id [a, b, c]) \<noteq> 3) \<longleftrightarrow> \<not> ((b \<longleftrightarrow> a) \<and> (c \<longleftrightarrow> a))"
  by (cases a; cases b; cases c) simp_all

lemma validate_request_facts_Ok:
  "validate_request_facts r = Ok () \<longleftrightarrow>
     validate_base_facts r = Ok () \<and> rq_base_version r \<noteq> 0 \<and> review_base_oid (rq_base r) \<noteq> []
     \<and> rq_created_at_unix r \<le> rq_updated_at_unix r
     \<and> (\<forall>t \<in> {rq_submitted_at_unix r, rq_closed_at_unix r, rq_merged_at_unix r}.
          case t of None \<Rightarrow> True | Some t \<Rightarrow> rq_created_at_unix r \<le> t \<and> t \<le> rq_updated_at_unix r)
     \<and> (rq_closed_by_user_id r \<noteq> None \<longrightarrow> rq_closed_at_unix r \<noteq> None)
     \<and> (rq_merged_by_user_id r \<noteq> None \<longrightarrow> rq_merged_at_unix r \<noteq> None)
     \<and> (rq_merged_head_oid r \<noteq> None \<longleftrightarrow> rq_merged_at_unix r \<noteq> None)
     \<and> (rq_merged_main_oid r \<noteq> None \<longleftrightarrow> rq_merged_at_unix r \<noteq> None)
     \<and> (rq_closed_at_unix r = None \<or> rq_merged_at_unix r = None)
     \<and> (is_terminal r \<longrightarrow> (\<exists>submitted. rq_submitted_at_unix r = Some submitted
          \<and> (\<forall>t \<in> {rq_closed_at_unix r, rq_merged_at_unix r}. case t of None \<Rightarrow> True | Some t \<Rightarrow> submitted \<le> t)))"
proof -
  have merged: "is_terminal r \<longleftrightarrow> rq_closed_at_unix r \<noteq> None \<or> rq_merged_at_unix r \<noteq> None"
    by (simp add: is_terminal_def)
  show ?thesis
    unfolding validate_request_facts_def Let_def merge_facts_count merged is_submitted_def
    by (cases "rq_submitted_at_unix r")
      (auto simp add: and_then_Ok_iff check_all_Ok_iff within_lifetime_Ok after_submission_Ok not_less)
qed

text \<open>Each operation leaves consistent facts, the identity edit under a clock that does not move back.\<close>

lemma edit_keeps_facts:
  assumes "edit_request_identity sha256_hex r event_id_exists input = Ok (r', event)"
    and "rq_updated_at_unix r \<le> eii_now_unix input" and valid: "validate_request_facts r = Ok ()"
  shows "validate_request_facts r' = Ok ()"
proof -
  obtain title description v where r': "r' = r\<lparr>rq_title := title, rq_description_markdown := description,
      rq_updated_at_unix := eii_now_unix input, rq_activity_version := v\<rparr>"
    using edit_ok [OF assms(1)] by blast
  have "validate_base_facts r' = validate_base_facts r" by (simp add: r' validate_base_facts_def split: request_base.split)
  moreover have "is_terminal r' = is_terminal r" by (simp add: r' is_terminal_def)
  ultimately show ?thesis
    using valid assms(2) by (auto simp: validate_request_facts_Ok r' split: option.splits)
qed

lemma request_step_valid:
  "request_step sha256_hex r events r' \<Longrightarrow> validate_request_facts r = Ok () \<Longrightarrow> validate_request_facts r' = Ok ()"
  by (induction rule: request_step.induct)
    (auto dest: upload_ok revise_ok edit_keeps_facts close_ok submit_ok merge_ok integration_conflict_ok
      refresh_ok retarget_ok)

interpretation rq: lifecycle "\<lambda>r r'. \<exists>events. request_step sha256_hex r events r'"
  "\<lambda>r. validate_request_facts r = Ok ()" request_state_of request_edge for sha256_hex
proof unfold_locales
  show "validate_request_facts s' = Ok ()" if "validate_request_facts s = Ok ()" "\<exists>events. request_step sha256_hex s events s'"
    for s s' using that request_step_valid by blast
  show "request_state_of s' = request_state_of s \<or> request_edge (request_state_of s) (request_state_of s')"
    if "\<exists>events. request_step sha256_hex s events s'" for s s'
    using that request_step_ok step_ok_def by blast
qed

lemma open_request_Ok:
  assumes "open_request sha256_hex facts input views = Ok (r, event)"
  shows "validate_request_facts r = Ok ()" "r = started_request facts input" "ev_request_id event = rq_id r"
    "ev_kind event = KStarted" "ev_position event = 1" "rq_activity_version r = 1" "request_state_of r = Draft"
proof -
  have *: "r = started_request facts input" "validate_request_facts r = Ok ()" "ev_request_id event = rq_id r"
    "ev_kind event = KStarted" "ev_position event = 1"
    using assms by (auto simp: open_request_def Let_def and_then_Ok_iff split: if_split_asm)
  show "validate_request_facts r = Ok ()" "r = started_request facts input" "ev_request_id event = rq_id r"
    "ev_kind event = KStarted" "ev_position event = 1" by (rule * )+
  show "rq_activity_version r = 1" "request_state_of r = Draft"
    by (simp_all add: * (1) started_request_def state_defs)
qed

lemma request_history_valid: "request_history sha256_hex r events \<Longrightarrow> validate_request_facts r = Ok ()"
  by (induction rule: request_history.induct) (auto dest: open_request_Ok request_step_valid)

text \<open>The timeline of a request.\<close>

definition timeline_ok :: "request \<Rightarrow> request_event list \<Rightarrow> bool" where
  "timeline_ok r events \<longleftrightarrow>
     events \<noteq> [] \<and> ev_kind (hd events) = KStarted \<and> ev_position (hd events) = 1
     \<and> sorted_wrt (<) (map ev_position events)
     \<and> (\<forall>event \<in> set events. ev_request_id event = rq_id r \<and> ev_position event \<le> rq_activity_version r)
     \<and> (\<forall>event \<in> set (tl events). ev_kind event \<noteq> KStarted)
     \<and> (\<forall>event \<in> set (butlast events). ev_kind event \<notin> {KClosed, KMerged})
     \<and> (\<not> is_terminal r \<longrightarrow> (\<forall>event \<in> set events. ev_kind event \<notin> {KClosed, KMerged}))"

lemma timeline_step:
  assumes t: "timeline_ok r events" and "step_ok r new_events r'"
  shows "timeline_ok r' (events @ new_events)"
proof -
  have s: "rq_id r' = rq_id r" "rq_activity_version r \<le> rq_activity_version r'" "length new_events \<le> 1"
    "is_terminal r \<Longrightarrow> new_events = []" "is_terminal r \<Longrightarrow> is_terminal r'"
    using assms(2) by (auto simp: step_ok_def step_facts_defs is_terminal_def)
  show ?thesis
  proof (cases new_events)
    case Nil
    then show ?thesis using t s by (auto simp: timeline_ok_def intro: order_trans)
  next
    case (Cons event rest)
    then have new: "new_events = [event]" using s(3) by simp
    have event: "rq_activity_version r < ev_position event" "ev_position event = rq_activity_version r'"
      "ev_request_id event = rq_id r" "ev_kind event \<noteq> KStarted"
      "ev_kind event \<in> {KClosed, KMerged} \<Longrightarrow> is_terminal r'"
      using assms(2) by (auto simp: step_ok_def continues_activity_def new)
    have "\<not> is_terminal r" using s(4) new by auto
    then show ?thesis using t s(1,2) event
      by (auto simp: timeline_ok_def new sorted_wrt_append butlast_append intro: order_trans le_less_trans)
  qed
qed

lemma request_history_timeline: "request_history sha256_hex r events \<Longrightarrow> timeline_ok r events"
proof (induction rule: request_history.induct)
  case (started facts input views r event)
  then show ?case using open_request_Ok [OF started]
    by (auto simp: timeline_ok_def state_defs split: if_splits)
next
  case (stepped r events new_events r')
  then show ?case using timeline_step request_step_ok by blast
qed

lemma steps_keep_landed:
  assumes "(\<lambda>r r'. \<exists>events. request_step sha256_hex r events r')\<^sup>*\<^sup>* r r'"
  shows "same_request r r' \<and> (is_terminal r \<longrightarrow> is_terminal r' \<and> keeps_landed_facts r r')"
  using assms
proof (induction rule: rtranclp_induct)
  case (step y z)
  then obtain events where "step_ok y events z" using request_step_ok by blast
  with step.IH show ?case by (auto simp: step_ok_def step_facts_defs is_terminal_def)
qed (simp add: step_facts_defs)

end
