(* ===== verification/Request_Properties.thy ===== *)
theory Request_Properties
  imports Request_Machine
begin

text \<open>
  What the request operations guarantee: the facts and the timeline of a request over its whole life, the states it
  moves through, who sees it and may act on it, when it may land and that it then does, and the shape of the stack
  a request is put on.
\<close>

section \<open>A request to work with\<close>

definition demo_hash :: "string \<Rightarrow> string" where "demo_hash s = take 1 s"

definition demo_facts :: start_request_facts where
  "demo_facts = \<lparr>srf_request_id_exists = False, srf_request_name_exists = False,
     srf_public_working_request_count = 0, srf_stack_depth = 1\<rparr>"

definition demo_start :: start_request_input where
  "demo_start = \<lparr>sri_id = ''r'', sri_repo_id = ''p'', sri_name = ''fix'', sri_author_user_id = ''u'',
     sri_title = None, sri_author_role = RoleMember, sri_author_view = ViewId_private, sri_view = ViewId_private,
     sri_base = BaseMain ''b'', sri_main_ancestor_oid = ''b'', sri_event_id = ''e'', sri_now_unix = 10\<rparr>"

definition demo_upload :: record_working_request_upload_input where
  "demo_upload = \<lparr>wui_request_id = ''r'', wui_actor_user_id = ''u'', wui_actor_can_edit = True,
     wui_expected_old_head_oid = None, wui_new_head_oid = ''h'', wui_now_unix = 11\<rparr>"

definition demo_submit :: submit_request_input where
  "demo_submit = \<lparr>sbi_request_id = ''r'', sbi_actor_user_id = ''u'', sbi_actor_is_author = True,
     sbi_actor_can_submit = True, sbi_event_id = ''s'', sbi_now_unix = 12\<rparr>"

definition demo_land :: merge_request_input where
  "demo_land = \<lparr>mri_request_id = ''r'', mri_actor_user_id = ''o'', mri_actor_is_maintainer = True,
     mri_landing = NativeMerge, mri_merged_head_oid = ''h'', mri_merged_main_oid = ''m'',
     mri_merged_event_id = ''l'', mri_now_unix = 13\<rparr>"

definition demo_draft :: request where "demo_draft = started_request demo_facts demo_start"

definition demo_pushed :: request where
  "demo_pushed = demo_draft\<lparr>rq_pushed_at_unix := Some 11, rq_head_oid := ''h'', rq_updated_at_unix := 11\<rparr>"

definition demo_open :: request where
  "demo_open = demo_pushed\<lparr>rq_submitted_at_unix := Some 12, rq_updated_at_unix := 12, rq_activity_version := 2\<rparr>"

definition demo_merged :: request where
  "demo_merged = demo_open\<lparr>rq_merged_at_unix := Some 13, rq_merged_by_user_id := Some ''o'',
     rq_merged_head_oid := Some ''h'', rq_merged_main_oid := Some ''m'', rq_updated_at_unix := 13,
     rq_activity_version := 3\<rparr>"

lemmas demo_defs = demo_hash_def demo_facts_def demo_start_def demo_upload_def demo_submit_def demo_land_def
  demo_draft_def demo_pushed_def demo_open_def demo_merged_def started_request_def

lemma validate_required_visible [simp]:
  "visible_ascii (hd s) \<Longrightarrow> visible_ascii (last s) \<Longrightarrow> s \<noteq> [] \<Longrightarrow> validate_required label s = Ok ()"
  by (simp add: validate_required_def trim_visible)

lemmas request_eval = base_is_main_def review_base_oid_def validate_base_facts_def validate_request_facts_Ok
  state_defs visible_ascii_def ensure_request_matches_def validate_expected_head_def validate_command_def
  is_author_def append_event_def checked_add_def Let_def validate_request_merge_execution_def stack_blocks_def
  request_stack_mergeability_def and_then_Ok_iff

lemma demo_view_ok: "validate_start_request_view RoleMember ViewId_private ViewId_private Views_builtin = Ok ()"
  by code_simp

lemma demo_name_ok: "validate_request_name ''fix'' = Ok ()"
  unfolding validate_request_name_def
  by (simp add: visible_ascii_def request_name_byte_def is_ascii_lowercase_def)

lemma demo_opened: "\<exists>event. open_request demo_hash demo_facts demo_start Views_builtin = Ok (demo_draft, event)"
proof -
  have "validate_start_request_input demo_start Views_builtin = Ok ()"
    using demo_view_ok demo_name_ok
    by (simp add: validate_start_request_input_def demo_start_def visible_ascii_def)
  moreover have "validate_request_facts demo_draft = Ok ()" by (simp add: request_eval demo_defs)
  moreover have "sri_author_role demo_start = RoleMember" "\<not> srf_request_id_exists demo_facts"
    "\<not> srf_request_name_exists demo_facts" "rq_title demo_draft = ''fix''" "rq_description_markdown demo_draft = []"
    by (simp_all add: demo_defs)
  ultimately show ?thesis
    by (simp add: open_request_def Let_def request_identity_audit_fact_def flip: demo_draft_def)
qed

lemma demo_uploaded: "record_working_request_upload demo_draft demo_upload = Ok demo_pushed"
  by (simp add: record_working_request_upload_def request_eval demo_defs)

lemma demo_submitted: "\<exists>events. submit_request demo_pushed demo_submit = Ok (demo_open, events)"
  by (simp add: submit_request_def request_eval demo_defs)

lemma demo_landed: "\<exists>events. merge_request demo_open demo_land = Ok (demo_merged, events)"
  by (simp add: merge_request_def request_eval demo_defs)

lemma demo_history: "\<exists>events. request_history demo_hash demo_open events"
proof -
  obtain e where "open_request demo_hash demo_facts demo_start Views_builtin = Ok (demo_draft, e)"
    using demo_opened by blast
  then have "request_history demo_hash demo_draft [e]" by (rule request_history.started)
  then have "request_history demo_hash demo_pushed ([e] @ [])"
    using demo_uploaded by (blast intro: request_history.stepped request_step.upload)
  then show ?thesis using demo_submitted by (blast intro: request_history.stepped request_step.submit)
qed

lemma demo_history_merged: "\<exists>events. request_history demo_hash demo_merged events"
  using demo_history demo_landed by (blast intro: request_history.stepped request_step.merge)

section \<open>The life of a request\<close>



text \<open>
  The events recorded for a request form its timeline: the first one starts it at position 1, positions strictly
  increase and never pass the activity version of the request, every event belongs to the request, and a closing or
  merging event is the last one.
\<close>

theorem request_timeline:
  assumes "request_history sha256_hex r events"
  shows "(ev_kind (hd events) = KStarted)
    \<and> (ev_position (hd events) = 1)
    \<and> (sorted_wrt (<) (map ev_position events))
    \<and> (\<forall>event \<in> set events. ev_request_id event = rq_id r \<and> ev_position event \<le> rq_activity_version r)
    \<and> (\<forall>event \<in> set (tl events). ev_kind event \<noteq> KStarted)
    \<and> (\<forall>event \<in> set (butlast events). ev_kind event \<noteq> KClosed \<and> ev_kind event \<noteq> KMerged)"
  using request_history_timeline [OF assms] by (simp add: timeline_ok_def)

theorem request_timeline_witness:
  "\<exists>events. request_history demo_hash demo_merged events \<and> ev_kind (hd events) = KStarted"
  using demo_history_merged request_timeline by blast

text \<open>
  A request with consistent facts only moves from draft to open and from open to closed or merged, whatever
  operations are applied. Its identity never changes, and once it is closed or merged its head, base, title,
  description and every closing or merging fact stay as they are.
\<close>

theorem request_transitions:
  assumes "(\<lambda>r r'. \<exists>events. request_step sha256_hex r events r')\<^sup>*\<^sup>* r r'" and "validate_request_facts r = Ok ()"
  shows "(request_edge\<^sup>*\<^sup>* (request_state_of r) (request_state_of r'))
    \<and> (same_request r r')
    \<and> (is_terminal r \<longrightarrow> request_state_of r' = request_state_of r \<and> keeps_landed_facts r r')"
proof (intro conjI)
  show "request_edge\<^sup>*\<^sup>* (request_state_of r) (request_state_of r')" using rq.status_path [OF assms] .
  show "same_request r r'" using steps_keep_landed [OF assms(1)] by simp
  show "is_terminal r \<longrightarrow> request_state_of r' = request_state_of r \<and> keeps_landed_facts r r'"
  proof
    assume "is_terminal r"
    then have "\<not> request_edge (request_state_of r) t" for t by (auto simp: state_defs)
    then show "request_state_of r' = request_state_of r \<and> keeps_landed_facts r r'"
      using rq.final_absorbing [OF assms] steps_keep_landed [OF assms(1)] \<open>is_terminal r\<close> by blast
  qed
qed

theorem request_transitions_witness:
  "request_edge\<^sup>*\<^sup>* (request_state_of demo_open) (request_state_of demo_merged) \<and> same_request demo_open demo_merged"
proof -
  have "\<exists>events. request_step demo_hash demo_open events demo_merged"
    using demo_landed by (blast intro: request_step.merge)
  then have "(\<lambda>r r'. \<exists>events. request_step demo_hash r events r')\<^sup>*\<^sup>* demo_open demo_merged" by blast
  moreover have "validate_request_facts demo_open = Ok ()" by (simp add: request_eval demo_defs)
  ultimately show ?thesis using request_transitions by blast
qed

section \<open>Who sees a request\<close>

text \<open>
  C12: a request is listed for a viewer exactly when the viewer may open it, and then only if it is in the view
  anyone reads and submitted, or the viewer wrote it or was invited to it there, or the viewer is a maintainer who
  reads its view. Every permission is granted only on a visible request, and nothing but discussion and reading is
  allowed once the request is closed or merged.
\<close>

theorem request_visibility:
  fixes access user_id is_invitee
  defines "viewer \<equiv> RequestViewer_new access user_id is_invitee"
  shows "(pd_listable (request_policy r viewer views) = pd_exact_visible (request_policy r viewer views))
    \<and> (pd_exact_visible (request_policy r viewer views) \<longleftrightarrow>
      (if Views_anyone views = Some (rq_view r)
       then is_submitted r \<or> (user_id \<noteq> None \<and> (user_id = rq_author_user_id r \<or> is_invitee))
       else is_maintainer access \<and> rq_view r \<in> set (Views_readable_by views (Some (ra_view access)))))
    \<and> (\<forall>permission \<in> {rp_can_open_discussion, rp_can_reply_to_discussion, rp_can_wait_after_reply,
        rp_can_transition_discussion, rp_can_edit_identity, rp_can_pull_branch, rp_can_push_branch, rp_can_submit,
        rp_can_manage_invitees, rp_can_leave_request, rp_can_close, rp_can_merge}.
      permission (pd_permissions (request_policy r viewer views)) \<longrightarrow> pd_exact_visible (request_policy r viewer views))
    \<and> (is_terminal r \<longrightarrow> is_submitted r \<longrightarrow> (\<forall>permission \<in> {rp_can_edit_identity, rp_can_pull_branch,
        rp_can_push_branch, rp_can_submit, rp_can_manage_invitees, rp_can_leave_request, rp_can_close, rp_can_merge}.
      \<not> permission (pd_permissions (request_policy r viewer views))))"
proof (intro conjI)
  have readable: "rq_view r \<in> set (Views_readable_by views (Some v)) \<longleftrightarrow>
      Views_get views (rq_view r) \<noteq> None \<and> Views_may_read views v (rq_view r)" for v
    by (auto simp: Views_readable_by_def Views_get_def Views_may_read_def find_None_iff intro: rev_image_eqI)
  show visible: "pd_exact_visible (request_policy r viewer views) \<longleftrightarrow>
      (if Views_anyone views = Some (rq_view r)
       then is_submitted r \<or> (user_id \<noteq> None \<and> (user_id = rq_author_user_id r \<or> is_invitee))
       else is_maintainer access \<and> rq_view r \<in> set (Views_readable_by views (Some (ra_view access))))"
    unfolding readable
    by (auto simp: request_policy_def Let_def viewer_def RequestViewer_new_def is_author_def
        split: option.splits)
  have listed: "pd_listable (request_policy r viewer views) \<longleftrightarrow>
      predicate_matches (request_list_predicate_for access user_id views) r (user_id \<noteq> None \<and> is_invitee)"
    by (simp add: request_policy_def Let_def viewer_def RequestViewer_new_def)
  show "pd_listable (request_policy r viewer views) = pd_exact_visible (request_policy r viewer views)"
    unfolding listed visible
    by (cases "Views_anyone views"; cases user_id)
      (auto simp: request_list_predicate_for_def Let_def is_author_def)
  show "\<forall>permission \<in> {rp_can_open_discussion, rp_can_reply_to_discussion, rp_can_wait_after_reply,
        rp_can_transition_discussion, rp_can_edit_identity, rp_can_pull_branch, rp_can_push_branch, rp_can_submit,
        rp_can_manage_invitees, rp_can_leave_request, rp_can_close, rp_can_merge}.
      permission (pd_permissions (request_policy r viewer views)) \<longrightarrow> pd_exact_visible (request_policy r viewer views)"
    by (simp add: request_policy_def Let_def)
  show "is_terminal r \<longrightarrow> is_submitted r \<longrightarrow> (\<forall>permission \<in> {rp_can_edit_identity, rp_can_pull_branch,
        rp_can_push_branch, rp_can_submit, rp_can_manage_invitees, rp_can_leave_request, rp_can_close, rp_can_merge}.
      \<not> permission (pd_permissions (request_policy r viewer views)))"
    by (auto simp: request_policy_def Let_def state_defs advertised_in_git_def
        ensure_request_close_allowed_def split: option.splits)
qed

theorem request_visibility_witness:
  "pd_listable (request_policy demo_merged (RequestViewer_new RepositoryAccess_public None False) Views_builtin)
   = pd_exact_visible (request_policy demo_merged (RequestViewer_new RepositoryAccess_public None False) Views_builtin)
   \<and> \<not> rp_can_merge (pd_permissions
        (request_policy demo_merged (RequestViewer_new RepositoryAccess_public None False) Views_builtin))"
proof -
  have "is_terminal demo_merged" "is_submitted demo_merged" by (simp_all add: demo_defs state_defs)
  then show ?thesis
    using request_visibility [of demo_merged RepositoryAccess_public None False Views_builtin] by simp
qed

section \<open>Landing\<close>

lemma checks_ready: "mg_status (checks_and_reviews checks reviews) = MReady \<longleftrightarrow> checks = ChecksClear \<and> reviews = ReviewsClear"
  by (cases checks; cases reviews) (simp_all add: checks_and_reviews_def)

lemma stack_mergeability_not_ready:
  "status \<noteq> StackMain \<Longrightarrow> mg_status (the (request_stack_mergeability status)) \<notin> {MReady, MRepositoryNotReady}"
  by (cases status) (simp_all add: request_stack_mergeability_def)

lemma readiness_ready:
  "mg_status (evaluate_request_readiness repo_state subject checks reviews) = MReady \<longleftrightarrow>
     repo_state = RepoReady \<and> ms_state subject = Open \<and> ms_has_pushed_head subject
     \<and> ms_stack_status subject = StackMain \<and> checks = ChecksClear \<and> reviews = ReviewsClear"
proof -
  have restack: "requires_restack StackMain \<longleftrightarrow> False"
    by (simp add: requires_restack_def auto_merge_stop_reason_def)
  show ?thesis
    using stack_mergeability_not_ready [of "ms_stack_status subject"]
    by (cases "ms_stack_status subject = StackMain"; cases "ms_state subject")
      (auto simp: evaluate_request_readiness_def checks_ready restack)
qed

lemma readiness_not_ready:
  "mg_status (evaluate_request_readiness repo_state subject checks reviews) = MRepositoryNotReady \<longleftrightarrow> repo_state \<noteq> RepoReady"
proof -
  have "mg_status (checks_and_reviews checks reviews) \<noteq> MRepositoryNotReady"
    by (simp add: checks_and_reviews_def)
  moreover have "requires_restack status \<Longrightarrow> status \<noteq> StackMain" for status
    by (auto simp: requires_restack_def auto_merge_stop_reason_def)
  ultimately show ?thesis using stack_mergeability_not_ready [of "ms_stack_status subject"]
    by (auto simp: evaluate_request_readiness_def split: request_state.splits)
qed

lemma merge_ready:
  "mg_status (evaluate_request_merge repo_state subject viewer views checks reviews) = MReady \<longleftrightarrow>
     repo_state = RepoReady \<and> ms_state subject = Open \<and> ms_has_pushed_head subject
     \<and> ms_stack_status subject = StackMain \<and> checks = ChecksClear \<and> reviews = ReviewsClear
     \<and> request_merger viewer (ms_author_user_id subject) (ms_view subject) views"
  using readiness_ready [of repo_state subject checks reviews]
    readiness_not_ready [of repo_state subject checks reviews]
  by (auto simp: evaluate_request_merge_def request_merger_def Let_def)

lemma merge_reason:
  "mg_reason (evaluate_request_merge repo_state subject viewer views checks reviews) = None \<longleftrightarrow>
     mg_status (evaluate_request_merge repo_state subject viewer views checks reviews) = MReady"
proof -
  have "mg_reason (checks_and_reviews checks reviews) = None \<longleftrightarrow> mg_status (checks_and_reviews checks reviews) = MReady"
    by (simp add: checks_and_reviews_def)
  moreover have "status \<noteq> StackMain \<Longrightarrow> mg_reason (the (request_stack_mergeability status)) \<noteq> None" for status
    by (cases status) (simp_all add: request_stack_mergeability_def blocking_reason_def)
  moreover have "requires_restack status \<Longrightarrow> status \<noteq> StackMain" for status
    by (auto simp: requires_restack_def auto_merge_stop_reason_def)
  ultimately have "mg_reason (evaluate_request_readiness repo_state subject checks reviews) = None \<longleftrightarrow>
      mg_status (evaluate_request_readiness repo_state subject checks reviews) = MReady"
    using stack_mergeability_not_ready [of "ms_stack_status subject"]
    by (auto simp: evaluate_request_readiness_def split: request_state.splits)
  then show ?thesis by (simp add: evaluate_request_merge_def Let_def)
qed

lemma landed_facts_valid:
  assumes "validate_request_facts r = Ok ()" and "request_state_of r = Open" and "rq_stack_status r = StackMain"
    and "rq_updated_at_unix r \<le> now"
  shows "validate_request_facts (r\<lparr>rq_stack_status := StackMain, rq_merged_at_unix := Some now,
    rq_merged_by_user_id := by_user, rq_merged_head_oid := Some head, rq_merged_main_oid := Some main,
    rq_updated_at_unix := now, rq_activity_version := v\<rparr>) = Ok ()" (is "validate_request_facts ?r = _")
proof -
  have "validate_base_facts ?r = validate_base_facts r"
    using assms(3) by (simp add: validate_base_facts_def split: request_base.split)
  moreover obtain submitted where "rq_submitted_at_unix r = Some submitted" "rq_closed_at_unix r = None"
    using assms(2) by (auto simp: state_defs split: if_splits)
  ultimately show ?thesis
    using assms(1,4) by (auto simp: validate_request_facts_Ok is_terminal_def split: option.splits)
qed

text \<open>
  The merge gate lets a request land exactly when the repository is ready, the request is open with a pushed
  branch on an unblocked main base, its checks and reviews are clear, and the viewer is a maintainer who reads the
  full view or pushed it as its author through its own view. It lets a push to main through exactly for a reader of
  the full view with push access, or the owner before the first push. A refusal always carries a reason.
\<close>

theorem merge_gate_correct:
  shows "(gate_authority (evaluate_merge_gate (GateRequestMerge repo_state (merge_subject_of r) viewer views checks reviews))
      = Some AuthorityRequestMerge \<longleftrightarrow>
    repo_state = RepoReady \<and> request_state_of r = Open \<and> rq_pushed_at_unix r \<noteq> None \<and> rq_stack_status r = StackMain
    \<and> checks = ChecksClear \<and> reviews = ReviewsClear
    \<and> is_maintainer (vw_access viewer)
    \<and> (Views_may_read views (ra_view (vw_access viewer)) (Views_full views)
       \<or> (vw_user_id viewer \<noteq> None \<and> vw_user_id viewer = rq_author_user_id r
           \<and> ra_can_push (vw_access viewer) \<and> ra_view (vw_access viewer) = rq_view r)))
    \<and> (gate_authority (evaluate_merge_gate (GateMainPush repo_state access views)) = Some AuthorityMainPush \<longleftrightarrow>
      (repo_state = AwaitingFirstPush \<and> ra_actor access = ActorOwner)
      \<or> (repo_state = RepoReady \<and> ra_can_push access \<and> is_maintainer access \<and> ra_view access = Views_full views))
    \<and> (gate_reason (evaluate_merge_gate input) = None \<longleftrightarrow> gate_authority (evaluate_merge_gate input) \<noteq> None)"
proof (intro conjI)
  show "gate_authority (evaluate_merge_gate (GateRequestMerge repo_state (merge_subject_of r) viewer views checks reviews))
      = Some AuthorityRequestMerge \<longleftrightarrow>
    repo_state = RepoReady \<and> request_state_of r = Open \<and> rq_pushed_at_unix r \<noteq> None \<and> rq_stack_status r = StackMain
    \<and> checks = ChecksClear \<and> reviews = ReviewsClear
    \<and> is_maintainer (vw_access viewer)
    \<and> (Views_may_read views (ra_view (vw_access viewer)) (Views_full views)
       \<or> (vw_user_id viewer \<noteq> None \<and> vw_user_id viewer = rq_author_user_id r
           \<and> ra_can_push (vw_access viewer) \<and> ra_view (vw_access viewer) = rq_view r))"
    by (auto simp: evaluate_merge_gate_def gate_authority_def merge_ready merge_subject_of_def request_merger_def Let_def)
  show "gate_authority (evaluate_merge_gate (GateMainPush repo_state access views)) = Some AuthorityMainPush \<longleftrightarrow>
      (repo_state = AwaitingFirstPush \<and> ra_actor access = ActorOwner)
      \<or> (repo_state = RepoReady \<and> ra_can_push access \<and> is_maintainer access \<and> ra_view access = Views_full views)"
    by (cases repo_state) (auto simp: evaluate_merge_gate_def gate_authority_def main_push_mode_def is_maintainer_def)
  show "gate_reason (evaluate_merge_gate input) = None \<longleftrightarrow> gate_authority (evaluate_merge_gate input) \<noteq> None"
    using merge_reason by (auto simp: evaluate_merge_gate_def gate_reason_def gate_authority_def
        split: merge_gate_input.splits push_mode.splits)
qed

text \<open>
  C18: a request the merge gate reports ready does land: merging it for a maintainer, at its current head and with a
  clock that has not moved back, succeeds unless the activity counter is exhausted, leaves it merged with the head
  and main recorded, and records the merge as its next event.
\<close>

theorem ready_request_lands:
  assumes "validate_request_facts r = Ok ()"
    and "mg_status (request_mergeability r viewer views checks reviews repo_state) = MReady"
    and "mri_actor_is_maintainer input = is_maintainer (vw_access viewer)"
    and "mri_request_id input = rq_id r" and "mri_merged_head_oid input = rq_head_oid r"
    and "\<forall>field \<in> {mri_request_id input, mri_actor_user_id input, mri_merged_event_id input,
          mri_merged_head_oid input, mri_merged_main_oid input}. trim field \<noteq> []"
    and "rq_updated_at_unix r \<le> mri_now_unix input" and "rq_activity_version r \<noteq> - 1"
    and "mri_landing input = NativeMerge"
  shows "\<exists>landed event. merge_request r input = Ok (landed, [event]) \<and> request_state_of landed = Merged
    \<and> rq_merged_head_oid landed = Some (rq_head_oid r) \<and> rq_merged_main_oid landed = Some (mri_merged_main_oid input)
    \<and> ev_kind event = KMerged \<and> unat (ev_position event) = unat (rq_activity_version r) + 1"
proof -
  have ready: "request_state_of r = Open" "rq_stack_status r = StackMain" "is_maintainer (vw_access viewer)"
    using assms(2) by (auto simp: request_mergeability_def request_list_mergeability_def merge_ready merge_subject_of_def
        request_merger_def Let_def)
  have required: "validate_required label field = Ok ()"
    if "field \<in> {mri_request_id input, mri_actor_user_id input, mri_merged_event_id input,
          mri_merged_head_oid input, mri_merged_main_oid input}" for label field
    using assms(6) that by (auto simp: validate_required_def)
  define r1 where "r1 = r\<lparr>rq_stack_status := StackMain, rq_merged_at_unix := Some (mri_now_unix input),
    rq_merged_by_user_id := Some (mri_actor_user_id input), rq_merged_head_oid := Some (mri_merged_head_oid input),
    rq_merged_main_oid := Some (mri_merged_main_oid input), rq_updated_at_unix := mri_now_unix input\<rparr>"
  obtain v where v: "checked_add (rq_activity_version r1) 1 = Some v" "unat v = unat (rq_activity_version r) + 1"
    using checked_succ_available [OF assms(8)] by (auto simp: r1_def)
  have "validate_request_facts (r1\<lparr>rq_activity_version := v\<rparr>) = Ok ()"
    unfolding r1_def using landed_facts_valid [OF assms(1) ready(1,2) assms(7)] by simp
  then show ?thesis
    using assms(3,4,5,9) ready v required
    by (simp add: merge_request_def validate_command_def validate_request_merge_execution_def stack_blocks_def
        request_stack_mergeability_def append_event_def flip: r1_def) (simp add: r1_def state_defs)
qed

definition owner_viewer :: request_viewer where
  "owner_viewer = RequestViewer_new (RepositoryAccess_full_view_reader Views_builtin) (Some ''o'') False"

theorem ready_request_lands_witness:
  "\<exists>landed event. merge_request demo_open demo_land = Ok (landed, [event]) \<and> request_state_of landed = Merged
    \<and> rq_merged_head_oid landed = Some ''h'' \<and> rq_merged_main_oid landed = Some ''m'' \<and> ev_kind event = KMerged
    \<and> unat (ev_position event) = 3"
proof -
  have viewer: "is_maintainer (vw_access owner_viewer)" 
    "request_merger owner_viewer author view Views_builtin" for author view
    by (simp_all add: owner_viewer_def RequestViewer_new_def RepositoryAccess_full_view_reader_def is_maintainer_def
        request_merger_def may_read_iff Let_def)
  have "validate_request_facts demo_open = Ok ()" by (simp add: request_eval demo_defs)
  moreover have "mg_status (request_mergeability demo_open owner_viewer Views_builtin ChecksClear ReviewsClear RepoReady)
      = MReady"
    using viewer(2)
    by (simp add: request_mergeability_def request_list_mergeability_def merge_ready merge_subject_of_def state_defs demo_defs
        base_is_main_def)
  moreover have "\<forall>field \<in> {mri_request_id demo_land, mri_actor_user_id demo_land, mri_merged_event_id demo_land,
      mri_merged_head_oid demo_land, mri_merged_main_oid demo_land}. trim field \<noteq> []"
    by (simp add: demo_land_def trim_visible visible_ascii_def)
  ultimately show ?thesis
    using ready_request_lands [of demo_open owner_viewer Views_builtin ChecksClear ReviewsClear RepoReady demo_land] viewer(1)
    by (simp add: demo_defs)
qed

section \<open>Stacks\<close>

text \<open>The chain of requests from a parent down to the one based on main.\<close>

fun stack_chain :: "request list \<Rightarrow> bool" where
  "stack_chain [] \<longleftrightarrow> False"
| "stack_chain [r] \<longleftrightarrow> base_is_main (rq_base r)"
| "stack_chain (r # parent # rest) \<longleftrightarrow>
     parent_request_id (rq_base r) = Some (rq_id parent) \<and> stack_chain (parent # rest)"

lemma check_ancestors_Ok:
  "check_ancestors repo view seen ancestors = Ok () \<Longrightarrow> ancestors \<noteq> [] \<Longrightarrow>
     stack_chain ancestors \<and> distinct (map rq_id ancestors) \<and> rq_id ` set ancestors \<inter> seen = {}
     \<and> (\<forall>a \<in> set ancestors. rq_repo_id a = repo \<and> rq_view a = view)"
proof (induction ancestors arbitrary: seen)
  case (Cons ancestor rest)
  show ?case
  proof (cases rest)
    case Nil
    with Cons.prems show ?thesis
      by (cases "rq_base ancestor") (simp_all add: base_is_main_def split: if_split_asm)
  next
    case rest: (Cons parent rest')
    have "check_ancestors repo view (insert (rq_id ancestor) seen) rest = Ok ()"
      and parent: "parent_request_id (rq_base ancestor) = Some (rq_id parent)"
      and here: "rq_repo_id ancestor = repo" "rq_view ancestor = view" "rq_id ancestor \<notin> seen"
      using Cons.prems rest by (cases "rq_base ancestor"; simp add: parent_request_id_def split: if_split_asm)+
    from Cons.IH [OF this(1)] rest have "stack_chain rest \<and> distinct (map rq_id rest) \<and> rq_id ` set rest \<inter> insert (rq_id ancestor) seen = {}
        \<and> (\<forall>a \<in> set rest. rq_repo_id a = repo \<and> rq_view a = view)" by simp
    with parent here rest show ?thesis by auto
  qed
qed simp

text \<open>
  A base accepted for a request is main, or pins the current head of an open parent whose ancestors form a
  complete chain down to a request on main: no request occurs twice or is its own ancestor, all share the
  repository and the view, there are at most 32 of them, and the depth computed in 32 bits is their exact number
  plus one.
\<close>

theorem request_stack_bounded:
  assumes "validate_request_stack_base child_id repo view base ancestors parent_revision = Ok depth"
  shows "(unat depth = length ancestors + 1)
    \<and> (depth \<le> REQUEST_STACK_MAX_DEPTH)
    \<and> (base_is_main base \<longleftrightarrow> ancestors = [])
    \<and> (distinct (child_id # map rq_id ancestors))
    \<and> (\<forall>a \<in> set ancestors. rq_repo_id a = repo \<and> rq_view a = view)
    \<and> (ancestors \<noteq> [] \<longrightarrow> stack_chain ancestors \<and> parent_request_id base = Some (rq_id (hd ancestors))
      \<and> request_state_of (hd ancestors) = Open \<and> review_base_oid base = rq_head_oid (hd ancestors))"
proof -
  consider (main) oid where "base = BaseMain oid" "ancestors = []" "depth = 1"
    | (parent) request_id revision_id head_oid where "base = BaseRequest request_id revision_id head_oid"
      "ancestors \<noteq> []" "length ancestors \<le> 32" "check_ancestors repo view {child_id} ancestors = Ok ()"
      "depth = of_nat (length ancestors) + 1" "request_state_of (hd ancestors) = Open"
      "rq_id (hd ancestors) = request_id" "rq_head_oid (hd ancestors) = head_oid"
    using assms
    by (cases base) (auto simp: validate_request_stack_base_def REQUEST_STACK_MAX_ANCESTORS_def and_then_Ok_iff Let_def
        not_less split: if_split_asm option.split_asm)
  then have "unat depth = length ancestors + 1 \<and> depth \<le> REQUEST_STACK_MAX_DEPTH
    \<and> (base_is_main base \<longleftrightarrow> ancestors = []) \<and> distinct (child_id # map rq_id ancestors)
    \<and> (\<forall>a \<in> set ancestors. rq_repo_id a = repo \<and> rq_view a = view)
    \<and> (ancestors \<noteq> [] \<longrightarrow> stack_chain ancestors \<and> parent_request_id base = Some (rq_id (hd ancestors))
      \<and> request_state_of (hd ancestors) = Open \<and> review_base_oid base = rq_head_oid (hd ancestors))"
  proof cases
    case main
    then show ?thesis
      by (simp add: base_is_main_def REQUEST_STACK_MAX_DEPTH_def REQUEST_STACK_MAX_ANCESTORS_def)
  next
    case parent
    have len: "unat (of_nat (length ancestors) :: u32) = length ancestors"
      using parent(3) by (simp add: unat_of_nat)
    then have depth: "unat depth = length ancestors + 1"
      using parent(3) by (simp add: parent(5) unat_word_ariths)
    then have "depth \<le> REQUEST_STACK_MAX_DEPTH" using parent(3)
      by (simp add: word_le_nat_alt REQUEST_STACK_MAX_DEPTH_def REQUEST_STACK_MAX_ANCESTORS_def)
    with depth check_ancestors_Ok [OF parent(4,2)] parent show ?thesis
      by (auto simp: base_is_main_def parent_request_id_def review_base_oid_def)
  qed
  then show ?thesis by blast
qed

definition demo_revision :: request_revision where
  "demo_revision = revision demo_open \<lparr>ev_id = ''v'', ev_request_id = ''r'', ev_actor_user_id = Some ''u'',
     ev_kind = KRevisionPushed, ev_position = 2, ev_payload = EvRevisionPushed ''b'' ''h'' None,
     ev_created_at_unix = 11\<rparr> ''b'' ''h'' False"

theorem request_stack_bounded_witness:
  "validate_request_stack_base ''c'' ''p'' ViewId_private (BaseRequest ''r'' ''v'' ''h'') [demo_open] (Some demo_revision)
     = Ok 2 \<and> unat (2 :: u32) = length [demo_open] + 1"
proof -
  have "validate_request_stack_base ''c'' ''p'' ViewId_private (BaseRequest ''r'' ''v'' ''h'') [demo_open]
      (Some demo_revision) = Ok 2"
    by (simp add: validate_request_stack_base_def REQUEST_STACK_MAX_ANCESTORS_def demo_revision_def revision_def
        demo_defs state_defs base_is_main_def Let_def)
  then show ?thesis using request_stack_bounded by blast
qed

end
