(* ===== verification/Workflow_Model.thy ===== *)
theory Workflow_Model
  imports Scope_Paths Scope_Ints
begin

text \<open>
  Workflow definitions: \<^verbatim>\<open>runs/workflow/definition.rs\<close>, \<^verbatim>\<open>runs/image.rs\<close>, \<^verbatim>\<open>runs/cache/definition.rs\<close> and the
  validators of \<^verbatim>\<open>runs/validation.rs\<close>. A compiled workflow is a list of jobs sorted by identifier whose needs form
  a directed graph; the constructor accepts it only when the graph has no cycle, and the serial order of the jobs
  is computed by the same worklist.
\<close>

section \<open>Validators\<close>

definition is_git_oid :: "string \<Rightarrow> bool" where
  "is_git_oid val \<longleftrightarrow> length val = 40 \<and> list_all is_ascii_hexdigit val"

definition validate_git_oid :: "string \<Rightarrow> string \<Rightarrow> (domain_error, unit) result" where
  "validate_git_oid label val =
     (if \<not> is_git_oid val then Err (invalid_input (label @ '' must be a SHA-1 hex digest'')) else Ok ())"

definition validate_sha256_hash :: "string \<Rightarrow> string \<Rightarrow> (domain_error, unit) result" where
  "validate_sha256_hash label val =
     (if length val \<noteq> 64 \<or> \<not> list_all is_ascii_hexdigit val
      then Err (invalid_input (label @ '' must be a SHA-256 hex digest'')) else Ok ())"

definition required :: "string \<Rightarrow> string \<Rightarrow> (domain_error, string) result" where
  "required label val = (if trim val = [] then Err (invalid_input (label @ '' is required'')) else Ok val)"

section \<open>Unix paths\<close>

text \<open>
  The components of \<^verbatim>\<open>std::path::Path\<close> on Unix: a leading slash is the root, empty segments and every dot but a
  leading one of a relative path are dropped.
\<close>

datatype path_component = RootDir | CurDir | ParentDir | NormalComponent string

definition segment_component :: "string \<Rightarrow> path_component list" where
  "segment_component seg =
     (if seg = [] \<or> seg = ''.'' then [] else if seg = ''..'' then [ParentDir] else [NormalComponent seg])"

definition path_components :: "string \<Rightarrow> path_component list" where
  "path_components path =
     (let segments = split_on CHR ''/'' path in
      (if starts_with ''/'' path then [RootDir] else if hd segments = ''.'' then [CurDir] else [])
      @ concat (map segment_component segments))"

definition path_is_absolute :: "string \<Rightarrow> bool" where
  "path_is_absolute path \<longleftrightarrow> starts_with ''/'' path"

definition path_starts_with :: "string \<Rightarrow> string \<Rightarrow> bool" where
  "path_starts_with path base \<longleftrightarrow> prefix (path_components base) (path_components path)"

section \<open>Caches\<close>

datatype cache_error =
  CacheInvalidName | CacheReservedName | CacheInvalidPath | CacheInvalidFormat | CacheTooManyKeyInputs
| CacheInvalidInputPath | CacheInvalidEnvironmentInput | CacheDuplicateKeyInput string

definition MAX_WORKFLOW_CACHE_NAME_BYTES :: nat where "MAX_WORKFLOW_CACHE_NAME_BYTES = 64"
definition MAX_WORKFLOW_CACHE_PATH_BYTES :: nat where "MAX_WORKFLOW_CACHE_PATH_BYTES = 1024"
definition MAX_WORKFLOW_CACHE_FORMAT_BYTES :: nat where "MAX_WORKFLOW_CACHE_FORMAT_BYTES = 64"
definition MAX_WORKFLOW_CACHE_KEY_INPUTS :: nat where "MAX_WORKFLOW_CACHE_KEY_INPUTS = 128"
definition MAX_WORKFLOW_CACHE_INPUT_PATH_BYTES :: nat where "MAX_WORKFLOW_CACHE_INPUT_PATH_BYTES = 1024"
definition RESERVED_CACHE_NAME_PREFIX :: string where "RESERVED_CACHE_NAME_PREFIX = ''scope-''"
definition RESERVED_CACHE_PATHS :: "string list" where
  "RESERVED_CACHE_PATHS = [''/scope-steps'', ''/scope-step.log'', ''/scope-active-step'', ''/workspace/target'']"

record cache_key_inputs =
  ck_files :: "string list"
  ck_environment :: "string list"
  ck_source :: bool

text \<open>\<^verbatim>\<open>windows(2).find(|pair| pair[0] == pair[1])\<close>: the first element equal to its successor.\<close>

fun adjacent_duplicate :: "'a list \<Rightarrow> 'a option" where
  "adjacent_duplicate (x # y # xs) = (if x = y then Some x else adjacent_duplicate (y # xs))"
| "adjacent_duplicate _ = None"

definition invalid_cache_input_path :: "string \<Rightarrow> bool" where
  "invalid_cache_input_path path \<longleftrightarrow>
     path = [] \<or> length path > MAX_WORKFLOW_CACHE_INPUT_PATH_BYTES \<or> path_is_absolute path
     \<or> list_ex (\<lambda>byte. byte \<in> {char_of (0 :: nat), char_of (13 :: nat), char_of (10 :: nat)}) path
     \<or> list_ex (\<lambda>segment. segment = [] \<or> segment = ''.'' \<or> segment = ''..'') (split_on CHR ''/'' path)
     \<or> list_ex (\<lambda>c. case c of NormalComponent _ \<Rightarrow> False | _ \<Rightarrow> True) (path_components path)"

definition is_ascii_alphabetic :: "char \<Rightarrow> bool" where
  "is_ascii_alphabetic c \<longleftrightarrow> is_ascii_lowercase c \<or> is_ascii_uppercase c"

definition shell_variable_name :: "string \<Rightarrow> bool" where
  "shell_variable_name name =
     (case name of
        [] \<Rightarrow> False
      | byte # bytes \<Rightarrow>
          (is_ascii_alphabetic byte \<or> byte = CHR ''_'')
          \<and> list_all (\<lambda>b. is_ascii_alphabetic b \<or> is_ascii_digit b \<or> b = CHR ''_'') bytes)"

definition CacheKeyInputs_new ::
  "string list \<Rightarrow> string list \<Rightarrow> bool \<Rightarrow> (cache_error, cache_key_inputs) result" where
  "CacheKeyInputs_new files environment source =
     (if length files + length environment + (if source then 1 else 0) > MAX_WORKFLOW_CACHE_KEY_INPUTS then
        Err CacheTooManyKeyInputs
      else if list_ex invalid_cache_input_path files then Err CacheInvalidInputPath
      else if \<not> list_all shell_variable_name environment then Err CacheInvalidEnvironmentInput
      else (case adjacent_duplicate (sort files) of
          Some duplicate \<Rightarrow> Err (CacheDuplicateKeyInput duplicate)
        | None \<Rightarrow> (case adjacent_duplicate (sort environment) of
            Some duplicate \<Rightarrow> Err (CacheDuplicateKeyInput duplicate)
          | None \<Rightarrow> Ok \<lparr>ck_files = sort files, ck_environment = sort environment, ck_source = source\<rparr>)))"

record workflow_cache =
  wc_name :: string
  wc_path :: string
  wc_format :: string
  wc_compatibility :: cache_key_inputs
  wc_exact :: cache_key_inputs

definition validate_cache_name :: "string \<Rightarrow> (cache_error, unit) result" where
  "validate_cache_name name =
     (if \<not> is_kebab_name name MAX_WORKFLOW_CACHE_NAME_BYTES then Err CacheInvalidName
      else if starts_with RESERVED_CACHE_NAME_PREFIX name then Err CacheReservedName
      else Ok ())"

definition invalid_cache_path :: "string \<Rightarrow> bool" where
  "invalid_cache_path path \<longleftrightarrow>
     path = [] \<or> length path > MAX_WORKFLOW_CACHE_PATH_BYTES \<or> path = ''/'' \<or> \<not> path_is_absolute path
     \<or> list_ex (\<lambda>byte. byte \<in> {char_of (0 :: nat), CHR '','', char_of (34 :: nat), char_of (13 :: nat),
          char_of (10 :: nat)}) path
     \<or> list_ex (\<lambda>segment. segment = [] \<or> segment = ''.'' \<or> segment = ''..'') (tl (split_on CHR ''/'' path))
     \<or> list_ex (\<lambda>c. case c of RootDir \<Rightarrow> False | NormalComponent _ \<Rightarrow> False | _ \<Rightarrow> True) (path_components path)
     \<or> path_components path = path_components ''/workspace''
     \<or> list_ex (\<lambda>reserved. path_starts_with path reserved \<or> path_starts_with reserved path) RESERVED_CACHE_PATHS"

definition WorkflowCache_new ::
  "string \<Rightarrow> string \<Rightarrow> string \<Rightarrow> cache_key_inputs \<Rightarrow> cache_key_inputs \<Rightarrow> (cache_error, workflow_cache) result" where
  "WorkflowCache_new name path format compatibility exact =
     and_then (validate_cache_name name) (\<lambda>_.
     if invalid_cache_path path then Err CacheInvalidPath
     else if \<not> is_kebab_name format MAX_WORKFLOW_CACHE_FORMAT_BYTES then Err CacheInvalidFormat
     else Ok \<lparr>wc_name = name, wc_path = path, wc_format = format, wc_compatibility = compatibility,
              wc_exact = exact\<rparr>)"

definition WorkflowCache_includes_source :: "workflow_cache \<Rightarrow> bool" where
  "WorkflowCache_includes_source cache \<longleftrightarrow> ck_source (wc_compatibility cache) \<or> ck_source (wc_exact cache)"

section \<open>Jobs\<close>

definition MAX_WORKFLOW_NAME_BYTES :: nat where "MAX_WORKFLOW_NAME_BYTES = 100"
definition MAX_WORKFLOW_JOB_ID_BYTES :: nat where "MAX_WORKFLOW_JOB_ID_BYTES = 64"
definition MAX_WORKFLOW_JOBS :: nat where "MAX_WORKFLOW_JOBS = 64"
definition MAX_CONTAINER_IMAGE_BYTES :: nat where "MAX_CONTAINER_IMAGE_BYTES = 512"
definition MAX_WORKFLOW_STEPS :: nat where "MAX_WORKFLOW_STEPS = 64"
definition MAX_WORKFLOW_CACHES :: nat where "MAX_WORKFLOW_CACHES = 16"
definition MAX_WORKFLOW_ENVIRONMENT_VARIABLES :: nat where "MAX_WORKFLOW_ENVIRONMENT_VARIABLES = 64"
definition MAX_WORKFLOW_ENVIRONMENT_BYTES :: nat where "MAX_WORKFLOW_ENVIRONMENT_BYTES = 64 * 1024"
definition MAX_ENVIRONMENT_KEY_BYTES :: nat where "MAX_ENVIRONMENT_KEY_BYTES = 128"
definition MAX_ENVIRONMENT_VALUE_BYTES :: nat where "MAX_ENVIRONMENT_VALUE_BYTES = 64 * 1024"
definition MAX_STEP_NAME_BYTES :: nat where "MAX_STEP_NAME_BYTES = 100"
definition MAX_STEP_COMMAND_BYTES :: nat where "MAX_STEP_COMMAND_BYTES = 64 * 1024"
definition MAX_WORKFLOW_TIMEOUT_SECONDS :: u64 where "MAX_WORKFLOW_TIMEOUT_SECONDS = 24 * 60 * 60"

datatype workflow_error =
  WfMissingRepositoryId | WfInvalidPath | WfInvalidName | WfMissingTrigger | WfInvalidContainerImage
| WfInvalidTimeout | WfMissingJobs | WfTooManyJobs | WfInvalidJobId | WfDuplicateJobId string
| WfSelfDependency string | WfDuplicateDependency string string | WfMissingDependency string string
| WfDependencyCycle | WfMissingSteps | WfTooManySteps | WfTooManyCaches | WfDuplicateCacheName string
| WfOverlappingCachePath string | WfUndeclaredCacheEnvironmentInput string | WfTooManyEnvironmentVariables
| WfInvalidEnvironmentKey | WfInvalidEnvironmentValue | WfEnvironmentTooLarge | WfInvalidStepName
| WfDuplicateStepName string | WfInvalidStepCommand | WfInvalidCache cache_error

record workflow_triggers =
  wt_manual :: bool
  wt_push_main :: bool
  wt_request :: bool

definition WorkflowTriggers_new :: "bool \<Rightarrow> bool \<Rightarrow> bool \<Rightarrow> (workflow_error, workflow_triggers) result" where
  "WorkflowTriggers_new manual push_main request =
     (if \<not> manual \<and> \<not> push_main \<and> \<not> request then Err WfMissingTrigger
      else Ok \<lparr>wt_manual = manual, wt_push_main = push_main, wt_request = request\<rparr>)"

text \<open>\<^verbatim>\<open>str::rsplit_once\<close>: split at the last occurrence.\<close>

definition rsplit_once_str :: "string \<Rightarrow> string \<Rightarrow> (string \<times> string) option" where
  "rsplit_once_str sep s =
     map_option (\<lambda>i. (take i s, drop (i + length sep) s))
       (find (\<lambda>i. prefix sep (drop i s)) (rev [0..<Suc (length s)]))"

datatype pinned_container_image = PinnedContainerImage (image_str: string)

definition PinnedContainerImage_parse :: "string \<Rightarrow> (domain_error, pinned_container_image) result" where
  "PinnedContainerImage_parse img =
     (case rsplit_once_str ''@sha256:'' img of
        None \<Rightarrow> Err (invalid_input ''pinned container image must end in an immutable sha256 digest'')
      | Some (repository, digest) \<Rightarrow>
          if repository = [] \<or> CHR ''@'' \<in> set repository
             \<or> list_ex (\<lambda>w. contains_str w img) whitespace_encodings
             \<or> length digest \<noteq> 64 \<or> \<not> list_all is_ascii_hexdigit digest
          then Err (invalid_input ''pinned container image is invalid'')
          else Ok (PinnedContainerImage (repository @ ''@sha256:'' @ map to_ascii_lowercase digest)))"

definition ContainerSpec_new :: "string \<Rightarrow> (workflow_error, pinned_container_image) result" where
  "ContainerSpec_new img =
     (if length img > MAX_CONTAINER_IMAGE_BYTES then Err WfInvalidContainerImage
      else map_err (\<lambda>_. WfInvalidContainerImage) (PinnedContainerImage_parse img))"

record workflow_step =
  ws_name :: string
  ws_run :: string

definition WorkflowStep_new :: "string \<Rightarrow> string \<Rightarrow> (workflow_error, workflow_step) result" where
  "WorkflowStep_new name run =
     (if trim name = [] \<or> length name > MAX_STEP_NAME_BYTES then Err WfInvalidStepName
      else if trim run = [] \<or> length run > MAX_STEP_COMMAND_BYTES then Err WfInvalidStepCommand
      else Ok \<lparr>ws_name = trim name, ws_run = run\<rparr>)"

datatype workflow_job_id = WorkflowJobId (job_id_str: string)

instantiation workflow_job_id :: linorder
begin
definition less_eq_workflow_job_id :: "workflow_job_id \<Rightarrow> workflow_job_id \<Rightarrow> bool" where
  "less_eq_workflow_job_id a b \<longleftrightarrow> job_id_str a \<le> job_id_str b"
definition less_workflow_job_id :: "workflow_job_id \<Rightarrow> workflow_job_id \<Rightarrow> bool" where
  "less_workflow_job_id a b \<longleftrightarrow> job_id_str a < job_id_str b"
instance
  by standard (auto simp: less_eq_workflow_job_id_def less_workflow_job_id_def workflow_job_id.expand)
end

definition WorkflowJobId_parse :: "string \<Rightarrow> (workflow_error, workflow_job_id) result" where
  "WorkflowJobId_parse i =
     (if \<not> is_kebab_name i MAX_WORKFLOW_JOB_ID_BYTES then Err WfInvalidJobId else Ok (WorkflowJobId i))"

record workflow_job =
  wj_id :: workflow_job_id
  wj_needs :: "workflow_job_id list"
  wj_container :: pinned_container_image
  wj_timeout_seconds :: u64
  wj_caches :: "workflow_cache list"
  wj_environment :: "(string, string) btree_map"
  wj_steps :: "workflow_step list"

definition check_environment_entry :: "string \<times> string \<Rightarrow> (workflow_error, unit) result" where
  "check_environment_entry = (\<lambda>(key, val).
     if length key > MAX_ENVIRONMENT_KEY_BYTES \<or> \<not> shell_variable_name key then Err WfInvalidEnvironmentKey
     else if length val > MAX_ENVIRONMENT_VALUE_BYTES \<or> char_of (0 :: nat) \<in> set val then Err WfInvalidEnvironmentValue
     else Ok ())"

text \<open>
  The aggregate size is a saturating sum; at most 64 entries of bounded length cannot reach the machine limit, so
  it is a natural number here.
\<close>

definition validate_environment :: "(string, string) btree_map \<Rightarrow> (workflow_error, unit) result" where
  "validate_environment environment =
     (if length environment > MAX_WORKFLOW_ENVIRONMENT_VARIABLES then Err WfTooManyEnvironmentVariables
      else and_then (check_all check_environment_entry environment) (\<lambda>_.
        if sum_list (map (\<lambda>(key, val). length key + 1 + length val) environment) > MAX_WORKFLOW_ENVIRONMENT_BYTES
        then Err WfEnvironmentTooLarge else Ok ()))"

fun first_duplicate :: "'a list \<Rightarrow> 'a list \<Rightarrow> 'a option" where
  "first_duplicate seen [] = None"
| "first_duplicate seen (x # xs) = (if x \<in> set seen then Some x else first_duplicate (x # seen) xs)"

fun first_overlap :: "workflow_cache list \<Rightarrow> workflow_cache list \<Rightarrow> string option" where
  "first_overlap earlier [] = None"
| "first_overlap earlier (cache # caches) =
     (if list_ex (\<lambda>existing. path_starts_with (wc_path cache) (wc_path existing)
                    \<or> path_starts_with (wc_path existing) (wc_path cache)) earlier
      then Some (wc_path cache) else first_overlap (earlier @ [cache]) caches)"

definition cache_environment_inputs :: "workflow_cache list \<Rightarrow> string list" where
  "cache_environment_inputs caches =
     concat (map (\<lambda>cache. ck_environment (wc_compatibility cache) @ ck_environment (wc_exact cache)) caches)"

text \<open>
  Caches are ordered by all their fields, the name first. The constructor goes on only when the names are distinct,
  and reports nothing but the name otherwise, so ordering by name gives the same results.
\<close>

definition WorkflowJob_new ::
  "workflow_job_id \<Rightarrow> workflow_job_id list \<Rightarrow> pinned_container_image \<Rightarrow> u64 \<Rightarrow> workflow_cache list
   \<Rightarrow> (string, string) btree_map \<Rightarrow> workflow_step list \<Rightarrow> (workflow_error, workflow_job) result" where
  "WorkflowJob_new i needs container timeout_seconds caches environment steps =
     (if timeout_seconds = 0 \<or> timeout_seconds > MAX_WORKFLOW_TIMEOUT_SECONDS then Err WfInvalidTimeout
      else let needs = sort needs in
      if binary_search_by (\<lambda>need. cmp need i) needs \<noteq> None then Err (WfSelfDependency (job_id_str i))
      else (case adjacent_duplicate needs of
        Some duplicate \<Rightarrow> Err (WfDuplicateDependency (job_id_str i) (job_id_str duplicate))
      | None \<Rightarrow>
      if length caches > MAX_WORKFLOW_CACHES then Err WfTooManyCaches
      else let caches = sort_key wc_name caches in
      (case adjacent_duplicate (map wc_name caches) of
        Some duplicate \<Rightarrow> Err (WfDuplicateCacheName duplicate)
      | None \<Rightarrow>
      (case first_overlap [] caches of
        Some path \<Rightarrow> Err (WfOverlappingCachePath path)
      | None \<Rightarrow>
      and_then (validate_environment environment) (\<lambda>_.
      (case find (\<lambda>input. bt_get environment input = None) (cache_environment_inputs caches) of
        Some input \<Rightarrow> Err (WfUndeclaredCacheEnvironmentInput input)
      | None \<Rightarrow>
      if steps = [] then Err WfMissingSteps
      else if length steps > MAX_WORKFLOW_STEPS then Err WfTooManySteps
      else (case first_duplicate [] (map ws_name steps) of
        Some name \<Rightarrow> Err (WfDuplicateStepName name)
      | None \<Rightarrow> Ok \<lparr>wj_id = i, wj_needs = needs, wj_container = container, wj_timeout_seconds = timeout_seconds,
            wj_caches = caches, wj_environment = environment, wj_steps = steps\<rparr>)))))))"

end
