(* ===== verification/Workflow_Graph.thy ===== *)
theory Workflow_Graph
  imports Workflow_Model "HOL-Library.Multiset"
begin

text \<open>
  The dependency graph of a workflow: the worklist of \<^verbatim>\<open>topological_job_indices\<close>, the constructor of a compiled
  workflow that rejects cycles with it, and the proof that the worklist finds an order of all jobs exactly when the
  needs have no cycle.
\<close>

section \<open>The worklist\<close>

record compiled_workflow =
  cw_name :: string
  cw_triggers :: workflow_triggers
  cw_jobs :: "workflow_job list"

definition job_indices :: "workflow_job list \<Rightarrow> (workflow_job_id, nat) btree_map" where
  "job_indices jobs = bt_collect (map (\<lambda>(index, job). (wj_id job, index)) (enumerate 0 jobs))"

definition add_dependent ::
  "(workflow_job_id, nat) btree_map \<Rightarrow> nat \<Rightarrow> workflow_job_id \<Rightarrow> nat list list \<Rightarrow> nat list list" where
  "add_dependent indices job_index dependency dependents =
     (case bt_get indices dependency of
        Some d \<Rightarrow> dependents[d := dependents ! d @ [job_index]]
      | None \<Rightarrow> dependents)"

definition job_dependents :: "workflow_job list \<Rightarrow> nat list list" where
  "job_dependents jobs =
     fold (\<lambda>(job_index, job). fold (add_dependent (job_indices jobs) job_index) (wj_needs job))
       (enumerate 0 jobs) (replicate (length jobs) [])"

text \<open>
  One decrement of \<^verbatim>\<open>remaining_needs\<close>: a dependent whose last need was met becomes ready. The counter is a
  \<^verbatim>\<open>usize\<close>; the proof below shows that it is positive whenever it is decremented, and that indices are in range.
\<close>

definition release ::
  "workflow_job list \<Rightarrow> nat \<Rightarrow> nat list \<times> workflow_job_id btree_set \<Rightarrow> nat list \<times> workflow_job_id btree_set" where
  "release jobs dependent = (\<lambda>(remaining, ready).
     if dependent < length remaining then
       (remaining[dependent := remaining ! dependent - 1],
        if remaining ! dependent = 1 then insort_insert (wj_id (jobs ! dependent)) ready else ready)
     else (remaining, ready))"

lemma length_insort_insert: "length (insort_insert x xs) \<le> Suc (length xs)"
  by (simp add: insort_insert_key_def)

lemma sum_list_decrement:
  "i < length (xs :: nat list) \<Longrightarrow> xs ! i \<noteq> 0 \<Longrightarrow> Suc (sum_list (xs[i := xs ! i - 1])) = sum_list xs"
  by (induction xs arbitrary: i) (auto simp: nth_Cons split: nat.splits)

lemma release_measure:
  assumes "release jobs d (remaining, ready) = (remaining', ready')"
  shows "sum_list remaining' + length ready' \<le> sum_list remaining + length ready"
proof (cases "d < length remaining \<and> remaining ! d \<noteq> 0")
  case True
  then have "Suc (sum_list (remaining[d := remaining ! d - 1])) = sum_list remaining"
    using sum_list_decrement [of d remaining] by blast
  then show ?thesis using assms True length_insort_insert [of "wj_id (jobs ! d)" ready]
    by (auto simp: release_def split: if_splits)
next
  case False
  then have "remaining[d := remaining ! d - 1] = remaining"
    by (metis diff_is_0_eq' list_update_beyond list_update_id nle_le not_less zero_le)
  with False show ?thesis using assms by (auto simp: release_def split: if_splits)
qed

lemma releases_measure:
  "fold (release jobs) ds (remaining, ready) = (remaining', ready') \<Longrightarrow>
     sum_list remaining' + length ready' \<le> sum_list remaining + length ready"
proof (induction ds arbitrary: remaining ready)
  case (Cons d ds)
  obtain remaining1 ready1 where *: "release jobs d (remaining, ready) = (remaining1, ready1)" by fastforce
  with Cons have "sum_list remaining' + length ready' \<le> sum_list remaining1 + length ready1" by simp
  also have "\<dots> \<le> sum_list remaining + length ready" using release_measure [OF * ] .
  finally show ?case .
qed simp

function topological_loop ::
  "workflow_job list \<Rightarrow> (workflow_job_id, nat) btree_map \<Rightarrow> nat list list \<Rightarrow> nat list \<Rightarrow> workflow_job_id btree_set
   \<Rightarrow> nat list \<Rightarrow> nat list" where
  "topological_loop jobs indices dependents remaining [] order = order"
| "topological_loop jobs indices dependents remaining (i # ready) order =
     (let index = the (bt_get indices i);
          (remaining', ready') = fold (release jobs) (dependents ! index) (remaining, ready)
      in topological_loop jobs indices dependents remaining' ready' (order @ [index]))"
  by pat_completeness auto
termination
  by (relation "measure (\<lambda>(_, _, _, remaining, ready, _). sum_list remaining + length ready)")
    (auto simp: less_Suc_eq_le intro: releases_measure [OF sym])

definition topological_job_indices :: "workflow_job list \<Rightarrow> nat list" where
  "topological_job_indices jobs =
     (let remaining_needs = map (\<lambda>job. length (wj_needs job)) jobs;
          ready = bt_set (map (\<lambda>(index, _). wj_id (jobs ! index))
            (filter (\<lambda>(_, n). n = 0) (enumerate 0 remaining_needs)))
      in topological_loop jobs (job_indices jobs) (job_dependents jobs) remaining_needs ready [])"

definition needs_present :: "workflow_job list \<Rightarrow> workflow_job \<Rightarrow> (workflow_error, unit) result" where
  "needs_present jobs job =
     (case find (\<lambda>dependency. dependency \<notin> set (bt_set (map wj_id jobs))) (wj_needs job) of
        Some missing \<Rightarrow> Err (WfMissingDependency (job_id_str (wj_id job)) (job_id_str missing))
      | None \<Rightarrow> Ok ())"

definition validate_job_graph :: "workflow_job list \<Rightarrow> (workflow_error, unit) result" where
  "validate_job_graph jobs =
     and_then (check_all (needs_present jobs) jobs) (\<lambda>_.
     if length (topological_job_indices jobs) \<noteq> length jobs then Err WfDependencyCycle else Ok ())"

definition CompiledWorkflow_new ::
  "string \<Rightarrow> workflow_triggers \<Rightarrow> workflow_job list \<Rightarrow> (workflow_error, compiled_workflow) result" where
  "CompiledWorkflow_new name triggers jobs =
     (let name = trim name in
      if name = [] \<or> length name > MAX_WORKFLOW_NAME_BYTES then Err WfInvalidName
      else if jobs = [] then Err WfMissingJobs
      else if length jobs > MAX_WORKFLOW_JOBS then Err WfTooManyJobs
      else let jobs = sort_key wj_id jobs in
      (case adjacent_duplicate (map wj_id jobs) of
        Some duplicate \<Rightarrow> Err (WfDuplicateJobId (job_id_str duplicate))
      | None \<Rightarrow> and_then (validate_job_graph jobs) (\<lambda>_.
          Ok \<lparr>cw_name = name, cw_triggers = triggers, cw_jobs = jobs\<rparr>)))"

definition CompiledWorkflow_job :: "compiled_workflow \<Rightarrow> workflow_job_id \<Rightarrow> workflow_job option" where
  "CompiledWorkflow_job workflow i =
     map_option (\<lambda>index. cw_jobs workflow ! index) (binary_search_by (\<lambda>job. cmp (wj_id job) i) (cw_jobs workflow))"

definition serial_jobs :: "compiled_workflow \<Rightarrow> workflow_job list" where
  "serial_jobs workflow = map (\<lambda>index. cw_jobs workflow ! index) (topological_job_indices (cw_jobs workflow))"

section \<open>Sorted lists without duplicates\<close>

lemma adjacent_duplicate_None:
  "sorted (xs :: 'a::linorder list) \<Longrightarrow> adjacent_duplicate xs = None \<longleftrightarrow> distinct xs"
  by (induction xs rule: adjacent_duplicate.induct) auto

lemma enumerate_nth: "map (\<lambda>(index, x). f index x) (enumerate 0 xs) = map (\<lambda>i. f i (xs ! i)) [0..<length xs]"
  by (rule nth_equalityI) (auto simp: nth_enumerate_eq)

lemma index_map_get:
  assumes "distinct (map key xs)"
  shows "bt_get (bt_collect (map (\<lambda>(index, x). (key x, index)) (enumerate 0 xs))) k = Some i
    \<longleftrightarrow> i < length xs \<and> key (xs ! i) = k"
proof -
  let ?bindings = "map (\<lambda>(index, x). (key x, index)) (enumerate 0 xs)"
  have bindings: "?bindings = map (\<lambda>i. (key (xs ! i), i)) [0..<length xs]" by (rule enumerate_nth)
  have "map fst ?bindings = map key xs" by (rule nth_equalityI) (simp_all add: bindings)
  then have "distinct (map fst (rev ?bindings))" using assms by (metis distinct_rev rev_map)
  then have "bt_get (bt_collect ?bindings) k = Some i \<longleftrightarrow> (k, i) \<in> set ?bindings"
    using map_of_eq_Some_iff [of "rev ?bindings" k i] by (simp add: bt_get_collect)
  then show ?thesis by (auto simp: bindings)
qed

text \<open>What the index map and the dependents hold for jobs with distinct identifiers and distinct needs.\<close>

locale job_graph =
  fixes jobs :: "workflow_job list"
  assumes distinct_ids: "distinct (map wj_id jobs)"
    and distinct_needs: "\<And>job. job \<in> set jobs \<Longrightarrow> distinct (wj_needs job)"
begin

lemma job_id_inj: "i < length jobs \<Longrightarrow> j < length jobs \<Longrightarrow> wj_id (jobs ! i) = wj_id (jobs ! j) \<longleftrightarrow> i = j"
  using nth_eq_iff_index_eq [OF distinct_ids, of i j] by simp

lemma job_indices_get:
  "bt_get (job_indices jobs) k = Some i \<longleftrightarrow> i < length jobs \<and> wj_id (jobs ! i) = k"
  using index_map_get [OF distinct_ids] by (simp add: job_indices_def)

lemma add_dependents:
  assumes "distinct ns" and "length deps = length jobs" and "d < length jobs"
  shows "length (fold (add_dependent (job_indices jobs) j) ns deps) = length jobs
    \<and> fold (add_dependent (job_indices jobs) j) ns deps ! d
      = deps ! d @ (if wj_id (jobs ! d) \<in> set ns then [j] else [])"
  using assms
proof (induction ns arbitrary: deps)
  case (Cons k ns)
  let ?deps = "add_dependent (job_indices jobs) j k deps"
  have len: "length ?deps = length jobs" using Cons.prems by (simp add: add_dependent_def split: option.split)
  have "?deps ! d = deps ! d @ (if wj_id (jobs ! d) = k then [j] else [])"
  proof (cases "bt_get (job_indices jobs) k")
    case None
    then have "wj_id (jobs ! d) \<noteq> k" using job_indices_get [of k d] Cons.prems(3) by auto
    with None show ?thesis by (simp add: add_dependent_def)
  next
    case (Some i)
    then have "i < length jobs" "wj_id (jobs ! i) = k" using job_indices_get by blast+
    then have "wj_id (jobs ! d) = k \<longleftrightarrow> i = d" using job_id_inj Cons.prems(3) by blast
    with Some Cons.prems(2,3) show ?thesis by (simp add: add_dependent_def nth_list_update)
  qed
  with Cons.IH [of ?deps] Cons.prems len show ?case by auto
qed simp

lemma job_dependents_nth:
  assumes "d < length jobs"
  shows "job_dependents jobs ! d = filter (\<lambda>j. wj_id (jobs ! d) \<in> set (wj_needs (jobs ! j))) [0..<length jobs]"
proof -
  let ?add = "\<lambda>j. fold (add_dependent (job_indices jobs) j) (wj_needs (jobs ! j))"
  have "length (fold ?add [0..<m] (replicate (length jobs) [])) = length jobs
    \<and> fold ?add [0..<m] (replicate (length jobs) []) ! d
      = filter (\<lambda>j. wj_id (jobs ! d) \<in> set (wj_needs (jobs ! j))) [0..<m]" if "m \<le> length jobs" for m
    using that
  proof (induction m)
    case 0
    then show ?case using assms by simp
  next
    case (Suc m)
    then have "distinct (wj_needs (jobs ! m))" using distinct_needs by simp
    from add_dependents [OF this _ assms, of "fold ?add [0..<m] (replicate (length jobs) [])" m] Suc
    show ?case by simp
  qed
  moreover have "enumerate 0 jobs = map (\<lambda>j. (j, jobs ! j)) [0..<length jobs]"
    by (rule nth_equalityI) (simp_all add: nth_enumerate_eq)
  ultimately show ?thesis by (simp add: job_dependents_def fold_map comp_def)
qed

lemma releases:
  assumes "distinct ds" and "set ds \<subseteq> {..<length jobs}" and "length remaining = length jobs"
    and "fold (release jobs) ds (remaining, ready) = (remaining', ready')" and "distinct ready"
  shows "length remaining' = length jobs \<and> distinct ready'
    \<and> (\<forall>j < length jobs. remaining' ! j = remaining ! j - (if j \<in> set ds then 1 else 0))
    \<and> set ready' = set ready \<union> {wj_id (jobs ! j) | j. j \<in> set ds \<and> remaining ! j = 1}"
  using assms
proof (induction ds arbitrary: remaining ready)
  case (Cons d ds)
  obtain remaining1 ready1 where r1: "release jobs d (remaining, ready) = (remaining1, ready1)" by fastforce
  have d: "d < length jobs" "d \<notin> set ds" "distinct ds" "set ds \<subseteq> {..<length jobs}" using Cons.prems by auto
  have one: "remaining1 = remaining[d := remaining ! d - 1]"
    "ready1 = (if remaining ! d = 1 then insort_insert (wj_id (jobs ! d)) ready else ready)"
    using r1 d Cons.prems(3) by (simp_all add: release_def)
  then have len: "length remaining1 = length jobs" and dist: "distinct ready1"
    and set1: "set ready1 = set ready \<union> (if remaining ! d = 1 then {wj_id (jobs ! d)} else {})"
    using Cons.prems(3,5) by (auto simp: distinct_insort_insert set_insort_insert)
  have rest: "fold (release jobs) ds (remaining1, ready1) = (remaining', ready')" using Cons.prems(4) r1 by simp
  note IH = Cons.IH [OF d(3,4) len rest dist]
  have keep: "remaining1 ! j = remaining ! j" if "j \<in> set ds" for j
    using that d(2) one(1) nth_list_update_neq by metis
  then have "{wj_id (jobs ! j) | j. j \<in> set ds \<and> remaining1 ! j = 1}
      = {wj_id (jobs ! j) | j. j \<in> set ds \<and> remaining ! j = 1}" by metis
  moreover have "remaining1 ! j - (if j \<in> set ds then 1 else 0)
      = remaining ! j - (if j \<in> set (d # ds) then 1 else 0)" if "j < length jobs" for j
    using d(1,2) that Cons.prems(3) by (auto simp: one nth_list_update)
  ultimately show ?case using IH set1 by auto
qed simp

definition landed :: "nat list \<Rightarrow> workflow_job_id set" where
  "landed order = (\<lambda>i. wj_id (jobs ! i)) ` set order"

definition unmet :: "nat list \<Rightarrow> nat \<Rightarrow> workflow_job_id list" where
  "unmet order j = filter (\<lambda>k. k \<notin> landed order) (wj_needs (jobs ! j))"

definition serial_prefix :: "nat list \<Rightarrow> bool" where
  "serial_prefix order \<longleftrightarrow>
     distinct order \<and> set order \<subseteq> {..<length jobs}
     \<and> (\<forall>p < length order. set (wj_needs (jobs ! (order ! p))) \<subseteq> landed (take p order))"

definition worklist_ok :: "nat list \<Rightarrow> workflow_job_id list \<Rightarrow> nat list \<Rightarrow> bool" where
  "worklist_ok remaining ready order \<longleftrightarrow>
     serial_prefix order \<and> length remaining = length jobs \<and> distinct ready
     \<and> (\<forall>j < length jobs. remaining ! j = length (unmet order j))
     \<and> set ready = {wj_id (jobs ! j) | j. j < length jobs \<and> j \<notin> set order \<and> remaining ! j = 0}"

lemma landed_iff: "i < length jobs \<Longrightarrow> set order \<subseteq> {..<length jobs} \<Longrightarrow> wj_id (jobs ! i) \<in> landed order \<longleftrightarrow> i \<in> set order"
  using job_id_inj by (auto simp: landed_def)

lemma unmet_snoc:
  assumes "i < length jobs" and "j < length jobs" and "i \<notin> set order" and "set order \<subseteq> {..<length jobs}"
  shows "length (unmet (order @ [i]) j)
    = length (unmet order j) - (if wj_id (jobs ! i) \<in> set (wj_needs (jobs ! j)) then 1 else 0)"
    and "wj_id (jobs ! i) \<in> set (wj_needs (jobs ! j)) \<Longrightarrow> unmet order j \<noteq> []"
proof -
  have new: "landed (order @ [i]) = insert (wj_id (jobs ! i)) (landed order)" by (auto simp: landed_def)
  have fresh: "wj_id (jobs ! i) \<notin> landed order" using landed_iff assms by blast
  have "unmet (order @ [i]) j = remove1 (wj_id (jobs ! i)) (unmet order j)"
    using distinct_needs [of "jobs ! j"] assms(2)
    by (simp add: unmet_def new distinct_remove1_removeAll removeAll_filter_not_eq) (rule filter_cong, auto)
  then show "length (unmet (order @ [i]) j)
    = length (unmet order j) - (if wj_id (jobs ! i) \<in> set (wj_needs (jobs ! j)) then 1 else 0)"
    using fresh by (auto simp: length_remove1 unmet_def)
  show "wj_id (jobs ! i) \<in> set (wj_needs (jobs ! j)) \<Longrightarrow> unmet order j \<noteq> []"
    using fresh by (auto simp: unmet_def filter_empty_conv)
qed

lemma ordered_met: "serial_prefix order \<Longrightarrow> j \<in> set order \<Longrightarrow> unmet order j = []"
proof -
  assume *: "serial_prefix order" "j \<in> set order"
  then obtain p where p: "p < length order" "order ! p = j" by (auto simp: in_set_conv_nth)
  then have "set (wj_needs (jobs ! j)) \<subseteq> landed (take p order)" using * (1) by (auto simp: serial_prefix_def)
  also have "\<dots> \<subseteq> landed order" by (auto simp: landed_def dest: in_set_takeD)
  finally show ?thesis by (auto simp: unmet_def filter_empty_conv)
qed

lemma worklist_step:
  assumes ok: "worklist_ok remaining (k # ready) order"
    and "fold (release jobs) (job_dependents jobs ! the (bt_get (job_indices jobs) k)) (remaining, ready)
      = (remaining', ready')"
  shows "worklist_ok remaining' ready' (order @ [the (bt_get (job_indices jobs) k)])"
proof -
  have order: "serial_prefix order" "length remaining = length jobs" "distinct ready" "k \<notin> set ready"
    and count: "\<And>j. j < length jobs \<Longrightarrow> remaining ! j = length (unmet order j)"
    and ready: "insert k (set ready) = {wj_id (jobs ! j) | j. j < length jobs \<and> j \<notin> set order \<and> remaining ! j = 0}"
    using ok by (auto simp: worklist_ok_def)
  from ready have "k \<in> {wj_id (jobs ! j) | j. j < length jobs \<and> j \<notin> set order \<and> remaining ! j = 0}" by (rule subst) (rule insertI1)
  then obtain i where i: "i < length jobs" "i \<notin> set order" "remaining ! i = 0" "wj_id (jobs ! i) = k" by auto
  then have get: "the (bt_get (job_indices jobs) k) = i" using job_indices_get [of k i] by simp
  have range: "set order \<subseteq> {..<length jobs}" using order(1) by (simp add: serial_prefix_def)
  let ?ds = "filter (\<lambda>j. k \<in> set (wj_needs (jobs ! j))) [0..<length jobs]"
  have folded: "fold (release jobs) ?ds (remaining, ready) = (remaining', ready')"
    using assms(2) job_dependents_nth [OF i(1)] by (simp add: get i(4))
  have ds: "distinct ?ds" "set ?ds \<subseteq> {..<length jobs}" by auto
  note released = releases [OF ds order(2) folded order(3)]
  then have new: "length remaining' = length jobs" "distinct ready'"
    "\<And>j. j < length jobs \<Longrightarrow> remaining' ! j = remaining ! j - (if k \<in> set (wj_needs (jobs ! j)) then 1 else 0)"
    "set ready' = set ready \<union> {wj_id (jobs ! j) | j. j < length jobs \<and> k \<in> set (wj_needs (jobs ! j)) \<and> remaining ! j = 1}"
    by auto
  have count': "remaining' ! j = length (unmet (order @ [i]) j)" if "j < length jobs" for j
    using unmet_snoc(1) [OF i(1) that i(2) range] new(3) [OF that] count [OF that] by (simp add: i(4))
  have "unmet order i = []" using count [OF i(1)] i(3) by simp
  then have "set (wj_needs (jobs ! i)) \<subseteq> landed order" by (auto simp: unmet_def filter_empty_conv)
  then have serial: "serial_prefix (order @ [i])"
    using order(1) i(1,2) by (auto simp: serial_prefix_def nth_append less_Suc_eq)
  have "set ready' = {wj_id (jobs ! j) | j. j < length jobs \<and> j \<notin> set (order @ [i]) \<and> remaining' ! j = 0}"
  proof -
    have "j \<noteq> i \<and> j \<notin> set order" if "j < length jobs" "k \<in> set (wj_needs (jobs ! j))" for j
    proof -
      have "remaining ! j \<noteq> 0" using unmet_snoc(2) [OF i(1) that(1) i(2) range] count [OF that(1)] that(2) by (simp add: i(4))
      then show ?thesis using i(3) ordered_met [OF order(1)] count [OF that(1)] by auto
    qed
    moreover have "remaining' ! j = 0 \<longleftrightarrow> remaining ! j = 0 \<or> (k \<in> set (wj_needs (jobs ! j)) \<and> remaining ! j = 1)"
      if "j < length jobs" for j using new(3) [OF that] by auto
    moreover have "set ready = {wj_id (jobs ! j) | j. j < length jobs \<and> j \<notin> set (order @ [i]) \<and> remaining ! j = 0}"
    proof -
      have "set ready = insert k (set ready) - {k}" using order(4) by blast
      then show ?thesis using ready i(1,4) job_id_inj by auto
    qed
    ultimately show ?thesis using new(4) by auto
  qed
  then show ?thesis using serial new(1,2) count' by (simp add: worklist_ok_def get)
qed

lemma worklist_result:
  "worklist_ok remaining ready order \<Longrightarrow>
     \<exists>remaining'. worklist_ok remaining' []
       (topological_loop jobs (job_indices jobs) (job_dependents jobs) remaining ready order)"
proof (induction "sum_list remaining + length ready" arbitrary: remaining ready order rule: less_induct)
  case less
  show ?case
  proof (cases ready)
    case (Cons k rest)
    obtain remaining' ready' where released:
      "fold (release jobs) (job_dependents jobs ! the (bt_get (job_indices jobs) k)) (remaining, rest) = (remaining', ready')"
      by fastforce
    have "worklist_ok remaining' ready' (order @ [the (bt_get (job_indices jobs) k)])"
      using worklist_step released less.prems Cons by blast
    moreover have "sum_list remaining' + length ready' < sum_list remaining + length ready"
      using releases_measure [OF released] Cons by simp
    ultimately show ?thesis using less.hyps released Cons by simp
  qed (use less.prems in auto)
qed

lemma initial_worklist:
  "worklist_ok (map (\<lambda>job. length (wj_needs job)) jobs)
     (bt_set (map (\<lambda>(index, _). wj_id (jobs ! index))
        (filter (\<lambda>(_, n). n = 0) (enumerate 0 (map (\<lambda>job. length (wj_needs job)) jobs))))) []"
proof -
  let ?remaining = "map (\<lambda>job. length (wj_needs job)) jobs"
  have "set (filter (\<lambda>(_, n). n = 0) (enumerate 0 ?remaining)) = {(j, 0) | j. j < length jobs \<and> ?remaining ! j = 0}"
    by (auto simp: in_set_enumerate_eq)
  then have "set (bt_set (map (\<lambda>(index, _). wj_id (jobs ! index)) (filter (\<lambda>(_, n). n = 0) (enumerate 0 ?remaining))))
      = {wj_id (jobs ! j) | j. j < length jobs \<and> ?remaining ! j = 0}"
    by (auto simp: bt_set_def image_iff)
  then show ?thesis
    by (auto simp: worklist_ok_def serial_prefix_def unmet_def landed_def bt_set_def)
qed

theorem topological_order:
  shows "serial_prefix (topological_job_indices jobs)"
    and "j < length jobs \<Longrightarrow> j \<notin> set (topological_job_indices jobs) \<Longrightarrow>
      \<exists>k \<in> set (wj_needs (jobs ! j)). k \<notin> landed (topological_job_indices jobs)"
proof -
  obtain remaining where ok: "worklist_ok remaining [] (topological_job_indices jobs)"
    using worklist_result [OF initial_worklist] by (auto simp: topological_job_indices_def Let_def)
  then show "serial_prefix (topological_job_indices jobs)" by (simp add: worklist_ok_def)
  show "\<exists>k \<in> set (wj_needs (jobs ! j)). k \<notin> landed (topological_job_indices jobs)"
    if "j < length jobs" "j \<notin> set (topological_job_indices jobs)"
  proof -
    have "unmet (topological_job_indices jobs) j \<noteq> []" using ok that by (auto simp: worklist_ok_def)
    then show ?thesis by (auto simp: unmet_def filter_empty_conv)
  qed
qed

end

section \<open>Cycles\<close>

definition needs_rel :: "workflow_job list \<Rightarrow> (workflow_job_id \<times> workflow_job_id) set" where
  "needs_rel jobs = {(wj_id job, k) | job k. job \<in> set jobs \<and> k \<in> set (wj_needs job)}"

lemma finite_needs_rel: "finite (needs_rel jobs)"
proof -
  have "needs_rel jobs \<subseteq> (\<Union>job \<in> set jobs. {wj_id job} \<times> set (wj_needs job))" by (auto simp: needs_rel_def)
  then show ?thesis by (rule finite_subset) simp
qed

context job_graph
begin

lemma complete_order:
  "length (topological_job_indices jobs) = length jobs \<longleftrightarrow> set (topological_job_indices jobs) = {..<length jobs}"
proof -
  have "distinct (topological_job_indices jobs)" "set (topological_job_indices jobs) \<subseteq> {..<length jobs}"
    using topological_order(1) by (simp_all add: serial_prefix_def)
  then show ?thesis
    by (metis card_lessThan card_subset_eq distinct_card finite_lessThan)
qed

theorem complete_iff_acyclic:
  assumes "\<And>job. job \<in> set jobs \<Longrightarrow> set (wj_needs job) \<subseteq> wj_id ` set jobs"
  shows "length (topological_job_indices jobs) = length jobs \<longleftrightarrow> acyclic (needs_rel jobs)"
proof
  let ?order = "topological_job_indices jobs"
  assume "acyclic (needs_rel jobs)"
  then have wf: "wf ((needs_rel jobs)\<inverse>)" using finite_needs_rel by (rule finite_acyclic_wf_converse [rotated])
  let ?open = "{wj_id (jobs ! j) | j. j < length jobs \<and> j \<notin> set ?order}"
  have stuck: "\<exists>l. (k, l) \<in> needs_rel jobs \<and> l \<in> ?open" if k: "k \<in> ?open" for k
  proof -
    obtain j where j: "k = wj_id (jobs ! j)" "j < length jobs" "j \<notin> set ?order" using k by auto
    obtain l where l: "l \<in> set (wj_needs (jobs ! j))" "l \<notin> landed ?order" using topological_order(2) [OF j(2,3)] by blast
    obtain i where i: "i < length jobs" "l = wj_id (jobs ! i)"
      using l(1) assms [of "jobs ! j"] j(2) by (metis (no_types, lifting) imageE in_set_conv_nth nth_mem subsetD)
    then have "i \<notin> set ?order" using l(2) by (auto simp: landed_def)
    then have "l \<in> ?open" using i by blast
    moreover have "(k, l) \<in> needs_rel jobs" unfolding needs_rel_def j(1) using j(2) l(1) nth_mem by blast
    ultimately show ?thesis by blast
  qed
  have "?open = {}"
  proof (rule ccontr)
    assume "?open \<noteq> {}"
    then obtain k where "k \<in> ?open" "\<And>l. (l, k) \<in> (needs_rel jobs)\<inverse> \<Longrightarrow> l \<notin> ?open"
      using wf unfolding wf_eq_minimal by (metis (no_types, lifting) ex_in_conv)
    then show False using stuck [of k] by blast
  qed
  then have "{..<length jobs} \<subseteq> set ?order" by auto
  then show "length ?order = length jobs"
    using topological_order(1) by (auto simp: complete_order serial_prefix_def)
next
  let ?order = "topological_job_indices jobs"
  assume "length ?order = length jobs"
  then have all: "set ?order = {..<length jobs}" by (simp add: complete_order)
  define position where "position k = (LEAST p. p < length ?order \<and> wj_id (jobs ! (?order ! p)) = k)" for k
  have "position l < position k" if kl: "(k, l) \<in> needs_rel jobs" for k l
  proof -
    obtain j where j: "j < length jobs" "k = wj_id (jobs ! j)" "l \<in> set (wj_needs (jobs ! j))"
      using kl by (auto simp: needs_rel_def in_set_conv_nth)
    then obtain q where "q < length ?order" "?order ! q = j" using all by (metis in_set_conv_nth lessThan_iff)
    then have "q < length ?order \<and> wj_id (jobs ! (?order ! q)) = k" by (simp add: j(2))
    then have ex: "position k < length ?order \<and> wj_id (jobs ! (?order ! position k)) = k"
      unfolding position_def by (rule LeastI)
    then have "?order ! position k = j" using all j(1,2) job_id_inj by (metis lessThan_iff nth_mem)
    then have "l \<in> landed (take (position k) ?order)"
      using topological_order(1) ex j(3) unfolding serial_prefix_def by blast
    then obtain x where x: "x \<in> set (take (position k) ?order)" "wj_id (jobs ! x) = l" by (auto simp: landed_def)
    then obtain p where "p < position k" "p < length ?order" "wj_id (jobs ! (?order ! p)) = l"
      by (metis in_set_conv_nth length_take min_less_iff_conj nth_take)
    moreover from this have "position l \<le> p" unfolding position_def by (intro Least_le) simp
    ultimately show ?thesis by simp
  qed
  then have "(needs_rel jobs)\<inverse> \<subseteq> measure position" by auto
  then have "acyclic ((needs_rel jobs)\<inverse>)" by (intro wf_acyclic) (rule wf_subset [OF wf_measure])
  then show "acyclic (needs_rel jobs)" by simp
qed

end

section \<open>What the constructors establish\<close>

definition graph_ok :: "workflow_job list \<Rightarrow> bool" where
  "graph_ok jobs \<longleftrightarrow> distinct (map wj_id jobs) \<and> list_all (\<lambda>job. distinct (wj_needs job)) jobs"

text \<open>The lists of jobs the constructors let through; anything else counts as the empty list.\<close>

definition checked_jobs :: "workflow_job list \<Rightarrow> workflow_job list" where
  "checked_jobs jobs = (if graph_ok jobs then jobs else [])"

interpretation wg: job_graph "checked_jobs jobs" for jobs
  by unfold_locales (auto simp: checked_jobs_def graph_ok_def list_all_iff)

lemmas checked_graph = wg.topological_order wg.complete_iff_acyclic wg.complete_order

lemma WorkflowJob_new_needs:
  assumes "WorkflowJob_new i needs container timeout caches environment steps = Ok job"
  shows "wj_id job = i" "set (wj_needs job) = set needs" "distinct (wj_needs job)" "i \<notin> set (wj_needs job)"
    "wj_steps job \<noteq> []"
proof -
  have job: "wj_id job = i" "wj_needs job = sort needs" "wj_steps job \<noteq> []"
    "adjacent_duplicate (sort needs) = None" "binary_search_by (\<lambda>need. cmp need i) (sort needs) = None"
    using assms by (auto simp: WorkflowJob_new_def Let_def and_then_Ok_iff split: if_split_asm option.split_asm)
  show "wj_id job = i" "set (wj_needs job) = set needs" "wj_steps job \<noteq> []" using job by simp_all
  show distinct: "distinct (wj_needs job)" using job(2,4) adjacent_duplicate_None [of "sort needs"] by simp
  have "sorted_wrt (<) (sort needs)" using distinct job(2) by (simp add: strict_sorted_iff)
  then show "i \<notin> set (wj_needs job)"
    using binary_search_correct [of id "sort needs" i] job(2,5) by (auto simp: find_None_iff [symmetric] dest!: sym [of None] simp: find_None_iff)
qed

lemma needs_present_Ok: "needs_present jobs job = Ok () \<longleftrightarrow> set (wj_needs job) \<subseteq> wj_id ` set jobs"
proof (cases "find (\<lambda>dependency. dependency \<notin> set (bt_set (map wj_id jobs))) (wj_needs job)")
  case None
  moreover from None have "set (wj_needs job) \<subseteq> wj_id ` set jobs" by (auto simp: find_None_iff bt_set_def)
  ultimately show ?thesis by (simp add: needs_present_def)
next
  case (Some missing)
  moreover from find_SomeD [OF this] have "\<not> set (wj_needs job) \<subseteq> wj_id ` set jobs" by (auto simp: bt_set_def)
  ultimately show ?thesis by (simp add: needs_present_def)
qed

lemma needs_present_cycle: "check_all (needs_present jobs) js \<noteq> Err WfDependencyCycle"
proof (induction js)
  case (Cons job js)
  then show ?case by (cases "find (\<lambda>dependency. dependency \<notin> set (bt_set (map wj_id jobs))) (wj_needs job)")
      (simp_all add: needs_present_def)
qed simp

lemma validate_job_graph_Ok:
  "validate_job_graph jobs = Ok () \<longleftrightarrow>
     (\<forall>job \<in> set jobs. set (wj_needs job) \<subseteq> wj_id ` set jobs)
     \<and> length (topological_job_indices jobs) = length jobs"
  by (auto simp: validate_job_graph_def and_then_Ok_iff check_all_Ok_iff needs_present_Ok)

lemma cycle_error:
  assumes "validate_job_graph jobs = Err WfDependencyCycle"
  shows "length (topological_job_indices jobs) \<noteq> length jobs" "\<forall>job \<in> set jobs. set (wj_needs job) \<subseteq> wj_id ` set jobs"
proof -
  have checked: "check_all (needs_present jobs) jobs = Ok ()" and len: "length (topological_job_indices jobs) \<noteq> length jobs"
    using assms needs_present_cycle [of jobs jobs]
    by (auto simp: validate_job_graph_def and_then_def split: sum.split_asm if_split_asm)
  show "length (topological_job_indices jobs) \<noteq> length jobs" by (rule len)
  show "\<forall>job \<in> set jobs. set (wj_needs job) \<subseteq> wj_id ` set jobs"
    using checked by (simp add: check_all_Ok_iff needs_present_Ok)
qed

lemma graph_checked: "graph_ok jobs \<Longrightarrow> checked_jobs jobs = jobs"
  by (simp add: checked_jobs_def)

lemma serial_order_complete:
  assumes "graph_ok jobs" and "length (topological_job_indices jobs) = length jobs"
  shows "mset (map (\<lambda>i. jobs ! i) (topological_job_indices jobs)) = mset jobs"
    and "p < length jobs \<Longrightarrow> set (wj_needs (map (\<lambda>i. jobs ! i) (topological_job_indices jobs) ! p))
      \<subseteq> wj_id ` set (take p (map (\<lambda>i. jobs ! i) (topological_job_indices jobs)))"
proof -
  let ?order = "topological_job_indices jobs"
  note checked = graph_checked [OF assms(1)]
  note prefix = wg.topological_order(1) [of jobs, unfolded wg.serial_prefix_def wg.landed_def, unfolded checked]
  have order: "distinct ?order" "set ?order = {..<length jobs}"
    using prefix wg.complete_order [of jobs, unfolded checked] assms(2) by blast+
  have "set ?order = set [0..<length jobs]" by (simp only: order(2) set_upt atLeast0LessThan)
  then have "mset ?order = mset [0..<length jobs]"
    using set_eq_iff_mset_eq_distinct [OF order(1) distinct_upt] by blast
  then have "mset (map (\<lambda>i. jobs ! i) ?order) = mset (map (\<lambda>i. jobs ! i) [0..<length jobs])"
    unfolding mset_map by (rule arg_cong)
  then show "mset (map (\<lambda>i. jobs ! i) ?order) = mset jobs" by (simp only: map_nth)
  show "set (wj_needs (map (\<lambda>i. jobs ! i) ?order ! p)) \<subseteq> wj_id ` set (take p (map (\<lambda>i. jobs ! i) ?order))"
    if "p < length jobs"
    using prefix that assms(2) by (simp add: take_map image_image)
qed

lemma compiled_jobs:
  assumes "CompiledWorkflow_new name triggers jobs = Ok workflow" and "list_all (\<lambda>job. distinct (wj_needs job)) jobs"
  shows "cw_jobs workflow = sort_key wj_id jobs" and "graph_ok (cw_jobs workflow)"
    and "validate_job_graph (cw_jobs workflow) = Ok ()"
    and "CompiledWorkflow_job workflow i = find (\<lambda>job. wj_id job = i) (cw_jobs workflow)"
proof -
  have new: "cw_jobs workflow = sort_key wj_id jobs" "adjacent_duplicate (map wj_id (cw_jobs workflow)) = None"
    "validate_job_graph (cw_jobs workflow) = Ok ()"
    using assms(1) by (auto simp: CompiledWorkflow_new_def Let_def and_then_Ok_iff split: if_split_asm option.split_asm)
  show "cw_jobs workflow = sort_key wj_id jobs" and "validate_job_graph (cw_jobs workflow) = Ok ()" by (fact new)+
  show graph: "graph_ok (cw_jobs workflow)"
    using new(2) assms(2) by (simp add: new(1) graph_ok_def adjacent_duplicate_None list_all_iff)
  then have "sorted_wrt (<) (map wj_id (cw_jobs workflow))" by (simp add: new(1) graph_ok_def strict_sorted_iff)
  then show "CompiledWorkflow_job workflow i = find (\<lambda>job. wj_id job = i) (cw_jobs workflow)"
    using binary_search_correct by (simp add: CompiledWorkflow_job_def)
qed

lemma compiled_serial_order:
  assumes "graph_ok (cw_jobs workflow)" and "validate_job_graph (cw_jobs workflow) = Ok ()"
  shows "mset (serial_jobs workflow) = mset (cw_jobs workflow)"
    and "p < length (serial_jobs workflow) \<Longrightarrow>
      set (wj_needs (serial_jobs workflow ! p)) \<subseteq> wj_id ` set (take p (serial_jobs workflow))"
proof -
  have len: "length (topological_job_indices (cw_jobs workflow)) = length (cw_jobs workflow)"
    using assms(2) by (simp add: validate_job_graph_Ok)
  note order = serial_order_complete [OF assms(1) len, folded serial_jobs_def]
  show "mset (serial_jobs workflow) = mset (cw_jobs workflow)" by (rule order(1))
  then have "length (serial_jobs workflow) = length (cw_jobs workflow)" by (metis size_mset)
  then show "set (wj_needs (serial_jobs workflow ! p)) \<subseteq> wj_id ` set (take p (serial_jobs workflow))"
    if "p < length (serial_jobs workflow)" using order(2) [of p] that by simp
qed

lemma complete_acyclic:
  assumes "graph_ok jobs" and "\<forall>job \<in> set jobs. set (wj_needs job) \<subseteq> wj_id ` set jobs"
  shows "length (topological_job_indices jobs) = length jobs \<longleftrightarrow> acyclic (needs_rel jobs)"
  using wg.complete_iff_acyclic [of jobs] assms unfolding graph_checked [OF assms(1)] by blast

lemma needs_rel_sort: "needs_rel (sort_key wj_id jobs) = needs_rel jobs"
  by (simp add: needs_rel_def)

lemma cycle_reported:
  assumes "CompiledWorkflow_new name triggers jobs = Err WfDependencyCycle" and "list_all (\<lambda>job. distinct (wj_needs job)) jobs"
  shows "\<not> acyclic (needs_rel jobs)"
proof -
  let ?jobs = "sort_key wj_id jobs"
  have e: "adjacent_duplicate (map wj_id ?jobs) = None" "validate_job_graph ?jobs = Err WfDependencyCycle"
    using assms(1) by (auto simp: CompiledWorkflow_new_def Let_def and_then_def split: if_split_asm option.split_asm sum.split_asm)
  then have "graph_ok ?jobs" using assms(2) by (simp add: graph_ok_def adjacent_duplicate_None list_all_iff)
  then show ?thesis using complete_acyclic [of ?jobs] cycle_error [OF e(2)] by (simp add: needs_rel_sort)
qed

text \<open>
  C36: a compiled workflow has a serial order: its serial jobs are all its jobs, each once, and every job comes after
  the jobs it needs. The constructor reports a cycle exactly when the needs of otherwise valid jobs are cyclic, and
  looking a job up by identifier finds exactly the job with that identifier.
\<close>

theorem compiled_workflow_order:
  assumes "list_all (\<lambda>job. distinct (wj_needs job)) jobs"
  shows "(CompiledWorkflow_new name triggers jobs = Ok workflow \<longrightarrow>
      mset (serial_jobs workflow) = mset (cw_jobs workflow) \<and> mset (cw_jobs workflow) = mset jobs
      \<and> (\<forall>p < length (serial_jobs workflow). set (wj_needs (serial_jobs workflow ! p))
          \<subseteq> wj_id ` set (take p (serial_jobs workflow)))
      \<and> (\<forall>i. CompiledWorkflow_job workflow i = find (\<lambda>job. wj_id job = i) (cw_jobs workflow))
      \<and> acyclic (needs_rel jobs))
    \<and> (CompiledWorkflow_new name triggers jobs = Err WfDependencyCycle \<longrightarrow> \<not> acyclic (needs_rel jobs))"
proof -
  have "mset (serial_jobs workflow) = mset (cw_jobs workflow) \<and> mset (cw_jobs workflow) = mset jobs
      \<and> (\<forall>p < length (serial_jobs workflow). set (wj_needs (serial_jobs workflow ! p))
          \<subseteq> wj_id ` set (take p (serial_jobs workflow)))
      \<and> (\<forall>i. CompiledWorkflow_job workflow i = find (\<lambda>job. wj_id job = i) (cw_jobs workflow))
      \<and> acyclic (needs_rel jobs)" if new: "CompiledWorkflow_new name triggers jobs = Ok workflow"
  proof -
    note c = compiled_jobs [OF new assms]
    have "mset (cw_jobs workflow) = mset jobs" by (simp add: c(1))
    moreover have "acyclic (needs_rel jobs)"
      using complete_acyclic [OF c(2)] c(3) needs_rel_sort [of jobs] by (simp add: validate_job_graph_Ok c(1))
    ultimately show ?thesis using compiled_serial_order [OF c(2,3)] c(4) by simp
  qed
  then show ?thesis using cycle_reported assms by blast
qed

definition demo_job :: "string \<Rightarrow> string list \<Rightarrow> workflow_job" where
  "demo_job i needs = \<lparr>wj_id = WorkflowJobId i, wj_needs = map WorkflowJobId needs,
     wj_container = PinnedContainerImage ''img'', wj_timeout_seconds = 60, wj_caches = [], wj_environment = [],
     wj_steps = [\<lparr>ws_name = ''s'', ws_run = ''make''\<rparr>]\<rparr>"

definition demo_jobs :: "workflow_job list" where
  "demo_jobs = [demo_job ''a'' [''b''], demo_job ''b'' []]"

lemma demo_jobs_valid: "validate_job_graph demo_jobs = Ok ()" "topological_job_indices demo_jobs = [1, 0]"
  by code_simp+

definition demo_triggers :: workflow_triggers where
  "demo_triggers = \<lparr>wt_manual = True, wt_push_main = False, wt_request = False\<rparr>"

definition demo_workflow :: compiled_workflow where
  "demo_workflow = \<lparr>cw_name = ''w'', cw_triggers = demo_triggers, cw_jobs = demo_jobs\<rparr>"

lemma demo_compiled: "CompiledWorkflow_new ''w'' demo_triggers demo_jobs = Ok demo_workflow"
proof -
  have sorted: "sort_key wj_id demo_jobs = demo_jobs" by (rule sort_key_id_if_sorted) code_simp
  have "trim ''w'' = ''w''" by (rule trim_visible) (simp_all add: visible_ascii_def)
  moreover have "adjacent_duplicate (map wj_id demo_jobs) = None" "demo_jobs \<noteq> []" "length demo_jobs = 2"
    by (simp_all add: demo_jobs_def demo_job_def)
  ultimately show ?thesis
    using demo_jobs_valid(1)
    by (simp add: CompiledWorkflow_new_def Let_def sorted MAX_WORKFLOW_NAME_BYTES_def MAX_WORKFLOW_JOBS_def demo_workflow_def)
qed

lemma demo_needs: "list_all (\<lambda>job. distinct (wj_needs job)) demo_jobs"
  by (simp add: demo_jobs_def demo_job_def)

theorem compiled_workflow_order_witness:
  "CompiledWorkflow_new ''w'' demo_triggers demo_jobs = Ok demo_workflow
   \<and> map wj_id (serial_jobs demo_workflow) = [WorkflowJobId ''b'', WorkflowJobId ''a'']
   \<and> acyclic (needs_rel demo_jobs)"
proof -
  have "acyclic (needs_rel demo_jobs)" using compiled_workflow_order [OF demo_needs] demo_compiled by blast
  moreover have "serial_jobs demo_workflow = [demo_jobs ! 1, demo_jobs ! 0]"
    by (simp add: serial_jobs_def demo_jobs_valid(2) demo_workflow_def)
  moreover have "wj_id (demo_jobs ! 1) = WorkflowJobId ''b''" "wj_id (demo_jobs ! 0) = WorkflowJobId ''a''"
    by (simp_all add: demo_jobs_def demo_job_def)
  ultimately show ?thesis using demo_compiled by simp
qed

end
