(* ===== verification/Run_Model.thy ===== *)
theory Run_Model
  imports Workflow_Graph Scope_Git Scope_Projection
begin

text \<open>
  Runs and their jobs: \<^verbatim>\<open>runs/run.rs\<close>, \<^verbatim>\<open>runs/source.rs\<close>, \<^verbatim>\<open>runs/job.rs\<close> and the data of attempts and steps from
  \<^verbatim>\<open>runs/attempt.rs\<close> and \<^verbatim>\<open>runs/step.rs\<close>. Methods that take \<^verbatim>\<open>&mut self\<close> return the new values; a failing one
  returns the error alone, since its callers drop the values they passed.
\<close>

type_synonym i32 = "32 word"

section \<open>Runs\<close>

datatype run_trigger = TriggerManual | TriggerPushMain | TriggerRequest

datatype run_source =
  EphemeralGitBundle source_blob
| RequestGitSnapshot source_blob string
| AcceptedGitHead string git_head

definition MAX_RUN_SOURCE_BUNDLE_BYTES :: u64 where "MAX_RUN_SOURCE_BUNDLE_BYTES = 128 * 1024 * 1024"

definition run_source_bundle_within_limit :: "u64 \<Rightarrow> bool" where
  "run_source_bundle_within_limit bytes \<longleftrightarrow> bytes \<le> MAX_RUN_SOURCE_BUNDLE_BYTES"

definition validate_source_blob :: "source_blob \<Rightarrow> string \<Rightarrow> (domain_error, unit) result" where
  "validate_source_blob blob label =
     and_then (validate_sha256_hash (label @ '' digest'') (sb_sha256 blob)) (\<lambda>_.
     if ContentRef_sha256 (sb_content_ref blob) \<noteq> Some (sb_sha256 blob) then
       Err (invalid_input (label @ '' content reference does not match its digest''))
     else validate_git_oid (label @ '' Git OID'') (sb_git_oid blob))"

definition ephemeral_git_bundle :: "source_blob \<Rightarrow> (domain_error, run_source) result" where
  "ephemeral_git_bundle obj =
     and_then (validate_source_blob obj ''run source bundle'') (\<lambda>_.
     case sb_content_ref obj of
       GitBundleSha256 _ \<Rightarrow> Ok (EphemeralGitBundle obj)
     | _ \<Rightarrow> Err (invalid_input ''ephemeral run source must be a Git bundle''))"

definition accepted_git_head :: "string \<Rightarrow> git_head \<Rightarrow> (domain_error, run_source) result" where
  "accepted_git_head repository_id head =
     (if trim repository_id = [] then Err (invalid_input ''accepted run source repository id is required'')
      else if gh_push_sequence head = 0 \<or> gh_change_version head = 0 then
        Err (invalid_input ''accepted run source sequence and change version must be positive'')
      else and_then (validate_git_oid ''accepted run source head'' (gh_head_oid head)) (\<lambda>_.
        and_then (validate_sha256_hash ''accepted run source frontier'' (gh_frontier head)) (\<lambda>_.
          Ok (AcceptedGitHead repository_id head))))"

definition retained_objects :: "run_source \<Rightarrow> source_blob list" where
  "retained_objects source =
     (case source of EphemeralGitBundle obj \<Rightarrow> [obj] | RequestGitSnapshot obj _ \<Rightarrow> [obj] | AcceptedGitHead _ _ \<Rightarrow> [])"

definition source_identity :: "run_source \<Rightarrow> string" where
  "source_identity source =
     (case source of
        EphemeralGitBundle obj \<Rightarrow> sb_sha256 obj | RequestGitSnapshot obj _ \<Rightarrow> sb_sha256 obj
      | AcceptedGitHead _ head \<Rightarrow> gh_frontier head)"

definition source_git_oid :: "run_source \<Rightarrow> string" where
  "source_git_oid source =
     (case source of
        EphemeralGitBundle obj \<Rightarrow> sb_git_oid obj | RequestGitSnapshot obj _ \<Rightarrow> sb_git_oid obj
      | AcceptedGitHead _ head \<Rightarrow> gh_head_oid head)"

definition ephemeral_bundle :: "run_source \<Rightarrow> source_blob option" where
  "ephemeral_bundle source = (case source of EphemeralGitBundle obj \<Rightarrow> Some obj | _ \<Rightarrow> None)"

definition request_git_source :: "run_source \<Rightarrow> (source_blob \<times> string) option" where
  "request_git_source source = (case source of RequestGitSnapshot obj base_oid \<Rightarrow> Some (obj, base_oid) | _ \<Rightarrow> None)"

definition logical_git_head :: "run_source \<Rightarrow> (string \<times> git_head) option" where
  "logical_git_head source = (case source of AcceptedGitHead repository_id head \<Rightarrow> Some (repository_id, head) | _ \<Rightarrow> None)"

record workflow_identity =
  wi_repository_id :: string
  wi_path :: workflow_path

text \<open>The digest is the SHA-256 of the serialised definition; it is only compared.\<close>

record workflow_revision =
  wr_workflow :: workflow_identity
  wr_digest :: string
  wr_definition :: compiled_workflow

datatype run_state = RunQueued | RunDispatching | RunRunning | RunSucceeded | RunFailed | RunCanceled | RunLost

definition run_terminal :: "run_state \<Rightarrow> bool" where
  "run_terminal s \<longleftrightarrow> s = RunSucceeded \<or> s = RunFailed \<or> s = RunCanceled \<or> s = RunLost"

record run =
  rn_id :: string
  rn_idempotency_key :: string
  rn_workflow :: workflow_identity
  rn_workflow_revision_digest :: string
  rn_trigger :: run_trigger
  rn_requested_by_user_id :: "string option"
  rn_source :: run_source
  rn_state :: run_state
  rn_cancellation_requested :: bool
  rn_created_at_unix :: u64
  rn_updated_at_unix :: u64
  rn_completed_at_unix :: "u64 option"

definition Run_queued ::
  "string \<Rightarrow> string \<Rightarrow> workflow_identity \<Rightarrow> string \<Rightarrow> run_trigger \<Rightarrow> string option \<Rightarrow> run_source \<Rightarrow> u64
   \<Rightarrow> (domain_error, run) result" where
  "Run_queued i idempotency_key workflow digest trigger requested_by source now_unix =
     and_then (required ''run id'' i) (\<lambda>i.
     and_then (required ''run idempotency key'' idempotency_key) (\<lambda>idempotency_key.
     and_then (validate_sha256_hash ''workflow revision digest'' digest) (\<lambda>_.
     if (case requested_by of Some u \<Rightarrow> trim u = [] | None \<Rightarrow> False) then
       Err (invalid_input ''run requester user id cannot be empty'')
     else Ok \<lparr>rn_id = i, rn_idempotency_key = idempotency_key, rn_workflow = workflow,
              rn_workflow_revision_digest = digest, rn_trigger = trigger, rn_requested_by_user_id = requested_by,
              rn_source = source, rn_state = RunQueued, rn_cancellation_requested = False,
              rn_created_at_unix = now_unix, rn_updated_at_unix = now_unix, rn_completed_at_unix = None\<rparr>)))"

definition Run_new ::
  "string \<Rightarrow> string \<Rightarrow> workflow_identity \<Rightarrow> string \<Rightarrow> run_trigger \<Rightarrow> string option \<Rightarrow> run_source \<Rightarrow> u64
   \<Rightarrow> (domain_error, run) result" where
  "Run_new i idempotency_key workflow digest trigger requested_by source now_unix =
     (if trigger = TriggerManual \<and> requested_by = None then
        Err (invalid_input ''manual run requester user id is required'')
      else Run_queued i idempotency_key workflow digest trigger requested_by source now_unix)"

definition run_validate_facts :: "run \<Rightarrow> (domain_error, unit) result" where
  "run_validate_facts r =
     (if run_terminal (rn_state r) \<noteq> (rn_completed_at_unix r \<noteq> None) then
        Err (invariant_violation ''run terminal state and completion time disagree'')
      else if rn_updated_at_unix r < rn_created_at_unix r
              \<or> (case rn_completed_at_unix r of Some t \<Rightarrow> t \<noteq> rn_updated_at_unix r | None \<Rightarrow> False) then
        Err (invariant_violation ''run timestamps are inconsistent'')
      else if rn_state r = RunCanceled \<and> \<not> rn_cancellation_requested r then
        Err (invariant_violation ''canceled run must record cancellation intent'')
      else Ok ())"

definition Run_restore ::
  "string \<Rightarrow> string \<Rightarrow> workflow_identity \<Rightarrow> string \<Rightarrow> run_trigger \<Rightarrow> string option \<Rightarrow> run_source \<Rightarrow> run_state \<Rightarrow> bool
   \<Rightarrow> u64 \<Rightarrow> u64 \<Rightarrow> u64 option \<Rightarrow> (domain_error, run) result" where
  "Run_restore i idempotency_key workflow digest trigger requested_by source state cancellation_requested
     created_at updated_at completed_at =
     and_then (Run_queued i idempotency_key workflow digest trigger requested_by source created_at) (\<lambda>r.
       let r = r\<lparr>rn_state := state, rn_cancellation_requested := cancellation_requested,
                 rn_updated_at_unix := updated_at, rn_completed_at_unix := completed_at\<rparr>
       in and_then (run_validate_facts r) (\<lambda>_. Ok r))"

definition has_same_enqueue_request_identity :: "run \<Rightarrow> run \<Rightarrow> bool" where
  "has_same_enqueue_request_identity a b \<longleftrightarrow>
     rn_idempotency_key a = rn_idempotency_key b \<and> rn_workflow a = rn_workflow b
     \<and> rn_workflow_revision_digest a = rn_workflow_revision_digest b \<and> rn_trigger a = rn_trigger b
     \<and> rn_requested_by_user_id a = rn_requested_by_user_id b \<and> rn_source a = rn_source b"

definition belongs_to_repository :: "run \<Rightarrow> string \<Rightarrow> bool" where
  "belongs_to_repository r repository_id \<longleftrightarrow> wi_repository_id (rn_workflow r) = repository_id"

definition can_request_cancellation :: "run \<Rightarrow> bool" where
  "can_request_cancellation r \<longleftrightarrow> \<not> run_terminal (rn_state r) \<and> \<not> rn_cancellation_requested r"

definition run_time_not_before_update :: "run \<Rightarrow> u64 \<Rightarrow> (domain_error, unit) result" where
  "run_time_not_before_update r now_unix =
     (if now_unix < rn_updated_at_unix r then Err (invalid_input ''run transition time cannot move backward'')
      else Ok ())"

definition request_cancellation :: "run \<Rightarrow> u64 \<Rightarrow> (domain_error, run \<times> bool) result" where
  "request_cancellation r now_unix =
     (if \<not> can_request_cancellation r then Ok (r, False)
      else and_then (run_time_not_before_update r now_unix) (\<lambda>_.
        Ok (r\<lparr>rn_cancellation_requested := True, rn_updated_at_unix := now_unix\<rparr>, True)))"

definition validate_workflow_revision :: "run \<Rightarrow> workflow_revision \<Rightarrow> (domain_error, unit) result" where
  "validate_workflow_revision r rv =
     (if wr_workflow rv \<noteq> rn_workflow r \<or> wr_digest rv \<noteq> rn_workflow_revision_digest r then
        Err (invalid_input ''run workflow revision does not match the run identity'')
      else let triggers = cw_triggers (wr_definition rv);
               enabled = (case rn_trigger r of
                   TriggerManual \<Rightarrow> wt_manual triggers
                 | TriggerPushMain \<Rightarrow> wt_push_main triggers
                 | TriggerRequest \<Rightarrow> wt_request triggers)
        in if \<not> enabled then Err (invalid_input ''run trigger is not enabled by the workflow revision'') else Ok ())"

section \<open>Jobs, attempts and steps\<close>

datatype run_job_state =
  JobBlocked | JobQueued | JobDispatching | JobRunning | JobSucceeded | JobFailed | JobSkipped | JobCanceled | JobLost

definition job_terminal :: "run_job_state \<Rightarrow> bool" where
  "job_terminal s \<longleftrightarrow> s = JobSucceeded \<or> s = JobFailed \<or> s = JobSkipped \<or> s = JobCanceled \<or> s = JobLost"

record capacity_retry =
  cr_first_rejected_at_unix :: u64
  cr_rejections :: u32
  cr_next_attempt_at_unix :: "u64 option"

record run_job =
  rj_run_id :: string
  rj_key :: workflow_job_id
  rj_pinned_container_image :: pinned_container_image
  rj_state :: run_job_state
  rj_last_attempt_number :: u32
  rj_current_attempt_id :: "string option"
  rj_created_at_unix :: u64
  rj_updated_at_unix :: u64
  rj_completed_at_unix :: "u64 option"
  rj_capacity_retry :: "capacity_retry option"

definition MAX_CAPACITY_RETRIES :: u32 where "MAX_CAPACITY_RETRIES = 3"
definition CAPACITY_RETRY_WINDOW_SECONDS :: u64 where "CAPACITY_RETRY_WINDOW_SECONDS = 120"
definition MAX_RUN_ATTEMPTS :: u32 where "MAX_RUN_ATTEMPTS = 100"
definition RUN_ATTEMPT_OVERHEAD_SECONDS :: u64 where "RUN_ATTEMPT_OVERHEAD_SECONDS = 60 * 60"
definition MAX_RUN_ATTEMPT_AGE_SECONDS :: u64 where
  "MAX_RUN_ATTEMPT_AGE_SECONDS = MAX_WORKFLOW_TIMEOUT_SECONDS + RUN_ATTEMPT_OVERHEAD_SECONDS"

datatype step_state = StepPending | StepRunning | StepSucceeded | StepFailed | StepCanceled | StepLost | StepSkipped

definition step_terminal :: "step_state \<Rightarrow> bool" where
  "step_terminal s \<longleftrightarrow> s = StepSucceeded \<or> s = StepFailed \<or> s = StepCanceled \<or> s = StepLost \<or> s = StepSkipped"

datatype setup_failure_message = SetupFailureMessage string

datatype attempt_terminal_reason =
  ReasonStepFailed u32 i32
| ReasonTimedOut "u32 option"
| ReasonCanceled "u32 option"
| ReasonExecutionLost "u32 option"
| ReasonDispatchAttemptsExhausted
| ReasonRuntimeSetupFailed i32 setup_failure_message
| ReasonProviderCapacityRejected setup_failure_message

record run_attempt_step =
  st_attempt_id :: string
  st_step_index :: u32
  st_state :: step_state
  st_started_at_unix :: "u64 option"
  st_completed_at_unix :: "u64 option"
  st_exit_code :: "i32 option"

datatype attempt_state =
  AttemptDispatching | AttemptRunning | AttemptSucceeded | AttemptFailed | AttemptCanceled | AttemptLost

definition attempt_terminal :: "attempt_state \<Rightarrow> bool" where
  "attempt_terminal s \<longleftrightarrow> s = AttemptSucceeded \<or> s = AttemptFailed \<or> s = AttemptCanceled \<or> s = AttemptLost"

record run_attempt =
  at_id :: string
  at_run_id :: string
  at_job_key :: workflow_job_id
  at_number :: u32
  at_external_run_id :: "string option"
  at_runtime_version :: string
  at_token_hash :: string
  at_state :: attempt_state
  at_lease_expires_at_unix :: u64
  at_last_heartbeat_at_unix :: u64
  at_created_at_unix :: u64
  at_started_at_unix :: "u64 option"
  at_completed_at_unix :: "u64 option"
  at_terminal_reason :: "attempt_terminal_reason option"
  at_log_bytes :: u64
  at_first_truncated_step_index :: "u32 option"

section \<open>Job operations\<close>

definition RunJob_new :: "run \<Rightarrow> workflow_job \<Rightarrow> run_job" where
  "RunJob_new r spec =
     \<lparr>rj_run_id = rn_id r, rj_key = wj_id spec, rj_pinned_container_image = wj_container spec,
      rj_state = (if wj_needs spec = [] then JobQueued else JobBlocked), rj_last_attempt_number = 0,
      rj_current_attempt_id = None, rj_created_at_unix = rn_created_at_unix r,
      rj_updated_at_unix = rn_created_at_unix r, rj_completed_at_unix = None, rj_capacity_retry = None\<rparr>"

definition create_run_jobs :: "run \<Rightarrow> workflow_revision \<Rightarrow> (domain_error, run_job list) result" where
  "create_run_jobs r rv =
     and_then (validate_workflow_revision r rv) (\<lambda>_. Ok (map (RunJob_new r) (cw_jobs (wr_definition rv))))"

definition job_time_not_before_update :: "run_job \<Rightarrow> u64 \<Rightarrow> (domain_error, unit) result" where
  "job_time_not_before_update job now_unix =
     (if now_unix < rj_updated_at_unix job then Err (invalid_input ''run job transition time cannot move backward'')
      else Ok ())"

definition capacity_retry_inconsistent :: "run_job \<Rightarrow> capacity_retry \<Rightarrow> bool" where
  "capacity_retry_inconsistent job retry \<longleftrightarrow>
     cr_rejections retry = 0 \<or> cr_rejections retry > MAX_CAPACITY_RETRIES + 1
     \<or> cr_first_rejected_at_unix retry < rj_created_at_unix job
     \<or> cr_first_rejected_at_unix retry > rj_updated_at_unix job
     \<or> (case cr_next_attempt_at_unix retry of
          Some next_at \<Rightarrow>
            next_at \<le> cr_first_rejected_at_unix retry
            \<or> next_at \<ge> saturating_add (cr_first_rejected_at_unix retry) CAPACITY_RETRY_WINDOW_SECONDS
            \<or> cr_rejections retry > MAX_CAPACITY_RETRIES \<or> rj_state job \<noteq> JobQueued
        | None \<Rightarrow> False)"

definition job_validate_facts :: "run_job \<Rightarrow> (domain_error, unit) result" where
  "job_validate_facts job =
     (if (rj_state job = JobDispatching \<or> rj_state job = JobRunning) \<noteq> (rj_current_attempt_id job \<noteq> None) then
        Err (invariant_violation ''run job active state and current attempt disagree'')
      else if job_terminal (rj_state job) \<noteq> (rj_completed_at_unix job \<noteq> None) then
        Err (invariant_violation ''run job terminal state and completion time disagree'')
      else if rj_last_attempt_number job > MAX_RUN_ATTEMPTS then
        Err (invariant_violation ''run job attempt history exceeds its bounded limit'')
      else if (case rj_capacity_retry job of Some retry \<Rightarrow> capacity_retry_inconsistent job retry | None \<Rightarrow> False) then
        Err (invariant_violation ''run job capacity retry facts are inconsistent'')
      else if rj_updated_at_unix job < rj_created_at_unix job
              \<or> (case rj_completed_at_unix job of Some t \<Rightarrow> t \<noteq> rj_updated_at_unix job | None \<Rightarrow> False) then
        Err (invariant_violation ''run job timestamps are inconsistent'')
      else Ok ())"

definition RunJob_restore :: "run_job \<Rightarrow> (domain_error, run_job) result" where
  "RunJob_restore job =
     and_then (required ''run job run id'' (rj_run_id job)) (\<lambda>_.
     and_then (job_validate_facts job) (\<lambda>_. Ok job))"

definition step_pending :: "string \<Rightarrow> u32 \<Rightarrow> (domain_error, run_attempt_step) result" where
  "step_pending attempt_id step_index =
     (if trim attempt_id = [] then Err (invalid_input ''run attempt step attempt id is required'')
      else Ok \<lparr>st_attempt_id = attempt_id, st_step_index = step_index, st_state = StepPending,
               st_started_at_unix = None, st_completed_at_unix = None, st_exit_code = None\<rparr>)"

text \<open>\<^verbatim>\<open>map(...).collect::<Result<Vec<_>, _>>()\<close>: the first error in order, or all values.\<close>

fun collect_results :: "('a \<Rightarrow> ('e, 'b) result) \<Rightarrow> 'a list \<Rightarrow> ('e, 'b list) result" where
  "collect_results f [] = Ok []"
| "collect_results f (x # xs) = and_then (f x) (\<lambda>y. and_then (collect_results f xs) (\<lambda>ys. Ok (y # ys)))"

definition pending_step_at :: "string \<Rightarrow> nat \<Rightarrow> (domain_error, run_attempt_step) result" where
  "pending_step_at attempt_id index =
     (if index < 2 ^ 32 then step_pending attempt_id (of_nat index)
      else Err (conflict ''workflow step index overflow''))"

definition capacity_retry_not_due :: "run_job \<Rightarrow> u64 \<Rightarrow> bool" where
  "capacity_retry_not_due job now_unix =
     (case rj_capacity_retry job of
        None \<Rightarrow> False
      | Some retry \<Rightarrow>
          (case cr_next_attempt_at_unix retry of Some next_at \<Rightarrow> now_unix < next_at | None \<Rightarrow> False)
          \<or> now_unix \<ge> saturating_add (cr_first_rejected_at_unix retry) CAPACITY_RETRY_WINDOW_SECONDS)"

definition clear_next_attempt :: "capacity_retry option \<Rightarrow> capacity_retry option" where
  "clear_next_attempt retry = map_option (\<lambda>c. c\<lparr>cr_next_attempt_at_unix := None\<rparr>) retry"

definition dispatch ::
  "run_job \<Rightarrow> run \<Rightarrow> workflow_job \<Rightarrow> string \<Rightarrow> string \<Rightarrow> string \<Rightarrow> u64 \<Rightarrow> u64
   \<Rightarrow> (domain_error, run_job \<times> run_attempt \<times> run_attempt_step list) result" where
  "dispatch job r spec attempt_id token_hash runtime_version now_unix lease_expires_at_unix =
     (if rj_run_id job \<noteq> rn_id r \<or> rj_key job \<noteq> wj_id spec then
        Err (invariant_violation ''run job does not match its run or workflow definition'')
      else if rj_state job \<noteq> JobQueued \<or> rj_current_attempt_id job \<noteq> None then
        Err (conflict ''run job is not queued'')
      else if rn_cancellation_requested r then Err (conflict ''run cancellation is requested'')
      else if lease_expires_at_unix \<le> now_unix then
        Err (invalid_input ''attempt lease expiry must be in the future'')
      else and_then (job_time_not_before_update job now_unix) (\<lambda>_.
      if capacity_retry_not_due job now_unix then
        Err (conflict ''capacity retry is not due or its window expired'')
      else and_then (required ''run attempt id'' attempt_id) (\<lambda>attempt_id.
      and_then (validate_sha256_hash ''attempt token hash'' token_hash) (\<lambda>_.
      (case checked_add (rj_last_attempt_number job) 1 of
         None \<Rightarrow> Err (conflict ''run job attempt number overflow'')
       | Some number \<Rightarrow>
           if number > MAX_RUN_ATTEMPTS then Err (conflict ''run job attempt limit reached'')
           else and_then (required ''runtime version'' runtime_version) (\<lambda>runtime_version.
             let attempt =
               \<lparr>at_id = attempt_id, at_run_id = rn_id r, at_job_key = rj_key job, at_number = number,
                at_external_run_id = None, at_runtime_version = runtime_version, at_token_hash = token_hash,
                at_state = AttemptDispatching, at_lease_expires_at_unix = lease_expires_at_unix,
                at_last_heartbeat_at_unix = now_unix, at_created_at_unix = now_unix, at_started_at_unix = None,
                at_completed_at_unix = None, at_terminal_reason = None, at_log_bytes = 0,
                at_first_truncated_step_index = None\<rparr>
             in and_then (collect_results (pending_step_at attempt_id) [0..<length (wj_steps spec)]) (\<lambda>steps.
                Ok (job\<lparr>rj_state := JobDispatching, rj_last_attempt_number := number,
                      rj_current_attempt_id := Some attempt_id, rj_updated_at_unix := now_unix,
                      rj_capacity_retry := clear_next_attempt (rj_capacity_retry job)\<rparr>,
                    attempt, steps))))))))"

definition retry_delay :: "u32 \<Rightarrow> u64" where
  "retry_delay rejections = [10, 30, 60] ! unat (min (rejections - 1) 2)"

definition record_capacity_rejection :: "run_job \<Rightarrow> u64 \<Rightarrow> (domain_error, run_job) result" where
  "record_capacity_rejection job now_unix =
     and_then (job_time_not_before_update job now_unix) (\<lambda>_.
       let first = (case rj_capacity_retry job of None \<Rightarrow> now_unix | Some c \<Rightarrow> cr_first_rejected_at_unix c);
           rejections = (case rj_capacity_retry job of None \<Rightarrow> 1 | Some c \<Rightarrow> cr_rejections c + 1);
           deadline = saturating_add first CAPACITY_RETRY_WINDOW_SECONDS;
           next_at = saturating_add now_unix (retry_delay rejections);
           retry = (rejections \<le> MAX_CAPACITY_RETRIES \<and> rj_last_attempt_number job < MAX_RUN_ATTEMPTS \<and> next_at < deadline)
       in Ok (job\<lparr>rj_capacity_retry := Some \<lparr>cr_first_rejected_at_unix = first, cr_rejections = rejections,
                     cr_next_attempt_at_unix = (if retry then Some next_at else None)\<rparr>,
                  rj_state := (if retry then JobQueued else JobFailed),
                  rj_current_attempt_id := None, rj_updated_at_unix := now_unix,
                  rj_completed_at_unix := (if retry then None else Some now_unix)\<rparr>))"

definition expire_capacity_retry :: "run_job \<Rightarrow> u64 \<Rightarrow> (domain_error, run_job \<times> bool) result" where
  "expire_capacity_retry job now_unix =
     (case rj_capacity_retry job of
        None \<Rightarrow> Ok (job, False)
      | Some retry \<Rightarrow>
          if rj_state job \<noteq> JobQueued
             \<or> now_unix < saturating_add (cr_first_rejected_at_unix retry) CAPACITY_RETRY_WINDOW_SECONDS
          then Ok (job, False)
          else and_then (job_time_not_before_update job now_unix) (\<lambda>_.
            Ok (job\<lparr>rj_capacity_retry := Some (retry\<lparr>cr_next_attempt_at_unix := None\<rparr>), rj_state := JobFailed,
                    rj_updated_at_unix := now_unix, rj_completed_at_unix := Some now_unix\<rparr>, True)))"

definition ensure_latest_attempt :: "run_job \<Rightarrow> run_attempt \<Rightarrow> (domain_error, unit) result" where
  "ensure_latest_attempt job attempt =
     (if at_run_id attempt \<noteq> rj_run_id job \<or> at_job_key attempt \<noteq> rj_key job
         \<or> at_number attempt \<noteq> rj_last_attempt_number job
      then Err (conflict ''attempt is not the latest run job attempt'') else Ok ())"

definition ensure_current_attempt :: "run_job \<Rightarrow> run_attempt \<Rightarrow> (domain_error, unit) result" where
  "ensure_current_attempt job attempt =
     and_then (ensure_latest_attempt job attempt) (\<lambda>_.
     if rj_current_attempt_id job \<noteq> Some (at_id attempt) then
       Err (conflict ''attempt is not the current run job attempt'') else Ok ())"

end
