(* ===== verification/Run_Attempts.thy ===== *)
theory Run_Attempts
  imports Run_Model
begin

text \<open>
  Execution of a job: \<^verbatim>\<open>runs/attempt.rs\<close>, \<^verbatim>\<open>runs/attempt/capacity_retry.rs\<close>, \<^verbatim>\<open>runs/step.rs\<close> and \<^verbatim>\<open>runs/log.rs\<close>. An
  attempt of a job runs its steps in order; the operations change the attempt, the job and the steps together, so
  they take and return the three of them.
\<close>

section \<open>Messages\<close>

definition MAX_RUN_SETUP_FAILURE_MESSAGE_BYTES :: nat where "MAX_RUN_SETUP_FAILURE_MESSAGE_BYTES = 2 * 1024"

definition valid_setup_failure_message :: "string \<Rightarrow> bool" where
  "valid_setup_failure_message message \<longleftrightarrow>
     trim message \<noteq> [] \<and> length message \<le> MAX_RUN_SETUP_FAILURE_MESSAGE_BYTES \<and> char_of (0 :: nat) \<notin> set message"

definition SetupFailureMessage_new :: "string \<Rightarrow> (domain_error, setup_failure_message) result" where
  "SetupFailureMessage_new message =
     (if \<not> valid_setup_failure_message message then
        Err (invalid_input ''setup failure message is required, must not exceed 2048 bytes, and cannot contain NUL characters'')
      else Ok (SetupFailureMessage message))"

text \<open>
  \<^verbatim>\<open>floor_char_boundary\<close>: the last index not beyond the bound at which a UTF-8 character starts, or the length.
\<close>

definition floor_char_boundary :: "string \<Rightarrow> nat \<Rightarrow> nat" where
  "floor_char_boundary s index =
     (if index \<ge> length s then length s
      else (case find (\<lambda>i. \<not> is_continuation_byte (s ! i)) (rev [0..<Suc index]) of Some i \<Rightarrow> i | None \<Rightarrow> 0))"

definition SetupFailureMessage_normalized :: "string \<Rightarrow> setup_failure_message" where
  "SetupFailureMessage_normalized message =
     (let replaced = concat (map (\<lambda>c. if c = char_of (0 :: nat)
              then [char_of (239 :: nat), char_of (191 :: nat), char_of (189 :: nat)] else [c]) message);
          truncated = take (floor_char_boundary replaced MAX_RUN_SETUP_FAILURE_MESSAGE_BYTES) replaced
      in SetupFailureMessage (if trim truncated = [] then ''setup failed'' else truncated))"

section \<open>Steps\<close>

datatype attempt_conclusion =
  ConcludeSucceeded | ConcludeSetupFailed i32 setup_failure_message | ConcludeTimedOut | ConcludeCanceled

datatype step_conclusion = StepConclusionSucceeded | StepConclusionFailed i32

definition from_exit_code :: "i32 \<Rightarrow> step_conclusion" where
  "from_exit_code exit_code = (if exit_code = 0 then StepConclusionSucceeded else StepConclusionFailed exit_code)"

definition step_start :: "u64 \<Rightarrow> run_attempt_step \<Rightarrow> run_attempt_step" where
  "step_start now_unix s = s\<lparr>st_state := StepRunning, st_started_at_unix := Some now_unix\<rparr>"

definition step_succeed :: "u64 \<Rightarrow> run_attempt_step \<Rightarrow> run_attempt_step" where
  "step_succeed now_unix s =
     s\<lparr>st_state := StepSucceeded, st_completed_at_unix := Some now_unix, st_exit_code := Some 0\<rparr>"

definition step_fail :: "i32 \<Rightarrow> u64 \<Rightarrow> run_attempt_step \<Rightarrow> run_attempt_step" where
  "step_fail exit_code now_unix s =
     s\<lparr>st_state := StepFailed, st_completed_at_unix := Some now_unix, st_exit_code := Some exit_code\<rparr>"

definition step_stop :: "step_state \<Rightarrow> u64 \<Rightarrow> run_attempt_step \<Rightarrow> run_attempt_step" where
  "step_stop state now_unix s = s\<lparr>st_state := state, st_completed_at_unix := Some now_unix\<rparr>"

definition step_validate_facts :: "run_attempt_step \<Rightarrow> (domain_error, unit) result" where
  "step_validate_facts s =
     (if st_state s = StepPending
         \<and> (st_started_at_unix s \<noteq> None \<or> st_completed_at_unix s \<noteq> None \<or> st_exit_code s \<noteq> None) then
        Err (invariant_violation ''pending step cannot contain execution results'')
      else if st_state s = StepRunning
         \<and> (st_started_at_unix s = None \<or> st_completed_at_unix s \<noteq> None \<or> st_exit_code s \<noteq> None) then
        Err (invariant_violation ''running step facts are inconsistent'')
      else if step_terminal (st_state s) \<noteq> (st_completed_at_unix s \<noteq> None) then
        Err (invariant_violation ''step terminal state and completion time disagree'')
      else if (case (st_started_at_unix s, st_completed_at_unix s) of
                 (Some started, Some completed) \<Rightarrow> completed < started | _ \<Rightarrow> False) then
        Err (invariant_violation ''step completion cannot precede its start'')
      else if st_state s = StepSucceeded \<and> st_exit_code s \<noteq> Some 0 then
        Err (invariant_violation ''successful step must have exit code zero'')
      else if st_state s = StepFailed \<and> (st_exit_code s = None \<or> st_exit_code s = Some 0) then
        Err (invariant_violation ''failed step must have a nonzero exit code'')
      else if st_state s \<notin> {StepSucceeded, StepFailed} \<and> st_exit_code s \<noteq> None then
        Err (invariant_violation ''unfinished or interrupted step cannot have an exit code'')
      else if st_state s \<in> {StepSucceeded, StepFailed, StepCanceled, StepLost} \<and> st_started_at_unix s = None then
        Err (invariant_violation ''executed step must have a start time'')
      else Ok ())"

definition RunAttemptStep_restore ::
  "string \<Rightarrow> u32 \<Rightarrow> step_state \<Rightarrow> u64 option \<Rightarrow> u64 option \<Rightarrow> i32 option \<Rightarrow> (domain_error, run_attempt_step) result" where
  "RunAttemptStep_restore attempt_id step_index state started_at_unix completed_at_unix exit_code =
     and_then (step_pending attempt_id step_index) (\<lambda>s.
       let s = s\<lparr>st_state := state, st_started_at_unix := started_at_unix, st_completed_at_unix := completed_at_unix,
                 st_exit_code := exit_code\<rparr>
       in and_then (step_validate_facts s) (\<lambda>_. Ok s))"

definition step_matches_conclusion :: "run_attempt_step option \<Rightarrow> step_conclusion \<Rightarrow> bool" where
  "step_matches_conclusion s conclusion =
     (case s of
        None \<Rightarrow> False
      | Some s \<Rightarrow>
          (case conclusion of
             StepConclusionSucceeded \<Rightarrow> st_state s = StepSucceeded \<and> st_exit_code s = Some 0
           | StepConclusionFailed exit_code \<Rightarrow> st_state s = StepFailed \<and> st_exit_code s = Some exit_code))"

definition skip_pending_steps :: "run_attempt_step list \<Rightarrow> u64 \<Rightarrow> run_attempt_step list" where
  "skip_pending_steps steps now_unix =
     map (\<lambda>s. if st_state s = StepPending then step_stop StepSkipped now_unix s else s) steps"

text \<open>\<^verbatim>\<open>Iterator::position\<close>.\<close>

fun position :: "('a \<Rightarrow> bool) \<Rightarrow> 'a list \<Rightarrow> nat option" where
  "position P [] = None"
| "position P (x # xs) = (if P x then Some 0 else map_option Suc (position P xs))"

definition interrupt_steps ::
  "run_attempt_step list \<Rightarrow> step_state \<Rightarrow> u64 \<Rightarrow> run_attempt_step list \<times> u32 option" where
  "interrupt_steps steps interrupted now_unix =
     (let active_index = position (\<lambda>s. st_state s = StepRunning) steps;
          stopped = (case active_index of
              Some index \<Rightarrow> steps[index := step_stop interrupted now_unix (steps ! index)] | None \<Rightarrow> steps)
      in (skip_pending_steps stopped now_unix, map_option of_nat active_index))"

definition get_step :: "run_attempt_step list \<Rightarrow> nat \<Rightarrow> run_attempt_step option" where
  "get_step steps index = (if index < length steps then Some (steps ! index) else None)"

definition terminal_step_matches ::
  "run_attempt_step list \<Rightarrow> u32 \<Rightarrow> step_state \<Rightarrow> i32 option \<Rightarrow> bool" where
  "terminal_step_matches steps step_index state exit_code =
     (case get_step steps (unat step_index) of
        None \<Rightarrow> False
      | Some s \<Rightarrow>
          st_state s = state \<and> (case exit_code of None \<Rightarrow> True | Some code \<Rightarrow> st_exit_code s = Some code)
          \<and> list_all (\<lambda>s. st_state s = StepSkipped) (drop (unat step_index + 1) steps))"

definition interrupted_step_matches ::
  "run_attempt_step list \<Rightarrow> u32 option \<Rightarrow> step_state \<Rightarrow> bool" where
  "interrupted_step_matches steps step_index interrupted_state =
     (case step_index of
        Some index \<Rightarrow> terminal_step_matches steps index interrupted_state None
      | None \<Rightarrow> list_all (\<lambda>s. st_state s = StepSucceeded \<or> st_state s = StepSkipped) steps)"

text \<open>The loop over the steps, with the position and whether execution has stopped before it.\<close>

fun check_steps :: "string \<Rightarrow> nat \<Rightarrow> bool \<Rightarrow> run_attempt_step list \<Rightarrow> (domain_error, unit) result" where
  "check_steps attempt_id index execution_stopped [] = Ok ()"
| "check_steps attempt_id index execution_stopped (s # steps) =
     (if st_attempt_id s \<noteq> attempt_id \<or> st_step_index s \<noteq> of_nat index then
        Err (invariant_violation ''run attempt step identity is inconsistent'')
      else and_then (step_validate_facts s) (\<lambda>_.
        if execution_stopped \<and> st_state s \<noteq> StepPending \<and> st_state s \<noteq> StepSkipped then
          Err (invariant_violation ''later workflow step started out of order'')
        else check_steps attempt_id (Suc index) (execution_stopped \<or> st_state s \<noteq> StepSucceeded) steps))"

definition aggregate_matches :: "run_attempt \<Rightarrow> run_attempt_step list \<Rightarrow> bool" where
  "aggregate_matches attempt steps =
     (case (at_state attempt, at_terminal_reason attempt) of
        (AttemptDispatching, None) \<Rightarrow> list_all (\<lambda>s. st_state s = StepPending) steps
      | (AttemptRunning, None) \<Rightarrow> list_all (\<lambda>s. st_state s \<in> {StepSucceeded, StepRunning, StepPending}) steps
      | (AttemptSucceeded, None) \<Rightarrow> list_all (\<lambda>s. st_state s = StepSucceeded) steps
      | (AttemptFailed, Some (ReasonStepFailed step_index exit_code)) \<Rightarrow>
          terminal_step_matches steps step_index StepFailed (Some exit_code)
      | (AttemptFailed, Some (ReasonRuntimeSetupFailed exit_code _)) \<Rightarrow>
          exit_code \<noteq> 0 \<and> list_all (\<lambda>s. st_state s = StepSkipped) steps
      | (AttemptFailed, Some (ReasonTimedOut step_index)) \<Rightarrow> interrupted_step_matches steps step_index StepCanceled
      | (AttemptCanceled, Some (ReasonCanceled step_index)) \<Rightarrow> interrupted_step_matches steps step_index StepCanceled
      | (AttemptFailed, Some (ReasonProviderCapacityRejected _)) \<Rightarrow>
          at_started_at_unix attempt = None \<and> list_all (\<lambda>s. st_state s = StepSkipped) steps
      | (AttemptLost, Some (ReasonExecutionLost step_index)) \<Rightarrow> interrupted_step_matches steps step_index StepLost
      | (AttemptLost, Some ReasonDispatchAttemptsExhausted) \<Rightarrow>
          at_started_at_unix attempt = None \<and> at_number attempt = MAX_RUN_ATTEMPTS
          \<and> list_all (\<lambda>s. st_state s = StepSkipped) steps
      | _ \<Rightarrow> False)"

definition validate_execution :: "run_attempt \<Rightarrow> run_attempt_step list \<Rightarrow> (domain_error, unit) result" where
  "validate_execution attempt steps =
     (if steps = [] then Err (invariant_violation ''run attempt must contain workflow steps'')
      else and_then (check_steps (at_id attempt) 0 False steps) (\<lambda>_.
      if length (filter (\<lambda>s. st_state s = StepRunning) steps) > 1 then
        Err (invariant_violation ''run attempt cannot have multiple running steps'')
      else if \<not> aggregate_matches attempt steps then
        Err (invariant_violation ''run attempt aggregate and step states disagree'')
      else Ok ()))"

section \<open>Credentials\<close>

definition states_align :: "run_job_state \<Rightarrow> attempt_state \<Rightarrow> bool" where
  "states_align job_state state \<longleftrightarrow>
     (job_state, state) \<in> {(JobDispatching, AttemptDispatching), (JobRunning, AttemptRunning),
       (JobSucceeded, AttemptSucceeded), (JobFailed, AttemptFailed), (JobCanceled, AttemptCanceled),
       (JobLost, AttemptLost)}"

definition ensure_job_alignment :: "run_attempt \<Rightarrow> run_job \<Rightarrow> (domain_error, unit) result" where
  "ensure_job_alignment attempt job =
     and_then (ensure_latest_attempt job attempt) (\<lambda>_.
     if \<not> states_align (rj_state job) (at_state attempt) then
       Err (invariant_violation ''run and attempt states disagree'') else Ok ())"

definition authenticate_identity :: "run_attempt \<Rightarrow> run_job \<Rightarrow> string \<Rightarrow> (domain_error, unit) result" where
  "authenticate_identity attempt job token_hash =
     and_then (ensure_job_alignment attempt job) (\<lambda>_.
     if at_token_hash attempt \<noteq> token_hash then Err (authentication_failed ''attempt credentials are invalid'')
     else Ok ())"

definition ensure_lease_active :: "run_attempt \<Rightarrow> u64 \<Rightarrow> (domain_error, unit) result" where
  "ensure_lease_active attempt now_unix =
     (if now_unix \<ge> at_lease_expires_at_unix attempt then
        Err (authentication_failed ''attempt credentials are invalid or expired'') else Ok ())"

definition authenticate :: "run_attempt \<Rightarrow> run_job \<Rightarrow> string \<Rightarrow> u64 \<Rightarrow> (domain_error, unit) result" where
  "authenticate attempt job token_hash now_unix =
     and_then (authenticate_identity attempt job token_hash) (\<lambda>_.
     and_then (ensure_current_attempt job attempt) (\<lambda>_. ensure_lease_active attempt now_unix))"

definition attempt_time_not_before_heartbeat :: "run_attempt \<Rightarrow> u64 \<Rightarrow> (domain_error, unit) result" where
  "attempt_time_not_before_heartbeat attempt now_unix =
     (if now_unix < at_last_heartbeat_at_unix attempt then
        Err (invalid_input ''attempt transition time cannot move backward'') else Ok ())"

definition MAX_RUN_LOG_BYTES_PER_ATTEMPT :: u64 where "MAX_RUN_LOG_BYTES_PER_ATTEMPT = 10 * 1024 * 1024"
definition MAX_RUN_LOG_CHUNK_BYTES :: nat where "MAX_RUN_LOG_CHUNK_BYTES = 64 * 1024"

definition attempt_times_inconsistent :: "run_attempt \<Rightarrow> bool" where
  "attempt_times_inconsistent attempt \<longleftrightarrow>
     at_last_heartbeat_at_unix attempt < at_created_at_unix attempt
     \<or> at_last_heartbeat_at_unix attempt \<ge> at_lease_expires_at_unix attempt
     \<or> (case at_started_at_unix attempt of
          Some started \<Rightarrow> started < at_created_at_unix attempt \<or> started \<ge> at_lease_expires_at_unix attempt
        | None \<Rightarrow> False)
     \<or> (case at_completed_at_unix attempt of
          Some completed \<Rightarrow> completed < at_last_heartbeat_at_unix attempt | None \<Rightarrow> False)
     \<or> (case (at_started_at_unix attempt, at_completed_at_unix attempt) of
          (Some started, Some completed) \<Rightarrow> completed < started | _ \<Rightarrow> False)"

definition attempt_validate_facts :: "run_attempt \<Rightarrow> (domain_error, unit) result" where
  "attempt_validate_facts attempt =
     (if at_number attempt = 0 then Err (invariant_violation ''run attempt number must be positive'')
      else if at_log_bytes attempt > MAX_RUN_LOG_BYTES_PER_ATTEMPT then
        Err (invariant_violation ''run attempt log byte count exceeds its limit'')
      else if at_state attempt \<in> {AttemptRunning, AttemptSucceeded} \<and> at_started_at_unix attempt = None then
        Err (invariant_violation ''running or successful attempt must have a start time'')
      else if attempt_terminal (at_state attempt) \<noteq> (at_completed_at_unix attempt \<noteq> None) then
        Err (invariant_violation ''attempt terminal state and completion time disagree'')
      else if attempt_times_inconsistent attempt then
        Err (invariant_violation ''run attempt timestamps are inconsistent'')
      else if at_state attempt = AttemptSucceeded \<and> at_terminal_reason attempt \<noteq> None then
        Err (invariant_violation ''successful attempt cannot have a terminal failure reason'')
      else if at_state attempt \<in> {AttemptFailed, AttemptCanceled, AttemptLost} \<and> at_terminal_reason attempt = None then
        Err (invariant_violation ''unsuccessful terminal attempt must have a terminal reason'')
      else if at_state attempt \<in> {AttemptDispatching, AttemptRunning} \<and> at_terminal_reason attempt \<noteq> None then
        Err (invariant_violation ''active attempt cannot have a terminal reason'')
      else Ok ())"

end
