(* ===== verification/Run_Operations.thy ===== *)
theory Run_Operations
  imports Run_Attempts
begin

text \<open>
  The operations of the runtime and the dispatcher on an attempt, its job and its steps (\<^verbatim>\<open>impl RunAttempt\<close> in
  \<^verbatim>\<open>runs/attempt.rs\<close>, \<^verbatim>\<open>runs/step.rs\<close> and \<^verbatim>\<open>runs/attempt/capacity_retry.rs\<close>), and of the whole run on its jobs
  (\<^verbatim>\<open>runs/job.rs\<close>).
\<close>

section \<open>Attempts\<close>

type_synonym execution = "run_attempt \<times> run_job \<times> run_attempt_step list"

definition RunAttempt_restore :: "run_attempt \<Rightarrow> (domain_error, run_attempt) result" where
  "RunAttempt_restore attempt =
     and_then (validate_sha256_hash ''attempt token hash'' (at_token_hash attempt)) (\<lambda>_.
     and_then (required ''run attempt id'' (at_id attempt)) (\<lambda>_.
     and_then (required ''run attempt run id'' (at_run_id attempt)) (\<lambda>_.
     and_then (case at_external_run_id attempt of
         Some external \<Rightarrow> and_then (required ''external run id'' external) (\<lambda>_. Ok ()) | None \<Rightarrow> Ok ()) (\<lambda>_.
     and_then (required ''runtime version'' (at_runtime_version attempt)) (\<lambda>_.
     and_then (attempt_validate_facts attempt) (\<lambda>_. Ok attempt))))))"

definition attempt_start ::
  "run_attempt \<Rightarrow> run \<Rightarrow> run_job \<Rightarrow> string \<Rightarrow> u64 \<Rightarrow> (domain_error, run_attempt \<times> run_job) result" where
  "attempt_start attempt r job token_hash now_unix =
     and_then (authenticate attempt job token_hash now_unix) (\<lambda>_.
     if at_state attempt \<noteq> AttemptDispatching \<or> rj_state job \<noteq> JobDispatching then
       Err (conflict ''attempt is not dispatching'')
     else if rn_cancellation_requested r then Err (conflict ''run cancellation is requested'')
     else and_then (attempt_time_not_before_heartbeat attempt now_unix) (\<lambda>_.
     and_then (job_time_not_before_update job now_unix) (\<lambda>_.
       Ok (attempt\<lparr>at_state := AttemptRunning, at_started_at_unix := Some now_unix\<rparr>,
           job\<lparr>rj_state := JobRunning, rj_updated_at_unix := now_unix\<rparr>))))"

definition claim_runtime ::
  "run_attempt \<Rightarrow> run_job \<Rightarrow> string \<Rightarrow> string \<Rightarrow> u64 \<Rightarrow> u64 \<Rightarrow> (domain_error, run_attempt) result" where
  "claim_runtime attempt job bootstrap_token_hash attempt_token_hash now_unix lease_expires_at_unix =
     and_then (authenticate attempt job bootstrap_token_hash now_unix) (\<lambda>_.
     if at_state attempt \<noteq> AttemptDispatching then Err (conflict ''attempt is not dispatching'')
     else if lease_expires_at_unix \<le> now_unix then
       Err (invalid_input ''attempt lease expiry must be in the future'')
     else and_then (validate_sha256_hash ''attempt token hash'' attempt_token_hash) (\<lambda>_.
     if attempt_token_hash = at_token_hash attempt then
       Err (invalid_input ''attempt token must differ from the bootstrap token'')
     else Ok (attempt\<lparr>at_token_hash := attempt_token_hash, at_last_heartbeat_at_unix := now_unix,
                at_lease_expires_at_unix := lease_expires_at_unix\<rparr>)))"

definition heartbeat ::
  "run_attempt \<Rightarrow> run \<Rightarrow> run_job \<Rightarrow> string \<Rightarrow> u64 \<Rightarrow> u64 \<Rightarrow> (domain_error, run_attempt \<times> bool) result" where
  "heartbeat attempt r job token_hash now_unix lease_expires_at_unix =
     and_then (authenticate attempt job token_hash now_unix) (\<lambda>_.
     if attempt_terminal (at_state attempt) then Err (conflict ''attempt is terminal'')
     else if lease_expires_at_unix \<le> now_unix then
       Err (invalid_input ''attempt lease expiry must be in the future'')
     else and_then (attempt_time_not_before_heartbeat attempt now_unix) (\<lambda>_.
     if lease_expires_at_unix < at_lease_expires_at_unix attempt then
       Err (invalid_input ''attempt heartbeat cannot shorten its lease'')
     else Ok (attempt\<lparr>at_last_heartbeat_at_unix := now_unix, at_lease_expires_at_unix := lease_expires_at_unix\<rparr>,
              rn_cancellation_requested r)))"

record run_log_chunk =
  lc_attempt_id :: string
  lc_step_index :: u32
  lc_sequence :: u64
  lc_text :: string
  lc_created_at_unix :: u64

definition RunLogChunk_new ::
  "string \<Rightarrow> u32 \<Rightarrow> u64 \<Rightarrow> string \<Rightarrow> u64 \<Rightarrow> (domain_error, run_log_chunk) result" where
  "RunLogChunk_new attempt_id step_index sequence txt created_at_unix =
     and_then (required ''run log attempt id'' attempt_id) (\<lambda>attempt_id.
     if sequence = 0 then Err (invalid_input ''run log sequence must be positive'')
     else if txt = [] then Err (invalid_input ''run log text is required'')
     else if length txt > MAX_RUN_LOG_CHUNK_BYTES then
       Err (invalid_input (''run log chunk cannot exceed '' @ show_nat MAX_RUN_LOG_CHUNK_BYTES @ '' bytes''))
     else if char_of (0 :: nat) \<in> set txt then Err (invalid_input ''run log text cannot contain NUL characters'')
     else Ok \<lparr>lc_attempt_id = attempt_id, lc_step_index = step_index, lc_sequence = sequence, lc_text = txt,
              lc_created_at_unix = created_at_unix\<rparr>)"

definition accept_log_chunk ::
  "run_attempt \<Rightarrow> run_attempt_step list \<Rightarrow> run_log_chunk \<Rightarrow> (domain_error, run_attempt \<times> bool) result" where
  "accept_log_chunk attempt steps chunk =
     (if lc_attempt_id chunk \<noteq> at_id attempt then
        Err (invalid_input ''run log attempt id does not match the attempt'')
      else if attempt_terminal (at_state attempt) then Err (conflict ''terminal attempts cannot append logs'')
      else and_then (validate_execution attempt steps) (\<lambda>_.
      if (case get_step steps (unat (lc_step_index chunk)) of None \<Rightarrow> True | Some s \<Rightarrow> st_state s \<noteq> StepRunning) then
        Err (conflict ''logs can only be appended to the running step'')
      else if at_first_truncated_step_index attempt \<noteq> None then Ok (attempt, False)
      else (case checked_add (at_log_bytes attempt) (of_nat (length (lc_text chunk))) of
          None \<Rightarrow> Err (conflict ''run log byte count overflow'')
        | Some next_bytes \<Rightarrow>
            if next_bytes > MAX_RUN_LOG_BYTES_PER_ATTEMPT then
              Ok (attempt\<lparr>at_first_truncated_step_index := Some (lc_step_index chunk)\<rparr>, False)
            else Ok (attempt\<lparr>at_log_bytes := next_bytes\<rparr>, True))))"

definition mark_step_logs_truncated ::
  "run_attempt \<Rightarrow> run_attempt_step list \<Rightarrow> u32 \<Rightarrow> (domain_error, run_attempt) result" where
  "mark_step_logs_truncated attempt steps step_index =
     and_then (validate_execution attempt steps) (\<lambda>_.
     (case get_step steps (unat step_index) of
        None \<Rightarrow> Err (invalid_input ''workflow step does not exist'')
      | Some s \<Rightarrow>
          if st_state s \<noteq> StepRunning then Err (conflict ''only the running step can report truncated logs'')
          else (case at_first_truncated_step_index attempt of
              Some existing \<Rightarrow>
                if existing \<le> step_index then Ok attempt
                else Err (conflict ''run attempt log truncation cannot move to an earlier step'')
            | None \<Rightarrow> Ok (attempt\<lparr>at_first_truncated_step_index := Some step_index\<rparr>))))"

definition authorize_cache_access ::
  "run_attempt \<Rightarrow> run_job \<Rightarrow> string \<Rightarrow> u64 \<Rightarrow> (domain_error, unit) result" where
  "authorize_cache_access attempt job token_hash now_unix =
     (if attempt_terminal (at_state attempt) then
        Err (authentication_failed ''terminal attempts cannot use the run cache'')
      else authenticate attempt job token_hash now_unix)"

definition authenticate_cache_observation_report ::
  "run_attempt \<Rightarrow> run_job \<Rightarrow> string \<Rightarrow> u64 \<Rightarrow> (domain_error, unit) result" where
  "authenticate_cache_observation_report attempt job token_hash now_unix =
     (if attempt_terminal (at_state attempt) then
        (if at_token_hash attempt \<noteq> token_hash then Err (authentication_failed ''attempt credentials are invalid'')
         else Ok ())
      else authenticate attempt job token_hash now_unix)"

section \<open>Steps\<close>

definition start_step ::
  "execution \<Rightarrow> run \<Rightarrow> string \<Rightarrow> u32 \<Rightarrow> u64 \<Rightarrow> (domain_error, execution) result" where
  "start_step = (\<lambda>(attempt, job, steps) r token_hash step_index now_unix.
     and_then (if at_state attempt = AttemptDispatching \<and> step_index = 0
               then attempt_start attempt r job token_hash now_unix
               else and_then (authenticate attempt job token_hash now_unix) (\<lambda>_. Ok (attempt, job))) (\<lambda>(attempt, job).
     if at_state attempt \<noteq> AttemptRunning \<or> rj_state job \<noteq> JobRunning then Err (conflict ''attempt is not running'')
     else and_then (validate_execution attempt steps) (\<lambda>_.
     let index = unat step_index in
     (case get_step steps index of
        None \<Rightarrow> Err (invalid_input ''workflow step does not exist'')
      | Some s \<Rightarrow>
          if st_state s = StepRunning then Ok (attempt, job, steps)
          else if rn_cancellation_requested r then
            Err (conflict ''canceled run cannot start another workflow step'')
          else if st_state s \<noteq> StepPending then Err (conflict ''step has already completed'')
          else if list_ex (\<lambda>s. st_state s \<noteq> StepSucceeded) (take index steps) then
            Err (conflict ''workflow steps must start in order'')
          else and_then (attempt_time_not_before_heartbeat attempt now_unix) (\<lambda>_.
            and_then (job_time_not_before_update job now_unix) (\<lambda>_.
              Ok (attempt, job\<lparr>rj_updated_at_unix := now_unix\<rparr>, steps[index := step_start now_unix s])))))))"

definition fail_step :: "execution \<Rightarrow> nat \<Rightarrow> u32 \<Rightarrow> i32 \<Rightarrow> u64 \<Rightarrow> execution" where
  "fail_step = (\<lambda>(attempt, job, steps) index step_index exit_code now_unix.
     (attempt\<lparr>at_state := AttemptFailed, at_completed_at_unix := Some now_unix,
        at_terminal_reason := Some (ReasonStepFailed step_index exit_code)\<rparr>,
      job\<lparr>rj_state := JobFailed, rj_current_attempt_id := None, rj_updated_at_unix := now_unix,
        rj_completed_at_unix := Some now_unix\<rparr>,
      take index steps @ step_fail exit_code now_unix (steps ! index)
        # skip_pending_steps (drop (index + 1) steps) now_unix))"

definition conclude_step ::
  "execution \<Rightarrow> nat \<Rightarrow> u32 \<Rightarrow> step_conclusion \<Rightarrow> u64 \<Rightarrow> (domain_error, execution) result" where
  "conclude_step = (\<lambda>(attempt, job, steps) index step_index conclusion now_unix.
     (case conclusion of
        StepConclusionSucceeded \<Rightarrow>
          Ok (attempt, job\<lparr>rj_updated_at_unix := now_unix\<rparr>, steps[index := step_succeed now_unix (steps ! index)])
      | StepConclusionFailed exit_code \<Rightarrow>
          if exit_code = 0 then Err (invalid_input ''failed step exit code cannot be zero'')
          else Ok (fail_step (attempt, job, steps) index step_index exit_code now_unix)))"

definition complete_step ::
  "execution \<Rightarrow> string \<Rightarrow> u32 \<Rightarrow> step_conclusion \<Rightarrow> bool \<Rightarrow> u64 \<Rightarrow> (domain_error, execution) result" where
  "complete_step = (\<lambda>(attempt, job, steps) token_hash step_index conclusion logs_truncated now_unix.
     (let index = unat step_index;
          already = (if step_matches_conclusion (get_step steps index) conclusion then Ok (attempt, job, steps)
                     else Err (conflict ''step already completed with a different conclusion''))
      in if attempt_terminal (at_state attempt) \<or> job_terminal (rj_state job) then
           and_then (authenticate_identity attempt job token_hash) (\<lambda>_. already)
         else and_then (authenticate attempt job token_hash now_unix) (\<lambda>_.
           and_then (validate_execution attempt steps) (\<lambda>_.
           (case get_step steps index of
              None \<Rightarrow> Err (invalid_input ''workflow step does not exist'')
            | Some s \<Rightarrow>
                if step_terminal (st_state s) then already
                else if st_state s \<noteq> StepRunning then Err (conflict ''step is not running'')
                else and_then (if logs_truncated then mark_step_logs_truncated attempt steps step_index else Ok attempt)
                  (\<lambda>attempt. and_then (attempt_time_not_before_heartbeat attempt now_unix) (\<lambda>_.
                    and_then (job_time_not_before_update job now_unix) (\<lambda>_.
                      conclude_step (attempt, job, steps) index step_index conclusion now_unix))))))))"

section \<open>Conclusions\<close>

definition matches_conclusion :: "run_attempt \<Rightarrow> attempt_conclusion \<Rightarrow> bool" where
  "matches_conclusion attempt conclusion =
     (case (conclusion, at_terminal_reason attempt) of
        (ConcludeSucceeded, None) \<Rightarrow> at_state attempt = AttemptSucceeded
      | (ConcludeSucceeded, Some (ReasonCanceled _)) \<Rightarrow> at_state attempt = AttemptCanceled
      | (ConcludeSetupFailed exit_code message, Some (ReasonRuntimeSetupFailed existing existing_message)) \<Rightarrow>
          at_state attempt = AttemptFailed \<and> exit_code = existing \<and> message = existing_message
      | (ConcludeTimedOut, Some (ReasonTimedOut _)) \<Rightarrow> at_state attempt = AttemptFailed
      | (ConcludeCanceled, Some (ReasonCanceled _)) \<Rightarrow> at_state attempt = AttemptCanceled
      | _ \<Rightarrow> False)"

text \<open>The state, reason and steps a conclusion leads to.\<close>

definition conclusion_effects ::
  "run_attempt \<Rightarrow> run \<Rightarrow> run_attempt_step list \<Rightarrow> attempt_conclusion \<Rightarrow> u64
   \<Rightarrow> (domain_error, attempt_state \<times> run_job_state \<times> attempt_terminal_reason option \<times> run_attempt_step list) result" where
  "conclusion_effects attempt r steps conclusion now_unix =
     (case conclusion of
        ConcludeSucceeded \<Rightarrow>
          if at_state attempt \<noteq> AttemptRunning \<or> list_ex (\<lambda>s. st_state s \<noteq> StepSucceeded) steps then
            Err (conflict ''runtime can only succeed after every workflow step succeeds'')
          else if rn_cancellation_requested r then
            Ok (AttemptCanceled, JobCanceled, Some (ReasonCanceled None), steps)
          else Ok (AttemptSucceeded, JobSucceeded, None, steps)
      | ConcludeSetupFailed exit_code message \<Rightarrow>
          if at_state attempt \<noteq> AttemptDispatching then
            Err (conflict ''runtime setup can only fail before execution starts'')
          else if exit_code = 0 then Err (invalid_input ''runtime setup failure exit code cannot be zero'')
          else Ok (AttemptFailed, JobFailed, Some (ReasonRuntimeSetupFailed exit_code message),
                   skip_pending_steps steps now_unix)
      | ConcludeTimedOut \<Rightarrow>
          (case interrupt_steps steps StepCanceled now_unix of (steps, step_index) \<Rightarrow>
             Ok (AttemptFailed, JobFailed, Some (ReasonTimedOut step_index), steps))
      | ConcludeCanceled \<Rightarrow>
          if \<not> rn_cancellation_requested r then Err (conflict ''run cancellation was not requested'')
          else (case interrupt_steps steps StepCanceled now_unix of (steps, step_index) \<Rightarrow>
             Ok (AttemptCanceled, JobCanceled, Some (ReasonCanceled step_index), steps)))"

definition finish_attempt ::
  "run_attempt \<Rightarrow> run_job \<Rightarrow> attempt_state \<Rightarrow> run_job_state \<Rightarrow> attempt_terminal_reason option \<Rightarrow> u64
   \<Rightarrow> run_attempt \<times> run_job" where
  "finish_attempt attempt job attempt_state job_state terminal_reason now_unix =
     (attempt\<lparr>at_state := attempt_state, at_terminal_reason := terminal_reason, at_completed_at_unix := Some now_unix\<rparr>,
      job\<lparr>rj_state := job_state, rj_current_attempt_id := None, rj_updated_at_unix := now_unix,
        rj_completed_at_unix := Some now_unix\<rparr>)"

definition mark_running_step_truncated ::
  "run_attempt \<Rightarrow> run_attempt_step list \<Rightarrow> bool \<Rightarrow> (domain_error, run_attempt) result" where
  "mark_running_step_truncated attempt steps logs_truncated =
     (if logs_truncated \<and> at_first_truncated_step_index attempt = None
      then (case position (\<lambda>s. st_state s = StepRunning) steps of
          None \<Rightarrow> Err (conflict ''attempt log truncation requires an active or previously truncated step'')
        | Some index \<Rightarrow> mark_step_logs_truncated attempt steps (of_nat index))
      else Ok attempt)"

definition conclude_attempt ::
  "execution \<Rightarrow> run \<Rightarrow> attempt_conclusion \<Rightarrow> u64 \<Rightarrow> (domain_error, execution) result" where
  "conclude_attempt = (\<lambda>(attempt, job, steps) r conclusion now_unix.
     and_then (conclusion_effects attempt r steps conclusion now_unix)
       (\<lambda>(attempt_state, job_state, terminal_reason, steps).
       (case finish_attempt attempt job attempt_state job_state terminal_reason now_unix of (attempt, job) \<Rightarrow>
          Ok (attempt, job, steps))))"

definition complete ::
  "execution \<Rightarrow> run \<Rightarrow> string \<Rightarrow> attempt_conclusion \<Rightarrow> bool \<Rightarrow> u64 \<Rightarrow> (domain_error, execution) result" where
  "complete = (\<lambda>(attempt, job, steps) r token_hash conclusion logs_truncated now_unix.
     (if attempt_terminal (at_state attempt) \<or> job_terminal (rj_state job) then
        and_then (authenticate_identity attempt job token_hash) (\<lambda>_.
        if matches_conclusion attempt conclusion then Ok (attempt, job, steps)
        else Err (conflict ''attempt already completed with a different conclusion''))
      else and_then (authenticate attempt job token_hash now_unix) (\<lambda>_.
        and_then (validate_execution attempt steps) (\<lambda>_.
        and_then (mark_running_step_truncated attempt steps logs_truncated) (\<lambda>attempt.
        and_then (attempt_time_not_before_heartbeat attempt now_unix) (\<lambda>_.
        and_then (job_time_not_before_update job now_unix) (\<lambda>_.
          conclude_attempt (attempt, job, steps) r conclusion now_unix)))))))"

text \<open>The attempt and the job after the execution was lost: a job that never started queues again while it may.\<close>

definition lost_or_requeued ::
  "run_attempt \<Rightarrow> run_job \<Rightarrow> run \<Rightarrow> u32 option \<Rightarrow> u64 \<Rightarrow> run_attempt \<times> run_job" where
  "lost_or_requeued attempt job r step_index now_unix =
     (let was_running = (at_state attempt = AttemptRunning);
          lost = attempt\<lparr>at_state := AttemptLost, at_terminal_reason := Some (ReasonExecutionLost step_index),
                   at_completed_at_unix := Some now_unix\<rparr>;
          job1 = job\<lparr>rj_current_attempt_id := None, rj_updated_at_unix := now_unix\<rparr>
      in if was_running then (lost, job1\<lparr>rj_state := JobLost, rj_completed_at_unix := Some now_unix\<rparr>)
         else if rn_cancellation_requested r then
           (lost, job1\<lparr>rj_state := JobCanceled, rj_completed_at_unix := Some now_unix\<rparr>)
         else if at_number attempt = MAX_RUN_ATTEMPTS then
           (lost\<lparr>at_terminal_reason := Some ReasonDispatchAttemptsExhausted\<rparr>,
            job1\<lparr>rj_state := JobLost, rj_completed_at_unix := Some now_unix\<rparr>)
         else (lost, job1\<lparr>rj_state := JobQueued\<rparr>))"

definition finish_lost_or_requeue ::
  "execution \<Rightarrow> run \<Rightarrow> u64 \<Rightarrow> (domain_error, execution) result" where
  "finish_lost_or_requeue = (\<lambda>(attempt, job, steps) r now_unix.
     and_then (ensure_current_attempt job attempt) (\<lambda>_.
     and_then (validate_execution attempt steps) (\<lambda>_.
     and_then (job_time_not_before_update job now_unix) (\<lambda>_.
       (case interrupt_steps steps StepLost now_unix of (steps', step_index) \<Rightarrow>
       (case lost_or_requeued attempt job r step_index now_unix of (attempt', job') \<Rightarrow>
          Ok (attempt', job', steps')))))))"

definition expire :: "execution \<Rightarrow> run \<Rightarrow> u64 \<Rightarrow> (domain_error, execution) result" where
  "expire = (\<lambda>(attempt, job, steps) r now_unix.
     and_then (ensure_current_attempt job attempt) (\<lambda>_.
     if attempt_terminal (at_state attempt) then Err (conflict ''attempt is terminal'')
     else if now_unix < at_lease_expires_at_unix attempt
             \<and> now_unix < saturating_add (at_created_at_unix attempt) MAX_RUN_ATTEMPT_AGE_SECONDS then
       Err (conflict ''attempt lease and maximum runtime have not expired'')
     else finish_lost_or_requeue (attempt, job, steps) r now_unix))"

definition abandon :: "execution \<Rightarrow> run \<Rightarrow> string \<Rightarrow> u64 \<Rightarrow> (domain_error, execution) result" where
  "abandon = (\<lambda>(attempt, job, steps) r token_hash now_unix.
     and_then (authenticate attempt job token_hash now_unix) (\<lambda>_.
     if attempt_terminal (at_state attempt) then Ok (attempt, job, steps)
     else finish_lost_or_requeue (attempt, job, steps) r now_unix))"

definition confirm_provider_cancellation ::
  "execution \<Rightarrow> run \<Rightarrow> u64 \<Rightarrow> (domain_error, execution) result" where
  "confirm_provider_cancellation = (\<lambda>(attempt, job, steps) r now_unix.
     (if at_state attempt = AttemptCanceled \<and> rj_state job = JobCanceled \<and> rj_current_attempt_id job = None then
        Ok (attempt, job, steps)
      else and_then (ensure_current_attempt job attempt) (\<lambda>_.
      if attempt_terminal (at_state attempt) then Err (conflict ''attempt is terminal'')
      else if \<not> rn_cancellation_requested r then Err (conflict ''run cancellation was not requested'')
      else and_then (validate_execution attempt steps) (\<lambda>_.
        and_then (job_time_not_before_update job now_unix) (\<lambda>_.
        (case interrupt_steps steps StepCanceled now_unix of (steps', step_index) \<Rightarrow>
        (case finish_attempt attempt job AttemptCanceled JobCanceled (Some (ReasonCanceled step_index)) now_unix of
           (attempt', job') \<Rightarrow> Ok (attempt', job', steps'))))))))"

definition reject_capacity ::
  "execution \<Rightarrow> run \<Rightarrow> string \<Rightarrow> setup_failure_message \<Rightarrow> u64 \<Rightarrow> (domain_error, execution) result" where
  "reject_capacity = (\<lambda>(attempt, job, steps) r token_hash message now_unix.
     (if attempt_terminal (at_state attempt) then
        (if at_token_hash attempt = token_hash
            \<and> at_terminal_reason attempt = Some (ReasonProviderCapacityRejected message)
         then Ok (attempt, job, steps)
         else Err (conflict ''attempt already completed with a different conclusion''))
      else and_then (authenticate attempt job token_hash now_unix) (\<lambda>_.
      if at_state attempt \<noteq> AttemptDispatching \<or> rj_state job \<noteq> JobDispatching \<or> at_started_at_unix attempt \<noteq> None
         \<or> rn_cancellation_requested r then
        Err (conflict ''capacity rejection requires an active uncanceled dispatch'')
      else and_then (validate_execution attempt steps) (\<lambda>_.
        and_then (attempt_time_not_before_heartbeat attempt now_unix) (\<lambda>_.
        and_then (job_time_not_before_update job now_unix) (\<lambda>_.
        and_then (record_capacity_rejection job now_unix) (\<lambda>job'.
          Ok (attempt\<lparr>at_state := AttemptFailed, at_terminal_reason := Some (ReasonProviderCapacityRejected message),
                at_completed_at_unix := Some now_unix\<rparr>,
              job', skip_pending_steps steps now_unix))))))))"

end
