(* ===== verification/Run_Reconcile.thy ===== *)
theory Run_Reconcile
  imports Run_Model
begin

text \<open>
  A run over its jobs (\<^verbatim>\<open>runs/job.rs\<close>): unblocking jobs whose needs are met, cancelling, retrying, and the state of
  the run derived from the states of its jobs.
\<close>

section \<open>Operations\<close>

definition stored_job_indexes :: "run_job list \<Rightarrow> (workflow_job_id, nat) btree_map" where
  "stored_job_indexes jobs = bt_collect (map (\<lambda>(index, job). (rj_key job, index)) (enumerate 0 jobs))"

definition dependency_facts ::
  "run_job list \<Rightarrow> (workflow_job_id, nat) btree_map \<Rightarrow> workflow_job \<Rightarrow> (run_job_state \<times> u64) list option" where
  "dependency_facts jobs job_indexes spec =
     those (map (\<lambda>dependency. map_option (\<lambda>i. (rj_state (jobs ! i), rj_updated_at_unix (jobs ! i)))
       (bt_get job_indexes dependency)) (wj_needs spec))"

definition next_blocked_state :: "(run_job_state \<times> u64) list \<Rightarrow> run_job_state option" where
  "next_blocked_state facts =
     (if list_ex (\<lambda>(state, _). job_terminal state \<and> state \<noteq> JobSucceeded) facts then Some JobSkipped
      else if list_all (\<lambda>(state, _). state = JobSucceeded) facts then Some JobQueued
      else None)"

definition unblock :: "run_job \<Rightarrow> (run_job_state \<times> u64) list \<Rightarrow> u64 \<Rightarrow> run_job" where
  "unblock job facts now_unix =
     (case next_blocked_state facts of
        None \<Rightarrow> job
      | Some state \<Rightarrow>
          let transition_time = fold (\<lambda>(_, updated) latest. max latest updated) facts
                (max now_unix (rj_updated_at_unix job))
          in job\<lparr>rj_state := state, rj_updated_at_unix := transition_time,
                 rj_completed_at_unix := (if job_terminal state then Some transition_time else rj_completed_at_unix job)\<rparr>)"

definition reconcile_job ::
  "(workflow_job_id, nat) btree_map \<Rightarrow> u64 \<Rightarrow> run_job list \<Rightarrow> workflow_job \<Rightarrow> (domain_error, run_job list) result" where
  "reconcile_job job_indexes now_unix jobs spec =
     (case bt_get job_indexes (wj_id spec) of
        None \<Rightarrow> Err (invariant_violation ''persisted run job is missing from its workflow'')
      | Some index \<Rightarrow>
          if rj_state (jobs ! index) \<noteq> JobBlocked then Ok jobs
          else (case dependency_facts jobs job_indexes spec of
              None \<Rightarrow> Err (invariant_violation ''run job dependency is missing'')
            | Some facts \<Rightarrow> Ok (jobs[index := unblock (jobs ! index) facts now_unix])))"

fun reconcile_jobs ::
  "(workflow_job_id, nat) btree_map \<Rightarrow> u64 \<Rightarrow> run_job list \<Rightarrow> workflow_job list \<Rightarrow> (domain_error, run_job list) result" where
  "reconcile_jobs job_indexes now_unix jobs [] = Ok jobs"
| "reconcile_jobs job_indexes now_unix jobs (spec # specs) =
     and_then (reconcile_job job_indexes now_unix jobs spec) (\<lambda>jobs'. reconcile_jobs job_indexes now_unix jobs' specs)"

definition cancel_waiting_job :: "u64 \<Rightarrow> run_job \<Rightarrow> run_job" where
  "cancel_waiting_job cancellation_time job =
     (if rj_state job = JobBlocked \<or> rj_state job = JobQueued then
        let transition_time = max cancellation_time (rj_updated_at_unix job) in
        job\<lparr>rj_state := JobCanceled, rj_updated_at_unix := transition_time, rj_completed_at_unix := Some transition_time,
            rj_capacity_retry := clear_next_attempt (rj_capacity_retry job)\<rparr>
      else job)"

text \<open>The state of the run for given jobs; a run that has started stays running until all jobs have ended.\<close>

definition aggregate_state :: "run_state \<Rightarrow> run_job list \<Rightarrow> run_state" where
  "aggregate_state state jobs =
     (if list_all (\<lambda>job. job_terminal (rj_state job)) jobs then
        (if list_ex (\<lambda>job. rj_state job = JobCanceled) jobs then RunCanceled
         else if list_ex (\<lambda>job. rj_state job = JobFailed) jobs then RunFailed
         else if list_ex (\<lambda>job. rj_state job = JobLost) jobs then RunLost
         else RunSucceeded)
      else if state = RunRunning \<or> list_ex (\<lambda>job. rj_state job = JobRunning) jobs then RunRunning
      else if list_ex (\<lambda>job. rj_state job = JobDispatching) jobs then RunDispatching
      else RunQueued)"

definition latest_job_update :: "run_job list \<Rightarrow> u64 \<Rightarrow> u64" where
  "latest_job_update jobs initial = fold (\<lambda>job latest. max latest (rj_updated_at_unix job)) jobs initial"

definition derive_run_state :: "run \<Rightarrow> run_job list \<Rightarrow> u64 \<Rightarrow> (domain_error, run \<times> run_job list) result" where
  "derive_run_state r jobs now_unix =
     (if jobs = [] \<or> list_ex (\<lambda>job. rj_run_id job \<noteq> rn_id r) jobs then
        Err (invariant_violation ''run jobs do not form one non-empty run'')
      else let cancellation_requested =
                 (rn_cancellation_requested r \<or> list_ex (\<lambda>job. rj_state job = JobCanceled) jobs);
               cancellation_time = latest_job_update (filter (\<lambda>job. rj_state job = JobCanceled) jobs) now_unix;
               jobs' = (if cancellation_requested then map (cancel_waiting_job cancellation_time) jobs else jobs);
               cancellation_took_effect = list_ex (\<lambda>job. rj_state job = JobCanceled) jobs';
               all_terminal = list_all (\<lambda>job. job_terminal (rj_state job)) jobs';
               next_state = aggregate_state (rn_state r) jobs';
               aggregate_time = latest_job_update jobs' (max now_unix (rn_updated_at_unix r))
        in Ok (r\<lparr>rn_state := next_state,
                 rn_cancellation_requested :=
                   (cancellation_requested \<and> \<not> (all_terminal \<and> \<not> cancellation_took_effect)),
                 rn_updated_at_unix := aggregate_time,
                 rn_completed_at_unix := (if run_terminal next_state then Some aggregate_time else None)\<rparr>, jobs'))"

definition jobs_match_workflow :: "run_job list \<Rightarrow> compiled_workflow \<Rightarrow> bool" where
  "jobs_match_workflow jobs workflow \<longleftrightarrow>
     length (stored_job_indexes jobs) = length (cw_jobs workflow)
     \<and> list_all (\<lambda>spec. bt_get (stored_job_indexes jobs) (wj_id spec) \<noteq> None) (cw_jobs workflow)"

definition reconcile_run ::
  "run \<Rightarrow> run_job list \<Rightarrow> workflow_revision \<Rightarrow> u64 \<Rightarrow> (domain_error, run \<times> run_job list) result" where
  "reconcile_run r jobs rv now_unix =
     and_then (validate_workflow_revision r rv) (\<lambda>_.
     if \<not> jobs_match_workflow jobs (wr_definition rv) then
       Err (invariant_violation ''persisted run jobs do not match their workflow'')
     else and_then (reconcile_jobs (stored_job_indexes jobs) now_unix jobs (serial_jobs (wr_definition rv))) (\<lambda>jobs'.
       derive_run_state r jobs' now_unix))"

definition request_run_cancellation ::
  "run \<Rightarrow> run_job list \<Rightarrow> u64 \<Rightarrow> (domain_error, run \<times> run_job list \<times> bool) result" where
  "request_run_cancellation r jobs now_unix =
     and_then (request_cancellation r (max now_unix (rn_updated_at_unix r))) (\<lambda>(r', requested).
     if \<not> requested then Ok (r', jobs, False)
     else and_then (derive_run_state r' jobs now_unix) (\<lambda>(r'', jobs'). Ok (r'', jobs', True)))"

definition ensure_retry_time :: "run \<Rightarrow> run_job list \<Rightarrow> u64 \<Rightarrow> (domain_error, unit) result" where
  "ensure_retry_time r jobs now_unix =
     (if now_unix < rn_updated_at_unix r \<or> list_ex (\<lambda>job. now_unix < rj_updated_at_unix job) jobs then
        Err (invalid_input ''run aggregate transition time cannot move backward'') else Ok ())"

definition can_retry_run :: "run \<Rightarrow> run_job list \<Rightarrow> bool" where
  "can_retry_run r jobs \<longleftrightarrow>
     run_terminal (rn_state r) \<and> jobs \<noteq> []
     \<and> list_all (\<lambda>job. rj_run_id job = rn_id r \<and> rj_last_attempt_number job < MAX_RUN_ATTEMPTS) jobs"

definition retry_job ::
  "compiled_workflow \<Rightarrow> u64 \<Rightarrow> run_job \<Rightarrow> (domain_error, run_job) result" where
  "retry_job workflow now_unix job =
     (case CompiledWorkflow_job workflow (rj_key job) of
        None \<Rightarrow> Err (invariant_violation ''persisted run job is missing from its workflow'')
      | Some spec \<Rightarrow>
          Ok (job\<lparr>rj_state := (if wj_needs spec = [] then JobQueued else JobBlocked), rj_current_attempt_id := None,
                  rj_updated_at_unix := now_unix, rj_completed_at_unix := None, rj_capacity_retry := None\<rparr>))"

definition retry_run ::
  "run \<Rightarrow> run_job list \<Rightarrow> workflow_revision \<Rightarrow> u64 \<Rightarrow> (domain_error, run \<times> run_job list) result" where
  "retry_run r jobs rv now_unix =
     and_then (validate_workflow_revision r rv) (\<lambda>_.
     and_then (ensure_retry_time r jobs now_unix) (\<lambda>_.
     if bt_set (map wj_id (cw_jobs (wr_definition rv))) \<noteq> bt_set (map rj_key jobs)
        \<or> list_ex (\<lambda>job. rj_run_id job \<noteq> rn_id r) jobs then
       Err (invariant_violation ''persisted run jobs do not match their workflow'')
     else if \<not> can_retry_run r jobs then Err (conflict ''run cannot be retried'')
     else and_then (collect_results (retry_job (wr_definition rv) now_unix) jobs) (\<lambda>jobs'.
       Ok (r\<lparr>rn_state := RunQueued, rn_cancellation_requested := False, rn_updated_at_unix := now_unix,
             rn_completed_at_unix := None\<rparr>, jobs'))))"

end
