(* ===== verification/Job_Machine.thy ===== *)
theory Job_Machine
  imports Run_Operations Run_Reconcile Lifecycles
begin

text \<open>
  The life of a run job. Every operation on an attempt, on the capacity retry or on the whole run changes a job by
  one of a few moves; each move keeps the facts of the job consistent, follows the state graph and uses up part of
  a budget that the attempt limit bounds.
\<close>

section \<open>Moves\<close>

definition finished_job :: "run_job \<Rightarrow> run_job_state \<Rightarrow> u64 \<Rightarrow> run_job" where
  "finished_job job state now_unix =
     job\<lparr>rj_state := state, rj_current_attempt_id := None, rj_updated_at_unix := now_unix,
         rj_completed_at_unix := Some now_unix\<rparr>"

inductive job_move :: "run_job \<Rightarrow> run_job \<Rightarrow> bool" where
  dispatched: "dispatch job r spec attempt_id token_hash runtime_version now lease = Ok (job', attempt, steps)
    \<Longrightarrow> job_move job job'"
| started: "rj_state job = JobDispatching \<Longrightarrow> rj_updated_at_unix job \<le> now
    \<Longrightarrow> job_move job (job\<lparr>rj_state := JobRunning, rj_updated_at_unix := now\<rparr>)"
| touched: "rj_state job = JobRunning \<Longrightarrow> rj_updated_at_unix job \<le> now
    \<Longrightarrow> job_move job (job\<lparr>rj_updated_at_unix := now\<rparr>)"
| finished: "rj_state job \<in> {JobDispatching, JobRunning} \<Longrightarrow> rj_updated_at_unix job \<le> now
    \<Longrightarrow> state \<in> {JobSucceeded, JobFailed, JobCanceled, JobLost} \<Longrightarrow> job_move job (finished_job job state now)"
| requeued: "rj_state job = JobDispatching \<Longrightarrow> rj_updated_at_unix job \<le> now
    \<Longrightarrow> job_move job (job\<lparr>rj_state := JobQueued, rj_current_attempt_id := None, rj_updated_at_unix := now\<rparr>)"
| rejected: "rj_state job = JobDispatching \<Longrightarrow> record_capacity_rejection job now = Ok job' \<Longrightarrow> job_move job job'"
| retry_expired: "expire_capacity_retry job now = Ok (job', changed) \<Longrightarrow> job_move job job'"
| unblocked: "rj_state job = JobBlocked \<Longrightarrow> job_move job (unblock job facts now)"
| canceled: "job_move job (cancel_waiting_job time job)"
| unchanged: "job_move job job"

text \<open>The facts of a job with what the retry counter adds: only a job that has ended has used all its retries.\<close>

definition job_ok :: "run_job \<Rightarrow> bool" where
  "job_ok job \<longleftrightarrow>
     job_validate_facts job = Ok ()
     \<and> (\<not> job_terminal (rj_state job) \<longrightarrow>
          (case rj_capacity_retry job of None \<Rightarrow> True | Some retry \<Rightarrow> cr_rejections retry \<le> MAX_CAPACITY_RETRIES))
     \<and> (rj_state job = JobBlocked \<longrightarrow> rj_capacity_retry job = None)"

lemma job_validate_facts_Ok:
  "job_validate_facts job = Ok () \<longleftrightarrow>
     (rj_current_attempt_id job \<noteq> None \<longleftrightarrow> rj_state job = JobDispatching \<or> rj_state job = JobRunning)
     \<and> (rj_completed_at_unix job \<noteq> None \<longleftrightarrow> job_terminal (rj_state job))
     \<and> rj_last_attempt_number job \<le> MAX_RUN_ATTEMPTS
     \<and> (case rj_capacity_retry job of None \<Rightarrow> True | Some retry \<Rightarrow> \<not> capacity_retry_inconsistent job retry)
     \<and> rj_created_at_unix job \<le> rj_updated_at_unix job
     \<and> (case rj_completed_at_unix job of None \<Rightarrow> True | Some t \<Rightarrow> t = rj_updated_at_unix job)"
  by (auto simp: job_validate_facts_def not_less split: option.splits)

definition job_budget :: "run_job \<Rightarrow> nat" where
  "job_budget job =
     (let left = 2 * (unat MAX_RUN_ATTEMPTS - unat (rj_last_attempt_number job)) in
      case rj_state job of
        JobBlocked \<Rightarrow> left + 2
      | JobQueued \<Rightarrow> left + 1
      | JobDispatching \<Rightarrow> left + 2
      | JobRunning \<Rightarrow> 1
      | _ \<Rightarrow> 0)"

fun job_edge :: "run_job_state \<Rightarrow> run_job_state \<Rightarrow> bool" where
  "job_edge JobBlocked s \<longleftrightarrow> s \<in> {JobQueued, JobSkipped, JobCanceled}"
| "job_edge JobQueued s \<longleftrightarrow> s \<in> {JobDispatching, JobFailed, JobCanceled}"
| "job_edge JobDispatching s \<longleftrightarrow> s \<in> {JobRunning, JobQueued, JobSucceeded, JobFailed, JobCanceled, JobLost}"
| "job_edge JobRunning s \<longleftrightarrow> s \<in> {JobSucceeded, JobFailed, JobCanceled, JobLost}"
| "job_edge _ _ \<longleftrightarrow> False"

definition move_ok :: "run_job \<Rightarrow> run_job \<Rightarrow> bool" where
  "move_ok job job' \<longleftrightarrow>
     job_ok job' \<and> (rj_state job' = rj_state job \<or> job_edge (rj_state job) (rj_state job'))
     \<and> job_budget job' \<le> job_budget job \<and> (rj_state job' \<noteq> rj_state job \<longrightarrow> job_budget job' < job_budget job)
     \<and> rj_updated_at_unix job \<le> rj_updated_at_unix job'"

lemma move_ok_refl: "job_ok job \<Longrightarrow> move_ok job job"
  by (simp add: move_ok_def)

lemma job_okD:
  assumes "job_ok job"
  shows "rj_created_at_unix job \<le> rj_updated_at_unix job" and "rj_last_attempt_number job \<le> MAX_RUN_ATTEMPTS"
    and "\<not> job_terminal (rj_state job) \<Longrightarrow> rj_completed_at_unix job = None"
    and "rj_state job \<notin> {JobDispatching, JobRunning} \<Longrightarrow> rj_current_attempt_id job = None"
  using assms by (auto simp: job_ok_def job_validate_facts_Ok)

text \<open>The retry facts of a job survive a later update time once no further attempt is scheduled.\<close>

lemma capacity_retry_kept:
  assumes "job_ok job" and "rj_updated_at_unix job \<le> now" and "rj_capacity_retry job = Some retry"
    and "rj_created_at_unix job' = rj_created_at_unix job" and "rj_updated_at_unix job' = now"
  shows "\<not> capacity_retry_inconsistent job' (retry\<lparr>cr_next_attempt_at_unix := None\<rparr>)"
  using assms by (auto simp: job_ok_def job_validate_facts_Ok capacity_retry_inconsistent_def split: option.splits)

lemma active_retry_unscheduled:
  assumes "job_ok job" and "rj_state job \<noteq> JobQueued" and "rj_capacity_retry job = Some retry"
  shows "cr_next_attempt_at_unix retry = None"
  using assms by (auto simp: job_ok_def job_validate_facts_Ok capacity_retry_inconsistent_def split: option.splits)

lemma job_ok_unscheduled:
  assumes "job_ok job" and "rj_state job \<noteq> JobQueued"
  shows "clear_next_attempt (rj_capacity_retry job) = rj_capacity_retry job"
  using active_retry_unscheduled [OF assms] by (cases "rj_capacity_retry job") (auto simp: clear_next_attempt_def)

text \<open>A job whose retry record is the old one with no attempt scheduled keeps consistent retry facts.\<close>

lemma job_ok_move:
  assumes "job_ok job" and "rj_updated_at_unix job \<le> rj_updated_at_unix job'"
    and "rj_created_at_unix job' = rj_created_at_unix job"
    and "rj_capacity_retry job' = clear_next_attempt (rj_capacity_retry job)"
    and "rj_current_attempt_id job' \<noteq> None \<longleftrightarrow> rj_state job' = JobDispatching \<or> rj_state job' = JobRunning"
    and "rj_completed_at_unix job' = (if job_terminal (rj_state job') then Some (rj_updated_at_unix job') else None)"
    and "rj_last_attempt_number job' \<le> MAX_RUN_ATTEMPTS"
    and "\<not> job_terminal (rj_state job') \<Longrightarrow> \<not> job_terminal (rj_state job)" and "rj_state job' \<noteq> JobBlocked"
  shows "job_ok job'"
proof -
  have "\<not> capacity_retry_inconsistent job' (retry\<lparr>cr_next_attempt_at_unix := None\<rparr>)"
    if "rj_capacity_retry job = Some retry" for retry
    using capacity_retry_kept [OF assms(1,2) that] assms(3) by simp
  then show ?thesis
    using assms job_okD(1) [OF assms(1)]
    by (auto simp: job_ok_def job_validate_facts_Ok clear_next_attempt_def split: option.splits)
qed

lemma dispatch_Ok:
  assumes "dispatch job r spec attempt_id token_hash runtime_version now lease = Ok (job', attempt, steps)"
  obtains number where "rj_state job = JobQueued" and "\<not> rn_cancellation_requested r"
    and "rj_updated_at_unix job \<le> now" and "checked_add (rj_last_attempt_number job) 1 = Some number"
    and "number \<le> MAX_RUN_ATTEMPTS"
    and "job' = job\<lparr>rj_state := JobDispatching, rj_last_attempt_number := number,
           rj_current_attempt_id := Some attempt_id, rj_updated_at_unix := now,
           rj_capacity_retry := clear_next_attempt (rj_capacity_retry job)\<rparr>"
    and "now < lease"
    and "attempt = \<lparr>at_id = attempt_id, at_run_id = rn_id r, at_job_key = rj_key job, at_number = number,
           at_external_run_id = None, at_runtime_version = runtime_version, at_token_hash = token_hash,
           at_state = AttemptDispatching, at_lease_expires_at_unix = lease,
           at_last_heartbeat_at_unix = now, at_created_at_unix = now, at_started_at_unix = None,
           at_completed_at_unix = None, at_terminal_reason = None, at_log_bytes = 0,
           at_first_truncated_step_index = None\<rparr>"
    and "collect_results (pending_step_at attempt_id) [0..<length (wj_steps spec)] = Ok steps"
  using assms
  by (auto simp: dispatch_def and_then_Ok_iff job_time_not_before_update_def required_def Let_def
      split: if_split_asm option.split_asm)

section \<open>Every move keeps the facts, follows the graph and uses the budget\<close>

lemma job_edge_budget:
  assumes "job_edge (rj_state job) (rj_state job')" and "rj_last_attempt_number job' = rj_last_attempt_number job"
    and "rj_state job' \<noteq> JobDispatching"
  shows "job_budget job' < job_budget job"
  using assms by (cases "rj_state job"; cases "rj_state job'") (auto simp: job_budget_def Let_def)

lemma move_okI:
  assumes "job_ok job'" and "job_edge (rj_state job) (rj_state job')" and "rj_state job' \<noteq> JobDispatching"
    and "rj_last_attempt_number job' = rj_last_attempt_number job" and "rj_updated_at_unix job \<le> rj_updated_at_unix job'"
  shows "move_ok job job'"
  using job_edge_budget [OF assms(2,4,3)] assms by (simp add: move_ok_def)

lemma dispatched_ok:
  assumes ok: "job_ok job"
    and d: "dispatch job r spec attempt_id token_hash runtime_version now lease = Ok (job', attempt, steps)"
  shows "move_ok job job'"
proof -
  obtain number where f: "rj_state job = JobQueued" "rj_updated_at_unix job \<le> now"
    "checked_add (rj_last_attempt_number job) 1 = Some number" "number \<le> MAX_RUN_ATTEMPTS"
    "job' = job\<lparr>rj_state := JobDispatching, rj_last_attempt_number := number,
           rj_current_attempt_id := Some attempt_id, rj_updated_at_unix := now,
           rj_capacity_retry := clear_next_attempt (rj_capacity_retry job)\<rparr>"
    using d by (elim dispatch_Ok)
  have "job_ok job'"
    by (rule job_ok_move [OF ok])
      (use f job_okD(3) [OF ok] in \<open>auto simp: job_terminal_def\<close>)
  moreover have "unat number = Suc (unat (rj_last_attempt_number job))"
    using f(3) by (simp add: checked_add_Some_iff)
  moreover have "unat number \<le> unat MAX_RUN_ATTEMPTS" using f(4) by (simp add: word_le_nat_alt)
  ultimately have "job_budget job' < job_budget job" using f by (simp add: job_budget_def)
  with \<open>job_ok job'\<close> show ?thesis using f by (simp add: move_ok_def)
qed

lemma started_ok:
  assumes "job_ok job" and "rj_state job = JobDispatching" and "rj_updated_at_unix job \<le> now"
  shows "move_ok job (job\<lparr>rj_state := JobRunning, rj_updated_at_unix := now\<rparr>)"
  using assms job_ok_unscheduled [of job] job_okD [OF assms(1)]
  by (intro move_okI job_ok_move [OF assms(1)])
    (auto simp: job_terminal_def job_ok_def job_validate_facts_Ok)

lemma touched_ok:
  assumes "job_ok job" and "rj_state job = JobRunning" and "rj_updated_at_unix job \<le> now"
  shows "move_ok job (job\<lparr>rj_updated_at_unix := now\<rparr>)"
proof -
  have "job_ok (job\<lparr>rj_updated_at_unix := now\<rparr>)"
    using assms job_ok_unscheduled [of job] job_okD [OF assms(1)]
    by (intro job_ok_move [OF assms(1)]) (auto simp: job_terminal_def job_ok_def job_validate_facts_Ok)
  with assms show ?thesis by (simp add: move_ok_def job_budget_def)
qed

lemma finished_ok:
  assumes "job_ok job" and "rj_state job \<in> {JobDispatching, JobRunning}" and "rj_updated_at_unix job \<le> now"
    and "state \<in> {JobSucceeded, JobFailed, JobCanceled, JobLost}"
  shows "move_ok job (finished_job job state now)"
  using assms job_ok_unscheduled [of job] job_okD [OF assms(1)]
  by (intro move_okI job_ok_move [OF assms(1)]) (auto simp: job_terminal_def finished_job_def)

lemma requeued_ok:
  assumes "job_ok job" and "rj_state job = JobDispatching" and "rj_updated_at_unix job \<le> now"
  shows "move_ok job (job\<lparr>rj_state := JobQueued, rj_current_attempt_id := None, rj_updated_at_unix := now\<rparr>)"
  using assms job_ok_unscheduled [of job] job_okD [OF assms(1)]
  by (intro move_okI job_ok_move [OF assms(1)]) (auto simp: job_terminal_def)

lemma retry_expired_ok:
  assumes ok: "job_ok job" and e: "expire_capacity_retry job now = Ok (job', changed)"
  shows "move_ok job job'"
proof (cases changed)
  case False
  then have "job' = job" using e by (auto simp: expire_capacity_retry_def and_then_Ok_iff split: option.splits if_splits)
  then show ?thesis using ok by (simp add: move_ok_refl)
next
  case True
  then obtain retry where f: "rj_capacity_retry job = Some retry" "rj_state job = JobQueued"
    "rj_updated_at_unix job \<le> now"
    "job' = job\<lparr>rj_capacity_retry := Some (retry\<lparr>cr_next_attempt_at_unix := None\<rparr>), rj_state := JobFailed,
                    rj_updated_at_unix := now, rj_completed_at_unix := Some now\<rparr>"
    using e by (auto simp: expire_capacity_retry_def and_then_Ok_iff job_time_not_before_update_def
        split: option.splits if_splits)
  then show ?thesis using job_okD [OF ok]
    by (intro move_okI job_ok_move [OF ok]) (auto simp: job_terminal_def clear_next_attempt_def)
qed

lemma canceled_ok:
  assumes ok: "job_ok job"
  shows "move_ok job (cancel_waiting_job time job)"
proof (cases "rj_state job = JobBlocked \<or> rj_state job = JobQueued")
  case True
  then have "cancel_waiting_job time job =
     job\<lparr>rj_state := JobCanceled, rj_updated_at_unix := max time (rj_updated_at_unix job),
         rj_completed_at_unix := Some (max time (rj_updated_at_unix job)),
         rj_capacity_retry := clear_next_attempt (rj_capacity_retry job)\<rparr>"
    by (simp add: cancel_waiting_job_def Let_def)
  then show ?thesis using True job_okD [OF ok]
    by (intro move_okI job_ok_move [OF ok]) (auto simp: job_terminal_def)
qed (simp add: cancel_waiting_job_def move_ok_refl ok)

lemma fold_max_le: "(a :: u64) \<le> fold (\<lambda>(_, updated) latest. max latest updated) facts a"
proof (induction facts arbitrary: a)
  case (Cons f facts)
  then show ?case by (cases f) (simp, meson max.cobounded1 order_trans)
qed simp

lemma unblocked_ok:
  assumes ok: "job_ok job" and b: "rj_state job = JobBlocked"
  shows "move_ok job (unblock job facts now)"
proof (cases "next_blocked_state facts")
  case None
  then show ?thesis using ok by (simp add: unblock_def move_ok_refl)
next
  case (Some state)
  define time where "time = fold (\<lambda>(_, updated) latest. max latest updated) facts (max now (rj_updated_at_unix job))"
  have le: "rj_updated_at_unix job \<le> time"
    using fold_max_le [of "max now (rj_updated_at_unix job)" facts] by (simp add: time_def)
  have u: "unblock job facts now = job\<lparr>rj_state := state, rj_updated_at_unix := time,
      rj_completed_at_unix := (if job_terminal state then Some time else rj_completed_at_unix job)\<rparr>"
    using Some by (simp add: unblock_def time_def Let_def)
  have st: "state \<in> {JobSkipped, JobQueued}" using Some by (auto simp: next_blocked_state_def split: if_splits)
  show ?thesis using job_okD [OF ok] job_ok_unscheduled [of job] ok b st le
    by (intro move_okI job_ok_move [OF ok]) (auto simp: job_terminal_def u)
qed

text \<open>
  A rejection schedules the next attempt strictly after the first rejection and strictly inside the retry window, also
  where the sums saturate.
\<close>

lemma retry_delay_pos: "0 < unat (retry_delay rejections)"
proof -
  have "unat (min (rejections - 1) 2) \<le> 2" by (simp add: min_def word_le_nat_alt)
  then have "unat (min (rejections - 1) 2) \<in> {0, 1, 2}" by auto
  then show ?thesis by (auto simp: retry_delay_def)
qed

lemma scheduled_after_first:
  assumes "first \<le> now" and "saturating_add now (retry_delay rejections) < deadline"
  shows "first < saturating_add now (retry_delay rejections)"
proof -
  have "saturating_add now (retry_delay rejections) \<noteq> - 1"
    using assms(2) by (metis word_order.extremum_strict)
  then have "unat (saturating_add now (retry_delay rejections)) = unat now + unat (retry_delay rejections)"
    by (cases "checked_add now (retry_delay rejections)")
      (simp_all add: saturating_add_def checked_add_Some_iff [THEN iffD1])
  then show ?thesis using assms(1) retry_delay_pos [of rejections] by (simp add: word_le_nat_alt word_less_nat_alt)
qed

lemma rejected_ok:
  assumes ok: "job_ok job" and d: "rj_state job = JobDispatching" and e: "record_capacity_rejection job now = Ok job'"
  shows "move_ok job job'"
proof -
  define first where "first = (case rj_capacity_retry job of None \<Rightarrow> now | Some c \<Rightarrow> cr_first_rejected_at_unix c)"
  define rejections where "rejections = (case rj_capacity_retry job of None \<Rightarrow> 1 | Some c \<Rightarrow> cr_rejections c + 1)"
  define next_at where "next_at = saturating_add now (retry_delay rejections)"
  define again where "again \<longleftrightarrow> rejections \<le> MAX_CAPACITY_RETRIES \<and> rj_last_attempt_number job < MAX_RUN_ATTEMPTS
    \<and> next_at < saturating_add first CAPACITY_RETRY_WINDOW_SECONDS"
  have le: "rj_updated_at_unix job \<le> now"
    and job': "job' = job\<lparr>rj_capacity_retry := Some \<lparr>cr_first_rejected_at_unix = first, cr_rejections = rejections,
                     cr_next_attempt_at_unix = (if again then Some next_at else None)\<rparr>,
                  rj_state := (if again then JobQueued else JobFailed),
                  rj_current_attempt_id := None, rj_updated_at_unix := now,
                  rj_completed_at_unix := (if again then None else Some now)\<rparr>"
    using e by (auto simp: record_capacity_rejection_def and_then_Ok_iff job_time_not_before_update_def Let_def
        first_def rejections_def next_at_def again_def split: if_split_asm)
  have first: "rj_created_at_unix job \<le> first" "first \<le> now"
    using ok le by (auto simp: first_def job_ok_def job_validate_facts_Ok capacity_retry_inconsistent_def
        split: option.splits)
  have small: "0 < rejections" "rejections \<le> MAX_CAPACITY_RETRIES + 1"
    using ok d by (auto simp: rejections_def job_ok_def job_validate_facts_Ok capacity_retry_inconsistent_def
        job_terminal_def MAX_CAPACITY_RETRIES_def word_le_nat_alt word_less_nat_alt unat_word_ariths
        split: option.splits)
  have "first < next_at" if again
    using that scheduled_after_first [OF first(2)] unfolding again_def next_at_def by blast
  then have "\<not> capacity_retry_inconsistent job' \<lparr>cr_first_rejected_at_unix = first, cr_rejections = rejections,
      cr_next_attempt_at_unix = (if again then Some next_at else None)\<rparr>"
    using first small by (auto simp: capacity_retry_inconsistent_def job' again_def not_le not_less)
  then have "job_ok job'"
    using job_okD [OF ok] first le
    by (auto simp: job_ok_def job_validate_facts_Ok job' job_terminal_def again_def)
  then show ?thesis using d le by (intro move_okI) (auto simp: job')
qed

lemmas job_moves_ok = dispatched_ok started_ok touched_ok finished_ok requeued_ok rejected_ok retry_expired_ok
  unblocked_ok canceled_ok move_ok_refl

lemma job_move_ok: "job_move job job' \<Longrightarrow> job_ok job \<Longrightarrow> move_ok job job'"
  by (induction rule: job_move.induct) (simp_all add: job_moves_ok)

end
