(* ===== verification/Execution_Steps.thy ===== *)
theory Execution_Steps
  imports Run_Operations
begin

text \<open>
  The steps of an attempt as a sequence: \<open>validate_execution\<close> accepts a list of steps exactly when every step is
  consistent by itself and nothing has been started behind a step that has not succeeded. Starting, completing,
  failing and interrupting steps keep that shape.
\<close>

section \<open>What the check of the steps accepts\<close>

definition idle :: "run_attempt_step \<Rightarrow> bool" where
  "idle s \<longleftrightarrow> st_state s = StepPending \<or> st_state s = StepSkipped"

definition step_ok :: "string \<Rightarrow> nat \<Rightarrow> run_attempt_step \<Rightarrow> bool" where
  "step_ok attempt_id index s \<longleftrightarrow>
     st_attempt_id s = attempt_id \<and> st_step_index s = of_nat index \<and> step_validate_facts s = Ok ()"

definition in_order :: "run_attempt_step list \<Rightarrow> bool" where
  "in_order steps \<longleftrightarrow> sorted_wrt (\<lambda>s t. st_state s \<noteq> StepSucceeded \<longrightarrow> idle t) steps"

lemma check_steps_Ok:
  "check_steps attempt_id index stopped steps = Ok () \<longleftrightarrow>
     (\<forall>i < length steps. step_ok attempt_id (index + i) (steps ! i)) \<and> (stopped \<longrightarrow> list_all idle steps) \<and> in_order steps"
proof (induction attempt_id index stopped steps rule: check_steps.induct)
  case (2 attempt_id index stopped s steps)
  have all: "(\<forall>i < length (s # steps). step_ok attempt_id (index + i) ((s # steps) ! i)) \<longleftrightarrow>
      step_ok attempt_id index s \<and> (\<forall>i < length steps. step_ok attempt_id (Suc index + i) (steps ! i))"
    by (auto simp: less_Suc_eq_0_disj)
  show ?case
    unfolding all
    by (cases "step_ok attempt_id index s")
      (use 2 in \<open>auto simp: step_ok_def in_order_def idle_def list_all_iff and_then_Ok_iff\<close>)
qed (simp add: in_order_def)

lemma in_order_running:
  "in_order steps \<Longrightarrow> length (filter (\<lambda>s. st_state s = StepRunning) steps) \<le> 1"
proof (induction steps)
  case (Cons s steps)
  show ?case
  proof (cases "st_state s = StepRunning")
    case True
    then have "filter (\<lambda>s. st_state s = StepRunning) steps = []"
      using Cons.prems by (auto simp: in_order_def idle_def filter_empty_conv)
    then show ?thesis by simp
  qed (use Cons in \<open>auto simp: in_order_def\<close>)
qed simp

definition steps_ok :: "string \<Rightarrow> run_attempt_step list \<Rightarrow> bool" where
  "steps_ok attempt_id steps \<longleftrightarrow>
     steps \<noteq> [] \<and> (\<forall>i < length steps. step_ok attempt_id i (steps ! i)) \<and> in_order steps"

lemma validate_execution_Ok:
  "validate_execution attempt steps = Ok () \<longleftrightarrow> steps_ok (at_id attempt) steps \<and> aggregate_matches attempt steps"
  using in_order_running [of steps]
  by (auto simp: validate_execution_def and_then_Ok_iff check_steps_Ok steps_ok_def not_less)

section \<open>Steps before and behind the one that runs\<close>

lemma in_order_split:
  assumes "in_order steps" and "i < length steps" and "\<not> idle (steps ! i)"
  shows "list_all (\<lambda>s. st_state s = StepSucceeded) (take i steps)"
proof -
  have "st_state (steps ! j) = StepSucceeded" if "j < i" for j
    using assms that by (auto simp: in_order_def sorted_wrt_iff_nth_less)
  then show ?thesis using assms(2) by (auto simp: list_all_length)
qed

lemma in_order_behind:
  assumes "in_order steps" and "i < length steps" and "st_state (steps ! i) \<noteq> StepSucceeded"
  shows "list_all idle (drop (Suc i) steps)"
proof -
  have "idle (steps ! Suc (i + n))" if "n < length steps - Suc i" for n
    using sorted_wrt_nth_less [OF assms(1) [unfolded in_order_def], of i "Suc (i + n)"] assms(2,3) that by simp
  then show ?thesis by (simp add: list_all_length)
qed

lemma in_order_update:
  assumes "list_all (\<lambda>s. st_state s = StepSucceeded) (take i steps)" and "list_all idle (drop (Suc i) steps)"
    and "i < length steps"
  shows "in_order (steps[i := s])"
proof -
  have "in_order (drop (Suc i) steps)"
    using assms(2) by (auto simp: in_order_def sorted_wrt_iff_nth_less list_all_length)
  moreover have "in_order (take i steps)"
    using assms(1) by (auto simp: in_order_def sorted_wrt_iff_nth_less list_all_length)
  ultimately show ?thesis
    using assms by (auto simp: upd_conv_take_nth_drop in_order_def sorted_wrt_append list_all_iff)
qed

lemma steps_ok_update:
  assumes "steps_ok a steps" and "i < length steps" and "step_ok a i s"
    and "list_all (\<lambda>s. st_state s = StepSucceeded) (take i steps)" and "list_all idle (drop (Suc i) steps)"
  shows "steps_ok a (steps[i := s])"
  using assms in_order_update [of i steps s] by (auto simp: steps_ok_def nth_list_update)

lemma skip_pending_nth:
  "i < length steps \<Longrightarrow> skip_pending_steps steps now ! i =
     (if st_state (steps ! i) = StepPending then step_stop StepSkipped now (steps ! i) else steps ! i)"
  by (simp add: skip_pending_steps_def)

lemma length_skip_pending [simp]: "length (skip_pending_steps steps now) = length steps"
  by (simp add: skip_pending_steps_def)

lemma step_skip_ok:
  "step_ok a i s \<Longrightarrow> st_state s = StepPending \<Longrightarrow> step_ok a i (step_stop StepSkipped now s)"
  by (auto simp: step_ok_def step_validate_facts_def step_stop_def step_terminal_def split: if_split_asm)

lemma steps_ok_skip_pending:
  assumes "steps_ok a steps"
  shows "steps_ok a (skip_pending_steps steps now)"
proof -
  have "idle (skip_pending_steps steps now ! j)"
    if "i < j" "j < length steps" "st_state (skip_pending_steps steps now ! i) \<noteq> StepSucceeded" for i j
  proof -
    have "st_state (steps ! i) \<noteq> StepSucceeded" using that by (auto simp: skip_pending_nth)
    then have "idle (steps ! j)" using assms that by (auto simp: steps_ok_def in_order_def sorted_wrt_iff_nth_less)
    then show ?thesis using that by (auto simp: skip_pending_nth idle_def step_stop_def)
  qed
  then have "in_order (skip_pending_steps steps now)" by (simp add: in_order_def sorted_wrt_iff_nth_less)
  moreover have "step_ok a i (skip_pending_steps steps now ! i)" if "i < length steps" for i
    using assms that by (auto simp: steps_ok_def skip_pending_nth step_skip_ok)
  ultimately show ?thesis using assms by (auto simp: steps_ok_def simp flip: length_greater_0_conv)
qed

lemma skip_pending_succeeded:
  "list_all (\<lambda>s. st_state s = StepSucceeded) steps \<Longrightarrow> skip_pending_steps steps now = steps"
  by (induction steps) (auto simp: skip_pending_steps_def)

lemma position_Some:
  "position P xs = Some i \<Longrightarrow> i < length xs \<and> P (xs ! i)"
  by (induction xs arbitrary: i) (auto split: if_split_asm)

lemma position_None: "position P xs = None \<longleftrightarrow> list_all (\<lambda>x. \<not> P x) xs"
  by (induction xs) auto

section \<open>The operations on steps\<close>

lemma step_started_ok:
  "step_ok a i s \<Longrightarrow> st_state s = StepPending \<Longrightarrow> step_ok a i (step_start now s)"
  by (auto simp: step_ok_def step_validate_facts_def step_start_def step_terminal_def split: if_split_asm)

lemma step_ended_ok:
  assumes "step_ok a i s" and "st_state s = StepRunning" and "\<And>t. st_started_at_unix s = Some t \<Longrightarrow> t \<le> now"
  shows "step_ok a i (step_succeed now s)"
    and "code \<noteq> 0 \<Longrightarrow> step_ok a i (step_fail code now s)"
    and "state \<in> {StepCanceled, StepLost} \<Longrightarrow> step_ok a i (step_stop state now s)"
  using assms by (auto simp: step_ok_def step_validate_facts_def step_succeed_def step_fail_def step_stop_def
      step_terminal_def split: if_split_asm option.split_asm)

lemma running_step_split:
  assumes "steps_ok a steps" and "i < length steps" and "st_state (steps ! i) = StepRunning"
  shows "step_ok a i (steps ! i)" and "list_all (\<lambda>s. st_state s = StepSucceeded) (take i steps)"
    and "list_all idle (drop (Suc i) steps)"
  using assms in_order_split [of steps i] in_order_behind [of steps i] by (auto simp: steps_ok_def idle_def)


text \<open>
  Stopping the step that runs and skipping the pending ones leaves the stopped step as the last one executed, which
  is what the check of a finished attempt looks for.
\<close>

abbreviation unfinished :: "run_attempt_step list \<Rightarrow> bool" where
  "unfinished steps \<equiv> list_all (\<lambda>s. st_state s \<in> {StepSucceeded, StepRunning, StepPending}) steps"

lemma behind_skipped:
  assumes "steps_ok a steps" and "unfinished steps" and "i < length steps" and "st_state (steps ! i) = StepRunning"
  shows "list_all (\<lambda>t. st_state t = StepSkipped) (drop (Suc i) (skip_pending_steps (steps[i := s]) now))"
proof -
  have "st_state (steps ! Suc (i + n)) = StepPending" if "n < length steps - Suc i" for n
  proof -
    have "Suc (i + n) < length steps" using that by simp
    then have "idle (steps ! Suc (i + n))" and "st_state (steps ! Suc (i + n)) \<noteq> StepSkipped"
      using running_step_split(3) [OF assms(1,3,4)] that assms(2) by (auto simp: list_all_length)
    then show ?thesis by (simp add: idle_def)
  qed
  then show ?thesis by (auto simp: list_all_length skip_pending_nth step_stop_def)
qed

lemma stopped_step_matches:
  assumes "steps_ok a steps" and "unfinished steps" and "i < length steps" and "st_state (steps ! i) = StepRunning"
    and "length steps \<le> 2 ^ 32" and "st_state s = state" and "state \<noteq> StepPending"
    and "exit_code = None \<or> exit_code = st_exit_code s"
  shows "terminal_step_matches (skip_pending_steps (steps[i := s]) now) (of_nat i) state exit_code"
proof -
  have "unat (of_nat i :: u32) = i" using assms(3,5) by (simp add: unat_of_nat)
  then show ?thesis
    using assms behind_skipped [OF assms(1-4), of s now]
    by (auto simp: terminal_step_matches_def get_step_def skip_pending_nth split: option.splits)
qed

lemma interrupt_steps_ok:
  assumes ok: "steps_ok a steps" "unfinished steps" "length steps \<le> 2 ^ 32"
    and started: "\<And>s t. s \<in> set steps \<Longrightarrow> st_state s = StepRunning \<Longrightarrow> st_started_at_unix s = Some t \<Longrightarrow> t \<le> now"
    and state: "state \<in> {StepCanceled, StepLost}" and i: "interrupt_steps steps state now = (steps', index)"
  shows "steps_ok a steps'" and "interrupted_step_matches steps' index state" and "length steps' = length steps"
proof -
  consider (idle) "position (\<lambda>s. st_state s = StepRunning) steps = None" "steps' = skip_pending_steps steps now" "index = None"
    | (active) k where "position (\<lambda>s. st_state s = StepRunning) steps = Some k"
        "steps' = skip_pending_steps (steps[k := step_stop state now (steps ! k)]) now" "index = Some (of_nat k)"
    using i by (cases "position (\<lambda>s. st_state s = StepRunning) steps") (auto simp: interrupt_steps_def)
  then have "steps_ok a steps' \<and> interrupted_step_matches steps' index state \<and> length steps' = length steps"
  proof cases
    case idle
    have "list_all (\<lambda>s. st_state s = StepSucceeded \<or> st_state s = StepSkipped) steps'"
      using ok(2) idle(1) by (auto simp: idle(2) position_None list_all_length skip_pending_nth step_stop_def)
    with idle ok show ?thesis by (simp add: steps_ok_skip_pending interrupted_step_matches_def)
  next
    case active
    then have k: "k < length steps" "st_state (steps ! k) = StepRunning" using position_Some by fastforce+
    have "step_ok a k (step_stop state now (steps ! k))"
      by (rule step_ended_ok(3)) (use running_step_split [OF ok(1) k] k started [of "steps ! k"] state in auto)
    then have "steps_ok a (steps[k := step_stop state now (steps ! k)])"
      using running_step_split [OF ok(1) k] k by (intro steps_ok_update [OF ok(1)]) auto
    moreover have "interrupted_step_matches steps' index state"
      using stopped_step_matches [OF ok(1,2) k ok(3), of "step_stop state now (steps ! k)" state None now] state active
      by (auto simp: interrupted_step_matches_def step_stop_def)
    ultimately show ?thesis using active by (simp add: steps_ok_skip_pending)
  qed
  then show "steps_ok a steps'" and "interrupted_step_matches steps' index state" and "length steps' = length steps"
    by auto
qed

lemma failed_steps:
  assumes "steps_ok a steps" and "i < length steps" and "st_state (steps ! i) = StepRunning"
  shows "take i steps @ step_fail code now (steps ! i) # skip_pending_steps (drop (i + 1) steps) now
    = skip_pending_steps (steps[i := step_fail code now (steps ! i)]) now"
proof -
  have "skip_pending_steps (take i steps) now = take i steps"
    by (rule skip_pending_succeeded) (rule running_step_split(2) [OF assms])
  then show ?thesis
    using assms(2) by (simp add: upd_conv_take_nth_drop skip_pending_steps_def step_fail_def)
qed

end
