(* ===== verification/Execution_Machine.thy ===== *)
theory Execution_Machine
  imports Job_Machine Execution_Steps
begin

text \<open>
  A job together with its latest attempt and the steps of that attempt, under every operation of the dispatcher, the
  runtime and the run. The invariant is what restoring the three records from storage demands, with the agreement
  between them that the operations rely on.
\<close>

type_synonym job_life = "run_job \<times> (run_attempt \<times> run_attempt_step list) option"

section \<open>Operations\<close>

text \<open>
  An operation that does not itself compare its time with the last heartbeat carries the comparison here; the
  lemma \<open>skewed_abandon\<close> below shows what happens without it.
\<close>

inductive job_step :: "job_life \<Rightarrow> job_life \<Rightarrow> bool" where
  dispatched: "dispatch job r spec attempt_id token_hash version now lease = Ok (job', attempt, steps) \<Longrightarrow> wj_steps spec \<noteq> []
    \<Longrightarrow> job_step (job, current) (job', Some (attempt, steps))"
| attempt_started: "attempt_start attempt r job token_hash now = Ok (attempt', job')
    \<Longrightarrow> job_step (job, Some (attempt, steps)) (job', Some (attempt', steps))"
| runtime_claimed: "claim_runtime attempt job bootstrap token_hash now lease = Ok attempt'
    \<Longrightarrow> at_last_heartbeat_at_unix attempt \<le> now
    \<Longrightarrow> job_step (job, Some (attempt, steps)) (job, Some (attempt', steps))"
| heartbeat_received: "heartbeat attempt r job token_hash now lease = Ok (attempt', cancel)
    \<Longrightarrow> job_step (job, Some (attempt, steps)) (job, Some (attempt', steps))"
| log_accepted: "accept_log_chunk attempt steps chunk = Ok (attempt', stored)
    \<Longrightarrow> job_step (job, Some (attempt, steps)) (job, Some (attempt', steps))"
| step_started: "start_step (attempt, job, steps) r token_hash step_index now = Ok (attempt', job', steps')
    \<Longrightarrow> job_step (job, Some (attempt, steps)) (job', Some (attempt', steps'))"
| step_completed:
    "complete_step (attempt, job, steps) token_hash step_index conclusion truncated now = Ok (attempt', job', steps')
    \<Longrightarrow> job_step (job, Some (attempt, steps)) (job', Some (attempt', steps'))"
| attempt_completed:
    "complete (attempt, job, steps) r token_hash result truncated now = Ok (attempt', job', steps')
    \<Longrightarrow> job_step (job, Some (attempt, steps)) (job', Some (attempt', steps'))"
| attempt_expired: "expire (attempt, job, steps) r now = Ok (attempt', job', steps')
    \<Longrightarrow> at_last_heartbeat_at_unix attempt \<le> now
    \<Longrightarrow> job_step (job, Some (attempt, steps)) (job', Some (attempt', steps'))"
| attempt_abandoned: "abandon (attempt, job, steps) r token_hash now = Ok (attempt', job', steps')
    \<Longrightarrow> at_last_heartbeat_at_unix attempt \<le> now
    \<Longrightarrow> job_step (job, Some (attempt, steps)) (job', Some (attempt', steps'))"
| cancellation_confirmed: "confirm_provider_cancellation (attempt, job, steps) r now = Ok (attempt', job', steps')
    \<Longrightarrow> at_last_heartbeat_at_unix attempt \<le> now
    \<Longrightarrow> job_step (job, Some (attempt, steps)) (job', Some (attempt', steps'))"
| capacity_rejected: "reject_capacity (attempt, job, steps) r token_hash message now = Ok (attempt', job', steps')
    \<Longrightarrow> job_step (job, Some (attempt, steps)) (job', Some (attempt', steps'))"
| retry_window_closed: "expire_capacity_retry job now = Ok (job', closed) \<Longrightarrow> job_step (job, current) (job', current)"
| job_reconciled: "reconcile_job indexes now jobs spec = Ok jobs' \<Longrightarrow> i < length jobs
    \<Longrightarrow> job_step (jobs ! i, current) (jobs' ! i, current)"
| run_derived: "derive_run_state r jobs now = Ok (r', jobs') \<Longrightarrow> i < length jobs
    \<Longrightarrow> job_step (jobs ! i, current) (jobs' ! i, current)"

section \<open>The invariant\<close>

abbreviation active_job :: "run_job \<Rightarrow> bool" where
  "active_job job \<equiv> rj_state job = JobDispatching \<or> rj_state job = JobRunning"

definition started_by :: "run_attempt \<Rightarrow> run_attempt_step list \<Rightarrow> u64 \<Rightarrow> bool" where
  "started_by attempt steps time \<longleftrightarrow>
     (case at_started_at_unix attempt of None \<Rightarrow> True | Some t \<Rightarrow> t \<le> time)
     \<and> list_all (\<lambda>s. case st_started_at_unix s of None \<Rightarrow> True | Some t \<Rightarrow> t \<le> time) steps"

definition attempt_ok :: "run_job \<Rightarrow> run_attempt \<Rightarrow> run_attempt_step list \<Rightarrow> bool" where
  "attempt_ok job attempt steps \<longleftrightarrow>
     attempt_validate_facts attempt = Ok () \<and> validate_execution attempt steps = Ok () \<and> length steps \<le> 2 ^ 32
     \<and> (if attempt_terminal (at_state attempt) then \<not> active_job job
        else ensure_current_attempt job attempt = Ok () \<and> states_align (rj_state job) (at_state attempt)
          \<and> (at_state attempt = AttemptDispatching \<longrightarrow> at_started_at_unix attempt = None)
          \<and> started_by attempt steps (rj_updated_at_unix job))"

fun life_ok :: "job_life \<Rightarrow> bool" where
  "life_ok (job, None) \<longleftrightarrow> job_ok job \<and> \<not> active_job job"
| "life_ok (job, Some (attempt, steps)) \<longleftrightarrow> job_ok job \<and> attempt_ok job attempt steps"

lemma attempt_validate_facts_Ok:
  "attempt_validate_facts attempt = Ok () \<longleftrightarrow>
     at_number attempt \<noteq> 0 \<and> at_log_bytes attempt \<le> MAX_RUN_LOG_BYTES_PER_ATTEMPT
     \<and> (at_state attempt \<in> {AttemptRunning, AttemptSucceeded} \<longrightarrow> at_started_at_unix attempt \<noteq> None)
     \<and> (at_completed_at_unix attempt \<noteq> None \<longleftrightarrow> attempt_terminal (at_state attempt))
     \<and> \<not> attempt_times_inconsistent attempt
     \<and> (at_terminal_reason attempt \<noteq> None \<longleftrightarrow> at_state attempt \<in> {AttemptFailed, AttemptCanceled, AttemptLost})"
  by (cases "at_state attempt") (auto simp: attempt_validate_facts_def not_less)

lemma ensure_current_Ok:
  "ensure_current_attempt job attempt = Ok () \<longleftrightarrow>
     at_run_id attempt = rj_run_id job \<and> at_job_key attempt = rj_key job
     \<and> at_number attempt = rj_last_attempt_number job \<and> rj_current_attempt_id job = Some (at_id attempt)"
  by (auto simp: ensure_current_attempt_def ensure_latest_attempt_def and_then_Ok_iff)

lemma authenticate_Ok:
  "authenticate attempt job token_hash now = Ok () \<longleftrightarrow>
     ensure_current_attempt job attempt = Ok () \<and> states_align (rj_state job) (at_state attempt)
     \<and> at_token_hash attempt = token_hash \<and> now < at_lease_expires_at_unix attempt"
  by (auto simp: authenticate_def authenticate_identity_def ensure_job_alignment_def ensure_lease_active_def
      ensure_current_attempt_def and_then_Ok_iff split: if_splits)

lemma unfinished_steps:
  assumes "aggregate_matches attempt steps" and "\<not> attempt_terminal (at_state attempt)"
  shows "unfinished steps"
  using assms by (cases "at_state attempt"; cases "at_terminal_reason attempt")
    (auto simp: aggregate_matches_def attempt_terminal_def list_all_iff)

lemma aggregate_matches_cong:
  assumes "at_state attempt' = at_state attempt" and "at_terminal_reason attempt' = at_terminal_reason attempt"
    and "at_started_at_unix attempt' = at_started_at_unix attempt" and "at_number attempt' = at_number attempt"
  shows "aggregate_matches attempt' steps = aggregate_matches attempt steps"
  unfolding aggregate_matches_def assms ..

lemma attempt_ok_truncated [simp]:
  "attempt_ok job (attempt\<lparr>at_first_truncated_step_index := i\<rparr>) steps \<longleftrightarrow> attempt_ok job attempt steps"
proof -
  let ?a = "attempt\<lparr>at_first_truncated_step_index := i\<rparr>"
  have "aggregate_matches ?a steps = aggregate_matches attempt steps" by (rule aggregate_matches_cong) simp_all
  moreover have "attempt_times_inconsistent ?a = attempt_times_inconsistent attempt"
    unfolding attempt_times_inconsistent_def by (auto split: option.splits)
  ultimately show ?thesis
    by (simp add: attempt_ok_def attempt_validate_facts_Ok validate_execution_Ok ensure_current_Ok started_by_def)
qed

section \<open>Attempts that go on\<close>

lemma attempt_okD:
  assumes "attempt_ok job attempt steps" and "\<not> attempt_terminal (at_state attempt)"
  shows "steps_ok (at_id attempt) steps" and "unfinished steps" and "length steps \<le> 2 ^ 32"
    and "ensure_current_attempt job attempt = Ok ()" and "states_align (rj_state job) (at_state attempt)"
    and "started_by attempt steps (rj_updated_at_unix job)" and "active_job job"
  using assms unfinished_steps [of attempt steps]
  by (auto simp: attempt_ok_def validate_execution_Ok states_align_def attempt_terminal_def)

lemma collect_results_Ok:
  "collect_results f xs = Ok ys \<longleftrightarrow> length ys = length xs \<and> (\<forall>i < length xs. f (xs ! i) = Ok (ys ! i))"
proof (induction xs arbitrary: ys)
  case (Cons x xs)
  show ?case
    by (cases ys) (auto simp: and_then_Ok_iff Cons.IH less_Suc_eq_0_disj)
qed auto

lemma pending_steps:
  assumes "collect_results (pending_step_at attempt_id) [0..<n] = Ok steps"
  shows "length steps = n" and "n \<le> 2 ^ 32"
    and "\<And>i. i < n \<Longrightarrow> steps ! i = \<lparr>st_attempt_id = attempt_id, st_step_index = of_nat i, st_state = StepPending,
           st_started_at_unix = None, st_completed_at_unix = None, st_exit_code = None\<rparr>"
proof -
  have s: "length steps = n" "\<And>i. i < n \<Longrightarrow> pending_step_at attempt_id i = Ok (steps ! i)"
    using assms by (auto simp: collect_results_Ok)
  show "n \<le> 2 ^ 32"
  proof (rule ccontr)
    assume "\<not> n \<le> 2 ^ 32"
    then have "pending_step_at attempt_id (2 ^ 32) = Ok (steps ! (2 ^ 32))" using s(2) by simp
    then show False by (simp add: pending_step_at_def)
  qed
  show "length steps = n" by (fact s(1))
  show "steps ! i = \<lparr>st_attempt_id = attempt_id, st_step_index = of_nat i, st_state = StepPending,
           st_started_at_unix = None, st_completed_at_unix = None, st_exit_code = None\<rparr>" if "i < n" for i
    using s(2) [OF that] by (auto simp: pending_step_at_def step_pending_def split: if_split_asm)
qed

lemma dispatch_attempt_ok:
  assumes d: "dispatch job r spec attempt_id token_hash version now lease = Ok (job', attempt, steps)"
    and "wj_steps spec \<noteq> []"
  shows "attempt_ok job' attempt steps"
proof -
  obtain number where f: "checked_add (rj_last_attempt_number job) 1 = Some number" "now < lease"
    "job' = job\<lparr>rj_state := JobDispatching, rj_last_attempt_number := number, rj_current_attempt_id := Some attempt_id,
       rj_updated_at_unix := now, rj_capacity_retry := clear_next_attempt (rj_capacity_retry job)\<rparr>"
    "attempt = \<lparr>at_id = attempt_id, at_run_id = rn_id r, at_job_key = rj_key job, at_number = number,
           at_external_run_id = None, at_runtime_version = version, at_token_hash = token_hash,
           at_state = AttemptDispatching, at_lease_expires_at_unix = lease,
           at_last_heartbeat_at_unix = now, at_created_at_unix = now, at_started_at_unix = None,
           at_completed_at_unix = None, at_terminal_reason = None, at_log_bytes = 0,
           at_first_truncated_step_index = None\<rparr>"
    "collect_results (pending_step_at attempt_id) [0..<length (wj_steps spec)] = Ok steps"
    using d by (elim dispatch_Ok)
  have "rj_run_id job = rn_id r" using d by (auto simp: dispatch_def split: if_split_asm)
  have "number \<noteq> 0" using f(1) by (auto simp: checked_add_Some_iff)
  note p = pending_steps [OF f(5)]
  have len: "0 < length steps" using p(1) assms(2) by simp
  have "st_state s = StepPending \<and> st_started_at_unix s = None" if "s \<in> set steps" for s
    using that p by (auto simp: in_set_conv_nth)
  then have pend: "list_all (\<lambda>s. st_state s = StepPending \<and> st_started_at_unix s = None) steps"
    by (simp add: list_all_iff)
  have "step_ok attempt_id i (steps ! i)" if "i < length steps" for i
    using that p by (simp add: step_ok_def step_validate_facts_def step_terminal_def)
  moreover have "in_order steps"
    using pend by (auto simp: in_order_def idle_def sorted_wrt_iff_nth_less list_all_length)
  ultimately have "steps_ok attempt_id steps" using len by (simp add: steps_ok_def)
  moreover have "aggregate_matches attempt steps" using pend by (simp add: aggregate_matches_def f(4) list_all_iff)
  moreover have "attempt_validate_facts attempt = Ok ()"
    using \<open>number \<noteq> 0\<close> f(2) by (simp add: attempt_validate_facts_Ok f(4) attempt_terminal_def attempt_times_inconsistent_def)
  ultimately show ?thesis
    using p(1,2) pend \<open>rj_run_id job = rn_id r\<close>
    by (simp add: attempt_ok_def validate_execution_Ok f(3,4) attempt_terminal_def ensure_current_Ok states_align_def
        started_by_def list_all_iff)
qed

lemma started_by_mono: "started_by attempt steps t \<Longrightarrow> t \<le> t' \<Longrightarrow> started_by attempt steps t'"
  by (force simp: started_by_def list_all_iff split: option.splits)

lemma attempt_start_Ok:
  assumes "attempt_start attempt r job token_hash now = Ok (attempt', job')"
  shows "at_state attempt = AttemptDispatching" and "rj_state job = JobDispatching" and "\<not> rn_cancellation_requested r"
    and "authenticate attempt job token_hash now = Ok ()"
    and "at_last_heartbeat_at_unix attempt \<le> now" and "rj_updated_at_unix job \<le> now"
    and "attempt' = attempt\<lparr>at_state := AttemptRunning, at_started_at_unix := Some now\<rparr>"
    and "job' = job\<lparr>rj_state := JobRunning, rj_updated_at_unix := now\<rparr>"
  using assms by (auto simp: attempt_start_def and_then_Ok_iff attempt_time_not_before_heartbeat_def
      job_time_not_before_update_def split: if_split_asm)

lemma attempt_start_ok:
  assumes ok: "attempt_ok job attempt steps" and s: "attempt_start attempt r job token_hash now = Ok (attempt', job')"
  shows "attempt_ok job' attempt' steps"
proof -
  note f = attempt_start_Ok [OF s]
  have facts: "attempt_validate_facts attempt = Ok ()" and agg: "aggregate_matches attempt steps"
    using ok by (auto simp: attempt_ok_def validate_execution_Ok)
  have "\<not> attempt_times_inconsistent attempt'"
    using facts f(4,5) by (auto simp: attempt_validate_facts_Ok attempt_times_inconsistent_def f(1,7) authenticate_Ok
        attempt_terminal_def)
  then have "attempt_validate_facts attempt' = Ok ()"
    using facts by (auto simp: attempt_validate_facts_Ok f(1,7) attempt_terminal_def)
  moreover have "aggregate_matches attempt' steps"
    using agg by (cases "at_terminal_reason attempt") (auto simp: aggregate_matches_def f(1,7) list_all_iff)
  moreover have "started_by attempt' steps now"
    using started_by_mono [OF _ f(6)] ok by (auto simp: attempt_ok_def f(1,7) attempt_terminal_def started_by_def)
  ultimately show ?thesis
    using ok f by (simp add: attempt_ok_def validate_execution_Ok attempt_terminal_def ensure_current_Ok states_align_def)
qed

text \<open>Updates of an active attempt that leave its states, its start and its identity alone.\<close>

lemma attempt_ok_refreshed:
  assumes ok: "attempt_ok job attempt steps" and act: "\<not> attempt_terminal (at_state attempt)"
    and "at_created_at_unix attempt \<le> beat" and "beat < lease" and "logged \<le> MAX_RUN_LOG_BYTES_PER_ATTEMPT"
    and lease: "at_state attempt = AttemptDispatching \<or> at_lease_expires_at_unix attempt \<le> lease"
  shows "attempt_ok job (attempt\<lparr>at_token_hash := tok, at_last_heartbeat_at_unix := beat,
    at_lease_expires_at_unix := lease, at_log_bytes := logged\<rparr>) steps"
proof -
  let ?a = "attempt\<lparr>at_token_hash := tok, at_last_heartbeat_at_unix := beat,
    at_lease_expires_at_unix := lease, at_log_bytes := logged\<rparr>"
  have agg: "aggregate_matches ?a steps = aggregate_matches attempt steps" by (rule aggregate_matches_cong) simp_all
  have facts: "attempt_validate_facts attempt = Ok ()" using ok by (simp add: attempt_ok_def)
  have none: "at_state attempt = AttemptDispatching \<Longrightarrow> at_started_at_unix attempt = None"
    using ok by (auto simp: attempt_ok_def attempt_terminal_def)
  have "\<not> attempt_times_inconsistent ?a"
    using facts act assms(3,4) lease none
    by (auto simp: attempt_validate_facts_Ok attempt_times_inconsistent_def split: option.splits)
  then have "attempt_validate_facts ?a = Ok ()" using facts assms(5) by (simp add: attempt_validate_facts_Ok)
  then show ?thesis using ok agg act
    by (simp add: attempt_ok_def validate_execution_Ok ensure_current_Ok started_by_def)
qed

lemma attempt_beat:
  assumes "attempt_ok job attempt steps" and "at_last_heartbeat_at_unix attempt \<le> now"
  shows "at_created_at_unix attempt \<le> now" and "at_log_bytes attempt \<le> MAX_RUN_LOG_BYTES_PER_ATTEMPT"
  using assms by (auto simp: attempt_ok_def attempt_validate_facts_Ok attempt_times_inconsistent_def)

lemma claim_runtime_ok:
  assumes ok: "attempt_ok job attempt steps" and beat: "at_last_heartbeat_at_unix attempt \<le> now"
    and c: "claim_runtime attempt job bootstrap token_hash now lease = Ok attempt'"
  shows "attempt_ok job attempt' steps"
proof -
  have f: "at_state attempt = AttemptDispatching" "now < lease" "attempt' = attempt\<lparr>at_token_hash := token_hash,
      at_last_heartbeat_at_unix := now, at_lease_expires_at_unix := lease\<rparr>"
    using c by (auto simp: claim_runtime_def and_then_Ok_iff split: if_split_asm)
  show ?thesis
    using attempt_ok_refreshed [OF ok _ attempt_beat(1) [OF ok beat] f(2) attempt_beat(2) [OF ok beat], of token_hash] f(1)
    by (simp add: f(3) attempt_terminal_def)
qed

lemma heartbeat_ok:
  assumes ok: "attempt_ok job attempt steps" and h: "heartbeat attempt r job token_hash now lease = Ok (attempt', cancel)"
  shows "attempt_ok job attempt' steps"
proof -
  have f: "\<not> attempt_terminal (at_state attempt)" "now < lease" "at_last_heartbeat_at_unix attempt \<le> now"
    "at_lease_expires_at_unix attempt \<le> lease"
    "attempt' = attempt\<lparr>at_last_heartbeat_at_unix := now, at_lease_expires_at_unix := lease\<rparr>"
    using h by (auto simp: heartbeat_def and_then_Ok_iff attempt_time_not_before_heartbeat_def split: if_split_asm)
  show ?thesis
    using attempt_ok_refreshed [OF ok f(1) attempt_beat(1) [OF ok f(3)] f(2) attempt_beat(2) [OF ok f(3)],
        of "at_token_hash attempt"] f(4)
    by (simp add: f(5))
qed

lemma accept_log_chunk_ok:
  assumes ok: "attempt_ok job attempt steps" and a: "accept_log_chunk attempt steps chunk = Ok (attempt', stored)"
  shows "attempt_ok job attempt' steps"
proof -
  have act: "\<not> attempt_terminal (at_state attempt)" using a by (auto simp: accept_log_chunk_def split: if_split_asm)
  consider "attempt' = attempt" | i where "attempt' = attempt\<lparr>at_first_truncated_step_index := i\<rparr>"
    | n where "n \<le> MAX_RUN_LOG_BYTES_PER_ATTEMPT" "attempt' = attempt\<lparr>at_log_bytes := n\<rparr>"
  proof (cases "at_first_truncated_step_index attempt")
    case None
    moreover obtain n where "checked_add (at_log_bytes attempt) (of_nat (length (lc_text chunk))) = Some n"
      using a None by (cases "checked_add (at_log_bytes attempt) (of_nat (length (lc_text chunk)))")
        (simp_all add: accept_log_chunk_def and_then_Ok_iff split: if_split_asm)
    ultimately have "attempt' = (if n > MAX_RUN_LOG_BYTES_PER_ATTEMPT
        then attempt\<lparr>at_first_truncated_step_index := Some (lc_step_index chunk)\<rparr> else attempt\<lparr>at_log_bytes := n\<rparr>)"
      using a by (auto simp: accept_log_chunk_def and_then_Ok_iff split: if_split_asm)
    then show ?thesis
      by (cases "n > MAX_RUN_LOG_BYTES_PER_ATTEMPT") (simp_all add: that(2) that(3) [of n] not_less)
  next
    case (Some i)
    then have "attempt' = attempt" using a by (auto simp: accept_log_chunk_def and_then_Ok_iff split: if_split_asm)
    then show ?thesis by (rule that(1))
  qed
  then show ?thesis
  proof cases
    case 3
    have "at_last_heartbeat_at_unix attempt < at_lease_expires_at_unix attempt"
      using ok by (auto simp: attempt_ok_def attempt_validate_facts_Ok attempt_times_inconsistent_def)
    then show ?thesis
      using attempt_ok_refreshed [OF ok act attempt_beat(1) [OF ok order_refl] _ 3(1), of "at_lease_expires_at_unix attempt"
          "at_token_hash attempt"]
      by (simp add: 3(2))
  qed (use ok in simp_all)
qed

lemma get_step_Some: "get_step steps i = Some s \<longleftrightarrow> i < length steps \<and> s = steps ! i"
  by (auto simp: get_step_def)

lemma list_all_update: "list_all P xs \<Longrightarrow> P x \<Longrightarrow> list_all P (xs[i := x])"
  by (auto simp: list_all_iff dest!: set_update_subset_insert [THEN subsetD])

text \<open>Replacing one step of a running attempt by a step that runs or has succeeded, at a later time of the job.\<close>

lemma attempt_ok_step:
  assumes ok: "attempt_ok job attempt steps" and r: "at_state attempt = AttemptRunning"
    and i: "i < length steps" and s: "step_ok (at_id attempt) i s" "st_state s \<in> {StepSucceeded, StepRunning}"
      "\<And>t. st_started_at_unix s = Some t \<Longrightarrow> t \<le> now"
    and around: "list_all (\<lambda>s. st_state s = StepSucceeded) (take i steps)" "list_all idle (drop (Suc i) steps)"
    and le: "rj_updated_at_unix job \<le> now"
  shows "attempt_ok (job\<lparr>rj_updated_at_unix := now\<rparr>) attempt (steps[i := s])"
proof -
  have act: "\<not> attempt_terminal (at_state attempt)" by (simp add: r attempt_terminal_def)
  note d = attempt_okD [OF ok act]
  have "steps_ok (at_id attempt) (steps[i := s])" by (rule steps_ok_update [OF d(1) i s(1) around])
  moreover have "at_terminal_reason attempt = None"
    using ok r by (auto simp: attempt_ok_def attempt_validate_facts_Ok)
  then have "aggregate_matches attempt (steps[i := s])"
    using d(2) s(2) by (auto simp: aggregate_matches_def r intro!: list_all_update)
  moreover have "started_by attempt (steps[i := s]) now"
    using started_by_mono [OF d(6) le] s(3) by (auto simp: started_by_def intro!: list_all_update split: option.splits)
  ultimately show ?thesis
    using ok act by (simp add: attempt_ok_def validate_execution_Ok ensure_current_Ok r)
qed

lemma attempt_ok_step_started:
  assumes "attempt_ok job attempt steps" and "\<not> attempt_terminal (at_state attempt)" and "i < length steps"
    and "rj_updated_at_unix job \<le> now" and "st_started_at_unix (steps ! i) = Some t"
  shows "t \<le> now"
proof -
  have "started_by attempt steps now" using attempt_okD(6) [OF assms(1,2)] started_by_mono assms(4) by blast
  then show ?thesis using assms(3,5) by (auto simp: started_by_def list_all_length)
qed

lemma start_step_Ok:
  assumes "start_step (attempt, job, steps) r token_hash step_index now = Ok (attempt', job', steps')"
  obtains job1 where "(if at_state attempt = AttemptDispatching \<and> step_index = 0
      then attempt_start attempt r job token_hash now
      else and_then (authenticate attempt job token_hash now) (\<lambda>_. Ok (attempt, job))) = Ok (attempt', job1)"
    and "at_state attempt' = AttemptRunning" and "rj_state job1 = JobRunning" and "unat step_index < length steps"
    and "job' = job1 \<and> steps' = steps \<and> st_state (steps ! unat step_index) = StepRunning \<or>
      st_state (steps ! unat step_index) = StepPending
      \<and> list_all (\<lambda>s. st_state s = StepSucceeded) (take (unat step_index) steps)
      \<and> rj_updated_at_unix job1 \<le> now \<and> job' = job1\<lparr>rj_updated_at_unix := now\<rparr>
      \<and> steps' = steps[unat step_index := step_start now (steps ! unat step_index)]"
  using assms by (auto simp: start_step_def and_then_Ok_iff Let_def get_step_Some job_time_not_before_update_def
      list_all_iff list_ex_iff not_less split: if_split_asm option.split_asm)

lemma start_step_ok:
  assumes ok: "attempt_ok job attempt steps"
    and s: "start_step (attempt, job, steps) r token_hash step_index now = Ok (attempt', job', steps')"
  shows "attempt_ok job' attempt' steps'"
proof -
  let ?i = "unat step_index"
  obtain job1 where first: "(if at_state attempt = AttemptDispatching \<and> step_index = 0
      then attempt_start attempt r job token_hash now
      else and_then (authenticate attempt job token_hash now) (\<lambda>_. Ok (attempt, job))) = Ok (attempt', job1)"
    and run: "at_state attempt' = AttemptRunning" and i: "?i < length steps"
    and rest: "job' = job1 \<and> steps' = steps \<and> st_state (steps ! ?i) = StepRunning \<or>
      st_state (steps ! ?i) = StepPending \<and> list_all (\<lambda>s. st_state s = StepSucceeded) (take ?i steps)
      \<and> rj_updated_at_unix job1 \<le> now \<and> job' = job1\<lparr>rj_updated_at_unix := now\<rparr>
      \<and> steps' = steps[?i := step_start now (steps ! ?i)]"
    using s by (rule start_step_Ok)
  have ok1: "attempt_ok job1 attempt' steps"
    using first ok attempt_start_ok by (auto simp: and_then_Ok_iff split: if_split_asm)
  from rest show ?thesis
  proof
    assume f: "st_state (steps ! ?i) = StepPending \<and> list_all (\<lambda>s. st_state s = StepSucceeded) (take ?i steps)
      \<and> rj_updated_at_unix job1 \<le> now \<and> job' = job1\<lparr>rj_updated_at_unix := now\<rparr>
      \<and> steps' = steps[?i := step_start now (steps ! ?i)]"
    have "steps_ok (at_id attempt') steps" using ok1 by (simp add: attempt_ok_def validate_execution_Ok)
    then have "step_ok (at_id attempt') ?i (step_start now (steps ! ?i))" "list_all idle (drop (Suc ?i) steps)"
      using f i in_order_behind [of steps ?i] by (auto simp: steps_ok_def intro: step_started_ok)
    then show ?thesis using f i attempt_ok_step [OF ok1 run, of ?i "step_start now (steps ! ?i)" now]
      by (simp add: step_start_def)
  qed (use ok1 in simp)
qed

section \<open>Attempts that end\<close>

lemma attempt_ok_finished:
  assumes ok: "attempt_ok job attempt steps" and act: "\<not> attempt_terminal (at_state attempt)"
    and a': "attempt' = attempt\<lparr>at_state := state, at_terminal_reason := reason, at_completed_at_unix := Some now\<rparr>"
    and st: "attempt_terminal state" "reason \<noteq> None \<longleftrightarrow> state \<noteq> AttemptSucceeded"
      "state = AttemptSucceeded \<Longrightarrow> at_state attempt = AttemptRunning"
    and time: "at_last_heartbeat_at_unix attempt \<le> now" "rj_updated_at_unix job \<le> now"
    and steps': "steps_ok (at_id attempt) steps'" "length steps' = length steps" "aggregate_matches attempt' steps'"
    and job': "\<not> active_job job'"
  shows "attempt_ok job' attempt' steps'"
proof -
  have facts: "attempt_validate_facts attempt = Ok ()" using ok by (simp add: attempt_ok_def)
  have "started_by attempt steps now" using started_by_mono [OF attempt_okD(6) [OF ok act] time(2)] .
  then have "\<not> attempt_times_inconsistent attempt'"
    using facts act time(1)
    by (auto simp: attempt_validate_facts_Ok attempt_times_inconsistent_def a' started_by_def split: option.splits)
  then have "attempt_validate_facts attempt' = Ok ()"
    using facts st by (auto simp: attempt_validate_facts_Ok a' attempt_terminal_def)
  then show ?thesis
    using ok steps' job' st(1) by (simp add: attempt_ok_def validate_execution_Ok a')
qed

lemma attempt_interrupted:
  assumes ok: "attempt_ok job attempt steps" and act: "\<not> attempt_terminal (at_state attempt)"
    and le: "rj_updated_at_unix job \<le> now" and state: "state \<in> {StepCanceled, StepLost}"
    and i: "interrupt_steps steps state now = (steps', index)"
  shows "steps_ok (at_id attempt) steps'" and "interrupted_step_matches steps' index state" and "length steps' = length steps"
proof -
  have started: "t \<le> now" if "s \<in> set steps" "st_started_at_unix s = Some t" for s t
    using that attempt_ok_step_started [OF ok act _ le] by (auto simp: in_set_conv_nth)
  note r = interrupt_steps_ok [OF attempt_okD(1-3) [OF ok act] started state i]
  show "steps_ok (at_id attempt) steps'" by (rule r(1)) 
  show "interrupted_step_matches steps' index state" by (rule r(2)) 
  show "length steps' = length steps" by (rule r(3)) 
qed

lemma active_step_state:
  assumes "attempt_ok job attempt steps" and "\<not> attempt_terminal (at_state attempt)"
    and "at_state attempt = AttemptDispatching"
  shows "list_all (\<lambda>s. st_state s = StepPending) steps" and "at_terminal_reason attempt = None"
  using assms by (auto simp: attempt_ok_def validate_execution_Ok aggregate_matches_def attempt_validate_facts_Ok)

lemma skipped_steps:
  assumes "attempt_ok job attempt steps" and "at_state attempt = AttemptDispatching"
  shows "steps_ok (at_id attempt) (skip_pending_steps steps now)"
    and "list_all (\<lambda>s. st_state s = StepSkipped) (skip_pending_steps steps now)"
proof -
  have act: "\<not> attempt_terminal (at_state attempt)" using assms(2) by (simp add: attempt_terminal_def)
  show "steps_ok (at_id attempt) (skip_pending_steps steps now)"
    by (rule steps_ok_skip_pending [OF attempt_okD(1) [OF assms(1) act]])
  show "list_all (\<lambda>s. st_state s = StepSkipped) (skip_pending_steps steps now)"
    using active_step_state(1) [OF assms(1) act assms(2)]
    by (simp add: skip_pending_steps_def list_all_iff step_stop_def)
qed

lemma running_step_attempt:
  assumes "attempt_ok job attempt steps" and "\<not> attempt_terminal (at_state attempt)"
    and "i < length steps" and "st_state (steps ! i) = StepRunning"
  shows "at_state attempt = AttemptRunning"
  using assms active_step_state [of job attempt steps]
  by (cases "at_state attempt") (auto simp: attempt_terminal_def list_all_length)

lemma mark_truncated_Ok:
  assumes "(if truncated then mark_step_logs_truncated attempt steps i else Ok attempt) = Ok attempt'"
  shows "\<exists>x. attempt' = attempt\<lparr>at_first_truncated_step_index := x\<rparr>"
proof
  show "attempt' = attempt\<lparr>at_first_truncated_step_index := at_first_truncated_step_index attempt'\<rparr>"
    using assms by (auto simp: mark_step_logs_truncated_def and_then_Ok_iff split: option.split_asm if_split_asm)
qed

lemma conclude_step_ok:
  assumes ok: "attempt_ok job attempt steps" and i: "i < length steps" "st_state (steps ! i) = StepRunning"
    and idx: "step_index = of_nat i" and act: "\<not> attempt_terminal (at_state attempt)"
    and time: "at_last_heartbeat_at_unix attempt \<le> now" "rj_updated_at_unix job \<le> now"
    and c: "conclude_step (attempt, job, steps) i step_index conclusion now = Ok (attempt', job', steps')"
  shows "attempt_ok job' attempt' steps'" and "job_move job job'"
proof -
  note run = running_step_attempt [OF ok act i]
  note split = running_step_split [OF attempt_okD(1) [OF ok act] i]
  note started = attempt_ok_step_started [OF ok act i(1) time(2)]
  note ended = step_ended_ok [OF split(1) i(2) started]
  have jr: "rj_state job = JobRunning" using attempt_okD(5) [OF ok act] run by (auto simp: states_align_def)
  have "attempt_ok job' attempt' steps' \<and> job_move job job'"
  proof (cases conclusion)
    case StepConclusionSucceeded
    then have "attempt' = attempt" "job' = job\<lparr>rj_updated_at_unix := now\<rparr>"
      "steps' = steps[i := step_succeed now (steps ! i)]"
      using c by (auto simp: conclude_step_def)
    then show ?thesis
      using attempt_ok_step [OF ok run i(1) ended(1) _ _ split(2,3) time(2)] started jr time(2) job_move.touched
      by (simp add: step_succeed_def)
  next
    case (StepConclusionFailed code)
    then have code: "code \<noteq> 0"
      and r: "attempt' = attempt\<lparr>at_state := AttemptFailed, at_terminal_reason := Some (ReasonStepFailed step_index code),
          at_completed_at_unix := Some now\<rparr>"
        "job' = finished_job job JobFailed now"
        "steps' = skip_pending_steps (steps[i := step_fail code now (steps ! i)]) now"
      using c failed_steps [OF attempt_okD(1) [OF ok act] i]
      by (auto simp: conclude_step_def fail_step_def finished_job_def split: if_split_asm)
    have "steps_ok (at_id attempt) (steps[i := step_fail code now (steps ! i)])"
      by (rule steps_ok_update [OF attempt_okD(1) [OF ok act] i(1) ended(2) split(2,3)]) (simp_all add: code)
    moreover have "terminal_step_matches steps' step_index StepFailed (Some code)"
      unfolding r(3) idx
      by (rule stopped_step_matches [OF attempt_okD(1,2) [OF ok act] i attempt_okD(3) [OF ok act]])
        (simp_all add: step_fail_def)
    ultimately have "attempt_ok job' attempt' steps'"
      using time
      by (intro attempt_ok_finished [OF ok act r(1)])
        (simp_all add: r attempt_terminal_def aggregate_matches_def steps_ok_skip_pending finished_job_def)
    moreover have "job_move job job'" unfolding r(2) using jr time(2) by (intro job_move.finished) simp_all
    ultimately show ?thesis by simp
  qed
  then show "attempt_ok job' attempt' steps'" and "job_move job job'" by simp_all
qed

lemma complete_step_ok:
  assumes ok: "attempt_ok job attempt steps"
    and c: "complete_step (attempt, job, steps) token_hash step_index conclusion truncated now = Ok (attempt', job', steps')"
  shows "attempt_ok job' attempt' steps'" and "job_move job job'"
proof -
  let ?i = "unat step_index"
  consider (same) "attempt' = attempt" "job' = job" "steps' = steps"
    | (concluded) attempt1 where "\<not> attempt_terminal (at_state attempt)" "?i < length steps"
      "st_state (steps ! ?i) = StepRunning"
      "(if truncated then mark_step_logs_truncated attempt steps step_index else Ok attempt) = Ok attempt1"
      "at_last_heartbeat_at_unix attempt1 \<le> now" "rj_updated_at_unix job \<le> now"
      "conclude_step (attempt1, job, steps) ?i step_index conclusion now = Ok (attempt', job', steps')"
    using c by (auto simp: complete_step_def and_then_Ok_iff Let_def get_step_Some not_less
        attempt_time_not_before_heartbeat_def job_time_not_before_update_def split: if_split_asm option.split_asm)
  then have "attempt_ok job' attempt' steps' \<and> job_move job job'"
  proof cases
    case same
    then show ?thesis using ok job_move.unchanged by simp
  next
    case concluded
    obtain x where x: "attempt1 = attempt\<lparr>at_first_truncated_step_index := x\<rparr>"
      using mark_truncated_Ok [OF concluded(4)] by blast
    show ?thesis
      using conclude_step_ok [OF _ concluded(2,3) _ _ concluded(5,6,7)] ok concluded(1) by (simp add: x)
  qed
  then show "attempt_ok job' attempt' steps'" and "job_move job job'" by simp_all
qed

lemma interrupted_aggregate:
  assumes "interrupted_step_matches steps index state" and "at_state attempt = st" and "at_terminal_reason attempt = reason"
    and "(st, reason, state) \<in> {(AttemptFailed, Some (ReasonTimedOut index), StepCanceled),
      (AttemptCanceled, Some (ReasonCanceled index), StepCanceled), (AttemptLost, Some (ReasonExecutionLost index), StepLost)}"
  shows "aggregate_matches attempt steps"
  using assms by (auto simp: aggregate_matches_def)

lemma conclusion_effects_ok:
  assumes ok: "attempt_ok job attempt steps" and act: "\<not> attempt_terminal (at_state attempt)"
    and time: "at_last_heartbeat_at_unix attempt \<le> now" "rj_updated_at_unix job \<le> now"
    and e: "conclusion_effects attempt r steps result now = Ok (state, job_state, reason, steps')"
    and f: "finish_attempt attempt job state job_state reason now = (attempt', job')"
  shows "attempt_ok job' attempt' steps'" and "job_move job job'"
proof -
  have a': "attempt' = attempt\<lparr>at_state := state, at_terminal_reason := reason, at_completed_at_unix := Some now\<rparr>"
    and j': "job' = finished_job job job_state now" using f by (auto simp: finish_attempt_def finished_job_def)
  have js: "job_state \<in> {JobSucceeded, JobFailed, JobCanceled, JobLost}"
    using e by (auto simp: conclusion_effects_def split: attempt_conclusion.split_asm if_split_asm prod.split_asm)
  then show "job_move job job'"
    unfolding j' using attempt_okD(7) [OF ok act] time(2) by (intro job_move.finished) auto
  have inactive: "\<not> active_job job'" using js by (auto simp: j' finished_job_def)
  note fin = attempt_ok_finished [OF ok act a' _ _ _ time _ _ _ inactive]
  note okD = attempt_okD [OF ok act]
  show "attempt_ok job' attempt' steps'"
  proof (cases result)
    case ConcludeSucceeded
    then have "steps' = steps" "list_all (\<lambda>s. st_state s = StepSucceeded) steps" "at_state attempt = AttemptRunning"
      "(state, reason) \<in> {(AttemptCanceled, Some (ReasonCanceled None)), (AttemptSucceeded, None)}"
      using e by (auto simp: conclusion_effects_def list_all_iff list_ex_iff split: if_split_asm)
    then show ?thesis using okD(1)
      by (intro fin) (auto simp: a' attempt_terminal_def aggregate_matches_def interrupted_step_matches_def list_all_iff)
  next
    case (ConcludeSetupFailed code message)
    then have "at_state attempt = AttemptDispatching" "code \<noteq> 0" "steps' = skip_pending_steps steps now"
      "state = AttemptFailed" "reason = Some (ReasonRuntimeSetupFailed code message)"
      using e by (auto simp: conclusion_effects_def split: if_split_asm)
    then show ?thesis using skipped_steps [OF ok]
      by (intro fin) (auto simp: a' attempt_terminal_def aggregate_matches_def)
  next
    case ConcludeTimedOut
    then obtain index where i: "interrupt_steps steps StepCanceled now = (steps', index)" "state = AttemptFailed"
      "reason = Some (ReasonTimedOut index)"
      using e by (auto simp: conclusion_effects_def split: prod.split_asm)
    then show ?thesis using attempt_interrupted [OF ok act time(2) _ i(1)]
      by (intro fin) (auto simp: a' attempt_terminal_def intro: interrupted_aggregate)
  next
    case ConcludeCanceled
    then obtain index where i: "interrupt_steps steps StepCanceled now = (steps', index)" "state = AttemptCanceled"
      "reason = Some (ReasonCanceled index)"
      using e by (auto simp: conclusion_effects_def split: prod.split_asm if_split_asm)
    then show ?thesis using attempt_interrupted [OF ok act time(2) _ i(1)]
      by (intro fin) (auto simp: a' attempt_terminal_def intro: interrupted_aggregate)
  qed
qed

lemma mark_running_Ok:
  assumes "mark_running_step_truncated attempt steps truncated = Ok attempt'"
  shows "\<exists>x. attempt' = attempt\<lparr>at_first_truncated_step_index := x\<rparr>"
proof -
  obtain marked i where "(if marked then mark_step_logs_truncated attempt steps i else Ok attempt) = Ok attempt'"
  proof (cases "truncated \<and> at_first_truncated_step_index attempt = None")
    case True
    then obtain k where "mark_step_logs_truncated attempt steps (of_nat k) = Ok attempt'"
      using assms by (cases "position (\<lambda>s. st_state s = StepRunning) steps") (simp_all add: mark_running_step_truncated_def)
    then show ?thesis using that [of True "of_nat k"] by simp
  next
    case False
    show ?thesis using assms that [of False 0] unfolding mark_running_step_truncated_def if_not_P [OF False] by simp
  qed
  then show ?thesis by (rule mark_truncated_Ok)
qed

lemma complete_ok:
  assumes ok: "attempt_ok job attempt steps"
    and c: "complete (attempt, job, steps) r token_hash result truncated now = Ok (attempt', job', steps')"
  shows "attempt_ok job' attempt' steps'" and "job_move job job'"
proof -
  consider (same) "attempt' = attempt" "job' = job" "steps' = steps"
    | (concluded) attempt1 where "\<not> attempt_terminal (at_state attempt)"
      "mark_running_step_truncated attempt steps truncated = Ok attempt1"
      "at_last_heartbeat_at_unix attempt1 \<le> now" "rj_updated_at_unix job \<le> now"
      "conclude_attempt (attempt1, job, steps) r result now = Ok (attempt', job', steps')"
    using c by (auto simp: complete_def and_then_Ok_iff not_less attempt_time_not_before_heartbeat_def
        job_time_not_before_update_def split: if_split_asm)
  then have "attempt_ok job' attempt' steps' \<and> job_move job job'"
  proof cases
    case same
    then show ?thesis using ok job_move.unchanged by simp
  next
    case concluded
    obtain x where x: "attempt1 = attempt\<lparr>at_first_truncated_step_index := x\<rparr>"
      using mark_running_Ok [OF concluded(2)] by blast
    obtain state job_state reason where
      e: "conclusion_effects attempt1 r steps result now = Ok (state, job_state, reason, steps')"
        "finish_attempt attempt1 job state job_state reason now = (attempt', job')"
      using concluded(5) by (auto simp: conclude_attempt_def and_then_Ok_iff finish_attempt_def)
    show ?thesis
      using conclusion_effects_ok [OF _ _ concluded(3,4) e] ok concluded(1) by (simp add: x)
  qed
  then show "attempt_ok job' attempt' steps'" and "job_move job job'" by simp_all
qed

lemma ensure_current_active:
  assumes "attempt_ok job attempt steps" and "job_ok job" and "ensure_current_attempt job attempt = Ok ()"
  shows "\<not> attempt_terminal (at_state attempt)"
  using assms job_okD(4) [OF assms(2)] by (auto simp: attempt_ok_def ensure_current_Ok split: if_split_asm)

text \<open>An execution that is lost: the job is over when it was running, cancelled or out of attempts, else it queues again.\<close>

lemma finish_lost_or_requeue_ok:
  assumes ok: "attempt_ok job attempt steps" and act: "\<not> attempt_terminal (at_state attempt)"
    and beat: "at_last_heartbeat_at_unix attempt \<le> now"
    and f: "finish_lost_or_requeue (attempt, job, steps) r now = Ok (attempt', job', steps')"
  shows "attempt_ok job' attempt' steps'" and "job_move job job'"
proof -
  define lost where "lost reason = attempt\<lparr>at_state := AttemptLost, at_terminal_reason := Some reason,
      at_completed_at_unix := Some now\<rparr>" for reason
  obtain steps1 index where i: "interrupt_steps steps StepLost now = (steps1, index)" by (rule prod.exhaust)
  have le: "rj_updated_at_unix job \<le> now" and steps': "steps' = steps1"
    and res: "lost_or_requeued attempt job r index now = (attempt', job')"
    using f i by (auto simp: finish_lost_or_requeue_def and_then_Ok_iff job_time_not_before_update_def
        split: if_split_asm prod.split_asm)
  note int = attempt_interrupted [OF ok act le _ i]
  have dispatching: "at_state attempt = AttemptDispatching" "rj_state job = JobDispatching"
    if "at_state attempt \<noteq> AttemptRunning"
    using that act attempt_okD(5) [OF ok act]
    by (cases "at_state attempt"; auto simp: attempt_terminal_def states_align_def)+
  have lost: "attempt_ok j (lost (ReasonExecutionLost index)) steps1" if "\<not> active_job j" for j
    by (rule attempt_ok_finished [OF ok act lost_def _ _ _ beat le])
      (use int that in \<open>auto simp: attempt_terminal_def lost_def intro: interrupted_aggregate\<close>)
  consider (over) "at_state attempt = AttemptRunning \<or> rn_cancellation_requested r"
    | (exhausted) "at_state attempt \<noteq> AttemptRunning" "\<not> rn_cancellation_requested r" "at_number attempt = MAX_RUN_ATTEMPTS"
    | (requeued) "at_state attempt \<noteq> AttemptRunning" "\<not> rn_cancellation_requested r" "at_number attempt \<noteq> MAX_RUN_ATTEMPTS"
    by blast
  then have "attempt_ok job' attempt' steps' \<and> job_move job job'"
  proof cases
    case over
    define state where "state = (if at_state attempt = AttemptRunning then JobLost else JobCanceled)"
    have o: "state \<in> {JobLost, JobCanceled}" "attempt' = lost (ReasonExecutionLost index)"
        "job' = finished_job job state now"
      using res over by (auto simp: state_def lost_or_requeued_def Let_def lost_def finished_job_def split: if_split_asm)
    have "job_move job job'" unfolding o(3) using attempt_okD(7) [OF ok act] le o(1) by (intro job_move.finished) auto
    with o lost [of job'] show ?thesis by (auto simp: steps' finished_job_def)
  next
    case exhausted
    then have e: "attempt' = lost ReasonDispatchAttemptsExhausted" "job' = finished_job job JobLost now"
      using res by (auto simp: lost_or_requeued_def lost_def finished_job_def)
    have "job_move job job'" unfolding e(2) using dispatching [OF exhausted(1)] le by (intro job_move.finished) auto
    moreover have "position (\<lambda>s. st_state s = StepRunning) steps = None"
      using active_step_state [OF ok act dispatching(1) [OF exhausted(1)]] by (auto simp: position_None list_all_iff)
    then have s1: "steps1 = skip_pending_steps steps now" using i by (auto simp: interrupt_steps_def Let_def)
    have "attempt_ok job' attempt' steps1"
      by (rule attempt_ok_finished [OF ok act e(1) [unfolded lost_def] _ _ _ beat le])
        (use exhausted(3) dispatching [OF exhausted(1)] skipped_steps [OF ok, of now] ok in
          \<open>auto simp: s1 e attempt_terminal_def lost_def aggregate_matches_def finished_job_def attempt_ok_def\<close>)
    ultimately show ?thesis by (simp add: steps')
  next
    case requeued
    then have q: "attempt' = lost (ReasonExecutionLost index)"
      "job' = job\<lparr>rj_state := JobQueued, rj_current_attempt_id := None, rj_updated_at_unix := now\<rparr>"
      using res by (auto simp: lost_or_requeued_def lost_def)
    have "job_move job job'"
      unfolding q(2) using dispatching [OF requeued(1)] le by (intro job_move.requeued)
    with q lost [of job'] show ?thesis by (auto simp: steps')
  qed
  then show "attempt_ok job' attempt' steps'" and "job_move job job'" by simp_all
qed

lemma expire_ok:
  assumes "attempt_ok job attempt steps" and "at_last_heartbeat_at_unix attempt \<le> now"
    and "expire (attempt, job, steps) r now = Ok (attempt', job', steps')"
  shows "attempt_ok job' attempt' steps'" and "job_move job job'"
  using assms finish_lost_or_requeue_ok [of job attempt steps now r attempt' job' steps']
  by (auto simp: expire_def and_then_Ok_iff split: if_split_asm)

lemma abandon_ok:
  assumes "attempt_ok job attempt steps" and "at_last_heartbeat_at_unix attempt \<le> now"
    and "abandon (attempt, job, steps) r token_hash now = Ok (attempt', job', steps')"
  shows "attempt_ok job' attempt' steps'" and "job_move job job'"
  using assms finish_lost_or_requeue_ok [of job attempt steps now r attempt' job' steps'] job_move.unchanged [of job]
  by (auto simp: abandon_def and_then_Ok_iff split: if_split_asm)

lemma confirm_provider_cancellation_ok:
  assumes ok: "attempt_ok job attempt steps" and beat: "at_last_heartbeat_at_unix attempt \<le> now"
    and c: "confirm_provider_cancellation (attempt, job, steps) r now = Ok (attempt', job', steps')"
  shows "attempt_ok job' attempt' steps'" and "job_move job job'"
proof -
  obtain steps1 index where i: "interrupt_steps steps StepCanceled now = (steps1, index)" by (rule prod.exhaust)
  consider (same) "(attempt', job', steps') = (attempt, job, steps)"
    | (canceled) "\<not> attempt_terminal (at_state attempt)" "rj_updated_at_unix job \<le> now" "steps' = steps1"
      "finish_attempt attempt job AttemptCanceled JobCanceled (Some (ReasonCanceled index)) now = (attempt', job')"
    using c i by (fastforce simp: confirm_provider_cancellation_def and_then_Ok_iff job_time_not_before_update_def
        split: if_split_asm prod.split_asm)
  then have "attempt_ok job' attempt' steps' \<and> job_move job job'"
  proof cases
    case same
    then show ?thesis using ok job_move.unchanged by simp
  next
    case canceled
    then have r: "attempt' = attempt\<lparr>at_state := AttemptCanceled, at_terminal_reason := Some (ReasonCanceled index),
        at_completed_at_unix := Some now\<rparr>" "job' = finished_job job JobCanceled now"
      by (auto simp: finish_attempt_def finished_job_def)
    note int = attempt_interrupted [OF ok canceled(1,2) _ i]
    have "attempt_ok job' attempt' steps'" unfolding canceled(3)
      by (rule attempt_ok_finished [OF ok canceled(1) r(1) _ _ _ beat canceled(2)])
        (use int in \<open>auto simp: attempt_terminal_def r finished_job_def intro: interrupted_aggregate\<close>)
    moreover have "job_move job job'" unfolding r(2)
      using attempt_okD(7) [OF ok canceled(1)] canceled(2) by (intro job_move.finished) auto
    ultimately show ?thesis by simp
  qed
  then show "attempt_ok job' attempt' steps'" and "job_move job job'" by simp_all
qed

lemma reject_capacity_Ok:
  assumes "reject_capacity (attempt, job, steps) r token_hash message now = Ok (attempt', job', steps')"
    and "\<not> attempt_terminal (at_state attempt)"
  shows "at_state attempt = AttemptDispatching" and "rj_state job = JobDispatching" and "at_started_at_unix attempt = None"
    and "at_last_heartbeat_at_unix attempt \<le> now" and "rj_updated_at_unix job \<le> now"
    and "record_capacity_rejection job now = Ok job'"
    and "attempt' = attempt\<lparr>at_state := AttemptFailed, at_terminal_reason := Some (ReasonProviderCapacityRejected message),
      at_completed_at_unix := Some now\<rparr>" and "steps' = skip_pending_steps steps now"
  using assms by (simp_all add: reject_capacity_def and_then_Ok_iff attempt_time_not_before_heartbeat_def
        job_time_not_before_update_def not_less split: if_split_asm)

lemma reject_capacity_ok:
  assumes ok: "attempt_ok job attempt steps"
    and c: "reject_capacity (attempt, job, steps) r token_hash message now = Ok (attempt', job', steps')"
  shows "attempt_ok job' attempt' steps'" and "job_move job job'"
proof -
  have "attempt_ok job' attempt' steps' \<and> job_move job job'"
  proof (cases "attempt_terminal (at_state attempt)")
    case True
    then have "(attempt', job', steps') = (attempt, job, steps)" using c by (simp add: reject_capacity_def split: if_split_asm)
    then show ?thesis using ok job_move.unchanged by simp
  next
    case act: False
    note rejected = reject_capacity_Ok [OF c act]
    obtain again where "rj_state job' = (if again then JobQueued else JobFailed)"
      using rejected(6) by (auto simp: record_capacity_rejection_def and_then_Ok_iff Let_def)
    then have "\<not> active_job job'" by (cases again) simp_all
    then have "attempt_ok job' attempt' steps'" unfolding rejected(8)
      by (intro attempt_ok_finished [OF ok act rejected(7) _ _ _ rejected(4,5)])
        (use rejected(3) skipped_steps [OF ok rejected(1), of now] in
          \<open>auto simp: attempt_terminal_def rejected(7) aggregate_matches_def\<close>)
    then show ?thesis using job_move.rejected rejected(2,6) by simp
  qed
  then show "attempt_ok job' attempt' steps'" and "job_move job job'" by simp_all
qed

section \<open>Operations of the run on its jobs\<close>

lemma reconcile_job_move:
  assumes "reconcile_job indexes now jobs spec = Ok jobs'" and "i < length jobs"
  shows "job_move (jobs ! i) (jobs' ! i) \<and> (active_job (jobs' ! i) \<longleftrightarrow> active_job (jobs ! i)) \<and>
    (active_job (jobs ! i) \<longrightarrow> jobs' ! i = jobs ! i)"
proof -
  obtain k where k: "bt_get indexes (wj_id spec) = Some k"
    using assms(1) by (cases "bt_get indexes (wj_id spec)") (simp_all add: reconcile_job_def)
  consider "jobs' = jobs" | facts where "rj_state (jobs ! k) = JobBlocked" "jobs' = jobs[k := unblock (jobs ! k) facts now]"
  proof (cases "rj_state (jobs ! k) = JobBlocked")
    case True
    moreover obtain facts where "dependency_facts jobs indexes spec = Some facts"
      using True assms(1) k by (cases "dependency_facts jobs indexes spec") (simp_all add: reconcile_job_def)
    ultimately have "jobs' = jobs[k := unblock (jobs ! k) facts now]" using assms(1) k by (simp add: reconcile_job_def)
    with True show ?thesis by (rule that(2))
  next
    case False
    then have "jobs' = jobs" using assms(1) k by (simp add: reconcile_job_def)
    then show ?thesis by (rule that(1))
  qed
  then show ?thesis
  proof cases
    case 2
    have "\<not> active_job (unblock (jobs ! k) facts now)"
      using 2(1) by (auto simp: unblock_def next_blocked_state_def Let_def split: option.splits if_split_asm)
    then show ?thesis
      using 2 assms(2) by (cases "k = i") (auto intro: job_move.unblocked job_move.unchanged)
  qed (simp add: job_move.unchanged)
qed

lemma derive_run_state_move:
  assumes "derive_run_state r jobs now = Ok (r', jobs')" and "i < length jobs"
  shows "job_move (jobs ! i) (jobs' ! i) \<and> (active_job (jobs' ! i) \<longleftrightarrow> active_job (jobs ! i)) \<and>
    (active_job (jobs ! i) \<longrightarrow> jobs' ! i = jobs ! i)"
proof -
  consider "jobs' = jobs" | time where "jobs' = map (cancel_waiting_job time) jobs"
    using assms(1) by (auto simp: derive_run_state_def Let_def split: if_split_asm)
  then show ?thesis
  proof cases
    case (2 time)
    have "active_job (cancel_waiting_job time job) \<longleftrightarrow> active_job job" "active_job job \<Longrightarrow> cancel_waiting_job time job = job" for job
      by (auto simp: cancel_waiting_job_def Let_def)
    then show ?thesis using 2 assms(2) by (auto intro: job_move.canceled)
  qed (simp add: job_move.unchanged)
qed

lemma attempt_ok_idle_job:
  assumes "attempt_ok job attempt steps" and "\<not> active_job job" and "\<not> active_job job'"
  shows "attempt_ok job' attempt steps"
  using assms attempt_okD(7) [OF assms(1)] by (auto simp: attempt_ok_def split: if_split_asm)

lemma life_ok_job_changed:
  assumes "life_ok (job, current)" and "job_ok job'" and "active_job job' \<longleftrightarrow> active_job job" and "active_job job \<Longrightarrow> job' = job"
  shows "life_ok (job', current)"
  using assms attempt_ok_idle_job [of job _ _ job'] by (cases "active_job job"; cases current) auto

section \<open>Every operation keeps the invariant and is a move of the job\<close>

lemma expire_retry_idle:
  assumes "expire_capacity_retry job now = Ok (job', closed)"
  shows "(active_job job' \<longleftrightarrow> active_job job) \<and> (active_job job \<longrightarrow> job' = job)"
  using assms by (auto simp: expire_capacity_retry_def and_then_Ok_iff split: option.split_asm if_split_asm)

lemmas execution_ok = attempt_start_ok claim_runtime_ok heartbeat_ok accept_log_chunk_ok start_step_ok complete_step_ok(1)
  complete_ok(1) expire_ok(1) abandon_ok(1) confirm_provider_cancellation_ok(1) reject_capacity_ok(1) dispatch_attempt_ok

lemmas execution_moves = complete_step_ok(2) complete_ok(2) expire_ok(2) abandon_ok(2) confirm_provider_cancellation_ok(2)
  reject_capacity_ok(2)

lemma move_keeps_job: "job_move job job' \<Longrightarrow> job_ok job \<Longrightarrow> job_ok job'"
  using job_move_ok by (simp add: move_ok_def)

lemma attempt_start_move:
  assumes "attempt_start attempt r job token_hash now = Ok (attempt', job')"
  shows "job_move job job'"
  using job_move.started attempt_start_Ok [OF assms] by simp

lemma start_step_move:
  assumes "start_step (attempt, job, steps) r token_hash step_index now = Ok (attempt', job', steps')"
  shows "job_move job job'"
proof -
  obtain job1 where first: "(if at_state attempt = AttemptDispatching \<and> step_index = 0
      then attempt_start attempt r job token_hash now
      else and_then (authenticate attempt job token_hash now) (\<lambda>_. Ok (attempt, job))) = Ok (attempt', job1)"
    and run: "rj_state job1 = JobRunning"
    and rest: "job' = job1 \<or> rj_updated_at_unix job1 \<le> now \<and> job' = job1\<lparr>rj_updated_at_unix := now\<rparr>"
    using start_step_Ok [OF assms] by metis
  show ?thesis
  proof (cases "at_state attempt = AttemptDispatching \<and> step_index = 0")
    case True
    then have start: "attempt_start attempt r job token_hash now = Ok (attempt', job1)" using first by simp
    then have "job1\<lparr>rj_updated_at_unix := now\<rparr> = job1" using attempt_start_Ok(8) [OF start] by simp
    moreover have "job_move job job1" using attempt_start_move [OF start] .
    ultimately show ?thesis using rest by auto
  next
    case False
    then have "job1 = job" using first by (auto simp: and_then_Ok_iff split: if_split_asm)
    then show ?thesis using rest run job_move.touched job_move.unchanged by auto
  qed
qed

lemma job_step_ok:
  assumes "life_ok s" and "job_step s s'"
  shows "life_ok s' \<and> job_move (fst s) (fst s')"
  using assms(2,1)
proof (cases rule: job_step.cases)
  case (dispatched job r spec attempt_id token_hash version now lease job' attempt steps current)
  then have "job_move job job'" by (blast intro: job_move.dispatched)
  moreover have "job_ok job" using assms(1) dispatched(1) by (cases current) auto
  ultimately show ?thesis using dispatched dispatch_attempt_ok move_keeps_job by simp
next
  case (retry_window_closed job now job' closed current)
  then have "job_move job job'" by (blast intro: job_move.retry_expired)
  moreover have "job_ok job" using assms(1) retry_window_closed(1) by (cases current) auto
  ultimately show ?thesis
    using assms(1) retry_window_closed expire_retry_idle [OF retry_window_closed(3)] move_keeps_job
      life_ok_job_changed [of job current job'] by auto
next
  case (job_reconciled indexes now jobs spec jobs' i current)
  note m = reconcile_job_move [OF job_reconciled(3,4)]
  moreover have "job_ok (jobs ! i)" using assms(1) job_reconciled(1) by (cases current) auto
  ultimately show ?thesis
    using assms(1) job_reconciled(1,2) move_keeps_job life_ok_job_changed [of "jobs ! i" current "jobs' ! i"] by auto
next
  case (run_derived r jobs now r' jobs' i current)
  note m = derive_run_state_move [OF run_derived(3,4)]
  moreover have "job_ok (jobs ! i)" using assms(1) run_derived(1) by (cases current) auto
  ultimately show ?thesis
    using assms(1) run_derived(1,2) move_keeps_job life_ok_job_changed [of "jobs ! i" current "jobs' ! i"] by auto
qed (auto dest: execution_ok execution_moves attempt_start_move start_step_move intro: job_move.unchanged move_keeps_job)

interpretation jb: budgeted_lifecycle job_step life_ok "\<lambda>s. rj_state (fst s)" job_edge "\<lambda>s. job_budget (fst s)"
proof
  fix s s'
  assume ok: "life_ok s" and step: "job_step s s'"
  have "job_ok (fst s)" using ok by (cases s; cases "snd s") auto
  then have m: "move_ok (fst s) (fst s')" using job_step_ok [OF ok step] job_move_ok by blast
  show "life_ok s'" using job_step_ok [OF ok step] by simp
  show "rj_state (fst s') = rj_state (fst s) \<or> job_edge (rj_state (fst s)) (rj_state (fst s'))"
    using m by (simp add: move_ok_def)
  show "job_budget (fst s') \<le> job_budget (fst s) \<and>
      (rj_state (fst s') \<noteq> rj_state (fst s) \<longrightarrow> job_budget (fst s') < job_budget (fst s))"
    using m by (simp add: move_ok_def)
qed

text \<open>Retrying a run starts the jobs again from the state they were created in, with the attempts they have used.\<close>

lemma aggregate_terminal:
  "run_terminal (aggregate_state state jobs) \<longleftrightarrow> list_all (\<lambda>job. job_terminal (rj_state job)) jobs"
  by (auto simp: aggregate_state_def run_terminal_def)

inductive life_step :: "job_life \<Rightarrow> job_life \<Rightarrow> bool" where
  operated: "job_step s s' \<Longrightarrow> life_step s s'"
| retried: "retry_run r jobs rv now = Ok (r', jobs') \<Longrightarrow> rn_state r = aggregate_state before jobs \<Longrightarrow> i < length jobs
    \<Longrightarrow> life_step (jobs ! i, current) (jobs' ! i, current)"

fun life_edge :: "run_job_state \<Rightarrow> run_job_state \<Rightarrow> bool" where
  "life_edge s t \<longleftrightarrow> job_edge s t \<or> job_terminal s \<and> (t = JobQueued \<or> t = JobBlocked)"

lemma retry_run_job:
  assumes "retry_run r jobs rv now = Ok (r', jobs')" and "i < length jobs"
  shows "retry_job (wr_definition rv) now (jobs ! i) = Ok (jobs' ! i)" and "run_terminal (rn_state r)"
    and "rj_last_attempt_number (jobs ! i) < MAX_RUN_ATTEMPTS" and "rj_updated_at_unix (jobs ! i) \<le> now"
proof -
  have f: "ensure_retry_time r jobs now = Ok ()" "can_retry_run r jobs"
    "collect_results (retry_job (wr_definition rv) now) jobs = Ok jobs'"
    using assms(1) by (auto simp: retry_run_def and_then_Ok_iff split: if_split_asm)
  show "retry_job (wr_definition rv) now (jobs ! i) = Ok (jobs' ! i)" using f(3) assms(2) by (simp add: collect_results_Ok)
  show "run_terminal (rn_state r)" using f(2) by (simp add: can_retry_run_def)
  show "rj_last_attempt_number (jobs ! i) < MAX_RUN_ATTEMPTS" using f(2) assms(2) by (simp add: can_retry_run_def list_all_length)
  have "\<not> list_ex (\<lambda>job. now < rj_updated_at_unix job) jobs" using f(1) by (auto simp: ensure_retry_time_def split: if_split_asm)
  then have "\<forall>job \<in> set jobs. rj_updated_at_unix job \<le> now" by (auto simp: list_ex_iff not_less)
  then show "rj_updated_at_unix (jobs ! i) \<le> now" using assms(2) by simp
qed

lemma retry_job_facts:
  assumes "retry_job workflow now job = Ok job'" and "job_ok job" and "rj_updated_at_unix job \<le> now"
  shows "job_ok job'" and "\<not> active_job job'" and "rj_state job' = JobQueued \<or> rj_state job' = JobBlocked"
proof -
  obtain waiting where j: "job' = job\<lparr>rj_state := (if waiting then JobQueued else JobBlocked), rj_current_attempt_id := None,
      rj_updated_at_unix := now, rj_completed_at_unix := None, rj_capacity_retry := None\<rparr>"
    using assms(1) by (cases "CompiledWorkflow_job workflow (rj_key job)") (auto simp: retry_job_def)
  then show "\<not> active_job job'" and "rj_state job' = JobQueued \<or> rj_state job' = JobBlocked" by (cases waiting; simp)+
  show "job_ok job'"
    using j assms(3) job_okD(1,2) [OF assms(2)]
    by (cases waiting) (auto simp: job_ok_def job_validate_facts_Ok job_terminal_def)
qed

lemma life_step_ok:
  assumes "life_step s s'" and "life_ok s"
  shows "life_ok s' \<and> (rj_state (fst s') = rj_state (fst s) \<or> life_edge (rj_state (fst s)) (rj_state (fst s')))"
  using assms
proof (cases rule: life_step.cases)
  case operated
  then show ?thesis using jb.ok_step [OF assms(2)] jb.step_edge [OF assms(2)] by (metis life_edge.simps)
next
  case (retried r jobs rv now r' jobs' before i current)
  note f = retry_run_job [OF retried(3,5)]
  have ok: "job_ok (jobs ! i)" using assms(2) retried(1) by (cases current) auto
  have "job_terminal (rj_state (jobs ! i))"
    using f(2) retried(4,5) by (simp add: aggregate_terminal list_all_length)
  moreover note r = retry_job_facts [OF f(1) ok f(4)]
  ultimately have "\<not> active_job (jobs ! i)" by (auto simp: job_terminal_def)
  then show ?thesis
    using assms(2) retried(1,2) r \<open>job_terminal (rj_state (jobs ! i))\<close>
      life_ok_job_changed [of "jobs ! i" current "jobs' ! i"] by auto
qed

interpretation jl: lifecycle life_step life_ok "\<lambda>s. rj_state (fst s)" life_edge
  using life_step_ok by unfold_locales blast+

lemma new_job_ok: "life_ok (RunJob_new r spec, None)"
  by (auto simp: RunJob_new_def job_ok_def job_validate_facts_Ok job_terminal_def MAX_RUN_ATTEMPTS_def)

lemma new_job_budget: "job_budget (RunJob_new r spec) \<le> 202"
  by (simp add: job_budget_def RunJob_new_def MAX_RUN_ATTEMPTS_def)

end
