(* ===== verification/Run_Machine.thy ===== *)
theory Run_Machine
  imports Execution_Machine
begin

text \<open>
  A run over all its jobs: unblocking jobs in the serial order of the workflow, cancelling, retrying and executing. A
  job leaves the blocked state only after all its needs have succeeded, and a run that has not ended always has a job
  that can go on.
\<close>

section \<open>Reconciling the jobs\<close>

definition job_at :: "(workflow_job_id, nat) btree_map \<Rightarrow> run_job list \<Rightarrow> bool" where
  "job_at indexes jobs \<longleftrightarrow> (\<forall>k i. bt_get indexes k = Some i \<longleftrightarrow> i < length jobs \<and> rj_key (jobs ! i) = k)"

lemma stored_job_at: "distinct (map rj_key jobs) \<Longrightarrow> job_at (stored_job_indexes jobs) jobs"
  using index_map_get [of rj_key jobs] by (simp add: job_at_def stored_job_indexes_def)

lemma unblock_key [simp]: "rj_key (unblock job facts now) = rj_key job" "rj_run_id (unblock job facts now) = rj_run_id job"
  by (simp_all add: unblock_def Let_def split: option.split)

lemma job_at_update: "job_at indexes jobs \<Longrightarrow> rj_key job = rj_key (jobs ! i) \<Longrightarrow> job_at indexes (jobs[i := job])"
proof -
  assume "job_at indexes jobs" and "rj_key job = rj_key (jobs ! i)"
  moreover from this(2) have "rj_key (jobs[i := job] ! j) = rj_key (jobs ! j)" if "j < length jobs" for j
    using that by (cases "i = j") simp_all
  ultimately show ?thesis by (auto simp: job_at_def)
qed

text \<open>The states of the needs of a job, read off the stored jobs.\<close>

definition need_states :: "(workflow_job_id, nat) btree_map \<Rightarrow> run_job list \<Rightarrow> workflow_job \<Rightarrow> run_job_state set" where
  "need_states indexes jobs spec =
     {rj_state (jobs ! d) | k d. k \<in> set (wj_needs spec) \<and> bt_get indexes k = Some d}"

lemma those_eq_Some: "those xs = Some ys \<longleftrightarrow> xs = map Some ys"
  by (induction xs arbitrary: ys) (auto split: option.splits simp: map_eq_Cons_conv Cons_eq_map_conv)

lemma dependency_facts_states:
  assumes "dependency_facts jobs indexes spec = Some facts"
  shows "fst ` set facts = need_states indexes jobs spec"
proof -
  let ?f = "\<lambda>k. map_option (\<lambda>i. (rj_state (jobs ! i), rj_updated_at_unix (jobs ! i))) (bt_get indexes k)"
  have "map ?f (wj_needs spec) = map Some facts"
    using assms by (simp add: dependency_facts_def those_eq_Some)
  then have facts: "facts = map (\<lambda>k. the (?f k)) (wj_needs spec)"
    and found: "\<forall>k \<in> set (wj_needs spec). \<exists>d. bt_get indexes k = Some d"
  proof -
    assume eq: "map ?f (wj_needs spec) = map Some facts"
    then have "map the (map Some facts) = map the (map ?f (wj_needs spec))" by simp
    then show "facts = map (\<lambda>k. the (?f k)) (wj_needs spec)" by (simp add: comp_def)
    have "?f k \<in> set (map Some facts)" if "k \<in> set (wj_needs spec)" for k
      using that unfolding eq [symmetric] by simp
    then show "\<forall>k \<in> set (wj_needs spec). \<exists>d. bt_get indexes k = Some d" by fastforce
  qed
  show ?thesis
  proof (rule set_eqI, rule iffI)
    fix x assume "x \<in> fst ` set facts"
    then obtain k where k: "k \<in> set (wj_needs spec)" "x = fst (the (?f k))" by (auto simp: facts)
    moreover obtain d where "bt_get indexes k = Some d" using found k(1) by blast
    ultimately show "x \<in> need_states indexes jobs spec" by (auto simp: need_states_def)
  next
    fix x assume "x \<in> need_states indexes jobs spec"
    then obtain k d where k: "k \<in> set (wj_needs spec)" "bt_get indexes k = Some d" "x = rj_state (jobs ! d)"
      by (auto simp: need_states_def)
    then have "x = fst (the (?f k))" by simp
    then show "x \<in> fst ` set facts" using k(1) by (simp add: facts image_image)
  qed
qed

lemma next_blocked_state_cases:
  assumes "dependency_facts jobs indexes spec = Some facts"
  shows "next_blocked_state facts =
    (if \<exists>s \<in> need_states indexes jobs spec. job_terminal s \<and> s \<noteq> JobSucceeded then Some JobSkipped
     else if \<forall>s \<in> need_states indexes jobs spec. s = JobSucceeded then Some JobQueued else None)"
  unfolding dependency_facts_states [OF assms, symmetric] next_blocked_state_def
  by (simp add: list_ex_iff list_all_iff case_prod_beta)

text \<open>A blocked job waits for a need that has not ended, and no need has ended without success.\<close>

definition waits :: "(workflow_job_id, nat) btree_map \<Rightarrow> run_job list \<Rightarrow> workflow_job \<Rightarrow> bool" where
  "waits indexes jobs spec \<longleftrightarrow>
     (\<forall>i. bt_get indexes (wj_id spec) = Some i \<longrightarrow> rj_state (jobs ! i) = JobBlocked \<longrightarrow>
        (\<exists>s \<in> need_states indexes jobs spec. \<not> job_terminal s))"

text \<open>A job that was ever released has only needs that have succeeded.\<close>

abbreviation released :: "run_job_state set" where
  "released \<equiv> {JobQueued, JobDispatching, JobRunning, JobSucceeded, JobFailed, JobLost}"

definition needs_met :: "(workflow_job_id, nat) btree_map \<Rightarrow> run_job list \<Rightarrow> workflow_job \<Rightarrow> bool" where
  "needs_met indexes jobs spec \<longleftrightarrow>
     (\<forall>i. bt_get indexes (wj_id spec) = Some i \<longrightarrow> rj_state (jobs ! i) \<in> released \<longrightarrow>
        need_states indexes jobs spec \<subseteq> {JobSucceeded})"

text \<open>Reconciling one job changes that job alone, and only when it is blocked and its needs decide.\<close>

lemma reconcile_job_effect:
  assumes rec: "reconcile_job indexes now jobs spec = Ok jobs'" and idx: "job_at indexes jobs"
  obtains i where "bt_get indexes (wj_id spec) = Some i" and "i < length jobs"
    and "length jobs' = length jobs" and "job_at indexes jobs'" and "\<And>j. j \<noteq> i \<Longrightarrow> jobs' ! j = jobs ! j"
    and "rj_run_id (jobs' ! i) = rj_run_id (jobs ! i)"
    and "rj_state (jobs' ! i) =
      (if rj_state (jobs ! i) \<noteq> JobBlocked then rj_state (jobs ! i)
       else if \<exists>s \<in> need_states indexes jobs spec. job_terminal s \<and> s \<noteq> JobSucceeded then JobSkipped
       else if \<forall>s \<in> need_states indexes jobs spec. s = JobSucceeded then JobQueued else JobBlocked)"
proof -
  obtain i where i: "bt_get indexes (wj_id spec) = Some i"
    using rec by (cases "bt_get indexes (wj_id spec)") (simp_all add: reconcile_job_def)
  then have lt: "i < length jobs" using idx by (simp add: job_at_def)
  show ?thesis
  proof (cases "rj_state (jobs ! i) = JobBlocked")
    case True
    then obtain facts where f: "dependency_facts jobs indexes spec = Some facts"
      using rec i by (cases "dependency_facts jobs indexes spec") (simp_all add: reconcile_job_def)
    have jobs': "jobs' = jobs[i := unblock (jobs ! i) facts now]" using rec i True f by (simp add: reconcile_job_def)
    have "rj_state (unblock (jobs ! i) facts now) = (case next_blocked_state facts of None \<Rightarrow> JobBlocked | Some s \<Rightarrow> s)"
      using True by (simp add: unblock_def Let_def split: option.split)
    then show ?thesis
      using that [OF i lt] lt True idx
      by (simp add: jobs' job_at_update next_blocked_state_cases [OF f])
  next
    case False
    then have "jobs' = jobs" using rec i by (simp add: reconcile_job_def)
    then show ?thesis using that [OF i lt] False idx by simp
  qed
qed

definition serial :: "workflow_job list \<Rightarrow> bool" where
  "serial specs \<longleftrightarrow> distinct (map wj_id specs)
     \<and> (\<forall>p < length specs. set (wj_needs (specs ! p)) \<subseteq> wj_id ` set (take p specs))"

lemma serial_before:
  assumes "serial (before @ spec # after)"
  shows "set (wj_needs spec) \<subseteq> wj_id ` set before" and "wj_id spec \<notin> wj_id ` set before"
    and "s \<in> set before \<Longrightarrow> wj_id spec \<notin> set (wj_needs s)"
proof -
  have "set (wj_needs ((before @ spec # after) ! length before)) \<subseteq> wj_id ` set (take (length before) (before @ spec # after))"
    using assms unfolding serial_def by (metis length_append less_add_same_cancel1 list.size(3) length_greater_0_conv list.distinct(1))
  then show "set (wj_needs spec) \<subseteq> wj_id ` set before" by simp
  show fresh: "wj_id spec \<notin> wj_id ` set before" using assms by (auto simp: serial_def)
  show "wj_id spec \<notin> set (wj_needs s)" if s: "s \<in> set before"
  proof -
    obtain p where p: "p < length before" "before ! p = s" using s by (auto simp: in_set_conv_nth)
    then have "set (wj_needs s) \<subseteq> wj_id ` set (take p before)"
      using assms by (auto simp: serial_def nth_append dest!: spec [of _ p])
    then show ?thesis using fresh by (auto dest: in_set_takeD)
  qed
qed

lemma need_states_other:
  assumes "\<And>j. j \<noteq> i \<Longrightarrow> jobs' ! j = jobs ! j" and "\<And>k. k \<in> set (wj_needs spec) \<Longrightarrow> bt_get indexes k \<noteq> Some i"
  shows "need_states indexes jobs' spec = need_states indexes jobs spec"
  using assms unfolding need_states_def by metis

lemma needs_met_kept:
  assumes "need_states indexes jobs spec \<subseteq> {JobSucceeded}"
    and "\<And>j. rj_state (jobs ! j) = JobSucceeded \<Longrightarrow> rj_state (jobs' ! j) = JobSucceeded"
  shows "need_states indexes jobs' spec \<subseteq> {JobSucceeded}"
  using assms by (auto simp: need_states_def) 

lemma job_at_inj: "job_at indexes jobs \<Longrightarrow> bt_get indexes k = Some i \<Longrightarrow> bt_get indexes k' = Some i \<Longrightarrow> k = k'"
  by (auto simp: job_at_def)

text \<open>
  One pass in serial order: every blocked job is looked at after its needs, so afterwards each waits for a need that
  is still to end.
\<close>

lemma reconcile_jobs_effect:
  assumes "reconcile_jobs indexes now jobs specs = Ok jobs'" and "job_at indexes jobs" and "serial (before @ specs)"
    and "\<forall>s \<in> set before. waits indexes jobs s" and "met \<longrightarrow> (\<forall>s \<in> set (before @ specs). needs_met indexes jobs s)"
  shows "job_at indexes jobs' \<and> length jobs' = length jobs \<and> map rj_run_id jobs' = map rj_run_id jobs
    \<and> (\<forall>s \<in> set (before @ specs). waits indexes jobs' s \<and> (met \<longrightarrow> needs_met indexes jobs' s))"
  using assms
proof (induction specs arbitrary: jobs before)
  case (Cons spec specs)
  from Cons.prems(1) obtain jobs1 where one: "reconcile_job indexes now jobs spec = Ok jobs1"
    and rest: "reconcile_jobs indexes now jobs1 specs = Ok jobs'" by (auto simp: and_then_Ok_iff)
  obtain i where i: "bt_get indexes (wj_id spec) = Some i" "i < length jobs" "length jobs1 = length jobs"
    "job_at indexes jobs1" "\<And>j. j \<noteq> i \<Longrightarrow> jobs1 ! j = jobs ! j" "rj_run_id (jobs1 ! i) = rj_run_id (jobs ! i)"
    and state: "rj_state (jobs1 ! i) =
      (if rj_state (jobs ! i) \<noteq> JobBlocked then rj_state (jobs ! i)
       else if \<exists>s \<in> need_states indexes jobs spec. job_terminal s \<and> s \<noteq> JobSucceeded then JobSkipped
       else if \<forall>s \<in> need_states indexes jobs spec. s = JobSucceeded then JobQueued else JobBlocked)"
    using reconcile_job_effect [OF one Cons.prems(2)] by blast
  note order = serial_before [OF Cons.prems(3)]
  have other: "bt_get indexes k \<noteq> Some i" if "k \<noteq> wj_id spec" for k
    using job_at_inj [OF Cons.prems(2) i(1)] that by metis
  have own: "need_states indexes jobs1 spec = need_states indexes jobs spec"
  proof (rule need_states_other [OF i(5)])
    fix k assume "k \<in> set (wj_needs spec)"
    then have "k \<noteq> wj_id spec" using order(1,2) by blast
    then show "bt_get indexes k \<noteq> Some i" by (rule other)
  qed
  have kept: "rj_state (jobs1 ! j) = JobSucceeded" if "rj_state (jobs ! j) = JobSucceeded" for j
    using that i(5) state by (cases "j = i") auto
  have w: "waits indexes jobs1 s" if s: "s \<in> set (before @ [spec])" for s
  proof (cases "s = spec")
    case True
    then show ?thesis using i(1) state own by (auto simp: waits_def split: if_split_asm)
  next
    case False
    then have before: "s \<in> set before" using s by simp
    have "need_states indexes jobs1 s = need_states indexes jobs s"
    proof (rule need_states_other [OF i(5)])
      fix k assume "k \<in> set (wj_needs s)"
      then have "k \<noteq> wj_id spec" using order(3) [OF before] by blast
      then show "bt_get indexes k \<noteq> Some i" by (rule other)
    qed
    moreover have "bt_get indexes (wj_id s) \<noteq> Some i" by (rule other) (use order(2) before in \<open>metis imageI\<close>)
    moreover have "waits indexes jobs s" using Cons.prems(4) before by blast
    ultimately show ?thesis unfolding waits_def using i(5) by metis
  qed
  have m: "needs_met indexes jobs1 s" if s: "s \<in> set (before @ spec # specs)" and met for s
  proof (cases "wj_id s = wj_id spec")
    case True
    have "inj_on wj_id (set (before @ spec # specs))" using Cons.prems(3) by (simp only: serial_def distinct_map)
    from inj_onD [OF this True s] have "s = spec" by simp
    moreover have "need_states indexes jobs spec \<subseteq> {JobSucceeded}" if "rj_state (jobs1 ! i) \<in> released"
      using that \<open>met\<close> state Cons.prems(5) i(1) by (auto simp: needs_met_def split: if_split_asm)
    ultimately show ?thesis using own i(1) by (simp add: needs_met_def)
  next
    case False
    then have "bt_get indexes (wj_id s) \<noteq> Some i" by (rule other)
    moreover have "needs_met indexes jobs s" using Cons.prems(5) s \<open>met\<close> by blast
    ultimately show ?thesis using i(5) needs_met_kept [where indexes = indexes and spec = s, OF _ kept] unfolding needs_met_def by metis
  qed
  have "map rj_run_id jobs1 = map rj_run_id jobs"
  proof (rule nth_equalityI)
    fix j assume "j < length (map rj_run_id jobs1)"
    then show "map rj_run_id jobs1 ! j = map rj_run_id jobs ! j" using i by (cases "j = i") auto
  qed (simp add: i(3))
  then show ?case
    using Cons.IH [OF rest i(4), of "before @ [spec]"] Cons.prems(3) w m i(3) by simp
qed simp

section \<open>The state of the run\<close>

lemma latest_job_update_ge: "initial \<le> latest_job_update jobs initial"
proof (induction jobs arbitrary: initial)
  case (Cons job jobs)
  then show ?case by (simp add: latest_job_update_def) (meson max.cobounded1 order_trans)
qed (simp add: latest_job_update_def)

lemma derive_run_state_Ok:
  assumes "derive_run_state r jobs now = Ok (r', jobs')"
  obtains time where "jobs \<noteq> []" and "\<forall>job \<in> set jobs. rj_run_id job = rn_id r"
    and "jobs' = (if rn_cancellation_requested r \<or> list_ex (\<lambda>job. rj_state job = JobCanceled) jobs
      then map (cancel_waiting_job (latest_job_update (filter (\<lambda>job. rj_state job = JobCanceled) jobs) now)) jobs else jobs)"
    and "rn_updated_at_unix r \<le> time"
    and "r' = r\<lparr>rn_state := aggregate_state (rn_state r) jobs',
      rn_cancellation_requested := ((rn_cancellation_requested r \<or> list_ex (\<lambda>job. rj_state job = JobCanceled) jobs)
        \<and> \<not> (list_all (\<lambda>job. job_terminal (rj_state job)) jobs' \<and> \<not> list_ex (\<lambda>job. rj_state job = JobCanceled) jobs')),
      rn_updated_at_unix := time,
      rn_completed_at_unix := (if run_terminal (aggregate_state (rn_state r) jobs') then Some time else None)\<rparr>"
proof (rule that)
  let ?time = "latest_job_update jobs' (max now (rn_updated_at_unix r))"
  have "jobs \<noteq> [] \<and> \<not> list_ex (\<lambda>job. rj_run_id job \<noteq> rn_id r) jobs"
    using assms by (auto simp: derive_run_state_def split: if_split_asm)
  then show "jobs \<noteq> []" and "\<forall>job \<in> set jobs. rj_run_id job = rn_id r" by (auto simp: list_ex_iff)
  show "rn_updated_at_unix r \<le> ?time"
    using latest_job_update_ge [of "max now (rn_updated_at_unix r)" jobs'] by (meson max.cobounded2 order_trans)
qed (use assms in \<open>auto simp: derive_run_state_def Let_def split: if_split_asm\<close>)

lemma cancel_waiting_state:
  "rj_state (cancel_waiting_job time job) =
     (if rj_state job = JobBlocked \<or> rj_state job = JobQueued then JobCanceled else rj_state job)"
  by (simp add: cancel_waiting_job_def Let_def)

lemma run_validate_facts_Ok:
  "run_validate_facts r = Ok () \<longleftrightarrow>
     (rn_completed_at_unix r = (if run_terminal (rn_state r) then Some (rn_updated_at_unix r) else None))
     \<and> rn_created_at_unix r \<le> rn_updated_at_unix r \<and> (rn_state r = RunCanceled \<longrightarrow> rn_cancellation_requested r)"
  by (auto simp: run_validate_facts_def not_less split: option.splits)

lemma derive_run_state_facts:
  assumes d: "derive_run_state r jobs now = Ok (r', jobs')" and ok: "run_validate_facts r = Ok ()"
  shows "run_validate_facts r' = Ok ()"
proof -
  obtain time where f: "rn_updated_at_unix r \<le> time"
    and jobs': "jobs' = (if rn_cancellation_requested r \<or> list_ex (\<lambda>job. rj_state job = JobCanceled) jobs
      then map (cancel_waiting_job (latest_job_update (filter (\<lambda>job. rj_state job = JobCanceled) jobs) now)) jobs else jobs)"
    and r': "r' = r\<lparr>rn_state := aggregate_state (rn_state r) jobs',
      rn_cancellation_requested := ((rn_cancellation_requested r \<or> list_ex (\<lambda>job. rj_state job = JobCanceled) jobs)
        \<and> \<not> (list_all (\<lambda>job. job_terminal (rj_state job)) jobs' \<and> \<not> list_ex (\<lambda>job. rj_state job = JobCanceled) jobs')),
      rn_updated_at_unix := time,
      rn_completed_at_unix := (if run_terminal (aggregate_state (rn_state r) jobs') then Some time else None)\<rparr>"
    using derive_run_state_Ok [OF d] by metis
  have "rn_created_at_unix r \<le> time" using f ok by (auto simp: run_validate_facts_Ok)
  moreover have "rn_cancellation_requested r'" if "aggregate_state (rn_state r) jobs' = RunCanceled"
  proof -
    have "list_ex (\<lambda>job. rj_state job = JobCanceled) jobs'" using that by (auto simp: aggregate_state_def split: if_split_asm)
    then show ?thesis using jobs' by (auto simp: r' split: if_split_asm)
  qed
  ultimately show ?thesis by (simp add: run_validate_facts_Ok r')
qed

section \<open>Progress\<close>

lemma compiled_serial:
  assumes "CompiledWorkflow_new name triggers specs = Ok workflow" and "list_all (\<lambda>job. distinct (wj_needs job)) specs"
  shows "serial (serial_jobs workflow)" and "set (serial_jobs workflow) = set (cw_jobs workflow)"
    and "distinct (map wj_id (cw_jobs workflow))"
proof -
  note c = compiled_jobs [OF assms]
  note order = compiled_serial_order [OF c(2,3)]
  have "mset (map wj_id (serial_jobs workflow)) = mset (map wj_id (cw_jobs workflow))" by (simp add: order(1))
  then have "distinct (map wj_id (serial_jobs workflow))" using c(2) by (metis graph_ok_def mset_eq_imp_distinct_iff)
  then show "serial (serial_jobs workflow)" using order(2) by (simp add: serial_def)
  show "set (serial_jobs workflow) = set (cw_jobs workflow)" using order(1) by (rule mset_eq_setD)
  show "distinct (map wj_id (cw_jobs workflow))" using c(2) by (simp add: graph_ok_def)
qed

text \<open>What the development uses of a compiled workflow.\<close>

definition workflow_ok :: "compiled_workflow \<Rightarrow> bool" where
  "workflow_ok workflow \<longleftrightarrow>
     serial (serial_jobs workflow) \<and> set (serial_jobs workflow) = set (cw_jobs workflow)
     \<and> distinct (map wj_id (cw_jobs workflow))
     \<and> (\<forall>k. CompiledWorkflow_job workflow k = find (\<lambda>job. wj_id job = k) (cw_jobs workflow))"

lemma compiled_workflow_ok:
  "CompiledWorkflow_new name triggers specs = Ok workflow \<Longrightarrow> list_all (\<lambda>job. distinct (wj_needs job)) specs \<Longrightarrow> workflow_ok workflow"
  using compiled_serial compiled_jobs(4) by (simp add: workflow_ok_def)

lemma workflow_okD:
  assumes "workflow_ok workflow"
  shows "serial (serial_jobs workflow)" and "set (serial_jobs workflow) = set (cw_jobs workflow)"
    and "distinct (map wj_id (cw_jobs workflow))"
    and "CompiledWorkflow_job workflow k = find (\<lambda>job. wj_id job = k) (cw_jobs workflow)"
  using assms by (simp_all add: workflow_ok_def)

text \<open>If nothing can go on and every blocked job waits for a need that has not ended, nothing is blocked.\<close>

lemma all_ended:
  assumes idx: "job_at indexes jobs" and order: "serial specs" and w: "\<forall>s \<in> set specs. waits indexes jobs s"
    and keys: "\<forall>job \<in> set jobs. rj_key job \<in> wj_id ` set specs"
    and idle: "\<forall>job \<in> set jobs. rj_state job \<notin> {JobQueued, JobDispatching, JobRunning}"
  shows "\<forall>job \<in> set jobs. job_terminal (rj_state job)"
proof -
  have ended: "job_terminal (rj_state (jobs ! i))" if "p < length specs" "bt_get indexes (wj_id (specs ! p)) = Some i" for p i
    using that
  proof (induction p arbitrary: i rule: less_induct)
    case (less p)
    have lt: "i < length jobs" using less.prems(2) idx by (simp add: job_at_def)
    show ?case
    proof (rule ccontr)
      assume open_: "\<not> job_terminal (rj_state (jobs ! i))"
      then have "rj_state (jobs ! i) = JobBlocked"
        using idle lt by (cases "rj_state (jobs ! i)") (auto simp: job_terminal_def dest: nth_mem)
      then obtain k d where k: "k \<in> set (wj_needs (specs ! p))" "bt_get indexes k = Some d" "\<not> job_terminal (rj_state (jobs ! d))"
        using w less.prems nth_mem [OF less.prems(1)] unfolding waits_def need_states_def by blast
      have "set (wj_needs (specs ! p)) \<subseteq> wj_id ` set (take p specs)" using order less.prems(1) by (simp add: serial_def)
      then obtain q where "q < p" "q < length specs" "k = wj_id (specs ! q)"
        using k(1) less.prems(1) by (fastforce simp: in_set_conv_nth)
      then show False using less.IH [of q d] k by simp
    qed
  qed
  show ?thesis
  proof
    fix job assume "job \<in> set jobs"
    then obtain i where i: "i < length jobs" "job = jobs ! i" by (auto simp: in_set_conv_nth)
    obtain p where "p < length specs" "wj_id (specs ! p) = rj_key job"
      using keys \<open>job \<in> set jobs\<close> by (metis (no_types, lifting) imageE in_set_conv_nth)
    then show "job_terminal (rj_state job)" using ended [of p i] i idx by (simp add: job_at_def)
  qed
qed

lemma matched_keys:
  assumes m: "jobs_match_workflow jobs workflow" and "distinct (map wj_id (cw_jobs workflow))"
  shows "rj_key ` set jobs = wj_id ` set (cw_jobs workflow)"
proof -
  let ?idx = "stored_job_indexes jobs"
  have "rj_key ` ((!) jobs ` {0..<length jobs}) = rj_key ` set jobs" by (simp add: nth_image)
  then have keys: "fst ` set ?idx = rj_key ` set jobs"
    unfolding stored_job_indexes_def keys_bt_collect enumerate_nth set_map image_image set_upt by simp
  have "bt_ok ?idx" unfolding stored_job_indexes_def by (rule bt_ok_collect)
  then have card: "card (fst ` set ?idx) = length ?idx"
    by (metis bt_ok_distinct distinct_card length_map list.set_map)
  have "wj_id spec \<in> fst ` set ?idx" if spec: "spec \<in> set (cw_jobs workflow)" for spec
  proof -
    obtain i where "bt_get ?idx (wj_id spec) = Some i" using m spec by (auto simp: jobs_match_workflow_def list_all_iff)
    then show ?thesis by (auto simp: bt_get_def dest!: map_of_SomeD intro: rev_image_eqI)
  qed
  then have sub: "wj_id ` set (cw_jobs workflow) \<subseteq> fst ` set ?idx" by blast
  have "card (wj_id ` set (cw_jobs workflow)) = length (cw_jobs workflow)"
    using assms(2) by (metis distinct_card length_map list.set_map)
  then have "card (fst ` set ?idx) = card (wj_id ` set (cw_jobs workflow))"
    using m card by (simp add: jobs_match_workflow_def)
  then show ?thesis using card_subset_eq [OF _ sub] keys by simp
qed

lemma keys_unchanged: "job_at indexes jobs \<Longrightarrow> job_at indexes jobs' \<Longrightarrow> length jobs' = length jobs \<Longrightarrow> map rj_key jobs' = map rj_key jobs"
  by (rule nth_equalityI) (auto simp: job_at_def)

lemma reconcile_run_Ok:
  assumes "reconcile_run r jobs rv now = Ok (r', jobs')"
  obtains jobs1 where "validate_workflow_revision r rv = Ok ()" and "jobs_match_workflow jobs (wr_definition rv)"
    and "reconcile_jobs (stored_job_indexes jobs) now jobs (serial_jobs (wr_definition rv)) = Ok jobs1"
    and "derive_run_state r jobs1 now = Ok (r', jobs')"
  using assms by (auto simp: reconcile_run_def and_then_Ok_iff split: if_split_asm)

lemma derived_jobs_terminal:
  assumes "derive_run_state r jobs now = Ok (r', jobs')"
  shows "run_terminal (rn_state r') \<longleftrightarrow> (\<forall>job \<in> set jobs'. job_terminal (rj_state job))"
    and "rn_state r' = aggregate_state (rn_state r) jobs'"
proof -
  obtain time where "r' = r\<lparr>rn_state := aggregate_state (rn_state r) jobs',
      rn_cancellation_requested := ((rn_cancellation_requested r \<or> list_ex (\<lambda>job. rj_state job = JobCanceled) jobs)
        \<and> \<not> (list_all (\<lambda>job. job_terminal (rj_state job)) jobs' \<and> \<not> list_ex (\<lambda>job. rj_state job = JobCanceled) jobs')),
      rn_updated_at_unix := time,
      rn_completed_at_unix := (if run_terminal (aggregate_state (rn_state r) jobs') then Some time else None)\<rparr>"
    using derive_run_state_Ok [OF assms] by metis
  then show state: "rn_state r' = aggregate_state (rn_state r) jobs'" by simp
  show "run_terminal (rn_state r') \<longleftrightarrow> (\<forall>job \<in> set jobs'. job_terminal (rj_state job))"
    unfolding state aggregate_terminal list_all_iff by simp
qed

text \<open>
  After reconciling, a run that has not ended has a job that is queued, being dispatched or running: cancelling leaves
  no job blocked, and otherwise the pass in serial order leaves no blocked job that waits only for ended jobs.
\<close>

lemma reconcile_run_progress:
  assumes compiled: "workflow_ok (wr_definition rv)"
    and keys: "distinct (map rj_key jobs)" and rec: "reconcile_run r jobs rv now = Ok (r', jobs')"
    and open_: "\<not> run_terminal (rn_state r')"
  shows "\<exists>job \<in> set jobs'. rj_state job \<in> {JobQueued, JobDispatching, JobRunning}"
proof (rule ccontr)
  assume none: "\<not> (\<exists>job \<in> set jobs'. rj_state job \<in> {JobQueued, JobDispatching, JobRunning})"
  let ?idx = "stored_job_indexes jobs"
  obtain jobs1 where r: "jobs_match_workflow jobs (wr_definition rv)"
    "reconcile_jobs ?idx now jobs (serial_jobs (wr_definition rv)) = Ok jobs1" "derive_run_state r jobs1 now = Ok (r', jobs')"
    using reconcile_run_Ok [OF rec] by blast
  note ser = workflow_okD [OF compiled]
  have at: "job_at ?idx jobs" by (rule stored_job_at [OF keys])
  have pass: "job_at ?idx jobs1" "length jobs1 = length jobs" "\<forall>s \<in> set (serial_jobs (wr_definition rv)). waits ?idx jobs1 s"
    using reconcile_jobs_effect [OF r(2) at, of "[]" False] ser(1) by auto
  obtain c time where jobs': "jobs' = (if c then map (cancel_waiting_job time) jobs1 else jobs1)"
    using derive_run_state_Ok [OF r(3)] by metis
  have "\<forall>job \<in> set jobs'. job_terminal (rj_state job)"
  proof (cases c)
    case True
    have "job_terminal (rj_state job)" if "job \<in> set jobs'" for job
      using none that True by (cases "rj_state job") (auto simp: jobs' cancel_waiting_state job_terminal_def split: if_split_asm)
    then show ?thesis by blast
  next
    case False
    have "rj_key ` set jobs1 = rj_key ` set jobs" using keys_unchanged [OF at pass(1,2)] by (metis list.set_map)
    then have "\<forall>job \<in> set jobs1. rj_key job \<in> wj_id ` set (serial_jobs (wr_definition rv))"
      using matched_keys [OF r(1) ser(3)] ser(2) by auto
    then show ?thesis using all_ended [OF pass(1) ser(1) pass(3)] none False by (simp add: jobs')
  qed
  then show False using derived_jobs_terminal(1) [OF r(3)] open_ by simp
qed

section \<open>A run and its jobs under every operation\<close>

text \<open>
  Besides the operations of the run on all its jobs, any operation on a single job may happen; those act on jobs that
  are not blocked.
\<close>

type_synonym run_life = "run \<times> job_life list"

inductive run_step :: "workflow_revision \<Rightarrow> run_life \<Rightarrow> run_life \<Rightarrow> bool" for rv where
  reconciled: "reconcile_run r (map fst lives) rv now = Ok (r', jobs')
    \<Longrightarrow> run_step rv (r, lives) (r', zip jobs' (map snd lives))"
| cancellation_requested: "request_run_cancellation r (map fst lives) now = Ok (r', jobs', requested)
    \<Longrightarrow> run_step rv (r, lives) (r', zip jobs' (map snd lives))"
| run_retried: "retry_run r (map fst lives) rv now = Ok (r', jobs')
    \<Longrightarrow> run_step rv (r, lives) (r', zip jobs' (map snd lives))"
| executed: "i < length lives \<Longrightarrow> rj_state (fst (lives ! i)) \<noteq> JobBlocked \<Longrightarrow> job_step (lives ! i) life'
    \<Longrightarrow> run_step rv (r, lives) (r, lives[i := life'])"

text \<open>
  The invariant: consistent run facts, consistent jobs, the jobs of the workflow in its order, a run that has ended
  only when all its jobs have, and no job released before its needs have succeeded.
\<close>

definition jobs_ok :: "workflow_revision \<Rightarrow> job_life list \<Rightarrow> bool" where
  "jobs_ok rv lives \<longleftrightarrow>
     list_all life_ok lives \<and> map (\<lambda>l. rj_key (fst l)) lives = map wj_id (cw_jobs (wr_definition rv))
     \<and> list_all (needs_met (job_indices (cw_jobs (wr_definition rv))) (map fst lives)) (cw_jobs (wr_definition rv))"

fun run_ok :: "workflow_revision \<Rightarrow> run_life \<Rightarrow> bool" where
  "run_ok rv (r, lives) \<longleftrightarrow> run_validate_facts r = Ok () \<and> jobs_ok rv lives
     \<and> (run_terminal (rn_state r) \<longrightarrow> list_all (\<lambda>l. job_terminal (rj_state (fst l))) lives)"

lemma stored_job_indexes_eq:
  assumes "map rj_key jobs = map wj_id specs"
  shows "stored_job_indexes jobs = job_indices specs"
proof -
  have len: "length jobs = length specs" using assms by (metis length_map)
  have "rj_key (jobs ! i) = wj_id (specs ! i)" if "i < length specs" for i
    using arg_cong [OF assms, of "\<lambda>xs. xs ! i"] that len by simp
  then have "map (\<lambda>i. (rj_key (jobs ! i), i)) [0..<length jobs] = map (\<lambda>i. (wj_id (specs ! i), i)) [0..<length specs]"
    using len by simp
  then show ?thesis by (simp add: stored_job_indexes_def job_indices_def enumerate_nth)
qed

text \<open>An operation that moves every job by operations of that job, keeping its key.\<close>

definition jobs_moved :: "run_job list \<Rightarrow> run_job list \<Rightarrow> bool" where
  "jobs_moved jobs jobs' \<longleftrightarrow> length jobs' = length jobs \<and>
     (\<forall>i < length jobs. \<forall>current. life_ok (jobs ! i, current) \<longrightarrow> life_ok (jobs' ! i, current))"

lemma jobs_moved_lives:
  assumes "jobs_moved (map fst lives) jobs'" and "list_all life_ok lives"
  shows "list_all life_ok (zip jobs' (map snd lives))" and "map fst (zip jobs' (map snd lives)) = jobs'"
proof -
  have len: "length jobs' = length lives" using assms(1) by (simp add: jobs_moved_def)
  have "life_ok (jobs' ! i, snd (lives ! i))" if i: "i < length lives" for i
  proof -
    have "life_ok (fst (lives ! i), snd (lives ! i))" using assms(2) i by (simp add: list_all_length)
    then show ?thesis using assms(1) i by (simp add: jobs_moved_def)
  qed
  then show "list_all life_ok (zip jobs' (map snd lives))" using len by (simp add: list_all_length)
  show "map fst (zip jobs' (map snd lives)) = jobs'" using len by simp
qed

lemma jobs_moved_trans: "jobs_moved a b \<Longrightarrow> jobs_moved b c \<Longrightarrow> jobs_moved a c"
  by (auto simp: jobs_moved_def)

lemma reconcile_jobs_moved:
  assumes "reconcile_jobs indexes now jobs specs = Ok jobs'" and "job_at indexes jobs"
  shows "jobs_moved jobs jobs'"
  using assms
proof (induction specs arbitrary: jobs)
  case (Cons spec specs)
  then obtain jobs1 where one: "reconcile_job indexes now jobs spec = Ok jobs1"
    and rest: "reconcile_jobs indexes now jobs1 specs = Ok jobs'" by (auto simp: and_then_Ok_iff)
  have at: "job_at indexes jobs1" and len: "length jobs1 = length jobs"
    using reconcile_job_effect [OF one Cons.prems(2)] by blast+
  have "jobs_moved jobs jobs1"
    unfolding jobs_moved_def using jb.ok_step job_step.job_reconciled [OF one] len by blast
  then show ?case using Cons.IH [OF rest at] jobs_moved_trans by blast
qed (simp add: jobs_moved_def)

lemma derive_moved:
  assumes "derive_run_state r jobs now = Ok (r', jobs')"
  shows "jobs_moved jobs jobs'" and "map rj_key jobs' = map rj_key jobs"
proof -
  obtain c time where jobs': "jobs' = (if c then map (cancel_waiting_job time) jobs else jobs)"
    using derive_run_state_Ok [OF assms] by metis
  then have len: "length jobs' = length jobs" by simp
  show "jobs_moved jobs jobs'"
    unfolding jobs_moved_def using jb.ok_step job_step.run_derived [OF assms] len by blast
  show "map rj_key jobs' = map rj_key jobs" by (simp add: jobs' cancel_waiting_job_def Let_def)
qed

text \<open>Needs stay met while no blocked job is released and no success is taken back.\<close>

lemma needs_met_step:
  assumes met: "needs_met indexes jobs spec"
    and step: "\<And>k i. bt_get indexes k = Some i \<Longrightarrow> rj_state (jobs' ! i) \<in> released \<Longrightarrow> rj_state (jobs ! i) \<in> released"
      "\<And>k i. bt_get indexes k = Some i \<Longrightarrow> rj_state (jobs ! i) = JobSucceeded \<Longrightarrow> rj_state (jobs' ! i) = JobSucceeded"
  shows "needs_met indexes jobs' spec"
  unfolding needs_met_def
proof (intro allI impI)
  fix i assume i: "bt_get indexes (wj_id spec) = Some i" "rj_state (jobs' ! i) \<in> released"
  then have old: "need_states indexes jobs spec \<subseteq> {JobSucceeded}" using met step(1) unfolding needs_met_def by blast
  show "need_states indexes jobs' spec \<subseteq> {JobSucceeded}"
  proof
    fix x assume "x \<in> need_states indexes jobs' spec"
    then obtain k d where k: "k \<in> set (wj_needs spec)" "bt_get indexes k = Some d" "x = rj_state (jobs' ! d)"
      by (auto simp: need_states_def)
    then have "rj_state (jobs ! d) = JobSucceeded" using old by (auto simp: need_states_def)
    then show "x \<in> {JobSucceeded}" using step(2) [OF k(2)] k(3) by simp
  qed
qed

lemma derive_needs_met:
  assumes "derive_run_state r jobs now = Ok (r', jobs')" and "needs_met indexes jobs spec" and "job_at indexes jobs"
  shows "needs_met indexes jobs' spec"
proof (rule needs_met_step [OF assms(2)])
  fix k i
  assume k: "bt_get indexes k = Some i"
  obtain c time where jobs': "jobs' = (if c then map (cancel_waiting_job time) jobs else jobs)"
    using derive_run_state_Ok [OF assms(1)] by metis
  have "i < length jobs" using k assms(3) by (simp add: job_at_def)
  then have state: "rj_state (jobs' ! i) = (if c \<and> rj_state (jobs ! i) \<in> {JobBlocked, JobQueued} then JobCanceled else rj_state (jobs ! i))"
    by (simp add: jobs' cancel_waiting_state)
  show "rj_state (jobs' ! i) \<in> released \<Longrightarrow> rj_state (jobs ! i) \<in> released" using state by (auto split: if_split_asm)
  show "rj_state (jobs ! i) = JobSucceeded \<Longrightarrow> rj_state (jobs' ! i) = JobSucceeded" using state by simp
qed

lemma jobs_okI:
  assumes "jobs_moved (map fst lives) jobs'" and "jobs_ok rv lives" and "map rj_key jobs' = map rj_key (map fst lives)"
    and "list_all (needs_met (job_indices (cw_jobs (wr_definition rv))) jobs') (cw_jobs (wr_definition rv))"
  shows "jobs_ok rv (zip jobs' (map snd lives))" and "map fst (zip jobs' (map snd lives)) = jobs'"
proof -
  note l = jobs_moved_lives [OF assms(1)]
  have ok: "list_all life_ok lives" using assms(2) by (simp add: jobs_ok_def)
  show jobs': "map fst (zip jobs' (map snd lives)) = jobs'" by (rule l(2) [OF ok])
  have "map (\<lambda>l. rj_key (fst l)) (zip jobs' (map snd lives)) = map rj_key jobs'"
    using arg_cong [OF jobs', of "map rj_key"] by (simp add: comp_def)
  then show "jobs_ok rv (zip jobs' (map snd lives))"
    using l(1) [OF ok] assms(2-4) jobs' by (simp add: jobs_ok_def comp_def)
qed

lemma keys_job_at:
  assumes "jobs_ok rv lives" and "distinct (map wj_id (cw_jobs (wr_definition rv)))"
  shows "job_at (job_indices (cw_jobs (wr_definition rv))) (map fst lives)"
    and "stored_job_indexes (map fst lives) = job_indices (cw_jobs (wr_definition rv))"
proof -
  have keys: "map rj_key (map fst lives) = map wj_id (cw_jobs (wr_definition rv))"
    using assms(1) by (simp add: jobs_ok_def comp_def)
  then show idx: "stored_job_indexes (map fst lives) = job_indices (cw_jobs (wr_definition rv))"
    by (rule stored_job_indexes_eq)
  show "job_at (job_indices (cw_jobs (wr_definition rv))) (map fst lives)"
    unfolding idx [symmetric] by (rule stored_job_at) (simp only: keys assms(2))
qed

lemma derive_keeps:
  assumes d: "derive_run_state r jobs now = Ok (r', jobs')" and ok: "jobs_ok rv lives" "run_validate_facts r = Ok ()"
    and moved: "jobs_moved (map fst lives) jobs" "map rj_key jobs = map rj_key (map fst lives)"
    and met: "list_all (needs_met (job_indices (cw_jobs (wr_definition rv))) jobs) (cw_jobs (wr_definition rv))"
    and at: "job_at (job_indices (cw_jobs (wr_definition rv))) jobs"
  shows "run_ok rv (r', zip jobs' (map snd lives))"
proof -
  have "jobs_moved (map fst lives) jobs'" using moved(1) derive_moved(1) [OF d] jobs_moved_trans by blast
  moreover have "map rj_key jobs' = map rj_key (map fst lives)" using moved(2) derive_moved(2) [OF d] by simp
  moreover have "list_all (needs_met (job_indices (cw_jobs (wr_definition rv))) jobs') (cw_jobs (wr_definition rv))"
    using met derive_needs_met [OF d _ at] by (simp add: list_all_iff)
  ultimately have zip: "jobs_ok rv (zip jobs' (map snd lives))" "map fst (zip jobs' (map snd lives)) = jobs'"
    using jobs_okI ok(1) by blast+
  have "list_all (\<lambda>l. job_terminal (rj_state (fst l))) (zip jobs' (map snd lives))" if "run_terminal (rn_state r')"
  proof -
    have "list_all (\<lambda>job. job_terminal (rj_state job)) jobs'" using that derived_jobs_terminal(1) [OF d] by (simp add: list_all_iff)
    then have "list_all (\<lambda>job. job_terminal (rj_state job)) (map fst (zip jobs' (map snd lives)))" by (simp only: zip(2))
    then show ?thesis by (simp add: list.pred_map comp_def)
  qed
  then show ?thesis using zip(1) derive_run_state_facts [OF d ok(2)] by simp
qed

lemma reconciled_ok:
  assumes wf: "workflow_ok (wr_definition rv)" and ok: "run_ok rv (r, lives)" and rec: "reconcile_run r (map fst lives) rv now = Ok (r', jobs')"
  shows "run_ok rv (r', zip jobs' (map snd lives))"
proof -
  let ?idx = "job_indices (cw_jobs (wr_definition rv))"
  note compiled = workflow_okD [OF wf]
  have jobs: "jobs_ok rv lives" and facts: "run_validate_facts r = Ok ()" using ok by auto
  note at = keys_job_at [OF jobs compiled(3)]
  obtain jobs1 where r: "reconcile_jobs ?idx now (map fst lives) (serial_jobs (wr_definition rv)) = Ok jobs1"
    "derive_run_state r jobs1 now = Ok (r', jobs')"
    using reconcile_run_Ok [OF rec] at(2) by metis
  have "job_at ?idx jobs1" "length jobs1 = length (map fst lives)" "\<forall>s \<in> set (cw_jobs (wr_definition rv)). needs_met ?idx jobs1 s"
    using reconcile_jobs_effect [OF r(1) at(1), of "[]" True] compiled(1,2) jobs by (auto simp: jobs_ok_def list_all_iff)
  then show ?thesis
    using derive_keeps [OF r(2) jobs facts reconcile_jobs_moved [OF r(1) at(1)]] keys_unchanged [OF at(1)]
    by (simp add: list_all_iff)
qed

lemma cancellation_requested_ok:
  assumes wf: "workflow_ok (wr_definition rv)" and ok: "run_ok rv (r, lives)"
    and c: "request_run_cancellation r (map fst lives) now = Ok (r', jobs', requested)"
  shows "run_ok rv (r', zip jobs' (map snd lives))"
proof -
  have jobs: "jobs_ok rv lives" and facts: "run_validate_facts r = Ok ()" using ok by auto
  from c obtain r1 where r1: "request_cancellation r (max now (rn_updated_at_unix r)) = Ok (r1, requested)"
    and rest: "if requested then derive_run_state r1 (map fst lives) now = Ok (r', jobs') else r' = r1 \<and> jobs' = map fst lives"
    by (auto simp: request_run_cancellation_def and_then_Ok_iff split: if_split_asm)
  show ?thesis
  proof (cases requested)
    case False
    then have "r' = r" using r1 rest by (auto simp: request_cancellation_def and_then_Ok_iff split: if_split_asm)
    moreover have "zip (map fst lives) (map snd lives) = lives" by (rule zip_map_fst_snd)
    ultimately show ?thesis using ok rest False by simp
  next
    case True
    then have "r1 = r\<lparr>rn_cancellation_requested := True, rn_updated_at_unix := max now (rn_updated_at_unix r)\<rparr>"
      "\<not> run_terminal (rn_state r)"
      using r1 by (auto simp: request_cancellation_def can_request_cancellation_def and_then_Ok_iff split: if_split_asm)
    then have "run_validate_facts r1 = Ok ()" using facts by (auto simp: run_validate_facts_Ok max_def)
    moreover have "jobs_moved (map fst lives) (map fst lives)" by (simp add: jobs_moved_def)
    ultimately show ?thesis
      using derive_keeps [of r1 "map fst lives" now r' jobs' rv lives] rest True jobs keys_job_at(1) [OF jobs workflow_okD(3) [OF wf]]
      by (auto simp: jobs_ok_def)
  qed
qed

lemma retried_life_ok:
  assumes "retry_job workflow now job = Ok job'" and "life_ok (job, current)" and "job_terminal (rj_state job)"
    and "rj_updated_at_unix job \<le> now"
  shows "life_ok (job', current)"
proof -
  have "job_ok job" using assms(2) by (cases current) auto
  note r = retry_job_facts [OF assms(1) this assms(4)]
  have "\<not> active_job job" using assms(3) by (auto simp: job_terminal_def)
  then show ?thesis using life_ok_job_changed [OF assms(2) r(1)] r(2) by blast
qed

lemma retry_job_key: "retry_job workflow now job = Ok job' \<Longrightarrow> rj_key job' = rj_key job"
  by (auto simp: retry_job_def split: option.split_asm)

lemma retry_job_state:
  "retry_job workflow now job = Ok job' \<Longrightarrow> \<exists>spec. CompiledWorkflow_job workflow (rj_key job) = Some spec
     \<and> rj_state job' = (if wj_needs spec = [] then JobQueued else JobBlocked)"
  by (auto simp: retry_job_def split: option.split_asm)

lemma run_retried_ok:
  assumes wf: "workflow_ok (wr_definition rv)" and ok: "run_ok rv (r, lives)"
    and c: "retry_run r (map fst lives) rv now = Ok (r', jobs')"
  shows "run_ok rv (r', zip jobs' (map snd lives))"
proof -
  let ?idx = "job_indices (cw_jobs (wr_definition rv))"
  have jobs: "jobs_ok rv lives" and facts: "run_validate_facts r = Ok ()" using ok by auto
  note f = retry_run_job [OF c]
  have len: "length jobs' = length lives" and time: "rn_updated_at_unix r \<le> now" and over: "run_terminal (rn_state r)"
    and r': "r' = r\<lparr>rn_state := RunQueued, rn_cancellation_requested := False, rn_updated_at_unix := now, rn_completed_at_unix := None\<rparr>"
    using c by (auto simp: retry_run_def and_then_Ok_iff collect_results_Ok ensure_retry_time_def can_retry_run_def split: if_split_asm)
  have ended: "job_terminal (rj_state (fst (lives ! i)))" if "i < length lives" for i
    using ok over that by (simp add: list_all_length)
  have moved: "jobs_moved (map fst lives) jobs'"
    unfolding jobs_moved_def using len f(1,4) ended
    by (auto intro: retried_life_ok [of "wr_definition rv" now])
  have keys: "map rj_key jobs' = map rj_key (map fst lives)"
  proof (rule nth_equalityI)
    fix i assume "i < length (map rj_key jobs')"
    then show "map rj_key jobs' ! i = map rj_key (map fst lives) ! i"
      using retry_job_key [OF f(1) [of i]] len by simp
  qed (simp add: len)
  have "needs_met ?idx jobs' spec" if spec: "spec \<in> set (cw_jobs (wr_definition rv))" for spec
    unfolding needs_met_def
  proof (intro allI impI)
    fix i assume i: "bt_get ?idx (wj_id spec) = Some i" "rj_state (jobs' ! i) \<in> released"
    then have lt: "i < length lives" and key: "rj_key (fst (lives ! i)) = wj_id spec"
      using keys_job_at(1) [OF jobs workflow_okD(3) [OF wf]] by (auto simp: job_at_def)
    obtain found where s: "find (\<lambda>job. wj_id job = wj_id spec) (cw_jobs (wr_definition rv)) = Some found"
      and state: "rj_state (jobs' ! i) = (if wj_needs found = [] then JobQueued else JobBlocked)"
      using retry_job_state [OF f(1) [of i]] lt key workflow_okD(4) [OF wf] by auto
    have "found = spec"
      using find_SomeD [OF s] spec workflow_okD(3) [OF wf] by (auto simp: distinct_map inj_on_def)
    then have "wj_needs spec = []" using state i(2) by (auto split: if_split_asm)
    then show "need_states ?idx jobs' spec \<subseteq> {JobSucceeded}" by (simp add: need_states_def)
  qed
  then have "jobs_ok rv (zip jobs' (map snd lives))"
    using jobs_okI(1) [OF moved jobs keys] by (simp add: list_all_iff)
  moreover have "run_validate_facts r' = Ok ()"
    using facts time by (auto simp: run_validate_facts_Ok r' run_terminal_def)
  ultimately show ?thesis by (simp add: r' run_terminal_def)
qed

lemma job_edge_released:
  "job_edge s t \<Longrightarrow> s \<noteq> JobBlocked \<Longrightarrow> s \<in> released \<and> s \<noteq> JobSucceeded \<and> \<not> job_terminal s"
  by (cases s) (auto simp: job_terminal_def)

lemma job_move_key: "job_move job job' \<Longrightarrow> rj_key job' = rj_key job"
proof (induction rule: job_move.induct)
  case dispatched
  then show ?case by (elim dispatch_Ok) simp
qed (auto simp: finished_job_def record_capacity_rejection_def expire_capacity_retry_def and_then_Ok_iff Let_def
    cancel_waiting_job_def split: option.split_asm if_split_asm)

lemma executed_ok:
  assumes wf: "workflow_ok (wr_definition rv)" and ok: "run_ok rv (r, lives)"
    and i: "i < length lives" "rj_state (fst (lives ! i)) \<noteq> JobBlocked" and step: "job_step (lives ! i) life'"
  shows "run_ok rv (r, lives[i := life'])"
proof -
  let ?idx = "job_indices (cw_jobs (wr_definition rv))"
  have jobs: "jobs_ok rv lives" using ok by simp
  have life: "life_ok (lives ! i)" using jobs i(1) by (simp add: jobs_ok_def list_all_length)
  note life' = jb.ok_step [OF life step]
  have state: "rj_state (fst life') = rj_state (fst (lives ! i)) \<or>
      rj_state (fst (lives ! i)) \<in> released - {JobSucceeded} \<and> \<not> job_terminal (rj_state (fst (lives ! i)))"
    using jb.step_edge [OF life step] job_edge_released i(2) by blast
  have "needs_met ?idx (map fst (lives[i := life'])) spec" if "needs_met ?idx (map fst lives) spec" for spec
  proof (rule needs_met_step [OF that])
    fix k j assume "bt_get ?idx k = Some j"
    then have j: "j < length lives" using keys_job_at(1) [OF jobs workflow_okD(3) [OF wf]] by (auto simp: job_at_def)
    show "rj_state (map fst (lives[i := life']) ! j) \<in> released \<Longrightarrow> rj_state (map fst lives ! j) \<in> released"
      using state j i(1) by (cases "j = i") auto
    show "rj_state (map fst lives ! j) = JobSucceeded \<Longrightarrow> rj_state (map fst (lives[i := life']) ! j) = JobSucceeded"
      using state j i(1) by (cases "j = i") auto
  qed
  moreover have "map (\<lambda>l. rj_key (fst l)) (lives[i := life']) = map (\<lambda>l. rj_key (fst l)) lives"
    using job_move_key [of "fst (lives ! i)" "fst life'"] job_step_ok [OF life step] i(1) by (simp add: map_update list_update_same_conv)
  moreover have "list_all life_ok (lives[i := life'])" using jobs life' by (simp add: jobs_ok_def list_all_update)
  moreover have "list_all (needs_met ?idx (map fst lives)) (cw_jobs (wr_definition rv))" using jobs by (simp add: jobs_ok_def)
  ultimately have "jobs_ok rv (lives[i := life'])"
    using jobs list.pred_mono_strong unfolding jobs_ok_def by (metis (mono_tags, lifting))
  moreover have "list_all (\<lambda>l. job_terminal (rj_state (fst l))) (lives[i := life'])" if "run_terminal (rn_state r)"
  proof -
    have all: "list_all (\<lambda>l. job_terminal (rj_state (fst l))) lives" using ok that by simp
    then have "job_terminal (rj_state (fst (lives ! i)))" using i(1) by (simp add: list_all_length)
    then show ?thesis using all state by (auto intro: list_all_update)
  qed
  ultimately show ?thesis using ok by simp
qed

lemma run_step_ok:
  assumes "workflow_ok (wr_definition rv)" and "run_step rv s s'" and "run_ok rv s"
  shows "run_ok rv s'"
  using assms(2,3) reconciled_ok [OF assms(1)] cancellation_requested_ok [OF assms(1)] run_retried_ok [OF assms(1)]
    executed_ok [OF assms(1)]
  by cases blast+

lemma run_reachable_ok:
  assumes "workflow_ok (wr_definition rv)" and "(run_step rv)\<^sup>*\<^sup>* s s'" and "run_ok rv s"
  shows "run_ok rv s'"
  using assms(2,3) by induction (auto intro: run_step_ok [OF assms(1)])

lemma new_run_ok:
  assumes "run_validate_facts r = Ok ()" and "\<not> run_terminal (rn_state r)" and "create_run_jobs r rv = Ok jobs"
    and "workflow_ok (wr_definition rv)"
  shows "run_ok rv (r, map (\<lambda>job. (job, None)) jobs)"
proof -
  let ?specs = "cw_jobs (wr_definition rv)"
  have jobs: "jobs = map (RunJob_new r) ?specs" using assms(3) by (auto simp: create_run_jobs_def and_then_Ok_iff)
  have "needs_met (job_indices ?specs) jobs spec" if spec: "spec \<in> set ?specs" for spec
    unfolding needs_met_def
  proof (intro allI impI)
    fix i assume i: "bt_get (job_indices ?specs) (wj_id spec) = Some i" "rj_state (jobs ! i) \<in> released"
    then have "i < length ?specs" "wj_id (?specs ! i) = wj_id spec"
      using index_map_get [OF workflow_okD(3) [OF assms(4)]] by (auto simp: job_indices_def)
    moreover from this have "?specs ! i = spec"
      using spec workflow_okD(3) [OF assms(4)] by (auto simp: distinct_map inj_on_def)
    ultimately have "wj_needs spec = []" using i(2) by (auto simp: jobs RunJob_new_def split: if_split_asm)
    then show "need_states (job_indices ?specs) jobs spec \<subseteq> {JobSucceeded}" by (simp add: need_states_def)
  qed
  then have "list_all (needs_met (job_indices ?specs) jobs) ?specs" by (simp add: list_all_iff)
  moreover have "rj_key (RunJob_new r spec) = wj_id spec" for spec by (simp add: RunJob_new_def)
  ultimately show ?thesis
    using assms(1,2) new_job_ok by (simp add: jobs_ok_def jobs comp_def list_all_iff del: life_ok.simps)
qed

end
