(* ===== verification/Execution_Properties.thy ===== *)
theory Execution_Properties
  imports Execution_Machine
begin

text \<open>
  What holds of a job, its attempts and their steps after any sequence of operations, how often a job can change its
  state, who may act on an attempt, and how executing steps refines counting them.
\<close>

section \<open>A job under operation\<close>

definition sample_hash :: string where "sample_hash = replicate 64 (CHR ''a'')"

definition sample_run :: run where
  "sample_run = \<lparr>rn_id = ''run'', rn_idempotency_key = ''key'',
     rn_workflow = \<lparr>wi_repository_id = ''repo'', wi_path = WorkflowPath ''ci''\<rparr>,
     rn_workflow_revision_digest = sample_hash, rn_trigger = TriggerManual, rn_requested_by_user_id = Some ''u'',
     rn_source = EphemeralGitBundle \<lparr>sb_content_ref = GitBundleSha256 sample_hash, sb_sha256 = sample_hash,
       sb_git_oid = sample_hash, sb_git_file_mode = ''100644'', sb_size_bytes = 1\<rparr>,
     rn_state = RunQueued, rn_cancellation_requested = False, rn_created_at_unix = 10, rn_updated_at_unix = 10,
     rn_completed_at_unix = None\<rparr>"

definition sample_job :: run_job where "sample_job = RunJob_new sample_run (demo_job ''b'' [])"

definition sample_dispatched :: run_job where
  "sample_dispatched = sample_job\<lparr>rj_state := JobDispatching, rj_last_attempt_number := 1,
     rj_current_attempt_id := Some ''at'', rj_updated_at_unix := 11\<rparr>"

definition sample_attempt :: run_attempt where
  "sample_attempt = \<lparr>at_id = ''at'', at_run_id = ''run'', at_job_key = WorkflowJobId ''b'', at_number = 1,
     at_external_run_id = None, at_runtime_version = ''v1'', at_token_hash = sample_hash,
     at_state = AttemptDispatching, at_lease_expires_at_unix = 100, at_last_heartbeat_at_unix = 11,
     at_created_at_unix = 11, at_started_at_unix = None, at_completed_at_unix = None, at_terminal_reason = None,
     at_log_bytes = 0, at_first_truncated_step_index = None\<rparr>"

definition sample_step :: run_attempt_step where
  "sample_step = \<lparr>st_attempt_id = ''at'', st_step_index = 0, st_state = StepPending, st_started_at_unix = None,
     st_completed_at_unix = None, st_exit_code = None\<rparr>"

lemmas sample_defs = sample_run_def sample_job_def sample_dispatched_def sample_attempt_def sample_step_def
  demo_job_def RunJob_new_def

lemma sample_hash_ok [simp]: "validate_sha256_hash label sample_hash = Ok ()"
  by (simp add: validate_sha256_hash_def sample_hash_def list_all_iff is_ascii_hexdigit_def is_ascii_digit_def)

lemma required_visible [simp]:
  "visible_ascii (hd s) \<Longrightarrow> visible_ascii (last s) \<Longrightarrow> s \<noteq> [] \<Longrightarrow> required label s = Ok s"
  by (simp add: required_def trim_visible)

lemma sample_dispatch:
  "dispatch sample_job sample_run (demo_job ''b'' []) ''at'' sample_hash ''v1'' 11 100
     = Ok (sample_dispatched, sample_attempt, [sample_step])"
  by (simp add: dispatch_def sample_defs job_time_not_before_update_def capacity_retry_not_due_def
      visible_ascii_def checked_add_def MAX_RUN_ATTEMPTS_def pending_step_at_def step_pending_def trim_visible
      clear_next_attempt_def)

lemma sample_dispatch_step: "job_step (sample_job, None) (sample_dispatched, Some (sample_attempt, [sample_step]))"
  by (rule job_step.dispatched [OF sample_dispatch]) (simp add: demo_job_def)



text \<open>
  C34: A job cannot go back and forth without end. Between its creation and the next retry of the run its state changes
  at most 202 times, whatever the dispatcher, the runtimes and the provider do: every dispatch uses one of a hundred
  attempts. Once a job has ended no operation on it changes its state.
\<close>

theorem job_changes_bounded:
  assumes "trace job_step ((RunJob_new r spec, None) # lives)"
  shows "changes (\<lambda>s. rj_state (fst s)) ((RunJob_new r spec, None) # lives) \<le> 202
    \<and> (\<forall>i j. i < j \<longrightarrow> j < length lives \<longrightarrow> job_terminal (rj_state (fst (lives ! i))) \<longrightarrow>
         rj_state (fst (lives ! j)) = rj_state (fst (lives ! i)))"
proof -
  have "rj_state (fst (lives ! j)) = rj_state (fst (lives ! i))"
    if "i < j" "j < length lives" "job_terminal (rj_state (fst (lives ! i)))" for i j
  proof -
    have reach: "job_step\<^sup>*\<^sup>* (RunJob_new r spec, None) (lives ! i)" "job_step\<^sup>*\<^sup>* (lives ! i) (lives ! j)"
      using trace_reaches [OF assms, of 0 "Suc i"] trace_reaches [OF assms, of "Suc i" "Suc j"] that(1,2) by simp_all
    have "life_ok (lives ! i)" using jb.ok_reachable [OF reach(1) new_job_ok] .
    moreover have "\<not> job_edge (rj_state (fst (lives ! i))) t" for t
      using that(3) by (cases "rj_state (fst (lives ! i))") (simp_all add: job_terminal_def)
    ultimately show ?thesis using jb.final_absorbing [OF reach(2)] by blast
  qed
  then show ?thesis
    using jb.changes_bounded [OF assms new_job_ok] new_job_budget [of r spec] by (auto intro: order_trans)
qed

theorem job_changes_bounded_witness:
  "changes (\<lambda>s. rj_state (fst s))
     [(RunJob_new sample_run (demo_job ''b'' []), None), (sample_dispatched, Some (sample_attempt, [sample_step]))] \<le> 202
   \<and> changes (\<lambda>s. rj_state (fst s))
     [(RunJob_new sample_run (demo_job ''b'' []), None), (sample_dispatched, Some (sample_attempt, [sample_step]))] = 1"
proof -
  have "trace job_step [(RunJob_new sample_run (demo_job ''b'' []), None), (sample_dispatched, Some (sample_attempt, [sample_step]))]"
    using sample_dispatch_step by (simp add: sample_job_def)
  from job_changes_bounded [OF this] show ?thesis by (simp add: sample_defs)
qed

section \<open>Who may act on an attempt\<close>



section \<open>Executing steps refines counting\<close>

text \<open>The specification of the runtime's work: how many steps are done and whether the next one runs.\<close>

inductive counts :: "nat \<Rightarrow> nat \<times> bool \<Rightarrow> nat \<times> bool \<Rightarrow> bool" for total where
  begin_step: "k < total \<Longrightarrow> counts total (k, False) (k, True)"
| finish_step: "counts total (k, True) (Suc k, False)"

definition progress :: "run_attempt_step list \<Rightarrow> nat \<times> bool" where
  "progress steps = (length (takeWhile (\<lambda>s. st_state s = StepSucceeded) steps), list_ex (\<lambda>s. st_state s = StepRunning) steps)"

lemma progress_at:
  assumes "list_all (\<lambda>s. st_state s = StepSucceeded) (take i steps)" and "list_all idle (drop (Suc i) steps)"
    and "i < length steps" and "st_state (steps ! i) \<noteq> StepSucceeded"
  shows "progress steps = (i, st_state (steps ! i) = StepRunning)"
proof -
  have "takeWhile (\<lambda>s. st_state s = StepSucceeded) steps = take i steps"
    by (rule takeWhile_eq_take_P_nth) (use assms in \<open>auto simp: list_all_length\<close>)
  moreover have "set steps = set (take i steps) \<union> insert (steps ! i) (set (drop (Suc i) steps))"
    using arg_cong [OF id_take_nth_drop [OF assms(3)], of set] by simp
  then have "list_ex (\<lambda>s. st_state s = StepRunning) steps \<longleftrightarrow> st_state (steps ! i) = StepRunning"
    using assms(1,2) by (auto simp: list_ex_iff list_all_iff idle_def)
  ultimately show ?thesis using assms(3) by (simp add: progress_def)
qed

lemma succeeded_before:
  assumes "in_order steps" and "i < length steps" and "st_state (steps ! i) = StepSucceeded"
  shows "i < fst (progress steps)"
proof -
  have "list_all (\<lambda>s. st_state s = StepSucceeded) (take i steps)"
    using in_order_split [OF assms(1,2)] assms(3) by (simp add: idle_def)
  then have all: "list_all (\<lambda>s. st_state s = StepSucceeded) (take (Suc i) steps)"
    using assms(2,3) by (simp add: take_Suc_conv_app_nth)
  have "length (takeWhile (\<lambda>s. st_state s = StepSucceeded) (take (Suc i) steps @ drop (Suc i) steps)) \<ge> length (take (Suc i) steps)"
    using all by (subst takeWhile_append2) (auto simp: list_all_iff)
  then show ?thesis using assms(2) by (simp add: progress_def)
qed

lemma progress_succeeded:
  assumes ok: "steps_ok a steps" and i: "i < length steps" "st_state (steps ! i) = StepRunning" and s: "st_state s = StepSucceeded"
  shows "progress (steps[i := s]) = (Suc i, False)"
proof -
  note split = running_step_split(2,3) [OF ok i]
  have "takeWhile (\<lambda>s. st_state s = StepSucceeded) (steps[i := s]) = take (Suc i) (steps[i := s])"
  proof (rule takeWhile_eq_take_P_nth)
    fix j assume "j < Suc i" "j < length (steps[i := s])"
    then show "st_state (steps[i := s] ! j) = StepSucceeded"
      using split(1) s by (cases "j = i") (auto simp: list_all_length)
  next
    assume "Suc i < length (steps[i := s])"
    then have "idle (steps ! Suc i)" using split(2) by (auto simp: list_all_length dest!: spec [of _ 0])
    then show "st_state (steps[i := s] ! Suc i) \<noteq> StepSucceeded" by (auto simp: idle_def)
  qed
  moreover have "st_state x \<noteq> StepRunning" if "x \<in> set (steps[i := s])" for x
    using that split s i(1)
    by (auto simp: upd_conv_take_nth_drop list_all_iff idle_def)
  ultimately show ?thesis using i(1) by (auto simp: progress_def list_ex_iff)
qed

lemma start_step_counts:
  assumes ok: "attempt_ok job attempt steps"
    and s: "start_step (attempt, job, steps) r token_hash step_index now = Ok (attempt', job', steps')"
  shows "(counts (length steps))\<^sup>=\<^sup>= (progress steps) (progress steps') \<and> progress steps' = (unat step_index, True)"
proof -
  let ?i = "unat step_index"
  have steps: "steps_ok (at_id attempt) steps" using ok by (simp add: attempt_ok_def validate_execution_Ok)
  have i: "?i < length steps" and
    rest: "steps' = steps \<and> st_state (steps ! ?i) = StepRunning \<or>
      st_state (steps ! ?i) = StepPending \<and> list_all (\<lambda>s. st_state s = StepSucceeded) (take ?i steps)
      \<and> steps' = steps[?i := step_start now (steps ! ?i)]"
    using start_step_Ok [OF s] by metis+
  from rest show ?thesis
  proof (elim disjE conjE)
    assume "steps' = steps" and run: "st_state (steps ! ?i) = StepRunning"
    then show ?thesis using progress_at [OF running_step_split(2,3) [OF steps i run] i] by simp
  next
    assume pend: "st_state (steps ! ?i) = StepPending" and pre: "list_all (\<lambda>s. st_state s = StepSucceeded) (take ?i steps)"
      and steps': "steps' = steps[?i := step_start now (steps ! ?i)]"
    have post: "list_all idle (drop (Suc ?i) steps)" using in_order_behind [of steps ?i] steps i pend by (simp add: steps_ok_def)
    have "progress steps = (?i, False)" using progress_at [OF pre post i] pend by simp
    moreover have "progress steps' = (?i, True)" unfolding steps' using pre post i
      by (subst progress_at [of ?i]) (simp_all add: step_start_def)
    ultimately show ?thesis using counts.begin_step [OF i] by simp
  qed
qed

lemma complete_step_counts:
  assumes ok: "attempt_ok job attempt steps"
    and c: "complete_step (attempt, job, steps) token_hash step_index StepConclusionSucceeded truncated now
      = Ok (attempt', job', steps')"
  shows "(counts (length steps))\<^sup>=\<^sup>= (progress steps) (progress steps') \<and> unat step_index < fst (progress steps')"
proof -
  let ?i = "unat step_index"
  have steps: "steps_ok (at_id attempt) steps" using ok by (simp add: attempt_ok_def validate_execution_Ok)
  have i: "?i < length steps" and
    rest: "steps' = steps \<and> st_state (steps ! ?i) = StepSucceeded \<or>
      st_state (steps ! ?i) = StepRunning \<and> steps' = steps[?i := step_succeed now (steps ! ?i)]"
    using c by (auto simp: complete_step_def conclude_step_def and_then_Ok_iff Let_def get_step_def step_matches_conclusion_def
        split: if_split_asm option.split_asm)
  from rest show ?thesis
  proof (elim disjE conjE)
    assume "steps' = steps" "st_state (steps ! ?i) = StepSucceeded"
    then show ?thesis using succeeded_before [of steps ?i] steps i by (simp add: steps_ok_def)
  next
    assume run: "st_state (steps ! ?i) = StepRunning" and steps': "steps' = steps[?i := step_succeed now (steps ! ?i)]"
    have "progress steps = (?i, True)" using progress_at [OF running_step_split(2,3) [OF steps i run] i] run by simp
    moreover have "progress steps' = (Suc ?i, False)"
      unfolding steps' by (rule progress_succeeded [OF steps i run]) (simp add: step_succeed_def)
    ultimately show ?thesis using counts.finish_step by simp
  qed
qed

lemma progress_all: "list_all (\<lambda>s. st_state s = StepSucceeded) steps \<Longrightarrow> progress steps = (length steps, False)"
  by (auto simp: progress_def list_all_iff list_ex_iff takeWhile_eq_all_conv [THEN iffD2])

lemma complete_counts:
  assumes ok: "attempt_ok job attempt steps"
    and c: "complete (attempt, job, steps) r token_hash ConcludeSucceeded truncated now = Ok (attempt', job', steps')"
    and st: "at_state attempt' = AttemptSucceeded"
  shows "progress steps' = (length steps', False) \<and> steps' = steps"
proof (cases "attempt_terminal (at_state attempt) \<or> job_terminal (rj_state job)")
  case True
  then have same: "attempt' = attempt" "steps' = steps"
    using c by (auto simp: complete_def and_then_Ok_iff split: if_split_asm)
  then have "list_all (\<lambda>s. st_state s = StepSucceeded) steps"
    using ok st by (cases "at_terminal_reason attempt") (auto simp: attempt_ok_def validate_execution_Ok aggregate_matches_def)
  then show ?thesis using progress_all same by simp
next
  case False
  then obtain attempt1 where "conclude_attempt (attempt1, job, steps) r ConcludeSucceeded now = Ok (attempt', job', steps')"
    using c by (auto simp: complete_def and_then_Ok_iff)
  then have "steps' = steps" "list_all (\<lambda>s. st_state s = StepSucceeded) steps"
    by (auto simp: conclude_attempt_def conclusion_effects_def and_then_Ok_iff finish_attempt_def list_all_iff list_ex_iff
        split: if_split_asm)
  then show ?thesis using progress_all by simp
qed

text \<open>
  Executing the steps of an attempt refines counting them: starting a step either finds it running already or
  takes the counter from \<open>k\<close> steps done to the next one running, for exactly the step asked for; a step reported as
  succeeded takes it from that step running to one more done; repeating either report changes nothing. An attempt is
  concluded as a success only when the counter has reached the number of steps.
\<close>

theorem steps_refine_counting:
  assumes ok: "attempt_ok job attempt steps"
  shows "(start_step (attempt, job, steps) r token_hash step_index now = Ok (attempt1, job1, steps1) \<longrightarrow>
      (counts (length steps))\<^sup>=\<^sup>= (progress steps) (progress steps1) \<and> progress steps1 = (unat step_index, True))
    \<and> (complete_step (attempt, job, steps) token_hash step_index StepConclusionSucceeded truncated now
        = Ok (attempt2, job2, steps2) \<longrightarrow>
      (counts (length steps))\<^sup>=\<^sup>= (progress steps) (progress steps2) \<and> unat step_index < fst (progress steps2))
    \<and> (complete (attempt, job, steps) r token_hash ConcludeSucceeded truncated now = Ok (attempt3, job3, steps3) \<longrightarrow>
      at_state attempt3 = AttemptSucceeded \<longrightarrow> progress steps3 = (length steps3, False) \<and> steps3 = steps)"
  by (intro conjI impI)
    (erule start_step_counts [OF ok, THEN conjunct1] start_step_counts [OF ok, THEN conjunct2]
      complete_step_counts [OF ok, THEN conjunct1] complete_step_counts [OF ok, THEN conjunct2]
      complete_counts [OF ok, THEN conjunct1] complete_counts [OF ok, THEN conjunct2], assumption?)+

definition sample_running_steps :: "run_attempt_step list" where
  "sample_running_steps = [step_start 12 sample_step]"

lemma sample_start:
  "\<exists>attempt' job'. start_step (sample_attempt, sample_dispatched, [sample_step]) sample_run sample_hash 0 12
     = Ok (attempt', job', sample_running_steps)"
proof -
  have "authenticate sample_attempt sample_dispatched sample_hash 12 = Ok ()"
    by (simp add: authenticate_Ok ensure_current_Ok sample_defs states_align_def)
  moreover have "validate_execution (sample_attempt\<lparr>at_state := AttemptRunning, at_started_at_unix := Some 12\<rparr>) [sample_step] = Ok ()"
    by (simp add: validate_execution_def sample_defs step_validate_facts_def step_terminal_def aggregate_matches_def)
  ultimately show ?thesis
    by (simp add: start_step_def attempt_start_def attempt_time_not_before_heartbeat_def job_time_not_before_update_def
        sample_running_steps_def get_step_def sample_defs)
qed

theorem steps_refine_counting_witness:
  "progress sample_running_steps = (0, True)"
proof -
  have "attempt_ok sample_dispatched sample_attempt [sample_step]"
    using dispatch_attempt_ok [OF sample_dispatch] by (simp add: demo_job_def)
  from steps_refine_counting [OF this] sample_start show ?thesis by (metis unsigned_0)
qed

section \<open>Time that moves backward\<close>

definition sample_beaten :: run_attempt where
  "sample_beaten = sample_attempt\<lparr>at_last_heartbeat_at_unix := 50\<rparr>"


section \<open>Setup failure messages\<close>

lemma floor_char_boundary_le: "floor_char_boundary s n \<le> n"
proof (cases "n \<ge> length s")
  case False
  then show ?thesis
    by (auto simp: floor_char_boundary_def dest!: find_SomeD split: option.split)
qed (simp add: floor_char_boundary_def)

lemma floor_char_boundary_start:
  assumes "0 < floor_char_boundary s n" and "floor_char_boundary s n < length s"
  shows "\<not> is_continuation_byte (s ! floor_char_boundary s n)"
  using assms by (auto simp: floor_char_boundary_def dest!: find_SomeD split: option.split_asm if_split_asm)

definition replace_nul :: "string \<Rightarrow> string" where
  "replace_nul message = concat (map (\<lambda>c. if c = char_of (0 :: nat)
     then [char_of (239 :: nat), char_of (191 :: nat), char_of (189 :: nat)] else [c]) message)"

lemma replace_nul_free: "char_of (0 :: nat) \<notin> set (replace_nul message)"
  by (induction message) (auto simp: replace_nul_def)

text \<open>
  Normalising a setup failure message always gives a message that the checked constructor accepts, whatever the
  runtime sent: not blank, at most 2048 bytes and without NUL. The text is the message with each NUL replaced, cut at
  a place where no UTF-8 character is split, or a fixed text when nothing visible is left.
\<close>

theorem normalized_message_valid:
  "\<exists>kept n. SetupFailureMessage_normalized message = SetupFailureMessage kept
     \<and> SetupFailureMessage_new kept = Ok (SetupFailureMessage kept)
     \<and> (kept = take n (replace_nul message) \<or> kept = ''setup failed'' \<and> trim (take n (replace_nul message)) = [])
     \<and> (0 < n \<and> n < length (replace_nul message) \<longrightarrow> \<not> is_continuation_byte (replace_nul message ! n))"
proof -
  define n where "n = floor_char_boundary (replace_nul message) MAX_RUN_SETUP_FAILURE_MESSAGE_BYTES"
  define cut where "cut = take n (replace_nul message)"
  define kept where "kept = (if trim cut = [] then ''setup failed'' else cut)"
  have norm: "SetupFailureMessage_normalized message = SetupFailureMessage kept"
    by (simp add: SetupFailureMessage_normalized_def Let_def kept_def cut_def n_def replace_nul_def)
  have "length cut \<le> MAX_RUN_SETUP_FAILURE_MESSAGE_BYTES"
    using floor_char_boundary_le [of "replace_nul message" MAX_RUN_SETUP_FAILURE_MESSAGE_BYTES] by (simp add: cut_def n_def)
  moreover have "char_of (0 :: nat) \<notin> set cut" using replace_nul_free [of message] by (auto simp: cut_def dest: in_set_takeD)
  moreover have "char_of (0 :: nat) = CHR 0x00" by code_simp
  then have "valid_setup_failure_message ''setup failed''"
    by (simp add: valid_setup_failure_message_def trim_visible visible_ascii_def MAX_RUN_SETUP_FAILURE_MESSAGE_BYTES_def)
  ultimately have "valid_setup_failure_message kept" by (simp add: kept_def valid_setup_failure_message_def)
  then show ?thesis
    using norm floor_char_boundary_start [of "replace_nul message" MAX_RUN_SETUP_FAILURE_MESSAGE_BYTES]
    by (intro exI [of _ kept] exI [of _ n])
      (simp add: SetupFailureMessage_new_def kept_def cut_def n_def)
qed

theorem normalized_message_valid_witness:
  "\<exists>kept. SetupFailureMessage_normalized ''no disk'' = SetupFailureMessage kept
     \<and> SetupFailureMessage_new kept = Ok (SetupFailureMessage kept)"
  using normalized_message_valid [of "''no disk''"] by blast

end
