(* ===== verification/Run_Properties.thy ===== *)
theory Run_Properties
  imports Run_Machine Execution_Properties
begin

text \<open>
  Runs as a whole: needs are respected whatever happens, a run that has not ended can go on, and the state of a run is
  the one its jobs add up to.
\<close>

definition sample_revision :: workflow_revision where
  "sample_revision = \<lparr>wr_workflow = rn_workflow sample_run, wr_digest = sample_hash, wr_definition = demo_workflow\<rparr>"

definition sample_jobs :: "run_job list" where
  "sample_jobs = map (RunJob_new sample_run) demo_jobs"

lemma sample_created: "create_run_jobs sample_run sample_revision = Ok sample_jobs"
  by (simp add: create_run_jobs_def validate_workflow_revision_def sample_revision_def sample_run_def demo_workflow_def
      demo_triggers_def sample_jobs_def)

lemma sample_new:
  "Run_new ''run'' ''key'' (rn_workflow sample_run) sample_hash TriggerManual (Some ''u'') (rn_source sample_run) 10 = Ok sample_run"
  by (simp add: Run_new_def Run_queued_def sample_run_def visible_ascii_def trim_visible)

lemma Run_new_facts:
  assumes "Run_new i key workflow digest trigger requested source now = Ok r"
  shows "run_validate_facts r = Ok ()" and "\<not> run_terminal (rn_state r)"
  using assms by (auto simp: Run_new_def Run_queued_def and_then_Ok_iff run_validate_facts_Ok run_terminal_def
      split: if_split_asm)



text \<open>
  C33: Reconciling never leaves a run stuck: afterwards the run has ended exactly when all its jobs have, and otherwise
  some job is queued, being dispatched or running, so that no set of blocked jobs waits for each other or for jobs
  that have ended. A consistent run stays consistent.
\<close>

theorem reconciled_run_progresses:
  assumes "CompiledWorkflow_new name triggers specs = Ok (wr_definition rv)" and "list_all (\<lambda>job. distinct (wj_needs job)) specs"
    and "distinct (map rj_key jobs)" and "run_validate_facts r = Ok ()" and "reconcile_run r jobs rv now = Ok (r', jobs')"
  shows "(run_terminal (rn_state r') \<longleftrightarrow> (\<forall>job \<in> set jobs'. job_terminal (rj_state job)))
    \<and> (run_terminal (rn_state r') \<or> (\<exists>job \<in> set jobs'. rj_state job \<in> {JobQueued, JobDispatching, JobRunning}))
    \<and> run_validate_facts r' = Ok ()"
proof -
  have wf: "workflow_ok (wr_definition rv)" by (rule compiled_workflow_ok [OF assms(1,2)])
  obtain jobs1 where d: "derive_run_state r jobs1 now = Ok (r', jobs')" using reconcile_run_Ok [OF assms(5)] by blast
  show ?thesis
    using derived_jobs_terminal(1) [OF d] derive_run_state_facts [OF d assms(4)]
      reconcile_run_progress [OF wf assms(3,5)] by blast
qed

lemma sample_indexes: "stored_job_indexes sample_jobs = [(WorkflowJobId ''a'', 0), (WorkflowJobId ''b'', 1)]"
  by code_simp

lemma sample_reconciled:
  "\<exists>r'. reconcile_run sample_run sample_jobs sample_revision 12 = Ok (r', sample_jobs)"
proof -
  have serial: "serial_jobs (wr_definition sample_revision) = [demo_job ''b'' [], demo_job ''a'' [''b'']]"
    by (simp add: serial_jobs_def sample_revision_def demo_workflow_def demo_jobs_valid(2)) (simp add: demo_jobs_def)
  have states: "sample_jobs ! 0 = RunJob_new sample_run (demo_job ''a'' [''b''])" "sample_jobs ! 1 = RunJob_new sample_run (demo_job ''b'' [])"
    "sample_jobs ! Suc 0 = RunJob_new sample_run (demo_job ''b'' [])"
    by (simp_all add: sample_jobs_def demo_jobs_def)
  have "reconcile_jobs (stored_job_indexes sample_jobs) 12 sample_jobs (serial_jobs (wr_definition sample_revision)) = Ok sample_jobs"
    by (simp add: serial sample_indexes reconcile_job_def dependency_facts_def bt_get_def demo_job_def states RunJob_new_def
        next_blocked_state_def unblock_def job_terminal_def)
      (simp add: sample_jobs_def demo_jobs_def demo_job_def RunJob_new_def)
  moreover have "jobs_match_workflow sample_jobs (wr_definition sample_revision)"
    by (simp add: jobs_match_workflow_def sample_indexes sample_revision_def demo_workflow_def demo_jobs_def demo_job_def bt_get_def)
  moreover have "validate_workflow_revision sample_run sample_revision = Ok ()"
    using sample_created by (simp add: create_run_jobs_def and_then_Ok_iff)
  moreover have "\<exists>r'. derive_run_state sample_run sample_jobs 12 = Ok (r', sample_jobs)"
    by (simp add: derive_run_state_def Let_def) (simp add: sample_jobs_def demo_jobs_def demo_job_def RunJob_new_def sample_run_def)
  ultimately show ?thesis by (simp add: reconcile_run_def)
qed

theorem reconciled_run_progresses_witness:
  "\<exists>r'. reconcile_run sample_run sample_jobs sample_revision 12 = Ok (r', sample_jobs) \<and> run_validate_facts r' = Ok ()"
proof -
  obtain r' where r: "reconcile_run sample_run sample_jobs sample_revision 12 = Ok (r', sample_jobs)"
    using sample_reconciled by blast
  have "CompiledWorkflow_new ''w'' demo_triggers demo_jobs = Ok (wr_definition sample_revision)"
    using demo_compiled by (simp add: sample_revision_def)
  moreover have "distinct (map rj_key sample_jobs)" by (simp add: sample_jobs_def demo_jobs_def demo_job_def RunJob_new_def)
  moreover have "run_validate_facts sample_run = Ok ()" by (rule Run_new_facts [OF sample_new])
  ultimately show ?thesis using reconciled_run_progresses [OF _ demo_needs _ _ r] r by blast
qed

end
