(* ===== verification/GitHub_Connection.thy ===== *)
theory GitHub_Connection
  imports Scope_Repository Scope_Ints
begin

text \<open>
  The link of a repository to a GitHub repository: \<^verbatim>\<open>github_connection.rs\<close>, \<^verbatim>\<open>github_account.rs\<close>,
  \<^verbatim>\<open>github_review_bots.rs\<close> and \<^verbatim>\<open>github_run_import.rs\<close>.

  A connection records whether GitHub shows the repository to the public and whether a maintainer who may change
  file visibility has accepted that. The operations are functions on the stored connection; \<open>github_apply\<close> puts
  them together as the actions that change the link of one repository.
\<close>

section \<open>Connections\<close>

record github_review_bot_settings =
  rbs_open_pull_requests :: bool
  rbs_review_request_comment :: "string option"

definition default_review_bot_settings :: github_review_bot_settings where
  "default_review_bot_settings = \<lparr>rbs_open_pull_requests = False, rbs_review_request_comment = None\<rparr>"

definition REVIEW_REQUEST_COMMENT_MAX_CHARS :: nat where "REVIEW_REQUEST_COMMENT_MAX_CHARS = 500"

datatype github_repository_visibility = GitHubPrivate | GitHubPublic (acknowledged: bool)

datatype github_disconnect_reason = AppUninstalled | InstallationSuspended | RepositoryRemoved

datatype github_connection_status = GitHubConnected | GitHubDisconnected github_disconnect_reason u64

datatype github_installation_change = Uninstalled | Suspended | RepositoriesRemoved "u64 list"

record github_connection =
  gc_repository_id :: string
  gc_installation_id :: u64
  gc_github_repository_id :: u64
  gc_github_full_name :: string
  gc_connected_by :: "string option"
  gc_connected_at_unix :: u64
  gc_status :: github_connection_status
  gc_visibility :: github_repository_visibility
  gc_review_bots :: github_review_bot_settings
  gc_publishes_main :: bool

record connect_github_repository_command =
  cg_repository_id :: string
  cg_installation_id :: u64
  cg_github_repository_id :: u64
  cg_github_full_name :: string
  cg_github_private :: bool
  cg_acknowledge_public :: bool
  cg_run_import_count :: u32
  cg_user_id :: string
  cg_now_unix :: u64

definition PUBLIC_GITHUB_REPOSITORY_CONFIRMATION :: string where
  "PUBLIC_GITHUB_REPOSITORY_CONFIRMATION =
     ''This GitHub repository is public. Everything Scope pushes there, including private requests and private ''
     @ ''files, becomes public on GitHub. Confirm that to connect it.''"

definition PRIVATE_REQUESTS_WITHHELD_MESSAGE :: string where
  "PRIVATE_REQUESTS_WITHHELD_MESSAGE =
     ''This repository's GitHub repository is now public, so Scope does not send private requests there. ''
     @ ''A maintainer who can change file visibility can confirm in repository settings that they may become public.''"

definition MAIN_WITHHELD_MESSAGE :: string where
  "MAIN_WITHHELD_MESSAGE =
     ''This repository's GitHub repository is now public, so Scope does not publish main there. A maintainer who ''
     @ ''can change file visibility can confirm in repository settings that every file may become public.''"

definition MAIN_PUBLICATION_OFF_MESSAGE :: string where
  "MAIN_PUBLICATION_OFF_MESSAGE = ''Publishing main to GitHub was turned off before this push ran.''"

definition is_connected :: "github_connection \<Rightarrow> bool" where
  "is_connected c \<longleftrightarrow> gc_status c = GitHubConnected"

definition is_connected_to :: "github_connection \<Rightarrow> u64 \<Rightarrow> bool" where
  "is_connected_to c github_repository_id \<longleftrightarrow> is_connected c \<and> gc_github_repository_id c = github_repository_id"

definition may_receive_private_requests :: "github_connection \<Rightarrow> bool" where
  "may_receive_private_requests c \<longleftrightarrow> gc_visibility c \<noteq> GitHubPublic False"

definition may_receive_main :: "github_connection \<Rightarrow> bool" where
  "may_receive_main c \<longleftrightarrow> may_receive_private_requests c"

definition main_publication_refusal :: "github_connection \<Rightarrow> string option" where
  "main_publication_refusal c =
     (if \<not> may_receive_main c then Some MAIN_WITHHELD_MESSAGE
      else if \<not> gc_publishes_main c then Some MAIN_PUBLICATION_OFF_MESSAGE
      else None)"

text \<open>The visibility GitHub reports; the result also says whether it changed.\<close>

definition apply_visibility :: "github_connection \<Rightarrow> bool \<Rightarrow> github_connection \<times> bool" where
  "apply_visibility c github_private =
     (let visibility = (if github_private then GitHubPrivate
            else case gc_visibility c of GitHubPrivate \<Rightarrow> GitHubPublic False | public \<Rightarrow> public);
          c1 = c\<lparr>gc_visibility := visibility\<rparr>
      in (if \<not> may_receive_main c1 then c1\<lparr>gc_publishes_main := False\<rparr> else c1, visibility \<noteq> gc_visibility c))"

definition change_reason :: "github_connection \<Rightarrow> github_installation_change \<Rightarrow> github_disconnect_reason option" where
  "change_reason c change =
     (case change of
        Uninstalled \<Rightarrow> Some AppUninstalled
      | Suspended \<Rightarrow> Some InstallationSuspended
      | RepositoriesRemoved removed \<Rightarrow>
          if gc_github_repository_id c \<in> set removed then Some RepositoryRemoved else None)"

definition apply_installation_change ::
  "github_connection \<Rightarrow> u64 \<Rightarrow> github_installation_change \<Rightarrow> u64 \<Rightarrow> github_connection \<times> bool" where
  "apply_installation_change c installation_id change now_unix =
     (if \<not> is_connected c \<or> gc_installation_id c \<noteq> installation_id then (c, False)
      else case change_reason c change of
        None \<Rightarrow> (c, False)
      | Some reason \<Rightarrow>
          (c\<lparr>gc_status := GitHubDisconnected reason (max now_unix (gc_connected_at_unix c)),
             gc_review_bots := default_review_bot_settings, gc_publishes_main := False\<rparr>, True))"

section \<open>Commands of maintainers\<close>

definition ensure_maintainer :: "repository_access \<Rightarrow> (domain_error, unit) result" where
  "ensure_maintainer access =
     (if is_maintainer access then Ok ()
      else Err (forbidden ''only repository maintainers can manage the GitHub connection''))"

definition ensure_can_manage_github_connection :: "repository_access \<Rightarrow> (domain_error, unit) result" where
  "ensure_can_manage_github_connection access = ensure_maintainer access"

definition can_publish_to_github :: "repository_access \<Rightarrow> bool" where
  "can_publish_to_github access \<longleftrightarrow> is_maintainer access \<and> ra_can_change_file_visibility access"

definition can_publish_main_to_github :: "repository_access \<Rightarrow> views \<Rightarrow> bool" where
  "can_publish_main_to_github access views \<longleftrightarrow> reads_full_view access views \<and> can_publish_to_github access"

definition ensure_can_publish :: "repository_access \<Rightarrow> (domain_error, unit) result" where
  "ensure_can_publish access =
     (if can_publish_to_github access then Ok ()
      else Err (forbidden (''Only maintainers who can change file visibility can send this repository to a public ''
        @ ''GitHub repository.'')))"

definition github_name_part :: "string \<Rightarrow> bool" where
  "github_name_part part \<longleftrightarrow> part \<noteq> []
     \<and> list_all (\<lambda>c. is_ascii_lowercase c \<or> is_ascii_uppercase c \<or> is_ascii_digit c
          \<or> c = CHR ''-'' \<or> c = CHR ''_'' \<or> c = CHR ''.'') part"

definition is_github_full_name :: "string \<Rightarrow> bool" where
  "is_github_full_name name =
     (case split_once (CHR ''/'') name of
        None \<Rightarrow> False
      | Some (owner, repo) \<Rightarrow> github_name_part owner \<and> github_name_part repo)"

definition GITHUB_RUN_IMPORT_MAX_COUNT :: u32 where "GITHUB_RUN_IMPORT_MAX_COUNT = 1000"

definition validate_github_run_import_count :: "u32 \<Rightarrow> (domain_error, u32) result" where
  "validate_github_run_import_count n =
     (if n > GITHUB_RUN_IMPORT_MAX_COUNT then
        Err (invalid_input (''A repository can import at most '' @ show_nat (unat GITHUB_RUN_IMPORT_MAX_COUNT)
          @ '' recent runs.''))
      else Ok n)"

definition connected_visibility ::
  "repository_access \<Rightarrow> connect_github_repository_command \<Rightarrow> (domain_error, github_repository_visibility) result" where
  "connected_visibility access command =
     (if cg_github_private command then Ok GitHubPrivate
      else and_then (ensure_can_publish access) (\<lambda>_.
        if \<not> cg_acknowledge_public command then Err (conflict PUBLIC_GITHUB_REPOSITORY_CONFIRMATION)
        else Ok (GitHubPublic True)))"

definition linked_elsewhere :: "github_connection option \<Rightarrow> string \<Rightarrow> bool" where
  "linked_elsewhere link repository_id =
     (case link of Some l \<Rightarrow> is_connected l \<and> gc_repository_id l \<noteq> repository_id | None \<Rightarrow> False)"

definition connected_elsewhere :: "github_connection option \<Rightarrow> u64 \<Rightarrow> string option" where
  "connected_elsewhere current github_repository_id =
     (case current of
        Some c \<Rightarrow> if is_connected c \<and> gc_github_repository_id c \<noteq> github_repository_id
                  then Some (gc_github_full_name c) else None
      | None \<Rightarrow> None)"

definition connect_github_repository ::
  "repository_access \<Rightarrow> github_connection option \<Rightarrow> github_connection option \<Rightarrow> connect_github_repository_command
   \<Rightarrow> (domain_error, github_connection) result" where
  "connect_github_repository access current github_repository_link command =
     and_then (ensure_maintainer access) (\<lambda>_.
     and_then (validate_github_run_import_count (cg_run_import_count command)) (\<lambda>_.
     if cg_installation_id command = 0 \<or> cg_github_repository_id command = 0 then
       Err (invalid_input ''GitHub installation and repository ids must be positive'')
     else let github_full_name = trim (cg_github_full_name command) in
     if \<not> is_github_full_name github_full_name then
       Err (invalid_input ''GitHub repository name must look like owner/name'')
     else if linked_elsewhere github_repository_link (cg_repository_id command) then
       Err (conflict (github_full_name @ '' is already connected to another Scope repository.''))
     else case connected_elsewhere current (cg_github_repository_id command) of
       Some full_name \<Rightarrow>
         Err (conflict (''This repository is already connected to '' @ full_name @ ''. Disconnect it first.''))
     | None \<Rightarrow>
         and_then (connected_visibility access command) (\<lambda>visibility.
           Ok \<lparr>gc_repository_id = cg_repository_id command, gc_installation_id = cg_installation_id command,
               gc_github_repository_id = cg_github_repository_id command, gc_github_full_name = github_full_name,
               gc_connected_by = Some (cg_user_id command), gc_connected_at_unix = cg_now_unix command,
               gc_status = GitHubConnected, gc_visibility = visibility,
               gc_review_bots = default_review_bot_settings, gc_publishes_main = False\<rparr>)))"

definition NOT_CONNECTED :: domain_error where
  "NOT_CONNECTED = not_found ''this repository is not connected to GitHub''"

definition connected_connection :: "github_connection option \<Rightarrow> (domain_error, github_connection) result" where
  "connected_connection current =
     (case current of Some c \<Rightarrow> if is_connected c then Ok c else Err NOT_CONNECTED | None \<Rightarrow> Err NOT_CONNECTED)"

definition acknowledge_public_github_repository ::
  "repository_access \<Rightarrow> github_connection option \<Rightarrow> (domain_error, github_connection) result" where
  "acknowledge_public_github_repository access current =
     and_then (ensure_maintainer access) (\<lambda>_.
     and_then (ensure_can_publish access) (\<lambda>_.
     and_then (connected_connection current) (\<lambda>c.
     if gc_visibility c = GitHubPrivate then
       Err (conflict (''This repository's GitHub repository is private, so there is nothing to confirm.''))
     else Ok (c\<lparr>gc_visibility := GitHubPublic True\<rparr>))))"

definition set_github_main_publication ::
  "repository_access \<Rightarrow> views \<Rightarrow> github_connection option \<Rightarrow> bool \<Rightarrow> (domain_error, github_connection) result" where
  "set_github_main_publication access views current enabled =
     and_then (ensure_maintainer access) (\<lambda>_.
     and_then (connected_connection current) (\<lambda>c.
     if enabled \<and> \<not> can_publish_main_to_github access views then
       Err (forbidden (''Only maintainers who read the full view and can change file visibility can publish main ''
         @ ''to GitHub.''))
     else if enabled \<and> \<not> may_receive_main c then Err (conflict MAIN_WITHHELD_MESSAGE)
     else Ok (c\<lparr>gc_publishes_main := enabled\<rparr>)))"

definition disconnect_github_repository ::
  "repository_access \<Rightarrow> github_connection option \<Rightarrow> (domain_error, unit) result" where
  "disconnect_github_repository access current =
     and_then (ensure_maintainer access) (\<lambda>_. if current = None then Err NOT_CONNECTED else Ok ())"

definition linked_connection ::
  "repository_access \<Rightarrow> github_connection option \<Rightarrow> (domain_error, github_connection) result" where
  "linked_connection access current =
     and_then (ensure_maintainer access) (\<lambda>_. case current of Some c \<Rightarrow> Ok c | None \<Rightarrow> Err NOT_CONNECTED)"

definition set_review_bot_pull_requests ::
  "repository_access \<Rightarrow> github_connection option \<Rightarrow> bool \<Rightarrow> (domain_error, github_connection) result" where
  "set_review_bot_pull_requests access current enabled =
     and_then (linked_connection access current) (\<lambda>c.
       Ok (c\<lparr>gc_review_bots := (gc_review_bots c)\<lparr>rbs_open_pull_requests := enabled\<rparr>\<rparr>))"

definition set_review_request_comment ::
  "repository_access \<Rightarrow> github_connection option \<Rightarrow> string \<Rightarrow> (domain_error, github_connection) result" where
  "set_review_request_comment access current comment =
     and_then (linked_connection access current) (\<lambda>c.
       let comment = trim comment in
       if char_count comment > REVIEW_REQUEST_COMMENT_MAX_CHARS then
         Err (invalid_input (''The review request comment can be at most ''
           @ show_nat REVIEW_REQUEST_COMMENT_MAX_CHARS @ '' characters.''))
       else Ok (c\<lparr>gc_review_bots := (gc_review_bots c)\<lparr>rbs_review_request_comment :=
              if comment \<noteq> [] then Some comment else None\<rparr>\<rparr>))"

definition GITHUB_REQUIRED_CHECKS_LIMIT :: nat where "GITHUB_REQUIRED_CHECKS_LIMIT = 50"
definition GITHUB_CHECK_NAME_MAX_CHARS :: nat where "GITHUB_CHECK_NAME_MAX_CHARS = 255"

fun collect_required_checks :: "string list \<Rightarrow> string list \<Rightarrow> (domain_error, string list) result" where
  "collect_required_checks [] collected = Ok collected"
| "collect_required_checks (name # names) collected =
     (let name = trim name in
      if name = [] then Err (invalid_input ''CI result names cannot be empty.'')
      else if char_count name > GITHUB_CHECK_NAME_MAX_CHARS then
        Err (invalid_input (''CI result names can be at most '' @ show_nat GITHUB_CHECK_NAME_MAX_CHARS
          @ '' characters.''))
      else collect_required_checks names (if name \<in> set collected then collected else collected @ [name]))"

definition set_github_required_checks ::
  "repository_access \<Rightarrow> string list \<Rightarrow> (domain_error, string list) result" where
  "set_github_required_checks access names =
     and_then (ensure_maintainer access) (\<lambda>_.
     and_then (collect_required_checks names []) (\<lambda>collected.
     if length collected > GITHUB_REQUIRED_CHECKS_LIMIT then
       Err (invalid_input (''A repository can require at most '' @ show_nat GITHUB_REQUIRED_CHECKS_LIMIT
         @ '' CI results.''))
     else Ok collected))"

section \<open>Accounts and review bots\<close>

datatype github_account_type = AccountUser | AccountBot | AccountOrganization

record github_account =
  ga_id :: u64
  ga_login :: string
  ga_account_type :: github_account_type
  ga_avatar_url :: "string option"

definition GitHubAccount_new ::
  "u64 \<Rightarrow> string \<Rightarrow> github_account_type \<Rightarrow> string option \<Rightarrow> (domain_error, github_account) result" where
  "GitHubAccount_new i login account_type avatar_url =
     (if i = 0 then Err (invalid_input ''GitHub account id is required'')
      else if trim login = [] then Err (invalid_input ''GitHub account login is required'')
      else Ok \<lparr>ga_id = i, ga_login = login, ga_account_type = account_type,
               ga_avatar_url = (case avatar_url of
                   Some url \<Rightarrow> if trim url \<noteq> [] then Some url else None | None \<Rightarrow> None)\<rparr>)"

definition GITHUB_REVIEW_BOTS_LIMIT :: nat where "GITHUB_REVIEW_BOTS_LIMIT = 20"
definition GITHUB_LOGIN_MAX_CHARS :: nat where "GITHUB_LOGIN_MAX_CHARS = 39"
definition BOT_SUFFIX :: string where "BOT_SUFFIX = ''[bot]''"

datatype github_bot_login = GitHubBotLogin (bot_login_str: string)

definition valid_bot_name :: "string \<Rightarrow> bool" where
  "valid_bot_name name \<longleftrightarrow>
     name \<noteq> [] \<and> char_count name \<le> GITHUB_LOGIN_MAX_CHARS \<and> \<not> starts_with ''-'' name \<and> \<not> ends_with ''-'' name
     \<and> list_all (\<lambda>c. is_ascii_lowercase c \<or> is_ascii_uppercase c \<or> is_ascii_digit c \<or> c = CHR ''-'') name"

definition GitHubBotLogin_parse :: "string \<Rightarrow> (domain_error, github_bot_login) result" where
  "GitHubBotLogin_parse val =
     (let login = trim val in
      case strip_suffix BOT_SUFFIX login of
        None \<Rightarrow> Err (invalid_input ([CHR 0x22] @ login @ [CHR 0x22] @ '' is not a bot. Review bots are GitHub bot ''
          @ ''logins ending in [bot], like greptile-apps[bot]; people who can write to the repository are ''
          @ ''imported without being listed.''))
      | Some name \<Rightarrow>
          if valid_bot_name name then Ok (GitHubBotLogin login)
          else Err (invalid_input ([CHR 0x22] @ login @ [CHR 0x22]
            @ '' is not a GitHub bot login. Use a name like greptile-apps[bot].'')))"

definition bot_names :: "github_bot_login \<Rightarrow> string \<Rightarrow> bool" where
  "bot_names b login \<longleftrightarrow> eq_ignore_ascii_case (bot_login_str b) login"

record github_review_bot =
  rb_login :: github_bot_login
  rb_required :: bool

record github_review_bot_input =
  rbi_login :: string
  rbi_required :: bool

fun collect_review_bots ::
  "github_review_bot_input list \<Rightarrow> github_review_bot list \<Rightarrow> (domain_error, github_review_bot list) result" where
  "collect_review_bots [] bots = Ok bots"
| "collect_review_bots (input # inputs) bots =
     and_then (GitHubBotLogin_parse (rbi_login input)) (\<lambda>login.
     if list_ex (\<lambda>b. bot_names (rb_login b) (bot_login_str login)) bots then
       Err (invalid_input (bot_login_str login @ '' is listed twice.''))
     else collect_review_bots inputs (bots @ [\<lparr>rb_login = login, rb_required = rbi_required input\<rparr>]))"

definition set_github_review_bots ::
  "repository_access \<Rightarrow> github_connection option \<Rightarrow> github_review_bot_input list
   \<Rightarrow> (domain_error, github_review_bot list) result" where
  "set_github_review_bots access connection inputs =
     and_then (ensure_can_manage_github_connection access) (\<lambda>_.
     if connection = None then Err NOT_CONNECTED
     else if length inputs > GITHUB_REVIEW_BOTS_LIMIT then
       Err (invalid_input (''A repository can list at most '' @ show_nat GITHUB_REVIEW_BOTS_LIMIT @ '' review bots.''))
     else collect_review_bots inputs [])"

definition github_review_bots_survive :: "github_connection option \<Rightarrow> github_connection \<Rightarrow> bool" where
  "github_review_bots_survive previous next_connection =
     (case previous of
        None \<Rightarrow> False
      | Some p \<Rightarrow> is_connected p \<and> is_connected next_connection
          \<and> gc_installation_id p = gc_installation_id next_connection
          \<and> gc_github_repository_id p = gc_github_repository_id next_connection)"

datatype github_repository_permission = PermissionAdmin | PermissionWrite | PermissionRead | PermissionNone

record github_permission_grant =
  gp_account_id :: u64
  gp_permission :: github_repository_permission

definition grant_belongs_to :: "github_permission_grant \<Rightarrow> github_account \<Rightarrow> bool" where
  "grant_belongs_to grant author \<longleftrightarrow> gp_account_id grant = ga_id author"

datatype github_author_standing = ListedReviewBot | NeedsPermission | Unlisted

definition github_author_standing_of :: "github_review_bot list \<Rightarrow> github_account \<Rightarrow> github_author_standing" where
  "github_author_standing_of review_bots author =
     (if ga_account_type author = AccountBot
         \<and> list_ex (\<lambda>b. bot_names (rb_login b) (ga_login author)) review_bots then ListedReviewBot
      else case ga_account_type author of
        AccountUser \<Rightarrow> NeedsPermission | AccountBot \<Rightarrow> Unlisted | AccountOrganization \<Rightarrow> Unlisted)"

definition may_import_github_author ::
  "github_author_standing \<Rightarrow> github_repository_permission option \<Rightarrow> bool" where
  "may_import_github_author standing permission =
     (case standing of
        ListedReviewBot \<Rightarrow> True
      | NeedsPermission \<Rightarrow> permission = Some PermissionAdmin \<or> permission = Some PermissionWrite
      | Unlisted \<Rightarrow> False)"

section \<open>Importing runs\<close>

definition GITHUB_RUN_IMPORT_DEFAULT_COUNT :: u32 where "GITHUB_RUN_IMPORT_DEFAULT_COUNT = 50"
definition GITHUB_RUN_IMPORT_ERROR_MAX_CHARS :: nat where "GITHUB_RUN_IMPORT_ERROR_MAX_CHARS = 500"

datatype github_run_import_state = ImportQueued | ImportRunning | ImportSucceeded | ImportFailed

record github_run_import =
  gi_repository_id :: string
  gi_github_repository_id :: u64
  gi_run_count :: u32
  gi_state :: github_run_import_state
  gi_attempts :: u32
  gi_imported_count :: u32
  gi_last_error :: "string option"
  gi_queued_at_unix :: u64
  gi_finished_at_unix :: "u64 option"

definition set_github_run_import_count :: "repository_access \<Rightarrow> u32 \<Rightarrow> (domain_error, u32) result" where
  "set_github_run_import_count access n =
     (if \<not> is_maintainer access then
        Err (forbidden ''only repository maintainers can change how many GitHub runs are imported'')
      else validate_github_run_import_count n)"

definition import_queue :: "github_connection \<Rightarrow> u32 \<Rightarrow> u64 \<Rightarrow> github_run_import option" where
  "import_queue connection run_count now_unix =
     (if run_count > 0 then
        Some \<lparr>gi_repository_id = gc_repository_id connection,
              gi_github_repository_id = gc_github_repository_id connection,
              gi_run_count = min run_count GITHUB_RUN_IMPORT_MAX_COUNT, gi_state = ImportQueued, gi_attempts = 0,
              gi_imported_count = 0, gi_last_error = None, gi_queued_at_unix = now_unix, gi_finished_at_unix = None\<rparr>
      else None)"

definition import_is_of :: "github_run_import \<Rightarrow> github_connection \<Rightarrow> bool" where
  "import_is_of i connection \<longleftrightarrow> gi_github_repository_id i = gc_github_repository_id connection"

definition is_waiting_to_retry :: "github_run_import \<Rightarrow> bool" where
  "is_waiting_to_retry i \<longleftrightarrow> gi_state i = ImportQueued \<and> gi_last_error i \<noteq> None"

definition import_in_progress :: "github_run_import \<Rightarrow> bool" where
  "import_in_progress i \<longleftrightarrow> gi_state i = ImportQueued \<or> gi_state i = ImportRunning"

definition import_remaining :: "github_run_import \<Rightarrow> u32 \<Rightarrow> u32" where
  "import_remaining i n = saturating_sub (gi_run_count i) n"

definition start_github_run_import ::
  "repository_access \<Rightarrow> github_connection option \<Rightarrow> github_run_import option \<Rightarrow> u32 \<Rightarrow> u64
   \<Rightarrow> (domain_error, github_run_import) result" where
  "start_github_run_import access connection current run_count now_unix =
     (if \<not> is_maintainer access then Err (forbidden ''only repository maintainers can import GitHub runs'')
      else case connected_connection connection of
        Inl _ \<Rightarrow> Err (conflict ''Connect this repository to GitHub before importing runs.'')
      | Inr c \<Rightarrow>
          if (case current of
                Some i \<Rightarrow> import_is_of i c \<and> import_in_progress i \<and> \<not> is_waiting_to_retry i | None \<Rightarrow> False) then
            Err (conflict ''An import is already running.'')
          else case import_queue c run_count now_unix of
            Some i \<Rightarrow> Ok i
          | None \<Rightarrow> Err (conflict ''Set how many recent runs to import, then import again.''))"

text \<open>The kept part of a long error ends with an ellipsis, three bytes of UTF-8.\<close>

definition github_run_import_error :: "string \<Rightarrow> string" where
  "github_run_import_error message =
     (let message = trim message in
      if char_count message \<le> GITHUB_RUN_IMPORT_ERROR_MAX_CHARS then message
      else take_chars (GITHUB_RUN_IMPORT_ERROR_MAX_CHARS - 1) message @ [CHR 0xE2, CHR 0x80, CHR 0xA6])"

lemma github_run_import_error_bounded: "char_count (github_run_import_error message) \<le> GITHUB_RUN_IMPORT_ERROR_MAX_CHARS"
proof -
  have "char_count (take_chars 499 m @ [CHR 0xE2, CHR 0x80, CHR 0xA6]) \<le> 500" for m
    using char_count_take_chars [of 499 m] by (simp add: char_count_def is_continuation_byte_def)
  then show ?thesis by (simp add: github_run_import_error_def Let_def GITHUB_RUN_IMPORT_ERROR_MAX_CHARS_def)
qed

section \<open>The link of a repository over time\<close>

text \<open>
  Everything that changes the stored connection of one repository: commands of maintainers, with the access of
  the one who gives it, and what GitHub reports.
\<close>

datatype github_action =
  ActConnect repository_access "github_connection option" connect_github_repository_command
| ActAcknowledgePublic repository_access
| ActSetMainPublication repository_access views bool
| ActSetReviewBotPullRequests repository_access bool
| ActSetReviewRequestComment repository_access string
| ActDisconnect repository_access
| ActVisibility bool
| ActInstallation u64 github_installation_change u64

definition github_apply ::
  "github_action \<Rightarrow> github_connection option \<Rightarrow> (domain_error, github_connection option) result" where
  "github_apply action current =
     (case action of
        ActConnect access link command \<Rightarrow>
          and_then (connect_github_repository access current link command) (\<lambda>c. Ok (Some c))
      | ActAcknowledgePublic access \<Rightarrow>
          and_then (acknowledge_public_github_repository access current) (\<lambda>c. Ok (Some c))
      | ActSetMainPublication access views enabled \<Rightarrow>
          and_then (set_github_main_publication access views current enabled) (\<lambda>c. Ok (Some c))
      | ActSetReviewBotPullRequests access enabled \<Rightarrow>
          and_then (set_review_bot_pull_requests access current enabled) (\<lambda>c. Ok (Some c))
      | ActSetReviewRequestComment access comment \<Rightarrow>
          and_then (set_review_request_comment access current comment) (\<lambda>c. Ok (Some c))
      | ActDisconnect access \<Rightarrow> and_then (disconnect_github_repository access current) (\<lambda>_. Ok None)
      | ActVisibility github_private \<Rightarrow> Ok (map_option (\<lambda>c. fst (apply_visibility c github_private)) current)
      | ActInstallation installation_id change now_unix \<Rightarrow>
          Ok (map_option (\<lambda>c. fst (apply_installation_change c installation_id change now_unix)) current))"

text \<open>The latest action comes first; a refused action leaves no trace.\<close>

inductive github_history :: "github_action list \<Rightarrow> github_connection option \<Rightarrow> bool" where
  unlinked: "github_history [] None"
| acted: "github_history actions current \<Longrightarrow> github_apply action current = Ok current'
    \<Longrightarrow> github_history (action # actions) current'"

definition status_since :: "u64 \<Rightarrow> github_connection_status \<Rightarrow> bool" where
  "status_since connected_at status =
     (case status of GitHubConnected \<Rightarrow> True | GitHubDisconnected _ at_unix \<Rightarrow> connected_at \<le> at_unix)"

definition comment_ok :: "string option \<Rightarrow> bool" where
  "comment_ok comment =
     (case comment of None \<Rightarrow> True | Some c \<Rightarrow> c \<noteq> [] \<and> char_count c \<le> REVIEW_REQUEST_COMMENT_MAX_CHARS)"

definition connection_ok :: "github_connection \<Rightarrow> bool" where
  "connection_ok c \<longleftrightarrow>
     gc_installation_id c \<noteq> 0 \<and> gc_github_repository_id c \<noteq> 0 \<and> is_github_full_name (gc_github_full_name c)
     \<and> (gc_publishes_main c \<longrightarrow> is_connected c \<and> may_receive_main c)
     \<and> status_since (gc_connected_at_unix c) (gc_status c)
     \<and> comment_ok (rbs_review_request_comment (gc_review_bots c))"

text \<open>A maintainer who may change file visibility accepts that the GitHub repository is public.\<close>

fun accepts_public :: "github_action \<Rightarrow> bool" where
  "accepts_public (ActConnect access _ command) \<longleftrightarrow>
     can_publish_to_github access \<and> cg_acknowledge_public command \<and> \<not> cg_github_private command"
| "accepts_public (ActAcknowledgePublic access) \<longleftrightarrow> can_publish_to_github access"
| "accepts_public _ \<longleftrightarrow> False"

text \<open>A maintainer who reads every file and may change file visibility turns the publication of main on.\<close>

fun turns_main_on :: "github_action \<Rightarrow> bool" where
  "turns_main_on (ActSetMainPublication access views enabled) \<longleftrightarrow>
     enabled \<and> can_publish_main_to_github access views"
| "turns_main_on _ \<longleftrightarrow> False"

fun reports_private :: "github_action \<Rightarrow> bool" where
  "reports_private (ActVisibility github_private) \<longleftrightarrow> github_private"
| "reports_private (ActConnect _ _ command) \<longleftrightarrow> cg_github_private command"
| "reports_private _ \<longleftrightarrow> False"

text \<open>\<open>since P Q actions\<close>: some action satisfies \<open>P\<close>, and no later one satisfies \<open>Q\<close>.\<close>

fun since :: "('a \<Rightarrow> bool) \<Rightarrow> ('a \<Rightarrow> bool) \<Rightarrow> 'a list \<Rightarrow> bool" where
  "since P Q [] \<longleftrightarrow> False"
| "since P Q (a # as) \<longleftrightarrow> P a \<or> \<not> Q a \<and> since P Q as"

definition publication_accepted :: "github_action list \<Rightarrow> github_connection \<Rightarrow> bool" where
  "publication_accepted actions c \<longleftrightarrow>
     (gc_visibility c = GitHubPublic True \<longrightarrow> since accepts_public reports_private actions)
     \<and> (gc_publishes_main c \<longrightarrow> (\<exists>action \<in> set actions. turns_main_on action))"

lemmas github_command_defs = ensure_maintainer_def ensure_can_publish_def connected_connection_def
  linked_connection_def acknowledge_public_github_repository_def set_github_main_publication_def
  set_review_bot_pull_requests_def set_review_request_comment_def disconnect_github_repository_def

lemma status_since_simps [simp]:
  "status_since t GitHubConnected" "status_since t (GitHubDisconnected reason at_unix) \<longleftrightarrow> t \<le> at_unix"
  by (simp_all add: status_since_def)

lemma comment_ok_simps [simp]:
  "comment_ok None" "comment_ok (Some c) \<longleftrightarrow> c \<noteq> [] \<and> char_count c \<le> REVIEW_REQUEST_COMMENT_MAX_CHARS"
  by (simp_all add: comment_ok_def)

lemmas connection_facts = connection_ok_def publication_accepted_def may_receive_main_def
  may_receive_private_requests_def

lemma connect_ok:
  assumes "connect_github_repository access current link command = Ok c"
  shows "connection_ok c \<and> publication_accepted (ActConnect access link command # actions) c"
proof -
  define name where "name = trim (cg_github_full_name command)"
  obtain visibility where vis: "connected_visibility access command = Ok visibility"
    and c: "c = \<lparr>gc_repository_id = cg_repository_id command, gc_installation_id = cg_installation_id command,
      gc_github_repository_id = cg_github_repository_id command, gc_github_full_name = name,
      gc_connected_by = Some (cg_user_id command), gc_connected_at_unix = cg_now_unix command,
      gc_status = GitHubConnected, gc_visibility = visibility, gc_review_bots = default_review_bot_settings,
      gc_publishes_main = False\<rparr>"
    and ids: "cg_installation_id command \<noteq> 0" "cg_github_repository_id command \<noteq> 0" "is_github_full_name name"
    using assms unfolding connect_github_repository_def Let_def name_def [symmetric]
    by (auto simp: and_then_Ok_iff split: if_split_asm option.split_asm)
  have "visibility = GitHubPublic True \<Longrightarrow>
      can_publish_to_github access \<and> cg_acknowledge_public command \<and> \<not> cg_github_private command"
    using vis by (auto simp: connected_visibility_def and_then_Ok_iff ensure_can_publish_def split: if_split_asm)
  then show ?thesis
    using ids by (simp add: c connection_facts default_review_bot_settings_def)
qed

lemma apply_visibility_ok:
  assumes "connection_ok c" "publication_accepted actions c"
  shows "connection_ok (fst (apply_visibility c github_private))
    \<and> publication_accepted (ActVisibility github_private # actions) (fst (apply_visibility c github_private))"
  using assms
  by (cases github_private; cases "gc_visibility c")
    (auto simp: apply_visibility_def connection_facts is_connected_def Let_def)

lemma apply_installation_ok:
  assumes "connection_ok c" "publication_accepted actions c"
  shows "connection_ok (fst (apply_installation_change c i change now))
    \<and> publication_accepted (ActInstallation i change now # actions) (fst (apply_installation_change c i change now))"
  using assms
  by (cases "change_reason c change")
    (auto simp: apply_installation_change_def connection_facts is_connected_def default_review_bot_settings_def)

lemma command_ok:
  assumes "github_apply action current = Ok (Some c)"
    and "\<And>c. current = Some c \<Longrightarrow> connection_ok c \<and> publication_accepted actions c"
  shows "connection_ok c \<and> publication_accepted (action # actions) c"
proof (cases action)
  case (ActConnect access link command)
  then show ?thesis using assms(1) connect_ok by (auto simp: github_apply_def and_then_Ok_iff)
next
  case (ActVisibility p)
  then show ?thesis using assms apply_visibility_ok by (auto simp: github_apply_def)
next
  case (ActInstallation i change now)
  then show ?thesis using assms apply_installation_ok by (auto simp: github_apply_def)
next
  case (ActAcknowledgePublic access)
  then show ?thesis using assms
    by (cases current) (auto simp: github_apply_def and_then_Ok_iff github_command_defs connection_facts is_connected_def
        split: if_split_asm)
next
  case (ActSetMainPublication access views enabled)
  then show ?thesis using assms
    by (cases current) (auto simp: github_apply_def and_then_Ok_iff github_command_defs connection_facts is_connected_def
        split: if_split_asm)
next
  case (ActSetReviewBotPullRequests access enabled)
  then show ?thesis using assms
    by (cases current) (auto simp: github_apply_def and_then_Ok_iff github_command_defs connection_facts is_connected_def
        split: if_split_asm)
next
  case (ActSetReviewRequestComment access comment)
  then show ?thesis using assms
    by (cases current) (auto simp: github_apply_def and_then_Ok_iff github_command_defs connection_facts is_connected_def
        Let_def split: if_split_asm)
next
  case (ActDisconnect access)
  then show ?thesis using assms(1) by (auto simp: github_apply_def and_then_Ok_iff)
qed

lemma history_ok:
  "github_history actions current \<Longrightarrow> current = Some c \<Longrightarrow> connection_ok c \<and> publication_accepted actions c"
proof (induction arbitrary: c rule: github_history.induct)
  case (acted actions current action current')
  from acted.hyps(2) [unfolded acted.prems] acted.IH show ?case by (rule command_ok)
qed simp

end
