(* ===== verification/Request_Checks.thy ===== *)
theory Request_Checks
  imports Request_Access GitHub_Connection Run_Model
begin

text \<open>
  The checks of a request head: \<^verbatim>\<open>requests/checks.rs\<close> with its parts \<^verbatim>\<open>context.rs\<close>, \<^verbatim>\<open>github.rs\<close>, \<^verbatim>\<open>github_push.rs\<close>,
  \<^verbatim>\<open>planning.rs\<close>, \<^verbatim>\<open>reviewer.rs\<close> and \<^verbatim>\<open>tested_commit.rs\<close>.

  An evaluation records which checks a head needs, native runs or results that GitHub reports, and whether they
  were started. Its outcome is what the merge gate reads. The identity of an evaluation is a SHA-256 of what it
  tests; the hash is the parameter \<open>sha256_hex\<close>, from bytes to hexadecimal digits.
\<close>

section \<open>Results reported by GitHub\<close>

definition NO_GITHUB_WORKFLOWS_STARTED :: string where
  "NO_GITHUB_WORKFLOWS_STARTED =
     ''No workflows started. Check that your workflows include the scope/** push trigger.''"
definition GITHUB_WORKFLOWS_START_WITHIN_SECS :: u64 where "GITHUB_WORKFLOWS_START_WITHIN_SECS = 10 * 60"

datatype github_check_status =
  CheckQueued | CheckInProgress | CheckCompleted | CheckWaiting | CheckRequested | CheckPending

definition check_stage :: "github_check_status \<Rightarrow> nat" where
  "check_stage status =
     (case status of CheckCompleted \<Rightarrow> 2 | CheckInProgress \<Rightarrow> 1
      | CheckQueued \<Rightarrow> 0 | CheckWaiting \<Rightarrow> 0 | CheckRequested \<Rightarrow> 0 | CheckPending \<Rightarrow> 0)"

datatype github_check_conclusion =
  ConclusionSuccess | ConclusionNeutral | ConclusionSkipped | ConclusionFailure | ConclusionCancelled
| ConclusionTimedOut | ConclusionActionRequired | ConclusionStale | ConclusionStartupFailure

record github_check_run =
  gk_commit_oid :: string
  gk_name :: string
  gk_github_check_run_id :: u64
  gk_status :: github_check_status
  gk_conclusion :: "github_check_conclusion option"
  gk_details_url :: "string option"
  gk_check_suite_id :: "u64 option"

datatype check_verdict = VerdictPassed | VerdictPending | VerdictFailed

definition check_run_verdict :: "github_check_run \<Rightarrow> check_verdict" where
  "check_run_verdict r =
     (if gk_status r \<noteq> CheckCompleted then VerdictPending
      else case gk_conclusion r of
        None \<Rightarrow> VerdictPending
      | Some ConclusionSuccess \<Rightarrow> VerdictPassed
      | Some ConclusionNeutral \<Rightarrow> VerdictPassed
      | Some ConclusionSkipped \<Rightarrow> VerdictPassed
      | Some _ \<Rightarrow> VerdictFailed)"

datatype github_check_results = ResultsConnected "github_check_run list" | ResultsDisconnected

definition latest_check_run :: "github_check_results \<Rightarrow> string \<Rightarrow> string \<Rightarrow> github_check_run option" where
  "latest_check_run results commit_oid name =
     (case results of
        ResultsDisconnected \<Rightarrow> None
      | ResultsConnected runs \<Rightarrow>
          max_by_key gk_github_check_run_id (filter (\<lambda>r. gk_commit_oid r = commit_oid \<and> gk_name r = name) runs))"

definition any_check_on :: "github_check_results \<Rightarrow> string \<Rightarrow> bool" where
  "any_check_on results commit_oid =
     (case results of
        ResultsConnected runs \<Rightarrow> list_ex (\<lambda>r. gk_commit_oid r = commit_oid) runs
      | ResultsDisconnected \<Rightarrow> False)"

definition github_verdict :: "github_check_results \<Rightarrow> string \<Rightarrow> string \<Rightarrow> check_verdict" where
  "github_verdict results commit_oid name =
     (case latest_check_run results commit_oid name of None \<Rightarrow> VerdictPending | Some r \<Rightarrow> check_run_verdict r)"

section \<open>Tested commits and reviewers\<close>

definition PRIVATE_CODE_CONFLICT_MESSAGE :: string where
  "PRIVATE_CODE_CONFLICT_MESSAGE =
     ''This contribution conflicts with private code, so its CI cannot run. A maintainer must resolve the conflict.''"

datatype github_check_target = TargetHead | TargetCheckCommit

definition check_target_for_request :: "request \<Rightarrow> views \<Rightarrow> github_check_target" where
  "check_target_for_request r views = (if rq_view r = Views_full views then TargetHead else TargetCheckCommit)"

record check_commit_base =
  ccb_canonical_main_oid :: string
  ccb_view_base_oid :: string

definition CheckCommitBase_new :: "string \<Rightarrow> string \<Rightarrow> (domain_error, check_commit_base) result" where
  "CheckCommitBase_new canonical_main_oid view_base_oid =
     and_then (validate_git_oid ''check commit canonical main'' canonical_main_oid) (\<lambda>_.
     and_then (validate_git_oid ''check commit view base'' view_base_oid) (\<lambda>_.
       Ok \<lparr>ccb_canonical_main_oid = canonical_main_oid, ccb_view_base_oid = view_base_oid\<rparr>))"

datatype github_tested_commit = TestedHead | TestedCheckCommit string check_commit_base | TestedConflict

definition tested_target :: "github_tested_commit \<Rightarrow> github_check_target" where
  "tested_target tested =
     (case tested of TestedHead \<Rightarrow> TargetHead | TestedCheckCommit _ _ \<Rightarrow> TargetCheckCommit
      | TestedConflict \<Rightarrow> TargetCheckCommit)"

text \<open>
  \<^verbatim>\<open>head_oid.get(..12)\<close> is \<^verbatim>\<open>None\<close> on a shorter string and where byte 12 is inside a character.
\<close>

definition check_commit_message :: "string \<Rightarrow> string \<Rightarrow> string" where
  "check_commit_message request_id head_oid =
     (let short_head = (if length head_oid = 12 \<or> length head_oid > 12 \<and> \<not> is_continuation_byte (head_oid ! 12)
        then take 12 head_oid else head_oid)
      in ''Scope check for '' @ request_id @ '' at '' @ short_head)"

datatype request_check_reviewer = RequestCheckReviewer (reviewer_user_id: string)

definition may_review :: "repository_access \<Rightarrow> views \<Rightarrow> bool" where
  "may_review access views \<longleftrightarrow> is_maintainer access \<and> reads_full_view access views"

definition reviewer_for_actor :: "string \<Rightarrow> repository_access \<Rightarrow> views \<Rightarrow> request_check_reviewer option" where
  "reviewer_for_actor user_id access views =
     (if may_review access views then Some (RequestCheckReviewer user_id) else None)"

definition reviewer_refusal :: "repository_access \<Rightarrow> views \<Rightarrow> string" where
  "reviewer_refusal access views =
     (if \<not> is_maintainer access then ''repo maintainer required''
      else if \<not> reads_full_view access views then ''approving CI needs a maintainer who reads the full view''
      else ''CI may be approved'')"

section \<open>Evaluations\<close>

record request_check_context =
  rcc_request_id :: string
  rcc_revision_id :: string
  rcc_head_oid :: string
  rcc_base_version :: u64
  rcc_review_base_oid :: string

definition RequestCheckContext_new ::
  "string \<Rightarrow> string \<Rightarrow> string \<Rightarrow> u64 \<Rightarrow> string \<Rightarrow> (domain_error, request_check_context) result" where
  "RequestCheckContext_new request_id revision_id head_oid base_version review_base =
     and_then (validate_required ''request id'' request_id) (\<lambda>_.
     and_then (validate_required ''request revision id'' revision_id) (\<lambda>_.
     and_then (validate_git_oid ''request check head'' head_oid) (\<lambda>_.
     and_then (validate_git_oid ''request review base'' review_base) (\<lambda>_.
     if base_version = 0 then Err (invalid_input ''request base version must be positive'')
     else Ok \<lparr>rcc_request_id = request_id, rcc_revision_id = revision_id, rcc_head_oid = head_oid,
              rcc_base_version = base_version, rcc_review_base_oid = review_base\<rparr>))))"

definition context_for_revision :: "request \<Rightarrow> request_revision \<Rightarrow> (domain_error, request_check_context) result" where
  "context_for_revision r rv =
     (if rv_request_id rv \<noteq> rq_id r \<or> rv_new_head_oid rv \<noteq> rq_head_oid r
         \<or> review_base_oid (rv_base rv) \<noteq> review_base_oid (rq_base r) then
        Err (conflict ''request changed while evaluating CI'')
      else RequestCheckContext_new (rq_id r) (rv_id rv) (rq_head_oid r) (rq_base_version r)
             (review_base_oid (rq_base r)))"

definition context_matches_request :: "request_check_context \<Rightarrow> request \<Rightarrow> bool" where
  "context_matches_request ctx r \<longleftrightarrow>
     rcc_request_id ctx = rq_id r \<and> rcc_head_oid ctx = rq_head_oid r \<and> rcc_base_version ctx = rq_base_version r
     \<and> rcc_review_base_oid ctx = review_base_oid (rq_base r)"

datatype request_check_provider = ProviderNative | ProviderGitHub

definition provider_for_repository :: "github_connection option \<Rightarrow> request_check_provider" where
  "provider_for_repository connection = (if connection \<noteq> None then ProviderGitHub else ProviderNative)"

datatype request_check_evaluation_state = EvNoChecks | EvAwaitingApproval | EvChecksStarted | EvConfigurationError

record native_request_check =
  nc_workflow_path :: string
  nc_workflow_name :: string
  nc_workflow_revision_digest :: string
  nc_run_id :: "string option"

datatype request_check = NativeCheck native_request_check | GitHubCheck string

definition native_of :: "request_check \<Rightarrow> native_request_check option" where
  "native_of check = (case check of NativeCheck c \<Rightarrow> Some c | GitHubCheck _ \<Rightarrow> None)"

fun workflow_path_str :: "workflow_path \<Rightarrow> string" where
  "workflow_path_str (WorkflowPath path) = path"

text \<open>A parsed workflow path has a name, so \<open>the\<close> is defined here.\<close>

definition check_for_revision :: "workflow_revision \<Rightarrow> native_request_check" where
  "check_for_revision rv =
     \<lparr>nc_workflow_path = workflow_path_str (wi_path (wr_workflow rv)),
      nc_workflow_name = the (WorkflowPath_name (wi_path (wr_workflow rv))),
      nc_workflow_revision_digest = wr_digest rv, nc_run_id = None\<rparr>"

definition check_run ::
  "(string \<Rightarrow> string) \<Rightarrow> native_request_check \<Rightarrow> request \<Rightarrow> source_blob option \<Rightarrow> string \<Rightarrow> workflow_revision \<Rightarrow> string \<Rightarrow> u64
   \<Rightarrow> (domain_error, run) result" where
  "check_run sha256_hex check r source evaluation_id rv requested_by_user_id now_unix =
     (if wr_digest rv \<noteq> nc_workflow_revision_digest check
         \<or> workflow_path_str (wi_path (wr_workflow rv)) \<noteq> nc_workflow_path check then
        Err (invalid_input ''request check does not match the workflow revision'')
      else if rq_pushed_at_unix r = None then Err (conflict ''request branch has not been pushed'')
      else case source of
        None \<Rightarrow> Err (conflict ''request run source is unavailable'')
      | Some blob \<Rightarrow>
          if sb_git_oid blob \<noteq> rq_head_oid r then Err (conflict ''request run source does not match its head'')
          else let idempotency_key = ''request:'' @ rq_id r @ '':'' @ evaluation_id @ '':'' @ nc_workflow_path check;
                   digest = sha256_hex (wi_repository_id (wr_workflow rv) @ [CHR 0x00] @ idempotency_key)
            in and_then (ephemeral_git_bundle blob) (\<lambda>run_source.
                 Run_new (''run_request_'' @ digest) idempotency_key (wr_workflow rv) (wr_digest rv) TriggerRequest
                   (Some requested_by_user_id) run_source now_unix))"

record request_check_evaluation =
  ce_id :: string
  ce_revision_id :: string
  ce_base_version :: u64
  ce_review_base_oid :: string
  ce_github_repository_id :: "u64 option"
  ce_request_id :: string
  ce_head_oid :: string
  ce_tested_oid :: string
  ce_changes_github_workflows :: "bool option"
  ce_check_commit_base :: "check_commit_base option"
  ce_state :: request_check_evaluation_state
  ce_message :: "string option"
  ce_checks :: "request_check list"
  ce_created_at_unix :: u64
  ce_updated_at_unix :: u64

definition native_checks :: "request_check_evaluation \<Rightarrow> native_request_check list" where
  "native_checks e = List.map_filter native_of (ce_checks e)"

definition run_ids :: "request_check_evaluation \<Rightarrow> string list" where
  "run_ids e = List.map_filter nc_run_id (native_checks e)"

definition asks_github :: "request_check_evaluation \<Rightarrow> bool" where
  "asks_github e \<longleftrightarrow> list_ex (\<lambda>check. case check of GitHubCheck _ \<Rightarrow> True | NativeCheck _ \<Rightarrow> False) (ce_checks e)"

text \<open>The bytes of an evaluation that its identity hashes; \<^verbatim>\<open>to_be_bytes\<close> writes the most significant byte first.\<close>

definition to_be_bytes :: "u64 \<Rightarrow> string" where
  "to_be_bytes w = map (\<lambda>i. char_of (unat w div 256 ^ (7 - i) mod 256)) [0..<8]"

definition zero_terminated :: "string \<Rightarrow> string" where
  "zero_terminated s = s @ [CHR 0x00]"

definition check_bytes :: "request_check \<Rightarrow> string" where
  "check_bytes check =
     (case check of
        NativeCheck c \<Rightarrow> zero_terminated ''native'' @ zero_terminated (nc_workflow_path c)
          @ zero_terminated (nc_workflow_revision_digest c)
      | GitHubCheck name \<Rightarrow> zero_terminated ''github'' @ zero_terminated name)"

definition identity_bytes :: "request_check_evaluation \<Rightarrow> string" where
  "identity_bytes e =
     concat (map zero_terminated [ce_request_id e, ce_revision_id e, ce_head_oid e, ce_review_base_oid e, ce_tested_oid e])
     @ to_be_bytes (case ce_github_repository_id e of Some i \<Rightarrow> i | None \<Rightarrow> 0)
     @ (case ce_check_commit_base e of
          Some base \<Rightarrow> zero_terminated (ccb_canonical_main_oid base) @ zero_terminated (ccb_view_base_oid base)
        | None \<Rightarrow> [])
     @ concat (map check_bytes (ce_checks e))"

definition renew_identity :: "(string \<Rightarrow> string) \<Rightarrow> request_check_evaluation \<Rightarrow> request_check_evaluation" where
  "renew_identity sha256_hex e = e\<lparr>ce_id := ''evaluation_'' @ sha256_hex (identity_bytes e)\<rparr>"

definition ensure_identity :: "(string \<Rightarrow> string) \<Rightarrow> request_check_evaluation \<Rightarrow> (domain_error, unit) result" where
  "ensure_identity sha256_hex e =
     (if ce_id (renew_identity sha256_hex e) \<noteq> ce_id e then
        Err (conflict ''request check identity does not match its evidence'') else Ok ())"

definition validate_check :: "request_check \<Rightarrow> (domain_error, unit) result" where
  "validate_check check =
     (case check of
        NativeCheck c \<Rightarrow>
          and_then (validate_required ''check workflow path'' (nc_workflow_path c)) (\<lambda>_.
          and_then (validate_required ''check workflow name'' (nc_workflow_name c)) (\<lambda>_.
          validate_sha256_hash ''check workflow revision digest'' (nc_workflow_revision_digest c)))
      | GitHubCheck name \<Rightarrow> validate_required ''check name'' name)"

definition Evaluation_new ::
  "(string \<Rightarrow> string) \<Rightarrow> request_check_context \<Rightarrow> request_check_evaluation_state \<Rightarrow> string option \<Rightarrow> request_check list \<Rightarrow> u64
   \<Rightarrow> (domain_error, request_check_evaluation) result" where
  "Evaluation_new sha256_hex ctx state message checks now_unix =
     and_then (validate_required ''request id'' (rcc_request_id ctx)) (\<lambda>_.
     and_then (validate_git_oid ''request check head'' (rcc_head_oid ctx)) (\<lambda>_.
     and_then (check_all validate_check checks) (\<lambda>_.
       Ok (renew_identity sha256_hex
         \<lparr>ce_id = [], ce_revision_id = rcc_revision_id ctx, ce_base_version = rcc_base_version ctx,
          ce_review_base_oid = rcc_review_base_oid ctx, ce_github_repository_id = None,
          ce_request_id = rcc_request_id ctx, ce_head_oid = rcc_head_oid ctx, ce_tested_oid = rcc_head_oid ctx,
          ce_changes_github_workflows = None, ce_check_commit_base = None, ce_state = state, ce_message = message,
          ce_checks = checks, ce_created_at_unix = now_unix, ce_updated_at_unix = now_unix\<rparr>))))"

definition no_checks :: "(string \<Rightarrow> string) \<Rightarrow> request_check_context \<Rightarrow> u64 \<Rightarrow> (domain_error, request_check_evaluation) result" where
  "no_checks sha256_hex ctx now_unix = Evaluation_new sha256_hex ctx EvNoChecks None [] now_unix"

definition awaiting_approval ::
  "(string \<Rightarrow> string) \<Rightarrow> request_check_context \<Rightarrow> request_check list \<Rightarrow> u64
   \<Rightarrow> (domain_error, request_check_evaluation) result" where
  "awaiting_approval sha256_hex ctx checks now_unix =
     (if checks = [] \<or> list_ex (\<lambda>c. nc_run_id c \<noteq> None) (List.map_filter native_of checks) then
        Err (invalid_input ''checks awaiting approval must exist and cannot have runs'')
      else Evaluation_new sha256_hex ctx EvAwaitingApproval None checks now_unix)"

definition ensure_every_check_started :: "request_check list \<Rightarrow> (domain_error, unit) result" where
  "ensure_every_check_started checks =
     (if checks = [] \<or> list_ex (\<lambda>c. nc_run_id c = None) (List.map_filter native_of checks) then
        Err (invalid_input ''started checks must exist and each needs a run'')
      else Ok ())"

definition started_evaluation ::
  "(string \<Rightarrow> string) \<Rightarrow> request_check_context \<Rightarrow> request_check list \<Rightarrow> u64
   \<Rightarrow> (domain_error, request_check_evaluation) result" where
  "started_evaluation sha256_hex ctx checks now_unix =
     and_then (ensure_every_check_started checks) (\<lambda>_.
       Evaluation_new sha256_hex ctx EvChecksStarted None checks now_unix)"

definition configuration_error ::
  "(string \<Rightarrow> string) \<Rightarrow> request_check_context \<Rightarrow> string \<Rightarrow> u64 \<Rightarrow> (domain_error, request_check_evaluation) result" where
  "configuration_error sha256_hex ctx message now_unix =
     and_then (validate_required ''configuration error message'' message) (\<lambda>_.
       Evaluation_new sha256_hex ctx EvConfigurationError (Some message) [] now_unix)"

definition ensure_awaiting_approval :: "request_check_evaluation \<Rightarrow> (domain_error, unit) result" where
  "ensure_awaiting_approval e =
     (if ce_state e \<noteq> EvAwaitingApproval then Err (conflict ''request CI is not awaiting approval'') else Ok ())"

text \<open>\<^verbatim>\<open>iter_mut().filter_map(native_mut).zip(run_ids)\<close>: the native checks get the run ids in order.\<close>

fun assign_runs :: "request_check list \<Rightarrow> string list \<Rightarrow> request_check list" where
  "assign_runs (NativeCheck c # checks) (run_id # ids) = NativeCheck (c\<lparr>nc_run_id := Some run_id\<rparr>) # assign_runs checks ids"
| "assign_runs (NativeCheck c # checks) [] = NativeCheck c # checks"
| "assign_runs (GitHubCheck name # checks) ids = GitHubCheck name # assign_runs checks ids"
| "assign_runs [] _ = []"

definition approve_evaluation ::
  "request_check_evaluation \<Rightarrow> string list \<Rightarrow> u64 \<Rightarrow> (domain_error, request_check_evaluation) result" where
  "approve_evaluation e ids now_unix =
     and_then (ensure_awaiting_approval e) (\<lambda>_.
     if length ids \<noteq> length (native_checks e) then
       Err (invalid_input ''approval must start every recorded check'')
     else if now_unix < ce_created_at_unix e then
       Err (invalid_input ''request check approval cannot predate the evaluation'')
     else let checks = assign_runs (ce_checks e) ids
       in and_then (ensure_every_check_started checks) (\<lambda>_.
            Ok (e\<lparr>ce_checks := checks, ce_state := EvChecksStarted, ce_updated_at_unix := now_unix\<rparr>)))"

definition uses_native_runs :: "request_check_evaluation \<Rightarrow> bool" where
  "uses_native_runs e \<longleftrightarrow>
     (ce_state e = EvAwaitingApproval \<or> ce_state e = EvChecksStarted) \<and> native_checks e \<noteq> []"

definition native_verdict :: "native_request_check \<Rightarrow> (string \<times> run_state) list \<Rightarrow> check_verdict" where
  "native_verdict check runs =
     (case Option.bind (nc_run_id check) (map_of runs) of
        Some state \<Rightarrow> if state = RunSucceeded then VerdictPassed
                      else if \<not> run_terminal state then VerdictPending else VerdictFailed
      | None \<Rightarrow> VerdictFailed)"

definition context_of :: "request_check_evaluation \<Rightarrow> request_check_context" where
  "context_of e =
     \<lparr>rcc_request_id = ce_request_id e, rcc_revision_id = ce_revision_id e, rcc_head_oid = ce_head_oid e,
      rcc_base_version = ce_base_version e, rcc_review_base_oid = ce_review_base_oid e\<rparr>"

definition evaluation_matches_request :: "request_check_evaluation \<Rightarrow> request \<Rightarrow> bool" where
  "evaluation_matches_request e r \<longleftrightarrow>
     ce_request_id e = rq_id r \<and> ce_head_oid e = rq_head_oid r \<and> ce_base_version e = rq_base_version r
     \<and> ce_review_base_oid e = review_base_oid (rq_base r)"

definition NATIVE_RUNS_UNAVAILABLE :: string where
  "NATIVE_RUNS_UNAVAILABLE = ''Scope runs are not available for this repository.''"

definition waits_for_native_runs :: "request_check_evaluation \<Rightarrow> (string \<times> run_state) list \<Rightarrow> bool" where
  "waits_for_native_runs e run_states =
     (case ce_state e of
        EvAwaitingApproval \<Rightarrow> native_checks e \<noteq> []
      | EvChecksStarted \<Rightarrow>
          let verdicts = map (\<lambda>c. native_verdict c run_states) (native_checks e)
          in VerdictFailed \<notin> set verdicts \<and> VerdictPending \<in> set verdicts
      | EvNoChecks \<Rightarrow> False
      | EvConfigurationError \<Rightarrow> False)"

definition withdraw_native_runs ::
  "(string \<Rightarrow> string) \<Rightarrow> request_check_evaluation \<Rightarrow> (string \<times> run_state) list \<Rightarrow> u64
   \<Rightarrow> (domain_error, request_check_evaluation option) result" where
  "withdraw_native_runs sha256_hex e run_states now_unix =
     (if \<not> waits_for_native_runs e run_states then Ok None
      else and_then (configuration_error sha256_hex (context_of e) NATIVE_RUNS_UNAVAILABLE
             (max now_unix (ce_updated_at_unix e))) (\<lambda>withdrawn.
        Ok (Some (withdrawn\<lparr>ce_checks := ce_checks e, ce_id := ce_id e,
          ce_github_repository_id := ce_github_repository_id e, ce_created_at_unix := ce_created_at_unix e\<rparr>))))"

definition awaits_approval :: "request_check_evaluation \<Rightarrow> bool" where
  "awaits_approval e \<longleftrightarrow> ce_state e = EvAwaitingApproval"

definition tests_check_commit :: "request_check_evaluation \<Rightarrow> bool" where
  "tests_check_commit e \<longleftrightarrow> ce_check_commit_base e \<noteq> None"

definition check_commit_is_current :: "request_check_evaluation \<Rightarrow> string option \<Rightarrow> bool" where
  "check_commit_is_current e canonical_main_oid =
     (case ce_check_commit_base e of
        None \<Rightarrow> True | Some base \<Rightarrow> Some (ccb_canonical_main_oid base) = canonical_main_oid)"

definition needs_new_check_commit :: "request_check_evaluation \<Rightarrow> string option \<Rightarrow> bool" where
  "needs_new_check_commit e canonical_main_oid \<longleftrightarrow>
     ce_state e = EvChecksStarted \<and> \<not> check_commit_is_current e canonical_main_oid"

definition tested_code_view :: "request_check_evaluation \<Rightarrow> view_id \<Rightarrow> view_id" where
  "tested_code_view e request_view = (if tests_check_commit e then ViewId_private else request_view)"

definition test_check_commit ::
  "request_check_evaluation \<Rightarrow> string \<Rightarrow> check_commit_base \<Rightarrow> (domain_error, request_check_evaluation) result" where
  "test_check_commit e oid base =
     and_then (validate_git_oid ''request check commit'' oid) (\<lambda>_.
     if oid = ce_head_oid e \<or> native_checks e \<noteq> [] then
       Err (invalid_input ''only GitHub checks can test a commit other than the head'')
     else Ok (e\<lparr>ce_tested_oid := oid, ce_check_commit_base := Some base\<rparr>))"

section \<open>Outcome\<close>

record request_check_results =
  cs_native_runs :: "(string \<times> run_state) list"
  cs_github :: github_check_results
  cs_withheld_from_github :: "string list"
  cs_canonical_main_oid :: "string option"

definition results_withhold :: "request_check_results \<Rightarrow> request_check_evaluation \<Rightarrow> bool" where
  "results_withhold results e \<longleftrightarrow> asks_github e \<and> ce_request_id e \<in> set (cs_withheld_from_github results)"

definition check_verdict_of :: "request_check_results \<Rightarrow> string \<Rightarrow> request_check \<Rightarrow> check_verdict" where
  "check_verdict_of results tested_oid check =
     (case check of
        NativeCheck c \<Rightarrow> native_verdict c (cs_native_runs results)
      | GitHubCheck name \<Rightarrow> github_verdict (cs_github results) tested_oid name)"

text \<open>The loop over the checks: it returns at the first failed one.\<close>

fun started_outcome :: "(request_check \<Rightarrow> check_verdict) \<Rightarrow> request_check list \<Rightarrow> request_checks_outcome
    \<Rightarrow> request_checks_outcome" where
  "started_outcome verdict [] outcome = outcome"
| "started_outcome verdict (check # checks) outcome =
     (case verdict check of
        VerdictPassed \<Rightarrow> started_outcome verdict checks outcome
      | VerdictPending \<Rightarrow> started_outcome verdict checks ChecksPending
      | VerdictFailed \<Rightarrow> ChecksFailed)"

definition evaluation_outcome :: "request_check_evaluation \<Rightarrow> request_check_results \<Rightarrow> request_checks_outcome" where
  "evaluation_outcome e results =
     (if asks_github e \<and> cs_github results = ResultsDisconnected \<or> results_withhold results e then
        ChecksConfigurationError
      else case ce_state e of
        EvNoChecks \<Rightarrow> ChecksClear
      | EvAwaitingApproval \<Rightarrow> ChecksAwaitingApproval
      | EvConfigurationError \<Rightarrow> ChecksConfigurationError
      | EvChecksStarted \<Rightarrow>
          if \<not> check_commit_is_current e (cs_canonical_main_oid results) then ChecksPending
          else started_outcome (check_verdict_of results (ce_tested_oid e)) (ce_checks e) ChecksClear)"

definition request_checks_outcome_of ::
  "string \<Rightarrow> string \<Rightarrow> request_check_evaluation option \<Rightarrow> request_check_results \<Rightarrow> request_checks_outcome" where
  "request_checks_outcome_of request_id head_oid evaluation results =
     (case evaluation of
        None \<Rightarrow> ChecksNotEvaluated
      | Some e \<Rightarrow>
          if ce_request_id e = request_id \<and> ce_head_oid e = head_oid then evaluation_outcome e results
          else ChecksNotEvaluated)"

definition request_head_awaits_evaluation :: "request \<Rightarrow> request_checks_outcome \<Rightarrow> bool" where
  "request_head_awaits_evaluation r outcome \<longleftrightarrow>
     outcome = ChecksNotEvaluated \<and> rq_pushed_at_unix r \<noteq> None \<and> \<not> is_terminal r"

definition ensure_approving_reviewed_head :: "request \<Rightarrow> string \<Rightarrow> (domain_error, unit) result" where
  "ensure_approving_reviewed_head r reviewed_head_oid =
     (if rq_head_oid r \<noteq> reviewed_head_oid then
        Err (conflict ''This request has a new revision. Review it before approving its CI.'')
      else Ok ())"

section \<open>The greatest key\<close>

end
