(* ===== verification/Auto_Merge.thy ===== *)
theory Auto_Merge
  imports Request_Machine Request_Checks
begin

text \<open>
  Automatic merges: \<^verbatim>\<open>requests/auto_merge.rs\<close> and \<^verbatim>\<open>requests/auto_merge/check_failures.rs\<close>. A maintainer who may merge a
  request authorises the merge of one head; the intent then waits, and is cancelled, stopped with a reason, or
  fulfilled by the merge itself. Every change of an intent is an event of its request.
\<close>

section \<open>Intents\<close>

datatype auto_merge_intent_status = IntentActive | IntentCancelled | IntentStopped | IntentFulfilled

record auto_merge_intent =
  am_id :: string
  am_repo_id :: string
  am_repository_incarnation_id :: string
  am_request_id :: string
  am_revision_id :: string
  am_head_oid :: string
  am_actor_user_id :: string
  am_status :: auto_merge_intent_status
  am_reason :: "request_auto_merge_stop_reason option"
  am_created_at_unix :: u64
  am_updated_at_unix :: u64

definition stop_message :: "request_auto_merge_stop_reason \<Rightarrow> string" where
  "stop_message reason =
     (case reason of
        StopRequestChanged \<Rightarrow> ''The request changed after auto-merge was enabled''
      | StopRequestClosed \<Rightarrow> ''The request was closed''
      | StopAccessRevoked \<Rightarrow> ''The authorizing maintainer no longer has access''
      | StopChecksFailed \<Rightarrow> ''A required result failed or did not finish successfully''
      | StopChecksConfigurationError \<Rightarrow> ''The request CI could not be configured''
      | StopMergeConflict \<Rightarrow> ''The request no longer merges cleanly with main''
      | StopRequestBranchMissing \<Rightarrow> ''The request branch is unavailable''
      | StopParentRewritten \<Rightarrow> ''The parent no longer contains the pinned revision''
      | StopParentClosed \<Rightarrow> ''The parent request was closed''
      | StopAncestorBlocked \<Rightarrow> ''An ancestor request is blocked''
      | StopNeedsMainUpdate \<Rightarrow> ''The request must contain the latest view main'')"

definition intent_is_active :: "auto_merge_intent \<Rightarrow> bool" where
  "intent_is_active intent \<longleftrightarrow> am_status intent = IntentActive"

definition validate_intent_reason :: "auto_merge_intent_status \<Rightarrow> request_auto_merge_stop_reason option
    \<Rightarrow> (domain_error, unit) result" where
  "validate_intent_reason status reason =
     (case (status, reason) of
        (IntentStopped, Some _) \<Rightarrow> Ok ()
      | (IntentStopped, None) \<Rightarrow> Err (conflict ''stopped auto-merge intent requires a reason'')
      | (_, Some _) \<Rightarrow> Err (conflict ''only a stopped auto-merge intent can have a reason'')
      | (_, None) \<Rightarrow> Ok ())"

definition validate_intent_facts :: "auto_merge_intent \<Rightarrow> (domain_error, unit) result" where
  "validate_intent_facts intent =
     and_then (check_all (\<lambda>(label, val). validate_required label val)
       [(''auto-merge intent id'', am_id intent), (''repository id'', am_repo_id intent),
        (''repository incarnation id'', am_repository_incarnation_id intent), (''request id'', am_request_id intent),
        (''request revision id'', am_revision_id intent), (''authorizing user id'', am_actor_user_id intent)]) (\<lambda>_.
     and_then (validate_git_oid ''auto-merge head oid'' (am_head_oid intent)) (\<lambda>_.
     if am_updated_at_unix intent < am_created_at_unix intent then
       Err (conflict ''auto-merge update time cannot precede creation time'')
     else validate_intent_reason (am_status intent) (am_reason intent)))"

section \<open>Readiness\<close>

datatype auto_merge_waiting_reason =
  CheckEvaluationMissing | WaitChecksAwaitingApproval | WaitChecksPending | WaitReviewsPending | WaitReviewFindingsOpen
| WaitForParent

definition waiting_message :: "auto_merge_waiting_reason \<Rightarrow> string" where
  "waiting_message reason =
     (case reason of
        CheckEvaluationMissing \<Rightarrow> ''Waiting for CI evaluation''
      | WaitChecksAwaitingApproval \<Rightarrow> ''Waiting for CI approval''
      | WaitChecksPending \<Rightarrow> ''Waiting for CI to finish''
      | WaitReviewsPending \<Rightarrow> ''Waiting for required review bots to finish''
      | WaitReviewFindingsOpen \<Rightarrow> ''Waiting for review bot discussions to be resolved''
      | WaitForParent \<Rightarrow> ''Waiting for the parent request to land'')"

datatype auto_merge_readiness =
  MergeReady | MergeWaiting auto_merge_waiting_reason | MergeStop request_auto_merge_stop_reason

definition waiting_reason :: "auto_merge_readiness \<Rightarrow> auto_merge_waiting_reason option" where
  "waiting_reason readiness =
     (case readiness of MergeWaiting reason \<Rightarrow> Some reason | MergeReady \<Rightarrow> None | MergeStop _ \<Rightarrow> None)"

definition waiting_reason_message :: "auto_merge_readiness \<Rightarrow> string option" where
  "waiting_reason_message readiness = map_option waiting_message (waiting_reason readiness)"

definition readiness_of_status :: "request_mergeability_status \<Rightarrow> auto_merge_readiness" where
  "readiness_of_status status =
     (case status of
        MReady \<Rightarrow> MergeReady
      | MChecksNotEvaluated \<Rightarrow> MergeWaiting CheckEvaluationMissing
      | MChecksAwaitingApproval \<Rightarrow> MergeWaiting WaitChecksAwaitingApproval
      | MChecksPending \<Rightarrow> MergeWaiting WaitChecksPending
      | MRepositoryNotReady \<Rightarrow> MergeWaiting WaitChecksPending
      | MReviewsPending \<Rightarrow> MergeWaiting WaitReviewsPending
      | MReviewFindingsOpen \<Rightarrow> MergeWaiting WaitReviewFindingsOpen
      | MChecksFailed \<Rightarrow> MergeStop StopChecksFailed
      | MChecksConfigurationError \<Rightarrow> MergeStop StopChecksConfigurationError
      | MNotMaintainer \<Rightarrow> MergeStop StopAccessRevoked
      | MClosed \<Rightarrow> MergeStop StopRequestClosed
      | MMissingRequestBranch \<Rightarrow> MergeStop StopRequestBranchMissing
      | MWaitingForParent \<Rightarrow> MergeWaiting WaitForParent
      | MParentRewritten \<Rightarrow> MergeStop StopParentRewritten
      | MParentClosed \<Rightarrow> MergeStop StopParentClosed
      | MAncestorBlocked \<Rightarrow> MergeStop StopAncestorBlocked
      | MNeedsMainUpdate \<Rightarrow> MergeStop StopNeedsMainUpdate
      | MIntegrationConflict \<Rightarrow> MergeStop StopMergeConflict
      | MDraft \<Rightarrow> MergeStop StopRequestChanged
      | MMerged \<Rightarrow> MergeStop StopRequestChanged)"

definition request_auto_merge_readiness :: "merge_gate_decision \<Rightarrow> auto_merge_readiness" where
  "request_auto_merge_readiness gate =
     (case gate_request_mergeability gate of
        None \<Rightarrow> MergeStop StopAccessRevoked
      | Some decision \<Rightarrow> readiness_of_status (mg_status decision))"

section \<open>Operations\<close>

record authorize_auto_merge_input =
  ami_id :: string
  ami_repo_id :: string
  ami_repository_incarnation_id :: string
  ami_request_id :: string
  ami_actor_user_id :: string
  ami_actor_can_merge :: bool
  ami_readiness :: auto_merge_readiness
  ami_expected_revision_id :: string
  ami_expected_head_oid :: string
  ami_event_id :: string
  ami_now_unix :: u64

record cancel_auto_merge_input =
  cmi_request_id :: string
  cmi_actor_user_id :: string
  cmi_actor_is_maintainer :: bool
  cmi_expected_intent_id :: string
  cmi_event_id :: string
  cmi_now_unix :: u64

record auto_merge_mutation =
  amm_request :: request
  amm_intent :: auto_merge_intent
  amm_event :: request_event

definition stack_forbids_auto_merge :: "request \<Rightarrow> bool" where
  "stack_forbids_auto_merge r \<longleftrightarrow>
     \<not> base_is_main (rq_base r) \<and> rq_stack_status r \<noteq> WaitingForParent \<and> rq_stack_status r \<noteq> ParentExtended"

definition request_auto_merge_eligibility ::
  "request \<Rightarrow> request_revision option \<Rightarrow> auto_merge_intent option \<Rightarrow> bool \<Rightarrow> auto_merge_readiness
   \<Rightarrow> (domain_error, unit) result" where
  "request_auto_merge_eligibility r rv current_intent actor_can_merge readiness =
     (if \<not> actor_can_merge then Err (forbidden ''auto-merge needs someone who may merge this request'')
      else if stack_forbids_auto_merge r then
        Err (conflict (stop_message (case auto_merge_stop_reason (rq_stack_status r) of
          Some reason \<Rightarrow> reason | None \<Rightarrow> StopRequestChanged)))
      else case readiness of
        MergeStop reason \<Rightarrow> Err (conflict (stop_message reason))
      | _ \<Rightarrow>
          if request_state_of r \<noteq> Open then Err (conflict ''auto-merge can only be enabled for an open request'')
          else if rq_pushed_at_unix r = None then Err (conflict ''request branch is unavailable'')
          else case rv of
            None \<Rightarrow> Err (conflict ''request revision is required to enable auto-merge'')
          | Some head_revision \<Rightarrow>
              if rv_request_id head_revision \<noteq> rq_id r \<or> rv_new_head_oid head_revision \<noteq> rq_head_oid r then
                Err (conflict ''request revision does not match the current head'')
              else if (case current_intent of Some intent \<Rightarrow> intent_is_active intent | None \<Rightarrow> False) then
                Err (conflict ''auto-merge is already enabled'')
              else Ok ())"

definition request_auto_merge_can_enable ::
  "request \<Rightarrow> request_revision option \<Rightarrow> auto_merge_intent option \<Rightarrow> auto_merge_readiness \<Rightarrow> bool \<Rightarrow> bool" where
  "request_auto_merge_can_enable r rv current_intent readiness actor_can_merge \<longleftrightarrow>
     waiting_reason readiness \<noteq> None
     \<and> is_ok (request_auto_merge_eligibility r rv current_intent actor_can_merge readiness)"

definition request_auto_merge_can_cancel :: "request \<Rightarrow> auto_merge_intent option \<Rightarrow> bool \<Rightarrow> bool" where
  "request_auto_merge_can_cancel r current_intent actor_is_maintainer \<longleftrightarrow>
     actor_is_maintainer \<and> request_state_of r = Open
     \<and> (case current_intent of
          Some intent \<Rightarrow> am_request_id intent = rq_id r \<and> am_head_oid intent = rq_head_oid r \<and> intent_is_active intent
        | None \<Rightarrow> False)"

text \<open>
  Only the four auto-merge payloads reach \<^verbatim>\<open>transition\<close>; for any other the code panics, here \<open>None\<close>.
\<close>

fun transition_of_payload ::
  "request_event_payload \<Rightarrow>
   (auto_merge_intent_status \<times> request_auto_merge_stop_reason option \<times> request_event_kind) option" where
  "transition_of_payload (EvAutoMergeEnabled _ _ _) = Some (IntentActive, None, KAutoMergeEnabled)"
| "transition_of_payload (EvAutoMergeCancelled _ _ _) = Some (IntentCancelled, None, KAutoMergeCancelled)"
| "transition_of_payload (EvAutoMergeStopped _ _ _ reason) = Some (IntentStopped, Some reason, KAutoMergeStopped)"
| "transition_of_payload (EvAutoMergeFulfilled _ _ _ _) = Some (IntentFulfilled, None, KAutoMergeFulfilled)"
| "transition_of_payload _ = None"

definition apply_transition ::
  "request \<Rightarrow> auto_merge_intent \<Rightarrow> string \<Rightarrow> string \<Rightarrow> u64 \<Rightarrow> request_event_payload \<Rightarrow> auto_merge_intent_status
   \<Rightarrow> request_auto_merge_stop_reason option \<Rightarrow> request_event_kind \<Rightarrow> (domain_error, auto_merge_mutation) result" where
  "apply_transition r intent event_actor event_id now_unix payload status reason kind =
     (let intent' = intent\<lparr>am_status := status, am_reason := reason, am_updated_at_unix := now_unix\<rparr> in
      and_then (validate_intent_facts intent') (\<lambda>_.
      and_then (advance_request_activity (r\<lparr>rq_updated_at_unix := max (rq_updated_at_unix r) now_unix\<rparr>)) (\<lambda>(r', position).
      and_then (validate_request_facts r') (\<lambda>_.
        Ok \<lparr>amm_request = r', amm_intent = intent',
            amm_event = \<lparr>ev_id = event_id, ev_request_id = rq_id r', ev_actor_user_id = Some event_actor, ev_kind = kind,
              ev_position = position, ev_payload = payload, ev_created_at_unix = now_unix\<rparr>\<rparr>))))"

definition transition ::
  "request \<Rightarrow> auto_merge_intent \<Rightarrow> string \<Rightarrow> string \<Rightarrow> u64 \<Rightarrow> request_event_payload
   \<Rightarrow> (domain_error, auto_merge_mutation) result option" where
  "transition r intent event_actor event_id now_unix payload =
     map_option (\<lambda>(status, reason, kind).
       apply_transition r intent event_actor event_id now_unix payload status reason kind) (transition_of_payload payload)"

definition authorize_request_auto_merge ::
  "request \<Rightarrow> request_revision \<Rightarrow> auto_merge_intent option \<Rightarrow> authorize_auto_merge_input
   \<Rightarrow> (domain_error, auto_merge_mutation) result" where
  "authorize_request_auto_merge r rv current_intent input =
     and_then (validate_required ''auto-merge intent id'' (ami_id input)) (\<lambda>_.
     and_then (validate_required ''repository id'' (ami_repo_id input)) (\<lambda>_.
     and_then (validate_required ''repository incarnation id'' (ami_repository_incarnation_id input)) (\<lambda>_.
     and_then (validate_required ''request id'' (ami_request_id input)) (\<lambda>_.
     and_then (validate_required ''actor user id'' (ami_actor_user_id input)) (\<lambda>_.
     and_then (validate_required ''expected request revision id'' (ami_expected_revision_id input)) (\<lambda>_.
     and_then (validate_git_oid ''expected auto-merge head oid'' (ami_expected_head_oid input)) (\<lambda>_.
     and_then (validate_required ''auto-merge event id'' (ami_event_id input)) (\<lambda>_.
     if rq_id r \<noteq> ami_request_id input then Err (not_found ''request not found'')
     else if rq_repo_id r \<noteq> ami_repo_id input then
       Err (conflict ''auto-merge repository does not match the request'')
     else if ami_now_unix input < rv_created_at_unix rv then
       Err (invalid_input ''auto-merge authorization cannot predate the request revision'')
     else and_then (request_auto_merge_eligibility r (Some rv) current_intent (ami_actor_can_merge input)
            (ami_readiness input)) (\<lambda>_.
     if rv_id rv \<noteq> ami_expected_revision_id input \<or> rq_head_oid r \<noteq> ami_expected_head_oid input then
       Err (conflict ''request revision changed before auto-merge was enabled'')
     else let intent = \<lparr>am_id = ami_id input, am_repo_id = ami_repo_id input,
            am_repository_incarnation_id = ami_repository_incarnation_id input, am_request_id = rq_id r,
            am_revision_id = rv_id rv, am_head_oid = rq_head_oid r, am_actor_user_id = ami_actor_user_id input,
            am_status = IntentActive, am_reason = None, am_created_at_unix = ami_now_unix input,
            am_updated_at_unix = ami_now_unix input\<rparr>
       in and_then (validate_intent_facts intent) (\<lambda>_.
            the (transition r intent (ami_actor_user_id input) (ami_event_id input) (ami_now_unix input)
              (EvAutoMergeEnabled (am_id intent) (am_revision_id intent) (am_head_oid intent)))))))))))))"

definition validate_active_transition ::
  "request \<Rightarrow> auto_merge_intent \<Rightarrow> string \<Rightarrow> u64 \<Rightarrow> (domain_error, unit) result" where
  "validate_active_transition r intent event_id now_unix =
     and_then (validate_required ''auto-merge event id'' event_id) (\<lambda>_.
     if am_request_id intent \<noteq> rq_id r then Err (not_found ''request auto-merge intent not found'')
     else if \<not> intent_is_active intent then Err (conflict ''auto-merge is no longer active'')
     else if now_unix < am_updated_at_unix intent then
       Err (invalid_input ''auto-merge transition cannot predate the intent'')
     else Ok ())"

definition validate_transition_input ::
  "request \<Rightarrow> auto_merge_intent \<Rightarrow> string \<Rightarrow> string \<Rightarrow> string \<Rightarrow> u64 \<Rightarrow> (domain_error, unit) result" where
  "validate_transition_input r intent request_id expected_intent_id event_id now_unix =
     and_then (validate_required ''request id'' request_id) (\<lambda>_.
     and_then (validate_required ''expected auto-merge intent id'' expected_intent_id) (\<lambda>_.
     if rq_id r \<noteq> request_id \<or> am_request_id intent \<noteq> request_id then
       Err (not_found ''request auto-merge intent not found'')
     else if am_id intent \<noteq> expected_intent_id then Err (conflict ''auto-merge authorization changed'')
     else validate_active_transition r intent event_id now_unix))"

definition cancel_request_auto_merge ::
  "request \<Rightarrow> auto_merge_intent \<Rightarrow> cancel_auto_merge_input \<Rightarrow> (domain_error, auto_merge_mutation) result" where
  "cancel_request_auto_merge r intent input =
     and_then (validate_transition_input r intent (cmi_request_id input) (cmi_expected_intent_id input)
       (cmi_event_id input) (cmi_now_unix input)) (\<lambda>_.
     and_then (validate_required ''actor user id'' (cmi_actor_user_id input)) (\<lambda>_.
     if \<not> cmi_actor_is_maintainer input then Err (forbidden ''repo maintainer required'')
     else if request_state_of r \<noteq> Open then
       Err (conflict ''auto-merge cannot be cancelled after the request became terminal'')
     else the (transition r intent (cmi_actor_user_id input) (cmi_event_id input) (cmi_now_unix input)
       (EvAutoMergeCancelled (am_id intent) (am_revision_id intent) (am_head_oid intent)))))"

definition stop_request_auto_merge ::
  "request \<Rightarrow> auto_merge_intent \<Rightarrow> request_auto_merge_stop_reason \<Rightarrow> string \<Rightarrow> u64
   \<Rightarrow> (domain_error, auto_merge_mutation) result" where
  "stop_request_auto_merge r intent reason event_id now_unix =
     and_then (validate_active_transition r intent event_id now_unix) (\<lambda>_.
       the (transition r intent (am_actor_user_id intent) event_id now_unix
         (EvAutoMergeStopped (am_id intent) (am_revision_id intent) (am_head_oid intent) reason)))"

definition fulfill_request_auto_merge ::
  "request \<Rightarrow> auto_merge_intent \<Rightarrow> string \<Rightarrow> string \<Rightarrow> u64 \<Rightarrow> (domain_error, auto_merge_mutation) result" where
  "fulfill_request_auto_merge r intent main_oid event_id now_unix =
     and_then (validate_active_transition r intent event_id now_unix) (\<lambda>_.
     and_then (validate_required ''merged main oid'' main_oid) (\<lambda>_.
     if request_state_of r \<noteq> Merged \<or> rq_merged_head_oid r \<noteq> Some (am_head_oid intent)
        \<or> rq_merged_main_oid r \<noteq> Some main_oid then
       Err (conflict ''auto-merge can only be fulfilled by its committed request merge'')
     else the (transition r intent (am_actor_user_id intent) event_id now_unix
       (EvAutoMergeFulfilled (am_id intent) (am_revision_id intent) (am_head_oid intent) main_oid))))"

definition stop_for_check_evaluation ::
  "request \<Rightarrow> auto_merge_intent \<Rightarrow> request_check_evaluation \<Rightarrow> string
   \<Rightarrow> (domain_error, auto_merge_mutation option) result" where
  "stop_for_check_evaluation r intent e event_id =
     (if ce_state e \<noteq> EvConfigurationError \<or> ce_request_id e \<noteq> am_request_id intent
         \<or> ce_head_oid e \<noteq> am_head_oid intent \<or> ce_revision_id e \<noteq> am_revision_id intent then Ok None
      else and_then (stop_request_auto_merge r intent StopChecksConfigurationError event_id
             (max (max (ce_updated_at_unix e) (rq_updated_at_unix r)) (am_updated_at_unix intent)))
        (\<lambda>mutation. Ok (Some mutation)))"

definition stop_for_check_run ::
  "request \<Rightarrow> auto_merge_intent \<Rightarrow> run \<Rightarrow> string \<Rightarrow> (domain_error, auto_merge_mutation option) result" where
  "stop_for_check_run r intent failed_run event_id =
     (if rn_state failed_run \<notin> {RunFailed, RunCanceled, RunLost} then Ok None
      else and_then (stop_request_auto_merge r intent StopChecksFailed event_id
             (max (max (case rn_completed_at_unix failed_run of Some t \<Rightarrow> t | None \<Rightarrow> rn_updated_at_unix failed_run)
                    (rq_updated_at_unix r)) (am_updated_at_unix intent)))
        (\<lambda>mutation. Ok (Some mutation)))"

end
