(* ===== verification/Auto_Machine.thy ===== *)
theory Auto_Machine
  imports Auto_Merge
begin

text \<open>
  A request together with its latest auto-merge intent, under the operations of the request and of the intent. The
  events of both make one timeline; reading only the auto-merge events off it gives back whether an intent is active.
\<close>

type_synonym auto_state = "request \<times> auto_merge_intent option"

inductive auto_step :: "(string \<Rightarrow> string) \<Rightarrow> auto_state \<Rightarrow> request_event list \<Rightarrow> auto_state \<Rightarrow> bool" for sha256_hex where
  request: "request_step sha256_hex r events r' \<Longrightarrow> auto_step sha256_hex (r, i) events (r', i)"
| authorize: "authorize_request_auto_merge r rv i input = Ok m
    \<Longrightarrow> auto_step sha256_hex (r, i) [amm_event m] (amm_request m, Some (amm_intent m))"
| cancel: "cancel_request_auto_merge r intent input = Ok m
    \<Longrightarrow> auto_step sha256_hex (r, Some intent) [amm_event m] (amm_request m, Some (amm_intent m))"
| stop: "stop_request_auto_merge r intent reason event_id now = Ok m
    \<Longrightarrow> auto_step sha256_hex (r, Some intent) [amm_event m] (amm_request m, Some (amm_intent m))"
| stop_evaluation: "stop_for_check_evaluation r intent e event_id = Ok (Some m)
    \<Longrightarrow> auto_step sha256_hex (r, Some intent) [amm_event m] (amm_request m, Some (amm_intent m))"
| stop_run: "stop_for_check_run r intent failed_run event_id = Ok (Some m)
    \<Longrightarrow> auto_step sha256_hex (r, Some intent) [amm_event m] (amm_request m, Some (amm_intent m))"
| fulfill: "fulfill_request_auto_merge r intent main_oid event_id now = Ok m
    \<Longrightarrow> auto_step sha256_hex (r, Some intent) [amm_event m] (amm_request m, Some (amm_intent m))"

inductive auto_history :: "(string \<Rightarrow> string) \<Rightarrow> auto_state \<Rightarrow> request_event list \<Rightarrow> bool" for sha256_hex where
  started: "open_request sha256_hex facts input views = Ok (r, event) \<Longrightarrow> auto_history sha256_hex (r, None) [event]"
| stepped: "auto_history sha256_hex s events \<Longrightarrow> auto_step sha256_hex s new_events s'
    \<Longrightarrow> auto_history sha256_hex s' (events @ new_events)"

definition intent_active :: "auto_merge_intent option \<Rightarrow> bool" where
  "intent_active i = (case i of Some intent \<Rightarrow> intent_is_active intent | None \<Rightarrow> False)"

text \<open>What the auto-merge events of a timeline say: an intent starts only when none is active, and ends only then.\<close>

fun auto_track :: "request_event_kind list \<Rightarrow> bool \<Rightarrow> bool option" where
  "auto_track [] active = Some active"
| "auto_track (kind # kinds) active =
     (if kind = KAutoMergeEnabled then (if active then None else auto_track kinds True)
      else if auto_merge_kind kind then (if active then auto_track kinds False else None)
      else auto_track kinds active)"

lemma auto_track_append: "auto_track (ks @ ks') active = Option.bind (auto_track ks active) (auto_track ks')"
  by (induction ks arbitrary: active) auto

section \<open>One operation\<close>

text \<open>What a change of the intent does to the request, the intent and the timeline.\<close>

definition transition_to ::
  "auto_merge_intent_status \<Rightarrow> request_auto_merge_stop_reason option \<Rightarrow> request_event_kind \<Rightarrow> u64 \<Rightarrow> request \<Rightarrow> auto_merge_intent
   \<Rightarrow> auto_merge_mutation \<Rightarrow> bool" where
  "transition_to status reason kind now r intent m \<longleftrightarrow>
     amm_intent m = intent\<lparr>am_status := status, am_reason := reason, am_updated_at_unix := now\<rparr>
     \<and> validate_intent_facts (amm_intent m) = Ok ()
     \<and> amm_request m = r\<lparr>rq_updated_at_unix := max (rq_updated_at_unix r) now, rq_activity_version := ev_position (amm_event m)\<rparr>
     \<and> validate_request_facts (amm_request m) = Ok ()
     \<and> rq_activity_version r < ev_position (amm_event m)
     \<and> ev_request_id (amm_event m) = rq_id r \<and> ev_kind (amm_event m) = kind"

lemma apply_transition_Ok:
  assumes "apply_transition r intent actor event_id now payload status reason kind = Ok m"
  shows "transition_to status reason kind now r intent m"
  using assms
  by (auto simp: apply_transition_def Let_def and_then_Ok_iff advance_request_activity_Ok transition_to_def
      intro!: advanced_activity)

lemmas active_defs = validate_active_transition_def validate_transition_input_def

lemma authorize_Ok:
  assumes "authorize_request_auto_merge r rv i input = Ok m"
  shows "\<exists>intent. transition_to IntentActive None KAutoMergeEnabled (ami_now_unix input) r intent m
      \<and> am_request_id intent = rq_id r \<and> am_repo_id intent = rq_repo_id r \<and> am_head_oid intent = rq_head_oid r
      \<and> am_revision_id intent = rv_id rv"
    "request_auto_merge_eligibility r (Some rv) i (ami_actor_can_merge input) (ami_readiness input) = Ok ()"
  using assms unfolding authorize_request_auto_merge_def Let_def
  by (auto simp: and_then_Ok_iff transition_def dest!: apply_transition_Ok split: if_split_asm)

lemma eligible:
  assumes "request_auto_merge_eligibility r rv i can_merge readiness = Ok ()"
  shows "can_merge \<and> request_state_of r = Open \<and> rq_pushed_at_unix r \<noteq> None \<and> \<not> intent_active i
    \<and> (\<forall>reason. readiness \<noteq> MergeStop reason) \<and> \<not> stack_forbids_auto_merge r
    \<and> (\<exists>head_revision. rv = Some head_revision \<and> rv_new_head_oid head_revision = rq_head_oid r
         \<and> rv_request_id head_revision = rq_id r)"
  using assms unfolding request_auto_merge_eligibility_def intent_active_def
  by (auto split: if_split_asm auto_merge_readiness.split_asm option.split_asm)

lemma cancel_Ok:
  assumes "cancel_request_auto_merge r intent input = Ok m"
  shows "transition_to IntentCancelled None KAutoMergeCancelled (cmi_now_unix input) r intent m
    \<and> intent_is_active intent \<and> am_request_id intent = rq_id r"
  using assms unfolding cancel_request_auto_merge_def
  by (auto simp: and_then_Ok_iff transition_def active_defs dest!: apply_transition_Ok split: if_split_asm)

lemma stop_Ok:
  assumes "stop_request_auto_merge r intent reason event_id now = Ok m"
  shows "transition_to IntentStopped (Some reason) KAutoMergeStopped now r intent m
    \<and> intent_is_active intent \<and> am_request_id intent = rq_id r"
  using assms unfolding stop_request_auto_merge_def
  by (auto simp: and_then_Ok_iff transition_def active_defs dest!: apply_transition_Ok split: if_split_asm)

lemma fulfill_Ok:
  assumes "fulfill_request_auto_merge r intent main_oid event_id now = Ok m"
  shows "transition_to IntentFulfilled None KAutoMergeFulfilled now r intent m
    \<and> intent_is_active intent \<and> am_request_id intent = rq_id r
    \<and> request_state_of r = Merged \<and> rq_merged_head_oid r = Some (am_head_oid intent)
    \<and> rq_merged_main_oid r = Some main_oid"
  using assms unfolding fulfill_request_auto_merge_def
  by (auto simp: and_then_Ok_iff transition_def active_defs dest!: apply_transition_Ok split: if_split_asm)

lemma stop_for_Ok:
  "stop_for_check_evaluation r intent e event_id = Ok (Some m)
    \<Longrightarrow> \<exists>now. stop_request_auto_merge r intent StopChecksConfigurationError event_id now = Ok m"
  "stop_for_check_run r intent failed_run event_id = Ok (Some m)
    \<Longrightarrow> \<exists>now. stop_request_auto_merge r intent StopChecksFailed event_id now = Ok m"
  by (auto simp: stop_for_check_evaluation_def stop_for_check_run_def and_then_Ok_iff split: if_split_asm)

text \<open>The seven operations as three: a step of the request, a new intent, or the end of the active one.\<close>

lemma auto_step_cases:
  assumes "auto_step sha256_hex (r, i) events (r', i')"
  obtains (request) "request_step sha256_hex r events r'" "i' = i"
  | (enabled) rv input m intent where "authorize_request_auto_merge r rv i input = Ok m"
      "events = [amm_event m]" "r' = amm_request m" "i' = Some (amm_intent m)"
      "transition_to IntentActive None KAutoMergeEnabled (ami_now_unix input) r intent m"
      "am_request_id intent = rq_id r" "am_repo_id intent = rq_repo_id r" "am_head_oid intent = rq_head_oid r"
  | (ended) m intent status reason kind now where "i = Some intent" "intent_is_active intent"
      "events = [amm_event m]" "r' = amm_request m" "i' = Some (amm_intent m)"
      "transition_to status reason kind now r intent m" "status \<noteq> IntentActive" "auto_merge_kind kind"
      "kind \<noteq> KAutoMergeEnabled" "kind = KAutoMergeFulfilled \<longleftrightarrow> status = IntentFulfilled"
      "status = IntentFulfilled \<Longrightarrow> request_state_of r = Merged \<and> rq_merged_head_oid r = Some (am_head_oid intent)"
  using assms
proof (cases rule: auto_step.cases)
  case request
  then show ?thesis using that(1) by blast
next
  case (authorize rv input m)
  then show ?thesis using authorize_Ok(1) [OF authorize(4)] that(2) by blast
next
  case (cancel intent input m)
  then show ?thesis using cancel_Ok [OF cancel(5)] that(3) [of intent m] by (auto simp: auto_merge_kind_def)
next
  case (stop intent reason event_id now m)
  then show ?thesis using stop_Ok [OF stop(5)] that(3) [of intent m] by (auto simp: auto_merge_kind_def)
next
  case (stop_evaluation intent e event_id m)
  then obtain now where "stop_request_auto_merge r intent StopChecksConfigurationError event_id now = Ok m"
    using stop_for_Ok(1) by blast
  with stop_evaluation show ?thesis using stop_Ok that(3) [of intent m] by (fastforce simp: auto_merge_kind_def)
next
  case (stop_run intent failed_run event_id m)
  then obtain now where "stop_request_auto_merge r intent StopChecksFailed event_id now = Ok m"
    using stop_for_Ok(2) by blast
  with stop_run show ?thesis using stop_Ok that(3) [of intent m] by (fastforce simp: auto_merge_kind_def)
next
  case (fulfill intent main_oid event_id now m)
  then show ?thesis using fulfill_Ok [OF fulfill(5)] that(3) [of intent m] by (auto simp: auto_merge_kind_def)
qed

section \<open>What the operations keep\<close>

definition intent_ok :: "request \<Rightarrow> auto_merge_intent \<Rightarrow> bool" where
  "intent_ok r intent \<longleftrightarrow>
     validate_intent_facts intent = Ok () \<and> am_request_id intent = rq_id r \<and> am_repo_id intent = rq_repo_id r
     \<and> (am_status intent = IntentFulfilled \<longrightarrow>
          request_state_of r = Merged \<and> rq_merged_head_oid r = Some (am_head_oid intent))"

definition auto_ok :: "auto_state \<Rightarrow> bool" where
  "auto_ok s \<longleftrightarrow> validate_request_facts (fst s) = Ok () \<and> (\<forall>intent. snd s = Some intent \<longrightarrow> intent_ok (fst s) intent)"

fun intent_edge :: "auto_merge_intent_status option \<Rightarrow> auto_merge_intent_status option \<Rightarrow> bool" where
  "intent_edge (Some IntentActive) s \<longleftrightarrow> s \<in> {Some IntentCancelled, Some IntentStopped, Some IntentFulfilled}"
| "intent_edge (Some IntentFulfilled) s \<longleftrightarrow> False"
| "intent_edge _ s \<longleftrightarrow> s = Some IntentActive"

definition intent_status :: "auto_state \<Rightarrow> auto_merge_intent_status option" where
  "intent_status s = map_option am_status (snd s)"

lemma merged_kept:
  assumes "step_ok r events r'" "request_state_of r = Merged"
  shows "request_state_of r' = Merged \<and> rq_merged_head_oid r' = rq_merged_head_oid r"
  using assms by (auto simp: step_ok_def keeps_landed_facts_def state_defs split: if_split_asm)

lemma transition_request:
  assumes "transition_to status reason kind now r intent m"
  shows "rq_id (amm_request m) = rq_id r" "rq_repo_id (amm_request m) = rq_repo_id r"
    "request_state_of (amm_request m) = request_state_of r" "rq_merged_head_oid (amm_request m) = rq_merged_head_oid r"
    "rq_activity_version (amm_request m) = ev_position (amm_event m)" "is_terminal (amm_request m) = is_terminal r"
    "rq_head_oid (amm_request m) = rq_head_oid r"
  using assms by (simp_all add: transition_to_def state_defs)

lemma auto_step_kept:
  assumes step: "auto_step sha256_hex s events s'" and ok: "auto_ok s"
  shows "auto_ok s' \<and> (intent_status s' = intent_status s \<or> intent_edge (intent_status s) (intent_status s'))"
proof -
  obtain r i r' i' where s: "s = (r, i)" "s' = (r', i')" by (cases s; cases s')
  from step [unfolded s] show ?thesis
  proof (cases rule: auto_step_cases)
    case request
    have "step_ok r events r'" "validate_request_facts r' = Ok ()"
      using request_step_ok [OF request(1)] request_step_valid [OF request(1)] ok by (auto simp: s auto_ok_def)
    moreover from this have "rq_id r' = rq_id r" "rq_repo_id r' = rq_repo_id r" by (auto simp: step_ok_def same_request_def)
    ultimately show ?thesis
      using ok merged_kept request(2) by (auto simp: s auto_ok_def intent_ok_def intent_status_def)
  next
    case (enabled rv input m intent)
    have "\<not> intent_active i" and "request_state_of r = Open" using authorize_Ok(2) eligible enabled(1) by blast+
    then have "intent_edge (intent_status (r, i)) (Some IntentActive)"
      using ok by (cases i; cases "am_status (the i)")
        (auto simp: s intent_status_def intent_active_def intent_is_active_def auto_ok_def intent_ok_def)
    then show ?thesis
      using enabled(3-) transition_request [OF enabled(5)]
      by (auto simp: s auto_ok_def intent_ok_def intent_status_def transition_to_def)
  next
    case (ended m intent status reason kind now)
    have "intent_ok r intent" using ok ended(1) by (simp add: s auto_ok_def)
    moreover have "intent_edge (Some IntentActive) (Some status)" using ended(7) by (cases status) auto
    ultimately show ?thesis
      using ended transition_request [OF ended(6)]
      by (auto simp: s auto_ok_def intent_ok_def intent_status_def transition_to_def intent_is_active_def)
  qed
qed

interpretation am: lifecycle "\<lambda>s s'. \<exists>events. auto_step sha256_hex s events s'" auto_ok intent_status intent_edge
  for sha256_hex
  by unfold_locales (use auto_step_kept in blast)+

lemma auto_history_ok: "auto_history sha256_hex s events \<Longrightarrow> auto_ok s"
  by (induction rule: auto_history.induct) (auto dest: auto_step_kept open_request_Ok simp: auto_ok_def)

text \<open>The timeline of both: numbered without gaps going back, of this request, with properly nested intents.\<close>

definition auto_timeline :: "auto_state \<Rightarrow> request_event list \<Rightarrow> bool" where
  "auto_timeline s events \<longleftrightarrow>
     sorted_wrt (<) (map ev_position events)
     \<and> (\<forall>event \<in> set events. ev_request_id event = rq_id (fst s) \<and> ev_position event \<le> rq_activity_version (fst s))
     \<and> auto_track (map ev_kind events) False = Some (intent_active (snd s))
     \<and> (\<forall>event \<in> set events. ev_kind event = KAutoMergeFulfilled \<longrightarrow> intent_status s = Some IntentFulfilled)"

lemma auto_timeline_snoc:
  assumes t: "auto_timeline (r, i) events" and pos: "rq_activity_version r < ev_position event"
    and r': "rq_id r' = rq_id r" "rq_activity_version r' = ev_position event" "ev_request_id event = rq_id r"
    and track: "auto_track [ev_kind event] (intent_active i) = Some (intent_active i')"
    and fulfilled: "\<And>e. e \<in> set (events @ [event]) \<Longrightarrow> ev_kind e = KAutoMergeFulfilled \<Longrightarrow> intent_status (r', i') = Some IntentFulfilled"
  shows "auto_timeline (r', i') (events @ [event])"
proof -
  have "ev_position e \<le> rq_activity_version r" if "e \<in> set events" for e using t that by (simp add: auto_timeline_def)
  then have "ev_position e < ev_position event" if "e \<in> set events" for e using pos that le_less_trans by blast
  then show ?thesis
    using t r' track fulfilled
    by (auto simp: auto_timeline_def sorted_wrt_append auto_track_append intro: less_imp_le simp del: auto_track.simps)
qed

lemma auto_timeline_step:
  assumes t: "auto_timeline (r, i) events" and ok: "auto_ok (r, i)" and step: "auto_step sha256_hex (r, i) new_events (r', i')"
  shows "auto_timeline (r', i') (events @ new_events)"
  using step
proof (cases rule: auto_step_cases)
  case request
  then have s: "step_ok r new_events r'" by (blast dest: request_step_ok)
  then have "length new_events \<le> 1" by (simp add: step_ok_def continues_activity_def)
  then consider "new_events = []" | event where "new_events = [event]" by (cases new_events) auto
  then show ?thesis
  proof cases
    case 1
    then show ?thesis
      using t s request(2) by (auto simp: auto_timeline_def step_ok_def step_facts_defs intent_status_def intro: order_trans)
  next
    case (2 event)
    then have "ev_kind event \<noteq> KAutoMergeFulfilled" "\<not> auto_merge_kind (ev_kind event)" "ev_kind event \<noteq> KAutoMergeEnabled"
      using s by (auto simp: step_ok_def continues_activity_def auto_merge_kind_def)
    then show ?thesis unfolding 2
      using t s 2 request(2) 
      by (intro auto_timeline_snoc [OF t]) (auto simp: step_ok_def continues_activity_def same_request_def auto_timeline_def intent_status_def)
  qed
next
  case (enabled rv input m intent)
  have "\<not> intent_active i" and "request_state_of r = Open" using authorize_Ok(2) eligible enabled(1) by blast+
  moreover have "intent_status (r, i) \<noteq> Some IntentFulfilled"
    using ok \<open>request_state_of r = Open\<close> by (auto simp: auto_ok_def intent_ok_def intent_status_def)
  moreover have "intent_active i'" using enabled(4,5) by (simp add: intent_active_def intent_is_active_def transition_to_def)
  ultimately show ?thesis unfolding enabled(2)
    using t enabled(3,5) transition_request [OF enabled(5)]
    by (intro auto_timeline_snoc [OF t]) (auto simp: transition_to_def auto_timeline_def)
next
  case (ended m intent status reason kind now)
  have "intent_active i" "intent_status (r, i) \<noteq> Some IntentFulfilled" "\<not> intent_active i'" "intent_status (r', i') = Some status"
    using ended(1,2,5,6,7) by (auto simp: intent_active_def intent_is_active_def intent_status_def transition_to_def)
  then show ?thesis unfolding ended(3)
    using t ended(4,6,8,9,10) transition_request [OF ended(6)]
    by (intro auto_timeline_snoc [OF t]) (auto simp: transition_to_def auto_timeline_def)
qed

lemma auto_history_timeline: "auto_history sha256_hex s events \<Longrightarrow> auto_timeline s events"
proof (induction rule: auto_history.induct)
  case (started facts input views r event)
  then show ?case using open_request_Ok by (fastforce simp: auto_timeline_def intent_active_def auto_merge_kind_def)
next
  case (stepped s events new_events s')
  then show ?case using auto_timeline_step auto_history_ok by (cases s; cases s') blast
qed

end
