(* ===== verification/Check_Planning.thy ===== *)
theory Check_Planning
  imports Request_Checks
begin

text \<open>
  Planning the checks of a request (\<^verbatim>\<open>requests/checks/planning.rs\<close>), the pushes that send a commit to GitHub
  (\<^verbatim>\<open>requests/checks/github_push.rs\<close>) and the message a reader of the checks sees.
\<close>

section \<open>Availability of native runs\<close>

datatype native_runs_availability = RunsAvailable | RunsUnavailable

definition availability_for_owner :: "bool \<Rightarrow> native_runs_availability" where
  "availability_for_owner owner_listed = (if owner_listed then RunsAvailable else RunsUnavailable)"

definition runs_available :: "native_runs_availability \<Rightarrow> bool" where
  "runs_available a \<longleftrightarrow> a = RunsAvailable"

definition require_native_runs :: "native_runs_availability \<Rightarrow> (domain_error, unit) result" where
  "require_native_runs a = (if runs_available a then Ok () else Err (forbidden NATIVE_RUNS_UNAVAILABLE))"

definition MAX_NATIVE_RUNS_NOTE_CHARS :: nat where "MAX_NATIVE_RUNS_NOTE_CHARS = 500"

record native_runs_account =
  na_user_id :: string
  na_added_at_unix :: u64
  na_note :: "string option"

definition NativeRunsAccount_new ::
  "string \<Rightarrow> string option \<Rightarrow> u64 \<Rightarrow> (domain_error, native_runs_account) result" where
  "NativeRunsAccount_new user_id note now_unix =
     (let note = (case note of Some n \<Rightarrow> if trim n \<noteq> [] then Some (trim n) else None | None \<Rightarrow> None) in
      if (case note of Some n \<Rightarrow> char_count n > MAX_NATIVE_RUNS_NOTE_CHARS | None \<Rightarrow> False) then
        Err (invalid_input (''native runs note must be at most '' @ show_nat MAX_NATIVE_RUNS_NOTE_CHARS
          @ '' characters''))
      else and_then (required ''native runs account'' user_id) (\<lambda>user_id.
        Ok \<lparr>na_user_id = user_id, na_added_at_unix = now_unix, na_note = note\<rparr>))"

section \<open>Plans\<close>

record github_request_checks =
  grc_github_repository_id :: u64
  grc_tested :: github_tested_commit
  grc_required_check_names :: "string list"

record request_check_plan =
  pl_evaluation :: request_check_evaluation
  pl_runs :: "run list"
  pl_push_to_github :: bool

definition starts_on_push :: "request \<Rightarrow> bool" where
  "starts_on_push r \<longleftrightarrow> request_state_of r \<noteq> Merged"

definition native_plan :: "request_check_evaluation \<Rightarrow> run list \<Rightarrow> request_check_plan" where
  "native_plan e runs = \<lparr>pl_evaluation = e, pl_runs = runs, pl_push_to_github = False\<rparr>"

definition plan_runs ::
  "(string \<Rightarrow> string) \<Rightarrow> request \<Rightarrow> source_blob option \<Rightarrow> string \<Rightarrow> native_request_check list \<Rightarrow> workflow_revision list \<Rightarrow> string
   \<Rightarrow> u64 \<Rightarrow> (domain_error, run list) result" where
  "plan_runs sha256_hex r source evaluation_id checks revisions actor_user_id now_unix =
     (if length checks \<noteq> length revisions then Err (invalid_input ''approval must start every recorded check'')
      else collect_results (\<lambda>(check, rv). check_run sha256_hex check r source evaluation_id rv actor_user_id now_unix)
             (zip checks revisions))"

definition start_planned ::
  "(string \<Rightarrow> string) \<Rightarrow> request \<Rightarrow> source_blob option \<Rightarrow> request_check_evaluation \<Rightarrow> workflow_revision list \<Rightarrow> string \<Rightarrow> u64
   \<Rightarrow> (domain_error, request_check_evaluation \<times> run list) result" where
  "start_planned sha256_hex r source e revisions actor_user_id now_unix =
     and_then (plan_runs sha256_hex r source (ce_id e) (native_checks e) revisions actor_user_id now_unix) (\<lambda>runs.
     and_then (approve_evaluation e (map rn_id runs) now_unix) (\<lambda>e'. Ok (e', runs)))"

definition plan_evaluate ::
  "(string \<Rightarrow> string) \<Rightarrow> request \<Rightarrow> source_blob option \<Rightarrow> request_check_context \<Rightarrow> native_runs_availability
   \<Rightarrow> (string, workflow_revision list) result \<Rightarrow> request_check_reviewer option \<Rightarrow> u64
   \<Rightarrow> (domain_error, request_check_plan) result" where
  "plan_evaluate sha256_hex r source ctx native_runs revisions reviewing_pusher now_unix =
     (if \<not> context_matches_request ctx r then Err (conflict ''request changed while evaluating CI'')
      else if \<not> runs_available native_runs then
        and_then (no_checks sha256_hex ctx now_unix) (\<lambda>e. Ok (native_plan e []))
      else case revisions of
        Inl message \<Rightarrow> and_then (configuration_error sha256_hex ctx message now_unix) (\<lambda>e. Ok (native_plan e []))
      | Inr revisions \<Rightarrow>
          if revisions = [] then and_then (no_checks sha256_hex ctx now_unix) (\<lambda>e. Ok (native_plan e []))
          else and_then (awaiting_approval sha256_hex ctx (map (\<lambda>rv. NativeCheck (check_for_revision rv)) revisions) now_unix)
            (\<lambda>e. case (if starts_on_push r then reviewing_pusher else None) of
                Some starter \<Rightarrow>
                  and_then (start_planned sha256_hex r source e revisions (reviewer_user_id starter) now_unix)
                    (\<lambda>(e', runs). Ok (native_plan e' runs))
              | None \<Rightarrow> Ok (native_plan e [])))"

definition set_tested_commit ::
  "request_check_evaluation \<Rightarrow> (string \<times> check_commit_base) option \<Rightarrow> (domain_error, request_check_evaluation) result" where
  "set_tested_commit e check_commit =
     (case check_commit of Some (oid, base) \<Rightarrow> test_check_commit e oid base | None \<Rightarrow> Ok e)"

definition plan_github_conflict ::
  "(string \<Rightarrow> string) \<Rightarrow> request_check_context \<Rightarrow> github_request_checks \<Rightarrow> u64 \<Rightarrow> (domain_error, request_check_plan) result" where
  "plan_github_conflict sha256_hex ctx github now_unix =
     and_then (configuration_error sha256_hex ctx PRIVATE_CODE_CONFLICT_MESSAGE now_unix) (\<lambda>e.
       Ok (native_plan (renew_identity sha256_hex
         (e\<lparr>ce_github_repository_id := Some (grc_github_repository_id github),
            ce_checks := map GitHubCheck (grc_required_check_names github)\<rparr>)) []))"

definition plan_github_tested ::
  "(string \<Rightarrow> string) \<Rightarrow> request \<Rightarrow> request_check_context \<Rightarrow> github_request_checks \<Rightarrow> (string \<times> check_commit_base) option
   \<Rightarrow> request_check_reviewer option \<Rightarrow> u64 \<Rightarrow> (domain_error, request_check_plan) result" where
  "plan_github_tested sha256_hex r ctx github check_commit reviewing_pusher now_unix =
     (let starts = (reviewing_pusher \<noteq> None \<and> starts_on_push r);
          checks = map GitHubCheck (grc_required_check_names github)
      in and_then (if checks = [] then no_checks sha256_hex ctx now_unix
             else if starts then started_evaluation sha256_hex ctx checks now_unix
             else awaiting_approval sha256_hex ctx checks now_unix) (\<lambda>e.
         and_then (set_tested_commit (e\<lparr>ce_github_repository_id := Some (grc_github_repository_id github)\<rparr>) check_commit)
           (\<lambda>e'. Ok \<lparr>pl_evaluation = renew_identity sha256_hex e', pl_runs = [], pl_push_to_github = starts\<rparr>)))"

definition plan_evaluate_github ::
  "(string \<Rightarrow> string) \<Rightarrow> request \<Rightarrow> request_check_context \<Rightarrow> views \<Rightarrow> github_request_checks \<Rightarrow> request_check_reviewer option \<Rightarrow> u64
   \<Rightarrow> (domain_error, request_check_plan) result" where
  "plan_evaluate_github sha256_hex r ctx views github reviewing_pusher now_unix =
     (if \<not> context_matches_request ctx r then Err (conflict ''request changed while evaluating CI'')
      else if tested_target (grc_tested github) \<noteq> check_target_for_request r views then
        Err (invalid_input ''the tested commit does not fit the request's view'')
      else case grc_tested github of
        TestedHead \<Rightarrow> plan_github_tested sha256_hex r ctx github None reviewing_pusher now_unix
      | TestedCheckCommit oid base \<Rightarrow>
          plan_github_tested sha256_hex r ctx github (Some (oid, base)) reviewing_pusher now_unix
      | TestedConflict \<Rightarrow> plan_github_conflict sha256_hex ctx github now_unix)"

definition rebuild_check_commit ::
  "(string \<Rightarrow> string) \<Rightarrow> request \<Rightarrow> request_check_evaluation \<Rightarrow> github_tested_commit \<Rightarrow> u64
   \<Rightarrow> (domain_error, request_check_plan) result" where
  "rebuild_check_commit sha256_hex r e tested now_unix =
     (if \<not> evaluation_matches_request e r \<or> ce_state e \<noteq> EvChecksStarted \<or> \<not> tests_check_commit e then
        Err (conflict ''request checks no longer test a check commit for this head'')
      else if now_unix < ce_created_at_unix e then
        Err (invalid_input ''a new check commit cannot predate the evaluation'')
      else case tested of
        TestedCheckCommit oid base \<Rightarrow>
          and_then (test_check_commit (e\<lparr>ce_tested_oid := ce_head_oid e, ce_check_commit_base := None\<rparr>) oid base)
            (\<lambda>e'. Ok \<lparr>pl_evaluation = renew_identity sha256_hex
                        (e'\<lparr>ce_created_at_unix := now_unix, ce_updated_at_unix := now_unix\<rparr>),
                      pl_runs = [], pl_push_to_github = (\<not> is_terminal r)\<rparr>)
      | TestedConflict \<Rightarrow>
          and_then (configuration_error sha256_hex (context_of e) PRIVATE_CODE_CONFLICT_MESSAGE now_unix) (\<lambda>conflict.
            Ok (native_plan (renew_identity sha256_hex
              (conflict\<lparr>ce_github_repository_id := ce_github_repository_id e, ce_checks := ce_checks e\<rparr>)) []))
      | TestedHead \<Rightarrow> Err (invalid_input ''the tested commit does not fit the request's view''))"

definition plan_approve ::
  "(string \<Rightarrow> string) \<Rightarrow> request \<Rightarrow> source_blob option \<Rightarrow> request_check_evaluation \<Rightarrow> workflow_revision list
   \<Rightarrow> request_check_reviewer \<Rightarrow> u64 \<Rightarrow> (domain_error, request_check_plan) result" where
  "plan_approve sha256_hex r source e revisions approver now_unix =
     and_then (ensure_awaiting_approval e) (\<lambda>_.
     if \<not> evaluation_matches_request e r then
       Err (invalid_input ''request check evaluation does not match the request head'')
     else and_then (start_planned sha256_hex r source e revisions (reviewer_user_id approver) now_unix) (\<lambda>(e', runs).
       Ok \<lparr>pl_evaluation = e', pl_runs = runs, pl_push_to_github = (asks_github e' \<and> \<not> is_terminal r)\<rparr>))"

section \<open>Pushes to GitHub\<close>

definition REQUEST_BRANCH_PREFIX :: string where "REQUEST_BRANCH_PREFIX = ''scope/requests/''"
definition SETUP_CHECK_BRANCH :: string where "SETUP_CHECK_BRANCH = ''scope/setup-check''"
definition MAIN_BRANCH :: string where "MAIN_BRANCH = ''main''"
definition RETRY_DELAYS_SECS :: "u64 list" where "RETRY_DELAYS_SECS = [30, 2 * 60, 10 * 60, 30 * 60]"
definition WORKFLOWS_DIRECTORY :: string where "WORKFLOWS_DIRECTORY = ''.github/workflows/''"

datatype github_branch = BranchRequest string | BranchSetupCheck | BranchMain

definition GitHubBranch_parse :: "string \<Rightarrow> github_branch option" where
  "GitHubBranch_parse branch =
     (if branch = SETUP_CHECK_BRANCH then Some BranchSetupCheck
      else if branch = MAIN_BRANCH then Some BranchMain
      else case strip_prefix REQUEST_BRANCH_PREFIX branch of
        Some request_id \<Rightarrow>
          if request_id \<noteq> [] \<and> CHR ''/'' \<notin> set request_id then Some (BranchRequest request_id) else None
      | None \<Rightarrow> None)"

definition branch_name :: "github_branch \<Rightarrow> string" where
  "branch_name branch =
     (case branch of
        BranchRequest request_id \<Rightarrow> REQUEST_BRANCH_PREFIX @ request_id
      | BranchSetupCheck \<Rightarrow> SETUP_CHECK_BRANCH
      | BranchMain \<Rightarrow> MAIN_BRANCH)"

definition owned_by_scope :: "github_branch \<Rightarrow> bool" where
  "owned_by_scope branch \<longleftrightarrow> branch \<noteq> BranchMain"

definition branch_git_ref :: "github_branch \<Rightarrow> string" where
  "branch_git_ref branch = ''refs/heads/'' @ branch_name branch"

datatype github_push_state = PushQueued | PushRunning | PushSucceeded | PushFailed

record github_push_destination =
  pd_installation_id :: u64
  pd_github_repository_id :: u64
  pd_github_full_name :: string

definition destination_of :: "github_connection \<Rightarrow> github_push_destination" where
  "destination_of c =
     \<lparr>pd_installation_id = gc_installation_id c, pd_github_repository_id = gc_github_repository_id c,
      pd_github_full_name = gc_github_full_name c\<rparr>"

definition for_main_publication :: "github_connection \<Rightarrow> github_push_destination option" where
  "for_main_publication c = (if gc_publishes_main c \<and> is_connected c then Some (destination_of c) else None)"

definition is_connected_through :: "github_push_destination \<Rightarrow> github_connection \<Rightarrow> bool" where
  "is_connected_through d c \<longleftrightarrow>
     is_connected c \<and> gc_installation_id c = pd_installation_id d
     \<and> gc_github_repository_id c = pd_github_repository_id d"

record github_push =
  gu_id :: string
  gu_repo_id :: string
  gu_branch :: github_branch
  gu_target_oid :: "string option"
  gu_destination :: github_push_destination
  gu_state :: github_push_state
  gu_attempts :: u32
  gu_last_error :: "string option"
  gu_updated_at_unix :: u64

definition delivered_at :: "github_push \<Rightarrow> string \<Rightarrow> u64 option" where
  "delivered_at p head_oid =
     (if gu_state p = PushSucceeded \<and> gu_target_oid p = Some head_oid then Some (gu_updated_at_unix p) else None)"

definition delivered_head :: "github_push \<Rightarrow> string option" where
  "delivered_head p = (if gu_state p = PushSucceeded then gu_target_oid p else None)"

text \<open>The caller's question to Git, whether published main contains a commit, is the parameter; it may fail.\<close>

definition main_publication_contains_merge ::
  "request \<Rightarrow> (string \<Rightarrow> ('e, bool) result) \<Rightarrow> ('e, bool) result" where
  "main_publication_contains_merge r published_main_contains =
     (case (request_state_of r, rq_merged_main_oid r) of
        (Merged, Some merged_main_oid) \<Rightarrow> published_main_contains merged_main_oid
      | _ \<Rightarrow> Ok False)"

definition github_retry_at :: "u32 \<Rightarrow> u64 \<Rightarrow> u64 option" where
  "github_retry_at attempts now_unix =
     (case checked_sub attempts 1 of
        None \<Rightarrow> None
      | Some index \<Rightarrow>
          if unat index < length RETRY_DELAYS_SECS
          then Some (saturating_add now_unix (RETRY_DELAYS_SECS ! unat index)) else None)"

definition github_push_retry_at :: "github_push \<Rightarrow> u64 \<Rightarrow> u64 option" where
  "github_push_retry_at p now_unix =
     (if gu_branch p = BranchSetupCheck \<and> gu_target_oid p \<noteq> None then None
      else github_retry_at (gu_attempts p) now_unix)"

datatype github_push_status = StatusAwaitingApproval | StatusSending "string option" | StatusSent | StatusFailed string

definition push_status_for_evaluation ::
  "request_check_evaluation \<Rightarrow> github_push option \<Rightarrow> github_push_status option" where
  "push_status_for_evaluation e push =
     (let pending = (if awaits_approval e \<and> asks_github e then Some StatusAwaitingApproval else None) in
      case push of
        None \<Rightarrow> pending
      | Some p \<Rightarrow>
          if gu_target_oid p \<noteq> Some (ce_tested_oid e) then pending
          else Some (case gu_state p of
              PushQueued \<Rightarrow> StatusSending (gu_last_error p)
            | PushRunning \<Rightarrow> StatusSending (gu_last_error p)
            | PushSucceeded \<Rightarrow> StatusSent
            | PushFailed \<Rightarrow> StatusFailed (case gu_last_error p of
                Some e \<Rightarrow> e | None \<Rightarrow> ''The push to GitHub failed.'')))"

definition changes_github_workflows :: "string list \<Rightarrow> bool" where
  "changes_github_workflows paths \<longleftrightarrow>
     list_ex (\<lambda>path. starts_with WORKFLOWS_DIRECTORY (dropWhile (\<lambda>c. c = CHR ''/'') path)) paths"

definition GITHUB_DISCONNECTED_MESSAGE :: string where
  "GITHUB_DISCONNECTED_MESSAGE =
     ''This repository is no longer connected to GitHub, so its CI cannot pass. ''
     @ ''A maintainer can reconnect it in repository settings.''"

definition request_checks_message ::
  "request_check_evaluation \<Rightarrow> request_check_results \<Rightarrow> github_push option \<Rightarrow> u64 \<Rightarrow> string option" where
  "request_checks_message e results push now_unix =
     (if ce_message e \<noteq> None then ce_message e
      else if asks_github e \<and> cs_github results = ResultsDisconnected then Some GITHUB_DISCONNECTED_MESSAGE
      else if results_withhold results e then Some PRIVATE_REQUESTS_WITHHELD_MESSAGE
      else if \<not> asks_github e then None
      else case Option.bind push (\<lambda>p. delivered_at p (ce_tested_oid e)) of
        None \<Rightarrow> None
      | Some pushed_at \<Rightarrow>
          if now_unix \<ge> saturating_add pushed_at GITHUB_WORKFLOWS_START_WITHIN_SECS
             \<and> \<not> any_check_on (cs_github results) (ce_tested_oid e)
          then Some NO_GITHUB_WORKFLOWS_STARTED else None)"

lemma branch_roundtrip:
  "GitHubBranch_parse name = Some branch \<Longrightarrow> branch_name branch = name"
  by (auto simp: GitHubBranch_parse_def branch_name_def strip_prefix_def prefix_def split: if_split_asm)

lemma branch_parse_name:
  assumes "case branch of BranchRequest i \<Rightarrow> i \<noteq> [] \<and> CHR ''/'' \<notin> set i | _ \<Rightarrow> True"
  shows "GitHubBranch_parse (branch_name branch) = Some branch"
  using assms by (cases branch)
    (auto simp: GitHubBranch_parse_def branch_name_def strip_prefix_def SETUP_CHECK_BRANCH_def MAIN_BRANCH_def
      REQUEST_BRANCH_PREFIX_def)

end
