(* ===== verification/Bot_Reviews.thy ===== *)
theory Bot_Reviews
  imports Check_Planning
begin

text \<open>
  Review bots of a request: \<^verbatim>\<open>requests/bot_reviews.rs\<close> and \<^verbatim>\<open>requests/bot_reviews/codex_state.rs\<close>. What a bot has done
  for a head is read from its reviews, reactions and comments on GitHub; the merge gate asks whether a required bot
  still works and whether one of its findings is open.

  The JSON text in a comment is read by \<^verbatim>\<open>serde_json\<close>: its parser is the parameter \<open>from_str\<close>, from text to the
  members of an object in the order of their names. How a member becomes a review part is the derived deserialiser.
\<close>

section \<open>Reported state in a comment\<close>

datatype github_review_bot_state = BotNotStarted | BotWorking | BotCommented | BotClear | BotTimedOut

definition bot_is_done :: "github_review_bot_state \<Rightarrow> bool" where
  "bot_is_done s \<longleftrightarrow> s = BotCommented \<or> s = BotClear"

definition holds_merge :: "github_review_bot_state \<Rightarrow> bool" where
  "holds_merge s \<longleftrightarrow> s = BotNotStarted \<or> s = BotWorking"

datatype json_value =
  JNull | JBool bool | JNumber int | JString string | JArray "json_value list" | JObject "(string \<times> json_value) list"

definition CODEX_REVIEW_BOT_LOGIN :: string where "CODEX_REVIEW_BOT_LOGIN = ''chatgpt-codex-connector[bot]''"
definition CODEX_MARKER :: string where "CODEX_MARKER = ''<!-- codex-review-state:v1 ''"
definition CODEX_MARKER_END :: string where "CODEX_MARKER_END = ''-->''"
definition FULL_OID_LENGTH :: nat where "FULL_OID_LENGTH = 40"
definition REVIEW_SUFFIX :: string where "REVIEW_SUFFIX = ''_review''"
definition CODEX_COMPLETED :: string where "CODEX_COMPLETED = ''completed''"
definition PART_FIELDS :: "string list" where
  "PART_FIELDS = [''commit_sha'', ''status'', ''has_any_findings'', ''has_unresolved_findings'']"

record codex_review_part =
  cp_commit_sha :: string
  cp_status :: string
  cp_has_any_findings :: "bool option"
  cp_has_unresolved_findings :: "bool option"

type_synonym codex_review_state = "codex_review_part list"

text \<open>\<^verbatim>\<open>str::find\<close>: the index of the first occurrence.\<close>

fun find_str :: "string \<Rightarrow> string \<Rightarrow> nat option" where
  "find_str pat [] = (if pat = [] then Some 0 else None)"
| "find_str pat (c # s) = (if prefix pat (c # s) then Some 0 else map_option Suc (find_str pat s))"

definition appears_in :: "string \<Rightarrow> bool" where
  "appears_in body \<longleftrightarrow> contains_str CODEX_MARKER body"

definition never_ran :: "json_value \<Rightarrow> bool" where
  "never_ran part =
     (case part of
        JObject members \<Rightarrow> list_all (\<lambda>field. map_of members field = Some JNull) PART_FIELDS
      | _ \<Rightarrow> False)"

text \<open>
  The derived deserialiser of a part: from an object, where an absent or null flag is \<^verbatim>\<open>None\<close>, or from an array of
  the four fields.
\<close>

definition json_flag :: "json_value option \<Rightarrow> bool option option" where
  "json_flag val =
     (case val of None \<Rightarrow> Some None | Some JNull \<Rightarrow> Some None | Some (JBool b) \<Rightarrow> Some (Some b) | _ \<Rightarrow> None)"

definition part_of_fields ::
  "json_value option \<Rightarrow> json_value option \<Rightarrow> json_value option \<Rightarrow> json_value option \<Rightarrow> codex_review_part option" where
  "part_of_fields sha status any_findings unresolved =
     (case (sha, status, json_flag any_findings, json_flag unresolved) of
        (Some (JString sha), Some (JString status), Some any_findings, Some unresolved) \<Rightarrow>
          Some \<lparr>cp_commit_sha = sha, cp_status = status, cp_has_any_findings = any_findings,
                cp_has_unresolved_findings = unresolved\<rparr>
      | _ \<Rightarrow> None)"

definition part_from_value :: "json_value \<Rightarrow> codex_review_part option" where
  "part_from_value val =
     (case val of
        JObject members \<Rightarrow> part_of_fields (map_of members ''commit_sha'') (map_of members ''status'')
          (map_of members ''has_any_findings'') (map_of members ''has_unresolved_findings'')
      | JArray [sha, status, any_findings, unresolved] \<Rightarrow>
          part_of_fields (Some sha) (Some status) (Some any_findings) (Some unresolved)
      | _ \<Rightarrow> None)"

fun collect_options :: "'a option list \<Rightarrow> 'a list option" where
  "collect_options [] = Some []"
| "collect_options (x # xs) = Option.bind x (\<lambda>y. map_option ((#) y) (collect_options xs))"

definition CodexReviewState_parse ::
  "(string \<Rightarrow> (string \<times> json_value) list option) \<Rightarrow> string \<Rightarrow> codex_review_state option" where
  "CodexReviewState_parse from_str body =
     Option.bind (find_str CODEX_MARKER body) (\<lambda>found.
     let text = drop (found + length CODEX_MARKER) body in
     Option.bind (find_str CODEX_MARKER_END text) (\<lambda>len.
     Option.bind (from_str (trim (take len text))) (\<lambda>members.
     Option.bind (collect_options (map (part_from_value \<circ> snd)
         (filter (\<lambda>(name, part). ends_with REVIEW_SUFFIX name \<and> \<not> never_ran part) members))) (\<lambda>parts.
     if parts \<noteq> [] then Some parts else None))))"

definition names_commit :: "string \<Rightarrow> string \<Rightarrow> bool" where
  "names_commit named head_oid \<longleftrightarrow>
     length named = FULL_OID_LENGTH
     \<and> list_all (\<lambda>b. is_ascii_digit b \<or> (CHR ''a'' \<le> b \<and> b \<le> CHR ''f'')) named \<and> named = head_oid"

definition reports_unresolved_findings_for :: "codex_review_state \<Rightarrow> string \<Rightarrow> bool" where
  "reports_unresolved_findings_for parts head_oid \<longleftrightarrow>
     list_ex (\<lambda>part. names_commit (cp_commit_sha part) head_oid \<and> cp_has_unresolved_findings part = Some True) parts"

definition codex_state_for :: "codex_review_state \<Rightarrow> string \<Rightarrow> github_review_bot_state option" where
  "codex_state_for parts head_oid =
     (let on_head = (\<lambda>part. names_commit (cp_commit_sha part) head_oid) in
      if list_all (\<lambda>part. on_head part \<and> cp_status part = CODEX_COMPLETED) parts then
        Some (if list_ex (\<lambda>part. cp_has_any_findings part = Some True) parts then BotCommented else BotClear)
      else if list_ex on_head parts then Some BotWorking
      else None)"

section \<open>State of a bot\<close>

definition REVIEW_BOT_START_DEADLINE_SECS :: u64 where "REVIEW_BOT_START_DEADLINE_SECS = 30 * 60"

datatype github_bot_reaction = Eyes | ThumbsUp

datatype github_review_bot_signal =
  SignalReviewed (signal_login: string) u64 string
| SignalReacted (signal_login: string) github_bot_reaction u64
| SignalCommented (signal_login: string) string

record github_review_bot_status =
  bs_login :: string
  bs_head_oid :: string
  bs_state :: github_review_bot_state

record github_review_request =
  grr_head_oid :: string
  grr_at_unix :: u64

definition signalled_head ::
  "(string \<Rightarrow> (string \<times> json_value) list option) \<Rightarrow> github_review_bot_signal list \<Rightarrow> string \<Rightarrow> bool" where
  "signalled_head from_str signals head_oid \<longleftrightarrow>
     list_ex (\<lambda>signal. case signal of
         SignalReviewed _ _ commit_oid \<Rightarrow> commit_oid = head_oid
       | SignalCommented _ body \<Rightarrow>
           (case CodexReviewState_parse from_str body of
              Some state \<Rightarrow> codex_state_for state head_oid \<noteq> None | None \<Rightarrow> False)
       | SignalReacted _ _ _ \<Rightarrow> False) signals"

definition reacted :: "github_review_bot_signal list \<Rightarrow> u64 option \<Rightarrow> github_bot_reaction \<Rightarrow> bool" where
  "reacted signals head_delivered_at wanted \<longleftrightarrow>
     list_ex (\<lambda>signal. case signal of
         SignalReacted _ reaction at_unix \<Rightarrow>
           reaction = wanted
           \<and> (case head_delivered_at of
                Some delivered \<Rightarrow> (case wanted of Eyes \<Rightarrow> at_unix \<ge> delivered | ThumbsUp \<Rightarrow> at_unix > delivered)
              | None \<Rightarrow> False)
       | _ \<Rightarrow> False) signals"

definition working_state :: "github_review_bot_signal list \<Rightarrow> u64 option \<Rightarrow> github_review_bot_state" where
  "working_state signals head_delivered_at = (if reacted signals head_delivered_at Eyes then BotWorking else BotNotStarted)"

definition reported_states ::
  "(string \<Rightarrow> (string \<times> json_value) list option) \<Rightarrow> github_review_bot_signal list \<Rightarrow> codex_review_state list" where
  "reported_states from_str signals =
     List.map_filter (\<lambda>signal. case signal of
         SignalCommented _ body \<Rightarrow> CodexReviewState_parse from_str body | _ \<Rightarrow> None) signals"

definition head_reviews :: "github_review_bot_signal list \<Rightarrow> string \<Rightarrow> u64 list" where
  "head_reviews signals head_oid =
     List.map_filter (\<lambda>signal. case signal of
         SignalReviewed _ review_id commit_oid \<Rightarrow> if commit_oid = head_oid then Some review_id else None
       | _ \<Rightarrow> None) signals"

definition reporting_bot_state ::
  "codex_review_state list \<Rightarrow> string \<Rightarrow> github_review_bot_state \<Rightarrow> bool \<Rightarrow> bool \<Rightarrow> github_review_bot_state" where
  "reporting_bot_state reported head_oid idle_state unimported_review has_head_reviews =
     (let states = List.map_filter (\<lambda>s. codex_state_for s head_oid) reported;
          state = (case find bot_is_done states of
              Some s \<Rightarrow> s
            | None \<Rightarrow> (case states of s # _ \<Rightarrow> s | [] \<Rightarrow> idle_state));
          findings_unseen = (list_ex (\<lambda>s. reports_unresolved_findings_for s head_oid) reported \<and> \<not> has_head_reviews)
      in if bot_is_done state \<and> (unimported_review \<or> findings_unseen) then BotWorking else state)"

definition bot_state ::
  "(string \<Rightarrow> (string \<times> json_value) list option) \<Rightarrow> bool \<Rightarrow> github_review_bot_signal list \<Rightarrow> string \<Rightarrow> u64 option \<Rightarrow> u64 list
   \<Rightarrow> github_review_bot_state" where
  "bot_state from_str reports_state signals head_oid head_delivered_at imported_review_ids =
     (let reported = reported_states from_str signals;
          reviews = head_reviews signals head_oid;
          unimported_review = list_ex (\<lambda>i. i \<notin> set imported_review_ids) reviews
      in if reports_state \<or> reported \<noteq> [] then
           reporting_bot_state reported head_oid (working_state signals head_delivered_at) unimported_review (reviews \<noteq> [])
         else if unimported_review then BotWorking
         else if reviews \<noteq> [] then BotCommented
         else if reacted signals head_delivered_at ThumbsUp then BotClear
         else working_state signals head_delivered_at)"

definition start_deadline_passed :: "github_review_request option \<Rightarrow> string \<Rightarrow> u64 \<Rightarrow> bool" where
  "start_deadline_passed review_request head_oid now_unix =
     (case review_request of
        Some rq \<Rightarrow> grr_head_oid rq = head_oid
          \<and> now_unix \<ge> saturating_add (grr_at_unix rq) REVIEW_BOT_START_DEADLINE_SECS
      | None \<Rightarrow> False)"

definition bot_status ::
  "(string \<Rightarrow> (string \<times> json_value) list option) \<Rightarrow> github_review_bot_signal list \<Rightarrow> string \<Rightarrow> u64 option \<Rightarrow> u64 list \<Rightarrow> bool
   \<Rightarrow> github_review_bot \<Rightarrow> github_review_bot_status" where
  "bot_status from_str all_signals head_oid head_delivered_at imported_review_ids deadline_passed b =
     (let signals = filter (\<lambda>signal. bot_names (rb_login b) (signal_login signal)) all_signals;
          state = bot_state from_str (bot_names (rb_login b) CODEX_REVIEW_BOT_LOGIN) signals head_oid head_delivered_at
            imported_review_ids
      in \<lparr>bs_login = bot_login_str (rb_login b), bs_head_oid = head_oid,
          bs_state = (if state = BotNotStarted \<and> deadline_passed \<and> \<not> signalled_head from_str signals head_oid
            then BotTimedOut else state)\<rparr>)"

definition github_review_bot_statuses ::
  "(string \<Rightarrow> (string \<times> json_value) list option) \<Rightarrow> github_review_bot list \<Rightarrow> github_review_bot_signal list \<Rightarrow> string
   \<Rightarrow> u64 option \<Rightarrow> u64 list \<Rightarrow> github_review_request option \<Rightarrow> u64 \<Rightarrow> github_review_bot_status list" where
  "github_review_bot_statuses from_str bots signals head_oid head_delivered_at imported_review_ids review_request now_unix =
     map (bot_status from_str signals head_oid head_delivered_at imported_review_ids
            (start_deadline_passed review_request head_oid now_unix)) bots"

definition github_reviews_awaiting_import ::
  "github_review_bot list \<Rightarrow> github_review_bot_signal list \<Rightarrow> string \<Rightarrow> u64 list \<Rightarrow> u64 list" where
  "github_reviews_awaiting_import bots signals head_oid imported_review_ids =
     List.map_filter (\<lambda>signal. case signal of
         SignalReviewed login review_id commit_oid \<Rightarrow>
           if commit_oid = head_oid \<and> review_id \<notin> set imported_review_ids
              \<and> list_ex (\<lambda>b. bot_names (rb_login b) login) bots then Some review_id else None
       | _ \<Rightarrow> None) signals"

section \<open>Outcome\<close>

record request_bot_reviews =
  br_bots :: "github_review_bot list"
  br_statuses :: "github_review_bot_status list"
  br_open_finding_authors :: "string list"
  br_pull_requests_open :: bool

definition reviews_enforced :: "request_bot_reviews \<Rightarrow> bool" where
  "reviews_enforced reviews \<longleftrightarrow> br_pull_requests_open reviews \<and> list_ex rb_required (br_bots reviews)"

definition bot_state_of :: "request_bot_reviews \<Rightarrow> github_review_bot \<Rightarrow> string \<Rightarrow> github_review_bot_state" where
  "bot_state_of reviews b head_oid =
     (case find (\<lambda>status. bs_head_oid status = head_oid \<and> bot_names (rb_login b) (bs_login status))
             (br_statuses reviews) of
        Some status \<Rightarrow> bs_state status | None \<Rightarrow> BotNotStarted)"

definition has_open_findings :: "request_bot_reviews \<Rightarrow> bool" where
  "has_open_findings reviews \<longleftrightarrow>
     list_ex (\<lambda>author. list_ex (\<lambda>b. bot_names (rb_login b) author) (br_bots reviews)) (br_open_finding_authors reviews)"

definition request_reviews_outcome_of ::
  "view_id \<Rightarrow> string \<Rightarrow> views \<Rightarrow> request_bot_reviews \<Rightarrow> request_reviews_outcome" where
  "request_reviews_outcome_of view head_oid views reviews =
     (if view \<noteq> Views_full views \<or> \<not> reviews_enforced reviews then ReviewsClear
      else if has_open_findings reviews then ReviewsFindingsOpen
      else if list_ex (\<lambda>b. holds_merge (bot_state_of reviews b head_oid)) (filter rb_required (br_bots reviews)) then
        ReviewsPending
      else ReviewsClear)"

end
