(* ===== verification/Check_Machine.thy ===== *)
theory Check_Machine
  imports Check_Planning Lifecycles
begin

text \<open>
  The life of a check evaluation: planned for a head, approved by a reviewer, rebuilt on a newer main, withdrawn
  when native runs become unavailable. Every step keeps the facts of \<open>evaluation_ok\<close>, among them that the stored
  identity is the hash of what the evaluation tests, and moves the state only forwards.
\<close>

inductive evaluation_planned :: "(string \<Rightarrow> string) \<Rightarrow> request_check_evaluation \<Rightarrow> bool" for sha256_hex where
  native: "plan_evaluate sha256_hex r source ctx native_runs revisions reviewing_pusher now = Ok plan
    \<Longrightarrow> evaluation_planned sha256_hex (pl_evaluation plan)"
| github: "plan_evaluate_github sha256_hex r ctx views github reviewing_pusher now = Ok plan
    \<Longrightarrow> evaluation_planned sha256_hex (pl_evaluation plan)"

inductive evaluation_step :: "(string \<Rightarrow> string) \<Rightarrow> request_check_evaluation \<Rightarrow> request_check_evaluation \<Rightarrow> bool"
  for sha256_hex where
  approve: "plan_approve sha256_hex r source e revisions approver now = Ok plan
    \<Longrightarrow> evaluation_step sha256_hex e (pl_evaluation plan)"
| withdraw: "withdraw_native_runs sha256_hex e run_states now = Ok (Some e') \<Longrightarrow> evaluation_step sha256_hex e e'"
| rebuild: "rebuild_check_commit sha256_hex r e tested now = Ok plan
    \<Longrightarrow> evaluation_step sha256_hex e (pl_evaluation plan)"

fun evaluation_edge :: "request_check_evaluation_state \<Rightarrow> request_check_evaluation_state \<Rightarrow> bool" where
  "evaluation_edge EvAwaitingApproval s \<longleftrightarrow> s = EvChecksStarted \<or> s = EvConfigurationError"
| "evaluation_edge EvChecksStarted s \<longleftrightarrow> s = EvConfigurationError"
| "evaluation_edge EvNoChecks _ \<longleftrightarrow> False"
| "evaluation_edge EvConfigurationError _ \<longleftrightarrow> False"

definition checks_fit :: "request_check_evaluation_state \<Rightarrow> request_check list \<Rightarrow> bool" where
  "checks_fit state checks =
     (case state of
        EvNoChecks \<Rightarrow> checks = []
      | EvAwaitingApproval \<Rightarrow> checks \<noteq> [] \<and> (\<forall>c. NativeCheck c \<in> set checks \<longrightarrow> nc_run_id c = None)
      | EvChecksStarted \<Rightarrow> checks \<noteq> [] \<and> (\<forall>c. NativeCheck c \<in> set checks \<longrightarrow> nc_run_id c \<noteq> None)
      | EvConfigurationError \<Rightarrow> True)"

definition evaluation_ok :: "(string \<Rightarrow> string) \<Rightarrow> request_check_evaluation \<Rightarrow> bool" where
  "evaluation_ok sha256_hex e \<longleftrightarrow>
     ce_id e = ''evaluation_'' @ sha256_hex (identity_bytes e)
     \<and> (ce_tested_oid e = ce_head_oid e \<longleftrightarrow> ce_check_commit_base e = None)
     \<and> (ce_check_commit_base e \<noteq> None \<longrightarrow> native_checks e = [])
     \<and> checks_fit (ce_state e) (ce_checks e)
     \<and> (ce_message e \<noteq> None \<longleftrightarrow> ce_state e = EvConfigurationError)
     \<and> ce_created_at_unix e \<le> ce_updated_at_unix e"

lemma in_native_checks: "c \<in> set (List.map_filter native_of checks) \<longleftrightarrow> NativeCheck c \<in> set checks"
  by (force simp: List.map_filter_def native_of_def split: request_check.splits)

lemma checks_fit_simps [simp]:
  "checks_fit EvNoChecks checks \<longleftrightarrow> checks = []"
  "checks_fit EvConfigurationError checks"
  by (simp_all add: checks_fit_def)

lemma started_fit: "ensure_every_check_started checks = Ok () \<longleftrightarrow> checks_fit EvChecksStarted checks"
  by (auto simp: ensure_every_check_started_def checks_fit_def list_ex_iff in_native_checks split: if_splits)

section \<open>New evaluations\<close>

lemma Evaluation_new_Ok:
  assumes "Evaluation_new sha256_hex ctx state message checks now = Ok e"
  shows "e = renew_identity sha256_hex
         \<lparr>ce_id = [], ce_revision_id = rcc_revision_id ctx, ce_base_version = rcc_base_version ctx,
          ce_review_base_oid = rcc_review_base_oid ctx, ce_github_repository_id = None,
          ce_request_id = rcc_request_id ctx, ce_head_oid = rcc_head_oid ctx, ce_tested_oid = rcc_head_oid ctx,
          ce_changes_github_workflows = None, ce_check_commit_base = None, ce_state = state, ce_message = message,
          ce_checks = checks, ce_created_at_unix = now, ce_updated_at_unix = now\<rparr>"
  using assms by (simp add: Evaluation_new_def and_then_Ok_iff)

lemma renewed_simps [simp]:
  "identity_bytes (e\<lparr>ce_id := i\<rparr>) = identity_bytes e"
  "ce_id (renew_identity sha256_hex e) = ''evaluation_'' @ sha256_hex (identity_bytes e)"
  "identity_bytes (renew_identity sha256_hex e) = identity_bytes e"
  "ce_revision_id (renew_identity sha256_hex e) = ce_revision_id e"
  "ce_base_version (renew_identity sha256_hex e) = ce_base_version e"
  "ce_review_base_oid (renew_identity sha256_hex e) = ce_review_base_oid e"
  "ce_github_repository_id (renew_identity sha256_hex e) = ce_github_repository_id e"
  "ce_request_id (renew_identity sha256_hex e) = ce_request_id e"
  "ce_head_oid (renew_identity sha256_hex e) = ce_head_oid e"
  "ce_tested_oid (renew_identity sha256_hex e) = ce_tested_oid e"
  "ce_check_commit_base (renew_identity sha256_hex e) = ce_check_commit_base e"
  "ce_state (renew_identity sha256_hex e) = ce_state e"
  "ce_message (renew_identity sha256_hex e) = ce_message e"
  "ce_checks (renew_identity sha256_hex e) = ce_checks e"
  "native_checks (renew_identity sha256_hex e) = native_checks e"
  "ce_created_at_unix (renew_identity sha256_hex e) = ce_created_at_unix e"
  "ce_updated_at_unix (renew_identity sha256_hex e) = ce_updated_at_unix e"
  by (simp_all add: renew_identity_def identity_bytes_def native_checks_def)

definition fresh :: "request_check_context \<Rightarrow> request_check_evaluation_state \<Rightarrow> string option \<Rightarrow> request_check list \<Rightarrow> u64
    \<Rightarrow> request_check_evaluation \<Rightarrow> bool" where
  "fresh ctx state message checks now e \<longleftrightarrow>
     ce_revision_id e = rcc_revision_id ctx \<and> ce_base_version e = rcc_base_version ctx
     \<and> ce_review_base_oid e = rcc_review_base_oid ctx \<and> ce_request_id e = rcc_request_id ctx
     \<and> ce_head_oid e = rcc_head_oid ctx \<and> ce_tested_oid e = rcc_head_oid ctx \<and> ce_check_commit_base e = None
     \<and> ce_github_repository_id e = None \<and> ce_state e = state \<and> ce_message e = message \<and> ce_checks e = checks
     \<and> ce_created_at_unix e = now \<and> ce_updated_at_unix e = now"

lemma Evaluation_new_fresh:
  assumes "Evaluation_new sha256_hex ctx state message checks now = Ok e"
  shows "fresh ctx state message checks now e \<and> ce_id e = ''evaluation_'' @ sha256_hex (identity_bytes e)"
  unfolding Evaluation_new_Ok [OF assms] fresh_def by simp

lemma fresh_ok:
  assumes "Evaluation_new sha256_hex ctx state message checks now = Ok e"
    and "checks_fit state checks" "message \<noteq> None \<longleftrightarrow> state = EvConfigurationError"
  shows "evaluation_ok sha256_hex e"
  using Evaluation_new_fresh [OF assms(1)] assms(2,3) by (simp add: evaluation_ok_def fresh_def)

lemmas constructor_defs = no_checks_def awaiting_approval_def started_evaluation_def configuration_error_def

lemma constructors_ok:
  "no_checks sha256_hex ctx now = Ok e \<Longrightarrow> evaluation_ok sha256_hex e"
  "awaiting_approval sha256_hex ctx checks now = Ok e \<Longrightarrow> evaluation_ok sha256_hex e"
  "started_evaluation sha256_hex ctx checks now = Ok e \<Longrightarrow> evaluation_ok sha256_hex e"
  "configuration_error sha256_hex ctx message now = Ok e \<Longrightarrow> evaluation_ok sha256_hex e"
  by (auto simp: constructor_defs and_then_Ok_iff started_fit list_ex_iff in_native_checks checks_fit_def
      elim!: fresh_ok split: if_split_asm)

lemma constructors_fresh:
  "no_checks sha256_hex ctx now = Ok e \<Longrightarrow> fresh ctx EvNoChecks None [] now e"
  "awaiting_approval sha256_hex ctx checks now = Ok e \<Longrightarrow> fresh ctx EvAwaitingApproval None checks now e"
  "started_evaluation sha256_hex ctx checks now = Ok e \<Longrightarrow> fresh ctx EvChecksStarted None checks now e"
  "configuration_error sha256_hex ctx message now = Ok e \<Longrightarrow> fresh ctx EvConfigurationError (Some message) [] now e"
  by (auto simp: constructor_defs and_then_Ok_iff dest: Evaluation_new_fresh split: if_split_asm)

section \<open>Approving\<close>

lemma assign_runs_bytes: "map check_bytes (assign_runs checks ids) = map check_bytes checks"
  by (induction checks ids rule: assign_runs.induct) (auto simp: check_bytes_def)

lemma assign_runs_natives:
  "length ids = length (List.map_filter native_of checks) \<Longrightarrow>
   List.map_filter native_of (assign_runs checks ids)
     = map (\<lambda>(c, i). c\<lparr>nc_run_id := Some i\<rparr>) (zip (List.map_filter native_of checks) ids)"
  by (induction checks ids rule: assign_runs.induct) (auto simp: List.map_filter_simps native_of_def)

lemma assign_runs_Nil [simp]: "assign_runs checks ids = [] \<longleftrightarrow> checks = []"
  by (cases "(checks, ids)" rule: assign_runs.cases) auto

lemma assign_runs_no_natives: "List.map_filter native_of checks = [] \<Longrightarrow> assign_runs checks [] = checks"
  by (induction checks) (auto simp: List.map_filter_simps native_of_def split: request_check.splits)

lemma approve_evaluation_Ok:
  assumes "approve_evaluation e ids now = Ok e'"
  shows "ce_state e = EvAwaitingApproval \<and> length ids = length (native_checks e)
    \<and> e' = e\<lparr>ce_checks := assign_runs (ce_checks e) ids, ce_state := EvChecksStarted, ce_updated_at_unix := now\<rparr>
    \<and> checks_fit EvChecksStarted (assign_runs (ce_checks e) ids) \<and> ce_created_at_unix e \<le> now"
  using assms
  by (auto simp: approve_evaluation_def ensure_awaiting_approval_def and_then_Ok_iff Let_def started_fit
      split: if_split_asm)

lemma approve_evaluation_ok:
  assumes "approve_evaluation e ids now = Ok e'" "evaluation_ok sha256_hex e"
  shows "evaluation_ok sha256_hex e'"
proof -
  note A = approve_evaluation_Ok [OF assms(1)]
  then have e': "e' = e\<lparr>ce_checks := assign_runs (ce_checks e) ids, ce_state := EvChecksStarted, ce_updated_at_unix := now\<rparr>"
    by simp
  have "identity_bytes e' = identity_bytes e" by (simp add: e' identity_bytes_def assign_runs_bytes)
  moreover have "native_checks e = [] \<Longrightarrow> native_checks e' = []"
    using A by (simp add: e' native_checks_def assign_runs_no_natives)
  ultimately show ?thesis using assms(2) A by (auto simp: e' evaluation_ok_def)
qed

lemma start_planned_Ok:
  assumes "start_planned sha256_hex r source e revisions actor now = Ok (e', runs)"
  shows "plan_runs sha256_hex r source (ce_id e) (native_checks e) revisions actor now = Ok runs
    \<and> approve_evaluation e (map rn_id runs) now = Ok e'"
  using assms by (auto simp: start_planned_def and_then_Ok_iff)

lemma start_planned_ok:
  "start_planned sha256_hex r source e revisions actor now = Ok (e', runs) \<Longrightarrow> evaluation_ok sha256_hex e
    \<Longrightarrow> evaluation_ok sha256_hex e'"
  using start_planned_Ok approve_evaluation_ok by blast

section \<open>Plans\<close>

lemma plan_evaluate_ok:
  assumes "plan_evaluate sha256_hex r source ctx native_runs revisions reviewing_pusher now = Ok plan"
  shows "evaluation_ok sha256_hex (pl_evaluation plan)"
  using assms unfolding plan_evaluate_def
  by (auto simp: and_then_Ok_iff native_plan_def intro: constructors_ok elim!: start_planned_ok
      split: if_split_asm sum.split_asm option.split_asm) (erule constructors_ok)

lemma test_check_commit_Ok:
  assumes "test_check_commit e oid base = Ok e'"
  shows "e' = e\<lparr>ce_tested_oid := oid, ce_check_commit_base := Some base\<rparr> \<and> oid \<noteq> ce_head_oid e \<and> native_checks e = []"
  using assms by (auto simp: test_check_commit_def and_then_Ok_iff split: if_split_asm)

lemma set_tested_commit_ok:
  assumes "set_tested_commit e check_commit = Ok e'" "evaluation_ok sha256_hex (renew_identity sha256_hex e)"
  shows "evaluation_ok sha256_hex (renew_identity sha256_hex e')"
  using assms test_check_commit_Ok
  by (cases check_commit) (fastforce simp: set_tested_commit_def evaluation_ok_def native_checks_def)+

lemma renewed_ok:
  "evaluation_ok sha256_hex e \<Longrightarrow> evaluation_ok sha256_hex (renew_identity sha256_hex (e\<lparr>ce_github_repository_id := g\<rparr>))"
  by (simp add: evaluation_ok_def native_checks_def)

lemma plan_evaluate_github_ok:
  assumes "plan_evaluate_github sha256_hex r ctx views github reviewing_pusher now = Ok plan"
  shows "evaluation_ok sha256_hex (pl_evaluation plan)"
proof -
  have tested: "evaluation_ok sha256_hex (pl_evaluation plan)"
    if "plan_github_tested sha256_hex r ctx github check_commit reviewing_pusher now = Ok plan" for check_commit
    using that unfolding plan_github_tested_def Let_def
    by (auto simp: and_then_Ok_iff intro!: set_tested_commit_ok renewed_ok dest: constructors_ok split: if_split_asm)
  have conflicting: "evaluation_ok sha256_hex (pl_evaluation plan)"
    if plan: "plan_github_conflict sha256_hex ctx github now = Ok plan"
  proof -
    obtain e where "configuration_error sha256_hex ctx PRIVATE_CODE_CONFLICT_MESSAGE now = Ok e"
      "plan = native_plan (renew_identity sha256_hex (e\<lparr>ce_github_repository_id := Some (grc_github_repository_id github),
         ce_checks := map GitHubCheck (grc_required_check_names github)\<rparr>)) []"
      using plan by (auto simp: plan_github_conflict_def and_then_Ok_iff)
    with constructors_fresh(4) show ?thesis by (auto simp: evaluation_ok_def fresh_def native_plan_def)
  qed
  show ?thesis
    using assms tested conflicting by (auto simp: plan_evaluate_github_def split: if_split_asm github_tested_commit.split_asm)
qed

lemma planned_ok: "evaluation_planned sha256_hex e \<Longrightarrow> evaluation_ok sha256_hex e"
  by (induction rule: evaluation_planned.induct) (auto intro: plan_evaluate_ok plan_evaluate_github_ok)

section \<open>Later steps\<close>

definition step_keeps :: "(string \<Rightarrow> string) \<Rightarrow> request_check_evaluation \<Rightarrow> request_check_evaluation \<Rightarrow> bool" where
  "step_keeps sha256_hex e e' \<longleftrightarrow>
     evaluation_ok sha256_hex e'
     \<and> (ce_state e' = ce_state e \<or> evaluation_edge (ce_state e) (ce_state e'))
     \<and> context_of e' = context_of e
     \<and> map check_bytes (ce_checks e') = map check_bytes (ce_checks e)"

lemma approve_keeps:
  assumes "plan_approve sha256_hex r source e revisions approver now = Ok plan" "evaluation_ok sha256_hex e"
  shows "step_keeps sha256_hex e (pl_evaluation plan)"
proof -
  obtain e' runs where "start_planned sha256_hex r source e revisions (reviewer_user_id approver) now = Ok (e', runs)"
    "pl_evaluation plan = e'"
    using assms(1) by (auto simp: plan_approve_def and_then_Ok_iff split: if_split_asm)
  then have A: "approve_evaluation e (map rn_id runs) now = Ok (pl_evaluation plan)" using start_planned_Ok by blast
  show ?thesis
    using approve_evaluation_Ok [OF A] approve_evaluation_ok [OF A assms(2)]
    by (simp add: step_keeps_def context_of_def assign_runs_bytes)
qed

lemma waits_has_natives: "waits_for_native_runs e run_states \<Longrightarrow> native_checks e \<noteq> []"
  by (auto simp: waits_for_native_runs_def Let_def split: request_check_evaluation_state.split_asm)

lemma waits_states:
  "waits_for_native_runs e run_states \<Longrightarrow> ce_state e = EvAwaitingApproval \<or> ce_state e = EvChecksStarted"
  by (auto simp: waits_for_native_runs_def split: request_check_evaluation_state.split_asm)

lemma withdraw_keeps:
  assumes "withdraw_native_runs sha256_hex e run_states now = Ok (Some e')" "evaluation_ok sha256_hex e"
  shows "step_keeps sha256_hex e e'"
proof -
  obtain w where wait: "waits_for_native_runs e run_states"
    and w: "configuration_error sha256_hex (context_of e) NATIVE_RUNS_UNAVAILABLE (max now (ce_updated_at_unix e)) = Ok w"
    and e': "e' = w\<lparr>ce_checks := ce_checks e, ce_id := ce_id e, ce_github_repository_id := ce_github_repository_id e,
      ce_created_at_unix := ce_created_at_unix e\<rparr>"
    using assms(1) by (auto simp: withdraw_native_runs_def and_then_Ok_iff split: if_split_asm)
  note fresh = constructors_fresh(4) [OF w]
  have "ce_check_commit_base e = None" "ce_tested_oid e = ce_head_oid e"
    using assms(2) waits_has_natives [OF wait] by (auto simp: evaluation_ok_def)
  then have "identity_bytes e' = identity_bytes e"
    using fresh by (simp add: e' identity_bytes_def fresh_def context_of_def)
  moreover have "ce_id e' = ce_id e" "ce_tested_oid e' = ce_head_oid e'" "ce_check_commit_base e' = None"
    "ce_state e' = EvConfigurationError" "ce_message e' \<noteq> None" "ce_checks e' = ce_checks e"
    "ce_created_at_unix e' = ce_created_at_unix e" "ce_updated_at_unix e' = max now (ce_updated_at_unix e)"
    "context_of e' = context_of e"
    using fresh by (simp_all add: e' fresh_def context_of_def)
  ultimately show ?thesis
    using assms(2) waits_states [OF wait] by (auto simp: step_keeps_def evaluation_ok_def le_max_iff_disj)
qed

lemma rebuild_keeps:
  assumes "rebuild_check_commit sha256_hex r e tested now = Ok plan" "evaluation_ok sha256_hex e"
  shows "step_keeps sha256_hex e (pl_evaluation plan)"
proof (cases tested)
  case (TestedCheckCommit oid base)
  define e1 where "e1 = e\<lparr>ce_tested_oid := ce_head_oid e, ce_check_commit_base := None\<rparr>"
  obtain e2 where "test_check_commit e1 oid base = Ok e2"
    and p: "pl_evaluation plan = renew_identity sha256_hex (e2\<lparr>ce_created_at_unix := now, ce_updated_at_unix := now\<rparr>)"
    using assms(1) TestedCheckCommit
    by (auto simp: rebuild_check_commit_def and_then_Ok_iff e1_def split: if_split_asm)
  with test_check_commit_Ok have "e2 = e1\<lparr>ce_tested_oid := oid, ce_check_commit_base := Some base\<rparr>"
    "oid \<noteq> ce_head_oid e" "native_checks e = []" by (fastforce simp: e1_def native_checks_def)+
  then show ?thesis
    using assms(2) by (simp add: p e1_def step_keeps_def evaluation_ok_def native_checks_def context_of_def)
next
  case TestedConflict
  obtain c where started: "ce_state e = EvChecksStarted"
    and c: "configuration_error sha256_hex (context_of e) PRIVATE_CODE_CONFLICT_MESSAGE now = Ok c"
    and p: "pl_evaluation plan = renew_identity sha256_hex
      (c\<lparr>ce_github_repository_id := ce_github_repository_id e, ce_checks := ce_checks e\<rparr>)"
    using assms(1) TestedConflict
    by (auto simp: rebuild_check_commit_def and_then_Ok_iff native_plan_def split: if_split_asm)
  show ?thesis
    using constructors_fresh(4) [OF c] started
    by (simp add: p step_keeps_def evaluation_ok_def fresh_def context_of_def)
qed (use assms in \<open>auto simp: rebuild_check_commit_def split: if_split_asm\<close>)

lemma evaluation_step_keeps: "evaluation_step sha256_hex e e' \<Longrightarrow> evaluation_ok sha256_hex e \<Longrightarrow> step_keeps sha256_hex e e'"
  by (induction rule: evaluation_step.induct) (auto intro: approve_keeps withdraw_keeps rebuild_keeps)

interpretation ce: lifecycle "evaluation_step sha256_hex" "evaluation_ok sha256_hex" ce_state evaluation_edge
  for sha256_hex
  by unfold_locales (auto dest: evaluation_step_keeps simp: step_keeps_def)

lemma evaluation_subject_kept:
  "(evaluation_step sha256_hex)\<^sup>*\<^sup>* e e' \<Longrightarrow> evaluation_ok sha256_hex e
    \<Longrightarrow> context_of e' = context_of e \<and> map check_bytes (ce_checks e') = map check_bytes (ce_checks e)"
proof (induction rule: rtranclp_induct)
  case (step y z)
  then have "evaluation_ok sha256_hex y" by (blast intro: ce.ok_reachable)
  with step show ?case by (auto dest: evaluation_step_keeps simp: step_keeps_def)
qed simp

end
