(* ===== verification/Merge_Properties.thy ===== *)
theory Merge_Properties
  imports Auto_Machine Bot_Reviews Check_Machine Request_Properties
begin

text \<open>
  What the checks, the review bots and automatic merges guarantee together with the merge gate: nothing lands before
  its checks have passed on its head, checks run only what a reviewer started, and an automatic merge is fulfilled only
  by the merge of the head that was authorised.
\<close>

section \<open>A request to work with\<close>

definition demo_oid :: string where "demo_oid = replicate 40 (CHR ''a'')"
definition demo_digest :: string where "demo_digest = replicate 64 (CHR ''b'')"

definition checked_upload :: record_working_request_upload_input where
  "checked_upload = demo_upload\<lparr>wui_new_head_oid := demo_oid\<rparr>"

definition checked_pushed :: request where "checked_pushed = demo_pushed\<lparr>rq_head_oid := demo_oid\<rparr>"
definition checked_open :: request where "checked_open = demo_open\<lparr>rq_head_oid := demo_oid\<rparr>"

definition checked_revision :: request_revision where
  "checked_revision = \<lparr>rv_id = ''v'', rv_request_id = ''r'', rv_position = 1, rv_actor_user_id = Some ''u'',
     rv_old_head_oid = ''b'', rv_new_head_oid = demo_oid, rv_base = BaseMain ''b'', rv_base_version = 1,
     rv_main_ancestor_oid = ''b'', rv_rewrote_history = False, rv_created_at_unix = 11\<rparr>"

lemmas checked_defs = checked_upload_def checked_pushed_def checked_open_def checked_revision_def demo_defs

lemma hex_replicate: "list_all is_ascii_hexdigit (replicate n (CHR ''a''))" "list_all is_ascii_hexdigit (replicate n (CHR ''b''))"
  by (induction n) (simp_all add: is_ascii_hexdigit_def)

lemma demo_oid_ok [simp]: "is_git_oid demo_oid" "validate_git_oid label demo_oid = Ok ()"
  by (simp_all add: is_git_oid_def validate_git_oid_def demo_oid_def hex_replicate)

lemma demo_digest_ok [simp]: "validate_sha256_hash label demo_digest = Ok ()"
  by (simp add: validate_sha256_hash_def demo_digest_def hex_replicate)

lemma demo_oid_visible [simp]: "hd demo_oid = CHR ''a''" "last demo_oid = CHR ''a''" "demo_oid \<noteq> []"
  by (simp_all add: demo_oid_def)

lemma checked_history: "\<exists>events. auto_history demo_hash (checked_open, None) events"
proof -
  obtain e where "open_request demo_hash demo_facts demo_start Views_builtin = Ok (demo_draft, e)"
    using demo_opened by blast
  then have "auto_history demo_hash (demo_draft, None) [e]" by (rule auto_history.started)
  moreover have "record_working_request_upload demo_draft checked_upload = Ok checked_pushed"
    by (simp add: record_working_request_upload_def request_eval checked_defs)
  ultimately have "auto_history demo_hash (checked_pushed, None) ([e] @ [])"
    by (blast intro: auto_history.stepped auto_step.request request_step.upload)
  moreover have "\<exists>events. submit_request checked_pushed demo_submit = Ok (checked_open, events)"
    by (simp add: submit_request_def request_eval checked_defs)
  ultimately show ?thesis by (blast intro: auto_history.stepped auto_step.request request_step.submit)
qed

section \<open>Landing needs passed checks\<close>

lemma started_outcome_cases:
  assumes "outcome \<in> {ChecksClear, ChecksPending}"
  shows "started_outcome verdict checks outcome =
     (if \<exists>c \<in> set checks. verdict c = VerdictFailed then ChecksFailed
      else if \<exists>c \<in> set checks. verdict c = VerdictPending then ChecksPending else outcome)"
  using assms by (induction checks arbitrary: outcome) (auto split: check_verdict.split)

lemma outcome_clear:
  "request_checks_outcome_of i head evaluation results = ChecksClear \<longleftrightarrow>
     (\<exists>e. evaluation = Some e \<and> ce_request_id e = i \<and> ce_head_oid e = head
        \<and> \<not> (asks_github e \<and> cs_github results = ResultsDisconnected) \<and> \<not> results_withhold results e
        \<and> (ce_state e = EvNoChecks
           \<or> ce_state e = EvChecksStarted \<and> check_commit_is_current e (cs_canonical_main_oid results)
             \<and> (\<forall>check \<in> set (ce_checks e). check_verdict_of results (ce_tested_oid e) check = VerdictPassed)))"
proof (cases evaluation)
  case (Some e)
  have passed: "started_outcome verdict checks ChecksClear = ChecksClear \<longleftrightarrow> (\<forall>c \<in> set checks. verdict c = VerdictPassed)"
    for verdict checks
  proof -
    have "verdict c = VerdictPassed \<longleftrightarrow> verdict c \<noteq> VerdictFailed \<and> verdict c \<noteq> VerdictPending" for c
      by (cases "verdict c") auto
    then show ?thesis by (auto simp: started_outcome_cases)
  qed
  show ?thesis
    using Some by (cases "ce_state e") (auto simp: request_checks_outcome_of_def evaluation_outcome_def passed)
qed (simp add: request_checks_outcome_of_def)

lemma check_run_passed:
  "check_run_verdict r = VerdictPassed \<longleftrightarrow>
     gk_status r = CheckCompleted \<and> gk_conclusion r \<in> {Some ConclusionSuccess, Some ConclusionNeutral, Some ConclusionSkipped}"
  by (auto simp: check_run_verdict_def split: option.splits github_check_conclusion.splits)

lemma github_passed:
  "github_verdict results commit name = VerdictPassed \<longleftrightarrow>
     (\<exists>r. latest_check_run results commit name = Some r \<and> gk_status r = CheckCompleted
        \<and> gk_conclusion r \<in> {Some ConclusionSuccess, Some ConclusionNeutral, Some ConclusionSkipped})"
  by (simp add: github_verdict_def check_run_passed split: option.split)

lemma native_passed:
  "native_verdict check runs = VerdictPassed \<longleftrightarrow> (\<exists>i. nc_run_id check = Some i \<and> map_of runs i = Some RunSucceeded)"
  by (cases "nc_run_id check") (auto simp: native_verdict_def split: option.split)

text \<open>A check has passed when its run succeeded, or when the latest result of its name on the tested commit did.\<close>

fun check_passed :: "request_check_results \<Rightarrow> string \<Rightarrow> request_check \<Rightarrow> bool" where
  "check_passed results tested (NativeCheck c) \<longleftrightarrow>
     (\<exists>i. nc_run_id c = Some i \<and> map_of (cs_native_runs results) i = Some RunSucceeded)"
| "check_passed results tested (GitHubCheck name) \<longleftrightarrow>
     (\<exists>r. latest_check_run (cs_github results) tested name = Some r \<and> gk_status r = CheckCompleted
        \<and> gk_conclusion r \<in> {Some ConclusionSuccess, Some ConclusionNeutral, Some ConclusionSkipped})"

lemma verdict_passed: "check_verdict_of results tested check = VerdictPassed \<longleftrightarrow> check_passed results tested check"
  by (cases check) (simp_all add: check_verdict_of_def native_passed github_passed)

lemma reviews_clear:
  "request_reviews_outcome_of view head views reviews = ReviewsClear \<longleftrightarrow>
     view \<noteq> Views_full views \<or> \<not> reviews_enforced reviews
     \<or> \<not> has_open_findings reviews \<and> (\<forall>b \<in> set (br_bots reviews). rb_required b \<longrightarrow> \<not> holds_merge (bot_state_of reviews b head))"
  by (auto simp: request_reviews_outcome_of_def list_ex_iff)

text \<open>The latest result of a name is one of that name and commit, and none of them has a greater number.\<close>

lemma latest_check_run_Some:
  assumes "latest_check_run (ResultsConnected runs) commit name = Some r"
  shows "r \<in> set runs \<and> gk_commit_oid r = commit \<and> gk_name r = name
    \<and> (\<forall>r' \<in> set runs. gk_commit_oid r' = commit \<and> gk_name r' = name \<longrightarrow> gk_github_check_run_id r' \<le> gk_github_check_run_id r)"
  using max_by_key_Some assms by (fastforce simp: latest_check_run_def)

text \<open>
  C13: whatever the gate lets a request land with, the checks of its head have passed. When the merge gate, given the
  outcome of the checks and of the review bots, authorises the merge of a request, then the checks were evaluated for
  exactly this request and head; either none are needed or every one has passed, a native check by a succeeded run and
  a GitHub check by the latest result of its name on the tested commit; a tested combination with private main is
  still the current one; and where required review bots are enforced none of them still holds the merge and no finding
  of a listed bot is open.
\<close>

theorem landing_needs_passed_checks:
  assumes "gate_authority (evaluate_merge_gate (GateRequestMerge repo_state (merge_subject_of r) viewer views
      (request_checks_outcome_of (rq_id r) (rq_head_oid r) evaluation results)
      (request_reviews_outcome_of (rq_view r) (rq_head_oid r) views reviews))) = Some AuthorityRequestMerge"
  shows "\<exists>e. evaluation = Some e \<and> ce_request_id e = rq_id r \<and> ce_head_oid e = rq_head_oid r
    \<and> (ce_state e = EvNoChecks
       \<or> ce_state e = EvChecksStarted \<and> (\<forall>check \<in> set (ce_checks e). check_passed results (ce_tested_oid e) check)
         \<and> (\<forall>base. ce_check_commit_base e = Some base \<longrightarrow>
              cs_canonical_main_oid results = Some (ccb_canonical_main_oid base)))
    \<and> (rq_view r = Views_full views \<and> reviews_enforced reviews \<longrightarrow>
         \<not> has_open_findings reviews
         \<and> (\<forall>b \<in> set (br_bots reviews). rb_required b \<longrightarrow> \<not> holds_merge (bot_state_of reviews b (rq_head_oid r))))"
proof -
  have "request_checks_outcome_of (rq_id r) (rq_head_oid r) evaluation results = ChecksClear"
    and "request_reviews_outcome_of (rq_view r) (rq_head_oid r) views reviews = ReviewsClear"
    using assms by (auto simp: evaluate_merge_gate_def gate_authority_def merge_ready split: if_split_asm)
  then show ?thesis
    by (fastforce simp: outcome_clear reviews_clear verdict_passed check_commit_is_current_def)
qed

definition passed_evaluation :: request_check_evaluation where
  "passed_evaluation = \<lparr>ce_id = ''e'', ce_revision_id = ''v'', ce_base_version = 1, ce_review_base_oid = ''b'',
     ce_github_repository_id = None, ce_request_id = ''r'', ce_head_oid = demo_oid, ce_tested_oid = demo_oid,
     ce_changes_github_workflows = None, ce_check_commit_base = None, ce_state = EvChecksStarted, ce_message = None,
     ce_checks = [NativeCheck \<lparr>nc_workflow_path = ''p'', nc_workflow_name = ''n'', nc_workflow_revision_digest = demo_digest,
       nc_run_id = Some ''x''\<rparr>, GitHubCheck ''ci''], ce_created_at_unix = 11, ce_updated_at_unix = 11\<rparr>"

definition passed_results :: request_check_results where
  "passed_results = \<lparr>cs_native_runs = [(''x'', RunSucceeded)],
     cs_github = ResultsConnected [\<lparr>gk_commit_oid = demo_oid, gk_name = ''ci'', gk_github_check_run_id = 1,
       gk_status = CheckCompleted, gk_conclusion = Some ConclusionSuccess, gk_details_url = None, gk_check_suite_id = None\<rparr>],
     cs_withheld_from_github = [], cs_canonical_main_oid = None\<rparr>"

definition finished_reviews :: request_bot_reviews where
  "finished_reviews = \<lparr>br_bots = [\<lparr>rb_login = GitHubBotLogin ''a[bot]'', rb_required = True\<rparr>],
     br_statuses = [\<lparr>bs_login = ''a[bot]'', bs_head_oid = demo_oid, bs_state = BotClear\<rparr>],
     br_open_finding_authors = [], br_pull_requests_open = True\<rparr>"

lemma owner_merges: "request_merger owner_viewer author view Views_builtin"
  by (simp add: owner_viewer_def RequestViewer_new_def RepositoryAccess_full_view_reader_def is_maintainer_def
      request_merger_def may_read_iff Let_def)

theorem landing_needs_passed_checks_witness:
  "gate_authority (evaluate_merge_gate (GateRequestMerge RepoReady (merge_subject_of checked_open) owner_viewer Views_builtin
      (request_checks_outcome_of ''r'' demo_oid (Some passed_evaluation) passed_results)
      (request_reviews_outcome_of ViewId_private demo_oid Views_builtin finished_reviews))) = Some AuthorityRequestMerge
   \<and> check_passed passed_results demo_oid (GitHubCheck ''ci'')"
proof -
  have "request_checks_outcome_of ''r'' demo_oid (Some passed_evaluation) passed_results = ChecksClear"
    by (simp add: request_checks_outcome_of_def evaluation_outcome_def passed_evaluation_def passed_results_def
        results_withhold_def check_commit_is_current_def check_verdict_of_def native_verdict_def github_verdict_def
        latest_check_run_def max_by_key_def check_run_verdict_def)
  moreover have "request_reviews_outcome_of ViewId_private demo_oid Views_builtin finished_reviews = ReviewsClear"
    by (simp add: request_reviews_outcome_of_def has_open_findings_def finished_reviews_def bot_state_of_def bot_names_def
        eq_ignore_ascii_case_def holds_merge_def)
  ultimately have gate: "gate_authority (evaluate_merge_gate (GateRequestMerge RepoReady (merge_subject_of checked_open)
      owner_viewer Views_builtin (request_checks_outcome_of (rq_id checked_open) (rq_head_oid checked_open)
      (Some passed_evaluation) passed_results) (request_reviews_outcome_of (rq_view checked_open)
      (rq_head_oid checked_open) Views_builtin finished_reviews))) = Some AuthorityRequestMerge"
    by (simp add: evaluate_merge_gate_def gate_authority_def merge_ready owner_merges merge_subject_of_def state_defs
        checked_defs base_is_main_def)
  have "\<forall>check \<in> set (ce_checks passed_evaluation). check_passed passed_results (ce_tested_oid passed_evaluation) check"
    using landing_needs_passed_checks [OF gate] by (auto simp: passed_evaluation_def)
  then show ?thesis using gate by (simp add: passed_evaluation_def checked_defs)
qed

section \<open>Checks\<close>

lemma plan_runs_Ok:
  assumes "plan_runs sha256_hex r source evaluation_id checks revisions actor now = Ok runs"
  shows "list_all2 (\<lambda>check planned. source_git_oid (rn_source planned) = rq_head_oid r \<and> rn_trigger planned = TriggerRequest
      \<and> rn_state planned = RunQueued \<and> rn_requested_by_user_id planned = Some actor
      \<and> rn_workflow_revision_digest planned = nc_workflow_revision_digest check
      \<and> workflow_path_str (wi_path (rn_workflow planned)) = nc_workflow_path check) checks runs"
proof -
  have one: "source_git_oid (rn_source planned) = rq_head_oid r \<and> rn_trigger planned = TriggerRequest
      \<and> rn_state planned = RunQueued \<and> rn_requested_by_user_id planned = Some actor
      \<and> rn_workflow_revision_digest planned = nc_workflow_revision_digest check
      \<and> workflow_path_str (wi_path (rn_workflow planned)) = nc_workflow_path check"
    if "check_run sha256_hex check r source evaluation_id rv actor now = Ok planned" for check rv planned
    using that unfolding check_run_def Let_def
    by (auto simp: Run_new_def Run_queued_def ephemeral_git_bundle_def and_then_Ok_iff required_def source_git_oid_def
        split: if_split_asm option.split_asm content_ref.split_asm)
  have "length checks = length revisions"
    and "collect_results (\<lambda>(check, rv). check_run sha256_hex check r source evaluation_id rv actor now) (zip checks revisions) = Ok runs"
    using assms by (auto simp: plan_runs_def split: if_split_asm)
  then show ?thesis
    by (induction checks revisions arbitrary: runs rule: list_induct2) (auto simp: and_then_Ok_iff one)
qed

definition run_of_check :: "request \<Rightarrow> request_check_evaluation \<Rightarrow> run \<Rightarrow> bool" where
  "run_of_check r e planned \<longleftrightarrow>
     source_git_oid (rn_source planned) = rq_head_oid r \<and> rn_trigger planned = TriggerRequest
     \<and> rn_state planned = RunQueued
     \<and> (\<exists>check \<in> set (native_checks e). nc_run_id check = Some (rn_id planned)
          \<and> nc_workflow_revision_digest check = rn_workflow_revision_digest planned
          \<and> nc_workflow_path check = workflow_path_str (wi_path (rn_workflow planned)))"

lemma start_planned_runs:
  assumes "start_planned sha256_hex r source e revisions actor now = Ok (e', runs)" "planned \<in> set runs"
  shows "run_of_check r e' planned \<and> rn_requested_by_user_id planned = Some actor"
proof -
  have runs: "plan_runs sha256_hex r source (ce_id e) (native_checks e) revisions actor now = Ok runs"
    and A: "approve_evaluation e (map rn_id runs) now = Ok e'"
    using start_planned_Ok [OF assms(1)] by auto
  have len: "length (map rn_id runs) = length (native_checks e)" using approve_evaluation_Ok [OF A] by simp
  have natives: "native_checks e' = map (\<lambda>(c, i). c\<lparr>nc_run_id := Some i\<rparr>) (zip (native_checks e) (map rn_id runs))"
    using approve_evaluation_Ok [OF A] assign_runs_natives [of "map rn_id runs" "ce_checks e"] by (simp add: native_checks_def)
  obtain k where k: "k < length runs" "planned = runs ! k" using assms(2) by (auto simp: in_set_conv_nth)
  define check where "check = native_checks e ! k"
  have "source_git_oid (rn_source planned) = rq_head_oid r \<and> rn_trigger planned = TriggerRequest
      \<and> rn_state planned = RunQueued \<and> rn_requested_by_user_id planned = Some actor
      \<and> rn_workflow_revision_digest planned = nc_workflow_revision_digest check
      \<and> workflow_path_str (wi_path (rn_workflow planned)) = nc_workflow_path check"
    using plan_runs_Ok [OF runs] k len by (simp add: list_all2_conv_all_nth check_def)
  moreover have "check\<lparr>nc_run_id := Some (rn_id planned)\<rparr> \<in> set (native_checks e')"
    using k len by (auto simp: natives in_set_zip check_def image_iff intro!: exI [of _ k] bexI [of _ "(check, rn_id planned)"])
  ultimately show ?thesis
    unfolding run_of_check_def by (intro conjI bexI [of _ "check\<lparr>nc_run_id := Some (rn_id planned)\<rparr>"]) auto
qed

text \<open>
  C14: the checks of a request run only what a reviewer started. Every run that evaluating a pushed head plans was
  requested by the pusher, who then is a maintainer reading the full view; every run that an approval plans was
  requested by its approver. Each planned run builds exactly the head of the request with the workflow revision its
  check recorded, and that check names the run.
\<close>

theorem check_runs_are_reviewed:
  assumes "planned \<in> set (pl_runs plan)"
    and "plan_evaluate sha256_hex r source ctx native_runs revisions (reviewer_for_actor user_id access views) now = Ok plan
      \<or> (\<exists>e workflow_revisions approver. reviewer_for_actor user_id access views = Some approver
           \<and> plan_approve sha256_hex r source e workflow_revisions approver now = Ok plan)"
  shows "is_maintainer access \<and> reads_full_view access views \<and> rn_requested_by_user_id planned = Some user_id
    \<and> run_of_check r (pl_evaluation plan) planned"
proof -
  obtain e e' rs reviewer where "reviewer_for_actor user_id access views = Some reviewer"
    and started: "start_planned sha256_hex r source e rs (reviewer_user_id reviewer) now = Ok (e', pl_runs plan)"
      "pl_evaluation plan = e'"
    using assms(2)
  proof
    assume "plan_evaluate sha256_hex r source ctx native_runs revisions (reviewer_for_actor user_id access views) now = Ok plan"
    then show ?thesis using assms(1) that unfolding plan_evaluate_def
      by (auto simp: and_then_Ok_iff native_plan_def split: if_split_asm sum.split_asm option.split_asm)
  next
    assume "\<exists>e workflow_revisions approver. reviewer_for_actor user_id access views = Some approver
           \<and> plan_approve sha256_hex r source e workflow_revisions approver now = Ok plan"
    then show ?thesis using that unfolding plan_approve_def
      by (auto simp: and_then_Ok_iff split: if_split_asm)
  qed
  then show ?thesis
    using start_planned_runs [OF started(1) assms(1)]
    by (auto simp: reviewer_for_actor_def may_review_def split: if_split_asm)
qed

definition ci_revision :: workflow_revision where
  "ci_revision = \<lparr>wr_workflow = \<lparr>wi_repository_id = ''p'', wi_path = WorkflowPath ''/.scope/runs/ci.yaml''\<rparr>,
     wr_digest = demo_digest, wr_definition = demo_workflow\<rparr>"

definition ci_source :: source_blob where
  "ci_source = \<lparr>sb_content_ref = GitBundleSha256 demo_digest, sb_sha256 = demo_digest, sb_git_oid = demo_oid,
     sb_git_file_mode = ''100644'', sb_size_bytes = 1\<rparr>"

definition ci_request :: request where "ci_request = checked_open\<lparr>rq_base := BaseMain demo_oid\<rparr>"

definition ci_context :: request_check_context where
  "ci_context = \<lparr>rcc_request_id = ''r'', rcc_revision_id = ''v'', rcc_head_oid = demo_oid, rcc_base_version = 1,
     rcc_review_base_oid = demo_oid\<rparr>"

definition ci_check :: native_request_check where
  "ci_check = \<lparr>nc_workflow_path = ''/.scope/runs/ci.yaml'', nc_workflow_name = ''ci'',
     nc_workflow_revision_digest = demo_digest, nc_run_id = None\<rparr>"

definition ci_waiting :: request_check_evaluation where
  "ci_waiting = renew_identity demo_hash
     \<lparr>ce_id = [], ce_revision_id = ''v'', ce_base_version = 1, ce_review_base_oid = demo_oid,
      ce_github_repository_id = None, ce_request_id = ''r'', ce_head_oid = demo_oid, ce_tested_oid = demo_oid,
      ce_changes_github_workflows = None, ce_check_commit_base = None, ce_state = EvAwaitingApproval, ce_message = None,
      ce_checks = [NativeCheck ci_check], ce_created_at_unix = 12, ce_updated_at_unix = 12\<rparr>"

definition maintainer_access :: repository_access where
  "maintainer_access = RepositoryAccess_full_view_reader Views_builtin"

lemma maintainer_reviews: "reviewer_for_actor ''u'' maintainer_access Views_builtin = Some (RequestCheckReviewer ''u'')"
  by code_simp

lemma ci_check_revision: "check_for_revision ci_revision = ci_check"
  by (simp add: check_for_revision_def ci_revision_def ci_check_def WORKFLOW_PATH_PREFIX_def workflow_stem_def string_ops
      suffix_to_prefix)

lemma ci_awaiting: "awaiting_approval demo_hash ci_context [NativeCheck ci_check] 12 = Ok ci_waiting"
  by (simp add: awaiting_approval_def Evaluation_new_def ci_waiting_def ci_context_def ci_check_def native_of_def
      List.map_filter_simps validate_check_def visible_ascii_def)

lemma ci_planned: "plan_evaluate demo_hash ci_request (Some ci_source) ci_context RunsAvailable (Ok [ci_revision]) None 12
    = Ok (native_plan ci_waiting [])"
  by (simp add: plan_evaluate_def runs_available_def ci_check_revision ci_awaiting context_matches_request_def)
    (simp add: ci_context_def ci_request_def checked_defs review_base_oid_def)

lemma ci_started: "\<exists>e planned. start_planned demo_hash ci_request (Some ci_source) ci_waiting [ci_revision] ''u'' 12 = Ok (e, [planned])"
proof -
  have natives: "native_checks ci_waiting = [ci_check]" "ce_checks ci_waiting = [NativeCheck ci_check]"
    "ce_state ci_waiting = EvAwaitingApproval" "ce_created_at_unix ci_waiting = 12"
    by (simp_all add: ci_waiting_def native_checks_def native_of_def List.map_filter_simps)
  have source: "ephemeral_git_bundle ci_source = Ok (EphemeralGitBundle ci_source)"
    by (simp add: ephemeral_git_bundle_def validate_source_blob_def ci_source_def ContentRef_sha256_def)
  have "required label s = Ok s" if "visible_ascii (hd s)" "visible_ascii (last s)" "s \<noteq> []" for label s
    using that by (simp add: required_def trim_visible)
  then have "\<exists>planned. check_run demo_hash ci_check ci_request (Some ci_source) (ce_id ci_waiting) ci_revision ''u'' 12 = Ok planned"
    using source
    by (simp add: check_run_def ci_check_def ci_revision_def ci_request_def ci_source_def checked_defs Run_new_def
        Run_queued_def Let_def visible_ascii_def trim_visible demo_hash_def)
  then show ?thesis
    by (auto simp: start_planned_def plan_runs_def natives approve_evaluation_def ensure_awaiting_approval_def
        ensure_every_check_started_def native_of_def List.map_filter_simps)
qed

lemma ci_approved: "\<exists>plan planned. plan_approve demo_hash ci_request (Some ci_source) ci_waiting [ci_revision]
    (RequestCheckReviewer ''u'') 12 = Ok plan \<and> pl_runs plan = [planned]"
proof -
  have "ensure_awaiting_approval ci_waiting = Ok ()" "evaluation_matches_request ci_waiting ci_request"
    by (simp_all add: ci_waiting_def ensure_awaiting_approval_def evaluation_matches_request_def ci_request_def checked_defs
        review_base_oid_def)
  with ci_started show ?thesis by (auto simp: plan_approve_def)
qed

theorem check_runs_are_reviewed_witness:
  "\<exists>plan planned. plan_approve demo_hash ci_request (Some ci_source) ci_waiting [ci_revision] (RequestCheckReviewer ''u'') 12
     = Ok plan \<and> planned \<in> set (pl_runs plan) \<and> rn_requested_by_user_id planned = Some ''u''
     \<and> source_git_oid (rn_source planned) = demo_oid"
proof -
  obtain plan planned where plan: "plan_approve demo_hash ci_request (Some ci_source) ci_waiting [ci_revision]
      (RequestCheckReviewer ''u'') 12 = Ok plan" and planned: "planned \<in> set (pl_runs plan)"
    using ci_approved by fastforce
  have "rn_requested_by_user_id planned = Some ''u'' \<and> run_of_check ci_request (pl_evaluation plan) planned"
    using check_runs_are_reviewed [where plan = plan and planned = planned and user_id = "''u''"
        and access = maintainer_access and views = Views_builtin and sha256_hex = demo_hash and r = ci_request
        and source = "Some ci_source" and now = 12] plan planned maintainer_reviews by blast
  moreover have "rq_head_oid ci_request = demo_oid" by (simp add: ci_request_def checked_defs)
  ultimately show ?thesis using plan planned by (auto simp: run_of_check_def)
qed

text \<open>
  The life of an evaluation. Whatever is planned, approved, withdrawn or rebuilt, the stored identity is the hash
  of what the evaluation tests, a started evaluation has a run for each native check, one that awaits approval has
  none, a combined commit is tested by GitHub checks only, and an error message is there exactly in the error state.
  The request, revision, head and base it speaks of and the evidence of its checks never change, and its state moves
  only from awaiting approval to started and from either to the error state.
\<close>

theorem check_evaluation_facts:
  assumes "evaluation_planned sha256_hex e0" and "(evaluation_step sha256_hex)\<^sup>*\<^sup>* e0 e"
  shows "ensure_identity sha256_hex e = Ok () \<and> evaluation_ok sha256_hex e
    \<and> context_of e = context_of e0 \<and> map check_bytes (ce_checks e) = map check_bytes (ce_checks e0)
    \<and> evaluation_edge\<^sup>*\<^sup>* (ce_state e0) (ce_state e)"
proof -
  have ok0: "evaluation_ok sha256_hex e0" by (rule planned_ok [OF assms(1)])
  then have "evaluation_ok sha256_hex e" by (rule ce.ok_reachable [OF assms(2)])
  then show ?thesis
    using evaluation_subject_kept [OF assms(2) ok0] ce.status_path [OF assms(2) ok0]
    by (simp add: ensure_identity_def evaluation_ok_def)
qed

theorem check_evaluation_facts_witness:
  "\<exists>e. (evaluation_step demo_hash)\<^sup>*\<^sup>* ci_waiting e \<and> ce_state e = EvChecksStarted \<and> ensure_identity demo_hash e = Ok ()
     \<and> evaluation_ok demo_hash e"
proof -
  have planned: "evaluation_planned demo_hash ci_waiting"
    using evaluation_planned.native [OF ci_planned] by (simp add: native_plan_def)
  obtain plan where "plan_approve demo_hash ci_request (Some ci_source) ci_waiting [ci_revision]
      (RequestCheckReviewer ''u'') 12 = Ok plan" using ci_approved by blast
  then have step: "(evaluation_step demo_hash)\<^sup>*\<^sup>* ci_waiting (pl_evaluation plan)"
    and started: "\<exists>ids. approve_evaluation ci_waiting ids 12 = Ok (pl_evaluation plan)"
    by (blast intro: evaluation_step.approve, auto simp: plan_approve_def start_planned_def and_then_Ok_iff
        split: if_split_asm)
  from started have "ce_state (pl_evaluation plan) = EvChecksStarted" by (auto dest!: approve_evaluation_Ok)
  with check_evaluation_facts [OF planned step] step show ?thesis by (intro exI [of _ "pl_evaluation plan"]) simp
qed

section \<open>Automatic merges\<close>

text \<open>
  C15: the history of a request with automatic merges. Its events are numbered strictly upwards; an intent is enabled
  only while none is active and ended exactly once, so the timeline alone tells whether one is active now; the latest
  intent is consistent and belongs to the request; and once an intent was fulfilled the request is merged, with exactly
  the head that was authorised.
\<close>

theorem auto_merge_history_correct:
  assumes "auto_history sha256_hex (r, i) events"
  shows "sorted_wrt (<) (map ev_position events) \<and> (\<forall>event \<in> set events. ev_request_id event = rq_id r)
    \<and> auto_track (map ev_kind events) False = Some (intent_active i)
    \<and> (\<forall>intent. i = Some intent \<longrightarrow> intent_ok r intent)
    \<and> ((\<exists>event \<in> set events. ev_kind event = KAutoMergeFulfilled) \<longrightarrow>
         (\<exists>intent. i = Some intent \<and> am_status intent = IntentFulfilled \<and> request_state_of r = Merged
            \<and> rq_merged_head_oid r = Some (am_head_oid intent)))"
  using auto_history_ok [OF assms] auto_history_timeline [OF assms]
  by (auto simp: auto_ok_def auto_timeline_def intent_status_def intent_ok_def)

definition auto_input :: authorize_auto_merge_input where
  "auto_input = \<lparr>ami_id = ''i'', ami_repo_id = ''p'', ami_repository_incarnation_id = ''n'', ami_request_id = ''r'',
     ami_actor_user_id = ''o'', ami_actor_can_merge = True, ami_readiness = MergeWaiting WaitChecksPending,
     ami_expected_revision_id = ''v'', ami_expected_head_oid = demo_oid, ami_event_id = ''x'', ami_now_unix = 13\<rparr>"

definition auto_intent :: auto_merge_intent where
  "auto_intent = \<lparr>am_id = ''i'', am_repo_id = ''p'', am_repository_incarnation_id = ''n'', am_request_id = ''r'',
     am_revision_id = ''v'', am_head_oid = demo_oid, am_actor_user_id = ''o'', am_status = IntentActive, am_reason = None,
     am_created_at_unix = 13, am_updated_at_unix = 13\<rparr>"

definition auto_waiting :: request where
  "auto_waiting = checked_open\<lparr>rq_updated_at_unix := 13, rq_activity_version := 3\<rparr>"

definition auto_land :: merge_request_input where
  "auto_land = demo_land\<lparr>mri_merged_head_oid := demo_oid, mri_now_unix := 14\<rparr>"

definition auto_landed :: request where
  "auto_landed = auto_waiting\<lparr>rq_merged_at_unix := Some 14, rq_merged_by_user_id := Some ''o'',
     rq_merged_head_oid := Some demo_oid, rq_merged_main_oid := Some ''m'', rq_updated_at_unix := 14, rq_activity_version := 4\<rparr>"

lemmas auto_defs = auto_input_def auto_intent_def auto_waiting_def auto_land_def auto_landed_def checked_defs

lemmas auto_eval = apply_transition_def advance_request_activity_def next_request_activity_position_def
  validate_intent_facts_def validate_intent_reason_def transition_def request_eval

lemma auto_authorized: "\<exists>m. authorize_request_auto_merge checked_open checked_revision None auto_input = Ok m
    \<and> amm_request m = auto_waiting \<and> amm_intent m = auto_intent"
  by (simp add: authorize_request_auto_merge_def request_auto_merge_eligibility_def stack_forbids_auto_merge_def auto_eval
      auto_defs max_def)

lemma auto_merged: "\<exists>events. merge_request auto_waiting auto_land = Ok (auto_landed, events)"
  by (simp add: merge_request_def request_eval auto_defs)

lemma auto_fulfilled: "\<exists>m. fulfill_request_auto_merge auto_landed auto_intent ''m'' ''f'' 15 = Ok m"
  by (simp add: fulfill_request_auto_merge_def validate_active_transition_def intent_is_active_def auto_eval auto_defs max_def)

theorem auto_merge_history_correct_witness:
  "\<exists>r intent events. auto_history demo_hash (r, Some intent) events \<and> request_state_of r = Merged
     \<and> rq_merged_head_oid r = Some demo_oid \<and> am_status intent = IntentFulfilled
     \<and> auto_track (map ev_kind events) False = Some False"
proof -
  obtain events where "auto_history demo_hash (checked_open, None) events" using checked_history by blast
  moreover obtain m where "authorize_request_auto_merge checked_open checked_revision None auto_input = Ok m"
    "amm_request m = auto_waiting" "amm_intent m = auto_intent" using auto_authorized by blast
  ultimately have "auto_history demo_hash (auto_waiting, Some auto_intent) (events @ [amm_event m])"
    using auto_history.stepped auto_step.authorize by fastforce
  moreover obtain more where "merge_request auto_waiting auto_land = Ok (auto_landed, more)" using auto_merged by blast
  ultimately have landed: "auto_history demo_hash (auto_landed, Some auto_intent) ((events @ [amm_event m]) @ more)"
    by (blast intro: auto_history.stepped auto_step.request request_step.merge)
  obtain m' where fulfilled: "fulfill_request_auto_merge auto_landed auto_intent ''m'' ''f'' 15 = Ok m'"
    using auto_fulfilled by blast
  define timeline where "timeline = ((events @ [amm_event m]) @ more) @ [amm_event m']"
  have history: "auto_history demo_hash (amm_request m', Some (amm_intent m')) timeline"
    unfolding timeline_def by (rule auto_history.stepped [OF landed auto_step.fulfill [OF fulfilled]])
  note m' = fulfill_Ok [OF fulfilled]
  then have "am_status (amm_intent m') = IntentFulfilled" "am_head_oid (amm_intent m') = demo_oid"
    by (auto simp: transition_to_def auto_intent_def)
  moreover have "\<exists>event \<in> set timeline. ev_kind event = KAutoMergeFulfilled"
    using m' by (auto simp: timeline_def transition_to_def)
  ultimately show ?thesis
    using history auto_merge_history_correct [OF history] by (auto simp: intent_active_def intent_is_active_def)
qed

lemma transition_available:
  assumes valid: "validate_request_facts r = Ok ()" and version: "rq_activity_version r \<noteq> - 1"
    and "validate_intent_facts (intent\<lparr>am_status := status, am_reason := reason, am_updated_at_unix := now\<rparr>) = Ok ()"
  shows "\<exists>m. apply_transition r intent actor event_id now payload status reason kind = Ok m"
proof -
  obtain v where v: "checked_add (rq_activity_version r) 1 = Some v" using checked_succ_available [OF version] by blast
  define r' where "r' = r\<lparr>rq_updated_at_unix := max (rq_updated_at_unix r) now, rq_activity_version := v\<rparr>"
  have "validate_base_facts r' = validate_base_facts r" by (simp add: r'_def validate_base_facts_def split: request_base.split)
  moreover have "is_terminal r' = is_terminal r" by (simp add: r'_def is_terminal_def)
  ultimately have "validate_request_facts r' = Ok ()"
    using valid by (auto simp: validate_request_facts_Ok r'_def le_max_iff_disj split: option.splits)
  then show ?thesis
    using v assms(3) by (simp add: apply_transition_def advance_request_activity_def next_request_activity_position_def r'_def)
qed

text \<open>
  What the request page offers is what the operations accept. For a consistent request and a complete command of
  the same actor, automatic merge is offered exactly when the request still waits for something and authorising it
  succeeds.
\<close>

theorem auto_merge_offered_iff_accepted:
  assumes "validate_request_facts r = Ok ()" and "rq_activity_version r \<noteq> - 1"
    and "\<forall>field \<in> {ami_id input, ami_repository_incarnation_id input, ami_actor_user_id input, ami_event_id input,
          rq_id r, rq_repo_id r, rv_id rv}. trim field \<noteq> []"
    and "is_git_oid (rq_head_oid r)" and "rv_created_at_unix rv \<le> ami_now_unix input"
    and "ami_request_id input = rq_id r" "ami_repo_id input = rq_repo_id r" "ami_expected_revision_id input = rv_id rv"
      "ami_expected_head_oid input = rq_head_oid r"
  shows "request_auto_merge_can_enable r (Some rv) i (ami_readiness input) (ami_actor_can_merge input) \<longleftrightarrow>
    waiting_reason (ami_readiness input) \<noteq> None \<and> (\<exists>m. authorize_request_auto_merge r rv i input = Ok m)"
proof -
  have filled: "validate_required label field = Ok ()"
    if "field \<in> {ami_id input, ami_repository_incarnation_id input, ami_actor_user_id input, ami_event_id input,
          rq_id r, rq_repo_id r, rv_id rv}" for label field
    using assms(3) that by (auto simp: validate_required_def)
  have oid: "validate_git_oid label (rq_head_oid r) = Ok ()" for label using assms(4) by (simp add: validate_git_oid_def)
  define intent where "intent = \<lparr>am_id = ami_id input, am_repo_id = rq_repo_id r,
    am_repository_incarnation_id = ami_repository_incarnation_id input, am_request_id = rq_id r,
    am_revision_id = rv_id rv, am_head_oid = rq_head_oid r, am_actor_user_id = ami_actor_user_id input,
    am_status = IntentActive, am_reason = None, am_created_at_unix = ami_now_unix input,
    am_updated_at_unix = ami_now_unix input\<rparr>"
  have facts: "validate_intent_facts intent = Ok ()"
    by (simp add: intent_def validate_intent_facts_def validate_intent_reason_def filled oid)
  then have "\<exists>m. apply_transition r intent (ami_actor_user_id input) (ami_event_id input) (ami_now_unix input)
      (EvAutoMergeEnabled (am_id intent) (am_revision_id intent) (am_head_oid intent)) IntentActive None KAutoMergeEnabled = Ok m"
    by (intro transition_available [OF assms(1,2)]) (simp add: intent_def)
  then have "(\<exists>m. authorize_request_auto_merge r rv i input = Ok m) \<longleftrightarrow>
      request_auto_merge_eligibility r (Some rv) i (ami_actor_can_merge input) (ami_readiness input) = Ok ()"
    using facts assms(5-)
    by (auto simp: authorize_request_auto_merge_def and_then_Ok_iff filled oid transition_def Let_def not_less simp flip: intent_def)
  then show ?thesis by (auto simp: request_auto_merge_can_enable_def is_ok_iff)
qed

theorem auto_merge_offered_iff_accepted_witness:
  "request_auto_merge_can_enable checked_open (Some checked_revision) None (MergeWaiting WaitChecksPending) True
     \<and> (\<exists>m. authorize_request_auto_merge checked_open checked_revision None auto_input = Ok m)"
proof -
  have "validate_request_facts checked_open = Ok ()" by (simp add: request_eval checked_defs)
  moreover have "\<forall>field \<in> {ami_id auto_input, ami_repository_incarnation_id auto_input, ami_actor_user_id auto_input,
      ami_event_id auto_input, rq_id checked_open, rq_repo_id checked_open, rv_id checked_revision}. trim field \<noteq> []"
    by (simp add: auto_defs trim_visible visible_ascii_def)
  ultimately show ?thesis
    using auto_merge_offered_iff_accepted [of checked_open auto_input checked_revision None] auto_authorized
    by (auto simp: auto_defs waiting_reason_def)
qed

end
