(* ===== verification/GitHub_Carrier.thy ===== *)
theory GitHub_Carrier
  imports Bot_Reviews
begin

text \<open>
  The GitHub pull request that carries a request to review bots: \<^verbatim>\<open>requests/checks/github_pull_request.rs\<close> and the job
  of \<^verbatim>\<open>api/src/use_cases/github_pull_requests.rs\<close> that moves it towards its intent, the connection test of
  \<^verbatim>\<open>github_setup_check.rs\<close> and the workflow runs of \<^verbatim>\<open>github_workflow_runs.rs\<close>.

  GitHub, the claim on the job and the clock are a record of functions \<open>carrier_world\<close>, one for each step of the job,
  since their answers may differ from call to call.
\<close>

section \<open>Carriers\<close>

datatype github_pull_request_state = PrOpen | PrClosed | PrClosedOnGitHub

record opened_github_pull_request =
  op_number :: u64
  op_url :: string
  op_base :: string
  op_state :: github_pull_request_state
  op_written_text :: "string option"

datatype github_pull_request_intent = IntentOpen string string | IntentClose

datatype github_pull_request_job_state = PrJobQueued | PrJobRunning | PrJobDone | PrJobFailed

record github_pull_request =
  gp_request_id :: string
  gp_repo_id :: string
  gp_destination :: github_push_destination
  gp_intent :: github_pull_request_intent
  gp_intent_sequence :: u64
  gp_pull_request :: "opened_github_pull_request option"
  gp_review_request :: "github_review_request option"
  gp_job_state :: github_pull_request_job_state
  gp_attempts :: u32
  gp_last_error :: "string option"

datatype github_pull_request_step =
  StepOpenOrAdopt string
| StepRetarget u64 string
| StepUpdateText u64 string
| StepComment u64 string
| StepAdoptToClose
| StepClose u64

record github_pull_request_observation =
  ob_number :: u64
  ob_url :: string
  ob_base :: string
  ob_open :: bool
  ob_closed_by_scope :: bool

datatype pull_request_status_state = PrsOpening | PrsOpen | PrsClosed | PrsClosedOnGitHub | PrsFailed

record github_pull_request_status =
  ps_state :: pull_request_status_state
  ps_number :: "u64 option"
  ps_url :: "string option"
  ps_error :: "string option"

definition carries_private_request :: "request \<Rightarrow> bool" where
  "carries_private_request r \<longleftrightarrow> \<not> ViewId_is_public (rq_view r)"

definition may_carry_on_github :: "github_connection \<Rightarrow> request \<Rightarrow> bool" where
  "may_carry_on_github connection r \<longleftrightarrow> \<not> carries_private_request r \<or> may_receive_private_requests connection"

definition carrier_pull_request_base :: "request \<Rightarrow> request option \<Rightarrow> string" where
  "carrier_pull_request_base r parent =
     (case (parent_request_id (rq_base r), parent) of
        (Some parent_id, Some p) \<Rightarrow>
          if rq_id p = parent_id \<and> request_state_of p = Open then branch_name (BranchRequest (rq_id p)) else MAIN_BRANCH
      | _ \<Rightarrow> MAIN_BRANCH)"

definition carrier_pull_request_intent ::
  "github_connection \<Rightarrow> request \<Rightarrow> request option \<Rightarrow> views \<Rightarrow> string \<Rightarrow> github_pull_request_intent option" where
  "carrier_pull_request_intent connection r parent views pushed_head_oid =
     (if is_connected connection \<and> rbs_open_pull_requests (gc_review_bots connection) \<and> request_state_of r = Open
         \<and> check_target_for_request r views = TargetHead \<and> may_carry_on_github connection r
      then Some (IntentOpen (carrier_pull_request_base r parent) pushed_head_oid) else None)"

definition review_request_marker :: "string \<Rightarrow> string" where
  "review_request_marker head_oid = ''<!-- scope-review-request head='' @ head_oid @ '' -->''"

definition review_request_comment_body :: "string \<Rightarrow> string \<Rightarrow> string" where
  "review_request_comment_body comment head_oid = comment @ [CHR 0x0A, CHR 0x0A] @ review_request_marker head_oid"

definition carrier_text_digest :: "(string \<Rightarrow> string) \<Rightarrow> string \<Rightarrow> string \<Rightarrow> string" where
  "carrier_text_digest sha256_hex title body = sha256_hex (title @ [CHR 0x00] @ body)"

definition closes_carrier_pull_request :: "request \<Rightarrow> github_connection option \<Rightarrow> bool" where
  "closes_carrier_pull_request r connection =
     (case request_state_of r of
        Closed \<Rightarrow> True
      | Merged \<Rightarrow> \<not> (case connection of Some c \<Rightarrow> for_main_publication c \<noteq> None | None \<Rightarrow> False)
      | Draft \<Rightarrow> False
      | Open \<Rightarrow> False)"

definition is_open_on_github :: "github_pull_request \<Rightarrow> bool" where
  "is_open_on_github carrier =
     (case gp_pull_request carrier of Some opened \<Rightarrow> op_state opened = PrOpen | None \<Rightarrow> False)"

definition retains_request_branch_for_carrier ::
  "request \<Rightarrow> github_connection option \<Rightarrow> github_pull_request option \<Rightarrow> bool" where
  "retains_request_branch_for_carrier r connection carrier \<longleftrightarrow>
     \<not> is_terminal r
     \<or> \<not> closes_carrier_pull_request r connection
       \<and> (case carrier of Some c \<Rightarrow> is_open_on_github c | None \<Rightarrow> False)"

definition review_delivery_belongs_to_request :: "github_pull_request option \<Rightarrow> u64 \<Rightarrow> bool" where
  "review_delivery_belongs_to_request carrier pull_number =
     (case Option.bind carrier gp_pull_request of Some opened \<Rightarrow> op_number opened = pull_number | None \<Rightarrow> True)"

definition carrier_may_change :: "request \<Rightarrow> bool" where
  "carrier_may_change r \<longleftrightarrow> request_state_of r = Open"

definition carrier_branch :: "github_pull_request \<Rightarrow> github_branch" where
  "carrier_branch carrier = BranchRequest (gp_request_id carrier)"

text \<open>The next step of a carrier whose pull request is open.\<close>

definition open_step ::
  "github_pull_request \<Rightarrow> github_review_bot_settings \<Rightarrow> string option \<Rightarrow> opened_github_pull_request \<Rightarrow> string \<Rightarrow> string
   \<Rightarrow> github_pull_request_step option" where
  "open_step carrier review_bots text opened base head_oid =
     (let stale_text = (case (text, op_written_text opened) of
            (Some t, Some written) \<Rightarrow> if written \<noteq> t then Some t else None | _ \<Rightarrow> None)
      in if op_base opened \<noteq> base then Some (StepRetarget (op_number opened) base)
         else case stale_text of
           Some t \<Rightarrow> Some (StepUpdateText (op_number opened) t)
         | None \<Rightarrow>
             if rbs_review_request_comment review_bots \<noteq> None
                \<and> (case gp_review_request carrier of Some rq \<Rightarrow> grr_head_oid rq \<noteq> head_oid | None \<Rightarrow> True)
             then Some (StepComment (op_number opened) head_oid) else None)"

definition next_step ::
  "github_pull_request \<Rightarrow> github_review_bot_settings \<Rightarrow> string option \<Rightarrow> github_pull_request_step option" where
  "next_step carrier review_bots text =
     (case gp_intent carrier of
        IntentOpen base head_oid \<Rightarrow>
          if \<not> rbs_open_pull_requests review_bots then None
          else (case gp_pull_request carrier of
              Some opened \<Rightarrow>
                (case op_state opened of
                   PrClosedOnGitHub \<Rightarrow> None
                 | PrOpen \<Rightarrow> open_step carrier review_bots text opened base head_oid
                 | PrClosed \<Rightarrow> Some (StepOpenOrAdopt base))
            | None \<Rightarrow> Some (StepOpenOrAdopt base))
      | IntentClose \<Rightarrow>
          (case gp_pull_request carrier of
             None \<Rightarrow> Some StepAdoptToClose
           | Some opened \<Rightarrow> if op_state opened = PrOpen then Some (StepClose (op_number opened)) else None))"

definition record_opened ::
  "github_pull_request \<Rightarrow> u64 \<Rightarrow> string \<Rightarrow> string \<Rightarrow> string option \<Rightarrow> github_pull_request" where
  "record_opened carrier number url base written_text =
     carrier\<lparr>gp_review_request :=
         (if map_option op_number (gp_pull_request carrier) \<noteq> Some number then None else gp_review_request carrier),
       gp_pull_request := Some \<lparr>op_number = number, op_url = url, op_base = base, op_state = PrOpen,
         op_written_text = written_text\<rparr>\<rparr>"

definition record_text_written :: "github_pull_request \<Rightarrow> string \<Rightarrow> github_pull_request" where
  "record_text_written carrier text =
     carrier\<lparr>gp_pull_request := map_option (op_written_text_update (\<lambda>_. Some text)) (gp_pull_request carrier)\<rparr>"

definition record_retargeted :: "github_pull_request \<Rightarrow> string \<Rightarrow> github_pull_request" where
  "record_retargeted carrier base =
     carrier\<lparr>gp_pull_request := map_option (op_base_update (\<lambda>_. base)) (gp_pull_request carrier)\<rparr>"

definition record_commented :: "github_pull_request \<Rightarrow> string \<Rightarrow> u64 \<Rightarrow> github_pull_request" where
  "record_commented carrier head_oid at_unix =
     carrier\<lparr>gp_review_request := Some \<lparr>grr_head_oid = head_oid, grr_at_unix = at_unix\<rparr>\<rparr>"

definition record_closed :: "github_pull_request \<Rightarrow> github_pull_request" where
  "record_closed carrier =
     carrier\<lparr>gp_pull_request := map_option (op_state_update (\<lambda>_. PrClosed)) (gp_pull_request carrier)\<rparr>"

definition observed_state :: "github_pull_request_intent \<Rightarrow> github_pull_request_observation \<Rightarrow> github_pull_request_state" where
  "observed_state intent observation =
     (let moving_base = (case intent of IntentClose \<Rightarrow> True | IntentOpen base _ \<Rightarrow> base \<noteq> ob_base observation)
      in if ob_open observation then PrOpen
         else if ob_closed_by_scope observation \<or> moving_base then PrClosed else PrClosedOnGitHub)"

definition carrier_observe :: "github_pull_request \<Rightarrow> github_pull_request_observation \<Rightarrow> github_pull_request" where
  "carrier_observe carrier observation =
     (case gp_pull_request carrier of
        Some opened \<Rightarrow>
          if op_number opened = ob_number observation then
            carrier\<lparr>gp_pull_request := Some (opened\<lparr>op_url := ob_url observation, op_base := ob_base observation,
              op_state := observed_state (gp_intent carrier) observation\<rparr>)\<rparr>
          else carrier
      | None \<Rightarrow> carrier)"

definition carrier_status :: "github_pull_request \<Rightarrow> github_pull_request_status option" where
  "carrier_status carrier =
     (let opened = gp_pull_request carrier;
          state = (if gp_job_state carrier = PrJobFailed then Some PrsFailed
            else case opened of
              Some op \<Rightarrow> Some (case op_state op of
                  PrOpen \<Rightarrow> PrsOpen | PrClosed \<Rightarrow> PrsClosed | PrClosedOnGitHub \<Rightarrow> PrsClosedOnGitHub)
            | None \<Rightarrow>
                if gp_job_state carrier = PrJobDone then None
                else if gp_intent carrier = IntentClose then None
                else Some PrsOpening)
      in map_option (\<lambda>s. \<lparr>ps_state = s, ps_number = map_option op_number opened, ps_url = map_option op_url opened,
           ps_error = gp_last_error carrier\<rparr>) state)"

section \<open>The job\<close>

datatype job_failure = JobRetry string | JobRetryAt string u64 | JobGiveUp string | JobStale

datatype pull_request_call_error =
  CallUnreachable | CallPermissionMissing | CallRateLimited u64 | CallRejected string | CallFailed string

definition PULL_REQUEST_PERMISSION_MESSAGE :: string where
  "PULL_REQUEST_PERMISSION_MESSAGE =
     ''The Scope GitHub App may not open pull requests in this GitHub repository. Accept its request for the Pull ''
     @ ''requests read and write permission on GitHub; the next push to this request tries again.''"

definition call_failure :: "pull_request_call_error \<Rightarrow> job_failure" where
  "call_failure err =
     (case err of
        CallUnreachable \<Rightarrow> JobRetry ''The Scope GitHub App cannot reach this pull request on GitHub.''
      | CallRateLimited retry_at_unix \<Rightarrow>
          JobRetryAt ''GitHub's rate limit for the Scope GitHub App was reached; Scope tries again when it resets.''
            retry_at_unix
      | CallPermissionMissing \<Rightarrow> JobGiveUp PULL_REQUEST_PERMISSION_MESSAGE
      | CallRejected message \<Rightarrow> JobGiveUp message
      | CallFailed message \<Rightarrow> JobRetry message)"

record pull_request_record =
  pr_number :: u64
  pr_url :: string
  pr_base :: string

record carrier_text =
  ct_title :: string
  ct_body :: string
  ct_digest :: string

record carrier_world =
  open_pull_request_for_head :: "string \<Rightarrow> (pull_request_call_error, pull_request_record option) result"
  create_pull_request :: "string \<Rightarrow> string \<Rightarrow> carrier_text \<Rightarrow> (pull_request_call_error, pull_request_record) result"
  update_text :: "u64 \<Rightarrow> carrier_text \<Rightarrow> (pull_request_call_error, unit) result"
  update_base :: "u64 \<Rightarrow> string \<Rightarrow> (pull_request_call_error, string) result"
  close_pull_request :: "u64 \<Rightarrow> (pull_request_call_error, unit) result"
  snapshot_open :: "u64 \<Rightarrow> (pull_request_call_error, bool) result"
  app_commented_with :: "u64 \<Rightarrow> string \<Rightarrow> (pull_request_call_error, bool) result"
  comment_on_pull_request :: "u64 \<Rightarrow> string \<Rightarrow> (pull_request_call_error, unit) result"
  claim_holds :: "(job_failure, bool) result"
  world_now :: "(job_failure, u64) result"

datatype flow = FlowContinue github_pull_request | FlowStop github_pull_request

definition carrier_text_or_fail :: "carrier_text option \<Rightarrow> (job_failure, carrier_text) result" where
  "carrier_text_or_fail text =
     (case text of Some t \<Rightarrow> Ok t | None \<Rightarrow> Err (JobGiveUp ''Scope could not prepare the pull request text.''))"

definition while_claimed ::
  "carrier_world \<Rightarrow> github_pull_request \<Rightarrow> (job_failure, flow) result \<Rightarrow> (job_failure, flow) result" where
  "while_claimed world carrier act =
     and_then (claim_holds world) (\<lambda>holds. if holds then act else Ok (FlowStop carrier))"

definition take_open_or_adopt ::
  "carrier_world \<Rightarrow> github_pull_request \<Rightarrow> carrier_text option \<Rightarrow> string \<Rightarrow> (job_failure, flow) result" where
  "take_open_or_adopt world carrier text base =
     (let head = branch_name (carrier_branch carrier) in
      and_then (map_err call_failure (open_pull_request_for_head world head)) (\<lambda>found. case found of
          Some pr \<Rightarrow> Ok (FlowContinue (record_opened carrier (pr_number pr) (pr_url pr) (pr_base pr) None))
        | None \<Rightarrow>
            and_then (carrier_text_or_fail text) (\<lambda>t.
            while_claimed world carrier
              (and_then (map_err call_failure (create_pull_request world head base t)) (\<lambda>pr.
                Ok (FlowContinue (record_opened carrier (pr_number pr) (pr_url pr) (pr_base pr) (Some (ct_digest t)))))))))"

definition take_comment ::
  "carrier_world \<Rightarrow> github_pull_request \<Rightarrow> github_review_bot_settings \<Rightarrow> u64 \<Rightarrow> string \<Rightarrow> (job_failure, flow) result" where
  "take_comment world carrier review_bots number head_oid =
     (let commented = and_then (world_now world) (\<lambda>now. Ok (FlowContinue (record_commented carrier head_oid now))) in
      case rbs_review_request_comment review_bots of
        None \<Rightarrow> commented
      | Some comment \<Rightarrow>
          and_then (map_err call_failure (app_commented_with world number (review_request_marker head_oid))) (\<lambda>posted.
          if posted then commented
          else while_claimed world carrier
            (and_then (map_err call_failure (comment_on_pull_request world number
                (review_request_comment_body comment head_oid))) (\<lambda>_. commented))))"

definition take_close :: "carrier_world \<Rightarrow> github_pull_request \<Rightarrow> u64 \<Rightarrow> (job_failure, flow) result" where
  "take_close world carrier number =
     (case close_pull_request world number of
        Inr _ \<Rightarrow> Ok (FlowContinue (record_closed carrier))
      | Inl (CallRejected message) \<Rightarrow>
          and_then (map_err call_failure (snapshot_open world number)) (\<lambda>still_open.
          if still_open then Err (JobGiveUp message) else Ok (FlowContinue (record_closed carrier)))
      | Inl err \<Rightarrow> Err (call_failure err))"

definition take_step ::
  "carrier_world \<Rightarrow> github_pull_request \<Rightarrow> github_pull_request_step \<Rightarrow> github_review_bot_settings \<Rightarrow> carrier_text option
   \<Rightarrow> (job_failure, flow) result" where
  "take_step world carrier step review_bots text =
     (case step of
        StepOpenOrAdopt base \<Rightarrow> take_open_or_adopt world carrier text base
      | StepUpdateText number digest \<Rightarrow>
          and_then (carrier_text_or_fail text) (\<lambda>t.
          while_claimed world carrier
            (and_then (map_err call_failure (update_text world number t)) (\<lambda>_.
              Ok (FlowContinue (record_text_written carrier digest)))))
      | StepRetarget number base \<Rightarrow>
          while_claimed world carrier
            (and_then (map_err call_failure (update_base world number base)) (\<lambda>updated_base.
              Ok (FlowContinue (record_retargeted carrier updated_base))))
      | StepComment number head_oid \<Rightarrow> take_comment world carrier review_bots number head_oid
      | StepAdoptToClose \<Rightarrow>
          and_then (map_err call_failure (open_pull_request_for_head world (branch_name (carrier_branch carrier))))
            (\<lambda>found. case found of
                Some pr \<Rightarrow> Ok (FlowContinue (record_opened carrier (pr_number pr) (pr_url pr) (pr_base pr) None))
              | None \<Rightarrow> Ok (FlowStop carrier))
      | StepClose number \<Rightarrow> take_close world carrier number)"

definition MAX_STEPS :: nat where "MAX_STEPS = 4"

text \<open>
  The loop of \<^verbatim>\<open>advance\<close>: before the first step that does not close, \<open>may_carry\<close> asks whether the request may still be
  carried, \<^verbatim>\<open>ensure_may_carry\<close>; it fails, tells the job to stop, or lets it go on. The flag says whether it was asked.
\<close>

definition step_closes :: "github_pull_request_step \<Rightarrow> bool" where
  "step_closes step \<longleftrightarrow> (case step of StepClose _ \<Rightarrow> True | StepAdoptToClose \<Rightarrow> True | _ \<Rightarrow> False)"

fun advance_loop ::
  "(nat \<Rightarrow> carrier_world) \<Rightarrow> (job_failure, bool) result \<Rightarrow> github_review_bot_settings \<Rightarrow> carrier_text option \<Rightarrow> nat \<Rightarrow> bool
   \<Rightarrow> github_pull_request \<Rightarrow> (job_failure, github_pull_request) result" where
  "advance_loop worlds may_carry review_bots text 0 asked carrier = Ok carrier"
| "advance_loop worlds may_carry review_bots text (Suc n) asked carrier =
     (case next_step carrier review_bots (map_option ct_digest text) of
        None \<Rightarrow> Ok carrier
      | Some step \<Rightarrow>
          and_then (if \<not> asked \<and> \<not> step_closes step then may_carry else Ok True) (\<lambda>carry.
          if \<not> carry then Ok carrier
          else and_then (take_step (worlds n) carrier step review_bots text) (\<lambda>flow. case flow of
              FlowStop carrier' \<Rightarrow> Ok carrier'
            | FlowContinue carrier' \<Rightarrow>
                advance_loop worlds may_carry review_bots text n (asked \<or> \<not> step_closes step) carrier')))"

section \<open>Connection tests\<close>

record github_workflow_run =
  gw_github_run_id :: u64
  gw_workflow_name :: string
  gw_head_branch :: "string option"
  gw_head_oid :: string
  gw_event :: string
  gw_status :: github_check_status
  gw_conclusion :: "github_check_conclusion option"
  gw_html_url :: string
  gw_check_suite_id :: "u64 option"
  gw_run_started_at_unix :: "u64 option"
  gw_run_attempt :: u32
  gw_updated_at_unix :: u64

definition scope_branch :: "github_workflow_run \<Rightarrow> github_branch option" where
  "scope_branch w = Option.bind (gw_head_branch w) GitHubBranch_parse"

definition workflow_run_request_id :: "github_workflow_run \<Rightarrow> string option" where
  "workflow_run_request_id w = (case scope_branch w of Some (BranchRequest i) \<Rightarrow> Some i | _ \<Rightarrow> None)"

definition listed_at_unix :: "github_workflow_run \<Rightarrow> u64" where
  "listed_at_unix w = (case gw_run_started_at_unix w of Some t \<Rightarrow> t | None \<Rightarrow> gw_updated_at_unix w)"

definition workflow_run_completed :: "github_workflow_run \<Rightarrow> bool" where
  "workflow_run_completed w \<longleftrightarrow> gw_status w = CheckCompleted"

text \<open>The derived order on progress is lexicographic: attempt, then stage, then time of the update.\<close>

definition workflow_run_progress :: "github_workflow_run \<Rightarrow> u32 \<times> nat \<times> u64" where
  "workflow_run_progress w = (gw_run_attempt w, check_stage (gw_status w), gw_updated_at_unix w)"

definition GITHUB_SETUP_CHECK_TIMEOUT_SECS :: u64 where "GITHUB_SETUP_CHECK_TIMEOUT_SECS = 15 * 60"

datatype github_setup_check_state = SetupPushing | SetupWaiting | SetupFinished | SetupFailed

record github_setup_check =
  gs_repository_id :: string
  gs_github_repository_id :: u64
  gs_commit_oid :: string
  gs_state :: github_setup_check_state
  gs_started_at_unix :: u64
  gs_finished_at_unix :: "u64 option"
  gs_last_error :: "string option"
  gs_push_id :: "string option"
  gs_baseline_run_ids :: "u64 list option"

definition setup_is_of :: "github_setup_check \<Rightarrow> github_connection \<Rightarrow> bool" where
  "setup_is_of c connection \<longleftrightarrow> gs_github_repository_id c = gc_github_repository_id connection"

definition setup_is_running :: "github_setup_check \<Rightarrow> bool" where
  "setup_is_running c \<longleftrightarrow> gs_state c = SetupPushing \<or> gs_state c = SetupWaiting"

definition setup_start_refusal :: string where
  "setup_start_refusal =
     ''This repository's GitHub repository is now public. A maintainer who can change file visibility must confirm ''
     @ ''in repository settings before Scope sends main there.''"

definition start_github_setup_check ::
  "repository_access \<Rightarrow> github_connection option \<Rightarrow> github_setup_check option \<Rightarrow> string option \<Rightarrow> u64
   \<Rightarrow> (domain_error, github_setup_check) result" where
  "start_github_setup_check access connection current main_oid now_unix =
     (if \<not> is_maintainer access then Err (forbidden ''only repository maintainers can test the GitHub connection'')
      else case connected_connection connection of
        Inl _ \<Rightarrow> Err (conflict ''Connect this repository to GitHub before testing the connection.'')
      | Inr c \<Rightarrow>
          if \<not> may_receive_private_requests c then Err (conflict setup_start_refusal)
          else (case main_oid of
              None \<Rightarrow> Err (conflict ''Push to main before testing the connection.'')
            | Some oid \<Rightarrow>
                if (case current of Some check \<Rightarrow> setup_is_running check \<and> setup_is_of check c | None \<Rightarrow> False) then
                  Err (conflict ''A connection test is already running.'')
                else Ok \<lparr>gs_repository_id = gc_repository_id c, gs_github_repository_id = gc_github_repository_id c,
                         gs_commit_oid = oid, gs_state = SetupPushing, gs_started_at_unix = now_unix,
                         gs_finished_at_unix = None, gs_last_error = None, gs_push_id = None,
                         gs_baseline_run_ids = None\<rparr>))"

definition setup_started :: "github_setup_check \<Rightarrow> github_workflow_run \<Rightarrow> bool" where
  "setup_started c w \<longleftrightarrow>
     gw_head_oid w = gs_commit_oid c \<and> scope_branch w = Some BranchSetupCheck
     \<and> (case gs_baseline_run_ids c of Some baseline \<Rightarrow> gw_github_run_id w \<notin> set baseline | None \<Rightarrow> False)"

definition awaits_push :: "github_setup_check \<Rightarrow> string \<Rightarrow> bool" where
  "awaits_push c push_id \<longleftrightarrow> gs_state c = SetupPushing \<and> gs_push_id c = Some push_id"

definition record_baseline :: "github_setup_check \<Rightarrow> string \<Rightarrow> u64 list \<Rightarrow> github_setup_check \<times> bool" where
  "record_baseline c push_id ids =
     (if \<not> awaits_push c push_id then (c, False) else (c\<lparr>gs_baseline_run_ids := Some ids\<rparr>, True))"

definition setup_finish ::
  "github_setup_check \<Rightarrow> github_setup_check_state \<Rightarrow> string option \<Rightarrow> u64 \<Rightarrow> github_setup_check" where
  "setup_finish c state err now_unix =
     c\<lparr>gs_state := state, gs_last_error := err, gs_finished_at_unix := Some (max now_unix (gs_started_at_unix c))\<rparr>"

definition record_push :: "github_setup_check \<Rightarrow> string \<Rightarrow> (string, unit) result \<Rightarrow> u64 \<Rightarrow> github_setup_check" where
  "record_push c push_id outcome now_unix =
     (if \<not> awaits_push c push_id then c
      else case outcome of
        Inr _ \<Rightarrow> c\<lparr>gs_state := SetupWaiting\<rparr>
      | Inl err \<Rightarrow> setup_finish c SetupFailed (Some err) now_unix)"

definition setup_observe :: "github_setup_check \<Rightarrow> github_workflow_run list \<Rightarrow> u64 \<Rightarrow> github_setup_check \<times> bool" where
  "setup_observe c runs now_unix =
     (let own = filter (setup_started c) runs;
          timed_out = (now_unix \<ge> saturating_add (gs_started_at_unix c) GITHUB_SETUP_CHECK_TIMEOUT_SECS)
      in if gs_state c = SetupPushing \<and> timed_out then
           (setup_finish c SetupFailed (Some ''The push to GitHub did not finish in time. Try again.'') now_unix, True)
         else if gs_state c = SetupWaiting \<and> (timed_out \<or> own \<noteq> [] \<and> list_all workflow_run_completed own) then
           (setup_finish c SetupFinished None now_unix, True)
         else (c, False))"

definition setup_message :: "github_setup_check \<Rightarrow> bool \<Rightarrow> string option" where
  "setup_message c workflows_started =
     (case gs_state c of
        SetupFailed \<Rightarrow> gs_last_error c
      | SetupFinished \<Rightarrow> if \<not> workflows_started then Some NO_GITHUB_WORKFLOWS_STARTED else None
      | _ \<Rightarrow> None)"

end
