(* ===== verification/GitHub_Properties.thy ===== *)
theory GitHub_Properties
  imports GitHub_Carrier Lifecycles
begin

text \<open>
  What reaches GitHub and how the jobs that keep it in step end: main and private requests are sent only to a private
  repository or to a public one a maintainer has accepted, the carrier of a request settles within the steps its job
  takes, and a connection test ends.
\<close>

section \<open>What is published\<close>


definition demo_publisher :: repository_access where
  "demo_publisher = \<lparr>ra_actor = ActorOwner, ra_view = ViewId_private, ra_can_push = True,
     ra_can_change_file_visibility = True, ra_can_manage_members = True, ra_can_delete_repo = True\<rparr>"

definition demo_connect :: connect_github_repository_command where
  "demo_connect = \<lparr>cg_repository_id = ''p'', cg_installation_id = 7, cg_github_repository_id = 42,
     cg_github_full_name = ''o/r'', cg_github_private = False, cg_acknowledge_public = True, cg_run_import_count = 0,
     cg_user_id = ''u'', cg_now_unix = 10\<rparr>"

definition demo_connection :: github_connection where
  "demo_connection = \<lparr>gc_repository_id = ''p'', gc_installation_id = 7, gc_github_repository_id = 42,
     gc_github_full_name = ''o/r'', gc_connected_by = Some ''u'', gc_connected_at_unix = 10, gc_status = GitHubConnected,
     gc_visibility = GitHubPublic True, gc_review_bots = default_review_bot_settings, gc_publishes_main = True\<rparr>"

lemma publisher_ok: "is_maintainer demo_publisher" "can_publish_main_to_github demo_publisher Views_builtin"
    "can_publish_to_github demo_publisher"
  by code_simp+

lemma demo_connected:
  "connect_github_repository demo_publisher None None demo_connect = Ok (demo_connection\<lparr>gc_publishes_main := False\<rparr>)"
  using publisher_ok
  by (simp add: connect_github_repository_def ensure_maintainer_def validate_github_run_import_count_def
      connected_visibility_def ensure_can_publish_def linked_elsewhere_def connected_elsewhere_def demo_connect_def
      demo_connection_def is_github_full_name_def github_name_part_def is_ascii_lowercase_def trim_visible visible_ascii_def)


section \<open>The carrier settles\<close>

definition text_stale :: "string \<Rightarrow> opened_github_pull_request \<Rightarrow> bool" where
  "text_stale digest opened \<longleftrightarrow> op_written_text opened \<noteq> None \<and> op_written_text opened \<noteq> Some digest"

definition comment_due :: "github_pull_request \<Rightarrow> github_review_bot_settings \<Rightarrow> string \<Rightarrow> bool" where
  "comment_due carrier review_bots head_oid \<longleftrightarrow>
     rbs_review_request_comment review_bots \<noteq> None \<and> map_option grr_head_oid (gp_review_request carrier) \<noteq> Some head_oid"

text \<open>How many steps a carrier that is to be open is from its intent, at most.\<close>

definition steps_left :: "github_pull_request \<Rightarrow> github_review_bot_settings \<Rightarrow> string \<Rightarrow> string \<Rightarrow> string \<Rightarrow> nat" where
  "steps_left carrier review_bots digest base head_oid =
     (case gp_pull_request carrier of
        None \<Rightarrow> 4
      | Some opened \<Rightarrow>
          (case op_state opened of
             PrClosedOnGitHub \<Rightarrow> 0
           | PrClosed \<Rightarrow> 4
           | PrOpen \<Rightarrow> of_bool (op_base opened \<noteq> base) + of_bool (text_stale digest opened)
               + of_bool (comment_due carrier review_bots head_oid)))"

text \<open>Calls that succeed and do what GitHub documents: a created or updated pull request has the base asked for.\<close>

definition obliging :: "carrier_world \<Rightarrow> bool" where
  "obliging w \<longleftrightarrow>
     (\<forall>head. \<exists>found. open_pull_request_for_head w head = Ok found)
     \<and> (\<forall>head base text. \<exists>pr. create_pull_request w head base text = Ok pr \<and> pr_base pr = base)
     \<and> (\<forall>number text. update_text w number text = Ok ())
     \<and> (\<forall>number base. update_base w number base = Ok base)
     \<and> (\<forall>number marker. \<exists>posted. app_commented_with w number marker = Ok posted)
     \<and> (\<forall>number body. comment_on_pull_request w number body = Ok ())
     \<and> claim_holds w = Ok True \<and> (\<exists>now. world_now w = Ok now)"

lemma steps_left_le: "steps_left carrier review_bots digest base head_oid \<le> MAX_STEPS"
  by (simp add: steps_left_def MAX_STEPS_def of_bool_def split: option.split github_pull_request_state.split)

lemma next_step_None:
  assumes "gp_intent carrier = IntentOpen base head_oid" "rbs_open_pull_requests review_bots"
  shows "next_step carrier review_bots (Some digest) = None \<longleftrightarrow> steps_left carrier review_bots digest base head_oid = 0"
  using assms
  by (auto simp: next_step_def open_step_def steps_left_def text_stale_def comment_due_def Let_def
      split: option.splits github_pull_request_state.splits)

lemma opened_steps_left:
  "gp_pull_request carrier = Some opened \<Longrightarrow> op_state opened = PrOpen \<Longrightarrow>
   steps_left carrier review_bots digest base head_oid < 4"
  by (simp add: steps_left_def of_bool_def)

lemma open_step_cases:
  assumes "open_step carrier review_bots (Some digest) opened base head_oid = Some step"
  obtains (retarget) "op_base opened \<noteq> base" "step = StepRetarget (op_number opened) base"
  | (rewrite) "text_stale digest opened" "op_base opened = base" "step = StepUpdateText (op_number opened) digest"
  | (comment) "comment_due carrier review_bots head_oid" "op_base opened = base" "\<not> text_stale digest opened"
      "step = StepComment (op_number opened) head_oid"
  using assms
  by (auto simp: open_step_def text_stale_def comment_due_def Let_def split: if_split_asm option.split_asm)

lemma take_open_pull_request_step:
  assumes world: "obliging w" and intent: "gp_intent carrier = IntentOpen base head_oid"
    and opened: "gp_pull_request carrier = Some opened" "op_state opened = PrOpen"
    and left: "steps_left carrier review_bots (ct_digest t) base head_oid = of_bool (op_base opened \<noteq> base)
        + of_bool (text_stale (ct_digest t) opened) + of_bool (comment_due carrier review_bots head_oid)"
    and chosen: "open_step carrier review_bots (Some (ct_digest t)) opened base head_oid = Some step"
  shows "\<exists>carrier'. take_step w carrier step review_bots (Some t) = Ok (FlowContinue carrier')
    \<and> gp_intent carrier' = IntentOpen base head_oid
    \<and> steps_left carrier' review_bots (ct_digest t) base head_oid < steps_left carrier review_bots (ct_digest t) base head_oid"
  using chosen
proof (cases rule: open_step_cases)
  case retarget
  then have "take_step w carrier step review_bots (Some t) = Ok (FlowContinue (record_retargeted carrier base))"
    using world by (simp add: take_step_def while_claimed_def obliging_def)
  then show ?thesis using intent opened retarget(1)
    by (simp add: left steps_left_def record_retargeted_def text_stale_def comment_due_def)
next
  case rewrite
  then have "take_step w carrier step review_bots (Some t) = Ok (FlowContinue (record_text_written carrier (ct_digest t)))"
    using world by (simp add: take_step_def while_claimed_def obliging_def carrier_text_or_fail_def)
  then show ?thesis using intent opened rewrite(1,2)
    by (simp add: left steps_left_def record_text_written_def text_stale_def comment_due_def)
next
  case comment
  obtain posted now where "app_commented_with w (op_number opened) (review_request_marker head_oid) = Ok posted"
    "world_now w = Ok now" using world unfolding obliging_def by blast
  then have "take_step w carrier step review_bots (Some t) = Ok (FlowContinue (record_commented carrier head_oid now))"
    using world comment(4)
    by (simp add: take_step_def take_comment_def while_claimed_def obliging_def Let_def split: option.split)
  then show ?thesis using intent opened comment(1-3)
    by (simp add: left steps_left_def record_commented_def comment_due_def)
qed

lemma take_open_step:
  assumes world: "obliging w" and intent: "gp_intent carrier = IntentOpen base head_oid"
    and step: "next_step carrier review_bots (Some (ct_digest t)) = Some step"
  shows "\<exists>carrier'. take_step w carrier step review_bots (Some t) = Ok (FlowContinue carrier')
    \<and> gp_intent carrier' = IntentOpen base head_oid
    \<and> steps_left carrier' review_bots (ct_digest t) base head_oid < steps_left carrier review_bots (ct_digest t) base head_oid"
proof (cases "gp_pull_request carrier")
  case None
  then have "step = StepOpenOrAdopt base" using step intent by (auto simp: next_step_def split: if_split_asm)
  moreover have "steps_left carrier review_bots (ct_digest t) base head_oid = 4" by (simp add: steps_left_def None)
  moreover obtain found where "open_pull_request_for_head w (branch_name (carrier_branch carrier)) = Ok found"
    using world unfolding obliging_def by blast
  moreover obtain pr where "create_pull_request w (branch_name (carrier_branch carrier)) base t = Ok pr"
    using world unfolding obliging_def by blast
  ultimately show ?thesis using world intent
    by (cases found) (simp_all add: take_step_def take_open_or_adopt_def Let_def carrier_text_or_fail_def while_claimed_def
        obliging_def record_opened_def opened_steps_left)
next
  case (Some opened)
  show ?thesis
  proof (cases "op_state opened")
    case PrClosed
    then have "step = StepOpenOrAdopt base" using step intent Some by (auto simp: next_step_def split: if_split_asm)
    moreover have "steps_left carrier review_bots (ct_digest t) base head_oid = 4" by (simp add: steps_left_def Some PrClosed)
    moreover obtain found where "open_pull_request_for_head w (branch_name (carrier_branch carrier)) = Ok found"
      using world unfolding obliging_def by blast
    moreover obtain pr where "create_pull_request w (branch_name (carrier_branch carrier)) base t = Ok pr"
      using world unfolding obliging_def by blast
    ultimately show ?thesis using world intent
      by (cases found) (simp_all add: take_step_def take_open_or_adopt_def Let_def carrier_text_or_fail_def while_claimed_def
          obliging_def record_opened_def opened_steps_left)
  next
    case PrClosedOnGitHub
    then show ?thesis using step intent Some by (auto simp: next_step_def split: if_split_asm)
  next
    case PrOpen
    have left: "steps_left carrier review_bots (ct_digest t) base head_oid = of_bool (op_base opened \<noteq> base)
        + of_bool (text_stale (ct_digest t) opened) + of_bool (comment_due carrier review_bots head_oid)"
      by (simp add: steps_left_def Some PrOpen)
    have chosen: "open_step carrier review_bots (Some (ct_digest t)) opened base head_oid = Some step"
      using step intent Some PrOpen by (auto simp: next_step_def split: if_split_asm)
    show ?thesis by (rule take_open_pull_request_step [OF world intent Some PrOpen left chosen])
  qed
qed

lemma advance_settles:
  assumes worlds: "\<And>n. obliging (worlds n)" and on: "rbs_open_pull_requests review_bots"
  shows "gp_intent carrier = IntentOpen base head_oid \<Longrightarrow>
    steps_left carrier review_bots (ct_digest t) base head_oid \<le> n \<Longrightarrow>
    \<exists>carrier'. advance_loop worlds (Ok True) review_bots (Some t) n asked carrier = Ok carrier'
      \<and> gp_intent carrier' = IntentOpen base head_oid
      \<and> steps_left carrier' review_bots (ct_digest t) base head_oid = 0"
proof (induction n arbitrary: carrier asked)
  case (Suc n)
  show ?case
  proof (cases "next_step carrier review_bots (Some (ct_digest t))")
    case None
    then have "steps_left carrier review_bots (ct_digest t) base head_oid = 0"
      using next_step_None [OF Suc.prems(1) on] by blast
    with None show ?thesis using Suc.prems(1) by simp
  next
    case (Some step)
    then obtain carrier' where c': "take_step (worlds n) carrier step review_bots (Some t) = Ok (FlowContinue carrier')"
      "gp_intent carrier' = IntentOpen base head_oid"
      "steps_left carrier' review_bots (ct_digest t) base head_oid < steps_left carrier review_bots (ct_digest t) base head_oid"
      using take_open_step [OF worlds Suc.prems(1)] by blast
    then have "steps_left carrier' review_bots (ct_digest t) base head_oid \<le> n" using Suc.prems(2) by linarith
    with Suc.IH [OF c'(2)] c'(1) Some show ?thesis by simp
  qed
qed simp

text \<open>
  The job of a carrier reaches its intent. When the calls to GitHub succeed, the claim holds and the request may be
  carried, the four steps the job may take are enough: afterwards there is nothing left to do, and unless the pull
  request was closed on GitHub it is open there on the wanted base, with the current text if Scope wrote its text, and
  with the review asked for the pushed head if a comment is set. When the request may not be carried, nothing changes.
\<close>

theorem carrier_settles:
  assumes "\<forall>n. obliging (worlds n)" and "rbs_open_pull_requests review_bots"
    and "gp_intent carrier = IntentOpen base head_oid"
  shows "(\<exists>carrier'. advance_loop worlds (Ok True) review_bots (Some t) MAX_STEPS False carrier = Ok carrier'
      \<and> next_step carrier' review_bots (Some (ct_digest t)) = None
      \<and> (\<exists>opened. gp_pull_request carrier' = Some opened
           \<and> (op_state opened = PrClosedOnGitHub
              \<or> op_state opened = PrOpen \<and> op_base opened = base \<and> \<not> text_stale (ct_digest t) opened
                \<and> \<not> comment_due carrier' review_bots head_oid)))
    \<and> (\<forall>carrier'. advance_loop worlds (Ok False) review_bots (Some t) MAX_STEPS False carrier = Ok carrier' \<longrightarrow> carrier' = carrier)"
proof (intro conjI allI impI)
  obtain carrier' where c': "advance_loop worlds (Ok True) review_bots (Some t) MAX_STEPS False carrier = Ok carrier'"
    "gp_intent carrier' = IntentOpen base head_oid" "steps_left carrier' review_bots (ct_digest t) base head_oid = 0"
    using advance_settles [OF _ assms(2,3) steps_left_le] assms(1) by blast
  moreover have "next_step carrier' review_bots (Some (ct_digest t)) = None"
    using next_step_None [OF c'(2) assms(2)] c'(3) by simp
  moreover have "\<exists>opened. gp_pull_request carrier' = Some opened
      \<and> (op_state opened = PrClosedOnGitHub
         \<or> op_state opened = PrOpen \<and> op_base opened = base \<and> \<not> text_stale (ct_digest t) opened
           \<and> \<not> comment_due carrier' review_bots head_oid)"
    using c'(3) by (auto simp: steps_left_def split: option.split_asm github_pull_request_state.split_asm)
  ultimately show "\<exists>carrier'. advance_loop worlds (Ok True) review_bots (Some t) MAX_STEPS False carrier = Ok carrier'
      \<and> next_step carrier' review_bots (Some (ct_digest t)) = None
      \<and> (\<exists>opened. gp_pull_request carrier' = Some opened
           \<and> (op_state opened = PrClosedOnGitHub
              \<or> op_state opened = PrOpen \<and> op_base opened = base \<and> \<not> text_stale (ct_digest t) opened
                \<and> \<not> comment_due carrier' review_bots head_oid))"
    by blast
next
  fix carrier' assume stopped: "advance_loop worlds (Ok False) review_bots (Some t) MAX_STEPS False carrier = Ok carrier'"
  have "\<not> step_closes step" if "next_step carrier review_bots digest = Some step" for step digest
    using that assms(3) by (auto simp: next_step_def open_step_def step_closes_def Let_def
        split: if_split_asm option.split_asm github_pull_request_state.split_asm)
  with stopped show "carrier' = carrier" by (simp add: MAX_STEPS_def numeral_eq_Suc split: option.split_asm)
qed

definition demo_world :: carrier_world where
  "demo_world = \<lparr>open_pull_request_for_head = (\<lambda>_. Ok None),
     create_pull_request = (\<lambda>_ base _. Ok \<lparr>pr_number = 1, pr_url = ''u'', pr_base = base\<rparr>),
     update_text = (\<lambda>_ _. Ok ()), update_base = (\<lambda>_ base. Ok base), close_pull_request = (\<lambda>_. Ok ()),
     snapshot_open = (\<lambda>_. Ok True), app_commented_with = (\<lambda>_ _. Ok False), comment_on_pull_request = (\<lambda>_ _. Ok ()),
     claim_holds = Ok True, world_now = Ok 20\<rparr>"

definition demo_carrier :: github_pull_request where
  "demo_carrier = \<lparr>gp_request_id = ''r'', gp_repo_id = ''p'',
     gp_destination = \<lparr>pd_installation_id = 7, pd_github_repository_id = 42, pd_github_full_name = ''o/r''\<rparr>,
     gp_intent = IntentOpen ''main'' ''h'', gp_intent_sequence = 1, gp_pull_request = None, gp_review_request = None,
     gp_job_state = PrJobRunning, gp_attempts = 1, gp_last_error = None\<rparr>"

theorem carrier_settles_witness:
  "\<exists>carrier' opened. advance_loop (\<lambda>_. demo_world) (Ok True)
       \<lparr>rbs_open_pull_requests = True, rbs_review_request_comment = Some ''please''\<rparr>
       (Some \<lparr>ct_title = ''t'', ct_body = ''b'', ct_digest = ''d''\<rparr>) MAX_STEPS False demo_carrier = Ok carrier'
     \<and> gp_pull_request carrier' = Some opened \<and> (op_state opened = PrClosedOnGitHub \<or> op_base opened = ''main'')"
proof -
  have "\<forall>n::nat. obliging demo_world" by (auto simp: obliging_def demo_world_def ex_bool_eq)
  moreover have "gp_intent demo_carrier = IntentOpen ''main'' ''h''" by (simp add: demo_carrier_def)
  ultimately show ?thesis
    using carrier_settles [of "\<lambda>_. demo_world"
        "\<lparr>rbs_open_pull_requests = True, rbs_review_request_comment = Some ''please''\<rparr>" demo_carrier "''main''" "''h''"
        "\<lparr>ct_title = ''t'', ct_body = ''b'', ct_digest = ''d''\<rparr>"]
    unfolding github_review_bot_settings.select_convs by blast
qed

section \<open>Connection tests\<close>

inductive setup_step :: "github_setup_check \<Rightarrow> github_setup_check \<Rightarrow> bool" where
  baseline: "setup_step c (fst (record_baseline c push_id ids))"
| push: "setup_step c (record_push c push_id outcome now)"
| observe: "setup_step c (fst (setup_observe c runs now))"

fun setup_edge :: "github_setup_check_state \<Rightarrow> github_setup_check_state \<Rightarrow> bool" where
  "setup_edge SetupPushing s \<longleftrightarrow> s = SetupWaiting \<or> s = SetupFailed"
| "setup_edge SetupWaiting s \<longleftrightarrow> s = SetupFinished"
| "setup_edge SetupFinished _ \<longleftrightarrow> False"
| "setup_edge SetupFailed _ \<longleftrightarrow> False"

definition setup_ok :: "github_setup_check \<Rightarrow> bool" where
  "setup_ok c \<longleftrightarrow> (setup_is_running c \<longleftrightarrow> gs_finished_at_unix c = None)
     \<and> (\<forall>t. gs_finished_at_unix c = Some t \<longrightarrow> gs_started_at_unix c \<le> t)
     \<and> (gs_last_error c \<noteq> None \<longleftrightarrow> gs_state c = SetupFailed)"

lemma setup_step_kept:
  assumes "setup_step c c'" "setup_ok c"
  shows "setup_ok c' \<and> (gs_state c' = gs_state c \<or> setup_edge (gs_state c) (gs_state c'))"
  using assms
  by (induction rule: setup_step.induct)
    (auto simp: record_baseline_def record_push_def setup_observe_def setup_finish_def setup_ok_def setup_is_running_def
      awaits_push_def Let_def split: sum.split)

interpretation sc: lifecycle setup_step setup_ok gs_state setup_edge
  by unfold_locales (use setup_step_kept in blast)+

lemma setup_started_ok: "start_github_setup_check access connection current main_oid now = Ok c \<Longrightarrow> setup_ok c"
  by (auto simp: start_github_setup_check_def setup_ok_def setup_is_running_def
      split: if_split_asm sum.split_asm option.split_asm)

lemma setup_times_out:
  assumes "setup_is_running c" "now \<ge> saturating_add (gs_started_at_unix c) GITHUB_SETUP_CHECK_TIMEOUT_SECS"
  shows "\<not> setup_is_running (fst (setup_observe c runs now))"
  using assms by (auto simp: setup_observe_def setup_is_running_def setup_finish_def Let_def)

end
