(* ===== verification/Main_Push.thy ===== *)
theory Main_Push
  imports Auto_Machine
begin

text \<open>
  A push to main by someone who reads a narrower view: \<^verbatim>\<open>requests/main_push.rs\<close>. Such a push lands as a request in that
  view, which is started, revised to the pushed head, submitted and authorised to merge by itself in one go.
  \<^verbatim>\<open>u64::from_str\<close> of the standard library is \<open>parse_u64\<close>: an optional plus sign, then decimal digits, within 64 bits.
\<close>

section \<open>Decimal numbers\<close>

definition digit_value :: "char \<Rightarrow> nat" where
  "digit_value c = of_char c - 48"

fun parse_digits :: "nat \<Rightarrow> string \<Rightarrow> u64 option" where
  "parse_digits acc [] = Some (of_nat acc)"
| "parse_digits acc (c # cs) =
     (if is_ascii_digit c \<and> 10 * acc + digit_value c < 2 ^ 64 then parse_digits (10 * acc + digit_value c) cs else None)"

definition parse_u64 :: "string \<Rightarrow> u64 option" where
  "parse_u64 s =
     (let digits = (case strip_prefix ''+'' s of Some rest \<Rightarrow> rest | None \<Rightarrow> s)
      in if digits = [] then None else parse_digits 0 digits)"

section \<open>Names\<close>

definition main_push_request_name_root :: "string \<Rightarrow> string" where
  "main_push_request_name_root head_oid =
     MAIN_PUSH_REQUEST_NAME_PREFIX @
       (if 12 < length head_oid \<and> is_continuation_byte (head_oid ! 12) then head_oid else take 12 head_oid)"

text \<open>The \<open>n\<close>th name the iterator yields, counted from zero; the counter of the code starts at two.\<close>

definition main_push_request_names :: "string \<Rightarrow> nat \<Rightarrow> string" where
  "main_push_request_names head_oid n =
     (let first = main_push_request_name_root head_oid in
      if n = 0 then first else first @ ''-'' @ show_nat (n + 1))"

definition main_push_request_attempt :: "string \<Rightarrow> string \<Rightarrow> u64 option" where
  "main_push_request_attempt name head_oid =
     (case strip_prefix (main_push_request_name_root head_oid) name of
        Some rest \<Rightarrow>
          if rest = [] then Some 1
          else Option.bind (strip_prefix ''-'' rest) (\<lambda>digits.
            if starts_with ''0'' digits then None
            else Option.bind (parse_u64 digits) (\<lambda>attempt. if 2 \<le> attempt then Some attempt else None))
      | None \<Rightarrow> None)"

definition is_main_push_request_name :: "string \<Rightarrow> string \<Rightarrow> bool" where
  "is_main_push_request_name name head_oid \<longleftrightarrow> main_push_request_attempt name head_oid \<noteq> None"

datatype main_push_request_name = NameFree | NameAlreadyOpen | NameTaken

definition classify_main_push_name :: "request option \<Rightarrow> string \<Rightarrow> view_id \<Rightarrow> string \<Rightarrow> main_push_request_name" where
  "classify_main_push_name existing pusher_user_id view head_oid =
     (case existing of
        None \<Rightarrow> NameFree
      | Some r \<Rightarrow>
          if \<not> is_terminal r \<and> rq_author_user_id r = Some pusher_user_id \<and> rq_view r = view \<and> rq_head_oid r = head_oid
          then NameAlreadyOpen else NameTaken)"

section \<open>The request\<close>

record start_main_push_request_input =
  mpi_id :: string
  mpi_repo_id :: string
  mpi_repository_incarnation_id :: string
  mpi_pusher_user_id :: string
  mpi_pusher_handle :: string
  mpi_validated_view :: view_id
  mpi_name :: string
  mpi_main_ancestor_oid :: string
  mpi_head_oid :: string
  mpi_git_facts :: request_revision_git_facts
  mpi_started_event_id :: string
  mpi_revision_event_id :: string
  mpi_submitted_event_id :: string
  mpi_auto_merge_intent_id :: string
  mpi_auto_merge_event_id :: string
  mpi_now_unix :: u64

record main_push_request_mutation =
  mpm_request :: request
  mpm_events :: "request_event list"
  mpm_revision :: request_revision
  mpm_auto_merge :: auto_merge_intent

record main_push_request_facts =
  mpf_request_id_exists :: bool
  mpf_request_with_name :: "request option"
  mpf_view_main_oid :: "string option"
  mpf_public_working_request_count :: nat

datatype main_push_request_outcome = PushStarted main_push_request_mutation | PushAlreadyOpen request

definition start_main_push_draft ::
  "(string \<Rightarrow> string) \<Rightarrow> start_request_facts \<Rightarrow> start_request_input \<Rightarrow> string \<Rightarrow> views
   \<Rightarrow> (domain_error, request \<times> request_event) result" where
  "start_main_push_draft sha256_hex facts input head_oid views =
     (if \<not> is_main_push_request_name (sri_name input) head_oid then
        Err (invalid_input ''main push requests are named after their head'')
      else open_request sha256_hex facts input views)"

definition main_push_request_title :: "string \<Rightarrow> string" where
  "main_push_request_title pusher_handle = ''Main push from '' @ pusher_handle"

text \<open>The three inputs the push is turned into, as the code builds them.\<close>

definition push_start_input ::
  "start_main_push_request_input \<Rightarrow> repository_access \<Rightarrow> view_id \<Rightarrow> start_request_input" where
  "push_start_input input access view =
     \<lparr>sri_id = mpi_id input, sri_repo_id = mpi_repo_id input, sri_name = mpi_name input,
      sri_author_user_id = mpi_pusher_user_id input,
      sri_title = Some (main_push_request_title (mpi_pusher_handle input)),
      sri_author_role = request_role_of_access access, sri_author_view = ra_view access, sri_view = view,
      sri_base = BaseMain (mpi_main_ancestor_oid input), sri_main_ancestor_oid = mpi_main_ancestor_oid input,
      sri_event_id = mpi_started_event_id input, sri_now_unix = mpi_now_unix input\<rparr>"

definition push_revision_input :: "start_main_push_request_input \<Rightarrow> record_request_revision_input" where
  "push_revision_input input =
     \<lparr>rri_new_base = None, rri_new_base_stack_depth = None, rri_request_id = mpi_id input,
      rri_actor_user_id = mpi_pusher_user_id input, rri_actor_can_edit = True, rri_expected_old_head_oid = None,
      rri_new_head_oid = mpi_head_oid input, rri_git_facts = mpi_git_facts input,
      rri_event_id = mpi_revision_event_id input, rri_body = None, rri_now_unix = mpi_now_unix input\<rparr>"

definition push_submit_input :: "start_main_push_request_input \<Rightarrow> submit_request_input" where
  "push_submit_input input =
     \<lparr>sbi_request_id = mpi_id input, sbi_actor_user_id = mpi_pusher_user_id input, sbi_actor_is_author = True,
      sbi_actor_can_submit = True, sbi_event_id = mpi_submitted_event_id input, sbi_now_unix = mpi_now_unix input\<rparr>"

definition push_authorize_input ::
  "start_main_push_request_input \<Rightarrow> bool \<Rightarrow> request_revision \<Rightarrow> authorize_auto_merge_input" where
  "push_authorize_input input pusher_can_merge rv =
     \<lparr>ami_id = mpi_auto_merge_intent_id input, ami_repo_id = mpi_repo_id input,
      ami_repository_incarnation_id = mpi_repository_incarnation_id input, ami_request_id = mpi_id input,
      ami_actor_user_id = mpi_pusher_user_id input, ami_actor_can_merge = pusher_can_merge,
      ami_readiness = MergeWaiting CheckEvaluationMissing, ami_expected_revision_id = rv_id rv,
      ami_expected_head_oid = mpi_head_oid input, ami_event_id = mpi_auto_merge_event_id input,
      ami_now_unix = mpi_now_unix input\<rparr>"

definition main_push_view ::
  "repository_access \<Rightarrow> repo_lifecycle_state \<Rightarrow> views \<Rightarrow> (domain_error, view_id) result" where
  "main_push_view access lifecycle_state views =
     (case main_push_mode access lifecycle_state views of
        ThroughView view \<Rightarrow>
          if view = ra_view access \<and> view \<noteq> Views_full views \<and> Views_may_read views (ra_view access) view then Ok view
          else Err (forbidden ''only pushes to main through a narrower view land as requests'')
      | PushDenied \<Rightarrow> Err (forbidden ''push permission required'')
      | _ \<Rightarrow> Err (forbidden ''only pushes to main through a narrower view land as requests''))"

definition open_main_push ::
  "(string \<Rightarrow> string) \<Rightarrow> main_push_request_facts \<Rightarrow> repository_access \<Rightarrow> view_id \<Rightarrow> start_main_push_request_input \<Rightarrow> views
   \<Rightarrow> (domain_error, main_push_request_mutation) result" where
  "open_main_push sha256_hex facts access view input views =
     and_then (start_main_push_draft sha256_hex
         \<lparr>srf_request_id_exists = mpf_request_id_exists facts,
          srf_request_name_exists = (mpf_request_with_name facts \<noteq> None),
          srf_public_working_request_count = mpf_public_working_request_count facts, srf_stack_depth = 1\<rparr>
         (push_start_input input access view) (mpi_head_oid input) views) (\<lambda>(started, started_event).
     and_then (record_request_revision started False (push_revision_input input)) (\<lambda>(revised, revised_event, rv).
     and_then (submit_request revised (push_submit_input input)) (\<lambda>(submitted, submitted_events).
     let pusher_can_merge = rp_can_merge (pd_permissions (request_policy submitted
           (RequestViewer_new access (Some (mpi_pusher_user_id input)) False) views))
     in and_then (authorize_request_auto_merge submitted rv None (push_authorize_input input pusher_can_merge rv))
          (\<lambda>auto_merge.
            Ok \<lparr>mpm_request = amm_request auto_merge,
                mpm_events = [started_event, revised_event] @ submitted_events @ [amm_event auto_merge],
                mpm_revision = rv, mpm_auto_merge = amm_intent auto_merge\<rparr>))))"

definition start_main_push_request ::
  "(string \<Rightarrow> string) \<Rightarrow> main_push_request_facts \<Rightarrow> repository_access \<Rightarrow> repo_lifecycle_state
   \<Rightarrow> start_main_push_request_input \<Rightarrow> views \<Rightarrow> (domain_error, main_push_request_outcome) result" where
  "start_main_push_request sha256_hex facts access lifecycle_state input views =
     and_then (main_push_view access lifecycle_state views) (\<lambda>view.
     if view \<noteq> mpi_validated_view input then
       Err (conflict ''the pusher's view changed since the push was checked; push again'')
     else case classify_main_push_name (mpf_request_with_name facts) (mpi_pusher_user_id input) view (mpi_head_oid input) of
       NameAlreadyOpen \<Rightarrow>
         (case mpf_request_with_name facts of
            Some r \<Rightarrow> Ok (PushAlreadyOpen r)
          | None \<Rightarrow> Err (invariant_violation ''an open request has no row''))
     | NameTaken \<Rightarrow>
         Err (conflict (''another push took the request name '' @ mpi_name input @ ''; push again''))
     | NameFree \<Rightarrow>
         if mpf_view_main_oid facts \<noteq> Some (mpi_main_ancestor_oid input) then
           Err (conflict (''the '' @ Views_display_name views view @ '' view's main moved; pull it, then push again''))
         else and_then (open_main_push sha256_hex facts access view input views) (\<lambda>mutation.
           Ok (PushStarted mutation)))"

section \<open>Names and attempts\<close>

lemma digit_value_bound: "is_ascii_digit c \<Longrightarrow> digit_value c < 10 \<and> char_of (48 + digit_value c) = c"
proof -
  assume "is_ascii_digit c"
  then have "48 \<le> (of_char c :: nat)" "(of_char c :: nat) \<le> 57" by (auto simp: is_ascii_digit_def less_eq_char_def)
  moreover from this have "48 + digit_value c = of_char c" by (simp add: digit_value_def)
  moreover have "digit_value c < 10" using \<open>(of_char c :: nat) \<le> 57\<close> unfolding digit_value_def by arith
  ultimately show ?thesis by (metis char_of_char)
qed

lemma digit_char: "d < 10 \<Longrightarrow> is_ascii_digit (char_of (48 + d)) \<and> digit_value (char_of (48 + d)) = d"
  by (simp add: is_ascii_digit_def digit_value_def less_eq_char_def)

lemma unat_of_nat64: "n < 2 ^ 64 \<Longrightarrow> unat (of_nat n :: u64) = n"
  by (simp add: unat_of_nat take_bit_nat_eq_self)

lemma parse_digits_append:
  "acc < 2 ^ 64 \<Longrightarrow> parse_digits acc (xs @ ys) = Option.bind (parse_digits acc xs) (\<lambda>w. parse_digits (unat w) ys)"
  by (induction acc xs rule: parse_digits.induct) (simp_all add: unat_of_nat64)

lemma parse_show: "n < 2 ^ 64 \<Longrightarrow> parse_digits 0 (show_nat n) = Some (of_nat n)"
proof (induction n rule: show_nat.induct)
  case (1 n)
  show ?case
  proof (cases "n < 10")
    case True
    then show ?thesis using digit_char [of n] by (subst show_nat.simps) simp
  next
    case False
    have "parse_digits 0 (show_nat (n div 10)) = Some (of_nat (n div 10))" using 1 False by simp
    moreover have "unat (of_nat (n div 10) :: u64) = n div 10" using 1(2) by (simp add: unat_of_nat64)
    ultimately show ?thesis
      using False 1(2) digit_char [of "n mod 10"] by (subst show_nat.simps) (simp add: parse_digits_append)
  qed
qed

lemma show_nat_start: "show_nat n \<noteq> [] \<and> is_ascii_digit (hd (show_nat n)) \<and> (0 < n \<longrightarrow> hd (show_nat n) \<noteq> CHR ''0'')"
proof (induction n rule: show_nat.induct)
  case (1 n)
  show ?case
  proof (cases "n < 10")
    case True
    have "char_of (48 + n) \<noteq> CHR ''0''" if "0 < n"
    proof
      assume "char_of (48 + n) = CHR ''0''"
      then have "digit_value (char_of (48 + n)) = 0" by (simp add: digit_value_def)
      with that True digit_char [of n] show False by simp
    qed
    then show ?thesis using True digit_char [of n] by (subst (1 2 3) show_nat.simps) auto
  next
    case False
    with 1 show ?thesis by (subst (1 2 3) show_nat.simps) auto
  qed
qed

lemma show_parse:
  "parse_digits 0 s = Some w \<Longrightarrow> s \<noteq> [] \<Longrightarrow> hd s \<noteq> CHR ''0'' \<Longrightarrow> show_nat (unat w) = s \<and> w \<noteq> 0"
proof (induction s arbitrary: w rule: rev_induct)
  case (snoc c xs)
  obtain v where v: "parse_digits 0 xs = Some v" "parse_digits (unat v) [c] = Some w"
    using snoc.prems(1) by (auto simp: parse_digits_append bind_eq_Some_conv)
  then have "is_ascii_digit c" "10 * unat v + digit_value c < 2 ^ 64" "w = of_nat (10 * unat v + digit_value c)"
    by (auto split: if_split_asm)
  then have c: "is_ascii_digit c" "unat w = 10 * unat v + digit_value c" using unat_of_nat64 by blast+
  note d = digit_value_bound [OF c(1)]
  show ?case
  proof (cases "xs = []")
    case True
    have "digit_value c \<noteq> 0"
    proof
      assume "digit_value c = 0"
      then have "c = char_of (48 :: nat)" using d by simp
      also have "\<dots> = CHR ''0''" by code_simp
      finally show False using snoc.prems(3) True by simp
    qed
    then have "w \<noteq> 0" using c(2) True v(1) by auto
    then show ?thesis using c(2) True v(1) d by (subst show_nat.simps) auto
  next
    case False
    then have v': "show_nat (unat v) = xs" "v \<noteq> 0" using snoc.IH [OF v(1)] snoc.prems(3) by auto
    then have "\<not> unat w < 10" using c(2) by (simp add: unat_eq_0 [symmetric])
    then show ?thesis using c(2) v' d by (subst show_nat.simps) auto
  qed
qed simp

lemma attempt_of_name:
  assumes "n + 1 < 2 ^ 64"
  shows "main_push_request_attempt (main_push_request_names head_oid n) head_oid = Some (of_nat (n + 1))"
proof (cases "n = 0")
  case False
  define digits where "digits = show_nat (n + 1)"
  have start: "digits \<noteq> []" "hd digits \<noteq> CHR ''0''" "hd digits \<noteq> CHR ''+''"
    using show_nat_start [of "n + 1"] by (auto simp: digits_def is_ascii_digit_def less_eq_char_def)
  then obtain c cs where "digits = c # cs" "c \<noteq> CHR ''0''" "c \<noteq> CHR ''+''" by (cases digits) auto
  then have "parse_u64 digits = parse_digits 0 digits" "\<not> starts_with ''0'' digits"
    by (simp_all add: parse_u64_def strip_prefix_def starts_with_def del: parse_digits.simps)
  then have "parse_u64 digits = Some (of_nat (n + 1))" "\<not> starts_with ''0'' digits"
    using parse_show [OF assms] by (simp_all add: digits_def)
  moreover have "(2 :: u64) \<le> of_nat (n + 1)"
    using False assms unat_of_nat64 [of "n + 1"] by (simp add: word_le_nat_alt)
  ultimately show ?thesis using False
    by (simp add: main_push_request_attempt_def main_push_request_names_def Let_def strip_prefix_def digits_def)
qed (simp add: main_push_request_attempt_def main_push_request_names_def strip_prefix_def Let_def)

lemma name_of_attempt:
  assumes "main_push_request_attempt name head_oid = Some attempt" and "CHR ''+'' \<notin> set name"
  shows "name = main_push_request_names head_oid (unat attempt - 1) \<and> attempt \<noteq> 0"
proof -
  obtain rest where rest: "name = main_push_request_name_root head_oid @ rest"
    using assms(1) by (auto simp: main_push_request_attempt_def strip_prefix_def prefix_def split: if_split_asm)
  show ?thesis
  proof (cases "rest = []")
    case True
    then show ?thesis using assms(1) rest
      by (simp add: main_push_request_attempt_def strip_prefix_def main_push_request_names_def Let_def)
  next
    case False
    then obtain digits where digits: "rest = CHR ''-'' # digits" "\<not> starts_with ''0'' digits"
      "parse_u64 digits = Some attempt" "2 \<le> attempt"
      using assms(1) rest
      by (auto simp: main_push_request_attempt_def strip_prefix_def prefix_def bind_eq_Some_conv split: if_split_asm)
    have "CHR ''+'' \<notin> set digits" using assms(2) rest digits(1) by simp
    then have parsed: "parse_digits 0 digits = Some attempt" "digits \<noteq> []"
      using digits(3) by (auto simp: parse_u64_def strip_prefix_def prefix_def split: if_split_asm)
    moreover have "hd digits \<noteq> CHR ''0''" using digits(2) parsed(2) by (cases digits) (auto simp: starts_with_def)
    ultimately have "show_nat (unat attempt) = digits" using show_parse by blast
    moreover have "2 \<le> unat attempt" using digits(4) by (simp add: word_le_nat_alt)
    ultimately show ?thesis using rest digits(1,4) by (auto simp: main_push_request_names_def Let_def)
  qed
qed

lemma valid_name_no_plus: "validate_request_name name = Ok () \<Longrightarrow> CHR ''+'' \<notin> set name"
proof
  assume "validate_request_name name = Ok ()" and "CHR ''+'' \<in> set name"
  then have "list_all request_name_byte (enumerate 0 name)" and "\<exists>i < length name. name ! i = CHR ''+''"
    by (auto simp: validate_request_name_def and_then_Ok_iff in_set_conv_nth split: if_split_asm)
  then obtain i where "request_name_byte (i, CHR ''+'')" by (auto simp: list_all_length nth_enumerate_eq)
  then show False
    by (simp add: request_name_byte_def is_ascii_lowercase_def is_ascii_digit_def less_eq_char_def)
qed

section \<open>What a push becomes\<close>

lemma main_push_view_Ok:
  assumes "main_push_view access lifecycle_state views = Ok view"
  shows "view = ra_view access \<and> view \<noteq> Views_full views \<and> Views_get views view \<noteq> None \<and> lifecycle_state = RepoReady
    \<and> ra_can_push access \<and> is_maintainer access"
  using assms by (auto simp: main_push_view_def main_push_mode_def split: if_split_asm push_mode.split_asm)

definition push_kinds :: "request_event_kind list" where
  "push_kinds = [KStarted, KRevisionPushed, KSubmitted, KAutoMergeEnabled]"

lemma open_main_push_Ok:
  assumes "open_main_push sha256_hex facts access view input views = Ok m"
  obtains started e0 revised e1 submitted e2 auto can_merge where
    "is_main_push_request_name (mpi_name input) (mpi_head_oid input)"
    "validate_request_name (mpi_name input) = Ok ()"
    "open_request sha256_hex \<lparr>srf_request_id_exists = mpf_request_id_exists facts,
        srf_request_name_exists = (mpf_request_with_name facts \<noteq> None),
        srf_public_working_request_count = mpf_public_working_request_count facts, srf_stack_depth = 1\<rparr>
        (push_start_input input access view) views = Ok (started, e0)"
    "record_request_revision started False (push_revision_input input) = Ok (revised, e1, mpm_revision m)"
    "submit_request revised (push_submit_input input) = Ok (submitted, [e2])"
    "authorize_request_auto_merge submitted (mpm_revision m) None
       (push_authorize_input input can_merge (mpm_revision m)) = Ok auto"
    "mpm_request m = amm_request auto" "mpm_auto_merge m = amm_intent auto" "mpm_events m = [e0, e1, e2, amm_event auto]"
proof -
  obtain started e0 revised e1 rv submitted es auto can_merge where *:
    "is_main_push_request_name (mpi_name input) (mpi_head_oid input)"
    "open_request sha256_hex \<lparr>srf_request_id_exists = mpf_request_id_exists facts,
        srf_request_name_exists = (mpf_request_with_name facts \<noteq> None),
        srf_public_working_request_count = mpf_public_working_request_count facts, srf_stack_depth = 1\<rparr>
        (push_start_input input access view) views = Ok (started, e0)"
    "record_request_revision started False (push_revision_input input) = Ok (revised, e1, rv)"
    "submit_request revised (push_submit_input input) = Ok (submitted, es)"
    "authorize_request_auto_merge submitted rv None (push_authorize_input input can_merge rv) = Ok auto"
    "m = \<lparr>mpm_request = amm_request auto, mpm_events = [e0, e1] @ es @ [amm_event auto], mpm_revision = rv,
       mpm_auto_merge = amm_intent auto\<rparr>"
    using assms by (auto simp: open_main_push_def start_main_push_draft_def and_then_Ok_iff Let_def push_start_input_def
        split: if_split_asm)
  obtain e2 where "es = [e2]"
    using * (4) unfolding submit_request_def by (auto simp: and_then_Ok_iff split: if_split_asm)
  moreover have "validate_request_name (mpi_name input) = Ok ()"
    using * (2) by (auto simp: open_request_def validate_start_request_input_def and_then_Ok_iff push_start_input_def
        split: if_split_asm)
  ultimately show ?thesis using * that by simp
qed

lemma revised_kept:
  assumes "record_request_revision r event_id_exists input = Ok (r', event, rv)"
  shows "rq_head_oid r' = rri_new_head_oid input" "rq_submitted_at_unix r' = rq_submitted_at_unix r"
    "rv_new_head_oid rv = rri_new_head_oid input" "rv_id rv = ev_id event" "ev_kind event = KRevisionPushed"
    "unat (ev_position event) = unat (rq_activity_version r) + 1" "rq_activity_version r' = ev_position event"
    "rv_request_id rv = rq_id r'" "ev_id event = rri_event_id input" "rv_created_at_unix rv = rri_now_unix input"
proof -
  define main where "main = request_main_ancestor_after_revision r (rri_git_facts input)"
  obtain base stack_depth where base: "revision_base r input main = Ok (base, stack_depth)"
    using assms by (auto simp: record_request_revision_def Let_def main_def and_then_Ok_iff split: if_split_asm)
  obtain rebased where rebased: "rebase_request r base = Ok rebased"
    using assms base by (auto simp: record_request_revision_def Let_def main_def and_then_Ok_iff split: if_split_asm)
  define r1 where "r1 = apply_revision r input main base stack_depth rebased"
  have upd: "unat (ev_position event) = unat (rq_activity_version r1) + 1"
      "ev_kind event = KRevisionPushed" "ev_id event = rri_event_id input" "ev_created_at_unix event = rri_now_unix input"
      "r' = r1\<lparr>rq_activity_version := ev_position event\<rparr>"
      "rv = revision r' event (rq_head_oid r) (rri_new_head_oid input) (\<not> rgf_contains_old_head (rri_git_facts input))"
    using assms base rebased
    by (auto simp: record_request_revision_def Let_def main_def r1_def and_then_Ok_iff activity_simps split: if_split_asm)
  obtain v b where r1: "rebased = r\<lparr>rq_base_version := v, rq_base := b\<rparr>" using rebase_request_Ok [OF rebased] .
  show "rq_head_oid r' = rri_new_head_oid input" "rq_submitted_at_unix r' = rq_submitted_at_unix r"
    "rv_new_head_oid rv = rri_new_head_oid input" "rv_id rv = ev_id event" "ev_kind event = KRevisionPushed"
    "unat (ev_position event) = unat (rq_activity_version r) + 1" "rq_activity_version r' = ev_position event"
    "rv_request_id rv = rq_id r'" "ev_id event = rri_event_id input" "rv_created_at_unix rv = rri_now_unix input"
    using upd by (simp_all add: r1 r1_def apply_revision_def revision_def Let_def)
qed

lemma submitted_kept:
  assumes "submit_request r input = Ok (r', [event])"
  shows "rq_head_oid r' = rq_head_oid r" "request_state_of r' = Open" "ev_kind event = KSubmitted"
    "unat (ev_position event) = unat (rq_activity_version r) + 1" "rq_activity_version r' = ev_position event"
proof -
  have *: "unat (ev_position event) = unat (rq_activity_version r) + 1" "ev_kind event = KSubmitted"
    "r' = r\<lparr>rq_submitted_at_unix := Some (sbi_now_unix input), rq_updated_at_unix := sbi_now_unix input,
      rq_activity_version := ev_position event\<rparr>" "request_state_of r = Draft"
    using assms unfolding submit_request_def by (auto simp: and_then_Ok_iff activity_simps split: if_split_asm)
  from * (1,2) show "unat (ev_position event) = unat (rq_activity_version r) + 1" "ev_kind event = KSubmitted" .
  show "rq_head_oid r' = rq_head_oid r" "request_state_of r' = Open" "rq_activity_version r' = ev_position event"
    using * (3,4) by (auto simp: state_defs split: if_split_asm)
qed

lemma open_main_push_correct:
  assumes "open_main_push sha256_hex facts access view input views = Ok m"
  shows "auto_history sha256_hex (mpm_request m, Some (mpm_auto_merge m)) (mpm_events m)"
    and "map ev_kind (mpm_events m) = push_kinds" and "map ev_position (mpm_events m) = [1, 2, 3, 4]"
    and "request_state_of (mpm_request m) = Open" and "rq_head_oid (mpm_request m) = mpi_head_oid input"
    and "rq_view (mpm_request m) = view" and "rq_author_user_id (mpm_request m) = Some (mpi_pusher_user_id input)"
    and "rq_name (mpm_request m) = mpi_name input" and "intent_is_active (mpm_auto_merge m)"
    and "am_head_oid (mpm_auto_merge m) = mpi_head_oid input" and "am_revision_id (mpm_auto_merge m) = rv_id (mpm_revision m)"
    and "rv_new_head_oid (mpm_revision m) = mpi_head_oid input"
    and "\<exists>n. n + 1 < 2 ^ 64 \<and> mpi_name input = main_push_request_names (mpi_head_oid input) n"
    and "mpf_request_with_name facts = None"
proof -
  obtain started e0 revised e1 submitted e2 auto can_merge where steps:
    "is_main_push_request_name (mpi_name input) (mpi_head_oid input)"
    "validate_request_name (mpi_name input) = Ok ()"
    "open_request sha256_hex \<lparr>srf_request_id_exists = mpf_request_id_exists facts,
        srf_request_name_exists = (mpf_request_with_name facts \<noteq> None),
        srf_public_working_request_count = mpf_public_working_request_count facts, srf_stack_depth = 1\<rparr>
        (push_start_input input access view) views = Ok (started, e0)"
    "record_request_revision started False (push_revision_input input) = Ok (revised, e1, mpm_revision m)"
    "submit_request revised (push_submit_input input) = Ok (submitted, [e2])"
    "authorize_request_auto_merge submitted (mpm_revision m) None
       (push_authorize_input input can_merge (mpm_revision m)) = Ok auto"
    and m: "mpm_request m = amm_request auto" "mpm_auto_merge m = amm_intent auto"
      "mpm_events m = [e0, e1, e2, amm_event auto]"
    using open_main_push_Ok [OF assms] .
  have "auto_history sha256_hex (started, None) [e0]" using steps(3) by (rule auto_history.started)
  then have "auto_history sha256_hex (revised, None) ([e0] @ [e1])"
    using steps(4) by (blast intro: auto_history.stepped auto_step.request request_step.revise)
  then have "auto_history sha256_hex (submitted, None) (([e0] @ [e1]) @ [e2])"
    using steps(5) by (blast intro: auto_history.stepped auto_step.request request_step.submit)
  then have "auto_history sha256_hex (amm_request auto, Some (amm_intent auto)) ((([e0] @ [e1]) @ [e2]) @ [amm_event auto])"
    using steps(6) by (blast intro: auto_history.stepped auto_step.authorize)
  then show "auto_history sha256_hex (mpm_request m, Some (mpm_auto_merge m)) (mpm_events m)" using m by simp
  note o = open_request_Ok [OF steps(3)] and rv = revised_kept [OF steps(4)] and s = submitted_kept [OF steps(5)]
  have same: "same_request started revised" "same_request revised submitted"
    using revise_ok [OF steps(4)] submit_ok [OF steps(5)] by (auto simp: step_ok_def)
  obtain intent where t: "transition_to IntentActive None KAutoMergeEnabled (mpi_now_unix input) submitted intent auto"
    "am_head_oid intent = rq_head_oid submitted" "am_revision_id intent = rv_id (mpm_revision m)"
    using authorize_Ok(1) [OF steps(6)] by (auto simp: push_authorize_input_def)
  have auto: "unat (ev_position (amm_event auto)) = unat (rq_activity_version submitted) + 1"
    using steps(6) unfolding authorize_request_auto_merge_def Let_def
    by (auto simp: and_then_Ok_iff transition_def apply_transition_def Let_def advance_request_activity_Ok split: if_split_asm)
  have "unat (ev_position e1) = 2" "unat (ev_position e2) = 3" "unat (ev_position (amm_event auto)) = 4"
    using o(6) rv(6,7) s(4,5) auto by simp_all
  then show "map ev_position (mpm_events m) = [1, 2, 3, 4]"
    using o(5) by (simp add: m(3) word_unat_eq_iff)
  show "map ev_kind (mpm_events m) = push_kinds"
    using o(4) rv(5) s(3) t(1) by (simp add: m(3) push_kinds_def transition_to_def)
  note tr = transition_request [OF t(1)]
  show "request_state_of (mpm_request m) = Open" "rq_head_oid (mpm_request m) = mpi_head_oid input"
    using s(1,2) rv(1) tr(3,7) by (simp_all add: m(1) push_revision_input_def)
  show "rq_view (mpm_request m) = view" "rq_author_user_id (mpm_request m) = Some (mpi_pusher_user_id input)"
    "rq_name (mpm_request m) = mpi_name input"
    using same t(1) o(2) by (simp_all add: m(1) same_request_def transition_to_def started_request_def push_start_input_def)
  show "intent_is_active (mpm_auto_merge m)" "am_head_oid (mpm_auto_merge m) = mpi_head_oid input"
    "am_revision_id (mpm_auto_merge m) = rv_id (mpm_revision m)" "rv_new_head_oid (mpm_revision m) = mpi_head_oid input"
    using t s(1) rv(1,3) by (simp_all add: m(2) transition_to_def intent_is_active_def push_revision_input_def)
  obtain attempt where attempt: "main_push_request_attempt (mpi_name input) (mpi_head_oid input) = Some attempt"
    using steps(1) by (auto simp: is_main_push_request_name_def)
  have "unat attempt < 2 ^ 64" using unsigned_less [of attempt] by simp
  then show "\<exists>n. n + 1 < 2 ^ 64 \<and> mpi_name input = main_push_request_names (mpi_head_oid input) n"
    using name_of_attempt [OF attempt valid_name_no_plus [OF steps(2)]]
    by (intro exI [of _ "unat attempt - 1"]) (auto simp: unat_gt_0 [symmetric] simp del: unat_gt_0)
  show "mpf_request_with_name facts = None"
    using steps(3) by (auto simp: open_request_def and_then_Ok_iff split: if_split_asm)
qed

section \<open>A push that is accepted\<close>

definition visible :: "string \<Rightarrow> bool" where
  "visible s \<longleftrightarrow> trim s \<noteq> []"

lemma validate_required_Ok: "validate_required label s = Ok () \<longleftrightarrow> visible s"
  by (simp add: validate_required_def visible_def)

lemma visible_required: "visible s \<Longrightarrow> validate_required label s = Ok ()"
  by (simp add: validate_required_Ok)

definition push_ids :: "start_main_push_request_input \<Rightarrow> string list" where
  "push_ids input =
     [mpi_id input, mpi_repo_id input, mpi_repository_incarnation_id input, mpi_pusher_user_id input,
      mpi_main_ancestor_oid input, mpi_started_event_id input, mpi_revision_event_id input, mpi_submitted_event_id input,
      mpi_auto_merge_intent_id input, mpi_auto_merge_event_id input, mpi_head_oid input,
      main_push_request_title (mpi_pusher_handle input)]"

definition push_input_ok :: "start_main_push_request_input \<Rightarrow> bool" where
  "push_input_ok input \<longleftrightarrow>
     list_all visible (push_ids input) \<and> validate_request_name (mpi_name input) = Ok ()
     \<and> is_main_push_request_name (mpi_name input) (mpi_head_oid input)
     \<and> is_git_oid (mpi_head_oid input)
     \<and> length (main_push_request_title (mpi_pusher_handle input)) \<le> REQUEST_TITLE_MAX_BYTES
     \<and> rgf_contained_main_oid (mpi_git_facts input) \<noteq> Some []"

text \<open>A request of this push while it is being set up: open or not yet, based on main, at its small version.\<close>

definition setting_up :: "start_main_push_request_input \<Rightarrow> view_id \<Rightarrow> u64 \<Rightarrow> request \<Rightarrow> bool" where
  "setting_up input view version r \<longleftrightarrow>
     validate_request_facts r = Ok () \<and> rq_id r = mpi_id input \<and> rq_repo_id r = mpi_repo_id input \<and> rq_view r = view
     \<and> rq_author_user_id r = Some (mpi_pusher_user_id input) \<and> rq_activity_version r = version
     \<and> base_is_main (rq_base r) \<and> rq_closed_at_unix r = None \<and> rq_merged_at_unix r = None
     \<and> rq_created_at_unix r = mpi_now_unix input \<and> rq_updated_at_unix r = mpi_now_unix input"

lemma view_of_push:
  assumes "main_push_view access lifecycle_state views = Ok view"
  shows "validate_start_request_view (request_role_of_access access) (ra_view access) view views = Ok ()"
  using assms by (auto simp: main_push_view_def main_push_mode_def validate_start_request_view_def request_role_of_access_def
      is_maintainer_def split: if_split_asm push_mode.split_asm)

lemma push_opens:
  assumes view: "main_push_view access lifecycle_state views = Ok view" and ok: "push_input_ok input"
  shows "\<exists>r e. start_main_push_draft sha256_hex \<lparr>srf_request_id_exists = False, srf_request_name_exists = False,
      srf_public_working_request_count = n, srf_stack_depth = 1\<rparr> (push_start_input input access view)
      (mpi_head_oid input) views = Ok (r, e) \<and> setting_up input view 1 r \<and> request_state_of r = Draft
      \<and> rq_pushed_at_unix r = None \<and> rq_head_oid r = mpi_main_ancestor_oid input \<and> rq_base_version r = 1
      \<and> rq_base r = BaseMain (mpi_main_ancestor_oid input) \<and> rq_stack_status r = StackMain \<and> rq_stack_depth r = 1
      \<and> rq_main_ancestor_oid r = mpi_main_ancestor_oid input"
proof -
  define facts where "facts = \<lparr>srf_request_id_exists = False, srf_request_name_exists = False,
      srf_public_working_request_count = n, srf_stack_depth = 1\<rparr>"
  define r where "r = started_request facts (push_start_input input access view)"
  have role: "request_role_of_access access \<noteq> RolePublic"
    using main_push_view_Ok [OF view] by (auto simp: request_role_of_access_def is_maintainer_def)
  have vis: "list_all visible (push_ids input)" using ok by (simp add: push_input_ok_def)
  then have "mpi_main_ancestor_oid input \<noteq> []" by (auto simp: push_ids_def visible_def)
  then have valid: "validate_request_facts r = Ok ()"
    by (simp add: r_def started_request_def push_start_input_def facts_def validate_request_facts_Ok validate_base_facts_def
        base_is_main_def review_base_oid_def is_terminal_def)
  have "validate_start_request_input (push_start_input input access view) views = Ok ()"
    using ok vis view_of_push [OF view]
    by (simp add: validate_start_request_input_def push_start_input_def and_then_Ok_iff validate_required_Ok push_ids_def
        push_input_ok_def validate_body_size_def)
  moreover have "\<exists>fact. request_identity_audit_fact sha256_hex (rq_title r) (rq_description_markdown r) = Ok fact"
    using ok by (simp add: request_identity_audit_fact_def r_def started_request_def push_start_input_def push_input_ok_def
        REQUEST_TITLE_MAX_BYTES_def Let_def and_then_Ok_iff)
  ultimately have "\<exists>e. open_request sha256_hex facts (push_start_input input access view) views = Ok (r, e)"
    using valid role by (auto simp: open_request_def Let_def r_def facts_def and_then_Ok_iff push_start_input_def)
  moreover have "start_main_push_draft sha256_hex facts (push_start_input input access view) (mpi_head_oid input) views
      = open_request sha256_hex facts (push_start_input input access view) views"
    using ok by (simp add: start_main_push_draft_def push_input_ok_def push_start_input_def)
  ultimately show ?thesis unfolding facts_def [symmetric] using valid
    by (intro exI [of _ r]) (auto simp: setting_up_def r_def started_request_def push_start_input_def facts_def
        base_is_main_def state_defs review_base_oid_def)
qed

lemma push_revision_input_simps [simp]:
  "rri_new_base (push_revision_input input) = None" "rri_new_base_stack_depth (push_revision_input input) = None"
  "rri_request_id (push_revision_input input) = mpi_id input"
  "rri_actor_user_id (push_revision_input input) = mpi_pusher_user_id input" "rri_actor_can_edit (push_revision_input input)"
  "rri_expected_old_head_oid (push_revision_input input) = None" "rri_new_head_oid (push_revision_input input) = mpi_head_oid input"
  "rri_git_facts (push_revision_input input) = mpi_git_facts input"
  "rri_event_id (push_revision_input input) = mpi_revision_event_id input" "rri_now_unix (push_revision_input input) = mpi_now_unix input"
  by (simp_all add: push_revision_input_def)

lemma push_revises:
  assumes r: "setting_up input view 1 r" "request_state_of r = Draft" "rq_pushed_at_unix r = None"
    "rq_head_oid r = mpi_main_ancestor_oid input" "rq_base_version r = 1" "rq_base r = BaseMain (mpi_main_ancestor_oid input)"
    "rq_stack_status r = StackMain" "rq_stack_depth r = 1" "rq_main_ancestor_oid r = mpi_main_ancestor_oid input"
    and ok: "push_input_ok input"
  shows "\<exists>r' e rv. record_request_revision r False (push_revision_input input) = Ok (r', e, rv) \<and> setting_up input view 2 r'
    \<and> request_state_of r' = Draft \<and> rq_pushed_at_unix r' \<noteq> None \<and> rq_head_oid r' = mpi_head_oid input
    \<and> rv_created_at_unix rv = mpi_now_unix input"
proof -
  define main where "main = request_main_ancestor_after_revision r (mpi_git_facts input)"
  have vis: "list_all visible (push_ids input)" using ok by (simp add: push_input_ok_def)
  then have "mpi_main_ancestor_oid input \<noteq> []" by (auto simp: push_ids_def visible_def)
  then have main: "main \<noteq> []"
    using ok r(9) by (auto simp: main_def request_main_ancestor_after_revision_def push_input_ok_def split: option.split)
  have base: "revision_base r (push_revision_input input) main = Ok (BaseMain main, 1)"
    using r(6,8) by (simp add: revision_base_def)
  obtain v where v: "rebase_request r (BaseMain main) = Ok (r\<lparr>rq_base_version := v, rq_base := BaseMain main\<rparr>)" "v \<noteq> 0"
  proof (cases "BaseMain main = rq_base r")
    case True
    then have "r\<lparr>rq_base_version := 1, rq_base := BaseMain main\<rparr> = r" using r(5) by simp
    then show ?thesis using that [of 1] True by (simp add: rebase_request_def)
  next
    case False
    then show ?thesis using that [of 2] r(5) by (simp add: rebase_request_def checked_add_def)
  qed
  define r1 where "r1 = apply_revision r (push_revision_input input) main (BaseMain main) 1
    (r\<lparr>rq_base_version := v, rq_base := BaseMain main\<rparr>)"
  define r2 where "r2 = r1\<lparr>rq_activity_version := 2\<rparr>"
  have r2: "r2 = r\<lparr>rq_base_version := v, rq_base := BaseMain main, rq_stack_status := StackMain, rq_stack_depth := 1,
      rq_main_ancestor_oid := main, rq_head_oid := mpi_head_oid input, rq_pushed_at_unix := Some (mpi_now_unix input),
      rq_updated_at_unix := mpi_now_unix input, rq_activity_version := 2\<rparr>"
    using r(7) by (simp add: r2_def r1_def apply_revision_def Let_def base_is_main_def)
  have advance: "advance_request_activity r1 = Ok (r2, 2)"
    using r(1) by (simp add: advance_request_activity_Ok r2_def r1_def apply_revision_def Let_def setting_up_def)
  have valid: "validate_request_facts r2 = Ok ()"
    using r(1,2) main v(2) unfolding setting_up_def r2
    by (auto simp: validate_request_facts_Ok validate_base_facts_def review_base_oid_def is_terminal_def state_defs
        split: if_split_asm)
  have "\<not> is_terminal r" "rq_id r = mpi_id input" using r(1) by (auto simp: setting_up_def is_terminal_def)
  then have "\<exists>e rv. record_request_revision r False (push_revision_input input) = Ok (r2, e, rv)"
    using vis r(3) base v(1) advance valid unfolding record_request_revision_def r1_def main_def
    by (simp add: visible_required push_ids_def ensure_event_id_available_def ensure_request_matches_def
        validate_expected_head_def Let_def)
  moreover have "setting_up input view 2 r2" "request_state_of r2 = Draft"
    using r(1,2) valid by (auto simp: setting_up_def r2 base_is_main_def state_defs split: if_split_asm)
  moreover have "rq_pushed_at_unix r2 \<noteq> None" "rq_head_oid r2 = mpi_head_oid input" by (simp_all add: r2)
  ultimately show ?thesis using revised_kept(10) by fastforce
qed

lemma push_submits:
  assumes r: "setting_up input view 2 r" "request_state_of r = Draft" "rq_pushed_at_unix r \<noteq> None" and ok: "push_input_ok input"
  shows "\<exists>r' e. submit_request r (push_submit_input input) = Ok (r', [e]) \<and> setting_up input view 3 r'
    \<and> request_state_of r' = Open \<and> rq_pushed_at_unix r' \<noteq> None"
proof -
  define r1 where "r1 = r\<lparr>rq_submitted_at_unix := Some (mpi_now_unix input), rq_updated_at_unix := mpi_now_unix input,
    rq_activity_version := 3\<rparr>"
  have vis: "list_all visible (push_ids input)" using ok by (simp add: push_input_ok_def)
  have "validate_base_facts r1 = validate_base_facts r" by (simp add: r1_def validate_base_facts_def split: request_base.split)
  then have valid: "validate_request_facts r1 = Ok ()"
    using r(1) unfolding setting_up_def validate_request_facts_Ok by (auto simp: r1_def is_terminal_def)
  then have "\<exists>e. submit_request r (push_submit_input input) = Ok (r1, [e])"
    using vis r unfolding submit_request_def
    by (simp add: push_submit_input_def validate_command_def visible_required push_ids_def setting_up_def is_author_def
        append_event_def checked_add_def r1_def)
  moreover have "setting_up input view 3 r1" "request_state_of r1 = Open"
    using r(1) valid by (auto simp: setting_up_def r1_def state_defs)
  ultimately show ?thesis using r(3) by (auto simp: r1_def)
qed

lemma pusher_may_merge:
  assumes view: "main_push_view access lifecycle_state views = Ok view"
    and r: "rq_view r = view" "rq_author_user_id r = Some user_id" "request_state_of r = Open"
  shows "rp_can_merge (pd_permissions (request_policy r (RequestViewer_new access (Some user_id) False) views))"
proof -
  have "Views_may_read views (ra_view access) view"
    using view by (auto simp: main_push_view_def split: push_mode.split_asm if_split_asm)
  moreover have "is_submitted r" using r(3) by (auto simp: state_defs split: if_split_asm)
  ultimately show ?thesis using main_push_view_Ok [OF view] r
    by (auto simp: request_policy_def RequestViewer_new_def Let_def request_merger_def is_author_def)
qed

lemma push_authorizes:
  assumes r: "setting_up input view 3 r" "request_state_of r = Open" "rq_pushed_at_unix r \<noteq> None"
      "rq_head_oid r = mpi_head_oid input"
    and rv: "rv_request_id rv = rq_id r" "rv_new_head_oid rv = mpi_head_oid input" "rv_created_at_unix rv = mpi_now_unix input"
      "rv_id rv = mpi_revision_event_id input"
    and ok: "push_input_ok input"
  shows "\<exists>m. authorize_request_auto_merge r rv None (push_authorize_input input True rv) = Ok m"
proof -
  have vis: "list_all visible (push_ids input)" and oid: "is_git_oid (mpi_head_oid input)"
    using ok by (auto simp: push_input_ok_def)
  define intent where "intent = \<lparr>am_id = mpi_auto_merge_intent_id input, am_repo_id = mpi_repo_id input,
    am_repository_incarnation_id = mpi_repository_incarnation_id input, am_request_id = mpi_id input,
    am_revision_id = mpi_revision_event_id input, am_head_oid = mpi_head_oid input, am_actor_user_id = mpi_pusher_user_id input,
    am_status = IntentActive, am_reason = None, am_created_at_unix = mpi_now_unix input, am_updated_at_unix = mpi_now_unix input\<rparr>"
  define r1 where "r1 = r\<lparr>rq_activity_version := 4\<rparr>"
  have same: "r\<lparr>rq_updated_at_unix := max (rq_updated_at_unix r) (mpi_now_unix input)\<rparr> = r"
    using r(1) by (simp add: setting_up_def)
  have "validate_base_facts r1 = validate_base_facts r" by (simp add: r1_def validate_base_facts_def split: request_base.split)
  then have valid: "validate_request_facts r1 = Ok ()"
    using r(1) [unfolded setting_up_def, THEN conjunct1] unfolding validate_request_facts_Ok
    by (simp add: r1_def is_terminal_def split: option.split option.split_asm)
  have intent_ok: "validate_intent_facts intent = Ok ()"
    using vis oid by (simp add: validate_intent_facts_def intent_def validate_intent_reason_def visible_required push_ids_def
        validate_git_oid_def)
  have eligible: "request_auto_merge_eligibility r (Some rv) None True (MergeWaiting CheckEvaluationMissing) = Ok ()"
    using r rv by (simp add: request_auto_merge_eligibility_def stack_forbids_auto_merge_def setting_up_def)
  have "advance_request_activity r = Ok (r1, 4)" using r(1) by (simp add: advance_request_activity_Ok r1_def setting_up_def)
  then have "\<exists>m. the (transition r intent (mpi_pusher_user_id input) (mpi_auto_merge_event_id input) (mpi_now_unix input)
      (EvAutoMergeEnabled (am_id intent) (am_revision_id intent) (am_head_oid intent))) = Ok m"
    using valid intent_ok same by (simp add: transition_def apply_transition_def Let_def intent_def)
  then show ?thesis
    using vis oid r(1,4) rv eligible intent_ok unfolding authorize_request_auto_merge_def
    by (simp add: push_authorize_input_def visible_required push_ids_def validate_git_oid_def setting_up_def intent_def Let_def)
qed

lemma main_push_starts:
  assumes "main_push_view access lifecycle_state views = Ok (mpi_validated_view input)" and "push_input_ok input"
    and "mpf_request_with_name facts = None" and "\<not> mpf_request_id_exists facts"
    and "mpf_view_main_oid facts = Some (mpi_main_ancestor_oid input)"
  shows "\<exists>m. start_main_push_request sha256_hex facts access lifecycle_state input views = Ok (PushStarted m)"
proof -
  define view where "view = mpi_validated_view input"
  note view = assms(1) [folded view_def]
  obtain r e where open_r: "start_main_push_draft sha256_hex \<lparr>srf_request_id_exists = mpf_request_id_exists facts,
      srf_request_name_exists = (mpf_request_with_name facts \<noteq> None),
      srf_public_working_request_count = mpf_public_working_request_count facts, srf_stack_depth = 1\<rparr>
      (push_start_input input access view) (mpi_head_oid input) views = Ok (r, e)"
    and r: "setting_up input view 1 r" "request_state_of r = Draft" "rq_pushed_at_unix r = None"
      "rq_head_oid r = mpi_main_ancestor_oid input" "rq_base_version r = 1" "rq_base r = BaseMain (mpi_main_ancestor_oid input)"
      "rq_stack_status r = StackMain" "rq_stack_depth r = 1" "rq_main_ancestor_oid r = mpi_main_ancestor_oid input"
    using push_opens [OF view assms(2), of sha256_hex "mpf_public_working_request_count facts"] assms(3,4) by auto
  obtain r1 e1 rv where revise: "record_request_revision r False (push_revision_input input) = Ok (r1, e1, rv)"
    and r1: "setting_up input view 2 r1" "request_state_of r1 = Draft" "rq_pushed_at_unix r1 \<noteq> None"
      "rq_head_oid r1 = mpi_head_oid input" "rv_created_at_unix rv = mpi_now_unix input"
    using push_revises [OF r assms(2)] by blast
  obtain r2 e2 where submit: "submit_request r1 (push_submit_input input) = Ok (r2, [e2])"
    and r2: "setting_up input view 3 r2" "request_state_of r2 = Open" "rq_pushed_at_unix r2 \<noteq> None"
    using push_submits [OF r1(1-3) assms(2)] by blast
  have head: "rq_head_oid r2 = mpi_head_oid input" using submitted_kept(1) [OF submit] r1(4) by simp
  have ids: "rq_id r2 = rq_id r1" using r1(1) r2(1) by (simp add: setting_up_def)
  obtain m where "authorize_request_auto_merge r2 rv None (push_authorize_input input True rv) = Ok m"
    using push_authorizes [OF r2 head _ _ r1(5) _ assms(2)] revised_kept [OF revise] ids by auto
  moreover have "rp_can_merge (pd_permissions (request_policy r2 (RequestViewer_new access (Some (mpi_pusher_user_id input))
      False) views))"
    using pusher_may_merge [OF view _ _ r2(2)] r2(1) by (simp add: setting_up_def)
  ultimately have "\<exists>m. open_main_push sha256_hex facts access view input views = Ok m"
    using open_r revise submit by (simp add: open_main_push_def Let_def)
  then show ?thesis
    using view assms(3,5) by (auto simp: start_main_push_request_def classify_main_push_name_def view_def)
qed

end
