(* ===== verification/Push_Properties.thy ===== *)
theory Push_Properties
  imports Main_Push Merge_Properties
begin

text \<open>What becomes of a push to main through a narrower view, and the names its requests take.\<close>

section \<open>Names\<close>

text \<open>
  The names tried for a pushed head and the attempts read back from names fit together: the attempt read from the
  \<open>n\<close>th name is \<open>n + 1\<close>, for every counter of 64 bits, and a valid request name that is read as an attempt of a head is
  exactly the name that attempt is given.
\<close>
theorem main_push_name_roundtrip:
  "(n + 1 < 2 ^ 64 \<longrightarrow> main_push_request_attempt (main_push_request_names head_oid n) head_oid = Some (of_nat (n + 1)))
   \<and> (validate_request_name name = Ok () \<and> main_push_request_attempt name head_oid = Some attempt
       \<longrightarrow> name = main_push_request_names head_oid (unat attempt - 1))"
  using attempt_of_name name_of_attempt valid_name_no_plus by blast

theorem main_push_name_roundtrip_witness:
  "main_push_request_attempt ''main-push-abc-12'' ''abc'' = Some 12 \<and> main_push_request_names ''abc'' 11 = ''main-push-abc-12''"
proof -
  have name: "main_push_request_names ''abc'' 11 = ''main-push-abc-12''"
    by code_simp
  then show ?thesis
    using main_push_name_roundtrip [of 11 "''abc''" "''main-push-abc-12''" 12] by simp
qed

section \<open>The request of a push\<close>

text \<open>A member who reads the public view of the built-in views pushes a commit to its main.\<close>

definition push_access :: repository_access where
  "push_access = \<lparr>ra_actor = ActorMember, ra_view = ViewId_public, ra_can_push = True,
     ra_can_change_file_visibility = False, ra_can_manage_members = False, ra_can_delete_repo = False\<rparr>"

definition push_input :: start_main_push_request_input where
  "push_input = \<lparr>mpi_id = ''r'', mpi_repo_id = ''p'', mpi_repository_incarnation_id = ''i'', mpi_pusher_user_id = ''u'',
     mpi_pusher_handle = ''u'', mpi_validated_view = ViewId_public, mpi_name = ''main-push-aaaaaaaaaaaa'',
     mpi_main_ancestor_oid = ''b'', mpi_head_oid = demo_oid,
     mpi_git_facts = \<lparr>rgf_contains_old_head = True, rgf_contained_main_oid = None, rgf_contained_main_descends_from_base = False\<rparr>,
     mpi_started_event_id = ''e0'', mpi_revision_event_id = ''e1'', mpi_submitted_event_id = ''e2'',
     mpi_auto_merge_intent_id = ''a'', mpi_auto_merge_event_id = ''e3'', mpi_now_unix = 10\<rparr>"

definition push_facts :: main_push_request_facts where
  "push_facts = \<lparr>mpf_request_id_exists = False, mpf_request_with_name = None, mpf_view_main_oid = Some ''b'',
     mpf_public_working_request_count = 0\<rparr>"

lemma push_demo_view: "main_push_view push_access RepoReady Views_builtin = Ok ViewId_public"
  unfolding push_access_def by code_simp

lemma push_demo_input: "push_input_ok push_input"
proof -
  have "validate_request_name ''main-push-aaaaaaaaaaaa'' = Ok ()"
    by (simp add: validate_request_name_def visible_ascii_def request_name_byte_def is_ascii_lowercase_def is_ascii_digit_def
        less_eq_char_def)
  moreover have "is_main_push_request_name ''main-push-aaaaaaaaaaaa'' demo_oid" by code_simp
  moreover have "list_all visible (push_ids push_input)"
    by (simp add: push_ids_def push_input_def visible_def trim_visible visible_ascii_def main_push_request_title_def)
  ultimately show ?thesis
    by (simp add: push_input_ok_def push_input_def main_push_request_title_def REQUEST_TITLE_MAX_BYTES_def)
qed

lemma push_demo_starts:
  "\<exists>m. start_main_push_request demo_hash push_facts push_access RepoReady push_input Views_builtin = Ok (PushStarted m)"
  by (rule main_push_starts [OF _ push_demo_input]) (simp_all add: push_facts_def push_input_def push_demo_view)

text \<open>
  C23: A push to main that is turned into a request comes from a maintainer who may push and reads a narrower view than
  the full one, in a repository that is ready. Either an open request of the same pusher, view and head already has the
  name, and it is returned; or a new request is open at exactly the pushed head, in the pusher's view and by the
  pusher, under a name of that head, with an active automatic merge of exactly that head and revision, and its four
  events, numbered one to four, are a history of the request and intent operations.
\<close>
theorem main_push_becomes_request:
  assumes "start_main_push_request sha256_hex facts access lifecycle_state input views = Ok outcome"
  shows "ra_view access \<noteq> Views_full views \<and> lifecycle_state = RepoReady \<and> ra_can_push access \<and> is_maintainer access
    \<and> (case outcome of
         PushAlreadyOpen r \<Rightarrow>
           mpf_request_with_name facts = Some r \<and> \<not> is_terminal r \<and> rq_author_user_id r = Some (mpi_pusher_user_id input)
           \<and> rq_view r = ra_view access \<and> rq_head_oid r = mpi_head_oid input
       | PushStarted m \<Rightarrow>
           mpf_request_with_name facts = None \<and> mpf_view_main_oid facts = Some (mpi_main_ancestor_oid input)
           \<and> auto_history sha256_hex (mpm_request m, Some (mpm_auto_merge m)) (mpm_events m)
           \<and> map ev_kind (mpm_events m) = push_kinds \<and> map ev_position (mpm_events m) = [1, 2, 3, 4]
           \<and> request_state_of (mpm_request m) = Open \<and> rq_head_oid (mpm_request m) = mpi_head_oid input
           \<and> rq_view (mpm_request m) = ra_view access
           \<and> rq_author_user_id (mpm_request m) = Some (mpi_pusher_user_id input)
           \<and> (\<exists>n. n + 1 < 2 ^ 64 \<and> rq_name (mpm_request m) = main_push_request_names (mpi_head_oid input) n)
           \<and> intent_is_active (mpm_auto_merge m) \<and> am_head_oid (mpm_auto_merge m) = mpi_head_oid input
           \<and> am_revision_id (mpm_auto_merge m) = rv_id (mpm_revision m)
           \<and> rv_new_head_oid (mpm_revision m) = mpi_head_oid input)"
proof -
  obtain view where view: "main_push_view access lifecycle_state views = Ok view"
    using assms by (auto simp: start_main_push_request_def and_then_Ok_iff)
  note v = main_push_view_Ok [OF view]
  consider r where "outcome = PushAlreadyOpen r" "mpf_request_with_name facts = Some r" "\<not> is_terminal r"
      "rq_author_user_id r = Some (mpi_pusher_user_id input)" "rq_view r = view" "rq_head_oid r = mpi_head_oid input"
  | m where "outcome = PushStarted m" "mpf_view_main_oid facts = Some (mpi_main_ancestor_oid input)"
      "open_main_push sha256_hex facts access view input views = Ok m"
    using assms view
    by (auto simp: start_main_push_request_def and_then_Ok_iff classify_main_push_name_def
        split: if_split_asm option.split_asm main_push_request_name.split_asm)
  then show ?thesis
  proof cases
    case 1
    then show ?thesis using v by auto
  next
    case (2 m)
    note c = open_main_push_correct [OF 2(3)]
    show ?thesis using v 2(1,2) c by auto
  qed
qed

theorem main_push_becomes_request_witness:
  "\<exists>m. start_main_push_request demo_hash push_facts push_access RepoReady push_input Views_builtin = Ok (PushStarted m)
     \<and> rq_head_oid (mpm_request m) = demo_oid \<and> rq_view (mpm_request m) = ViewId_public
     \<and> map ev_position (mpm_events m) = [1, 2, 3, 4]"
proof -
  obtain m where m: "start_main_push_request demo_hash push_facts push_access RepoReady push_input Views_builtin = Ok (PushStarted m)"
    using push_demo_starts by blast
  from main_push_becomes_request [OF m] m show ?thesis
    by (intro exI [of _ m]) (simp add: push_input_def push_access_def)
qed

text \<open>
  Such a push is accepted: with a free name of its head and a main of the view that has not moved, valid identifiers,
  head and title, and a repository ready for pushes through the view, the push always starts its request, its pusher
  always holding the permission to merge it.
\<close>
theorem main_push_accepted:
  assumes "main_push_view access lifecycle_state views = Ok (mpi_validated_view input)" and "push_input_ok input"
    and "mpf_request_with_name facts = None" and "\<not> mpf_request_id_exists facts"
    and "mpf_view_main_oid facts = Some (mpi_main_ancestor_oid input)"
  shows "\<exists>m. start_main_push_request sha256_hex facts access lifecycle_state input views = Ok (PushStarted m)"
  using assms by (rule main_push_starts)

theorem main_push_accepted_witness:
  "\<exists>m. start_main_push_request demo_hash push_facts push_access RepoReady push_input Views_builtin = Ok (PushStarted m)"
  by (rule main_push_accepted [OF _ push_demo_input]) (simp_all add: push_facts_def push_input_def push_demo_view)

end
