(* ===== verification/Request_Queue.thy ===== *)
theory Request_Queue
  imports Request_Checks
begin

text \<open>
  The review queue of a user: \<^verbatim>\<open>requests/queue.rs\<close>, \<^verbatim>\<open>requests/queue/placement.rs\<close> and \<^verbatim>\<open>requests/queue/stacks.rs\<close>. A
  list of rules places each request in a section; maintainers move requests by attention actions, activity moves them
  back, and the requests of one stack are shown together, by a union-find over the parents of the listed requests.
  \<^verbatim>\<open>revision + 1\<close> is the wrapping addition of a release build.
\<close>

section \<open>Attention\<close>

datatype queue_section = SectionActive | SectionUnclaimed | SectionSetAside | SectionDone
datatype queue_group = GroupNeedsYou | GroupWaiting | GroupUnclaimed | GroupSetAside | GroupDone
datatype queue_next_step =
  StepReview | StepReply | StepRevisit | StepMerge | StepFixChecks | StepApproveChecks | StepUpdate | StepSubmit | StepWait | StepDone
datatype attention_state = AttentionActive | AttentionWaiting | AttentionSnoozed | AttentionSettled
datatype attention_reason =
  ReasonAuthored | ReasonInvited | ReasonClaimed | ReasonUnclaimed | ReasonClaimedElsewhere | ReasonNewActivity | ReasonRestored
| ReasonSnoozeExpired | ReasonWaiting | ReasonSnoozed | ReasonSettled | ReasonOpen | ReasonClosed | ReasonMerged

definition request_queue_group :: "queue_section \<Rightarrow> attention_reason \<Rightarrow> queue_next_step \<Rightarrow> bool \<Rightarrow> queue_group" where
  "request_queue_group placed reason next_step viewer_is_maintainer =
     (case placed of
        SectionUnclaimed \<Rightarrow> GroupUnclaimed
      | SectionSetAside \<Rightarrow> GroupSetAside
      | SectionDone \<Rightarrow> GroupDone
      | SectionActive \<Rightarrow>
          if reason = ReasonAuthored \<and> viewer_is_maintainer \<and> next_step \<noteq> StepWait then GroupNeedsYou
          else if reason \<in> {ReasonInvited, ReasonClaimed, ReasonNewActivity, ReasonRestored, ReasonSnoozeExpired} then GroupNeedsYou
          else GroupWaiting)"

record viewer_abilities =
  va_merge :: bool
  va_approve_pending_checks :: bool

definition author_step :: "request_mergeability_status \<Rightarrow> viewer_abilities \<Rightarrow> queue_next_step" where
  "author_step readiness viewer =
     (if readiness = MReady then (if va_merge viewer then StepMerge else StepWait)
      else if readiness \<in> {MChecksAwaitingApproval, MWaitingForParent, MAncestorBlocked} \<and> va_approve_pending_checks viewer
        then StepApproveChecks
      else if readiness \<in> {MChecksFailed, MChecksConfigurationError, MReviewFindingsOpen} then StepFixChecks
      else if readiness \<in> {MIntegrationConflict, MNeedsMainUpdate, MParentRewritten, MParentClosed, MMissingRequestBranch}
        then StepUpdate
      else if readiness = MDraft then StepSubmit
      else if readiness \<in> {MClosed, MMerged} then StepDone
      else StepWait)"

definition next_step_for ::
  "string option \<Rightarrow> string option \<Rightarrow> attention_reason \<Rightarrow> request_mergeability_status \<Rightarrow> viewer_abilities \<Rightarrow> queue_next_step" where
  "next_step_for author_user_id viewer_user_id reason readiness viewer =
     (if viewer_user_id \<noteq> None \<and> author_user_id = viewer_user_id then author_step readiness viewer
      else if reason \<in> {ReasonInvited, ReasonClaimed, ReasonUnclaimed} then StepReview
      else if reason = ReasonNewActivity then StepReply
      else if reason \<in> {ReasonRestored, ReasonSnoozeExpired} then StepRevisit
      else if reason \<in> {ReasonClosed, ReasonMerged} then StepDone
      else StepWait)"

definition request_queue_next_step ::
  "request_merge_subject \<Rightarrow> request_viewer \<Rightarrow> views \<Rightarrow> request_checks_outcome \<Rightarrow> request_reviews_outcome
   \<Rightarrow> repo_lifecycle_state \<Rightarrow> attention_reason \<Rightarrow> queue_next_step" where
  "request_queue_next_step subject viewer views checks reviews repository_lifecycle reason =
     (let readiness = mg_status (evaluate_request_readiness repository_lifecycle subject checks reviews);
          viewer_can_merge =
            (mg_status (evaluate_request_merge repository_lifecycle subject viewer views checks reviews) = MReady)
      in next_step_for (ms_author_user_id subject) (vw_user_id viewer) reason readiness
           \<lparr>va_merge = viewer_can_merge,
            va_approve_pending_checks = (checks = ChecksAwaitingApproval \<and> may_review (vw_access viewer) views)\<rparr>)"

record request_attention =
  at_request_id :: string
  at_user_id :: string
  at_state :: attention_state
  at_reason :: attention_reason
  at_through_activity_version :: u64
  at_snoozed_until_unix :: "u64 option"
  at_updated_at_unix :: u64
  at_revision :: u64

definition next_revision :: "request_attention option \<Rightarrow> u64" where
  "next_revision existing = (case existing of None \<Rightarrow> 1 | Some attention \<Rightarrow> at_revision attention + 1)"

definition until_at_or_before :: "u64 option \<Rightarrow> u64 \<Rightarrow> bool" where
  "until_at_or_before snoozed_until now_unix = (case snoozed_until of Some until \<Rightarrow> until \<le> now_unix | None \<Rightarrow> False)"

definition until_after :: "u64 option \<Rightarrow> u64 \<Rightarrow> bool" where
  "until_after snoozed_until now_unix = (case snoozed_until of Some until \<Rightarrow> until > now_unix | None \<Rightarrow> False)"

definition snooze_ended :: "request_attention \<Rightarrow> u64 \<Rightarrow> bool" where
  "snooze_ended attention now_unix \<longleftrightarrow>
     at_state attention = AttentionSnoozed \<and> until_at_or_before (at_snoozed_until_unix attention) now_unix"

record request_claim =
  cl_request_id :: string
  cl_claimer_user_id :: string
  cl_claimed_at_unix :: u64
  cl_updated_at_unix :: u64

datatype attention_action =
  ActClaim | ActWait | ActSettle | ActSnooze (until_unix: u64) | ActRestore | ActRelease | ActAcknowledge

record apply_attention_input =
  aai_request :: request
  aai_actor_user_id :: string
  aai_actor_is_maintainer :: bool
  aai_expected_activity_version :: u64
  aai_existing_attention :: "request_attention option"
  aai_existing_claim :: "request_claim option"
  aai_action :: attention_action
  aai_now_unix :: u64

record attention_mutation =
  atm_attention :: "request_attention option"
  atm_claim :: "request_claim option"

definition set_aside :: "request_attention \<Rightarrow> u64 \<Rightarrow> bool" where
  "set_aside attention now_unix \<longleftrightarrow>
     at_state attention \<in> {AttentionWaiting, AttentionSettled}
     \<or> (at_state attention = AttentionSnoozed \<and> until_after (at_snoozed_until_unix attention) now_unix)"

definition opt_any :: "'a option \<Rightarrow> ('a \<Rightarrow> bool) \<Rightarrow> bool" where
  "opt_any x P = (case x of Some v \<Rightarrow> P v | None \<Rightarrow> False)"

text \<open>Release and acknowledge return before the attention is chosen; the code marks them unreachable here.\<close>

definition chosen_attention ::
  "apply_attention_input \<Rightarrow> (domain_error, attention_state \<times> attention_reason \<times> u64 option) result" where
  "chosen_attention input =
     (case aai_action input of
        ActClaim \<Rightarrow>
          if opt_any (aai_existing_claim input) (\<lambda>claim. cl_claimer_user_id claim \<noteq> aai_actor_user_id input)
          then Err (conflict ''request is already claimed by another maintainer'')
          else Ok (AttentionActive, ReasonClaimed, None)
      | ActWait \<Rightarrow> Ok (AttentionWaiting, ReasonWaiting, None)
      | ActSettle \<Rightarrow> Ok (AttentionSettled, ReasonSettled, None)
      | ActSnooze until \<Rightarrow>
          if until \<le> aai_now_unix input then Err (invalid_input ''snooze time must be in the future'')
          else Ok (AttentionSnoozed, ReasonSnoozed, Some until)
      | ActRestore \<Rightarrow> Ok (AttentionActive, ReasonRestored, None)
      | _ \<Rightarrow> Err (invariant_violation ''release and acknowledge return early''))"

definition chosen_claim :: "apply_attention_input \<Rightarrow> request_claim option" where
  "chosen_claim input =
     (if aai_action input = ActClaim
      then Some (case aai_existing_claim input of
          Some claim \<Rightarrow> claim
        | None \<Rightarrow> \<lparr>cl_request_id = rq_id (aai_request input), cl_claimer_user_id = aai_actor_user_id input,
            cl_claimed_at_unix = aai_now_unix input, cl_updated_at_unix = aai_now_unix input\<rparr>)
      else aai_existing_claim input)"

definition new_attention ::
  "apply_attention_input \<Rightarrow> attention_state \<times> attention_reason \<times> u64 option \<Rightarrow> request_attention" where
  "new_attention input = (\<lambda>(state, reason, snoozed_until).
     \<lparr>at_request_id = rq_id (aai_request input), at_user_id = aai_actor_user_id input, at_state = state, at_reason = reason,
      at_through_activity_version = rq_activity_version (aai_request input), at_snoozed_until_unix = snoozed_until,
      at_updated_at_unix = aai_now_unix input, at_revision = next_revision (aai_existing_attention input)\<rparr>)"

definition apply_request_attention_action :: "apply_attention_input \<Rightarrow> (domain_error, attention_mutation) result" where
  "apply_request_attention_action input =
     (if \<not> aai_actor_is_maintainer input then Err (forbidden ''repository maintainer access required'')
      else if request_state_of (aai_request input) \<noteq> Open then
        Err (conflict ''attention actions require an open request'')
      else if aai_expected_activity_version input \<noteq> rq_activity_version (aai_request input) then
        Err (conflict ''request has newer activity; refresh before changing attention'')
      else if aai_action input = ActRestore
              \<and> \<not> opt_any (aai_existing_attention input) (\<lambda>attention. set_aside attention (aai_now_unix input)) then
        Err (conflict ''request is not set aside'')
      else if aai_action input = ActRelease then
        (if \<not> opt_any (aai_existing_claim input) (\<lambda>claim. cl_claimer_user_id claim = aai_actor_user_id input) then
           Err (conflict ''request is not claimed by this maintainer'')
         else Ok \<lparr>atm_attention = None, atm_claim = None\<rparr>)
      else if aai_action input = ActAcknowledge then
        (if opt_any (aai_existing_attention input) (\<lambda>attention. \<not> snooze_ended attention (aai_now_unix input)) then
           Err (conflict ''request has no ended snooze'')
         else Ok \<lparr>atm_attention = None, atm_claim = aai_existing_claim input\<rparr>)
      else and_then (chosen_attention input) (\<lambda>chosen.
        Ok \<lparr>atm_attention = Some (new_attention input chosen), atm_claim = chosen_claim input\<rparr>))"

definition reactivate_request_attention :: "request_attention \<Rightarrow> string \<Rightarrow> u64 \<Rightarrow> u64 \<Rightarrow> request_attention option" where
  "reactivate_request_attention attention activity_actor_user_id new_activity_version now_unix =
     (if at_user_id attention \<noteq> activity_actor_user_id
         \<and> at_state attention \<in> {AttentionWaiting, AttentionSnoozed, AttentionSettled}
         \<and> at_through_activity_version attention < new_activity_version
      then Some \<lparr>at_request_id = at_request_id attention, at_user_id = at_user_id attention, at_state = AttentionActive,
        at_reason = ReasonNewActivity, at_through_activity_version = new_activity_version, at_snoozed_until_unix = None,
        at_updated_at_unix = now_unix, at_revision = next_revision (Some attention)\<rparr>
      else None)"

definition reactivate_request_attention_for_stack_blocker ::
  "request_attention \<Rightarrow> u64 \<Rightarrow> u64 \<Rightarrow> request_attention option" where
  "reactivate_request_attention_for_stack_blocker attention new_activity_version now_unix =
     (if at_state attention = AttentionSnoozed \<and> until_after (at_snoozed_until_unix attention) now_unix then None
      else reactivate_request_attention attention [] new_activity_version now_unix)"

section \<open>Placement\<close>

record request_queue_facts =
  qf_request_state :: request_state
  qf_request_activity_version :: u64
  qf_request_author_user_id :: "string option"
  qf_viewer_user_id :: "string option"
  qf_viewer_is_maintainer :: bool
  qf_viewer_is_invitee :: bool
  qf_attention :: "request_attention option"
  qf_claim :: "request_claim option"
  qf_now_unix :: u64

definition section_as_str :: "queue_section \<Rightarrow> string" where
  "section_as_str placed =
     (case placed of SectionActive \<Rightarrow> ''active'' | SectionUnclaimed \<Rightarrow> ''unclaimed'' | SectionSetAside \<Rightarrow> ''set_aside''
      | SectionDone \<Rightarrow> ''done'')"

datatype queue_atom =
  AtomTerminal | AtomViewerIsMaintainer | AtomViewerIsNotMaintainer | AtomViewerIsAuthor | AtomViewerIsInvitee
| AtomWaitingOrSettled | AtomAttentionIsActive | AtomSnoozedAfterNow | AtomSnoozedAtOrBeforeNow | AtomClaimedByViewer
| AtomClaimedByOther | AtomRequestIsOpen | AtomAlways

datatype queue_predicate = PredAtom queue_atom | PredAll queue_atom queue_atom

definition claimed_by :: "(string \<Rightarrow> string \<Rightarrow> bool) \<Rightarrow> request_queue_facts \<Rightarrow> bool" where
  "claimed_by same facts =
     (case (qf_viewer_user_id facts, qf_claim facts) of
        (Some viewer, Some claim) \<Rightarrow> same (cl_claimer_user_id claim) viewer | _ \<Rightarrow> False)"

fun atom_matches :: "queue_atom \<Rightarrow> request_queue_facts \<Rightarrow> bool" where
  "atom_matches AtomTerminal facts = (qf_request_state facts \<in> {Closed, Merged})"
| "atom_matches AtomViewerIsMaintainer facts = qf_viewer_is_maintainer facts"
| "atom_matches AtomViewerIsNotMaintainer facts = (\<not> qf_viewer_is_maintainer facts)"
| "atom_matches AtomViewerIsAuthor facts =
     (qf_viewer_user_id facts \<noteq> None \<and> qf_viewer_user_id facts = qf_request_author_user_id facts)"
| "atom_matches AtomViewerIsInvitee facts = qf_viewer_is_invitee facts"
| "atom_matches AtomWaitingOrSettled facts =
     opt_any (qf_attention facts) (\<lambda>attention. at_state attention \<in> {AttentionWaiting, AttentionSettled})"
| "atom_matches AtomAttentionIsActive facts =
     opt_any (qf_attention facts) (\<lambda>attention. at_state attention = AttentionActive)"
| "atom_matches AtomSnoozedAfterNow facts =
     opt_any (qf_attention facts) (\<lambda>attention.
       at_state attention = AttentionSnoozed \<and> until_after (at_snoozed_until_unix attention) (qf_now_unix facts))"
| "atom_matches AtomSnoozedAtOrBeforeNow facts =
     opt_any (qf_attention facts) (\<lambda>attention.
       at_state attention = AttentionSnoozed \<and> until_at_or_before (at_snoozed_until_unix attention) (qf_now_unix facts))"
| "atom_matches AtomClaimedByViewer facts = claimed_by (=) facts"
| "atom_matches AtomClaimedByOther facts = claimed_by (\<noteq>) facts"
| "atom_matches AtomRequestIsOpen facts = (qf_request_state facts = Open)"
| "atom_matches AtomAlways facts = True"

fun queue_predicate_matches :: "queue_predicate \<Rightarrow> request_queue_facts \<Rightarrow> bool" where
  "queue_predicate_matches (PredAtom a) facts = atom_matches a facts"
| "queue_predicate_matches (PredAll left right) facts = (atom_matches left facts \<and> atom_matches right facts)"

datatype queue_rule =
  RuleTerminal | RuleWaiting | RuleSnoozed | RuleClaimedElsewhere | RuleActiveAttention | RuleSnoozeExpired | RuleClaimed
| RuleAuthored | RuleInvited | RuleOpen | RuleUnclaimed

definition REQUEST_QUEUE_RULES :: "queue_rule list" where
  "REQUEST_QUEUE_RULES =
     [RuleTerminal, RuleWaiting, RuleSnoozed, RuleClaimedElsewhere, RuleActiveAttention, RuleSnoozeExpired, RuleClaimed,
      RuleAuthored, RuleInvited, RuleOpen, RuleUnclaimed]"

fun rule_section :: "queue_rule \<Rightarrow> queue_section" where
  "rule_section RuleTerminal = SectionDone"
| "rule_section RuleWaiting = SectionSetAside"
| "rule_section RuleSnoozed = SectionSetAside"
| "rule_section RuleClaimedElsewhere = SectionSetAside"
| "rule_section RuleUnclaimed = SectionUnclaimed"
| "rule_section _ = SectionActive"

fun rule_predicate :: "queue_rule \<Rightarrow> queue_predicate" where
  "rule_predicate RuleTerminal = PredAtom AtomTerminal"
| "rule_predicate RuleWaiting = PredAll AtomViewerIsMaintainer AtomWaitingOrSettled"
| "rule_predicate RuleSnoozed = PredAll AtomViewerIsMaintainer AtomSnoozedAfterNow"
| "rule_predicate RuleClaimedElsewhere = PredAll AtomViewerIsMaintainer AtomClaimedByOther"
| "rule_predicate RuleActiveAttention = PredAll AtomViewerIsMaintainer AtomAttentionIsActive"
| "rule_predicate RuleSnoozeExpired = PredAll AtomViewerIsMaintainer AtomSnoozedAtOrBeforeNow"
| "rule_predicate RuleClaimed = PredAll AtomViewerIsMaintainer AtomClaimedByViewer"
| "rule_predicate RuleAuthored = PredAtom AtomViewerIsAuthor"
| "rule_predicate RuleInvited = PredAtom AtomViewerIsInvitee"
| "rule_predicate RuleOpen = PredAll AtomViewerIsNotMaintainer AtomRequestIsOpen"
| "rule_predicate RuleUnclaimed = PredAtom AtomAlways"

record queue_classification =
  qc_section :: queue_section
  qc_state :: attention_state
  qc_reason :: attention_reason
  qc_through_activity_version :: u64
  qc_snoozed_until_unix :: "u64 option"
  qc_revision :: u64
  qc_can_claim :: bool
  qc_can_set_aside :: bool
  qc_can_restore :: bool
  qc_can_release :: bool

text \<open>
  The expectations of the code are the \<open>None\<close> of the model: a matching rule, the attention of a rule that needs one, and
  a terminal request for the first rule.
\<close>

definition matching_rule :: "request_queue_facts \<Rightarrow> queue_rule option" where
  "matching_rule facts = find (\<lambda>rule. queue_predicate_matches (rule_predicate rule) facts) REQUEST_QUEUE_RULES"

definition active_reason :: "queue_rule \<Rightarrow> request_queue_facts \<Rightarrow> attention_reason option" where
  "active_reason rule facts =
     (case rule of
        RuleActiveAttention \<Rightarrow> map_option at_reason (qf_attention facts)
      | RuleSnoozeExpired \<Rightarrow> Some ReasonSnoozeExpired
      | RuleClaimed \<Rightarrow> Some ReasonClaimed
      | RuleAuthored \<Rightarrow> Some ReasonAuthored
      | RuleInvited \<Rightarrow> Some ReasonInvited
      | RuleOpen \<Rightarrow> Some ReasonOpen
      | _ \<Rightarrow> None)"

definition classify_by :: "queue_rule \<Rightarrow> request_queue_facts \<Rightarrow> queue_classification option" where
  "classify_by rule facts =
     (let revision = (case qf_attention facts of None \<Rightarrow> 0 | Some attention \<Rightarrow> at_revision attention);
          actionable = (qf_viewer_is_maintainer facts \<and> qf_request_state facts = Open);
          can_release = (actionable \<and> claimed_by (=) facts);
          fixed = (\<lambda>reason can_claim can_set_aside.
            \<lparr>qc_section = rule_section rule, qc_state = AttentionActive, qc_reason = reason,
             qc_through_activity_version = qf_request_activity_version facts, qc_snoozed_until_unix = None,
             qc_revision = revision, qc_can_claim = can_claim, qc_can_set_aside = can_set_aside, qc_can_restore = False,
             qc_can_release = False\<rparr>)
      in case rule of
        RuleTerminal \<Rightarrow>
          (case qf_request_state facts of
             Closed \<Rightarrow> Some ((fixed ReasonClosed False False)\<lparr>qc_state := AttentionSettled\<rparr>)
           | Merged \<Rightarrow> Some ((fixed ReasonMerged False False)\<lparr>qc_state := AttentionSettled\<rparr>)
           | _ \<Rightarrow> None)
      | RuleClaimedElsewhere \<Rightarrow> Some (fixed ReasonClaimedElsewhere False False)
      | RuleUnclaimed \<Rightarrow> Some (fixed ReasonUnclaimed actionable actionable)
      | _ \<Rightarrow>
          if rule \<in> {RuleWaiting, RuleSnoozed} then
            map_option (\<lambda>attention.
              \<lparr>qc_section = rule_section rule, qc_state = at_state attention, qc_reason = at_reason attention,
               qc_through_activity_version = at_through_activity_version attention,
               qc_snoozed_until_unix = at_snoozed_until_unix attention, qc_revision = revision, qc_can_claim = False,
               qc_can_set_aside = False, qc_can_restore = True, qc_can_release = can_release\<rparr>) (qf_attention facts)
          else
            map_option (\<lambda>reason.
              \<lparr>qc_section = rule_section rule, qc_state = AttentionActive, qc_reason = reason,
               qc_through_activity_version = (case qf_attention facts of
                  None \<Rightarrow> qf_request_activity_version facts | Some state \<Rightarrow> at_through_activity_version state),
               qc_snoozed_until_unix = None, qc_revision = revision,
               qc_can_claim = (actionable \<and> qf_claim facts = None), qc_can_set_aside = actionable, qc_can_restore = False,
               qc_can_release = can_release\<rparr>) (active_reason rule facts))"

definition classify_request_queue_item :: "request_queue_facts \<Rightarrow> queue_classification option" where
  "classify_request_queue_item facts = Option.bind (matching_rule facts) (\<lambda>rule. classify_by rule facts)"

definition request_queue_visibility_predicate ::
  "repository_access \<Rightarrow> string option \<Rightarrow> views \<Rightarrow> request_list_predicate" where
  "request_queue_visibility_predicate access viewer_user_id views =
     LpAll [request_list_predicate_for access viewer_user_id views,
       LpAny (LpSubmitted # (case viewer_user_id of Some user_id \<Rightarrow> [LpAuthor user_id, LpInvitee user_id] | None \<Rightarrow> []))]"

end
