(* ===== verification/Queue_Stacks.thy ===== *)
theory Queue_Stacks
  imports Request_Queue
begin

text \<open>
  \<^verbatim>\<open>requests/queue/stacks.rs\<close>: the requests of one stack stand together in the queue. The code joins each listed request
  with its parent in a union-find structure whose lookup halves the path it walks; the lookup is a loop over the parent
  array, here a partial function whose value \<open>None\<close> is a loop that does not end or an index out of range.
\<close>

section \<open>The code\<close>

record queue_stack_member =
  qm_request_id :: string
  qm_parent_request_id :: "string option"
  qm_group :: queue_group

definition StackSets_new :: "nat \<Rightarrow> nat list" where
  "StackSets_new len = [0..<len]"

partial_function (option) stack_of :: "nat list \<Rightarrow> nat \<Rightarrow> (nat list \<times> nat) option" where
  "stack_of parents position =
     (if length parents \<le> position \<or> length parents \<le> parents ! position then None
      else if parents ! position \<noteq> position
      then (let parents' = parents[position := parents ! (parents ! position)] in stack_of parents' (parents' ! position))
      else Some (parents, position))"

declare stack_of.simps [code]

definition join_stacks :: "nat list \<Rightarrow> nat \<Rightarrow> nat \<Rightarrow> nat list option" where
  "join_stacks parents left right =
     Option.bind (stack_of parents left) (\<lambda>(parents, left).
     Option.bind (stack_of parents right) (\<lambda>(parents, right). Some (parents[left := right])))"

definition or_insert_next :: "string \<Rightarrow> (string, nat) btree_map \<Rightarrow> (string, nat) btree_map" where
  "or_insert_next key nodes = (if bt_get nodes key = None then bt_insert key (length nodes) nodes else nodes)"

definition stack_nodes :: "queue_stack_member list \<Rightarrow> (string, nat) btree_map" where
  "stack_nodes members =
     fold or_insert_next (List.map_filter qm_parent_request_id members) (fold or_insert_next (map qm_request_id members) [])"

fun join_members :: "(string, nat) btree_map \<Rightarrow> queue_stack_member list \<Rightarrow> nat list \<Rightarrow> nat list option" where
  "join_members nodes [] parents = Some parents"
| "join_members nodes (m # ms) parents =
     (case qm_parent_request_id m of
        None \<Rightarrow> join_members nodes ms parents
      | Some parent \<Rightarrow>
          Option.bind (bt_get nodes (qm_request_id m)) (\<lambda>i.
          Option.bind (bt_get nodes parent) (\<lambda>j.
          Option.bind (join_stacks parents i j) (join_members nodes ms))))"

text \<open>The stack of a member, with the parents the lookup leaves behind.\<close>

definition member_stack :: "(string, nat) btree_map \<Rightarrow> queue_stack_member \<Rightarrow> nat list \<Rightarrow> (nat list \<times> nat) option" where
  "member_stack nodes m parents = Option.bind (bt_get nodes (qm_request_id m)) (stack_of parents)"

fun needing_stacks ::
  "(string, nat) btree_map \<Rightarrow> queue_stack_member list \<Rightarrow> nat list \<Rightarrow> (nat list \<times> nat list) option" where
  "needing_stacks nodes [] parents = Some (parents, [])"
| "needing_stacks nodes (m # ms) parents =
     (if qm_group m = GroupNeedsYou then
        Option.bind (member_stack nodes m parents) (\<lambda>(parents, stack).
        Option.bind (needing_stacks nodes ms parents) (\<lambda>(parents, stacks). Some (parents, stack # stacks)))
      else needing_stacks nodes ms parents)"

fun regroup ::
  "(string, nat) btree_map \<Rightarrow> nat set \<Rightarrow> queue_stack_member list \<Rightarrow> nat list \<Rightarrow> queue_group list option" where
  "regroup nodes needing [] parents = Some []"
| "regroup nodes needing (m # ms) parents =
     (if qm_group m = GroupWaiting then
        Option.bind (member_stack nodes m parents) (\<lambda>(parents, stack).
        Option.bind (regroup nodes needing ms parents) (\<lambda>groups.
          Some ((if stack \<in> needing then GroupNeedsYou else GroupWaiting) # groups)))
      else map_option ((#) (qm_group m)) (regroup nodes needing ms parents))"

definition request_queue_stack_groups :: "queue_stack_member list \<Rightarrow> queue_group list option" where
  "request_queue_stack_groups members =
     (let nodes = stack_nodes members in
      Option.bind (join_members nodes members (StackSets_new (length nodes))) (\<lambda>parents.
      Option.bind (needing_stacks nodes members parents) (\<lambda>(parents, needing_you).
        regroup nodes (set needing_you) members parents)))"

section \<open>Union-find\<close>

text \<open>
  The representative of each node, and a rank that grows along the parents up to a bound: the loop of the lookup ends,
  and halving a path or hanging one root under another keeps such a rank.
\<close>

definition ranked :: "nat list \<Rightarrow> (nat \<Rightarrow> nat) \<Rightarrow> (nat \<Rightarrow> nat) \<Rightarrow> nat \<Rightarrow> bool" where
  "ranked ps rep rank bound \<longleftrightarrow>
     (\<forall>i < length ps. ps ! i < length ps \<and> rep (ps ! i) = rep i \<and> (ps ! i = i \<longleftrightarrow> rep i = i)
        \<and> (ps ! i \<noteq> i \<longrightarrow> rank i < rank (ps ! i)) \<and> rank i \<le> bound)"

definition forest :: "nat list \<Rightarrow> (nat \<Rightarrow> nat) \<Rightarrow> bool" where
  "forest ps rep \<longleftrightarrow> (\<exists>rank bound. ranked ps rep rank bound)"

lemma ranked_halve:
  assumes "ranked ps rep rank bound" and "position < length ps"
  shows "ranked (ps[position := ps ! (ps ! position)]) rep rank bound"
proof -
  define p where "p = ps ! position"
  define q where "q = ps ! p"
  have at: "p < length ps" "rep p = rep position" "p = position \<longleftrightarrow> rep position = position"
    "p \<noteq> position \<Longrightarrow> rank position < rank p" "q < length ps" "rep q = rep p" "q = p \<longleftrightarrow> rep p = p"
    "q \<noteq> p \<Longrightarrow> rank p < rank q"
    using assms by (auto simp: ranked_def p_def q_def)
  have "q = position \<longleftrightarrow> rep position = position" using at by (metis less_asym)
  moreover have "q \<noteq> position \<Longrightarrow> rank position < rank q" using at by (metis less_trans)
  ultimately show ?thesis
    using assms at unfolding ranked_def p_def [symmetric] q_def [symmetric]
    by (auto simp: nth_list_update)
qed

lemma stack_of_ranked:
  assumes "ranked ps rep rank bound" and "position < length ps"
  shows "\<exists>ps'. stack_of ps position = Some (ps', rep position) \<and> ranked ps' rep rank bound \<and> length ps' = length ps"
  using assms
proof (induction "bound - rank position" arbitrary: ps position rule: less_induct)
  case less
  define p where "p = ps ! position"
  have p: "p < length ps" "rep p = rep position" "p = position \<longleftrightarrow> rep position = position"
    using less.prems by (auto simp: ranked_def p_def)
  show ?case
  proof (cases "p = position")
    case True
    then show ?thesis using less.prems p by (subst stack_of.simps) (auto simp: p_def [symmetric])
  next
    case False
    define ps' where "ps' = ps[position := ps ! p]"
    have ps': "ranked ps' rep rank bound" "length ps' = length ps" "ps' ! position = ps ! p" "ps ! p < length ps"
      using ranked_halve [OF less.prems] less.prems p(1) by (auto simp: ps'_def p_def ranked_def)
    have "rank position < rank (ps ! p)" "rank (ps ! p) \<le> bound" "rep (ps ! p) = rep position"
      using less.prems False p by (auto simp: ranked_def p_def) (metis less_trans)
    then have "\<exists>ps''. stack_of ps' (ps ! p) = Some (ps'', rep position) \<and> ranked ps'' rep rank bound \<and> length ps'' = length ps'"
      using less.hyps [of "ps ! p" ps'] ps' by auto
    moreover have "stack_of ps position = stack_of ps' (ps ! p)"
      using less.prems False p ps' by (subst stack_of.simps) (auto simp: p_def [symmetric] ps'_def [symmetric] Let_def)
    ultimately show ?thesis using ps'(2) by auto
  qed
qed

lemma stack_of_forest:
  assumes "forest ps rep" and "position < length ps"
  obtains ps' where "stack_of ps position = Some (ps', rep position)" "forest ps' rep" "length ps' = length ps"
  using assms stack_of_ranked unfolding forest_def by metis

lemma forest_rep: "forest ps rep \<Longrightarrow> i < length ps \<Longrightarrow> rep i < length ps \<and> rep (rep i) = rep i"
proof -
  assume f: "forest ps rep" and i: "i < length ps"
  then obtain rank bound where r: "ranked ps rep rank bound" by (auto simp: forest_def)
  from i show ?thesis
  proof (induction "bound - rank i" arbitrary: i rule: less_induct)
    case less
    have at: "ps ! i < length ps" "rep (ps ! i) = rep i" "ps ! i = i \<longleftrightarrow> rep i = i" "ps ! i \<noteq> i \<Longrightarrow> rank i < rank (ps ! i)"
      "rank (ps ! i) \<le> bound"
      using r less.prems by (auto simp: ranked_def)
    show ?case
    proof (cases "ps ! i = i")
      case False
      then have "bound - rank (ps ! i) < bound - rank i" using at(4,5) by auto
      with less.hyps [of "ps ! i"] at show ?thesis by simp
    qed (use at less.prems in auto)
  qed
qed

lemma forest_join:
  assumes f: "forest ps rep" and l: "i < length ps" and r: "j < length ps"
  obtains ps' where "join_stacks ps i j = Some ps'" "length ps' = length ps"
    "forest ps' (\<lambda>x. if rep x = rep i then rep j else rep x)"
proof -
  obtain p1 where p1: "stack_of ps i = Some (p1, rep i)" "forest p1 rep" "length p1 = length ps"
    using stack_of_forest [OF f l] .
  obtain p2 where p2: "stack_of p1 j = Some (p2, rep j)" "forest p2 rep" "length p2 = length p1"
    using stack_of_forest [of p1 rep j] p1 r by auto
  define a where "a = rep i"
  define b where "b = rep j"
  have ab: "a < length p2" "b < length p2" "rep a = a" "rep b = b"
    using forest_rep [OF f] l r p1 p2 by (auto simp: a_def b_def)
  obtain rank bound where ranked: "ranked p2 rep rank bound" using p2(2) by (auto simp: forest_def)
  define rep' where "rep' = (\<lambda>x. if rep x = a then b else rep x)"
  define rank' where "rank' = (\<lambda>x. if rep x = b \<and> a \<noteq> b then rank x + bound + 1 else rank x)"
  have "ranked (p2[a := b]) rep' rank' (2 * bound + 1)" unfolding ranked_def
  proof (intro allI impI)
    fix k assume "k < length (p2[a := b])"
    then have k: "p2 ! k < length p2" "rep (p2 ! k) = rep k" "p2 ! k = k \<longleftrightarrow> rep k = k" "p2 ! k \<noteq> k \<Longrightarrow> rank k < rank (p2 ! k)"
      "rank k \<le> bound" "rank (p2 ! k) \<le> bound" "k < length p2"
      using ranked by (auto simp: ranked_def)
    have a_bound: "rank a \<le> bound" "p2 ! a = a" using ranked ab by (auto simp: ranked_def)
    show "p2[a := b] ! k < length (p2[a := b]) \<and> rep' (p2[a := b] ! k) = rep' k \<and> (p2[a := b] ! k = k \<longleftrightarrow> rep' k = k)
      \<and> (p2[a := b] ! k \<noteq> k \<longrightarrow> rank' k < rank' (p2[a := b] ! k)) \<and> rank' k \<le> 2 * bound + 1"
    proof (cases "k = a")
      case True
      then show ?thesis using ab k a_bound by (auto simp: rep'_def rank'_def)
    next
      case False
      then have "p2[a := b] ! k = p2 ! k" using k(7) by simp
      moreover have "rep' k = k \<longleftrightarrow> rep k = k" using False ab by (auto simp: rep'_def)
      ultimately show ?thesis using ab k by (auto simp: rep'_def rank'_def)
    qed
  qed
  then have "forest (p2[a := b]) (\<lambda>x. if rep x = rep i then rep j else rep x)"
    unfolding forest_def rep'_def a_def [symmetric] b_def [symmetric] by blast
  moreover have "join_stacks ps i j = Some (p2[a := b])" using p1(1) p2(1) by (simp add: join_stacks_def a_def b_def)
  ultimately show ?thesis using that [of "p2[a := b]"] p1(3) p2(3) by simp
qed

section \<open>Representatives and connected nodes\<close>

definition linked :: "('a \<times> 'a) set \<Rightarrow> ('a \<times> 'a) set" where
  "linked E = (E \<union> E\<inverse>)\<^sup>*"

lemma linked_equiv: "(x, x) \<in> linked E" "(x, y) \<in> linked E \<Longrightarrow> (y, x) \<in> linked E"
  "(x, y) \<in> linked E \<Longrightarrow> (y, z) \<in> linked E \<Longrightarrow> (x, z) \<in> linked E"
  unfolding linked_def by (auto simp: sym_Un_converse sym_rtrancl symD intro: rtrancl_trans)

lemma linked_edge: "(x, y) \<in> E \<Longrightarrow> (x, y) \<in> linked E"
  unfolding linked_def by blast

lemma linked_mono: "E \<subseteq> F \<Longrightarrow> linked E \<subseteq> linked F"
  unfolding linked_def by (intro rtrancl_mono) blast

text \<open>Whatever identifies the ends of every edge identifies linked nodes.\<close>

lemma linked_kernel: "(x, y) \<in> linked E \<Longrightarrow> (\<And>a b. (a, b) \<in> E \<Longrightarrow> f a = f b) \<Longrightarrow> f x = f y"
  unfolding linked_def by (induction rule: rtrancl_induct) force+

definition represents :: "(nat \<Rightarrow> nat) \<Rightarrow> nat \<Rightarrow> (nat \<times> nat) set \<Rightarrow> bool" where
  "represents rep n E \<longleftrightarrow> E \<subseteq> {..<n} \<times> {..<n} \<and> (\<forall>x < n. \<forall>y < n. rep x = rep y \<longleftrightarrow> (x, y) \<in> linked E)"

lemma represents_join:
  assumes "represents rep n E" and "i < n" and "j < n"
  shows "represents (\<lambda>x. if rep x = rep i then rep j else rep x) n (insert (i, j) E)"
proof -
  define rep' where "rep' = (\<lambda>x. if rep x = rep i then rep j else rep x)"
  have same: "rep x = rep y \<Longrightarrow> x < n \<Longrightarrow> y < n \<Longrightarrow> (x, y) \<in> linked (insert (i, j) E)" for x y
    using assms(1) linked_mono [of E "insert (i, j) E"] by (auto simp: represents_def)
  have ij: "(i, j) \<in> linked (insert (i, j) E)" by (simp add: linked_edge)
  have "rep' x = rep' y \<longleftrightarrow> (x, y) \<in> linked (insert (i, j) E)" if "x < n" "y < n" for x y
  proof
    assume "(x, y) \<in> linked (insert (i, j) E)"
    moreover have "rep' a = rep' b" if "(a, b) \<in> insert (i, j) E" for a b
    proof (cases "(a, b) \<in> E")
      case True
      then have "a < n" "b < n" "(a, b) \<in> linked E" using assms(1) by (auto simp: represents_def linked_edge)
      then have "rep a = rep b" using assms(1) by (simp add: represents_def)
      then show ?thesis by (simp add: rep'_def)
    next
      case False
      with that show ?thesis by (simp add: rep'_def)
    qed
    ultimately show "rep' x = rep' y" by (rule linked_kernel)
  next
    assume "rep' x = rep' y"
    then consider "rep x = rep y" | "rep x = rep i" "rep y = rep j" | "rep y = rep i" "rep x = rep j"
      by (auto simp: rep'_def split: if_split_asm)
    then show "(x, y) \<in> linked (insert (i, j) E)"
    proof cases
      case 1
      then show ?thesis using same that by blast
    next
      case 2
      then show ?thesis using same [of x i] same [of j y] ij assms(2,3) that linked_equiv(3) by metis
    next
      case 3
      then show ?thesis using same [of x j] same [of i y] linked_equiv(2) [OF ij] assms(2,3) that linked_equiv(3) by metis
    qed
  qed
  then show ?thesis using assms unfolding represents_def rep'_def by blast
qed

definition stack_state :: "nat list \<Rightarrow> nat \<Rightarrow> (nat \<times> nat) set \<Rightarrow> bool" where
  "stack_state ps n E \<longleftrightarrow> length ps = n \<and> (\<exists>rep. forest ps rep \<and> represents rep n E)"

lemma stack_state_new: "stack_state (StackSets_new n) n {}"
proof -
  have "ranked (StackSets_new n) id id n" by (simp add: ranked_def StackSets_new_def)
  moreover have "represents id n {}" by (simp add: represents_def linked_def)
  ultimately show ?thesis unfolding stack_state_def forest_def by (auto simp: StackSets_new_def)
qed

lemma stack_state_join:
  assumes "stack_state ps n E" and "i < n" and "j < n"
  shows "\<exists>ps'. join_stacks ps i j = Some ps' \<and> stack_state ps' n (insert (i, j) E)"
proof -
  obtain rep where rep: "forest ps rep" "represents rep n E" "length ps = n" using assms(1) by (auto simp: stack_state_def)
  obtain ps' where "join_stacks ps i j = Some ps'" "length ps' = length ps"
    "forest ps' (\<lambda>x. if rep x = rep i then rep j else rep x)"
    using forest_join [of ps rep i j] rep assms by auto
  then show ?thesis using represents_join [OF rep(2) assms(2,3)] rep(3) unfolding stack_state_def by blast
qed

section \<open>Nodes\<close>

definition nodes_ok :: "(string, nat) btree_map \<Rightarrow> bool" where
  "nodes_ok nodes \<longleftrightarrow> bt_ok nodes \<and> inj_on (bt_get nodes) (dom (bt_get nodes))
     \<and> (\<forall>key i. bt_get nodes key = Some i \<longrightarrow> i < length nodes)"

lemma length_bt_insert: "bt_ok m \<Longrightarrow> bt_get m k = None \<Longrightarrow> length (bt_insert k v m) = Suc (length m)"
  by (induction m) (auto simp: bt_get_def split: if_split_asm)

lemma or_insert_next_ok:
  assumes "nodes_ok nodes"
  shows "nodes_ok (or_insert_next key nodes) \<and> dom (bt_get (or_insert_next key nodes)) = insert key (dom (bt_get nodes))"
proof (cases "bt_get nodes key = None")
  case True
  have ok: "bt_ok nodes" "inj_on (bt_get nodes) (dom (bt_get nodes))" "bt_get nodes k = Some i \<Longrightarrow> i < length nodes" for k i
    using assms by (auto simp: nodes_ok_def)
  have get: "bt_get (or_insert_next key nodes) = (bt_get nodes)(key \<mapsto> length nodes)" "bt_ok (or_insert_next key nodes)"
    "length (or_insert_next key nodes) = Suc (length nodes)"
    using True ok(1) by (simp_all add: or_insert_next_def bt_get_insert bt_ok_insert length_bt_insert)
  have "inj_on ((bt_get nodes)(key \<mapsto> length nodes)) (dom ((bt_get nodes)(key \<mapsto> length nodes)))"
    using ok(2,3) True by (auto simp: inj_on_def dom_def) (metis nat_neq_iff)+
  moreover have "i < Suc (length nodes)" if "((bt_get nodes)(key \<mapsto> length nodes)) k = Some i" for k i
    using that ok(3) by (auto simp: less_Suc_eq split: if_split_asm)
  ultimately show ?thesis using get by (auto simp: nodes_ok_def)
next
  case False
  then show ?thesis using assms by (auto simp: or_insert_next_def)
qed

lemma fold_or_insert_next:
  "nodes_ok nodes \<Longrightarrow> nodes_ok (fold or_insert_next keys nodes)
     \<and> dom (bt_get (fold or_insert_next keys nodes)) = set keys \<union> dom (bt_get nodes)"
proof (induction keys arbitrary: nodes)
  case (Cons key keys)
  then show ?case using or_insert_next_ok [OF Cons.prems, of key] by simp
qed simp

lemma stack_nodes_ok:
  "nodes_ok (stack_nodes members)
   \<and> dom (bt_get (stack_nodes members)) = qm_request_id ` set members \<union> {p. \<exists>m \<in> set members. qm_parent_request_id m = Some p}"
proof -
  have empty: "bt_get ([] :: (string, nat) btree_map) = Map.empty" by (simp add: bt_get_def fun_eq_iff)
  then have "nodes_ok []" by (simp add: nodes_ok_def)
  then show ?thesis
    using fold_or_insert_next [of "[]" "map qm_request_id members"]
      fold_or_insert_next [of "fold or_insert_next (map qm_request_id members) []" "List.map_filter qm_parent_request_id members"]
    by (auto simp: stack_nodes_def List.map_filter_def empty image_def)
qed

section \<open>Joining and regrouping\<close>

definition node_links :: "(string, nat) btree_map \<Rightarrow> queue_stack_member list \<Rightarrow> (nat \<times> nat) set" where
  "node_links nodes ms =
     {(i, j). \<exists>m \<in> set ms. \<exists>p. qm_parent_request_id m = Some p \<and> bt_get nodes (qm_request_id m) = Some i \<and> bt_get nodes p = Some j}"

definition covered :: "(string, nat) btree_map \<Rightarrow> queue_stack_member list \<Rightarrow> bool" where
  "covered nodes ms \<longleftrightarrow>
     (\<forall>m \<in> set ms. (\<exists>i < length nodes. bt_get nodes (qm_request_id m) = Some i)
        \<and> (\<forall>p. qm_parent_request_id m = Some p \<longrightarrow> (\<exists>j < length nodes. bt_get nodes p = Some j)))"

lemma covered_Cons:
  "covered nodes (m # ms) \<longleftrightarrow> (\<exists>i < length nodes. bt_get nodes (qm_request_id m) = Some i)
     \<and> (\<forall>p. qm_parent_request_id m = Some p \<longrightarrow> (\<exists>j < length nodes. bt_get nodes p = Some j)) \<and> covered nodes ms"
  by (auto simp: covered_def)

lemma join_members_ok:
  assumes "covered nodes ms" and "stack_state ps (length nodes) E"
  shows "\<exists>ps'. join_members nodes ms ps = Some ps' \<and> stack_state ps' (length nodes) (E \<union> node_links nodes ms)"
  using assms
proof (induction ms arbitrary: ps E)
  case Nil
  then show ?case by (simp add: node_links_def)
next
  case (Cons m ms)
  show ?case
  proof (cases "qm_parent_request_id m")
    case None
    then have "node_links nodes (m # ms) = node_links nodes ms" by (auto simp: node_links_def)
    then show ?thesis using Cons None by (simp add: covered_Cons)
  next
    case (Some p)
    then obtain i j where ij: "i < length nodes" "j < length nodes" "bt_get nodes (qm_request_id m) = Some i" "bt_get nodes p = Some j"
      using Cons.prems(1) by (auto simp: covered_Cons)
    then obtain ps1 where ps1: "join_stacks ps i j = Some ps1" "stack_state ps1 (length nodes) (insert (i, j) E)"
      using stack_state_join [OF Cons.prems(2)] by blast
    then obtain ps2 where ps2: "join_members nodes ms ps1 = Some ps2"
      "stack_state ps2 (length nodes) (insert (i, j) E \<union> node_links nodes ms)"
      using Cons.IH [OF _ ps1(2)] Cons.prems(1) by (auto simp: covered_Cons)
    moreover have "insert (i, j) E \<union> node_links nodes ms = E \<union> node_links nodes (m # ms)"
      using Some ij by (auto simp: node_links_def)
    ultimately show ?thesis using Some ij ps1 by simp
  qed
qed

text \<open>
  Once the members are joined the representatives stay: lookups only shorten paths. So one function of the nodes
  describes every later answer.
\<close>

lemma member_stack_ok:
  assumes "forest ps rep" and "length ps = length nodes" and "bt_get nodes (qm_request_id m) = Some i" and "i < length nodes"
  shows "\<exists>ps'. member_stack nodes m ps = Some (ps', rep i) \<and> forest ps' rep \<and> length ps' = length nodes"
  using stack_of_forest [of ps rep i] assms by (metis member_stack_def bind.bind_lunit)

definition node_of :: "(string, nat) btree_map \<Rightarrow> queue_stack_member \<Rightarrow> nat" where
  "node_of nodes m = the (bt_get nodes (qm_request_id m))"

lemma covered_node: "covered nodes (m # ms) \<Longrightarrow> bt_get nodes (qm_request_id m) = Some (node_of nodes m) \<and> node_of nodes m < length nodes"
  by (auto simp: covered_Cons node_of_def)

lemma needing_stacks_ok:
  assumes "covered nodes ms" and "forest ps rep" and "length ps = length nodes"
  shows "\<exists>ps' stacks. needing_stacks nodes ms ps = Some (ps', stacks) \<and> forest ps' rep \<and> length ps' = length nodes
    \<and> set stacks = (rep \<circ> node_of nodes) ` {m \<in> set ms. qm_group m = GroupNeedsYou}"
  using assms
proof (induction ms arbitrary: ps)
  case (Cons m ms)
  show ?case
  proof (cases "qm_group m = GroupNeedsYou")
    case True
    obtain ps1 where ps1: "member_stack nodes m ps = Some (ps1, rep (node_of nodes m))" "forest ps1 rep" "length ps1 = length nodes"
      using member_stack_ok [OF Cons.prems(2,3)] covered_node [OF Cons.prems(1)] by blast
    obtain ps2 stacks where "needing_stacks nodes ms ps1 = Some (ps2, stacks)" "forest ps2 rep" "length ps2 = length nodes"
      "set stacks = (rep \<circ> node_of nodes) ` {m \<in> set ms. qm_group m = GroupNeedsYou}"
      using Cons.IH [OF _ ps1(2,3)] Cons.prems(1) by (auto simp: covered_Cons)
    moreover have "{x \<in> set (m # ms). qm_group x = GroupNeedsYou} = insert m {x \<in> set ms. qm_group x = GroupNeedsYou}"
      using True by auto
    ultimately show ?thesis using ps1(1) True by simp
  next
    case False
    then have "{x \<in> set (m # ms). qm_group x = GroupNeedsYou} = {x \<in> set ms. qm_group x = GroupNeedsYou}" by auto
    then show ?thesis using Cons False by (simp add: covered_Cons)
  qed
qed simp

lemma regroup_ok:
  assumes "covered nodes ms" and "forest ps rep" and "length ps = length nodes"
  shows "regroup nodes needing ms ps =
    Some (map (\<lambda>m. if qm_group m = GroupWaiting \<and> rep (node_of nodes m) \<in> needing then GroupNeedsYou else qm_group m) ms)"
  using assms
proof (induction ms arbitrary: ps)
  case (Cons m ms)
  show ?case
  proof (cases "qm_group m = GroupWaiting")
    case True
    obtain ps1 where ps1: "member_stack nodes m ps = Some (ps1, rep (node_of nodes m))" "forest ps1 rep" "length ps1 = length nodes"
      using member_stack_ok [OF Cons.prems(2,3)] covered_node [OF Cons.prems(1)] by blast
    then show ?thesis using Cons.IH [OF _ ps1(2,3)] Cons.prems(1) True by (simp add: covered_Cons)
  next
    case False
    then show ?thesis using Cons by (simp add: covered_Cons)
  qed
qed simp

section \<open>Linked requests\<close>

definition stack_links :: "queue_stack_member list \<Rightarrow> (string \<times> string) set" where
  "stack_links members = {(qm_request_id m, p) | m p. m \<in> set members \<and> qm_parent_request_id m = Some p}"

lemma linked_image:
  assumes "inj_on f D" and "E \<subseteq> D \<times> D" and "a \<in> D" and "b \<in> D"
  shows "(f a, f b) \<in> linked (map_prod f f ` E) \<longleftrightarrow> (a, b) \<in> linked E"
proof
  assume "(a, b) \<in> linked E"
  then show "(f a, f b) \<in> linked (map_prod f f ` E)"
    unfolding linked_def
  proof (induction rule: rtrancl_induct)
    case (step y z)
    then have "(f y, f z) \<in> map_prod f f ` E \<union> (map_prod f f ` E)\<inverse>" by force
    with step show ?case by (meson rtrancl.rtrancl_into_rtrancl)
  qed simp
next
  have walk: "\<exists>b \<in> D. y = f b \<and> (a, b) \<in> linked E" if "(f a, y) \<in> linked (map_prod f f ` E)" for y
    using that unfolding linked_def
  proof (induction rule: rtrancl_induct)
    case base
    then show ?case using assms(3) by auto
  next
    case (step y z)
    obtain w where w: "w \<in> D" "y = f w" "(a, w) \<in> (E \<union> E\<inverse>)\<^sup>*" using step.IH by blast
    obtain u v where uv: "(u, v) \<in> E \<union> E\<inverse>" "y = f u" "z = f v" using step.hyps(2) by auto
    note * = w uv
    moreover from * have "u \<in> D" "v \<in> D" using assms(2) by auto
    moreover from this have "u = w" using * assms(1) by (auto dest: inj_onD)
    ultimately show ?case by (auto intro: rtrancl.rtrancl_into_rtrancl)
  qed
  assume "(f a, f b) \<in> linked (map_prod f f ` E)"
  then obtain b' where "b' \<in> D" "f b = f b'" "(a, b') \<in> linked E" using walk by blast
  with assms(1,4) show "(a, b) \<in> linked E" by (auto dest: inj_onD)
qed

lemma node_links_image:
  assumes "covered nodes ms"
  shows "node_links nodes ms = map_prod (the \<circ> bt_get nodes) (the \<circ> bt_get nodes) ` stack_links ms"
proof -
  have "bt_get nodes (qm_request_id m) = Some (the (bt_get nodes (qm_request_id m)))"
    "qm_parent_request_id m = Some p \<Longrightarrow> bt_get nodes p = Some (the (bt_get nodes p))" if "m \<in> set ms" for m p
    using that assms by (force simp: covered_def)+
  then show ?thesis by (fastforce simp: node_links_def stack_links_def image_def)
qed

definition stack_needs_you :: "queue_stack_member list \<Rightarrow> queue_stack_member \<Rightarrow> bool" where
  "stack_needs_you members m \<longleftrightarrow>
     (\<exists>other. other \<in> set members \<and> qm_group other = GroupNeedsYou
        \<and> (qm_request_id m, qm_request_id other) \<in> linked (stack_links members))"

lemma stack_groups_correct:
  "request_queue_stack_groups members =
     Some (map (\<lambda>m. if qm_group m = GroupWaiting \<and> stack_needs_you members m then GroupNeedsYou else qm_group m) members)"
proof -
  define nodes where "nodes = stack_nodes members"
  define f where "f = the \<circ> bt_get nodes"
  have ok: "nodes_ok nodes" and dom: "dom (bt_get nodes) = qm_request_id ` set members
      \<union> {p. \<exists>m \<in> set members. qm_parent_request_id m = Some p}"
    using stack_nodes_ok [of members] by (auto simp: nodes_def)
  have bound: "\<exists>i < length nodes. bt_get nodes key = Some i" if "key \<in> dom (bt_get nodes)" for key
    using ok that by (auto simp: nodes_ok_def)
  have cov: "covered nodes members" using bound dom by (fastforce simp: covered_def)
  obtain ps where ps: "join_members nodes members (StackSets_new (length nodes)) = Some ps"
    "stack_state ps (length nodes) (node_links nodes members)"
    using join_members_ok [OF cov stack_state_new] by auto
  obtain rep where rep: "forest ps rep" "represents rep (length nodes) (node_links nodes members)" "length ps = length nodes"
    using ps(2) by (auto simp: stack_state_def)
  obtain ps' stacks where needing: "needing_stacks nodes members ps = Some (ps', stacks)" "forest ps' rep" "length ps' = length nodes"
    "set stacks = (rep \<circ> node_of nodes) ` {m \<in> set members. qm_group m = GroupNeedsYou}"
    using needing_stacks_ok [OF cov rep(1,3)] by blast
  have inj: "inj_on f (dom (bt_get nodes))"
    using ok by (auto simp: nodes_ok_def f_def inj_on_def dom_def)
  have links: "stack_links members \<subseteq> dom (bt_get nodes) \<times> dom (bt_get nodes)" unfolding dom by (auto simp: stack_links_def)
  have same: "rep (node_of nodes m) = rep (node_of nodes other) \<longleftrightarrow>
      (qm_request_id m, qm_request_id other) \<in> linked (stack_links members)"
    if "m \<in> set members" "other \<in> set members" for m other
  proof -
    have at: "qm_request_id m \<in> dom (bt_get nodes)" "qm_request_id other \<in> dom (bt_get nodes)" using that dom by auto
    then have "node_of nodes m < length nodes" "node_of nodes other < length nodes" using bound by (force simp: node_of_def)+
    then have "rep (node_of nodes m) = rep (node_of nodes other) \<longleftrightarrow>
        (f (qm_request_id m), f (qm_request_id other)) \<in> linked (map_prod f f ` stack_links members)"
      using rep(2) by (simp add: represents_def node_links_image [OF cov] f_def [symmetric] node_of_def) (simp add: f_def)
    also have "\<dots> \<longleftrightarrow> (qm_request_id m, qm_request_id other) \<in> linked (stack_links members)"
      by (rule linked_image [OF inj links at])
    finally show ?thesis .
  qed
  have "rep (node_of nodes m) \<in> set stacks \<longleftrightarrow> stack_needs_you members m" if "m \<in> set members" for m
    using needing(4) same [OF that] by (auto simp: stack_needs_you_def image_def)
  then show ?thesis
    using ps(1) needing(1) regroup_ok [OF cov needing(2,3), of "set stacks"]
    by (simp add: request_queue_stack_groups_def nodes_def [symmetric] cong: map_cong)
qed

end
