(* ===== verification/Queue_Properties.thy ===== *)
theory Queue_Properties
  imports Queue_Stacks Request_Properties
begin

text \<open>
  What the review queue guarantees: every request has a place, the actions it offers are the ones the code accepts, an
  action moves the request where it says, and the requests of a stack that needs its reader are shown together.
\<close>

section \<open>Placement\<close>

lemma matching_rule_unfold:
  "matching_rule facts =
    (if qf_request_state facts \<in> {Closed, Merged} then Some RuleTerminal
     else if qf_viewer_is_maintainer facts \<and> atom_matches AtomWaitingOrSettled facts then Some RuleWaiting
     else if qf_viewer_is_maintainer facts \<and> atom_matches AtomSnoozedAfterNow facts then Some RuleSnoozed
     else if qf_viewer_is_maintainer facts \<and> claimed_by (\<noteq>) facts then Some RuleClaimedElsewhere
     else if qf_viewer_is_maintainer facts \<and> atom_matches AtomAttentionIsActive facts then Some RuleActiveAttention
     else if qf_viewer_is_maintainer facts \<and> atom_matches AtomSnoozedAtOrBeforeNow facts then Some RuleSnoozeExpired
     else if qf_viewer_is_maintainer facts \<and> claimed_by (=) facts then Some RuleClaimed
     else if atom_matches AtomViewerIsAuthor facts then Some RuleAuthored
     else if qf_viewer_is_invitee facts then Some RuleInvited
     else if \<not> qf_viewer_is_maintainer facts \<and> qf_request_state facts = Open then Some RuleOpen
     else Some RuleUnclaimed)"
  by (simp add: matching_rule_def REQUEST_QUEUE_RULES_def del: atom_matches.simps
      add: atom_matches.simps(1-3,5,10-13))

lemma opt_any_simps [simp]: "opt_any None P = False" "opt_any (Some v) P = P v"
  by (simp_all add: opt_any_def)

lemma classified: "\<exists>c. classify_request_queue_item facts = Some c"
proof (cases "qf_attention facts")
  case None
  then show ?thesis
    by (cases "qf_request_state facts")
      (auto simp: classify_request_queue_item_def matching_rule_unfold classify_by_def active_reason_def Let_def)
next
  case (Some attention)
  then show ?thesis
    by (cases "qf_request_state facts")
      (auto simp: classify_request_queue_item_def matching_rule_unfold classify_by_def active_reason_def Let_def)
qed

text \<open>The facts the queue shows and the input of an action on the same item by its viewer.\<close>

definition same_item :: "request_queue_facts \<Rightarrow> apply_attention_input \<Rightarrow> bool" where
  "same_item facts input \<longleftrightarrow>
     qf_request_state facts = request_state_of (aai_request input)
     \<and> qf_viewer_user_id facts = Some (aai_actor_user_id input)
     \<and> qf_viewer_is_maintainer facts = aai_actor_is_maintainer input
     \<and> qf_attention facts = aai_existing_attention input \<and> qf_claim facts = aai_existing_claim input
     \<and> qf_now_unix facts = aai_now_unix input
     \<and> aai_expected_activity_version input = rq_activity_version (aai_request input)"

definition accepts :: "apply_attention_input \<Rightarrow> attention_action \<Rightarrow> bool" where
  "accepts input action \<longleftrightarrow> is_ok (apply_request_attention_action (input\<lparr>aai_action := action\<rparr>))"

lemma accepts_iff:
  assumes "aai_expected_activity_version input = rq_activity_version (aai_request input)"
  shows "accepts input action \<longleftrightarrow> aai_actor_is_maintainer input \<and> request_state_of (aai_request input) = Open
    \<and> (case action of
         ActClaim \<Rightarrow> \<not> opt_any (aai_existing_claim input) (\<lambda>claim. cl_claimer_user_id claim \<noteq> aai_actor_user_id input)
       | ActSnooze until \<Rightarrow> aai_now_unix input < until
       | ActRestore \<Rightarrow> opt_any (aai_existing_attention input) (\<lambda>attention. set_aside attention (aai_now_unix input))
       | ActRelease \<Rightarrow> opt_any (aai_existing_claim input) (\<lambda>claim. cl_claimer_user_id claim = aai_actor_user_id input)
       | ActAcknowledge \<Rightarrow> \<not> opt_any (aai_existing_attention input) (\<lambda>attention. \<not> snooze_ended attention (aai_now_unix input))
       | _ \<Rightarrow> True)"
  using assms
  by (cases action) (auto simp: accepts_def apply_request_attention_action_def is_ok_def and_then_def chosen_attention_def)

lemmas placing = classify_request_queue_item_def matching_rule_unfold classify_by_def active_reason_def Let_def

lemma claimed_by_cases:
  assumes "qf_viewer_user_id facts = Some user_id"
  shows "claimed_by (=) facts \<longleftrightarrow> opt_any (qf_claim facts) (\<lambda>claim. cl_claimer_user_id claim = user_id)"
    and "claimed_by (\<noteq>) facts \<longleftrightarrow> opt_any (qf_claim facts) (\<lambda>claim. cl_claimer_user_id claim \<noteq> user_id)"
  using assms by (auto simp: claimed_by_def opt_any_def split: option.split)

lemma rule_of_item:
  assumes "qf_viewer_is_maintainer facts" and "qf_request_state facts = Open"
  shows "matching_rule facts \<in> {Some RuleWaiting, Some RuleSnoozed} \<longleftrightarrow>
      opt_any (qf_attention facts) (\<lambda>attention. set_aside attention (qf_now_unix facts))"
    and "matching_rule facts \<noteq> Some RuleTerminal" and "matching_rule facts \<noteq> Some RuleOpen"
    and "matching_rule facts = Some RuleUnclaimed \<Longrightarrow> \<not> claimed_by (=) facts \<and> \<not> claimed_by (\<noteq>) facts"
    and "matching_rule facts = Some RuleClaimedElsewhere \<Longrightarrow> claimed_by (\<noteq>) facts"
  using assms by (auto simp: matching_rule_unfold opt_any_def set_aside_def split: option.split_asm if_split_asm)

lemma offers_of_item:
  assumes m: "qf_viewer_is_maintainer facts" "qf_request_state facts = Open" and viewer: "qf_viewer_user_id facts = Some user_id"
    and c: "classify_request_queue_item facts = Some c"
  shows "(qc_can_restore c \<longleftrightarrow> opt_any (qf_attention facts) (\<lambda>attention. set_aside attention (qf_now_unix facts)))
    \<and> (qc_can_release c \<longleftrightarrow> claimed_by (=) facts) \<and> (qc_can_claim c \<longrightarrow> qf_claim facts = None)"
proof -
  obtain rule where rule: "matching_rule facts = Some rule" "classify_by rule facts = Some c"
    using c by (auto simp: classify_request_queue_item_def bind_eq_Some_conv)
  note r = rule_of_item [OF m, unfolded rule(1)]
  have other: "\<not> claimed_by (=) facts" if "claimed_by (\<noteq>) facts"
    using that claimed_by_cases [OF viewer] by (cases "qf_claim facts") auto
  have free: "qf_claim facts = None" if "\<not> claimed_by (=) facts" "\<not> claimed_by (\<noteq>) facts"
    using that claimed_by_cases [OF viewer] by (cases "qf_claim facts") auto
  show ?thesis using rule(2) r m other free by (cases rule) (auto simp: classify_by_def Let_def)
qed

text \<open>
  The queue places every request, and offers to a viewer exactly what the code then accepts: restoring and releasing
  are offered exactly when they succeed on the item as shown, and claiming, waiting, settling and snoozing succeed when
  they are offered. A request that was never submitted is not shown with attention, so drafts are left out.
\<close>
theorem queue_offers_accepted:
  assumes "same_item facts input" and "qf_request_state facts \<noteq> Draft"
  shows "\<exists>c. classify_request_queue_item facts = Some c
    \<and> (qc_can_restore c \<longleftrightarrow> accepts input ActRestore) \<and> (qc_can_release c \<longleftrightarrow> accepts input ActRelease)
    \<and> (qc_can_claim c \<longrightarrow> accepts input ActClaim)
    \<and> (qc_can_set_aside c \<longrightarrow> accepts input ActWait \<and> accepts input ActSettle
         \<and> (\<forall>until > aai_now_unix input. accepts input (ActSnooze until)))"
proof (cases "qf_request_state facts = Open \<and> qf_viewer_is_maintainer facts")
  case False
  then have no: "\<not> accepts input action" for action
    using assms(1) accepts_iff [of input action] by (auto simp: same_item_def)
  obtain c where c: "classify_request_queue_item facts = Some c" using classified by blast
  have "\<not> qc_can_restore c \<and> \<not> qc_can_release c \<and> \<not> qc_can_claim c \<and> \<not> qc_can_set_aside c"
  proof (cases "qf_request_state facts")
    case Open
    then have "\<not> qf_viewer_is_maintainer facts" using False by simp
    then show ?thesis using c Open by (auto simp: placing split: if_split_asm)
  qed (use assms(2) c in \<open>auto simp: placing split: if_split_asm\<close>)
  with c no show ?thesis by blast
next
  case True
  have item: "qf_viewer_user_id facts = Some (aai_actor_user_id input)" "qf_attention facts = aai_existing_attention input"
    "qf_claim facts = aai_existing_claim input" "qf_now_unix facts = aai_now_unix input"
    "aai_actor_is_maintainer input" "request_state_of (aai_request input) = Open"
    and expected: "aai_expected_activity_version input = rq_activity_version (aai_request input)"
    using assms(1) True by (auto simp: same_item_def)
  note act = accepts_iff [OF expected]
  obtain c where c: "classify_request_queue_item facts = Some c" using classified by blast
  note offers = offers_of_item [OF conjunct2 [OF True] conjunct1 [OF True] item(1) c]
  show ?thesis using c offers by (auto simp: act item claimed_by_cases [OF item(1)])
qed

text \<open>An open request of another author, set aside by a maintainer until a later time.\<close>

definition snoozed_attention :: request_attention where
  "snoozed_attention = \<lparr>at_request_id = ''r'', at_user_id = ''o'', at_state = AttentionSnoozed, at_reason = ReasonSnoozed,
     at_through_activity_version = 2, at_snoozed_until_unix = Some 100, at_updated_at_unix = 12, at_revision = 1\<rparr>"

definition snoozed_input :: apply_attention_input where
  "snoozed_input = \<lparr>aai_request = demo_open, aai_actor_user_id = ''o'', aai_actor_is_maintainer = True,
     aai_expected_activity_version = 2, aai_existing_attention = Some snoozed_attention, aai_existing_claim = None,
     aai_action = ActRestore, aai_now_unix = 20\<rparr>"

definition snoozed_facts :: request_queue_facts where
  "snoozed_facts = \<lparr>qf_request_state = Open, qf_request_activity_version = 2, qf_request_author_user_id = Some ''u'',
     qf_viewer_user_id = Some ''o'', qf_viewer_is_maintainer = True, qf_viewer_is_invitee = False,
     qf_attention = Some snoozed_attention, qf_claim = None, qf_now_unix = 20\<rparr>"

lemma snoozed_item: "same_item snoozed_facts snoozed_input"
  by (simp add: same_item_def snoozed_facts_def snoozed_input_def demo_defs state_defs)

theorem queue_offers_accepted_witness:
  "\<exists>c. classify_request_queue_item snoozed_facts = Some c \<and> qc_can_restore c \<and> accepts snoozed_input ActRestore"
proof -
  obtain c where c: "classify_request_queue_item snoozed_facts = Some c" "qc_can_restore c \<longleftrightarrow> accepts snoozed_input ActRestore"
    using queue_offers_accepted [OF snoozed_item] by (auto simp: snoozed_facts_def)
  moreover have "qc_can_restore c"
    using c(1) by (simp add: placing snoozed_facts_def snoozed_attention_def until_after_def) auto
  ultimately show ?thesis by blast
qed

section \<open>Where an action leads\<close>

definition after_action :: "request_queue_facts \<Rightarrow> attention_mutation \<Rightarrow> u64 \<Rightarrow> request_queue_facts" where
  "after_action facts m now_unix = facts\<lparr>qf_attention := atm_attention m, qf_claim := atm_claim m, qf_now_unix := now_unix\<rparr>"

definition placed_at :: "request_queue_facts \<Rightarrow> queue_section \<Rightarrow> attention_reason \<Rightarrow> bool" where
  "placed_at facts placed reason \<longleftrightarrow>
     (\<exists>c. classify_request_queue_item facts = Some c \<and> qc_section c = placed \<and> qc_reason c = reason)"

lemma applied:
  assumes "apply_request_attention_action input = Ok m"
  shows "aai_actor_is_maintainer input \<and> request_state_of (aai_request input) = Open
    \<and> (aai_action input = ActRelease \<longrightarrow> m = \<lparr>atm_attention = None, atm_claim = None\<rparr>)
    \<and> (aai_action input = ActAcknowledge \<longrightarrow> m = \<lparr>atm_attention = None, atm_claim = aai_existing_claim input\<rparr>)
    \<and> (aai_action input \<notin> {ActRelease, ActAcknowledge} \<longrightarrow>
         (\<exists>chosen. chosen_attention input = Ok chosen
            \<and> m = \<lparr>atm_attention = Some (new_attention input chosen), atm_claim = chosen_claim input\<rparr>))"
  using assms by (auto simp: apply_request_attention_action_def and_then_Ok_iff split: if_split_asm)

text \<open>
  An accepted action moves the request in the viewer's queue as it says, from that moment on and whatever else the
  viewer is to the request. Claiming makes it active and claimed; waiting and settling set it aside; snoozing sets it
  aside exactly until the chosen time, when it comes back. Restoring makes it active again, and releasing leaves no
  claim; only a claim by somebody else keeps a restored or returning request set aside.
\<close>
theorem queue_action_places:
  assumes "same_item facts input" and "apply_request_attention_action input = Ok m"
  shows "case aai_action input of
      ActClaim \<Rightarrow> placed_at (after_action facts m now) SectionActive ReasonClaimed
    | ActWait \<Rightarrow> placed_at (after_action facts m now) SectionSetAside ReasonWaiting
    | ActSettle \<Rightarrow> placed_at (after_action facts m now) SectionSetAside ReasonSettled
    | ActSnooze until \<Rightarrow>
        if now < until then placed_at (after_action facts m now) SectionSetAside ReasonSnoozed
        else if claimed_by (\<noteq>) facts then placed_at (after_action facts m now) SectionSetAside ReasonClaimedElsewhere
        else placed_at (after_action facts m now) SectionActive ReasonSnoozeExpired
    | ActRestore \<Rightarrow>
        if claimed_by (\<noteq>) facts then placed_at (after_action facts m now) SectionSetAside ReasonClaimedElsewhere
        else placed_at (after_action facts m now) SectionActive ReasonRestored
    | ActRelease \<Rightarrow> atm_claim m = None \<and> \<not> placed_at (after_action facts m now) SectionActive ReasonClaimed
    | ActAcknowledge \<Rightarrow> atm_attention m = None \<and> atm_claim m = qf_claim facts"
proof -
  note a = applied [OF assms(2)]
  have item: "qf_request_state facts = Open" "qf_viewer_is_maintainer facts"
    "qf_viewer_user_id facts = Some (aai_actor_user_id input)" "qf_claim facts = aai_existing_claim input"
    using assms(1) a by (auto simp: same_item_def)
  have claim: "claimed_by same (after_action facts m now) \<longleftrightarrow> claimed_by same facts" if "atm_claim m = qf_claim facts" for same
    using that by (simp add: claimed_by_def after_action_def split: option.split)
  show ?thesis
  proof (cases "aai_action input")
    case ActClaim
    then have "atm_claim m = chosen_claim input" "\<not> opt_any (aai_existing_claim input) (\<lambda>claim. cl_claimer_user_id claim \<noteq> aai_actor_user_id input)"
      "atm_attention m = Some (new_attention input (AttentionActive, ReasonClaimed, None))"
      using a by (auto simp: chosen_attention_def split: if_split_asm)
    moreover from this have "\<not> claimed_by (\<noteq>) (after_action facts m now)"
      using ActClaim item by (auto simp: claimed_by_def after_action_def chosen_claim_def split: option.split)
    ultimately show ?thesis
      using ActClaim item by (simp add: placed_at_def placing after_action_def new_attention_def)
  next
    case (ActSnooze until)
    then have m: "atm_claim m = qf_claim facts" "atm_attention m = Some (new_attention input (AttentionSnoozed, ReasonSnoozed, Some until))"
      using a item by (auto simp: chosen_attention_def chosen_claim_def split: if_split_asm)
    show ?thesis
      using ActSnooze m item claim [OF m(1)]
      by (auto simp: placed_at_def placing after_action_def new_attention_def until_after_def until_at_or_before_def)
  next
    case ActRestore
    then have m: "atm_claim m = qf_claim facts" "atm_attention m = Some (new_attention input (AttentionActive, ReasonRestored, None))"
      using a item by (auto simp: chosen_attention_def chosen_claim_def split: if_split_asm)
    show ?thesis
      using ActRestore m item claim [OF m(1)]
      by (auto simp: placed_at_def placing after_action_def new_attention_def)
  next
    case ActRelease
    then have "atm_claim m = None" "atm_attention m = None" using a by auto
    moreover from this have "\<not> claimed_by (=) (after_action facts m now)"
      by (simp add: claimed_by_def after_action_def split: option.split)
    ultimately show ?thesis using ActRelease item
      by (auto simp: placed_at_def placing after_action_def split: if_split_asm)
  qed (use a item in \<open>auto simp: placed_at_def placing after_action_def new_attention_def chosen_attention_def\<close>)
qed

theorem queue_action_places_witness:
  "\<exists>m. apply_request_attention_action snoozed_input = Ok m
     \<and> placed_at (after_action snoozed_facts m 20) SectionActive ReasonRestored"
proof -
  obtain m where m: "apply_request_attention_action snoozed_input = Ok m"
    by (simp add: apply_request_attention_action_def snoozed_input_def snoozed_attention_def demo_defs state_defs set_aside_def
        until_after_def chosen_attention_def)
  have "aai_action snoozed_input = ActRestore" "\<not> claimed_by (\<noteq>) snoozed_facts"
    by (simp_all add: snoozed_input_def snoozed_facts_def claimed_by_def)
  then show ?thesis using queue_action_places [OF snoozed_item m, of 20] m by auto
qed

text \<open>Activity of somebody else brings a request that was set aside back, once for each new version.\<close>

lemma reactivated_place:
  assumes "reactivate_request_attention attention actor version now = Some attention'"
    and "qf_request_state facts = Open" and "qf_viewer_is_maintainer facts" and "\<not> claimed_by (\<noteq>) facts"
  shows "placed_at (facts\<lparr>qf_attention := Some attention'\<rparr>) SectionActive ReasonNewActivity
    \<and> reactivate_request_attention attention' actor version now = None"
proof -
  have "claimed_by (\<noteq>) (facts\<lparr>qf_attention := Some attention'\<rparr>) \<longleftrightarrow> claimed_by (\<noteq>) facts"
    by (simp add: claimed_by_def split: option.split)
  then show ?thesis
    using assms by (auto simp: reactivate_request_attention_def placed_at_def placing split: if_split_asm)
qed

text \<open>The queue tells the author to merge exactly when the merge gate lets them.\<close>

lemma next_step_merge_iff:
  "request_queue_next_step subject viewer views checks reviews repository_lifecycle reason = StepMerge \<longleftrightarrow>
     vw_user_id viewer \<noteq> None \<and> ms_author_user_id subject = vw_user_id viewer
     \<and> mg_status (evaluate_request_readiness repository_lifecycle subject checks reviews) = MReady
     \<and> mg_status (evaluate_request_merge repository_lifecycle subject viewer views checks reviews) = MReady"
  by (auto simp: request_queue_next_step_def next_step_for_def author_step_def Let_def)

lemma queue_visibility:
  "predicate_matches (request_queue_visibility_predicate access viewer_user_id views) r viewer_is_invitee \<longleftrightarrow>
     predicate_matches (request_list_predicate_for access viewer_user_id views) r viewer_is_invitee
     \<and> (is_submitted r \<or> (\<exists>user_id. viewer_user_id = Some user_id \<and> (is_author r user_id \<or> viewer_is_invitee)))"
  by (auto simp: request_queue_visibility_predicate_def split: option.split_asm)

section \<open>Stacks\<close>

text \<open>
  C24: Grouping the queue by stacks always returns, and its result is the specification: a request that waits is raised to
  the requests that need their reader exactly when it is connected, by parents in either direction and through requests
  that may not be listed, to a listed request that does; every other request keeps its group. The union-find of the
  code, with its paths halved on every lookup, thus computes the connected stacks.
\<close>
theorem queue_stacks_connected:
  "request_queue_stack_groups members =
     Some (map (\<lambda>m. if qm_group m = GroupWaiting
                      \<and> (\<exists>other. other \<in> set members \<and> qm_group other = GroupNeedsYou
                           \<and> (qm_request_id m, qm_request_id other) \<in> linked (stack_links members))
                    then GroupNeedsYou else qm_group m) members)"
  by (rule stack_groups_correct [unfolded stack_needs_you_def])

end
