(* ===== verification/Cache_Domain.thy ===== *)
theory Cache_Domain
  imports Scope_Ints
begin

text \<open>
  The cache of workflow artifacts: the crate \<^verbatim>\<open>src/crates/scope-cache-domain\<close>. An exact identity of a repository refers to
  one stored object; uploads are granted as leases within the byte budget of the repository, a reference is refreshed by
  access and removed after a week without one. Sizes and times are 64-bit words, and sums that overflow are errors.
\<close>

section \<open>Errors and policy\<close>

datatype cache_domain_error =
  MissingRepositoryId | InvalidDigest | MissingUploadLeaseId | EmptyObject
| ObjectTooLarge (actual_bytes: u64) (object_maximum_bytes: u64)
| RepositoryBudgetExceeded (requested_bytes: u64) (repository_maximum_bytes: u64)
| TimestampOverflow | ByteCountOverflow | ReferenceScopeMismatch | InvalidReferenceExpiry | ReferenceAccessBeforeLastUpdate
| InvalidUploadLeaseExpiry | UploadLeaseMismatch | UploadLeaseExpired | StaleUploadLease

definition GIB :: u64 where "GIB = 1024 * 1024 * 1024"
definition MAX_CACHE_OBJECT_BYTES :: u64 where "MAX_CACHE_OBJECT_BYTES = GIB"
definition MAX_REPOSITORY_CACHE_BYTES :: u64 where "MAX_REPOSITORY_CACHE_BYTES = 5 * GIB"
definition CACHE_REFERENCE_TTL_SECONDS :: u64 where "CACHE_REFERENCE_TTL_SECONDS = 7 * 24 * 60 * 60"
definition UPLOAD_LEASE_SECONDS :: u64 where "UPLOAD_LEASE_SECONDS = 30 * 60"
definition DELETION_GRACE_SECONDS :: u64 where "DELETION_GRACE_SECONDS = 60 * 60"

lemmas cache_consts = GIB_def MAX_CACHE_OBJECT_BYTES_def MAX_REPOSITORY_CACHE_BYTES_def CACHE_REFERENCE_TTL_SECONDS_def
  UPLOAD_LEASE_SECONDS_def DELETION_GRACE_SECONDS_def

definition ok_or :: "'e \<Rightarrow> 'a option \<Rightarrow> ('e, 'a) result" where
  "ok_or e x = (case x of Some v \<Rightarrow> Ok v | None \<Rightarrow> Err e)"

definition validate_object_size :: "u64 \<Rightarrow> (cache_domain_error, unit) result" where
  "validate_object_size size_bytes =
     (if size_bytes = 0 then Err EmptyObject
      else if size_bytes > MAX_CACHE_OBJECT_BYTES then Err (ObjectTooLarge size_bytes MAX_CACHE_OBJECT_BYTES)
      else Ok ())"

definition validate_repository_growth :: "u64 \<Rightarrow> u64 \<Rightarrow> (cache_domain_error, unit) result" where
  "validate_repository_growth stored_bytes additional_bytes =
     and_then (ok_or ByteCountOverflow (checked_add stored_bytes additional_bytes)) (\<lambda>requested.
     if requested > MAX_REPOSITORY_CACHE_BYTES then Err (RepositoryBudgetExceeded requested MAX_REPOSITORY_CACHE_BYTES)
     else Ok ())"

definition reference_expiry :: "u64 \<Rightarrow> (cache_domain_error, u64) result" where
  "reference_expiry now_unix = ok_or TimestampOverflow (checked_add now_unix CACHE_REFERENCE_TTL_SECONDS)"

definition upload_expiry :: "u64 \<Rightarrow> (cache_domain_error, u64) result" where
  "upload_expiry now_unix = ok_or TimestampOverflow (checked_add now_unix UPLOAD_LEASE_SECONDS)"

definition deletion_eligible_at :: "u64 \<Rightarrow> (cache_domain_error, u64) result" where
  "deletion_eligible_at now_unix = ok_or TimestampOverflow (checked_add now_unix DELETION_GRACE_SECONDS)"

section \<open>Identifiers, objects, references and leases\<close>

datatype cache_repository_id = CacheRepositoryId (cache_repository_str: string)
datatype cache_digest = CacheDigest (cache_digest_str: string)
datatype upload_lease_id = UploadLeaseId (upload_lease_str: string)

definition CacheRepositoryId_parse :: "string \<Rightarrow> (cache_domain_error, cache_repository_id) result" where
  "CacheRepositoryId_parse val = (if trim val = [] then Err MissingRepositoryId else Ok (CacheRepositoryId val))"

definition CacheDigest_parse :: "string \<Rightarrow> (cache_domain_error, cache_digest) result" where
  "CacheDigest_parse val =
     (if length val \<noteq> 64 \<or> \<not> list_all (\<lambda>byte. is_ascii_digit byte \<or> (CHR ''a'' \<le> byte \<and> byte \<le> CHR ''f'')) val
      then Err InvalidDigest else Ok (CacheDigest val))"

definition UploadLeaseId_parse :: "string \<Rightarrow> (cache_domain_error, upload_lease_id) result" where
  "UploadLeaseId_parse val = (if trim val = [] then Err MissingUploadLeaseId else Ok (UploadLeaseId val))"

record cache_object =
  co_repository_id :: cache_repository_id
  co_digest :: cache_digest
  co_size_bytes :: u64
  co_created_at_unix :: u64

definition CacheObject_new ::
  "cache_repository_id \<Rightarrow> cache_digest \<Rightarrow> u64 \<Rightarrow> u64 \<Rightarrow> (cache_domain_error, cache_object) result" where
  "CacheObject_new repository digest size_bytes created_at_unix =
     and_then (validate_object_size size_bytes) (\<lambda>_.
       Ok \<lparr>co_repository_id = repository, co_digest = digest, co_size_bytes = size_bytes,
           co_created_at_unix = created_at_unix\<rparr>)"

record cache_reference =
  cr_repository_id :: cache_repository_id
  cr_identity_digest :: cache_digest
  cr_compatibility_group_digest :: cache_digest
  cr_object_digest :: cache_digest
  cr_updated_at_unix :: u64
  cr_expires_at_unix :: u64

definition CacheReference_point_to ::
  "cache_digest \<Rightarrow> cache_digest \<Rightarrow> cache_object \<Rightarrow> u64 \<Rightarrow> (cache_domain_error, cache_reference) result" where
  "CacheReference_point_to identity grp object now_unix =
     and_then (reference_expiry now_unix) (\<lambda>expires.
       Ok \<lparr>cr_repository_id = co_repository_id object, cr_identity_digest = identity, cr_compatibility_group_digest = grp,
           cr_object_digest = co_digest object, cr_updated_at_unix = now_unix, cr_expires_at_unix = expires\<rparr>)"

definition CacheReference_accessed_at :: "cache_reference \<Rightarrow> u64 \<Rightarrow> (cache_domain_error, cache_reference) result" where
  "CacheReference_accessed_at reference now_unix =
     (if now_unix < cr_updated_at_unix reference then Err ReferenceAccessBeforeLastUpdate
      else and_then (reference_expiry now_unix) (\<lambda>expires.
        Ok (reference\<lparr>cr_updated_at_unix := now_unix, cr_expires_at_unix := expires\<rparr>)))"

definition CacheReference_restore ::
  "cache_repository_id \<Rightarrow> cache_digest \<Rightarrow> cache_digest \<Rightarrow> cache_digest \<Rightarrow> u64 \<Rightarrow> u64
   \<Rightarrow> (cache_domain_error, cache_reference) result" where
  "CacheReference_restore repository identity grp object updated_at_unix expires_at_unix =
     and_then (reference_expiry updated_at_unix) (\<lambda>expires.
     if expires \<noteq> expires_at_unix then Err InvalidReferenceExpiry
     else Ok \<lparr>cr_repository_id = repository, cr_identity_digest = identity, cr_compatibility_group_digest = grp,
              cr_object_digest = object, cr_updated_at_unix = updated_at_unix, cr_expires_at_unix = expires_at_unix\<rparr>)"

definition reference_is_expired_at :: "cache_reference \<Rightarrow> u64 \<Rightarrow> bool" where
  "reference_is_expired_at reference now_unix \<longleftrightarrow> now_unix \<ge> cr_expires_at_unix reference"

record upload_lease =
  ul_id :: upload_lease_id
  ul_repository_id :: cache_repository_id
  ul_identity_digest :: cache_digest
  ul_compatibility_group_digest :: cache_digest
  ul_object_digest :: cache_digest
  ul_size_bytes :: u64
  ul_issued_at_unix :: u64
  ul_expires_at_unix :: u64

definition UploadLease_issue ::
  "upload_lease_id \<Rightarrow> cache_digest \<Rightarrow> cache_digest \<Rightarrow> cache_object \<Rightarrow> u64 \<Rightarrow> (cache_domain_error, upload_lease) result" where
  "UploadLease_issue lease_id identity grp object now_unix =
     and_then (upload_expiry now_unix) (\<lambda>expires.
       Ok \<lparr>ul_id = lease_id, ul_repository_id = co_repository_id object, ul_identity_digest = identity,
           ul_compatibility_group_digest = grp, ul_object_digest = co_digest object, ul_size_bytes = co_size_bytes object,
           ul_issued_at_unix = now_unix, ul_expires_at_unix = expires\<rparr>)"

definition UploadLease_restore ::
  "upload_lease_id \<Rightarrow> cache_repository_id \<Rightarrow> cache_digest \<Rightarrow> cache_digest \<Rightarrow> cache_digest \<Rightarrow> u64 \<Rightarrow> u64 \<Rightarrow> u64
   \<Rightarrow> (cache_domain_error, upload_lease) result" where
  "UploadLease_restore lease_id repository identity grp object size_bytes issued_at_unix expires_at_unix =
     and_then (validate_object_size size_bytes) (\<lambda>_.
     and_then (upload_expiry issued_at_unix) (\<lambda>expires.
     if expires \<noteq> expires_at_unix then Err InvalidUploadLeaseExpiry
     else Ok \<lparr>ul_id = lease_id, ul_repository_id = repository, ul_identity_digest = identity,
              ul_compatibility_group_digest = grp, ul_object_digest = object, ul_size_bytes = size_bytes,
              ul_issued_at_unix = issued_at_unix, ul_expires_at_unix = expires_at_unix\<rparr>))"

definition lease_is_expired_at :: "upload_lease \<Rightarrow> u64 \<Rightarrow> bool" where
  "lease_is_expired_at lease now_unix \<longleftrightarrow> now_unix \<ge> ul_expires_at_unix lease"

record deletion_candidate =
  dc_repository_id :: cache_repository_id
  dc_object_digest :: cache_digest
  dc_eligible_after_unix :: u64

definition after_reference_removal :: "cache_reference \<Rightarrow> u64 \<Rightarrow> (cache_domain_error, deletion_candidate) result" where
  "after_reference_removal reference now_unix =
     and_then (deletion_eligible_at now_unix) (\<lambda>eligible.
       Ok \<lparr>dc_repository_id = cr_repository_id reference, dc_object_digest = cr_object_digest reference,
           dc_eligible_after_unix = eligible\<rparr>)"

section \<open>Decisions\<close>

datatype prepare_upload_decision = UseObject cache_reference | GrantUpload upload_lease

record prepare_upload_request =
  pu_identity_digest :: cache_digest
  pu_compatibility_group_digest :: cache_digest
  pu_object :: cache_object
  pu_object_already_stored :: bool
  pu_current_reference :: "cache_reference option"
  pu_repository_storage_bytes :: u64
  pu_lease_id :: upload_lease_id
  pu_now_unix :: u64

definition outside_scope :: "cache_repository_id \<Rightarrow> cache_digest \<Rightarrow> cache_digest \<Rightarrow> cache_reference \<Rightarrow> bool" where
  "outside_scope repository identity grp reference \<longleftrightarrow>
     cr_repository_id reference \<noteq> repository \<or> cr_identity_digest reference \<noteq> identity
     \<or> cr_compatibility_group_digest reference \<noteq> grp"

definition validate_reference_scope ::
  "cache_reference option \<Rightarrow> cache_object \<Rightarrow> cache_digest \<Rightarrow> cache_digest \<Rightarrow> (cache_domain_error, unit) result" where
  "validate_reference_scope reference object identity grp =
     (case reference of
        Some r \<Rightarrow> if outside_scope (co_repository_id object) identity grp r then Err ReferenceScopeMismatch else Ok ()
      | None \<Rightarrow> Ok ())"

definition prepare_upload :: "prepare_upload_request \<Rightarrow> (cache_domain_error, prepare_upload_decision) result" where
  "prepare_upload request =
     and_then (validate_reference_scope (pu_current_reference request) (pu_object request) (pu_identity_digest request)
       (pu_compatibility_group_digest request)) (\<lambda>_.
     case pu_current_reference request of
       Some reference \<Rightarrow> Ok (UseObject reference)
     | None \<Rightarrow>
         if pu_object_already_stored request then
           and_then (CacheReference_point_to (pu_identity_digest request) (pu_compatibility_group_digest request)
             (pu_object request) (pu_now_unix request)) (\<lambda>reference. Ok (UseObject reference))
         else
           and_then (validate_repository_growth (pu_repository_storage_bytes request) (co_size_bytes (pu_object request))) (\<lambda>_.
           and_then (UploadLease_issue (pu_lease_id request) (pu_identity_digest request)
             (pu_compatibility_group_digest request) (pu_object request) (pu_now_unix request)) (\<lambda>lease.
             Ok (GrantUpload lease))))"

definition access_reference :: "cache_reference \<Rightarrow> u64 \<Rightarrow> (cache_domain_error, cache_reference) result" where
  "access_reference reference now_unix = CacheReference_accessed_at reference now_unix"

datatype commit_upload_decision = Committed cache_reference | AlreadyCommitted cache_reference

definition same_publication :: "upload_lease \<Rightarrow> cache_object \<Rightarrow> cache_reference \<Rightarrow> bool" where
  "same_publication lease uploaded_object reference \<longleftrightarrow>
     cr_object_digest reference = co_digest uploaded_object
     \<and> cr_identity_digest reference = ul_identity_digest lease
     \<and> cr_compatibility_group_digest reference = ul_compatibility_group_digest lease"

definition commit_upload ::
  "upload_lease \<Rightarrow> cache_object \<Rightarrow> cache_reference option \<Rightarrow> u64 \<Rightarrow> (cache_domain_error, commit_upload_decision) result" where
  "commit_upload lease uploaded_object current_reference now_unix =
     and_then (validate_reference_scope current_reference uploaded_object (ul_identity_digest lease)
       (ul_compatibility_group_digest lease)) (\<lambda>_.
     if ul_repository_id lease \<noteq> co_repository_id uploaded_object \<or> ul_object_digest lease \<noteq> co_digest uploaded_object
        \<or> ul_size_bytes lease \<noteq> co_size_bytes uploaded_object then Err UploadLeaseMismatch
     else case current_reference of
       Some reference \<Rightarrow>
         if same_publication lease uploaded_object reference then Ok (AlreadyCommitted reference) else Err StaleUploadLease
     | None \<Rightarrow>
         if lease_is_expired_at lease now_unix then Err UploadLeaseExpired
         else and_then (CacheReference_point_to (ul_identity_digest lease) (ul_compatibility_group_digest lease)
           uploaded_object now_unix) (\<lambda>reference. Ok (Committed reference)))"

datatype eviction_decision = Retain | RemoveReference deletion_candidate

definition decide_reference_eviction ::
  "cache_reference \<Rightarrow> u64 \<Rightarrow> u64 \<Rightarrow> (cache_domain_error, eviction_decision) result" where
  "decide_reference_eviction reference repository_storage_bytes now_unix =
     (if reference_is_expired_at reference now_unix \<or> repository_storage_bytes > MAX_REPOSITORY_CACHE_BYTES then
        and_then (after_reference_removal reference now_unix) (\<lambda>deletion. Ok (RemoveReference deletion))
      else Ok Retain)"

end
