(* ===== verification/Cache_Properties.thy ===== *)
theory Cache_Properties
  imports Cache_Domain Lifecycles
begin

text \<open>
  One exact identity of a repository's cache under every decision of the crate: its reference, the leases granted for
  it, and what holds whatever the order of preparing, committing, accessing and evicting.
\<close>

section \<open>The machine\<close>

record cache_slot =
  sl_reference :: "cache_reference option"
  sl_leases :: "upload_lease list"

text \<open>The caller stores the reference a decision returns, keeps the leases it grants, and commits only what it granted.\<close>

inductive cache_step :: "cache_repository_id \<Rightarrow> cache_digest \<Rightarrow> cache_digest \<Rightarrow> cache_slot \<Rightarrow> cache_slot \<Rightarrow> bool"
  for repository identity grp where
  reuse: "CacheObject_new repository digest size_bytes created = Ok object
    \<Longrightarrow> prepare_upload \<lparr>pu_identity_digest = identity, pu_compatibility_group_digest = grp, pu_object = object,
          pu_object_already_stored = stored, pu_current_reference = sl_reference s, pu_repository_storage_bytes = bytes,
          pu_lease_id = lease_id, pu_now_unix = now\<rparr> = Ok (UseObject reference)
    \<Longrightarrow> cache_step repository identity grp s (s\<lparr>sl_reference := Some reference\<rparr>)"
| grant: "CacheObject_new repository digest size_bytes created = Ok object
    \<Longrightarrow> prepare_upload \<lparr>pu_identity_digest = identity, pu_compatibility_group_digest = grp, pu_object = object,
          pu_object_already_stored = stored, pu_current_reference = sl_reference s, pu_repository_storage_bytes = bytes,
          pu_lease_id = lease_id, pu_now_unix = now\<rparr> = Ok (GrantUpload lease)
    \<Longrightarrow> cache_step repository identity grp s (s\<lparr>sl_leases := lease # sl_leases s\<rparr>)"
| commit: "lease \<in> set (sl_leases s) \<Longrightarrow> commit_upload lease uploaded (sl_reference s) now = Ok (Committed reference)
    \<Longrightarrow> cache_step repository identity grp s (s\<lparr>sl_reference := Some reference\<rparr>)"
| committed: "lease \<in> set (sl_leases s) \<Longrightarrow> commit_upload lease uploaded (sl_reference s) now = Ok (AlreadyCommitted reference)
    \<Longrightarrow> cache_step repository identity grp s s"
| access: "sl_reference s = Some reference \<Longrightarrow> access_reference reference now = Ok reference'
    \<Longrightarrow> cache_step repository identity grp s (s\<lparr>sl_reference := Some reference'\<rparr>)"
| evict: "sl_reference s = Some reference \<Longrightarrow> decide_reference_eviction reference bytes now = Ok (RemoveReference deletion)
    \<Longrightarrow> cache_step repository identity grp s (s\<lparr>sl_reference := None\<rparr>)"

definition reference_ok :: "cache_repository_id \<Rightarrow> cache_digest \<Rightarrow> cache_digest \<Rightarrow> cache_reference \<Rightarrow> bool" where
  "reference_ok repository identity grp reference \<longleftrightarrow>
     \<not> outside_scope repository identity grp reference
     \<and> CacheReference_restore (cr_repository_id reference) (cr_identity_digest reference)
         (cr_compatibility_group_digest reference) (cr_object_digest reference) (cr_updated_at_unix reference)
         (cr_expires_at_unix reference) = Ok reference"

definition lease_ok :: "cache_repository_id \<Rightarrow> cache_digest \<Rightarrow> cache_digest \<Rightarrow> upload_lease \<Rightarrow> bool" where
  "lease_ok repository identity grp lease \<longleftrightarrow>
     ul_repository_id lease = repository \<and> ul_identity_digest lease = identity \<and> ul_compatibility_group_digest lease = grp
     \<and> UploadLease_restore (ul_id lease) (ul_repository_id lease) (ul_identity_digest lease)
         (ul_compatibility_group_digest lease) (ul_object_digest lease) (ul_size_bytes lease) (ul_issued_at_unix lease)
         (ul_expires_at_unix lease) = Ok lease"

definition slot_ok :: "cache_repository_id \<Rightarrow> cache_digest \<Rightarrow> cache_digest \<Rightarrow> cache_slot \<Rightarrow> bool" where
  "slot_ok repository identity grp s \<longleftrightarrow>
     (\<forall>reference. sl_reference s = Some reference \<longrightarrow> reference_ok repository identity grp reference)
     \<and> (\<forall>lease \<in> set (sl_leases s). lease_ok repository identity grp lease)"

definition published :: "cache_slot \<Rightarrow> cache_digest option" where
  "published s = map_option cr_object_digest (sl_reference s)"

text \<open>What is published changes only by being published where nothing was, or by being taken away.\<close>

fun publication_edge :: "cache_digest option \<Rightarrow> cache_digest option \<Rightarrow> bool" where
  "publication_edge None (Some _) = True"
| "publication_edge (Some _) None = True"
| "publication_edge _ _ = False"

section \<open>One decision\<close>

lemma ok_or_Ok [simp]: "ok_or e x = Ok v \<longleftrightarrow> x = Some v"
  by (auto simp: ok_or_def split: option.split)

lemma point_to_Ok:
  assumes "CacheReference_point_to identity grp object now = Ok reference"
  shows "reference_ok (co_repository_id object) identity grp reference \<and> cr_object_digest reference = co_digest object
    \<and> cr_updated_at_unix reference = now"
  using assms
  by (auto simp: CacheReference_point_to_def and_then_Ok_iff reference_ok_def outside_scope_def CacheReference_restore_def)

lemma accessed_Ok:
  assumes "access_reference reference now = Ok reference'" and "reference_ok repository identity grp reference"
  shows "reference_ok repository identity grp reference' \<and> cr_object_digest reference' = cr_object_digest reference
    \<and> cr_updated_at_unix reference \<le> cr_updated_at_unix reference'"
  using assms
  by (auto simp: access_reference_def CacheReference_accessed_at_def and_then_Ok_iff reference_ok_def outside_scope_def
      CacheReference_restore_def split: if_split_asm)

lemma prepared_Ok:
  assumes "prepare_upload request = Ok decision"
  shows "case decision of
      UseObject reference \<Rightarrow> pu_current_reference request = Some reference
        \<or> (pu_current_reference request = None \<and> CacheReference_point_to (pu_identity_digest request)
            (pu_compatibility_group_digest request) (pu_object request) (pu_now_unix request) = Ok reference)
    | GrantUpload lease \<Rightarrow> pu_current_reference request = None \<and> \<not> pu_object_already_stored request
        \<and> validate_repository_growth (pu_repository_storage_bytes request) (co_size_bytes (pu_object request)) = Ok ()
        \<and> UploadLease_issue (pu_lease_id request) (pu_identity_digest request) (pu_compatibility_group_digest request)
            (pu_object request) (pu_now_unix request) = Ok lease"
  using assms
  by (auto simp: prepare_upload_def and_then_Ok_iff split: option.split_asm if_split_asm)

lemma issued_Ok:
  assumes "CacheObject_new repository digest size_bytes created = Ok object"
    and "UploadLease_issue lease_id identity grp object now = Ok lease"
  shows "lease_ok repository identity grp lease"
  using assms
  by (auto simp: CacheObject_new_def UploadLease_issue_def and_then_Ok_iff lease_ok_def UploadLease_restore_def)

lemma committed_Ok:
  assumes "commit_upload lease uploaded current now = Ok (Committed reference)" and "lease_ok repository identity grp lease"
  shows "current = None \<and> reference_ok repository identity grp reference \<and> cr_object_digest reference = ul_object_digest lease
    \<and> now < ul_expires_at_unix lease"
  using assms point_to_Ok
  by (fastforce simp: commit_upload_def and_then_Ok_iff lease_ok_def lease_is_expired_at_def
      split: option.split_asm if_split_asm)

lemma cache_step_kept:
  assumes "cache_step repository identity grp s s'" and "slot_ok repository identity grp s"
  shows "slot_ok repository identity grp s' \<and> (published s' = published s \<or> publication_edge (published s) (published s'))"
  using assms
proof (cases rule: cache_step.cases)
  case (reuse digest size_bytes created object stored bytes lease_id now reference)
  have repo: "co_repository_id object = repository" using reuse(2) by (auto simp: CacheObject_new_def and_then_Ok_iff)
  consider "sl_reference s = Some reference" | "sl_reference s = None" "reference_ok repository identity grp reference"
    using prepared_Ok [OF reuse(3)] point_to_Ok repo by fastforce
  then show ?thesis using assms(2) reuse(1) by cases (auto simp: slot_ok_def published_def)
next
  case (grant digest size_bytes created object stored bytes lease_id now lease)
  have "lease_ok repository identity grp lease" using prepared_Ok [OF grant(3)] issued_Ok [OF grant(2)] by auto
  then show ?thesis using assms(2) grant(1) by (auto simp: slot_ok_def published_def)
next
  case (commit lease uploaded now reference)
  have "lease_ok repository identity grp lease" using assms(2) commit(2) by (simp add: slot_ok_def)
  from committed_Ok [OF commit(3) this] show ?thesis using assms(2) commit(1) by (auto simp: slot_ok_def published_def)
next
  case (access reference now reference')
  have "reference_ok repository identity grp reference" using assms(2) access(2) by (simp add: slot_ok_def)
  from accessed_Ok [OF access(3) this] show ?thesis
    using assms(2) access(1,2) by (auto simp: slot_ok_def published_def)
qed (auto simp: slot_ok_def published_def)

interpretation cs: lifecycle "cache_step repository identity grp" "slot_ok repository identity grp" published publication_edge
  for repository identity grp
  by unfold_locales (use cache_step_kept in blast)+

section \<open>Properties\<close>

definition empty_slot :: cache_slot where "empty_slot = \<lparr>sl_reference = None, sl_leases = []\<rparr>"

text \<open>
  C25: Whatever the order of preparing, granting, committing, accessing and evicting, starting from an identity nobody has
  published: the reference and every lease stay within their repository, identity and compatibility group, restoring
  them from their stored fields gives them back, and an object that is published is never replaced by another, it is
  only taken away.
\<close>
theorem cache_identity_immutable:
  assumes "(cache_step repository identity grp)\<^sup>*\<^sup>* empty_slot s" and "cache_step repository identity grp s s'"
  shows "slot_ok repository identity grp s \<and> slot_ok repository identity grp s'
    \<and> (\<forall>digest digest'. published s = Some digest \<longrightarrow> published s' = Some digest' \<longrightarrow> digest' = digest)"
proof -
  have "slot_ok repository identity grp empty_slot" by (simp add: slot_ok_def empty_slot_def)
  then have "slot_ok repository identity grp s" by (rule cs.ok_reachable [OF assms(1)])
  with cache_step_kept [OF assms(2)] show ?thesis by auto
qed

definition cache_repo :: cache_repository_id where "cache_repo = CacheRepositoryId ''r''"
definition digest_a :: cache_digest where "digest_a = CacheDigest (replicate 64 (CHR ''a''))"
definition digest_b :: cache_digest where "digest_b = CacheDigest (replicate 64 (CHR ''b''))"

definition stored_object :: cache_object where
  "stored_object = \<lparr>co_repository_id = cache_repo, co_digest = digest_a, co_size_bytes = 100, co_created_at_unix = 1\<rparr>"

definition cache_lease :: upload_lease where
  "cache_lease = \<lparr>ul_id = UploadLeaseId ''l'', ul_repository_id = cache_repo, ul_identity_digest = digest_b,
     ul_compatibility_group_digest = digest_b, ul_object_digest = digest_a, ul_size_bytes = 100, ul_issued_at_unix = 10,
     ul_expires_at_unix = 1810\<rparr>"

definition cache_ref :: cache_reference where
  "cache_ref = \<lparr>cr_repository_id = cache_repo, cr_identity_digest = digest_b, cr_compatibility_group_digest = digest_b,
     cr_object_digest = digest_a, cr_updated_at_unix = 20, cr_expires_at_unix = 604820\<rparr>"

lemma cache_demo_grant:
  "cache_step cache_repo digest_b digest_b empty_slot \<lparr>sl_reference = None, sl_leases = [cache_lease]\<rparr>"
proof -
  have "CacheObject_new cache_repo digest_a 100 1 = Ok stored_object"
    by (simp add: CacheObject_new_def validate_object_size_def cache_consts stored_object_def)
  moreover have "prepare_upload \<lparr>pu_identity_digest = digest_b, pu_compatibility_group_digest = digest_b, pu_object = stored_object,
      pu_object_already_stored = False, pu_current_reference = sl_reference empty_slot, pu_repository_storage_bytes = 0,
      pu_lease_id = UploadLeaseId ''l'', pu_now_unix = 10\<rparr> = Ok (GrantUpload cache_lease)"
    by (simp add: prepare_upload_def validate_reference_scope_def empty_slot_def validate_repository_growth_def stored_object_def
        UploadLease_issue_def upload_expiry_def ok_or_def checked_add_def cache_consts cache_lease_def)
  ultimately show ?thesis using cache_step.grant [where s = empty_slot] by (fastforce simp: empty_slot_def)
qed

lemma cache_demo_commit:
  "cache_step cache_repo digest_b digest_b \<lparr>sl_reference = None, sl_leases = [cache_lease]\<rparr>
     \<lparr>sl_reference = Some cache_ref, sl_leases = [cache_lease]\<rparr>"
proof -
  have "commit_upload cache_lease stored_object None 20 = Ok (Committed cache_ref)"
    by (simp add: commit_upload_def validate_reference_scope_def cache_lease_def stored_object_def lease_is_expired_at_def
        CacheReference_point_to_def reference_expiry_def ok_or_def checked_add_def cache_consts cache_ref_def)
  then show ?thesis
    using cache_step.commit [where s = "\<lparr>sl_reference = None, sl_leases = [cache_lease]\<rparr>" and lease = cache_lease] by fastforce
qed

theorem cache_identity_immutable_witness:
  "slot_ok cache_repo digest_b digest_b \<lparr>sl_reference = Some cache_ref, sl_leases = [cache_lease]\<rparr>
   \<and> published \<lparr>sl_reference = Some cache_ref, sl_leases = [cache_lease]\<rparr> = Some digest_a"
proof -
  have "(cache_step cache_repo digest_b digest_b)\<^sup>*\<^sup>* empty_slot \<lparr>sl_reference = None, sl_leases = [cache_lease]\<rparr>"
    using cache_demo_grant by blast
  from cache_identity_immutable [OF this cache_demo_commit] show ?thesis by (simp add: published_def cache_ref_def)
qed

text \<open>
  An upload is granted exactly to an object that is neither published under the identity nor stored already, that
  fits the budget of its repository without overflow of the byte count, at a time whose lease still fits the clock; the
  repository then holds at most five gibibytes, and the lease covers that object for thirty minutes.
\<close>
theorem cache_upload_budget:
  "(\<exists>lease. prepare_upload request = Ok (GrantUpload lease)) \<longleftrightarrow>
     pu_current_reference request = None \<and> \<not> pu_object_already_stored request
     \<and> unat (pu_repository_storage_bytes request) + unat (co_size_bytes (pu_object request)) \<le> 5 * 2 ^ 30
     \<and> unat (pu_now_unix request) + 1800 < 2 ^ 64"
proof -
  have growth: "validate_repository_growth stored size_bytes = Ok () \<longleftrightarrow> unat stored + unat size_bytes \<le> 5 * 2 ^ 30" for stored size_bytes
  proof (cases "checked_add stored size_bytes")
    case None
    then have "2 ^ 64 \<le> unat stored + unat size_bytes" by (simp add: checked_add_None_iff)
    then show ?thesis using None by (simp add: validate_repository_growth_def ok_or_def)
  next
    case (Some requested)
    then have "unat requested = unat stored + unat size_bytes" by (simp add: checked_add_Some_iff)
    then show ?thesis using Some
      by (simp add: validate_repository_growth_def ok_or_def cache_consts word_less_nat_alt not_less)
  qed
  have issue: "(\<exists>lease. UploadLease_issue lease_id identity grp object now = Ok lease) \<longleftrightarrow> unat now + 1800 < 2 ^ 64"
    for lease_id identity grp object now
  proof (cases "checked_add now UPLOAD_LEASE_SECONDS")
    case None
    then have "2 ^ 64 \<le> unat now + 1800" by (simp add: checked_add_None_iff cache_consts)
    then show ?thesis using None by (simp add: UploadLease_issue_def upload_expiry_def ok_or_def)
  next
    case (Some expires)
    then have "unat expires = unat now + 1800" by (simp add: checked_add_Some_iff cache_consts)
    then show ?thesis using Some unat_less_pow [of expires] by (simp add: UploadLease_issue_def upload_expiry_def ok_or_def)
  qed
  show ?thesis
    using growth [of "pu_repository_storage_bytes request" "co_size_bytes (pu_object request)"]
      issue [of "pu_lease_id request" "pu_identity_digest request" "pu_compatibility_group_digest request" "pu_object request"
        "pu_now_unix request"]
    by (cases "pu_current_reference request")
      (auto simp: prepare_upload_def validate_reference_scope_def and_then_Ok_iff)
qed

end
