(* ===== verification/Line_Diff.thy ===== *)
theory Line_Diff
  imports Request_Model
begin

text \<open>
  Where the lines of a discussion are in a newer version of the file: \<^verbatim>\<open>requests/discussion_anchor.rs\<close> and
  \<^verbatim>\<open>requests/discussion_anchor/line_diff.rs\<close>. Lines between the common prefix and suffix are matched by the greedy
  difference algorithm of Myers, with at most 256 edits; the array of furthest positions is a list indexed by
  diagonal plus offset, as in the code, and signed numbers are \<open>int\<close>.
\<close>

section \<open>Anchors\<close>

datatype request_diff_side = SideOld | SideNew

record request_line_range =
  lr_start_line :: u32
  lr_end_line :: u32

definition RequestLineRange_new :: "u32 \<Rightarrow> u32 \<Rightarrow> (domain_error, request_line_range) result" where
  "RequestLineRange_new start_line end_line =
     (if start_line = 0 then Err (invalid_input ''discussion line numbers start at 1'')
      else if start_line > end_line then Err (invalid_input ''discussion start line must not be after its end line'')
      else Ok \<lparr>lr_start_line = start_line, lr_end_line = end_line\<rparr>)"

definition shifted_to :: "request_line_range \<Rightarrow> nat \<Rightarrow> request_line_range option" where
  "shifted_to r start_index =
     (if start_index + 1 < 2 ^ 32 then
        (let start_line = of_nat (start_index + 1) in
         map_option (\<lambda>end_line. \<lparr>lr_start_line = start_line, lr_end_line = end_line\<rparr>)
           (checked_add start_line (lr_end_line r - lr_start_line r)))
      else None)"

record request_discussion_lines =
  dl_side :: request_diff_side
  dl_range :: request_line_range

record request_discussion_anchor =
  da_revision_id :: string
  da_commit_oid :: "string option"
  da_path :: "scope_path option"
  da_lines :: "request_discussion_lines option"

datatype request_line_target = TargetMissing | TargetBinary | TargetText string

datatype request_line_position = MappedTo request_line_range | Outdated

text \<open>\<^verbatim>\<open>split_inclusive\<close>: each piece keeps its line feed, and nothing follows the last one.\<close>

fun split_inclusive :: "char \<Rightarrow> string \<Rightarrow> string list" where
  "split_inclusive sep [] = []"
| "split_inclusive sep (c # cs) =
     (if c = sep then [c] # split_inclusive sep cs
      else (case split_inclusive sep cs of [] \<Rightarrow> [[c]] | line # ls \<Rightarrow> (c # line) # ls))"

definition text_lines :: "string \<Rightarrow> string list" where
  "text_lines s = split_inclusive (CHR 0x0A) s"

definition ensure_target :: "request_discussion_lines \<Rightarrow> request_line_target \<Rightarrow> (domain_error, unit) result" where
  "ensure_target l target =
     (case target of
        TargetMissing \<Rightarrow> Err (invalid_input ''discussion file does not exist on the selected side'')
      | TargetBinary \<Rightarrow> Err (invalid_input ''discussion lines require a text file'')
      | TargetText s \<Rightarrow>
          if unat (lr_end_line (dl_range l)) \<le> length (text_lines s) then Ok ()
          else Err (invalid_input ''discussion lines are outside the file''))"

definition validate_anchor :: "request_discussion_anchor \<Rightarrow> (domain_error, unit) result" where
  "validate_anchor anchor =
     and_then (validate_required ''revision id'' (da_revision_id anchor)) (\<lambda>_.
     and_then (case da_commit_oid anchor of Some oid \<Rightarrow> validate_required ''commit oid'' oid | None \<Rightarrow> Ok ()) (\<lambda>_.
     if da_lines anchor \<noteq> None \<and> da_path anchor = None
     then Err (invalid_input ''discussion line anchor requires a path'') else Ok ()))"

section \<open>Matching lines\<close>

definition MAX_EDIT_DISTANCE :: nat where "MAX_EDIT_DISTANCE = 256"
definition MAX_DIFFED_LINES :: nat where "MAX_DIFFED_LINES = 20000"

function snake :: "'a list \<Rightarrow> 'a list \<Rightarrow> int \<Rightarrow> int \<Rightarrow> int" where
  "snake old new x y =
     (if x < int (length old) \<and> y < int (length new) \<and> old ! nat x = new ! nat y then snake old new (x + 1) (y + 1) else x)"
  by pat_completeness auto
termination by (relation "measure (\<lambda>(old, new, x, y). nat (int (length old) - x))") auto

declare snake.simps [simp del]

text \<open>Where the walk on a diagonal starts: one step down or right from the furthest of its neighbours.\<close>

definition walk_start :: "(int \<Rightarrow> int) \<Rightarrow> int \<Rightarrow> int \<Rightarrow> int" where
  "walk_start at depth diagonal =
     (if diagonal = - depth \<or> (diagonal \<noteq> depth \<and> at (diagonal - 1) < at (diagonal + 1))
      then at (diagonal + 1) else at (diagonal - 1) + 1)"

definition furthest_at :: "int list \<Rightarrow> int \<Rightarrow> int \<Rightarrow> int" where
  "furthest_at furthest offset diagonal = furthest ! nat (diagonal + offset)"

text \<open>One depth over its diagonals: \<open>None\<close> once both files are used up, the updated array otherwise.\<close>

fun scan_diagonals :: "'a list \<Rightarrow> 'a list \<Rightarrow> int \<Rightarrow> int \<Rightarrow> int list \<Rightarrow> int list \<Rightarrow> int list option" where
  "scan_diagonals old new offset depth [] furthest = Some furthest"
| "scan_diagonals old new offset depth (diagonal # ds) furthest =
     (let x0 = walk_start (furthest_at furthest offset) depth diagonal;
          x = snake old new x0 (x0 - diagonal);
          furthest' = furthest[nat (diagonal + offset) := x]
      in if int (length old) \<le> x \<and> int (length new) \<le> x - diagonal then None
         else scan_diagonals old new offset depth ds furthest')"

definition diagonals :: "int \<Rightarrow> int list" where
  "diagonals depth = map (\<lambda>i. 2 * int i - depth) [0..<nat depth + 1]"

record frontier =
  fr_depth :: int
  fr_values :: "int list"

definition Frontier_capture :: "int list \<Rightarrow> int \<Rightarrow> int \<Rightarrow> frontier" where
  "Frontier_capture furthest offset depth =
     (let low = nat (offset - depth - 1); high = nat (offset + depth + 1)
      in \<lparr>fr_depth = depth, fr_values = take (high + 1 - low) (drop low furthest)\<rparr>)"

definition frontier_at :: "frontier \<Rightarrow> int \<Rightarrow> int" where
  "frontier_at f diagonal = fr_values f ! nat (diagonal + fr_depth f + 1)"

function unwind :: "int \<Rightarrow> int \<Rightarrow> int \<Rightarrow> int \<Rightarrow> (nat \<times> nat) list" where
  "unwind previous_x previous_y x y =
     (if previous_x < x \<and> previous_y < y then (nat (x - 1), nat (y - 1)) # unwind previous_x previous_y (x - 1) (y - 1) else [])"
  by pat_completeness auto
termination by (relation "measure (\<lambda>(px, py, x, y). nat (x - px))") auto

declare unwind.simps [simp del]

text \<open>The pairs in the order in which they are pushed, from the last frontier to the first.\<close>

fun backtrack_from :: "frontier list \<Rightarrow> int \<Rightarrow> int \<Rightarrow> (nat \<times> nat) list" where
  "backtrack_from [] x y = []"
| "backtrack_from (f # fs) x y =
     (let depth = fr_depth f;
          diagonal = x - y;
          previous_diagonal =
            (if diagonal = - depth \<or> (diagonal \<noteq> depth \<and> frontier_at f (diagonal - 1) < frontier_at f (diagonal + 1))
             then diagonal + 1 else diagonal - 1);
          previous_x = frontier_at f previous_diagonal;
          previous_y = previous_x - previous_diagonal
      in unwind previous_x previous_y x y @
         (if 0 < depth then backtrack_from fs previous_x previous_y
          else (let k = length (unwind previous_x previous_y x y) in backtrack_from fs (x - int k) (y - int k))))"

definition backtrack :: "frontier list \<Rightarrow> int \<Rightarrow> int \<Rightarrow> (nat \<times> nat) list" where
  "backtrack trace n m = rev (backtrack_from (rev trace) n m)"

function search_depths ::
  "'a list \<Rightarrow> 'a list \<Rightarrow> int \<Rightarrow> int \<Rightarrow> int \<Rightarrow> int list \<Rightarrow> frontier list \<Rightarrow> (nat \<times> nat) list option" where
  "search_depths old new offset max_depth depth furthest trace =
     (if max_depth < depth then None
      else let trace' = trace @ [Frontier_capture furthest offset depth]
        in case scan_diagonals old new offset depth (diagonals depth) furthest of
             None \<Rightarrow> Some (backtrack trace' (int (length old)) (int (length new)))
           | Some furthest' \<Rightarrow> search_depths old new offset max_depth (depth + 1) furthest' trace')"
  by pat_completeness auto
termination by (relation "measure (\<lambda>(old, new, offset, max_depth, depth, f, t). nat (max_depth + 1 - depth))") auto

declare search_depths.simps [simp del]

definition matching_pairs :: "'a list \<Rightarrow> 'a list \<Rightarrow> (nat \<times> nat) list option" where
  "matching_pairs old new =
     (let max_depth = int (min (length old + length new) MAX_EDIT_DISTANCE);
          offset = max_depth + 1
      in search_depths old new offset max_depth 0 (replicate (nat (2 * offset + 1)) 0) [])"

definition common_prefix :: "'a list \<Rightarrow> 'a list \<Rightarrow> nat" where
  "common_prefix xs ys = length (takeWhile (\<lambda>(a, b). a = b) (zip xs ys))"

definition recorded_matches :: "nat \<Rightarrow> (nat \<times> nat) list \<Rightarrow> nat option list" where
  "recorded_matches len pairs = fold (\<lambda>(i, j) ms. ms[i := Some j]) pairs (replicate len None)"

definition matched_new_index :: "'a list \<Rightarrow> 'a list \<Rightarrow> nat \<Rightarrow> nat \<Rightarrow> nat option" where
  "matched_new_index old new range_start range_end =
     (let before = common_prefix old new;
          after = common_prefix (rev (drop before old)) (rev (drop before new));
          old_suffix_start = length old - after;
          new_suffix_start = length new - after
      in if range_end \<le> before then Some range_start
         else if old_suffix_start \<le> range_start then Some (range_start - old_suffix_start + new_suffix_start)
         else let old_middle = take (old_suffix_start - before) (drop before old);
                  new_middle = take (new_suffix_start - before) (drop before new)
           in if MAX_DIFFED_LINES < length old_middle + length new_middle then None
              else Option.bind (matching_pairs old_middle new_middle) (\<lambda>pairs.
                let matches = recorded_matches (length old)
                      (map (\<lambda>i. (i, i)) [0..<before]
                       @ map (\<lambda>i. (old_suffix_start + i, new_suffix_start + i)) [0..<after]
                       @ map (\<lambda>(i, j). (before + i, before + j)) pairs)
                in Option.bind (matches ! range_start) (\<lambda>start.
                     if list_all (\<lambda>index. matches ! index = Some (start + index - range_start)) [range_start..<range_end]
                     then Some start else None)))"

definition carry_forward_line_range ::
  "request_line_range \<Rightarrow> string \<Rightarrow> string option \<Rightarrow> request_line_position" where
  "carry_forward_line_range r original newer =
     (case newer of
        None \<Rightarrow> Outdated
      | Some newer_text \<Rightarrow>
          if original = newer_text then MappedTo r
          else let old = text_lines original;
                   new = text_lines newer_text;
                   range_start = unat (lr_start_line r) - 1;
                   range_end = unat (lr_end_line r)
            in if length old < range_end then Outdated
               else (case Option.bind (matched_new_index old new range_start range_end) (shifted_to r) of
                   Some mapped \<Rightarrow> MappedTo mapped
                 | None \<Rightarrow> Outdated))"

end
