(* ===== verification/Diff_Properties.thy ===== *)
theory Diff_Properties
  imports Line_Diff
begin

text \<open>
  Why the matched lines match: the furthest positions as a function of depth and diagonal, the invariants of the
  greedy walk, that the search stops exactly at the ends of both files, and that unwinding it from there yields only
  equal lines.

  What the line matcher promises to discussions: a line range that is carried forward to a newer version of the file
  still holds the same lines, however the file was edited around it.
\<close>

section \<open>Furthest positions\<close>

fun reach :: "'a list \<Rightarrow> 'a list \<Rightarrow> nat \<Rightarrow> int \<Rightarrow> int" where
  "reach old new 0 k = 0"
| "reach old new (Suc d) k =
     (if \<bar>k\<bar> \<le> int d \<and> even (k - int d)
      then (let x0 = walk_start (reach old new d) (int d) k in snake old new x0 (x0 - k))
      else reach old new d k)"

definition active :: "nat \<Rightarrow> int \<Rightarrow> bool" where
  "active d k \<longleftrightarrow> \<bar>k\<bar> \<le> int d \<and> even (k - int d)"

definition start_of :: "'a list \<Rightarrow> 'a list \<Rightarrow> nat \<Rightarrow> int \<Rightarrow> int" where
  "start_of old new d k = walk_start (reach old new d) (int d) k"

lemma reach_active: "active d k \<Longrightarrow> reach old new (Suc d) k = snake old new (start_of old new d k) (start_of old new d k - k)"
  by (simp add: active_def start_of_def Let_def)

lemma snake_walk:
  "0 \<le> x \<Longrightarrow> 0 \<le> y \<Longrightarrow> x \<le> snake old new x y
    \<and> (\<forall>t. x \<le> t \<longrightarrow> t < snake old new x y \<longrightarrow>
         t < int (length old) \<and> t - x + y < int (length new) \<and> old ! nat t = new ! nat (t - x + y))"
proof (induction old new x y rule: snake.induct)
  case (1 old new x y)
  show ?case
  proof (cases "x < int (length old) \<and> y < int (length new) \<and> old ! nat x = new ! nat y")
    case True
    have IH: "x + 1 \<le> snake old new (x + 1) (y + 1)"
      "x + 1 \<le> t \<Longrightarrow> t < snake old new (x + 1) (y + 1) \<Longrightarrow>
        t < int (length old) \<and> t - (x + 1) + (y + 1) < int (length new) \<and> old ! nat t = new ! nat (t - (x + 1) + (y + 1))" for t
      using 1 True by auto
    have eq: "snake old new x y = snake old new (x + 1) (y + 1)" using True by (subst snake.simps) simp
    have "t < int (length old) \<and> t - x + y < int (length new) \<and> old ! nat t = new ! nat (t - x + y)"
      if "x \<le> t" "t < snake old new (x + 1) (y + 1)" for t
      using IH(2) [of t] that True by (cases "t = x") (auto simp: algebra_simps)
    with IH(1) eq show ?thesis by auto
  next
    case False
    then have "snake old new x y = x" by (subst snake.simps) auto
    then show ?thesis by simp
  qed
qed

text \<open>Where a diagonal starts from its neighbours, and that it starts as far as either of them allows.\<close>

lemma start_zero: "start_of old new 0 0 = 0"
  by (simp add: start_of_def walk_start_def)

lemma start_cases:
  assumes "active (Suc d) k"
  obtains (down) "active d (k + 1)" "start_of old new (Suc d) k = reach old new (Suc d) (k + 1)"
  | (right) "active d (k - 1)" "start_of old new (Suc d) k = reach old new (Suc d) (k - 1) + 1"
proof -
  have ends: "k \<noteq> int (Suc d) \<Longrightarrow> active d (k + 1)" "k \<noteq> - int (Suc d) \<Longrightarrow> active d (k - 1)"
    using assms by (auto simp: active_def) presburger+
  let ?down = "k = - int (Suc d) \<or> (k \<noteq> int (Suc d) \<and> reach old new (Suc d) (k - 1) < reach old new (Suc d) (k + 1))"
  show ?thesis
  proof (cases ?down)
    case True
    then have "k \<noteq> int (Suc d)" by auto
    with True that(1) ends(1) show ?thesis unfolding start_of_def walk_start_def by presburger
  next
    case False
    with that(2) ends(2) show ?thesis unfolding start_of_def walk_start_def by presburger
  qed
qed

lemma start_max:
  assumes "active (Suc d) k"
  shows "active d (k + 1) \<Longrightarrow> reach old new (Suc d) (k + 1) \<le> start_of old new (Suc d) k"
    and "active d (k - 1) \<Longrightarrow> reach old new (Suc d) (k - 1) + 1 \<le> start_of old new (Suc d) k"
proof -
  have out: "k = - int (Suc d) \<Longrightarrow> \<not> active d (k - 1)" "k = int (Suc d) \<Longrightarrow> \<not> active d (k + 1)" by (auto simp: active_def)
  show "active d (k + 1) \<Longrightarrow> reach old new (Suc d) (k + 1) \<le> start_of old new (Suc d) k"
    using out by (auto simp: start_of_def walk_start_def simp del: reach.simps)
  show "active d (k - 1) \<Longrightarrow> reach old new (Suc d) (k - 1) + 1 \<le> start_of old new (Suc d) k"
    using out by (auto simp: start_of_def walk_start_def simp del: reach.simps)
qed

lemma reach_bounds:
  "active d k \<Longrightarrow> 0 \<le> start_of old new d k \<and> k \<le> start_of old new d k \<and> start_of old new d k \<le> reach old new (Suc d) k"
proof (induction d arbitrary: k)
  case 0
  then have k: "k = 0" by (simp add: active_def)
  show ?case using 0 snake_walk [of 0 0 old new] by (simp add: k start_zero reach_active del: reach.simps)
next
  case (Suc d)
  from Suc.prems have "0 \<le> start_of old new (Suc d) k \<and> k \<le> start_of old new (Suc d) k"
  proof (cases rule: start_cases [where old = old and new = new])
    case down
    then show ?thesis using Suc.IH [OF down(1)] by linarith
  next
    case right
    then show ?thesis using Suc.IH [OF right(1)] by linarith
  qed
  then show ?case
    using snake_walk [of "start_of old new (Suc d) k" "start_of old new (Suc d) k - k" old new]
    by (simp add: reach_active [OF Suc.prems] del: reach.simps)
qed

lemma reach_matches:
  assumes "active d k" and "start_of old new d k \<le> t" and "t < reach old new (Suc d) k"
  shows "t < int (length old) \<and> t - k < int (length new) \<and> old ! nat t = new ! nat (t - k)"
  using snake_walk [of "start_of old new d k" "start_of old new d k - k" old new] reach_bounds [OF assms(1), of old new] assms
  by (auto simp: reach_active [OF assms(1)] simp del: reach.simps)

section \<open>Stopping at the end\<close>

definition finished :: "'a list \<Rightarrow> 'a list \<Rightarrow> nat \<Rightarrow> int \<Rightarrow> bool" where
  "finished old new d k \<longleftrightarrow> active d k \<and> int (length old) \<le> reach old new (Suc d) k
     \<and> int (length new) \<le> reach old new (Suc d) k - k"

text \<open>A walk that left the grid did not gain: one depth earlier the neighbour on its way was just as far.\<close>

lemma beyond_no_snake:
  assumes "active d k" and "int (length new) < reach old new (Suc d) k - k \<or> int (length old) < reach old new (Suc d) k"
  shows "reach old new (Suc d) k = start_of old new d k"
proof (rule ccontr)
  assume "reach old new (Suc d) k \<noteq> start_of old new d k"
  then have "start_of old new d k \<le> reach old new (Suc d) k - 1" using reach_bounds [OF assms(1), of old new] by linarith
  then show False using reach_matches [OF assms(1), of old new "reach old new (Suc d) k - 1"] assms(2) by linarith
qed

lemma beyond_new:
  "active d k \<Longrightarrow> int (length new) < reach old new (Suc d) k - k \<Longrightarrow>
    \<exists>e. d = Suc e \<and> active e (k + 1) \<and> reach old new (Suc d) k \<le> reach old new (Suc e) (k + 1)"
proof (induction d arbitrary: k)
  case 0
  then have "k = 0" by (simp add: active_def)
  then show ?case using beyond_no_snake [OF 0(1), of new old] 0(2) by (auto simp: start_zero simp del: reach.simps)
next
  case (Suc e)
  have x: "reach old new (Suc (Suc e)) k = start_of old new (Suc e) k" using beyond_no_snake [OF Suc.prems(1)] Suc.prems(2) by blast
  from Suc.prems(1) show ?case
  proof (cases rule: start_cases [where old = old and new = new])
    case down
    then show ?thesis using x by simp
  next
    case right
    have "int (length new) < reach old new (Suc e) (k - 1) - (k - 1)" using x right(2) Suc.prems(2) by simp
    then obtain e' where e': "e = Suc e'" "active e' k" "reach old new (Suc e) (k - 1) \<le> reach old new (Suc e') k"
      using Suc.IH [OF right(1)] by auto
    have up: "active e (k + 1)" using e' by (auto simp: active_def)
    have "reach old new (Suc e') k + 1 \<le> start_of old new e (k + 1)" using start_max(2) [of e' "k + 1" old new] up e' by simp
    also have "\<dots> \<le> reach old new (Suc e) (k + 1)" using reach_bounds [OF up] by blast
    finally show ?thesis using e'(3) x right(2) up by simp
  qed
qed

lemma beyond_old:
  "active d k \<Longrightarrow> int (length old) < reach old new (Suc d) k \<Longrightarrow>
    \<exists>e. d = Suc e \<and> active e (k - 1) \<and> reach old new (Suc d) k \<le> reach old new (Suc e) (k - 1) + 1"
proof (induction d arbitrary: k)
  case 0
  then have "k = 0" by (simp add: active_def)
  then show ?case using beyond_no_snake [OF 0(1), of new old] 0(2) by (auto simp: start_zero simp del: reach.simps)
next
  case (Suc e)
  have x: "reach old new (Suc (Suc e)) k = start_of old new (Suc e) k" using beyond_no_snake [OF Suc.prems(1)] Suc.prems(2) by blast
  from Suc.prems(1) show ?case
  proof (cases rule: start_cases [where old = old and new = new])
    case right
    then show ?thesis using x by simp
  next
    case down
    have "int (length old) < reach old new (Suc e) (k + 1)" using x down(2) Suc.prems(2) by simp
    then obtain e' where e': "e = Suc e'" "active e' k" "reach old new (Suc e) (k + 1) \<le> reach old new (Suc e') k + 1"
      using Suc.IH [OF down(1)] by auto
    have behind: "active e (k - 1)" using e' by (auto simp: active_def)
    have "reach old new (Suc e') k \<le> start_of old new e (k - 1)" using start_max(1) [of e' "k - 1" old new] behind e' by simp
    also have "\<dots> \<le> reach old new (Suc e) (k - 1)" using reach_bounds [OF behind] by blast
    finally show ?thesis using e'(3) x down(2) behind by simp
  qed
qed

lemma finished_exact:
  assumes "finished old new d k" and "\<And>e k'. e < d \<Longrightarrow> \<not> finished old new e k'"
  shows "reach old new (Suc d) k = int (length old) \<and> k = int (length old) - int (length new)"
proof -
  have act: "active d k" using assms(1) by (simp add: finished_def)
  have "\<not> int (length new) < reach old new (Suc d) k - k"
  proof
    assume "int (length new) < reach old new (Suc d) k - k"
    then obtain e where e: "d = Suc e" "active e (k + 1)" "reach old new (Suc d) k \<le> reach old new (Suc e) (k + 1)"
      using beyond_new [OF act] by blast
    then have "finished old new e (k + 1)" using assms(1) \<open>int (length new) < _\<close> unfolding finished_def by linarith
    with assms(2) e(1) show False by blast
  qed
  moreover have "\<not> int (length old) < reach old new (Suc d) k"
  proof
    assume "int (length old) < reach old new (Suc d) k"
    then obtain e where e: "d = Suc e" "active e (k - 1)" "reach old new (Suc d) k \<le> reach old new (Suc e) (k - 1) + 1"
      using beyond_old [OF act] by blast
    then have "finished old new e (k - 1)" using assms(1) \<open>int (length old) < _\<close> unfolding finished_def by linarith
    with assms(2) e(1) show False by blast
  qed
  ultimately show ?thesis using assms(1) unfolding finished_def by linarith
qed

section \<open>Unwinding\<close>

definition equal_lines :: "'a list \<Rightarrow> 'a list \<Rightarrow> nat \<times> nat \<Rightarrow> bool" where
  "equal_lines old new = (\<lambda>(i, j). i < length old \<and> j < length new \<and> old ! i = new ! j)"

definition frame_ok :: "'a list \<Rightarrow> 'a list \<Rightarrow> nat \<Rightarrow> frontier \<Rightarrow> bool" where
  "frame_ok old new d f \<longleftrightarrow> fr_depth f = int d \<and> (\<forall>k. \<bar>k\<bar> \<le> int d + 1 \<longrightarrow> frontier_at f k = reach old new d k)"

lemma unwound:
  "(i, j) \<in> set (unwind px py x y) \<Longrightarrow> \<exists>t. px \<le> t \<and> t < x \<and> py \<le> t - x + y \<and> i = nat t \<and> j = nat (t - x + y)"
proof (induction px py x y rule: unwind.induct)
  case (1 px py x y)
  then have step: "px < x \<and> py < y" by (subst (asm) (2) unwind.simps) (auto split: if_split_asm)
  show ?case
  proof (cases "(i, j) = (nat (x - 1), nat (y - 1))")
    case True
    then show ?thesis using step by (intro exI [of _ "x - 1"]) auto
  next
    case False
    then have "(i, j) \<in> set (unwind px py (x - 1) (y - 1))" using 1(2) step by (subst (asm) unwind.simps) auto
    then obtain t where "px \<le> t" "t < x - 1" "py \<le> t - (x - 1) + (y - 1)" "i = nat t" "j = nat (t - (x - 1) + (y - 1))"
      using 1(1) step by blast
    then show ?thesis by (intro exI [of _ t]) (auto simp: algebra_simps)
  qed
qed

text \<open>The step the unwinding takes back is the one the walk took.\<close>

definition previous_of :: "'a list \<Rightarrow> 'a list \<Rightarrow> nat \<Rightarrow> int \<Rightarrow> int" where
  "previous_of old new d k =
     (if k = - int d \<or> (k \<noteq> int d \<and> reach old new d (k - 1) < reach old new d (k + 1)) then k + 1 else k - 1)"

lemma previous_start:
  assumes "active d k"
  shows "start_of old new d k = max (reach old new d (previous_of old new d k))
      (reach old new d (previous_of old new d k) - previous_of old new d k + k)"
  by (auto simp: start_of_def walk_start_def previous_of_def)

lemma backtrack_step:
  assumes "frame_ok old new d f" and "active d (x - y)"
  shows "backtrack_from (f # fs) x y =
    (let k = previous_of old new d (x - y); px = reach old new d k; us = unwind px (px - k) x y
     in us @ (if 0 < d then backtrack_from fs px (px - k) else backtrack_from fs (x - int (length us)) (y - int (length us))))"
proof -
  have at: "frontier_at f (x - y - 1) = reach old new d (x - y - 1)" "frontier_at f (x - y + 1) = reach old new d (x - y + 1)"
    "fr_depth f = int d"
    using assms by (auto simp: frame_ok_def active_def)
  define k where "k = previous_of old new d (x - y)"
  have "frontier_at f k = reach old new d k" using at(1,2) by (auto simp: k_def previous_of_def)
  then show ?thesis
    using at unfolding backtrack_from.simps Let_def previous_of_def k_def by (auto simp: algebra_simps)
qed

lemma unwound_equal:
  assumes act: "active d (x - y)" and x: "reach old new (Suc d) (x - y) = x" and k: "k = previous_of old new d (x - y)"
    and ij: "(i, j) \<in> set (unwind (reach old new d k) (reach old new d k - k) x y)"
  shows "equal_lines old new (i, j)"
proof -
  obtain t where t: "reach old new d k \<le> t" "t < x" "reach old new d k - k \<le> t - x + y" "i = nat t" "j = nat (t - x + y)"
    using unwound [OF ij] by blast
  have "start_of old new d (x - y) \<le> t" using previous_start [OF act, of old new] t(1,3) by (simp add: k)
  then have m: "t < int (length old)" "t - (x - y) < int (length new)" "old ! nat t = new ! nat (t - (x - y))"
    "0 \<le> t" "x - y \<le> t"
    using reach_matches [OF act, of old new t] reach_bounds [OF act, of old new] x t(2) by auto
  then show ?thesis using t(4,5) by (simp add: equal_lines_def nat_less_iff algebra_simps)
qed

lemma previous_active:
  assumes "active (Suc d) k"
  shows "active d (previous_of old new (Suc d) k)"
proof -
  have ends: "k \<noteq> int (Suc d) \<Longrightarrow> active d (k + 1)" "k \<noteq> - int (Suc d) \<Longrightarrow> active d (k - 1)"
    using assms by (auto simp: active_def) presburger+
  show ?thesis unfolding previous_of_def using ends by (cases "k = - int (Suc d)") auto
qed

lemma backtrack_sound:
  assumes "list_all2 (frame_ok old new) (rev [0..<Suc d]) fs" and "active d (x - y)" and "reach old new (Suc d) (x - y) = x"
  shows "list_all (equal_lines old new) (backtrack_from fs x y)"
  using assms
proof (induction d arbitrary: fs x y)
  case 0
  then obtain f where f: "fs = [f]" "frame_ok old new 0 f" by (auto simp: list_all2_Cons1)
  show ?case
    using backtrack_step [OF f(2) 0(2), of "[]"] unwound_equal [OF 0(2,3) refl]
    by (auto simp: f(1) Let_def list_all_iff simp del: reach.simps backtrack_from.simps(2))
next
  case (Suc d)
  then obtain f fs' where f: "fs = f # fs'" "frame_ok old new (Suc d) f" "list_all2 (frame_ok old new) (rev [0..<Suc d]) fs'"
    by (auto simp: list_all2_Cons1)
  define k where "k = previous_of old new (Suc d) (x - y)"
  define px where "px = reach old new (Suc d) k"
  have "list_all (equal_lines old new) (backtrack_from fs' px (px - k))"
    using Suc.IH [OF f(3), of px "px - k"] previous_active [OF Suc.prems(2), of old new] by (simp add: px_def k_def)
  then show ?case
    using backtrack_step [OF f(2) Suc.prems(2), of fs'] unwound_equal [OF Suc.prems(2,3) refl]
    unfolding f(1) Let_def k_def [symmetric] px_def [symmetric]
    by (auto simp: list_all_iff simp del: reach.simps backtrack_from.simps(2))
qed

section \<open>The array\<close>

definition array_ok :: "int \<Rightarrow> int list \<Rightarrow> (int \<Rightarrow> int) \<Rightarrow> bool" where
  "array_ok offset furthest g \<longleftrightarrow>
     length furthest = nat (2 * offset + 1) \<and> (\<forall>k. \<bar>k\<bar> \<le> offset \<longrightarrow> furthest_at furthest offset k = g k)"

definition partly_done :: "'a list \<Rightarrow> 'a list \<Rightarrow> nat \<Rightarrow> int set \<Rightarrow> int \<Rightarrow> int" where
  "partly_done old new d done k = (if k \<in> done then reach old new (Suc d) k else reach old new d k)"

lemma array_update:
  assumes "array_ok offset furthest g" and "\<bar>k\<bar> \<le> offset"
  shows "array_ok offset (furthest[nat (k + offset) := x]) (g(k := x))"
proof -
  have "nat (k + offset) = nat (k' + offset) \<longleftrightarrow> k' = k" if "\<bar>k'\<bar> \<le> offset" for k' using assms(2) that by auto
  moreover have "nat (k + offset) < length furthest" using assms by (simp add: array_ok_def nat_less_eq_zless)
  ultimately show ?thesis using assms by (auto simp: array_ok_def furthest_at_def nth_list_update)
qed

lemma scan_step:
  assumes arr: "array_ok offset furthest (partly_done old new d done)" and act: "active d k" and bound: "int d < offset"
    and parity: "\<And>k. k \<in> done \<Longrightarrow> active d k"
  shows "walk_start (furthest_at furthest offset) (int d) k = start_of old new d k"
proof -
  have "\<not> active d (k - 1)" "\<not> active d (k + 1)" using act by (auto simp: active_def)
  then have "furthest_at furthest offset (k - 1) = reach old new d (k - 1)" "furthest_at furthest offset (k + 1) = reach old new d (k + 1)"
    using arr act bound parity by (auto simp: array_ok_def partly_done_def active_def)
  then show ?thesis by (simp add: walk_start_def start_of_def)
qed

lemma scan_diagonals_ok:
  assumes "array_ok offset furthest (partly_done old new d done)" and "int d < offset"
    and "\<And>k. k \<in> done \<Longrightarrow> active d k" and "list_all (active d) ks"
  shows "case scan_diagonals old new offset (int d) ks furthest of
      None \<Rightarrow> \<exists>k. finished old new d k
    | Some furthest' \<Rightarrow> array_ok offset furthest' (partly_done old new d (done \<union> set ks)) \<and> list_all (\<lambda>k. \<not> finished old new d k) ks"
  using assms
proof (induction ks arbitrary: furthest "done")
  case (Cons k ks)
  have act: "active d k" using Cons.prems(4) by simp
  define x where "x = reach old new (Suc d) k"
  have walk: "snake old new (walk_start (furthest_at furthest offset) (int d) k)
      (walk_start (furthest_at furthest offset) (int d) k - k) = x"
    using scan_step [OF Cons.prems(1) act Cons.prems(2,3)] reach_active [OF act, of old new] by (simp add: x_def del: reach.simps)
  have "(partly_done old new d done)(k := x) = partly_done old new d (insert k done)"
    by (auto simp: partly_done_def x_def simp del: reach.simps)
  then have arr: "array_ok offset (furthest[nat (k + offset) := x]) (partly_done old new d (insert k done))"
    using array_update [OF Cons.prems(1), of k x] act Cons.prems(2) by (simp add: active_def)
  have fin: "finished old new d k \<longleftrightarrow> int (length old) \<le> x \<and> int (length new) \<le> x - k"
    using act by (simp add: finished_def x_def del: reach.simps)
  show ?case
  proof (cases "finished old new d k")
    case True
    then show ?thesis using walk fin by (auto simp: Let_def simp del: reach.simps)
  next
    case False
    have "case scan_diagonals old new offset (int d) ks (furthest[nat (k + offset) := x]) of
        None \<Rightarrow> \<exists>k. finished old new d k
      | Some furthest' \<Rightarrow> array_ok offset furthest' (partly_done old new d (insert k done \<union> set ks))
          \<and> list_all (\<lambda>k. \<not> finished old new d k) ks"
      using Cons.IH [OF arr Cons.prems(2)] Cons.prems(3,4) act by auto
    moreover have "scan_diagonals old new offset (int d) (k # ks) furthest =
        scan_diagonals old new offset (int d) ks (furthest[nat (k + offset) := x])"
      using fin False unfolding scan_diagonals.simps Let_def walk by auto
    ultimately show ?thesis using False by (auto split: option.splits simp del: reach.simps scan_diagonals.simps)
  qed
qed (simp add: Let_def)

lemma diagonals_active: "set (diagonals (int d)) = {k. active d k}"
proof -
  have "k \<in> (\<lambda>i. 2 * int i - int d) ` {0..<d + 1} \<longleftrightarrow> active d k" for k
  proof
    assume "active d k"
    then have parity: "even (k + int d)" and "\<bar>k\<bar> \<le> int d" by (auto simp: active_def)
    from parity obtain i where "k + int d = 2 * i" by (rule evenE)
    with \<open>\<bar>k\<bar> \<le> int d\<close> have "k + int d = 2 * i" "0 \<le> i" "i \<le> int d" by auto
    then show "k \<in> (\<lambda>i. 2 * int i - int d) ` {0..<d + 1}" by (intro image_eqI [of _ _ "nat i"]) auto
  qed (auto simp: active_def)
  then show ?thesis unfolding diagonals_def set_map set_upt nat_int by blast
qed

lemma after_depth:
  assumes "array_ok offset furthest (partly_done old new d {k. active d k})"
  shows "array_ok offset furthest (reach old new (Suc d))"
proof -
  have "partly_done old new d {k. active d k} = reach old new (Suc d)"
    by (auto simp: partly_done_def active_def fun_eq_iff)
  with assms show ?thesis by simp
qed

lemma captured:
  assumes "array_ok offset furthest (reach old new d)" and "int d < offset"
  shows "frame_ok old new d (Frontier_capture furthest offset (int d))"
proof -
  have "fr_values (Frontier_capture furthest offset (int d)) ! nat (k + int d + 1) = furthest ! nat (k + offset)"
    if k: "\<bar>k\<bar> \<le> int d + 1" for k
  proof -
    have "nat (k + int d + 1) < nat (offset + int d + 1) + 1 - nat (offset - int d - 1)" using k assms(2) by auto
    moreover have "nat (offset - int d - 1) + nat (k + int d + 1) = nat (k + offset)" using k assms(2) by auto
    moreover have "nat (offset - int d - 1) \<le> length furthest" using assms by (auto simp: array_ok_def)
    ultimately show ?thesis by (simp add: Frontier_capture_def Let_def nth_drop)
  qed
  then show ?thesis using assms by (auto simp: frame_ok_def frontier_at_def array_ok_def furthest_at_def Frontier_capture_def Let_def)
qed

lemma search_sound:
  assumes "array_ok offset furthest (reach old new d)" and "offset = max_depth + 1"
    and "list_all2 (frame_ok old new) [0..<d] trace" and "\<And>e k. e < d \<Longrightarrow> \<not> finished old new e k"
    and "search_depths old new offset max_depth (int d) furthest trace = Some pairs"
  shows "list_all (equal_lines old new) pairs"
  using assms
proof (induction "nat (max_depth + 1 - int d)" arbitrary: d furthest trace rule: less_induct)
  case less
  have depth: "int d \<le> max_depth" using less.prems(5) by (subst (asm) search_depths.simps) (auto split: if_split_asm)
  define frame where "frame = Frontier_capture furthest offset (int d)"
  have frames: "list_all2 (frame_ok old new) [0..<Suc d] (trace @ [frame])"
    using less.prems(1-3) depth captured [of offset furthest old new d] by (auto simp: frame_def intro!: list_all2_appendI)
  have "partly_done old new d {} = reach old new d" by (simp add: partly_done_def fun_eq_iff)
  then have start: "array_ok offset furthest (partly_done old new d {})" using less.prems(1) by simp
  have scan: "case scan_diagonals old new offset (int d) (diagonals (int d)) furthest of
      None \<Rightarrow> \<exists>k. finished old new d k
    | Some furthest' \<Rightarrow> array_ok offset furthest' (reach old new (Suc d)) \<and> (\<forall>k. \<not> finished old new d k)"
    using scan_diagonals_ok [OF start, of "diagonals (int d)"] less.prems(2) depth diagonals_active [of d] after_depth
    by (auto simp: list_all_iff finished_def split: option.splits simp del: reach.simps)
  show ?case
  proof (cases "scan_diagonals old new offset (int d) (diagonals (int d)) furthest")
    case None
    then obtain k where k: "finished old new d k" using scan by auto
    then have exact: "reach old new (Suc d) k = int (length old)" "k = int (length old) - int (length new)"
      using finished_exact [OF k less.prems(4)] by (auto simp del: reach.simps)
    have "pairs = backtrack (trace @ [frame]) (int (length old)) (int (length new))"
      using less.prems(5) depth None by (subst (asm) search_depths.simps) (simp add: Let_def frame_def)
    moreover have "list_all2 (frame_ok old new) (rev [0..<Suc d]) (rev (trace @ [frame]))"
      using frames by (simp only: list_all2_rev)
    ultimately show ?thesis
      using backtrack_sound [of old new d "rev (trace @ [frame])" "int (length old)" "int (length new)"] exact k
      by (simp add: backtrack_def finished_def list_all_iff del: reach.simps)
  next
    case (Some furthest')
    then have "array_ok offset furthest' (reach old new (Suc d))" "\<And>e k. e < Suc d \<Longrightarrow> \<not> finished old new e k"
      using scan less.prems(4) by (auto simp: less_Suc_eq simp del: reach.simps)
    moreover have "search_depths old new offset max_depth (int (Suc d)) furthest' (trace @ [frame]) = Some pairs"
      using less.prems(5) depth Some by (subst (asm) search_depths.simps) (simp add: Let_def frame_def add.commute)
    ultimately show ?thesis using less.hyps [of "Suc d" furthest' "trace @ [frame]"] depth less.prems(2) frames by simp
  qed
qed

lemma matching_pairs_sound:
  assumes "matching_pairs old new = Some pairs"
  shows "list_all (equal_lines old new) pairs"
proof -
  define max_depth where "max_depth = int (min (length old + length new) MAX_EDIT_DISTANCE)"
  have "array_ok (max_depth + 1) (replicate (nat (2 * (max_depth + 1) + 1)) 0) (reach old new 0)"
    by (auto simp: array_ok_def furthest_at_def max_depth_def)
  from search_sound [OF this refl, of "[]" pairs] assms show ?thesis
    by (simp add: matching_pairs_def Let_def max_depth_def)
qed

section \<open>The common ends\<close>

lemma common_prefix_facts:
  shows "common_prefix xs ys \<le> length xs" and "common_prefix xs ys \<le> length ys"
    and "i < common_prefix xs ys \<Longrightarrow> xs ! i = ys ! i"
proof -
  show len: "common_prefix xs ys \<le> length xs" "common_prefix xs ys \<le> length ys"
    using length_takeWhile_le [of "\<lambda>(a, b). a = b" "zip xs ys"] by (simp_all add: common_prefix_def)
  assume i: "i < common_prefix xs ys"
  then have "takeWhile (\<lambda>(a, b). a = b) (zip xs ys) ! i \<in> set (takeWhile (\<lambda>(a, b). a = b) (zip xs ys))"
    by (simp add: common_prefix_def)
  from set_takeWhileD [OF this] i len show "xs ! i = ys ! i" by (simp add: common_prefix_def takeWhile_nth)
qed

lemma common_suffix_facts:
  assumes "i < common_prefix (rev (drop b xs)) (rev (drop b ys))" (is "i < ?n")
  shows "xs ! (length xs - ?n + i) = ys ! (length ys - ?n + i)"
proof -
  have n: "?n \<le> length xs - b" "?n \<le> length ys - b"
    using common_prefix_facts(1,2) [of "rev (drop b xs)" "rev (drop b ys)"] by simp_all
  have "rev (drop b xs) ! (?n - 1 - i) = rev (drop b ys) ! (?n - 1 - i)"
    by (rule common_prefix_facts(3)) (use assms in simp)
  with n assms show ?thesis by (simp add: rev_nth)
qed

lemma recorded_matches_length [simp]: "length (recorded_matches len pairs) = len"
  unfolding recorded_matches_def by (induction pairs rule: rev_induct) auto

lemma recorded_matches_sound:
  assumes "i < len" and "recorded_matches len pairs ! i = Some j"
  shows "(i, j) \<in> set pairs"
  using assms(2)
proof (induction pairs rule: rev_induct)
  case Nil
  then show ?case using assms(1) by (simp add: recorded_matches_def)
next
  case (snoc p pairs)
  obtain a b where p: "p = (a, b)" by fastforce
  have "recorded_matches len (pairs @ [p]) = (recorded_matches len pairs)[a := Some b]" by (simp add: recorded_matches_def p)
  then show ?case using snoc assms(1) by (cases "a = i") (auto simp: p)
qed

section \<open>A matched range\<close>

definition same_run :: "'a list \<Rightarrow> 'a list \<Rightarrow> nat \<Rightarrow> nat \<Rightarrow> nat \<Rightarrow> bool" where
  "same_run old new a s n \<longleftrightarrow> (\<forall>i<n. s + i < length new \<and> old ! (a + i) = new ! (s + i))"

lemma same_run_bound: "same_run old new a s n \<Longrightarrow> 0 < n \<Longrightarrow> s + n \<le> length new"
  unfolding same_run_def by (drule spec [of _ "n - 1"]) auto

lemma same_run_lines: "same_run old new a s n \<Longrightarrow> a + n \<le> length old \<Longrightarrow> 0 < n \<Longrightarrow> take n (drop a old) = take n (drop s new)"
proof (rule nth_equalityI)
  assume run: "same_run old new a s n" and n: "a + n \<le> length old" "0 < n"
  show "length (take n (drop a old)) = length (take n (drop s new))" using n same_run_bound [OF run] by simp
  fix i assume "i < length (take n (drop a old))"
  then show "take n (drop a old) ! i = take n (drop s new) ! i" using run n same_run_bound [OF run n(2)] by (simp add: same_run_def)
qed

lemma same_run_suffix:
  assumes "length old - n \<le> a" and "a + c \<le> length old"
    and "n \<le> length old" and "n \<le> length new" and "\<And>i. i < n \<Longrightarrow> old ! (length old - n + i) = new ! (length new - n + i)"
  shows "same_run old new a (a - (length old - n) + (length new - n)) c"
  unfolding same_run_def
proof (intro allI impI)
  fix i assume i: "i < c"
  have "a + i = length old - n + (a - (length old - n) + i)" using assms(1) by simp
  moreover have "old ! (length old - n + (a - (length old - n) + i)) = new ! (length new - n + (a - (length old - n) + i))"
    by (rule assms(5)) (use assms i in simp)
  ultimately show "a - (length old - n) + (length new - n) + i < length new \<and>
      old ! (a + i) = new ! (a - (length old - n) + (length new - n) + i)"
    using assms i by (simp add: add.commute add.left_commute)
qed

lemma matched_new_index_sound:
  assumes "matched_new_index old new a b = Some s" and "a < b" and "b \<le> length old"
  shows "same_run old new a s (b - a)"
proof -
  define before where "before = common_prefix old new"
  define after where "after = common_prefix (rev (drop before old)) (rev (drop before new))"
  define om where "om = take (length old - after - before) (drop before old)"
  define nm where "nm = take (length new - after - before) (drop before new)"
  have before: "before \<le> length old" "before \<le> length new" "\<And>i. i < before \<Longrightarrow> old ! i = new ! i"
    using common_prefix_facts [where xs = old and ys = new] by (auto simp: before_def)
  have after: "after \<le> length old - before" "after \<le> length new - before"
    "\<And>i. i < after \<Longrightarrow> old ! (length old - after + i) = new ! (length new - after + i)"
    using common_prefix_facts(1,2) [of "rev (drop before old)" "rev (drop before new)"] common_suffix_facts [where b = before and xs = old and ys = new]
    by (auto simp: after_def)
  define matches where "matches pairs = recorded_matches (length old) (map (\<lambda>i. (i, i)) [0..<before]
      @ map (\<lambda>i. (length old - after + i, length new - after + i)) [0..<after]
      @ map (\<lambda>(i, j). (before + i, before + j)) pairs)" for pairs
  have m: "(if b \<le> before then Some a
      else if length old - after \<le> a then Some (a - (length old - after) + (length new - after))
      else if MAX_DIFFED_LINES < length om + length nm then None
      else Option.bind (matching_pairs om nm) (\<lambda>pairs. Option.bind (matches pairs ! a) (\<lambda>start.
        if list_all (\<lambda>index. matches pairs ! index = Some (start + index - a)) [a..<b] then Some start else None))) = Some s"
    using assms(1) unfolding matched_new_index_def Let_def before_def after_def om_def nm_def matches_def .
  consider (front) "b \<le> before" "s = a"
    | (end_part) "length old - after \<le> a" "s = a - (length old - after) + (length new - after)"
    | (middle) pairs where "matching_pairs om nm = Some pairs" "\<And>i. a \<le> i \<Longrightarrow> i < b \<Longrightarrow> matches pairs ! i = Some (s + i - a)"
    using m by (fastforce split: if_split_asm simp: bind_eq_Some_conv list_all_iff)
  then show ?thesis
  proof cases
    case front
    then show ?thesis using before assms(2) by (auto simp: same_run_def)
  next
    case end_part
    then show ?thesis using same_run_suffix [of old after a "b - a" new] after assms by auto
  next
    case middle
    have "s + i < length new \<and> old ! (a + i) = new ! (s + i)" if "i < b - a" for i
    proof -
      have bound: "a + i < length old" and "matches pairs ! (a + i) = Some (s + i)"
        using middle(2) [of "a + i"] that assms by auto
      from recorded_matches_sound [OF bound this(2) [unfolded matches_def]] consider "a + i = s + i" "a + i < before"
        | k where "k < after" "a + i = length old - after + k" "s + i = length new - after + k"
        | p q where "(p, q) \<in> set pairs" "a + i = before + p" "s + i = before + q"
        by auto
      then show ?thesis
      proof cases
        case 3
        with matching_pairs_sound [OF middle(1)] have "equal_lines om nm (p, q)" by (simp add: list_all_iff)
        then show ?thesis using 3 before after by (auto simp: equal_lines_def om_def nm_def)
      qed (use before after in auto)
    qed
    then show ?thesis by (simp add: same_run_def)
  qed
qed

section \<open>Carried ranges\<close>

definition range_lines :: "request_line_range \<Rightarrow> string \<Rightarrow> string list" where
  "range_lines r s = take (unat (lr_end_line r) + 1 - unat (lr_start_line r)) (drop (unat (lr_start_line r) - 1) (text_lines s))"

lemma RequestLineRange_new_iff:
  "RequestLineRange_new s e = Ok r \<longleftrightarrow> 0 < unat s \<and> unat s \<le> unat e \<and> r = \<lparr>lr_start_line = s, lr_end_line = e\<rparr>"
  by (auto simp: RequestLineRange_new_def word_less_nat_alt unat_gt_0)

lemma shifted_to_Some:
  assumes "shifted_to r k = Some r'" and "unat (lr_start_line r) \<le> unat (lr_end_line r)"
  shows "unat (lr_start_line r') = k + 1 \<and>
    unat (lr_end_line r') = k + 1 + (unat (lr_end_line r) - unat (lr_start_line r))"
proof -
  have k: "k + 1 < 2 ^ 32" using assms(1) by (auto simp: shifted_to_def split: if_split_asm)
  then have "unat (of_nat (k + 1) :: u32) = k + 1" by (simp add: unat_of_nat del: of_nat_Suc of_nat_add)
  moreover have "unat (lr_end_line r - lr_start_line r) = unat (lr_end_line r) - unat (lr_start_line r)"
    using assms(2) by (simp add: unat_sub word_le_nat_alt)
  ultimately show ?thesis using assms(1) k
    by (auto simp: shifted_to_def Let_def checked_add_Some_iff simp del: of_nat_Suc of_nat_add)
qed

text \<open>
  C27: a discussion never moves to other lines. When a well-formed range that lies inside the original file is carried
  forward to a newer text, the new range is again well formed and lies inside the newer text, and the lines it names
  there, line feeds included, are exactly the lines the original range named.
\<close>

theorem carried_range_same_lines:
  assumes "RequestLineRange_new s e = Ok r" and "unat e \<le> length (text_lines original)"
    and "carry_forward_line_range r original (Some newer) = MappedTo r'"
  shows "RequestLineRange_new (lr_start_line r') (lr_end_line r') = Ok r' \<and>
    unat (lr_end_line r') \<le> length (text_lines newer) \<and> range_lines r' newer = range_lines r original"
proof (cases "original = newer")
  case True
  then show ?thesis using assms by (auto simp: carry_forward_line_range_def RequestLineRange_new_iff)
next
  case False
  have r: "0 < unat s" "unat s \<le> unat e" "r = \<lparr>lr_start_line = s, lr_end_line = e\<rparr>"
    using assms(1) by (auto simp: RequestLineRange_new_iff)
  obtain k where k: "matched_new_index (text_lines original) (text_lines newer) (unat s - 1) (unat e) = Some k"
    and shift: "shifted_to r k = Some r'"
    using assms(2,3) False r by (auto simp: carry_forward_line_range_def Let_def bind_eq_Some_conv split: option.split_asm)
  have pos: "unat (lr_start_line r') = k + 1" "unat (lr_end_line r') = k + 1 + (unat e - unat s)"
    using shifted_to_Some [OF shift] r by simp_all
  have run: "same_run (text_lines original) (text_lines newer) (unat s - 1) k (unat e + 1 - unat s)"
    using matched_new_index_sound [OF k] r assms(2) by simp
  then have "k + (unat e + 1 - unat s) \<le> length (text_lines newer)" using r by (intro same_run_bound) auto
  moreover have "take (unat e + 1 - unat s) (drop (unat s - 1) (text_lines original)) = take (unat e + 1 - unat s) (drop k (text_lines newer))"
    by (rule same_run_lines [OF run]) (use r assms(2) in auto)
  ultimately show ?thesis using r pos by (auto simp: RequestLineRange_new_iff range_lines_def)
qed

lemma carried_range_same_lines_witness:
  "range_lines \<lparr>lr_start_line = 2, lr_end_line = 3\<rparr> [CHR ''x'', CHR 0x0A, CHR ''a'', CHR 0x0A, CHR ''b'', CHR 0x0A, CHR ''y''] =
   range_lines \<lparr>lr_start_line = 1, lr_end_line = 2\<rparr> [CHR ''a'', CHR 0x0A, CHR ''b'', CHR 0x0A, CHR ''c'']"
proof -
  have lines: "text_lines [CHR ''a'', CHR 0x0A, CHR ''b'', CHR 0x0A, CHR ''c''] = [[CHR ''a'', CHR 0x0A], [CHR ''b'', CHR 0x0A], ''c'']"
    "text_lines [CHR ''x'', CHR 0x0A, CHR ''a'', CHR 0x0A, CHR ''b'', CHR 0x0A, CHR ''y''] =
      [[CHR ''x'', CHR 0x0A], [CHR ''a'', CHR 0x0A], [CHR ''b'', CHR 0x0A], ''y'']"
    by code_simp+
  have "matched_new_index [[CHR ''a'', CHR 0x0A], [CHR ''b'', CHR 0x0A], ''c'']
      [[CHR ''x'', CHR 0x0A], [CHR ''a'', CHR 0x0A], [CHR ''b'', CHR 0x0A], ''y''] 0 2 = Some 1"
    by code_simp
  moreover have "shifted_to \<lparr>lr_start_line = 1, lr_end_line = 2\<rparr> 1 = Some \<lparr>lr_start_line = 2, lr_end_line = 3\<rparr>"
    by (simp add: shifted_to_def checked_add_def)
  ultimately have "carry_forward_line_range \<lparr>lr_start_line = 1, lr_end_line = 2\<rparr> [CHR ''a'', CHR 0x0A, CHR ''b'', CHR 0x0A, CHR ''c'']
      (Some [CHR ''x'', CHR 0x0A, CHR ''a'', CHR 0x0A, CHR ''b'', CHR 0x0A, CHR ''y'']) = MappedTo \<lparr>lr_start_line = 2, lr_end_line = 3\<rparr>"
    by (simp add: carry_forward_line_range_def lines)
  from carried_range_same_lines [OF _ _ this, of 1 2] show ?thesis by (simp add: RequestLineRange_new_def lines)
qed

end
