(* ===== verification/Discussions.thy ===== *)
theory Discussions
  imports Line_Diff
begin

text \<open>
  Discussions of a request, their replies and the reading positions of users: \<^verbatim>\<open>requests/discussions.rs\<close> and
  \<^verbatim>\<open>requests/discussion_authors.rs\<close>; and the ratings participants give each other once a request is closed or
  merged: \<^verbatim>\<open>requests/ratings.rs\<close>. Whether an identifier is already used and which reply a quote names is looked up by
  the caller and passed in, as in the code.
\<close>

section \<open>Data\<close>

datatype request_discussion_author = AuthorUser string | AuthorDeleted | AuthorGitHub u64 string

definition author_user_id :: "request_discussion_author \<Rightarrow> string option" where
  "author_user_id a = (case a of AuthorUser u \<Rightarrow> Some u | AuthorDeleted \<Rightarrow> None | AuthorGitHub _ _ \<Rightarrow> None)"

definition author_github_account_id :: "request_discussion_author \<Rightarrow> u64 option" where
  "author_github_account_id a = (case a of AuthorGitHub i _ \<Rightarrow> Some i | AuthorUser _ \<Rightarrow> None | AuthorDeleted \<Rightarrow> None)"

definition is_github_author :: "request_discussion_author \<Rightarrow> bool" where
  "is_github_author a = (case a of AuthorGitHub _ _ \<Rightarrow> True | _ \<Rightarrow> False)"

datatype request_discussion_resolver = ResolverUser string | ResolverGitHub u64

definition resolver_user_id :: "request_discussion_resolver \<Rightarrow> string option" where
  "resolver_user_id r = (case r of ResolverUser u \<Rightarrow> Some u | ResolverGitHub _ \<Rightarrow> None)"

definition resolver_github_account_id :: "request_discussion_resolver \<Rightarrow> u64 option" where
  "resolver_github_account_id r = (case r of ResolverGitHub i \<Rightarrow> Some i | ResolverUser _ \<Rightarrow> None)"

datatype request_discussion_status = DiscussionOpen | DiscussionResolved

record request_discussion =
  dn_id :: string
  dn_request_id :: string
  dn_opened_position :: u64
  dn_last_activity_position :: u64
  dn_author :: request_discussion_author
  dn_body_markdown :: string
  dn_anchor :: "request_discussion_anchor option"
  dn_status :: request_discussion_status
  dn_client_discussion_id :: string
  dn_created_at_unix :: u64
  dn_resolved_at_unix :: "u64 option"
  dn_resolved_by :: "request_discussion_resolver option"

record request_discussion_reply =
  dr_id :: string
  dr_discussion_id :: string
  dr_position :: u64
  dr_author :: request_discussion_author
  dr_body_markdown :: string
  dr_reply_to_reply_id :: "string option"
  dr_client_reply_id :: string
  dr_created_at_unix :: u64

record request_discussion_read_state =
  rs_discussion_id :: string
  rs_user_id :: string
  rs_read_through_position :: u64
  rs_updated_at_unix :: u64

record create_request_discussion_input =
  cd_request_id :: string
  cd_id :: string
  cd_actor_user_id :: string
  cd_actor_can_participate :: bool
  cd_client_discussion_id :: string
  cd_body_markdown :: string
  cd_anchor :: "request_discussion_anchor option"
  cd_now_unix :: u64

record create_request_discussion_mutation =
  cdm_created :: bool
  cdm_request :: request
  cdm_discussion :: request_discussion
  cdm_read_state :: request_discussion_read_state

record create_request_discussion_reply_input =
  cr_request_id :: string
  cr_discussion_id :: string
  cr_id :: string
  cr_actor_user_id :: string
  cr_actor_can_participate :: bool
  cr_client_reply_id :: string
  cr_body_markdown :: string
  cr_reply_to_reply_id :: "string option"
  cr_now_unix :: u64

record create_request_discussion_reply_mutation =
  crm_created :: bool
  crm_request :: request
  crm_discussion :: request_discussion
  crm_reply :: request_discussion_reply
  crm_read_state :: request_discussion_read_state
  crm_activity_event :: "request_event option"

record request_discussion_transition_input =
  dt_request_id :: string
  dt_discussion_id :: string
  dt_actor_user_id :: string
  dt_actor_is_maintainer :: bool
  dt_actor_can_transition :: bool
  dt_event_id :: string
  dt_now_unix :: u64

record request_discussion_mutation =
  dm_request :: request
  dm_discussion :: request_discussion
  dm_event :: request_event

record reopen_and_reply_input =
  ro_request_id :: string
  ro_discussion_id :: string
  ro_reply_id :: string
  ro_actor_user_id :: string
  ro_actor_is_maintainer :: bool
  ro_actor_can_transition :: bool
  ro_actor_can_participate :: bool
  ro_event_id :: string
  ro_client_reply_id :: string
  ro_body_markdown :: string
  ro_reply_to_reply_id :: "string option"
  ro_now_unix :: u64

record mark_request_discussion_read_input =
  mr_discussion_id :: string
  mr_user_id :: string
  mr_through_position :: u64
  mr_now_unix :: u64

section \<open>Checks\<close>

definition REQUEST_DISCUSSION_BODY_MAX_BYTES :: nat where "REQUEST_DISCUSSION_BODY_MAX_BYTES = 64 * 1024"
definition REQUEST_DISCUSSION_CLIENT_ID_MAX_BYTES :: nat where "REQUEST_DISCUSSION_CLIENT_ID_MAX_BYTES = 128"

definition validate_common :: "string \<Rightarrow> string \<Rightarrow> string \<Rightarrow> string \<Rightarrow> string \<Rightarrow> (domain_error, unit) result" where
  "validate_common request_id discussion_id actor client_id body =
     and_then (validate_required ''request id'' request_id) (\<lambda>_.
     and_then (validate_required ''discussion id'' discussion_id) (\<lambda>_.
     and_then (validate_required ''actor user id'' actor) (\<lambda>_.
     and_then (validate_required ''client discussion id'' client_id) (\<lambda>_.
     and_then (validate_body_size ''client discussion id'' client_id REQUEST_DISCUSSION_CLIENT_ID_MAX_BYTES) (\<lambda>_.
     and_then (validate_required ''discussion body'' body) (\<lambda>_.
     validate_body_size ''discussion body'' body REQUEST_DISCUSSION_BODY_MAX_BYTES))))))"

definition validate_reply_input ::
  "string \<Rightarrow> string \<Rightarrow> string \<Rightarrow> string \<Rightarrow> string \<Rightarrow> string \<Rightarrow> (domain_error, unit) result" where
  "validate_reply_input request_id discussion_id reply_id actor client_id body =
     and_then (validate_required ''request id'' request_id) (\<lambda>_.
     and_then (validate_required ''discussion id'' discussion_id) (\<lambda>_.
     and_then (validate_required ''reply id'' reply_id) (\<lambda>_.
     and_then (validate_required ''actor user id'' actor) (\<lambda>_.
     and_then (validate_required ''client reply id'' client_id) (\<lambda>_.
     and_then (validate_body_size ''client reply id'' client_id REQUEST_DISCUSSION_CLIENT_ID_MAX_BYTES) (\<lambda>_.
     and_then (validate_required ''reply body'' body) (\<lambda>_.
     validate_body_size ''reply body'' body REQUEST_DISCUSSION_BODY_MAX_BYTES)))))))"

definition validate_reply_target ::
  "request_discussion \<Rightarrow> request_discussion_reply option \<Rightarrow> string \<Rightarrow> string option \<Rightarrow> u64 \<Rightarrow> (domain_error, unit) result" where
  "validate_reply_target discussion quoted_reply discussion_id reply_to new_reply_position =
     (if dn_id discussion \<noteq> discussion_id then Err (not_found ''request discussion not found'')
      else case reply_to of
          None \<Rightarrow> Ok ()
        | Some reply_id \<Rightarrow>
            (case (case quoted_reply of Some q \<Rightarrow> if dr_id q = reply_id then Some q else None | None \<Rightarrow> None) of
               None \<Rightarrow> Err (invalid_input ''quoted reply not found'')
             | Some q \<Rightarrow>
                 if dr_discussion_id q \<noteq> discussion_id then
                   Err (invalid_input ''quoted reply belongs to another discussion'')
                 else if new_reply_position \<le> dr_position q then
                   Err (invalid_input ''quoted reply must be earlier than reply'')
                 else Ok ()))"

definition ensure_discussion_matches :: "request_discussion \<Rightarrow> string \<Rightarrow> string \<Rightarrow> (domain_error, unit) result" where
  "ensure_discussion_matches discussion request_id discussion_id =
     (if dn_id discussion = discussion_id \<and> dn_request_id discussion = request_id then Ok ()
      else Err (not_found ''request discussion not found''))"

definition ensure_can_transition :: "request_discussion \<Rightarrow> request \<Rightarrow> string \<Rightarrow> bool \<Rightarrow> (domain_error, unit) result" where
  "ensure_can_transition discussion r actor_user_id actor_is_maintainer =
     (if actor_is_maintainer \<or> author_user_id (dn_author discussion) = Some actor_user_id \<or> is_author r actor_user_id
      then Ok () else Err (forbidden ''request discussion resolution access required''))"

definition ensure_request_discussion_transition_allowed :: "request \<Rightarrow> bool \<Rightarrow> (domain_error, unit) result" where
  "ensure_request_discussion_transition_allowed r actor_can_transition =
     (if \<not> actor_can_transition then Err (forbidden ''request discussion resolution access required'')
      else if rq_view r = ViewId_private \<and> is_terminal r then
        Err (conflict ''completed private request discussions are read-only'')
      else Ok ())"

definition read_state :: "request_discussion \<Rightarrow> string \<Rightarrow> u64 \<Rightarrow> u64 \<Rightarrow> request_discussion_read_state" where
  "read_state discussion user_id at now_unix =
     \<lparr>rs_discussion_id = dn_id discussion, rs_user_id = user_id, rs_read_through_position = at, rs_updated_at_unix = now_unix\<rparr>"

section \<open>Operations\<close>

definition create_request_discussion ::
  "request \<Rightarrow> bool \<Rightarrow> create_request_discussion_input \<Rightarrow> (domain_error, create_request_discussion_mutation) result" where
  "create_request_discussion r discussion_id_exists input =
     and_then (validate_common (cd_request_id input) (cd_id input) (cd_actor_user_id input)
       (cd_client_discussion_id input) (cd_body_markdown input)) (\<lambda>_.
     and_then (case cd_anchor input of Some anchor \<Rightarrow> validate_anchor anchor | None \<Rightarrow> Ok ()) (\<lambda>_.
     if \<not> cd_actor_can_participate input then Err (forbidden ''request discussion access required'')
     else if discussion_id_exists then Err (conflict ''request discussion already exists'')
     else and_then (ensure_request_matches r (cd_request_id input)) (\<lambda>_.
     and_then (advance_request_activity (r\<lparr>rq_updated_at_unix := cd_now_unix input\<rparr>)) (\<lambda>(r', at).
     let discussion = \<lparr>dn_id = cd_id input, dn_request_id = rq_id r', dn_opened_position = at,
           dn_last_activity_position = at, dn_author = AuthorUser (cd_actor_user_id input),
           dn_body_markdown = cd_body_markdown input, dn_anchor = cd_anchor input, dn_status = DiscussionOpen,
           dn_client_discussion_id = cd_client_discussion_id input, dn_created_at_unix = cd_now_unix input,
           dn_resolved_at_unix = None, dn_resolved_by = None\<rparr>
     in Ok \<lparr>cdm_created = True, cdm_request = r', cdm_discussion = discussion,
          cdm_read_state = read_state discussion (cd_actor_user_id input) at (cd_now_unix input)\<rparr>))))"

definition create_request_discussion_reply ::
  "request \<Rightarrow> request_discussion \<Rightarrow> request_discussion_reply option \<Rightarrow> bool \<Rightarrow> create_request_discussion_reply_input
   \<Rightarrow> (domain_error, create_request_discussion_reply_mutation) result" where
  "create_request_discussion_reply r discussion quoted_reply reply_id_exists input =
     and_then (validate_reply_input (cr_request_id input) (cr_discussion_id input) (cr_id input)
       (cr_actor_user_id input) (cr_client_reply_id input) (cr_body_markdown input)) (\<lambda>_.
     if \<not> cr_actor_can_participate input then Err (forbidden ''request discussion access required'')
     else if reply_id_exists then Err (conflict ''request discussion reply already exists'')
     else and_then (ensure_request_matches r (cr_request_id input)) (\<lambda>_.
     and_then (next_request_activity_position r) (\<lambda>at.
     and_then (validate_reply_target discussion quoted_reply (cr_discussion_id input) (cr_reply_to_reply_id input) at) (\<lambda>_.
     and_then (ensure_discussion_matches discussion (cr_request_id input) (cr_discussion_id input)) (\<lambda>_.
     if dn_status discussion = DiscussionResolved then Err (conflict ''request discussion is resolved'')
     else let r' = r\<lparr>rq_activity_version := at, rq_updated_at_unix := cr_now_unix input\<rparr>;
              discussion' = discussion\<lparr>dn_last_activity_position := at\<rparr>
       in Ok \<lparr>crm_created = True, crm_request = r', crm_discussion = discussion',
            crm_reply = \<lparr>dr_id = cr_id input, dr_discussion_id = dn_id discussion', dr_position = at,
              dr_author = AuthorUser (cr_actor_user_id input), dr_body_markdown = cr_body_markdown input,
              dr_reply_to_reply_id = cr_reply_to_reply_id input, dr_client_reply_id = cr_client_reply_id input,
              dr_created_at_unix = cr_now_unix input\<rparr>,
            crm_read_state = read_state discussion' (cr_actor_user_id input) at (cr_now_unix input),
            crm_activity_event = None\<rparr>)))))"

definition reopen_and_reply_to_request_discussion ::
  "request \<Rightarrow> request_discussion \<Rightarrow> request_discussion_reply option \<Rightarrow> reopen_and_reply_input
   \<Rightarrow> (domain_error, create_request_discussion_reply_mutation) result" where
  "reopen_and_reply_to_request_discussion r discussion quoted_reply input =
     (if \<not> ro_actor_can_participate input then Err (forbidden ''request discussion access required'')
      else and_then (validate_reply_input (ro_request_id input) (ro_discussion_id input) (ro_reply_id input)
       (ro_actor_user_id input) (ro_client_reply_id input) (ro_body_markdown input)) (\<lambda>_.
     and_then (validate_required ''event id'' (ro_event_id input)) (\<lambda>_.
     and_then (ensure_request_matches r (ro_request_id input)) (\<lambda>_.
     and_then (ensure_request_discussion_transition_allowed r (ro_actor_can_transition input)) (\<lambda>_.
     and_then (next_request_activity_position r) (\<lambda>at.
     and_then (validate_reply_target discussion quoted_reply (ro_discussion_id input) (ro_reply_to_reply_id input) at) (\<lambda>_.
     and_then (ensure_discussion_matches discussion (ro_request_id input) (ro_discussion_id input)) (\<lambda>_.
     and_then (ensure_can_transition discussion r (ro_actor_user_id input) (ro_actor_is_maintainer input)) (\<lambda>_.
     if dn_status discussion \<noteq> DiscussionResolved then Err (conflict ''request discussion is already open'')
     else let r' = r\<lparr>rq_activity_version := at, rq_updated_at_unix := ro_now_unix input\<rparr>;
              discussion' = discussion\<lparr>dn_status := DiscussionOpen, dn_resolved_at_unix := None, dn_resolved_by := None,
                dn_last_activity_position := at\<rparr>
       in Ok \<lparr>crm_created = True, crm_request = r', crm_discussion = discussion',
            crm_reply = \<lparr>dr_id = ro_reply_id input, dr_discussion_id = dn_id discussion', dr_position = at,
              dr_author = AuthorUser (ro_actor_user_id input), dr_body_markdown = ro_body_markdown input,
              dr_reply_to_reply_id = ro_reply_to_reply_id input, dr_client_reply_id = ro_client_reply_id input,
              dr_created_at_unix = ro_now_unix input\<rparr>,
            crm_read_state = read_state discussion' (ro_actor_user_id input) at (ro_now_unix input),
            crm_activity_event = Some \<lparr>ev_id = ro_event_id input, ev_request_id = rq_id r',
              ev_actor_user_id = Some (ro_actor_user_id input), ev_kind = KDiscussionReopened, ev_position = at,
              ev_payload = EvDiscussionReopened (dn_id discussion'), ev_created_at_unix = ro_now_unix input\<rparr>\<rparr>)))))))))"

definition settle_status ::
  "request_discussion \<Rightarrow> request_discussion_status \<Rightarrow> request_discussion_resolver \<Rightarrow> u64 \<Rightarrow> request_discussion" where
  "settle_status discussion target resolver now_unix =
     (case target of
        DiscussionOpen \<Rightarrow> discussion\<lparr>dn_resolved_at_unix := None, dn_resolved_by := None\<rparr>
      | DiscussionResolved \<Rightarrow> discussion\<lparr>dn_resolved_at_unix := Some now_unix, dn_resolved_by := Some resolver\<rparr>)"

definition transition_discussion ::
  "request \<Rightarrow> request_discussion \<Rightarrow> request_discussion_transition_input \<Rightarrow> request_discussion_status
   \<Rightarrow> (domain_error, request_discussion_mutation) result" where
  "transition_discussion r discussion input target =
     and_then (validate_required ''event id'' (dt_event_id input)) (\<lambda>_.
     and_then (ensure_request_matches r (dt_request_id input)) (\<lambda>_.
     and_then (ensure_request_discussion_transition_allowed r (dt_actor_can_transition input)) (\<lambda>_.
     and_then (ensure_discussion_matches discussion (dt_request_id input) (dt_discussion_id input)) (\<lambda>_.
     and_then (ensure_can_transition discussion r (dt_actor_user_id input) (dt_actor_is_maintainer input)) (\<lambda>_.
     if dn_status discussion = target then
       Err (conflict (case target of DiscussionOpen \<Rightarrow> ''request discussion is already open''
         | DiscussionResolved \<Rightarrow> ''request discussion is already resolved''))
     else and_then (advance_request_activity (r\<lparr>rq_updated_at_unix := dt_now_unix input\<rparr>)) (\<lambda>(r', at).
       let discussion' = settle_status (discussion\<lparr>dn_status := target, dn_last_activity_position := at\<rparr>) target
             (ResolverUser (dt_actor_user_id input)) (dt_now_unix input);
           (kind, payload) = (case target of
             DiscussionOpen \<Rightarrow> (KDiscussionReopened, EvDiscussionReopened (dn_id discussion'))
           | DiscussionResolved \<Rightarrow> (KDiscussionResolved, EvDiscussionResolved (dn_id discussion')))
       in Ok \<lparr>dm_request = r', dm_discussion = discussion',
            dm_event = \<lparr>ev_id = dt_event_id input, ev_request_id = rq_id r',
              ev_actor_user_id = Some (dt_actor_user_id input), ev_kind = kind, ev_position = at,
              ev_payload = payload, ev_created_at_unix = dt_now_unix input\<rparr>\<rparr>))))))"

definition resolve_request_discussion ::
  "request \<Rightarrow> request_discussion \<Rightarrow> request_discussion_transition_input \<Rightarrow> (domain_error, request_discussion_mutation) result" where
  "resolve_request_discussion r discussion input = transition_discussion r discussion input DiscussionResolved"

definition reopen_request_discussion ::
  "request \<Rightarrow> request_discussion \<Rightarrow> request_discussion_transition_input \<Rightarrow> (domain_error, request_discussion_mutation) result" where
  "reopen_request_discussion r discussion input = transition_discussion r discussion input DiscussionOpen"

definition mark_request_discussion_read ::
  "request_discussion \<Rightarrow> request_discussion_read_state option \<Rightarrow> mark_request_discussion_read_input
   \<Rightarrow> (domain_error, request_discussion_read_state) result" where
  "mark_request_discussion_read discussion existing_state input =
     and_then (validate_required ''discussion id'' (mr_discussion_id input)) (\<lambda>_.
     and_then (validate_required ''user id'' (mr_user_id input)) (\<lambda>_.
     if dn_id discussion \<noteq> mr_discussion_id input then Err (not_found ''request discussion not found'')
     else let through = min (mr_through_position input) (dn_last_activity_position discussion);
              fresh = \<lparr>rs_discussion_id = mr_discussion_id input, rs_user_id = mr_user_id input,
                rs_read_through_position = 0, rs_updated_at_unix = mr_now_unix input\<rparr>;
              state = (case existing_state of
                Some s \<Rightarrow> if rs_discussion_id s = mr_discussion_id input \<and> rs_user_id s = mr_user_id input then s else fresh
              | None \<Rightarrow> fresh)
       in Ok (if rs_read_through_position state < through
          then state\<lparr>rs_read_through_position := through, rs_updated_at_unix := mr_now_unix input\<rparr> else state)))"

section \<open>Ratings\<close>

definition REQUEST_RATING_REASON_MAX_BYTES :: nat where "REQUEST_RATING_REASON_MAX_BYTES = 1024"

record request_rating =
  ra_id :: string
  ra_request_id :: string
  ra_rater_user_id :: string
  ra_subject_user_id :: string
  ra_score :: "8 word"
  ra_reason :: string
  ra_created_at_unix :: u64

record request_reputation =
  rp_score_sum :: u64
  rp_rating_count :: u64

definition RequestReputation_from_totals :: "u64 \<Rightarrow> u64 \<Rightarrow> (domain_error, request_reputation) result" where
  "RequestReputation_from_totals score_sum rating_count =
     (if 2 ^ 64 \<le> unat rating_count * 5 then Err (invariant_violation ''request reputation rating count overflow'')
      else let maximum_score = rating_count * 5 in
        if (rating_count = 0 \<and> score_sum \<noteq> 0)
           \<or> (0 < rating_count \<and> \<not> (rating_count \<le> score_sum \<and> score_sum \<le> maximum_score))
        then Err (invariant_violation ''request reputation totals are inconsistent'')
        else Ok \<lparr>rp_score_sum = score_sum, rp_rating_count = rating_count\<rparr>)"

record create_request_rating_input =
  rt_id :: string
  rt_request_id :: string
  rt_actor_user_id :: string
  rt_score :: "8 word"
  rt_reason :: string
  rt_now_unix :: u64

definition eligible_rating_subject_user_id :: "request \<Rightarrow> string \<Rightarrow> request_rating list \<Rightarrow> string option" where
  "eligible_rating_subject_user_id r actor_user_id existing_ratings =
     (if list_ex (\<lambda>rating. ra_rater_user_id rating = actor_user_id) existing_ratings then None
      else Option.bind (case rq_merged_by_user_id r of Some u \<Rightarrow> Some u | None \<Rightarrow> rq_closed_by_user_id r) (\<lambda>terminal_actor.
        Option.bind (rq_author_user_id r) (\<lambda>author.
          if author = terminal_actor then None
          else if actor_user_id = author then Some terminal_actor
          else if actor_user_id = terminal_actor then Some author
          else None)))"

definition create_request_rating ::
  "request \<Rightarrow> request_rating list \<Rightarrow> create_request_rating_input \<Rightarrow> (domain_error, request_rating) result" where
  "create_request_rating r existing_ratings input =
     and_then (validate_required ''rating id'' (rt_id input)) (\<lambda>_.
     and_then (validate_required ''request id'' (rt_request_id input)) (\<lambda>_.
     and_then (validate_required ''rating actor'' (rt_actor_user_id input)) (\<lambda>_.
     if rt_request_id input \<noteq> rq_id r then Err (conflict ''rating request does not match'')
     else if \<not> (1 \<le> rt_score input \<and> rt_score input \<le> 5) then
       Err (invalid_input ''request rating score must be between 1 and 5'')
     else and_then (validate_required ''request rating reason'' (rt_reason input)) (\<lambda>_.
     let reason = trim (rt_reason input) in
     and_then (validate_body_size ''request rating reason'' reason REQUEST_RATING_REASON_MAX_BYTES) (\<lambda>_.
     if 2 \<le> length existing_ratings then Err (conflict ''request already has both participant ratings'')
     else (case eligible_rating_subject_user_id r (rt_actor_user_id input) existing_ratings of
         None \<Rightarrow> Err (forbidden ''actor is not eligible to rate this request'')
       | Some subject \<Rightarrow>
           Ok \<lparr>ra_id = rt_id input, ra_request_id = rt_request_id input, ra_rater_user_id = rt_actor_user_id input,
             ra_subject_user_id = subject, ra_score = rt_score input, ra_reason = reason,
             ra_created_at_unix = rt_now_unix input\<rparr>))))))"

end
