(* ===== verification/Review_Import.thy ===== *)
theory Review_Import
  imports Discussions Request_Checks Request_Queue Main_Push
begin

text \<open>
  Reviews and review comments of GitHub as discussions of a request: \<^verbatim>\<open>requests/github_review_import.rs\<close>. The
  operations that take the request and the discussion by mutable reference return them beside their result, so that the
  fields a failing call has already written are visible.
\<close>

section \<open>Identities\<close>

definition REVIEW_CLIENT_PREFIX :: string where "REVIEW_CLIENT_PREFIX = ''github:review:''"
definition REVIEW_COMMENT_CLIENT_PREFIX :: string where "REVIEW_COMMENT_CLIENT_PREFIX = ''github:review-comment:''"

definition github_review_client_id :: "u64 \<Rightarrow> string" where
  "github_review_client_id review_id = REVIEW_CLIENT_PREFIX @ show_nat (unat review_id)"

definition github_review_id_from_client_id :: "string \<Rightarrow> u64 option" where
  "github_review_id_from_client_id client_id = Option.bind (strip_prefix REVIEW_CLIENT_PREFIX client_id) parse_u64"

definition github_review_comment_client_id :: "u64 \<Rightarrow> string" where
  "github_review_comment_client_id comment_id = REVIEW_COMMENT_CLIENT_PREFIX @ show_nat (unat comment_id)"

datatype github_review_import_subject =
  SubjectReview u64
| SubjectReply u64
| SubjectThread u64 string bool u64

definition github_thread_status :: "bool \<Rightarrow> bool \<Rightarrow> request_discussion_status option" where
  "github_thread_status delivered_resolved live_resolved =
     (if delivered_resolved = live_resolved
      then Some (if live_resolved then DiscussionResolved else DiscussionOpen) else None)"

definition accepts_github_reviews :: "request \<Rightarrow> views \<Rightarrow> bool" where
  "accepts_github_reviews r views \<longleftrightarrow> check_target_for_request r views = TargetHead \<and> is_submitted r \<and> \<not> is_terminal r"

section \<open>Anchors of comments\<close>

text \<open>The side, the first and last line now, and the first and last line when the comment was written.\<close>

datatype github_comment_subject =
  SubjectLine request_diff_side "u32 option" "u32 option" "u32 option" "u32 option"
| SubjectFile

record github_comment_position =
  gp_path :: string
  gp_subject :: github_comment_subject
  gp_commit_oid :: string
  gp_original_commit_oid :: string

definition newest_revision_with_head :: "request_revision list \<Rightarrow> string \<Rightarrow> request_revision option" where
  "newest_revision_with_head revisions commit_oid =
     max_by_key rv_position (filter (\<lambda>revision. rv_new_head_oid revision = commit_oid) revisions)"

definition changed_path :: "string \<Rightarrow> scope_path option" where
  "changed_path path =
     (case ScopePath_parse (''/'' @ dropWhile (\<lambda>c. c = CHR ''/'') path) of
        Ok p \<Rightarrow> if p \<noteq> ScopePath_root then Some p else None
      | Err _ \<Rightarrow> None)"

definition comment_target ::
  "github_comment_position \<Rightarrow> string \<times> (request_diff_side \<times> u32 option \<times> u32) option" where
  "comment_target at =
     (case gp_subject at of
        SubjectFile \<Rightarrow> (gp_commit_oid at, None)
      | SubjectLine side start_line (Some line) _ _ \<Rightarrow> (gp_commit_oid at, Some (side, start_line, line))
      | SubjectLine side _ None original_start_line original_line \<Rightarrow>
          (gp_original_commit_oid at, map_option (\<lambda>line. (side, original_start_line, line)) original_line))"

definition line_anchor ::
  "request_discussion_anchor \<Rightarrow> (request_diff_side \<times> u32 option \<times> u32) option \<Rightarrow> request_discussion_anchor option" where
  "line_anchor file_anchor selected =
     Option.bind selected (\<lambda>(side, start_line, line).
       case RequestLineRange_new (case start_line of Some l \<Rightarrow> l | None \<Rightarrow> line) line of
         Ok span \<Rightarrow> Some (file_anchor\<lparr>da_lines := Some \<lparr>dl_side = side, dl_range = span\<rparr>\<rparr>)
       | Err _ \<Rightarrow> None)"

definition github_comment_anchors ::
  "github_comment_position \<Rightarrow> request_revision list \<Rightarrow> request_discussion_anchor list" where
  "github_comment_anchors at revisions =
     (let (commit_oid, selected) = comment_target at in
      case newest_revision_with_head revisions commit_oid of
        None \<Rightarrow> []
      | Some newest \<Rightarrow>
          let revision_anchor = \<lparr>da_revision_id = rv_id newest, da_commit_oid = None, da_path = None, da_lines = None\<rparr> in
          (case changed_path (gp_path at) of
             None \<Rightarrow> [revision_anchor]
           | Some path \<Rightarrow>
               let file_anchor = revision_anchor\<lparr>da_path := Some path\<rparr>
               in (case line_anchor file_anchor selected of Some anchor \<Rightarrow> [anchor] | None \<Rightarrow> [])
                  @ [file_anchor, revision_anchor]))"

definition github_review_anchor :: "string option \<Rightarrow> request_revision list \<Rightarrow> request_discussion_anchor option" where
  "github_review_anchor commit_oid revisions =
     Option.bind commit_oid (\<lambda>oid.
       map_option (\<lambda>revision. \<lparr>da_revision_id = rv_id revision, da_commit_oid = None, da_path = None, da_lines = None\<rparr>)
         (newest_revision_with_head revisions oid))"

section \<open>Bodies\<close>

text \<open>\<^verbatim>\<open>str::is_char_boundary\<close> on the bytes of a string: the ends, and any byte that does not continue a character.\<close>

definition is_char_boundary :: "string \<Rightarrow> nat \<Rightarrow> bool" where
  "is_char_boundary s i \<longleftrightarrow>
     i = 0 \<or> i = length s \<or> (i < length s \<and> \<not> (128 \<le> (of_char (s ! i) :: nat) \<and> (of_char (s ! i) :: nat) < 192))"

fun boundary_at_most :: "string \<Rightarrow> nat \<Rightarrow> nat" where
  "boundary_at_most s 0 = 0"
| "boundary_at_most s (Suc i) = (if is_char_boundary s (Suc i) then Suc i else boundary_at_most s i)"

definition github_comment_body :: "string \<Rightarrow> string option" where
  "github_comment_body body =
     (let trimmed = trim body in
      if trimmed = [] then None
      else Some (take (boundary_at_most trimmed (min (length trimmed) REQUEST_DISCUSSION_BODY_MAX_BYTES)) trimmed))"

section \<open>Imports\<close>

record import_github_discussion_input =
  gi_id :: string
  gi_client_discussion_id :: string
  gi_github_account_id :: u64
  gi_source_url :: string
  gi_body_markdown :: string
  gi_anchor :: "request_discussion_anchor option"
  gi_created_at_unix :: u64
  gi_now_unix :: u64

record import_github_reply_input =
  gr_id :: string
  gr_client_reply_id :: string
  gr_github_account_id :: u64
  gr_source_url :: string
  gr_body_markdown :: string
  gr_created_at_unix :: u64
  gr_now_unix :: u64

definition ensure_accepts_github_reviews :: "request \<Rightarrow> views \<Rightarrow> (domain_error, unit) result" where
  "ensure_accepts_github_reviews r views =
     (if accepts_github_reviews r views then Ok () else Err (conflict ''only open full-view requests import GitHub reviews''))"

definition ensure_discussion_of :: "request \<Rightarrow> request_discussion \<Rightarrow> (domain_error, unit) result" where
  "ensure_discussion_of r discussion =
     (if dn_request_id discussion = rq_id r then Ok () else Err (not_found ''request discussion not found''))"

definition github_author :: "u64 \<Rightarrow> string \<Rightarrow> (domain_error, request_discussion_author) result" where
  "github_author github_account_id source_url =
     (if github_account_id = 0 then Err (invalid_input ''GitHub account id is required'')
      else and_then (validate_required ''GitHub comment link'' source_url) (\<lambda>_. Ok (AuthorGitHub github_account_id source_url)))"

definition validate_client_id :: "string \<Rightarrow> string \<Rightarrow> (domain_error, unit) result" where
  "validate_client_id label client_id =
     and_then (validate_required label client_id) (\<lambda>_.
     validate_body_size label client_id REQUEST_DISCUSSION_CLIENT_ID_MAX_BYTES)"

definition validate_body :: "string \<Rightarrow> string \<Rightarrow> (domain_error, unit) result" where
  "validate_body label body =
     and_then (validate_required label body) (\<lambda>_. validate_body_size label body REQUEST_DISCUSSION_BODY_MAX_BYTES)"

definition import_github_discussion ::
  "request \<Rightarrow> views \<Rightarrow> import_github_discussion_input \<Rightarrow> (domain_error, request_discussion) result \<times> request" where
  "import_github_discussion r views input =
     (case and_then (ensure_accepts_github_reviews r views) (\<lambda>_.
        and_then (validate_required ''discussion id'' (gi_id input)) (\<lambda>_.
        and_then (github_author (gi_github_account_id input) (gi_source_url input)) (\<lambda>author.
        and_then (validate_client_id ''client discussion id'' (gi_client_discussion_id input)) (\<lambda>_.
        and_then (validate_body ''discussion body'' (gi_body_markdown input)) (\<lambda>_.
        and_then (case gi_anchor input of Some anchor \<Rightarrow> validate_anchor anchor | None \<Rightarrow> Ok ()) (\<lambda>_. Ok author)))))) of
        Err e \<Rightarrow> (Err e, r)
      | Ok author \<Rightarrow>
          let r' = r\<lparr>rq_updated_at_unix := gi_now_unix input\<rparr> in
          (case advance_request_activity r' of
             Err e \<Rightarrow> (Err e, r')
           | Ok (r'', at) \<Rightarrow>
               (Ok \<lparr>dn_id = gi_id input, dn_request_id = rq_id r'', dn_opened_position = at, dn_last_activity_position = at,
                  dn_author = author, dn_body_markdown = gi_body_markdown input, dn_anchor = gi_anchor input,
                  dn_status = DiscussionOpen, dn_client_discussion_id = gi_client_discussion_id input,
                  dn_created_at_unix = gi_created_at_unix input, dn_resolved_at_unix = None, dn_resolved_by = None\<rparr>, r'')))"

definition import_github_reply ::
  "request \<Rightarrow> views \<Rightarrow> request_discussion \<Rightarrow> import_github_reply_input
   \<Rightarrow> (domain_error, request_discussion_reply) result \<times> request \<times> request_discussion" where
  "import_github_reply r views discussion input =
     (case and_then (ensure_accepts_github_reviews r views) (\<lambda>_.
        and_then (ensure_discussion_of r discussion) (\<lambda>_.
        and_then (validate_required ''reply id'' (gr_id input)) (\<lambda>_.
        and_then (github_author (gr_github_account_id input) (gr_source_url input)) (\<lambda>author.
        and_then (validate_client_id ''client reply id'' (gr_client_reply_id input)) (\<lambda>_.
        and_then (validate_body ''reply body'' (gr_body_markdown input)) (\<lambda>_. Ok author)))))) of
        Err e \<Rightarrow> (Err e, r, discussion)
      | Ok author \<Rightarrow>
          let r' = r\<lparr>rq_updated_at_unix := gr_now_unix input\<rparr> in
          (case advance_request_activity r' of
             Err e \<Rightarrow> (Err e, r', discussion)
           | Ok (r'', at) \<Rightarrow>
               (Ok \<lparr>dr_id = gr_id input, dr_discussion_id = dn_id discussion, dr_position = at, dr_author = author,
                  dr_body_markdown = gr_body_markdown input, dr_reply_to_reply_id = None,
                  dr_client_reply_id = gr_client_reply_id input, dr_created_at_unix = gr_created_at_unix input\<rparr>,
                r'', discussion\<lparr>dn_last_activity_position := at\<rparr>)))"

definition transition_github_discussion ::
  "request \<Rightarrow> views \<Rightarrow> request_discussion \<Rightarrow> u64 \<Rightarrow> request_discussion_status \<Rightarrow> u64
   \<Rightarrow> (domain_error, bool) result \<times> request \<times> request_discussion" where
  "transition_github_discussion r views discussion github_account_id target now_unix =
     (case and_then (ensure_accepts_github_reviews r views) (\<lambda>_.
        and_then (ensure_discussion_of r discussion) (\<lambda>_.
        if \<not> is_github_author (dn_author discussion) then
          Err (forbidden ''GitHub can only resolve discussions imported from GitHub'')
        else if github_account_id = 0 then Err (invalid_input ''GitHub account id is required'')
        else Ok ())) of
        Err e \<Rightarrow> (Err e, r, discussion)
      | Ok _ \<Rightarrow>
          if dn_status discussion = target then (Ok False, r, discussion)
          else let r' = r\<lparr>rq_updated_at_unix := now_unix\<rparr> in
            (case advance_request_activity r' of
               Err e \<Rightarrow> (Err e, r', discussion)
             | Ok (r'', at) \<Rightarrow>
                 (Ok True, r'',
                  settle_status (discussion\<lparr>dn_last_activity_position := at, dn_status := target\<rparr>) target
                    (ResolverGitHub github_account_id) now_unix)))"

definition reactivate_author_attention_for_github_review ::
  "request_attention \<Rightarrow> request \<Rightarrow> u64 \<Rightarrow> request_attention option" where
  "reactivate_author_attention_for_github_review attention r now_unix =
     (if \<not> is_author r (at_user_id attention) then None
      else reactivate_request_attention attention [] (rq_activity_version r) now_unix)"

end
