(* ===== verification/Discussion_Machine.thy ===== *)
theory Discussion_Machine
  imports Review_Import Lifecycles
begin

text \<open>
  The discussions of one request as a store that the operations of \<^verbatim>\<open>requests/discussions.rs\<close> and
  \<^verbatim>\<open>requests/github_review_import.rs\<close> change: the request with its activity counter, the discussions and replies
  by identifier and the reading positions by discussion and user. An operation is given the rows the store holds; a
  row is only inserted under an unused identifier, which is its primary key.
\<close>

record discussion_store =
  ds_request :: request
  ds_discussions :: "string \<rightharpoonup> request_discussion"
  ds_replies :: "request_discussion_reply list"
  ds_reads :: "string \<times> string \<rightharpoonup> request_discussion_read_state"

definition put :: "discussion_store \<Rightarrow> request \<Rightarrow> request_discussion \<Rightarrow> request_discussion_reply option
    \<Rightarrow> request_discussion_read_state option \<Rightarrow> discussion_store" where
  "put s r d reply state =
     \<lparr>ds_request = r, ds_discussions = (ds_discussions s)(dn_id d \<mapsto> d),
      ds_replies = ds_replies s @ (case reply of Some x \<Rightarrow> [x] | None \<Rightarrow> []),
      ds_reads = (case state of Some x \<Rightarrow> (ds_reads s)((rs_discussion_id x, rs_user_id x) \<mapsto> x) | None \<Rightarrow> ds_reads s)\<rparr>"

definition reply_exists :: "discussion_store \<Rightarrow> string \<Rightarrow> bool" where
  "reply_exists s i \<longleftrightarrow> list_ex (\<lambda>x. dr_id x = i) (ds_replies s)"

definition reply_by_id :: "discussion_store \<Rightarrow> string option \<Rightarrow> request_discussion_reply option" where
  "reply_by_id s quoted = Option.bind quoted (\<lambda>i. find (\<lambda>x. dr_id x = i) (ds_replies s))"

section \<open>Steps\<close>

inductive discussion_step :: "discussion_store \<Rightarrow> discussion_store \<Rightarrow> bool" where
  created: "create_request_discussion (ds_request s) (cd_id input \<in> dom (ds_discussions s)) input = Ok m
    \<Longrightarrow> discussion_step s (put s (cdm_request m) (cdm_discussion m) None (Some (cdm_read_state m)))"
| replied: "ds_discussions s (cr_discussion_id input) = Some d
    \<Longrightarrow> create_request_discussion_reply (ds_request s) d (reply_by_id s (cr_reply_to_reply_id input))
          (reply_exists s (cr_id input)) input = Ok m
    \<Longrightarrow> discussion_step s (put s (crm_request m) (crm_discussion m) (Some (crm_reply m)) (Some (crm_read_state m)))"
| reopened_and_replied: "ds_discussions s (ro_discussion_id input) = Some d \<Longrightarrow> \<not> reply_exists s (ro_reply_id input)
    \<Longrightarrow> reopen_and_reply_to_request_discussion (ds_request s) d (reply_by_id s (ro_reply_to_reply_id input)) input = Ok m
    \<Longrightarrow> discussion_step s (put s (crm_request m) (crm_discussion m) (Some (crm_reply m)) (Some (crm_read_state m)))"
| resolved: "ds_discussions s (dt_discussion_id input) = Some d
    \<Longrightarrow> resolve_request_discussion (ds_request s) d input = Ok m
    \<Longrightarrow> discussion_step s (put s (dm_request m) (dm_discussion m) None None)"
| reopened: "ds_discussions s (dt_discussion_id input) = Some d
    \<Longrightarrow> reopen_request_discussion (ds_request s) d input = Ok m
    \<Longrightarrow> discussion_step s (put s (dm_request m) (dm_discussion m) None None)"
| marked_read: "ds_discussions s (mr_discussion_id input) = Some d
    \<Longrightarrow> mark_request_discussion_read d (ds_reads s (mr_discussion_id input, mr_user_id input)) input = Ok state
    \<Longrightarrow> discussion_step s (put s (ds_request s) d None (Some state))"
| imported: "gi_id input \<notin> dom (ds_discussions s)
    \<Longrightarrow> import_github_discussion (ds_request s) views input = (Ok d, r)
    \<Longrightarrow> discussion_step s (put s r d None None)"
| reply_imported: "ds_discussions s i = Some d \<Longrightarrow> \<not> reply_exists s (gr_id input)
    \<Longrightarrow> import_github_reply (ds_request s) views d input = (Ok reply, r, d')
    \<Longrightarrow> discussion_step s (put s r d' (Some reply) None)"
| thread_settled: "ds_discussions s i = Some d
    \<Longrightarrow> transition_github_discussion (ds_request s) views d account target now = (Ok changed, r, d')
    \<Longrightarrow> discussion_step s (put s r d' None None)"
| request_changed: "rq_id r = rq_id (ds_request s) \<Longrightarrow> rq_activity_version (ds_request s) \<le> rq_activity_version r
    \<Longrightarrow> discussion_step s (s\<lparr>ds_request := r\<rparr>)"

section \<open>The invariant\<close>

definition coherent :: "request_discussion \<Rightarrow> bool" where
  "coherent d \<longleftrightarrow> (dn_status d = DiscussionResolved \<longleftrightarrow> dn_resolved_by d \<noteq> None) \<and>
     (dn_resolved_by d = None \<longleftrightarrow> dn_resolved_at_unix d = None)"

definition discussion_ok :: "request \<Rightarrow> request_discussion \<Rightarrow> bool" where
  "discussion_ok r d \<longleftrightarrow> dn_request_id d = rq_id r \<and> dn_opened_position d \<le> dn_last_activity_position d \<and>
     dn_last_activity_position d \<le> rq_activity_version r \<and> coherent d"

definition quotes_earlier :: "request_discussion_reply list \<Rightarrow> request_discussion_reply \<Rightarrow> bool" where
  "quotes_earlier replies x \<longleftrightarrow> (\<forall>i. dr_reply_to_reply_id x = Some i \<longrightarrow>
     (\<exists>q \<in> set replies. dr_id q = i \<and> dr_discussion_id q = dr_discussion_id x \<and> dr_position q < dr_position x))"

definition reply_ok :: "(string \<rightharpoonup> request_discussion) \<Rightarrow> request_discussion_reply \<Rightarrow> bool" where
  "reply_ok ds x \<longleftrightarrow> (\<exists>d. ds (dr_discussion_id x) = Some d \<and> dn_opened_position d < dr_position x \<and>
     dr_position x \<le> dn_last_activity_position d)"

definition read_ok :: "(string \<rightharpoonup> request_discussion) \<Rightarrow> string \<times> string \<Rightarrow> request_discussion_read_state \<Rightarrow> bool" where
  "read_ok ds key x \<longleftrightarrow> (rs_discussion_id x, rs_user_id x) = key \<and>
     (\<exists>d. ds (fst key) = Some d \<and> rs_read_through_position x \<le> dn_last_activity_position d)"

definition store_ok :: "discussion_store \<Rightarrow> bool" where
  "store_ok s \<longleftrightarrow>
     (\<forall>i d. ds_discussions s i = Some d \<longrightarrow> dn_id d = i \<and> discussion_ok (ds_request s) d) \<and>
     (\<forall>x \<in> set (ds_replies s). reply_ok (ds_discussions s) x \<and> quotes_earlier (ds_replies s) x) \<and>
     sorted_wrt (<) (map dr_position (ds_replies s)) \<and> distinct (map dr_id (ds_replies s)) \<and>
     (\<forall>key x. ds_reads s key = Some x \<longrightarrow> read_ok (ds_discussions s) key x)"

text \<open>What one operation does to the discussion it is given: \<open>v\<close> is the position it gets, which is new.\<close>

definition opens :: "request \<Rightarrow> request \<Rightarrow> request_discussion \<Rightarrow> bool" where
  "opens r r' d' \<longleftrightarrow> rq_id r' = rq_id r \<and> rq_activity_version r < rq_activity_version r' \<and>
     dn_request_id d' = rq_id r \<and> dn_opened_position d' = rq_activity_version r' \<and>
     dn_last_activity_position d' = rq_activity_version r' \<and> coherent d'"

definition discussion_text :: "request_discussion \<Rightarrow> string \<times> request_discussion_author \<times> string \<times> request_discussion_anchor option \<times> u64 \<times> u64" where
  "discussion_text d = (dn_id d, dn_author d, dn_body_markdown d, dn_anchor d, dn_opened_position d, dn_created_at_unix d)"

definition touches :: "request \<Rightarrow> request_discussion \<Rightarrow> request \<Rightarrow> request_discussion \<Rightarrow> bool" where
  "touches r d r' d' \<longleftrightarrow> rq_id r' = rq_id r \<and> rq_activity_version r < rq_activity_version r' \<and>
     dn_id d' = dn_id d \<and> dn_request_id d' = dn_request_id d \<and> dn_opened_position d' = dn_opened_position d \<and>
     dn_last_activity_position d' = rq_activity_version r' \<and> (coherent d \<longrightarrow> coherent d') \<and>
     discussion_text d' = discussion_text d"

definition new_reply :: "discussion_store \<Rightarrow> request \<Rightarrow> request_discussion \<Rightarrow> request_discussion_reply \<Rightarrow> bool" where
  "new_reply s r' d' x \<longleftrightarrow> dr_discussion_id x = dn_id d' \<and> dr_position x = rq_activity_version r' \<and>
     \<not> reply_exists s (dr_id x) \<and> quotes_earlier (ds_replies s) x"

definition new_read :: "request \<Rightarrow> request_discussion \<Rightarrow> request_discussion_read_state \<Rightarrow> bool" where
  "new_read r' d' x \<longleftrightarrow> rs_discussion_id x = dn_id d' \<and> rs_read_through_position x \<le> dn_last_activity_position d'"

lemma position_advances:
  "next_request_activity_position r = Ok v \<Longrightarrow> rq_activity_version r < v"
  by (auto simp: next_request_activity_position_def checked_add_Some_iff word_less_nat_alt split: option.split_asm)

lemma request_activity_advanced:
  "advance_request_activity r = Ok (r', v) \<longleftrightarrow> next_request_activity_position r = Ok v \<and> r' = r\<lparr>rq_activity_version := v\<rparr>"
  by (auto simp: advance_request_activity_def and_then_Ok_iff)

lemma next_position_update [simp]:
  "next_request_activity_position (r\<lparr>rq_updated_at_unix := t\<rparr>) = next_request_activity_position r"
  by (simp add: next_request_activity_position_def)

lemma settle_status_simps [simp]:
  "dn_id (settle_status d t x n) = dn_id d" "dn_request_id (settle_status d t x n) = dn_request_id d"
  "dn_opened_position (settle_status d t x n) = dn_opened_position d"
  "dn_last_activity_position (settle_status d t x n) = dn_last_activity_position d"
  "dn_status (settle_status d t x n) = dn_status d" "dn_author (settle_status d t x n) = dn_author d"
  by (simp_all add: settle_status_def split: request_discussion_status.split)

lemma settle_status_text [simp]: "discussion_text (settle_status d t x n) = discussion_text d"
  by (simp add: settle_status_def discussion_text_def split: request_discussion_status.split)

lemma discussion_text_update [simp]:
  "discussion_text (d\<lparr>dn_last_activity_position := v\<rparr>) = discussion_text d"
  "discussion_text (d\<lparr>dn_status := t\<rparr>) = discussion_text d"
  "discussion_text (d\<lparr>dn_resolved_at_unix := y\<rparr>) = discussion_text d"
  "discussion_text (d\<lparr>dn_resolved_by := z\<rparr>) = discussion_text d"
  by (simp_all add: discussion_text_def)

lemma settle_status_coherent [simp]: "dn_status d = t \<Longrightarrow> coherent (settle_status d t x n)"
  by (auto simp: settle_status_def coherent_def split: request_discussion_status.split)

lemma created_effect:
  assumes "create_request_discussion r ex input = Ok m"
  shows "opens r (cdm_request m) (cdm_discussion m)" and "\<not> ex" and "dn_id (cdm_discussion m) = cd_id input"
    and "new_read (cdm_request m) (cdm_discussion m) (cdm_read_state m)"
  using assms
  by (auto simp: create_request_discussion_def and_then_Ok_iff request_activity_advanced Let_def opens_def coherent_def
      new_read_def read_state_def ensure_request_matches_def position_advances split: if_split_asm)

lemma reply_target_quotes:
  assumes "validate_reply_target d (reply_by_id s quoted) i quoted v = Ok ()"
    and "dr_reply_to_reply_id x = quoted" and "dr_discussion_id x = i" and "dr_position x = v"
  shows "quotes_earlier (ds_replies s) x"
proof -
  have "\<exists>q \<in> set (ds_replies s). dr_id q = k \<and> dr_discussion_id q = i \<and> dr_position q < v" if "quoted = Some k" for k
    using assms(1) that
    by (auto simp: validate_reply_target_def reply_by_id_def find_Some_iff not_le split: if_split_asm option.split_asm)
  then show ?thesis using assms(2-4) by (auto simp: quotes_earlier_def)
qed

lemma replied_effect:
  assumes "create_request_discussion_reply r d (reply_by_id s (cr_reply_to_reply_id input)) (reply_exists s (cr_id input)) input = Ok m"
  shows "touches r d (crm_request m) (crm_discussion m)" and "new_reply s (crm_request m) (crm_discussion m) (crm_reply m)"
    and "new_read (crm_request m) (crm_discussion m) (crm_read_state m)" and "dn_status d = DiscussionOpen"
proof -
  obtain v where v: "next_request_activity_position r = Ok v" "\<not> reply_exists s (cr_id input)" "dn_id d = cr_discussion_id input"
    "validate_reply_target d (reply_by_id s (cr_reply_to_reply_id input)) (cr_discussion_id input) (cr_reply_to_reply_id input) v = Ok ()"
    "dn_status d \<noteq> DiscussionResolved"
    "crm_request m = r\<lparr>rq_activity_version := v, rq_updated_at_unix := cr_now_unix input\<rparr>"
    "crm_discussion m = d\<lparr>dn_last_activity_position := v\<rparr>"
    "crm_read_state m = read_state (d\<lparr>dn_last_activity_position := v\<rparr>) (cr_actor_user_id input) v (cr_now_unix input)"
    "dr_id (crm_reply m) = cr_id input" "dr_discussion_id (crm_reply m) = cr_discussion_id input" "dr_position (crm_reply m) = v"
    "dr_reply_to_reply_id (crm_reply m) = cr_reply_to_reply_id input"
    using assms unfolding create_request_discussion_reply_def
    by (auto simp: and_then_Ok_iff Let_def ensure_discussion_matches_def split: if_split_asm)
  show "touches r d (crm_request m) (crm_discussion m)"
    using position_advances [OF v(1)] v by (auto simp: touches_def coherent_def)
  show "new_reply s (crm_request m) (crm_discussion m) (crm_reply m)"
    using reply_target_quotes [OF v(4), of "crm_reply m"] v by (simp add: new_reply_def)
  show "new_read (crm_request m) (crm_discussion m) (crm_read_state m)" using v by (simp add: new_read_def read_state_def)
  show "dn_status d = DiscussionOpen" using v(5) by (cases "dn_status d") auto
qed

lemma reopened_and_replied_effect:
  assumes "reopen_and_reply_to_request_discussion r d (reply_by_id s (ro_reply_to_reply_id input)) input = Ok m"
    and "\<not> reply_exists s (ro_reply_id input)"
  shows "touches r d (crm_request m) (crm_discussion m)" and "new_reply s (crm_request m) (crm_discussion m) (crm_reply m)"
    and "new_read (crm_request m) (crm_discussion m) (crm_read_state m)"
proof -
  obtain v where v: "next_request_activity_position r = Ok v" "dn_id d = ro_discussion_id input"
    "validate_reply_target d (reply_by_id s (ro_reply_to_reply_id input)) (ro_discussion_id input) (ro_reply_to_reply_id input) v = Ok ()"
    "crm_request m = r\<lparr>rq_activity_version := v, rq_updated_at_unix := ro_now_unix input\<rparr>"
    "crm_discussion m = d\<lparr>dn_status := DiscussionOpen, dn_resolved_at_unix := None, dn_resolved_by := None,
                dn_last_activity_position := v\<rparr>"
    "rs_discussion_id (crm_read_state m) = dn_id d" "rs_read_through_position (crm_read_state m) = v"
    "dr_id (crm_reply m) = ro_reply_id input" "dr_discussion_id (crm_reply m) = ro_discussion_id input" "dr_position (crm_reply m) = v"
    "dr_reply_to_reply_id (crm_reply m) = ro_reply_to_reply_id input"
    using assms(1) unfolding reopen_and_reply_to_request_discussion_def
    by (auto simp: and_then_Ok_iff Let_def ensure_discussion_matches_def read_state_def split: if_split_asm)
  show "touches r d (crm_request m) (crm_discussion m)"
    using position_advances [OF v(1)] v by (simp add: touches_def coherent_def)
  show "new_reply s (crm_request m) (crm_discussion m) (crm_reply m)"
    using reply_target_quotes [OF v(3), of "crm_reply m"] v assms(2) by (simp add: new_reply_def)
  show "new_read (crm_request m) (crm_discussion m) (crm_read_state m)" using v by (simp add: new_read_def)
qed

lemma discussion_transition_effect:
  assumes "transition_discussion r d input target = Ok m"
  shows "touches r d (dm_request m) (dm_discussion m)" and "dn_status (dm_discussion m) = target"
  using assms unfolding transition_discussion_def
  by (cases target; force simp: and_then_Ok_iff Let_def request_activity_advanced touches_def position_advances
      split: if_split_asm)+

lemma marked_effect:
  assumes "mark_request_discussion_read d existing input = Ok state"
    and "\<And>x. existing = Some x \<Longrightarrow> rs_read_through_position x \<le> dn_last_activity_position d"
  shows "new_read r d state" and "rs_user_id state = mr_user_id input"
  using assms
  by (auto simp: mark_request_discussion_read_def and_then_Ok_iff Let_def new_read_def split: if_split_asm option.split_asm)

lemma imported_effect:
  assumes "import_github_discussion r views input = (Ok d, r')"
  shows "opens r r' d" and "dn_id d = gi_id input"
  using assms unfolding import_github_discussion_def
  by (auto simp: Let_def request_activity_advanced opens_def coherent_def position_advances split: sum.split_asm prod.split_asm)

lemma reply_imported_effect:
  assumes "import_github_reply r views d input = (Ok x, r', d')" and "\<not> reply_exists s (gr_id input)"
  shows "touches r d r' d'" and "new_reply s r' d' x"
proof -
  obtain v where v: "next_request_activity_position r = Ok v" "r' = r\<lparr>rq_updated_at_unix := gr_now_unix input, rq_activity_version := v\<rparr>"
    "d' = d\<lparr>dn_last_activity_position := v\<rparr>" "dr_id x = gr_id input" "dr_discussion_id x = dn_id d" "dr_position x = v"
    "dr_reply_to_reply_id x = None"
    using assms(1) unfolding import_github_reply_def
    by (auto simp: Let_def request_activity_advanced split: sum.split_asm prod.split_asm)
  show "touches r d r' d'" using position_advances [OF v(1)] v by (auto simp: touches_def coherent_def)
  show "new_reply s r' d' x" using v assms(2) by (auto simp: new_reply_def quotes_earlier_def)
qed

lemma thread_settled_effect:
  assumes "transition_github_discussion r views d account target now = (Ok changed, r', d')"
  shows "(r' = r \<and> d' = d) \<or> touches r d r' d'"
  using assms unfolding transition_github_discussion_def
  by (auto simp: Let_def request_activity_advanced touches_def position_advances split: sum.split_asm prod.split_asm if_split_asm)

section \<open>The invariant is kept\<close>

lemma reply_exists_iff: "reply_exists s i \<longleftrightarrow> i \<in> set (map dr_id (ds_replies s))"
  by (auto simp: reply_exists_def list_ex_iff)

lemma quotes_earlier_append: "quotes_earlier rs x \<Longrightarrow> quotes_earlier (rs @ ys) x"
  by (fastforce simp: quotes_earlier_def)

text \<open>
  A discussion may be replaced by one opened no later in which more happened; everything recorded of the others and
  of it stays valid.
\<close>

lemma kept_discussions:
  assumes ok: "store_ok s" and id: "rq_id r' = rq_id (ds_request s)"
    and later: "rq_activity_version (ds_request s) \<le> rq_activity_version r'"
    and new: "discussion_ok r' d'"
    and old: "\<And>d. ds_discussions s (dn_id d') = Some d \<Longrightarrow> dn_opened_position d' = dn_opened_position d \<and>
        dn_last_activity_position d \<le> dn_last_activity_position d'"
  shows "\<And>i d. ((ds_discussions s)(dn_id d' \<mapsto> d')) i = Some d \<Longrightarrow> dn_id d = i \<and> discussion_ok r' d"
    and "\<And>x. x \<in> set (ds_replies s) \<Longrightarrow> reply_ok ((ds_discussions s)(dn_id d' \<mapsto> d')) x"
    and "\<And>key x. ds_reads s key = Some x \<Longrightarrow> read_ok ((ds_discussions s)(dn_id d' \<mapsto> d')) key x"
    and "\<And>x. x \<in> set (ds_replies s) \<Longrightarrow> dr_position x \<le> rq_activity_version (ds_request s)"
proof -
  show "dn_id d = i \<and> discussion_ok r' d" if "((ds_discussions s)(dn_id d' \<mapsto> d')) i = Some d" for i d
    using that ok id later new by (auto simp: store_ok_def discussion_ok_def split: if_split_asm) force
  have reply: "reply_ok (ds_discussions s) x" if "x \<in> set (ds_replies s)" for x using that ok by (simp add: store_ok_def)
  then show "reply_ok ((ds_discussions s)(dn_id d' \<mapsto> d')) x" if "x \<in> set (ds_replies s)" for x
    using that old by (fastforce simp: reply_ok_def)
  have "read_ok (ds_discussions s) key x" if "ds_reads s key = Some x" for key x using that ok by (simp add: store_ok_def del: split_paired_All)
  then show "read_ok ((ds_discussions s)(dn_id d' \<mapsto> d')) key x" if "ds_reads s key = Some x" for key x
    using that old by (fastforce simp: read_ok_def)
  show "dr_position x \<le> rq_activity_version (ds_request s)" if x: "x \<in> set (ds_replies s)" for x
  proof -
    from reply [OF x] obtain d where "ds_discussions s (dr_discussion_id x) = Some d" "dr_position x \<le> dn_last_activity_position d"
      by (auto simp: reply_ok_def)
    moreover have "dn_last_activity_position d \<le> rq_activity_version (ds_request s)"
      using ok calculation(1) by (auto simp: store_ok_def discussion_ok_def)
    ultimately show ?thesis by simp
  qed
qed

lemma put_ok:
  assumes ok: "store_ok s" and id: "rq_id r' = rq_id (ds_request s)"
    and later: "rq_activity_version (ds_request s) \<le> rq_activity_version r'"
    and new: "discussion_ok r' d'"
    and old: "\<And>d. ds_discussions s (dn_id d') = Some d \<Longrightarrow> dn_opened_position d' = dn_opened_position d \<and>
        dn_last_activity_position d \<le> dn_last_activity_position d'"
    and reply: "\<And>x. reply = Some x \<Longrightarrow> new_reply s r' d' x \<and> dn_last_activity_position d' = rq_activity_version r' \<and>
        dn_opened_position d' < rq_activity_version r' \<and> rq_activity_version (ds_request s) < rq_activity_version r'"
    and read: "\<And>x. state = Some x \<Longrightarrow> new_read r' d' x"
  shows "store_ok (put s r' d' reply state)"
proof -
  note kept = kept_discussions [OF ok id later new old]
  let ?ds = "(ds_discussions s)(dn_id d' \<mapsto> d')"
  let ?rs = "ds_replies s @ (case reply of Some x \<Rightarrow> [x] | None \<Rightarrow> [])"
  have "reply_ok ?ds x \<and> quotes_earlier ?rs x" if "x \<in> set ?rs" for x
  proof (cases "x \<in> set (ds_replies s)")
    case True
    then show ?thesis using kept(2) ok quotes_earlier_append [of "ds_replies s" x] by (simp add: store_ok_def)
  next
    case False
    then have x: "reply = Some x" using that by (auto split: option.split_asm)
    from reply [OF this] have "reply_ok ?ds x" by (auto simp: new_reply_def reply_ok_def)
    then show ?thesis using reply [OF x] quotes_earlier_append [of "ds_replies s" x] by (simp add: new_reply_def)
  qed
  moreover have "sorted_wrt (<) (map dr_position ?rs)" "distinct (map dr_id ?rs)"
    using ok reply kept(4) by (auto simp: store_ok_def new_reply_def reply_exists_iff sorted_wrt_append split: option.splits intro: le_less_trans)
  moreover have "read_ok ?ds key x" if "ds_reads (put s r' d' reply state) key = Some x" for key x
  proof (cases "ds_reads s key = Some x")
    case False
    then have "state = Some x" "key = (rs_discussion_id x, rs_user_id x)"
      using that by (auto simp: put_def split: option.split_asm if_split_asm)
    with read show ?thesis by (auto simp: read_ok_def new_read_def)
  qed (rule kept(3))
  moreover have "ds_discussions (put s r' d' reply state) = ?ds" "ds_replies (put s r' d' reply state) = ?rs"
    "ds_request (put s r' d' reply state) = r'" by (simp_all add: put_def)
  ultimately show ?thesis unfolding store_ok_def using kept(1) by (metis (no_types, lifting))
qed


lemma opens_ok:
  assumes "store_ok s" and "opens (ds_request s) r' d'" and "dn_id d' \<notin> dom (ds_discussions s)"
    and "\<And>x. state = Some x \<Longrightarrow> new_read r' d' x"
  shows "store_ok (put s r' d' None state)"
  using assms by (intro put_ok) (auto simp: opens_def discussion_ok_def)

lemma touches_ok:
  assumes ok: "store_ok s" and d: "ds_discussions s i = Some d" and t: "touches (ds_request s) d r' d'"
    and "\<And>x. reply = Some x \<Longrightarrow> new_reply s r' d' x" and "\<And>x. state = Some x \<Longrightarrow> new_read r' d' x"
  shows "store_ok (put s r' d' reply state)"
proof -
  have i: "dn_id d = i" "discussion_ok (ds_request s) d" using ok d by (auto simp: store_ok_def)
  then have "dn_opened_position d' < rq_activity_version r'" using t by (auto simp: touches_def discussion_ok_def)
  then show ?thesis using assms i by (intro put_ok) (auto simp: touches_def discussion_ok_def)
qed

lemma discussion_step_kept: "discussion_step s s' \<Longrightarrow> store_ok s \<Longrightarrow> store_ok s'"
proof (induction rule: discussion_step.induct)
  case (created s input m)
  then show ?case using created_effect [OF created(1)] by (intro opens_ok) auto
next
  case (replied s input d m)
  then show ?case using replied_effect [OF replied(2)] by (intro touches_ok) auto
next
  case (reopened_and_replied s input d m)
  then show ?case using reopened_and_replied_effect [OF reopened_and_replied(3,2)] by (intro touches_ok) auto
next
  case (resolved s input d m)
  then show ?case using discussion_transition_effect(1) [of _ _ input DiscussionResolved m]
    by (intro touches_ok) (auto simp: resolve_request_discussion_def)
next
  case (reopened s input d m)
  then show ?case using discussion_transition_effect(1) [of _ _ input DiscussionOpen m]
    by (intro touches_ok) (auto simp: reopen_request_discussion_def)
next
  case (marked_read s input d state)
  have "rs_read_through_position x \<le> dn_last_activity_position d" if "ds_reads s (mr_discussion_id input, mr_user_id input) = Some x" for x
    using that marked_read(1,3) by (fastforce simp: store_ok_def read_ok_def)
  from marked_effect(1) [OF marked_read(2) this] marked_read show ?case
    by (intro put_ok) (auto simp: store_ok_def)
next
  case (imported input s views d r)
  then show ?case using imported_effect [OF imported(2)] by (intro opens_ok) auto
next
  case (reply_imported s i d input views reply r d')
  then show ?case using reply_imported_effect [OF reply_imported(3,2)] by (intro touches_ok) auto
next
  case (thread_settled s i d views account target now changed r d')
  from thread_settled_effect [OF thread_settled(2)] show ?case
  proof
    assume "r = ds_request s \<and> d' = d"
    then show ?thesis using thread_settled by (intro put_ok) (auto simp: store_ok_def)
  qed (use thread_settled in \<open>auto intro: touches_ok\<close>)
next
  case (request_changed r s)
  then show ?case by (fastforce simp: store_ok_def discussion_ok_def)
qed

text \<open>A step adds at most one reply and one discussion, and rewrites no text that is already there.\<close>

definition grows :: "discussion_store \<Rightarrow> discussion_store \<Rightarrow> bool" where
  "grows s s' \<longleftrightarrow> prefix (ds_replies s) (ds_replies s') \<and>
     (\<forall>i d. ds_discussions s i = Some d \<longrightarrow> (\<exists>d'. ds_discussions s' i = Some d' \<and> discussion_text d' = discussion_text d))"

lemma grows_put:
  assumes "\<And>d. ds_discussions s (dn_id d') = Some d \<Longrightarrow> discussion_text d' = discussion_text d"
  shows "grows s (put s r' d' reply state)"
  using assms by (auto simp: grows_def put_def)

lemma grows_touched:
  assumes "store_ok s" and "ds_discussions s i = Some d" and "touches (ds_request s) d r' d'"
  shows "grows s (put s r' d' reply state)"
  using assms by (intro grows_put) (auto simp: touches_def store_ok_def)

lemma grows_opened: "dn_id d' \<notin> dom (ds_discussions s) \<Longrightarrow> grows s (put s r' d' reply state)"
  by (rule grows_put) auto

lemma grows_same: "store_ok s \<Longrightarrow> ds_discussions s i = Some d \<Longrightarrow> grows s (put s r' d reply state)"
  by (rule grows_put) (auto simp: store_ok_def)

lemma discussion_step_grows: "discussion_step s s' \<Longrightarrow> store_ok s \<Longrightarrow> grows s s'"
proof (induction rule: discussion_step.induct)
  case (created s input m)
  then show ?case using created_effect(2,3) [OF created(1)] by (intro grows_opened) simp
next
  case (replied s input d m)
  then show ?case using replied_effect(1) grows_touched by blast
next
  case (reopened_and_replied s input d m)
  then show ?case using reopened_and_replied_effect(1) grows_touched by blast
next
  case (resolved s input d m)
  then show ?case using discussion_transition_effect(1) grows_touched by (fastforce simp: resolve_request_discussion_def)
next
  case (reopened s input d m)
  then show ?case using discussion_transition_effect(1) grows_touched by (fastforce simp: reopen_request_discussion_def)
next
  case (imported input s views d r)
  then show ?case using imported_effect(2) [OF imported(2)] by (intro grows_opened) simp
next
  case (reply_imported s i d input views reply r d')
  then show ?case using reply_imported_effect(1) grows_touched by blast
next
  case (thread_settled s i d views account target now changed r d')
  then show ?case using thread_settled_effect [OF thread_settled(2)] grows_touched grows_same by metis
next
  case (marked_read s input d state)
  then show ?case by (intro grows_same)
qed (simp add: grows_def)

lemma grows_trans: "grows s s' \<Longrightarrow> grows s' s'' \<Longrightarrow> grows s s''"
  unfolding grows_def by (metis prefix_order.trans)

lemma grows_refl: "grows s s" by (simp add: grows_def)

interpretation dl: lifecycle discussion_step store_ok "\<lambda>s. s" grows
  by unfold_locales (use discussion_step_kept discussion_step_grows in blast)+

end
