(* ===== verification/Discussion_Properties.thy ===== *)
theory Discussion_Properties
  imports Discussion_Machine Request_Properties
begin

text \<open>
  What the discussions of a request promise over every history of operations, who may settle one, what reading
  positions mean, and what ratings can exist.
\<close>

section \<open>Histories of discussions\<close>

definition no_discussions :: "request \<Rightarrow> discussion_store" where
  "no_discussions r = \<lparr>ds_request = r, ds_discussions = Map.empty, ds_replies = [], ds_reads = Map.empty\<rparr>"

lemma no_discussions_ok: "store_ok (no_discussions r)"
  by (simp add: store_ok_def no_discussions_def)

lemma discussions_grow: "discussion_step\<^sup>*\<^sup>* s s' \<Longrightarrow> store_ok s \<Longrightarrow> grows s s'"
proof -
  assume "discussion_step\<^sup>*\<^sup>* s s'" "store_ok s"
  then have "grows\<^sup>*\<^sup>* s s'" by (rule dl.status_path)
  then show "grows s s'" by (induction rule: rtranclp_induct) (auto intro: grows_refl grows_trans)
qed

definition demo_discussion :: create_request_discussion_input where
  "demo_discussion = \<lparr>cd_request_id = rq_id demo_open, cd_id = ''d'', cd_actor_user_id = ''u'', cd_actor_can_participate = True,
     cd_client_discussion_id = ''c'', cd_body_markdown = ''why'', cd_anchor = None, cd_now_unix = 9\<rparr>"

lemma demo_discussion_opened:
  "\<exists>s d. discussion_step\<^sup>*\<^sup>* (no_discussions demo_open) s \<and> ds_discussions s ''d'' = Some d \<and> dn_status d = DiscussionOpen"
proof -
  obtain m where m: "create_request_discussion demo_open False demo_discussion = Ok m"
    "dn_id (cdm_discussion m) = ''d''" "dn_status (cdm_discussion m) = DiscussionOpen"
    by (simp add: create_request_discussion_def demo_discussion_def validate_common_def visible_ascii_def validate_body_size_def
        REQUEST_DISCUSSION_BODY_MAX_BYTES_def REQUEST_DISCUSSION_CLIENT_ID_MAX_BYTES_def ensure_request_matches_def
        advance_request_activity_def next_request_activity_position_def demo_defs checked_add_def Let_def)
  let ?s = "put (no_discussions demo_open) (cdm_request m) (cdm_discussion m) None (Some (cdm_read_state m))"
  have "discussion_step (no_discussions demo_open) ?s"
    by (rule created) (use m(1) in \<open>simp add: no_discussions_def\<close>)
  moreover have "ds_discussions ?s ''d'' = Some (cdm_discussion m)" by (simp add: put_def m(2))
  ultimately show ?thesis using m(3) by blast
qed

text \<open>
  C28: after any sequence of operations by users and by imported GitHub reviews on the discussions of a request, with
  any other activity of the request in between, a discussion is resolved exactly when who resolved it and when are both
  recorded; its activity lies between its opening and the counter of the request; every reply belongs to a discussion
  opened before it; a quoted reply is an earlier reply of the same discussion; replies have distinct identifiers and
  strictly increasing positions; and nobody has read past the last activity.
\<close>

theorem discussion_histories_consistent:
  assumes "discussion_step\<^sup>*\<^sup>* (no_discussions r) s"
  shows "(\<forall>i d. ds_discussions s i = Some d \<longrightarrow>
      dn_id d = i \<and> dn_request_id d = rq_id (ds_request s) \<and>
      (dn_status d = DiscussionResolved \<longleftrightarrow> dn_resolved_by d \<noteq> None) \<and> (dn_resolved_by d = None \<longleftrightarrow> dn_resolved_at_unix d = None) \<and>
      dn_opened_position d \<le> dn_last_activity_position d \<and> dn_last_activity_position d \<le> rq_activity_version (ds_request s))
    \<and> (\<forall>x \<in> set (ds_replies s).
      (\<exists>d. ds_discussions s (dr_discussion_id x) = Some d \<and> dn_opened_position d < dr_position x \<and>
         dr_position x \<le> dn_last_activity_position d) \<and>
      (\<forall>i. dr_reply_to_reply_id x = Some i \<longrightarrow> (\<exists>q \<in> set (ds_replies s).
         dr_id q = i \<and> dr_discussion_id q = dr_discussion_id x \<and> dr_position q < dr_position x)))
    \<and> sorted_wrt (<) (map dr_position (ds_replies s)) \<and> distinct (map dr_id (ds_replies s))
    \<and> (\<forall>i u x. ds_reads s (i, u) = Some x \<longrightarrow>
         (\<exists>d. ds_discussions s i = Some d \<and> rs_read_through_position x \<le> dn_last_activity_position d))"
proof -
  have ok: "store_ok s" using dl.ok_reachable [OF assms] no_discussions_ok by blast
  then have "\<forall>i u x. ds_reads s (i, u) = Some x \<longrightarrow>
         (\<exists>d. ds_discussions s i = Some d \<and> rs_read_through_position x \<le> dn_last_activity_position d)"
    by (fastforce simp: store_ok_def read_ok_def)
  moreover note ok [unfolded store_ok_def discussion_ok_def coherent_def reply_ok_def quotes_earlier_def]
  ultimately show ?thesis by blast
qed

lemma discussion_histories_consistent_witness:
  "\<exists>s d. discussion_step\<^sup>*\<^sup>* (no_discussions demo_open) s \<and> ds_discussions s ''d'' = Some d \<and> dn_resolved_by d = None \<and>
     dn_last_activity_position d \<le> rq_activity_version (ds_request s)"
proof -
  obtain s d where s: "discussion_step\<^sup>*\<^sup>* (no_discussions demo_open) s" "ds_discussions s ''d'' = Some d" "dn_status d = DiscussionOpen"
    using demo_discussion_opened by blast
  note d = conjunct1 [OF discussion_histories_consistent [OF s(1)], rule_format, OF s(2)]
  have "dn_resolved_by d = None \<and> dn_last_activity_position d \<le> rq_activity_version (ds_request s)" using d s(3) by simp
  with s show ?thesis by blast
qed

text \<open>
  What was said stays said. No sequence of operations removes a discussion or a reply, reorders replies, or
  changes the author, text, anchor, opening position or creation time of a discussion.
\<close>

theorem discussions_append_only:
  assumes "discussion_step\<^sup>*\<^sup>* (no_discussions r) s" and "discussion_step\<^sup>*\<^sup>* s s'"
  shows "prefix (ds_replies s) (ds_replies s') \<and>
    (\<forall>i d. ds_discussions s i = Some d \<longrightarrow> (\<exists>d'. ds_discussions s' i = Some d' \<and> dn_author d' = dn_author d \<and>
       dn_body_markdown d' = dn_body_markdown d \<and> dn_anchor d' = dn_anchor d \<and>
       dn_opened_position d' = dn_opened_position d \<and> dn_created_at_unix d' = dn_created_at_unix d))"
proof -
  have "store_ok s" using dl.ok_reachable [OF assms(1)] no_discussions_ok by blast
  from discussions_grow [OF assms(2) this] show ?thesis by (fastforce simp: grows_def discussion_text_def)
qed

lemma discussions_append_only_witness:
  "\<exists>s d. discussion_step\<^sup>*\<^sup>* (no_discussions demo_open) s \<and> ds_discussions s ''d'' = Some d \<and>
     (\<exists>d'. ds_discussions (s\<lparr>ds_request := ds_request s\<rparr>) ''d'' = Some d' \<and> dn_body_markdown d' = dn_body_markdown d)"
proof -
  obtain s d where s: "discussion_step\<^sup>*\<^sup>* (no_discussions demo_open) s" "ds_discussions s ''d'' = Some d"
    using demo_discussion_opened by blast
  have "discussion_step\<^sup>*\<^sup>* s (s\<lparr>ds_request := ds_request s\<rparr>)" by (intro r_into_rtranclp request_changed) simp_all
  from discussions_append_only [OF s(1) this] s show ?thesis by blast
qed

section \<open>Settling a discussion\<close>

lemma and_then_pair_Ok: "(\<exists>m. and_then x (\<lambda>(a, b). Ok (f a b)) = Ok m) \<longleftrightarrow> (\<exists>a b. x = Ok (a, b))"
  by (auto simp: and_then_Ok_iff split: prod.split)

lemma transition_accepted_iff:
  "(\<exists>m. transition_discussion r d input target = Ok m) \<longleftrightarrow>
     trim (dt_event_id input) \<noteq> [] \<and> rq_id r = dt_request_id input \<and> dn_id d = dt_discussion_id input \<and>
     dn_request_id d = dt_request_id input \<and> dt_actor_can_transition input \<and>
     \<not> (rq_view r = ViewId_private \<and> is_terminal r) \<and>
     (dt_actor_is_maintainer input \<or> author_user_id (dn_author d) = Some (dt_actor_user_id input) \<or>
      is_author r (dt_actor_user_id input)) \<and>
     dn_status d \<noteq> target \<and> unat (rq_activity_version r) + 1 < 2 ^ 64"
proof -
  have "(\<exists>r' v. advance_request_activity (r\<lparr>rq_updated_at_unix := t\<rparr>) = Ok (r', v)) \<longleftrightarrow>
      unat (rq_activity_version r) + 1 < 2 ^ 64" for t
    by (simp add: request_activity_advanced next_request_activity_position_def checked_add_def)
  then show ?thesis
    unfolding transition_discussion_def validate_required_def ensure_request_matches_def
      ensure_request_discussion_transition_allowed_def ensure_discussion_matches_def ensure_can_transition_def
    by (cases target) (auto simp: Let_def and_then_pair_Ok)
qed

text \<open>
  A discussion is resolved or reopened by a user exactly when the command names it and its request, the request
  policy allows the transition, the request is not a completed private one, the actor maintains the repository or wrote
  the discussion or the request, the discussion is not in that status already, and the activity counter has room. The
  accepted command records the actor as resolver when it resolves and clears the resolver when it reopens.
\<close>

theorem discussion_settled_by_its_people:
  "(\<exists>m. transition_discussion r d input target = Ok m \<and> dn_status (dm_discussion m) = target \<and>
      dn_resolved_by (dm_discussion m) =
        (if target = DiscussionResolved then Some (ResolverUser (dt_actor_user_id input)) else None) \<and>
      ev_position (dm_event m) = rq_activity_version r + 1 \<and> rq_activity_version (dm_request m) = rq_activity_version r + 1) \<longleftrightarrow>
     trim (dt_event_id input) \<noteq> [] \<and> rq_id r = dt_request_id input \<and> dn_id d = dt_discussion_id input \<and>
     dn_request_id d = dt_request_id input \<and> dt_actor_can_transition input \<and>
     \<not> (rq_view r = ViewId_private \<and> is_terminal r) \<and>
     (dt_actor_is_maintainer input \<or> author_user_id (dn_author d) = Some (dt_actor_user_id input) \<or>
      is_author r (dt_actor_user_id input)) \<and>
     dn_status d \<noteq> target \<and> unat (rq_activity_version r) + 1 < 2 ^ 64"
proof -
  have "dn_resolved_by (dm_discussion m) =
        (if target = DiscussionResolved then Some (ResolverUser (dt_actor_user_id input)) else None) \<and>
      ev_position (dm_event m) = rq_activity_version r + 1 \<and> rq_activity_version (dm_request m) = rq_activity_version r + 1"
    if "transition_discussion r d input target = Ok m" for m
    using that unfolding transition_discussion_def
    by (cases target) (auto simp: and_then_Ok_iff Let_def request_activity_advanced settle_status_def
        next_request_activity_position_def checked_add_def split: if_split_asm)
  with discussion_transition_effect(2) transition_accepted_iff [of r d input target] show ?thesis by blast
qed

section \<open>Reading positions\<close>

lemma read_position_monotone:
  assumes "mark_request_discussion_read d (Some x) input = Ok y"
    and "rs_discussion_id x = mr_discussion_id input" and "rs_user_id x = mr_user_id input"
    and "rs_read_through_position x \<le> dn_last_activity_position d"
  shows "rs_read_through_position x \<le> rs_read_through_position y \<and> rs_read_through_position y \<le> dn_last_activity_position d \<and>
    mark_request_discussion_read d (Some y) input = Ok y"
  using assms
  by (auto simp: mark_request_discussion_read_def and_then_Ok_iff Let_def not_less split: if_split_asm)

section \<open>GitHub\<close>

lemma parse_u64_show: "parse_u64 (show_nat (unat i)) = Some i"
proof -
  have start: "show_nat (unat i) \<noteq> []" "hd (show_nat (unat i)) \<noteq> CHR ''+''"
    using show_nat_start [of "unat i"] by (auto simp: is_ascii_digit_def less_eq_char_def)
  then obtain c cs where "show_nat (unat i) = c # cs" "c \<noteq> CHR ''+''" by (cases "show_nat (unat i)") auto
  then have "parse_u64 (show_nat (unat i)) = parse_digits 0 (show_nat (unat i))"
    by (simp add: parse_u64_def strip_prefix_def del: parse_digits.simps)
  then show ?thesis using parse_show [of "unat i"] unat_less_pow [of i] by simp
qed

lemma review_id_roundtrip: "github_review_id_from_client_id (github_review_client_id i) = Some i"
  by (simp add: github_review_id_from_client_id_def github_review_client_id_def strip_prefix_def parse_u64_show)

lemma github_settles_only_its_own:
  assumes "transition_github_discussion r views d account target now = (res, r', d')" and "d' \<noteq> d"
  shows "is_github_author (dn_author d) \<and> accepts_github_reviews r views \<and> res = Ok True \<and> dn_status d' = target"
  using assms unfolding transition_github_discussion_def
  by (auto simp: Let_def ensure_accepts_github_reviews_def ensure_discussion_of_def split: sum.split_asm prod.split_asm if_split_asm)

lemma failed_import_changes_only_the_time:
  assumes "import_github_reply r views d input = (Err e, r', d')"
  shows "d' = d \<and> (r' = r \<or> r' = r\<lparr>rq_updated_at_unix := gr_now_unix input\<rparr>)"
  using assms unfolding import_github_reply_def by (auto simp: Let_def split: sum.split_asm prod.split_asm)

text \<open>Every anchor offered for an imported comment is one the import accepts, and names the newest revision with that head.\<close>

lemma validate_anchor_Ok:
  "validate_anchor a = Ok () \<longleftrightarrow> trim (da_revision_id a) \<noteq> [] \<and> (\<forall>oid. da_commit_oid a = Some oid \<longrightarrow> trim oid \<noteq> []) \<and>
     (da_lines a \<noteq> None \<longrightarrow> da_path a \<noteq> None)"
  by (auto simp: validate_anchor_def and_then_Ok_iff validate_required_def split: option.split)

lemma line_anchor_fields:
  assumes "line_anchor file selected = Some a"
  shows "da_revision_id a = da_revision_id file \<and> da_commit_oid a = da_commit_oid file \<and> da_path a = da_path file"
proof -
  obtain side start line where sel: "selected = Some (side, start, line)"
    using assms by (cases selected) (auto simp: line_anchor_def)
  then show ?thesis using assms
    by (cases "RequestLineRange_new (case start of Some l \<Rightarrow> l | None \<Rightarrow> line) line") (auto simp: line_anchor_def)
qed

lemma comment_anchors_accepted:
  assumes "a \<in> set (github_comment_anchors at revisions)" and "\<And>rv. rv \<in> set revisions \<Longrightarrow> trim (rv_id rv) \<noteq> []"
  shows "validate_anchor a = Ok () \<and> (\<exists>rv \<in> set revisions. da_revision_id a = rv_id rv \<and> rv_new_head_oid rv = fst (comment_target at) \<and>
    (\<forall>other \<in> set revisions. rv_new_head_oid other = rv_new_head_oid rv \<longrightarrow> rv_position other \<le> rv_position rv))"
proof -
  obtain rv where rv: "newest_revision_with_head revisions (fst (comment_target at)) = Some rv"
    and a: "da_revision_id a = rv_id rv" "da_commit_oid a = None" "da_lines a \<noteq> None \<longrightarrow> da_path a \<noteq> None"
  proof -
    obtain oid sel where ct: "comment_target at = (oid, sel)" by fastforce
    obtain rv where rv: "newest_revision_with_head revisions oid = Some rv"
      using assms(1) by (cases "newest_revision_with_head revisions oid") (auto simp: github_comment_anchors_def ct)
    show thesis
    proof (cases "changed_path (gp_path at)")
      case None
      then show thesis using that [of rv] assms(1) ct rv by (simp add: github_comment_anchors_def)
    next
      case (Some path)
      let ?file = "\<lparr>da_revision_id = rv_id rv, da_commit_oid = None, da_path = Some path, da_lines = None\<rparr>"
      have "line_anchor ?file sel = Some a \<or> a = ?file \<or> a = \<lparr>da_revision_id = rv_id rv, da_commit_oid = None, da_path = None, da_lines = None\<rparr>"
        using assms(1) ct rv Some by (auto simp: github_comment_anchors_def Let_def split: option.split_asm)
      then show thesis using that [of rv] ct rv line_anchor_fields [of ?file sel a] by auto
    qed
  qed
  have "rv \<in> set revisions" "rv_new_head_oid rv = fst (comment_target at)"
    "\<forall>other \<in> set revisions. rv_new_head_oid other = rv_new_head_oid rv \<longrightarrow> rv_position other \<le> rv_position rv"
    using max_by_key_Some [OF rv [unfolded newest_revision_with_head_def]] by auto
  then show ?thesis using a assms(2) by (auto simp: validate_anchor_Ok)
qed

lemma boundary_at_most_ok: "boundary_at_most s n \<le> n \<and> (n \<le> length s \<longrightarrow> is_char_boundary s (boundary_at_most s n))"
  by (induction n) (auto simp: is_char_boundary_def)

lemma comment_body_fits:
  assumes "github_comment_body body = Some b"
  shows "prefix b (trim body) \<and> length b \<le> REQUEST_DISCUSSION_BODY_MAX_BYTES \<and> is_char_boundary (trim body) (length b)"
proof -
  define n where "n = boundary_at_most (trim body) (min (length (trim body)) REQUEST_DISCUSSION_BODY_MAX_BYTES)"
  have b: "b = take n (trim body)" using assms by (auto simp: github_comment_body_def Let_def n_def split: if_split_asm)
  have n: "n \<le> min (length (trim body)) REQUEST_DISCUSSION_BODY_MAX_BYTES" "is_char_boundary (trim body) n"
    using boundary_at_most_ok [of "trim body" "min (length (trim body)) REQUEST_DISCUSSION_BODY_MAX_BYTES"] by (auto simp: n_def)
  then have "length b = n" by (simp add: b)
  with n show ?thesis by (simp add: b take_is_prefix)
qed

section \<open>Ratings\<close>

definition rated_pair :: "request \<Rightarrow> string \<Rightarrow> string \<Rightarrow> bool" where
  "rated_pair r rater subject \<longleftrightarrow> rater \<noteq> subject \<and>
     (\<exists>author actor. rq_author_user_id r = Some author \<and>
        (case rq_merged_by_user_id r of Some u \<Rightarrow> Some u | None \<Rightarrow> rq_closed_by_user_id r) = Some actor \<and>
        {rater, subject} = {author, actor})"

definition rating_ok :: "request \<Rightarrow> request_rating \<Rightarrow> bool" where
  "rating_ok r x \<longleftrightarrow> rated_pair r (ra_rater_user_id x) (ra_subject_user_id x) \<and> 1 \<le> unat (ra_score x) \<and> unat (ra_score x) \<le> 5"

inductive rated :: "request \<Rightarrow> request_rating list \<Rightarrow> bool" where
  none: "rated r []"
| given: "rated r xs \<Longrightarrow> create_request_rating r xs input = Ok x \<Longrightarrow> rated r (xs @ [x])"

lemma eligible_pair:
  "eligible_rating_subject_user_id r actor xs = Some subject \<Longrightarrow> actor \<notin> ra_rater_user_id ` set xs \<and> rated_pair r actor subject"
  by (auto simp: eligible_rating_subject_user_id_def rated_pair_def bind_eq_Some_conv list_ex_iff split: if_split_asm)

lemma created_rating:
  assumes "create_request_rating r xs input = Ok x"
  shows "rating_ok r x \<and> length xs < 2 \<and> ra_rater_user_id x \<notin> ra_rater_user_id ` set xs"
  using assms unfolding create_request_rating_def
  by (auto simp: and_then_Ok_iff Let_def rating_ok_def word_le_nat_alt dest!: eligible_pair split: if_split_asm option.split_asm)

lemma rated_invariant: "rated r xs \<Longrightarrow> length xs \<le> 2 \<and> distinct (map ra_rater_user_id xs) \<and> list_all (rating_ok r) xs"
  by (induction rule: rated.induct) (auto dest: created_rating)

lemma score_totals: "list_all (rating_ok r) xs \<Longrightarrow> length xs \<le> (\<Sum>x\<leftarrow>xs. unat (ra_score x)) \<and> (\<Sum>x\<leftarrow>xs. unat (ra_score x)) \<le> 5 * length xs"
  by (induction xs) (auto simp: rating_ok_def)

text \<open>
  The ratings of a request, in whatever order they were given, are at most two, at most one by each participant,
  and each is given by the author to whoever merged or closed the request or by them to the author, never to oneself
  and never by a third person, with a score from 1 to 5. Their totals are always accepted as a reputation.
\<close>

theorem ratings_between_participants:
  assumes "rated r xs"
  shows "length xs \<le> 2 \<and> distinct (map ra_rater_user_id xs) \<and>
    (\<forall>x \<in> set xs. ra_rater_user_id x \<noteq> ra_subject_user_id x \<and>
       (\<exists>author actor. rq_author_user_id r = Some author \<and>
          (case rq_merged_by_user_id r of Some u \<Rightarrow> Some u | None \<Rightarrow> rq_closed_by_user_id r) = Some actor \<and>
          {ra_rater_user_id x, ra_subject_user_id x} = {author, actor})) \<and>
    RequestReputation_from_totals (of_nat (\<Sum>x\<leftarrow>xs. unat (ra_score x))) (of_nat (length xs)) =
      Ok \<lparr>rp_score_sum = of_nat (\<Sum>x\<leftarrow>xs. unat (ra_score x)), rp_rating_count = of_nat (length xs)\<rparr>"
proof -
  note inv = rated_invariant [OF assms]
  define total where "total = (\<Sum>x\<leftarrow>xs. unat (ra_score x))"
  have t: "length xs \<le> total" "total \<le> 5 * length xs" "length xs \<le> 2"
    using score_totals [of r xs] inv by (auto simp: total_def)
  have u: "unat (of_nat total :: u64) = total" "unat (of_nat (length xs) :: u64) = length xs"
    "unat (of_nat (length xs) * 5 :: u64) = length xs * 5"
    using t unat_of_nat64 [of total] unat_of_nat64 [of "length xs"] unat_of_nat64 [of "length xs * 5"] by simp_all
  have zero: "(of_nat (length xs) :: u64) = 0 \<longleftrightarrow> length xs = 0" "(of_nat total :: u64) = 0 \<longleftrightarrow> total = 0"
    using u(1,2) by (metis unat_0 unat_eq_0)+
  have "RequestReputation_from_totals (of_nat total) (of_nat (length xs)) =
      Ok \<lparr>rp_score_sum = of_nat total, rp_rating_count = of_nat (length xs)\<rparr>"
    using t by (auto simp: RequestReputation_from_totals_def Let_def u word_le_nat_alt word_less_nat_alt zero)
  with inv show ?thesis by (auto simp: total_def list_all_iff rating_ok_def rated_pair_def)
qed

lemma ratings_between_participants_witness:
  "\<exists>x. rated (demo_merged\<lparr>rq_author_user_id := Some ''a'', rq_merged_by_user_id := Some ''m''\<rparr>) [x] \<and>
     {ra_rater_user_id x, ra_subject_user_id x} = {''a'', ''m''}"
proof -
  define r where "r = demo_merged\<lparr>rq_author_user_id := Some ''a'', rq_merged_by_user_id := Some ''m''\<rparr>"
  define x where "x = \<lparr>ra_id = ''x'', ra_request_id = rq_id r, ra_rater_user_id = ''m'', ra_subject_user_id = ''a'', ra_score = 4,
     ra_reason = ''kind'', ra_created_at_unix = 9\<rparr>"
  have "create_request_rating r [] \<lparr>rt_id = ''x'', rt_request_id = rq_id r, rt_actor_user_id = ''m'', rt_score = 4,
      rt_reason = ''kind'', rt_now_unix = 9\<rparr> = Ok x"
    by (simp add: create_request_rating_def r_def x_def demo_defs visible_ascii_def trim_visible validate_body_size_def
        REQUEST_RATING_REASON_MAX_BYTES_def eligible_rating_subject_user_id_def)
  from given [OF none this] have "rated r [x]" by simp
  moreover from ratings_between_participants [OF this] have "{ra_rater_user_id x, ra_subject_user_id x} = {''a'', ''m''}"
    by (auto simp: r_def)
  ultimately show ?thesis unfolding r_def by blast
qed

end
