(* ===== verification/Attachments.thy ===== *)
theory Attachments
  imports Request_Access
begin

text \<open>
  Photos and videos attached to a request: \<^verbatim>\<open>requests/attachments/model.rs\<close>, \<^verbatim>\<open>rules.rs\<close>, \<^verbatim>\<open>references.rs\<close> and
  \<^verbatim>\<open>processing.rs\<close>. The Markdown parser is third-party code: its link and image destinations, in the order of the
  text, are the parameter \<open>destinations\<close> of the definitions that read Markdown. Strings are byte strings;
  \<^verbatim>\<open>char::is_control\<close> reads the one-byte control characters and the two-byte ones from U+0080 to U+009F.
\<close>

section \<open>Data\<close>

definition REQUEST_ATTACHMENT_PHOTO_MEDIA_TYPES :: "string list" where
  "REQUEST_ATTACHMENT_PHOTO_MEDIA_TYPES = [''image/png'', ''image/jpeg'', ''image/webp'', ''image/gif'', ''image/heic'', ''image/heif'']"
definition REQUEST_ATTACHMENT_VIDEO_MEDIA_TYPES :: "string list" where
  "REQUEST_ATTACHMENT_VIDEO_MEDIA_TYPES = [''video/mp4'', ''video/quicktime'', ''video/webm'']"
definition REQUEST_MEDIA_CHUNK_BYTES :: u64 where "REQUEST_MEDIA_CHUNK_BYTES = 8 * 1024 * 1024"

datatype attachment_kind = Photo | Video

definition AttachmentKind_from_media_type :: "string \<Rightarrow> attachment_kind option" where
  "AttachmentKind_from_media_type media_type =
     (let m = trim media_type in
      if list_ex (eq_ignore_ascii_case m) REQUEST_ATTACHMENT_PHOTO_MEDIA_TYPES then Some Photo
      else if list_ex (eq_ignore_ascii_case m) REQUEST_ATTACHMENT_VIDEO_MEDIA_TYPES then Some Video
      else None)"

datatype attachment_state =
  AttachmentPrepared | AttachmentUploaded | AttachmentProcessing | AttachmentReady | AttachmentFailed | AttachmentRejected

definition attachment_state_debug :: "attachment_state \<Rightarrow> string" where
  "attachment_state_debug s =
     (case s of AttachmentPrepared \<Rightarrow> ''Prepared'' | AttachmentUploaded \<Rightarrow> ''Uploaded'' | AttachmentProcessing \<Rightarrow> ''Processing''
      | AttachmentReady \<Rightarrow> ''Ready'' | AttachmentFailed \<Rightarrow> ''Failed'' | AttachmentRejected \<Rightarrow> ''Rejected'')"

datatype attachment_target =
  ForDescription | ForDiscussion "string option" | ForReply string

definition writable_with :: "attachment_target \<Rightarrow> request_permissions \<Rightarrow> bool" where
  "writable_with target permissions =
     (case target of
        ForDescription \<Rightarrow> rp_can_edit_identity permissions
      | ForDiscussion _ \<Rightarrow> rp_can_open_discussion permissions
      | ForReply _ \<Rightarrow> rp_can_reply_to_discussion permissions)"

datatype attachment_binding_target = BoundDescription | BoundDiscussion string | BoundReply string string

datatype attachment_failure_code =
  InvalidMedia | CorruptMedia | UnsupportedMedia | MediaLimitExceeded | CodecFailed | StorageUnavailable | InternalFailure

record attachment_failure =
  af_code :: attachment_failure_code
  af_message :: string
  af_retryable :: bool

record attachment_image =
  im_width :: u32
  im_height :: u32

record attachment_video =
  vm_width :: u32
  vm_height :: u32
  vm_duration_millis :: u64

datatype attachment_derivative_kind = ImagePreview | VideoPlayback | VideoPoster

record media_stored_object =
  so_object_key :: string
  so_size_bytes :: u64
  so_sha256 :: string

record attachment_derivative =
  ad_id :: string
  ad_kind :: attachment_derivative_kind
  ad_media_type :: string
  ad_object :: media_stored_object
  ad_width :: "u32 option"
  ad_height :: "u32 option"
  ad_duration_millis :: "u64 option"

record request_attachment =
  att_id :: string
  att_repository_id :: string
  att_request_id :: string
  att_uploader_user_id :: string
  att_upload_id :: string
  att_operation_id :: string
  att_target :: attachment_target
  att_filename :: string
  att_declared_media_type :: string
  att_detected_media_type :: "string option"
  att_kind :: attachment_kind
  att_size_bytes :: u64
  att_sha256 :: string
  att_state :: attachment_state
  att_original :: "media_stored_object option"
  att_original_validated_at_unix :: "u64 option"
  att_failure :: "attachment_failure option"
  att_image :: "attachment_image option"
  att_video :: "attachment_video option"
  att_derivatives :: "attachment_derivative list"
  att_created_at_unix :: u64
  att_updated_at_unix :: u64
  att_upload_expires_at_unix :: u64

definition original_is_grantable :: "request_attachment \<Rightarrow> bool" where
  "original_is_grantable a \<longleftrightarrow> att_original a \<noteq> None \<and> att_original_validated_at_unix a \<noteq> None
     \<and> \<not> (att_state a = AttachmentPrepared \<or> att_state a = AttachmentUploaded \<or> att_state a = AttachmentRejected)"

record attachment_binding =
  ab_attachment_id :: string
  ab_request_id :: string
  ab_target :: attachment_binding_target

record part_receipt =
  pr_part_number :: u32
  pr_size_bytes :: u64
  pr_sha256 :: string

record staged_part =
  sp_receipt :: part_receipt
  sp_object_key :: string

record media_chunk =
  mc_part_number :: u32
  mc_plaintext_offset :: u64
  mc_plaintext_bytes :: u64
  mc_sha256 :: string
  mc_object_key :: string

record media_object =
  mo_media_type :: string
  mo_plaintext_bytes :: u64
  mo_sha256 :: string
  mo_chunks :: "media_chunk list"

definition part_chunk :: "staged_part \<Rightarrow> u64 \<Rightarrow> media_chunk" where
  "part_chunk part offset =
     \<lparr>mc_part_number = pr_part_number (sp_receipt part), mc_plaintext_offset = offset,
      mc_plaintext_bytes = pr_size_bytes (sp_receipt part), mc_sha256 = pr_sha256 (sp_receipt part),
      mc_object_key = sp_object_key part\<rparr>"

fun place_parts :: "u64 \<Rightarrow> staged_part list \<Rightarrow> u64 \<times> media_chunk list" where
  "place_parts offset [] = (offset, [])"
| "place_parts offset (part # parts) =
     (let chunk = part_chunk part offset;
          (total, chunks) = place_parts (saturating_add offset (mc_plaintext_bytes chunk)) parts
      in (total, chunk # chunks))"

definition MediaObject_from_parts :: "string \<Rightarrow> string \<Rightarrow> staged_part list \<Rightarrow> media_object" where
  "MediaObject_from_parts media_type sha256 parts =
     (let (total, chunks) = place_parts 0 (sort_key (\<lambda>part. pr_part_number (sp_receipt part)) parts)
      in \<lparr>mo_media_type = media_type, mo_plaintext_bytes = total, mo_sha256 = sha256, mo_chunks = chunks\<rparr>)"

record attachment_source =
  as_detected_media_type :: string
  as_size_bytes :: u64
  as_sha256 :: string
  as_image :: "attachment_image option"
  as_video :: "attachment_video option"

record attachment_limits =
  al_max_photo_bytes :: u64
  al_max_video_bytes :: u64
  al_max_video_duration_seconds :: u64
  al_max_attachments_per_content :: nat
  al_max_request_source_bytes :: u64
  al_max_repository_storage_bytes :: u64
  al_max_photo_pixels :: u64
  al_preferred_part_bytes :: u64
  al_max_concurrent_parts :: nat
  al_incomplete_upload_ttl_seconds :: u64
  al_unbound_attachment_ttl_seconds :: u64

definition AttachmentLimits_default :: attachment_limits where
  "AttachmentLimits_default =
     \<lparr>al_max_photo_bytes = 25 * 1024 * 1024, al_max_video_bytes = 500 * 1024 * 1024,
      al_max_video_duration_seconds = 10 * 60, al_max_attachments_per_content = 10,
      al_max_request_source_bytes = 2 * 1024 * 1024 * 1024, al_max_repository_storage_bytes = 20 * 1024 * 1024 * 1024,
      al_max_photo_pixels = 50000000, al_preferred_part_bytes = REQUEST_MEDIA_CHUNK_BYTES, al_max_concurrent_parts = 2,
      al_incomplete_upload_ttl_seconds = 24 * 60 * 60, al_unbound_attachment_ttl_seconds = 7 * 24 * 60 * 60\<rparr>"

section \<open>References\<close>

definition REQUEST_ATTACHMENT_REFERENCE_PREFIX :: string where
  "REQUEST_ATTACHMENT_REFERENCE_PREFIX = ''/request-attachments/''"
definition REQUEST_ATTACHMENT_ID_MAX_BYTES :: nat where "REQUEST_ATTACHMENT_ID_MAX_BYTES = 128"

definition validate_attachment_id :: "string \<Rightarrow> (domain_error, unit) result" where
  "validate_attachment_id attachment_id =
     (if attachment_id = [] \<or> REQUEST_ATTACHMENT_ID_MAX_BYTES < length attachment_id
         \<or> \<not> list_all (\<lambda>c. is_ascii_lowercase c \<or> is_ascii_uppercase c \<or> is_ascii_digit c \<or> c = CHR ''-'' \<or> c = CHR ''_'' \<or> c = CHR ''.'') attachment_id
      then Err (invalid_input ''request attachment reference has an invalid attachment id'') else Ok ())"

fun capture_destinations :: "string list \<Rightarrow> string btree_set \<Rightarrow> (domain_error, string btree_set) result" where
  "capture_destinations [] references = Ok references"
| "capture_destinations (destination # ds) references =
     (case strip_prefix REQUEST_ATTACHMENT_REFERENCE_PREFIX destination of
        None \<Rightarrow> capture_destinations ds references
      | Some attachment_id \<Rightarrow>
          and_then (validate_attachment_id attachment_id) (\<lambda>_.
          capture_destinations ds (bt_set (attachment_id # references))))"

definition request_attachment_references ::
  "(string \<Rightarrow> string list) \<Rightarrow> string \<Rightarrow> (domain_error, string btree_set) result" where
  "request_attachment_references destinations markdown = capture_destinations (destinations markdown) []"

section \<open>Checks\<close>

fun has_control :: "string \<Rightarrow> bool" where
  "has_control [] \<longleftrightarrow> False"
| "has_control [c] \<longleftrightarrow> (of_char c :: nat) < 32 \<or> (of_char c :: nat) = 127"
| "has_control (c # d # cs) \<longleftrightarrow> (of_char c :: nat) < 32 \<or> (of_char c :: nat) = 127
     \<or> ((of_char c :: nat) = 194 \<and> 128 \<le> (of_char d :: nat) \<and> (of_char d :: nat) < 160) \<or> has_control (d # cs)"

definition validate_sha256 :: "string \<Rightarrow> (domain_error, unit) result" where
  "validate_sha256 val =
     (if length val \<noteq> 64 \<or> \<not> list_all is_ascii_hexdigit val
      then Err (invalid_input ''request attachment sha256 must be 64 hexadecimal characters'') else Ok ())"

definition validate_media_digest :: "string \<Rightarrow> string \<Rightarrow> (domain_error, unit) result" where
  "validate_media_digest label digest =
     (if length digest \<noteq> 64 \<or> \<not> list_all (\<lambda>c. is_ascii_digit c \<or> (CHR ''a'' \<le> c \<and> c \<le> CHR ''f'')) digest
      then Err (invalid_input (label @ '' has an invalid SHA-256 digest'')) else Ok ())"

definition checked_usage :: "u64 \<Rightarrow> u64 \<Rightarrow> (domain_error, u64) result" where
  "checked_usage used added =
     (case checked_add used added of
        Some v \<Rightarrow> Ok v | None \<Rightarrow> Err (invalid_input ''request attachment byte budget overflow''))"

definition validate_identifier :: "string \<Rightarrow> string \<Rightarrow> (domain_error, unit) result" where
  "validate_identifier label val =
     and_then (validate_required label val) (\<lambda>_.
     if REQUEST_ATTACHMENT_ID_MAX_BYTES < length val \<or> has_control val
     then Err (invalid_input (label @ '' exceeds request attachment identifier limits'')) else Ok ())"

definition validate_filename :: "string \<Rightarrow> (domain_error, unit) result" where
  "validate_filename filename =
     and_then (validate_required ''filename'' filename) (\<lambda>_.
     if 255 < length filename \<or> has_control filename \<or> CHR ''/'' \<in> set filename \<or> CHR 0x5C \<in> set filename
     then Err (invalid_input ''request attachment filename must be a 255-byte basename without control characters'') else Ok ())"

definition validate_target :: "attachment_target \<Rightarrow> (domain_error, unit) result" where
  "validate_target target =
     (case target of
        ForDescription \<Rightarrow> Ok ()
      | ForDiscussion discussion_id \<Rightarrow>
          (case discussion_id of Some i \<Rightarrow> validate_identifier ''discussion id'' i | None \<Rightarrow> Ok ())
      | ForReply discussion_id \<Rightarrow> validate_identifier ''discussion id'' discussion_id)"

definition validate_binding_target :: "attachment_binding_target \<Rightarrow> (domain_error, unit) result" where
  "validate_binding_target target =
     (case target of
        BoundDescription \<Rightarrow> Ok ()
      | BoundDiscussion discussion_id \<Rightarrow> validate_identifier ''discussion id'' discussion_id
      | BoundReply discussion_id reply_id \<Rightarrow>
          and_then (validate_identifier ''discussion id'' discussion_id) (\<lambda>_. validate_identifier ''reply id'' reply_id))"

definition target_matches :: "attachment_target \<Rightarrow> attachment_binding_target \<Rightarrow> bool" where
  "target_matches prepared binding =
     (case (prepared, binding) of
        (ForDescription, BoundDescription) \<Rightarrow> True
      | (ForDiscussion None, BoundDiscussion _) \<Rightarrow> True
      | (ForDiscussion (Some i), BoundDiscussion discussion_id) \<Rightarrow> i = discussion_id
      | (ForReply i, BoundReply discussion_id _) \<Rightarrow> i = discussion_id
      | _ \<Rightarrow> False)"

definition validate_target_matches_binding :: "attachment_target \<Rightarrow> attachment_binding_target \<Rightarrow> (domain_error, unit) result" where
  "validate_target_matches_binding prepared binding =
     (if target_matches prepared binding then Ok ()
      else Err (forbidden ''request attachment was prepared for another target''))"

definition validate_lease_grant :: "string \<Rightarrow> u64 \<Rightarrow> u64 \<Rightarrow> (domain_error, unit) result" where
  "validate_lease_grant lease_token now_unix lease_expires_at_unix =
     (if trim lease_token = [] \<or> lease_expires_at_unix \<le> now_unix
      then Err (invalid_input ''lease must have a token and a future expiry'') else Ok ())"

end
