(* ===== verification/Attachment_Rules.thy ===== *)
theory Attachment_Rules
  imports Attachments
begin

text \<open>
  The operations on attachments of \<^verbatim>\<open>requests/attachments/rules.rs\<close> and \<^verbatim>\<open>processing.rs\<close>: preparing an upload within
  its budgets, the parts of the upload, the state changes while media are processed, and binding to content.
\<close>

section \<open>Preparing an upload\<close>

definition checked_mul64 :: "u64 \<Rightarrow> u64 \<Rightarrow> u64 option" where
  "checked_mul64 a b = (if unat a * unat b < 2 ^ 64 then Some (a * b) else None)"

record prepare_attachment_input =
  pa_attachment_id :: string
  pa_repository_id :: string
  pa_request_id :: string
  pa_uploader_user_id :: string
  pa_upload_id :: string
  pa_operation_id :: string
  pa_target :: attachment_target
  pa_filename :: string
  pa_declared_media_type :: string
  pa_size_bytes :: u64
  pa_sha256 :: string
  pa_actor_can_write_target :: bool
  pa_request_is_open :: bool
  pa_target_attachment_count :: nat
  pa_request_source_bytes :: u64
  pa_repository_reserved_bytes :: u64
  pa_now_unix :: u64

record prepare_attachment_decision =
  pd_attachment :: request_attachment
  pd_reserved_source_bytes :: u64
  pd_reserved_derivative_bytes :: u64

definition max_source_bytes :: "attachment_kind \<Rightarrow> u64" where
  "max_source_bytes kind =
     (case kind of Photo \<Rightarrow> al_max_photo_bytes AttachmentLimits_default | Video \<Rightarrow> al_max_video_bytes AttachmentLimits_default)"

definition reserved_attachment_derivative_bytes :: "attachment_kind \<Rightarrow> u64 \<Rightarrow> (domain_error, u64) result" where
  "reserved_attachment_derivative_bytes kind source_size_bytes =
     (case checked_mul64 source_size_bytes (case kind of Photo \<Rightarrow> 1 | Video \<Rightarrow> 2) of
        Some v \<Rightarrow> Ok v | None \<Rightarrow> Err (invalid_input ''request attachment reservation overflow''))"

definition prepared_attachment :: "prepare_attachment_input \<Rightarrow> attachment_kind \<Rightarrow> u64 \<Rightarrow> request_attachment" where
  "prepared_attachment input kind upload_expires_at_unix =
     \<lparr>att_id = pa_attachment_id input, att_repository_id = pa_repository_id input, att_request_id = pa_request_id input,
      att_uploader_user_id = pa_uploader_user_id input, att_upload_id = pa_upload_id input,
      att_operation_id = pa_operation_id input, att_target = pa_target input, att_filename = pa_filename input,
      att_declared_media_type = map to_ascii_lowercase (pa_declared_media_type input), att_detected_media_type = None,
      att_kind = kind, att_size_bytes = pa_size_bytes input, att_sha256 = map to_ascii_lowercase (pa_sha256 input),
      att_state = AttachmentPrepared, att_original = None, att_original_validated_at_unix = None, att_failure = None,
      att_image = None, att_video = None, att_derivatives = [], att_created_at_unix = pa_now_unix input,
      att_updated_at_unix = pa_now_unix input, att_upload_expires_at_unix = upload_expires_at_unix\<rparr>"

definition kind_debug :: "attachment_kind \<Rightarrow> string" where
  "kind_debug kind = (case kind of Photo \<Rightarrow> ''Photo'' | Video \<Rightarrow> ''Video'')"

definition validate_prepare_attachment ::
  "prepare_attachment_input \<Rightarrow> (domain_error, prepare_attachment_decision) result" where
  "validate_prepare_attachment input =
     (let limits = AttachmentLimits_default in
     and_then (validate_attachment_id (pa_attachment_id input)) (\<lambda>_.
     and_then (check_all (\<lambda>(label, val). validate_required label val)
       [(''repository id'', pa_repository_id input), (''request id'', pa_request_id input),
        (''uploader user id'', pa_uploader_user_id input), (''upload id'', pa_upload_id input),
        (''operation id'', pa_operation_id input)]) (\<lambda>_.
     and_then (validate_identifier ''upload id'' (pa_upload_id input)) (\<lambda>_.
     and_then (validate_identifier ''operation id'' (pa_operation_id input)) (\<lambda>_.
     and_then (validate_filename (pa_filename input)) (\<lambda>_.
     and_then (validate_target (pa_target input)) (\<lambda>_.
     if \<not> pa_actor_can_write_target input then Err (forbidden ''request attachment target write access required'')
     else if \<not> pa_request_is_open input then Err (conflict ''request attachments require a writable request'')
     else if al_max_attachments_per_content limits \<le> pa_target_attachment_count input then
       Err (invalid_input (''request content supports at most '' @ show_nat (al_max_attachments_per_content limits) @ '' attachments''))
     else if pa_size_bytes input = 0 then Err (invalid_input ''request attachment cannot be empty'')
     else (case AttachmentKind_from_media_type (pa_declared_media_type input) of
         None \<Rightarrow> Err (invalid_input ''request attachment media type is unsupported'')
       | Some kind \<Rightarrow>
           if max_source_bytes kind < pa_size_bytes input then
             Err (invalid_input (''request attachment exceeds the '' @ show_nat (unat (max_source_bytes kind)) @ '' byte ''
               @ kind_debug kind @ '' limit''))
           else and_then (validate_sha256 (pa_sha256 input)) (\<lambda>_.
             and_then (checked_usage (pa_request_source_bytes input) (pa_size_bytes input)) (\<lambda>request_total.
             if al_max_request_source_bytes limits < request_total then
               Err (invalid_input ''request attachment source byte budget exceeded'')
             else and_then (reserved_attachment_derivative_bytes kind (pa_size_bytes input)) (\<lambda>derivative_bytes.
             and_then (checked_usage (pa_size_bytes input) derivative_bytes) (\<lambda>new_reservation.
             and_then (checked_usage (pa_repository_reserved_bytes input) new_reservation) (\<lambda>repository_total.
             if al_max_repository_storage_bytes limits < repository_total then
               Err (invalid_input ''repository attachment storage byte budget exceeded'')
             else (case checked_add (pa_now_unix input) (al_incomplete_upload_ttl_seconds limits) of
                 None \<Rightarrow> Err (invariant_violation ''upload expiry overflow'')
               | Some upload_expires_at_unix \<Rightarrow>
                   Ok \<lparr>pd_attachment = prepared_attachment input kind upload_expires_at_unix,
                     pd_reserved_source_bytes = pa_size_bytes input,
                     pd_reserved_derivative_bytes = derivative_bytes\<rparr>))))))))))))))"

section \<open>Parts of an upload\<close>

definition validate_part_range :: "u64 \<Rightarrow> part_receipt \<Rightarrow> (domain_error, unit) result" where
  "validate_part_range attachment_size_bytes receipt =
     (let limits = AttachmentLimits_default in
      if pr_part_number receipt = 0 \<or> al_preferred_part_bytes limits = 0 then
        Err (invalid_input ''request attachment part number and preferred size must be positive'')
      else (case checked_mul64 (ucast (pr_part_number receipt - 1)) (al_preferred_part_bytes limits) of
          None \<Rightarrow> Err (invalid_input ''request attachment part offset overflow'')
        | Some offset \<Rightarrow>
            (case checked_sub attachment_size_bytes offset of
               None \<Rightarrow> Err (invalid_input ''request attachment part starts beyond the prepared file'')
             | Some remaining \<Rightarrow>
                 if remaining = 0 \<or> pr_size_bytes receipt \<noteq> min remaining (al_preferred_part_bytes limits) then
                   Err (invalid_input ''request attachment part size does not match its prepared offset'')
                 else validate_sha256 (pr_sha256 receipt))))"

definition validate_attachment_part :: "request_attachment \<Rightarrow> part_receipt \<Rightarrow> (domain_error, unit) result" where
  "validate_attachment_part a receipt =
     (if att_state a \<noteq> AttachmentPrepared then Err (conflict ''request attachment upload is already finalized'')
      else validate_part_range (att_size_bytes a) receipt)"

fun receipts_total :: "u64 \<Rightarrow> nat \<Rightarrow> u64 \<Rightarrow> part_receipt list \<Rightarrow> (domain_error, u64) result" where
  "receipts_total size_bytes index used [] = Ok used"
| "receipts_total size_bytes index used (receipt # receipts) =
     (if 2 ^ 32 \<le> index + 1 then Err (invalid_input ''too many request attachment parts'')
      else if pr_part_number receipt \<noteq> of_nat (index + 1) then
        Err (invalid_input ''request attachment parts must be contiguous and 1-based'')
      else and_then (validate_part_range size_bytes receipt) (\<lambda>_.
        case checked_add used (pr_size_bytes receipt) of
          None \<Rightarrow> Err (invalid_input ''request attachment part size overflow'')
        | Some used' \<Rightarrow> receipts_total size_bytes (index + 1) used' receipts))"

definition validate_part_receipts :: "request_attachment \<Rightarrow> part_receipt list \<Rightarrow> (domain_error, unit) result" where
  "validate_part_receipts a receipts =
     (if receipts = [] then Err (invalid_input ''request attachment requires upload part receipts'')
      else and_then (receipts_total (att_size_bytes a) 0 0 receipts) (\<lambda>total.
        if total \<noteq> att_size_bytes a then
          Err (conflict ''request attachment part bytes do not match the prepared size'') else Ok ()))"

fun validate_chunks ::
  "nat \<Rightarrow> nat \<Rightarrow> u64 \<Rightarrow> string set \<Rightarrow> media_chunk list \<Rightarrow> (domain_error, u64) result" where
  "validate_chunks chunk_count index offset keys [] = Ok offset"
| "validate_chunks chunk_count index offset keys (chunk # chunks) =
     (if \<not> (index + 1 < 2 ^ 32 \<and> mc_part_number chunk = of_nat (index + 1)) \<or> mc_plaintext_offset chunk \<noteq> offset then
        Err (invalid_input ''media manifest chunks are not contiguous'')
      else if mc_plaintext_bytes chunk = 0 \<or> REQUEST_MEDIA_CHUNK_BYTES < mc_plaintext_bytes chunk
          \<or> (index + 1 < chunk_count \<and> mc_plaintext_bytes chunk \<noteq> REQUEST_MEDIA_CHUNK_BYTES) then
        Err (invalid_input ''media manifest contains an invalid chunk size'')
      else and_then (validate_media_digest ''media chunk'' (mc_sha256 chunk)) (\<lambda>_.
        if mc_object_key chunk = [] \<or> mc_object_key chunk \<in> keys then
          Err (invalid_input ''media manifest contains an invalid or duplicate chunk key'')
        else (case checked_add offset (mc_plaintext_bytes chunk) of
            None \<Rightarrow> Err (invalid_input ''media manifest plaintext size overflowed'')
          | Some offset' \<Rightarrow> validate_chunks chunk_count (index + 1) offset' (insert (mc_object_key chunk) keys) chunks)))"

definition validate_media_object :: "media_object \<Rightarrow> (domain_error, unit) result" where
  "validate_media_object m =
     (if mo_media_type m = [] \<or> 255 < length (mo_media_type m) then
        Err (invalid_input ''media manifest contains an invalid content type'')
      else and_then (validate_media_digest ''media object'' (mo_sha256 m)) (\<lambda>_.
        and_then (validate_chunks (length (mo_chunks m)) 0 0 {} (mo_chunks m)) (\<lambda>offset.
        if offset \<noteq> mo_plaintext_bytes m then
          Err (invalid_input ''media manifest plaintext size does not match its chunks'') else Ok ())))"

section \<open>State changes\<close>

definition retryability_valid :: "attachment_failure \<Rightarrow> bool" where
  "retryability_valid f =
     (case af_code f of
        InvalidMedia \<Rightarrow> \<not> af_retryable f | CorruptMedia \<Rightarrow> \<not> af_retryable f
      | UnsupportedMedia \<Rightarrow> \<not> af_retryable f | MediaLimitExceeded \<Rightarrow> \<not> af_retryable f
      | StorageUnavailable \<Rightarrow> af_retryable f | InternalFailure \<Rightarrow> af_retryable f
      | CodecFailed \<Rightarrow> True)"

definition validate_failure_for_state :: "attachment_state \<Rightarrow> attachment_failure option \<Rightarrow> (domain_error, unit) result" where
  "validate_failure_for_state state failure =
     and_then (case failure of
         Some f \<Rightarrow>
           if \<not> retryability_valid f \<or> trim (af_message f) = [] \<or> 512 < length (af_message f) \<or> has_control (af_message f) then
             Err (invalid_input ''request attachment failure code, message, and retryability disagree'')
           else Ok ()
       | None \<Rightarrow> Ok ()) (\<lambda>_.
     case (state, failure) of
       (AttachmentFailed, Some f) \<Rightarrow>
         if af_retryable f then Ok () else Err (invalid_input ''request attachment failure does not match its state'')
     | (AttachmentRejected, Some f) \<Rightarrow>
         if \<not> af_retryable f then Ok () else Err (invalid_input ''request attachment failure does not match its state'')
     | (AttachmentFailed, None) \<Rightarrow> Err (invalid_input ''request attachment failure does not match its state'')
     | (AttachmentRejected, None) \<Rightarrow> Err (invalid_input ''request attachment failure does not match its state'')
     | (_, None) \<Rightarrow> Ok ()
     | (_, Some _) \<Rightarrow> Err (invalid_input ''request attachment failure is only valid for failed or rejected state''))"

definition attachment_edge :: "attachment_state \<Rightarrow> attachment_state \<Rightarrow> bool" where
  "attachment_edge s t \<longleftrightarrow>
     (s, t) \<in> {(AttachmentPrepared, AttachmentUploaded),
       (AttachmentUploaded, AttachmentProcessing), (AttachmentUploaded, AttachmentReady),
       (AttachmentUploaded, AttachmentFailed), (AttachmentUploaded, AttachmentRejected),
       (AttachmentProcessing, AttachmentReady), (AttachmentProcessing, AttachmentFailed),
       (AttachmentProcessing, AttachmentRejected), (AttachmentFailed, AttachmentProcessing)}"

definition transition_attachment ::
  "request_attachment \<Rightarrow> attachment_state \<Rightarrow> attachment_failure option \<Rightarrow> u64 \<Rightarrow> (domain_error, request_attachment) result" where
  "transition_attachment a target failure now_unix =
     (if att_state a = target then Ok a
      else if \<not> attachment_edge (att_state a) target then
        Err (conflict (''request attachment cannot transition from '' @ attachment_state_debug (att_state a) @ '' to ''
          @ attachment_state_debug target))
      else and_then (validate_failure_for_state target failure) (\<lambda>_.
        if att_state a = AttachmentFailed \<and> target = AttachmentProcessing
           \<and> \<not> (case att_failure a of Some f \<Rightarrow> af_retryable f | None \<Rightarrow> False) then
          Err (conflict ''request attachment failure is not retryable'')
        else Ok (a\<lparr>att_state := target, att_failure := failure, att_updated_at_unix := now_unix\<rparr>)))"

definition finish_attachment_upload ::
  "request_attachment \<Rightarrow> string \<Rightarrow> string \<Rightarrow> part_receipt list \<Rightarrow> media_stored_object \<Rightarrow> u64 \<Rightarrow> (domain_error, request_attachment) result" where
  "finish_attachment_upload a actor_user_id upload_id receipts original now_unix =
     (if att_uploader_user_id a \<noteq> actor_user_id then
        Err (forbidden ''only the attachment uploader may finish an upload'')
      else if att_upload_id a \<noteq> upload_id then Err (conflict ''request attachment upload id mismatch'')
      else and_then (validate_part_receipts a receipts) (\<lambda>_.
        if so_size_bytes original \<noteq> att_size_bytes a \<or> so_sha256 original \<noteq> att_sha256 a then
          Err (conflict ''request attachment original does not match the prepared file'')
        else and_then (validate_required ''request attachment original object key'' (so_object_key original)) (\<lambda>_.
          if att_state a \<noteq> AttachmentPrepared then
            (if att_original a = Some original then Ok a
             else Err (conflict ''request attachment upload is already finalized with another original''))
          else if att_upload_expires_at_unix a \<le> now_unix then Err (conflict ''request attachment upload expired'')
          else and_then (transition_attachment a AttachmentUploaded None now_unix) (\<lambda>a'.
            Ok (a'\<lparr>att_original := Some original\<rparr>)))))"

definition ensure_processable :: "request_attachment \<Rightarrow> (domain_error, unit) result" where
  "ensure_processable a =
     (if att_state a = AttachmentUploaded \<or> att_state a = AttachmentProcessing then Ok ()
      else Err (conflict ''request attachment is not processable''))"

definition validate_source_metadata ::
  "attachment_kind \<Rightarrow> attachment_image option \<Rightarrow> attachment_video option \<Rightarrow> (domain_error, unit) result" where
  "validate_source_metadata kind im video =
     (let limits = AttachmentLimits_default in
      if (case (kind, im, video) of
           (Photo, Some i, None) \<Rightarrow>
             0 < im_width i \<and> 0 < im_height i
             \<and> (case checked_mul64 (ucast (im_width i)) (ucast (im_height i)) of
                  Some pixels \<Rightarrow> pixels \<le> al_max_photo_pixels limits | None \<Rightarrow> False)
         | (Video, None, Some v) \<Rightarrow>
             0 < vm_width v \<and> 0 < vm_height v \<and> 0 < vm_duration_millis v
             \<and> vm_duration_millis v \<le> (case checked_mul64 (al_max_video_duration_seconds limits) 1000 of Some d \<Rightarrow> d | None \<Rightarrow> - 1)
         | _ \<Rightarrow> False)
      then Ok ()
      else Err (invalid_input ''processed request attachment metadata does not match its kind''))"

definition validate_attachment_source ::
  "request_attachment \<Rightarrow> string \<Rightarrow> attachment_image option \<Rightarrow> attachment_video option \<Rightarrow> (domain_error, unit) result" where
  "validate_attachment_source a detected_media_type im video =
     (case AttachmentKind_from_media_type detected_media_type of
        None \<Rightarrow> Err (invalid_input ''detected attachment media type is unsupported'')
      | Some detected_kind \<Rightarrow>
          if detected_kind \<noteq> att_kind a then
            Err (invalid_input ''detected attachment kind does not match the prepared media type'')
          else (case att_original a of
              None \<Rightarrow> Err (conflict ''request attachment original is not sealed'')
            | Some original \<Rightarrow>
                if so_size_bytes original \<noteq> att_size_bytes a \<or> so_sha256 original \<noteq> att_sha256 a then
                  Err (conflict ''sealed request attachment original does not match its preparation'')
                else and_then (validate_sha256 (att_sha256 a)) (\<lambda>_.
                  if att_size_bytes a = 0 \<or> max_source_bytes (att_kind a) < att_size_bytes a then
                    Err (invalid_input ''validated request attachment exceeds its source byte limit'')
                  else validate_source_metadata (att_kind a) im video)))"

definition mark_processing_source_validated ::
  "request_attachment \<Rightarrow> attachment_source \<Rightarrow> u64 \<Rightarrow> (domain_error, request_attachment) result" where
  "mark_processing_source_validated a source now_unix =
     (if as_size_bytes source \<noteq> att_size_bytes a \<or> \<not> eq_ignore_ascii_case (as_sha256 source) (att_sha256 a) then
        Err (conflict ''validated source does not match prepared attachment'')
      else and_then (ensure_processable a) (\<lambda>_.
        and_then (validate_attachment_source a (as_detected_media_type source) (as_image source) (as_video source)) (\<lambda>_.
        and_then (transition_attachment a AttachmentProcessing None now_unix) (\<lambda>a'.
        Ok (a'\<lparr>att_detected_media_type := Some (map to_ascii_lowercase (trim (as_detected_media_type source))),
          att_original_validated_at_unix := Some now_unix, att_image := as_image source, att_video := as_video source\<rparr>)))))"

definition derivative_fits :: "attachment_kind \<Rightarrow> attachment_derivative \<Rightarrow> bool" where
  "derivative_fits kind d =
     (case ad_kind d of
        ImagePreview \<Rightarrow>
          kind = Photo \<and> AttachmentKind_from_media_type (ad_media_type d) = Some Photo
          \<and> ad_width d \<noteq> None \<and> ad_height d \<noteq> None \<and> ad_duration_millis d = None
      | VideoPoster \<Rightarrow>
          kind = Video \<and> AttachmentKind_from_media_type (ad_media_type d) = Some Photo
          \<and> ad_width d \<noteq> None \<and> ad_height d \<noteq> None \<and> ad_duration_millis d = None
      | VideoPlayback \<Rightarrow>
          kind = Video \<and> eq_ignore_ascii_case (ad_media_type d) ''video/mp4''
          \<and> ad_width d \<noteq> None \<and> ad_height d \<noteq> None
          \<and> (case ad_duration_millis d of Some duration \<Rightarrow> 0 < duration | None \<Rightarrow> False))"

definition validate_derivative :: "attachment_kind \<Rightarrow> attachment_derivative \<Rightarrow> (domain_error, unit) result" where
  "validate_derivative kind d =
     and_then (validate_required ''request attachment derivative id'' (ad_id d)) (\<lambda>_.
     and_then (validate_required ''request attachment derivative media type'' (ad_media_type d)) (\<lambda>_.
     and_then (validate_required ''request attachment derivative object key'' (so_object_key (ad_object d))) (\<lambda>_.
     and_then (validate_sha256 (so_sha256 (ad_object d))) (\<lambda>_.
     if so_size_bytes (ad_object d) = 0 \<or> ad_width d = Some 0 \<or> ad_height d = Some 0
        \<or> (ad_width d \<noteq> None) \<noteq> (ad_height d \<noteq> None) then
       Err (invalid_input ''request attachment derivative metadata is invalid'')
     else if \<not> derivative_fits kind d then
       Err (invalid_input ''request attachment derivative kind and media type disagree'')
     else Ok ()))))"

definition required_derivatives :: "attachment_kind \<Rightarrow> attachment_derivative_kind set" where
  "required_derivatives kind = (case kind of Photo \<Rightarrow> {ImagePreview} | Video \<Rightarrow> {VideoPlayback, VideoPoster})"

definition validate_derivatives :: "attachment_kind \<Rightarrow> attachment_derivative list \<Rightarrow> (domain_error, unit) result" where
  "validate_derivatives kind derivatives =
     (if derivatives = [] then Err (invalid_input ''processed request attachment requires a derivative'')
      else if card (set (map ad_id derivatives)) \<noteq> length derivatives then
        Err (conflict ''request attachment derivative ids must be unique'')
      else and_then (check_all (validate_derivative kind) derivatives) (\<lambda>_.
        if \<not> required_derivatives kind \<subseteq> set (map ad_kind derivatives) then
          Err (invalid_input ''processed request attachment is missing required derivatives'')
        else Ok ()))"

definition validate_processing_completion ::
  "request_attachment \<Rightarrow> attachment_source \<Rightarrow> attachment_derivative list \<Rightarrow> u64 \<Rightarrow> (domain_error, request_attachment) result" where
  "validate_processing_completion a source derivatives validated_at_unix =
     and_then (mark_processing_source_validated a source validated_at_unix) (\<lambda>a'.
     and_then (validate_derivatives (att_kind a') derivatives) (\<lambda>_.
     and_then (transition_attachment a' AttachmentReady None validated_at_unix) (\<lambda>a''.
     Ok (a''\<lparr>att_derivatives := derivatives\<rparr>))))"

definition validate_processing_failure ::
  "request_attachment \<Rightarrow> attachment_failure \<Rightarrow> u64 \<Rightarrow> (domain_error, request_attachment) result" where
  "validate_processing_failure a failure now_unix =
     and_then (ensure_processable a) (\<lambda>_.
     transition_attachment a (if af_retryable failure then AttachmentFailed else AttachmentRejected) (Some failure) now_unix)"

definition retry_attachment_processing :: "request_attachment \<Rightarrow> bool \<Rightarrow> u64 \<Rightarrow> (domain_error, request_attachment) result" where
  "retry_attachment_processing a actor_can_write_target now_unix =
     (if \<not> actor_can_write_target then Err (forbidden ''request attachment target write access required'')
      else transition_attachment a AttachmentProcessing None now_unix)"

section \<open>Processing attempts\<close>

definition REQUEST_ATTACHMENT_MAX_PROCESSING_ATTEMPTS :: u32 where "REQUEST_ATTACHMENT_MAX_PROCESSING_ATTEMPTS = 4"

definition processing_attempts_exhausted :: "u32 \<Rightarrow> bool" where
  "processing_attempts_exhausted attempt \<longleftrightarrow> REQUEST_ATTACHMENT_MAX_PROCESSING_ATTEMPTS \<le> attempt"

datatype processing_lane = PhotoLane | GeneralLane

definition admitted_kind :: "processing_lane \<Rightarrow> attachment_kind option" where
  "admitted_kind lane = (case lane of PhotoLane \<Rightarrow> Some Photo | GeneralLane \<Rightarrow> None)"

definition fail_interrupted_processing :: "request_attachment \<Rightarrow> u64 \<Rightarrow> (domain_error, request_attachment) result" where
  "fail_interrupted_processing a now_unix =
     validate_processing_failure a \<lparr>af_code = InternalFailure,
       af_message = ''Media processing stopped unexpectedly. Retry processing.'', af_retryable = True\<rparr> now_unix"

section \<open>Binding\<close>

definition bind_reference ::
  "string \<Rightarrow> string \<Rightarrow> attachment_binding_target \<Rightarrow> request_attachment list \<Rightarrow> attachment_binding list \<Rightarrow> string
   \<Rightarrow> (domain_error, attachment_binding) result" where
  "bind_reference request_id actor_user_id target attachments existing_bindings attachment_id =
     (case bt_get (bt_collect (map (\<lambda>a. (att_id a, a)) attachments)) attachment_id of
        None \<Rightarrow> Err (not_found ''request attachment reference was not prepared'')
      | Some a \<Rightarrow>
          if att_request_id a \<noteq> request_id then Err (forbidden ''request attachment belongs to another request'')
          else let current_binding = find (\<lambda>b. ab_attachment_id b = attachment_id) existing_bindings in
            if (case current_binding of Some b \<Rightarrow> ab_target b \<noteq> target | None \<Rightarrow> False) then
              Err (conflict ''request attachment is already bound to other content'')
            else let preserving_current = (case current_binding of Some b \<Rightarrow> ab_target b = target | None \<Rightarrow> False) in
              if att_uploader_user_id a \<noteq> actor_user_id \<and> \<not> preserving_current then
                Err (forbidden ''only the uploader may publish a draft request attachment'')
              else if att_state a = AttachmentPrepared then
                Err (conflict ''request attachment upload must finish before publishing'')
              else and_then (validate_target_matches_binding (att_target a) target) (\<lambda>_.
                Ok \<lparr>ab_attachment_id = attachment_id, ab_request_id = request_id, ab_target = target\<rparr>))"

fun bind_references ::
  "(string \<Rightarrow> (domain_error, attachment_binding) result) \<Rightarrow> string list \<Rightarrow> (domain_error, attachment_binding list) result" where
  "bind_references f [] = Ok []"
| "bind_references f (i # is) = and_then (f i) (\<lambda>b. and_then (bind_references f is) (\<lambda>bs. Ok (b # bs)))"

definition replace_attachment_bindings ::
  "(string \<Rightarrow> string list) \<Rightarrow> string \<Rightarrow> string \<Rightarrow> bool \<Rightarrow> attachment_binding_target \<Rightarrow> string \<Rightarrow> request_attachment list
   \<Rightarrow> attachment_binding list \<Rightarrow> (domain_error, attachment_binding list) result" where
  "replace_attachment_bindings destinations request_id actor_user_id actor_can_write_target target markdown attachments
     existing_bindings =
     (if \<not> actor_can_write_target then Err (forbidden ''request attachment target write access required'')
      else and_then (validate_binding_target target) (\<lambda>_.
        and_then (request_attachment_references destinations markdown) (\<lambda>references.
        if al_max_attachments_per_content AttachmentLimits_default < length references then
          Err (invalid_input (''request content supports at most ''
            @ show_nat (al_max_attachments_per_content AttachmentLimits_default) @ '' attachments''))
        else bind_references (bind_reference request_id actor_user_id target attachments existing_bindings) references)))"

definition can_view_request_attachment ::
  "request_attachment \<Rightarrow> attachment_binding list \<Rightarrow> string option \<Rightarrow> bool \<Rightarrow> bool \<Rightarrow> bool" where
  "can_view_request_attachment a bindings viewer_user_id description_visible discussion_visible \<longleftrightarrow>
     viewer_user_id = Some (att_uploader_user_id a)
     \<or> list_ex (\<lambda>b. case ab_target b of
           BoundDescription \<Rightarrow> description_visible
         | BoundDiscussion _ \<Rightarrow> discussion_visible
         | BoundReply _ _ \<Rightarrow> discussion_visible)
         (filter (\<lambda>b. ab_attachment_id b = att_id a) bindings)"

end
