(* ===== verification/Attachment_Properties.thy ===== *)
theory Attachment_Properties
  imports Attachment_Rules Lifecycles Request_Properties
begin

text \<open>
  An attachment from its preparation to ready or rejected media as a state machine over the operations of
  \<^verbatim>\<open>requests/attachments/rules.rs\<close>, with what is known of it in each state; and the parts of an upload, which cover the
  prepared file exactly and assemble into a valid manifest in whatever order they are stored.
\<close>

section \<open>The life of an attachment\<close>

inductive attachment_step :: "request_attachment \<Rightarrow> request_attachment \<Rightarrow> bool" where
  finished: "finish_attachment_upload a actor upload receipts original now = Ok a' \<Longrightarrow> attachment_step a a'"
| claimed: "transition_attachment a AttachmentProcessing None now = Ok a' \<Longrightarrow> attachment_step a a'"
| validated: "mark_processing_source_validated a source now = Ok a' \<Longrightarrow> attachment_step a a'"
| completed: "validate_processing_completion a source derivatives now = Ok a' \<Longrightarrow> attachment_step a a'"
| failed: "validate_processing_failure a failure now = Ok a' \<Longrightarrow> attachment_step a a'"
| interrupted: "fail_interrupted_processing a now = Ok a' \<Longrightarrow> attachment_step a a'"
| retried: "retry_attachment_processing a may_write now = Ok a' \<Longrightarrow> attachment_step a a'"

definition prepared_facts :: "request_attachment \<Rightarrow> string \<times> string \<times> string \<times> string \<times> string \<times> attachment_target \<times> attachment_kind \<times> u64 \<times> string" where
  "prepared_facts a = (att_id a, att_repository_id a, att_request_id a, att_uploader_user_id a, att_upload_id a, att_target a,
     att_kind a, att_size_bytes a, att_sha256 a)"

definition source_checked :: "request_attachment \<Rightarrow> bool" where
  "source_checked a \<longleftrightarrow> validate_source_metadata (att_kind a) (att_image a) (att_video a) = Ok () \<and>
     (\<exists>m. att_detected_media_type a = Some (map to_ascii_lowercase (trim m)) \<and> AttachmentKind_from_media_type m = Some (att_kind a))"

definition failure_fits :: "request_attachment \<Rightarrow> bool" where
  "failure_fits a \<longleftrightarrow>
     (case att_state a of
        AttachmentFailed \<Rightarrow> (\<exists>f. att_failure a = Some f \<and> af_retryable f)
      | AttachmentRejected \<Rightarrow> (\<exists>f. att_failure a = Some f \<and> \<not> af_retryable f)
      | _ \<Rightarrow> att_failure a = None)"

definition attachment_ok :: "request_attachment \<Rightarrow> bool" where
  "attachment_ok a \<longleftrightarrow>
     0 < att_size_bytes a \<and> att_size_bytes a \<le> max_source_bytes (att_kind a) \<and>
     (att_original a = None \<longleftrightarrow> att_state a = AttachmentPrepared) \<and>
     (\<forall>original. att_original a = Some original \<longrightarrow> so_size_bytes original = att_size_bytes a \<and> so_sha256 original = att_sha256 a) \<and>
     failure_fits a \<and>
     (att_original_validated_at_unix a \<noteq> None \<longrightarrow> att_original a \<noteq> None \<and> source_checked a) \<and>
     (att_state a = AttachmentReady \<longrightarrow> att_original_validated_at_unix a \<noteq> None \<and>
        validate_derivatives (att_kind a) (att_derivatives a) = Ok ())"

lemma failure_for_state_Ok:
  "validate_failure_for_state t f = Ok () \<Longrightarrow>
     (case t of AttachmentFailed \<Rightarrow> (\<exists>x. f = Some x \<and> af_retryable x) | AttachmentRejected \<Rightarrow> (\<exists>x. f = Some x \<and> \<not> af_retryable x)
      | _ \<Rightarrow> f = None)"
  by (cases t; cases f) (auto simp: validate_failure_for_state_def and_then_Ok_iff split: if_split_asm)

text \<open>A transition keeps everything but the state, the failure and the time of the update.\<close>

lemma transition_effect:
  assumes "transition_attachment a target failure now = Ok a'"
  shows "att_state a' = target"
    and "att_state a = target \<and> a' = a \<or> attachment_edge (att_state a) target \<and> validate_failure_for_state target failure = Ok () \<and>
      a' = a\<lparr>att_state := target, att_failure := failure, att_updated_at_unix := now\<rparr>"
  using assms by (auto simp: transition_attachment_def and_then_Ok_iff split: if_split_asm)

lemma transition_kept:
  assumes "transition_attachment a target failure now = Ok a'" and "attachment_ok a"
    and "target \<noteq> AttachmentReady" and "target \<noteq> AttachmentUploaded"
  shows "attachment_ok a'"
proof -
  from transition_effect(2) [OF assms(1)] show ?thesis
  proof
    assume e: "attachment_edge (att_state a) target \<and> validate_failure_for_state target failure = Ok () \<and>
      a' = a\<lparr>att_state := target, att_failure := failure, att_updated_at_unix := now\<rparr>"
    then have "failure_fits a'" using failure_for_state_Ok [of target failure] by (cases target) (simp_all add: failure_fits_def)
    moreover have "att_state a \<noteq> AttachmentPrepared" "target \<noteq> AttachmentPrepared" using e assms(4) by (auto simp: attachment_edge_def)
    ultimately show ?thesis using e assms(2,3) by (auto simp: attachment_ok_def source_checked_def)
  qed (use assms(2) in simp)
qed

lemma transition_facts: "transition_attachment a target failure now = Ok a' \<Longrightarrow> prepared_facts a' = prepared_facts a \<and>
    (att_state a' = att_state a \<or> attachment_edge (att_state a) (att_state a')) \<and> att_original a' = att_original a \<and> att_kind a' = att_kind a
    \<and> att_size_bytes a' = att_size_bytes a \<and> att_sha256 a' = att_sha256 a"
  using transition_effect(2) [of a target failure now a'] by (auto simp: prepared_facts_def)

lemma finished_effect:
  assumes "finish_attachment_upload a actor upload receipts original now = Ok a'"
  shows "a' = a \<and> att_original a = Some original \<or>
    att_state a = AttachmentPrepared \<and> a' = a\<lparr>att_state := AttachmentUploaded, att_failure := None, att_updated_at_unix := now, att_original := Some original\<rparr> \<and>
      so_size_bytes original = att_size_bytes a \<and> so_sha256 original = att_sha256 a"
    and "validate_part_receipts a receipts = Ok ()" and "att_uploader_user_id a = actor"
  using assms by (auto simp: finish_attachment_upload_def and_then_Ok_iff transition_attachment_def split: if_split_asm)

lemma validated_effect:
  assumes "mark_processing_source_validated a source now = Ok a'"
  shows "\<exists>b. transition_attachment a AttachmentProcessing None now = Ok b \<and>
    a' = b\<lparr>att_detected_media_type := Some (map to_ascii_lowercase (trim (as_detected_media_type source))),
          att_original_validated_at_unix := Some now, att_image := as_image source, att_video := as_video source\<rparr>"
    and "att_original a \<noteq> None" and "AttachmentKind_from_media_type (as_detected_media_type source) = Some (att_kind a)"
    and "validate_source_metadata (att_kind a) (as_image source) (as_video source) = Ok ()"
    and "att_state a = AttachmentUploaded \<or> att_state a = AttachmentProcessing"
  using assms
  by (auto simp: mark_processing_source_validated_def and_then_Ok_iff validate_attachment_source_def ensure_processable_def
      split: if_split_asm option.split_asm)

lemma validated_kept:
  assumes "mark_processing_source_validated a source now = Ok a'" and "attachment_ok a"
  shows "attachment_ok a' \<and> att_state a' = AttachmentProcessing \<and> att_original_validated_at_unix a' \<noteq> None \<and> prepared_facts a' = prepared_facts a"
proof -
  note v = validated_effect [OF assms(1)]
  obtain b where b: "transition_attachment a AttachmentProcessing None now = Ok b"
    "a' = b\<lparr>att_detected_media_type := Some (map to_ascii_lowercase (trim (as_detected_media_type source))),
          att_original_validated_at_unix := Some now, att_image := as_image source, att_video := as_video source\<rparr>" using v(1) by blast
  have "attachment_ok b" using transition_kept [OF b(1) assms(2)] by simp
  moreover have "att_state b = AttachmentProcessing" "prepared_facts b = prepared_facts a" "att_original b \<noteq> None" "att_kind b = att_kind a"
    using transition_effect(1) [OF b(1)] transition_facts [OF b(1)] v(2) by auto
  ultimately show ?thesis using b(2) v(3,4)
    by (auto simp: attachment_ok_def failure_fits_def source_checked_def prepared_facts_def)
qed

lemma completed_kept:
  assumes "validate_processing_completion a source derivatives now = Ok a'" and "attachment_ok a"
  shows "attachment_ok a' \<and> att_state a' = AttachmentReady \<and> prepared_facts a' = prepared_facts a"
proof -
  obtain b c where b: "mark_processing_source_validated a source now = Ok b" "validate_derivatives (att_kind b) derivatives = Ok ()"
    "transition_attachment b AttachmentReady None now = Ok c" "a' = c\<lparr>att_derivatives := derivatives\<rparr>"
    using assms(1) by (auto simp: validate_processing_completion_def and_then_Ok_iff)
  note k = validated_kept [OF b(1) assms(2)]
  then have "c = b\<lparr>att_state := AttachmentReady, att_failure := None, att_updated_at_unix := now\<rparr>"
    using transition_effect(2) [OF b(3)] by auto
  then show ?thesis using b(2,4) k by (auto simp: attachment_ok_def failure_fits_def source_checked_def prepared_facts_def)
qed

lemma attachment_step_kept:
  assumes "attachment_step a a'" and "attachment_ok a"
  shows "attachment_ok a' \<and> prepared_facts a' = prepared_facts a \<and> (att_state a' = att_state a \<or> attachment_edge (att_state a) (att_state a'))"
  using assms
proof (induction rule: attachment_step.induct)
  case (finished a actor upload receipts original now a')
  from finished_effect(1) [OF finished(1)] show ?case
  proof
    assume new: "att_state a = AttachmentPrepared \<and> a' = a\<lparr>att_state := AttachmentUploaded, att_failure := None,
        att_updated_at_unix := now, att_original := Some original\<rparr> \<and>
      so_size_bytes original = att_size_bytes a \<and> so_sha256 original = att_sha256 a"
    moreover from this have "att_original_validated_at_unix a = None" using finished(2) by (auto simp: attachment_ok_def)
    ultimately have "attachment_ok a'" using finished(2) by (simp add: attachment_ok_def failure_fits_def)
    moreover have "prepared_facts a' = prepared_facts a" "attachment_edge (att_state a) (att_state a')"
      using new by (simp_all add: prepared_facts_def attachment_edge_def)
    ultimately show ?thesis by simp
  qed (use finished(2) in simp)
next
  case (claimed a now a')
  then show ?case using transition_kept transition_facts by blast
next
  case (validated a source now a')
  then show ?case using validated_kept validated_effect(5) [OF validated(1)] by (fastforce simp: attachment_edge_def)
next
  case (completed a source derivatives now a')
  obtain b where "mark_processing_source_validated a source now = Ok b"
    using completed(1) by (auto simp: validate_processing_completion_def and_then_Ok_iff)
  then show ?case using completed_kept [OF completed] validated_effect(5) [of a source now b] by (auto simp: attachment_edge_def)
next
  case (failed a failure now a')
  then show ?case using transition_kept transition_facts
    by (simp add: validate_processing_failure_def and_then_Ok_iff split: if_split_asm; blast)
next
  case (interrupted a now a')
  then show ?case using transition_kept transition_facts
    by (simp add: fail_interrupted_processing_def validate_processing_failure_def and_then_Ok_iff; blast)
next
  case (retried a may_write now a')
  then show ?case using transition_kept transition_facts by (simp add: retry_attachment_processing_def split: if_split_asm; blast)
qed

interpretation al: lifecycle attachment_step attachment_ok att_state attachment_edge
  by unfold_locales (use attachment_step_kept in blast)+

interpretation af: lifecycle attachment_step attachment_ok prepared_facts "\<lambda>_ _. False"
  by unfold_locales (use attachment_step_kept in blast)+

section \<open>Preparation\<close>

lemma checked_usage_Ok: "checked_usage a b = Ok c \<longleftrightarrow> unat a + unat b < 2 ^ 64 \<and> c = a + b"
  by (auto simp: checked_usage_def checked_add_def)

lemma usage_unat: "checked_usage a b = Ok c \<Longrightarrow> unat c = unat a + unat b"
  by (auto simp: checked_usage_def checked_add_Some_iff split: option.split_asm)

lemma prepare_Ok:
  assumes "validate_prepare_attachment input = Ok d"
  obtains kind derived expires reservation where
    "AttachmentKind_from_media_type (pa_declared_media_type input) = Some kind"
    "pd_attachment d = prepared_attachment input kind expires" "pd_reserved_source_bytes d = pa_size_bytes input"
    "pd_reserved_derivative_bytes d = derived" "reserved_attachment_derivative_bytes kind (pa_size_bytes input) = Ok derived"
    "pa_size_bytes input \<noteq> 0" "pa_size_bytes input \<le> max_source_bytes kind"
    "unat (pa_request_source_bytes input) + unat (pa_size_bytes input) \<le> 2 * 1024 ^ 3"
    "checked_usage (pa_size_bytes input) derived = Ok reservation"
    "unat (pa_repository_reserved_bytes input) + unat reservation \<le> 20 * 1024 ^ 3"
    "checked_add (pa_now_unix input) (24 * 60 * 60) = Some expires" "pa_target_attachment_count input < 10"
    "pa_actor_can_write_target input" "pa_request_is_open input"
proof -
  have limits: "al_max_request_source_bytes AttachmentLimits_default = 2 * 1024 * 1024 * 1024"
    "al_max_repository_storage_bytes AttachmentLimits_default = 20 * 1024 * 1024 * 1024"
    "al_incomplete_upload_ttl_seconds AttachmentLimits_default = 24 * 60 * 60" "al_max_attachments_per_content AttachmentLimits_default = 10"
    by (simp_all add: AttachmentLimits_default_def)
  obtain kind where kind: "AttachmentKind_from_media_type (pa_declared_media_type input) = Some kind"
    using assms unfolding validate_prepare_attachment_def Let_def and_then_Ok_iff by (auto split: if_split_asm option.split_asm simp: and_then_Ok_iff)
  obtain request_total derived reservation repository_total expires where p:
    "pa_size_bytes input \<noteq> 0" "\<not> max_source_bytes kind < pa_size_bytes input"
    "checked_usage (pa_request_source_bytes input) (pa_size_bytes input) = Ok request_total" "\<not> 2 * 1024 * 1024 * 1024 < request_total"
    "reserved_attachment_derivative_bytes kind (pa_size_bytes input) = Ok derived"
    "checked_usage (pa_size_bytes input) derived = Ok reservation"
    "checked_usage (pa_repository_reserved_bytes input) reservation = Ok repository_total" "\<not> 20 * 1024 * 1024 * 1024 < repository_total"
    "checked_add (pa_now_unix input) (24 * 60 * 60) = Some expires"
    "d = \<lparr>pd_attachment = prepared_attachment input kind expires, pd_reserved_source_bytes = pa_size_bytes input, pd_reserved_derivative_bytes = derived\<rparr>"
    "pa_target_attachment_count input < 10" "pa_actor_can_write_target input" "pa_request_is_open input"
    using assms unfolding validate_prepare_attachment_def Let_def kind limits option.case
    by (auto simp: and_then_Ok_iff not_le split: if_split_asm option.split_asm)
  show thesis
    by (rule that [OF kind]) (use p usage_unat [OF p(3)] usage_unat [OF p(7)] in \<open>auto simp: word_less_nat_alt word_le_nat_alt\<close>)
qed

lemma prepared_ok: "validate_prepare_attachment input = Ok d \<Longrightarrow> attachment_ok (pd_attachment d)"
  by (elim prepare_Ok) (auto simp: attachment_ok_def prepared_attachment_def failure_fits_def word_less_nat_alt unat_gt_0)

section \<open>Parts\<close>

definition part_bytes :: nat where "part_bytes = 8 * 1024 * 1024"

lemma chunk_unat: "unat REQUEST_MEDIA_CHUNK_BYTES = part_bytes" "al_preferred_part_bytes AttachmentLimits_default = REQUEST_MEDIA_CHUNK_BYTES"
  by (simp_all add: REQUEST_MEDIA_CHUNK_BYTES_def part_bytes_def AttachmentLimits_default_def)

lemma part_bytes_pos: "0 < part_bytes" by (simp add: part_bytes_def)

lemma part_range_Ok:
  assumes "validate_part_range s x = Ok ()" and "pr_part_number x = of_nat (i + 1)" and "i + 1 < 2 ^ 32"
  shows "i * part_bytes < unat s \<and> unat (pr_size_bytes x) = min (unat s - i * part_bytes) part_bytes \<and> validate_sha256 (pr_sha256 x) = Ok ()"
proof -
  have "pr_part_number x - 1 = of_nat i" using assms(2) by simp
  then have "unat (pr_part_number x - 1) = i" using assms(3) by (simp add: unat_of_nat)
  then have i: "unat (ucast (pr_part_number x - 1) :: u64) = i"
    using assms(3) by (simp add: unsigned_ucast_eq take_bit_nat_eq_self_iff)
  have small: "i * part_bytes < 2 ^ 64" using assms(3) by (simp add: part_bytes_def)
  define off :: u64 where "off = ucast (pr_part_number x - 1) * REQUEST_MEDIA_CHUNK_BYTES"
  have off: "unat off = i * part_bytes" using small by (simp add: off_def unat_word_ariths i chunk_unat)
  have mul: "checked_mul64 (ucast (pr_part_number x - 1)) REQUEST_MEDIA_CHUNK_BYTES = Some off"
    using small by (simp add: checked_mul64_def i chunk_unat off_def)
  obtain remaining where r: "checked_sub s off = Some remaining" "remaining \<noteq> 0"
    "pr_size_bytes x = min remaining REQUEST_MEDIA_CHUNK_BYTES" "validate_sha256 (pr_sha256 x) = Ok ()"
    using assms(1) unfolding validate_part_range_def Let_def chunk_unat(2) mul by (auto split: if_split_asm option.split_asm)
  then have rem: "unat remaining = unat s - i * part_bytes" "i * part_bytes \<le> unat s"
    using off by (auto simp: checked_sub_def unat_sub word_le_nat_alt split: if_split_asm)
  have "unat (min remaining REQUEST_MEDIA_CHUNK_BYTES) = min (unat remaining) part_bytes"
    by (simp add: min_def word_le_nat_alt chunk_unat)
  then show ?thesis using r rem by (auto simp: unat_eq_0 [symmetric] simp del: unat_eq_0)
qed

fun parts_fit :: "nat \<Rightarrow> nat \<Rightarrow> part_receipt list \<Rightarrow> bool" where
  "parts_fit s i [] \<longleftrightarrow> True"
| "parts_fit s i (x # xs) \<longleftrightarrow> i + 1 < 2 ^ 32 \<and> pr_part_number x = of_nat (i + 1) \<and> i * part_bytes < s \<and>
     unat (pr_size_bytes x) = min (s - i * part_bytes) part_bytes \<and> parts_fit s (i + 1) xs"

lemma receipts_total_Ok:
  "receipts_total s i used xs = Ok t \<Longrightarrow> parts_fit (unat s) i xs \<and> unat t = unat used + (\<Sum>x\<leftarrow>xs. unat (pr_size_bytes x))"
proof (induction xs arbitrary: i used)
  case (Cons x xs)
  obtain used' where x: "i + 1 < 2 ^ 32" "pr_part_number x = of_nat (i + 1)" "validate_part_range s x = Ok ()"
    "checked_add used (pr_size_bytes x) = Some used'" "receipts_total s (i + 1) used' xs = Ok t"
    using Cons.prems by (auto simp: and_then_Ok_iff not_le split: if_split_asm option.split_asm)
  from part_range_Ok [OF x(3,2,1)] Cons.IH [OF x(5)] x show ?case by (simp add: checked_add_Some_iff)
qed simp

lemma parts_fit_sum: "parts_fit s i xs \<Longrightarrow> xs \<noteq> [] \<Longrightarrow> (\<Sum>x\<leftarrow>xs. unat (pr_size_bytes x)) = min s ((i + length xs) * part_bytes) - i * part_bytes"
proof (induction xs arbitrary: i)
  case (Cons x xs)
  show ?case
  proof (cases "xs = []")
    case True
    then show ?thesis using Cons.prems by (auto simp: algebra_simps)
  next
    case False
    then obtain y ys where "xs = y # ys" by (cases xs) auto
    then have "(i + 1) * part_bytes < s" using Cons.prems by simp
    then show ?thesis using Cons.IH [of "i + 1"] Cons.prems False by (auto simp: algebra_simps)
  qed
qed simp

lemma parts_fit_numbers: "parts_fit s i xs \<Longrightarrow> map pr_part_number xs = map (\<lambda>k. of_nat (k + 1)) [i..<i + length xs] \<and> (xs \<noteq> [] \<longrightarrow> i + length xs < 2 ^ 32)"
proof (induction xs arbitrary: i)
  case (Cons x xs)
  then show ?case using Cons.IH [of "i + 1"] by (cases "xs = []") (simp_all add: upt_rec del: upt_Suc)
qed simp

lemma placed_chunks_valid:
  assumes "parts_fit s i (map sp_receipt ps)" and "s < 2 ^ 64" and "ps \<noteq> [] \<longrightarrow> unat off = i * part_bytes"
    and "\<forall>p \<in> set ps. validate_media_digest ''media chunk'' (pr_sha256 (sp_receipt p)) = Ok () \<and> sp_object_key p \<noteq> []"
    and "distinct (map sp_object_key ps)" and "set (map sp_object_key ps) \<inter> keys = {}" and "place_parts off ps = (t, cs)"
  shows "length cs = length ps \<and> validate_chunks (i + length ps) i off keys cs = Ok t \<and>
    unat t = unat off + (\<Sum>p\<leftarrow>ps. unat (pr_size_bytes (sp_receipt p))) \<and> map mc_object_key cs = map sp_object_key ps"
  using assms
proof (induction ps arbitrary: i off keys cs)
  case (Cons p ps)
  let ?size = "pr_size_bytes (sp_receipt p)"
  have fit: "i + 1 < 2 ^ 32" "pr_part_number (sp_receipt p) = of_nat (i + 1)" "i * part_bytes < s"
    "unat ?size = min (s - i * part_bytes) part_bytes" "parts_fit s (i + 1) (map sp_receipt ps)" and off: "unat off = i * part_bytes"
    using Cons.prems(1,3) by auto
  then have "unat off + unat ?size \<le> s" by simp
  then have add: "checked_add off ?size = Some (off + ?size)" and sum: "unat (off + ?size) = unat off + unat ?size"
    using Cons.prems(2) by (auto simp: checked_add_def unat_word_ariths)
  obtain cs' where cs': "place_parts (off + ?size) ps = (t, cs')" "cs = part_chunk p off # cs'"
    using Cons.prems(7) add by (auto simp: Let_def saturating_add_def part_chunk_def split: prod.split_asm)
  have full: "?size = REQUEST_MEDIA_CHUNK_BYTES" "unat (off + ?size) = (i + 1) * part_bytes" if more: "ps \<noteq> []"
  proof -
    obtain q qs where "ps = q # qs" using more by (cases ps) auto
    then have "(i + 1) * part_bytes < s" using fit(5) by simp
    then have "unat ?size = part_bytes" using fit(4) by (auto simp: algebra_simps)
    then show "?size = REQUEST_MEDIA_CHUNK_BYTES" "unat (off + ?size) = (i + 1) * part_bytes"
      using off sum by (auto simp: chunk_unat(1) [symmetric] word_unat_eq_iff algebra_simps)
  qed
  have IH: "length cs' = length ps \<and> validate_chunks (i + 1 + length ps) (i + 1) (off + ?size) (insert (sp_object_key p) keys) cs' = Ok t \<and>
      unat t = unat (off + ?size) + (\<Sum>p\<leftarrow>ps. unat (pr_size_bytes (sp_receipt p))) \<and> map mc_object_key cs' = map sp_object_key ps"
    by (rule Cons.IH) (use fit(5) Cons.prems cs'(1) full(2) in auto)
  have "?size \<noteq> 0" "?size \<le> REQUEST_MEDIA_CHUNK_BYTES"
    using fit(3,4) part_bytes_pos by (auto simp: word_le_nat_alt chunk_unat word_unat_eq_iff)
  then have "validate_chunks (i + length (p # ps)) i off keys cs = Ok t"
    using IH cs'(2) fit(1,2) add full(1) Cons.prems(4,6) by (auto simp: part_chunk_def and_then_def)
  then show ?case using IH cs'(2) sum by (simp add: part_chunk_def)
qed simp

lemma sorted_part_numbers:
  assumes "parts_fit s 0 (map sp_receipt ps)"
  shows "sorted (map (\<lambda>p. pr_part_number (sp_receipt p)) ps) \<and> distinct (map (\<lambda>p. pr_part_number (sp_receipt p)) ps)"
proof -
  have nums: "map (\<lambda>p. pr_part_number (sp_receipt p)) ps = map (\<lambda>k. of_nat (k + 1)) [0..<length ps]" "ps \<noteq> [] \<longrightarrow> length ps < 2 ^ 32"
    using parts_fit_numbers [OF assms] by (simp_all add: comp_def)
  have u: "unat (of_nat (k + 1) :: u32) = k + 1" if "k < length ps" for k
    using that nums(2) by (cases "ps = []") (auto simp: unat_of_nat simp del: of_nat_add of_nat_Suc)
  have "sorted_wrt (<) (map (\<lambda>k. of_nat (k + 1) :: u32) [0..<length ps])"
    using u by (auto simp: sorted_wrt_iff_nth_less word_less_nat_alt simp del: of_nat_add of_nat_Suc)
  then show ?thesis unfolding nums(1) by (simp add: strict_sorted_iff)
qed


text \<open>
  An attachment that was prepared keeps its identity, uploader, target, kind, size and digest through every later
  operation. Its original may be handed out only if it is stored with the prepared size and digest and its media were
  checked for the kind; when it is ready, the previews its kind needs are there; and ready or rejected media stay so.
\<close>

theorem attachment_life:
  assumes prepared: "validate_prepare_attachment input = Ok d" and life: "attachment_step\<^sup>*\<^sup>* (pd_attachment d) a"
  shows "att_id a = pa_attachment_id input \<and> att_uploader_user_id a = pa_uploader_user_id input \<and> att_target a = pa_target input \<and>
    att_size_bytes a = pa_size_bytes input \<and> att_sha256 a = map to_ascii_lowercase (pa_sha256 input) \<and>
    (original_is_grantable a \<longrightarrow> (\<exists>original. att_original a = Some original \<and> so_size_bytes original = pa_size_bytes input \<and>
       so_sha256 original = map to_ascii_lowercase (pa_sha256 input)) \<and>
       validate_source_metadata (att_kind a) (att_image a) (att_video a) = Ok ()) \<and>
    (att_state a = AttachmentReady \<longrightarrow> original_is_grantable a \<and> required_derivatives (att_kind a) \<subseteq> set (map ad_kind (att_derivatives a))) \<and>
    (att_state a = AttachmentReady \<or> att_state a = AttachmentRejected \<longrightarrow>
       (\<forall>a'. attachment_step\<^sup>*\<^sup>* a a' \<longrightarrow> att_state a' = att_state a))"
proof -
  note ok0 = prepared_ok [OF prepared]
  have ok: "attachment_ok a" using al.ok_reachable [OF life ok0] .
  have "prepared_facts a = prepared_facts (pd_attachment d)" using af.final_absorbing [OF life ok0] by blast
  moreover obtain kind expires where "pd_attachment d = prepared_attachment input kind expires" using prepared by (elim prepare_Ok)
  ultimately have facts: "att_id a = pa_attachment_id input" "att_uploader_user_id a = pa_uploader_user_id input" "att_target a = pa_target input"
    "att_size_bytes a = pa_size_bytes input" "att_sha256 a = map to_ascii_lowercase (pa_sha256 input)"
    by (simp_all add: prepared_facts_def prepared_attachment_def)
  have "original_is_grantable a \<longrightarrow> (\<exists>original. att_original a = Some original \<and> so_size_bytes original = pa_size_bytes input \<and>
       so_sha256 original = map to_ascii_lowercase (pa_sha256 input)) \<and> validate_source_metadata (att_kind a) (att_image a) (att_video a) = Ok ()"
    using ok facts by (auto simp: original_is_grantable_def attachment_ok_def source_checked_def)
  moreover have "att_state a = AttachmentReady \<longrightarrow> original_is_grantable a \<and> required_derivatives (att_kind a) \<subseteq> set (map ad_kind (att_derivatives a))"
    using ok by (auto simp: original_is_grantable_def attachment_ok_def validate_derivatives_def and_then_Ok_iff split: if_split_asm)
  moreover have "att_state a' = att_state a" if "att_state a = AttachmentReady \<or> att_state a = AttachmentRejected" "attachment_step\<^sup>*\<^sup>* a a'" for a'
    by (rule al.final_absorbing [OF that(2) ok]) (use that(1) in \<open>auto simp: attachment_edge_def\<close>)
  ultimately show ?thesis using facts by blast
qed

text \<open>
  C30: an accepted preparation stays within every budget: the file is not empty and at most 25 MiB for a photo or 500 MiB
  for a video, the content has fewer than ten attachments, the sources of the request stay within 2 GiB and the storage
  of the repository, previews included, within 20 GiB. The previews are given the size of the file for a photo and twice
  that for a video, and no sum wraps around.
\<close>

theorem attachment_budgets:
  assumes "validate_prepare_attachment input = Ok d"
  shows "0 < unat (pa_size_bytes input) \<and>
    unat (pa_size_bytes input) \<le> (case att_kind (pd_attachment d) of Photo \<Rightarrow> 25 * 1024 ^ 2 | Video \<Rightarrow> 500 * 1024 ^ 2) \<and>
    pa_target_attachment_count input < 10 \<and>
    unat (pa_request_source_bytes input) + unat (pd_reserved_source_bytes d) \<le> 2 * 1024 ^ 3 \<and>
    unat (pd_reserved_derivative_bytes d) =
      (case att_kind (pd_attachment d) of Photo \<Rightarrow> unat (pa_size_bytes input) | Video \<Rightarrow> 2 * unat (pa_size_bytes input)) \<and>
    unat (pa_repository_reserved_bytes input) + unat (pd_reserved_source_bytes d) + unat (pd_reserved_derivative_bytes d) \<le> 20 * 1024 ^ 3 \<and>
    unat (att_upload_expires_at_unix (pd_attachment d)) = unat (pa_now_unix input) + 24 * 60 * 60"
  using assms
proof (rule prepare_Ok)
  fix kind derived expires reservation
  assume kind: "AttachmentKind_from_media_type (pa_declared_media_type input) = Some kind"
    and a: "pd_attachment d = prepared_attachment input kind expires"
    and d: "pd_reserved_source_bytes d = pa_size_bytes input" "pd_reserved_derivative_bytes d = derived"
    and res: "reserved_attachment_derivative_bytes kind (pa_size_bytes input) = Ok derived"
    and size: "pa_size_bytes input \<noteq> 0" "pa_size_bytes input \<le> max_source_bytes kind"
    and rest: "unat (pa_request_source_bytes input) + unat (pa_size_bytes input) \<le> 2 * 1024 ^ 3"
      "checked_usage (pa_size_bytes input) derived = Ok reservation"
      "unat (pa_repository_reserved_bytes input) + unat reservation \<le> 20 * 1024 ^ 3"
      "checked_add (pa_now_unix input) (24 * 60 * 60) = Some expires" "pa_target_attachment_count input < 10"
  have "unat (pa_size_bytes input) \<le> (case kind of Photo \<Rightarrow> 25 * 1024 ^ 2 | Video \<Rightarrow> 500 * 1024 ^ 2)"
    using size(2) by (cases kind) (simp_all add: max_source_bytes_def AttachmentLimits_default_def word_le_nat_alt)
  moreover have "unat derived = (case kind of Photo \<Rightarrow> unat (pa_size_bytes input) | Video \<Rightarrow> 2 * unat (pa_size_bytes input))"
    using res by (cases kind) (auto simp: reserved_attachment_derivative_bytes_def checked_mul64_def unat_word_ariths split: if_split_asm)
  moreover have "unat reservation = unat (pa_size_bytes input) + unat derived" "unat expires = unat (pa_now_unix input) + 24 * 60 * 60"
    using usage_unat [OF rest(2)] rest(4) by (simp_all add: checked_add_Some_iff)
  moreover have "att_kind (pd_attachment d) = kind" "att_upload_expires_at_unix (pd_attachment d) = expires"
    by (simp_all add: a prepared_attachment_def)
  ultimately show ?thesis using size(1) rest d by (simp add: unat_gt_0)
qed

section \<open>Examples\<close>

definition demo_sha :: string where "demo_sha = replicate 64 (CHR ''a'')"

definition demo_prepare :: prepare_attachment_input where
  "demo_prepare = \<lparr>pa_attachment_id = ''a'', pa_repository_id = ''r'', pa_request_id = ''q'', pa_uploader_user_id = ''u'',
     pa_upload_id = ''l'', pa_operation_id = ''o'', pa_target = ForDescription, pa_filename = ''f'',
     pa_declared_media_type = ''image/png'', pa_size_bytes = 5, pa_sha256 = demo_sha, pa_actor_can_write_target = True,
     pa_request_is_open = True, pa_target_attachment_count = 0, pa_request_source_bytes = 0, pa_repository_reserved_bytes = 0,
     pa_now_unix = 100\<rparr>"

lemma demo_kind: "AttachmentKind_from_media_type ''image/png'' = Some Photo"
  by (simp add: AttachmentKind_from_media_type_def trim_visible visible_ascii_def REQUEST_ATTACHMENT_PHOTO_MEDIA_TYPES_def
      eq_ignore_ascii_case_def)

lemma demo_sha_ok: "validate_sha256 demo_sha = Ok ()" "validate_media_digest label demo_sha = Ok ()"
  "map to_ascii_lowercase demo_sha = demo_sha"
  by (simp_all add: validate_sha256_def validate_media_digest_def demo_sha_def list_all_iff is_ascii_hexdigit_def to_ascii_lowercase_def
      is_ascii_uppercase_def less_eq_char_def)

lemma demo_control: "\<not> has_control ''l''" "\<not> has_control ''o''" "\<not> has_control ''f''"
  by simp_all

lemma demo_prepared:
  "validate_prepare_attachment demo_prepare =
     Ok \<lparr>pd_attachment = prepared_attachment demo_prepare Photo 86500, pd_reserved_source_bytes = 5, pd_reserved_derivative_bytes = 5\<rparr>"
proof -
  have "validate_attachment_id ''a'' = Ok ()"
    by (simp add: validate_attachment_id_def REQUEST_ATTACHMENT_ID_MAX_BYTES_def is_ascii_lowercase_def less_eq_char_def)
  then show ?thesis
    by (simp add: validate_prepare_attachment_def demo_prepare_def visible_ascii_def validate_identifier_def
        REQUEST_ATTACHMENT_ID_MAX_BYTES_def demo_control validate_filename_def validate_target_def AttachmentLimits_default_def
        demo_kind max_source_bytes_def demo_sha_ok checked_usage_def checked_add_def reserved_attachment_derivative_bytes_def
        checked_mul64_def)
qed

lemma attachment_budgets_witness:
  "\<exists>d. validate_prepare_attachment demo_prepare = Ok d \<and> unat (pa_size_bytes demo_prepare) \<le> 25 * 1024 ^ 2 \<and>
     unat (att_upload_expires_at_unix (pd_attachment d)) = 100 + 24 * 60 * 60"
  using demo_prepared attachment_budgets [OF demo_prepared] by (simp add: prepared_attachment_def demo_prepare_def)

definition demo_part :: staged_part where
  "demo_part = \<lparr>sp_receipt = \<lparr>pr_part_number = 1, pr_size_bytes = 5, pr_sha256 = demo_sha\<rparr>, sp_object_key = ''k''\<rparr>"

lemma demo_receipts: "validate_part_receipts (prepared_attachment demo_prepare Photo 86500) [sp_receipt demo_part] = Ok ()"
  by (simp add: validate_part_receipts_def prepared_attachment_def demo_prepare_def demo_part_def validate_part_range_def
      checked_mul64_def checked_sub_def AttachmentLimits_default_def REQUEST_MEDIA_CHUNK_BYTES_def demo_sha_ok checked_add_def min_def)


definition demo_original :: media_stored_object where
  "demo_original = \<lparr>so_object_key = ''k'', so_size_bytes = 5, so_sha256 = demo_sha\<rparr>"

definition demo_source :: attachment_source where
  "demo_source = \<lparr>as_detected_media_type = ''image/png'', as_size_bytes = 5, as_sha256 = demo_sha,
     as_image = Some \<lparr>im_width = 2, im_height = 3\<rparr>, as_video = None\<rparr>"

definition demo_preview :: attachment_derivative where
  "demo_preview = \<lparr>ad_id = ''p'', ad_kind = ImagePreview, ad_media_type = ''image/png'',
     ad_object = \<lparr>so_object_key = ''v'', so_size_bytes = 4, so_sha256 = demo_sha\<rparr>, ad_width = Some 2, ad_height = Some 3,
     ad_duration_millis = None\<rparr>"

lemma demo_ready: "\<exists>a. attachment_step\<^sup>*\<^sup>* (prepared_attachment demo_prepare Photo 86500) a \<and> att_state a = AttachmentReady"
proof -
  define a where "a = (prepared_attachment demo_prepare Photo 86500)\<lparr>att_state := AttachmentUploaded, att_failure := None,
    att_updated_at_unix := 200, att_original := Some demo_original\<rparr>"
  have up: "finish_attachment_upload (prepared_attachment demo_prepare Photo 86500) ''u'' ''l'' [sp_receipt demo_part] demo_original 200 = Ok a"
    using demo_receipts by (simp add: finish_attachment_upload_def a_def prepared_attachment_def demo_prepare_def demo_original_def
        demo_sha_ok visible_ascii_def transition_attachment_def attachment_edge_def validate_failure_for_state_def)
  obtain b where b: "validate_processing_completion a demo_source [demo_preview] 300 = Ok b"
    by (simp add: validate_processing_completion_def mark_processing_source_validated_def demo_source_def a_def prepared_attachment_def
        demo_prepare_def demo_original_def demo_sha_ok eq_ignore_ascii_case_def ensure_processable_def validate_attachment_source_def
        demo_kind max_source_bytes_def AttachmentLimits_default_def validate_source_metadata_def checked_mul64_def
        transition_attachment_def attachment_edge_def validate_failure_for_state_def validate_derivatives_def validate_derivative_def
        demo_preview_def visible_ascii_def derivative_fits_def required_derivatives_def)
  have ready: "att_state b = AttachmentReady"
    using b transition_effect(1) by (auto simp: validate_processing_completion_def and_then_Ok_iff)
  have "attachment_step (prepared_attachment demo_prepare Photo 86500) a" "attachment_step a b"
    using up b by (blast intro: finished completed)+
  with ready show ?thesis by (meson converse_rtranclp_into_rtranclp r_into_rtranclp)
qed

lemma attachment_life_witness:
  "\<exists>a. att_state a = AttachmentReady \<and> original_is_grantable a \<and> att_size_bytes a = 5 \<and> att_derivatives a \<noteq> []"
proof -
  obtain a where a: "attachment_step\<^sup>*\<^sup>* (prepared_attachment demo_prepare Photo 86500) a" "att_state a = AttachmentReady"
    using demo_ready by blast
  from attachment_life [OF demo_prepared, of a] a
  have "original_is_grantable a" "att_size_bytes a = 5" "required_derivatives (att_kind a) \<subseteq> set (map ad_kind (att_derivatives a))"
    by (simp_all add: demo_prepare_def)
  then show ?thesis using a(2) by (intro exI [of _ a]) (cases "att_kind a"; auto simp: required_derivatives_def)
qed
end
