(* ===== verification/Workflow_Catalog.thy ===== *)
theory Workflow_Catalog
  imports Run_Attempts Request_Checks
begin

text \<open>
  Which workflows of a commit may run, and how a run of one is asked for: \<^verbatim>\<open>runs/catalog.rs\<close> (the workflow files captured
  with a commit), \<^verbatim>\<open>runs/trigger.rs\<close> (the evaluation a push starts), \<^verbatim>\<open>runs/manual.rs\<close> (runs started by a user) and
  \<^verbatim>\<open>runs/dispatch_authorization.rs\<close> (what a dispatcher may start or stop), with the object names of
  \<^verbatim>\<open>content_ref.rs\<close>. The hash functions are parameters that give the digest in hexadecimal.
\<close>

section \<open>Workflow files\<close>

definition git_object_oid :: "(string \<Rightarrow> string) \<Rightarrow> string \<Rightarrow> string \<Rightarrow> string" where
  "git_object_oid sha1_hex kind payload = sha1_hex (kind @ '' '' @ show_nat (length payload) @ [CHR 0x00] @ payload)"

definition git_blob_oid :: "(string \<Rightarrow> string) \<Rightarrow> string \<Rightarrow> string" where
  "git_blob_oid sha1_hex bytes = git_object_oid sha1_hex ''blob'' bytes"

definition MAX_REPOSITORY_WORKFLOW_FILES :: nat where "MAX_REPOSITORY_WORKFLOW_FILES = 64"
definition MAX_WORKFLOW_DEFINITION_BYTES :: nat where "MAX_WORKFLOW_DEFINITION_BYTES = 64 * 1024"
definition MAX_REPOSITORY_WORKFLOW_CONFIGURATION_ERROR_BYTES :: nat where
  "MAX_REPOSITORY_WORKFLOW_CONFIGURATION_ERROR_BYTES = 4 * 1024"

datatype workflow_catalog_error =
  CatalogMissingRepositoryId | CatalogInvalidSourceHead | CatalogInvalidSourceChangeVersion | CatalogMissingConfigurationError
| CatalogConfigurationErrorTooLarge | CatalogSourceMismatch | CatalogTooManyFiles | CatalogDuplicatePath string
| CatalogInvalidPath path_error | CatalogInvalidGitObjectId string | CatalogUnsupportedGitFileMode string string
| CatalogDefinitionTooLarge string | CatalogSizeMismatch string | CatalogGitObjectMismatch string
| CatalogSourceBlobMismatch string

definition workflow_path_error_message :: "path_error \<Rightarrow> string" where
  "workflow_path_error_message e = ''workflow path must be /.scope/runs/<kebab-name>.yml or .yaml''"

definition catalog_error_message :: "workflow_catalog_error \<Rightarrow> string" where
  "catalog_error_message e =
     (case e of
        CatalogMissingRepositoryId \<Rightarrow> ''repository workflow catalog requires a repository id''
      | CatalogInvalidSourceHead \<Rightarrow> ''repository workflow catalog head must be a SHA-1 hex digest''
      | CatalogInvalidSourceChangeVersion \<Rightarrow> ''repository workflow catalog change version must be greater than zero''
      | CatalogMissingConfigurationError \<Rightarrow> ''repository workflow catalog rejection requires a configuration error''
      | CatalogConfigurationErrorTooLarge \<Rightarrow> ''repository workflow catalog configuration error exceeds ''
          @ show_nat MAX_REPOSITORY_WORKFLOW_CONFIGURATION_ERROR_BYTES @ '' bytes''
      | CatalogSourceMismatch \<Rightarrow> ''repository workflow catalog does not match the accepted repository state''
      | CatalogTooManyFiles \<Rightarrow> ''repository contains more than '' @ show_nat MAX_REPOSITORY_WORKFLOW_FILES @ '' workflow definitions''
      | CatalogDuplicatePath p \<Rightarrow> ''workflow path '' @ p @ '' appears more than once in the repository catalog''
      | CatalogInvalidPath e \<Rightarrow> workflow_path_error_message e
      | CatalogInvalidGitObjectId p \<Rightarrow> ''workflow '' @ p @ '' has an invalid Git object ID''
      | CatalogUnsupportedGitFileMode p mode \<Rightarrow> ''workflow '' @ p @ '' has unsupported Git file mode '' @ mode
      | CatalogDefinitionTooLarge p \<Rightarrow> ''workflow '' @ p @ '' exceeds '' @ show_nat MAX_WORKFLOW_DEFINITION_BYTES @ '' bytes''
      | CatalogSizeMismatch p \<Rightarrow> ''workflow '' @ p @ '' size does not match its content''
      | CatalogGitObjectMismatch p \<Rightarrow> ''workflow '' @ p @ '' content does not match its Git object ID''
      | CatalogSourceBlobMismatch p \<Rightarrow> ''workflow '' @ p @ '' does not match its source blob'')"

record repository_workflow_file =
  wf_path :: workflow_path
  wf_oid :: string
  wf_size_bytes :: nat
  wf_git_file_mode :: string
  wf_content_bytes :: string

definition file_validate_integrity ::
  "(string \<Rightarrow> string) \<Rightarrow> repository_workflow_file \<Rightarrow> (workflow_catalog_error, unit) result" where
  "file_validate_integrity sha1_hex f =
     (let path = workflow_path_str (wf_path f) in
      if \<not> is_git_oid (wf_oid f) then Err (CatalogInvalidGitObjectId path)
      else if \<not> is_regular_git_file_mode (wf_git_file_mode f) then
        Err (CatalogUnsupportedGitFileMode path (wf_git_file_mode f))
      else if MAX_WORKFLOW_DEFINITION_BYTES < length (wf_content_bytes f) then Err (CatalogDefinitionTooLarge path)
      else if wf_size_bytes f \<noteq> length (wf_content_bytes f) then Err (CatalogSizeMismatch path)
      else if wf_oid f \<noteq> git_blob_oid sha1_hex (wf_content_bytes f) then Err (CatalogGitObjectMismatch path)
      else Ok ())"

definition WorkflowFile_new ::
  "(string \<Rightarrow> string) \<Rightarrow> string \<Rightarrow> string \<Rightarrow> nat \<Rightarrow> string \<Rightarrow> string \<Rightarrow> (workflow_catalog_error, repository_workflow_file) result" where
  "WorkflowFile_new sha1_hex path oid size_bytes git_file_mode content_bytes =
     (case WorkflowPath_parse path of
        Err e \<Rightarrow> Err (CatalogInvalidPath e)
      | Ok p \<Rightarrow>
          let f = \<lparr>wf_path = p, wf_oid = map to_ascii_lowercase oid, wf_size_bytes = size_bytes,
                wf_git_file_mode = git_file_mode, wf_content_bytes = content_bytes\<rparr>
          in and_then (file_validate_integrity sha1_hex f) (\<lambda>_. Ok f))"

definition WorkflowFile_from_content ::
  "(string \<Rightarrow> string) \<Rightarrow> string \<Rightarrow> string \<Rightarrow> string \<Rightarrow> (workflow_catalog_error, repository_workflow_file) result" where
  "WorkflowFile_from_content sha1_hex path git_file_mode content_bytes =
     WorkflowFile_new sha1_hex path (git_blob_oid sha1_hex content_bytes) (length content_bytes) git_file_mode content_bytes"

definition source_blob_identity_matches :: "source_blob \<Rightarrow> bool" where
  "source_blob_identity_matches blob =
     (case sb_content_ref blob of
        GitBlob git_oid \<Rightarrow> git_oid = sb_git_oid blob
      | BlobSha256 sha256 \<Rightarrow> sha256 = sb_sha256 blob
      | _ \<Rightarrow> False)"

definition file_verify_source ::
  "(string \<Rightarrow> string) \<Rightarrow> (string \<Rightarrow> string) \<Rightarrow> repository_workflow_file \<Rightarrow> source_blob \<Rightarrow> (workflow_catalog_error, unit) result" where
  "file_verify_source sha1_hex sha256_hex f blob =
     and_then (file_validate_integrity sha1_hex f) (\<lambda>_.
     let digest_matches = (\<not> (case sb_content_ref blob of BlobSha256 _ \<Rightarrow> True | _ \<Rightarrow> False)
           \<or> sb_sha256 blob = sha256_hex (wf_content_bytes f))
     in if source_blob_identity_matches blob \<and> wf_oid f = map to_ascii_lowercase (sb_git_oid blob)
           \<and> wf_git_file_mode f = sb_git_file_mode blob \<and> wf_size_bytes f = sb_size_bytes blob \<and> digest_matches
        then Ok () else Err (CatalogSourceBlobMismatch (workflow_path_str (wf_path f))))"

definition WorkflowFile_from_source_blob ::
  "(string \<Rightarrow> string) \<Rightarrow> (string \<Rightarrow> string) \<Rightarrow> string \<Rightarrow> source_blob \<Rightarrow> string
   \<Rightarrow> (workflow_catalog_error, repository_workflow_file) result" where
  "WorkflowFile_from_source_blob sha1_hex sha256_hex path blob content_bytes =
     and_then (WorkflowFile_new sha1_hex path (sb_git_oid blob) (sb_size_bytes blob) (sb_git_file_mode blob) content_bytes) (\<lambda>f.
     and_then (file_verify_source sha1_hex sha256_hex f blob) (\<lambda>_. Ok f))"

section \<open>Catalogs\<close>

datatype workflow_catalog_state = Captured "repository_workflow_file list" | CatalogRejected string

record workflow_catalog =
  wc_repository_id :: string
  wc_source_head_oid :: string
  wc_source_change_version :: u64
  wc_state :: workflow_catalog_state

definition catalog_files :: "workflow_catalog \<Rightarrow> repository_workflow_file list option" where
  "catalog_files c = (case wc_state c of Captured files \<Rightarrow> Some files | CatalogRejected _ \<Rightarrow> None)"

definition catalog_configuration_error :: "workflow_catalog \<Rightarrow> string option" where
  "catalog_configuration_error c = (case wc_state c of Captured _ \<Rightarrow> None | CatalogRejected e \<Rightarrow> Some e)"

definition catalog_validate_identity :: "string \<Rightarrow> string \<Rightarrow> u64 \<Rightarrow> (workflow_catalog_error, unit) result" where
  "catalog_validate_identity repository_id source_head_oid source_change_version =
     (if trim repository_id = [] then Err CatalogMissingRepositoryId
      else if \<not> is_git_oid source_head_oid then Err CatalogInvalidSourceHead
      else if source_change_version = 0 then Err CatalogInvalidSourceChangeVersion
      else Ok ())"

fun check_catalog_files ::
  "(string \<Rightarrow> string) \<Rightarrow> string set \<Rightarrow> repository_workflow_file list \<Rightarrow> (workflow_catalog_error, unit) result" where
  "check_catalog_files sha1_hex paths [] = Ok ()"
| "check_catalog_files sha1_hex paths (f # files) =
     and_then (file_validate_integrity sha1_hex f) (\<lambda>_.
     let path = workflow_path_str (wf_path f) in
     if path \<in> paths then Err (CatalogDuplicatePath path)
     else check_catalog_files sha1_hex (insert path paths) files)"

definition catalog_validate_integrity ::
  "(string \<Rightarrow> string) \<Rightarrow> workflow_catalog \<Rightarrow> (workflow_catalog_error, unit) result" where
  "catalog_validate_integrity sha1_hex c =
     and_then (catalog_validate_identity (wc_repository_id c) (wc_source_head_oid c) (wc_source_change_version c)) (\<lambda>_.
     case wc_state c of
       Captured files \<Rightarrow>
         if MAX_REPOSITORY_WORKFLOW_FILES < length files then Err CatalogTooManyFiles
         else check_catalog_files sha1_hex {} files
     | CatalogRejected e \<Rightarrow>
         if trim e = [] then Err CatalogMissingConfigurationError
         else if MAX_REPOSITORY_WORKFLOW_CONFIGURATION_ERROR_BYTES < length e then Err CatalogConfigurationErrorTooLarge
         else Ok ())"

definition Catalog_captured ::
  "(string \<Rightarrow> string) \<Rightarrow> string \<Rightarrow> string \<Rightarrow> u64 \<Rightarrow> repository_workflow_file list \<Rightarrow> (workflow_catalog_error, workflow_catalog) result" where
  "Catalog_captured sha1_hex repository_id source_head_oid source_change_version files =
     (let c = \<lparr>wc_repository_id = repository_id, wc_source_head_oid = map to_ascii_lowercase source_head_oid,
           wc_source_change_version = source_change_version,
           wc_state = Captured (sort_key (\<lambda>f. workflow_path_str (wf_path f)) files)\<rparr>
      in and_then (catalog_validate_integrity sha1_hex c) (\<lambda>_. Ok c))"

definition Catalog_rejected ::
  "(string \<Rightarrow> string) \<Rightarrow> string \<Rightarrow> string \<Rightarrow> u64 \<Rightarrow> string \<Rightarrow> (workflow_catalog_error, workflow_catalog) result" where
  "Catalog_rejected sha1_hex repository_id source_head_oid source_change_version config_error =
     (let c = \<lparr>wc_repository_id = repository_id, wc_source_head_oid = map to_ascii_lowercase source_head_oid,
           wc_source_change_version = source_change_version, wc_state = CatalogRejected config_error\<rparr>
      in and_then (catalog_validate_integrity sha1_hex c) (\<lambda>_. Ok c))"

definition catalog_verify_source ::
  "(string \<Rightarrow> string) \<Rightarrow> workflow_catalog \<Rightarrow> string \<Rightarrow> string \<Rightarrow> u64 \<Rightarrow> (workflow_catalog_error, unit) result" where
  "catalog_verify_source sha1_hex c repository_id source_head_oid source_change_version =
     and_then (catalog_validate_integrity sha1_hex c) (\<lambda>_.
     if wc_repository_id c = repository_id \<and> wc_source_head_oid c = map to_ascii_lowercase source_head_oid
        \<and> wc_source_change_version c = source_change_version
     then Ok () else Err CatalogSourceMismatch)"

definition rebind_source_change_version ::
  "workflow_catalog \<Rightarrow> string \<Rightarrow> string \<Rightarrow> u64 \<Rightarrow> (workflow_catalog_error, workflow_catalog) result" where
  "rebind_source_change_version c repository_id source_head_oid source_change_version =
     and_then (catalog_validate_identity repository_id source_head_oid source_change_version) (\<lambda>_.
     if wc_repository_id c \<noteq> repository_id \<or> wc_source_head_oid c \<noteq> map to_ascii_lowercase source_head_oid
     then Err CatalogSourceMismatch
     else Ok (c\<lparr>wc_source_change_version := source_change_version\<rparr>))"

end
