(* ===== verification/Run_Requests.thy ===== *)
theory Run_Requests
  imports Workflow_Catalog Scope_Repository
begin

text \<open>
  The evaluation a push starts (\<^verbatim>\<open>runs/trigger.rs\<close>), runs started by a user (\<^verbatim>\<open>runs/manual.rs\<close>) and what a dispatcher
  may start or stop (\<^verbatim>\<open>runs/dispatch_authorization.rs\<close>).
\<close>

section \<open>Push triggers\<close>

record push_workflow_file =
  pw_path :: string
  pw_bytes :: string

definition PushWorkflowFile_new :: "string \<Rightarrow> string \<Rightarrow> (path_error, push_workflow_file) result" where
  "PushWorkflowFile_new path bytes =
     and_then (WorkflowPath_parse path) (\<lambda>p. Ok \<lparr>pw_path = workflow_path_str p, pw_bytes = bytes\<rparr>)"

record push_trigger_input =
  pti_head_oid :: string
  pti_workflows :: "push_workflow_file list"
  pti_configuration_error :: "string option"

definition PushTriggerInput_new ::
  "string \<Rightarrow> push_workflow_file list \<Rightarrow> string option \<Rightarrow> (domain_error, push_trigger_input) result" where
  "PushTriggerInput_new head_oid workflows config_error =
     and_then (validate_git_oid ''push trigger head'' head_oid) (\<lambda>_.
     Ok \<lparr>pti_head_oid = head_oid, pti_workflows = workflows, pti_configuration_error = config_error\<rparr>)"

definition requires_evaluation :: "push_trigger_input \<Rightarrow> bool" where
  "requires_evaluation input \<longleftrightarrow> pti_workflows input \<noteq> [] \<or> pti_configuration_error input \<noteq> None"

definition push_input_of_catalog :: "workflow_catalog \<Rightarrow> push_trigger_input" where
  "push_input_of_catalog c =
     \<lparr>pti_head_oid = wc_source_head_oid c,
      pti_workflows = map (\<lambda>f. \<lparr>pw_path = workflow_path_str (wf_path f), pw_bytes = wf_content_bytes f\<rparr>)
        (case catalog_files c of Some files \<Rightarrow> files | None \<Rightarrow> []),
      pti_configuration_error = catalog_configuration_error c\<rparr>"

datatype push_trigger_state = TriggerPending | TriggerSucceeded | TriggerConfigurationError | TriggerFailed

record push_trigger_check =
  ptc_workflow_path :: string
  ptc_workflow_name :: string
  ptc_run_id :: string

record push_trigger_evaluation =
  pte_repository_id :: string
  pte_change_version :: u64
  pte_head_oid :: string
  pte_state :: push_trigger_state
  pte_message :: "string option"
  pte_checks :: "push_trigger_check list"
  pte_created_at_unix :: u64
  pte_completed_at_unix :: "u64 option"

definition trigger_finish ::
  "push_trigger_evaluation \<Rightarrow> push_trigger_state \<Rightarrow> string option \<Rightarrow> push_trigger_check list \<Rightarrow> u64
   \<Rightarrow> (domain_error, push_trigger_evaluation) result" where
  "trigger_finish e state message checks now_unix =
     (if pte_state e \<noteq> TriggerPending then Err (conflict ''push trigger evaluation is already complete'')
      else if now_unix < pte_created_at_unix e then
        Err (invalid_input ''push trigger evaluation completion cannot predate creation'')
      else if (state = TriggerConfigurationError \<or> state = TriggerFailed)
          \<and> (case message of None \<Rightarrow> True | Some m \<Rightarrow> trim m = []) then
        Err (invalid_input ''failed push trigger evaluation requires a message'')
      else Ok (e\<lparr>pte_state := state, pte_message := message, pte_checks := checks, pte_completed_at_unix := Some now_unix\<rparr>))"

definition trigger_succeed ::
  "push_trigger_evaluation \<Rightarrow> push_trigger_check list \<Rightarrow> u64 \<Rightarrow> (domain_error, push_trigger_evaluation) result" where
  "trigger_succeed e checks now_unix = trigger_finish e TriggerSucceeded None checks now_unix"

definition trigger_configuration_error ::
  "push_trigger_evaluation \<Rightarrow> string \<Rightarrow> u64 \<Rightarrow> (domain_error, push_trigger_evaluation) result" where
  "trigger_configuration_error e message now_unix = trigger_finish e TriggerConfigurationError (Some message) [] now_unix"

definition trigger_fail ::
  "push_trigger_evaluation \<Rightarrow> string \<Rightarrow> u64 \<Rightarrow> (domain_error, push_trigger_evaluation) result" where
  "trigger_fail e message now_unix = trigger_finish e TriggerFailed (Some message) [] now_unix"

definition trigger_pending ::
  "string \<Rightarrow> u64 \<Rightarrow> string \<Rightarrow> u64 \<Rightarrow> (domain_error, push_trigger_evaluation) result" where
  "trigger_pending repository_id change_version head_oid now_unix =
     (if trim repository_id = [] \<or> change_version = 0 then
        Err (invalid_input ''push trigger evaluation identity is invalid'')
      else and_then (validate_git_oid ''push trigger evaluation head'' head_oid) (\<lambda>_.
        Ok \<lparr>pte_repository_id = repository_id, pte_change_version = change_version, pte_head_oid = head_oid,
          pte_state = TriggerPending, pte_message = None, pte_checks = [], pte_created_at_unix = now_unix,
          pte_completed_at_unix = None\<rparr>))"

definition trigger_for_push ::
  "string \<Rightarrow> u64 \<Rightarrow> push_trigger_input \<Rightarrow> u64 \<Rightarrow> (domain_error, push_trigger_evaluation) result" where
  "trigger_for_push repository_id change_version input now_unix =
     and_then (trigger_pending repository_id change_version (pti_head_oid input) now_unix) (\<lambda>e.
     if \<not> requires_evaluation input then trigger_succeed e [] now_unix else Ok e)"

section \<open>Manual runs\<close>

record manual_run_request =
  mn_repository_id :: string
  mn_user_id :: string
  mn_request_id :: string
  mn_git_oid :: string
  mn_workflow_name :: string

definition ManualRunRequest_new ::
  "string \<Rightarrow> string \<Rightarrow> string \<Rightarrow> string \<Rightarrow> string \<Rightarrow> (domain_error, manual_run_request) result" where
  "ManualRunRequest_new repository_id user_id request_id git_oid workflow_name =
     (if trim repository_id = [] \<or> trim user_id = [] then
        Err (invalid_input ''manual run repository and user are required'')
      else if length request_id \<noteq> 32 \<or> \<not> list_all is_ascii_hexdigit request_id then
        Err (invalid_input ''request_id must be a 32-character hex string'')
      else and_then (validate_git_oid ''git_oid'' git_oid) (\<lambda>_.
        (case WorkflowPath_parse (''/.scope/runs/'' @ workflow_name @ ''.yml'') of
           Err e \<Rightarrow> Err (invalid_input (workflow_path_error_message e))
         | Ok _ \<Rightarrow> Ok \<lparr>mn_repository_id = repository_id, mn_user_id = user_id, mn_request_id = request_id,
             mn_git_oid = map to_ascii_lowercase git_oid, mn_workflow_name = workflow_name\<rparr>)))"

definition manual_run_id :: "manual_run_request \<Rightarrow> string" where
  "manual_run_id q = ''run_'' @ mn_request_id q"

definition manual_idempotency_key :: "manual_run_request \<Rightarrow> string" where
  "manual_idempotency_key q = ''manual:'' @ mn_request_id q"

definition manual_require_access :: "repository_access \<Rightarrow> views \<Rightarrow> (domain_error, unit) result" where
  "manual_require_access access views =
     (if \<not> is_maintainer access then Err (forbidden ''repo membership required'')
      else ensure_run_reader access views)"

definition require_matching_run :: "manual_run_request \<Rightarrow> run \<Rightarrow> (domain_error, unit) result" where
  "require_matching_run q r =
     (if rn_id r = manual_run_id q \<and> rn_idempotency_key r = manual_idempotency_key q
         \<and> wi_repository_id (rn_workflow r) = mn_repository_id q
         \<and> WorkflowPath_name (wi_path (rn_workflow r)) = Some (mn_workflow_name q)
         \<and> rn_requested_by_user_id r = Some (mn_user_id q) \<and> rn_trigger r = TriggerManual
         \<and> source_git_oid (rn_source r) = mn_git_oid q
      then Ok () else Err (conflict ''run request_id is already used by a different manual run''))"

text \<open>The name is shown in quotation marks; it is a kebab-case name, in which nothing is escaped.\<close>

definition quoted :: "string \<Rightarrow> string" where
  "quoted s = [CHR 0x22] @ s @ [CHR 0x22]"

definition manual_workflow_file ::
  "(string \<Rightarrow> string) \<Rightarrow> manual_run_request \<Rightarrow> workflow_catalog \<Rightarrow> (domain_error, repository_workflow_file) result" where
  "manual_workflow_file sha1_hex q c =
     (case catalog_verify_source sha1_hex c (mn_repository_id q) (mn_git_oid q) (wc_source_change_version c) of
        Err e \<Rightarrow> Err (invalid_input (catalog_error_message e))
      | Ok _ \<Rightarrow>
          (case catalog_configuration_error c of
             Some e \<Rightarrow> Err (invalid_input e)
           | None \<Rightarrow>
               (case filter (\<lambda>f. WorkflowPath_name (wf_path f) = Some (mn_workflow_name q))
                   (case catalog_files c of Some files \<Rightarrow> files | None \<Rightarrow> []) of
                  [] \<Rightarrow> Err (not_found (''workflow '' @ quoted (mn_workflow_name q) @ '' was not found at commit '' @ mn_git_oid q))
                | [f] \<Rightarrow> Ok f
                | _ \<Rightarrow> Err (invalid_input (''workflow '' @ quoted (mn_workflow_name q) @ '' is defined by both .yml and .yaml'')))))"

definition create_manual_run ::
  "manual_run_request \<Rightarrow> workflow_revision \<Rightarrow> run_source \<Rightarrow> u64 \<Rightarrow> (domain_error, run) result" where
  "create_manual_run q rv source now_unix =
     (if source_git_oid source \<noteq> mn_git_oid q \<or> wi_repository_id (wr_workflow rv) \<noteq> mn_repository_id q
         \<or> WorkflowPath_name (wi_path (wr_workflow rv)) \<noteq> Some (mn_workflow_name q) then
        Err (invalid_input ''manual run source and workflow do not match the request'')
      else if (case logical_git_head source of Some (repository_id, _) \<Rightarrow> repository_id \<noteq> mn_repository_id q | None \<Rightarrow> False) then
        Err (invalid_input ''manual run source belongs to another repository'')
      else and_then (Run_new (manual_run_id q) (manual_idempotency_key q) (wr_workflow rv) (wr_digest rv) TriggerManual
          (Some (mn_user_id q)) source now_unix) (\<lambda>r.
        and_then (validate_workflow_revision r rv) (\<lambda>_. Ok r)))"

section \<open>Dispatch\<close>

datatype dispatch_authorization = DispatchStart string string u64 | DispatchStop string

definition ensure_run_alignment :: "run \<Rightarrow> run_attempt \<Rightarrow> (domain_error, unit) result" where
  "ensure_run_alignment r attempt =
     (if rn_id r \<noteq> at_run_id attempt then Err (invariant_violation ''attempt belongs to another run'') else Ok ())"

definition authorize_start ::
  "run \<Rightarrow> run_job \<Rightarrow> run_attempt \<Rightarrow> string \<Rightarrow> u64 \<Rightarrow> (domain_error, dispatch_authorization) result" where
  "authorize_start r job attempt bootstrap_hash now_unix =
     and_then (ensure_run_alignment r attempt) (\<lambda>_.
     and_then (authenticate attempt job bootstrap_hash now_unix) (\<lambda>_.
     let deadline_unix = saturating_add (at_created_at_unix attempt) MAX_RUN_ATTEMPT_AGE_SECONDS in
     if run_terminal (rn_state r) \<or> rn_cancellation_requested r \<or> rj_state job \<noteq> JobDispatching
        \<or> at_state attempt \<noteq> AttemptDispatching \<or> deadline_unix \<le> now_unix then
       Err (conflict ''attempt cannot be dispatched'')
     else Ok (DispatchStart (at_id attempt) (image_str (rj_pinned_container_image job)) deadline_unix)))"

definition authorize_stop :: "run \<Rightarrow> run_attempt \<Rightarrow> (domain_error, dispatch_authorization) result" where
  "authorize_stop r attempt =
     and_then (ensure_run_alignment r attempt) (\<lambda>_.
     if \<not> rn_cancellation_requested r \<and> \<not> attempt_terminal (at_state attempt) then
       Err (conflict ''attempt is not eligible for cleanup'')
     else Ok (DispatchStop (at_id attempt)))"

end
