(* ===== verification/Run_Request_Properties.thy ===== *)
theory Run_Request_Properties
  imports Run_Requests Lifecycles
begin

text \<open>
  What the catalog of a commit, a push evaluation, a manual run and a dispatch authorisation promise: a catalog does not
  depend on the order in which its files were read and holds the files the commit names; an evaluation is settled once;
  a manual run answers to exactly one request; and an attempt is never startable and stoppable at the same time.
\<close>

section \<open>Catalogs\<close>

definition path_key :: "repository_workflow_file \<Rightarrow> string" where
  "path_key f = workflow_path_str (wf_path f)"

lemma check_catalog_files_Ok:
  "check_catalog_files h paths files = Ok () \<longleftrightarrow>
     list_all (\<lambda>f. file_validate_integrity h f = Ok ()) files \<and> distinct (map path_key files) \<and> set (map path_key files) \<inter> paths = {}"
  by (induction files arbitrary: paths) (auto simp: and_then_Ok_iff Let_def path_key_def split: if_split_asm)

lemma file_integrity:
  "file_validate_integrity h f = Ok () \<Longrightarrow> wf_oid f = git_blob_oid h (wf_content_bytes f) \<and>
     wf_size_bytes f = length (wf_content_bytes f) \<and> length (wf_content_bytes f) \<le> 64 * 1024"
  by (auto simp: file_validate_integrity_def Let_def MAX_WORKFLOW_DEFINITION_BYTES_def not_less split: if_split_asm)

lemma captured_Ok:
  "Catalog_captured h repository head version files = Ok c \<longleftrightarrow>
     c = \<lparr>wc_repository_id = repository, wc_source_head_oid = map to_ascii_lowercase head, wc_source_change_version = version,
          wc_state = Captured (sort_key path_key files)\<rparr> \<and>
     catalog_validate_identity repository (map to_ascii_lowercase head) version = Ok () \<and> length files \<le> 64 \<and>
     list_all (\<lambda>f. file_validate_integrity h f = Ok ()) files \<and> distinct (map path_key files)"
proof -
  have sort: "(\<lambda>f. workflow_path_str (wf_path f)) = path_key" by (simp add: path_key_def fun_eq_iff)
  have "distinct (map path_key (sort_key path_key files)) \<longleftrightarrow> distinct (map path_key files)"
    by (metis distinct_map distinct_sort set_sort)
  then show ?thesis
    unfolding Catalog_captured_def sort
    by (auto simp: Let_def and_then_Ok_iff catalog_validate_integrity_def check_catalog_files_Ok MAX_REPOSITORY_WORKFLOW_FILES_def
        list_all_iff not_less split: if_split_asm)
qed

text \<open>
  A captured catalog does not depend on the order in which the files were read. It lists at most 64 files with
  strictly increasing paths, each with the object name and the size of its content, and it is accepted as the catalog of
  the repository, commit and version it was captured for.
\<close>

theorem captured_catalog_canonical:
  assumes "Catalog_captured sha1_hex repository head version files = Ok c" and "mset files' = mset files"
  shows "Catalog_captured sha1_hex repository head version files' = Ok c \<and>
    catalog_verify_source sha1_hex c repository head version = Ok () \<and>
    (\<exists>listed. catalog_files c = Some listed \<and> mset listed = mset files \<and> length listed \<le> 64 \<and>
       sorted_wrt (<) (map (\<lambda>f. workflow_path_str (wf_path f)) listed) \<and>
       list_all (\<lambda>f. wf_oid f = git_blob_oid sha1_hex (wf_content_bytes f) \<and> wf_size_bytes f = length (wf_content_bytes f)) listed)"
proof -
  note c = assms(1) [unfolded captured_Ok]
  have inj: "inj_on path_key (set files')"
    using c assms(2) by (metis distinct_map set_mset_mset)
  have len: "length files' = length files" and sets: "set files' = set files"
    using assms(2) mset_eq_length mset_eq_setD by blast+
  have keys: "mset (map path_key files') = mset (map path_key files)" using assms(2) by simp
  then have dist: "distinct (map path_key files')" using c mset_eq_imp_distinct_iff by blast
  have sort: "sort_key path_key files' = sort_key path_key files"
    by (rule sort_key_inj_key_eq [OF _ inj]) (use assms(2) in simp_all)
  then have again: "Catalog_captured sha1_hex repository head version files' = Ok c"
    using c len sets dist unfolding captured_Ok by (simp add: list_all_iff)
  have strict: "sorted_wrt (<) (map path_key (sort_key path_key files))"
    using c by (simp add: strict_sorted_iff distinct_map)
  have "catalog_validate_integrity sha1_hex c = Ok ()"
    using assms(1) by (auto simp: Catalog_captured_def Let_def and_then_Ok_iff)
  then have verify: "catalog_verify_source sha1_hex c repository head version = Ok ()"
    using c by (simp add: catalog_verify_source_def)
  have "catalog_files c = Some (sort_key path_key files)" using c by (simp add: catalog_files_def)
  moreover have "list_all (\<lambda>f. wf_oid f = git_blob_oid sha1_hex (wf_content_bytes f) \<and> wf_size_bytes f = length (wf_content_bytes f))
      (sort_key path_key files)"
    using c file_integrity by (fastforce simp: list_all_iff)
  ultimately show ?thesis using again verify strict c unfolding path_key_def by auto
qed

section \<open>Push evaluations\<close>

inductive trigger_step :: "push_trigger_evaluation \<Rightarrow> push_trigger_evaluation \<Rightarrow> bool" where
  succeeded: "trigger_succeed e checks now = Ok e' \<Longrightarrow> trigger_step e e'"
| misconfigured: "trigger_configuration_error e message now = Ok e' \<Longrightarrow> trigger_step e e'"
| broken: "trigger_fail e message now = Ok e' \<Longrightarrow> trigger_step e e'"

definition trigger_ok :: "push_trigger_evaluation \<Rightarrow> bool" where
  "trigger_ok e \<longleftrightarrow> (pte_state e = TriggerPending \<longleftrightarrow> pte_completed_at_unix e = None) \<and>
     (\<forall>t. pte_completed_at_unix e = Some t \<longrightarrow> pte_created_at_unix e \<le> t) \<and>
     (pte_state e \<noteq> TriggerSucceeded \<longrightarrow> pte_checks e = []) \<and>
     (pte_state e = TriggerConfigurationError \<or> pte_state e = TriggerFailed \<longrightarrow> (\<exists>m. pte_message e = Some m \<and> trim m \<noteq> []))"

definition trigger_edge :: "push_trigger_state \<Rightarrow> push_trigger_state \<Rightarrow> bool" where
  "trigger_edge s t \<longleftrightarrow> s = TriggerPending \<and> t \<noteq> TriggerPending"

lemma trigger_finish_Ok:
  "trigger_finish e state message checks now = Ok e' \<Longrightarrow> pte_state e = TriggerPending \<and> pte_created_at_unix e \<le> now \<and>
     (state = TriggerConfigurationError \<or> state = TriggerFailed \<longrightarrow> (\<exists>m. message = Some m \<and> trim m \<noteq> [])) \<and>
     e' = e\<lparr>pte_state := state, pte_message := message, pte_checks := checks, pte_completed_at_unix := Some now\<rparr>"
  by (auto simp: trigger_finish_def not_less split: if_split_asm option.split_asm)

lemmas trigger_ops = trigger_succeed_def trigger_configuration_error_def trigger_fail_def

lemma trigger_step_finish:
  assumes "trigger_step e e'"
  obtains state message checks now where "trigger_finish e state message checks now = Ok e'" "state \<noteq> TriggerPending"
    "state \<noteq> TriggerSucceeded \<longrightarrow> checks = []"
  using assms by (cases rule: trigger_step.cases) (auto simp: trigger_ops)

interpretation tl: lifecycle trigger_step trigger_ok pte_state trigger_edge
proof
  fix e e' assume "trigger_ok e" "trigger_step e e'"
  then show "trigger_ok e'" "pte_state e' = pte_state e \<or> trigger_edge (pte_state e) (pte_state e')"
    by (auto elim!: trigger_step_finish dest!: trigger_finish_Ok simp: trigger_ok_def trigger_edge_def)
qed

text \<open>
  The evaluation of a push is settled at most once and never silently. It starts settled with no checks exactly when
  the commit has no workflow and no configuration error; afterwards no operation changes a settled evaluation; and a
  configuration error or failure always carries a message.
\<close>

theorem push_evaluation_settles_once:
  assumes start: "trigger_for_push repository version (push_input_of_catalog c) now = Ok e" and "trigger_step\<^sup>*\<^sup>* e e'"
  shows "(pte_state e = TriggerPending \<longleftrightarrow> catalog_files c \<noteq> Some []) \<and>
    (pte_state e' \<noteq> TriggerPending \<longrightarrow> (\<forall>e''. \<not> trigger_step e' e'') \<and> pte_completed_at_unix e' \<noteq> None) \<and>
    (pte_state e' = TriggerConfigurationError \<or> pte_state e' = TriggerFailed \<longrightarrow>
       pte_checks e' = [] \<and> (\<exists>m. pte_message e' = Some m \<and> trim m \<noteq> []))"
proof -
  obtain p where p: "trigger_pending repository version (pti_head_oid (push_input_of_catalog c)) now = Ok p"
    "pte_state p = TriggerPending" "trigger_ok p"
    using start by (auto simp: trigger_for_push_def and_then_Ok_iff trigger_pending_def trigger_ok_def split: if_split_asm)
  have eval: "requires_evaluation (push_input_of_catalog c) \<longleftrightarrow> catalog_files c \<noteq> Some []"
    by (auto simp: requires_evaluation_def push_input_of_catalog_def catalog_files_def catalog_configuration_error_def
        split: workflow_catalog_state.split)
  have e: "if requires_evaluation (push_input_of_catalog c) then e = p else trigger_succeed p [] now = Ok e"
    using start p by (auto simp: trigger_for_push_def)
  then have ok: "trigger_ok e" using p(3) tl.ok_step succeeded by (metis)
  have "pte_state e = TriggerPending \<longleftrightarrow> catalog_files c \<noteq> Some []"
    using e eval p(2) by (auto simp: trigger_succeed_def dest!: trigger_finish_Ok split: if_split_asm)
  moreover have ok': "trigger_ok e'" using tl.ok_reachable [OF assms(2) ok] .
  moreover have "\<not> trigger_step e' e''" if "pte_state e' \<noteq> TriggerPending" for e''
    using that by (auto elim!: trigger_step_finish dest!: trigger_finish_Ok)
  ultimately show ?thesis by (auto simp: trigger_ok_def)
qed

section \<open>Manual runs\<close>

lemma created_manual_run:
  assumes "create_manual_run q rv source now = Ok r"
  shows "rn_id r = manual_run_id q" "rn_idempotency_key r = manual_idempotency_key q" "rn_workflow r = wr_workflow rv"
    "wi_repository_id (wr_workflow rv) = mn_repository_id q" "WorkflowPath_name (wi_path (wr_workflow rv)) = Some (mn_workflow_name q)"
    "rn_requested_by_user_id r = Some (mn_user_id q)" "rn_trigger r = TriggerManual" "rn_source r = source"
    "source_git_oid source = mn_git_oid q" "rn_state r = RunQueued" "\<not> rn_cancellation_requested r"
    "validate_workflow_revision r rv = Ok ()"
  using assms
  by (auto simp: create_manual_run_def and_then_Ok_iff Run_new_def Run_queued_def required_def split: if_split_asm)

text \<open>
  A manual run answers to the request that created it and to no other. Repeating the request finds the run; a request
  with the same number for another repository, user, commit or workflow is refused. The run is queued, its source is the
  requested commit, and its workflow enables manual runs.
\<close>

theorem manual_run_answers_its_request:
  assumes "create_manual_run q rv source now = Ok r"
  shows "(require_matching_run q' r = Ok () \<longleftrightarrow> q' = q) \<and> rn_state r = RunQueued \<and>
    source_git_oid (rn_source r) = mn_git_oid q \<and> wt_manual (cw_triggers (wr_definition rv))"
proof -
  note r = created_manual_run [OF assms]
  have "require_matching_run q' r = Ok () \<longleftrightarrow> mn_request_id q' = mn_request_id q \<and> mn_repository_id q' = mn_repository_id q \<and>
      mn_workflow_name q' = mn_workflow_name q \<and> mn_user_id q' = mn_user_id q \<and> mn_git_oid q' = mn_git_oid q"
    using r by (auto simp: require_matching_run_def manual_run_id_def manual_idempotency_key_def)
  also have "\<dots> \<longleftrightarrow> q' = q" by (cases q; cases q') auto
  finally have same: "require_matching_run q' r = Ok () \<longleftrightarrow> q' = q" .
  moreover have "wt_manual (cw_triggers (wr_definition rv))"
    using r(7,12) by (auto simp: validate_workflow_revision_def Let_def split: if_split_asm)
  ultimately show ?thesis using r by simp
qed

lemma manual_workflow_file_found:
  assumes "manual_workflow_file sha1_hex q c = Ok f"
  shows "\<exists>files. catalog_files c = Some files \<and> f \<in> set files \<and> WorkflowPath_name (wf_path f) = Some (mn_workflow_name q) \<and>
    wc_repository_id c = mn_repository_id q \<and> wf_oid f = git_blob_oid sha1_hex (wf_content_bytes f)"
proof -
  have v: "catalog_verify_source sha1_hex c (mn_repository_id q) (mn_git_oid q) (wc_source_change_version c) = Ok ()"
    "catalog_configuration_error c = None"
    using assms by (auto simp: manual_workflow_file_def split: sum.split_asm option.split_asm)
  then obtain files where files: "wc_state c = Captured files" by (auto simp: catalog_configuration_error_def split: workflow_catalog_state.split_asm)
  then have one: "filter (\<lambda>f. WorkflowPath_name (wf_path f) = Some (mn_workflow_name q)) files = [f]"
    using assms v by (auto simp: manual_workflow_file_def catalog_files_def split: list.split_asm)
  then have f: "f \<in> set files" "WorkflowPath_name (wf_path f) = Some (mn_workflow_name q)"
    by (metis (mono_tags, lifting) filter_eq_Cons_iff in_set_conv_decomp_first append_Cons, metis (mono_tags, lifting) filter_eq_ConsD)
  have "list_all (\<lambda>f. file_validate_integrity sha1_hex f = Ok ()) files" "wc_repository_id c = mn_repository_id q"
    using v(1) files by (auto simp: catalog_verify_source_def catalog_validate_integrity_def and_then_Ok_iff check_catalog_files_Ok split: if_split_asm)
  then show ?thesis using f files file_integrity by (auto simp: catalog_files_def list_all_iff)
qed

section \<open>Dispatch\<close>

text \<open>
  A dispatcher may start an attempt exactly when the attempt is the current one of a dispatching job of that run, its
  bootstrap secret and lease hold, the run is neither finished nor being cancelled and the age limit has not passed; and
  no attempt that may be started may be stopped.
\<close>

theorem dispatch_authorised_iff:
  "(\<exists>a. authorize_start r job attempt bootstrap_hash now = Ok a) \<longleftrightarrow>
     rn_id r = at_run_id attempt \<and> rj_run_id job = rn_id r \<and> rj_key job = at_job_key attempt \<and>
     rj_last_attempt_number job = at_number attempt \<and> rj_current_attempt_id job = Some (at_id attempt) \<and>
     at_token_hash attempt = bootstrap_hash \<and> now < at_lease_expires_at_unix attempt \<and>
     \<not> run_terminal (rn_state r) \<and> rj_state job = JobDispatching \<and> at_state attempt = AttemptDispatching \<and>
     now < saturating_add (at_created_at_unix attempt) MAX_RUN_ATTEMPT_AGE_SECONDS \<and> (\<forall>s. authorize_stop r attempt \<noteq> Ok s)"
proof -
  have align: "states_align JobDispatching AttemptDispatching" by (simp add: states_align_def)
  have "(\<exists>a. authorize_start r job attempt bootstrap_hash now = Ok a) \<longleftrightarrow>
     rn_id r = at_run_id attempt \<and> authenticate attempt job bootstrap_hash now = Ok () \<and>
     \<not> run_terminal (rn_state r) \<and> \<not> rn_cancellation_requested r \<and> rj_state job = JobDispatching \<and> at_state attempt = AttemptDispatching \<and>
     now < saturating_add (at_created_at_unix attempt) MAX_RUN_ATTEMPT_AGE_SECONDS"
    by (auto simp: authorize_start_def ensure_run_alignment_def and_then_Ok_iff Let_def not_le)
  moreover have "authenticate attempt job bootstrap_hash now = Ok () \<longleftrightarrow>
      rj_run_id job = at_run_id attempt \<and> rj_key job = at_job_key attempt \<and> rj_last_attempt_number job = at_number attempt \<and>
      rj_current_attempt_id job = Some (at_id attempt) \<and> at_token_hash attempt = bootstrap_hash \<and> now < at_lease_expires_at_unix attempt"
    if "rj_state job = JobDispatching" "at_state attempt = AttemptDispatching"
    using that align by (auto simp: authenticate_def authenticate_identity_def ensure_job_alignment_def ensure_latest_attempt_def
        ensure_current_attempt_def ensure_lease_active_def and_then_Ok_iff not_le)
  moreover have "(\<forall>s. authorize_stop r attempt \<noteq> Ok s) \<longleftrightarrow> \<not> rn_cancellation_requested r"
    if "rn_id r = at_run_id attempt" "at_state attempt = AttemptDispatching"
    using that by (auto simp: authorize_stop_def ensure_run_alignment_def attempt_terminal_def)
  ultimately show ?thesis by (auto cong: conj_cong)
qed

section \<open>Examples\<close>

definition example_oid :: string where "example_oid = replicate 40 (CHR ''a'')"
definition example_digest :: string where "example_digest = replicate 64 (CHR ''b'')"

lemma example_ok [simp]: "is_git_oid example_oid" "map to_ascii_lowercase example_oid = example_oid"
  "validate_sha256_hash label example_digest = Ok ()" "validate_git_oid label example_oid = Ok ()"
  by (simp_all add: is_git_oid_def validate_git_oid_def example_oid_def example_digest_def list_all_iff is_ascii_hexdigit_def to_ascii_lowercase_def
      is_ascii_uppercase_def validate_sha256_hash_def less_eq_char_def)

definition example_file :: repository_workflow_file where
  "example_file = \<lparr>wf_path = WorkflowPath ''/.scope/runs/ci.yml'', wf_oid = example_oid, wf_size_bytes = 1,
     wf_git_file_mode = ''100644'', wf_content_bytes = ''x''\<rparr>"

definition other_file :: repository_workflow_file where
  "other_file = example_file\<lparr>wf_path := WorkflowPath ''/.scope/runs/ci.yaml''\<rparr>"

lemma example_captured:
  "\<exists>c. Catalog_captured (\<lambda>_. example_oid) ''r'' example_oid 1 [example_file, other_file] = Ok c"
proof -
  have "file_validate_integrity (\<lambda>_. example_oid) example_file = Ok ()" "file_validate_integrity (\<lambda>_. example_oid) other_file = Ok ()"
    by (simp_all add: file_validate_integrity_def example_file_def other_file_def is_regular_git_file_mode_def MAX_WORKFLOW_DEFINITION_BYTES_def
        git_blob_oid_def git_object_oid_def)
  moreover have "catalog_validate_identity ''r'' example_oid 1 = Ok ()"
    by (simp add: catalog_validate_identity_def trim_visible visible_ascii_def)
  ultimately show ?thesis unfolding captured_Ok by (simp add: path_key_def example_file_def other_file_def)
qed

lemma captured_catalog_canonical_witness:
  "\<exists>c. Catalog_captured (\<lambda>_. example_oid) ''r'' example_oid 1 [other_file, example_file] = Ok c \<and>
     catalog_verify_source (\<lambda>_. example_oid) c ''r'' example_oid 1 = Ok ()"
proof -
  obtain c where c: "Catalog_captured (\<lambda>_. example_oid) ''r'' example_oid 1 [example_file, other_file] = Ok c"
    using example_captured by blast
  show ?thesis using captured_catalog_canonical [OF c, of "[other_file, example_file]"] by (auto simp: add_mset_commute)
qed

lemma push_evaluation_settles_once_witness:
  "\<exists>e. trigger_for_push ''r'' 1 (push_input_of_catalog \<lparr>wc_repository_id = ''r'', wc_source_head_oid = example_oid,
      wc_source_change_version = 1, wc_state = CatalogRejected ''bad''\<rparr>) 9 = Ok e \<and> pte_state e = TriggerPending"
proof -
  obtain e where e: "trigger_for_push ''r'' 1 (push_input_of_catalog \<lparr>wc_repository_id = ''r'', wc_source_head_oid = example_oid,
      wc_source_change_version = 1, wc_state = CatalogRejected ''bad''\<rparr>) 9 = Ok e"
    by (simp add: trigger_for_push_def trigger_pending_def trim_visible visible_ascii_def push_input_of_catalog_def requires_evaluation_def
        catalog_configuration_error_def)
  from push_evaluation_settles_once [OF this rtranclp.rtrancl_refl] e show ?thesis by (auto simp: catalog_files_def)
qed

definition example_request :: manual_run_request where
  "example_request = \<lparr>mn_repository_id = ''r'', mn_user_id = ''u'', mn_request_id = replicate 32 (CHR ''1''),
     mn_git_oid = example_oid, mn_workflow_name = ''ci''\<rparr>"

lemma manual_run_answers_its_request_witness:
  "\<exists>r. require_matching_run example_request r = Ok () \<and> require_matching_run (example_request\<lparr>mn_user_id := ''v''\<rparr>) r \<noteq> Ok ()"
proof -
  define rv :: workflow_revision where
    "rv = \<lparr>wr_workflow = \<lparr>wi_repository_id = ''r'', wi_path = WorkflowPath ''/.scope/runs/ci.yml''\<rparr>, wr_digest = example_digest,
      wr_definition = demo_workflow\<lparr>cw_triggers := \<lparr>wt_manual = True, wt_push_main = False, wt_request = False\<rparr>\<rparr>\<rparr>"
  define source where "source = EphemeralGitBundle \<lparr>sb_content_ref = GitBundleSha256 example_digest, sb_sha256 = example_digest,
      sb_git_oid = example_oid, sb_git_file_mode = ''100644'', sb_size_bytes = 1\<rparr>"
  have name: "WorkflowPath_name (WorkflowPath ''/.scope/runs/ci.yml'') = Some ''ci''" by code_simp
  have "trim (''run_'' @ replicate 32 (CHR ''1'')) \<noteq> []" "trim (''manual:'' @ replicate 32 (CHR ''1'')) \<noteq> []" "trim ''u'' \<noteq> []"
    by (subst trim_visible; simp add: visible_ascii_def)+
  then obtain r where r: "create_manual_run example_request rv source 5 = Ok r"
    by (simp add: create_manual_run_def example_request_def rv_def source_def source_git_oid_def name logical_git_head_def Run_new_def
        Run_queued_def required_def manual_run_id_def manual_idempotency_key_def validate_workflow_revision_def del: WorkflowPath_name.simps)
  from manual_run_answers_its_request [OF r, of example_request] manual_run_answers_its_request [OF r, of "example_request\<lparr>mn_user_id := ''v''\<rparr>"]
  show ?thesis by (intro exI [of _ r]) (simp add: example_request_def)
qed
end
