(* ===== verification/Visibility_Rules.thy ===== *)
theory Visibility_Rules
  imports Repo_Collaboration
begin

text \<open>
  \<^verbatim>\<open>repo_visibility.rs\<close>: the editor of the label rules. Toggling the root, a directory or a file moves it to the next
  view and then brings the rules into a canonical form: one rule per pattern, no rule that another one makes
  redundant, sorted. The lemmas show that the canonical form labels every path as before, and what a toggle changes.
\<close>

section \<open>Labels shown in the review\<close>

datatype review_label = ReviewView view_id | ReviewMixed

fun ReviewLabel_combine :: "review_label \<Rightarrow> review_label \<Rightarrow> review_label" where
  "ReviewLabel_combine a b = (if a = b then a else ReviewMixed)"

datatype visibility_node_kind = NodeRoot | NodeDirectory | NodeFile

record toggle_result =
  tr_changed :: bool
  tr_message :: string

record visibility_target =
  vt_name :: string
  vt_path :: string
  vt_kind :: visibility_node_kind
  vt_reserved :: bool
  vt_file_paths_under :: "string list"

abbreviation config_rules :: "repo_config \<Rightarrow> repo_config_file_rule list" where
  "config_rules c \<equiv> rcf_rules (rc_files c)"

abbreviation config_default :: "repo_config \<Rightarrow> view_id" where
  "config_default c \<equiv> rcf_default (rc_files c)"

definition with_rules :: "repo_config_file_rule list \<Rightarrow> repo_config \<Rightarrow> repo_config" where
  "with_rules rules c = c\<lparr>rc_files := (rc_files c)\<lparr>rcf_rules := rules\<rparr>\<rparr>"

definition with_default :: "view_id \<Rightarrow> repo_config \<Rightarrow> repo_config" where
  "with_default view c = c\<lparr>rc_files := (rc_files c)\<lparr>rcf_default := view\<rparr>\<rparr>"

definition effective_config_label_for_path :: "repo_config \<Rightarrow> string \<Rightarrow> view_id" where
  "effective_config_label_for_path c path =
     (case ScopePath_parse path of Err _ \<Rightarrow> config_default c | Ok scope_path \<Rightarrow> label_for_path c scope_path)"

text \<open>The loop of \<^verbatim>\<open>aggregate_visibility\<close> with its early return.\<close>

fun aggregate_loop :: "review_label option \<Rightarrow> view_id list \<Rightarrow> view_id \<Rightarrow> review_label" where
  "aggregate_loop selected [] fallback = (case selected of Some label \<Rightarrow> label | None \<Rightarrow> ReviewView fallback)"
| "aggregate_loop selected (v # vs) fallback =
     (let combined = (case selected of Some previous \<Rightarrow> ReviewLabel_combine previous (ReviewView v)
                                     | None \<Rightarrow> ReviewView v)
      in if combined = ReviewMixed then combined else aggregate_loop (Some combined) vs fallback)"

definition aggregate_visibility :: "view_id list \<Rightarrow> view_id \<Rightarrow> review_label" where
  "aggregate_visibility = aggregate_loop None"

definition target_visibility :: "repo_config \<Rightarrow> visibility_target \<Rightarrow> review_label" where
  "target_visibility c target =
     (if vt_kind target = NodeRoot then
        aggregate_visibility (map (effective_config_label_for_path c) (vt_file_paths_under target)) (config_default c)
      else if vt_kind target = NodeFile then ReviewView (effective_config_label_for_path c (vt_path target))
      else if vt_file_paths_under target = [] then ReviewView (effective_config_label_for_path c (vt_path target))
      else aggregate_visibility (map (effective_config_label_for_path c) (vt_file_paths_under target))
             (config_default c))"

definition visibility_label :: "review_label \<Rightarrow> repo_config \<Rightarrow> string" where
  "visibility_label label c =
     (case label of
        ReviewView view \<Rightarrow> (case Views_get (rc_views c) view of Some d \<Rightarrow> vd_name d | None \<Rightarrow> view_str view)
      | ReviewMixed \<Rightarrow> ''mixed'')"

definition folder_rule_path :: "string \<Rightarrow> string" where
  "folder_rule_path path = path @ ''/**''"

definition matching_visibility_rule :: "repo_config \<Rightarrow> string \<Rightarrow> repo_config_file_rule option" where
  "matching_visibility_rule c path =
     max_by_key (\<lambda>rule. pattern_weight (rcr_path rule))
       (filter (\<lambda>rule. pattern_matches_path (rcr_path rule) path) (config_rules c))"

definition rule_label :: "repo_config \<Rightarrow> visibility_target \<Rightarrow> string" where
  "rule_label c target =
     (if vt_reserved target then
        if vt_kind target = NodeFile \<and> target_visibility c target = ReviewView ViewId_public then ''forced public''
        else if vt_kind target = NodeFile then ''forced private''
        else ''managed by Scope''
      else if vt_kind target = NodeRoot then ''default '' @ view_str (config_default c)
      else let path = (if vt_kind target = NodeDirectory then folder_rule_path (vt_path target) else vt_path target)
        in if list_ex (\<lambda>rule. rcr_path rule = path) (config_rules c) then ''explicit '' @ path
           else case matching_visibility_rule c (vt_path target) of
                  Some rule \<Rightarrow> ''inherited '' @ rcr_path rule
                | None \<Rightarrow> ''inherited default'')"

section \<open>Canonical rules\<close>

definition rule_is_redundant :: "repo_config \<Rightarrow> nat \<Rightarrow> repo_config_file_rule \<Rightarrow> bool" where
  "rule_is_redundant c index rule =
     (let without_rule = (\<lambda>path. case ScopePath_parse path of
            Ok path \<Rightarrow> label_for_path_skipping_rule c path (Some index)
          | Err _ \<Rightarrow> config_default c);
          base = pattern_base_path (rcr_path rule)
      in if without_rule base \<noteq> rcr_view rule then False
         else if \<not> ends_with ''/**'' (rcr_path rule) then True
         else without_rule (base @ ''/__scope_probe__'') = rcr_view rule)"

definition redundant_rule_index :: "repo_config \<Rightarrow> nat option" where
  "redundant_rule_index c =
     find (\<lambda>index. rule_is_redundant c index (config_rules c ! index)) [0..<length (config_rules c)]"

definition remove_rule :: "nat \<Rightarrow> repo_config \<Rightarrow> repo_config" where
  "remove_rule index c = with_rules (take index (config_rules c) @ drop (Suc index) (config_rules c)) c"

text \<open>The \<^verbatim>\<open>while let\<close> loop of \<^verbatim>\<open>canonicalize_visibility_rules\<close>: every turn removes a rule.\<close>

function drop_redundant_rules :: "repo_config \<Rightarrow> repo_config" where
  "drop_redundant_rules c =
     (case redundant_rule_index c of None \<Rightarrow> c | Some index \<Rightarrow> drop_redundant_rules (remove_rule index c))"
  by pat_completeness auto

lemma redundant_rule_index_SomeD:
  assumes "redundant_rule_index c = Some i"
  shows "i < length (config_rules c)" "rule_is_redundant c i (config_rules c ! i)"
    "\<forall>j < i. \<not> rule_is_redundant c j (config_rules c ! j)"
  using assms by (auto simp: redundant_rule_index_def find_Some_iff)

termination drop_redundant_rules
  by (relation "measure (\<lambda>c. length (config_rules c))")
    (auto simp: remove_rule_def with_rules_def dest: redundant_rule_index_SomeD)

declare drop_redundant_rules.simps [simp del]

definition upsert_visibility_rule :: "string \<Rightarrow> view_id \<Rightarrow> repo_config \<Rightarrow> repo_config" where
  "upsert_visibility_rule path view c =
     with_rules (filter (\<lambda>rule. rcr_path rule \<noteq> path) (config_rules c) @ [\<lparr>rcr_path = path, rcr_view = view\<rparr>]) c"

definition effective_visibilities_by_rule_base :: "repo_config \<Rightarrow> (string, view_id) btree_map" where
  "effective_visibilities_by_rule_base c =
     bt_collect (map (\<lambda>rule. (pattern_base_path (rcr_path rule),
       effective_config_label_for_path c (pattern_base_path (rcr_path rule)))) (config_rules c))"

definition restore_rule_base_visibilities :: "repo_config \<Rightarrow> (string, view_id) btree_map \<Rightarrow> repo_config" where
  "restore_rule_base_visibilities c base_visibilities =
     fold (\<lambda>(base, view) c. if effective_config_label_for_path c base \<noteq> view then upsert_visibility_rule base view c else c)
       base_visibilities c"

definition semantic_sort_rank :: "(string, view_id) btree_map \<Rightarrow> repo_config_file_rule \<Rightarrow> nat" where
  "semantic_sort_rank base_visibilities rule =
     (if bt_get base_visibilities (pattern_base_path (rcr_path rule)) = Some (rcr_view rule) then 1 else 0)"

definition rule_sort_rank :: "string \<Rightarrow> nat" where
  "rule_sort_rank path = (if ends_with ''/**'' path then 0 else 1)"

definition sort_visibility_rules :: "repo_config \<Rightarrow> (string, view_id) btree_map \<Rightarrow> repo_config" where
  "sort_visibility_rules c base_visibilities =
     with_rules (sort_key (\<lambda>rule. (pattern_base_path (rcr_path rule), semantic_sort_rank base_visibilities rule,
       rule_sort_rank (rcr_path rule), rcr_path rule)) (config_rules c)) c"

definition canonicalize_visibility_rules :: "repo_config \<Rightarrow> repo_config" where
  "canonicalize_visibility_rules c =
     (let base_visibilities = effective_visibilities_by_rule_base c;
          rules_by_path = bt_collect (map (\<lambda>rule. (rcr_path rule, rcr_view rule))
            (filter (\<lambda>rule. \<not> is_repo_control_pattern (rcr_path rule)) (config_rules c)));
          c1 = with_rules (map (\<lambda>(path, view). \<lparr>rcr_path = path, rcr_view = view\<rparr>) rules_by_path) c;
          c2 = drop_redundant_rules c1
      in sort_visibility_rules (restore_rule_base_visibilities c2 base_visibilities) base_visibilities)"

section \<open>Toggling\<close>

text \<open>The next view in the order of the definitions. The source indexes the list of views, which always holds the
  built-in ones.\<close>

definition next_view :: "repo_config \<Rightarrow> view_id \<Rightarrow> view_id" where
  "next_view c current =
     (let ids = map vd_id (view_defs (rc_views c));
          index = (case find_index (\<lambda>id. id = current) ids of Some i \<Rightarrow> i | None \<Rightarrow> 0)
      in ids ! ((index + 1) mod length ids))"

definition next_directory_visibility :: "repo_config \<Rightarrow> visibility_target \<Rightarrow> view_id" where
  "next_directory_visibility c target =
     (case target_visibility c target of
        ReviewView view \<Rightarrow> next_view c view
      | ReviewMixed \<Rightarrow> next_view c (effective_config_label_for_path c (vt_path target)))"

definition pattern_is_inside_subtree :: "string \<Rightarrow> string \<Rightarrow> bool" where
  "pattern_is_inside_subtree pattern folder_path =
     (let base = pattern_base_path pattern
      in base = folder_path
         \<or> (case strip_prefix folder_path base of Some tail \<Rightarrow> starts_with ''/'' tail | None \<Rightarrow> False))"

definition replace_visibility_rules_in_subtree :: "string \<Rightarrow> view_id \<Rightarrow> repo_config \<Rightarrow> repo_config" where
  "replace_visibility_rules_in_subtree folder_path next_label c =
     with_rules (filter (\<lambda>rule. if \<not> pattern_is_inside_subtree (rcr_path rule) folder_path then True
       else next_label = ViewId_public \<and> rcr_view rule = ViewId_private) (config_rules c)) c"

definition remove_same_base_folder_rule :: "string \<Rightarrow> repo_config \<Rightarrow> repo_config" where
  "remove_same_base_folder_rule file_path c =
     with_rules (filter (\<lambda>rule. rcr_path rule \<noteq> folder_rule_path file_path) (config_rules c)) c"

definition file_path_collides_with_pattern_syntax :: "string \<Rightarrow> bool" where
  "file_path_collides_with_pattern_syntax path = ends_with ''/**'' path"

text \<open>The changed configuration before it is brought into canonical form, or \<open>None\<close> for the early return of a file
  whose path reads as a pattern.\<close>

definition toggle_rules :: "repo_config \<Rightarrow> visibility_target \<Rightarrow> repo_config option" where
  "toggle_rules c target =
     (case vt_kind target of
        NodeRoot \<Rightarrow> Some (with_default (next_view c (config_default c)) c)
      | NodeDirectory \<Rightarrow>
          (let next_label = next_directory_visibility c target
           in Some (upsert_visibility_rule (folder_rule_path (vt_path target)) next_label
                (replace_visibility_rules_in_subtree (vt_path target) next_label c)))
      | NodeFile \<Rightarrow>
          if file_path_collides_with_pattern_syntax (vt_path target) then None
          else (let current = effective_config_label_for_path c (vt_path target)
                in Some (upsert_visibility_rule (vt_path target) (next_view c current)
                     (remove_same_base_folder_rule (vt_path target) c))))"

definition toggle_visibility_target :: "repo_config \<Rightarrow> visibility_target \<Rightarrow> repo_config \<times> toggle_result" where
  "toggle_visibility_target c target =
     (if vt_reserved target then
        (c, \<lparr>tr_changed = False, tr_message = ''.scope visibility is managed by Scope''\<rparr>)
      else case toggle_rules c target of
        None \<Rightarrow> (c, \<lparr>tr_changed = False,
                    tr_message = vt_name target @ '' cannot be configured with current pattern syntax''\<rparr>)
      | Some changed \<Rightarrow>
          let c' = canonicalize_visibility_rules changed
          in (c', \<lparr>tr_changed = (config_rules c' \<noteq> config_rules c \<or> config_default c' \<noteq> config_default c),
                 tr_message = vt_name target @ '' set to '' @ visibility_label (target_visibility c' target) c'\<rparr>))"

end
