(* ===== verification/Visibility_Facts.thy ===== *)
theory Visibility_Facts
  imports Visibility_Rules
begin

text \<open>
  Lemmas on the label rules: which rule labels a path, and that each step of \<open>canonicalize_visibility_rules\<close> (one
  rule per pattern, dropping redundant rules, restoring the bases, sorting) leaves the label of every path alone.
\<close>

section \<open>The label of a path as a function of the rules\<close>

abbreviation rule_weight :: "repo_config_file_rule \<Rightarrow> nat" where
  "rule_weight r \<equiv> pattern_weight (rcr_path r)"

abbreviation rule_base :: "repo_config_file_rule \<Rightarrow> string" where
  "rule_base r \<equiv> pattern_base_path (rcr_path r)"

abbreviation rule_matches :: "string \<Rightarrow> repo_config_file_rule \<Rightarrow> bool" where
  "rule_matches p r \<equiv> pattern_matches_path (rcr_path r) p"

definition rules_label :: "view_id \<Rightarrow> repo_config_file_rule list \<Rightarrow> string \<Rightarrow> view_id" where
  "rules_label d rules p =
     (case max_by_key rule_weight (filter (rule_matches p) rules) of None \<Rightarrow> d | Some r \<Rightarrow> rcr_view r)"

lemma fold_consider_none:
  "fold (consider_rule p None) (enumerate n rules) (case best of None \<Rightarrow> (0, d) | Some r \<Rightarrow> (rule_weight r, rcr_view r)) =
     (case fold (\<lambda>x best. case best of None \<Rightarrow> Some x | Some b \<Rightarrow> if rule_weight b \<le> rule_weight x then Some x else Some b)
             (filter (rule_matches p) rules) best of
        None \<Rightarrow> (0, d) | Some r \<Rightarrow> (rule_weight r, rcr_view r))"
proof (induction rules arbitrary: n best)
  case (Cons r rules)
  show ?case using Cons.IH [of "Suc n" "Some r"] Cons.IH [of "Suc n" best]
    by (cases best) (auto simp: consider_rule_def)
qed simp

lemma consider_skipped:
  assumes "i < length rules"
  shows "fold (consider_rule p (Some (n + i))) (enumerate n rules) s =
         fold (consider_rule p None) (enumerate n (take i rules @ drop (Suc i) rules)) s"
proof -
  have other: "fold (consider_rule p (Some k)) (enumerate m xs) s = fold (consider_rule p None) (enumerate m' xs) s"
    if "k < m \<or> m + length xs \<le> k" for k m m' xs s
    using that by (induction xs arbitrary: m m' s) (auto simp: consider_rule_def)
  have "rules = take i rules @ rules ! i # drop (Suc i) rules" using assms by (rule id_take_nth_drop)
  then have "enumerate n rules = enumerate n (take i rules) @ (n + i, rules ! i) # enumerate (Suc (n + i)) (drop (Suc i) rules)"
    using assms by (metis (no_types, lifting) enumerate_append_eq enumerate_simps(2) length_take min.absorb4)
  moreover have "enumerate n (take i rules @ drop (Suc i) rules) =
      enumerate n (take i rules) @ enumerate (n + i) (drop (Suc i) rules)"
    using assms by (simp add: enumerate_append_eq)
  moreover have "consider_rule p (Some (n + i)) (n + i, r) s = s" for r s by (simp add: consider_rule_def)
  ultimately show ?thesis
    using other [where k = "n + i" and m = n and xs = "take i rules" and m' = n]
      other [where k = "n + i" and m = "Suc (n + i)" and xs = "drop (Suc i) rules" and m' = "n + i"] assms by simp
qed

definition plain_path :: "scope_path \<Rightarrow> bool" where
  "plain_path p \<longleftrightarrow> \<not> is_repo_rules_path p \<and> \<not> is_private_control_path p"

lemma label_for_path_rules:
  "label_for_path c p =
     (if plain_path p then rules_label (config_default c) (config_rules c) (as_str p)
      else if is_repo_rules_path p then ViewId_public else Views_full (rc_views c))"
proof -
  have "snd (fold (consider_rule (as_str p) None) (enumerate 0 (config_rules c)) (0, config_default c)) =
      rules_label (config_default c) (config_rules c) (as_str p)"
    using fold_consider_none [where p = "as_str p" and n = 0 and rules = "config_rules c" and best = None and d = "config_default c"]
    by (auto simp: rules_label_def max_by_key_def split: option.split)
  then show ?thesis by (simp add: label_for_path_def label_for_path_skipping_rule_def plain_path_def)
qed

lemma label_skipping_rule:
  assumes "i < length (config_rules c)"
  shows "label_for_path_skipping_rule c p (Some i) = label_for_path (remove_rule i c) p"
  using consider_skipped [OF assms, where p = "as_str p" and n = 0 and s = "(0, config_default c)"]
  by (simp add: label_for_path_def label_for_path_skipping_rule_def remove_rule_def with_rules_def)

section \<open>Patterns\<close>

lemma pattern_base_folder [simp]: "pattern_base_path (b @ ''/**'') = b"
  by (simp add: pattern_base_path_def string_ops suffix_def)

lemma pattern_cases:
  fixes q :: string
  obtains (folder) b where "q = b @ ''/**''" | (exact) "\<not> ends_with ''/**'' q"
  by (auto simp: string_ops suffix_def)

lemma pattern_base_file: "\<not> ends_with ''/**'' q \<Longrightarrow> pattern_base_path q = q"
  by (simp add: pattern_base_path_def string_ops)

lemma ends_with_folder [simp]: "ends_with ''/**'' (b @ ''/**'')"
  by (simp add: string_ops suffix_def)

lemma folder_path_eq: "ends_with ''/**'' q \<Longrightarrow> q = pattern_base_path q @ ''/**''"
  by (cases q rule: pattern_cases) auto

lemma matches_folder: "pattern_matches_path (b @ ''/**'') p \<longleftrightarrow> p = b \<or> (\<exists>t. p = b @ ''/'' @ t)"
  by (auto simp: pattern_matches_path_def string_ops prefix_def suffix_def)

lemma matches_file: "\<not> ends_with ''/**'' q \<Longrightarrow> pattern_matches_path q p \<longleftrightarrow> p = q"
  by (simp add: pattern_matches_path_def string_ops)

lemma matches_base [simp]: "pattern_matches_path q (pattern_base_path q)"
  by (cases q rule: pattern_cases) (auto simp: matches_folder matches_file pattern_base_file)

lemma matches_prefix: "pattern_matches_path q p \<Longrightarrow> \<exists>t. p = pattern_base_path q @ t"
  by (cases q rule: pattern_cases) (auto simp: matches_folder matches_file pattern_base_file)

lemma matches_weight: "pattern_matches_path q p \<Longrightarrow> pattern_weight q \<le> length p"
  by (auto simp: pattern_weight_def dest!: matches_prefix)

lemma matches_same_base:
  "pattern_matches_path q p \<Longrightarrow> pattern_matches_path q' p \<Longrightarrow> pattern_weight q = pattern_weight q' \<Longrightarrow>
   pattern_base_path q = pattern_base_path q'"
  by (auto simp: pattern_weight_def dest!: matches_prefix)

lemma matches_full_weight: "pattern_matches_path q p \<Longrightarrow> pattern_weight q = length p \<Longrightarrow> pattern_base_path q = p"
  by (auto simp: pattern_weight_def dest!: matches_prefix)

lemma matches_below:
  "pattern_matches_path q p \<Longrightarrow> pattern_base_path q \<noteq> p \<Longrightarrow>
   ends_with ''/**'' q \<and> (\<exists>t. p = pattern_base_path q @ ''/'' @ t)"
  by (cases q rule: pattern_cases) (auto simp: matches_folder matches_file pattern_base_file)

text \<open>Only a file pattern and a folder pattern of the same base have the same weight on a path.\<close>

lemma matches_unique:
  assumes "pattern_matches_path q p" "pattern_matches_path q' p" "pattern_weight q = pattern_weight q'"
    and "ends_with ''/**'' q = ends_with ''/**'' q'"
  shows "q = q'"
  using assms matches_same_base [OF assms(1-3)] by (metis folder_path_eq pattern_base_file)

text \<open>A shorter pattern matches a path below \<open>b\<close> just when it matches \<open>b\<close>.\<close>

lemma matches_ancestor:
  assumes "p = b \<or> (\<exists>t. p = b @ ''/'' @ t)" and "pattern_weight q < length b"
  shows "pattern_matches_path q p \<longleftrightarrow> pattern_matches_path q b"
proof (cases q rule: pattern_cases)
  case (folder x)
  then have "length x < length b" using assms(2) by (simp add: pattern_weight_def)
  then have "(\<exists>t. b @ u = x @ ''/'' @ t) \<longleftrightarrow> (\<exists>t. b = x @ ''/'' @ t)" for u
    by (auto simp: append_eq_append_conv2 append_eq_Cons_conv Cons_eq_append_conv)
  then show ?thesis using assms folder \<open>length x < length b\<close> by (auto simp: matches_folder)
next
  case exact
  then show ?thesis using assms by (auto simp: matches_file pattern_weight_def pattern_base_file)
qed

section \<open>The winning rule\<close>

lemma max_by_key_None_iff: "max_by_key key xs = None \<longleftrightarrow> xs = []"
  by (induction xs rule: rev_induct) (auto simp: max_by_key_append max_by_key_def split: option.split)

lemma max_by_key_split:
  "max_by_key key xs = Some b \<Longrightarrow> \<exists>us vs. xs = us @ b # vs \<and> (\<forall>v \<in> set vs. key v < key b)"
proof (induction xs arbitrary: b rule: rev_induct)
  case (snoc x xs)
  show ?case
  proof (cases "max_by_key key xs = Some b \<and> key x < key b")
    case True
    then obtain us vs where "xs = us @ b # vs" "\<forall>v \<in> set vs. key v < key b" using snoc.IH by blast
    then show ?thesis using True by (intro exI [of _ us] exI [of _ "vs @ [x]"]) auto
  next
    case False
    then have "b = x" using snoc.prems by (auto simp: max_by_key_append split: option.split_asm if_split_asm)
    then show ?thesis by (intro exI [of _ xs] exI [of _ "[]"]) simp
  qed
qed (simp add: max_by_key_def)

lemma max_by_key_filter:
  "\<exists>x \<in> set xs. k \<le> key x \<Longrightarrow> max_by_key key (filter (\<lambda>x. k \<le> key x) xs) = max_by_key key xs"
proof (induction xs rule: rev_induct)
  case (snoc x xs)
  show ?case
  proof (cases "\<exists>y \<in> set xs. k \<le> key y")
    case True
    then obtain b where b: "max_by_key key xs = Some b" "k \<le> key b"
      using max_by_key_Some max_by_key_None_iff by (metis empty_iff list.set(1) not_Some_eq order_trans)
    then show ?thesis using snoc.IH True by (auto simp: max_by_key_append)
  next
    case False
    then have "filter (\<lambda>x. k \<le> key x) xs = []" by (auto simp: filter_empty_conv)
    moreover have "key b \<le> key x" if "max_by_key key xs = Some b" for b
      using False snoc.prems max_by_key_Some [OF that] by fastforce
    ultimately show ?thesis using snoc.prems False by (auto simp: max_by_key_append max_by_key_def [of key "[x]"] split: option.split)
  qed
qed simp

lemma rules_label_cong: "filter (rule_matches p) rules = filter (rule_matches p) rules' \<Longrightarrow>
  rules_label d rules p = rules_label d rules' p"
  by (simp add: rules_label_def)

lemma rules_label_top:
  assumes "r \<in> set rules" "rule_matches p r"
    and "\<forall>r' \<in> set rules. rule_matches p r' \<and> r' \<noteq> r \<longrightarrow> rule_weight r' < rule_weight r"
  shows "rules_label d rules p = rcr_view r"
proof (cases "max_by_key rule_weight (filter (rule_matches p) rules)")
  case None
  then show ?thesis using assms by (auto simp: max_by_key_None_iff filter_empty_conv)
next
  case (Some b)
  then have "b = r" using max_by_key_Some [OF Some] assms by fastforce
  then show ?thesis using Some by (simp add: rules_label_def)
qed

lemma rules_label_last:
  assumes "rule_matches p r" "rule_weight r = length p"
  shows "rules_label d (rules @ [r]) p = rcr_view r"
proof -
  have "rule_weight b \<le> rule_weight r" if "max_by_key rule_weight (filter (rule_matches p) rules) = Some b" for b
    using max_by_key_Some [OF that] matches_weight assms by force
  then show ?thesis using assms by (auto simp: rules_label_def max_by_key_append split: option.split)
qed

lemma filter_split:
  "filter P zs = us @ w # vs \<Longrightarrow> \<exists>xs ys. zs = xs @ w # ys \<and> vs = filter P ys \<and> P w"
proof (induction us arbitrary: zs)
  case (Cons u us)
  then obtain as bs where "zs = as @ u # bs" "filter P bs = us @ w # vs" by (auto simp: filter_eq_Cons_iff)
  with Cons.IH show ?case by (metis append.assoc append_Cons)
qed (auto simp: filter_eq_Cons_iff)

lemma rules_label_winner:
  assumes "r \<in> set rules" "rule_matches p r"
  obtains us w vs where "rules = us @ w # vs" "rule_matches p w" "rules_label d rules p = rcr_view w"
    "\<forall>r' \<in> set rules. rule_matches p r' \<longrightarrow> rule_weight r' \<le> rule_weight w"
    "\<forall>r' \<in> set vs. rule_matches p r' \<longrightarrow> rule_weight r' < rule_weight w"
proof -
  obtain w where w: "max_by_key rule_weight (filter (rule_matches p) rules) = Some w"
    using assms max_by_key_None_iff by (metis filter_empty_conv not_None_eq)
  obtain us vs where s: "filter (rule_matches p) rules = us @ w # vs" "\<forall>v \<in> set vs. rule_weight v < rule_weight w"
    using max_by_key_split [OF w] by blast
  obtain xs ys where "rules = xs @ w # ys" "vs = filter (rule_matches p) ys" "rule_matches p w"
    using filter_split [OF s(1)] by blast
  then show thesis using that [of xs w ys] s(2) max_by_key_Some [OF w] w by (auto simp: rules_label_def)
qed

text \<open>A rule that is outweighed on a path can be removed without changing the path's label.\<close>

lemma rules_label_outweighed:
  assumes "w \<in> set (xs @ ys)" "rule_matches p w" "rule_weight r < rule_weight w"
  shows "rules_label d (xs @ r # ys) p = rules_label d (xs @ ys) p"
proof -
  let ?heavy = "filter (\<lambda>r. rule_weight w \<le> rule_weight r)"
  have "max_by_key rule_weight (filter (rule_matches p) zs) = max_by_key rule_weight (?heavy (filter (rule_matches p) zs))"
    if "w \<in> set zs" for zs
    by (intro max_by_key_filter [symmetric]) (use that assms(2) in auto)
  from this [of "xs @ r # ys"] this [of "xs @ ys"]
  have "max_by_key rule_weight (filter (rule_matches p) (xs @ r # ys)) =
      max_by_key rule_weight (filter (rule_matches p) (xs @ ys))"
    using assms by simp
  then show ?thesis by (simp only: rules_label_def)
qed

section \<open>Removing redundant rules\<close>

definition rules_canonical :: "repo_config_file_rule list \<Rightarrow> bool" where
  "rules_canonical rules \<longleftrightarrow> (\<forall>r \<in> set rules. ScopePath_parse (rule_base r) = Ok (ScopePath (rule_base r)))"

abbreviation controls_only_outside :: "repo_config_file_rule list \<Rightarrow> bool" where
  "controls_only_outside rules \<equiv> \<forall>r \<in> set rules. \<not> is_repo_control_pattern (rcr_path r)"

lemma plain_path_iff: "plain_path p \<longleftrightarrow> \<not> is_repo_control_path p"
  by (auto simp: plain_path_def control_defs string_ops)

lemma control_pattern_base:
  "is_repo_control_pattern q \<longleftrightarrow>
     pattern_base_path q = ''/.scope'' \<or> starts_with ''/.scope/'' (pattern_base_path q)"
  by (simp add: is_repo_control_pattern_def pattern_base_path_def Let_def)

lemma plain_base:
  "\<not> is_repo_control_pattern (rcr_path r) \<Longrightarrow> plain_path (ScopePath (rule_base r))"
  by (simp add: plain_path_iff control_pattern_base control_defs)

lemma control_pattern_misses_plain:
  assumes "is_repo_control_pattern q" "pattern_matches_path q (as_str p)"
  shows "\<not> plain_path p"
  using assms
  by (cases q rule: pattern_cases)
    (auto simp: matches_folder matches_file plain_path_iff control_pattern_base pattern_base_file control_defs string_ops
      prefix_def)

lemma with_rules_simps [simp]:
  "config_rules (with_rules rules c) = rules" "config_default (with_rules rules c) = config_default c"
  "rc_views (with_rules rules c) = rc_views c" "with_rules rules (with_rules rules' c) = with_rules rules c"
  by (simp_all add: with_rules_def)

lemma redundant_folder_removed:
  assumes rules: "config_rules c = xs @ r # ys" and i: "length xs = i"
    and folder: "rcr_path r = b @ ''/**''"
    and alone: "\<forall>f \<in> set (xs @ ys). rule_base f \<noteq> b"
    and p: "p = b \<or> (\<exists>t. p = b @ ''/'' @ t)"
    and without: "rules_label d (xs @ ys) b = rcr_view r"
  shows "rules_label d (xs @ ys) p = rules_label d (xs @ r # ys) p"
proof (cases "\<exists>w \<in> set (xs @ ys). rule_matches p w \<and> rule_weight r < rule_weight w")
  case True
  then show ?thesis using rules_label_outweighed by metis
next
  case False
  have r: "rule_matches p r" "rule_weight r = length b" using p folder by (simp_all add: matches_folder pattern_weight_def)
  have less: "rule_weight w < length b" if "w \<in> set (xs @ ys)" "rule_matches p w" for w
  proof -
    have "rule_weight w \<noteq> length b"
      using matches_same_base [OF that(2) r(1)] r(2) alone that(1) folder by auto
    then show ?thesis using False that r(2) by force
  qed
  have "rule_matches p w \<longleftrightarrow> rule_matches b w" if "w \<in> set (xs @ ys)" for w
  proof (cases "rule_weight w < length b")
    case True
    then show ?thesis using matches_ancestor [OF p] by blast
  next
    case False
    have "\<not> rule_matches b w"
      using False matches_weight [of "rcr_path w" b] matches_full_weight [of "rcr_path w" b] alone that by fastforce
    then show ?thesis using less that False by blast
  qed
  then have "rules_label d (xs @ ys) p = rules_label d (xs @ ys) b"
    by (auto simp: rules_label_def cong: filter_cong)
  moreover have "rules_label d (xs @ r # ys) p = rcr_view r"
    using less r by (intro rules_label_top) auto
  ultimately show ?thesis using without by simp
qed

definition without :: "nat \<Rightarrow> 'a list \<Rightarrow> 'a list" where
  "without i xs = take i xs @ drop (Suc i) xs"

lemma in_without:
  assumes "i < length xs" "distinct xs"
  shows "x \<in> set (without i xs) \<longleftrightarrow> x \<in> set xs \<and> x \<noteq> xs ! i"
proof -
  have split: "xs = take i xs @ xs ! i # drop (Suc i) xs" using assms(1) by (rule id_take_nth_drop)
  have "distinct (take i xs @ xs ! i # drop (Suc i) xs)" using assms(2) split by simp
  then have "xs ! i \<notin> set (without i xs)" by (simp add: without_def)
  moreover have "set xs = insert (xs ! i) (set (without i xs))" by (subst split) (simp add: without_def)
  ultimately show ?thesis by blast
qed

lemma label_without:
  assumes "rules_canonical (config_rules c)" "controls_only_outside (config_rules c)" "i < length (config_rules c)"
  shows "label_for_path_skipping_rule c (ScopePath (rule_base (config_rules c ! i))) (Some i) =
         rules_label (config_default c) (without i (config_rules c)) (rule_base (config_rules c ! i))"
  using assms plain_base [of "config_rules c ! i"]
  by (simp add: label_skipping_rule label_for_path_rules remove_rule_def without_def)

lemma redundant_label:
  assumes "rules_canonical (config_rules c)" "controls_only_outside (config_rules c)" "i < length (config_rules c)"
  shows "rule_is_redundant c i (config_rules c ! i) \<Longrightarrow>
      rules_label (config_default c) (without i (config_rules c)) (rule_base (config_rules c ! i)) = rcr_view (config_rules c ! i)"
    and "\<not> ends_with ''/**'' (rcr_path (config_rules c ! i)) \<Longrightarrow>
      rules_label (config_default c) (without i (config_rules c)) (rule_base (config_rules c ! i)) = rcr_view (config_rules c ! i) \<Longrightarrow>
      rule_is_redundant c i (config_rules c ! i)"
proof -
  have "ScopePath_parse (rule_base (config_rules c ! i)) = Ok (ScopePath (rule_base (config_rules c ! i)))"
    using assms by (simp add: rules_canonical_def)
  then show "rule_is_redundant c i (config_rules c ! i) \<Longrightarrow>
      rules_label (config_default c) (without i (config_rules c)) (rule_base (config_rules c ! i)) = rcr_view (config_rules c ! i)"
    "\<not> ends_with ''/**'' (rcr_path (config_rules c ! i)) \<Longrightarrow>
      rules_label (config_default c) (without i (config_rules c)) (rule_base (config_rules c ! i)) = rcr_view (config_rules c ! i) \<Longrightarrow>
      rule_is_redundant c i (config_rules c ! i)"
    using label_without [OF assms] by (auto simp: rule_is_redundant_def Let_def split: if_split_asm)
qed

text \<open>On its base a rule gives the label, unless the file and the folder rule of that base both exist.\<close>

lemma only_rule_of_base:
  assumes "r \<in> set rules" "\<forall>f \<in> set rules. f \<noteq> r \<longrightarrow> rule_base f \<noteq> rule_base r"
  shows "rules_label d rules (rule_base r) = rcr_view r"
proof (rule rules_label_top [OF assms(1) matches_base], intro ballI impI, elim conjE)
  fix f assume f: "f \<in> set rules" "rule_matches (rule_base r) f" "f \<noteq> r"
  then have "rule_weight f \<noteq> length (rule_base r)" using matches_full_weight [OF f(2)] assms(2) by blast
  then show "rule_weight f < rule_weight r" using matches_weight [OF f(2)] by (simp add: pattern_weight_def)
qed

lemma same_base_cases:
  assumes "distinct (map rcr_path rules)" "f \<in> set rules" "r \<in> set rules" "f \<noteq> r" "rule_base f = rule_base r"
  shows "ends_with ''/**'' (rcr_path f) \<noteq> ends_with ''/**'' (rcr_path r)"
  using assms folder_path_eq pattern_base_file by (metis distinct_map inj_onD)

lemma rest_of_base:
  assumes "distinct (map rcr_path rules)" "i < length rules" "f \<in> set rules" "f \<noteq> rules ! i" "rule_base f = rule_base (rules ! i)"
  shows "rules_label d (without i rules) (rule_base f) = rcr_view f"
proof (rule only_rule_of_base)
  have d: "distinct rules" using assms(1) by (simp add: distinct_map)
  note mem = in_without [OF assms(2) d]
  show "f \<in> set (without i rules)" using assms mem by blast
  show "\<forall>g \<in> set (without i rules). g \<noteq> f \<longrightarrow> rule_base g \<noteq> rule_base f"
    using assms same_base_cases [OF assms(1)] mem by (metis nth_mem)
qed

text \<open>The first redundant rule of a sorted list can be removed: a folder rule is only removed when the file rule of its
  base is gone, so the rules above it give its label to all it covered.\<close>

lemma redundant_file_removed:
  assumes distinct: "distinct (map rcr_path rules)" and i: "i < length rules"
    and exact: "\<not> ends_with ''/**'' (rcr_path (rules ! i))"
    and base: "rules_label d (without i rules) (rule_base (rules ! i)) = rcr_view (rules ! i)"
  shows "rules_label d (without i rules) p = rules_label d rules p"
proof (cases "p = rule_base (rules ! i)")
  case False
  let ?r = "rules ! i"
  have "\<not> rule_matches p ?r" using exact False by (simp add: matches_file pattern_base_file)
  then have "filter (rule_matches p) (without i rules) = filter (rule_matches p) rules"
    by (subst (2) id_take_nth_drop [OF i]) (simp add: without_def)
  then show ?thesis by (rule rules_label_cong)
next
  case True
  let ?r = "rules ! i"
  obtain us w vs where w: "rules = us @ w # vs" "rule_matches p w" "rules_label d rules p = rcr_view w"
    "\<forall>r' \<in> set rules. rule_matches p r' \<longrightarrow> rule_weight r' \<le> rule_weight w"
    using rules_label_winner [of ?r rules p d] i True by (metis matches_base nth_mem)
  have "length p \<le> rule_weight w" using w(4) i True by (force simp: pattern_weight_def)
  then have "rule_base w = p" using w(2) matches_full_weight matches_weight by (metis le_antisym)
  have "rcr_view w = rcr_view ?r"
  proof (cases "w = ?r")
    case False
    have "w \<in> set rules" unfolding w(1) by simp
    from rest_of_base [OF distinct i this False, of d] \<open>rule_base w = p\<close> show ?thesis using base True by simp
  qed simp
  then show ?thesis using base True w(3) by simp
qed

lemma prefix_less: "t \<noteq> [] \<Longrightarrow> b < b @ (t :: 'a :: order list)"
  by (induction b) (auto simp: neq_Nil_conv)

lemma first_redundant_folder_alone:
  assumes order: "sorted_wrt (<) (map rcr_path (config_rules c))" and canonical: "rules_canonical (config_rules c)"
    and control: "controls_only_outside (config_rules c)" and some: "redundant_rule_index c = Some i"
    and folder: "rcr_path (config_rules c ! i) = b @ ''/**''" and f: "f \<in> set (without i (config_rules c))"
  shows "rule_base f \<noteq> b"
proof
  let ?L = "config_rules c" and ?d = "config_default c"
  note i = redundant_rule_index_SomeD [OF some]
  have distinct: "distinct (map rcr_path ?L)" using order strict_sorted_iff by blast
  then have dL: "distinct ?L" by (simp add: distinct_map)
  assume fb: "rule_base f = b"
  have fL: "f \<in> set ?L" "f \<noteq> ?L ! i" using f in_without [OF i(1) dL] by auto
  have same: "rule_base f = rule_base (?L ! i)" using fb folder by simp
  then have exact: "\<not> ends_with ''/**'' (rcr_path f)" using same_base_cases [OF distinct fL(1) nth_mem [OF i(1)] fL(2)] folder by simp
  then have path: "rcr_path f = b" using pattern_base_file fb by simp
  obtain j where j: "j < length ?L" "?L ! j = f" using fL(1) by (auto simp: in_set_conv_nth)
  have less: "rcr_path f < rcr_path (?L ! i)" using path folder by (simp add: prefix_less)
  have "j < i"
  proof (rule ccontr)
    assume "\<not> j < i"
    then have "i < j" using j(2) fL(2) by (cases "i = j") auto
    then have "rcr_path (?L ! i) < rcr_path f" using sorted_wrt_nth_less [OF order, of i j] j i(1) by simp
    then show False using less by simp
  qed
  have "rcr_view f = rcr_view (?L ! i)"
    using rest_of_base [OF distinct i(1) fL same, of ?d] redundant_label(1) [OF canonical control i(1) i(2)] same by simp
  moreover have "rules_label ?d (without j ?L) b = rcr_view (?L ! i)"
    using rest_of_base [OF distinct j(1), of "?L ! i" ?d] fL j(2) same i(1) folder by auto
  ultimately have "rule_is_redundant c j (?L ! j)"
    using redundant_label(2) [OF canonical control j(1)] j(2) exact fb by simp
  then show False using i(3) \<open>j < i\<close> by blast
qed

lemma redundant_rule_removed:
  assumes order: "sorted_wrt (<) (map rcr_path (config_rules c))" and canonical: "rules_canonical (config_rules c)"
    and control: "controls_only_outside (config_rules c)" and some: "redundant_rule_index c = Some i"
  shows "rules_label (config_default c) (without i (config_rules c)) p = rules_label (config_default c) (config_rules c) p"
proof -
  let ?L = "config_rules c" and ?d = "config_default c"
  note i = redundant_rule_index_SomeD [OF some]
  have distinct: "distinct (map rcr_path ?L)" using order strict_sorted_iff by blast
  have split: "?L = take i ?L @ ?L ! i # drop (Suc i) ?L" using i(1) by (rule id_take_nth_drop)
  note base = redundant_label(1) [OF canonical control i(1) i(2)]
  show ?thesis
  proof (cases "rcr_path (?L ! i)" rule: pattern_cases)
    case exact
    then show ?thesis using redundant_file_removed [OF distinct i(1) _ base] by blast
  next
    case (folder b)
    show ?thesis
    proof (cases "rule_matches p (?L ! i)")
      case True
      then show ?thesis
        using redundant_folder_removed [OF split _ folder, of i p ?d]
          first_redundant_folder_alone [OF order canonical control some folder] base folder i(1) split
        by (simp add: without_def matches_folder)
    next
      case False
      then have "filter (rule_matches p) (without i ?L) = filter (rule_matches p) ?L"
        by (subst (2) split) (simp add: without_def)
      then show ?thesis by (rule rules_label_cong)
    qed
  qed
qed

lemma remove_rule_without: "remove_rule i c = with_rules (without i (config_rules c)) c"
  by (simp add: remove_rule_def without_def)

lemma set_without: "set (without i xs) \<subseteq> set xs"
  using set_take_subset set_drop_subset by (fastforce simp: without_def)

lemma sorted_wrt_without:
  assumes "sorted_wrt R (map f xs)"
  shows "sorted_wrt R (map f (without i xs))"
proof (cases "i < length xs")
  case True
  define us vs where uv: "us = take i xs" "vs = drop (Suc i) xs"
  have "xs = us @ xs ! i # vs" using id_take_nth_drop [OF True] uv by simp
  then have "sorted_wrt R (map f us @ f (xs ! i) # map f vs)" using assms by (metis list.simps(9) map_append)
  then show ?thesis by (simp add: without_def uv [symmetric] sorted_wrt_append)
qed (use assms in \<open>simp add: without_def\<close>)

lemma drop_redundant_rules_labels:
  assumes "sorted_wrt (<) (map rcr_path (config_rules c))" "rules_canonical (config_rules c)"
    "controls_only_outside (config_rules c)"
  shows "rules_label (config_default c) (config_rules (drop_redundant_rules c)) p =
      rules_label (config_default c) (config_rules c) p
    \<and> sorted_wrt (<) (map rcr_path (config_rules (drop_redundant_rules c)))
    \<and> set (config_rules (drop_redundant_rules c)) \<subseteq> set (config_rules c)
    \<and> (\<exists>rules. drop_redundant_rules c = with_rules rules c)"
  using assms
proof (induction c rule: drop_redundant_rules.induct)
  case (1 c)
  show ?case
  proof (cases "redundant_rule_index c")
    case None
    then show ?thesis using "1.prems" by (subst (1 2 3 4) drop_redundant_rules.simps) (auto simp: with_rules_def intro!: exI [of _ "config_rules c"])
  next
    case (Some i)
    have step: "drop_redundant_rules c = drop_redundant_rules (remove_rule i c)"
      by (subst drop_redundant_rules.simps) (simp add: Some)
    have "rules_canonical (without i (config_rules c))" "controls_only_outside (without i (config_rules c))"
      using "1.prems"(2,3) subsetD [OF set_without [of i "config_rules c"]] unfolding rules_canonical_def by blast+
    then have "sorted_wrt (<) (map rcr_path (config_rules (remove_rule i c)))"
      "rules_canonical (config_rules (remove_rule i c))" "controls_only_outside (config_rules (remove_rule i c))"
      using sorted_wrt_without [OF "1.prems"(1), of i] by (simp_all only: remove_rule_without with_rules_simps)
    note IH = "1.IH" [OF Some this]
    then have IH: "rules_label (config_default c) (config_rules (drop_redundant_rules (remove_rule i c))) p =
        rules_label (config_default c) (without i (config_rules c)) p"
      "sorted_wrt (<) (map rcr_path (config_rules (drop_redundant_rules (remove_rule i c))))"
      "set (config_rules (drop_redundant_rules (remove_rule i c))) \<subseteq> set (without i (config_rules c))"
      "\<exists>rules. drop_redundant_rules (remove_rule i c) = with_rules rules (remove_rule i c)"
      unfolding remove_rule_without with_rules_simps by blast+
    from IH(4) have "\<exists>rules. drop_redundant_rules (remove_rule i c) = with_rules rules c"
      unfolding remove_rule_without with_rules_simps .
    moreover have "rules_label (config_default c) (config_rules (drop_redundant_rules (remove_rule i c))) p =
        rules_label (config_default c) (config_rules c) p"
      using IH(1) redundant_rule_removed [OF "1.prems" Some, of p] by simp
    ultimately show ?thesis
      using IH(2) subset_trans [OF IH(3) set_without] unfolding step by (intro conjI)
  qed
qed

section \<open>One rule per pattern\<close>

text \<open>The rules after the first step of \<^verbatim>\<open>canonicalize_visibility_rules\<close>.\<close>

definition rules_by_pattern :: "repo_config_file_rule list \<Rightarrow> repo_config_file_rule list" where
  "rules_by_pattern rules =
     map (\<lambda>(path, view). \<lparr>rcr_path = path, rcr_view = view\<rparr>)
       (bt_collect (map (\<lambda>rule. (rcr_path rule, rcr_view rule))
         (filter (\<lambda>rule. \<not> is_repo_control_pattern (rcr_path rule)) rules)))"

lemma in_rules_by_pattern:
  "r \<in> set (rules_by_pattern rules) \<longleftrightarrow>
     map_of (rev (map (\<lambda>r. (rcr_path r, rcr_view r)) (filter (\<lambda>r. \<not> is_repo_control_pattern (rcr_path r)) rules)))
       (rcr_path r) = Some (rcr_view r)"
proof -
  let ?m = "bt_collect (map (\<lambda>r. (rcr_path r, rcr_view r)) (filter (\<lambda>r. \<not> is_repo_control_pattern (rcr_path r)) rules))"
  have "r \<in> set (rules_by_pattern rules) \<longleftrightarrow> (rcr_path r, rcr_view r) \<in> set ?m"
    by (force simp: rules_by_pattern_def image_iff)
  also have "\<dots> \<longleftrightarrow> bt_get ?m (rcr_path r) = Some (rcr_view r)" by (simp add: bt_get_Some_iff bt_ok_collect)
  finally show ?thesis by (simp add: bt_get_collect)
qed

lemma rules_by_pattern_set:
  "set (rules_by_pattern rules) \<subseteq> {r \<in> set rules. \<not> is_repo_control_pattern (rcr_path r)}"
proof
  fix r assume "r \<in> set (rules_by_pattern rules)"
  from map_of_SomeD [OF this [unfolded in_rules_by_pattern]]
  obtain x where x: "x \<in> set rules" "\<not> is_repo_control_pattern (rcr_path x)" "rcr_path r = rcr_path x" "rcr_view r = rcr_view x"
    by auto
  have "r = x" by (rule repo_config_file_rule.equality) (use x in simp_all)
  then show "r \<in> {r \<in> set rules. \<not> is_repo_control_pattern (rcr_path r)}" using x(1,2) by blast
qed

lemma rules_by_pattern_sorted: "sorted_wrt (<) (map rcr_path (rules_by_pattern rules))"
proof -
  have "map rcr_path (map (\<lambda>(path, view). \<lparr>rcr_path = path, rcr_view = view\<rparr>) m) = map fst m"
    for m :: "(string \<times> view_id) list" by auto
  then show ?thesis using bt_ok_collect by (simp only: rules_by_pattern_def bt_ok_def)
qed

text \<open>Unless there is a file rule for the path, its strongest rule is the only one of its weight.\<close>

lemma unique_winner:
  assumes "distinct (map rcr_path rules)" "w \<in> set rules" "rule_matches p w"
    "\<forall>r \<in> set rules. rule_matches p r \<longrightarrow> rule_weight r \<le> rule_weight w"
    "ends_with ''/**'' p \<or> p \<notin> rcr_path ` set rules"
  shows "rules_label d rules p = rcr_view w"
proof (rule rules_label_top [OF assms(2,3)], intro ballI impI, elim conjE)
  fix r assume r: "r \<in> set rules" "rule_matches p r" "r \<noteq> w"
  have folder: "ends_with ''/**'' (rcr_path x)" if "x \<in> set rules" "rule_matches p x" for x
    using that assms(5) matches_file [of "rcr_path x" p] by blast
  have "rule_weight r \<noteq> rule_weight w"
  proof
    assume "rule_weight r = rule_weight w"
    then have "rcr_path r = rcr_path w"
      using matches_unique [OF r(2) assms(3)] folder r(1,2) assms(2,3) by blast
    then show False using assms(1,2) r(1,3) by (auto simp: distinct_map dest: inj_onD)
  qed
  then show "rule_weight r < rule_weight w" using assms(4) r(1,2) by force
qed

lemma rules_by_pattern_label:
  assumes "plain_path p" "ends_with ''/**'' (as_str p) \<or> as_str p \<notin> rcr_path ` set rules"
  shows "rules_label d (rules_by_pattern rules) (as_str p) = rules_label d rules (as_str p)"
proof (cases "\<exists>r \<in> set rules. rule_matches (as_str p) r")
  case False
  then have "filter (rule_matches (as_str p)) (rules_by_pattern rules) = filter (rule_matches (as_str p)) rules"
    using rules_by_pattern_set [of rules] by (auto simp: filter_empty_conv)
  then show ?thesis by (rule rules_label_cong)
next
  case True
  let ?p = "as_str p" and ?pair = "\<lambda>r. (rcr_path r, rcr_view r)" and ?ok = "\<lambda>r. \<not> is_repo_control_pattern (rcr_path r)"
  obtain r where "r \<in> set rules" "rule_matches ?p r" using True by blast
  then obtain us w vs where w: "rules = us @ w # vs" "rule_matches ?p w" "rules_label d rules ?p = rcr_view w"
    "\<forall>r' \<in> set rules. rule_matches ?p r' \<longrightarrow> rule_weight r' \<le> rule_weight w"
    "\<forall>r' \<in> set vs. rule_matches ?p r' \<longrightarrow> rule_weight r' < rule_weight w"
    by (rule rules_label_winner)
  have "rcr_path w \<notin> rcr_path ` set vs" using w(2,5) by force
  then have "map_of (rev (map ?pair (filter ?ok vs))) (rcr_path w) = None"
    by (force simp: map_of_eq_None_iff)
  moreover have "?ok w" using control_pattern_misses_plain w(2) assms(1) by blast
  ultimately have "w \<in> set (rules_by_pattern rules)"
    by (simp add: in_rules_by_pattern w(1) map_add_def)
  then have "rules_label d (rules_by_pattern rules) ?p = rcr_view w"
    using rules_by_pattern_set [of rules] w(2,4) assms(2) strict_sorted_iff rules_by_pattern_sorted
    by (intro unique_winner) blast+
  then show ?thesis using w(3) by simp
qed

section \<open>Restoring the bases\<close>

lemma rules_label_upsert:
  assumes "\<not> ends_with ''/**'' b"
  shows "rules_label d (filter (\<lambda>r. rcr_path r \<noteq> b) rules @ [\<lparr>rcr_path = b, rcr_view = v\<rparr>]) p =
    (if p = b then v else rules_label d rules p)"
proof (cases "p = b")
  case True
  then show ?thesis
    using rules_label_last [where r = "\<lparr>rcr_path = b, rcr_view = v\<rparr>" and p = b] assms
    by (simp add: matches_file pattern_weight_def pattern_base_file)
next
  case False
  then have "filter (rule_matches p) (filter (\<lambda>r. rcr_path r \<noteq> b) rules @ [\<lparr>rcr_path = b, rcr_view = v\<rparr>]) =
      filter (rule_matches p) rules"
    using assms by (auto simp: matches_file intro!: filter_cong)
  from rules_label_cong [OF this] show ?thesis using False by simp
qed

text \<open>The rules that restoring may add: file rules of bases with the label these had.\<close>

definition base_rules :: "repo_config \<Rightarrow> repo_config_file_rule set" where
  "base_rules c = {r. \<not> ends_with ''/**'' (rcr_path r) \<and> rcr_path r \<in> rule_base ` set (config_rules c)
     \<and> rcr_view r = effective_config_label_for_path c (rcr_path r)}"

text \<open>What holds while the bases are restored, in a configuration \<open>c0\<close> and the bases still to be looked at.\<close>

definition restoring :: "repo_config \<Rightarrow> string list \<Rightarrow> repo_config \<Rightarrow> bool" where
  "restoring c0 bases c \<longleftrightarrow>
     (\<exists>rules. c = with_rules rules c0) \<and> distinct (map rcr_path (config_rules c))
     \<and> rule_base ` set (config_rules c) \<subseteq> rule_base ` set (config_rules c0)
     \<and> set (config_rules c) \<subseteq> set (config_rules c0) \<union> base_rules c0
     \<and> (\<forall>p. label_for_path c p = label_for_path c0 p \<or> as_str p \<in> set bases \<and> \<not> ends_with ''/**'' (as_str p))"

lemma effective_label:
  "ScopePath_parse path = Ok (ScopePath path) \<Longrightarrow> effective_config_label_for_path c path = label_for_path c (ScopePath path)"
  by (simp add: effective_config_label_for_path_def)

lemma restoring_step:
  assumes r: "restoring c0 (b # bases) c" and b: "ScopePath_parse b = Ok (ScopePath b)" "b \<in> rule_base ` set (config_rules c0)"
    and view: "view = effective_config_label_for_path c0 b"
  shows "restoring c0 bases (if effective_config_label_for_path c b \<noteq> view then upsert_visibility_rule b view c else c)"
proof (cases "effective_config_label_for_path c b = view")
  case True
  then have "label_for_path c (ScopePath b) = label_for_path c0 (ScopePath b)" using b view by (simp add: effective_label)
  then have "label_for_path c p = label_for_path c0 p" if "as_str p = b" for p using that by (cases p) simp
  then show ?thesis using r True by (fastforce simp: restoring_def)
next
  case False
  then have differ: "label_for_path c (ScopePath b) \<noteq> label_for_path c0 (ScopePath b)"
    using b view by (simp add: effective_label)
  then have exact: "\<not> ends_with ''/**'' b" using r unfolding restoring_def by (metis scope_path.sel)
  obtain rules where c: "c = with_rules rules c0" using r by (auto simp: restoring_def)
  have plain: "plain_path (ScopePath b)" using differ c by (auto simp: label_for_path_rules split: if_split_asm)
  let ?c = "upsert_visibility_rule b view c"
  have label: "label_for_path ?c p = (if as_str p = b then view else label_for_path c p)" for p
  proof (cases "as_str p = b")
    case True
    then have "p = ScopePath b" by (cases p) simp
    then show ?thesis using plain exact
      by (simp add: label_for_path_rules upsert_visibility_rule_def rules_label_upsert)
  next
    case False
    then show ?thesis using exact by (simp add: label_for_path_rules upsert_visibility_rule_def rules_label_upsert)
  qed
  have "label_for_path ?c p = label_for_path c0 p \<or> as_str p \<in> set bases \<and> \<not> ends_with ''/**'' (as_str p)" for p
  proof (cases "as_str p = b")
    case True
    then have "p = ScopePath b" by (cases p) simp
    then show ?thesis using label view b(1) by (simp add: effective_label)
  next
    case False
    then show ?thesis using label r by (auto simp: restoring_def)
  qed
  moreover have "distinct (map rcr_path (config_rules ?c))"
    using r by (auto simp: restoring_def upsert_visibility_rule_def distinct_map intro: inj_on_subset)
  moreover have "rule_base ` set (config_rules ?c) \<subseteq> rule_base ` set (config_rules c0)"
    using r b(2) exact by (auto simp: restoring_def upsert_visibility_rule_def pattern_base_file)
  moreover have "set (config_rules ?c) \<subseteq> set (config_rules c0) \<union> base_rules c0"
  proof -
    have "\<lparr>rcr_path = b, rcr_view = view\<rparr> \<in> base_rules c0" using b(2) exact view by (simp add: base_rules_def)
    then show ?thesis using r by (auto simp: restoring_def upsert_visibility_rule_def)
  qed
  ultimately show ?thesis using False c by (auto simp: restoring_def upsert_visibility_rule_def)
qed

lemma restoring_fold:
  assumes "restoring c0 (map fst m) c"
    and "\<forall>(b, view) \<in> set m. ScopePath_parse b = Ok (ScopePath b) \<and> b \<in> rule_base ` set (config_rules c0)
      \<and> view = effective_config_label_for_path c0 b"
  shows "restoring c0 [] (restore_rule_base_visibilities c m)"
  using assms
proof (induction m arbitrary: c)
  case (Cons x m)
  obtain b view where x: "x = (b, view)" by (cases x)
  have "restoring c0 (map fst m) (if effective_config_label_for_path c b \<noteq> view then upsert_visibility_rule b view c else c)"
    by (rule restoring_step) (use Cons.prems in \<open>simp_all add: x\<close>)
  moreover have "\<forall>(b, view) \<in> set m. ScopePath_parse b = Ok (ScopePath b) \<and> b \<in> rule_base ` set (config_rules c0)
      \<and> view = effective_config_label_for_path c0 b" using Cons.prems(2) by simp
  ultimately have "restoring c0 [] (restore_rule_base_visibilities
      (if effective_config_label_for_path c b \<noteq> view then upsert_visibility_rule b view c else c) m)" by (rule Cons.IH)
  then show ?case by (simp add: x restore_rule_base_visibilities_def split del: if_split)
qed (simp add: restore_rule_base_visibilities_def)

section \<open>Sorting\<close>

text \<open>Sorting puts the rule that labels its own base behind the other rule of that base.\<close>

lemma sorted_label:
  assumes "rules_label d rules p = v" and key: "sorted_wrt (\<lambda>a b. key a \<le> key b) ordered" "set ordered = set rules"
    and unique: "distinct (map rcr_path rules)"
    and rank: "\<And>a b. a \<in> set rules \<Longrightarrow> b \<in> set rules \<Longrightarrow> rule_base a = p \<Longrightarrow> rule_base b = p \<Longrightarrow>
      rcr_view a = v \<Longrightarrow> (key a :: 'k::order) \<le> key b \<Longrightarrow> rcr_view b = v"
  shows "rules_label d ordered p = v"
proof (cases "\<exists>r \<in> set rules. rule_matches p r")
  case False
  then have "filter (rule_matches p) ordered = filter (rule_matches p) rules" using key(2) by (auto simp: filter_empty_conv)
  then show ?thesis using assms(1) rules_label_cong by metis
next
  case True
  then obtain r where r: "r \<in> set rules" "rule_matches p r" by blast
  obtain w us vs where w: "rules = us @ w # vs" "rule_matches p w" "rules_label d rules p = rcr_view w"
    "\<forall>r' \<in> set rules. rule_matches p r' \<longrightarrow> rule_weight r' \<le> rule_weight w"
    using rules_label_winner [OF r, of d] by metis
  obtain w' us' vs' where w': "ordered = us' @ w' # vs'" "rule_matches p w'" "rules_label d ordered p = rcr_view w'"
    "\<forall>r' \<in> set ordered. rule_matches p r' \<longrightarrow> rule_weight r' \<le> rule_weight w'"
    "\<forall>r' \<in> set vs'. rule_matches p r' \<longrightarrow> rule_weight r' < rule_weight w'"
    using rules_label_winner [of r ordered p d] r key(2) by metis
  have ins: "w \<in> set ordered" "w' \<in> set rules" "w \<in> set rules" using w(1) w'(1) key(2) by auto
  have weight: "rule_weight w = rule_weight w'" using w(4) w'(4) w(2) w'(2) ins by (simp add: order_antisym)
  then have base: "rule_base w = rule_base w'" using matches_same_base w(2) w'(2) by blast
  show ?thesis
  proof (cases "w = w'")
    case True
    then show ?thesis using w(3) w'(3) assms(1) by simp
  next
    case differ: False
    have "rule_base w = p"
    proof (rule ccontr)
      assume "rule_base w \<noteq> p"
      then have "ends_with ''/**'' (rcr_path w)" "ends_with ''/**'' (rcr_path w')"
        using matches_below w(2) w'(2) base by auto
      then show False using same_base_cases [OF unique ins(3,2) differ base] by simp
    qed
    moreover have "w \<in> set us'" using ins(1) w'(1,5) weight w(2) differ by auto
    then have "key w \<le> key w'" using key(1) w'(1) by (auto simp: sorted_wrt_append)
    ultimately show ?thesis using rank [OF ins(3,2)] w(3) w'(3) assms(1) base by simp
  qed
qed

section \<open>The canonical form labels every path as before\<close>

lemma rule_bases_collected:
  "(b, view) \<in> set (effective_visibilities_by_rule_base c) \<longleftrightarrow>
     b \<in> rule_base ` set (config_rules c) \<and> view = effective_config_label_for_path c b"
proof -
  define l where "l = map (\<lambda>rule. (rule_base rule, effective_config_label_for_path c (rule_base rule))) (config_rules c)"
  have bases: "effective_visibilities_by_rule_base c = bt_collect l"
    by (simp add: l_def effective_visibilities_by_rule_base_def)
  have mem: "(b, view) \<in> set l \<longleftrightarrow> b \<in> rule_base ` set (config_rules c) \<and> view = effective_config_label_for_path c b"
    for b view by (auto simp: l_def)
  have "(b, view) \<in> set (bt_collect l)" if listed: "(b, view) \<in> set l"
  proof -
    have "b \<in> fst ` set (bt_collect l)" using listed by (force simp: keys_bt_collect)
    then obtain v where v: "(b, v) \<in> set (bt_collect l)" by auto
    then have "v = view" using subsetD [OF set_bt_collect v] listed mem by simp
    then show ?thesis using v by simp
  qed
  then have "(b, view) \<in> set (bt_collect l) \<longleftrightarrow> (b, view) \<in> set l"
    using subsetD [OF set_bt_collect [of l]] by blast
  then show ?thesis by (simp only: mem bases)
qed

lemma first_steps_restoring:
  assumes "rules_canonical (config_rules c)"
  defines "c1 \<equiv> with_rules (rules_by_pattern (config_rules c)) c"
  shows "restoring c (map fst (effective_visibilities_by_rule_base c)) (drop_redundant_rules c1)"
proof -
  have c1: "sorted_wrt (<) (map rcr_path (config_rules c1))" "rules_canonical (config_rules c1)"
    "controls_only_outside (config_rules c1)"
    using rules_by_pattern_sorted rules_by_pattern_set [of "config_rules c"] assms(1)
    by (auto simp: c1_def rules_canonical_def)
  note dropped = drop_redundant_rules_labels [OF c1]
  then obtain rules where c2: "drop_redundant_rules c1 = with_rules rules c1" by blast
  have "label_for_path (drop_redundant_rules c1) p = label_for_path c p
      \<or> as_str p \<in> rule_base ` set (config_rules c) \<and> \<not> ends_with ''/**'' (as_str p)" for p
  proof (cases "plain_path p \<and> \<not> ends_with ''/**'' (as_str p) \<and> as_str p \<in> rcr_path ` set (config_rules c)")
    case True
    then have "as_str p \<in> rule_base ` set (config_rules c)" by (force simp: pattern_base_file)
    then show ?thesis using True by blast
  next
    case False
    then have "rules_label d (rules_by_pattern (config_rules c)) (as_str p) = rules_label d (config_rules c) (as_str p)"
      if "plain_path p" for d using rules_by_pattern_label that by blast
    then show ?thesis using conjunct1 [OF dropped, of "as_str p"] c2 by (auto simp: label_for_path_rules c1_def)
  qed
  moreover have "fst ` set (effective_visibilities_by_rule_base c) = rule_base ` set (config_rules c)"
    using rule_bases_collected [of _ _ c] by (force simp: image_iff)
  moreover have "distinct (map rcr_path (config_rules (drop_redundant_rules c1)))"
    using dropped strict_sorted_iff by blast
  moreover have "set (config_rules (drop_redundant_rules c1)) \<subseteq> set (config_rules c)"
    using dropped rules_by_pattern_set [of "config_rules c"] by (auto simp: c1_def)
  ultimately show ?thesis using c2 unfolding restoring_def by (auto simp: c1_def)
qed

lemma sort_restored_label:
  assumes c': "restoring c [] c'" and canonical: "rules_canonical (config_rules c)"
  shows "label_for_path (sort_visibility_rules c' (effective_visibilities_by_rule_base c)) p = label_for_path c p"
proof -
  let ?bases = "effective_visibilities_by_rule_base c" and ?d = "config_default c"
  let ?key = "\<lambda>rule. (rule_base rule, semantic_sort_rank ?bases rule, rule_sort_rank (rcr_path rule), rcr_path rule)"
  obtain rules where rules: "c' = with_rules rules c" using c' by (auto simp: restoring_def)
  have label: "label_for_path c' p = label_for_path c p" using c' by (simp add: restoring_def)
  show ?thesis
  proof (cases "plain_path p")
    case True
    let ?v = "rules_label ?d rules (as_str p)"
    have "rules_label ?d (sort_key ?key rules) (as_str p) = ?v"
    proof (rule sorted_label [where key = ?key])
      show "sorted_wrt (\<lambda>a b. ?key a \<le> ?key b) (sort_key ?key rules)"
        using sorted_sort_key [of ?key rules] by (simp add: sorted_map)
      show "distinct (map rcr_path rules)" using c' rules by (simp add: restoring_def)
      fix a b assume a: "a \<in> set rules" "b \<in> set rules" "rule_base a = as_str p" "rule_base b = as_str p" "rcr_view a = ?v"
        "?key a \<le> ?key b"
      have "rule_base ` set rules \<subseteq> rule_base ` set (config_rules c)" using c' rules by (simp add: restoring_def)
      then have mem: "as_str p \<in> rule_base ` set (config_rules c)" using a(1,3) by force
      then obtain r where r: "r \<in> set (config_rules c)" "as_str p = rule_base r" by auto
      have "effective_config_label_for_path c (rule_base r) = label_for_path c (ScopePath (rule_base r))"
        using canonical r(1) by (intro effective_label) (simp add: rules_canonical_def)
      moreover have "ScopePath (rule_base r) = p" using r(2) by (cases p) simp
      ultimately have "effective_config_label_for_path c (as_str p) = label_for_path c p" using r(2) by metis
      then have "effective_config_label_for_path c (as_str p) = ?v"
        using label rules True by (simp add: label_for_path_rules)
      then have "(as_str p, ?v) \<in> set ?bases" using mem unfolding rule_bases_collected by simp
      then have "bt_get ?bases (as_str p) = Some ?v"
        unfolding effective_visibilities_by_rule_base_def bt_get_Some_iff [OF bt_ok_collect] .
      then have "semantic_sort_rank ?bases a = 1" "semantic_sort_rank ?bases b = (if rcr_view b = ?v then 1 else 0)"
        using a(3-5) by (auto simp: semantic_sort_rank_def)
      then show "rcr_view b = ?v" using a(3,4,6) by (simp split: if_split_asm)
    qed simp_all
    then show ?thesis using True label rules by (simp add: label_for_path_rules sort_visibility_rules_def)
  next
    case False
    then show ?thesis using rules by (simp add: label_for_path_rules sort_visibility_rules_def)
  qed
qed

lemma canonicalize_labels:
  assumes "rules_canonical (config_rules c)"
  shows "label_for_path (canonicalize_visibility_rules c) p = label_for_path c p"
    and "\<exists>rules. canonicalize_visibility_rules c = with_rules rules c"
    and "set (config_rules (canonicalize_visibility_rules c)) \<subseteq> set (config_rules c) \<union> base_rules c"
proof -
  let ?c2 = "drop_redundant_rules (with_rules (rules_by_pattern (config_rules c)) c)"
  let ?c3 = "restore_rule_base_visibilities ?c2 (effective_visibilities_by_rule_base c)"
  have form: "canonicalize_visibility_rules c = sort_visibility_rules ?c3 (effective_visibilities_by_rule_base c)"
    by (simp add: canonicalize_visibility_rules_def rules_by_pattern_def Let_def)
  have restored: "restoring c [] ?c3"
    using first_steps_restoring [OF assms] assms
    by (intro restoring_fold) (auto simp: rule_bases_collected rules_canonical_def)
  then show "label_for_path (canonicalize_visibility_rules c) p = label_for_path c p"
    using sort_restored_label [OF _ assms] form by simp
  show "\<exists>rules. canonicalize_visibility_rules c = with_rules rules c"
    using restored form by (auto simp: restoring_def sort_visibility_rules_def)
  show "set (config_rules (canonicalize_visibility_rules c)) \<subseteq> set (config_rules c) \<union> base_rules c"
    using restored form by (auto simp: restoring_def sort_visibility_rules_def)
qed

end
