(* ===== verification/Visibility_Properties.thy ===== *)
theory Visibility_Properties
  imports Visibility_Facts Label_Properties
begin

text \<open>
  What the editor of label rules promises: bringing valid rules into canonical form changes no label, and a toggle
  changes the labels of its target and of nothing else.
\<close>

lemma validated_rules:
  assumes "RepoConfig_validate lower c = Ok ()" and "r \<in> set (config_rules c)"
  shows "validate_rule c r = Ok ()" and "validate_config_pattern (rcr_path r) = Ok ()"
    and "\<not> is_repo_control_pattern (rcr_path r)" and "Views_get (rc_views c) (rcr_view r) \<noteq> None"
proof -
  have "check_all (validate_rule c) (config_rules c) = Ok ()"
    using assms(1) by (auto simp: RepoConfig_validate_def and_then_Ok_iff split: if_split_asm)
  then show r: "validate_rule c r = Ok ()" using assms(2) by (simp add: check_all_Ok_iff)
  show "validate_config_pattern (rcr_path r) = Ok ()" "\<not> is_repo_control_pattern (rcr_path r)"
    "Views_get (rc_views c) (rcr_view r) \<noteq> None"
    using r by (auto simp: validate_rule_def and_then_Ok_iff split: if_split_asm)
qed

lemma validated_rules_canonical:
  assumes "RepoConfig_validate lower c = Ok ()"
  shows "rules_canonical (config_rules c)"
proof -
  have "ScopePath_parse path = Ok (ScopePath path)" if "validate_config_path path = Ok p" for path p
    using that by (cases p) (auto simp: validate_config_path_def and_then_Ok_iff map_err_Ok_iff split: if_split_asm)
  then have pattern: "ScopePath_parse (pattern_base_path q) = Ok (ScopePath (pattern_base_path q))"
    if "validate_config_pattern q = Ok ()" for q
    using that by (auto simp: validate_config_pattern_def pattern_base_path_def and_then_Ok_iff split: option.split_asm)
  then show ?thesis using validated_rules [OF assms] by (auto simp: rules_canonical_def)
qed

text \<open>
  C21: Bringing the rules of a valid configuration into canonical form (one rule per pattern, the redundant ones
  dropped, the labels of rule bases restored, sorted) leaves the label of every path as it was; only the list of rules
  changes.
\<close>

theorem canonical_rules_keep_labels:
  assumes "RepoConfig_validate lower c = Ok ()"
  shows "label_for_path (canonicalize_visibility_rules c) p = label_for_path c p
    \<and> (\<exists>rules. canonicalize_visibility_rules c = with_rules rules c)"
  using canonicalize_labels [OF validated_rules_canonical [OF assms]] by blast

section \<open>Toggling\<close>

definition at_or_below :: "string \<Rightarrow> scope_path \<Rightarrow> bool" where
  "at_or_below folder p \<longleftrightarrow> as_str p = folder \<or> (\<exists>t. as_str p = folder @ ''/'' @ t)"

lemma inside_subtree_base:
  "pattern_is_inside_subtree q folder \<longleftrightarrow>
     pattern_base_path q = folder \<or> (\<exists>t. pattern_base_path q = folder @ ''/'' @ t)"
  by (auto simp: pattern_is_inside_subtree_def Let_def string_ops prefix_def)

lemma inside_matches:
  assumes "pattern_is_inside_subtree q folder" "pattern_matches_path q (as_str p)"
  shows "at_or_below folder p"
proof (cases "pattern_base_path q = as_str p")
  case True
  then show ?thesis using assms(1) by (auto simp: inside_subtree_base at_or_below_def)
next
  case False
  then obtain t where "as_str p = pattern_base_path q @ ''/'' @ t" using matches_below assms(2) by blast
  then show ?thesis using assms(1) by (auto simp: inside_subtree_base at_or_below_def)
qed

lemma heavier_inside:
  assumes "at_or_below folder p" "pattern_matches_path q (as_str p)" "length folder < pattern_weight q"
  shows "pattern_is_inside_subtree q folder"
proof -
  obtain s where s: "as_str p = pattern_base_path q @ s" using matches_prefix assms(2) by blast
  with assms(1,3) show ?thesis
    by (auto simp: at_or_below_def inside_subtree_base pattern_weight_def append_eq_append_conv2 append_eq_Cons_conv
        Cons_eq_append_conv)
qed

lemma folder_rule_matches: "pattern_matches_path (folder_rule_path folder) (as_str p) \<longleftrightarrow> at_or_below folder p"
  by (simp add: folder_rule_path_def matches_folder at_or_below_def)

lemma directory_toggle_outside:
  assumes "\<not> at_or_below folder p"
  shows "rules_label d (config_rules (upsert_visibility_rule (folder_rule_path folder) v
      (replace_visibility_rules_in_subtree folder v c))) (as_str p) = rules_label d (config_rules c) (as_str p)"
proof -
  have "pattern_is_inside_subtree (folder_rule_path folder) folder" by (simp add: inside_subtree_base folder_rule_path_def)
  moreover have "\<not> rule_matches (as_str p) r" if "pattern_is_inside_subtree (rcr_path r) folder" for r
    using inside_matches that assms by blast
  ultimately show ?thesis
    using assms folder_rule_matches
    by (intro rules_label_cong)
      (auto simp: upsert_visibility_rule_def replace_visibility_rules_in_subtree_def intro!: filter_cong)
qed

lemma rules_label_snoc:
  assumes "rule_matches p r"
  shows "rules_label d (rules @ [r]) p = rcr_view r
    \<or> (\<exists>w \<in> set rules. rule_matches p w \<and> rule_weight r < rule_weight w \<and> rules_label d (rules @ [r]) p = rcr_view w)"
proof (cases "max_by_key rule_weight (filter (rule_matches p) rules)")
  case None
  then show ?thesis using assms by (simp add: rules_label_def max_by_key_append)
next
  case (Some w)
  then show ?thesis using assms max_by_key_Some [OF Some] by (auto simp: rules_label_def max_by_key_append)
qed

lemma directory_toggle_inside:
  fixes d v :: view_id and c :: repo_config
  assumes "at_or_below folder p"
  defines "label \<equiv> rules_label d (config_rules (upsert_visibility_rule (folder_rule_path folder) v
      (replace_visibility_rules_in_subtree folder v c))) (as_str p)"
  shows "label = v \<or> v = ViewId_public \<and> label = ViewId_private"
proof -
  let ?rules = "filter (\<lambda>r. rcr_path r \<noteq> folder_rule_path folder)
    (config_rules (replace_visibility_rules_in_subtree folder v c))"
  let ?r = "\<lparr>rcr_path = folder_rule_path folder, rcr_view = v\<rparr>"
  have label: "label = rules_label d (?rules @ [?r]) (as_str p)"
    by (simp add: label_def upsert_visibility_rule_def replace_visibility_rules_in_subtree_def)
  have "rule_matches (as_str p) ?r" using assms(1) by (simp add: folder_rule_matches)
  then consider "label = v" | w where "w \<in> set ?rules" "rule_matches (as_str p) w" "length folder < rule_weight w" "label = rcr_view w"
    using rules_label_snoc [where p = "as_str p" and r = ?r and d = d and rules = ?rules] unfolding label by (auto simp: pattern_weight_def folder_rule_path_def)
  then show ?thesis
  proof cases
    case 2
    then have "pattern_is_inside_subtree (rcr_path w) folder" using heavier_inside assms(1) by blast
    then show ?thesis using 2 by (auto simp: replace_visibility_rules_in_subtree_def split: if_split_asm)
  qed simp
qed

lemma upsert_simps [simp]:
  "rc_views (upsert_visibility_rule b v c) = rc_views c" "config_default (upsert_visibility_rule b v c) = config_default c"
  "rc_views (remove_same_base_folder_rule b c) = rc_views c"
  "config_default (remove_same_base_folder_rule b c) = config_default c"
  "rc_views (replace_visibility_rules_in_subtree b v c) = rc_views c"
  "config_default (replace_visibility_rules_in_subtree b v c) = config_default c"
  by (simp_all add: upsert_visibility_rule_def remove_same_base_folder_rule_def replace_visibility_rules_in_subtree_def)

lemma upsert_label:
  "\<not> ends_with ''/**'' b \<Longrightarrow>
   rules_label d (config_rules (upsert_visibility_rule b v c)) p = (if p = b then v else rules_label d (config_rules c) p)"
  by (simp add: upsert_visibility_rule_def rules_label_upsert)

lemma remove_folder_label:
  assumes "\<not> at_or_below path p"
  shows "rules_label d (config_rules (remove_same_base_folder_rule path c)) (as_str p) = rules_label d (config_rules c) (as_str p)"
  using folder_rule_matches [of path p] assms
  by (intro rules_label_cong) (auto simp: remove_same_base_folder_rule_def intro!: filter_cong)


section \<open>The edited configuration stays valid\<close>

lemma label_of_rules_defined:
  assumes "RepoConfig_validate lower c = Ok ()" and "plain_path p"
  shows "Views_get (rc_views c) (label_for_path c p) \<noteq> None"
proof -
  have default: "Views_get (rc_views c) (config_default c) \<noteq> None"
    using assms(1) by (auto simp: RepoConfig_validate_def and_then_Ok_iff split: if_split_asm)
  show ?thesis
  proof (cases "max_by_key rule_weight (filter (rule_matches (as_str p)) (config_rules c))")
    case None
    then show ?thesis using default assms(2) by (simp add: label_for_path_rules rules_label_def)
  next
    case (Some r)
    then have "r \<in> set (config_rules c)" using max_by_key_Some by fastforce
    then show ?thesis using Some assms(2) validated_rules(4) [OF assms(1)] by (simp add: label_for_path_rules rules_label_def)
  qed
qed

lemma validate_with_rules:
  assumes "RepoConfig_validate lower c = Ok ()" and "\<forall>r \<in> set rules. validate_rule c r = Ok ()"
  shows "RepoConfig_validate lower (with_rules rules c) = Ok ()"
proof -
  have "validate_rule (with_rules rules c) = validate_rule c" by (simp add: validate_rule_def fun_eq_iff)
  then show ?thesis using assms
    by (auto simp: RepoConfig_validate_def with_rules_def and_then_Ok_iff check_all_Ok_iff split: if_split_asm)
qed

lemma base_rules_valid:
  assumes "RepoConfig_validate lower c = Ok ()" and r: "r \<in> base_rules c"
  shows "validate_rule c r = Ok ()"
proof -
  obtain f where f: "f \<in> set (config_rules c)" "rcr_path r = rule_base f" "\<not> ends_with ''/**'' (rule_base f)"
    and view: "rcr_view r = effective_config_label_for_path c (rule_base f)"
    using r by (auto simp: base_rules_def)
  note valid = validated_rules [OF assms(1) f(1)]
  have "ScopePath_parse (rule_base f) = Ok (ScopePath (rule_base f))"
    using validated_rules_canonical [OF assms(1)] f(1) by (simp add: rules_canonical_def)
  then have "Views_get (rc_views c) (rcr_view r) \<noteq> None"
    using label_of_rules_defined [OF assms(1) plain_base [OF valid(3)]] view by (simp add: effective_label)
  moreover have "validate_config_pattern (rcr_path r) = Ok ()"
    using valid(2) f(2,3) by (auto simp: validate_config_pattern_def pattern_base_path_def string_ops split: option.splits)
  moreover have "\<not> is_repo_control_pattern (rcr_path r)"
    using valid(3) f(2,3) by (simp add: control_pattern_base pattern_base_file)
  ultimately show ?thesis by (auto simp: validate_rule_def)
qed

lemma canonical_config_valid:
  assumes "RepoConfig_validate lower c = Ok ()"
  shows "RepoConfig_validate lower (canonicalize_visibility_rules c) = Ok ()"
proof -
  note canonical = canonicalize_labels(2,3) [OF validated_rules_canonical [OF assms]]
  obtain rules where rules: "canonicalize_visibility_rules c = with_rules rules c" using canonical(1) by blast
  have "validate_rule c r = Ok ()" if "r \<in> set rules" for r
    using canonical(2) rules that base_rules_valid [OF assms] validated_rules(1) [OF assms] by auto
  then show ?thesis using validate_with_rules [OF assms] rules by simp
qed

lemma next_view_defined:
  assumes "RepoConfig_validate lower c = Ok ()"
  shows "Views_get (rc_views c) (next_view c v) \<noteq> None"
proof -
  let ?ids = "map vd_id (view_defs (rc_views c))"
  have "Views_get (rc_views c) (config_default c) \<noteq> None"
    using assms by (auto simp: RepoConfig_validate_def and_then_Ok_iff split: if_split_asm)
  then have "?ids \<noteq> []" by (auto simp: Views_get_def)
  then have "?ids ! (k mod length ?ids) \<in> set ?ids" for k by (intro nth_mem) simp
  then have "next_view c v \<in> set ?ids" unfolding next_view_def Let_def by blast
  then show ?thesis by (auto simp: Views_get_def find_None_iff)
qed

text \<open>
  C37: Toggling a target of a valid configuration yields a valid configuration: every rule it adds has a canonical
  pattern outside the control area and a view that is defined.
\<close>

theorem toggle_keeps_config_valid:
  assumes valid: "RepoConfig_validate lower c = Ok ()"
    and target: "vt_reserved target \<or> vt_kind target = NodeRoot
      \<or> validate_config_path (vt_path target) = Ok (ScopePath (vt_path target))
        \<and> \<not> is_repo_control_path (ScopePath (vt_path target))"
  shows "RepoConfig_validate lower (fst (toggle_visibility_target c target)) = Ok ()"
proof (cases "vt_reserved target \<or> toggle_rules c target = None")
  case True
  then show ?thesis using valid by (auto simp: toggle_visibility_target_def split: option.split)
next
  case False
  then obtain changed where changed: "toggle_rules c target = Some changed" "\<not> vt_reserved target" by auto
  have "RepoConfig_validate lower changed = Ok ()"
  proof (cases "vt_kind target = NodeRoot")
    case True
    have "validate_rule (with_default v c) = validate_rule c" for v by (simp add: validate_rule_def with_default_def fun_eq_iff)
    then show ?thesis using True changed(1) valid next_view_defined [OF valid]
      by (auto simp: toggle_rules_def RepoConfig_validate_def and_then_Ok_iff split: if_split_asm)
        (simp_all add: with_default_def)
  next
    case False
    have added: "validate_rule c \<lparr>rcr_path = path, rcr_view = next_view c v\<rparr> = Ok ()"
      if "path = folder_rule_path (vt_path target) \<or> path = vt_path target \<and> \<not> ends_with ''/**'' (vt_path target)" for path v
      using that False target changed(2) next_view_defined [OF valid]
      by (auto simp: validate_rule_def validate_config_pattern_def folder_rule_path_def control_pattern_base pattern_base_file
          control_defs string_ops suffix_def)
    obtain kept path v where form: "changed = with_rules (kept @ [\<lparr>rcr_path = path, rcr_view = next_view c v\<rparr>]) c"
      "set kept \<subseteq> set (config_rules c)"
      "path = folder_rule_path (vt_path target) \<or> path = vt_path target \<and> \<not> ends_with ''/**'' (vt_path target)"
      using changed(1) False
      by (auto simp: toggle_rules_def Let_def upsert_visibility_rule_def remove_same_base_folder_rule_def
          replace_visibility_rules_in_subtree_def next_directory_visibility_def file_path_collides_with_pattern_syntax_def
          split: visibility_node_kind.split_asm if_split_asm review_label.split_asm)
    have "validate_rule c r = Ok ()" if "r \<in> set kept" for r
      using validated_rules(1) [OF valid subsetD [OF form(2) that]] .
    then show ?thesis using added [OF form(3)] unfolding form(1) by (intro validate_with_rules [OF valid]) auto
  qed
  then show ?thesis using changed canonical_config_valid by (simp add: toggle_visibility_target_def Let_def)
qed

section \<open>Witnesses\<close>

definition docs_config :: repo_config where
  "docs_config = with_rules [\<lparr>rcr_path = ''/docs/**'', rcr_view = ViewId_public\<rparr>,
     \<lparr>rcr_path = ''/docs/plan'', rcr_view = ViewId_private\<rparr>, \<lparr>rcr_path = ''/docs'', rcr_view = ViewId_private\<rparr>,
     \<lparr>rcr_path = ''/src/**'', rcr_view = ViewId_private\<rparr>] (RepoConfig_with_default_view ViewId_private)"

lemma docs_patterns:
  "validate_config_pattern ''/docs/**'' = Ok ()" "validate_config_pattern ''/docs/plan'' = Ok ()"
  "validate_config_pattern ''/docs'' = Ok ()" "validate_config_pattern ''/src/**'' = Ok ()"
  by (simp_all add: validate_config_pattern_def validate_config_path_def ScopePath_parse_def string_ops suffix_def
      trim_visible visible_ascii_def)

lemma docs_config_valid: "RepoConfig_validate (map to_ascii_lowercase) docs_config = Ok ()"
proof -
  have "RepoConfig_validate (map to_ascii_lowercase) (RepoConfig_with_default_view ViewId_private) = Ok ()"
    by (simp add: RepoConfig_validate_def RepoConfig_with_default_view_def builtin_views_valid)
      (simp add: Views_builtin_def Views_get_def view_id_defs)
  moreover have "Views_get Views_builtin ViewId_private \<noteq> None" "Views_get Views_builtin ViewId_public \<noteq> None"
    by (simp_all add: Views_builtin_def Views_get_def view_id_defs)
  moreover have "\<not> is_repo_control_pattern ''/docs/**''" "\<not> is_repo_control_pattern ''/docs/plan''"
    "\<not> is_repo_control_pattern ''/docs''" "\<not> is_repo_control_pattern ''/src/**''"
    by code_simp+
  ultimately show ?thesis unfolding docs_config_def
    by (intro validate_with_rules) (auto simp: validate_rule_def docs_patterns RepoConfig_with_default_view_def)
qed

lemma canonical_rules_keep_labels_witness:
  "label_for_path (canonicalize_visibility_rules docs_config) (ScopePath ''/docs'') = ViewId_private
   \<and> map rcr_path (config_rules (canonicalize_visibility_rules docs_config)) = [''/docs/**'', ''/docs'', ''/docs/plan'']"
proof
  have "label_for_path docs_config (ScopePath ''/docs'') = ViewId_private" by code_simp
  then show "label_for_path (canonicalize_visibility_rules docs_config) (ScopePath ''/docs'') = ViewId_private"
    using canonical_rules_keep_labels [OF docs_config_valid] by simp
  show "map rcr_path (config_rules (canonicalize_visibility_rules docs_config)) = [''/docs/**'', ''/docs'', ''/docs/plan'']"
    by code_simp
qed

definition docs_target :: visibility_target where
  "docs_target = \<lparr>vt_name = ''docs'', vt_path = ''/docs'', vt_kind = NodeDirectory, vt_reserved = False,
     vt_file_paths_under = [''/docs/index'']\<rparr>"


lemma toggle_keeps_config_valid_witness:
  "RepoConfig_validate (map to_ascii_lowercase) (fst (toggle_visibility_target docs_config docs_target)) = Ok ()"
proof (rule toggle_keeps_config_valid [OF docs_config_valid])
  have "validate_config_path ''/docs'' = Ok (ScopePath ''/docs'')"
    by (simp add: validate_config_path_def ScopePath_parse_def string_ops trim_visible visible_ascii_def)
  moreover have "\<not> is_repo_control_path (ScopePath ''/docs'')" by code_simp
  ultimately show "vt_reserved docs_target \<or> vt_kind docs_target = NodeRoot
      \<or> validate_config_path (vt_path docs_target) = Ok (ScopePath (vt_path docs_target))
        \<and> \<not> is_repo_control_path (ScopePath (vt_path docs_target))"
    by (simp add: docs_target_def)
qed

end
