(* ===== verification/Accounts.thy ===== *)
theory Accounts
  imports Repo_Collaboration
begin

text \<open>
  \<^verbatim>\<open>account/cli_auth.rs\<close>, \<^verbatim>\<open>account/deletion.rs\<close>, \<^verbatim>\<open>account/handles.rs\<close>: what decides a command line login, what
  deleting an account needs and leaves behind, and the handles nobody may take.
\<close>

section \<open>Starting a login\<close>

definition MAX_PENDING_DEVICE_LOGINS :: nat where "MAX_PENDING_DEVICE_LOGINS = 1024"
definition MAX_DEVICE_LOGIN_STARTS_PER_WINDOW :: nat where "MAX_DEVICE_LOGIN_STARTS_PER_WINDOW = 60"
definition DEVICE_LOGIN_START_WINDOW_SECS :: u64 where "DEVICE_LOGIN_START_WINDOW_SECS = 60"
definition MAX_PENDING_BROWSER_LOGINS :: nat where "MAX_PENDING_BROWSER_LOGINS = 1024"
definition MAX_BROWSER_LOGIN_STARTS_PER_WINDOW :: nat where "MAX_BROWSER_LOGIN_STARTS_PER_WINDOW = 60"
definition BROWSER_LOGIN_START_WINDOW_SECS :: u64 where "BROWSER_LOGIN_START_WINDOW_SECS = 60"

text \<open>The counts are numbers of database rows, which the code receives as 64-bit integers.\<close>

definition enforce_device_login_start_rate_limit :: "nat \<Rightarrow> nat \<Rightarrow> (domain_error, unit) result" where
  "enforce_device_login_start_rate_limit pending_count window_count =
     (if pending_count \<ge> MAX_PENDING_DEVICE_LOGINS then Err (rate_limited ''too many pending CLI device logins'')
      else if window_count \<ge> MAX_DEVICE_LOGIN_STARTS_PER_WINDOW then Err (rate_limited ''too many CLI device login starts'')
      else Ok ())"

definition enforce_browser_login_start_rate_limit :: "nat \<Rightarrow> nat \<Rightarrow> (domain_error, unit) result" where
  "enforce_browser_login_start_rate_limit pending_count window_count =
     (if pending_count \<ge> MAX_PENDING_BROWSER_LOGINS then Err (rate_limited ''too many pending CLI browser logins'')
      else if window_count \<ge> MAX_BROWSER_LOGIN_STARTS_PER_WINDOW then Err (rate_limited ''too many CLI browser login starts'')
      else Ok ())"

definition device_login_start_window_start :: "u64 \<Rightarrow> u64" where
  "device_login_start_window_start now = saturating_sub now DEVICE_LOGIN_START_WINDOW_SECS"

definition browser_login_start_window_start :: "u64 \<Rightarrow> u64" where
  "browser_login_start_window_start now = saturating_sub now BROWSER_LOGIN_START_WINDOW_SECS"

section \<open>Decisions on a login\<close>

record device_login_completion_state =
  dcs_expires_at_unix :: u64
  dcs_completed :: bool

datatype device_login_completion_decision = DeviceCompletionExpired | DeviceCompletionComplete

definition decide_device_login_completion ::
  "device_login_completion_state \<Rightarrow> u64 \<Rightarrow> (domain_error, device_login_completion_decision) result" where
  "decide_device_login_completion state now =
     (if now \<ge> dcs_expires_at_unix state then Ok DeviceCompletionExpired
      else if dcs_completed state then Err (conflict ''CLI login already completed'')
      else Ok DeviceCompletionComplete)"

record device_login_poll_state =
  dps_expires_at_unix :: u64
  dps_consumed :: bool
  dps_completed_user_id :: "string option"

datatype device_login_poll_decision = DevicePollExpired | DevicePollPending u64 | DevicePollComplete string

definition decide_device_login_poll ::
  "device_login_poll_state \<Rightarrow> u64 \<Rightarrow> (domain_error, device_login_poll_decision) result" where
  "decide_device_login_poll state now =
     (if now \<ge> dps_expires_at_unix state then Ok DevicePollExpired
      else if dps_consumed state then Err (conflict ''CLI device login already consumed'')
      else case dps_completed_user_id state of
        None \<Rightarrow> Ok (DevicePollPending (dps_expires_at_unix state))
      | Some user_id \<Rightarrow> Ok (DevicePollComplete user_id))"

record browser_login_completion_state =
  bcs_expires_at_unix :: u64
  bcs_consumed :: bool
  bcs_completed :: bool

datatype browser_login_completion_decision = BrowserCompletionExpired | BrowserCompletionComplete

definition decide_browser_login_completion ::
  "browser_login_completion_state \<Rightarrow> u64 \<Rightarrow> (domain_error, browser_login_completion_decision) result" where
  "decide_browser_login_completion state now =
     (if now \<ge> bcs_expires_at_unix state then Ok BrowserCompletionExpired
      else if bcs_consumed state then Err (conflict ''CLI browser login already consumed'')
      else if bcs_completed state then Err (conflict ''CLI browser login already completed'')
      else Ok BrowserCompletionComplete)"

record browser_login_exchange_state =
  bes_expires_at_unix :: u64
  bes_consumed :: bool
  bes_request_secret_hash :: string
  bes_callback_code_hash :: "string option"
  bes_completed_user_id :: "string option"

datatype browser_login_exchange_decision = BrowserExchangeExpired | BrowserExchangeComplete string

definition decide_browser_login_exchange ::
  "browser_login_exchange_state \<Rightarrow> u64 \<Rightarrow> string \<Rightarrow> string \<Rightarrow> (domain_error, browser_login_exchange_decision) result" where
  "decide_browser_login_exchange state now request_secret_hash callback_code_hash =
     (if now \<ge> bes_expires_at_unix state then Ok BrowserExchangeExpired
      else if bes_consumed state then Err (conflict ''CLI browser login already consumed'')
      else if bes_request_secret_hash state \<noteq> request_secret_hash then
        Err (authentication_failed ''invalid CLI browser login secret'')
      else if bes_callback_code_hash state \<noteq> Some callback_code_hash then
        Err (authentication_failed ''invalid CLI browser login code'')
      else case bes_completed_user_id state of
        None \<Rightarrow> Err (conflict ''CLI browser login is pending'')
      | Some user_id \<Rightarrow> Ok (BrowserExchangeComplete user_id))"

record cli_exchange_grant_state =
  egs_expires_at_unix :: u64
  egs_consumed :: bool
  egs_user_id :: string

datatype cli_exchange_grant_decision = GrantExpired | GrantComplete string

definition decide_cli_exchange_grant ::
  "cli_exchange_grant_state \<Rightarrow> u64 \<Rightarrow> (domain_error, cli_exchange_grant_decision) result" where
  "decide_cli_exchange_grant state now =
     (if now \<ge> egs_expires_at_unix state then Ok GrantExpired
      else if egs_consumed state then Err (conflict ''CLI exchange token already used'')
      else Ok (GrantComplete (egs_user_id state)))"

record cli_session_state =
  ss_expires_at_unix :: u64
  ss_revoked :: bool
  ss_user_id :: string

datatype cli_session_use_decision = SessionExpired | SessionActive string

definition decide_cli_session_use :: "cli_session_state \<Rightarrow> u64 \<Rightarrow> (domain_error, cli_session_use_decision) result" where
  "decide_cli_session_use state now =
     (if now \<ge> ss_expires_at_unix state then Ok SessionExpired
      else if ss_revoked state then Err (authentication_failed ''CLI session revoked'')
      else Ok (SessionActive (ss_user_id state)))"

datatype cli_session_revoke_decision = RevokeExpired | RevokeSession

definition decide_cli_session_revoke :: "u64 \<Rightarrow> u64 \<Rightarrow> cli_session_revoke_decision" where
  "decide_cli_session_revoke expires_at_unix now = (if now \<ge> expires_at_unix then RevokeExpired else RevokeSession)"

section \<open>Deleting an account\<close>

definition CLERK_PROVIDER :: string where "CLERK_PROVIDER = ''clerk''"
definition CLERK_USER_DELETION_MAX_RETRY_SECS :: u64 where "CLERK_USER_DELETION_MAX_RETRY_SECS = 6 * 60 * 60"

text \<open>Deletion is refused with the sorted ids of the owned repositories that have other members.\<close>

definition delete_account ::
  "user_account \<Rightarrow> repository list \<Rightarrow> (string \<times> string) list \<Rightarrow> (string list, string list) result" where
  "delete_account user owned identities =
     (let shared = map (\<lambda>repo. rr_id (rp_record repo))
        (filter (\<lambda>repo. list_ex (\<lambda>member. mem_user_id member \<noteq> ua_id user) (co_members (rp_collaboration repo))) owned)
      in if shared \<noteq> [] then Err (sort shared)
         else Ok (map snd (filter (\<lambda>(provider, _). provider = CLERK_PROVIDER) identities)))"

definition forget_deleted_account :: "collaboration_state \<Rightarrow> user_account \<Rightarrow> collaboration_state \<times> bool" where
  "forget_deleted_account repo user =
     (let email = normalize_repository_invite_email (ua_email user);
          members = filter (\<lambda>member. mem_user_id member \<noteq> ua_id user) (cs_members repo);
          invitations = filter (\<lambda>invite. ri_invited_email_normalized invite \<noteq> email
            \<and> ri_accepted_by_user_id invite \<noteq> Some (ua_id user)) (cs_invitations repo);
          changed = ((length (cs_members repo), length (cs_invitations repo)) \<noteq> (length members, length invitations));
          next_repo = with_invitations invitations (with_members members repo)
      in (if changed then cs_bump next_repo else next_repo, changed))"

definition saturating_mul :: "'a::len word \<Rightarrow> 'a word \<Rightarrow> 'a word" where
  "saturating_mul a b = (if unat a * unat b < 2 ^ LENGTH('a) then a * b else - 1)"

definition clerk_user_deletion_retry_at :: "u32 \<Rightarrow> u64 \<Rightarrow> u64" where
  "clerk_user_deletion_retry_at attempts now_unix =
     (let delay = min (saturating_mul 30 (2 ^ unat (min attempts 20))) CLERK_USER_DELETION_MAX_RETRY_SECS
      in saturating_add now_unix delay)"

section \<open>Handles\<close>

definition RESERVED_HANDLES :: "string list" where
  "RESERVED_HANDLES = [''account'', ''api'', ''cli-login'', ''docs'', ''invites'', ''licenses'', ''pricing'', ''repos'',
     ''settings'', ''sign-in'', ''sign-up'']"

definition is_reserved_handle :: "string \<Rightarrow> bool" where
  "is_reserved_handle handle = list_ex (\<lambda>reserved. eq_ignore_ascii_case handle reserved) RESERVED_HANDLES"

section \<open>What forgetting an account leaves\<close>

lemma saturating_mul_unat: "unat (saturating_mul a (b :: 'a::len word)) = min (unat a * unat b) (2 ^ LENGTH('a) - 1)"
  by (auto simp: saturating_mul_def unat_word_ariths unsigned_minus_1_eq_mask mask_eq_exp_minus_1)

lemma members_ok_filter: "members_ok o' v ms \<Longrightarrow> members_ok o' v (filter P ms)"
  by (auto simp: members_ok_def distinct_map inj_on_def)

lemma invites_ok_filter:
  assumes "invites_ok now is"
  shows "invites_ok now (filter P is)"
proof -
  have "length (filter (pending_for now email) (filter P is)) \<le> length (filter (pending_for now email) is)" for email
    by (induction "is") auto
  then show ?thesis using assms unfolding invites_ok_def by (meson order_trans)
qed

lemma forget_keeps:
  assumes "collab_ok now s"
  shows "collab_ok now (fst (forget_deleted_account s user))"
  using assms members_ok_filter invites_ok_filter by (auto simp: forget_deleted_account_def Let_def collab_ok_def)

text \<open>
  Forgetting a deleted account removes its membership and every invite sent to its address or accepted by it and
  nothing else, reports a change exactly when there was something to remove, keeps members and invites consistent, and
  does nothing the second time.
\<close>

theorem forgotten_account_leaves_no_trace:
  assumes "collab_ok now s"
  shows "collab_ok now (fst (forget_deleted_account s user))
    \<and> set (cs_members (fst (forget_deleted_account s user))) = {m \<in> set (cs_members s). mem_user_id m \<noteq> ua_id user}
    \<and> set (cs_invitations (fst (forget_deleted_account s user))) =
        {i \<in> set (cs_invitations s). ri_invited_email_normalized i \<noteq> normalize_repository_invite_email (ua_email user)
          \<and> ri_accepted_by_user_id i \<noteq> Some (ua_id user)}
    \<and> (snd (forget_deleted_account s user) \<longleftrightarrow>
        cs_collaboration (fst (forget_deleted_account s user)) \<noteq> cs_collaboration s)
    \<and> forget_deleted_account (fst (forget_deleted_account s user)) user = (fst (forget_deleted_account s user), False)"
proof (intro conjI)
  have len: "length (filter P xs) = length xs \<longleftrightarrow> filter P xs = xs" for P :: "'z \<Rightarrow> bool" and xs
    by (metis filter_True length_filter_less less_irrefl)
  have same: "s\<lparr>cs_collaboration := cs_collaboration s\<lparr>co_members := cs_members s, co_invitations := cs_invitations s\<rparr>\<rparr> = s"
    by simp
  show "snd (forget_deleted_account s user) \<longleftrightarrow>
      cs_collaboration (fst (forget_deleted_account s user)) \<noteq> cs_collaboration s"
    by (cases s; cases "cs_collaboration s") (auto simp: forget_deleted_account_def Let_def len [symmetric])
  show "forget_deleted_account (fst (forget_deleted_account s user)) user = (fst (forget_deleted_account s user), False)"
    by (auto simp: forget_deleted_account_def Let_def)
qed (use forget_keeps [OF assms] in \<open>auto simp: forget_deleted_account_def Let_def\<close>)

definition example_shared :: collaboration_state where
  "example_shared = with_invitations [example_invite] example_collab"

lemma forgotten_account_leaves_no_trace_witness:
  "cs_invitations (fst (forget_deleted_account example_shared example_guest)) = []
   \<and> snd (forget_deleted_account example_shared example_guest)"
proof -
  have "collab_ok 5 example_shared"
    by (auto simp: collab_ok_def members_ok_def invites_ok_def example_shared_def example_collab_def le_Suc_eq)
  note forgotten = forgotten_account_leaves_no_trace [OF this, of example_guest]
  have "ri_invited_email_normalized example_invite = normalize_repository_invite_email (ua_email example_guest)"
    by (simp add: example_invite_def example_email example_guest_def)
  then have "set (cs_invitations (fst (forget_deleted_account example_shared example_guest))) = {}"
    using forgotten by (auto simp: example_shared_def)
  then have "cs_invitations (fst (forget_deleted_account example_shared example_guest)) = []" by (rule set_empty [THEN iffD1])
  moreover from this have "cs_collaboration (fst (forget_deleted_account example_shared example_guest)) \<noteq> cs_collaboration example_shared"
    by (auto simp: example_shared_def)
  ultimately show ?thesis using forgotten by blast
qed

end
