(* ===== verification/Auth_Store.thy ===== *)
theory Auth_Store
  imports Accounts
begin

text \<open>
  \<^verbatim>\<open>crates/scope-postgres/src/db/auth.rs\<close>, \<^verbatim>\<open>db/cli_auth.rs\<close> and \<^verbatim>\<open>db/cli_sessions.rs\<close>: the tables of command line
  logins and sessions and every transaction on them. A transaction runs under a lock on the code it is about and is
  all or nothing, so each is a function from the tables to the tables or an error. Rows hold the 64-bit times whose
  conversion to the signed column type succeeded. The keys and the reference to the users table are those of the
  schema \<^verbatim>\<open>m0084_current_schema_baseline.sql\<close>; the text of a database error is the argument \<open>db\<close>.
\<close>

datatype postgres_error_kind =
  PgAttachmentUploadExpired | PgInvalidInput | PgConflict | PgRepositoryMoved | PgPermissionDenied | PgInternal
| PgNotFound | PgUnavailable | PgResourceExhausted | PgUnauthenticated

datatype postgres_error = PostgresError (pg_kind: postgres_error_kind) (pg_message: string)

definition postgres_kind :: "domain_error_kind \<Rightarrow> postgres_error_kind" where
  "postgres_kind kind =
     (case kind of InvalidInput \<Rightarrow> PgInvalidInput | Conflict \<Rightarrow> PgConflict | Forbidden \<Rightarrow> PgPermissionDenied
        | AuthenticationFailed \<Rightarrow> PgUnauthenticated | RateLimited \<Rightarrow> PgResourceExhausted | NotFound \<Rightarrow> PgNotFound
        | InvariantViolation \<Rightarrow> PgInternal)"

definition postgres_error_from :: "domain_error \<Rightarrow> postgres_error" where
  "postgres_error_from error = PostgresError (postgres_kind (err_kind error)) (err_message error)"

definition u64_to_i64 :: "u64 \<Rightarrow> string \<Rightarrow> (postgres_error, u64) result" where
  "u64_to_i64 value field =
     (if unat value < 2 ^ 63 then Ok value
      else Err (PostgresError PgInternal (field @ '' exceeds PostgreSQL bigint range'')))"

section \<open>Tables\<close>

record cli_device_login =
  dl_device_code_hash :: string
  dl_user_code_hash :: string
  dl_created_at_unix :: u64
  dl_expires_at_unix :: u64
  dl_completed_user_id :: "string option"
  dl_completed_at_unix :: "u64 option"
  dl_consumed_at_unix :: "u64 option"

record cli_browser_login =
  bl_request_id :: string
  bl_request_secret_hash :: string
  bl_callback_url :: string
  bl_callback_code_hash :: "string option"
  bl_created_at_unix :: u64
  bl_expires_at_unix :: u64
  bl_completed_user_id :: "string option"
  bl_completed_at_unix :: "u64 option"
  bl_consumed_at_unix :: "u64 option"

record cli_exchange_grant =
  eg_grant_hash :: string
  eg_user_id :: string
  eg_created_at_unix :: u64
  eg_expires_at_unix :: u64
  eg_consumed_at_unix :: "u64 option"

record cli_session =
  cs_id :: string
  cs_token_hash :: string
  cs_user_id :: string
  cs_label :: string
  cs_created_at_unix :: u64
  cs_last_used_at_unix :: "u64 option"
  cs_expires_at_unix :: u64
  cs_revoked_at_unix :: "u64 option"

record auth_store =
  as_device_logins :: "cli_device_login list"
  as_browser_logins :: "cli_browser_login list"
  as_exchange_grants :: "cli_exchange_grant list"
  as_sessions :: "cli_session list"
  as_users :: "user_account list"

definition cleanup_expired_cli_rows :: "auth_store \<Rightarrow> u64 \<Rightarrow> (postgres_error, auth_store) result" where
  "cleanup_expired_cli_rows s now_unix =
     and_then (u64_to_i64 now_unix ''current time'') (\<lambda>now. Ok (s\<lparr>
       as_device_logins := filter (\<lambda>row. \<not> dl_expires_at_unix row \<le> now) (as_device_logins s),
       as_browser_logins := filter (\<lambda>row. \<not> bl_expires_at_unix row \<le> now) (as_browser_logins s),
       as_exchange_grants := filter (\<lambda>row. \<not> eg_expires_at_unix row \<le> now) (as_exchange_grants s),
       as_sessions := filter (\<lambda>row. \<not> cs_expires_at_unix row \<le> now) (as_sessions s)\<rparr>))"

definition load_user_by_id :: "auth_store \<Rightarrow> string \<Rightarrow> (postgres_error, user_account) result" where
  "load_user_by_id s user_id =
     (case find (\<lambda>user. ua_id user = user_id) (as_users s) of
        Some user \<Rightarrow> Ok user
      | None \<Rightarrow> Err (PostgresError PgInternal ''signed-in user was not persisted''))"

definition user_exists :: "auth_store \<Rightarrow> string \<Rightarrow> bool" where
  "user_exists s user_id \<longleftrightarrow> list_ex (\<lambda>user. ua_id user = user_id) (as_users s)"

section \<open>Sessions\<close>

record new_cli_session =
  ns_id :: string
  ns_token_hash :: string
  ns_label :: string
  ns_created_at_unix :: u64
  ns_expires_at_unix :: u64

record session_identity =
  si_user_id :: string
  si_email :: "string option"
  si_email_verified :: bool

definition SessionIdentity_from :: "user_account \<Rightarrow> session_identity" where
  "SessionIdentity_from user = \<lparr>si_user_id = ua_id user,
     si_email = (if ua_email user = [] then None else Some (ua_email user)), si_email_verified = ua_email_verified user\<rparr>"

definition insert_cli_session_in_tx ::
  "string \<Rightarrow> auth_store \<Rightarrow> string \<Rightarrow> new_cli_session \<Rightarrow> (postgres_error, auth_store \<times> session_identity) result" where
  "insert_cli_session_in_tx db s user_id session =
     and_then (u64_to_i64 (ns_created_at_unix session) ''CLI session creation time'') (\<lambda>created.
     and_then (u64_to_i64 (ns_expires_at_unix session) ''CLI session expiry'') (\<lambda>expires.
       if list_ex (\<lambda>row. cs_id row = ns_id session \<or> cs_token_hash row = ns_token_hash session) (as_sessions s)
          \<or> \<not> user_exists s user_id
       then Err (PostgresError PgInternal db)
       else let s' = s\<lparr>as_sessions := as_sessions s @ [\<lparr>cs_id = ns_id session, cs_token_hash = ns_token_hash session,
                  cs_user_id = user_id, cs_label = ns_label session, cs_created_at_unix = created,
                  cs_last_used_at_unix = None, cs_expires_at_unix = expires, cs_revoked_at_unix = None\<rparr>]\<rparr>
         in and_then (load_user_by_id s' user_id) (\<lambda>user. Ok (s', SessionIdentity_from user))))"

definition CLI_SESSION_ACTIVITY_INTERVAL_SECONDS :: u64 where "CLI_SESSION_ACTIVITY_INTERVAL_SECONDS = 60"

definition cli_session_use_is_stale :: "u64 option \<Rightarrow> u64 \<Rightarrow> (postgres_error, bool) result" where
  "cli_session_use_is_stale last_used_at_unix now_unix =
     and_then (u64_to_i64 (saturating_sub now_unix CLI_SESSION_ACTIVITY_INTERVAL_SECONDS) ''CLI session activity threshold'')
       (\<lambda>threshold. Ok (case last_used_at_unix of None \<Rightarrow> True | Some last_used \<Rightarrow> last_used \<le> threshold))"

definition record_cli_session_use :: "auth_store \<Rightarrow> string \<Rightarrow> u64 \<Rightarrow> (postgres_error, auth_store) result" where
  "record_cli_session_use s session_id now_unix =
     and_then (u64_to_i64 now_unix ''CLI session activity time'') (\<lambda>now.
     and_then (u64_to_i64 (saturating_sub now_unix CLI_SESSION_ACTIVITY_INTERVAL_SECONDS) ''CLI session activity threshold'')
       (\<lambda>threshold. Ok (s\<lparr>as_sessions := map (\<lambda>row.
          if cs_id row = session_id \<and> cs_revoked_at_unix row = None \<and> cs_expires_at_unix row > now
             \<and> (case cs_last_used_at_unix row of None \<Rightarrow> True | Some last_used \<Rightarrow> last_used \<le> threshold)
          then row\<lparr>cs_last_used_at_unix := Some now\<rparr> else row) (as_sessions s)\<rparr>)))"

definition verify_cli_session_by_hash ::
  "auth_store \<Rightarrow> string \<Rightarrow> u64 \<Rightarrow> (postgres_error, auth_store \<times> user_account) result" where
  "verify_cli_session_by_hash s token_hash now_unix =
     (case find (\<lambda>row. cs_token_hash row = token_hash) (as_sessions s) of
        None \<Rightarrow> Err (PostgresError PgUnauthenticated ''invalid CLI token'')
      | Some session \<Rightarrow>
          and_then (map_err postgres_error_from (decide_cli_session_use
              \<lparr>ss_expires_at_unix = cs_expires_at_unix session, ss_revoked = (cs_revoked_at_unix session \<noteq> None),
               ss_user_id = cs_user_id session\<rparr> now_unix)) (\<lambda>decision.
          case decision of
            SessionExpired \<Rightarrow> Err (PostgresError PgUnauthenticated ''CLI token expired'')
          | SessionActive user_id \<Rightarrow>
              and_then (load_user_by_id s user_id) (\<lambda>user.
              and_then (cli_session_use_is_stale (cs_last_used_at_unix session) now_unix) (\<lambda>stale.
                if stale then and_then (record_cli_session_use s (cs_id session) now_unix) (\<lambda>s'. Ok (s', user))
                else Ok (s, user)))))"

definition revoke_cli_session_by_hash :: "auth_store \<Rightarrow> string \<Rightarrow> u64 \<Rightarrow> (postgres_error, auth_store) result" where
  "revoke_cli_session_by_hash s token_hash now_unix =
     (case find (\<lambda>row. cs_token_hash row = token_hash) (as_sessions s) of
        None \<Rightarrow> Err (PostgresError PgUnauthenticated ''invalid CLI token'')
      | Some session \<Rightarrow>
          (case decide_cli_session_revoke (cs_expires_at_unix session) now_unix of
             RevokeExpired \<Rightarrow> Err (PostgresError PgUnauthenticated ''CLI token expired'')
           | RevokeSession \<Rightarrow>
               and_then (u64_to_i64 now_unix ''current time'') (\<lambda>now. Ok (s\<lparr>as_sessions :=
                 map (\<lambda>row. if cs_id row = cs_id session then row\<lparr>cs_revoked_at_unix := Some now\<rparr> else row)
                   (as_sessions s)\<rparr>))))"

definition revoke_cli_session_for_user ::
  "auth_store \<Rightarrow> user_account \<Rightarrow> string \<Rightarrow> u64 \<Rightarrow> auth_store \<times> (postgres_error, unit) result" where
  "revoke_cli_session_for_user s user session_id now_unix =
     (case cleanup_expired_cli_rows s now_unix of
        Err e \<Rightarrow> (s, Err e)
      | Ok cleaned \<Rightarrow>
          let hit = (\<lambda>row. cs_id row = session_id \<and> cs_user_id row = ua_id user \<and> cs_revoked_at_unix row = None)
          in (cleaned\<lparr>as_sessions := map (\<lambda>row. if hit row then row\<lparr>cs_revoked_at_unix := Some now_unix\<rparr> else row)
                 (as_sessions cleaned)\<rparr>,
              if list_ex hit (as_sessions cleaned) then Ok ()
              else Err (PostgresError PgNotFound ''CLI session not found'')))"

section \<open>Device logins\<close>

record start_device_login_command =
  sd_device_code_hash :: string
  sd_user_code_hash :: string
  sd_created_at_unix :: u64
  sd_expires_at_unix :: u64

text \<open>All rows count as pending, whether completed or not; the window counts those created since it opened.\<close>

definition enforce_device_login_start_limits :: "auth_store \<Rightarrow> u64 \<Rightarrow> (postgres_error, unit) result" where
  "enforce_device_login_start_limits s now_unix =
     and_then (u64_to_i64 (device_login_start_window_start now_unix) ''login rate-limit window start'') (\<lambda>start.
       map_err postgres_error_from (enforce_device_login_start_rate_limit (length (as_device_logins s))
         (length (filter (\<lambda>row. dl_created_at_unix row \<ge> start) (as_device_logins s)))))"

definition start_cli_device_login ::
  "string \<Rightarrow> auth_store \<Rightarrow> start_device_login_command \<Rightarrow> u64 \<Rightarrow> (postgres_error, auth_store) result" where
  "start_cli_device_login db s command now_unix =
     and_then (cleanup_expired_cli_rows s now_unix) (\<lambda>s.
     and_then (enforce_device_login_start_limits s now_unix) (\<lambda>_.
     and_then (u64_to_i64 (sd_created_at_unix command) ''CLI login creation time'') (\<lambda>created.
     and_then (u64_to_i64 (sd_expires_at_unix command) ''CLI login expiry'') (\<lambda>expires.
       if list_ex (\<lambda>row. dl_device_code_hash row = sd_device_code_hash command
            \<or> dl_user_code_hash row = sd_user_code_hash command) (as_device_logins s)
       then Err (PostgresError PgInternal db)
       else Ok (s\<lparr>as_device_logins := as_device_logins s @ [\<lparr>dl_device_code_hash = sd_device_code_hash command,
              dl_user_code_hash = sd_user_code_hash command, dl_created_at_unix = created, dl_expires_at_unix = expires,
              dl_completed_user_id = None, dl_completed_at_unix = None, dl_consumed_at_unix = None\<rparr>]\<rparr>)))))"

definition complete_cli_device_login_by_user_code_hash ::
  "string \<Rightarrow> auth_store \<Rightarrow> string \<Rightarrow> user_account \<Rightarrow> u64 \<Rightarrow> (postgres_error, auth_store) result" where
  "complete_cli_device_login_by_user_code_hash db s user_code_hash user now_unix =
     (case find (\<lambda>row. dl_user_code_hash row = user_code_hash) (as_device_logins s) of
        None \<Rightarrow> Err (PostgresError PgNotFound ''CLI login code not found'')
      | Some login \<Rightarrow>
          and_then (map_err postgres_error_from (decide_device_login_completion
              \<lparr>dcs_expires_at_unix = dl_expires_at_unix login, dcs_completed = (dl_completed_user_id login \<noteq> None)\<rparr> now_unix))
            (\<lambda>decision. case decision of
               DeviceCompletionExpired \<Rightarrow> Err (PostgresError PgConflict ''CLI login code expired'')
             | DeviceCompletionComplete \<Rightarrow>
                 and_then (cleanup_expired_cli_rows s now_unix) (\<lambda>s.
                   if \<not> user_exists s (ua_id user) then Err (PostgresError PgInternal db)
                   else Ok (s\<lparr>as_device_logins := map (\<lambda>row.
                     if dl_device_code_hash row = dl_device_code_hash login
                     then row\<lparr>dl_completed_user_id := Some (ua_id user), dl_completed_at_unix := Some now_unix\<rparr> else row)
                     (as_device_logins s)\<rparr>))))"

datatype device_login_poll = PollPending u64 | PollComplete session_identity

definition poll_cli_device_login_by_hash ::
  "string \<Rightarrow> auth_store \<Rightarrow> string \<Rightarrow> new_cli_session \<Rightarrow> u64 \<Rightarrow> (postgres_error, auth_store \<times> device_login_poll) result" where
  "poll_cli_device_login_by_hash db s device_code_hash session now_unix =
     (case find (\<lambda>row. dl_device_code_hash row = device_code_hash) (as_device_logins s) of
        None \<Rightarrow> Err (PostgresError PgNotFound ''CLI device login not found'')
      | Some login \<Rightarrow>
          and_then (map_err postgres_error_from (decide_device_login_poll
              \<lparr>dps_expires_at_unix = dl_expires_at_unix login, dps_consumed = (dl_consumed_at_unix login \<noteq> None),
               dps_completed_user_id = dl_completed_user_id login\<rparr> now_unix))
            (\<lambda>decision. case decision of
               DevicePollExpired \<Rightarrow> Err (PostgresError PgConflict ''CLI device login expired'')
             | DevicePollPending expires \<Rightarrow> Ok (s, PollPending expires)
             | DevicePollComplete user_id \<Rightarrow>
                 and_then (cleanup_expired_cli_rows s now_unix) (\<lambda>s.
                 and_then (insert_cli_session_in_tx db s user_id session) (\<lambda>(s, identity).
                   Ok (s\<lparr>as_device_logins := map (\<lambda>row.
                     if dl_device_code_hash row = dl_device_code_hash login
                     then row\<lparr>dl_consumed_at_unix := Some now_unix\<rparr> else row) (as_device_logins s)\<rparr>,
                     PollComplete identity)))))"

section \<open>Browser logins\<close>

record start_browser_login_command =
  sb_request_id :: string
  sb_request_secret_hash :: string
  sb_callback_url :: string
  sb_created_at_unix :: u64
  sb_expires_at_unix :: u64

definition enforce_browser_login_start_limits :: "auth_store \<Rightarrow> u64 \<Rightarrow> (postgres_error, unit) result" where
  "enforce_browser_login_start_limits s now_unix =
     and_then (u64_to_i64 (browser_login_start_window_start now_unix) ''login rate-limit window start'') (\<lambda>start.
       map_err postgres_error_from (enforce_browser_login_start_rate_limit (length (as_browser_logins s))
         (length (filter (\<lambda>row. bl_created_at_unix row \<ge> start) (as_browser_logins s)))))"

definition start_cli_browser_login ::
  "string \<Rightarrow> auth_store \<Rightarrow> start_browser_login_command \<Rightarrow> u64 \<Rightarrow> (postgres_error, auth_store) result" where
  "start_cli_browser_login db s command now_unix =
     and_then (u64_to_i64 (sb_created_at_unix command) ''CLI login creation time'') (\<lambda>created.
     and_then (u64_to_i64 (sb_expires_at_unix command) ''CLI login expiry'') (\<lambda>expires.
     and_then (cleanup_expired_cli_rows s now_unix) (\<lambda>s.
     and_then (enforce_browser_login_start_limits s now_unix) (\<lambda>_.
       if list_ex (\<lambda>row. bl_request_id row = sb_request_id command) (as_browser_logins s)
       then Err (PostgresError PgInternal db)
       else Ok (s\<lparr>as_browser_logins := as_browser_logins s @ [\<lparr>bl_request_id = sb_request_id command,
              bl_request_secret_hash = sb_request_secret_hash command, bl_callback_url = sb_callback_url command,
              bl_callback_code_hash = None, bl_created_at_unix = created, bl_expires_at_unix = expires,
              bl_completed_user_id = None, bl_completed_at_unix = None, bl_consumed_at_unix = None\<rparr>]\<rparr>)))))"

record browser_login_completion =
  bc_request_id :: string
  bc_callback_url :: string

definition complete_cli_browser_login ::
  "string \<Rightarrow> auth_store \<Rightarrow> string \<Rightarrow> string \<Rightarrow> user_account \<Rightarrow> u64
   \<Rightarrow> (postgres_error, auth_store \<times> browser_login_completion) result" where
  "complete_cli_browser_login db s request_id callback_code_hash user now_unix =
     (case find (\<lambda>row. bl_request_id row = request_id) (as_browser_logins s) of
        None \<Rightarrow> Err (PostgresError PgNotFound ''CLI browser login not found'')
      | Some login \<Rightarrow>
          and_then (map_err postgres_error_from (decide_browser_login_completion
              \<lparr>bcs_expires_at_unix = bl_expires_at_unix login, bcs_consumed = (bl_consumed_at_unix login \<noteq> None),
               bcs_completed = (bl_completed_user_id login \<noteq> None \<or> bl_callback_code_hash login \<noteq> None)\<rparr> now_unix))
            (\<lambda>decision. case decision of
               BrowserCompletionExpired \<Rightarrow> Err (PostgresError PgConflict ''CLI browser login expired'')
             | BrowserCompletionComplete \<Rightarrow>
                 and_then (u64_to_i64 now_unix ''current time'') (\<lambda>now.
                   if \<not> user_exists s (ua_id user) then Err (PostgresError PgInternal db)
                   else Ok (s\<lparr>as_browser_logins := map (\<lambda>row. if bl_request_id row = request_id
                     then row\<lparr>bl_callback_code_hash := Some callback_code_hash, bl_completed_user_id := Some (ua_id user),
                       bl_completed_at_unix := Some now\<rparr> else row) (as_browser_logins s)\<rparr>,
                     \<lparr>bc_request_id = request_id, bc_callback_url = bl_callback_url login\<rparr>))))"

definition exchange_cli_browser_login ::
  "string \<Rightarrow> auth_store \<Rightarrow> string \<Rightarrow> string \<Rightarrow> string \<Rightarrow> new_cli_session \<Rightarrow> u64
   \<Rightarrow> (postgres_error, auth_store \<times> session_identity) result" where
  "exchange_cli_browser_login db s request_id request_secret_hash callback_code_hash session now_unix =
     (case find (\<lambda>row. bl_request_id row = request_id) (as_browser_logins s) of
        None \<Rightarrow> Err (PostgresError PgNotFound ''CLI browser login not found'')
      | Some login \<Rightarrow>
          and_then (map_err postgres_error_from (decide_browser_login_exchange
              \<lparr>bes_expires_at_unix = bl_expires_at_unix login, bes_consumed = (bl_consumed_at_unix login \<noteq> None),
               bes_request_secret_hash = bl_request_secret_hash login, bes_callback_code_hash = bl_callback_code_hash login,
               bes_completed_user_id = bl_completed_user_id login\<rparr> now_unix request_secret_hash callback_code_hash))
            (\<lambda>decision. case decision of
               BrowserExchangeExpired \<Rightarrow> Err (PostgresError PgConflict ''CLI browser login expired'')
             | BrowserExchangeComplete user_id \<Rightarrow>
                 and_then (u64_to_i64 now_unix ''current time'') (\<lambda>now.
                   insert_cli_session_in_tx db (s\<lparr>as_browser_logins := map (\<lambda>row. if bl_request_id row = request_id
                     then row\<lparr>bl_consumed_at_unix := Some now\<rparr> else row) (as_browser_logins s)\<rparr>) user_id session)))"

section \<open>Exchange grants\<close>

record create_cli_exchange_grant_command =
  cg_grant_hash :: string
  cg_created_at_unix :: u64
  cg_expires_at_unix :: u64

definition create_cli_exchange_grant ::
  "string \<Rightarrow> auth_store \<Rightarrow> create_cli_exchange_grant_command \<Rightarrow> user_account \<Rightarrow> u64 \<Rightarrow> (postgres_error, auth_store) result" where
  "create_cli_exchange_grant db s command user now_unix =
     and_then (u64_to_i64 (cg_created_at_unix command) ''CLI login creation time'') (\<lambda>created.
     and_then (u64_to_i64 (cg_expires_at_unix command) ''CLI login expiry'') (\<lambda>expires.
     and_then (cleanup_expired_cli_rows s now_unix) (\<lambda>s.
       if list_ex (\<lambda>row. eg_grant_hash row = cg_grant_hash command) (as_exchange_grants s) \<or> \<not> user_exists s (ua_id user)
       then Err (PostgresError PgInternal db)
       else Ok (s\<lparr>as_exchange_grants := as_exchange_grants s @ [\<lparr>eg_grant_hash = cg_grant_hash command,
              eg_user_id = ua_id user, eg_created_at_unix = created, eg_expires_at_unix = expires,
              eg_consumed_at_unix = None\<rparr>]\<rparr>))))"

definition exchange_cli_grant_by_hash ::
  "string \<Rightarrow> auth_store \<Rightarrow> string \<Rightarrow> new_cli_session \<Rightarrow> u64 \<Rightarrow> (postgres_error, auth_store \<times> session_identity) result" where
  "exchange_cli_grant_by_hash db s grant_hash session now_unix =
     (case find (\<lambda>row. eg_grant_hash row = grant_hash) (as_exchange_grants s) of
        None \<Rightarrow> Err (PostgresError PgUnauthenticated ''invalid CLI exchange token'')
      | Some grant \<Rightarrow>
          and_then (map_err postgres_error_from (decide_cli_exchange_grant
              \<lparr>egs_expires_at_unix = eg_expires_at_unix grant, egs_consumed = (eg_consumed_at_unix grant \<noteq> None),
               egs_user_id = eg_user_id grant\<rparr> now_unix))
            (\<lambda>decision. case decision of
               GrantExpired \<Rightarrow> Err (PostgresError PgConflict ''CLI exchange token expired'')
             | GrantComplete user_id \<Rightarrow>
                 and_then (u64_to_i64 now_unix ''current time'') (\<lambda>now.
                   insert_cli_session_in_tx db (s\<lparr>as_exchange_grants := map (\<lambda>row.
                     if eg_grant_hash row = eg_grant_hash grant then row\<lparr>eg_consumed_at_unix := Some now\<rparr> else row)
                     (as_exchange_grants s)\<rparr>) user_id session)))"

end
