(* ===== verification/Auth_Machine.thy ===== *)
theory Auth_Machine
  imports Auth_Store
begin

text \<open>
  Histories of command line logins. Each login, of any of the three kinds, is abstracted to one of four states; the
  lemmas show that every transaction of \<open>Auth_Store\<close> moves the login it is about by one step of this protocol and leaves
  the others where they are.
\<close>

section \<open>The protocol of a login\<close>

datatype login_source = DeviceLogin string | BrowserLogin string | ExchangeGrant string

datatype login_state = NoLogin | Waiting | Approved string | Spent

datatype auth_event =
  EvStarted login_source
| EvCompleted login_source string
| EvGranted login_source string
| EvOpened login_source string string
| EvSessionRevoked string
| EvUserDeleted string
| EvQuiet

text \<open>A started or granted login whose expiry has already passed is no login.\<close>

fun login_move :: "auth_event \<Rightarrow> (login_source \<Rightarrow> login_state) \<Rightarrow> (login_source \<Rightarrow> login_state) \<Rightarrow> bool" where
  "login_move (EvStarted src) f g \<longleftrightarrow> f src = NoLogin \<and> (g = f(src := Waiting) \<or> g = f)"
| "login_move (EvCompleted src user) f g \<longleftrightarrow> f src = Waiting \<and> g = f(src := Approved user)"
| "login_move (EvGranted src user) f g \<longleftrightarrow> f src = NoLogin \<and> (g = f(src := Approved user) \<or> g = f)"
| "login_move (EvOpened src user session) f g \<longleftrightarrow> f src = Approved user \<and> g = f(src := Spent)"
| "login_move (EvUserDeleted user) f g \<longleftrightarrow> (\<forall>src. g src = f src \<or> g src = NoLogin)"
| "login_move (EvSessionRevoked session) f g \<longleftrightarrow> g = f"
| "login_move EvQuiet f g \<longleftrightarrow> g = f"

section \<open>The state of a login in a table\<close>

definition row_state ::
  "('r \<Rightarrow> string) \<Rightarrow> ('r \<Rightarrow> u64) \<Rightarrow> ('r \<Rightarrow> login_state) \<Rightarrow> u64 \<Rightarrow> 'r list \<Rightarrow> string \<Rightarrow> login_state" where
  "row_state key expiry stage now rows k =
     (case find (\<lambda>r. key r = k) rows of
        None \<Rightarrow> NoLogin
      | Some r \<Rightarrow> if expiry r \<le> now then NoLogin else stage r)"

lemma find_distinct:
  "distinct (map key rows) \<Longrightarrow> find (\<lambda>r. key r = k) rows = Some r \<longleftrightarrow> r \<in> set rows \<and> key r = k"
  by (induction rows) (auto simp: rev_image_eqI)

lemma row_state_member:
  assumes "distinct (map key rows)" "r \<in> set rows"
  shows "row_state key expiry stage now rows (key r) = (if expiry r \<le> now then NoLogin else stage r)"
  using find_distinct [OF assms(1), of "key r" r] assms(2) by (simp add: row_state_def)

lemma row_state_absent: "k \<notin> key ` set rows \<Longrightarrow> row_state key expiry stage now rows k = NoLogin"
  by (auto simp: row_state_def find_None_iff split: option.split dest!: find_SomeD)

lemma row_state_filter:
  assumes "distinct (map key rows)"
  shows "row_state key expiry stage now (filter P rows) k =
    (if \<exists>r \<in> set rows. key r = k \<and> P r then row_state key expiry stage now rows k else NoLogin)"
proof (cases "\<exists>r \<in> set rows. key r = k \<and> P r")
  case True
  then obtain r where r: "r \<in> set rows" "key r = k" "P r" by blast
  moreover have "distinct (map key (filter P rows))" using assms by (simp add: distinct_map_filter)
  ultimately show ?thesis using row_state_member [OF assms r(1)] row_state_member [of key "filter P rows" r] by auto
next
  case False
  then show ?thesis by (subst row_state_absent) auto
qed

lemma row_state_cleanup:
  assumes "distinct (map key rows)"
  shows "row_state key expiry stage now (filter (\<lambda>r. \<not> expiry r \<le> now) rows) = row_state key expiry stage now rows"
proof
  fix k
  show "row_state key expiry stage now (filter (\<lambda>r. \<not> expiry r \<le> now) rows) k = row_state key expiry stage now rows k"
    using row_state_member [OF assms] row_state_absent [of k key rows] by (subst row_state_filter [OF assms]) fastforce
qed

lemma row_state_append:
  assumes "key r \<notin> key ` set rows"
  shows "row_state key expiry stage now (rows @ [r]) =
    (row_state key expiry stage now rows)(key r := if expiry r \<le> now then NoLogin else stage r)"
proof -
  have "find (\<lambda>x. key x = k) (rows @ [r]) =
      (if k = key r then Some r else find (\<lambda>x. key x = k) rows)" for k
    using assms by (induction rows) auto
  then show ?thesis by (auto simp: row_state_def fun_eq_iff)
qed

lemma row_state_update:
  assumes rows: "distinct (map key rows)" "r \<in> set rows" and f: "\<And>x. key (f x) = key x" "\<And>x. expiry (f x) = expiry x"
  shows "row_state key expiry stage now (map (\<lambda>x. if key x = key r then f x else x) rows) =
    (row_state key expiry stage now rows)(key r := if expiry r \<le> now then NoLogin else stage (f r))"
proof
  fix k
  let ?rows = "map (\<lambda>x. if key x = key r then f x else x) rows"
  have keys: "map key ?rows = map key rows" using f(1) by auto
  show "row_state key expiry stage now ?rows k =
      ((row_state key expiry stage now rows)(key r := if expiry r \<le> now then NoLogin else stage (f r))) k"
  proof (cases "k = key r")
    case True
    have "f r \<in> set ?rows" using rows(2) by auto
    then have "row_state key expiry stage now ?rows (key (f r)) = (if expiry (f r) \<le> now then NoLogin else stage (f r))"
      using row_state_member [of key ?rows "f r"] rows(1) unfolding keys by blast
    then show ?thesis using True f by simp
  next
    case False
    have "find (\<lambda>x. key x = k) ?rows = find (\<lambda>x. key x = k) rows" using False f(1) by (induction rows) auto
    then show ?thesis using False by (simp add: row_state_def)
  qed
qed

lemma row_state_later:
  assumes "now \<le> later"
  shows "row_state key expiry stage later rows k = row_state key expiry stage now rows k
    \<or> row_state key expiry stage later rows k = NoLogin"
  using assms by (auto simp: row_state_def split: option.split)

definition device_stage :: "cli_device_login \<Rightarrow> login_state" where
  "device_stage row = (if dl_consumed_at_unix row \<noteq> None then Spent
     else case dl_completed_user_id row of Some user \<Rightarrow> Approved user | None \<Rightarrow> Waiting)"

definition browser_stage :: "cli_browser_login \<Rightarrow> login_state" where
  "browser_stage row = (if bl_consumed_at_unix row \<noteq> None then Spent
     else case bl_completed_user_id row of Some user \<Rightarrow> Approved user | None \<Rightarrow> Waiting)"

definition grant_stage :: "cli_exchange_grant \<Rightarrow> login_state" where
  "grant_stage row = (if eg_consumed_at_unix row \<noteq> None then Spent else Approved (eg_user_id row))"

fun login_state_of :: "u64 \<Rightarrow> auth_store \<Rightarrow> login_source \<Rightarrow> login_state" where
  "login_state_of now s (DeviceLogin code) =
     row_state dl_device_code_hash dl_expires_at_unix device_stage now (as_device_logins s) code"
| "login_state_of now s (BrowserLogin request) =
     row_state bl_request_id bl_expires_at_unix browser_stage now (as_browser_logins s) request"
| "login_state_of now s (ExchangeGrant grant) =
     row_state eg_grant_hash eg_expires_at_unix grant_stage now (as_exchange_grants s) grant"

section \<open>Histories\<close>

text \<open>One transaction at a given time. Deleting an account cascades to the rows that refer to it.\<close>

definition cascade_user_deletion :: "auth_store \<Rightarrow> string \<Rightarrow> auth_store" where
  "cascade_user_deletion s user = s\<lparr>
     as_device_logins := filter (\<lambda>row. dl_completed_user_id row \<noteq> Some user) (as_device_logins s),
     as_browser_logins := filter (\<lambda>row. bl_completed_user_id row \<noteq> Some user) (as_browser_logins s),
     as_exchange_grants := filter (\<lambda>row. eg_user_id row \<noteq> user) (as_exchange_grants s),
     as_sessions := filter (\<lambda>row. cs_user_id row \<noteq> user) (as_sessions s),
     as_users := filter (\<lambda>row. ua_id row \<noteq> user) (as_users s)\<rparr>"

inductive auth_step :: "u64 \<Rightarrow> auth_store \<Rightarrow> auth_event \<Rightarrow> auth_store \<Rightarrow> bool" for now where
  start_device: "start_cli_device_login db s command now = Ok s' \<Longrightarrow>
    auth_step now s (EvStarted (DeviceLogin (sd_device_code_hash command))) s'"
| complete_device: "complete_cli_device_login_by_user_code_hash db s code user now = Ok s' \<Longrightarrow>
    find (\<lambda>row. dl_user_code_hash row = code) (as_device_logins s) = Some login \<Longrightarrow>
    auth_step now s (EvCompleted (DeviceLogin (dl_device_code_hash login)) (ua_id user)) s'"
| poll_pending: "poll_cli_device_login_by_hash db s code session now = Ok (s', PollPending expires) \<Longrightarrow>
    auth_step now s EvQuiet s'"
| poll_complete: "poll_cli_device_login_by_hash db s code session now = Ok (s', PollComplete identity) \<Longrightarrow>
    auth_step now s (EvOpened (DeviceLogin code) (si_user_id identity) (ns_id session)) s'"
| start_browser: "start_cli_browser_login db s browser now = Ok s' \<Longrightarrow>
    auth_step now s (EvStarted (BrowserLogin (sb_request_id browser))) s'"
| complete_browser: "complete_cli_browser_login db s request code user now = Ok (s', completion) \<Longrightarrow>
    auth_step now s (EvCompleted (BrowserLogin request) (ua_id user)) s'"
| exchange_browser: "exchange_cli_browser_login db s request secret code session now = Ok (s', identity) \<Longrightarrow>
    auth_step now s (EvOpened (BrowserLogin request) (si_user_id identity) (ns_id session)) s'"
| create_grant: "create_cli_exchange_grant db s grant user now = Ok s' \<Longrightarrow>
    auth_step now s (EvGranted (ExchangeGrant (cg_grant_hash grant)) (ua_id user)) s'"
| exchange_grant: "exchange_cli_grant_by_hash db s hash session now = Ok (s', identity) \<Longrightarrow>
    auth_step now s (EvOpened (ExchangeGrant hash) (si_user_id identity) (ns_id session)) s'"
| verify: "verify_cli_session_by_hash s token now = Ok (s', user) \<Longrightarrow> auth_step now s EvQuiet s'"
| revoke: "revoke_cli_session_by_hash s token now = Ok s' \<Longrightarrow>
    find (\<lambda>row. cs_token_hash row = token) (as_sessions s) = Some row \<Longrightarrow>
    auth_step now s (EvSessionRevoked (cs_id row)) s'"
| revoke_for_user: "revoke_cli_session_for_user s user session_id now = (s', Ok ()) \<Longrightarrow>
    auth_step now s (EvSessionRevoked session_id) s'"
| revoke_missing: "revoke_cli_session_for_user s user session_id now = (s', Err e) \<Longrightarrow> auth_step now s EvQuiet s'"
| add_user: "auth_step now s EvQuiet (s\<lparr>as_users := as_users s @ [user]\<rparr>)"
| delete_user: "auth_step now s (EvUserDeleted user_id) (cascade_user_deletion s user_id)"

inductive login_history :: "u64 \<Rightarrow> auth_event list \<Rightarrow> auth_store \<Rightarrow> bool" where
  none: "as_device_logins s = [] \<Longrightarrow> as_browser_logins s = [] \<Longrightarrow> as_exchange_grants s = [] \<Longrightarrow> as_sessions s = [] \<Longrightarrow>
    login_history now [] s"
| more: "login_history t events s \<Longrightarrow> t \<le> now \<Longrightarrow> auth_step now s event s' \<Longrightarrow> login_history now (event # events) s'"

section \<open>Every transaction follows the protocol\<close>

definition auth_keys :: "auth_store \<Rightarrow> bool" where
  "auth_keys s \<longleftrightarrow> distinct (map dl_device_code_hash (as_device_logins s))
     \<and> distinct (map bl_request_id (as_browser_logins s)) \<and> distinct (map eg_grant_hash (as_exchange_grants s))
     \<and> distinct (map cs_id (as_sessions s)) \<and> distinct (map cs_token_hash (as_sessions s))
     \<and> (\<forall>row \<in> set (as_device_logins s). dl_consumed_at_unix row \<noteq> None \<longrightarrow> dl_completed_user_id row \<noteq> None)"

definition states_of :: "(string \<Rightarrow> login_state) \<Rightarrow> (string \<Rightarrow> login_state) \<Rightarrow> (string \<Rightarrow> login_state)
  \<Rightarrow> login_source \<Rightarrow> login_state" where
  "states_of d b g src = (case src of DeviceLogin k \<Rightarrow> d k | BrowserLogin k \<Rightarrow> b k | ExchangeGrant k \<Rightarrow> g k)"

abbreviation "device_states now rows \<equiv> row_state dl_device_code_hash dl_expires_at_unix device_stage now rows"
abbreviation "browser_states now rows \<equiv> row_state bl_request_id bl_expires_at_unix browser_stage now rows"
abbreviation "grant_states now rows \<equiv> row_state eg_grant_hash eg_expires_at_unix grant_stage now rows"

lemma login_states:
  "login_state_of now s = states_of (device_states now (as_device_logins s)) (browser_states now (as_browser_logins s))
     (grant_states now (as_exchange_grants s))"
  by (rule ext) (simp add: states_of_def split: login_source.split)

lemma states_of_simps [simp]:
  "states_of d b g (DeviceLogin k) = d k" "states_of d b g (BrowserLogin k) = b k" "states_of d b g (ExchangeGrant k) = g k"
  "states_of (d(k := x)) b g = (states_of d b g)(DeviceLogin k := x)"
  "states_of d (b(k := x)) g = (states_of d b g)(BrowserLogin k := x)"
  "states_of d b (g(k := x)) = (states_of d b g)(ExchangeGrant k := x)"
  by (auto simp: states_of_def fun_eq_iff split: login_source.split)

declare login_state_of.simps [simp del]

lemma u64_to_i64_Ok [simp]: "u64_to_i64 v f = Ok w \<longleftrightarrow> unat v < 2 ^ 63 \<and> w = v"
  by (auto simp: u64_to_i64_def)

lemma cleanup_effect:
  assumes "cleanup_expired_cli_rows s now = Ok c" and "auth_keys s"
  shows "auth_keys c" and "login_state_of now c = login_state_of now s"
    and "as_device_logins c = filter (\<lambda>row. \<not> dl_expires_at_unix row \<le> now) (as_device_logins s)"
    and "as_sessions c = filter (\<lambda>row. \<not> cs_expires_at_unix row \<le> now) (as_sessions s)"
    and "length (as_browser_logins c) \<le> length (as_browser_logins s)"
  using assms by (auto simp: cleanup_expired_cli_rows_def and_then_Ok_iff auth_keys_def login_states row_state_cleanup
      distinct_map_filter)

definition session_row :: "string \<Rightarrow> new_cli_session \<Rightarrow> cli_session" where
  "session_row user session = \<lparr>cs_id = ns_id session, cs_token_hash = ns_token_hash session, cs_user_id = user,
     cs_label = ns_label session, cs_created_at_unix = ns_created_at_unix session, cs_last_used_at_unix = None,
     cs_expires_at_unix = ns_expires_at_unix session, cs_revoked_at_unix = None\<rparr>"

definition device_row :: "start_device_login_command \<Rightarrow> cli_device_login" where
  "device_row command = \<lparr>dl_device_code_hash = sd_device_code_hash command, dl_user_code_hash = sd_user_code_hash command,
     dl_created_at_unix = sd_created_at_unix command, dl_expires_at_unix = sd_expires_at_unix command,
     dl_completed_user_id = None, dl_completed_at_unix = None, dl_consumed_at_unix = None\<rparr>"

definition browser_row :: "start_browser_login_command \<Rightarrow> cli_browser_login" where
  "browser_row command = \<lparr>bl_request_id = sb_request_id command, bl_request_secret_hash = sb_request_secret_hash command,
     bl_callback_url = sb_callback_url command, bl_callback_code_hash = None, bl_created_at_unix = sb_created_at_unix command,
     bl_expires_at_unix = sb_expires_at_unix command, bl_completed_user_id = None, bl_completed_at_unix = None,
     bl_consumed_at_unix = None\<rparr>"

definition grant_row :: "create_cli_exchange_grant_command \<Rightarrow> user_account \<Rightarrow> cli_exchange_grant" where
  "grant_row command user = \<lparr>eg_grant_hash = cg_grant_hash command, eg_user_id = ua_id user,
     eg_created_at_unix = cg_created_at_unix command, eg_expires_at_unix = cg_expires_at_unix command,
     eg_consumed_at_unix = None\<rparr>"

lemmas row_defs = session_row_def device_row_def browser_row_def grant_row_def

lemma insert_session_effect:
  assumes "insert_cli_session_in_tx db s user session = Ok (s', identity)"
  shows "s' = s\<lparr>as_sessions := as_sessions s @ [session_row user session]\<rparr>"
    and "ns_id session \<notin> cs_id ` set (as_sessions s)" and "ns_token_hash session \<notin> cs_token_hash ` set (as_sessions s)"
    and "si_user_id identity = user"
  using assms find_SomeD [of "\<lambda>u. ua_id u = user" "as_users s"]
  by (auto simp: insert_cli_session_in_tx_def and_then_Ok_iff Let_def load_user_by_id_def SessionIdentity_from_def
      list_ex_iff row_defs split: if_split_asm option.split_asm)

lemma insert_session_keeps:
  assumes "insert_cli_session_in_tx db s user session = Ok (s', identity)"
  shows "auth_keys s' \<longleftrightarrow> auth_keys s" and "login_state_of now s' = login_state_of now s"
    and "as_device_logins s' = as_device_logins s" and "as_browser_logins s' = as_browser_logins s"
    and "as_exchange_grants s' = as_exchange_grants s"
  using insert_session_effect [OF assms] by (auto simp: auth_keys_def login_states row_defs)

lemma login_state_later:
  assumes "now \<le> later"
  shows "login_state_of later s src = login_state_of now s src \<or> login_state_of later s src = NoLogin"
  by (cases src; simp only: login_states states_of_simps; rule row_state_later [OF assms])

section \<open>The effect of each transaction\<close>

lemma start_device_effect:
  assumes "start_cli_device_login db s command now = Ok s'" and "auth_keys s"
  shows "auth_keys s'
    \<and> login_move (EvStarted (DeviceLogin (sd_device_code_hash command))) (login_state_of now s) (login_state_of now s')
    \<and> length (as_device_logins s') \<le> MAX_PENDING_DEVICE_LOGINS
    \<and> as_sessions s' = filter (\<lambda>row. \<not> cs_expires_at_unix row \<le> now) (as_sessions s)"
proof -
  let ?row = "device_row command"
  obtain c where c: "cleanup_expired_cli_rows s now = Ok c" "enforce_device_login_start_limits c now = Ok ()"
    and s': "s' = c\<lparr>as_device_logins := as_device_logins c @ [?row]\<rparr>"
    and "\<forall>row \<in> set (as_device_logins c). dl_device_code_hash row \<noteq> sd_device_code_hash command"
    using assms(1) by (auto simp: start_cli_device_login_def and_then_Ok_iff list_ex_iff row_defs split: if_split_asm)
  then have fresh: "dl_device_code_hash ?row \<notin> dl_device_code_hash ` set (as_device_logins c)" by (auto simp: row_defs)
  note effect = cleanup_effect [OF c(1) assms(2)]
  have code: "dl_device_code_hash ?row = sd_device_code_hash command" by (simp add: row_defs)
  have "login_state_of now s' = (login_state_of now s)
      (DeviceLogin (sd_device_code_hash command) := if dl_expires_at_unix ?row \<le> now then NoLogin else Waiting)"
    using row_state_append [of dl_device_code_hash ?row, OF fresh] effect(2)
    by (simp add: login_states s' code) (simp add: device_stage_def row_defs)
  moreover have "login_state_of now c (DeviceLogin (sd_device_code_hash command)) = NoLogin"
    using row_state_absent [OF fresh] by (simp add: code login_states)
  then have "login_state_of now s (DeviceLogin (sd_device_code_hash command)) = NoLogin" unfolding effect(2) .
  moreover have "length (as_device_logins c) < MAX_PENDING_DEVICE_LOGINS"
    using c(2) by (auto simp: enforce_device_login_start_limits_def enforce_device_login_start_rate_limit_def and_then_Ok_iff
        map_err_Ok_iff split: if_split_asm)
  moreover have "dl_consumed_at_unix ?row = None" by (simp add: row_defs)
  ultimately show ?thesis using effect(1,4) fresh by (auto simp: auth_keys_def fun_upd_idem s')
qed

text \<open>Changing the live row of a login; the change keeps its code and its expiry.\<close>

lemma device_update_effect:
  assumes "auth_keys s" "login \<in> set (as_device_logins s)" "\<not> dl_expires_at_unix login \<le> now"
    and f: "\<And>row. dl_device_code_hash (f row) = dl_device_code_hash row" "\<And>row. dl_expires_at_unix (f row) = dl_expires_at_unix row"
      "dl_completed_user_id (f login) \<noteq> None"
  defines "s' \<equiv> s\<lparr>as_device_logins :=
    map (\<lambda>row. if dl_device_code_hash row = dl_device_code_hash login then f row else row) (as_device_logins s)\<rparr>"
  shows "auth_keys s'"
    and "login_state_of now s' = (login_state_of now s)(DeviceLogin (dl_device_code_hash login) := device_stage (f login))"
    and "login_state_of now s (DeviceLogin (dl_device_code_hash login)) = device_stage login"
proof -
  have keys: "distinct (map dl_device_code_hash (as_device_logins s))" using assms(1) by (simp add: auth_keys_def)
  have "map dl_device_code_hash (as_device_logins s') = map dl_device_code_hash (as_device_logins s)"
    using f(1) by (simp add: s'_def)
  moreover have "dl_completed_user_id row \<noteq> None"
    if row: "row \<in> set (as_device_logins s')" "dl_consumed_at_unix row \<noteq> None" for row
  proof -
    obtain r where r: "r \<in> set (as_device_logins s)" "row = (if dl_device_code_hash r = dl_device_code_hash login then f r else r)"
      using row(1) by (auto simp: s'_def)
    then show ?thesis
      using f(3) row(2) assms(1,2) inj_onD [of dl_device_code_hash "set (as_device_logins s)" r login] keys
      by (auto simp: auth_keys_def distinct_map split: if_split_asm)
  qed
  ultimately show "auth_keys s'" using assms(1) by (simp add: auth_keys_def s'_def del: map_map)
  show "login_state_of now s' = (login_state_of now s)(DeviceLogin (dl_device_code_hash login) := device_stage (f login))"
    using row_state_update [OF keys assms(2), of f dl_expires_at_unix device_stage now] f assms(3)
    by (simp add: login_states s'_def)
  show "login_state_of now s (DeviceLogin (dl_device_code_hash login)) = device_stage login"
    using row_state_member [OF keys assms(2)] assms(3) by (simp add: login_states)
qed

lemma complete_device_effect:
  assumes "complete_cli_device_login_by_user_code_hash db s code user now = Ok s'" and "auth_keys s"
    and "find (\<lambda>row. dl_user_code_hash row = code) (as_device_logins s) = Some login"
  shows "auth_keys s'
    \<and> login_move (EvCompleted (DeviceLogin (dl_device_code_hash login)) (ua_id user)) (login_state_of now s) (login_state_of now s')
    \<and> as_sessions s' = filter (\<lambda>row. \<not> cs_expires_at_unix row \<le> now) (as_sessions s)"
proof -
  define f :: "cli_device_login \<Rightarrow> cli_device_login"
    where "f = (\<lambda>row. row\<lparr>dl_completed_user_id := Some (ua_id user), dl_completed_at_unix := Some now\<rparr>)"
  obtain c where c: "cleanup_expired_cli_rows s now = Ok c"
    and s': "s' = c\<lparr>as_device_logins := map (\<lambda>row. if dl_device_code_hash row = dl_device_code_hash login then f row else row)
      (as_device_logins c)\<rparr>"
    and live: "\<not> dl_expires_at_unix login \<le> now" "dl_completed_user_id login = None"
    using assms(1,3)
    by (auto simp: complete_cli_device_login_by_user_code_hash_def and_then_Ok_iff map_err_Ok_iff
        decide_device_login_completion_def f_def split: if_split_asm)
  note effect = cleanup_effect [OF c assms(2)]
  have login: "login \<in> set (as_device_logins c)" using find_SomeD [OF assms(3)] live(1) effect(3) by simp
  then have "dl_consumed_at_unix login = None" using effect(1) live(2) by (auto simp: auth_keys_def)
  then have "device_stage login = Waiting" "device_stage (f login) = Approved (ua_id user)"
    using live(2) by (simp_all add: device_stage_def f_def)
  with device_update_effect [OF effect(1) login live(1), of f] effect(2,4) s'
  show ?thesis by (simp add: f_def)
qed

lemma poll_effect:
  assumes "poll_cli_device_login_by_hash db s code session now = Ok (s', answer)" and "auth_keys s"
  shows "case answer of
      PollPending _ \<Rightarrow> s' = s
    | PollComplete identity \<Rightarrow> auth_keys s'
        \<and> login_move (EvOpened (DeviceLogin code) (si_user_id identity) (ns_id session)) (login_state_of now s) (login_state_of now s')
        \<and> as_sessions s' = filter (\<lambda>row. \<not> cs_expires_at_unix row \<le> now) (as_sessions s) @ [session_row (si_user_id identity) session]"
proof (cases answer)
  case (PollPending expires)
  then show ?thesis using assms(1)
    by (auto simp: poll_cli_device_login_by_hash_def and_then_Ok_iff map_err_Ok_iff decide_device_login_poll_def
        split: option.split_asm if_split_asm)
next
  case (PollComplete identity)
  define f :: "cli_device_login \<Rightarrow> cli_device_login" where "f = (\<lambda>row. row\<lparr>dl_consumed_at_unix := Some now\<rparr>)"
  obtain login user c opened where login: "find (\<lambda>row. dl_device_code_hash row = code) (as_device_logins s) = Some login"
    and live: "\<not> dl_expires_at_unix login \<le> now" "dl_consumed_at_unix login = None" "dl_completed_user_id login = Some user"
    and c: "cleanup_expired_cli_rows s now = Ok c" "insert_cli_session_in_tx db c user session = Ok (opened, identity)"
    and s': "s' = opened\<lparr>as_device_logins := map (\<lambda>row. if dl_device_code_hash row = dl_device_code_hash login then f row else row)
      (as_device_logins opened)\<rparr>"
    using assms(1) PollComplete
    by (auto simp: poll_cli_device_login_by_hash_def and_then_Ok_iff map_err_Ok_iff decide_device_login_poll_def f_def
        split: option.split_asm if_split_asm)
  note effect = cleanup_effect [OF c(1) assms(2)]
  note inserted = insert_session_effect [OF c(2)] insert_session_keeps [OF c(2)]
  have code: "dl_device_code_hash login = code" using find_SomeD [OF login] by simp
  have mem: "login \<in> set (as_device_logins opened)" using find_SomeD [OF login] live(1) effect(3) inserted(7) by simp
  have "auth_keys opened" using inserted(5) effect(1) by simp
  note updated = device_update_effect [OF this mem live(1), of f]
  have "device_stage login = Approved user" "device_stage (f login) = Spent"
    using live(2,3) by (simp_all add: device_stage_def f_def)
  moreover have "auth_keys s'"
    "login_state_of now s' = (login_state_of now opened)(DeviceLogin code := device_stage (f login))"
    "login_state_of now opened (DeviceLogin code) = device_stage login"
    using updated live(3) s' code by (simp_all add: f_def)
  ultimately show ?thesis using PollComplete effect(2,4) inserted(1,4,6) s' by simp
qed

lemma browser_update_effect:
  assumes "auth_keys s" "login \<in> set (as_browser_logins s)" "\<not> bl_expires_at_unix login \<le> now"
    and f: "\<And>row. bl_request_id (f row) = bl_request_id row" "\<And>row. bl_expires_at_unix (f row) = bl_expires_at_unix row"
  defines "s' \<equiv> s\<lparr>as_browser_logins := map (\<lambda>row. if bl_request_id row = bl_request_id login then f row else row) (as_browser_logins s)\<rparr>"
  shows "auth_keys s'"
    and "login_state_of now s' = (login_state_of now s)(BrowserLogin (bl_request_id login) := browser_stage (f login))"
    and "login_state_of now s (BrowserLogin (bl_request_id login)) = browser_stage login"
proof -
  have keys: "distinct (map bl_request_id (as_browser_logins s))" using assms(1) by (simp add: auth_keys_def)
  have "map bl_request_id (as_browser_logins s') = map bl_request_id (as_browser_logins s)" using f(1) by (simp add: s'_def)
  then show "auth_keys s'" using assms(1) by (simp add: auth_keys_def s'_def del: map_map)
  show "login_state_of now s' = (login_state_of now s)(BrowserLogin (bl_request_id login) := browser_stage (f login))"
    using row_state_update [OF keys assms(2), of f bl_expires_at_unix browser_stage now] f assms(3)
    by (simp add: login_states s'_def)
  show "login_state_of now s (BrowserLogin (bl_request_id login)) = browser_stage login"
    using row_state_member [OF keys assms(2)] assms(3) by (simp add: login_states)
qed

lemma grant_update_effect:
  assumes "auth_keys s" "grant \<in> set (as_exchange_grants s)" "\<not> eg_expires_at_unix grant \<le> now"
    and f: "\<And>row. eg_grant_hash (f row) = eg_grant_hash row" "\<And>row. eg_expires_at_unix (f row) = eg_expires_at_unix row"
  defines "s' \<equiv> s\<lparr>as_exchange_grants := map (\<lambda>row. if eg_grant_hash row = eg_grant_hash grant then f row else row) (as_exchange_grants s)\<rparr>"
  shows "auth_keys s'"
    and "login_state_of now s' = (login_state_of now s)(ExchangeGrant (eg_grant_hash grant) := grant_stage (f grant))"
    and "login_state_of now s (ExchangeGrant (eg_grant_hash grant)) = grant_stage grant"
proof -
  have keys: "distinct (map eg_grant_hash (as_exchange_grants s))" using assms(1) by (simp add: auth_keys_def)
  have "map eg_grant_hash (as_exchange_grants s') = map eg_grant_hash (as_exchange_grants s)" using f(1) by (simp add: s'_def)
  then show "auth_keys s'" using assms(1) by (simp add: auth_keys_def s'_def del: map_map)
  show "login_state_of now s' = (login_state_of now s)(ExchangeGrant (eg_grant_hash grant) := grant_stage (f grant))"
    using row_state_update [OF keys assms(2), of f eg_expires_at_unix grant_stage now] f assms(3)
    by (simp add: login_states s'_def)
  show "login_state_of now s (ExchangeGrant (eg_grant_hash grant)) = grant_stage grant"
    using row_state_member [OF keys assms(2)] assms(3) by (simp add: login_states)
qed

lemma start_browser_effect:
  assumes "start_cli_browser_login db s command now = Ok s'" and "auth_keys s"
  shows "auth_keys s'
    \<and> login_move (EvStarted (BrowserLogin (sb_request_id command))) (login_state_of now s) (login_state_of now s')
    \<and> length (as_browser_logins s') \<le> MAX_PENDING_BROWSER_LOGINS
    \<and> as_sessions s' = filter (\<lambda>row. \<not> cs_expires_at_unix row \<le> now) (as_sessions s)"
proof -
  let ?row = "browser_row command"
  obtain c where c: "cleanup_expired_cli_rows s now = Ok c" "enforce_browser_login_start_limits c now = Ok ()"
    and s': "s' = c\<lparr>as_browser_logins := as_browser_logins c @ [?row]\<rparr>"
    and "\<forall>row \<in> set (as_browser_logins c). bl_request_id row \<noteq> sb_request_id command"
    using assms(1) by (auto simp: start_cli_browser_login_def and_then_Ok_iff list_ex_iff row_defs split: if_split_asm)
  then have fresh: "bl_request_id ?row \<notin> bl_request_id ` set (as_browser_logins c)" by (auto simp: row_defs)
  note effect = cleanup_effect [OF c(1) assms(2)]
  have code: "bl_request_id ?row = sb_request_id command" by (simp add: row_defs)
  have "login_state_of now s' = (login_state_of now s)
      (BrowserLogin (sb_request_id command) := if bl_expires_at_unix ?row \<le> now then NoLogin else Waiting)"
    using row_state_append [of bl_request_id ?row, OF fresh] effect(2)
    by (simp add: login_states s' code) (simp add: browser_stage_def row_defs)
  moreover have "login_state_of now c (BrowserLogin (sb_request_id command)) = NoLogin"
    using row_state_absent [OF fresh] by (simp add: code login_states)
  then have "login_state_of now s (BrowserLogin (sb_request_id command)) = NoLogin" unfolding effect(2) .
  moreover have "length (as_browser_logins c) < MAX_PENDING_BROWSER_LOGINS"
    using c(2) by (auto simp: enforce_browser_login_start_limits_def enforce_browser_login_start_rate_limit_def and_then_Ok_iff
        map_err_Ok_iff split: if_split_asm)
  ultimately show ?thesis using effect(1,4) fresh by (auto simp: auth_keys_def fun_upd_idem s')
qed

lemma complete_browser_effect:
  assumes "complete_cli_browser_login db s request code user now = Ok (s', completion)" and "auth_keys s"
  shows "auth_keys s' \<and> login_move (EvCompleted (BrowserLogin request) (ua_id user)) (login_state_of now s) (login_state_of now s')
    \<and> as_sessions s' = as_sessions s"
proof -
  define f :: "cli_browser_login \<Rightarrow> cli_browser_login" where "f = (\<lambda>row. row\<lparr>bl_callback_code_hash := Some code,
    bl_completed_user_id := Some (ua_id user), bl_completed_at_unix := Some now\<rparr>)"
  obtain login where login: "find (\<lambda>row. bl_request_id row = request) (as_browser_logins s) = Some login"
    and s': "s' = s\<lparr>as_browser_logins := map (\<lambda>row. if bl_request_id row = request then f row else row) (as_browser_logins s)\<rparr>"
    and live: "\<not> bl_expires_at_unix login \<le> now" "bl_consumed_at_unix login = None" "bl_completed_user_id login = None"
    using assms(1)
    by (auto simp: complete_cli_browser_login_def and_then_Ok_iff map_err_Ok_iff decide_browser_login_completion_def f_def
        split: option.split_asm if_split_asm)
  have mem: "login \<in> set (as_browser_logins s)" "bl_request_id login = request" using find_SomeD [OF login] by simp_all
  have "browser_stage login = Waiting" "browser_stage (f login) = Approved (ua_id user)"
    using live by (simp_all add: browser_stage_def f_def)
  with browser_update_effect [OF assms(2) mem(1) live(1), of f] s' mem(2) show ?thesis by (simp add: f_def)
qed

lemma exchange_browser_effect:
  assumes "exchange_cli_browser_login db s request secret code session now = Ok (s', identity)" and "auth_keys s"
  shows "auth_keys s'
    \<and> login_move (EvOpened (BrowserLogin request) (si_user_id identity) (ns_id session)) (login_state_of now s) (login_state_of now s')
    \<and> as_sessions s' = as_sessions s @ [session_row (si_user_id identity) session]"
proof -
  define f :: "cli_browser_login \<Rightarrow> cli_browser_login" where "f = (\<lambda>row. row\<lparr>bl_consumed_at_unix := Some now\<rparr>)"
  obtain login user where login: "find (\<lambda>row. bl_request_id row = request) (as_browser_logins s) = Some login"
    and live: "\<not> bl_expires_at_unix login \<le> now" "bl_consumed_at_unix login = None" "bl_completed_user_id login = Some user"
    and ins: "insert_cli_session_in_tx db (s\<lparr>as_browser_logins :=
      map (\<lambda>row. if bl_request_id row = request then f row else row) (as_browser_logins s)\<rparr>) user session = Ok (s', identity)"
    using assms(1)
    by (auto simp: exchange_cli_browser_login_def and_then_Ok_iff map_err_Ok_iff decide_browser_login_exchange_def f_def cong: if_cong
        split: option.split_asm if_split_asm)
  have mem: "login \<in> set (as_browser_logins s)" "bl_request_id login = request" using find_SomeD [OF login] by simp_all
  have "browser_stage login = Approved user" "browser_stage (f login) = Spent"
    using live by (simp_all add: browser_stage_def f_def)
  with browser_update_effect [OF assms(2) mem(1) live(1), of f] insert_session_effect [OF ins] insert_session_keeps [OF ins] mem(2)
  show ?thesis by (simp add: f_def)
qed

lemma create_grant_effect:
  assumes "create_cli_exchange_grant db s command user now = Ok s'" and "auth_keys s"
  shows "auth_keys s'
    \<and> login_move (EvGranted (ExchangeGrant (cg_grant_hash command)) (ua_id user)) (login_state_of now s) (login_state_of now s')
    \<and> as_sessions s' = filter (\<lambda>row. \<not> cs_expires_at_unix row \<le> now) (as_sessions s)"
proof -
  let ?row = "grant_row command user"
  obtain c where c: "cleanup_expired_cli_rows s now = Ok c"
    and s': "s' = c\<lparr>as_exchange_grants := as_exchange_grants c @ [?row]\<rparr>"
    and "\<forall>row \<in> set (as_exchange_grants c). eg_grant_hash row \<noteq> cg_grant_hash command"
    using assms(1) by (auto simp: create_cli_exchange_grant_def and_then_Ok_iff list_ex_iff row_defs split: if_split_asm)
  then have fresh: "eg_grant_hash ?row \<notin> eg_grant_hash ` set (as_exchange_grants c)" by (auto simp: row_defs)
  note effect = cleanup_effect [OF c(1) assms(2)]
  have code: "eg_grant_hash ?row = cg_grant_hash command" by (simp add: row_defs)
  have "login_state_of now s' = (login_state_of now s)
      (ExchangeGrant (cg_grant_hash command) := if eg_expires_at_unix ?row \<le> now then NoLogin else Approved (ua_id user))"
    using row_state_append [of eg_grant_hash ?row, OF fresh] effect(2)
    by (simp add: login_states s' code) (simp add: grant_stage_def row_defs)
  moreover have "login_state_of now c (ExchangeGrant (cg_grant_hash command)) = NoLogin"
    using row_state_absent [OF fresh] by (simp add: code login_states)
  then have "login_state_of now s (ExchangeGrant (cg_grant_hash command)) = NoLogin" unfolding effect(2) .
  ultimately show ?thesis using effect(1,4) fresh by (auto simp: auth_keys_def fun_upd_idem s')
qed

lemma exchange_grant_effect:
  assumes "exchange_cli_grant_by_hash db s hash session now = Ok (s', identity)" and "auth_keys s"
  shows "auth_keys s'
    \<and> login_move (EvOpened (ExchangeGrant hash) (si_user_id identity) (ns_id session)) (login_state_of now s) (login_state_of now s')
    \<and> as_sessions s' = as_sessions s @ [session_row (si_user_id identity) session]"
proof -
  define f :: "cli_exchange_grant \<Rightarrow> cli_exchange_grant" where "f = (\<lambda>row. row\<lparr>eg_consumed_at_unix := Some now\<rparr>)"
  obtain grant where grant: "find (\<lambda>row. eg_grant_hash row = hash) (as_exchange_grants s) = Some grant"
    and live: "\<not> eg_expires_at_unix grant \<le> now" "eg_consumed_at_unix grant = None"
    and ins: "insert_cli_session_in_tx db (s\<lparr>as_exchange_grants :=
      map (\<lambda>row. if eg_grant_hash row = eg_grant_hash grant then f row else row) (as_exchange_grants s)\<rparr>) (eg_user_id grant) session
      = Ok (s', identity)"
    using assms(1)
    by (auto simp: exchange_cli_grant_by_hash_def and_then_Ok_iff map_err_Ok_iff decide_cli_exchange_grant_def f_def cong: if_cong
        split: option.split_asm if_split_asm)
  have mem: "grant \<in> set (as_exchange_grants s)" "eg_grant_hash grant = hash" using find_SomeD [OF grant] by simp_all
  have "grant_stage grant = Approved (eg_user_id grant)" "grant_stage (f grant) = Spent"
    using live by (simp_all add: grant_stage_def f_def)
  with grant_update_effect [OF assms(2) mem(1) live(1), of f] insert_session_effect [OF ins] insert_session_keeps [OF ins] mem(2)
  show ?thesis by (simp add: f_def)
qed

section \<open>Sessions\<close>

text \<open>Which unrevoked sessions there are after a transaction.\<close>

definition live_session :: "auth_store \<Rightarrow> string \<Rightarrow> string \<Rightarrow> bool" where
  "live_session s session user \<longleftrightarrow>
     (\<exists>row \<in> set (as_sessions s). cs_id row = session \<and> cs_user_id row = user \<and> cs_revoked_at_unix row = None)"

fun session_move :: "auth_event \<Rightarrow> auth_store \<Rightarrow> auth_store \<Rightarrow> bool" where
  "session_move (EvOpened src user session) s s' \<longleftrightarrow>
     (\<forall>x u. live_session s' x u \<longrightarrow> (if x = session then u = user else live_session s x u))"
| "session_move (EvSessionRevoked session) s s' \<longleftrightarrow>
     (\<forall>x u. live_session s' x u \<longrightarrow> x \<noteq> session \<and> live_session s x u)"
| "session_move _ s s' \<longleftrightarrow> (\<forall>x u. live_session s' x u \<longrightarrow> live_session s x u)"

lemma live_session_filter: "as_sessions s' = filter P (as_sessions s) \<Longrightarrow> live_session s' x u \<Longrightarrow> live_session s x u"
  by (auto simp: live_session_def)

lemma live_session_opened:
  assumes "as_sessions s' = filter P (as_sessions s) @ [session_row user session]" "auth_keys s'"
  shows "session_move (EvOpened src user (ns_id session)) s s'"
proof -
  have "cs_id row \<noteq> ns_id session" if "row \<in> set (as_sessions s)" "P row" for row
    using assms that by (force simp: auth_keys_def row_defs)
  then show ?thesis using assms(1) by (auto simp: live_session_def row_defs)
qed

text \<open>Changing sessions without touching their identity.\<close>

lemma session_update_effect:
  assumes "auth_keys s" and f: "\<And>row. cs_id (f row) = cs_id row" "\<And>row. cs_token_hash (f row) = cs_token_hash row"
    "\<And>row. cs_user_id (f row) = cs_user_id row" "\<And>row. cs_revoked_at_unix (f row) = None \<Longrightarrow> cs_revoked_at_unix row = None"
  shows "auth_keys (s\<lparr>as_sessions := map f (as_sessions s)\<rparr>)"
    and "login_state_of now (s\<lparr>as_sessions := map f (as_sessions s)\<rparr>) = login_state_of now s"
    and "live_session (s\<lparr>as_sessions := map f (as_sessions s)\<rparr>) x u \<Longrightarrow> live_session s x u"
proof -
  have "cs_id \<circ> f = cs_id" "cs_token_hash \<circ> f = cs_token_hash" using f(1,2) by auto
  then show "auth_keys (s\<lparr>as_sessions := map f (as_sessions s)\<rparr>)" using assms(1) by (simp add: auth_keys_def)
  show "live_session (s\<lparr>as_sessions := map f (as_sessions s)\<rparr>) x u \<Longrightarrow> live_session s x u"
    using f by (auto simp: live_session_def)
qed (simp add: login_states)

lemma verify_effect:
  assumes "verify_cli_session_by_hash s token now = Ok (s', user)" and "auth_keys s"
  shows "auth_keys s' \<and> login_state_of now s' = login_state_of now s \<and> (\<forall>x u. live_session s' x u \<longrightarrow> live_session s x u)
    \<and> length (as_device_logins s') = length (as_device_logins s) \<and> length (as_browser_logins s') = length (as_browser_logins s)"
    and "\<exists>row \<in> set (as_sessions s). cs_token_hash row = token \<and> cs_user_id row = ua_id user \<and> cs_revoked_at_unix row = None
      \<and> now < cs_expires_at_unix row"
proof -
  obtain row where row: "row \<in> set (as_sessions s)" "cs_token_hash row = token" "cs_user_id row = ua_id user"
    "cs_revoked_at_unix row = None" "now < cs_expires_at_unix row"
    and s': "s' = s \<or> record_cli_session_use s (cs_id row) now = Ok s'"
    using assms(1) find_SomeD [of "\<lambda>row. cs_token_hash row = token" "as_sessions s"]
      find_SomeD [of _ "as_users s"]
    by (fastforce simp: verify_cli_session_by_hash_def and_then_Ok_iff map_err_Ok_iff decide_cli_session_use_def load_user_by_id_def
        split: option.split_asm if_split_asm)
  show "auth_keys s' \<and> login_state_of now s' = login_state_of now s \<and> (\<forall>x u. live_session s' x u \<longrightarrow> live_session s x u)
    \<and> length (as_device_logins s') = length (as_device_logins s) \<and> length (as_browser_logins s') = length (as_browser_logins s)"
  proof (cases "s' = s")
    case False
    define f :: "cli_session \<Rightarrow> cli_session" where "f = (\<lambda>r. if cs_id r = cs_id row \<and> cs_revoked_at_unix r = None \<and> now < cs_expires_at_unix r
      \<and> (case cs_last_used_at_unix r of None \<Rightarrow> True
         | Some last_used \<Rightarrow> last_used \<le> saturating_sub now CLI_SESSION_ACTIVITY_INTERVAL_SECONDS)
      then r\<lparr>cs_last_used_at_unix := Some now\<rparr> else r)"
    have "s' = s\<lparr>as_sessions := map f (as_sessions s)\<rparr>"
      using s' False unfolding f_def by (auto simp: record_cli_session_use_def and_then_Ok_iff)
    moreover have f: "cs_id (f r) = cs_id r" "cs_token_hash (f r) = cs_token_hash r" "cs_user_id (f r) = cs_user_id r"
      "cs_revoked_at_unix (f r) = None \<Longrightarrow> cs_revoked_at_unix r = None" for r
      by (auto simp: f_def split: if_split_asm)
    note session_update_effect [OF assms(2) f]
    ultimately show ?thesis by simp
  qed (use assms(2) in simp)
  show "\<exists>row \<in> set (as_sessions s). cs_token_hash row = token \<and> cs_user_id row = ua_id user \<and> cs_revoked_at_unix row = None
      \<and> now < cs_expires_at_unix row" using row by blast
qed

lemma revoke_effect:
  assumes "revoke_cli_session_by_hash s token now = Ok s'" and "auth_keys s"
    and "find (\<lambda>row. cs_token_hash row = token) (as_sessions s) = Some row"
  shows "auth_keys s' \<and> login_state_of now s' = login_state_of now s \<and> session_move (EvSessionRevoked (cs_id row)) s s'
    \<and> length (as_device_logins s') = length (as_device_logins s) \<and> length (as_browser_logins s') = length (as_browser_logins s)"
proof -
  define f :: "cli_session \<Rightarrow> cli_session"
    where "f = (\<lambda>r. if cs_id r = cs_id row then r\<lparr>cs_revoked_at_unix := Some now\<rparr> else r)"
  have s': "s' = s\<lparr>as_sessions := map f (as_sessions s)\<rparr>"
    using assms(1,3) unfolding f_def
    by (auto simp: revoke_cli_session_by_hash_def and_then_Ok_iff split: cli_session_revoke_decision.split_asm)
  have "\<not> live_session s' (cs_id row) u" for u by (auto simp: live_session_def s' f_def split: if_split_asm)
  moreover have f: "cs_id (f r) = cs_id r" "cs_token_hash (f r) = cs_token_hash r" "cs_user_id (f r) = cs_user_id r"
    "cs_revoked_at_unix (f r) = None \<Longrightarrow> cs_revoked_at_unix r = None" for r
    by (auto simp: f_def split: if_split_asm)
  note session_update_effect [OF assms(2) f]
  ultimately show ?thesis using s' by auto
qed

lemma revoke_for_user_effect:
  assumes "revoke_cli_session_for_user s user session now = (s', result)" and "auth_keys s"
  shows "auth_keys s' \<and> login_state_of now s' = login_state_of now s
    \<and> session_move (case result of Ok _ \<Rightarrow> EvSessionRevoked session | Err _ \<Rightarrow> EvQuiet) s s'
    \<and> length (as_device_logins s') \<le> length (as_device_logins s) \<and> length (as_browser_logins s') \<le> length (as_browser_logins s)"
proof (cases "cleanup_expired_cli_rows s now")
  case (Inl e)
  then show ?thesis using assms by (auto simp: revoke_cli_session_for_user_def)
next
  case (Inr c)
  note effect = cleanup_effect [OF Inr assms(2)]
  let ?hit = "\<lambda>row. cs_id row = session \<and> cs_user_id row = ua_id user \<and> cs_revoked_at_unix row = None"
  have s': "s' = c\<lparr>as_sessions := map (\<lambda>row. if ?hit row then row\<lparr>cs_revoked_at_unix := Some now\<rparr> else row) (as_sessions c)\<rparr>"
    and result: "result = (if list_ex ?hit (as_sessions c) then Ok () else Err (PostgresError PgNotFound ''CLI session not found''))"
    using assms(1) Inr by (auto simp: revoke_cli_session_for_user_def Let_def)
  have live: "live_session s' x u \<longleftrightarrow> live_session c x u \<and> \<not> (x = session \<and> u = ua_id user)" for x u
    by (auto simp: live_session_def s' split: if_split_asm)
  have same: "x = y" if "x \<in> set (as_sessions c)" "y \<in> set (as_sessions c)" "cs_id x = cs_id y" for x y
    using that effect(1) by (auto simp: auth_keys_def distinct_map dest: inj_onD)
  have kept: "live_session c x u \<Longrightarrow> live_session s x u" for x u using live_session_filter [OF effect(4)] .
  have "session_move (case result of Ok _ \<Rightarrow> EvSessionRevoked session | Err _ \<Rightarrow> EvQuiet) s s'"
    using kept live by (auto simp: result list_ex_iff) (metis same live_session_def)
  moreover have "auth_keys s'" unfolding s' by (rule session_update_effect(1) [OF effect(1)]) (auto split: if_split_asm)
  moreover have "login_state_of now s' = login_state_of now s" using effect(2) by (simp add: s' login_states)
  ultimately show ?thesis using effect(3,5) by (simp add: s' length_filter_le)
qed

lemma cascade_effect:
  assumes "auth_keys s"
  shows "auth_keys (cascade_user_deletion s user)
    \<and> login_move (EvUserDeleted user) (login_state_of now s) (login_state_of now (cascade_user_deletion s user))
    \<and> session_move (EvUserDeleted user) s (cascade_user_deletion s user)"
proof -
  have "login_state_of now (cascade_user_deletion s user) src = login_state_of now s src
      \<or> login_state_of now (cascade_user_deletion s user) src = NoLogin" for src
    using assms row_state_filter
    by (cases src) (auto simp: login_states cascade_user_deletion_def auth_keys_def row_state_filter)
  then show ?thesis using assms
    by (auto simp: cascade_user_deletion_def auth_keys_def distinct_map_filter live_session_def)
qed

section \<open>Every transaction follows the protocol\<close>

definition few_pending :: "auth_store \<Rightarrow> bool" where
  "few_pending s \<longleftrightarrow> length (as_device_logins s) \<le> MAX_PENDING_DEVICE_LOGINS
     \<and> length (as_browser_logins s) \<le> MAX_PENDING_BROWSER_LOGINS"

lemma auth_step_effect:
  assumes "auth_step now s event s'" "auth_keys s"
  shows "auth_keys s' \<and> login_move event (login_state_of now s) (login_state_of now s') \<and> session_move event s s'"
  using assms
proof (induction rule: auth_step.induct)
  case start_device
  then show ?case using start_device_effect live_session_filter by fastforce
next
  case complete_device
  then show ?case using complete_device_effect live_session_filter by fastforce
next
  case poll_pending
  then show ?case using poll_effect by fastforce
next
  case poll_complete
  then show ?case using poll_effect live_session_opened by fastforce
next
  case start_browser
  then show ?case using start_browser_effect live_session_filter by fastforce
next
  case complete_browser
  then show ?case using complete_browser_effect by (fastforce simp: live_session_def)
next
  case exchange_browser
  then show ?case using exchange_browser_effect live_session_opened [where P = "\<lambda>_. True"] by fastforce
next
  case create_grant
  then show ?case using create_grant_effect live_session_filter by fastforce
next
  case exchange_grant
  then show ?case using exchange_grant_effect live_session_opened [where P = "\<lambda>_. True"] by fastforce
next
  case verify
  then show ?case using verify_effect(1) by fastforce
next
  case revoke
  then show ?case using revoke_effect by fastforce
next
  case revoke_for_user
  then show ?case using revoke_for_user_effect by fastforce
next
  case revoke_missing
  then show ?case using revoke_for_user_effect by fastforce
next
  case add_user
  then show ?case by (simp add: auth_keys_def login_states live_session_def)
next
  case delete_user
  then show ?case using cascade_effect by blast
qed

end
