(* ===== verification/Auth_Properties.thy ===== *)
theory Auth_Properties
  imports Auth_Machine
begin

text \<open>
  What histories of command line logins guarantee: every transaction moves one login by one step of the protocol, and
  a session is only ever opened, once, for the account that approved its login.
\<close>

text \<open>
  C20: Every transaction on the tables implements the login protocol: read through the abstraction of each login to
  absent, waiting, approved or spent, it is exactly the protocol's step for its event and leaves every other login
  alone; the keys of the tables stay unique, and as time passes a login only ever disappears.
\<close>

theorem transactions_implement_login_protocol:
  assumes "auth_keys s" and "auth_step now s event s'"
  shows "auth_keys s' \<and> login_move event (login_state_of now s) (login_state_of now s')
    \<and> (\<forall>later src. now \<le> later \<longrightarrow>
        login_state_of later s' src = login_state_of now s' src \<or> login_state_of later s' src = NoLogin)"
  using auth_step_effect [OF assms(2,1)] login_state_later by blast

section \<open>Histories\<close>

fun concerns :: "login_source \<Rightarrow> auth_event \<Rightarrow> bool" where
  "concerns src (EvStarted x) \<longleftrightarrow> x = src"
| "concerns src (EvCompleted x _) \<longleftrightarrow> x = src"
| "concerns src (EvGranted x _) \<longleftrightarrow> x = src"
| "concerns src (EvOpened x _ _) \<longleftrightarrow> x = src"
| "concerns src _ \<longleftrightarrow> False"

fun concerns_session :: "string \<Rightarrow> auth_event \<Rightarrow> bool" where
  "concerns_session session (EvOpened _ _ x) \<longleftrightarrow> x = session"
| "concerns_session session (EvSessionRevoked x) \<longleftrightarrow> x = session"
| "concerns_session session _ \<longleftrightarrow> False"

text \<open>Events are listed newest first, so \<open>find\<close> yields the latest event of a login or a session.\<close>

definition approved_by :: "login_source \<Rightarrow> string \<Rightarrow> auth_event list \<Rightarrow> bool" where
  "approved_by src user events \<longleftrightarrow>
     find (concerns src) events = Some (EvCompleted src user) \<or> find (concerns src) events = Some (EvGranted src user)"

definition logins_match :: "(login_source \<Rightarrow> login_state) \<Rightarrow> auth_event list \<Rightarrow> bool" where
  "logins_match states events \<longleftrightarrow>
     (\<forall>src. (states src = Waiting \<longrightarrow> find (concerns src) events = Some (EvStarted src))
        \<and> (\<forall>user. states src = Approved user \<longrightarrow> approved_by src user events))"

definition sessions_match :: "auth_store \<Rightarrow> auth_event list \<Rightarrow> bool" where
  "sessions_match s events \<longleftrightarrow>
     (\<forall>session user. live_session s session user \<longrightarrow>
        (\<exists>src. find (concerns_session session) events = Some (EvOpened src user session)))"

lemma approved_by_Cons:
  "approved_by src user (event # events) \<longleftrightarrow>
     (if concerns src event then event = EvCompleted src user \<or> event = EvGranted src user else approved_by src user events)"
  by (simp add: approved_by_def)

lemma logins_match_move:
  assumes "logins_match f events" "login_move event f g"
  shows "logins_match g (event # events)"
  unfolding logins_match_def
proof (cases "\<exists>user. event = EvUserDeleted user")
  case True
  then have "g src = f src \<or> g src = NoLogin" "find (concerns src) (event # events) = find (concerns src) events"
    "approved_by src user (event # events) = approved_by src user events" for src user
    using assms(2) by (auto simp: approved_by_Cons)
  then show "\<forall>src. (g src = Waiting \<longrightarrow> find (concerns src) (event # events) = Some (EvStarted src))
      \<and> (\<forall>user. g src = Approved user \<longrightarrow> approved_by src user (event # events))"
    using assms(1) unfolding logins_match_def by (metis login_state.distinct(1,3))
next
  case False
  show "\<forall>src. (g src = Waiting \<longrightarrow> find (concerns src) (event # events) = Some (EvStarted src))
      \<and> (\<forall>user. g src = Approved user \<longrightarrow> approved_by src user (event # events))"
  proof (intro allI conjI impI)
    fix src
    show "find (concerns src) (event # events) = Some (EvStarted src)" if "g src = Waiting"
      using assms that False by (cases event) (auto simp: logins_match_def split: if_split_asm)
    show "approved_by src user (event # events)" if "g src = Approved user" for user
      using assms that False by (cases event) (auto simp: logins_match_def approved_by_Cons split: if_split_asm)
  qed
qed

lemma logins_match_later:
  assumes "logins_match (login_state_of now s) events" "now \<le> later"
  shows "logins_match (login_state_of later s) events"
  using assms(1) login_state_later [OF assms(2)] unfolding logins_match_def by (metis login_state.distinct(1,3))

lemma sessions_match_move:
  "sessions_match s events \<Longrightarrow> session_move event s s' \<Longrightarrow> sessions_match s' (event # events)"
  by (cases event) (auto simp: sessions_match_def split: if_split_asm)

lemma history_matches:
  "login_history now events s \<Longrightarrow>
   auth_keys s \<and> logins_match (login_state_of now s) events \<and> sessions_match s events"
proof (induction rule: login_history.induct)
  case (none s now)
  then show ?case
    by (auto simp: auth_keys_def logins_match_def sessions_match_def live_session_def login_states states_of_def row_state_def
        split: login_source.split_asm)
next
  case (more t events s now event s')
  then show ?case
    using auth_step_effect [OF more.hyps(3)] logins_match_later [OF _ more.hyps(2)] logins_match_move sessions_match_move by blast
qed

lemma history_suffix: "login_history now (after @ before) s \<Longrightarrow> \<exists>t s'. login_history t before s'"
proof (induction after arbitrary: now s)
  case (Cons event after)
  from Cons.prems obtain t s' where "login_history t (after @ before) s'" by (auto elim: login_history.cases)
  then show ?case by (rule Cons.IH)
qed auto

lemma history_step_from:
  assumes "login_history now (event # events) s"
  obtains t s' where "logins_match (login_state_of now s') events" "login_move event (login_state_of now s') (login_state_of now s)"
  using assms
proof cases
  case (more t s')
  then show thesis using that history_matches [OF more(1)] auth_step_effect [OF more(3)] logins_match_later [OF _ more(2)] by blast
qed

text \<open>
  C19: In every history of logins, approvals, exchanges, revocations and account deletions, a session is opened for an
  account only if the latest event of its login is the approval by that very account, so each approval opens one
  session at most; an approval directly follows the start of its login; and a token is only ever accepted for the
  account whose approved login opened its session, as long as the session has not been revoked since.
\<close>

theorem sessions_come_from_approved_logins:
  assumes "login_history now events s"
  shows "(\<forall>after src user session before. events = after @ EvOpened src user session # before \<longrightarrow> approved_by src user before)
    \<and> (\<forall>after src user before. events = after @ EvCompleted src user # before \<longrightarrow>
        find (concerns src) before = Some (EvStarted src))
    \<and> (\<forall>token later s' user. verify_cli_session_by_hash s token later = Ok (s', user) \<longrightarrow>
        (\<exists>src session. find (concerns_session session) events = Some (EvOpened src (ua_id user) session)))"
proof (intro conjI allI impI)
  fix after src user session before
  assume "events = after @ EvOpened src user session # before"
  then obtain t s' where "login_history t (EvOpened src user session # before) s'" using history_suffix assms by blast
  then show "approved_by src user before"
    by (rule history_step_from) (simp add: logins_match_def)
next
  fix after src user before
  assume "events = after @ EvCompleted src user # before"
  then obtain t s' where "login_history t (EvCompleted src user # before) s'" using history_suffix assms by blast
  then show "find (concerns src) before = Some (EvStarted src)"
    by (rule history_step_from) (simp add: logins_match_def)
next
  fix token later s' user
  assume ok: "verify_cli_session_by_hash s token later = Ok (s', user)"
  have m: "auth_keys s" "sessions_match s events" using history_matches [OF assms] by simp_all
  obtain row where "row \<in> set (as_sessions s)" "cs_user_id row = ua_id user" "cs_revoked_at_unix row = None"
    using verify_effect(2) [OF ok m(1)] by blast
  then have "live_session s (cs_id row) (ua_id user)" by (auto simp: live_session_def)
  then show "\<exists>src session. find (concerns_session session) events = Some (EvOpened src (ua_id user) session)"
    using m(2) unfolding sessions_match_def by blast
qed

section \<open>Witnesses\<close>

definition alice :: user_account where
  "alice = \<lparr>ua_id = ''u1'', ua_handle = ''alice'', ua_email = ''a@x'', ua_email_verified = True\<rparr>"

definition empty_store :: auth_store where
  "empty_store = \<lparr>as_device_logins = [], as_browser_logins = [], as_exchange_grants = [], as_sessions = [], as_users = [alice]\<rparr>"

definition demo_login :: start_device_login_command where
  "demo_login = \<lparr>sd_device_code_hash = ''d'', sd_user_code_hash = ''c'', sd_created_at_unix = 100, sd_expires_at_unix = 700\<rparr>"

definition demo_session :: new_cli_session where
  "demo_session = \<lparr>ns_id = ''s'', ns_token_hash = ''t'', ns_label = ''laptop'', ns_created_at_unix = 120, ns_expires_at_unix = 9000\<rparr>"

definition approved_row :: cli_device_login where
  "approved_row = (device_row demo_login)\<lparr>dl_completed_user_id := Some ''u1'', dl_completed_at_unix := Some 110\<rparr>"

lemmas demo_auth_defs = alice_def empty_store_def demo_login_def demo_session_def approved_row_def row_defs

lemma demo_started:
  "start_cli_device_login ''e'' empty_store demo_login 100 = Ok (empty_store\<lparr>as_device_logins := [device_row demo_login]\<rparr>)"
  by (simp add: start_cli_device_login_def cleanup_expired_cli_rows_def enforce_device_login_start_limits_def
      enforce_device_login_start_rate_limit_def MAX_PENDING_DEVICE_LOGINS_def MAX_DEVICE_LOGIN_STARTS_PER_WINDOW_def
      device_login_start_window_start_def DEVICE_LOGIN_START_WINDOW_SECS_def saturating_sub_def u64_to_i64_def demo_auth_defs)

lemma demo_completed:
  "complete_cli_device_login_by_user_code_hash ''e'' (empty_store\<lparr>as_device_logins := [device_row demo_login]\<rparr>) ''c'' alice 110 =
     Ok (empty_store\<lparr>as_device_logins := [approved_row]\<rparr>)"
  by (simp add: complete_cli_device_login_by_user_code_hash_def decide_device_login_completion_def cleanup_expired_cli_rows_def
      u64_to_i64_def user_exists_def demo_auth_defs)

lemma demo_polled:
  "poll_cli_device_login_by_hash ''e'' (empty_store\<lparr>as_device_logins := [approved_row]\<rparr>) ''d'' demo_session 120 =
     Ok (empty_store\<lparr>as_device_logins := [approved_row\<lparr>dl_consumed_at_unix := Some 120\<rparr>],
            as_sessions := [session_row ''u1'' demo_session]\<rparr>, PollComplete (SessionIdentity_from alice))"
  by (simp add: poll_cli_device_login_by_hash_def decide_device_login_poll_def cleanup_expired_cli_rows_def
      insert_cli_session_in_tx_def load_user_by_id_def Let_def u64_to_i64_def user_exists_def demo_auth_defs)

lemma transactions_implement_login_protocol_witness:
  "login_state_of 120 (empty_store\<lparr>as_device_logins := [approved_row]\<rparr>) (DeviceLogin ''d'') = Approved ''u1''
   \<and> login_state_of 120 (empty_store\<lparr>as_device_logins := [approved_row\<lparr>dl_consumed_at_unix := Some 120\<rparr>],
       as_sessions := [session_row ''u1'' demo_session]\<rparr>) (DeviceLogin ''d'') = Spent"
proof -
  have "auth_keys (empty_store\<lparr>as_device_logins := [approved_row]\<rparr>)"
    by (simp add: auth_keys_def demo_auth_defs)
  moreover have "si_user_id (SessionIdentity_from alice) = ''u1''" by (simp add: SessionIdentity_from_def alice_def)
  ultimately show ?thesis
    using transactions_implement_login_protocol [OF _ auth_step.poll_complete [OF demo_polled]] by simp
qed

lemma sessions_come_from_approved_logins_witness:
  "approved_by (DeviceLogin ''d'') ''u1'' [EvCompleted (DeviceLogin ''d'') ''u1'', EvStarted (DeviceLogin ''d'')]"
proof -
  have ids: "si_user_id (SessionIdentity_from alice) = ''u1''" "ua_id alice = ''u1''" "sd_device_code_hash demo_login = ''d''"
    "dl_device_code_hash (device_row demo_login) = ''d''" "dl_user_code_hash (device_row demo_login) = ''c''"
    by (simp_all add: SessionIdentity_from_def demo_auth_defs)
  have "login_history 100 [] empty_store" by (rule login_history.none) (simp_all add: empty_store_def)
  from login_history.more [OF this order_refl auth_step.start_device [OF demo_started]]
  have started: "login_history 100 [EvStarted (DeviceLogin ''d'')] (empty_store\<lparr>as_device_logins := [device_row demo_login]\<rparr>)"
    by (simp only: ids)
  have "auth_step 110 (empty_store\<lparr>as_device_logins := [device_row demo_login]\<rparr>) (EvCompleted (DeviceLogin ''d'') ''u1'')
      (empty_store\<lparr>as_device_logins := [approved_row]\<rparr>)"
    using auth_step.complete_device [OF demo_completed, of "device_row demo_login"] by (simp add: ids)
  from login_history.more [OF started _ this]
  have "login_history 110 [EvCompleted (DeviceLogin ''d'') ''u1'', EvStarted (DeviceLogin ''d'')]
      (empty_store\<lparr>as_device_logins := [approved_row]\<rparr>)" by simp
  from login_history.more [OF this _ auth_step.poll_complete [OF demo_polled]]
  have "login_history 120 [EvOpened (DeviceLogin ''d'') ''u1'' ''s'', EvCompleted (DeviceLogin ''d'') ''u1'',
      EvStarted (DeviceLogin ''d'')] (empty_store\<lparr>as_device_logins := [approved_row\<lparr>dl_consumed_at_unix := Some 120\<rparr>],
            as_sessions := [session_row ''u1'' demo_session]\<rparr>)"
    by (simp add: ids demo_session_def)
  from conjunct1 [OF sessions_come_from_approved_logins [OF this]] show ?thesis by blast
qed

end
