(* ===== verification/History_Model.thy ===== *)
theory History_Model
  imports Reviewed_Updates
begin

text \<open>
  The history page of a view: \<^verbatim>\<open>history.rs\<close> and \<^verbatim>\<open>history/\<close>. The projection of a view is replayed over a tree to
  find what each of its commits changed; the logical commits and visibility change sets then become entries, each with
  the identifier of the one before it and a generation that hashes everything before. The hash \<open>sha256_hex\<close> and the
  JSON text of views, \<open>views_json\<close>, are parameters. A \<^verbatim>\<open>HashMap\<close> is a partial function.
\<close>

section \<open>Entries\<close>

datatype file_change_kind = FileAdded | FileModified | FileDeleted

record history_entry_file =
  hef_path :: scope_path
  hef_kind :: file_change_kind
  hef_old_content :: "source_blob option"
  hef_new_content :: "source_blob option"
  hef_label :: view_id

record history_entry_visibility_change =
  hev_id :: string
  hev_path :: scope_path
  hev_old_label :: view_id
  hev_new_label :: view_id
  hev_file :: "history_entry_file option"

record history_native_commits =
  hnc_view :: view_id
  hnc_commits :: "native_request_commit list"

datatype history_entry_kind = EntryPush | EntryMergedRequest | EntryVisibilityChange | EntryViewsChange

record history_entry =
  hen_occurred_at_unix :: "int option"
  hen_id :: string
  hen_source_id :: string
  hen_parent_id :: "string option"
  hen_kind :: history_entry_kind
  hen_author :: "string option"
  hen_message :: string
  hen_files :: "history_entry_file list"
  hen_visibility_changes :: "history_entry_visibility_change list"
  hen_native_commits :: "history_native_commits option"
  hen_views :: "views_transition option"

record history_view =
  hv_repo_id :: string
  hv_view :: view_id
  hv_generation :: string
  hv_entries :: "history_entry list"

section \<open>Replaying a projection\<close>

record projected_action =
  act_author :: "string option"
  act_message :: string
  act_files :: "history_entry_file list"
  act_paths :: "scope_path set"
  act_preserves_git_commits :: bool

definition no_action :: projected_action where
  "no_action = \<lparr>act_author = None, act_message = [], act_files = [], act_paths = {}, act_preserves_git_commits = False\<rparr>"

record projection_history =
  ph_actions :: "string \<rightharpoonup> projected_action"
  ph_visibility :: "string \<rightharpoonup> history_entry_file option"
  ph_boundaries :: "string \<rightharpoonup> (scope_path \<times> view_id) list"

definition no_projection_history :: projection_history where
  "no_projection_history =
     \<lparr>ph_actions = Map.empty, ph_visibility = Map.empty, ph_boundaries = Map.empty\<rparr>"

definition visibility_change_id :: "string \<Rightarrow> scope_path \<Rightarrow> string" where
  "visibility_change_id set_id path = set_id @ '':'' @ as_str path"

text \<open>The tree after a change, and the file the history shows for it.\<close>

definition history_apply_change ::
  "projected_change \<Rightarrow> file_tree \<Rightarrow> file_tree \<times> history_entry_file option" where
  "history_apply_change change tree =
     (let old_content = bt_get tree (pc_path change);
          new_content = pc_new_content change;
          shown = (\<lambda>kind. Some \<lparr>hef_path = pc_path change, hef_kind = kind, hef_old_content = old_content,
                     hef_new_content = new_content, hef_label = pc_label change\<rparr>)
      in (apply_projected_change change tree,
          if source_content_matches old_content new_content then None
          else case (old_content, new_content) of
            (None, Some _) \<Rightarrow> shown FileAdded
          | (Some _, Some _) \<Rightarrow> shown FileModified
          | (Some _, None) \<Rightarrow> shown FileDeleted
          | (None, None) \<Rightarrow> None))"

definition replay_boundary ::
  "string \<Rightarrow> projected_change \<Rightarrow> file_tree \<times> projection_history \<Rightarrow> file_tree \<times> projection_history" where
  "replay_boundary set_id change = (\<lambda>(tree, ph).
     (let touches_visible_path = (bt_get tree (pc_path change) \<noteq> None \<or> pc_new_content change \<noteq> None);
          (tree', file) = history_apply_change change tree;
          recorded = (case ph_boundaries ph set_id of None \<Rightarrow> [] | Some b \<Rightarrow> b)
      in (tree',
          if touches_visible_path then
            ph\<lparr>ph_visibility := (ph_visibility ph)(visibility_change_id set_id (pc_path change) \<mapsto> file),
               ph_boundaries := (ph_boundaries ph)(set_id \<mapsto> recorded @ [(pc_path change, pc_label change)])\<rparr>
          else ph)))"

definition replay_content ::
  "projected_change \<Rightarrow> file_tree \<times> projected_action \<Rightarrow> file_tree \<times> projected_action" where
  "replay_content change = (\<lambda>(tree, action).
     (let (tree', file) = history_apply_change change tree;
          action' = action\<lparr>act_paths := insert (pc_path change) (act_paths action)\<rparr>
      in (tree', case file of None \<Rightarrow> action' | Some f \<Rightarrow> action'\<lparr>act_files := act_files action' @ [f]\<rparr>)))"

definition replay_commit ::
  "projected_commit \<Rightarrow> file_tree \<times> projection_history \<Rightarrow> file_tree \<times> projection_history" where
  "replay_commit commit = (\<lambda>(tree, ph).
     case pj_visibility_change_set_id commit of
       Some set_id \<Rightarrow> fold (replay_boundary set_id) (pj_changes commit) (tree, ph)
     | None \<Rightarrow>
         let action = (case ph_actions ph (pj_logical_commit_id commit) of None \<Rightarrow> no_action | Some a \<Rightarrow> a);
             preserved = (case pj_materialization commit of PreserveGitCommit _ _ _ \<Rightarrow> True | Generate \<Rightarrow> False);
             (tree', action') = fold replay_content (pj_changes commit)
               (tree, action\<lparr>act_preserves_git_commits := act_preserves_git_commits action \<or> preserved,
                             act_author := pj_author commit, act_message := pj_message commit\<rparr>)
         in (tree', ph\<lparr>ph_actions := (ph_actions ph)(pj_logical_commit_id commit \<mapsto> action')\<rparr>))"

definition ProjectionHistory_replay :: "file_tree \<Rightarrow> projection \<Rightarrow> projection_history" where
  "ProjectionHistory_replay tree projected =
     snd (fold replay_commit (pr_commits projected) (tree, no_projection_history))"

section \<open>Messages and summaries\<close>

definition visibility_reference_view :: "views \<Rightarrow> view_id \<Rightarrow> view_id option" where
  "visibility_reference_view views view = (if view = Views_full views then Views_anyone views else Some view)"

definition views_change_message :: "nat \<Rightarrow> string" where
  "views_change_message relabelled =
     (if relabelled = 0 then ''Updated views''
      else if relabelled = 1 then ''Updated views and 1 label''
      else ''Updated views and '' @ show_nat relabelled @ '' labels'')"

definition visibility_change_message ::
  "history_entry_visibility_change list \<Rightarrow> views \<Rightarrow> view_id option \<Rightarrow> string \<Rightarrow> string" where
  "visibility_change_message changes views reference reference_name =
     (let shown = (\<lambda>label. case reference of None \<Rightarrow> False | Some r \<Rightarrow> label \<in> Views_labels views r);
          entered = length (filter (\<lambda>c. shown (hev_new_label c) \<and> \<not> shown (hev_old_label c)) changes);
          left = length (filter (\<lambda>c. shown (hev_old_label c) \<and> \<not> shown (hev_new_label c)) changes);
          files = (\<lambda>n. if n = 1 then ''file'' else ''files'')
      in if left = 0 \<and> entered = length changes then
           show_nat entered @ '' '' @ files entered @ '' entered the '' @ reference_name @ '' view''
         else if entered = 0 \<and> left = length changes then
           show_nat left @ '' '' @ files left @ '' left the '' @ reference_name @ '' view''
         else ''Updated visibility for '' @ show_nat (length changes) @ '' '' @ files (length changes))"

definition message_in :: "history_entry \<Rightarrow> views \<Rightarrow> view_id \<Rightarrow> string" where
  "message_in entry views view =
     (if hen_kind entry = EntryVisibilityChange then
        let reference = visibility_reference_view views view in
        visibility_change_message (hen_visibility_changes entry) views reference
          (case reference of None \<Rightarrow> [] | Some r \<Rightarrow> Views_display_name views r)
      else hen_message entry)"

record history_visibility_summary =
  hvs_entered :: nat
  hvs_left :: nat

definition visibility_summary_view :: "views \<Rightarrow> view_id \<Rightarrow> view_id option" where
  "visibility_summary_view views view = (if view = Views_full views then Views_anyone views else Some view)"

definition visibility_summary :: "history_entry \<Rightarrow> views \<Rightarrow> view_id \<Rightarrow> history_visibility_summary" where
  "visibility_summary entry views view =
     (case visibility_summary_view views view of
        None \<Rightarrow> \<lparr>hvs_entered = 0, hvs_left = 0\<rparr>
      | Some measured \<Rightarrow>
          let views_before = (case hen_views entry of None \<Rightarrow> views | Some t \<Rightarrow> vt_before t);
              views_after = (case hen_views entry of None \<Rightarrow> views | Some t \<Rightarrow> vt_after t)
          in fold (\<lambda>change summary.
               let before = Views_shows views_before measured (hev_path change) (hev_old_label change);
                   after = Views_shows views_after measured (hev_path change) (hev_new_label change)
               in \<lparr>hvs_entered = hvs_entered summary + (if \<not> before \<and> after then 1 else 0),
                   hvs_left = hvs_left summary + (if before \<and> \<not> after then 1 else 0)\<rparr>)
             (hen_visibility_changes entry) \<lparr>hvs_entered = 0, hvs_left = 0\<rparr>)"

section \<open>From changes to entries\<close>

definition visibility_changes_for_action ::
  "visibility_change_set list \<Rightarrow> projected_action option \<Rightarrow> projection_history \<Rightarrow> views \<Rightarrow> view_id
   \<Rightarrow> history_entry_visibility_change list" where
  "visibility_changes_for_action sets content projected views view =
     concat (map (\<lambda>s. List.map_filter (\<lambda>change.
       let change_id = visibility_change_id (vs_id s) (vc_path change);
           boundary = ph_visibility projected change_id;
           visible_in_content = (case content of None \<Rightarrow> False | Some action \<Rightarrow> vc_path change \<in> act_paths action)
       in if view \<noteq> Views_full views \<and> boundary = None \<and> \<not> visible_in_content then None
          else Some \<lparr>hev_id = change_id, hev_path = vc_path change, hev_old_label = vc_old_label change,
                     hev_new_label = vc_new_label change, hev_file = Option.bind boundary (\<lambda>file. file)\<rparr>)
       (vs_changes s)) sets)"

definition views_boundary_changes ::
  "visibility_change_set \<Rightarrow> projection_history \<Rightarrow> history_entry_visibility_change list" where
  "views_boundary_changes s projected =
     map (\<lambda>(path, label).
         let change_id = visibility_change_id (vs_id s) path in
         \<lparr>hev_id = change_id, hev_path = path, hev_old_label = label, hev_new_label = label,
          hev_file = Option.bind (ph_visibility projected change_id) (\<lambda>file. file)\<rparr>)
       (filter (\<lambda>(path, label). path \<notin> vc_path ` set (vs_changes s))
         (case ph_boundaries projected (vs_id s) of None \<Rightarrow> [] | Some b \<Rightarrow> b))"

text \<open>The entry of one change set, if the view has one.\<close>

definition visibility_action ::
  "projection_history \<Rightarrow> views \<Rightarrow> view_id \<Rightarrow> visibility_change_set \<Rightarrow> history_entry option" where
  "visibility_action projected views view s =
     (let entry = (\<lambda>kind changes message.
            \<lparr>hen_occurred_at_unix = (if view = Views_full views then vs_occurred_at_unix s else None),
             hen_id = vs_id s, hen_source_id = vs_id s, hen_parent_id = None, hen_kind = kind,
             hen_author = (if view = Views_full views then Some (vs_author_id s) else None),
             hen_message = message, hen_files = [], hen_visibility_changes = changes,
             hen_native_commits = None, hen_views = vs_views s\<rparr>)
      in case vs_views s of
        Some _ \<Rightarrow>
          let source = Option.bind (vs_source_update_id s) (ph_actions projected);
              changes = visibility_changes_for_action [s] source projected views view
          in Some (entry EntryViewsChange (changes @ views_boundary_changes s projected)
               (views_change_message (length changes)))
      | None \<Rightarrow>
          let changes = visibility_changes_for_action [s] None projected views view;
              reference = visibility_reference_view views view
          in if changes = [] then None
             else Some (entry EntryVisibilityChange changes
               (visibility_change_message changes views reference
                 (case reference of None \<Rightarrow> [] | Some r \<Rightarrow> view_str r))))"

definition append_visibility_actions ::
  "visibility_change_set list \<Rightarrow> projection_history \<Rightarrow> views \<Rightarrow> view_id \<Rightarrow> history_entry list" where
  "append_visibility_actions sets projected views view = List.map_filter (visibility_action projected views view) sets"

definition action_metadata ::
  "logical_commit \<Rightarrow> projected_action option \<Rightarrow> views \<Rightarrow> view_id \<Rightarrow> string option \<times> string \<times> int option" where
  "action_metadata logical projected views view =
     (let (author, message) =
        (if view = Views_full views \<or> (case projected of None \<Rightarrow> False | Some a \<Rightarrow> act_preserves_git_commits a)
         then (Some (lc_author_id logical), lc_message logical)
         else case projected of
           Some a \<Rightarrow> (act_author a, act_message a)
         | None \<Rightarrow> (None, ''Projected public update''))
      in (author, message, if author \<noteq> None then lc_occurred_at_unix logical else None))"

definition shown_native_commits ::
  "logical_commit \<Rightarrow> projected_action option \<Rightarrow> views \<Rightarrow> view_id \<Rightarrow> history_native_commits option" where
  "shown_native_commits logical source views view =
     (case lc_origin logical of
        RequestMerge m \<Rightarrow>
          if view = Views_full views \<or> (case source of None \<Rightarrow> False | Some a \<Rightarrow> act_preserves_git_commits a)
          then Some \<lparr>hnc_view = rm_view m, hnc_commits = rm_commits m\<rparr> else None
      | _ \<Rightarrow> None)"

text \<open>The entry of a logical commit together with the change sets that came with it, if the view has one.\<close>

definition commit_action ::
  "projection_history \<Rightarrow> views \<Rightarrow> view_id \<Rightarrow> visibility_change_set list \<Rightarrow> logical_commit \<Rightarrow> history_entry option" where
  "commit_action projected views view sets logical =
     (let source = ph_actions projected (lc_id logical);
          visibility_changes = visibility_changes_for_action sets source projected views view;
          files = (case source of None \<Rightarrow> [] | Some a \<Rightarrow> act_files a);
          native_commits = shown_native_commits logical source views view
      in if files = [] \<and> visibility_changes = [] \<and> native_commits = None then None
         else let (author, message, occurred_at_unix) = action_metadata logical source views view in
           Some \<lparr>hen_occurred_at_unix = occurred_at_unix, hen_id = lc_id logical, hen_source_id = lc_id logical,
                 hen_parent_id = None,
                 hen_kind = (case lc_origin logical of CanonicalPush _ \<Rightarrow> EntryPush | _ \<Rightarrow> EntryMergedRequest),
                 hen_author = author, hen_message = message, hen_files = files,
                 hen_visibility_changes = visibility_changes, hen_native_commits = native_commits,
                 hen_views = None\<rparr>)"

text \<open>A set that came with a commit of the graph and leaves the views alone belongs to that commit.\<close>

definition source_in :: "source_graph \<Rightarrow> visibility_change_set \<Rightarrow> string option" where
  "source_in graph s =
     (case vs_source_update_id s of
        Some i \<Rightarrow> if vs_views s = None \<and> i \<in> lc_id ` set (sg_commits graph) then Some i else None
      | None \<Rightarrow> None)"

text \<open>
  The loop over the logical commits; both maps lose the entry of an identifier once it has been used.
\<close>

fun commit_actions ::
  "projection_history \<Rightarrow> views \<Rightarrow> view_id \<Rightarrow> (string \<Rightarrow> visibility_change_set list)
   \<Rightarrow> (string \<Rightarrow> visibility_change_set list) \<Rightarrow> logical_commit list \<Rightarrow> history_entry list" where
  "commit_actions projected views view by_source by_anchor [] = []"
| "commit_actions projected views view by_source by_anchor (logical # rest) =
     (case commit_action projected views view (by_source (lc_id logical)) logical of None \<Rightarrow> [] | Some e \<Rightarrow> [e])
     @ append_visibility_actions (by_anchor (lc_id logical)) projected views view
     @ commit_actions projected views view (by_source(lc_id logical := [])) (by_anchor(lc_id logical := [])) rest"

definition history_actions ::
  "projection_history \<Rightarrow> source_graph \<Rightarrow> visibility_change_set list \<Rightarrow> views \<Rightarrow> view_id \<Rightarrow> history_entry list" where
  "history_actions projected graph sets views view =
     (let unsourced = filter (\<lambda>s. source_in graph s = None) sets
      in append_visibility_actions (filter (\<lambda>s. anchored_in graph s = None) unsourced) projected views view
         @ commit_actions projected views view (\<lambda>i. filter (\<lambda>s. source_in graph s = Some i) sets)
             (\<lambda>i. filter (\<lambda>s. anchored_in graph s = Some i) unsourced) (sg_commits graph))"

section \<open>Generations\<close>

definition HISTORY_GENERATION_VERSION :: string where
  "HISTORY_GENERATION_VERSION = ''v11''"

definition u64_be_bytes :: "nat \<Rightarrow> string" where
  "u64_be_bytes n = map (\<lambda>i. char_of (n div 256 ^ i mod 256)) [7, 6, 5, 4, 3, 2, 1, 0]"

definition show_int :: "int \<Rightarrow> string" where
  "show_int n = (if n < 0 then ''-'' @ show_nat (nat (- n)) else show_nat (nat n))"

definition hash_field :: "string \<Rightarrow> string \<Rightarrow> string" where
  "hash_field label val = u64_be_bytes (length label) @ label @ u64_be_bytes (length val) @ val"

definition hash_optional_field :: "string \<Rightarrow> string option \<Rightarrow> string" where
  "hash_optional_field label val =
     (case val of
        Some v \<Rightarrow> hash_field label ''present'' @ hash_field label v
      | None \<Rightarrow> hash_field label ''absent'')"

definition hash_optional_blob :: "string \<Rightarrow> source_blob option \<Rightarrow> string" where
  "hash_optional_blob label blob =
     (case blob of
        Some b \<Rightarrow> hash_field label ''present'' @ hash_field ''sha256'' (sb_sha256 b) @ hash_field ''git_oid'' (sb_git_oid b)
          @ hash_field ''mode'' (sb_git_file_mode b) @ hash_field ''size'' (show_nat (sb_size_bytes b))
      | None \<Rightarrow> hash_field label ''absent'')"

definition history_generation_start :: "(string \<Rightarrow> string) \<Rightarrow> string \<Rightarrow> view_id \<Rightarrow> string" where
  "history_generation_start sha256_hex repository view =
     sha256_hex (hash_field ''semantics'' HISTORY_GENERATION_VERSION @ hash_field ''repo'' repository
       @ hash_field ''view'' (view_str view))"

definition entry_kind_str :: "history_entry_kind \<Rightarrow> string" where
  "entry_kind_str kind =
     (case kind of
        EntryPush \<Rightarrow> ''push''
      | EntryMergedRequest \<Rightarrow> ''merged_request''
      | EntryVisibilityChange \<Rightarrow> ''visibility_change''
      | EntryViewsChange \<Rightarrow> ''views_change'')"

definition generation_bytes :: "(views \<Rightarrow> string) \<Rightarrow> string \<Rightarrow> history_entry \<Rightarrow> string" where
  "generation_bytes views_json generation entry =
     hash_field ''generation'' generation @ hash_field ''entry'' (hen_id entry)
     @ hash_field ''source'' (hen_source_id entry) @ hash_field ''kind'' (entry_kind_str (hen_kind entry))
     @ hash_optional_field ''parent'' (hen_parent_id entry) @ hash_optional_field ''author'' (hen_author entry)
     @ hash_optional_field ''occurred_at'' (map_option show_int (hen_occurred_at_unix entry))
     @ hash_field ''message'' (hen_message entry)
     @ concat (map (\<lambda>c. hash_field ''native_oid'' (nrc_oid c) @ hash_field ''native_tree'' (nrc_tree_oid c)
          @ concat (map (hash_field ''native_parent'') (nrc_parent_oids c)))
         (case hen_native_commits entry of None \<Rightarrow> [] | Some native \<Rightarrow> hnc_commits native))
     @ concat (map (\<lambda>f. hash_field ''path'' (as_str (hef_path f)) @ hash_field ''visibility'' (view_str (hef_label f))
          @ hash_optional_blob ''old'' (hef_old_content f) @ hash_optional_blob ''new'' (hef_new_content f))
         (hen_files entry))
     @ concat (map (\<lambda>c. hash_field ''visibility_change_id'' (hev_id c)
          @ (case hev_file c of
               Some f \<Rightarrow> hash_optional_blob ''visibility_old'' (hef_old_content f)
                 @ hash_optional_blob ''visibility_new'' (hef_new_content f)
             | None \<Rightarrow> [])
          @ hash_field ''visibility_path'' (as_str (hev_path c))
          @ hash_field ''old_label'' (view_str (hev_old_label c)) @ hash_field ''new_label'' (view_str (hev_new_label c)))
         (hen_visibility_changes entry))
     @ (case hen_views entry of
          None \<Rightarrow> []
        | Some t \<Rightarrow> hash_field ''views_before'' (views_json (vt_before t))
            @ hash_field ''views_after'' (views_json (vt_after t)))"

definition history_generation_after ::
  "(string \<Rightarrow> string) \<Rightarrow> (views \<Rightarrow> string) \<Rightarrow> string \<Rightarrow> history_entry \<Rightarrow> string" where
  "history_generation_after sha256_hex views_json generation entry =
     sha256_hex (generation_bytes views_json generation entry)"

section \<open>The history of a view\<close>

record history_cursor =
  hcu_last_entry_id :: "string option"
  hcu_generation :: string

definition HistoryCursor_start :: "(string \<Rightarrow> string) \<Rightarrow> string \<Rightarrow> view_id \<Rightarrow> history_cursor" where
  "HistoryCursor_start sha256_hex repository view =
     \<lparr>hcu_last_entry_id = None, hcu_generation = history_generation_start sha256_hex repository view\<rparr>"

text \<open>Each entry names the one before it, and the generation runs through all of them.\<close>

fun link_entries ::
  "(string \<Rightarrow> string) \<Rightarrow> (views \<Rightarrow> string) \<Rightarrow> history_cursor \<Rightarrow> history_entry list \<Rightarrow> history_cursor \<times> history_entry list" where
  "link_entries sha256_hex views_json cursor [] = (cursor, [])"
| "link_entries sha256_hex views_json cursor (entry # rest) =
     (let linked = entry\<lparr>hen_parent_id := hcu_last_entry_id cursor\<rparr>;
          cursor' = \<lparr>hcu_last_entry_id = Some (hen_id entry),
                     hcu_generation = history_generation_after sha256_hex views_json (hcu_generation cursor) linked\<rparr>;
          (end_cursor, linked_rest) = link_entries sha256_hex views_json cursor' rest
      in (end_cursor, linked # linked_rest))"

definition history_entries_after ::
  "(string \<Rightarrow> string) \<Rightarrow> (views \<Rightarrow> string) \<Rightarrow> history_cursor \<Rightarrow> file_tree \<Rightarrow> projection \<Rightarrow> source_graph
   \<Rightarrow> visibility_change_set list \<Rightarrow> views \<Rightarrow> view_id \<Rightarrow> history_cursor \<times> history_entry list" where
  "history_entries_after sha256_hex views_json cursor tree projected graph sets views view =
     link_entries sha256_hex views_json cursor
       (history_actions (ProjectionHistory_replay tree projected) graph sets views view)"

definition history_view_from_projection ::
  "(string \<Rightarrow> string) \<Rightarrow> (views \<Rightarrow> string) \<Rightarrow> projection \<Rightarrow> source_graph \<Rightarrow> visibility_change_set list \<Rightarrow> views
   \<Rightarrow> view_id \<Rightarrow> history_view" where
  "history_view_from_projection sha256_hex views_json projected graph sets views view =
     (let (cursor, entries) = history_entries_after sha256_hex views_json
            (HistoryCursor_start sha256_hex (pr_repo_id projected) view) [] projected graph sets views view
      in \<lparr>hv_repo_id = pr_repo_id projected, hv_view = view, hv_generation = hcu_generation cursor,
          hv_entries = rev entries\<rparr>)"

definition history_view_of ::
  "(string \<Rightarrow> string) \<Rightarrow> (views \<Rightarrow> string) \<Rightarrow> source_graph \<Rightarrow> visibility_change_set list \<Rightarrow> views \<Rightarrow> view_id
   \<Rightarrow> history_view" where
  "history_view_of sha256_hex views_json graph sets views view =
     history_view_from_projection sha256_hex views_json (project_graph graph sets views view) graph sets views view"

datatype history_feed = FeedUpdates | FeedAll | FeedVisibility

fun HistoryFeed_as_str :: "history_feed \<Rightarrow> string" where
  "HistoryFeed_as_str FeedUpdates = ''updates''"
| "HistoryFeed_as_str FeedAll = ''all''"
| "HistoryFeed_as_str FeedVisibility = ''visibility''"

definition HistoryFeed_generation :: "(string \<Rightarrow> string) \<Rightarrow> history_feed \<Rightarrow> string \<Rightarrow> string \<Rightarrow> string \<Rightarrow> string" where
  "HistoryFeed_generation sha256_hex feed history_generation repository view =
     sha256_hex (concat (map (\<lambda>val. u64_be_bytes (length val) @ val)
       [history_generation, repository, view, HistoryFeed_as_str feed]))"

section \<open>The files at an entry\<close>

record history_tree_file =
  htf_path :: scope_path
  htf_content :: source_blob
  htf_label :: view_id

type_synonym replayed_tree = "(scope_path, history_tree_file) btree_map"

definition apply_file :: "history_entry_file \<Rightarrow> replayed_tree \<Rightarrow> replayed_tree" where
  "apply_file f tree =
     (case hef_new_content f of
        Some content \<Rightarrow>
          bt_insert (hef_path f) \<lparr>htf_path = hef_path f, htf_content = content, htf_label = hef_label f\<rparr> tree
      | None \<Rightarrow> bt_remove (hef_path f) tree)"

definition apply_visibility_change :: "history_entry_visibility_change \<Rightarrow> replayed_tree \<Rightarrow> replayed_tree" where
  "apply_visibility_change change tree =
     (case hev_file change of
        Some f \<Rightarrow> apply_file f tree
      | None \<Rightarrow>
          (case bt_get tree (hev_path change) of
             Some f \<Rightarrow> bt_insert (hev_path change) (f\<lparr>htf_label := hev_new_label change\<rparr>) tree
           | None \<Rightarrow> tree))"

definition apply_entry :: "history_entry \<Rightarrow> replayed_tree \<Rightarrow> replayed_tree" where
  "apply_entry entry tree =
     fold apply_visibility_change (hen_visibility_changes entry) (fold apply_file (hen_files entry) tree)"

definition history_tree :: "history_entry list \<Rightarrow> history_tree_file list" where
  "history_tree entries = map snd (fold apply_entry entries [])"

end
