(* ===== verification/History_Facts.thy ===== *)
theory History_Facts
  imports History_Model Incremental_Projection Live_Views
begin

text \<open>
  Replaying in two parts: what the replay records for a commit or a change set depends only on the tree it meets and on
  the projected commits of its own identifier. From there: the history of a view folded in steps, from a stored cursor
  and tree, is the history folded at once.

  The files at the end of a history: replaying the entries of a view gives, path by path, the tree of its projection.
  One step of a history grown by updates is a change set, a commit, or a set and the commit it came with.
\<close>

section \<open>What a replay records\<close>

definition action_keys :: "projected_commit list \<Rightarrow> string set" where
  "action_keys cs = pj_logical_commit_id ` {c \<in> set cs. pj_visibility_change_set_id c = None}"

definition boundary_keys :: "projected_commit list \<Rightarrow> string set" where
  "boundary_keys cs = {i. \<exists>c \<in> set cs. pj_visibility_change_set_id c = Some i}"

definition visibility_keys :: "projected_commit list \<Rightarrow> string set" where
  "visibility_keys cs = {visibility_change_id i (pc_path d) | i c d.
     c \<in> set cs \<and> pj_visibility_change_set_id c = Some i \<and> d \<in> set (pj_changes c)}"

lemma visibility_keysI:
  "c \<in> set cs \<Longrightarrow> pj_visibility_change_set_id c = Some i \<Longrightarrow> d \<in> set (pj_changes c)
   \<Longrightarrow> visibility_change_id i (pc_path d) \<in> visibility_keys cs"
  by (auto simp: visibility_keys_def)

lemma keys_append [simp]:
  "action_keys (cs @ cs') = action_keys cs \<union> action_keys cs'"
  "boundary_keys (cs @ cs') = boundary_keys cs \<union> boundary_keys cs'"
  "visibility_keys (cs @ cs') = visibility_keys cs \<union> visibility_keys cs'"
  by (auto simp: action_keys_def boundary_keys_def visibility_keys_def)

lemma keys_Nil [simp]: "action_keys [] = {}" "boundary_keys [] = {}" "visibility_keys [] = {}"
  by (auto simp: action_keys_def boundary_keys_def visibility_keys_def)

definition ph_add :: "projection_history \<Rightarrow> projection_history \<Rightarrow> projection_history" where
  "ph_add a b =
     \<lparr>ph_actions = ph_actions a ++ ph_actions b, ph_visibility = ph_visibility a ++ ph_visibility b,
      ph_boundaries = ph_boundaries a ++ ph_boundaries b\<rparr>"

lemma ph_add_simps [simp]:
  "ph_actions (ph_add a b) = ph_actions a ++ ph_actions b"
  "ph_visibility (ph_add a b) = ph_visibility a ++ ph_visibility b"
  "ph_boundaries (ph_add a b) = ph_boundaries a ++ ph_boundaries b"
  by (simp_all add: ph_add_def)

lemma map_add_unless:
  "n k = None \<Longrightarrow> (m ++ n) k = m k" "m k = None \<Longrightarrow> (m ++ n) k = n k"
  by (simp_all add: map_add_def split: option.split)

lemma no_history_simps [simp]:
  "ph_actions no_projection_history = Map.empty" "ph_visibility no_projection_history = Map.empty"
  "ph_boundaries no_projection_history = Map.empty"
  by (simp_all add: no_projection_history_def)

lemma ph_add_empty [simp]: "ph_add a no_projection_history = a"
  by (simp add: ph_add_def)

lemma replay_content_tree [simp]: "fst (fold replay_content cs (t, a)) = fold apply_projected_change cs t"
  by (induction cs arbitrary: t a) (simp_all add: replay_content_def history_apply_change_def Let_def)

lemma replay_boundary_tree [simp]: "fst (fold (replay_boundary i) cs (t, ph)) = fold apply_projected_change cs t"
  by (induction cs arbitrary: t ph) (simp_all add: replay_boundary_def history_apply_change_def Let_def)

lemma replay_commit_tree [simp]: "fst (replay_commit c (t, ph)) = fold apply_projected_change (pj_changes c) t"
  by (cases "pj_visibility_change_set_id c")
    (simp_all add: replay_commit_def case_prod_beta Let_def)

lemma replay_tree [simp]: "fst (fold replay_commit cs (t, ph)) = fold apply_projected_change (all_changes cs) t"
proof (induction cs arbitrary: t ph)
  case (Cons c cs)
  obtain t' ph' where r: "replay_commit c (t, ph) = (t', ph')" by (cases "replay_commit c (t, ph)")
  then have "t' = fold apply_projected_change (pj_changes c) t" using replay_commit_tree [of c t ph] by (simp only: fst_conv)
  with r Cons [of t' ph'] show ?case by (simp del: apply_projected_change.simps)
qed simp

lemma replay_boundary_add:
  assumes "\<forall>d \<in> set cs. ph_visibility a (visibility_change_id i (pc_path d)) = None" and "ph_boundaries a i = None"
  shows "fold (replay_boundary i) cs (t, ph_add a b)
    = (let (t', b') = fold (replay_boundary i) cs (t, b) in (t', ph_add a b'))"
  using assms
proof (induction cs arbitrary: t b)
  case (Cons d cs)
  have "replay_boundary i d (t, ph_add a b) = (let (t', b') = replay_boundary i d (t, b) in (t', ph_add a b'))"
    using Cons.prems by (auto simp: replay_boundary_def Let_def case_prod_beta ph_add_def map_add_def split: option.splits)
  with Cons.IH [of "fst (replay_boundary i d (t, b))" "snd (replay_boundary i d (t, b))"] Cons.prems show ?case
    by (simp add: case_prod_beta Let_def)
qed simp

lemma replay_commit_add:
  assumes "pj_visibility_change_set_id c = None \<longrightarrow> ph_actions a (pj_logical_commit_id c) = None"
    and "\<forall>i. pj_visibility_change_set_id c = Some i \<longrightarrow> ph_boundaries a i = None
      \<and> (\<forall>d \<in> set (pj_changes c). ph_visibility a (visibility_change_id i (pc_path d)) = None)"
  shows "replay_commit c (t, ph_add a b) = (let (t', b') = replay_commit c (t, b) in (t', ph_add a b'))"
proof (cases "pj_visibility_change_set_id c")
  case None
  then have "(ph_actions a ++ ph_actions b) (pj_logical_commit_id c) = ph_actions b (pj_logical_commit_id c)"
    using assms(1) by (simp add: map_add_def split: option.split)
  then show ?thesis
    using None by (simp add: replay_commit_def Let_def case_prod_beta ph_add_def)
next
  case (Some i)
  then show ?thesis
    using replay_boundary_add [of "pj_changes c" a i t b] assms(2) by (simp add: replay_commit_def)
qed

lemma replay_add:
  assumes "\<forall>k \<in> action_keys cs. ph_actions a k = None" and "\<forall>k \<in> boundary_keys cs. ph_boundaries a k = None"
    and "\<forall>k \<in> visibility_keys cs. ph_visibility a k = None"
  shows "fold replay_commit cs (t, ph_add a b) = (let (t', b') = fold replay_commit cs (t, b) in (t', ph_add a b'))"
  using assms
proof (induction cs arbitrary: t b)
  case (Cons c cs)
  have "replay_commit c (t, ph_add a b) = (let (t', b') = replay_commit c (t, b) in (t', ph_add a b'))"
    by (rule replay_commit_add)
      (use Cons.prems visibility_keysI [of c "c # cs"] in \<open>auto simp: action_keys_def boundary_keys_def\<close>)
  moreover have "\<forall>k \<in> action_keys cs. ph_actions a k = None" "\<forall>k \<in> boundary_keys cs. ph_boundaries a k = None"
    "\<forall>k \<in> visibility_keys cs. ph_visibility a k = None"
    using Cons.prems keys_append [of "[c]" cs] by auto
  moreover obtain t' b' where "replay_commit c (t, b) = (t', b')" by (cases "replay_commit c (t, b)")
  ultimately show ?case using Cons.IH [of t' b'] by simp
qed simp

text \<open>Nothing else is recorded.\<close>

lemma replay_boundary_dom:
  assumes "k \<notin> visibility_change_id i ` pc_path ` set cs"
  shows "ph_visibility (snd (fold (replay_boundary i) cs x)) k = ph_visibility (snd x) k"
  using assms by (induction cs arbitrary: x) (simp_all add: replay_boundary_def case_prod_beta Let_def)

lemma replay_boundary_frame:
  "ph_actions (snd (fold (replay_boundary i) cs x)) = ph_actions (snd x)"
  "k \<noteq> i \<Longrightarrow> ph_boundaries (snd (fold (replay_boundary i) cs x)) k = ph_boundaries (snd x) k"
  by (induction cs arbitrary: x) (simp_all add: replay_boundary_def case_prod_beta Let_def)

lemma replay_frame:
  "k \<notin> action_keys cs \<Longrightarrow> ph_actions (snd (fold replay_commit cs x)) k = ph_actions (snd x) k"
  "k \<notin> boundary_keys cs \<Longrightarrow> ph_boundaries (snd (fold replay_commit cs x)) k = ph_boundaries (snd x) k"
  "k \<notin> visibility_keys cs \<Longrightarrow> ph_visibility (snd (fold replay_commit cs x)) k = ph_visibility (snd x) k"
proof (induction cs arbitrary: x)
  case (Cons c cs)
  have keys: "action_keys (c # cs) = action_keys [c] \<union> action_keys cs"
    "boundary_keys (c # cs) = boundary_keys [c] \<union> boundary_keys cs"
    "visibility_keys (c # cs) = visibility_keys [c] \<union> visibility_keys cs"
    using keys_append [of "[c]" cs] by simp_all
  {
    case 1
    then have "pj_visibility_change_set_id c = None \<Longrightarrow> k \<noteq> pj_logical_commit_id c" by (auto simp: action_keys_def)
    then have "ph_actions (snd (replay_commit c x)) k = ph_actions (snd x) k"
      by (cases "pj_visibility_change_set_id c")
        (simp_all add: replay_commit_def replay_boundary_frame(1) case_prod_beta Let_def)
    with 1 keys Cons.IH(1) [of "replay_commit c x"] show ?case by simp
  next
    case 2
    then have "pj_visibility_change_set_id c \<noteq> Some k" by (auto simp: boundary_keys_def)
    then have "ph_boundaries (snd (replay_commit c x)) k = ph_boundaries (snd x) k"
      by (cases "pj_visibility_change_set_id c")
        (simp_all add: replay_commit_def replay_boundary_frame(2) case_prod_beta Let_def)
    with 2 keys Cons.IH(2) [of "replay_commit c x"] show ?case by simp
  next
    case 3
    have "ph_visibility (snd (replay_commit c x)) k = ph_visibility (snd x) k"
    proof (cases "pj_visibility_change_set_id c")
      case (Some i)
      then have "k \<notin> visibility_change_id i ` pc_path ` set (pj_changes c)"
        using 3 by (auto simp: visibility_keys_def)
      from replay_boundary_dom [OF this] Some show ?thesis by (cases x) (simp add: replay_commit_def)
    qed (simp add: replay_commit_def case_prod_beta Let_def)
    with 3 keys Cons.IH(3) [of "replay_commit c x"] show ?case by simp
  }
qed simp_all

lemma replay_split:
  assumes "action_keys cs \<inter> action_keys cs' = {}" and "boundary_keys cs \<inter> boundary_keys cs' = {}"
    and "visibility_keys cs \<inter> visibility_keys cs' = {}"
  shows "snd (fold replay_commit (cs @ cs') (t, no_projection_history))
    = ph_add (snd (fold replay_commit cs (t, no_projection_history)))
        (snd (fold replay_commit cs' (fold apply_projected_change (all_changes cs) t, no_projection_history)))"
proof -
  let ?x = "fold replay_commit cs (t, no_projection_history)"
  have "\<forall>k \<in> action_keys cs'. ph_actions (snd ?x) k = None" "\<forall>k \<in> boundary_keys cs'. ph_boundaries (snd ?x) k = None"
    "\<forall>k \<in> visibility_keys cs'. ph_visibility (snd ?x) k = None"
    using assms replay_frame [of _ cs "(t, no_projection_history)"] unfolding disjoint_iff snd_conv no_history_simps
    by blast+
  from replay_add [OF this, of "fst ?x" no_projection_history] show ?thesis
    using replay_tree [of cs t no_projection_history] by (cases ?x) (simp add: case_prod_beta Let_def)
qed

section \<open>Entries step by step\<close>

definition step_entries ::
  "projection_history \<Rightarrow> views \<Rightarrow> view_id \<Rightarrow> (string \<Rightarrow> visibility_change_set list) \<Rightarrow> fold_step \<Rightarrow> history_entry list" where
  "step_entries ph views view by_source step =
     (case step of
        StepCommit c \<Rightarrow> option_list (commit_action ph views view (by_source (lc_id c)) c)
      | StepSet s \<Rightarrow> option_list (visibility_action ph views view s))"

lemma append_actions_steps:
  "append_visibility_actions sets ph views view = concat (map (step_entries ph views view f) (map StepSet sets))"
  by (induction sets) (simp_all add: append_visibility_actions_def step_entries_def map_filter_simps split: option.split)

lemma StepCommit_emit: "StepCommit c \<in> set (emit_commits f cs) \<Longrightarrow> c \<in> set cs"
  by (induction cs arbitrary: f) auto

lemma commit_actions_steps:
  "distinct (map lc_id cs) \<Longrightarrow>
   commit_actions ph views view f g cs = concat (map (step_entries ph views view f) (emit_commits g cs))"
proof (induction cs arbitrary: f g)
  case (Cons c cs)
  have "step_entries ph views view (f(lc_id c := [])) step = step_entries ph views view f step"
    if "step \<in> set (emit_commits (g(lc_id c := [])) cs)" for step
  proof (cases step)
    case (StepCommit b)
    with that StepCommit_emit have "lc_id b \<in> lc_id ` set cs" by blast
    moreover have "lc_id c \<notin> lc_id ` set cs" using Cons.prems by simp
    ultimately have "lc_id b \<noteq> lc_id c" by metis
    with StepCommit show ?thesis by (simp add: step_entries_def)
  qed (simp add: step_entries_def)
  then have m: "map (step_entries ph views view (f(lc_id c := []))) (emit_commits (g(lc_id c := [])) cs)
      = map (step_entries ph views view f) (emit_commits (g(lc_id c := [])) cs)"
    by (rule map_cong [OF refl])
  have "commit_actions ph views view (f(lc_id c := [])) (g(lc_id c := [])) cs
      = concat (map (step_entries ph views view f) (emit_commits (g(lc_id c := [])) cs))"
    unfolding m [symmetric] using Cons by simp
  then show ?case
    by (simp add: append_actions_steps [of _ _ _ _ f] step_entries_def [of _ _ _ _ "StepCommit c"] del: fun_upd_apply)
qed simp

lemma history_actions_steps:
  assumes "distinct (commit_ids g)"
  shows "history_actions ph g sets views view
    = concat (map (step_entries ph views view (\<lambda>i. filter (\<lambda>s. source_in g s = Some i) sets))
        (fold_steps g (filter (\<lambda>s. source_in g s = None) sets)))"
  using assms
  by (simp add: history_actions_def Let_def fold_steps_def commit_actions_steps
      append_actions_steps [of _ _ _ _ "\<lambda>i. filter (\<lambda>s. source_in g s = Some i) sets"])

lemma source_in_append:
  assumes "\<forall>i. vs_source_update_id s = Some i \<longrightarrow> i \<notin> set (commit_ids d)"
  shows "source_in (append_history g d) s = source_in g s"
  using assms by (auto simp: source_in_def append_history_def image_Un split: option.split)

lemma source_in_delta:
  assumes "\<forall>i. vs_source_update_id s = Some i \<longrightarrow> i \<in> set (commit_ids d)"
  shows "source_in (append_history g d) s = source_in d s"
  using assms by (auto simp: source_in_def append_history_def image_Un split: option.split)

lemma source_in_SomeD: "source_in g s = Some i \<Longrightarrow> vs_source_update_id s = Some i \<and> vs_views s = None \<and> i \<in> set (commit_ids g)"
  by (auto simp: source_in_def split: option.splits if_splits)

text \<open>What has been appended makes its own entries and leaves those before it alone.\<close>

lemma history_actions_append:
  assumes ids: "distinct (commit_ids g @ commit_ids d)"
    and old: "\<forall>s \<in> set s1. \<forall>c \<in> set (sg_commits d).
      vs_anchor_commit_id s \<noteq> Some (lc_id c) \<and> vs_source_update_id s \<noteq> Some (lc_id c)"
    and delta: "projection_delta_appends (last_commit_id g) (sg_commits d) s2"
  shows "history_actions ph (append_history g d) (s1 @ s2) views view
    = history_actions ph g s1 views view @ history_actions ph d s2 views view"
proof -
  let ?gd = "append_history g d"
  have src1: "source_in ?gd s = source_in g s" if "s \<in> set s1" for s
    using old that by (intro source_in_append) auto
  have src2: "source_in ?gd s = source_in d s" if "s \<in> set s2" for s
    using delta_appendsD(2) [OF delta that] by (intro source_in_delta) force
  have f1: "filter (\<lambda>s. source_in ?gd s = x) s1 = filter (\<lambda>s. source_in g s = x) s1" for x
    using src1 by (auto intro: filter_cong)
  have f2: "filter (\<lambda>s. source_in ?gd s = x) s2 = filter (\<lambda>s. source_in d s = x) s2" for x
    using src2 by (auto intro: filter_cong)
  have g2: "filter (\<lambda>s. source_in d s = Some i) s2 = []" if "i \<in> set (commit_ids g)" for i
    using that ids by (auto simp: filter_empty_conv dest!: source_in_SomeD)
  have d1: "filter (\<lambda>s. source_in g s = Some i) s1 = []" if "i \<in> set (commit_ids d)" for i
    using that ids by (auto simp: filter_empty_conv dest!: source_in_SomeD)
  have steps: "fold_steps ?gd (filter (\<lambda>s. source_in ?gd s = None) (s1 @ s2))
      = fold_steps g (filter (\<lambda>s. source_in g s = None) s1) @ fold_steps d (filter (\<lambda>s. source_in d s = None) s2)"
    unfolding filter_append f1 f2
  proof (rule fold_steps_append [OF ids])
    show "\<forall>s \<in> set (filter (\<lambda>s. source_in g s = None) s1). \<forall>i. vs_anchor_commit_id s = Some i \<longrightarrow> i \<notin> set (commit_ids d)"
      using old by auto
    show "projection_delta_appends (last_commit_id g) (sg_commits d) (filter (\<lambda>s. source_in d s = None) s2)"
      using delta by (simp add: projection_delta_appends_def Let_def)
  qed
  have e1: "step_entries ph views view (\<lambda>i. filter (\<lambda>s. source_in ?gd s = Some i) (s1 @ s2)) step
      = step_entries ph views view (\<lambda>i. filter (\<lambda>s. source_in g s = Some i) s1) step"
    if "step \<in> set (fold_steps g ss)" for step ss
  proof (cases step)
    case (StepCommit c)
    with that have "lc_id c \<in> set (commit_ids g)" by (simp add: StepCommit_fold_steps)
    with StepCommit show ?thesis by (simp add: step_entries_def f1 f2 g2)
  qed (simp add: step_entries_def)
  have e2: "step_entries ph views view (\<lambda>i. filter (\<lambda>s. source_in ?gd s = Some i) (s1 @ s2)) step
      = step_entries ph views view (\<lambda>i. filter (\<lambda>s. source_in d s = Some i) s2) step"
    if "step \<in> set (fold_steps d ss)" for step ss
  proof (cases step)
    case (StepCommit c)
    with that have "lc_id c \<in> set (commit_ids d)" by (simp add: StepCommit_fold_steps)
    with StepCommit show ?thesis by (simp add: step_entries_def f1 f2 d1)
  qed (simp add: step_entries_def)
  have "distinct (commit_ids g)" "distinct (commit_ids d)" "distinct (commit_ids ?gd)" using ids by simp_all
  then show ?thesis
    by (simp only: history_actions_steps steps map_append concat_append e1 e2 cong: map_cong)
qed

section \<open>Which records a step reads\<close>

lemma visibility_action_cong:
  assumes "\<And>p. ph_visibility ph (visibility_change_id (vs_id s) p) = ph_visibility ph' (visibility_change_id (vs_id s) p)"
    and "ph_boundaries ph (vs_id s) = ph_boundaries ph' (vs_id s)"
    and "\<And>i. vs_source_update_id s = Some i \<Longrightarrow> ph_actions ph i = ph_actions ph' i"
  shows "visibility_action ph views view s = visibility_action ph' views view s"
proof -
  have b: "Option.bind (vs_source_update_id s) (ph_actions ph) = Option.bind (vs_source_update_id s) (ph_actions ph')"
    using assms(3) by (cases "vs_source_update_id s") simp_all
  have vc: "visibility_changes_for_action [s] content ph views view = visibility_changes_for_action [s] content ph' views view" for content
    unfolding visibility_changes_for_action_def by (simp add: assms(1))
  have vb: "views_boundary_changes s ph = views_boundary_changes s ph'"
    unfolding views_boundary_changes_def by (simp add: assms(1,2))
  show ?thesis unfolding visibility_action_def b vc vb ..
qed

lemma commit_action_cong:
  assumes "\<And>s p. s \<in> set sets \<Longrightarrow>
      ph_visibility ph (visibility_change_id (vs_id s) p) = ph_visibility ph' (visibility_change_id (vs_id s) p)"
    and "ph_actions ph (lc_id c) = ph_actions ph' (lc_id c)"
  shows "commit_action ph views view sets c = commit_action ph' views view sets c"
proof -
  have "visibility_changes_for_action sets source ph views view = visibility_changes_for_action sets source ph' views view" for source
    unfolding visibility_changes_for_action_def using assms(1) by (simp cong: map_cong)
  then show ?thesis unfolding commit_action_def assms(2) by simp
qed

lemma history_actions_cong:
  assumes "distinct (commit_ids g)"
    and "\<And>s p. s \<in> set sets \<Longrightarrow>
      ph_visibility ph (visibility_change_id (vs_id s) p) = ph_visibility ph' (visibility_change_id (vs_id s) p)
      \<and> ph_boundaries ph (vs_id s) = ph_boundaries ph' (vs_id s)"
    and "\<And>s i. s \<in> set sets \<Longrightarrow> vs_source_update_id s = Some i \<Longrightarrow> ph_actions ph i = ph_actions ph' i"
    and "\<And>i. i \<in> set (commit_ids g) \<Longrightarrow> ph_actions ph i = ph_actions ph' i"
  shows "history_actions ph g sets views view = history_actions ph' g sets views view"
proof -
  have "step_entries ph views view (\<lambda>i. filter (\<lambda>s. source_in g s = Some i) sets) step
      = step_entries ph' views view (\<lambda>i. filter (\<lambda>s. source_in g s = Some i) sets) step"
    if "step \<in> set (fold_steps g (filter (\<lambda>s. source_in g s = None) sets))" for step
  proof (cases step)
    case (StepCommit c)
    with that have "c \<in> set (sg_commits g)" by (simp add: StepCommit_fold_steps)
    then have "commit_action ph views view (filter (\<lambda>s. source_in g s = Some (lc_id c)) sets) c
        = commit_action ph' views view (filter (\<lambda>s. source_in g s = Some (lc_id c)) sets) c"
      using assms(2,4) by (intro commit_action_cong) auto
    with StepCommit show ?thesis by (simp add: step_entries_def)
  next
    case (StepSet s)
    with that StepSet_fold_steps have "s \<in> set sets" by fastforce
    then have "visibility_action ph views view s = visibility_action ph' views view s"
      using assms(2,3) by (intro visibility_action_cong) auto
    with StepSet show ?thesis by (simp add: step_entries_def)
  qed
  then show ?thesis
    unfolding history_actions_steps [OF assms(1)] by (simp cong: map_cong)
qed

section \<open>The commits of a projection\<close>

lemma visibility_change_id_eq:
  assumes "CHR '':'' \<notin> set i" and "CHR '':'' \<notin> set j" and "visibility_change_id i p = visibility_change_id j q"
  shows "i = j \<and> p = q"
proof -
  have eq: "i @ CHR '':'' # as_str p = j @ CHR '':'' # as_str q" using assms(3) by (simp add: visibility_change_id_def)
  have before: "takeWhile (\<lambda>c. c \<noteq> CHR '':'') (k @ CHR '':'' # r) = k" if "CHR '':'' \<notin> set k" for k r
    using that by (subst takeWhile_append2) auto
  from before [OF assms(1)] before [OF assms(2)] eq have "i = j" by metis
  with eq show ?thesis by (simp add: scope_path.expand)
qed

definition commit_of :: "source_graph \<Rightarrow> visibility_change_set list \<Rightarrow> projected_commit \<Rightarrow> bool" where
  "commit_of g sets c \<longleftrightarrow>
     (case pj_visibility_change_set_id c of
        None \<Rightarrow> pj_logical_commit_id c \<in> set (commit_ids g)
      | Some i \<Rightarrow> i \<in> vs_id ` set sets)"

lemma step_commit_of:
  assumes "step \<in> set (fold_steps g sets)" and "list_all (commit_of g sets) (vf_commits vf)"
  shows "list_all (commit_of g sets) (vf_commits (ViewFold_step cur view by_id step vf))"
proof (cases step)
  case (StepCommit c)
  with assms(1) have "lc_id c \<in> set (commit_ids g)" by (simp add: StepCommit_fold_steps)
  then show ?thesis
    using assms(2) StepCommit
    by (auto simp: ViewFold_step_def ViewFold_commit_def ViewFold_project_content_def Let_def commit_of_def list_all_iff
        native_projected_commit_def split: option.split)
next
  case (StepSet s)
  with assms(1) StepSet_fold_steps have "s \<in> set sets" by blast
  then show ?thesis
    using assms(2) StepSet by (simp add: ViewFold_step_def ViewFold_set_def Let_def commit_of_def set_commit_def)
qed

lemma projection_commit_of: "list_all (commit_of g sets) (pr_commits (project_graph_after cur t g sets view))"
proof -
  have "list_all (commit_of g sets) (vf_commits (fold (ViewFold_step cur view by_id) steps vf))"
    if "set steps \<subseteq> set (fold_steps g sets)" "list_all (commit_of g sets) (vf_commits vf)" for steps vf by_id
    using that by (induction steps arbitrary: vf) (simp_all add: step_commit_of)
  note narrow = this
  have full: "list_all (commit_of g sets) (fst (fold (full_step cur view) cs acc))"
    if "set cs \<subseteq> set (sg_commits g)" "list_all (commit_of g sets) (fst acc)" for cs acc
    using that
  proof (induction cs arbitrary: acc)
    case (Cons c cs)
    have "list_all (commit_of g sets) (fst (full_step cur view c acc))"
      using Cons.prems by (cases acc) (auto simp: full_step_def Let_def commit_of_def list_all_iff)
    with Cons show ?case by simp
  qed simp
  show ?thesis
  proof (cases "view = Views_full (cur_views cur)")
    case True
    show ?thesis
      unfolding project_graph_after_def if_P [OF True] project_full_graph_def by (simp add: full)
  qed (simp add: project_graph_after_def narrow)
qed

lemma keys_of:
  assumes "list_all (commit_of g sets) cs"
  shows "action_keys cs \<subseteq> set (commit_ids g)" and "boundary_keys cs \<subseteq> vs_id ` set sets"
    and "visibility_keys cs \<subseteq> {visibility_change_id (vs_id s) p | s p. s \<in> set sets}"
  using assms by (fastforce simp: list_all_iff commit_of_def action_keys_def boundary_keys_def visibility_keys_def)+

section \<open>Folding a history in steps\<close>

text \<open>The identifiers of change sets are distinct and free of the separator of \<^verbatim>\<open>visibility_change_id\<close>.\<close>

definition set_ids_ok :: "visibility_change_set list \<Rightarrow> bool" where
  "set_ids_ok sets \<longleftrightarrow> distinct (map vs_id sets) \<and> (\<forall>s \<in> set sets. CHR '':'' \<notin> set (vs_id s))"

lemma set_ids_ok_append:
  assumes "set_ids_ok (s1 @ s2)"
  shows "set_ids_ok s1" "set_ids_ok s2" "vs_id ` set s1 \<inter> vs_id ` set s2 = {}"
    and "{visibility_change_id (vs_id s) p | s p. s \<in> set s1} \<inter> {visibility_change_id (vs_id s) p | s p. s \<in> set s2} = {}"
proof -
  show "set_ids_ok s1" "set_ids_ok s2" and disj: "vs_id ` set s1 \<inter> vs_id ` set s2 = {}"
    using assms by (auto simp: set_ids_ok_def)
  have "visibility_change_id (vs_id s) p \<noteq> visibility_change_id (vs_id s') p'" if "s \<in> set s1" "s' \<in> set s2" for s s' p p'
    using that assms disj visibility_change_id_eq [of "vs_id s" "vs_id s'" p p'] by (auto simp: set_ids_ok_def)
  then show "{visibility_change_id (vs_id s) p | s p. s \<in> set s1} \<inter> {visibility_change_id (vs_id s) p | s p. s \<in> set s2} = {}"
    by auto
qed

lemma replay_actions_split:
  assumes ids: "distinct (commit_ids g @ commit_ids d)" and sets: "set_ids_ok (s1 @ s2)"
    and old: "\<forall>s \<in> set s1. \<forall>c \<in> set (sg_commits d).
      vs_anchor_commit_id s \<noteq> Some (lc_id c) \<and> vs_source_update_id s \<noteq> Some (lc_id c)"
    and delta: "projection_delta_appends (last_commit_id g) (sg_commits d) s2"
    and cs: "list_all (commit_of g s1) cs" and cs': "list_all (commit_of d s2) cs'"
  shows "history_actions (snd (fold replay_commit (cs @ cs') (t, no_projection_history))) (append_history g d) (s1 @ s2) views view
    = history_actions (snd (fold replay_commit cs (t, no_projection_history))) g s1 views view
      @ history_actions (snd (fold replay_commit cs' (fold apply_projected_change (all_changes cs) t, no_projection_history)))
          d s2 views view"
    (is "history_actions ?whole _ _ _ _ = history_actions ?a _ _ _ _ @ history_actions ?b _ _ _ _")
proof -
  note K = keys_of [OF cs] and K' = keys_of [OF cs'] and S = set_ids_ok_append [OF sets]
  have "set (commit_ids g) \<inter> set (commit_ids d) = {}" using ids by auto
  then have whole: "?whole = ph_add ?a ?b"
    using K K' S by (intro replay_split) blast+
  have a_actions: "ph_actions ?a i = None" if "i \<notin> set (commit_ids g)" for i
    using replay_frame(1) [of i cs "(t, no_projection_history)"] that K(1) by auto
  have b_actions: "ph_actions ?b i = None" if "i \<notin> set (commit_ids d)" for i
    using replay_frame(1) [of i cs' "(fold apply_projected_change (all_changes cs) t, no_projection_history)"] that K'(1) by auto
  have apart: "vs_id s \<notin> boundary_keys cs" "visibility_change_id (vs_id s) p \<notin> visibility_keys cs" if "s \<in> set s2" for s p
    using that K(2,3) S(3,4) by blast+
  have apart': "vs_id s \<notin> boundary_keys cs'" "visibility_change_id (vs_id s) p \<notin> visibility_keys cs'" if "s \<in> set s1" for s p
    using that K'(2,3) S(3,4) by blast+
  have a_sets: "ph_visibility ?a (visibility_change_id (vs_id s) p) = None" "ph_boundaries ?a (vs_id s) = None" if "s \<in> set s2" for s p
    using replay_frame(2,3) apart [OF that] by simp_all
  have b_sets: "ph_visibility ?b (visibility_change_id (vs_id s) p) = None" "ph_boundaries ?b (vs_id s) = None" if "s \<in> set s1" for s p
    using replay_frame(2,3) apart' [OF that] by simp_all
  have disj: "i \<notin> set (commit_ids d)" if "i \<in> set (commit_ids g)" for i
    using that ids by auto
  have "history_actions ?whole g s1 views view = history_actions ?a g s1 views view"
  proof (rule history_actions_cong)
    show "ph_actions ?whole i = ph_actions ?a i" if "i \<in> set (commit_ids g)" for i
      unfolding whole ph_add_simps by (rule map_add_unless(1)) (rule b_actions [OF disj [OF that]])
    show "ph_actions ?whole i = ph_actions ?a i" if s: "s \<in> set s1" "vs_source_update_id s = Some i" for s i
    proof -
      have "i \<notin> set (commit_ids d)" using old s by auto
      then show ?thesis unfolding whole ph_add_simps by (intro map_add_unless(1) b_actions)
    qed
    show "ph_visibility ?whole (visibility_change_id (vs_id s) p) = ph_visibility ?a (visibility_change_id (vs_id s) p)
        \<and> ph_boundaries ?whole (vs_id s) = ph_boundaries ?a (vs_id s)" if "s \<in> set s1" for s p
      unfolding whole ph_add_simps using b_sets [OF that] by (simp only: map_add_unless)
  qed (use ids in simp)
  moreover have "history_actions ?whole d s2 views view = history_actions ?b d s2 views view"
  proof (rule history_actions_cong)
    show act: "ph_actions ?whole i = ph_actions ?b i" if "i \<in> set (commit_ids d)" for i
    proof -
      have "i \<notin> set (commit_ids g)" using disj that by blast
      then show ?thesis unfolding whole ph_add_simps by (intro map_add_unless(2) a_actions)
    qed
    show "ph_actions ?whole i = ph_actions ?b i" if s: "s \<in> set s2" "vs_source_update_id s = Some i" for s i
      using delta_appendsD(2) [OF delta s] by (intro act) auto
    show "ph_visibility ?whole (visibility_change_id (vs_id s) p) = ph_visibility ?b (visibility_change_id (vs_id s) p)
        \<and> ph_boundaries ?whole (vs_id s) = ph_boundaries ?b (vs_id s)" if "s \<in> set s2" for s p
      unfolding whole ph_add_simps using a_sets [OF that] by (simp only: map_add_unless)
  qed (use ids in simp)
  ultimately show ?thesis
    using history_actions_append [OF ids old delta] by simp
qed

lemma link_entries_append:
  "link_entries h j cur (xs @ ys) =
     (let (c1, e1) = link_entries h j cur xs; (c2, e2) = link_entries h j c1 ys in (c2, e1 @ e2))"
  by (induction h j cur xs rule: link_entries.induct) (simp_all add: case_prod_beta Let_def)

section \<open>Trees with the same content\<close>

lemma content_matches_refl [simp]: "source_content_matches x x"
  by (cases x) (simp_all add: source_content_matches_def)

lemma content_matches_trans: "source_content_matches x y \<Longrightarrow> source_content_matches y z \<Longrightarrow> source_content_matches x z"
  by (auto simp: source_content_matches_def split: option.splits)

definition same_content :: "scope_path \<Rightarrow> history_tree_file option \<Rightarrow> source_blob option \<Rightarrow> bool" where
  "same_content p shown blob =
     (source_content_matches (map_option htf_content shown) blob \<and> (case shown of None \<Rightarrow> True | Some f \<Rightarrow> htf_path f = p))"

definition shows_tree :: "replayed_tree \<Rightarrow> file_tree \<Rightarrow> bool" where
  "shows_tree r t \<longleftrightarrow> bt_ok r \<and> bt_ok t \<and> (\<forall>p. same_content p (bt_get r p) (bt_get t p))"

text \<open>What a file of an entry writes.\<close>

definition written :: "history_entry_file \<Rightarrow> history_tree_file option" where
  "written f = map_option (\<lambda>content. \<lparr>htf_path = hef_path f, htf_content = content, htf_label = hef_label f\<rparr>) (hef_new_content f)"

lemma get_apply_file:
  assumes "bt_ok r"
  shows "bt_ok (apply_file f r)" and "bt_get (apply_file f r) p = (if p = hef_path f then written f else bt_get r p)"
  using assms by (auto simp: apply_file_def written_def bt_ok_insert bt_ok_remove bt_get_insert bt_get_remove split: option.split)

definition apply_shown :: "history_entry_file option \<Rightarrow> replayed_tree \<Rightarrow> replayed_tree" where
  "apply_shown file r = (case file of None \<Rightarrow> r | Some f \<Rightarrow> apply_file f r)"

definition shown_change :: "projected_change \<Rightarrow> source_blob option \<Rightarrow> history_entry_file option" where
  "shown_change ch old =
     (if source_content_matches old (pc_new_content ch) then None
      else Some \<lparr>hef_path = pc_path ch,
        hef_kind = (if old = None then FileAdded else if pc_new_content ch = None then FileDeleted else FileModified),
        hef_old_content = old, hef_new_content = pc_new_content ch, hef_label = pc_label ch\<rparr>)"

lemma history_apply_change_shown:
  "history_apply_change ch t = (apply_projected_change ch t, shown_change ch (bt_get t (pc_path ch)))"
  by (auto simp: history_apply_change_def shown_change_def Let_def source_content_matches_def split: option.split)

lemma shown_change_path: "shown_change ch old = Some f \<Longrightarrow> hef_path f = pc_path ch"
  by (auto simp: shown_change_def split: if_splits)

lemma bt_insert_entries: "set (bt_insert p b t) \<subseteq> insert (p, b) (set t)"
  by (induction t) (auto split: if_splits)

lemma get_apply_projected_change:
  assumes "bt_ok t"
  shows "bt_ok (apply_projected_change ch t)"
    and "bt_get (apply_projected_change ch t) p = (if p = pc_path ch then pc_new_content ch else bt_get t p)"
  using assms by (auto simp: bt_ok_insert bt_ok_remove bt_get_insert bt_get_remove split: option.split)

lemma projected_tree_ok: "bt_ok t \<Longrightarrow> bt_ok (fold apply_projected_change cs t)"
  by (induction cs arbitrary: t) (simp_all add: get_apply_projected_change(1) del: apply_projected_change.simps)

lemma projected_tree_frame:
  "bt_ok t \<Longrightarrow> p \<notin> pc_path ` set cs \<Longrightarrow> bt_get (fold apply_projected_change cs t) p = bt_get t p"
  by (induction cs arbitrary: t) (simp_all add: get_apply_projected_change del: apply_projected_change.simps)

lemma same_content_shown:
  assumes "same_content p r (Some b)" "source_content_matches (Some b) (Some b')"
  shows "same_content p r (Some b')"
  using assms by (auto simp: same_content_def intro: content_matches_trans)

lemma same_content_change:
  assumes "same_content p r old" and "p = pc_path ch"
  shows "same_content p (case shown_change ch old of None \<Rightarrow> r | Some f \<Rightarrow> written f) (pc_new_content ch)"
  using assms by (auto simp: same_content_def shown_change_def written_def intro: content_matches_trans split: option.split)

section \<open>The files of a commit\<close>

definition content_files :: "projected_change list \<Rightarrow> file_tree \<Rightarrow> history_entry_file list" where
  "content_files cs t = act_files (snd (fold replay_content cs (t, no_action)))"

lemma replay_content_step:
  "replay_content ch (t, a) = (apply_projected_change ch t,
     a\<lparr>act_paths := insert (pc_path ch) (act_paths a),
       act_files := act_files a @ option_list (shown_change ch (bt_get t (pc_path ch)))\<rparr>)"
  unfolding replay_content_def history_apply_change_shown
  by (cases "shown_change ch (bt_get t (pc_path ch))") (simp_all add: Let_def del: apply_projected_change.simps)

lemma replay_content_files:
  "act_files (snd (fold replay_content cs (t, a))) = act_files a @ content_files cs t"
  "act_paths (snd (fold replay_content cs (t, a))) = act_paths a \<union> pc_path ` set cs"
proof -
  have files: "act_files (snd (fold replay_content cs (t, a))) = act_files a @ act_files (snd (fold replay_content cs (t, b)))"
    if "act_files b = []" for t a b
    using that
  proof (induction cs arbitrary: t a b)
    case (Cons ch cs)
    define shown where "shown = option_list (shown_change ch (bt_get t (pc_path ch)))"
    define next_of where "next_of a = a\<lparr>act_paths := insert (pc_path ch) (act_paths a), act_files := act_files a @ shown\<rparr>" for a :: projected_action
    have unf: "fold replay_content (ch # cs) (t, x) = fold replay_content cs (apply_projected_change ch t, next_of x)" for x
      by (simp add: replay_content_step next_of_def shown_def del: apply_projected_change.simps)
    have "act_files (next_of a) = act_files a @ shown" "act_files (next_of b) = shown"
      using Cons.prems by (simp_all add: next_of_def)
    with Cons.IH [of no_action "apply_projected_change ch t" "next_of a"] Cons.IH [of no_action "apply_projected_change ch t" "next_of b"]
    show ?case unfolding unf by (simp add: no_action_def del: apply_projected_change.simps)
  qed simp
  have paths: "act_paths (snd (fold replay_content cs (t, a))) = act_paths a \<union> pc_path ` set cs"
    by (induction cs arbitrary: t a) (simp_all add: replay_content_step del: apply_projected_change.simps)
  show "act_files (snd (fold replay_content cs (t, a))) = act_files a @ content_files cs t"
    unfolding content_files_def by (rule files) (simp add: no_action_def)
  show "act_paths (snd (fold replay_content cs (t, a))) = act_paths a \<union> pc_path ` set cs" by (rule paths)
qed

lemma content_files_Nil [simp]: "content_files [] t = []"
  by (simp add: content_files_def no_action_def)

lemma content_files_Cons:
  "content_files (ch # cs) t = option_list (shown_change ch (bt_get t (pc_path ch))) @ content_files cs (apply_projected_change ch t)"
  unfolding content_files_def [of "ch # cs"]
  by (simp add: replay_content_step replay_content_files(1) del: apply_projected_change.simps) (simp add: no_action_def)

lemma content_files_append:
  "content_files (xs @ ys) t = content_files xs t @ content_files ys (fold apply_projected_change xs t)"
  by (induction xs arbitrary: t) (simp_all add: content_files_Cons del: apply_projected_change.simps)

lemma apply_shown_change:
  assumes "bt_ok r" and "bt_ok t"
  shows "bt_ok (apply_shown (shown_change ch (bt_get t (pc_path ch))) r)"
    and "p \<noteq> pc_path ch \<Longrightarrow> bt_get (apply_shown (shown_change ch (bt_get t (pc_path ch))) r) p = bt_get r p"
    and "same_content p (bt_get r p) (bt_get t p) \<Longrightarrow>
      same_content p (bt_get (apply_shown (shown_change ch (bt_get t (pc_path ch))) r) p) (bt_get (apply_projected_change ch t) p)"
proof -
  show "bt_ok (apply_shown (shown_change ch (bt_get t (pc_path ch))) r)"
    using assms(1) by (simp add: apply_shown_def get_apply_file(1) split: option.split)
  have g: "bt_get (apply_shown (shown_change ch (bt_get t (pc_path ch))) r) p = (if p = pc_path ch
      then (case shown_change ch (bt_get t (pc_path ch)) of None \<Rightarrow> bt_get r p | Some f \<Rightarrow> written f) else bt_get r p)"
    using assms(1) by (auto simp: apply_shown_def get_apply_file dest: shown_change_path split: option.split)
  then show "p \<noteq> pc_path ch \<Longrightarrow> bt_get (apply_shown (shown_change ch (bt_get t (pc_path ch))) r) p = bt_get r p" by simp
  show "same_content p (bt_get (apply_shown (shown_change ch (bt_get t (pc_path ch))) r) p) (bt_get (apply_projected_change ch t) p)"
    if "same_content p (bt_get r p) (bt_get t p)"
    using that same_content_change [OF that, of ch]
    unfolding g get_apply_projected_change(2) [OF assms(2)] by (cases "p = pc_path ch") simp_all
qed

lemma content_files_effect:
  "bt_ok r \<Longrightarrow> bt_ok t \<Longrightarrow> bt_ok (fold apply_file (content_files cs t) r)
     \<and> (p \<notin> pc_path ` set cs \<longrightarrow> bt_get (fold apply_file (content_files cs t) r) p = bt_get r p)
     \<and> (same_content p (bt_get r p) (bt_get t p) \<longrightarrow>
          same_content p (bt_get (fold apply_file (content_files cs t) r) p) (bt_get (fold apply_projected_change cs t) p))"
proof (induction cs arbitrary: r t)
  case (Cons ch cs)
  let ?t = "apply_projected_change ch t" and ?r = "apply_shown (shown_change ch (bt_get t (pc_path ch))) r"
  have unf: "fold apply_file (content_files (ch # cs) t) r = fold apply_file (content_files cs ?t) ?r"
    "fold apply_projected_change (ch # cs) t = fold apply_projected_change cs ?t"
    by (simp_all add: content_files_Cons apply_shown_def del: apply_projected_change.simps split: option.split)
  note one = apply_shown_change [OF Cons.prems, where ch = ch]
  show ?case
    unfolding unf using Cons.IH [OF one(1) get_apply_projected_change(1) [OF Cons.prems(2)]] one(2,3) [of p]
    by (simp del: apply_projected_change.simps)
qed simp

text \<open>The commits of one logical commit make one action.\<close>

lemma content_commits_replay:
  assumes "\<forall>k \<in> set cs. pj_visibility_change_set_id k = None \<and> pj_logical_commit_id k = i"
  shows "ph_visibility (snd (fold replay_commit cs (t, ph))) = ph_visibility ph"
    and "ph_boundaries (snd (fold replay_commit cs (t, ph))) = ph_boundaries ph"
    and "ph_actions ph i = None \<Longrightarrow>
      (case ph_actions (snd (fold replay_commit cs (t, ph))) i of
         None \<Rightarrow> cs = []
       | Some a \<Rightarrow> act_files a = content_files (all_changes cs) t \<and> act_paths a = pc_path ` set (all_changes cs))"
proof -
  have gen: "ph_visibility (snd (fold replay_commit cs (t, ph))) = ph_visibility ph
      \<and> ph_boundaries (snd (fold replay_commit cs (t, ph))) = ph_boundaries ph
      \<and> (case ph_actions (snd (fold replay_commit cs (t, ph))) i of
           None \<Rightarrow> cs = [] \<and> ph_actions ph i = None
         | Some a \<Rightarrow>
             act_files a = (case ph_actions ph i of None \<Rightarrow> [] | Some b \<Rightarrow> act_files b) @ content_files (all_changes cs) t
             \<and> act_paths a = (case ph_actions ph i of None \<Rightarrow> {} | Some b \<Rightarrow> act_paths b) \<union> pc_path ` set (all_changes cs))"
    using assms
  proof (induction cs arbitrary: t ph)
    case Nil
    show ?case by (simp add: content_files_def no_action_def split: option.split)
  next
    case (Cons k cs)
    obtain t' ph' where r: "replay_commit k (t, ph) = (t', ph')" by (cases "replay_commit k (t, ph)")
    have k: "pj_visibility_change_set_id k = None" "pj_logical_commit_id k = i" using Cons.prems by simp_all
    have t': "t' = fold apply_projected_change (pj_changes k) t" using replay_commit_tree [of k t ph] r by simp
    have "ph_visibility ph' = ph_visibility ph" "ph_boundaries ph' = ph_boundaries ph"
      using r k by (auto simp: replay_commit_def Let_def case_prod_beta)
    moreover have "\<exists>a. ph_actions ph' i = Some a
        \<and> act_files a = (case ph_actions ph i of None \<Rightarrow> [] | Some b \<Rightarrow> act_files b) @ content_files (pj_changes k) t
        \<and> act_paths a = (case ph_actions ph i of None \<Rightarrow> {} | Some b \<Rightarrow> act_paths b) \<union> pc_path ` set (pj_changes k)"
      using r k by (auto simp: replay_commit_def Let_def case_prod_beta replay_content_files no_action_def split: option.splits)
    moreover have "\<forall>k \<in> set cs. pj_visibility_change_set_id k = None \<and> pj_logical_commit_id k = i" using Cons.prems by simp
    ultimately show ?case
      using Cons.IH [of t' ph'] r t' by (auto simp: content_files_append split: option.splits)
  qed
  show "ph_visibility (snd (fold replay_commit cs (t, ph))) = ph_visibility ph"
    "ph_boundaries (snd (fold replay_commit cs (t, ph))) = ph_boundaries ph" using gen by blast+
  show "ph_actions ph i = None \<Longrightarrow>
      (case ph_actions (snd (fold replay_commit cs (t, ph))) i of
         None \<Rightarrow> cs = []
       | Some a \<Rightarrow> act_files a = content_files (all_changes cs) t \<and> act_paths a = pc_path ` set (all_changes cs))"
    using gen by (auto split: option.splits)
qed

section \<open>The boundary of a change set\<close>

definition touches :: "file_tree \<Rightarrow> projected_change \<Rightarrow> bool" where
  "touches t ch \<longleftrightarrow> bt_get t (pc_path ch) \<noteq> None \<or> pc_new_content ch \<noteq> None"

lemma visibility_change_id_path [simp]: "visibility_change_id i p = visibility_change_id i q \<longleftrightarrow> p = q"
  by (auto simp: visibility_change_id_def scope_path.expand)

lemma replay_boundary_step:
  "replay_boundary i ch (t, ph) = (apply_projected_change ch t,
     if touches t ch then ph\<lparr>
       ph_visibility := (ph_visibility ph)(visibility_change_id i (pc_path ch) \<mapsto> shown_change ch (bt_get t (pc_path ch))),
       ph_boundaries := (ph_boundaries ph)(i \<mapsto>
         (case ph_boundaries ph i of None \<Rightarrow> [] | Some b \<Rightarrow> b) @ [(pc_path ch, pc_label ch)])\<rparr>
     else ph)"
  by (simp add: replay_boundary_def history_apply_change_shown touches_def Let_def)

lemma boundary_recorded:
  assumes "distinct (map pc_path cs)" and "bt_ok t"
  shows "ph_visibility (snd (fold (replay_boundary i) cs (t, ph))) (visibility_change_id i p)
      = (case at_path pc_path cs p of
           Some ch \<Rightarrow> if touches t ch then Some (shown_change ch (bt_get t p)) else ph_visibility ph (visibility_change_id i p)
         | None \<Rightarrow> ph_visibility ph (visibility_change_id i p))"
    and "(case ph_boundaries (snd (fold (replay_boundary i) cs (t, ph))) i of None \<Rightarrow> [] | Some b \<Rightarrow> b)
      = (case ph_boundaries ph i of None \<Rightarrow> [] | Some b \<Rightarrow> b) @ map (\<lambda>ch. (pc_path ch, pc_label ch)) (filter (touches t) cs)"
proof -
  have "ph_visibility (snd (fold (replay_boundary i) cs (t, ph))) (visibility_change_id i p)
      = (case at_path pc_path cs p of
           Some ch \<Rightarrow> if touches t ch then Some (shown_change ch (bt_get t p)) else ph_visibility ph (visibility_change_id i p)
         | None \<Rightarrow> ph_visibility ph (visibility_change_id i p))
    \<and> (case ph_boundaries (snd (fold (replay_boundary i) cs (t, ph))) i of None \<Rightarrow> [] | Some b \<Rightarrow> b)
      = (case ph_boundaries ph i of None \<Rightarrow> [] | Some b \<Rightarrow> b) @ map (\<lambda>ch. (pc_path ch, pc_label ch)) (filter (touches t) cs)"
    using assms
  proof (induction cs arbitrary: t ph)
    case (Cons ch cs)
    let ?t = "apply_projected_change ch t"
    define ph' where "ph' = snd (replay_boundary i ch (t, ph))"
    have unf: "fold (replay_boundary i) (ch # cs) (t, ph) = fold (replay_boundary i) cs (?t, ph')"
      by (simp add: replay_boundary_step ph'_def del: apply_projected_change.simps)
    have get: "bt_get ?t q = (if q = pc_path ch then pc_new_content ch else bt_get t q)" for q
      using Cons.prems(2) by (rule get_apply_projected_change(2))
    have "touches ?t d = touches t d" if "d \<in> set cs" for d
    proof -
      have "pc_path d \<in> pc_path ` set cs" using that by (rule imageI)
      moreover have "pc_path ch \<notin> pc_path ` set cs" using Cons.prems(1) by simp
      ultimately have "pc_path d \<noteq> pc_path ch" by metis
      then show ?thesis by (simp add: touches_def get del: apply_projected_change.simps)
    qed
    then have f: "filter (touches ?t) cs = filter (touches t) cs" by (rule filter_cong [OF refl])
    have IH: "ph_visibility (snd (fold (replay_boundary i) cs (?t, ph'))) (visibility_change_id i p)
      = (case at_path pc_path cs p of
           Some d \<Rightarrow> if touches t d then Some (shown_change d (bt_get ?t p)) else ph_visibility ph' (visibility_change_id i p)
         | None \<Rightarrow> ph_visibility ph' (visibility_change_id i p))"
      "(case ph_boundaries (snd (fold (replay_boundary i) cs (?t, ph'))) i of None \<Rightarrow> [] | Some b \<Rightarrow> b)
      = (case ph_boundaries ph' i of None \<Rightarrow> [] | Some b \<Rightarrow> b) @ map (\<lambda>ch. (pc_path ch, pc_label ch)) (filter (touches t) cs)"
      using Cons.IH [OF _ get_apply_projected_change(1) [OF Cons.prems(2)], of ch ph'] Cons.prems(1)
        \<open>\<And>d. d \<in> set cs \<Longrightarrow> touches ?t d = touches t d\<close> f
      by (auto simp del: apply_projected_change.simps split: option.split dest!: at_path_SomeD)
    have p': "ph_visibility ph' (visibility_change_id i q) = (if q = pc_path ch \<and> touches t ch
        then Some (shown_change ch (bt_get t q)) else ph_visibility ph (visibility_change_id i q))" for q
      by (auto simp: ph'_def replay_boundary_step)
    have b': "(case ph_boundaries ph' i of None \<Rightarrow> [] | Some b \<Rightarrow> b)
        = (case ph_boundaries ph i of None \<Rightarrow> [] | Some b \<Rightarrow> b) @ (if touches t ch then [(pc_path ch, pc_label ch)] else [])"
      by (simp add: ph'_def replay_boundary_step)
    have out: "at_path pc_path cs (pc_path ch) = None" using Cons.prems(1) by (simp add: at_path_None_iff)
    have here: "at_path pc_path (ch # cs) q = (if q = pc_path ch then Some ch else at_path pc_path cs q)" for q
      by (auto simp: at_path_def)
    show ?case
      unfolding unf IH(1,2) here b' using out p' get
      by (cases "p = pc_path ch") (simp_all del: apply_projected_change.simps split: option.split)
  qed (simp add: at_path_def)
  then show "ph_visibility (snd (fold (replay_boundary i) cs (t, ph))) (visibility_change_id i p)
      = (case at_path pc_path cs p of
           Some ch \<Rightarrow> if touches t ch then Some (shown_change ch (bt_get t p)) else ph_visibility ph (visibility_change_id i p)
         | None \<Rightarrow> ph_visibility ph (visibility_change_id i p))"
    "(case ph_boundaries (snd (fold (replay_boundary i) cs (t, ph))) i of None \<Rightarrow> [] | Some b \<Rightarrow> b)
      = (case ph_boundaries ph i of None \<Rightarrow> [] | Some b \<Rightarrow> b) @ map (\<lambda>ch. (pc_path ch, pc_label ch)) (filter (touches t) cs)"
    by blast+
qed

section \<open>The visibility changes of an entry\<close>

definition changed_file :: "history_entry_visibility_change \<Rightarrow> history_tree_file option \<Rightarrow> history_tree_file option" where
  "changed_file ch shown =
     (case hev_file ch of Some f \<Rightarrow> written f | None \<Rightarrow> map_option (\<lambda>f. f\<lparr>htf_label := hev_new_label ch\<rparr>) shown)"

lemma get_apply_visibility_change:
  assumes "bt_ok r" and "\<forall>f. hev_file ch = Some f \<longrightarrow> hef_path f = hev_path ch"
  shows "bt_ok (apply_visibility_change ch r)"
    and "bt_get (apply_visibility_change ch r) p = (if p = hev_path ch then changed_file ch (bt_get r p) else bt_get r p)"
  using assms
  by (auto simp: apply_visibility_change_def changed_file_def get_apply_file bt_ok_insert bt_get_insert split: option.split)

lemma visibility_changes_effect:
  assumes "bt_ok r" and "distinct (map hev_path l)"
    and "\<And>ch f. ch \<in> set l \<Longrightarrow> hev_file ch = Some f \<Longrightarrow> hef_path f = hev_path ch"
  shows "bt_ok (fold apply_visibility_change l r)
    \<and> bt_get (fold apply_visibility_change l r) p
      = (case at_path hev_path l p of None \<Rightarrow> bt_get r p | Some ch \<Rightarrow> changed_file ch (bt_get r p))"
  using assms
proof (induction l arbitrary: r)
  case (Cons ch l)
  have f: "\<forall>f. hev_file ch = Some f \<longrightarrow> hef_path f = hev_path ch" using Cons.prems(3) by simp
  note one = get_apply_visibility_change [OF Cons.prems(1) f]
  have out: "at_path hev_path l (hev_path ch) = None" using Cons.prems(2) by (simp add: at_path_None_iff)
  have here: "at_path hev_path (ch # l) q = (if q = hev_path ch then Some ch else at_path hev_path l q)" for q
    by (auto simp: at_path_def)
  have "bt_ok (fold apply_visibility_change l (apply_visibility_change ch r))
    \<and> bt_get (fold apply_visibility_change l (apply_visibility_change ch r)) p
      = (case at_path hev_path l p of None \<Rightarrow> bt_get (apply_visibility_change ch r) p
         | Some d \<Rightarrow> changed_file d (bt_get (apply_visibility_change ch r) p))"
    using Cons.IH [OF one(1)] Cons.prems(2,3) by simp
  then show ?case using one(2) out by (simp add: here split: option.split)
qed (simp add: at_path_def)

text \<open>Relabelling alone keeps the content.\<close>

lemma same_content_relabel:
  "hev_file ch = None \<Longrightarrow> same_content p r b \<Longrightarrow> same_content p (changed_file ch r) b"
  by (cases r) (simp_all add: changed_file_def same_content_def)

text \<open>
  The changes an entry lists for a set, when the replay has recorded the boundary \<open>cs\<close> of that set at the tree \<open>t\<close>.
\<close>

definition records_boundary ::
  "projection_history \<Rightarrow> visibility_change_set \<Rightarrow> projected_change list \<Rightarrow> file_tree \<Rightarrow> bool" where
  "records_boundary ph s cs t \<longleftrightarrow>
     (\<forall>p. ph_visibility ph (visibility_change_id (vs_id s) p)
        = (case at_path pc_path cs p of
             Some ch \<Rightarrow> if touches t ch then Some (shown_change ch (bt_get t p)) else None
           | None \<Rightarrow> None))
     \<and> (case ph_boundaries ph (vs_id s) of None \<Rightarrow> [] | Some b \<Rightarrow> b)
        = map (\<lambda>ch. (pc_path ch, pc_label ch)) (filter (touches t) cs)"

definition listed_change ::
  "visibility_change_set \<Rightarrow> projected_action option \<Rightarrow> projection_history \<Rightarrow> views \<Rightarrow> view_id
   \<Rightarrow> visibility_change \<Rightarrow> history_entry_visibility_change option" where
  "listed_change s content ph views view c =
     (let boundary = ph_visibility ph (visibility_change_id (vs_id s) (vc_path c)) in
      if view \<noteq> Views_full views \<and> boundary = None
         \<and> \<not> (case content of None \<Rightarrow> False | Some action \<Rightarrow> vc_path c \<in> act_paths action)
      then None
      else Some \<lparr>hev_id = visibility_change_id (vs_id s) (vc_path c), hev_path = vc_path c, hev_old_label = vc_old_label c,
                 hev_new_label = vc_new_label c, hev_file = Option.bind boundary (\<lambda>file. file)\<rparr>)"

lemma visibility_changes_listed:
  "visibility_changes_for_action [s] content ph views view
    = List.map_filter (listed_change s content ph views view) (vs_changes s)"
  by (simp add: visibility_changes_for_action_def listed_change_def [abs_def] Let_def)

lemma at_path_map_filter:
  assumes "\<And>c d. c \<in> set cs \<Longrightarrow> f c = Some d \<Longrightarrow> path' d = path c" and "distinct (map path cs)"
  shows "at_path path' (List.map_filter f cs) p = Option.bind (at_path path cs p) f"
    and "distinct (map path' (List.map_filter f cs))" and "path' ` set (List.map_filter f cs) \<subseteq> path ` set cs"
proof -
  have m: "List.map_filter f cs = concat (map (\<lambda>c. option_list (f c)) cs)"
    by (induction cs) (simp_all add: map_filter_simps split: option.split)
  have p: "path' d = path c" if "c \<in> set cs" "d \<in> set (option_list (f c))" for c d
    using assms(1) [OF that(1)] that(2) by (auto split: option.splits)
  have l: "length (option_list (f c)) \<le> 1" for c by (simp split: option.split)
  have A: "at_path path' (concat (map (\<lambda>c. option_list (f c)) cs)) p
      = (case at_path path cs p of None \<Rightarrow> None | Some c \<Rightarrow> first_of (option_list (f c)))"
    "distinct (map path' (concat (map (\<lambda>c. option_list (f c)) cs)))"
    using at_path_concat [where cs = cs and f = "\<lambda>c. option_list (f c)" and path' = path' and path = path, OF p assms(2) l]
    by blast+
  show "at_path path' (List.map_filter f cs) p = Option.bind (at_path path cs p) f"
    unfolding m A(1) by (auto split: option.split)
  show "distinct (map path' (List.map_filter f cs))" unfolding m by (rule A(2))
  show "path' ` set (List.map_filter f cs) \<subseteq> path ` set cs"
    unfolding m using p by fastforce
qed

definition listed_changes ::
  "bool \<Rightarrow> visibility_change_set \<Rightarrow> projected_action option \<Rightarrow> projection_history \<Rightarrow> views \<Rightarrow> view_id
   \<Rightarrow> history_entry_visibility_change list" where
  "listed_changes whole s content ph views view =
     visibility_changes_for_action [s] content ph views view @ (if whole then views_boundary_changes s ph else [])"

definition boundary_file :: "projected_change list \<Rightarrow> file_tree \<Rightarrow> scope_path \<Rightarrow> history_entry_file option" where
  "boundary_file cs t p =
     (case at_path pc_path cs p of
        Some ch \<Rightarrow> if touches t ch then shown_change ch (bt_get t p) else None
      | None \<Rightarrow> None)"

lemma boundary_changes_at_path:
  assumes "records_boundary ph s cs t" and "distinct (map pc_path cs)"
  shows "at_path hev_path (views_boundary_changes s ph) p = None \<longleftrightarrow>
      p \<in> vc_path ` set (vs_changes s) \<or> (\<forall>ch. at_path pc_path cs p = Some ch \<longrightarrow> \<not> touches t ch)"
    and "distinct (map hev_path (views_boundary_changes s ph))"
    and "d \<in> set (views_boundary_changes s ph) \<Longrightarrow>
      hev_path d \<notin> vc_path ` set (vs_changes s)
      \<and> hev_file d = Option.bind (ph_visibility ph (visibility_change_id (vs_id s) (hev_path d))) (\<lambda>file. file)"
proof -
  have l: "map hev_path (views_boundary_changes s ph)
      = map pc_path (filter (\<lambda>ch. pc_path ch \<notin> vc_path ` set (vs_changes s)) (filter (touches t) cs))"
    using assms(1) unfolding records_boundary_def views_boundary_changes_def
    by (simp add: filter_map comp_def Let_def)
  show "distinct (map hev_path (views_boundary_changes s ph))"
    unfolding l using assms(2) by (simp add: distinct_map_filter)
  have "at_path hev_path (views_boundary_changes s ph) p = None \<longleftrightarrow> p \<notin> set (map hev_path (views_boundary_changes s ph))"
    by (simp add: at_path_None_iff)
  also have "\<dots> \<longleftrightarrow> p \<in> vc_path ` set (vs_changes s) \<or> (\<forall>ch. at_path pc_path cs p = Some ch \<longrightarrow> \<not> touches t ch)"
    unfolding l using at_path_member [OF assms(2)] by (auto dest!: at_path_SomeD)
  finally show "at_path hev_path (views_boundary_changes s ph) p = None \<longleftrightarrow>
      p \<in> vc_path ` set (vs_changes s) \<or> (\<forall>ch. at_path pc_path cs p = Some ch \<longrightarrow> \<not> touches t ch)" .
  show "hev_path d \<notin> vc_path ` set (vs_changes s)
      \<and> hev_file d = Option.bind (ph_visibility ph (visibility_change_id (vs_id s) (hev_path d))) (\<lambda>file. file)"
    if "d \<in> set (views_boundary_changes s ph)"
    using that by (auto simp: views_boundary_changes_def Let_def)
qed

lemma listed_changes_at_path:
  assumes rec: "records_boundary ph s cs t" and cs: "distinct (map pc_path cs)"
    and vs: "distinct (map vc_path (vs_changes s))"
    and cover: "whole \<or> pc_path ` set cs \<subseteq> vc_path ` set (vs_changes s)"
  shows "distinct (map hev_path (listed_changes whole s content ph views view))"
    and "d \<in> set (listed_changes whole s content ph views view) \<Longrightarrow> hev_file d = boundary_file cs t (hev_path d)"
    and "at_path hev_path (listed_changes whole s content ph views view) p = None \<Longrightarrow>
      at_path pc_path cs p = Some ch \<Longrightarrow> \<not> touches t ch"
proof -
  let ?f = "listed_change s content ph views view"
  have path: "hev_path d = vc_path c" if "?f c = Some d" for c d
    using that by (auto simp: listed_change_def Let_def split: if_splits)
  have hfile: "hev_file d = Option.bind (ph_visibility ph (visibility_change_id (vs_id s) (hev_path d))) (\<lambda>file. file)"
    if "?f c = Some d" for c d
    using that by (auto simp: listed_change_def Let_def split: if_splits)
  have bfile: "Option.bind (ph_visibility ph (visibility_change_id (vs_id s) q)) (\<lambda>file. file) = boundary_file cs t q" for q
    using rec unfolding records_boundary_def boundary_file_def by (simp split: option.split)
  have M: "at_path hev_path (List.map_filter ?f (vs_changes s)) q = Option.bind (at_path vc_path (vs_changes s) q) ?f"
    "distinct (map hev_path (List.map_filter ?f (vs_changes s)))"
    "hev_path ` set (List.map_filter ?f (vs_changes s)) \<subseteq> vc_path ` set (vs_changes s)" for q
    using at_path_map_filter [where cs = "vs_changes s" and f = ?f and path' = hev_path and path = vc_path, OF path vs]
    by blast+
  note B = boundary_changes_at_path [OF rec cs]
  have outside: "hev_path ` set (views_boundary_changes s ph) \<inter> vc_path ` set (vs_changes s) = {}"
    using B(3) by blast
  show "distinct (map hev_path (listed_changes whole s content ph views view))"
    unfolding listed_changes_def visibility_changes_listed using M(2,3) B(2) outside by (auto simp: disjoint_iff) 
  show "hev_file d = boundary_file cs t (hev_path d)" if "d \<in> set (listed_changes whole s content ph views view)"
  proof -
    have "d \<in> set (List.map_filter ?f (vs_changes s)) \<or> d \<in> set (views_boundary_changes s ph)"
      using that by (auto simp: listed_changes_def visibility_changes_listed split: if_splits)
    then show ?thesis
    proof
      assume "d \<in> set (List.map_filter ?f (vs_changes s))"
      then obtain c where "?f c = Some d" by (auto simp: List.map_filter_def)
      from hfile [OF this] show ?thesis by (simp add: bfile)
    next
      assume "d \<in> set (views_boundary_changes s ph)"
      from B(3) [OF this] show ?thesis by (simp add: bfile)
    qed
  qed
  show "\<not> touches t ch" if none: "at_path hev_path (listed_changes whole s content ph views view) p = None"
    and ch: "at_path pc_path cs p = Some ch"
  proof
    assume t: "touches t ch"
    then have vis: "ph_visibility ph (visibility_change_id (vs_id s) p) \<noteq> None"
      using rec ch by (simp add: records_boundary_def)
    have "p \<in> pc_path ` set cs" using at_path_SomeD [OF ch] by blast
    show False
    proof (cases "at_path vc_path (vs_changes s) p")
      case (Some c)
      then have "?f c \<noteq> None" using vis at_path_SomeD [OF Some] by (auto simp: listed_change_def Let_def)
      then show False using none Some M(1) [of p] by (auto simp: listed_changes_def visibility_changes_listed at_path_append split: option.splits)
    next
      case None
      then have out: "p \<notin> vc_path ` set (vs_changes s)" by (simp add: at_path_None_iff)
      with cover \<open>p \<in> pc_path ` set cs\<close> have whole by blast
      then have "at_path hev_path (views_boundary_changes s ph) p = None"
        using none by (auto simp: listed_changes_def at_path_append split: option.splits)
      with B(1) [of p] out ch t show False by blast
    qed
  qed
qed

lemma listed_changes_effect:
  fixes content :: "projected_action option" and views :: views and view :: view_id
  assumes rec: "records_boundary ph s cs t" and cs: "distinct (map pc_path cs)"
    and vs: "distinct (map vc_path (vs_changes s))"
    and cover: "whole \<or> pc_path ` set cs \<subseteq> vc_path ` set (vs_changes s)"
    and ok: "bt_ok r" "bt_ok t"
  defines "l \<equiv> listed_changes whole s content ph views view"
  shows "bt_ok (fold apply_visibility_change l r)"
    and "p \<notin> pc_path ` set cs \<Longrightarrow> same_content p (bt_get r p) b \<Longrightarrow>
      same_content p (bt_get (fold apply_visibility_change l r) p) b"
    and "p \<in> pc_path ` set cs \<Longrightarrow> same_content p (bt_get r p) (bt_get t p) \<Longrightarrow>
      same_content p (bt_get (fold apply_visibility_change l r) p) (bt_get (fold apply_projected_change cs t) p)"
proof -
  note L = listed_changes_at_path [OF rec cs vs cover, where content = content and views = views and view = view, folded l_def]
  have path: "hef_path f = hev_path d" if d: "d \<in> set l" "hev_file d = Some f" for d f
  proof -
    obtain ch where "at_path pc_path cs (hev_path d) = Some ch" "shown_change ch (bt_get t (hev_path d)) = Some f"
      using L(2) [OF d(1)] d(2) by (auto simp: boundary_file_def split: option.splits if_splits)
    then show ?thesis using at_path_SomeD [of pc_path cs "hev_path d" ch] shown_change_path by force
  qed
  note E = visibility_changes_effect [OF ok(1) L(1) path]
  show "bt_ok (fold apply_visibility_change l r)" using E by blast
  have get: "bt_get (fold apply_visibility_change l r) p
      = (case at_path hev_path l p of None \<Rightarrow> bt_get r p | Some d \<Rightarrow> changed_file d (bt_get r p))" using E by blast
  have hfile: "hev_file d = boundary_file cs t p" if "at_path hev_path l p = Some d" for d
    using L(2) at_path_SomeD [OF that] by blast
  show "same_content p (bt_get (fold apply_visibility_change l r) p) b"
    if "p \<notin> pc_path ` set cs" "same_content p (bt_get r p) b"
  proof -
    have "boundary_file cs t p = None" using that(1) by (simp add: boundary_file_def at_path_None_iff [THEN iffD2])
    with that(2) hfile show ?thesis
      by (auto simp: get intro: same_content_relabel split: option.split)
  qed
  show "same_content p (bt_get (fold apply_visibility_change l r) p) (bt_get (fold apply_projected_change cs t) p)"
    if p: "p \<in> pc_path ` set cs" and same: "same_content p (bt_get r p) (bt_get t p)"
  proof -
    obtain ch where ch: "at_path pc_path cs p = Some ch" using p at_path_None_iff [of pc_path cs p] by auto
    have chp: "pc_path ch = p" using at_path_SomeD [OF ch] by blast
    have new: "bt_get (fold apply_projected_change cs t) p = pc_new_content ch"
      using get_projected_changes(1) [OF ok(2) cs, of p] ch by (simp del: apply_projected_change.simps)
    have upd: "same_content p (case shown_change ch (bt_get t p) of None \<Rightarrow> bt_get r p | Some f \<Rightarrow> written f) (pc_new_content ch)"
      using same_content_change [OF same, of ch] chp by simp
    have still: "same_content p (bt_get r p) (pc_new_content ch)" if "boundary_file cs t p = None"
      using that upd same ch chp by (auto simp: boundary_file_def touches_def split: if_splits)
    show ?thesis
    proof (cases "at_path hev_path l p")
      case None
      from L(3) [OF None ch] have "boundary_file cs t p = None" by (simp add: boundary_file_def ch)
      from still [OF this] show ?thesis by (simp add: get None new)
    next
      case (Some d)
      note f = hfile [OF Some]
      show ?thesis
      proof (cases "boundary_file cs t p")
        case None
        then show ?thesis using same_content_relabel [OF _ still [OF None], of d] f by (simp add: get Some new)
      next
        case (Some g)
        then have "shown_change ch (bt_get t p) = Some g" by (auto simp: boundary_file_def ch split: if_splits)
        with upd show ?thesis
          using \<open>at_path hev_path l p = Some d\<close> f Some by (simp add: get new changed_file_def)
      qed
    qed
  qed
qed

section \<open>One step of a history\<close>

text \<open>What an update adds to the projection: at most the boundary of its set, then the content of its commit.\<close>

definition step_projection ::
  "visibility_change_set \<Rightarrow> logical_commit \<Rightarrow> bool \<Rightarrow> bool \<Rightarrow> projected_change list \<Rightarrow> projected_commit list
   \<Rightarrow> projected_commit list \<Rightarrow> bool" where
  "step_projection s c ps pc cs set_commits content_commits \<longleftrightarrow>
     (set_commits = [] \<and> cs = []
      \<or> ps \<and> (\<exists>k. set_commits = [k] \<and> pj_visibility_change_set_id k = Some (vs_id s) \<and> pj_changes k = cs))
     \<and> (\<forall>k \<in> set content_commits. pj_visibility_change_set_id k = None \<and> pj_logical_commit_id k = lc_id c)
     \<and> (\<not> pc \<longrightarrow> content_commits = [])
     \<and> distinct (map pc_path cs) \<and> (vs_views s = None \<longrightarrow> pc_path ` set cs \<subseteq> vc_path ` set (vs_changes s))
     \<and> (vs_views s = None \<and> vs_source_update_id s \<noteq> None \<longrightarrow>
          pc_path ` set cs \<inter> pc_path ` set (all_changes content_commits) = {})"

lemma set_changes_paths:
  assumes "distinct (map vc_path (vs_changes s))" and "\<And>t. topt = Some t \<Longrightarrow> bt_ok t"
  shows "distinct (map pc_path (set_changes by_id view v topt s))"
    and "vs_views s = None \<Longrightarrow> pc_path ` set (set_changes by_id view v topt s) \<subseteq> vc_path ` set (vs_changes s)"
proof -
  define old_views where "old_views = (case vs_views s of Some t \<Rightarrow> vt_before t | None \<Rightarrow> v)"
  define after where "after = (case vs_views s of Some t \<Rightarrow> vt_after t | None \<Rightarrow> v)"
  let ?f = "relabel_changes old_views after view (Option.bind (vs_source_update_id s) by_id)"
  let ?cs = "filter (\<lambda>change. \<not> is_repo_control_path (vc_path change)) (vs_changes s)"
  let ?rest = "case topt of None \<Rightarrow> [] | Some t \<Rightarrow> filter (\<lambda>(path, _). path \<notin> set (map vc_path (vs_changes s))) t"
  let ?tr = "if vs_views s = None then [] else concat (map (transition_changes old_views after view) ?rest)"
  have eq: "set_changes by_id view v topt s = concat (map ?f ?cs) @ ?tr"
    by (simp add: set_changes_def Let_def old_views_def after_def split: option.split)
  have rel: "distinct (map pc_path (concat (map ?f ?cs)))" "pc_path ` set (concat (map ?f ?cs)) \<subseteq> vc_path ` set (vs_changes s)"
    using at_path_concat(2) [of ?cs ?f pc_path vc_path] relabel_paths distinct_map_filter [OF assms(1)]
    by blast (auto dest!: relabel_paths(1))
  have d: "distinct (map fst ?rest)"
    using assms(2) by (auto intro: distinct_map_filter bt_ok_distinct split: option.split)
  have tr: "distinct (map pc_path ?tr)"
    using at_path_concat(2) [of ?rest "transition_changes old_views after view" pc_path fst, OF transition_paths(1) d transition_paths(2)]
    by simp
  have "pc_path ` set (concat (map (transition_changes old_views after view) rest)) \<subseteq> fst ` set rest" for rest
    by (auto dest!: transition_paths(1) intro: rev_image_eqI)
  from this [of ?rest] have "pc_path ` set ?tr \<subseteq> fst ` set ?rest" by (cases "vs_views s = None") simp_all
  moreover have "fst ` set ?rest \<inter> vc_path ` set (vs_changes s) = {}" by (cases topt) auto
  ultimately have apart: "pc_path ` set ?tr \<inter> vc_path ` set (vs_changes s) = {}" by blast
  show "distinct (map pc_path (set_changes by_id view v topt s))"
  proof -
    have "A \<inter> B = {}" if "A \<subseteq> V" "B \<inter> V = {}" for A B V :: "scope_path set" using that by blast
    from this [OF rel(2) apart] rel(1) tr show ?thesis
      unfolding eq map_append distinct_append set_map by (intro conjI)
  qed
  show "vs_views s = None \<Longrightarrow> pc_path ` set (set_changes by_id view v topt s) \<subseteq> vc_path ` set (vs_changes s)"
    using rel(2) by (simp add: eq)
qed

text \<open>A file the set hides from the view, or the commit already shows, is not changed twice.\<close>

lemma set_and_commit_apart:
  assumes "vs_views s = None" and "Option.bind (vs_source_update_id s) by_id = Some c"
    and "\<forall>d \<in> set (vs_changes s). \<forall>f \<in> set (lc_changes c). fc_path f = vc_path d \<longrightarrow> fc_label f = vc_new_label d"
  shows "pc_path ` set (set_changes by_id view v topt s) \<inter> pc_path ` set (visible_changes v view c) = {}"
proof -
  have False if ch: "ch \<in> set (set_changes by_id view v topt s)" and vis: "e \<in> set (visible_changes v view c)"
    and same: "pc_path ch = pc_path e" for ch e
  proof -
    obtain d where d: "d \<in> set (vs_changes s)" "ch \<in> set (relabel_changes v v view (Some c) d)"
      using ch assms(1,2) by (auto simp: set_changes_def Let_def)
    obtain f where f: "f \<in> set (lc_changes c)" "fc_path f = pc_path e" "Views_shows v view (fc_path f) (fc_label f)"
      using vis by (auto simp: visible_changes_def projected_of_def)
    have p: "fc_path f = vc_path d" using relabel_paths(1) [OF d(2)] same f(2) by simp
    then have "fc_label f = vc_new_label d" using assms(3) d(1) f(1) by blast
    then have new: "Views_shows v view (vc_path d) (vc_new_label d)" using f(3) p by simp
    have "shown_by_update v view (Some c) (vc_path d)" using f p by (auto simp: shown_by_update_def)
    with new d(2) show False by (auto simp: relabel_changes_def Let_def split: if_splits)
  qed
  then show ?thesis by blast
qed

lemma content_commits_of:
  "\<exists>ccs. vf_commits (ViewFold_commit cur view c vf) = vf_commits vf @ ccs
    \<and> (\<forall>k \<in> set ccs. pj_visibility_change_set_id k = None \<and> pj_logical_commit_id k = lc_id c)
    \<and> all_changes ccs = visible_changes (vf_views vf) view c"
proof -
  have e: "all_changes (vf_commits (ViewFold_commit cur view c vf)) = all_changes (vf_commits vf) @ visible_changes (vf_views vf) view c"
    by (simp add: ViewFold_commit_def Let_def project_content_changes)
  obtain ccs where c: "vf_commits (ViewFold_commit cur view c vf) = vf_commits vf @ ccs"
    "\<forall>k \<in> set ccs. pj_visibility_change_set_id k = None \<and> pj_logical_commit_id k = lc_id c"
  proof (cases "preserved_native view (length (visible_changes (vf_views vf) view c)) c")
    case None
    then show thesis
      using that [of "[]"] that by (fastforce simp: ViewFold_commit_def ViewFold_project_content_def Let_def split: if_splits)
  next
    case (Some native)
    then show thesis
      using that by (fastforce simp: ViewFold_commit_def ViewFold_project_content_def native_projected_commit_def Let_def)
  qed
  with e show ?thesis by auto
qed

lemma step_projection_of:
  assumes graph: "sg_commits d = (if pc then [c] else [])" and sets: "s2 = (if ps then [s] else [])"
    and anchor: "ps \<longrightarrow> anchored_in d s = None"
    and source: "vs_source_update_id s \<noteq> None \<longrightarrow> vs_source_update_id s = Some (lc_id c) \<and> pc"
    and paths: "distinct (map vc_path (vs_changes s))"
    and agree: "\<forall>d \<in> set (vs_changes s). \<forall>f \<in> set (lc_changes c). fc_path f = vc_path d \<longrightarrow> fc_label f = vc_new_label d"
    and tree: "bt_ok t"
  shows "\<exists>cs scs ccs. pr_commits (project_graph_after cur t d s2 view) = scs @ ccs \<and> step_projection s c ps pc cs scs ccs"
proof (cases "view = Views_full (cur_views cur)")
  case True
  have "pr_commits (project_graph_after cur t d s2 view) = fst (fold (full_step cur view) (sg_commits d) ([], cur_last_projected_id cur))"
    unfolding project_graph_after_def if_P [OF True] project_full_graph_def by simp
  then have "step_projection s c ps pc [] [] (pr_commits (project_graph_after cur t d s2 view))"
    using graph by (auto simp: step_projection_def full_step_def Let_def)
  then show ?thesis by (metis append_Nil)
next
  case False
  let ?by_id = "commits_by_id d" and ?start = "view_start cur t s2"
  have f0: "filter (\<lambda>s. anchored_in d s = None) s2 = s2" using anchor sets by simp
  have f1: "filter (\<lambda>s. anchored_in d s = Some i) s2 = []" for i using anchor sets by simp
  have steps: "fold_steps d s2 = map StepSet s2 @ map StepCommit (sg_commits d)"
    by (simp add: fold_steps_def f0 f1 graph)
  have commits: "pr_commits (project_graph_after cur t d s2 view)
      = vf_commits (fold (ViewFold_step cur view ?by_id) (map StepSet s2 @ map StepCommit (sg_commits d)) ?start)"
    using False by (simp add: project_graph_after_narrow steps)
  define vf where "vf = fold (ViewFold_step cur view ?by_id) (map StepSet s2) ?start"
  define cs where "cs = (if ps then set_changes ?by_id view (cur_views cur) (vf_tree ?start) s else [])"
  have tr: "vf_tree ?start = Some t' \<Longrightarrow> bt_ok t'" for t' using tree by (auto simp: view_start_def split: if_splits)
  have cs_paths: "distinct (map pc_path cs)" "vs_views s = None \<Longrightarrow> pc_path ` set cs \<subseteq> vc_path ` set (vs_changes s)"
    using set_changes_paths [OF paths, of "vf_tree ?start" ?by_id view "cur_views cur"] tr by (cases ps; simp add: cs_def)+
  have vf: "vf_commits vf = [] \<and> cs = [] \<or> ps \<and> (\<exists>k. vf_commits vf = [k] \<and> pj_visibility_change_set_id k = Some (vs_id s) \<and> pj_changes k = cs)"
    by (auto simp: vf_def cs_def sets ViewFold_step_def ViewFold_set_def Let_def view_start_def set_commit_def)
  have vf_views: "vs_views s = None \<Longrightarrow> vf_views vf = cur_views cur"
    by (simp add: vf_def sets ViewFold_step_def ViewFold_set_def Let_def view_start_def)
  obtain ccs where ccs: "pr_commits (project_graph_after cur t d s2 view) = vf_commits vf @ ccs"
    "\<forall>k \<in> set ccs. pj_visibility_change_set_id k = None \<and> pj_logical_commit_id k = lc_id c" "\<not> pc \<longrightarrow> ccs = []"
    "pc \<longrightarrow> all_changes ccs = visible_changes (vf_views vf) view c"
  proof (cases pc)
    case True
    then have "pr_commits (project_graph_after cur t d s2 view) = vf_commits (ViewFold_commit cur view c vf)"
      unfolding commits by (simp add: graph vf_def ViewFold_step_def [of _ _ _ "StepCommit c"])
    with content_commits_of [of cur view c vf] that True show thesis by auto
  next
    case False
    then show thesis using that [of "[]"] unfolding commits by (simp add: graph vf_def)
  qed
  have "pc_path ` set cs \<inter> pc_path ` set (all_changes ccs) = {}" if u: "vs_views s = None" "vs_source_update_id s \<noteq> None"
  proof -
    have pc: pc "vs_source_update_id s = Some (lc_id c)" using source u(2) by auto
    then have "Option.bind (vs_source_update_id s) ?by_id = Some c" by (simp add: commits_by_id_def graph)
    from set_and_commit_apart [OF u(1) this agree, of view "cur_views cur" "vf_tree ?start"] show ?thesis
      using ccs(4) pc(1) vf_views [OF u(1)] by (cases ps) (simp_all add: cs_def)
  qed
  then have "step_projection s c ps pc cs (vf_commits vf) ccs"
    unfolding step_projection_def using vf ccs(2,3) cs_paths by blast
  with ccs(1) show ?thesis by blast
qed

section \<open>What an entry does to the files\<close>

lemma commit_action_effect:
  "fold apply_entry (option_list (commit_action ph views view sets c)) r
    = fold apply_visibility_change (visibility_changes_for_action sets (ph_actions ph (lc_id c)) ph views view)
        (fold apply_file (case ph_actions ph (lc_id c) of None \<Rightarrow> [] | Some a \<Rightarrow> act_files a) r)"
  by (auto simp: commit_action_def Let_def case_prod_beta apply_entry_def)

lemma visibility_action_effect:
  "\<exists>content. fold apply_entry (option_list (visibility_action ph views view s)) r
    = fold apply_visibility_change (listed_changes (vs_views s \<noteq> None) s content ph views view) r"
proof (cases "vs_views s")
  case None
  then have "fold apply_entry (option_list (visibility_action ph views view s)) r
    = fold apply_visibility_change (listed_changes (vs_views s \<noteq> None) s None ph views view) r"
    by (auto simp: visibility_action_def Let_def listed_changes_def apply_entry_def)
  then show ?thesis by blast
next
  case (Some t)
  then have "fold apply_entry (option_list (visibility_action ph views view s)) r
    = fold apply_visibility_change (listed_changes (vs_views s \<noteq> None) s
        (Option.bind (vs_source_update_id s) (ph_actions ph)) ph views view) r"
    by (simp add: visibility_action_def Let_def listed_changes_def apply_entry_def)
  then show ?thesis by blast
qed

lemma step_actions:
  assumes graph: "sg_commits d = (if pc then [c] else [])" and sets: "s2 = (if ps then [s] else [])"
    and anchor: "ps \<longrightarrow> anchored_in d s = None"
    and source: "vs_source_update_id s \<noteq> None \<longrightarrow> vs_source_update_id s = Some (lc_id c) \<and> pc"
  shows "history_actions ph d s2 views view =
    (if ps \<and> vs_views s = None \<and> vs_source_update_id s \<noteq> None
     then option_list (commit_action ph views view [s] c)
     else (if ps then option_list (visibility_action ph views view s) else [])
       @ (if pc then option_list (commit_action ph views view [] c) else []))"
proof -
  have src: "source_in d s = (if vs_views s = None \<and> vs_source_update_id s \<noteq> None then Some (lc_id c) else None)"
  proof (cases "vs_source_update_id s")
    case (Some i)
    then have "i = lc_id c" pc using source by simp_all
    with Some show ?thesis by (simp add: source_in_def graph)
  qed (simp add: source_in_def)
  have "distinct (commit_ids d)" by (simp add: graph)
  note H = history_actions_steps [OF this, of ph s2 views view]
  show ?thesis
  proof (cases "ps \<and> vs_views s = None \<and> vs_source_update_id s \<noteq> None")
    case True
    then have pc using source by blast
    with True show ?thesis unfolding H by (simp add: src sets graph fold_steps_def step_entries_def)
  next
    case False
    then have un: "filter (\<lambda>s. source_in d s = None) s2 = s2" "\<And>i. filter (\<lambda>s. source_in d s = Some i) s2 = []"
      by (auto simp: sets src)
    have at: "filter (\<lambda>s. anchored_in d s = None) s2 = s2" "\<And>i. filter (\<lambda>s. anchored_in d s = Some i) s2 = []"
      using anchor by (simp_all add: sets)
    show ?thesis
      unfolding H un fold_steps_def at if_not_P [OF False] by (simp add: sets graph step_entries_def)
  qed
qed

text \<open>One step takes a tree with the content of the projection to one with the content of the next.\<close>

lemma step_replay:
  assumes proj: "step_projection s c ps pc cs scs ccs" and ok: "bt_ok t"
  defines "ph \<equiv> snd (fold replay_commit (scs @ ccs) (t, no_projection_history))"
  shows "ps \<longrightarrow> records_boundary ph s cs t"
    and "(case ph_actions ph (lc_id c) of None \<Rightarrow> [] | Some a \<Rightarrow> act_files a)
      = content_files (all_changes ccs) (fold apply_projected_change cs t)"
    and "all_changes (scs @ ccs) = cs @ all_changes ccs"
proof -
  note P = proj [unfolded step_projection_def]
  define ph1 where "ph1 = snd (fold replay_commit scs (t, no_projection_history))"
  have s: "scs = [] \<and> cs = [] \<or> ps \<and> (\<exists>k. scs = [k] \<and> pj_visibility_change_set_id k = Some (vs_id s) \<and> pj_changes k = cs)"
    using P by blast
  then show split: "all_changes (scs @ ccs) = cs @ all_changes ccs" by auto
  have t1: "fst (fold replay_commit scs (t, no_projection_history)) = fold apply_projected_change cs t"
    using s by (auto simp: replay_tree)
  have ph: "ph = snd (fold replay_commit ccs (fold apply_projected_change cs t, ph1))"
    using t1 by (cases "fold replay_commit scs (t, no_projection_history)") (simp add: ph_def ph1_def)
  have cs: "distinct (map pc_path cs)" using P by blast
  have ph1: "ph_actions ph1 = Map.empty" "records_boundary ph1 s cs t"
  proof -
    show "ph_actions ph1 = Map.empty"
      using s by (auto simp: ph1_def replay_commit_def replay_boundary_frame(1))
    show "records_boundary ph1 s cs t"
    proof (cases "cs = [] \<and> scs = []")
      case False
      then obtain k where k: "scs = [k]" "pj_visibility_change_set_id k = Some (vs_id s)" "pj_changes k = cs" using s by blast
      have "ph1 = snd (fold (replay_boundary (vs_id s)) cs (t, no_projection_history))"
        by (simp add: ph1_def k replay_commit_def)
      then show ?thesis
        using boundary_recorded [OF cs ok, where i = "vs_id s" and ph = no_projection_history]
        unfolding records_boundary_def no_history_simps by simp
    qed (simp add: ph1_def records_boundary_def at_path_def)
  qed
  have cc: "\<forall>k \<in> set ccs. pj_visibility_change_set_id k = None \<and> pj_logical_commit_id k = lc_id c" using P by blast
  note C = content_commits_replay [OF cc, where t = "fold apply_projected_change cs t" and ph = ph1, folded ph]
  show "ps \<longrightarrow> records_boundary ph s cs t" using ph1(2) C(1,2) by (simp add: records_boundary_def)
  have "case ph_actions ph (lc_id c) of None \<Rightarrow> ccs = []
    | Some a \<Rightarrow> act_files a = content_files (all_changes ccs) (fold apply_projected_change cs t)
        \<and> act_paths a = pc_path ` set (all_changes ccs)"
    using C(3) ph1(1) by simp
  then show "(case ph_actions ph (lc_id c) of None \<Rightarrow> [] | Some a \<Rightarrow> act_files a)
      = content_files (all_changes ccs) (fold apply_projected_change cs t)"
    by (auto split: option.splits)
qed

lemma step_shows_tree:
  assumes proj: "step_projection s c ps pc cs scs ccs" and tree: "shows_tree r t"
    and graph: "sg_commits d = (if pc then [c] else [])" and sets: "s2 = (if ps then [s] else [])"
    and anchor: "ps \<longrightarrow> anchored_in d s = None"
    and source: "vs_source_update_id s \<noteq> None \<longrightarrow> vs_source_update_id s = Some (lc_id c) \<and> pc"
    and vs: "distinct (map vc_path (vs_changes s))"
  defines "ph \<equiv> snd (fold replay_commit (scs @ ccs) (t, no_projection_history))"
  shows "shows_tree (fold apply_entry (history_actions ph d s2 views view) r) (fold apply_projected_change (all_changes (scs @ ccs)) t)"
proof -
  let ?cs' = "all_changes ccs" and ?t1 = "fold apply_projected_change cs t"
  let ?t2 = "fold apply_projected_change ?cs' ?t1"
  note P = proj [unfolded step_projection_def]
  have ok: "bt_ok r" "bt_ok t" and same: "same_content p (bt_get r p) (bt_get t p)" for p
    using tree by (auto simp: shows_tree_def)
  have ok1: "bt_ok ?t1" and ok2: "bt_ok ?t2" using ok(2) by (simp_all only: projected_tree_ok)
  note R = step_replay [OF proj ok(2), folded ph_def]
  have t2: "fold apply_projected_change (all_changes (scs @ ccs)) t = ?t2" by (simp add: R(3) del: map_append concat_append)
  have cs: "distinct (map pc_path cs)" using P by blast
  show ?thesis
  proof (cases "ps \<and> vs_views s = None \<and> vs_source_update_id s \<noteq> None")
    case True
    let ?r1 = "fold apply_file (content_files ?cs' ?t1) r"
    let ?l = "listed_changes False s (ph_actions ph (lc_id c)) ph views view"
    have acts: "fold apply_entry (history_actions ph d s2 views view) r = fold apply_visibility_change ?l ?r1"
      unfolding step_actions [OF graph sets anchor source] if_P [OF True] commit_action_effect R(2)
      by (simp only: listed_changes_def if_False append_Nil2)
    have apart: "pc_path ` set cs \<inter> pc_path ` set ?cs' = {}" and inside: "pc_path ` set cs \<subseteq> vc_path ` set (vs_changes s)"
      using proj True by (simp_all only: step_projection_def simp_thms)
    note F = content_files_effect [OF ok(1) ok1, where cs = ?cs']
    have ok_r1: "bt_ok ?r1" using F by blast
    have rec: "records_boundary ph s cs t" using R(1) True by blast
    note L = listed_changes_effect [where whole = False and content = "ph_actions ph (lc_id c)" and views = views
        and view = view, OF rec cs vs disjI2 [OF inside] ok_r1 ok(2)]
    have "same_content p (bt_get (fold apply_visibility_change ?l ?r1) p) (bt_get ?t2 p)" for p
    proof (cases "p \<in> pc_path ` set cs")
      case True
      then have p': "p \<notin> pc_path ` set ?cs'" using apart by blast
      then have "bt_get ?r1 p = bt_get r p" "bt_get ?t2 p = bt_get ?t1 p"
        using F [of p] projected_tree_frame [OF ok1 p'] by blast+
      with L(3) [OF True] same [of p] show ?thesis by simp
    next
      case False
      then have "bt_get ?t1 p = bt_get t p" using projected_tree_frame [OF ok(2)] by blast
      then have "same_content p (bt_get ?r1 p) (bt_get ?t2 p)" using F [of p] same [of p] by simp
      with L(2) [OF False] show ?thesis by blast
    qed
    with L(1) ok2 show ?thesis unfolding acts t2 by (simp add: shows_tree_def)
  next
    case False
    define r1 where "r1 = (if ps then fold apply_entry (option_list (visibility_action ph views view s)) r else r)"
    have r1: "shows_tree r1 ?t1"
    proof (cases ps)
      case True
      obtain content where e: "r1 = fold apply_visibility_change (listed_changes (vs_views s \<noteq> None) s content ph views view) r"
        using visibility_action_effect [of ph views view s r] True by (auto simp: r1_def)
      have inside: "vs_views s \<noteq> None \<or> pc_path ` set cs \<subseteq> vc_path ` set (vs_changes s)" using P by blast
      have rec: "records_boundary ph s cs t" using R(1) True by blast
      note L = listed_changes_effect [where content = content and views = views and view = view, OF rec cs vs inside ok, folded e]
      have "same_content p (bt_get r1 p) (bt_get ?t1 p)" for p
        using L(2,3) [of p] same [of p] projected_tree_frame [OF ok(2), of p cs] by (cases "p \<in> pc_path ` set cs") simp_all
      with L(1) ok1 show ?thesis by (simp add: shows_tree_def)
    next
      case False
      then have "cs = []" using P by blast
      with False tree show ?thesis by (simp add: r1_def)
    qed
    have acts: "fold apply_entry (history_actions ph d s2 views view) r = fold apply_file (content_files ?cs' ?t1) r1"
    proof (cases pc)
      case True
      note False = \<open>\<not> (ps \<and> vs_views s = None \<and> vs_source_update_id s \<noteq> None)\<close>
      have "visibility_changes_for_action [] content ph views view = []" for content
        by (simp add: visibility_changes_for_action_def)
      then show ?thesis
        unfolding step_actions [OF graph sets anchor source] if_not_P [OF False] if_P [OF True] fold_append comp_apply
          commit_action_effect R(2) by (simp add: r1_def)
    next
      case False
      then have "ccs = []" using P by blast
      moreover have "\<not> (ps \<and> vs_views s = None \<and> vs_source_update_id s \<noteq> None)" using source False by blast
      ultimately show ?thesis
        unfolding step_actions [OF graph sets anchor source] by (simp only: if_not_P False) (simp add: r1_def)
    qed
    have "bt_ok r1" "\<And>p. same_content p (bt_get r1 p) (bt_get ?t1 p)" using r1 by (auto simp: shows_tree_def)
    then show ?thesis
      unfolding acts t2 shows_tree_def using content_files_effect [of r1 ?t1 ?cs'] ok1 ok2 by blast
  qed
qed

section \<open>Whole histories\<close>

lemma labelled_tree_ok: "bt_ok t \<Longrightarrow> bt_ok (fold step_tree steps t)"
proof (induction steps arbitrary: t)
  case (Cons step steps)
  have "bt_ok u \<Longrightarrow> bt_ok (fold LabelledTree_apply_change fs u)" for fs u
    by (induction fs arbitrary: u)
      (simp_all add: bt_ok_insert bt_ok_remove LabelledTree_apply_change.simps split: option.split)
  with Cons.prems have "bt_ok (LabelledTree_apply_commit c t)" for c by (simp add: LabelledTree_apply_commit_def)
  moreover have "bt_ok (LabelledTree_relabel s t)" for s
  proof -
    have "map fst (LabelledTree_relabel_change d u) = map fst u" for d u by (induction u) auto
    then have "bt_ok u \<Longrightarrow> bt_ok (fold LabelledTree_relabel_change ds u)" for ds u
      by (induction ds arbitrary: u) (simp_all add: bt_ok_def del: LabelledTree_relabel_change.simps)
    then show ?thesis using Cons.prems by (simp add: LabelledTree_relabel_def)
  qed
  ultimately have "bt_ok (step_tree step t)" by (cases step) simp_all
  with Cons.IH show ?case by simp
qed simp

lemma append_none: "append_history g (g\<lparr>sg_commits := []\<rparr>) = g"
  by (simp add: append_history_def)

lemma grown_history_shows_tree:
  assumes "grown_history full g sets" and "set_ids_ok sets" and "Views_full v0 = full"
  defines "cur \<equiv> ProjectionCursor_start v0"
  shows "anchored g sets \<and> (\<forall>s \<in> set sets. \<forall>tr. vs_views s = Some tr \<longrightarrow> Views_full (vt_after tr) = full)
    \<and> shows_tree (fold apply_entry (history_actions (ProjectionHistory_replay [] (project_graph_after cur [] g sets view))
          g sets views view) [])
        (Projection_apply_to (project_graph_after cur [] g sets view) [])"
  using assms(1,2)
proof (induction rule: grown_history.induct)
  case (start g)
  have "list_all (commit_of g []) (pr_commits (project_graph_after cur [] g [] view))" by (rule projection_commit_of)
  then have "pr_commits (project_graph_after cur [] g [] view) = []"
    using start by (cases "pr_commits (project_graph_after cur [] g [] view)") (auto simp: commit_of_def split: option.splits)
  then show ?case
    using start by (simp add: anchored_def history_actions_def append_visibility_actions_def shows_tree_def
        Projection_apply_to_def bt_ok_def bt_get_def same_content_def List.map_filter_def)
next
  case (grow g sets ps s pc c)
  define d where "d = g\<lparr>sg_commits := if pc then [c] else []\<rparr>"
  define s2 where "s2 = (if ps then [s] else [])"
  define p where "p = project_graph_after cur [] g sets view"
  define q where "q = project_graph_after (ProjectionCursor_advanced cur p g sets) (LabelledTree_fold g sets []) d s2 view"
  have g': "grown_graph pc c g = append_history g d" and sets': "grown_sets ps s sets = sets @ s2"
    by (simp_all add: grown_graph_def grown_sets_def d_def s2_def append_history_def)
  have dc: "sg_commits d = (if pc then [c] else [])" by (simp add: d_def)
  have ids_ok: "set_ids_ok (sets @ s2)" using grow.prems by (simp add: sets')
  have IH: "anchored g sets" "\<forall>s \<in> set sets. \<forall>tr. vs_views s = Some tr \<longrightarrow> Views_full (vt_after tr) = full"
    "shows_tree (fold apply_entry (history_actions (ProjectionHistory_replay [] p) g sets views view) []) (Projection_apply_to p [])"
    using grow.IH set_ids_ok_append(1) [OF ids_ok] by (simp_all add: p_def)
  have fresh: "set (commit_ids g) \<inter> set (commit_ids d) = {}" using grow.hyps(3) by (cases pc) (simp_all add: dc)
  have ids: "distinct (commit_ids g @ commit_ids d)" using IH(1) grow.hyps(3) by (simp add: anchored_def dc)
  have old: "\<forall>s \<in> set sets. \<forall>c \<in> set (sg_commits d). vs_anchor_commit_id s \<noteq> Some (lc_id c) \<and> vs_source_update_id s \<noteq> Some (lc_id c)"
    using IH(1) grow.hyps(3) by (auto simp: anchored_def dc split: option.splits)
  have delta: "projection_delta_appends (last_commit_id g) (sg_commits d) s2"
    using grow.hyps(2,4) by (auto simp: projection_delta_appends_def s2_def dc split: option.split)
  have views: "\<forall>s \<in> set sets. \<forall>tr. vs_views s = Some tr \<longrightarrow> Views_full (vt_after tr) = Views_full (cur_views cur)"
    using IH(2) assms(3) by (simp add: cur_def ProjectionCursor_start_def)
  have whole: "pr_commits (project_graph_after cur [] (append_history g d) (sets @ s2) view) = pr_commits p @ pr_commits q"
    using projection_append [OF ids old delta views p_def] by (simp add: append_history_def q_def)
  have anchor: "ps \<longrightarrow> anchored_in d s = None"
    using grow.hyps(2) fresh last_commit_id_mem [of g] by (auto simp: anchored_in_None dc disjoint_iff)
  have tree_ok: "bt_ok (LabelledTree_fold g sets [])"
    unfolding LabelledTree_fold_steps by (rule labelled_tree_ok) (simp add: bt_ok_def)
  obtain cs scs ccs where q: "pr_commits q = scs @ ccs" "step_projection s c ps pc cs scs ccs"
    using step_projection_of [OF dc s2_def anchor grow.hyps(4,5,6) tree_ok] unfolding q_def by blast
  have "shows_tree
      (fold apply_entry (history_actions (snd (fold replay_commit (scs @ ccs) (Projection_apply_to p [], no_projection_history)))
          d s2 views view) (fold apply_entry (history_actions (ProjectionHistory_replay [] p) g sets views view) []))
      (fold apply_projected_change (all_changes (scs @ ccs)) (Projection_apply_to p []))"
    by (rule step_shows_tree [OF q(2) IH(3) dc s2_def anchor grow.hyps(4,5)])
  moreover have "history_actions (ProjectionHistory_replay [] (project_graph_after cur [] (append_history g d) (sets @ s2) view))
        (append_history g d) (sets @ s2) views view
      = history_actions (ProjectionHistory_replay [] p) g sets views view
        @ history_actions (snd (fold replay_commit (scs @ ccs) (Projection_apply_to p [], no_projection_history))) d s2 views view"
    unfolding ProjectionHistory_replay_def whole Projection_apply_to_def q(1) [symmetric]
    by (rule replay_actions_split [OF ids ids_ok old delta]) (simp_all only: p_def q_def projection_commit_of)
  moreover have "Projection_apply_to (project_graph_after cur [] (append_history g d) (sets @ s2) view) []
      = fold apply_projected_change (all_changes (scs @ ccs)) (Projection_apply_to p [])"
    by (simp add: Projection_apply_to_def whole q(1))
  moreover have "anchored (append_history g d) (sets @ s2)"
    unfolding g' [symmetric] sets' [symmetric] using IH(1) grow.hyps(2-4) by (rule anchored_grown)
  moreover have "\<forall>s \<in> set (sets @ s2). \<forall>tr. vs_views s = Some tr \<longrightarrow> Views_full (vt_after tr) = full"
    using IH(2) grow.hyps(7) by (auto simp: s2_def)
  ultimately show ?case unfolding g' sets' by simp
qed

end
