(* ===== verification/History_Properties.thy ===== *)
theory History_Properties
  imports History_Facts Redaction_Limits
begin

text \<open>
  What the history of a view promises: it discloses nothing beyond the projection of the view, folding it in steps is
  folding it at once, its files are the live files of the view, and where its labels fall behind.
\<close>

section \<open>Only what the projection shows\<close>

definition projected_contents :: "projected_commit list \<Rightarrow> source_blob set" where
  "projected_contents cs = {b. \<exists>ch \<in> set (all_changes cs). pc_new_content ch = Some b}"

definition projected_paths :: "projected_commit list \<Rightarrow> scope_path set" where
  "projected_paths cs = pc_path ` set (all_changes cs)"

definition file_within :: "projected_commit list \<Rightarrow> history_entry_file \<Rightarrow> bool" where
  "file_within cs f \<longleftrightarrow> hef_path f \<in> projected_paths cs
     \<and> set_option (hef_old_content f) \<union> set_option (hef_new_content f) \<subseteq> projected_contents cs"

definition action_within :: "projected_commit list \<Rightarrow> string \<Rightarrow> projected_action \<Rightarrow> bool" where
  "action_within cs i a \<longleftrightarrow> list_all (file_within cs) (act_files a) \<and> act_paths a \<subseteq> projected_paths cs
     \<and> (\<exists>k \<in> set cs. pj_logical_commit_id k = i \<and> pj_author k = act_author a)
     \<and> (act_preserves_git_commits a \<longrightarrow>
          (\<exists>k \<in> set cs. pj_logical_commit_id k = i \<and> pj_materialization k \<noteq> Generate))"

definition history_within :: "projected_commit list \<Rightarrow> projection_history \<Rightarrow> bool" where
  "history_within cs ph \<longleftrightarrow>
     (\<forall>i a. ph_actions ph i = Some a \<longrightarrow> action_within cs i a)
     \<and> (\<forall>i f. ph_visibility ph i = Some (Some f) \<longrightarrow> file_within cs f)
     \<and> (\<forall>i p. CHR '':'' \<notin> set i \<and> ph_visibility ph (visibility_change_id i p) \<noteq> None \<longrightarrow> p \<in> projected_paths cs)
     \<and> (\<forall>i b. ph_boundaries ph i = Some b \<longrightarrow> fst ` set b \<subseteq> projected_paths cs)"

lemma history_withinD:
  assumes "history_within cs ph"
  shows "ph_actions ph i = Some a \<Longrightarrow> action_within cs i a"
    and "ph_visibility ph i = Some (Some f) \<Longrightarrow> file_within cs f"
    and "CHR '':'' \<notin> set i \<Longrightarrow> ph_visibility ph (visibility_change_id i p) \<noteq> None \<Longrightarrow> p \<in> projected_paths cs"
    and "ph_boundaries ph i = Some b \<Longrightarrow> x \<in> fst ` set b \<Longrightarrow> x \<in> projected_paths cs"
  using assms unfolding history_within_def by blast+

definition tree_within :: "projected_commit list \<Rightarrow> file_tree \<Rightarrow> bool" where
  "tree_within cs t \<longleftrightarrow> snd ` set t \<subseteq> projected_contents cs"

lemma tree_within_change:
  assumes "tree_within cs t" and "ch \<in> set (all_changes cs)"
  shows "tree_within cs (apply_projected_change ch t)"
proof -
  have ins: "snd ` set (bt_insert p b t) \<subseteq> insert b (snd ` set t)" for p b using bt_insert_entries [of p b t] by force
  have del: "snd ` set (bt_remove p t) \<subseteq> snd ` set t" for p by (auto simp: bt_remove_def)
  have "b \<in> projected_contents cs" if "pc_new_content ch = Some b" for b
    using that assms(2) by (auto simp: projected_contents_def)
  with ins del assms(1) show ?thesis
    unfolding tree_within_def apply_projected_change.simps by (cases "pc_new_content ch") (simp_all, blast+)
qed

lemma shown_change_within:
  assumes "tree_within cs t" and "ch \<in> set (all_changes cs)" and "shown_change ch (bt_get t (pc_path ch)) = Some f"
  shows "file_within cs f"
proof -
  have "set_option (bt_get t p) \<subseteq> projected_contents cs" for p
    using assms(1) by (cases "bt_get t p") (force simp: tree_within_def bt_get_def dest: map_of_SomeD)+
  moreover have "set_option (pc_new_content ch) \<subseteq> projected_contents cs" "pc_path ch \<in> projected_paths cs"
    using assms(2) by (auto simp: projected_paths_def projected_contents_def)
  moreover have "hef_path f = pc_path ch" "hef_old_content f = bt_get t (pc_path ch)" "hef_new_content f = pc_new_content ch"
    using assms(3) by (auto simp: shown_change_def split: if_splits)
  ultimately show ?thesis by (simp add: file_within_def)
qed

lemma content_within:
  assumes "tree_within cs t" and "set ds \<subseteq> set (all_changes cs)"
  shows "list_all (file_within cs) (content_files ds t)"
  using assms
proof (induction ds arbitrary: t)
  case (Cons ch ds)
  then have "list_all (file_within cs) (option_list (shown_change ch (bt_get t (pc_path ch))))"
    using shown_change_within [of cs t ch] by (simp split: option.split)
  with Cons tree_within_change [of cs t ch] show ?case by (simp add: content_files_Cons)
qed simp

lemma tree_within_changes:
  "tree_within cs t \<Longrightarrow> set ds \<subseteq> set (all_changes cs) \<Longrightarrow> tree_within cs (fold apply_projected_change ds t)"
  by (induction ds arbitrary: t) (simp_all add: tree_within_change del: apply_projected_change.simps set_concat)

lemma boundary_within:
  assumes "tree_within cs t" and "history_within cs ph" and "set ds \<subseteq> set (all_changes cs)" and "CHR '':'' \<notin> set i"
  shows "history_within cs (snd (fold (replay_boundary i) ds (t, ph)))"
  using assms(1-3)
proof (induction ds arbitrary: t ph)
  case (Cons ch ds)
  have ch: "ch \<in> set (all_changes cs)" using Cons.prems(3) by simp
  have p: "pc_path ch \<in> projected_paths cs" using ch by (auto simp: projected_paths_def)
  have "history_within cs (snd (replay_boundary i ch (t, ph)))"
    unfolding replay_boundary_step snd_conv
  proof (cases "touches t ch")
    case True
    have vis: "p \<in> projected_paths cs" if "CHR '':'' \<notin> set j" "visibility_change_id j p = visibility_change_id i (pc_path ch)" for j p
      using visibility_change_id_eq [OF that(1) assms(4) that(2)] \<open>pc_path ch \<in> projected_paths cs\<close> by simp
    obtain recorded where recorded: "(case ph_boundaries ph i of None \<Rightarrow> [] | Some b \<Rightarrow> b) = recorded"
      "fst ` set recorded \<subseteq> projected_paths cs"
      using Cons.prems(2) by (cases "ph_boundaries ph i") (auto simp: history_within_def)
    show "history_within cs (if touches t ch then ph\<lparr>
       ph_visibility := (ph_visibility ph)(visibility_change_id i (pc_path ch) \<mapsto> shown_change ch (bt_get t (pc_path ch))),
       ph_boundaries := (ph_boundaries ph)(i \<mapsto>
         (case ph_boundaries ph i of None \<Rightarrow> [] | Some b \<Rightarrow> b) @ [(pc_path ch, pc_label ch)])\<rparr> else ph)"
      unfolding recorded(1)
      using Cons.prems(2) True p vis recorded(2) shown_change_within [OF Cons.prems(1) ch]
      by (auto simp: history_within_def split: if_splits)
  qed (use Cons.prems(2) in simp)
  with Cons.IH [OF tree_within_change [OF Cons.prems(1) ch]] Cons.prems(3) show ?case
    by (simp add: replay_boundary_step)
qed simp

lemma replay_within:
  assumes "set ks \<subseteq> set cs" and "tree_within cs t" and "history_within cs ph"
    and "\<forall>k \<in> set cs. \<forall>i. pj_visibility_change_set_id k = Some i \<longrightarrow> CHR '':'' \<notin> set i"
  shows "history_within cs (snd (fold replay_commit ks (t, ph)))"
  using assms(1-3)
proof (induction ks arbitrary: t ph)
  case (Cons k ks)
  have k: "k \<in> set cs" and ch: "set (pj_changes k) \<subseteq> set (all_changes cs)" using Cons.prems(1) by auto
  have "history_within cs (snd (replay_commit k (t, ph)))"
  proof (cases "pj_visibility_change_set_id k")
    case (Some i)
    then have "CHR '':'' \<notin> set i" using assms(4) k by blast
    from boundary_within [OF Cons.prems(2,3) ch this] Some show ?thesis by (simp add: replay_commit_def)
  next
    case None
    define i where "i = pj_logical_commit_id k"
    define b where "b = (case ph_actions ph i of None \<Rightarrow> no_action | Some a \<Rightarrow> a)"
    define a where "a = snd (fold replay_content (pj_changes k) (t, b\<lparr>act_preserves_git_commits := act_preserves_git_commits b
       \<or> (case pj_materialization k of PreserveGitCommit _ _ _ \<Rightarrow> True | Generate \<Rightarrow> False),
         act_author := pj_author k, act_message := pj_message k\<rparr>))"
    have e: "snd (replay_commit k (t, ph)) = ph\<lparr>ph_actions := (ph_actions ph)(i \<mapsto> a)\<rparr>"
      using None by (simp add: replay_commit_def Let_def case_prod_beta a_def b_def i_def)
    have keep: "act_author (snd (fold replay_content ds x)) = act_author (snd x)
        \<and> act_preserves_git_commits (snd (fold replay_content ds x)) = act_preserves_git_commits (snd x)" for ds x
    proof (induction ds arbitrary: x)
      case (Cons d ds)
      show ?case using Cons [of "replay_content d x"] by (cases x) (simp add: replay_content_step)
    qed simp
    have b: "list_all (file_within cs) (act_files b)" "act_paths b \<subseteq> projected_paths cs"
      "act_preserves_git_commits b \<Longrightarrow> \<exists>k \<in> set cs. pj_logical_commit_id k = i \<and> pj_materialization k \<noteq> Generate"
      using Cons.prems(3) by (auto simp: b_def no_action_def history_within_def action_within_def split: option.splits)
    have "action_within cs i a"
      unfolding action_within_def
    proof (intro conjI impI)
      show "list_all (file_within cs) (act_files a)"
        using b(1) content_within [OF Cons.prems(2) ch] by (simp add: a_def replay_content_files)
      show "act_paths a \<subseteq> projected_paths cs"
        using b(2) ch by (auto simp: a_def replay_content_files projected_paths_def)
      show "\<exists>k \<in> set cs. pj_logical_commit_id k = i \<and> pj_author k = act_author a"
        using k by (auto simp: a_def keep i_def)
      show "\<exists>k \<in> set cs. pj_logical_commit_id k = i \<and> pj_materialization k \<noteq> Generate" if "act_preserves_git_commits a"
        using that b(3) k by (auto simp: a_def keep i_def split: projection_materialization.splits)
    qed
    with Cons.prems(3) show ?thesis unfolding e by (simp add: history_within_def)
  qed
  moreover obtain t' ph' where r: "replay_commit k (t, ph) = (t', ph')" by (cases "replay_commit k (t, ph)")
  moreover have "tree_within cs t'"
    using tree_within_changes [OF Cons.prems(2) ch] replay_commit_tree [of k t ph] r by simp
  ultimately show ?case using Cons.IH [of t' ph'] Cons.prems(1) by simp
qed simp

text \<open>Where entries come from.\<close>

lemma linked_entries:
  "e \<in> set (snd (link_entries h j cur es)) \<Longrightarrow> \<exists>e0 \<in> set es. \<exists>p. e = e0\<lparr>hen_parent_id := p\<rparr>"
proof (induction h j cur es rule: link_entries.induct)
  case (2 h j cur entry rest)
  then show ?case by (auto simp: Let_def case_prod_beta)
qed simp

lemma commit_actions_from:
  assumes "e \<in> set (commit_actions ph views view by_source by_anchor cs)"
    and "\<forall>i. set (by_source i) \<subseteq> sets \<and> set (by_anchor i) \<subseteq> sets"
  shows "(\<exists>c ss. set ss \<subseteq> sets \<and> commit_action ph views view ss c = Some e)
    \<or> (\<exists>s \<in> sets. visibility_action ph views view s = Some e)"
  using assms
proof (induction cs arbitrary: by_source by_anchor)
  case (Cons c cs)
  have "\<forall>i. set ((by_source(lc_id c := [])) i) \<subseteq> sets \<and> set ((by_anchor(lc_id c := [])) i) \<subseteq> sets"
    using Cons.prems(2) by simp
  note rest = Cons.IH [OF _ this]
  from Cons.prems(1) consider "commit_action ph views view (by_source (lc_id c)) c = Some e"
    | "e \<in> set (append_visibility_actions (by_anchor (lc_id c)) ph views view)"
    | "e \<in> set (commit_actions ph views view (by_source(lc_id c := [])) (by_anchor(lc_id c := [])) cs)"
    by (auto split: option.splits)
  then show ?case
  proof cases
    case 2
    then show ?thesis using Cons.prems(2) by (force simp: append_visibility_actions_def List.map_filter_def)
  qed (use Cons.prems(2) rest in blast)+
qed simp

lemma history_actions_from:
  assumes "e \<in> set (history_actions ph g sets views view)"
  shows "(\<exists>c ss. set ss \<subseteq> set sets \<and> commit_action ph views view ss c = Some e)
    \<or> (\<exists>s \<in> set sets. visibility_action ph views view s = Some e)"
proof -
  have "e \<in> set (append_visibility_actions (filter (\<lambda>s. anchored_in g s = None) (filter (\<lambda>s. source_in g s = None) sets)) ph views view)
    \<or> e \<in> set (commit_actions ph views view (\<lambda>i. filter (\<lambda>s. source_in g s = Some i) sets)
        (\<lambda>i. filter (\<lambda>s. anchored_in g s = Some i) (filter (\<lambda>s. source_in g s = None) sets)) (sg_commits g))"
    using assms by (auto simp: history_actions_def Let_def)
  then show ?thesis
  proof
    assume "e \<in> set (commit_actions ph views view (\<lambda>i. filter (\<lambda>s. source_in g s = Some i) sets)
        (\<lambda>i. filter (\<lambda>s. anchored_in g s = Some i) (filter (\<lambda>s. source_in g s = None) sets)) (sg_commits g))"
    then show ?thesis by (rule commit_actions_from) auto
  qed (force simp: append_visibility_actions_def List.map_filter_def)
qed

definition changes_within :: "projected_commit list \<Rightarrow> history_entry_visibility_change list \<Rightarrow> bool" where
  "changes_within cs l \<longleftrightarrow>
     (\<forall>ch \<in> set l. hev_path ch \<in> projected_paths cs \<and> (\<forall>f. hev_file ch = Some f \<longrightarrow> file_within cs f))"

lemma visibility_changes_within:
  assumes "history_within cs ph" and "view \<noteq> Views_full views" and "\<forall>s \<in> set ss. CHR '':'' \<notin> set (vs_id s)"
    and "\<And>a. content = Some a \<Longrightarrow> act_paths a \<subseteq> projected_paths cs"
  shows "changes_within cs (visibility_changes_for_action ss content ph views view)"
  unfolding changes_within_def
proof
  fix ch assume "ch \<in> set (visibility_changes_for_action ss content ph views view)"
  moreover have "visibility_changes_for_action ss content ph views view
      = concat (map (\<lambda>s. List.map_filter (listed_change s content ph views view) (vs_changes s)) ss)"
    by (simp add: visibility_changes_for_action_def listed_change_def [abs_def] Let_def)
  ultimately obtain s c where s: "s \<in> set ss" and ch: "listed_change s content ph views view c = Some ch"
    by (auto simp: List.map_filter_def)
  let ?b = "ph_visibility ph (visibility_change_id (vs_id s) (vc_path c))"
  have path: "hev_path ch = vc_path c" and boundary: "hev_file ch = Option.bind ?b (\<lambda>file. file)"
    using ch by (auto simp: listed_change_def Let_def split: if_splits)
  have "?b \<noteq> None \<or> (\<exists>a. content = Some a \<and> vc_path c \<in> act_paths a)"
    using ch assms(2) by (auto simp: listed_change_def Let_def split: if_splits option.splits)
  then have "vc_path c \<in> projected_paths cs"
  proof
    assume "?b \<noteq> None"
    with assms(3) s show ?thesis by (intro history_withinD(3) [OF assms(1)]) blast+
  qed (use assms(4) in blast)
  moreover have "file_within cs f" if "hev_file ch = Some f" for f
    using that boundary assms(1) by (cases ?b) (auto simp: history_within_def)
  ultimately show "hev_path ch \<in> projected_paths cs \<and> (\<forall>f. hev_file ch = Some f \<longrightarrow> file_within cs f)"
    by (simp add: path)
qed

lemma boundary_changes_within:
  assumes "history_within cs ph"
  shows "changes_within cs (views_boundary_changes s ph)"
  unfolding changes_within_def
proof
  fix ch assume ch: "ch \<in> set (views_boundary_changes s ph)"
  let ?b = "ph_visibility ph (visibility_change_id (vs_id s) (hev_path ch))"
  have "hev_file ch = Option.bind ?b (\<lambda>file. file)"
    using ch by (auto simp: views_boundary_changes_def Let_def)
  then have "\<forall>f. hev_file ch = Some f \<longrightarrow> file_within cs f"
    using assms by (cases ?b) (auto simp: history_within_def)
  moreover have "hev_path ch \<in> projected_paths cs"
  proof (cases "ph_boundaries ph (vs_id s)")
    case (Some b)
    then have "hev_path ch \<in> fst ` set b" using ch by (auto simp: views_boundary_changes_def Let_def rev_image_eqI)
    with history_withinD(4) [OF assms Some] show ?thesis by blast
  qed (use ch in \<open>simp add: views_boundary_changes_def\<close>)
  ultimately show "hev_path ch \<in> projected_paths cs \<and> (\<forall>f. hev_file ch = Some f \<longrightarrow> file_within cs f)" by simp
qed

definition entry_within :: "projected_commit list \<Rightarrow> history_entry \<Rightarrow> bool" where
  "entry_within cs e \<longleftrightarrow>
     (\<forall>f \<in> set (hen_files e). file_within cs f) \<and> changes_within cs (hen_visibility_changes e)
     \<and> (\<forall>a. hen_author e = Some a \<longrightarrow>
          (\<exists>k \<in> set cs. pj_logical_commit_id k = hen_id e \<and> (pj_author k = Some a \<or> pj_materialization k \<noteq> Generate)))
     \<and> (hen_author e = None \<longrightarrow> hen_occurred_at_unix e = None)
     \<and> (hen_native_commits e \<noteq> None \<longrightarrow>
          (\<exists>k \<in> set cs. pj_logical_commit_id k = hen_id e \<and> pj_materialization k \<noteq> Generate))"

lemma commit_action_within:
  assumes "history_within cs ph" and "view \<noteq> Views_full views" and "\<forall>s \<in> set ss. CHR '':'' \<notin> set (vs_id s)"
    and "commit_action ph views view ss c = Some e"
  shows "entry_within cs e"
proof -
  define source where "source = ph_actions ph (lc_id c)"
  have e: "hen_files e = (case source of None \<Rightarrow> [] | Some a \<Rightarrow> act_files a)"
    "hen_visibility_changes e = visibility_changes_for_action ss source ph views view" "hen_id e = lc_id c"
    "hen_native_commits e = shown_native_commits c source views view"
    "(hen_author e, hen_message e, hen_occurred_at_unix e) = action_metadata c source views view"
    using assms(4) by (auto simp: commit_action_def Let_def case_prod_beta source_def split: if_splits)
  have within: "action_within cs (lc_id c) a" if "source = Some a" for a
    using assms(1) that by (auto simp: history_within_def source_def)
  have "\<forall>f \<in> set (hen_files e). file_within cs f"
    using within by (auto simp: e(1) action_within_def list_all_iff split: option.split)
  moreover have "changes_within cs (hen_visibility_changes e)"
    unfolding e(2) using within by (intro visibility_changes_within assms(1-3)) (auto simp: action_within_def)
  moreover have "\<exists>k \<in> set cs. pj_logical_commit_id k = hen_id e \<and> (pj_author k = Some a \<or> pj_materialization k \<noteq> Generate)"
    if "hen_author e = Some a" for a
  proof (cases source)
    case None
    then show ?thesis using that e(5) assms(2) by (simp add: action_metadata_def Let_def)
  next
    case (Some b)
    show ?thesis
    proof (cases "act_preserves_git_commits b")
      case True
      then show ?thesis using within [OF Some] by (auto simp: action_within_def e(3))
    next
      case False
      then have "act_author b = Some a" using Some that e(5) assms(2) by (auto simp: action_metadata_def Let_def)
      then show ?thesis using within [OF Some] by (auto simp: action_within_def e(3))
    qed
  qed
  moreover have "hen_author e = None \<longrightarrow> hen_occurred_at_unix e = None"
    using e(5) by (auto simp: action_metadata_def case_prod_beta Let_def)
  moreover have "\<exists>k \<in> set cs. pj_logical_commit_id k = hen_id e \<and> pj_materialization k \<noteq> Generate"
    if native: "hen_native_commits e \<noteq> None"
  proof -
    obtain b where "source = Some b" "act_preserves_git_commits b"
      using native assms(2) unfolding e(4) shown_native_commits_def
      by (auto split: logical_commit_origin.splits if_splits option.splits)
    then show ?thesis using within by (auto simp: action_within_def e(3))
  qed
  ultimately show ?thesis by (simp add: entry_within_def)
qed

lemma visibility_action_within:
  assumes "history_within cs ph" and "view \<noteq> Views_full views" and "CHR '':'' \<notin> set (vs_id s)"
    and "visibility_action ph views view s = Some e"
  shows "entry_within cs e"
proof -
  have act: "act_paths a \<subseteq> projected_paths cs" if "Option.bind (vs_source_update_id s) (ph_actions ph) = Some a" for a
    using assms(1) that by (cases "vs_source_update_id s") (auto simp: history_within_def action_within_def)
  have "changes_within cs (visibility_changes_for_action [s] (Option.bind (vs_source_update_id s) (ph_actions ph)) ph views view)"
    "changes_within cs (visibility_changes_for_action [s] None ph views view)"
    using assms(1-3) act by (intro visibility_changes_within; simp)+
  with boundary_changes_within [OF assms(1), of s]
  have "changes_within cs (hen_visibility_changes e)"
    using assms(4) by (auto simp: visibility_action_def Let_def changes_within_def split: option.splits if_splits)
  moreover have "hen_files e = []" "hen_author e = None" "hen_occurred_at_unix e = None" "hen_native_commits e = None"
    using assms(2,4) by (auto simp: visibility_action_def Let_def split: option.splits if_splits)
  ultimately show ?thesis by (simp add: entry_within_def)
qed


section \<open>Folding in steps\<close>

text \<open>
  C7: Folding the history of a view in steps is folding it at once. When the history grew by commits and visibility
  changes that pass the check \<^verbatim>\<open>projection_delta_appends\<close>, and the change sets have distinct identifiers, the entries
  made from the appended part, starting from the stored cursor and the tree of the stored projection, follow those made
  before as if the whole history had been folded: the same entries, parents and generations, for every view.
\<close>

theorem incremental_history_correct:
  assumes "distinct (map lc_id (sg_commits g) @ map lc_id (sg_commits d))" and "set_ids_ok (s1 @ s2)"
    and "\<forall>s \<in> set s1. \<forall>c \<in> set (sg_commits d).
      vs_anchor_commit_id s \<noteq> Some (lc_id c) \<and> vs_source_update_id s \<noteq> Some (lc_id c)"
    and "projection_delta_appends (last_commit_id g) (sg_commits d) s2"
    and "\<forall>s \<in> set s1. \<forall>tr. vs_views s = Some tr \<longrightarrow> Views_full (vt_after tr) = Views_full (cur_views cur)"
    and "p = project_graph_after cur t g s1 view"
    and "q = project_graph_after (ProjectionCursor_advanced cur p g s1) (LabelledTree_fold g s1 t) d s2 view"
    and "whole = project_graph_after cur t (g\<lparr>sg_commits := sg_commits g @ sg_commits d\<rparr>) (s1 @ s2) view"
  shows "history_entries_after sha256_hex views_json start tree whole
      (g\<lparr>sg_commits := sg_commits g @ sg_commits d\<rparr>) (s1 @ s2) views view
    = (let (cursor, before) = history_entries_after sha256_hex views_json start tree p g s1 views view;
           (cursor', after) = history_entries_after sha256_hex views_json cursor (Projection_apply_to p tree) q d s2 views view
       in (cursor', before @ after))"
proof -
  have w: "pr_commits whole = pr_commits p @ pr_commits q"
    unfolding assms(7,8) using projection_append [OF assms(1,3-6)] .
  have "history_actions (ProjectionHistory_replay tree whole) (append_history g d) (s1 @ s2) views view
      = history_actions (ProjectionHistory_replay tree p) g s1 views view
        @ history_actions (ProjectionHistory_replay (Projection_apply_to p tree) q) d s2 views view"
    unfolding ProjectionHistory_replay_def w Projection_apply_to_def
    by (rule replay_actions_split [OF assms(1-4)]) (simp_all only: assms(6,7) projection_commit_of)
  then show ?thesis
    by (simp add: history_entries_after_def append_history_def link_entries_append)
qed

lemma incremental_history_correct_witness:
  "history_entries_after (\<lambda>h. h) (\<lambda>v. []) (HistoryCursor_start (\<lambda>h. h) ''r'' ViewId_public) []
      (project_graph_after (ProjectionCursor_start Views_builtin) []
        (first_part\<lparr>sg_commits := sg_commits first_part @ sg_commits second_part\<rparr>) ([] @ [relabel_after]) ViewId_public)
      (first_part\<lparr>sg_commits := sg_commits first_part @ sg_commits second_part\<rparr>) ([] @ [relabel_after]) Views_builtin ViewId_public
    = (let p = project_graph_after (ProjectionCursor_start Views_builtin) [] first_part [] ViewId_public;
           (cursor, before) = history_entries_after (\<lambda>h. h) (\<lambda>v. []) (HistoryCursor_start (\<lambda>h. h) ''r'' ViewId_public) []
             p first_part [] Views_builtin ViewId_public;
           (cursor', after) = history_entries_after (\<lambda>h. h) (\<lambda>v. []) cursor (Projection_apply_to p [])
             (project_graph_after (ProjectionCursor_advanced (ProjectionCursor_start Views_builtin) p first_part [])
               (LabelledTree_fold first_part [] []) second_part [relabel_after] ViewId_public)
             second_part [relabel_after] Views_builtin ViewId_public
       in (cursor', before @ after))"
  unfolding Let_def [of "project_graph_after _ _ _ _ _"]
  by (rule incremental_history_correct [OF _ _ _ _ _ refl refl refl])
    (simp_all add: first_part_def second_part_def relabel_after_def projection_delta_appends_def last_commit_id_def set_ids_ok_def)

section \<open>The files of a history\<close>

lemma linked_effect: "fold apply_entry (snd (link_entries h j cur es)) r = fold apply_entry es r"
  by (induction h j cur es arbitrary: r rule: link_entries.induct) (simp_all add: Let_def case_prod_beta apply_entry_def)

lemma history_tree_of_actions:
  "history_tree (rev (hv_entries (history_view_of sha256_hex views_json graph sets views view)))
    = map snd (fold apply_entry (history_actions (ProjectionHistory_replay [] (project_graph graph sets views view))
        graph sets views view) [])"
  by (simp add: history_view_of_def history_view_from_projection_def history_entries_after_def history_tree_def
      case_prod_beta Let_def linked_effect)

lemma shown_files:
  assumes "shows_tree r t"
  shows "sorted_wrt (<) (map htf_path (map snd r))"
    and "source_content_matches (map_of (map (\<lambda>f. (htf_path f, htf_content f)) (map snd r)) p) (map_of t p)"
proof -
  have ok: "bt_ok r" and same: "\<And>p. same_content p (bt_get r p) (bt_get t p)" using assms by (auto simp: shows_tree_def)
  have path: "htf_path f = p" if "(p, f) \<in> set r" for p f
  proof -
    have "bt_get r p = Some f" using that bt_ok_distinct [OF ok] by (simp add: bt_get_def)
    with same [of p] show ?thesis by (simp add: same_content_def)
  qed
  then have m: "map htf_path (map snd r) = map fst r" by auto
  show "sorted_wrt (<) (map htf_path (map snd r))" unfolding m using ok by (simp add: bt_ok_def)
  have c: "map (\<lambda>f. (htf_path f, htf_content f)) (map snd r) = map (\<lambda>(p, f). (p, htf_content f)) r" using path by auto
  have "map_of (map (\<lambda>(p, f). (p, htf_content f)) u) p = map_option htf_content (map_of u p)"
    for u :: "(scope_path \<times> history_tree_file) list"
    by (induction u) auto
  then have "map_of (map (\<lambda>f. (htf_path f, htf_content f)) (map snd r)) p = map_option htf_content (bt_get r p)"
    unfolding c bt_get_def .
  with same [of p] show "source_content_matches (map_of (map (\<lambda>f. (htf_path f, htf_content f)) (map snd r)) p) (map_of t p)"
    by (simp add: same_content_def bt_get_def)
qed



section \<open>Where labels fall behind\<close>

definition relabel_config :: repo_config where
  "relabel_config = (rp_config agent_repo)\<lparr>rc_files := \<lparr>rcf_default = ViewId_public,
     rcf_rules = [\<lparr>rcr_path = ''/a'', rcr_view = agent_view\<rparr>]\<rparr>\<rparr>"

definition relabel_update :: reviewed_config_update_input where
  "relabel_update = \<lparr>rcu_occurred_at_unix = 0, rcu_author_id = ''o'', rcu_config = relabel_config, rcu_open_requests_by_view = []\<rparr>"

definition relabelled_repo :: repository where
  "relabelled_repo = bump_content_version (secret_repo\<lparr>rp_config := relabel_config,
     rp_policy := \<lparr>pol_default = ViewId_public, pol_rules = [\<lparr>lr_path = ScopePath ''/a'', lr_view = agent_view\<rparr>]\<rparr>,
     rp_sets := [hide_set (visibility_change_set_id (unat (saturating_add (rr_change_version (rp_record secret_repo)) 1)))]\<rparr>)"

lemma relabel_labels:
  "label_for_path relabel_config (ScopePath ''/a'') = agent_view" "rc_views relabel_config = agent_views"
  "rp_config agent_repo \<noteq> relabel_config"
proof -
  show "label_for_path relabel_config (ScopePath ''/a'') = agent_view"
    by (simp add: label_for_path_def label_for_path_skipping_rule_def relabel_config_def control_defs control_consts string_ops
        consider_rule_def pattern_matches_path_def suffix_def)
  show "rc_views relabel_config = agent_views"
    by (simp add: relabel_config_def agent_repo_def demo_repo_def RepoConfig_with_default_view_def)
  show "rp_config agent_repo \<noteq> relabel_config"
    by (simp add: agent_repo_def demo_repo_def RepoConfig_with_default_view_def relabel_config_def)
qed

lemma relabel_accepted: "apply_reviewed_config_to_repo secret_repo relabel_update = Inr (relabelled_repo, True)"
proof -
  define i where "i = visibility_change_set_id (unat (saturating_add (rr_change_version (rp_record secret_repo)) 1))"
  have views: "rc_views (rp_config agent_repo) = agent_views"
    by (simp add: agent_repo_def demo_repo_def RepoConfig_with_default_view_def)
  have t: "views_transition_of secret_repo relabel_config [] = Inr None"
    by (simp add: views_transition_of_def secret_repo_fields relabel_labels(2) views)
  have rw: "history_rewrites_added_since relabel_config (Some (rp_config agent_repo)) = []"
    by (simp add: history_rewrites_added_since_def relabel_config_def agent_repo_def demo_repo_def RepoConfig_with_default_view_def)
  have lab: "label_changes secret_repo relabel_config skipped [(ScopePath ''/a'', demo_blob ''1'')] = [hide_change]"
    if "\<not> skipped (ScopePath ''/a'') ViewId_public agent_view" for skipped
    using that relabel_labels(1) hide_labels(2,4) by (simp add: label_changes_def List.map_filter_def hide_change_def)
  have push: "push_change_set i (Some ''rv_push_h'') None ''o'' (Some 0) [hide_change] None r
      = Inr (r\<lparr>rp_sets := rp_sets r @ [hide_set i]\<rparr>)" for r
    using hide_labels(4)
    by (simp add: push_change_set_def VisibilityChangeSet_new_def hide_change_def hide_set_def i_def visibility_change_set_id_def)
  have pol: "policy_from_config_for_tree relabel_config [ScopePath ''/a'']
      = Inr \<lparr>pol_default = ViewId_public, pol_rules = [\<lparr>lr_path = ScopePath ''/a'', lr_view = agent_view\<rparr>]\<rparr>"
    using hide_labels(4)
    by (simp add: policy_from_config_for_tree_def Policy_add_rules_def relabel_labels(1) Policy_new_def bt_collect_def
        rule_pair_def pair_rule_def check_island_def ViewId_is_public_def)
      (simp add: relabel_config_def)
  show ?thesis
    using relabel_labels(3) hide_labels(5)
    by (simp add: apply_reviewed_config_to_repo_def relabel_update_def secret_repo_fields t rw no_rewrites Let_def lab
        pol last_commit_id_def hidden_graph_def hidden_commit_def push flip: i_def)
      (simp add: relabelled_repo_def i_def secret_repo_def agent_repo_def demo_repo_def)
qed

lemma relabelled_fields:
  "rp_graph relabelled_repo = hidden_graph ViewId_public" "rp_config relabelled_repo = relabel_config"
  "\<exists>i. rp_sets relabelled_repo = [hide_set i]"
  by (simp_all add: relabelled_repo_def secret_repo_fields) blast

text \<open>The agent's view sees one commit and no change of label.\<close>

lemma agent_projection:
  "pr_commits (project_graph (hidden_graph ViewId_public) [hide_set i] agent_views agent_view)
    = [\<lparr>pj_projected_id = projected_id agent_view ''rv_push_h'' 1, pj_logical_commit_id = ''rv_push_h'',
        pj_visibility_change_set_id = None, pj_parent_projected_id = None, pj_author = Some ''o'', pj_message = ''m'',
        pj_changes = [\<lparr>pc_path = ScopePath ''/a'', pc_new_content = Some (demo_blob ''1''), pc_label = ViewId_public\<rparr>],
        pj_materialization = Generate\<rparr>]"
proof -
  have init: "initial_views [hide_set i] agent_views = agent_views"
    by (simp add: initial_views_def hide_set_def List.map_filter_def)
  have vis: "visible_changes agent_views agent_view (hidden_commit ViewId_public)
      = [\<lparr>pc_path = ScopePath ''/a'', pc_new_content = Some (demo_blob ''1''), pc_label = ViewId_public\<rparr>]"
    using agent_labels(1) by (simp add: visible_changes_def hidden_commit_def projected_of_def)
  have rel: "set_changes by_id agent_view agent_views topt (hide_set i) = []" for by_id topt
    using agent_labels(1,2) by (simp add: set_changes_def hide_set_def hide_change_def relabel_changes_def Let_def)
  have steps: "fold_steps (hidden_graph ViewId_public) [hide_set i] = [StepCommit (hidden_commit ViewId_public), StepSet (hide_set i)]"
    by (simp add: fold_steps_def anchored_in_def hidden_graph_def hidden_commit_def hide_set_def)
  have native: "preserved_native view n (hidden_commit ViewId_public) = None" for view n
    by (simp add: preserved_native_def hidden_commit_def)
  show ?thesis
    using agent_labels(4)
    by (simp add: project_graph_def project_graph_after_def init steps ViewFold_step_def ViewFold_set_def rel ViewFold_commit_def
        ViewFold_project_content_def vis native Let_def ProjectionCursor_start_def ProjectionCursor_next_id_def)
      (simp add: hidden_commit_def)
qed

definition shown_file :: history_entry_file where
  "shown_file = \<lparr>hef_path = ScopePath ''/a'', hef_kind = FileAdded, hef_old_content = None,
     hef_new_content = Some (demo_blob ''1''), hef_label = ViewId_public\<rparr>"

definition shown_entry :: history_entry where
  "shown_entry = \<lparr>hen_occurred_at_unix = None, hen_id = ''rv_push_h'', hen_source_id = ''rv_push_h'', hen_parent_id = None,
     hen_kind = EntryPush, hen_author = Some ''o'', hen_message = ''m'', hen_files = [shown_file],
     hen_visibility_changes = [], hen_native_commits = None, hen_views = None\<rparr>"

lemma agent_replay:
  assumes "ph = ProjectionHistory_replay [] (project_graph (hidden_graph ViewId_public) [hide_set i] agent_views agent_view)"
  shows "ph_actions ph ''rv_push_h'' = Some \<lparr>act_author = Some ''o'', act_message = ''m'', act_files = [shown_file],
      act_paths = {ScopePath ''/a''}, act_preserves_git_commits = False\<rparr>" and "ph_visibility ph = Map.empty"
  by (simp_all add: assms ProjectionHistory_replay_def agent_projection replay_commit_def replay_content_def history_apply_change_def
      source_content_matches_def shown_file_def no_action_def Let_def bt_get_def)

lemma agent_actions:
  assumes "ph = ProjectionHistory_replay [] (project_graph (hidden_graph ViewId_public) [hide_set i] agent_views agent_view)"
  shows "history_actions ph (hidden_graph ViewId_public) [hide_set i] agent_views agent_view = [shown_entry]"
proof -
  note ph = agent_replay [OF assms]
  have none: "visibility_action ph agent_views agent_view (hide_set i) = None"
    using agent_labels(4) ph(2)
    by (simp add: visibility_action_def visibility_changes_for_action_def hide_set_def List.map_filter_def)
  have entry: "commit_action ph agent_views agent_view [] (hidden_commit ViewId_public) = Some shown_entry"
    using agent_labels(4)
    by (simp add: commit_action_def hidden_commit_def ph(1) visibility_changes_for_action_def shown_native_commits_def
        action_metadata_def shown_entry_def)
  have commits: "sg_commits (hidden_graph ViewId_public) = [hidden_commit ViewId_public]" by (simp add: hidden_graph_def)
  have i: "lc_id (hidden_commit ViewId_public) = ''rv_push_h''" by (simp add: hidden_commit_def)
  have set: "source_in (hidden_graph ViewId_public) (hide_set i) = None"
    "anchored_in (hidden_graph ViewId_public) (hide_set i) = Some ''rv_push_h''"
    by (simp_all add: source_in_def anchored_in_def hide_set_def hidden_graph_def hidden_commit_def)
  show ?thesis
    by (simp add: history_actions_def commits set i entry append_visibility_actions_def List.map_filter_def none)
qed

text \<open>
  C39: The labels in the history of a view can fall behind. When a configuration change moves a file between two views
  that a third view reads, the third view's projection does not change and its history gets no entry, so the files
  replayed from that history keep the old label although the policy has the new one.
\<close>

theorem relabelled_file_keeps_old_label:
  "\<exists>repo. apply_reviewed_config_to_repo secret_repo relabel_update = Inr (repo, True)
     \<and> label_for_path (rp_config repo) (ScopePath ''/a'') = agent_view \<and> agent_view \<noteq> ViewId_public
     \<and> history_tree (rev (hv_entries (history_view_of sha256_hex views_json (rp_graph repo) (rp_sets repo)
          (rc_views (rp_config repo)) agent_view)))
       = [\<lparr>htf_path = ScopePath ''/a'', htf_content = demo_blob ''1'', htf_label = ViewId_public\<rparr>]"
proof -
  obtain i where i: "rp_sets relabelled_repo = [hide_set i]" using relabelled_fields(3) by blast
  have "history_tree (rev (hv_entries (history_view_of sha256_hex views_json (rp_graph relabelled_repo) (rp_sets relabelled_repo)
          (rc_views (rp_config relabelled_repo)) agent_view)))
       = [\<lparr>htf_path = ScopePath ''/a'', htf_content = demo_blob ''1'', htf_label = ViewId_public\<rparr>]"
    unfolding history_tree_of_actions i relabelled_fields relabel_labels agent_actions [OF refl]
    by (simp add: shown_entry_def apply_entry_def shown_file_def apply_file_def)
  with relabel_accepted relabel_labels(1) hide_labels(4) show ?thesis
    by (intro exI [of _ relabelled_repo]) (simp add: relabelled_fields(2))
qed


end
