(* ===== verification/Projection_Views.thy ===== *)
theory Projection_Views
  imports History_Facts
begin

text \<open>
  What a reader is shown of a repository, and what deletes one: \<^verbatim>\<open>projection_views.rs\<close> (the files of a view, one file
  of a view, the preview of a view with its counts) and \<^verbatim>\<open>repo_actions.rs\<close> (creating and deleting a repository and the
  clean-up that a deletion asks for). The records of native commits, a \<^verbatim>\<open>BTreeMap\<close> that is only read, are a partial
  function.

  What readers are shown of a reachable repository, and what a deletion releases: the files of a view are its live
  files, one file is found without building the tree, the counts of a preview add up, and deleting a repository asks
  for the removal of every blob it still shows.
\<close>

section \<open>The files of a view\<close>

record projection_view_file =
  pvf_path :: scope_path
  pvf_oid :: string
  pvf_tracked :: bool
  pvf_label :: view_id

record projection_view_file_content =
  pvc_file :: projection_view_file
  pvc_blob :: source_blob

definition projected_file_contents :: "repository \<Rightarrow> views \<Rightarrow> view_id \<Rightarrow> projection_view_file_content list" where
  "projected_file_contents repo views view =
     (let live_files = Projection_apply_to (project_graph (rp_graph repo) (rp_sets repo) views view) []
      in map (\<lambda>(path, blob).
           \<lparr>pvc_file = \<lparr>pvf_path = path, pvf_oid = sb_git_oid blob, pvf_tracked = True,
                       pvf_label = Policy_label (rp_policy repo) path views\<rparr>,
            pvc_blob = blob\<rparr>) live_files)"

definition projected_files :: "repository \<Rightarrow> views \<Rightarrow> view_id \<Rightarrow> projection_view_file list" where
  "projected_files repo views view = map pvc_file (projected_file_contents repo views view)"

text \<open>One file, found from the end without building the tree.\<close>

definition projected_file_content ::
  "repository \<Rightarrow> views \<Rightarrow> view_id \<Rightarrow> scope_path \<Rightarrow> projection_view_file_content option" where
  "projected_file_content repo views view path =
     (let shown = project_graph (rp_graph repo) (rp_sets repo) views view in
      Option.bind (find (\<lambda>change. pc_path change = path)
          (concat (map (\<lambda>commit. rev (pj_changes commit)) (rev (pr_commits shown))))) (\<lambda>change.
      Option.bind (pc_new_content change) (\<lambda>blob.
        Some \<lparr>pvc_file = \<lparr>pvf_path = path, pvf_oid = sb_git_oid blob, pvf_tracked = True,
                          pvf_label = Policy_label (rp_policy repo) path views\<rparr>,
              pvc_blob = blob\<rparr>)))"

definition projection_tree :: "projection \<Rightarrow> (scope_path, string) btree_map" where
  "projection_tree shown = map (\<lambda>(path, blob). (path, sb_git_oid blob)) (Projection_apply_to shown [])"

definition has_visible_projected_non_control_files :: "repository \<Rightarrow> views \<Rightarrow> view_id \<Rightarrow> bool" where
  "has_visible_projected_non_control_files repo views view \<longleftrightarrow>
     (\<exists>path \<in> fst ` set (projection_tree (project_graph (rp_graph repo) (rp_sets repo) views view)).
        \<not> is_repo_control_path path)"

section \<open>The preview of a view\<close>

record projection_preview_file =
  ppf_path :: scope_path
  ppf_oid :: string
  ppf_label :: view_id

datatype preview_commit_visibility = AllInView | SomeInView | NoneInView

record projection_preview_commit =
  ppc_projected_id :: string
  ppc_logical_commit_id :: string
  ppc_parent_projected_ids :: "string list"
  ppc_author :: "string option"
  ppc_message :: string
  ppc_visibility :: preview_commit_visibility
  ppc_change_count :: nat

record projection_preview_summary =
  pps_visible_files :: nat
  pps_hidden_files :: nat
  pps_visible_commits :: nat
  pps_hidden_commits :: nat

record projection_preview_view =
  ppv_repo_id :: string
  ppv_view :: view_id
  ppv_files :: "projection_preview_file list"
  ppv_commits :: "projection_preview_commit list"
  ppv_summary :: projection_preview_summary

record projection_preview_source =
  pvs_repo_id :: string
  pvs_policy :: policy
  pvs_graph :: source_graph
  pvs_sets :: "visibility_change_set list"

record native_request_commit_details =
  nrd_author :: string
  nrd_message :: string
  nrd_occurred_at_unix :: int
  nrd_changes :: "file_change list"

definition projection_preview_commit_visibility :: "logical_commit \<Rightarrow> views \<Rightarrow> view_id \<Rightarrow> preview_commit_visibility" where
  "projection_preview_commit_visibility commit views view =
     (let seen = (\<lambda>change. Views_shows views view (fc_path change) (fc_label change)) in
      if list_all seen (lc_changes commit) then AllInView
      else if list_all (\<lambda>change. \<not> seen change) (lc_changes commit) then NoneInView
      else SomeInView)"

definition projection_preview_files :: "policy \<Rightarrow> projection \<Rightarrow> views \<Rightarrow> projection_preview_file list" where
  "projection_preview_files pol shown views =
     map (\<lambda>(path, oid). \<lparr>ppf_path = path, ppf_oid = oid, ppf_label = Policy_label pol path views\<rparr>) (projection_tree shown)"

definition hidden_logical_commit_count :: "projection \<Rightarrow> projection \<Rightarrow> nat" where
  "hidden_logical_commit_count owner_projection shown =
     length (filter (\<lambda>commit. pj_logical_commit_id commit \<notin> pj_logical_commit_id ` set (pr_commits shown))
       (pr_commits owner_projection))"

definition preview_commit ::
  "(string \<rightharpoonup> native_request_commit_details) \<Rightarrow> (string \<rightharpoonup> preview_commit_visibility) \<Rightarrow> projected_commit
   \<Rightarrow> (domain_error, projection_preview_commit) result" where
  "preview_commit native_details commit_visibility commit =
     (let entry = (\<lambda>native parents.
            \<lparr>ppc_projected_id = pj_projected_id commit, ppc_logical_commit_id = pj_logical_commit_id commit,
             ppc_parent_projected_ids = parents,
             ppc_author = (case native of Some d \<Rightarrow> Some (nrd_author d) | None \<Rightarrow> pj_author commit),
             ppc_message = (case native of Some d \<Rightarrow> nrd_message d | None \<Rightarrow> pj_message commit),
             ppc_visibility = (case commit_visibility (pj_logical_commit_id commit) of Some v \<Rightarrow> v | None \<Rightarrow> AllInView),
             ppc_change_count = (case native of Some d \<Rightarrow> length (nrd_changes d) | None \<Rightarrow> length (pj_changes commit))\<rparr>)
      in case pj_materialization commit of
        PreserveGitCommit oid parent_oids _ \<Rightarrow>
          (case native_details oid of
             None \<Rightarrow> Err (invariant_violation ''native preview metadata is missing'')
           | Some details \<Rightarrow> Ok (entry (Some details) parent_oids))
      | Generate \<Rightarrow> Ok (entry None (option_list (pj_parent_projected_id commit))))"

fun preview_commits ::
  "(string \<rightharpoonup> native_request_commit_details) \<Rightarrow> (string \<rightharpoonup> preview_commit_visibility) \<Rightarrow> projected_commit list
   \<Rightarrow> (domain_error, projection_preview_commit list) result" where
  "preview_commits native_details commit_visibility [] = Ok []"
| "preview_commits native_details commit_visibility (commit # rest) =
     and_then (preview_commit native_details commit_visibility commit) (\<lambda>entry.
     and_then (preview_commits native_details commit_visibility rest) (\<lambda>entries. Ok (entry # entries)))"

definition projection_preview ::
  "projection_preview_source \<Rightarrow> views \<Rightarrow> view_id \<Rightarrow> bool \<Rightarrow> (string \<rightharpoonup> native_request_commit_details)
   \<Rightarrow> (domain_error, projection_preview_view) result" where
  "projection_preview source views view include_private_counts native_details =
     (let shown = project_graph (pvs_graph source) (pvs_sets source) views view;
          files = projection_preview_files (pvs_policy source) shown views;
          commit_visibility = map_of (rev (map (\<lambda>commit.
            (lc_id commit, projection_preview_commit_visibility commit views view)) (sg_commits (pvs_graph source))))
      in and_then (preview_commits native_details commit_visibility (pr_commits shown)) (\<lambda>commits.
         let (hidden_files, hidden_commits) =
               (if view \<noteq> Views_full views \<and> include_private_counts then
                  let private_projection = project_graph (pvs_graph source) (pvs_sets source) views (Views_full views)
                  in (length (projection_preview_files (pvs_policy source) private_projection views) - length files,
                      hidden_logical_commit_count private_projection shown)
                else (0, 0))
         in Ok \<lparr>ppv_repo_id = pvs_repo_id source, ppv_view = pr_view_key shown, ppv_files = files, ppv_commits = commits,
                ppv_summary = \<lparr>pps_visible_files = length files, pps_hidden_files = hidden_files,
                  pps_visible_commits = length commits, pps_hidden_commits = hidden_commits\<rparr>\<rparr>))"

section \<open>Creating and deleting a repository\<close>

record repo_storage_cleanup =
  rsc_owner_handle :: string
  rsc_repo_name :: string
  rsc_incarnation :: repository_incarnation

datatype repo_effect = DeleteRepoStorage repo_storage_cleanup | DeleteSourceBlobs "source_blob list"

record 'a repo_mutation =
  rmu_result :: 'a
  rmu_effects :: "repo_effect list"

definition RepoEffects_delete_repo_storage :: "repo_storage_cleanup \<Rightarrow> repo_effect list \<Rightarrow> repo_effect list" where
  "RepoEffects_delete_repo_storage cleanup effects = effects @ [DeleteRepoStorage cleanup]"

definition RepoEffects_delete_source_blobs :: "source_blob list \<Rightarrow> repo_effect list \<Rightarrow> repo_effect list" where
  "RepoEffects_delete_source_blobs blobs effects = (if blobs \<noteq> [] then effects @ [DeleteSourceBlobs blobs] else effects)"

definition ensure_repo_owner :: "repository \<Rightarrow> string \<Rightarrow> (domain_error, unit) result" where
  "ensure_repo_owner repo user_id =
     (if \<not> Repository_is_owner_user repo user_id then Err (forbidden ''owner role required'') else Ok ())"

definition ensure_repo_member :: "repository \<Rightarrow> string \<Rightarrow> (domain_error, unit) result" where
  "ensure_repo_member repo user_id =
     (if Repository_is_owner_user repo user_id
         \<or> RepositoryCollaboration_member_for_user (rp_collaboration repo) user_id \<noteq> None
      then Ok () else Err (forbidden ''repo membership required''))"

definition hidden_repo_not_found :: "string \<Rightarrow> string \<Rightarrow> domain_error" where
  "hidden_repo_not_found owner name = not_found (''repo '' @ owner @ ''/'' @ name @ '' not found'')"

definition ensure_repo_delete_owner :: "repository \<Rightarrow> string \<Rightarrow> string \<Rightarrow> string \<Rightarrow> (domain_error, unit) result" where
  "ensure_repo_delete_owner repo user_id owner name =
     (case ensure_repo_owner repo user_id of
        Inr _ \<Rightarrow> Ok ()
      | Inl _ \<Rightarrow> Err (hidden_repo_not_found owner name))"

definition secretless_first_push_token :: "first_push_token \<Rightarrow> first_push_token" where
  "secretless_first_push_token token = token\<lparr>fpt_secret := None\<rparr>"

definition catalog_domain_error :: "catalog_error \<Rightarrow> domain_error" where
  "catalog_domain_error error =
     (case error of
        InvalidRepositoryName message \<Rightarrow> invalid_input message
      | InvalidRepositoryIdentity message \<Rightarrow> invalid_input message
      | UnknownDefaultView view \<Rightarrow> invalid_input (''unknown view '' @ view_str view))"

definition policy_error_message :: "policy_error \<Rightarrow> string" where
  "policy_error_message error =
     ''public rule at '' @ as_str (island_child error) @ '' cannot live under private parent '' @ as_str (island_parent error)"

definition reviewed_update_domain_error :: "reviewed_update_error \<Rightarrow> domain_error" where
  "reviewed_update_domain_error error =
     (case error of
        BadRequest message \<Rightarrow> invalid_input message
      | UpdateConflict message \<Rightarrow> conflict message
      | InvalidPolicy e \<Rightarrow> invalid_input (policy_error_message e)
      | DomainFailure e \<Rightarrow> e)"

definition create_repo ::
  "user_account \<Rightarrow> string \<Rightarrow> view_id \<Rightarrow> first_push_token \<Rightarrow> git_push_token \<Rightarrow> string
   \<Rightarrow> (domain_error, repository) result" where
  "create_repo owner name default_label first_push_token git_push_token incarnation_id =
     and_then (map_err catalog_domain_error (Repository_new owner name default_label incarnation_id)) (\<lambda>repo.
       Ok (repo\<lparr>rp_first_push_token := Some (secretless_first_push_token first_push_token),
                rp_git_push_token := Some git_push_token\<rparr>))"

definition RepoRecord_incarnation :: "repo_record \<Rightarrow> repository_incarnation" where
  "RepoRecord_incarnation r = RepositoryIncarnation (rr_id r) (rr_incarnation_id r)"

definition delete_repo ::
  "repository \<Rightarrow> string \<Rightarrow> string \<Rightarrow> string \<Rightarrow> (domain_error, string repo_mutation) result" where
  "delete_repo repo user_id owner name =
     and_then (ensure_repo_delete_owner repo user_id owner name) (\<lambda>_.
       let effects = RepoEffects_delete_repo_storage
             \<lparr>rsc_owner_handle = owner, rsc_repo_name = name, rsc_incarnation = RepoRecord_incarnation (rp_record repo)\<rparr> []
       in Ok \<lparr>rmu_result = rr_id (rp_record repo),
              rmu_effects = RepoEffects_delete_source_blobs (source_blobs repo) effects\<rparr>)"

section \<open>Files\<close>

lemma last_change_wins:
  assumes "bt_ok t"
  shows "bt_get (fold apply_projected_change cs t) p
    = (case find (\<lambda>c. pc_path c = p) (rev cs) of None \<Rightarrow> bt_get t p | Some c \<Rightarrow> pc_new_content c)"
proof (induction cs rule: rev_induct)
  case (snoc c cs)
  have "bt_ok (fold apply_projected_change cs t)" using assms by (rule projected_tree_ok)
  with snoc show ?case by (simp add: get_apply_projected_change del: apply_projected_change.simps)
qed simp

lemma rev_changes: "concat (map (\<lambda>k. rev (pj_changes k)) (rev ks)) = rev (all_changes ks)"
  by (induction ks) simp_all

lemma find_map_of:
  assumes "\<And>q b. key (mk q b) = q"
  shows "find (\<lambda>c. key c = p) (map (\<lambda>(q, b). mk q b) m) = map_option (mk p) (map_of m p)"
  using assms by (induction m) auto

definition shown_content :: "repository \<Rightarrow> views \<Rightarrow> scope_path \<Rightarrow> source_blob \<Rightarrow> projection_view_file_content" where
  "shown_content repo views path blob =
     \<lparr>pvc_file = \<lparr>pvf_path = path, pvf_oid = sb_git_oid blob, pvf_tracked = True,
                  pvf_label = Policy_label (rp_policy repo) path views\<rparr>,
      pvc_blob = blob\<rparr>"

lemma projected_file_content_found:
  "projected_file_content repo views view path
    = find (\<lambda>c. pvf_path (pvc_file c) = path) (projected_file_contents repo views view)"
proof -
  let ?shown = "project_graph (rp_graph repo) (rp_sets repo) views view"
  let ?tree = "Projection_apply_to ?shown []"
  have tree: "?tree = fold apply_projected_change (all_changes (pr_commits ?shown)) []"
    by (simp add: Projection_apply_to_def)
  have "find (\<lambda>c. pvf_path (pvc_file c) = path) (projected_file_contents repo views view)
      = map_option (shown_content repo views path) (bt_get ?tree path)"
    unfolding projected_file_contents_def Let_def shown_content_def [symmetric] bt_get_def
    by (rule find_map_of) (simp add: shown_content_def)
  moreover have "bt_get ?tree path = Option.bind (find (\<lambda>c. pc_path c = path) (rev (all_changes (pr_commits ?shown)))) pc_new_content"
    unfolding tree by (subst last_change_wins) (simp_all add: bt_get_def split: option.split)
  moreover have "projected_file_content repo views view path = map_option (shown_content repo views path)
      (Option.bind (find (\<lambda>c. pc_path c = path) (rev (all_changes (pr_commits ?shown)))) pc_new_content)"
    unfolding projected_file_content_def Let_def rev_changes shown_content_def [symmetric]
    by (cases "find (\<lambda>c. pc_path c = path) (rev (all_changes (pr_commits ?shown)))";
        cases "pc_new_content (the (find (\<lambda>c. pc_path c = path) (rev (all_changes (pr_commits ?shown)))))") simp_all
  ultimately show ?thesis by simp
qed



section \<open>Previews\<close>

definition preview_source :: "repository \<Rightarrow> projection_preview_source" where
  "preview_source repo = \<lparr>pvs_repo_id = rr_id (rp_record repo), pvs_policy = rp_policy repo, pvs_graph = rp_graph repo,
     pvs_sets = rp_sets repo\<rparr>"

lemma preview_commits_Ok:
  "preview_commits details vis ks = Inr cs \<longleftrightarrow> list_all2 (\<lambda>k c. preview_commit details vis k = Inr c) ks cs"
  by (induction ks arbitrary: cs) (auto simp: and_then_Ok_iff list_all2_Cons1)

lemma preview_commit_Ok:
  assumes "preview_commit details vis k = Inr c"
  shows "ppc_projected_id c = pj_projected_id k"
    and "pj_materialization k = Generate \<Longrightarrow> ppc_author c = pj_author k \<and> ppc_message c = pj_message k"
  using assms by (auto simp: preview_commit_def Let_def split: projection_materialization.splits option.splits)

lemma preview_fails_iff:
  "is_ok (preview_commits details vis ks)
    \<longleftrightarrow> list_all (\<lambda>k. case pj_materialization k of PreserveGitCommit oid _ _ \<Rightarrow> details oid \<noteq> None | Generate \<Rightarrow> True) ks"
proof (induction ks)
  case (Cons k ks)
  then show ?case
    by (cases "preview_commits details vis ks")
      (auto simp: preview_commit_def Let_def is_ok_def split: projection_materialization.split option.split)
qed (simp add: is_ok_def)

lemma full_view_reads:
  assumes "views_ok views"
  shows "Policy_can_read pol path (Views_full views) views"
  using full_found(2) [OF assms] by (simp add: Policy_can_read_def Views_shows_def)

text \<open>
  The preview of a view tells what the view sees and counts the rest. In a reachable repository the files of a
  preview are the live files the view may read and its commits those of the view's projection, with the author and
  message of the projection unless a native commit is preserved; when the counts are asked for, the visible and hidden
  files add up to the live files. The preview fails exactly when the record of a preserved commit is missing.
\<close>

theorem preview_shows_the_view:
  fixes view :: view_id
  assumes "reachable repo" and "views = rc_views (rp_config repo)"
  defines "shown \<equiv> project_graph (rp_graph repo) (rp_sets repo) views view"
  shows "is_ok (projection_preview (preview_source repo) views view with_counts details)
      = list_all (\<lambda>k. case pj_materialization k of PreserveGitCommit oid _ _ \<Rightarrow> details oid \<noteq> None | Generate \<Rightarrow> True)
          (pr_commits shown)
    \<and> (\<forall>preview. projection_preview (preview_source repo) views view with_counts details = Ok preview \<longrightarrow>
         map ppf_path (ppv_files preview)
           = map fst (filter (\<lambda>(path, blob). Policy_can_read (rp_policy repo) path view views) (rp_live_files repo))
         \<and> list_all2 (\<lambda>k c. ppc_projected_id c = pj_projected_id k
              \<and> (pj_materialization k = Generate \<longrightarrow> ppc_author c = pj_author k \<and> ppc_message c = pj_message k))
            (pr_commits shown) (ppv_commits preview)
         \<and> pps_visible_files (ppv_summary preview) = length (ppv_files preview)
         \<and> (with_counts \<longrightarrow> pps_visible_files (ppv_summary preview) + pps_hidden_files (ppv_summary preview)
              = length (rp_live_files repo)))"
proof (intro conjI allI impI)
  note tree = live_tree_of_projection [OF assms(1), folded assms(2)]
  have ok: "views_ok views" unfolding assms(2) using repo_in_stepD(1) [OF reachable_in_step [OF assms(1)]] .
  have files: "projection_preview_files (rp_policy repo) (project_graph (rp_graph repo) (rp_sets repo) views v) views
      = map (\<lambda>(path, blob). \<lparr>ppf_path = path, ppf_oid = sb_git_oid blob, ppf_label = Policy_label (rp_policy repo) path views\<rparr>)
          (filter (\<lambda>(path, blob). Policy_can_read (rp_policy repo) path v views) (rp_live_files repo))" for v
    by (simp add: projection_preview_files_def projection_tree_def tree comp_def case_prod_beta)
  define vis where "vis = map_of (rev (map (\<lambda>commit. (lc_id commit, projection_preview_commit_visibility commit views view))
    (sg_commits (rp_graph repo))))"
  note unfold = projection_preview_def Let_def preview_source_def vis_def [symmetric] shown_def [symmetric] files
  show "is_ok (projection_preview (preview_source repo) views view with_counts details)
      = list_all (\<lambda>k. case pj_materialization k of PreserveGitCommit oid _ _ \<Rightarrow> details oid \<noteq> None | Generate \<Rightarrow> True)
          (pr_commits shown)"
    unfolding preview_fails_iff [of details vis, symmetric]
    by (cases "preview_commits details vis (pr_commits shown)") (auto simp: unfold case_prod_beta)
  fix preview assume p: "projection_preview (preview_source repo) views view with_counts details = Ok preview"
  then obtain cs where cs: "preview_commits details vis (pr_commits shown) = Inr cs"
    by (auto simp: unfold and_then_Ok_iff)
  note p = p [unfolded projection_preview_def Let_def, simplified, unfolded preview_source_def, simplified,
      folded vis_def shown_def, unfolded cs, simplified, unfolded shown_def files, folded shown_def]
  show "map ppf_path (ppv_files preview)
      = map fst (filter (\<lambda>(path, blob). Policy_can_read (rp_policy repo) path view views) (rp_live_files repo))"
    using p by (auto simp: comp_def case_prod_beta split: if_splits)
  show "pps_visible_files (ppv_summary preview) = length (ppv_files preview)"
    using p by (auto split: if_splits)
  have "ppv_commits preview = cs" using p by (auto split: if_splits)
  with cs show "list_all2 (\<lambda>k c. ppc_projected_id c = pj_projected_id k
      \<and> (pj_materialization k = Generate \<longrightarrow> ppc_author c = pj_author k \<and> ppc_message c = pj_message k))
      (pr_commits shown) (ppv_commits preview)"
    by (auto simp: preview_commits_Ok preview_commit_Ok elim: list_all2_mono)
  assume with_counts
  have all: "filter (\<lambda>(path, blob). Policy_can_read (rp_policy repo) path (Views_full views) views) (rp_live_files repo)
      = rp_live_files repo" by (simp add: full_view_reads [OF ok] case_prod_beta)
  show "pps_visible_files (ppv_summary preview) + pps_hidden_files (ppv_summary preview)
      = length (rp_live_files repo)"
    using p [symmetric] \<open>with_counts\<close> all
      length_filter_le [of "\<lambda>(path, blob). Policy_can_read (rp_policy repo) path view views" "rp_live_files repo"]
    by (cases "view = Views_full views") (simp_all add: all files shown_def)
qed

section \<open>Creation and deletion\<close>

text \<open>Every live blob is the new content of some recorded change.\<close>

lemma live_blob_recorded:
  "bt_ok t \<Longrightarrow> snd ` set (fold apply_file_change fs t)
    \<subseteq> snd ` set t \<union> (\<Union>c \<in> set fs. set_option (fc_new_content c))"
proof (induction fs arbitrary: t)
  case (Cons f fs)
  have ins: "snd ` set (bt_insert p b u) \<subseteq> insert b (snd ` set u)" for p b and u :: file_tree
    using bt_insert_entries [of p b u] by force
  have "bt_ok (apply_file_change f t)"
    using Cons.prems by (auto simp: apply_file_change_def bt_ok_insert bt_ok_remove split: option.split)
  moreover have "snd ` set (apply_file_change f t) \<subseteq> snd ` set t \<union> set_option (fc_new_content f)"
    using ins by (auto simp: apply_file_change_def bt_remove_def split: option.split)
  ultimately show ?case using Cons.IH [of "apply_file_change f t"] by (simp, blast)
qed simp

text \<open>
  Deleting a repository releases everything it shows, and only its owner can. A deletion is accepted exactly for
  the owner, anyone else gets the answer for a repository that does not exist; it asks for the removal of the storage of
  this incarnation of the repository and of source blobs among which every live file of a reachable repository is.
\<close>

theorem deletion_releases_live_files:
  assumes "reachable repo"
  shows "(case delete_repo repo user_id owner name of
      Inl e \<Rightarrow> rr_owner_user_id (rp_record repo) \<noteq> user_id \<and> e = not_found (''repo '' @ owner @ ''/'' @ name @ '' not found'')
    | Inr m \<Rightarrow> rr_owner_user_id (rp_record repo) = user_id \<and> rmu_result m = rr_id (rp_record repo)
        \<and> DeleteRepoStorage \<lparr>rsc_owner_handle = owner, rsc_repo_name = name,
            rsc_incarnation = RepositoryIncarnation (rr_id (rp_record repo)) (rr_incarnation_id (rp_record repo))\<rparr>
          \<in> set (rmu_effects m)
        \<and> snd ` set (rp_live_files repo) \<subseteq> (\<Union>effect \<in> set (rmu_effects m).
            case effect of DeleteSourceBlobs blobs \<Rightarrow> set blobs | DeleteRepoStorage _ \<Rightarrow> {}))"
proof -
  have "fold apply_file_change (concat (map lc_changes (sg_commits (rp_graph repo)))) [] = rp_live_files repo"
    using reachable_in_step [OF assms] by (auto simp: repo_in_step_def)
  with live_blob_recorded [of "[]" "concat (map lc_changes (sg_commits (rp_graph repo)))"]
  have "snd ` set (rp_live_files repo)
      \<subseteq> (\<Union>c \<in> set (concat (map lc_changes (sg_commits (rp_graph repo)))). set_option (fc_new_content c))" by simp
  also have "\<dots> \<subseteq> set (source_blobs repo)"
    by (fastforce simp: source_blobs_def split: option.split)
  finally have live: "snd ` set (rp_live_files repo) \<subseteq> set (source_blobs repo)" .
  show ?thesis
  proof (cases "rr_owner_user_id (rp_record repo) = user_id")
    case True
    then show ?thesis using live
      by (auto simp: delete_repo_def ensure_repo_delete_owner_def ensure_repo_owner_def Repository_is_owner_user_def Let_def
          RepoEffects_delete_repo_storage_def RepoEffects_delete_source_blobs_def RepoRecord_incarnation_def)
  qed (simp add: delete_repo_def ensure_repo_delete_owner_def ensure_repo_owner_def Repository_is_owner_user_def
      hidden_repo_not_found_def)
qed

end
