(* ===== verification/Git_Protocol.thy ===== *)
theory Git_Protocol
  imports Request_Access
begin

text \<open>
  What a Git client is offered of the requests of a repository: \<^verbatim>\<open>requests/git_fetch.rs\<close> and its use in
  \<^verbatim>\<open>src/api/src/git/upload/fetch_folder/requests.rs\<close>. The rows that the database returns, the requests of the repository
  and the heads advertised earlier to this reader, are parameters.

  The parts of the Git protocol that the server reads and writes itself: packet lines, what a fetch asks for and which
  objects it may name (\<^verbatim>\<open>src/api/src/git/upload.rs\<close>, \<^verbatim>\<open>upload/protocol.rs\<close>), the commands of a push and the references
  advertised to it (\<^verbatim>\<open>src/api/src/git/receive_protocol.rs\<close>). What Git prints and the chunks of a request body are
  parameters. A byte string is a \<open>string\<close>; an offset into a buffer is what is left of the buffer.
\<close>

definition REQUEST_REF_PREFIX :: string where "REQUEST_REF_PREFIX = ''refs/heads/''"

definition canonical_request_ref :: "string \<Rightarrow> string" where
  "canonical_request_ref request_name = REQUEST_REF_PREFIX @ request_name"

record git_fetch_request =
  gfr_id :: string
  gfr_view :: view_id

datatype git_fetch_ask = FetchListing "string set" | FetchTransfer (ask_wants: "string list") (ask_shallow: bool)

definition GitFetchAsk_listing :: git_fetch_ask where
  "GitFetchAsk_listing = FetchListing {}"

definition ask_includes :: "git_fetch_ask \<Rightarrow> request \<Rightarrow> string option \<Rightarrow> bool \<Rightarrow> bool" where
  "ask_includes ask r user invitee \<longleftrightarrow>
     invitee \<or> (case user of Some user_id \<Rightarrow> is_author r user_id | None \<Rightarrow> False)
     \<or> (case ask of
          FetchListing named_refs \<Rightarrow> canonical_request_ref (rq_name r) \<in> named_refs
        | FetchTransfer wants shallow \<Rightarrow> shallow \<or> rq_head_oid r \<in> set wants)"

definition is_listing :: "git_fetch_ask \<Rightarrow> bool" where
  "is_listing ask \<longleftrightarrow> (case ask of FetchListing _ \<Rightarrow> True | FetchTransfer _ _ \<Rightarrow> False)"

datatype git_fetch_head = FetchMain | FetchRequests "git_fetch_request list"

definition request_readable_in_git :: "request \<Rightarrow> request_viewer \<Rightarrow> views \<Rightarrow> view_id \<Rightarrow> bool" where
  "request_readable_in_git r viewer views view \<longleftrightarrow>
     pd_exact_visible (request_policy r viewer views) \<and> Views_may_read views view (rq_view r)"

text \<open>One request an advertised head belonged to: whether it is readable now, and the request restored at that head.\<close>

definition retain_old ::
  "(string \<times> view_id \<rightharpoonup> request) \<Rightarrow> string \<Rightarrow> git_fetch_request \<Rightarrow> request list \<times> bool \<Rightarrow> request list \<times> bool" where
  "retain_old current oid old = (\<lambda>(requests, readable).
     case current (gfr_id old, gfr_view old) of
       None \<Rightarrow> (requests, readable)
     | Some r \<Rightarrow>
         (if \<exists>other \<in> set requests. rq_head_oid other = oid then requests else requests @ [r\<lparr>rq_head_oid := oid\<rparr>], True))"

fun retain_heads ::
  "(string \<times> view_id \<rightharpoonup> request) \<Rightarrow> request list \<Rightarrow> (string \<times> git_fetch_head) list \<Rightarrow> request list \<times> string list" where
  "retain_heads current requests [] = (requests, [])"
| "retain_heads current requests ((oid, head) # rest) =
     (case head of
        FetchMain \<Rightarrow>
          let (requests', retained) = retain_heads current requests rest in (requests', oid # retained)
      | FetchRequests previous \<Rightarrow>
          let (requests1, readable) = fold (retain_old current oid) previous (requests, False);
              (requests', retained) = retain_heads current requests1 rest
          in (requests', if readable then oid # retained else retained))"

definition retain_git_fetch_heads ::
  "request list \<Rightarrow> request list \<Rightarrow> (string \<times> git_fetch_head) list \<Rightarrow> request list \<times> string list" where
  "retain_git_fetch_heads readable requests advertised =
     (let current = map_of (rev (map (\<lambda>r. ((rq_id r, rq_view r), r))
            (filter (\<lambda>r. advertised_in_git (request_state_of r)) readable)))
      in retain_heads current requests advertised)"

section \<open>The requests of a fetch\<close>

record fetch_requests =
  fr_requests :: "request list"
  fr_retained :: "string list"

definition readable_requests ::
  "('e, (request \<times> bool) list) result \<Rightarrow> (string list \<Rightarrow> ('e, (string \<times> git_fetch_head) list) result)
   \<Rightarrow> repository_access \<Rightarrow> string option \<Rightarrow> view_id \<Rightarrow> views \<Rightarrow> git_fetch_ask \<Rightarrow> ('e, fetch_requests) result" where
  "readable_requests git_fetch_requests advertised_git_fetch_heads access user view views ask =
     (let readable = (\<lambda>r invitee. request_readable_in_git r (RequestViewer_new access user invitee) views view) in
      and_then git_fetch_requests (\<lambda>candidates.
        let seen = filter (\<lambda>(r, invitee). readable r invitee) candidates;
            requests = map fst (filter (\<lambda>(r, invitee). ask_includes ask r user invitee) seen)
        in and_then (case ask of
             FetchTransfer wants _ \<Rightarrow> advertised_git_fetch_heads wants
           | FetchListing _ \<Rightarrow> Ok []) (\<lambda>advertised.
        let (requests', retained) = retain_git_fetch_heads (map fst seen) requests advertised
        in Ok \<lparr>fr_requests = requests', fr_retained = retained\<rparr>)))"

section \<open>What a fetch discloses\<close>

lemma retain_old_facts:
  "(\<forall>r \<in> set (fst (fold (retain_old current oid) previous (requests, readable))). r \<in> set requests
      \<or> (\<exists>old \<in> set previous. \<exists>c. current (gfr_id old, gfr_view old) = Some c \<and> r = c\<lparr>rq_head_oid := oid\<rparr>))
   \<and> set requests \<subseteq> set (fst (fold (retain_old current oid) previous (requests, readable)))
   \<and> (snd (fold (retain_old current oid) previous (requests, readable))
       \<longleftrightarrow> readable \<or> (\<exists>old \<in> set previous. current (gfr_id old, gfr_view old) \<noteq> None))"
proof (induction previous arbitrary: requests readable)
  case (Cons old previous)
  obtain requests1 readable1 where s: "retain_old current oid old (requests, readable) = (requests1, readable1)"
    by (cases "retain_old current oid old (requests, readable)")
  have "set requests1 \<subseteq> set requests \<union> {r. \<exists>c. current (gfr_id old, gfr_view old) = Some c \<and> r = c\<lparr>rq_head_oid := oid\<rparr>}"
    "set requests \<subseteq> set requests1"
    "readable1 \<longleftrightarrow> readable \<or> current (gfr_id old, gfr_view old) \<noteq> None"
    using s by (auto simp: retain_old_def split: option.splits if_splits)
  with Cons.IH [of requests1 readable1] show ?case unfolding fold.simps comp_def s by (auto 0 4)
qed simp

definition kept_for :: "(string \<times> view_id \<rightharpoonup> request) \<Rightarrow> (string \<times> git_fetch_head) list \<Rightarrow> (string \<times> request) set" where
  "kept_for current advertised = {(oid, c). \<exists>previous old. (oid, FetchRequests previous) \<in> set advertised \<and> old \<in> set previous
     \<and> current (gfr_id old, gfr_view old) = Some c}"

lemma kept_for_Cons:
  "kept_for current ((oid, FetchMain) # rest) = kept_for current rest"
  "kept_for current ((oid, FetchRequests previous) # rest)
    = {(oid, c) | c. \<exists>old \<in> set previous. current (gfr_id old, gfr_view old) = Some c} \<union> kept_for current rest"
  by (auto simp: kept_for_def)

lemma retain_heads_step:
  assumes "fold (retain_old current oid) previous (requests, False) = (requests1, readable)"
  shows "set requests1 \<subseteq> set requests
      \<union> (\<lambda>(oid, c). c\<lparr>rq_head_oid := oid\<rparr>) ` kept_for current [(oid, FetchRequests previous)]"
    and "set requests \<subseteq> set requests1"
    and "readable \<longleftrightarrow> oid \<in> fst ` kept_for current [(oid, FetchRequests previous)]"
proof -
  note F = retain_old_facts [of current oid previous requests False, unfolded assms, simplified]
  show "set requests1 \<subseteq> set requests
      \<union> (\<lambda>(oid, c). c\<lparr>rq_head_oid := oid\<rparr>) ` kept_for current [(oid, FetchRequests previous)]"
  proof
    fix r assume "r \<in> set requests1"
    with F consider "r \<in> set requests" | old c where "old \<in> set previous" "current (gfr_id old, gfr_view old) = Some c"
      "r = c\<lparr>rq_head_oid := oid\<rparr>" by blast
    then show "r \<in> set requests \<union> (\<lambda>(oid, c). c\<lparr>rq_head_oid := oid\<rparr>) ` kept_for current [(oid, FetchRequests previous)]"
      by cases (auto simp: kept_for_def intro!: image_eqI [of _ _ "(oid, c)" for c])
  qed
  show "set requests \<subseteq> set requests1" using F by blast
  show "readable \<longleftrightarrow> oid \<in> fst ` kept_for current [(oid, FetchRequests previous)]"
    using F by (force simp: kept_for_def)
qed

lemma retain_heads_facts:
  "set (fst (retain_heads current requests advertised))
     \<subseteq> set requests \<union> (\<lambda>(oid, c). c\<lparr>rq_head_oid := oid\<rparr>) ` kept_for current advertised
   \<and> set requests \<subseteq> set (fst (retain_heads current requests advertised))
   \<and> set (snd (retain_heads current requests advertised))
     = {oid. (oid, FetchMain) \<in> set advertised} \<union> fst ` kept_for current advertised"
proof (induction advertised arbitrary: requests)
  case Nil
  show ?case by (auto simp: kept_for_def)
next
  case (Cons entry advertised)
  obtain oid head where e: "entry = (oid, head)" by (cases entry)
  show ?case
  proof (cases head)
    case FetchMain
    with Cons.IH [of requests] show ?thesis by (auto simp: e case_prod_beta Let_def kept_for_Cons)
  next
    case (FetchRequests previous)
    obtain requests1 readable where f: "fold (retain_old current oid) previous (requests, False) = (requests1, readable)"
      by (cases "fold (retain_old current oid) previous (requests, False)")
    note S = retain_heads_step [OF f]
    define here where "here = kept_for current [(oid, FetchRequests previous)]"
    have k: "kept_for current (entry # advertised) = here \<union> kept_for current advertised"
      by (auto simp: e FetchRequests kept_for_def here_def)
    have h: "fst ` here \<subseteq> {oid}" by (auto simp: here_def kept_for_def)
    have r: "retain_heads current requests (entry # advertised)
        = (fst (retain_heads current requests1 advertised),
           if readable then oid # snd (retain_heads current requests1 advertised)
           else snd (retain_heads current requests1 advertised))"
      by (simp add: e FetchRequests f case_prod_beta Let_def)
    have m: "{o'. (o', FetchMain) \<in> set (entry # advertised)} = {o'. (o', FetchMain) \<in> set advertised}"
      by (simp add: e FetchRequests)
    show ?thesis
      unfolding k r m image_Un fst_conv snd_conv
      using S [folded here_def] h Cons.IH [of requests1] by (intro conjI) (blast, blast, auto)
  qed
qed

lemma map_of_rev_filter:
  assumes "map_of (rev (map (\<lambda>r. (key r, r)) xs)) k = Some r"
  shows "r \<in> set xs \<and> key r = k"
  using map_of_SomeD [OF assms] by auto

section \<open>Bytes\<close>

datatype api_error =
  ApiBadRequest string | ApiPayloadTooLarge string | ApiInternal string | ApiServiceUnavailable string

definition is_ascii_whitespace :: "char \<Rightarrow> bool" where
  "is_ascii_whitespace c \<longleftrightarrow> c \<in> {CHR '' '', CHR 0x09, CHR 0x0A, CHR 0x0C, CHR 0x0D}"

definition trim_ascii_end :: "string \<Rightarrow> string" where
  "trim_ascii_end s = rev (dropWhile is_ascii_whitespace (rev s))"

text \<open>Well-formed UTF-8 (\<^verbatim>\<open>std::str::from_utf8\<close>).\<close>

fun utf8_valid :: "string \<Rightarrow> bool" where
  "utf8_valid [] = True"
| "utf8_valid (b # s) =
     (let n = (of_char b :: nat);
          within = (\<lambda>lo hi c. lo \<le> (of_char c :: nat) \<and> (of_char c :: nat) \<le> hi)
      in if n < 0x80 then utf8_valid s
         else if 0xC2 \<le> n \<and> n \<le> 0xDF then
           (case s of c1 # s' \<Rightarrow> within 0x80 0xBF c1 \<and> utf8_valid s' | _ \<Rightarrow> False)
         else if 0xE0 \<le> n \<and> n \<le> 0xEF then
           (case s of c1 # c2 # s' \<Rightarrow>
              within (if n = 0xE0 then 0xA0 else 0x80) (if n = 0xED then 0x9F else 0xBF) c1 \<and> within 0x80 0xBF c2 \<and> utf8_valid s'
            | _ \<Rightarrow> False)
         else if 0xF0 \<le> n \<and> n \<le> 0xF4 then
           (case s of c1 # c2 # c3 # s' \<Rightarrow>
              within (if n = 0xF0 then 0x90 else 0x80) (if n = 0xF4 then 0x8F else 0xBF) c1
              \<and> within 0x80 0xBF c2 \<and> within 0x80 0xBF c3 \<and> utf8_valid s'
            | _ \<Rightarrow> False)
         else False)"

text \<open>\<^verbatim>\<open>usize::from_str_radix(_, 16)\<close> on a packet header; four digits cannot overflow.\<close>

definition hex_digit :: "char \<Rightarrow> nat option" where
  "hex_digit c =
     (let n = of_char c in
      if 48 \<le> n \<and> n \<le> 57 then Some (n - 48)
      else if 97 \<le> n \<and> n \<le> 102 then Some (n - 87)
      else if 65 \<le> n \<and> n \<le> 70 then Some (n - 55)
      else None)"

fun hex_value :: "nat \<Rightarrow> string \<Rightarrow> nat option" where
  "hex_value acc [] = Some acc"
| "hex_value acc (c # cs) = (case hex_digit c of None \<Rightarrow> None | Some d \<Rightarrow> hex_value (16 * acc + d) cs)"

definition hex_usize :: "string \<Rightarrow> nat option" where
  "hex_usize s =
     (case s of
        [] \<Rightarrow> None
      | c # rest \<Rightarrow> hex_value 0 (if c = CHR ''+'' \<and> rest \<noteq> [] then rest else s))"

fun show_hex :: "nat \<Rightarrow> string" where
  "show_hex n =
     (let digit = char_of (if n mod 16 < 10 then 48 + n mod 16 else 87 + n mod 16)
      in if n < 16 then [digit] else show_hex (n div 16) @ [digit])"

declare show_hex.simps [simp del]

definition pkt_line :: "string \<Rightarrow> string" where
  "pkt_line payload =
     (let digits = show_hex (length payload + 4)
      in replicate (4 - length digits) CHR ''0'' @ digits @ payload)"

section \<open>What a fetch asks for\<close>

record upload_pack_packet =
  up_start :: nat
  up_end :: nat
  up_payload :: string

definition malformed_packet :: api_error where
  "malformed_packet = ApiBadRequest ''malformed Git upload-pack packet''"

text \<open>The packets of what is left of a request from an offset on.\<close>

function upload_pack_packets_at :: "nat \<Rightarrow> string \<Rightarrow> (api_error, upload_pack_packet list) result" where
  "upload_pack_packets_at offset request =
     (if request = [] then Ok []
      else if length request < 4 then Err malformed_packet
      else case hex_usize (take 4 request) of
        None \<Rightarrow> Err malformed_packet
      | Some len \<Rightarrow>
          if len \<le> 2 then upload_pack_packets_at (offset + 4) (drop 4 request)
          else if len < 4 then Err malformed_packet
          else if length request < len then Err malformed_packet
          else and_then (upload_pack_packets_at (offset + len) (drop len request)) (\<lambda>packets.
            Ok (\<lparr>up_start = offset, up_end = offset + len, up_payload = drop 4 (take len request)\<rparr> # packets)))"
  by pat_completeness auto

termination by (relation "measure (length \<circ> snd)") auto

declare upload_pack_packets_at.simps [simp del]

definition upload_pack_packets :: "string \<Rightarrow> (api_error, upload_pack_packet list) result" where
  "upload_pack_packets request = upload_pack_packets_at 0 request"

definition upload_pack_oid :: "string \<Rightarrow> (api_error, string) result" where
  "upload_pack_oid object =
     (let oid = takeWhile (\<lambda>c. c \<notin> {CHR '' '', CHR 0x0A, CHR 0x00}) object
      in if length oid \<noteq> 40 \<or> \<not> list_all is_ascii_hexdigit oid
         then Err (ApiBadRequest ''malformed Git upload-pack object ID'')
         else Ok (map to_ascii_lowercase oid))"

datatype git_protocol = ProtocolV0 | ProtocolV2

text \<open>The argument holds the values of the \<^verbatim>\<open>git-protocol\<close> headers that are text.\<close>

definition GitProtocol_of :: "string list \<Rightarrow> git_protocol" where
  "GitProtocol_of header_values =
     (if \<exists>parameter \<in> set (concat (map (split_on CHR '':'') header_values)). trim parameter = ''version=2''
      then ProtocolV2 else ProtocolV0)"

fun collect_results :: "('e, 'a) result list \<Rightarrow> ('e, 'a list) result" where
  "collect_results [] = Ok []"
| "collect_results (r # rs) = and_then r (\<lambda>x. and_then (collect_results rs) (\<lambda>xs. Ok (x # xs)))"

definition upload_pack_ask :: "git_protocol \<Rightarrow> string \<Rightarrow> (api_error, git_fetch_ask) result" where
  "upload_pack_ask protocol request =
     and_then (upload_pack_packets request) (\<lambda>packets.
       let command = (case packets of [] \<Rightarrow> None | packet # _ \<Rightarrow> Some (trim_ascii_end (up_payload packet))) in
       if protocol = ProtocolV0 \<or> command = Some ''command=fetch'' then
         and_then (collect_results (map upload_pack_oid
             (List.map_filter (\<lambda>packet. strip_prefix ''want '' (up_payload packet)) packets))) (\<lambda>wants.
           Ok (FetchTransfer wants (\<exists>packet \<in> set packets. starts_with ''shallow '' (up_payload packet))))
       else if command = Some ''command=ls-refs'' then
         and_then (collect_results (map (\<lambda>name.
             let name = trim_ascii_end name in
             if utf8_valid name then Ok name else Err (ApiBadRequest ''malformed Git ref prefix''))
           (List.map_filter (\<lambda>packet. strip_prefix ''ref-prefix '' (up_payload packet)) packets))) (\<lambda>named_refs.
           Ok (FetchListing (set named_refs)))
       else Err (ApiBadRequest ''unsupported Git protocol v2 command''))"

section \<open>Which objects a fetch may name\<close>

definition UNKNOWN_HAVE :: string where
  "UNKNOWN_HAVE = replicate 40 CHR ''0''"

text \<open>\<^verbatim>\<open>BufRead::split\<close>: no empty piece after a final separator.\<close>

definition buf_split :: "string \<Rightarrow> string list" where
  "buf_split s = (let pieces = split_on CHR 0x0A s in if last pieces = [] then butlast pieces else pieces)"

record fetch_objects =
  fo_required :: "string set"
  fo_haves :: "string set"
  fo_have_packets :: "(nat \<times> nat \<times> string) list"

definition note_object :: "fetch_objects \<Rightarrow> upload_pack_packet \<Rightarrow> (api_error, fetch_objects) result" where
  "note_object objects packet =
     (let payload = up_payload packet;
          required_object = (case strip_prefix ''want '' payload of
             Some object \<Rightarrow> Some object | None \<Rightarrow> strip_prefix ''shallow '' payload)
      in case (case required_object of Some object \<Rightarrow> Some object | None \<Rightarrow> strip_prefix ''have '' payload) of
        None \<Rightarrow> Ok objects
      | Some object \<Rightarrow> and_then (upload_pack_oid object) (\<lambda>oid.
          if required_object \<noteq> None then Ok (objects\<lparr>fo_required := insert oid (fo_required objects)\<rparr>)
          else Ok (objects\<lparr>fo_haves := insert oid (fo_haves objects),
                           fo_have_packets := fo_have_packets objects @ [(up_start packet, up_end packet, oid)]\<rparr>)))"

fun note_objects :: "fetch_objects \<Rightarrow> upload_pack_packet list \<Rightarrow> (api_error, fetch_objects) result" where
  "note_objects objects [] = Ok objects"
| "note_objects objects (packet # packets) =
     and_then (note_object objects packet) (\<lambda>objects'. note_objects objects' packets)"

text \<open>
  The request without the packets of unknown objects; the first of them is replaced if a packet is to stand in.
\<close>

fun without_unknown ::
  "string \<Rightarrow> string set \<Rightarrow> nat \<Rightarrow> string option \<Rightarrow> (nat \<times> nat \<times> string) list \<Rightarrow> string" where
  "without_unknown request haves copied_through unacknowledged [] = drop copied_through request"
| "without_unknown request haves copied_through unacknowledged ((packet_start, packet_end, oid) # rest) =
     (if oid \<in> haves then
        drop copied_through (take packet_start request)
        @ (case unacknowledged of None \<Rightarrow> [] | Some line \<Rightarrow> line)
        @ without_unknown request haves packet_end None rest
      else without_unknown request haves copied_through unacknowledged rest)"

text \<open>
  The arguments are the output of \<^verbatim>\<open>git for-each-ref\<close> and of \<^verbatim>\<open>git rev-list --objects --all\<close>.
\<close>

definition prepare_upload_pack_request ::
  "(api_error, string) result \<Rightarrow> (api_error, string) result \<Rightarrow> string \<Rightarrow> (api_error, string) result" where
  "prepare_upload_pack_request ref_tips reachable_objects request =
     and_then (upload_pack_packets request) (\<lambda>packets.
     and_then (note_objects \<lparr>fo_required = {}, fo_haves = {}, fo_have_packets = []\<rparr> packets) (\<lambda>objects.
       if fo_required objects = {} \<and> fo_haves objects = {} then Ok request
       else and_then ref_tips (\<lambda>tips.
         let required = fo_required objects - set (split_on CHR 0x0A tips);
             haves = fo_haves objects - set (split_on CHR 0x0A tips)
         in if required = {} \<and> haves = {} then Ok request
            else and_then reachable_objects (\<lambda>listing.
              let oids = set (map (takeWhile (\<lambda>c. c \<noteq> CHR '' '')) (buf_split listing));
                  required = required - oids; haves = haves - oids
              in if required \<noteq> {} then
                   Err (ApiBadRequest ''Git object is outside the visible refs; refs may have changed, retry fetch'')
                 else
                   let unacknowledged = (if list_all (\<lambda>(_, _, oid). oid \<in> haves) (fo_have_packets objects)
                         then Some (pkt_line (''have '' @ UNKNOWN_HAVE @ [CHR 0x0A])) else None)
                   in Ok (without_unknown request haves 0 unacknowledged (fo_have_packets objects))))))"

section \<open>The commands of a push\<close>

definition MAX_COMMAND_BYTES :: nat where "MAX_COMMAND_BYTES = 1024 * 1024"
definition FLUSH :: string where "FLUSH = ''0000''"
definition NO_REFS :: string where "NO_REFS = ''capabilities^{}''"

definition invalid_command :: api_error where
  "invalid_command = ApiBadRequest ''invalid Git receive-pack command''"

text \<open>The reference a command line updates; none for a line that only names a shallow commit.\<close>

definition command_ref :: "string \<Rightarrow> (api_error, string option) result" where
  "command_ref payload =
     (let before = takeWhile (\<lambda>c. c \<noteq> CHR 0x00) payload;
          line = (case strip_suffix [CHR 0x0A] before of Some l \<Rightarrow> l | None \<Rightarrow> before)
      in if starts_with ''shallow '' line then Ok None
         else case split_once CHR '' '' line of
           None \<Rightarrow> Err invalid_command
         | Some (_, rest) \<Rightarrow>
             (case split_once CHR '' '' rest of
                None \<Rightarrow> Err invalid_command
              | Some (_, refname) \<Rightarrow> if utf8_valid refname then Ok (Some refname) else Err invalid_command))"

function command_refs_from :: "string list \<Rightarrow> string \<Rightarrow> (api_error, string list option) result" where
  "command_refs_from refs buffer =
     (if length buffer < 4 then Ok None
      else case hex_usize (take 4 buffer) of
        None \<Rightarrow> Err invalid_command
      | Some len \<Rightarrow>
          if len = 0 then Ok (Some refs)
          else if len \<le> 4 then Err invalid_command
          else if length buffer < len then Ok None
          else and_then (command_ref (drop 4 (take len buffer))) (\<lambda>found.
            command_refs_from (case found of None \<Rightarrow> refs | Some refname \<Rightarrow> refs @ [refname]) (drop len buffer)))"
  by pat_completeness auto

termination by (relation "measure (length \<circ> snd)") auto

declare command_refs_from.simps [simp del]

definition command_refs :: "string \<Rightarrow> (api_error, string list option) result" where
  "command_refs buffer = command_refs_from [] buffer"

datatype body_event = BodyChunk string | BodyError string | BodyTimeout

record receive_pack_commands =
  rpc_refs :: "string list"
  rpc_body :: "body_event list"

text \<open>Reads the body chunk by chunk until the commands are complete; the list ends where the body ends.\<close>

fun read_commands :: "string \<Rightarrow> body_event list \<Rightarrow> (api_error, receive_pack_commands) result" where
  "read_commands buffered events =
     and_then (command_refs buffered) (\<lambda>found.
       case found of
         Some refs \<Rightarrow> Ok \<lparr>rpc_refs = refs, rpc_body = BodyChunk buffered # events\<rparr>
       | None \<Rightarrow>
           if length buffered > MAX_COMMAND_BYTES then
             Err (ApiPayloadTooLarge ''git receive-pack commands are too large'')
           else case events of
             [] \<Rightarrow> Err (ApiBadRequest ''git receive-pack body ended before its commands'')
           | BodyTimeout # _ \<Rightarrow> Err (ApiServiceUnavailable ''git request upload timed out'')
           | BodyError message # _ \<Rightarrow> Err (ApiBadRequest (''invalid Git receive-pack body: '' @ message))
           | BodyChunk chunk # events' \<Rightarrow> read_commands (buffered @ chunk) events')"

declare read_commands.simps [simp del]

definition read_receive_pack_commands :: "body_event list \<Rightarrow> (api_error, receive_pack_commands) result" where
  "read_receive_pack_commands events = read_commands [] events"

section \<open>The references advertised to a push\<close>

definition is_no_refs_line :: "string \<Rightarrow> bool" where
  "is_no_refs_line payload \<longleftrightarrow>
     (case split_on CHR '' '' (takeWhile (\<lambda>c. c \<noteq> CHR 0x00) payload) of
        _ # refname # _ \<Rightarrow> refname = NO_REFS
      | _ \<Rightarrow> False)"

definition unexpected_advertisement :: api_error where
  "unexpected_advertisement = ApiInternal ''unexpected Git receive-pack advertisement''"

function advertised_lines :: "string \<Rightarrow> (api_error, string list) result" where
  "advertised_lines body =
     (if body = [] then Ok []
      else if length body < 4 then Err unexpected_advertisement
      else case hex_usize (take 4 body) of
        None \<Rightarrow> Err unexpected_advertisement
      | Some len \<Rightarrow>
          let line_end = (if len = 0 then 4 else len) in
          if length body < line_end then Err unexpected_advertisement
          else and_then (advertised_lines (drop line_end body)) (\<lambda>lines. Ok (take line_end body # lines)))"
  by pat_completeness auto

termination by (relation "measure length") (auto split: if_splits)

declare advertised_lines.simps [simp del]

definition position_of :: "('a \<Rightarrow> bool) \<Rightarrow> 'a list \<Rightarrow> nat option" where
  "position_of P xs = find (\<lambda>i. P (xs ! i)) [0..<length xs]"

text \<open>Writes the lines from an index on, with the references still to be added, and returns those left.\<close>

fun write_lines ::
  "nat \<Rightarrow> nat \<Rightarrow> (string \<times> string) list \<Rightarrow> string list \<Rightarrow> (api_error, string \<times> (string \<times> string) list) result" where
  "write_lines first_ref index extra [] = Ok ([], extra)"
| "write_lines first_ref index extra (line # rest) =
     (if index = first_ref \<and> length line \<ge> 4 \<and> is_no_refs_line (drop 4 line) then
        (case extra of
           [] \<Rightarrow> Err unexpected_advertisement
         | (refname, oid) # extra' \<Rightarrow>
             if CHR 0x00 \<notin> set line then Err unexpected_advertisement
             else and_then (write_lines first_ref (index + 1) extra' rest) (\<lambda>(output, left).
               Ok (pkt_line (oid @ '' '' @ refname @ dropWhile (\<lambda>c. c \<noteq> CHR 0x00) line) @ output, left)))
      else and_then (write_lines first_ref (index + 1) extra rest) (\<lambda>(output, left). Ok (line @ output, left)))"

definition advertise_additional_refs ::
  "string \<Rightarrow> (string \<times> string) list \<Rightarrow> (api_error, string) result" where
  "advertise_additional_refs advertisement refs =
     (if refs = [] then Ok advertisement
      else case strip_suffix FLUSH advertisement of
        None \<Rightarrow> Err unexpected_advertisement
      | Some body \<Rightarrow> and_then (advertised_lines body) (\<lambda>lines.
          let first_ref = (case position_of (\<lambda>line. line = FLUSH) lines of Some i \<Rightarrow> i + 1 | None \<Rightarrow> 0)
          in and_then (write_lines first_ref 0 refs lines) (\<lambda>(output, left).
             Ok (output @ concat (map (\<lambda>(refname, oid). pkt_line (oid @ '' '' @ refname @ [CHR 0x0A])) left) @ FLUSH))))"

end
