(* ===== verification/Git_Properties.thy ===== *)
theory Git_Properties
  imports Git_Protocol Request_Properties
begin

text \<open>
  What the server's part of the Git protocol guarantees: a fetch is offered only what its reader may read, names no
  object outside the visible references to Git, and keeps every other packet as it was; packet lines are read back as
  they were written; and the commands of a push do not depend on how its body arrives.
\<close>

section \<open>Requests offered to a fetch\<close>

text \<open>
  C9: A fetch offers only what its reader may read now. Every request of a fetch is a request of the repository that
  the policy shows to this reader and whose view the fetched view may read: either at its own head, and then the reader
  wrote it, was invited to it, or asked for it by name or object; or at a head that was advertised to the reader for
  this very request and view, and then it is still active. Heads kept available are heads of main or heads advertised
  for a request that is readable and active now. Every readable request that was asked for is offered.
\<close>

theorem fetch_offers_readable_requests:
  assumes "readable_requests (Ok candidates) heads access user view views ask = Ok fetch"
  defines "seen \<equiv> \<lambda>r invitee. (r, invitee) \<in> set candidates
    \<and> pd_exact_visible (request_policy r (RequestViewer_new access user invitee) views) \<and> Views_may_read views view (rq_view r)"
    and "before \<equiv> \<lambda>oid r. \<exists>advertised previous old. heads (ask_wants ask) = Ok advertised
      \<and> (oid, FetchRequests previous) \<in> set advertised \<and> old \<in> set previous \<and> gfr_id old = rq_id r \<and> gfr_view old = rq_view r"
  shows "(\<forall>r \<in> set (fr_requests fetch).
      (\<exists>invitee. seen r invitee \<and> ask_includes ask r user invitee)
      \<or> (\<exists>c invitee. seen c invitee \<and> advertised_in_git (request_state_of c) \<and> r = c\<lparr>rq_head_oid := rq_head_oid r\<rparr>
           \<and> before (rq_head_oid r) c))
    \<and> (\<forall>oid \<in> set (fr_retained fetch).
        (\<exists>advertised. heads (ask_wants ask) = Ok advertised \<and> (oid, FetchMain) \<in> set advertised)
        \<or> (\<exists>c invitee. seen c invitee \<and> advertised_in_git (request_state_of c) \<and> before oid c))
    \<and> (\<forall>r invitee. seen r invitee \<and> ask_includes ask r user invitee \<longrightarrow> r \<in> set (fr_requests fetch))"
proof -
  define readable where "readable = map fst (filter (\<lambda>(r, invitee).
    request_readable_in_git r (RequestViewer_new access user invitee) views view) candidates)"
  define requests where "requests = map fst (filter (\<lambda>x. request_readable_in_git (fst x) (RequestViewer_new access user (snd x)) views view
      \<and> ask_includes ask (fst x) user (snd x)) candidates)"
  define current where "current = map_of (rev (map (\<lambda>r. ((rq_id r, rq_view r), r))
    (filter (\<lambda>r. advertised_in_git (request_state_of r)) readable)))"
  obtain advertised where a: "(case ask of FetchTransfer wants _ \<Rightarrow> heads wants | FetchListing _ \<Rightarrow> Ok []) = Ok advertised"
    and f: "fr_requests fetch = fst (retain_heads current requests advertised)"
      "fr_retained fetch = snd (retain_heads current requests advertised)"
    using assms(1) by (auto simp: readable_requests_def Let_def and_then_Ok_iff retain_git_fetch_heads_def case_prod_beta
        readable_def [symmetric] requests_def [symmetric] current_def [symmetric])
  have adv: "heads (ask_wants ask) = Ok advertised" if "x \<in> set advertised" for x
    using a that by (cases ask) auto
  have cur: "\<exists>invitee. seen c invitee \<and> advertised_in_git (request_state_of c)" and key: "rq_id c = i \<and> rq_view c = v"
    if "current (i, v) = Some c" for i v c
    using map_of_rev_filter [OF that [unfolded current_def]]
    by (auto simp: readable_def seen_def request_readable_in_git_def)
  have req: "r \<in> set requests \<longleftrightarrow> (\<exists>invitee. seen r invitee \<and> ask_includes ask r user invitee)" for r
    by (auto simp: requests_def seen_def request_readable_in_git_def image_iff)
  have kept: "\<exists>invitee. seen c invitee \<and> advertised_in_git (request_state_of c) \<and> before oid c"
    if k: "(oid, c) \<in> kept_for current advertised" for oid c
  proof -
    obtain previous old where o: "(oid, FetchRequests previous) \<in> set advertised" "old \<in> set previous"
      "current (gfr_id old, gfr_view old) = Some c" using k by (auto simp: kept_for_def)
    have "before oid c" unfolding before_def
      using key [OF o(3)] adv [OF o(1)] o(1,2) by (intro exI [of _ advertised] exI [of _ previous] exI [of _ old]) simp
    with cur [OF o(3)] show ?thesis by (elim exE conjE) (intro exI conjI)
  qed
  note H = retain_heads_facts [of current requests advertised, folded f]
  show ?thesis
  proof (intro conjI ballI allI impI)
    fix r assume "r \<in> set (fr_requests fetch)"
    with H consider "r \<in> set requests" | oid c where "(oid, c) \<in> kept_for current advertised" "r = c\<lparr>rq_head_oid := oid\<rparr>"
      by (auto dest: subsetD)
    then show "(\<exists>invitee. seen r invitee \<and> ask_includes ask r user invitee)
      \<or> (\<exists>c invitee. seen c invitee \<and> advertised_in_git (request_state_of c) \<and> r = c\<lparr>rq_head_oid := rq_head_oid r\<rparr>
           \<and> before (rq_head_oid r) c)"
    proof cases
      case 2
      from kept [OF 2(1)] 2(2) show ?thesis by auto
    qed (simp add: req)
  next
    fix oid assume "oid \<in> set (fr_retained fetch)"
    with H consider "(oid, FetchMain) \<in> set advertised" | c where "(oid, c) \<in> kept_for current advertised" by force
    then show "(\<exists>advertised. heads (ask_wants ask) = Ok advertised \<and> (oid, FetchMain) \<in> set advertised)
        \<or> (\<exists>c invitee. seen c invitee \<and> advertised_in_git (request_state_of c) \<and> before oid c)"
    proof cases
      case 2
      from kept [OF this] show ?thesis by blast
    qed (use adv in blast)
  next
    fix r invitee assume "seen r invitee \<and> ask_includes ask r user invitee"
    then show "r \<in> set (fr_requests fetch)" using H req by blast
  qed
qed

lemma fetch_offers_readable_requests_witness:
  "\<exists>fetch. readable_requests (Ok [(demo_open, False)]) (\<lambda>wants. Ok [])
      (RepositoryAccess_public) None ViewId_public Views_builtin (FetchListing {canonical_request_ref (rq_name demo_open)})
      = (Ok fetch :: (api_error, fetch_requests) result)
    \<and> (\<forall>r \<in> set (fr_requests fetch). r = demo_open)"
proof -
  let ?ask = "FetchListing {canonical_request_ref (rq_name demo_open)}"
  obtain fetch where f: "readable_requests (Ok [(demo_open, False)]) (\<lambda>wants. Ok [])
      (RepositoryAccess_public) None ViewId_public Views_builtin ?ask = (Ok fetch :: (api_error, fetch_requests) result)"
    by (simp add: readable_requests_def Let_def case_prod_beta)
  from fetch_offers_readable_requests [OF f] have "\<forall>r \<in> set (fr_requests fetch). r = demo_open" by auto
  with f show ?thesis by blast
qed

section \<open>Packets\<close>

text \<open>A request as it stands on the wire: markers such as a flush, and packets with their header.\<close>

datatype segment = Marker string | Packet string string

fun raw :: "segment \<Rightarrow> string" where
  "raw (Marker h) = h"
| "raw (Packet h p) = h @ p"

fun segment_ok :: "segment \<Rightarrow> bool" where
  "segment_ok (Marker h) \<longleftrightarrow> length h = 4 \<and> (case hex_usize h of Some n \<Rightarrow> n \<le> 2 | None \<Rightarrow> False)"
| "segment_ok (Packet h p) \<longleftrightarrow> length h = 4 \<and> hex_usize h = Some (length p + 4)"

fun placed :: "nat \<Rightarrow> segment list \<Rightarrow> upload_pack_packet list" where
  "placed offset [] = []"
| "placed offset (Marker h # segs) = placed (offset + 4) segs"
| "placed offset (Packet h p # segs) =
     \<lparr>up_start = offset, up_end = offset + (length p + 4), up_payload = p\<rparr> # placed (offset + (length p + 4)) segs"

lemma packets_of_segments:
  "list_all segment_ok segs \<Longrightarrow> upload_pack_packets_at offset (concat (map raw segs)) = Ok (placed offset segs)"
proof (induction offset segs rule: placed.induct)
  case (2 offset h segs)
  then show ?case by (subst upload_pack_packets_at.simps) (auto split: option.splits)
next
  case (3 offset h p segs)
  then show ?case by (subst upload_pack_packets_at.simps) auto
qed (simp add: upload_pack_packets_at.simps)

lemma segments_of_packets:
  "upload_pack_packets_at offset s = Ok ps \<Longrightarrow>
     \<exists>segs. list_all segment_ok segs \<and> s = concat (map raw segs) \<and> ps = placed offset segs"
proof (induction offset s arbitrary: ps rule: upload_pack_packets_at.induct)
  case (1 offset s)
  note parsed = "1.prems" [unfolded upload_pack_packets_at.simps [of offset s]]
  show ?case
  proof (cases "s = []")
    case True
    with parsed show ?thesis by (intro exI [of _ "[]"]) simp
  next
    case nonempty: False
    then have l: "length s \<ge> 4" using parsed by (simp split: if_splits)
    with parsed nonempty obtain n where n: "hex_usize (take 4 s) = Some n" by (auto split: option.splits)
    show ?thesis
    proof (cases "n \<le> 2")
      case True
      with parsed nonempty l n have "upload_pack_packets_at (offset + 4) (drop 4 s) = Ok ps" by simp
      with "1.IH"(1) [OF nonempty _ n True] l obtain segs where segs: "list_all segment_ok segs"
        "drop 4 s = concat (map raw segs)" "ps = placed (offset + 4) segs" by auto
      have "s = concat (map raw (Marker (take 4 s) # segs))" by (simp flip: segs(2))
      with n l True segs(1,3) show ?thesis by (intro exI [of _ "Marker (take 4 s) # segs"] conjI) simp_all
    next
      case False
      with parsed nonempty l n have n4: "\<not> n < 4" "\<not> length s < n" by (auto split: if_splits)
      with parsed nonempty l n False obtain qs where qs: "upload_pack_packets_at (offset + n) (drop n s) = Ok qs"
        "ps = \<lparr>up_start = offset, up_end = offset + n, up_payload = drop 4 (take n s)\<rparr> # qs"
        by (auto simp: and_then_Ok_iff)
      with "1.IH"(2) [OF nonempty _ n False n4] l obtain segs where segs: "list_all segment_ok segs"
        "drop n s = concat (map raw segs)" "qs = placed (offset + n) segs" by auto
      have "take 4 s @ drop 4 (take n s) = take n s"
        using n4 append_take_drop_id [of 4 "take n s"] by (simp add: min_def)
      then have "s = take 4 s @ drop 4 (take n s) @ drop n s" by (metis append.assoc append_take_drop_id)
      then have "s = concat (map raw (Packet (take 4 s) (drop 4 (take n s)) # segs))" using segs(2) by simp
      with n l n4 False segs(1,3) qs(2) show ?thesis
        by (intro exI [of _ "Packet (take 4 s) (drop 4 (take n s)) # segs"] conjI) (simp_all add: min_def)
    qed
  qed
qed

subsection \<open>Writing and reading packet lines\<close>

lemma hex_value_append:
  "hex_value acc (xs @ ys) = Option.bind (hex_value acc xs) (\<lambda>n. hex_value n ys)"
  by (induction xs arbitrary: acc) (auto split: option.split)

lemma hex_digit_of: "d < 16 \<Longrightarrow> hex_digit (char_of (if d < 10 then 48 + d else 87 + d)) = Some d"
  by (simp add: hex_digit_def Let_def)

lemma hex_value_show: "hex_value 0 (show_hex n) = Some n"
proof (induction n rule: show_hex.induct)
  case (1 n)
  show ?case
  proof (cases "n < 16")
    case True
    then show ?thesis using hex_digit_of [of n] by (cases "n < 10") (simp_all add: show_hex.simps [of n] Let_def)
  next
    case False
    then show ?thesis using 1 hex_digit_of [of "n mod 16"]
      by (simp add: show_hex.simps [of n] Let_def hex_value_append)
  qed
qed

lemma hex_value_zeros: "hex_value 0 (replicate k CHR ''0'' @ s) = hex_value 0 s"
  by (induction k) (simp_all add: hex_digit_def)

lemma hex_digits_of_value: "hex_value acc s = Some n \<Longrightarrow> CHR ''+'' \<notin> set s"
  by (induction acc s rule: hex_value.induct) (auto simp: hex_digit_def split: option.splits)

lemma length_show_hex: "n < 16 ^ Suc k \<Longrightarrow> length (show_hex n) \<le> Suc k"
proof (induction k arbitrary: n)
  case (Suc k)
  have "n div 16 < 16 ^ Suc k" using Suc.prems by (simp add: less_mult_imp_div_less)
  with Suc.IH [of "n div 16"] show ?case by (simp add: show_hex.simps [of n] Let_def)
qed (simp add: show_hex.simps)

definition pkt_header :: "nat \<Rightarrow> string" where
  "pkt_header n = replicate (4 - length (show_hex n)) CHR ''0'' @ show_hex n"

lemma pkt_line_ok:
  assumes "length p + 4 < 65536"
  shows "segment_ok (Packet (pkt_header (length p + 4)) p)" and "pkt_line p = raw (Packet (pkt_header (length p + 4)) p)"
proof -
  let ?h = "pkt_header (length p + 4)"
  have len: "length ?h = 4" using length_show_hex [of "length p + 4" 3] assms by (simp add: pkt_header_def)
  have val: "hex_value 0 ?h = Some (length p + 4)" by (simp add: pkt_header_def hex_value_zeros hex_value_show)
  then have "CHR ''+'' \<notin> set ?h" by (rule hex_digits_of_value)
  with len val have "hex_usize ?h = Some (length p + 4)" by (cases ?h) (auto simp: hex_usize_def)
  with len show "segment_ok (Packet ?h p)" by simp
  show "pkt_line p = raw (Packet ?h p)" by (simp add: pkt_line_def pkt_header_def Let_def)
qed

text \<open>
  Packet lines are read back as they were written. Payloads short enough for the four digits of a header, each
  written as a packet line and followed by a flush, are exactly the packets the server reads, in order.
\<close>

theorem packet_lines_roundtrip:
  assumes "list_all (\<lambda>p. length p + 4 < 65536) payloads"
  shows "(case upload_pack_packets (concat (map pkt_line payloads) @ FLUSH) of
      Ok packets \<Rightarrow> map up_payload packets = payloads | Err _ \<Rightarrow> False)"
proof -
  define segs where "segs = map (\<lambda>p. Packet (pkt_header (length p + 4)) p) payloads @ [Marker FLUSH]"
  have "map pkt_line payloads = map raw (map (\<lambda>p. Packet (pkt_header (length p + 4)) p) payloads)"
    using assms pkt_line_ok(2) by (simp add: list_all_iff)
  then have "concat (map pkt_line payloads) @ FLUSH = concat (map raw segs)" by (simp add: segs_def del: map_map)
  moreover have "segment_ok (Marker FLUSH)" by (simp add: FLUSH_def hex_usize_def hex_digit_def)
  then have "list_all segment_ok segs"
    using assms pkt_line_ok(1) by (auto simp: segs_def list_all_iff simp del: segment_ok.simps)
  moreover have "map up_payload (placed n (map (\<lambda>p. Packet (pkt_header (length p + 4)) p) ps @ [Marker FLUSH])) = ps" for n ps
    by (induction ps arbitrary: n) simp_all
  ultimately show ?thesis
    by (simp add: upload_pack_packets_def packets_of_segments) (simp add: segs_def)
qed

lemma packet_lines_roundtrip_witness:
  "case upload_pack_packets (concat (map pkt_line [''want x'', ''done'']) @ FLUSH) of
      Ok packets \<Rightarrow> map up_payload packets = [''want x'', ''done''] | Err _ \<Rightarrow> False"
  by (rule packet_lines_roundtrip) simp

section \<open>Objects a fetch names\<close>

definition named_oid :: "string option \<Rightarrow> string option" where
  "named_oid object = Option.bind object (\<lambda>o'. case upload_pack_oid o' of Inr oid \<Rightarrow> Some oid | Inl _ \<Rightarrow> None)"

definition needed_oid :: "string \<Rightarrow> string option" where
  "needed_oid payload = named_oid (case strip_prefix ''want '' payload of
     Some object \<Rightarrow> Some object | None \<Rightarrow> strip_prefix ''shallow '' payload)"

definition have_oid :: "string \<Rightarrow> string option" where
  "have_oid payload = named_oid (strip_prefix ''have '' payload)"

definition have_packets :: "upload_pack_packet list \<Rightarrow> (nat \<times> nat \<times> string) list" where
  "have_packets = List.map_filter (\<lambda>packet.
     map_option (\<lambda>oid. (up_start packet, up_end packet, oid)) (have_oid (up_payload packet)))"

lemma have_not_needed: "strip_prefix ''have '' p = Some x \<Longrightarrow> strip_prefix ''want '' p = None \<and> strip_prefix ''shallow '' p = None"
  by (cases p) (auto simp: strip_prefix_def)

lemma note_object_Ok:
  assumes "note_object objects packet = Ok objects'"
  shows "objects' = \<lparr>fo_required = fo_required objects \<union> set_option (needed_oid (up_payload packet)),
     fo_haves = fo_haves objects \<union> set_option (have_oid (up_payload packet)),
     fo_have_packets = fo_have_packets objects @ have_packets [packet]\<rparr>"
proof (cases "strip_prefix ''have '' (up_payload packet)")
  case None
  with assms show ?thesis
    by (auto simp: note_object_def Let_def needed_oid_def have_oid_def named_oid_def have_packets_def List.map_filter_def
        and_then_Ok_iff split: option.splits)
next
  case (Some x)
  with have_not_needed [OF Some] assms show ?thesis
    by (auto simp: note_object_def Let_def needed_oid_def have_oid_def named_oid_def have_packets_def List.map_filter_def
        and_then_Ok_iff split: option.splits)
qed

lemma note_objects_Ok:
  "note_objects objects packets = Ok objects' \<Longrightarrow>
     objects' = \<lparr>fo_required = fo_required objects \<union> (\<Union>p \<in> set packets. set_option (needed_oid (up_payload p))),
       fo_haves = fo_haves objects \<union> (\<Union>p \<in> set packets. set_option (have_oid (up_payload p))),
       fo_have_packets = fo_have_packets objects @ have_packets packets\<rparr>"
proof (induction packets arbitrary: objects)
  case Nil
  then show ?case by (simp add: have_packets_def List.map_filter_def)
next
  case (Cons p ps)
  then obtain o1 where o1: "note_object objects p = Ok o1" "note_objects o1 ps = Ok objects'"
    by (auto simp: and_then_Ok_iff)
  from Cons.IH [OF o1(2)] note_object_Ok [OF o1(1)] show ?case
    by (auto simp: have_packets_def List.map_filter_def)
qed

text \<open>What reaches Git: every segment but the packets of unknown objects, the first of which may be replaced.\<close>

fun names_have :: "(string \<Rightarrow> bool) \<Rightarrow> segment \<Rightarrow> bool" where
  "names_have P (Marker h) = False"
| "names_have P (Packet h p) = (case have_oid p of Some oid \<Rightarrow> P oid | None \<Rightarrow> False)"

fun replace_unknown :: "string set \<Rightarrow> segment option \<Rightarrow> segment list \<Rightarrow> segment list" where
  "replace_unknown known stand_in [] = []"
| "replace_unknown known stand_in (seg # segs) =
     (if names_have (\<lambda>oid. oid \<notin> known) seg
      then (case stand_in of None \<Rightarrow> [] | Some s \<Rightarrow> [s]) @ replace_unknown known None segs
      else seg # replace_unknown known stand_in segs)"

definition unknown_have_line :: string where
  "unknown_have_line = ''have '' @ UNKNOWN_HAVE @ [CHR 0x0A]"

definition unknown_have_packet :: segment where
  "unknown_have_packet = Packet (pkt_header (length unknown_have_line + 4)) unknown_have_line"

definition forwarded :: "string set \<Rightarrow> segment list \<Rightarrow> segment list" where
  "forwarded known segs = replace_unknown known
     (if list_ex (names_have (\<lambda>oid. oid \<in> known)) segs then None else Some unknown_have_packet) segs"

lemma unknown_have_packet_ok: "segment_ok unknown_have_packet" "raw unknown_have_packet = pkt_line unknown_have_line"
  using pkt_line_ok [of unknown_have_line]
  by (simp_all add: unknown_have_packet_def unknown_have_line_def UNKNOWN_HAVE_def)

lemma unknown_have_packet_oid: "have_oid unknown_have_line = Some UNKNOWN_HAVE"
proof -
  have "strip_prefix ''have '' unknown_have_line = Some (UNKNOWN_HAVE @ [CHR 0x0A])"
    by (simp add: unknown_have_line_def strip_prefix_def)
  moreover have "upload_pack_oid (UNKNOWN_HAVE @ [CHR 0x0A]) = Ok UNKNOWN_HAVE" by code_simp
  ultimately show ?thesis by (simp add: have_oid_def named_oid_def)
qed

lemma replace_unknown_mem:
  "seg \<in> set (replace_unknown known stand_in segs) \<Longrightarrow>
     seg \<in> set segs \<and> \<not> names_have (\<lambda>oid. oid \<notin> known) seg \<or> Some seg = stand_in"
  by (induction segs arbitrary: stand_in) (auto split: if_splits option.splits)

lemma replace_unknown_all_known:
  "\<not> list_ex (names_have (\<lambda>oid. oid \<notin> known)) segs \<Longrightarrow> replace_unknown known stand_in segs = segs"
  by (induction segs) auto

lemma without_unknown_segments:
  assumes "list_all segment_ok segs" and "copied \<le> length before"
    and "\<And>a b oid. (a, b, oid) \<in> set (have_packets (placed (length before) segs)) \<Longrightarrow> oid \<in> unknown \<longleftrightarrow> oid \<notin> known"
  shows "without_unknown (before @ concat (map raw segs)) unknown copied (map_option raw stand_in)
      (have_packets (placed (length before) segs))
    = drop copied before @ concat (map raw (replace_unknown known stand_in segs))"
  using assms
proof (induction segs arbitrary: before copied stand_in)
  case Nil
  then show ?case by (simp add: have_packets_def List.map_filter_def)
next
  case (Cons seg segs)
  have hp: "have_packets (x # xs) = have_packets [x] @ have_packets xs" for x xs
    by (simp add: have_packets_def List.map_filter_def)
  have pass: "without_unknown ((before @ raw seg) @ concat (map raw segs)) unknown copied (map_option raw stand_in)
      (have_packets (placed (length (before @ raw seg)) segs))
    = drop copied before @ raw seg @ concat (map raw (replace_unknown known stand_in segs))"
    if "\<And>a b oid. (a, b, oid) \<in> set (have_packets (placed (length (before @ raw seg)) segs)) \<Longrightarrow> oid \<in> unknown \<longleftrightarrow> oid \<notin> known"
    using Cons.IH [of copied "before @ raw seg" stand_in] Cons.prems(1,2) that by simp
  show ?case
  proof (cases seg)
    case (Marker h)
    with Cons.prems pass show ?thesis by simp
  next
    case (Packet h p)
    let ?at = "\<lparr>up_start = length before, up_end = length before + (length p + 4), up_payload = p\<rparr>"
    have at: "placed (length before) (seg # segs) = ?at # placed (length (before @ raw seg)) segs"
      using Cons.prems(1) by (simp add: Packet add.commute)
    have later: "oid \<in> unknown \<longleftrightarrow> oid \<notin> known"
      if "(a, b, oid) \<in> set (have_packets (placed (length (before @ raw seg)) segs))" for a b oid
      using Cons.prems(3) that unfolding at hp [of ?at "placed (length (before @ raw seg)) segs"] by (metis Un_iff set_append)
    show ?thesis
    proof (cases "have_oid p")
      case None
      then have "have_packets [?at] = []" by (simp add: have_packets_def List.map_filter_def)
      with pass [OF later] None show ?thesis unfolding at hp [of ?at "placed (length (before @ raw seg)) segs"] by (simp add: Packet)
    next
      case (Some oid)
      then have e: "have_packets [?at] = [(length before, length before + (length p + 4), oid)]"
        by (simp add: have_packets_def List.map_filter_def)
      have u: "oid \<in> unknown \<longleftrightarrow> oid \<notin> known"
        using Cons.prems(3) unfolding at hp [of ?at "placed (length (before @ raw seg)) segs"] e by auto
      show ?thesis
      proof (cases "oid \<in> known")
        case True
        with pass [OF later] Some u show ?thesis unfolding at hp [of ?at "placed (length (before @ raw seg)) segs"] e by (simp add: Packet)
      next
        case False
        have "length (before @ raw seg) = length before + (length p + 4)" using Cons.prems(1) by (simp add: Packet)
        with Cons.IH [of "length (before @ raw seg)" "before @ raw seg" None] Cons.prems(1) later
        have "without_unknown ((before @ raw seg) @ concat (map raw segs)) unknown (length before + (length p + 4)) None
            (have_packets (placed (length (before @ raw seg)) segs)) = concat (map raw (replace_unknown known None segs))"
          by simp
        with False Some u show ?thesis unfolding at hp [of ?at "placed (length (before @ raw seg)) segs"] e
          by (cases stand_in) (simp_all add: Packet)
      qed
    qed
  qed
qed

definition visible_oids :: "(api_error, string) result \<Rightarrow> (api_error, string) result \<Rightarrow> string set" where
  "visible_oids ref_tips reachable_objects =
     (case ref_tips of Inr tips \<Rightarrow> set (split_on CHR 0x0A tips) | Inl _ \<Rightarrow> {})
     \<union> (case reachable_objects of Inr listing \<Rightarrow> set (map (takeWhile (\<lambda>c. c \<noteq> CHR '' '')) (buf_split listing)) | Inl _ \<Rightarrow> {})"

lemma placed_payloads: "up_payload ` set (placed n segs) = {p. \<exists>h. Packet h p \<in> set segs}"
  by (induction n segs rule: placed.induct) auto

lemma have_packets_oids: "(\<exists>a b. (a, b, oid) \<in> set (have_packets ps)) \<longleftrightarrow> (\<exists>p \<in> set ps. have_oid (up_payload p) = Some oid)"
  by (force simp: have_packets_def List.map_filter_def)

definition no_objects :: fetch_objects where
  "no_objects = \<lparr>fo_required = {}, fo_haves = {}, fo_have_packets = []\<rparr>"

lemma names_have_iff: "names_have P seg \<longleftrightarrow> (\<exists>h p oid. seg = Packet h p \<and> have_oid p = Some oid \<and> P oid)"
  by (cases seg) (auto split: option.splits)

lemma noted_objects:
  assumes "note_objects no_objects packets = Ok objects" and "packets = placed n segs"
  shows "fo_required objects = {oid. \<exists>h p. Packet h p \<in> set segs \<and> needed_oid p = Some oid}"
    and "fo_haves objects = {oid. \<exists>h p. Packet h p \<in> set segs \<and> have_oid p = Some oid}"
    and "fo_have_packets objects = have_packets packets"
    and "(\<exists>a b. (a, b, oid) \<in> set (have_packets packets)) \<longleftrightarrow> oid \<in> fo_haves objects"
proof -
  have payloads: "(\<exists>pk \<in> set packets. f (up_payload pk) = Some oid) \<longleftrightarrow> (\<exists>h p. Packet h p \<in> set segs \<and> f p = Some oid)"
    for f and oid :: string
  proof -
    have "(\<exists>pk \<in> set packets. f (up_payload pk) = Some oid) \<longleftrightarrow> (\<exists>q \<in> up_payload ` set packets. f q = Some oid)" by simp
    also have "\<dots> \<longleftrightarrow> (\<exists>h p. Packet h p \<in> set segs \<and> f p = Some oid)" unfolding assms(2) placed_payloads by blast
    finally show ?thesis .
  qed
  have union: "(\<Union>pk \<in> set packets. set_option (f (up_payload pk))) = {oid. \<exists>h p. Packet h p \<in> set segs \<and> f p = Some oid}" for f :: "string \<Rightarrow> string option"
    by (rule set_eqI) (simp add: elem_set payloads [of f])
  note N = note_objects_Ok [OF assms(1)]
  show "fo_required objects = {oid. \<exists>h p. Packet h p \<in> set segs \<and> needed_oid p = Some oid}"
    and haves: "fo_haves objects = {oid. \<exists>h p. Packet h p \<in> set segs \<and> have_oid p = Some oid}"
    and "fo_have_packets objects = have_packets packets"
    by (subst N, simp add: no_objects_def union)+
  show "(\<exists>a b. (a, b, oid) \<in> set (have_packets packets)) \<longleftrightarrow> oid \<in> fo_haves objects"
    unfolding have_packets_oids payloads [of have_oid] haves by simp
qed

lemma prepare_cases:
  assumes "prepare_upload_pack_request ref_tips reachable_objects request = Ok prepared"
    and "upload_pack_packets request = Ok packets" and "note_objects no_objects packets = Ok objects"
  obtains (same) "prepared = request" "fo_required objects \<subseteq> visible_oids ref_tips reachable_objects"
      "fo_haves objects \<subseteq> visible_oids ref_tips reachable_objects"
  | (filtered) unknown where "unknown = fo_haves objects - visible_oids ref_tips reachable_objects"
      "fo_required objects \<subseteq> visible_oids ref_tips reachable_objects"
      "prepared = without_unknown request unknown 0
        (if list_all (\<lambda>(_, _, oid). oid \<in> unknown) (fo_have_packets objects) then Some (pkt_line unknown_have_line) else None)
        (fo_have_packets objects)"
proof -
  note P = assms(1) [unfolded prepare_upload_pack_request_def no_objects_def [symmetric] assms(2) and_then_simps assms(3)]
  show thesis
  proof (cases "fo_required objects = {} \<and> fo_haves objects = {}")
    case True
    with P show thesis by (intro same) simp_all
  next
    case ne: False
    note P1 = P [unfolded if_not_P [OF ne]]
    obtain tips where t: "ref_tips = Ok tips" using P1 by (cases ref_tips) simp_all
    let ?tips = "set (split_on CHR 0x0A tips)"
    note P2 = P1 [unfolded t and_then_simps Let_def]
    have tips: "?tips \<subseteq> visible_oids ref_tips reachable_objects" by (simp add: visible_oids_def t)
    show thesis
    proof (cases "fo_required objects - ?tips = {} \<and> fo_haves objects - ?tips = {}")
      case True
      with P2 have "prepared = request" by (simp only: if_P) simp
      with True tips show thesis by (intro same) auto
    next
      case ne': False
      note P3 = P2 [unfolded if_not_P [OF ne']]
      obtain listing where l: "reachable_objects = Ok listing" using P3 by (cases reachable_objects) simp_all
      let ?oids = "set (map (takeWhile (\<lambda>c. c \<noteq> CHR '' '')) (buf_split listing))"
      note P4 = P3 [unfolded l and_then_simps]
      have v: "visible_oids ref_tips reachable_objects = ?tips \<union> ?oids" by (simp add: visible_oids_def t l)
      have req: "\<not> fo_required objects - ?tips - ?oids \<noteq> {}"
      proof
        assume "fo_required objects - ?tips - ?oids \<noteq> {}"
        with P4 show False by (simp only: if_P) simp
      qed
      note P5 = P4 [unfolded if_not_P [OF req]]
      show thesis
      proof (rule filtered)
        show "fo_haves objects - ?tips - ?oids = fo_haves objects - visible_oids ref_tips reachable_objects"
          unfolding v by blast
        show "fo_required objects \<subseteq> visible_oids ref_tips reachable_objects" unfolding v using req by blast
        show "prepared = without_unknown request (fo_haves objects - ?tips - ?oids) 0
            (if list_all (\<lambda>(_, _, oid). oid \<in> fo_haves objects - ?tips - ?oids) (fo_have_packets objects)
             then Some (pkt_line unknown_have_line) else None) (fo_have_packets objects)"
          using P5 unfolding unknown_have_line_def sum.inject by (rule sym)
      qed
    qed
  qed
qed

text \<open>
  C8: A fetch reaches Git without a trace of hidden objects. When a request for a pack is accepted, every object it
  wants, or declares as a shallow boundary, is the tip of a visible reference or reachable from one. What Git receives
  is the request, packet by packet and marker by marker, without the packets that claim to have an unknown object; if
  every claim is unknown, the first is replaced by one of the zero identifier. So the only claims Git sees are of
  visible objects or of none.
\<close>

theorem fetch_names_visible_objects:
  assumes "prepare_upload_pack_request ref_tips reachable_objects request = Ok prepared"
  defines "known \<equiv> visible_oids ref_tips reachable_objects"
  shows "\<exists>segs. list_all segment_ok segs \<and> request = concat (map raw segs)
    \<and> (\<forall>h p oid. Packet h p \<in> set segs \<and> needed_oid p = Some oid \<longrightarrow> oid \<in> known)
    \<and> list_all segment_ok (forwarded known segs) \<and> prepared = concat (map raw (forwarded known segs))
    \<and> (\<forall>h p oid. Packet h p \<in> set (forwarded known segs) \<and> have_oid p = Some oid \<longrightarrow> oid \<in> known \<or> oid = UNKNOWN_HAVE)"
proof -
  obtain packets objects where p: "upload_pack_packets request = Ok packets" "note_objects no_objects packets = Ok objects"
    using assms(1) by (auto simp: prepare_upload_pack_request_def and_then_Ok_iff no_objects_def)
  obtain segs where segs: "list_all segment_ok segs" "request = concat (map raw segs)" "packets = placed 0 segs"
    using segments_of_packets p(1) unfolding upload_pack_packets_def by blast
  note objects = noted_objects [OF p(2) segs(3)]
  have "prepared = concat (map raw (forwarded known segs)) \<and> fo_required objects \<subseteq> known"
    using assms(1) p
  proof (cases rule: prepare_cases)
    case same
    then have "\<not> list_ex (names_have (\<lambda>oid. oid \<notin> known)) segs"
      unfolding known_def list_ex_iff names_have_iff objects(2) by blast
    with same segs(2) show ?thesis by (simp add: forwarded_def replace_unknown_all_known known_def)
  next
    case (filtered unknown)
    have un: "oid \<in> unknown \<longleftrightarrow> oid \<notin> known" if "(a, b, oid) \<in> set (have_packets packets)" for a b oid
      using objects(4) [of oid] that filtered(1) by (auto simp: known_def)
    have "list_all (\<lambda>(_, _, oid). oid \<in> unknown) (have_packets packets)
        \<longleftrightarrow> (\<forall>a b oid. (a, b, oid) \<in> set (have_packets packets) \<longrightarrow> oid \<in> unknown)" by (auto simp: list_all_iff)
    also have "\<dots> \<longleftrightarrow> (\<forall>oid. (\<exists>a b. (a, b, oid) \<in> set (have_packets packets)) \<longrightarrow> oid \<notin> known)"
      using un by blast
    also have "\<dots> \<longleftrightarrow> \<not> list_ex (names_have (\<lambda>oid. oid \<in> known)) segs"
      unfolding objects(4) objects(2) list_ex_iff names_have_iff by blast
    finally have all: "list_all (\<lambda>(_, _, oid). oid \<in> unknown) (have_packets packets)
        \<longleftrightarrow> \<not> list_ex (names_have (\<lambda>oid. oid \<in> known)) segs" .
    have "prepared = concat (map raw (forwarded known segs))"
      using without_unknown_segments [of segs 0 "[]" unknown known
          "if list_ex (names_have (\<lambda>oid. oid \<in> known)) segs then None else Some unknown_have_packet"] segs un
      unfolding filtered(3) objects(3) all by (simp add: forwarded_def unknown_have_packet_ok(2) split: if_splits)
    with filtered(2) show ?thesis by (simp add: known_def)
  qed
  moreover have mem: "seg \<in> set segs \<and> \<not> names_have (\<lambda>oid. oid \<notin> known) seg \<or> seg = unknown_have_packet"
    if "seg \<in> set (forwarded known segs)" for seg
    using replace_unknown_mem [OF that [unfolded forwarded_def]] by (auto split: if_splits)
  moreover have "list_all segment_ok (forwarded known segs)"
    using mem segs(1) unknown_have_packet_ok(1) by (auto simp: list_all_iff)
  moreover have "oid \<in> known \<or> oid = UNKNOWN_HAVE"
    if "Packet h p \<in> set (forwarded known segs)" "have_oid p = Some oid" for h p oid
    using mem [OF that(1)] that(2) unknown_have_packet_oid by (auto simp: unknown_have_packet_def)
  ultimately show ?thesis
    using segs(1,2) objects(1) by (intro exI [of _ segs]) blast
qed

lemma fetch_names_visible_objects_witness:
  "\<exists>prepared segs. prepare_upload_pack_request (Ok (replicate 40 CHR ''a'' @ [CHR 0x0A])) (Ok [])
      (pkt_line (''want '' @ replicate 40 CHR ''a'') @ FLUSH) = Ok prepared
    \<and> pkt_line (''want '' @ replicate 40 CHR ''a'') @ FLUSH = concat (map raw segs)
    \<and> prepared = concat (map raw (forwarded {replicate 40 CHR ''a'', []} segs))"
proof -
  let ?tips = "Ok (replicate 40 CHR ''a'' @ [CHR 0x0A]) :: (api_error, string) result"
  let ?request = "pkt_line (''want '' @ replicate 40 CHR ''a'') @ FLUSH"
  have ok: "is_ok (prepare_upload_pack_request ?tips (Ok []) ?request)" by code_simp
  then obtain prepared where p: "prepare_upload_pack_request ?tips (Ok []) ?request = Ok prepared"
    by (auto simp: is_ok_iff)
  have v: "visible_oids ?tips (Ok []) = {replicate 40 CHR ''a'', []}"
    by (simp add: visible_oids_def buf_split_def numeral_eq_Suc)
  from fetch_names_visible_objects [OF p, unfolded v] p show ?thesis by blast
qed

section \<open>The commands of a push\<close>

text \<open>More bytes do not change an answer once there is one.\<close>

lemma command_refs_from_stable:
  "command_refs_from refs buffer \<noteq> Ok None \<Longrightarrow> command_refs_from refs (buffer @ later) = command_refs_from refs buffer"
proof (induction refs buffer rule: command_refs_from.induct)
  case (1 refs buffer)
  note step = command_refs_from.simps [of refs]
  have l: "length buffer \<ge> 4" using "1.prems" by (subst (asm) step) (auto split: if_splits)
  show ?case
  proof (cases "hex_usize (take 4 buffer)")
    case None
    with l show ?thesis by (subst (1 2) step) simp
  next
    case (Some n)
    show ?thesis
    proof (cases "n \<le> 4")
      case True
      with Some l show ?thesis by (subst (1 2) step) simp
    next
      case False
      then have n: "length buffer \<ge> n" using "1.prems" Some l by (subst (asm) step) (auto split: if_splits)
      then have cut: "drop 4 (take n (buffer @ later)) = drop 4 (take n buffer)" "drop n (buffer @ later) = drop n buffer @ later"
        by simp_all
      show ?thesis
      proof (cases "command_ref (drop 4 (take n buffer))")
        case (Inl e)
        with Some False l n cut show ?thesis by (subst (1 2) step) simp
      next
        case (Inr found)
        let ?refs = "case found of None \<Rightarrow> refs | Some refname \<Rightarrow> refs @ [refname]"
        have "command_refs_from refs buffer = command_refs_from ?refs (drop n buffer)"
          using Some False l n Inr by (subst step) simp
        moreover have "command_refs_from refs (buffer @ later) = command_refs_from ?refs (drop n buffer @ later)"
          using Some False l n cut Inr by (subst step) simp
        ultimately show ?thesis using "1.IH" [of n found] "1.prems" l Some False n by simp
      qed
    qed
  qed
qed

fun chunk_bytes :: "body_event list \<Rightarrow> string" where
  "chunk_bytes [] = []"
| "chunk_bytes (BodyChunk b # events) = b @ chunk_bytes events"
| "chunk_bytes (_ # events) = chunk_bytes events"

lemma read_commands_chunk:
  "read_commands buffered [] =
     and_then (command_refs buffered) (\<lambda>found. case found of
       Some refs \<Rightarrow> Ok \<lparr>rpc_refs = refs, rpc_body = [BodyChunk buffered]\<rparr>
     | None \<Rightarrow> if length buffered > MAX_COMMAND_BYTES then
           Err (ApiPayloadTooLarge ''git receive-pack commands are too large'')
         else Err (ApiBadRequest ''git receive-pack body ended before its commands''))"
  "read_commands buffered (BodyChunk c # events) =
     and_then (command_refs buffered) (\<lambda>found. case found of
       Some refs \<Rightarrow> Ok \<lparr>rpc_refs = refs, rpc_body = BodyChunk buffered # BodyChunk c # events\<rparr>
     | None \<Rightarrow> if length buffered > MAX_COMMAND_BYTES then
           Err (ApiPayloadTooLarge ''git receive-pack commands are too large'')
         else read_commands (buffered @ c) events)"
  by (simp_all add: read_commands.simps [of buffered])

lemma read_commands_chunks:
  assumes "read_commands buffered (map BodyChunk chunks) = Ok r"
  shows "command_refs (buffered @ concat chunks) = Ok (Some (rpc_refs r)) \<and> chunk_bytes (rpc_body r) = buffered @ concat chunks"
  using assms
proof (induction chunks arbitrary: buffered)
  case Nil
  then show ?case
    unfolding list.map read_commands_chunk(1) and_then_Ok_iff by (elim exE conjE) (auto split: option.splits if_splits)
next
  case (Cons c chunks)
  have bytes: "chunk_bytes (map BodyChunk cs) = concat cs" for cs by (induction cs) simp_all
  note R = Cons.prems [unfolded list.map read_commands_chunk(2)]
  then obtain found where f: "command_refs buffered = Ok found" by (auto simp: and_then_Ok_iff)
  show ?case
  proof (cases found)
    case None
    with R f have "read_commands (buffered @ c) (map BodyChunk chunks) = Ok r" by (simp split: if_splits)
    with Cons.IH [of "buffered @ c"] show ?thesis by simp
  next
    case (Some refs)
    with R f have "r = \<lparr>rpc_refs = refs, rpc_body = BodyChunk buffered # map BodyChunk (c # chunks)\<rparr>" by simp
    with command_refs_from_stable [of "[]" buffered "concat (c # chunks)"] f Some show ?thesis
      by (simp add: command_refs_def bytes)
  qed
qed

lemma read_commands_complete:
  assumes "command_refs (buffered @ concat chunks) = Ok (Some refs)" and "length (buffered @ concat chunks) \<le> MAX_COMMAND_BYTES"
  shows "is_ok (read_commands buffered (map BodyChunk chunks))"
  using assms
proof (induction chunks arbitrary: buffered)
  case Nil
  then show ?case by (simp add: read_commands_chunk(1))
next
  case (Cons c chunks)
  have stable: "command_refs buffered = Ok None \<or> command_refs buffered = Ok (Some refs)"
    using command_refs_from_stable [of "[]" buffered "concat (c # chunks)"] Cons.prems(1)
    by (simp add: command_refs_def) metis
  moreover have "is_ok (read_commands (buffered @ c) (map BodyChunk chunks))"
    using Cons.IH [of "buffered @ c"] Cons.prems by simp
  ultimately show ?case using Cons.prems(2) by (auto simp: read_commands_chunk(2))
qed

text \<open>
  C26: The commands of a push do not depend on how its body arrives. However the body is cut into chunks, the references
  found are those of the whole body and the body handed on to Git is the whole body; and a body within the limit whose
  commands are complete is always accepted.
\<close>

theorem push_commands_independent_of_chunks:
  "(\<forall>r. read_receive_pack_commands (map BodyChunk chunks) = Ok r \<longrightarrow>
      command_refs (concat chunks) = Ok (Some (rpc_refs r)) \<and> chunk_bytes (rpc_body r) = concat chunks)
   \<and> (\<forall>refs. command_refs (concat chunks) = Ok (Some refs) \<and> length (concat chunks) \<le> MAX_COMMAND_BYTES \<longrightarrow>
      is_ok (read_receive_pack_commands (map BodyChunk chunks)))"
  using read_commands_chunks [of "[]" chunks] read_commands_complete [of "[]" chunks]
  by (simp add: read_receive_pack_commands_def)

lemma push_commands_independent_of_chunks_witness:
  "command_refs (concat [''00'', ''00PACK'']) = Ok (Some [])
    \<and> is_ok (read_receive_pack_commands (map BodyChunk [''00'', ''00PACK'']))"
proof -
  have c: "command_refs (concat [''00'', ''00PACK'']) = Ok (Some [])"
    by (simp add: command_refs_def command_refs_from.simps hex_usize_def hex_digit_def)
  with push_commands_independent_of_chunks [of "[''00'', ''00PACK'']"] show ?thesis by (simp add: MAX_COMMAND_BYTES_def)
qed

end
